(* ===== verification/Go_Prelude.thy ===== *)
theory Go_Prelude
  imports Main "HOL-Library.Word" "HOL-Library.Sublist" "HOL-Library.Multiset" "HOL-Library.AList"
begin

text \<open>
  Shared vocabulary of the development: the outcome of a Go call (a value, a returned
  \<^verbatim>\<open>error\<close> or a panic), Go functions that mutate state as state transformers whose state
  survives an error return, the loops the sources use, Go maps as association lists with
  distinct keys, and the generic list lemmas the components share.
\<close>

section \<open>Outcomes of a Go call\<close>

text \<open>
  An \<^verbatim>\<open>error\<close> value is one of the sentinels of package \<open>io\<close>, a failure reported by the
  network or the operating system, or the result of \<^verbatim>\<open>fmt.Errorf\<close> (the text of the format,
  shortened in places, with the arguments that are substituted into it).
\<close>

datatype go_arg = AStr string | AInt int | AErr go_error
  and go_error =
    EOF
  | ErrUnexpectedEOF
  | ErrClosed
  | ErrIO string
  | Errorf string "go_arg list"

text \<open>An apostrophe, for the formats that end with one.\<close>

definition apos :: string where
  "apos = [CHR 0x27]"

datatype 'a outcome = Ok 'a | Err go_error | Panic string

type_synonym ('s, 'a) go = "'s \<Rightarrow> 'a outcome \<times> 's"

named_theorems go_run "equations that execute a Go computation on a state"
named_theorems go_split "split rules for the outcome of a Go computation"

definition gret :: "'a \<Rightarrow> ('s, 'a) go" where
  "gret a = (\<lambda>s. (Ok a, s))"

definition gerr :: "go_error \<Rightarrow> ('s, 'a) go" where
  "gerr e = (\<lambda>s. (Err e, s))"

definition gpanic :: "string \<Rightarrow> ('s, 'a) go" where
  "gpanic p = (\<lambda>s. (Panic p, s))"

definition gbind :: "('s, 'a) go \<Rightarrow> ('a \<Rightarrow> ('s, 'b) go) \<Rightarrow> ('s, 'b) go" where
  "gbind m f = (\<lambda>s. case m s of
       (Ok a, s') \<Rightarrow> f a s'
     | (Err e, s') \<Rightarrow> (Err e, s')
     | (Panic p, s') \<Rightarrow> (Panic p, s'))"

definition gread :: "('s \<Rightarrow> 'a) \<Rightarrow> ('s, 'a) go" where
  "gread f = (\<lambda>s. (Ok (f s), s))"

definition gmodify :: "('s \<Rightarrow> 's) \<Rightarrow> ('s, unit) go" where
  "gmodify f = (\<lambda>s. (Ok (), f s))"

text \<open>A pure function that may fail, run inside a stateful one.\<close>

definition glift :: "'a outcome \<Rightarrow> ('s, 'a) go" where
  "glift r = (\<lambda>s. (r, s))"

text \<open>
  \<open>gzoom get put m\<close> runs \<open>m\<close> on the part of the state that \<open>get\<close> selects and stores the
  changed part with \<open>put\<close>, whatever the outcome.
\<close>

definition gzoom :: "('s \<Rightarrow> 't) \<Rightarrow> ('t \<Rightarrow> 's \<Rightarrow> 's) \<Rightarrow> ('t, 'a) go \<Rightarrow> ('s, 'a) go" where
  "gzoom get put m = (\<lambda>s. case m (get s) of (r, t) \<Rightarrow> (r, put t s))"

text \<open>A deferred call changes the state when the function returns, whatever the outcome.\<close>

definition gfinally :: "('s, 'a) go \<Rightarrow> ('s \<Rightarrow> 's) \<Rightarrow> ('s, 'a) go" where
  "gfinally m f = (\<lambda>s. case m s of (r, s') \<Rightarrow> (r, f s'))"

text \<open>\<^verbatim>\<open>for _, x = range xs\<close> with an early return on error, and the loop that fills a slice.\<close>

fun gfor :: "'a list \<Rightarrow> ('a \<Rightarrow> ('s, unit) go) \<Rightarrow> ('s, unit) go" where
  "gfor [] f = gret ()"
| "gfor (x # xs) f = gbind (f x) (\<lambda>_. gfor xs f)"

fun gtimes :: "nat \<Rightarrow> ('s, 'a) go \<Rightarrow> ('s, 'a list) go" where
  "gtimes 0 m = gret []"
| "gtimes (Suc n) m = gbind m (\<lambda>x. gbind (gtimes n m) (\<lambda>xs. gret (x # xs)))"

fun gmap :: "('a \<Rightarrow> ('s, 'b) go) \<Rightarrow> 'a list \<Rightarrow> ('s, 'b list) go" where
  "gmap f [] = gret []"
| "gmap f (x # xs) = gbind (f x) (\<lambda>y. gbind (gmap f xs) (\<lambda>ys. gret (y # ys)))"

definition obind :: "'a outcome \<Rightarrow> ('a \<Rightarrow> 'b outcome) \<Rightarrow> 'b outcome" where
  "obind m f = (case m of Ok a \<Rightarrow> f a | Err e \<Rightarrow> Err e | Panic p \<Rightarrow> Panic p)"

lemma gret_run [go_run]: "gret a s = (Ok a, s)"
  by (simp add: gret_def)

lemma gerr_run [go_run]: "gerr e s = (Err e, s)"
  by (simp add: gerr_def)

lemma gpanic_run [go_run]: "gpanic p s = (Panic p, s)"
  by (simp add: gpanic_def)

lemma gread_run [go_run]: "gread f s = (Ok (f s), s)"
  by (simp add: gread_def)

lemma gmodify_run [go_run]: "gmodify f s = (Ok (), f s)"
  by (simp add: gmodify_def)

lemma glift_run [go_run]: "glift r s = (r, s)"
  by (simp add: glift_def)

lemma gbind_Ok [go_run]: "m s = (Ok a, s') \<Longrightarrow> gbind m f s = f a s'"
  by (simp add: gbind_def)

lemma gbind_Err [go_run]: "m s = (Err e, s') \<Longrightarrow> gbind m f s = (Err e, s')"
  by (simp add: gbind_def)

lemma gbind_Panic [go_run]: "m s = (Panic p, s') \<Longrightarrow> gbind m f s = (Panic p, s')"
  by (simp add: gbind_def)

lemma gzoom_run [go_run]: "m (get s) = (r, t) \<Longrightarrow> gzoom get put m s = (r, put t s)"
  by (simp add: gzoom_def)

lemma gbind_assoc: "gbind (gbind m f) g = gbind m (\<lambda>x. gbind (f x) g)"
  by (auto simp: gbind_def split: prod.splits outcome.splits)

lemma gbind_gret_left [simp]: "gbind (gret a) f = f a"
  by (simp add: gbind_def gret_def)

lemma gbind_gret_right [simp]: "gbind m gret = m"
  by (rule ext) (auto simp: gbind_def gret_def split: prod.splits outcome.splits)

lemma gbind_gerr_left [simp]: "gbind (gerr e) f = gerr e"
  by (simp add: gbind_def gerr_def)

lemma gbind_split [go_split]:
  "P (gbind m f s) \<longleftrightarrow>
     (\<forall>a s'. m s = (Ok a, s') \<longrightarrow> P (f a s'))
   \<and> (\<forall>e s'. m s = (Err e, s') \<longrightarrow> P (Err e, s'))
   \<and> (\<forall>p s'. m s = (Panic p, s') \<longrightarrow> P (Panic p, s'))"
  by (auto simp: gbind_def split: prod.splits outcome.splits)

lemma gbind_OkE:
  assumes "gbind m f s = (Ok b, t)"
  obtains a s' where "m s = (Ok a, s')" and "f a s' = (Ok b, t)"
  using assms by (auto simp: gbind_def split: prod.splits outcome.splits)

lemma gbind_cong_run:
  "m s = m' s \<Longrightarrow> (\<And>a s'. m' s = (Ok a, s') \<Longrightarrow> f a s' = f' a s') \<Longrightarrow> gbind m f s = gbind m' f' s"
  by (auto simp: gbind_def split: prod.splits outcome.splits)

text \<open>A loop whose body only checks is a pure check of the list.\<close>

lemma gfor_append: "gfor (xs @ ys) f = gbind (gfor xs f) (\<lambda>_. gfor ys f)"
  by (induction xs) (auto simp: gbind_assoc)

lemma gfor_check:
  assumes "\<And>x. x \<in> set xs \<Longrightarrow> f x s = (Ok (), s)"
  shows "gfor xs f s = (Ok (), s)"
  using assms by (induction xs) (auto simp: go_run)

lemma gfor_check_fails:
  assumes "\<And>x. x \<in> set xs \<Longrightarrow> P x \<Longrightarrow> f x s = (Ok (), s)"
    and "\<And>x. x \<in> set xs \<Longrightarrow> \<not> P x \<Longrightarrow> \<exists>e. f x s = (Err e, s)"
    and "\<exists>x \<in> set xs. \<not> P x"
  shows "\<exists>e. gfor xs f s = (Err e, s)"
  using assms
proof (induction xs)
  case Nil
  then show ?case by simp
next
  case (Cons x xs)
  show ?case
  proof (cases "P x")
    case True
    with Cons.prems have "f x s = (Ok (), s)" and "\<exists>y \<in> set xs. \<not> P y" by auto
    moreover from this Cons have "\<exists>e. gfor xs f s = (Err e, s)" by auto
    ultimately show ?thesis by (auto simp: go_run)
  next
    case False
    with Cons.prems(2) obtain e where "f x s = (Err e, s)" by auto
    then show ?thesis by (auto simp: go_run)
  qed
qed

lemma gtimes_length: "gtimes n m s = (Ok xs, s') \<Longrightarrow> length xs = n"
  by (induction n arbitrary: xs s s') (auto simp: go_run elim!: gbind_OkE)

text \<open>A computation that leaves a part of the state alone, whatever its outcome.\<close>

definition keeps :: "('s \<Rightarrow> 't) \<Rightarrow> ('s, 'a) go \<Rightarrow> bool" where
  "keeps f m \<longleftrightarrow> (\<forall>s r s'. m s = (r, s') \<longrightarrow> f s' = f s)"

lemma keepsD: "keeps f m \<Longrightarrow> m s = (r, s') \<Longrightarrow> f s' = f s"
  by (simp add: keeps_def)

lemma keeps_gret: "keeps f (gret a)"
  by (simp add: keeps_def gret_def)

lemma keeps_gerr: "keeps f (gerr e)"
  by (simp add: keeps_def gerr_def)

lemma keeps_gbind: "keeps f m \<Longrightarrow> (\<And>a. keeps f (g a)) \<Longrightarrow> keeps f (gbind m g)"
  by (auto simp: keeps_def gbind_def split: prod.splits outcome.splits)

lemma keeps_gfor: "(\<And>x. keeps f (g x)) \<Longrightarrow> keeps f (gfor xs g)"
  by (induction xs) (auto intro: keeps_gret keeps_gbind)

lemma keeps_If: "(b \<Longrightarrow> keeps f m) \<Longrightarrow> (\<not> b \<Longrightarrow> keeps f m') \<Longrightarrow> keeps f (if b then m else m')"
  by simp

lemmas keeps_intros = keeps_gret keeps_gerr keeps_gbind keeps_gfor keeps_If

section \<open>Go maps\<close>

text \<open>
  A Go map is an association list without duplicate keys. Its order is the order of the
  entries in this list only for the model: a \<^verbatim>\<open>range\<close> loop visits the entries in an order the
  language leaves open, so a definition that ranges over a map takes the order as an argument
  and its theorems hold for every order (\<open>gomap_order\<close>).
\<close>

type_synonym ('k, 'v) gomap = "('k \<times> 'v) list"

definition gomap_ok :: "('k, 'v) gomap \<Rightarrow> bool" where
  "gomap_ok m \<longleftrightarrow> distinct (map fst m)"

definition gomap_order :: "('k, 'v) gomap \<Rightarrow> ('k \<times> 'v) list \<Rightarrow> bool" where
  "gomap_order m it \<longleftrightarrow> mset it = mset m"

definition gomap_set :: "'k \<Rightarrow> 'v \<Rightarrow> ('k, 'v) gomap \<Rightarrow> ('k, 'v) gomap" where
  "gomap_set k v m = AList.update k v m"

definition gomap_del :: "'k \<Rightarrow> ('k, 'v) gomap \<Rightarrow> ('k, 'v) gomap" where
  "gomap_del k m = AList.delete k m"

abbreviation gomap_get :: "('k, 'v) gomap \<Rightarrow> 'k \<Rightarrow> 'v option" where
  "gomap_get \<equiv> map_of"

lemma gomap_get_set [simp]: "gomap_get (gomap_set k v m) = (gomap_get m)(k \<mapsto> v)"
  by (simp add: gomap_set_def update_conv')

lemma gomap_get_del [simp]: "gomap_get (gomap_del k m) = (gomap_get m)(k := None)"
  by (simp add: gomap_del_def delete_conv')

lemma gomap_ok_Nil [simp]: "gomap_ok []"
  by (simp add: gomap_ok_def)

lemma gomap_ok_set [simp]: "gomap_ok m \<Longrightarrow> gomap_ok (gomap_set k v m)"
  by (simp add: gomap_ok_def gomap_set_def distinct_update)

lemma gomap_ok_del [simp]: "gomap_ok m \<Longrightarrow> gomap_ok (gomap_del k m)"
  by (simp add: gomap_ok_def gomap_del_def distinct_delete)

lemma gomap_order_refl [simp]: "gomap_order m m"
  by (simp add: gomap_order_def)

lemma gomap_order_length: "gomap_order m it \<Longrightarrow> length it = length m"
  unfolding gomap_order_def by (metis size_mset)

lemma gomap_order_set: "gomap_order m it \<Longrightarrow> set it = set m"
  unfolding gomap_order_def by (metis set_mset_mset)

lemma gomap_order_ok: "gomap_order m it \<Longrightarrow> gomap_ok m \<Longrightarrow> gomap_ok it"
  unfolding gomap_order_def gomap_ok_def by (metis mset_eq_imp_distinct_iff mset_map)

lemma gomap_order_get:
  assumes "gomap_order m it" and "gomap_ok m"
  shows "gomap_get it = gomap_get m"
  using gomap_order_ok [OF assms] assms(2) gomap_order_set [OF assms(1)]
  by (simp add: gomap_ok_def map_of_inject_set)

section \<open>Lists and words\<close>

lemma unat_bound: "unat (w :: 'a::len word) < 2 ^ LENGTH('a)"
  by (rule unsigned_less)

lemma unat_of_nat_u8 [simp]: "n \<le> 255 \<Longrightarrow> unat (of_nat n :: 8 word) = n"
  by (simp add: unat_of_nat take_bit_eq_mod)

lemma unat_of_nat_u16 [simp]: "n \<le> 65535 \<Longrightarrow> unat (of_nat n :: 16 word) = n"
  by (simp add: unat_of_nat take_bit_eq_mod)

lemma uint_of_int_u8: "0 \<le> i \<Longrightarrow> i \<le> 255 \<Longrightarrow> uint (word_of_int i :: 8 word) = i"
  by (simp add: uint_word_of_int)

lemma uint_of_int_u32: "0 \<le> i \<Longrightarrow> i < 2 ^ 32 \<Longrightarrow> uint (word_of_int i :: 32 word) = i"
  by (simp add: uint_word_of_int)

lemma uint_ucast_u8: "uint (ucast (w :: 32 word) :: 8 word) = uint w mod 256"
  by (simp add: unsigned_ucast_eq take_bit_eq_mod)

text \<open>Go's \<^verbatim>\<open>int\<close> and \<^verbatim>\<open>int64\<close>: arithmetic wraps at 64 bits.\<close>

definition wrap64 :: "int \<Rightarrow> int" where
  "wrap64 i = sint (word_of_int i :: 64 word)"

definition int64 :: "int \<Rightarrow> bool" where
  "int64 i \<longleftrightarrow> - (2 ^ 63) \<le> i \<and> i < 2 ^ 63"

lemma wrap64_id [simp]: "int64 i \<Longrightarrow> wrap64 i = i"
  by (simp add: wrap64_def int64_def int_word_sint)

lemma int64_wrap64 [simp]: "int64 (wrap64 i)"
  using sint_ge [of "word_of_int i :: 64 word"] sint_lt [of "word_of_int i :: 64 word"]
  by (simp add: wrap64_def int64_def)

lemma gomap_set_new: "k \<notin> fst ` set m \<Longrightarrow> gomap_set k v m = m @ [(k, v)]"
  unfolding gomap_set_def by (induction m) auto

lemma fold_gomap_set:
  "distinct (map fst (acc @ it)) \<Longrightarrow> fold (\<lambda>(k, v). gomap_set k v) it acc = acc @ it"
  by (induction it arbitrary: acc) (auto simp: gomap_set_new)

lemma distinct_filter_nth:
  "distinct (map f xs) \<Longrightarrow> i < length xs \<Longrightarrow> filter (\<lambda>x. f x = f (xs ! i)) xs = [xs ! i]"
proof (induction xs arbitrary: i)
  case (Cons x xs)
  show ?case
  proof (cases i)
    case 0
    with Cons.prems(1) show ?thesis by (auto simp: filter_empty_conv image_iff)
  next
    case (Suc j)
    with Cons.prems have "f x \<noteq> f (xs ! j)" by (auto simp: image_iff)
    with Suc Cons show ?thesis by simp
  qed
qed simp

lemma filter_update_other:
  "\<not> P (xs ! i) \<Longrightarrow> \<not> P y \<Longrightarrow> filter P (xs[i := y]) = filter P xs"
  by (induction xs arbitrary: i) (auto split: nat.splits)

lemma map_update_same: "f y = f (xs ! i) \<Longrightarrow> map f (xs[i := y]) = map f xs"
  by (induction xs arbitrary: i) (auto split: nat.splits)

lemma prefix_append_left: "prefix p xs \<Longrightarrow> prefix p (xs @ ys)"
  by (auto simp: prefix_def)

lemma concat_concat_map: "concat (concat xsss) = concat (map concat xsss)"
  by (induction xsss) simp_all

section \<open>Decimal numbers\<close>

text \<open>The value of a non-empty string of decimal digits.\<close>

definition digits_value :: "string \<Rightarrow> nat option" where
  "digits_value s =
     (if s = [] \<or> list_ex (\<lambda>c. of_char c < (48 :: nat) \<or> (57 :: nat) < of_char c) s then None
      else Some (fold (\<lambda>c n. 10 * n + (of_char c - 48)) s (0 :: nat)))"

text \<open>\<^verbatim>\<open>strconv.Atoi\<close>: an optional sign and decimal digits, whose value has 64 bits.\<close>

definition Atoi :: "string \<Rightarrow> int option" where
  "Atoi s =
     (let neg = prefix ''-'' s;
          ds = (if neg \<or> prefix ''+'' s then drop 1 s else s) in
      case digits_value ds of
        None \<Rightarrow> None
      | Some n \<Rightarrow> let i = (if neg then - int n else int n) in if int64 i then Some i else None)"

lemma Atoi_int64: "Atoi s = Some i \<Longrightarrow> int64 i"
  by (auto simp: Atoi_def Let_def split: option.splits if_splits)

text \<open>\<^verbatim>\<open>strconv.ParseUint(s, 10, 0)\<close>: decimal digits whose value has 64 bits.\<close>

definition ParseUint :: "string \<Rightarrow> nat option" where
  "ParseUint s = (case digits_value s of Some n \<Rightarrow> if n < 2 ^ 64 then Some n else None | None \<Rightarrow> None)"

end
