(* ===== verification/Wire_IO.thy ===== *)
theory Wire_IO
  imports Go_Prelude
begin

text \<open>
  The byte streams every component of the program talks over: Go strings as byte sequences,
  \<^verbatim>\<open>io.Reader\<close> with \<^verbatim>\<open>io.ReadFull\<close>, \<^verbatim>\<open>io.Writer\<close>, and the fixed-size integers of package
  \<^verbatim>\<open>encoding/binary\<close>. Three interfaces are stated as locales: \<open>decoder\<close> (a function that reads
  a prefix of its input and never looks at the rest), \<open>codec\<close> (an encoder and a decoder that
  agree) and \<open>byte_sink\<close> (a writer that appends).
\<close>

section \<open>Bytes and Go strings\<close>

type_synonym byte = "8 word"

text \<open>A Go string is a sequence of bytes, an Isabelle \<open>char\<close> is one byte.\<close>

definition byte_of_char :: "char \<Rightarrow> byte" where
  "byte_of_char c = of_nat (of_char c)"

definition char_of_byte :: "byte \<Rightarrow> char" where
  "char_of_byte b = char_of (unat b)"

definition string_bytes :: "string \<Rightarrow> byte list" where
  "string_bytes s = map byte_of_char s"

definition bytes_string :: "byte list \<Rightarrow> string" where
  "bytes_string bs = map char_of_byte bs"

section \<open>Fixed-size integers\<close>

datatype byte_order = LittleEndian | BigEndian

fun le_bytes :: "nat \<Rightarrow> nat \<Rightarrow> byte list" where
  "le_bytes 0 n = []"
| "le_bytes (Suc k) n = of_nat n # le_bytes k (n div 256)"

fun le_nat :: "byte list \<Rightarrow> nat" where
  "le_nat [] = 0"
| "le_nat (b # bs) = unat b + 256 * le_nat bs"

definition put_uint :: "byte_order \<Rightarrow> nat \<Rightarrow> nat \<Rightarrow> byte list" where
  "put_uint ord k n = (case ord of LittleEndian \<Rightarrow> le_bytes k n | BigEndian \<Rightarrow> rev (le_bytes k n))"

definition get_uint :: "byte_order \<Rightarrow> byte list \<Rightarrow> nat" where
  "get_uint ord bs = le_nat (case ord of LittleEndian \<Rightarrow> bs | BigEndian \<Rightarrow> rev bs)"

definition put_u16 :: "16 word \<Rightarrow> byte list" where
  "put_u16 w = put_uint LittleEndian 2 (unat w)"

definition put_u32 :: "32 word \<Rightarrow> byte list" where
  "put_u32 w = put_uint LittleEndian 4 (unat w)"

definition put_u64 :: "64 word \<Rightarrow> byte list" where
  "put_u64 w = put_uint LittleEndian 8 (unat w)"

section \<open>Readers\<close>

text \<open>
  A reader is the bytes its source will still deliver and the error the source returns after
  them (\<open>EOF\<close> when the peer closed the stream). \<open>read_full n\<close> is \<^verbatim>\<open>io.ReadFull\<close> on a slice of
  length \<open>n\<close>: it reads nothing when \<open>n\<close> is 0, and turns an end of file after the first byte
  into \<open>ErrUnexpectedEOF\<close>. \<^verbatim>\<open>binary.Read\<close> of a fixed-size integer is \<^verbatim>\<open>io.ReadFull\<close> of its
  size followed by the conversion.
\<close>

record reader =
  r_input :: "byte list"
  r_err :: go_error

definition read_full :: "nat \<Rightarrow> (reader, byte list) go" where
  "read_full n = (\<lambda>r.
     if n \<le> length (r_input r)
     then (Ok (take n (r_input r)), r\<lparr>r_input := drop n (r_input r)\<rparr>)
     else (Err (if r_input r \<noteq> [] \<and> r_err r = EOF then ErrUnexpectedEOF else r_err r),
           r\<lparr>r_input := []\<rparr>))"

definition read_u8 :: "(reader, byte) go" where
  "read_u8 = gbind (read_full 1) (\<lambda>bs. gret (hd bs))"

definition read_u16 :: "(reader, 16 word) go" where
  "read_u16 = gbind (read_full 2) (\<lambda>bs. gret (of_nat (get_uint LittleEndian bs)))"

definition read_u32 :: "(reader, 32 word) go" where
  "read_u32 = gbind (read_full 4) (\<lambda>bs. gret (of_nat (get_uint LittleEndian bs)))"

definition read_u64 :: "(reader, 64 word) go" where
  "read_u64 = gbind (read_full 8) (\<lambda>bs. gret (of_nat (get_uint LittleEndian bs)))"

text \<open>\<^verbatim>\<open>string(buf[:n])\<close> after reading \<open>n\<close> bytes.\<close>

definition read_string :: "nat \<Rightarrow> (reader, string) go" where
  "read_string n = gbind (read_full n) (\<lambda>bs. gret (bytes_string bs))"

section \<open>Writers\<close>

text \<open>
  A writer is an operation on some state. \<open>emits good cts m bs\<close> says what a computation that
  only writes leaves behind, where \<open>cts\<close> are the bytes written so far: all of \<open>bs\<close> when it
  returns without error, a prefix of it otherwise. It fails only in a state that is not
  \<open>good\<close> (the destination may fail), and it keeps a good state good.
\<close>

type_synonym 'w write_op = "byte list \<Rightarrow> ('w, unit) go"

definition emits ::
  "('w \<Rightarrow> bool) \<Rightarrow> ('w \<Rightarrow> byte list) \<Rightarrow> ('w, unit) go \<Rightarrow> byte list \<Rightarrow> bool" where
  "emits good cts m bs \<longleftrightarrow> (\<forall>w r w'. m w = (r, w') \<longrightarrow>
     (case r of
        Ok _ \<Rightarrow> cts w' = cts w @ bs \<and> (good w \<longrightarrow> good w')
      | Err _ \<Rightarrow> \<not> good w \<and> (\<exists>p. prefix p bs \<and> cts w' = cts w @ p)
      | Panic _ \<Rightarrow> False))"

text \<open>\<^verbatim>\<open>bytes.Buffer\<close>: appending never fails.\<close>

definition buffer_write :: "byte list write_op" where
  "buffer_write bs = (\<lambda>w. (Ok (), w @ bs))"

section \<open>Lemmas on strings and integers\<close>

lemma char_of_byte_of_char [simp]: "char_of_byte (byte_of_char c) = c"
proof -
  have "(of_char c :: nat) < 256" by simp
  then have "unat (of_nat (of_char c) :: byte) = of_char c"
    by (simp add: unat_of_nat take_bit_eq_mod)
  then show ?thesis by (simp add: byte_of_char_def char_of_byte_def)
qed

lemma byte_of_char_of_byte [simp]: "byte_of_char (char_of_byte b) = b"
proof -
  have "unat b < 256" using unat_bound [of b] by simp
  then show ?thesis by (simp add: byte_of_char_def char_of_byte_def)
qed

lemma bytes_string_inverse [simp]: "bytes_string (string_bytes s) = s"
  by (simp add: bytes_string_def string_bytes_def comp_def map_idI)

lemma string_bytes_inverse [simp]: "string_bytes (bytes_string bs) = bs"
  by (simp add: bytes_string_def string_bytes_def comp_def map_idI)

lemma length_string_bytes [simp]: "length (string_bytes s) = length s"
  by (simp add: string_bytes_def)

lemma length_bytes_string [simp]: "length (bytes_string s) = length s"
  by (simp add: bytes_string_def)

lemma string_bytes_eq_iff [simp]: "string_bytes s = string_bytes t \<longleftrightarrow> s = t"
  by (metis bytes_string_inverse)

lemma le_bytes_numeral [simp]:
  "le_bytes (numeral k) n = of_nat n # le_bytes (pred_numeral k) (n div 256)"
  unfolding numeral_eq_Suc [of k] by (rule le_bytes.simps(2))

lemma length_le_bytes [simp]: "length (le_bytes k n) = k"
  by (induction k arbitrary: n) auto

lemma le_nat_le_bytes: "le_nat (le_bytes k n) = n mod 256 ^ k"
proof (induction k arbitrary: n)
  case 0
  then show ?case by simp
next
  case (Suc k)
  have "unat (of_nat n :: byte) = n mod 256"
    by (simp add: unat_of_nat take_bit_eq_mod)
  then have "le_nat (le_bytes (Suc k) n) = n mod 256 + 256 * (n div 256 mod 256 ^ k)"
    by (simp add: Suc.IH)
  also have "\<dots> = n mod 256 ^ Suc k"
    by (simp add: mod_mult2_eq)
  finally show ?case .
qed

lemma le_bytes_le_nat: "le_bytes (length bs) (le_nat bs) = bs"
proof (induction bs)
  case (Cons b bs)
  have "unat b < 256" using unat_bound [of b] by simp
  moreover have "(of_nat (256 * le_nat bs) :: byte) = 0"
    by (subst word_of_nat_eq_0_iff) simp
  then have "(of_nat (unat b + 256 * le_nat bs) :: byte) = b" by (simp del: of_nat_mult)
  ultimately show ?case using Cons by simp
qed simp

lemma length_put_uint [simp]: "length (put_uint ord k n) = k"
  by (cases ord) (simp_all add: put_uint_def)

lemma get_put_uint: "get_uint ord (put_uint ord k n) = n mod 256 ^ k"
  by (cases ord) (simp_all add: get_uint_def put_uint_def le_nat_le_bytes)

lemma length_put_u [simp]:
  "length (put_u16 a) = 2" "length (put_u32 b) = 4" "length (put_u64 c) = 8"
  by (simp_all add: put_u16_def put_u32_def put_u64_def)

lemma unat_less_256_pow [simp]:
  "unat (a :: 16 word) < 65536" "unat (b :: 32 word) < 4294967296"
  "unat (c :: 64 word) < 18446744073709551616"
  using unat_bound [of a] unat_bound [of b]
    unat_bound [of c] by simp_all

lemma get_put_u [simp]:
  "of_nat (get_uint LittleEndian (put_u16 a)) = a"
  "of_nat (get_uint LittleEndian (put_u32 b)) = b"
  "of_nat (get_uint LittleEndian (put_u64 c)) = c"
  by (simp_all add: put_u16_def put_u32_def put_u64_def get_put_uint)

section \<open>Decoders\<close>

text \<open>
  The contract of everything that parses a stream: the outcome depends only on the bytes that
  are consumed, what remains is a suffix of the input, and there is no panic.
\<close>

locale decoder =
  fixes dec :: "(reader, 'a) go"
  assumes dec_extend:
      "dec r = (Ok a, r') \<Longrightarrow>
       dec (r\<lparr>r_input := r_input r @ q\<rparr>) = (Ok a, r'\<lparr>r_input := r_input r' @ q\<rparr>)"
    and dec_consumes: "dec r = (out, r') \<Longrightarrow> suffix (r_input r') (r_input r) \<and> r_err r' = r_err r"
    and dec_no_panic: "dec r \<noteq> (Panic p, r')"

lemma decoder_gret: "decoder (gret a)"
  by unfold_locales (auto simp: go_run)

lemma decoder_gerr: "decoder (gerr e)"
  by unfold_locales (auto simp: go_run)

lemma decoder_read_full: "decoder (read_full n)"
  by unfold_locales (auto simp: read_full_def suffix_drop split: if_splits)

lemma decoder_gbind:
  assumes m: "decoder m" and f: "\<And>a. decoder (f a)"
  shows "decoder (gbind m f)"
proof
  fix r a r' q
  assume "gbind m f r = (Ok a, r')"
  then obtain b s where "m r = (Ok b, s)" and "f b s = (Ok a, r')" by (rule gbind_OkE)
  then show "gbind m f (r\<lparr>r_input := r_input r @ q\<rparr>) = (Ok a, r'\<lparr>r_input := r_input r' @ q\<rparr>)"
    using decoder.dec_extend [OF m] decoder.dec_extend [OF f] by (simp add: go_run)
next
  fix r out r'
  assume "gbind m f r = (out, r')"
  then consider e where "m r = (Err e, r')" | p where "m r = (Panic p, r')"
    | b s where "m r = (Ok b, s)" "f b s = (out, r')"
    by (auto simp: gbind_def split: prod.splits outcome.splits)
  then show "suffix (r_input r') (r_input r) \<and> r_err r' = r_err r"
    using decoder.dec_consumes [OF m] decoder.dec_consumes [OF f]
    by cases (fastforce intro: suffix_order.trans)+
next
  fix r p r'
  show "gbind m f r \<noteq> (Panic p, r')"
    using decoder.dec_no_panic [OF m] decoder.dec_no_panic [OF f]
    by (auto simp: gbind_def split: prod.splits outcome.splits)
qed

lemma decoder_gtimes: "decoder m \<Longrightarrow> decoder (gtimes n m)"
  by (induction n) (auto intro: decoder_gret decoder_gbind)

lemmas decoder_intros = decoder_gret decoder_gerr decoder_read_full decoder_gbind decoder_gtimes

section \<open>Codecs\<close>

text \<open>
  An encoder and a decoder that agree. \<open>view x\<close> is the value the decoder returns for \<open>x\<close>: \<open>x\<close>
  itself unless the format drops something. Decoding inverts encoding in front of any further
  input; it follows that the encoding is uniquely decodable, that no truncated encoding is
  accepted, and that a sequence of encodings decodes element by element.
\<close>

locale codec = decoder dec for dec :: "(reader, 'b) go" +
  fixes valid :: "'a \<Rightarrow> bool" and enc :: "'a \<Rightarrow> byte list" and view :: "'a \<Rightarrow> 'b"
  assumes dec_enc:
    "valid x \<Longrightarrow> dec (r\<lparr>r_input := enc x @ rest\<rparr>) = (Ok (view x), r\<lparr>r_input := rest\<rparr>)"
begin

lemma unique_decoding:
  assumes "valid x" and "valid y" and "enc x @ xs = enc y @ ys"
  shows "view x = view y \<and> xs = ys"
proof -
  define r where "r = \<lparr>r_input = enc x @ xs, r_err = EOF\<rparr>"
  have "dec r = (Ok (view x), r\<lparr>r_input := xs\<rparr>)"
    using dec_enc [OF assms(1), where r = r and rest = xs] by (simp add: r_def)
  moreover have "dec r = (Ok (view y), r\<lparr>r_input := ys\<rparr>)"
    using dec_enc [OF assms(2), where r = r and rest = ys] by (simp add: r_def assms(3))
  ultimately show ?thesis by (simp add: r_def)
qed

lemma truncated_rejected:
  assumes "valid x" and "strict_prefix (r_input r) (enc x)"
  shows "\<exists>e r'. dec r = (Err e, r')"
proof -
  from assms(2) obtain q where q: "enc x = r_input r @ q" "q \<noteq> []"
    by (auto simp: strict_prefix_def prefix_def)
  have full: "dec (r\<lparr>r_input := r_input r @ q\<rparr>) = (Ok (view x), r\<lparr>r_input := []\<rparr>)"
    using dec_enc [OF assms(1), where r = r and rest = "[]"] q(1) by simp
  obtain out r' where d: "dec r = (out, r')" by force
  show ?thesis
  proof (cases out)
    case (Ok a)
    with d have "dec (r\<lparr>r_input := r_input r @ q\<rparr>) = (Ok a, r'\<lparr>r_input := r_input r' @ q\<rparr>)"
      by (simp add: dec_extend)
    with full have "r\<lparr>r_input := []\<rparr> = r'\<lparr>r_input := r_input r' @ q\<rparr>" by simp
    then have "r_input r' @ q = []"
      by (metis reader.select_convs(1) reader.surjective reader.update_convs(1))
    with q(2) show ?thesis by simp
  qed (use d dec_no_panic in auto)
qed

lemma dec_stream:
  "list_all valid xs \<Longrightarrow>
   gtimes (length xs) dec (r\<lparr>r_input := concat (map enc xs) @ rest\<rparr>)
     = (Ok (map view xs), r\<lparr>r_input := rest\<rparr>)"
  by (induction xs) (simp_all add: gret_def gbind_def dec_enc)

end

lemma read_full_append:
  "length bs = n \<Longrightarrow> read_full n (r\<lparr>r_input := bs @ rest\<rparr>) = (Ok bs, r\<lparr>r_input := rest\<rparr>)"
  by (simp add: read_full_def)

lemma read_u8_Cons: "read_u8 (r\<lparr>r_input := b # rest\<rparr>) = (Ok b, r\<lparr>r_input := rest\<rparr>)"
  by (simp add: read_u8_def read_full_def gbind_def gret_def)

interpretation u8: codec read_u8 "\<lambda>_. True" "\<lambda>b. [b]" "\<lambda>b. b"
proof (intro codec.intro codec_axioms.intro)
  show "decoder read_u8" unfolding read_u8_def by (intro decoder_intros)
qed (simp add: read_u8_Cons)

interpretation u16: codec read_u16 "\<lambda>_. True" put_u16 "\<lambda>w. w"
proof (intro codec.intro codec_axioms.intro)
  show "decoder read_u16" unfolding read_u16_def by (intro decoder_intros)
qed (simp add: read_u16_def read_full_append gbind_def gret_def)

interpretation u32: codec read_u32 "\<lambda>_. True" put_u32 "\<lambda>w. w"
proof (intro codec.intro codec_axioms.intro)
  show "decoder read_u32" unfolding read_u32_def by (intro decoder_intros)
qed (simp add: read_u32_def read_full_append gbind_def gret_def)

interpretation u64: codec read_u64 "\<lambda>_. True" put_u64 "\<lambda>w. w"
proof (intro codec.intro codec_axioms.intro)
  show "decoder read_u64" unfolding read_u64_def by (intro decoder_intros)
qed (simp add: read_u64_def read_full_append gbind_def gret_def)

lemma decoder_read_string: "decoder (read_string n)"
  unfolding read_string_def by (intro decoder_intros)

lemma read_string_append:
  "length s = n \<Longrightarrow>
   read_string n (r\<lparr>r_input := string_bytes s @ rest\<rparr>) = (Ok s, r\<lparr>r_input := rest\<rparr>)"
  by (simp add: read_string_def read_full_append gbind_def gret_def)

lemmas decoder_prims =
  decoder_intros decoder_read_string u8.decoder_axioms u16.decoder_axioms u32.decoder_axioms
  u64.decoder_axioms

lemmas read_prims = read_full_append read_string_append read_u8_Cons u16.dec_enc u32.dec_enc u64.dec_enc

section \<open>Sinks\<close>

text \<open>What an \<^verbatim>\<open>io.Writer\<close> promises: a write appends its argument, or part of it and an error.\<close>

locale byte_sink =
  fixes wr :: "'w write_op" and good :: "'w \<Rightarrow> bool" and cts :: "'w \<Rightarrow> byte list"
  assumes wr_emits: "emits good cts (wr bs) bs"

lemma emits_gret: "emits good cts (gret ()) []"
  by (simp add: emits_def go_run)

lemma emits_eq: "emits good cts m bs \<Longrightarrow> bs = bs' \<Longrightarrow> emits good cts m bs'"
  by simp

lemma emitsD:
  "emits good cts m bs \<Longrightarrow> m w = (r, w') \<Longrightarrow>
   (case r of
      Ok _ \<Rightarrow> cts w' = cts w @ bs \<and> (good w \<longrightarrow> good w')
    | Err _ \<Rightarrow> \<not> good w \<and> (\<exists>p. prefix p bs \<and> cts w' = cts w @ p)
    | Panic _ \<Rightarrow> False)"
  unfolding emits_def by blast

lemma emits_Ok: "emits good cts m bs \<Longrightarrow> m w = (Ok u, w') \<Longrightarrow> cts w' = cts w @ bs"
  using emitsD [of good cts m bs w "Ok u" w'] by simp

text \<open>In a good state the computation succeeds.\<close>

lemma emits_good:
  assumes "emits good cts m bs" and "good w"
  obtains w' where "m w = (Ok (), w')" and "good w'" and "cts w' = cts w @ bs"
proof -
  obtain r w' where m: "m w = (r, w')" by force
  with assms(2) emitsD [OF assms(1) m] have "r = Ok () \<and> good w' \<and> cts w' = cts w @ bs"
    by (cases r) auto
  with m show thesis by (intro that) auto
qed

lemma emits_gbind:
  assumes "emits good cts m bs" and "emits good cts m' bs'"
  shows "emits good cts (gbind m (\<lambda>_. m')) (bs @ bs')"
  unfolding emits_def
proof (intro allI impI)
  fix w r w'
  assume run: "gbind m (\<lambda>_. m') w = (r, w')"
  obtain r1 w1 where m: "m w = (r1, w1)" by force
  show "case r of Ok _ \<Rightarrow> cts w' = cts w @ bs @ bs' \<and> (good w \<longrightarrow> good w')
      | Err _ \<Rightarrow> \<not> good w \<and> (\<exists>p. prefix p (bs @ bs') \<and> cts w' = cts w @ p) | Panic _ \<Rightarrow> False"
    using run m emitsD [OF assms(1) m] emitsD [OF assms(2), of w1 r w']
    by (cases r1) (auto simp: gbind_def intro: prefix_append_left split: outcome.splits)
qed

lemma emits_gfor:
  assumes "\<And>x. x \<in> set xs \<Longrightarrow> emits good cts (f x) (g x)"
  shows "emits good cts (gfor xs f) (concat (map g xs))"
  using assms by (induction xs) (auto intro: emits_gret emits_gbind)

context byte_sink
begin

lemma emits_seq: "emits good cts m bs \<Longrightarrow> emits good cts (gbind (wr b) (\<lambda>_. m)) (b @ bs)"
  by (rule emits_gbind [OF wr_emits])

end

interpretation mem: byte_sink buffer_write "\<lambda>_. True" "\<lambda>w. w"
  by unfold_locales (auto simp: emits_def buffer_write_def)

end
