(* ===== verification/Go_Float64.thy ===== *)
theory Go_Float64
  imports Go_Prelude
begin

text \<open>
  Go's \<^verbatim>\<open>float64\<close> is an IEEE 754 binary64 value. It is modelled by its 64-bit pattern
  (\<^verbatim>\<open>math.Float64bits\<close>), so that what goes over the wire is exact, and its operations are
  defined on the patterns.
\<close>

section \<open>Bit patterns\<close>

type_synonym f64 = "64 word"

definition f64_mag :: "f64 \<Rightarrow> nat" where
  "f64_mag x = unat x mod 2 ^ 63"

definition f64_neg :: "f64 \<Rightarrow> bool" where
  "f64_neg x \<longleftrightarrow> 2 ^ 63 \<le> unat x"

text \<open>The magnitude of infinity; patterns above it are not numbers.\<close>

definition inf_mag :: nat where
  "inf_mag = 2047 * 2 ^ 52"

definition f64_isnan :: "f64 \<Rightarrow> bool" where
  "f64_isnan x \<longleftrightarrow> inf_mag < f64_mag x"

definition f64_finite :: "f64 \<Rightarrow> bool" where
  "f64_finite x \<longleftrightarrow> f64_mag x < inf_mag"

text \<open>
  Sign and magnitude as one integer: on patterns that are numbers its order is the order of
  the values, and the two zeros coincide.
\<close>

definition f64_key :: "f64 \<Rightarrow> int" where
  "f64_key x = (if f64_neg x then - int (f64_mag x) else int (f64_mag x))"

section \<open>Comparison\<close>

definition f64_lt :: "f64 \<Rightarrow> f64 \<Rightarrow> bool" where
  "f64_lt a b \<longleftrightarrow> \<not> f64_isnan a \<and> \<not> f64_isnan b \<and> f64_key a < f64_key b"

definition f64_le :: "f64 \<Rightarrow> f64 \<Rightarrow> bool" where
  "f64_le a b \<longleftrightarrow> \<not> f64_isnan a \<and> \<not> f64_isnan b \<and> f64_key a \<le> f64_key b"

definition f64_eq :: "f64 \<Rightarrow> f64 \<Rightarrow> bool" where
  "f64_eq a b \<longleftrightarrow> \<not> f64_isnan a \<and> \<not> f64_isnan b \<and> f64_key a = f64_key b"

definition f64_zero :: f64 where
  "f64_zero = 0"

definition f64_one :: f64 where
  "f64_one = 0x3FF0000000000000"

definition f64_minus_one :: f64 where
  "f64_minus_one = 0xBFF0000000000000"

lemma f64_zero_not_nan [simp]: "\<not> f64_isnan f64_zero"
  by (simp add: f64_isnan_def f64_mag_def f64_zero_def)

lemma f64_le_refl [simp]: "\<not> f64_isnan a \<Longrightarrow> f64_le a a"
  by (simp add: f64_le_def)

lemma f64_lt_irrefl [simp]: "\<not> f64_lt a a"
  by (simp add: f64_lt_def)

lemma f64_lt_trans: "f64_lt a b \<Longrightarrow> f64_lt b c \<Longrightarrow> f64_lt a c"
  by (auto simp: f64_lt_def)

lemma f64_le_trans: "f64_le a b \<Longrightarrow> f64_le b c \<Longrightarrow> f64_le a c"
  by (auto simp: f64_le_def)

lemma f64_not_lt: "\<not> f64_isnan a \<Longrightarrow> \<not> f64_isnan b \<Longrightarrow> \<not> f64_lt a b \<longleftrightarrow> f64_le b a"
  by (auto simp: f64_lt_def f64_le_def)

lemma f64_lt_imp_le: "f64_lt a b \<Longrightarrow> f64_le a b"
  by (auto simp: f64_lt_def f64_le_def)

section \<open>Values and rounding\<close>

text \<open>
  Every finite binary64 value is an integer multiple of \<open>2 ^ -1074\<close>. \<open>sval m\<close> is the value of the
  magnitude \<open>m\<close> in this unit; magnitudes are ordered as their values, and the magnitude that
  follows the largest finite one is that of infinity.
\<close>

definition sval :: "nat \<Rightarrow> nat" where
  "sval m = (if m div 2 ^ 52 = 0 then m else (2 ^ 52 + m mod 2 ^ 52) * 2 ^ (m div 2 ^ 52 - 1))"

definition f64_int :: "f64 \<Rightarrow> int" where
  "f64_int x = (if f64_neg x then - int (sval (f64_mag x)) else int (sval (f64_mag x)))"

fun bitlen :: "nat \<Rightarrow> nat" where
  "bitlen n = (if n = 0 then 0 else Suc (bitlen (n div 2)))"

declare bitlen.simps [simp del]

text \<open>The largest magnitude whose value is at most \<open>n\<close>.\<close>

definition mag_floor :: "nat \<Rightarrow> nat" where
  "mag_floor n = (let k = bitlen n - 53 in k * 2 ^ 52 + n div 2 ^ k)"

text \<open>Round \<open>p / q\<close> to the nearest magnitude, ties to even; too large a value gives infinity.\<close>

definition round_mag :: "nat \<Rightarrow> nat \<Rightarrow> nat" where
  "round_mag p q =
     (let m = mag_floor (p div q); twice = (sval m + sval (Suc m)) * q in
      min inf_mag (if 2 * p < twice \<or> 2 * p = twice \<and> even m then m else Suc m))"

definition f64_of_mag :: "bool \<Rightarrow> nat \<Rightarrow> f64" where
  "f64_of_mag neg m = of_nat (if neg then 2 ^ 63 + m else m)"

definition f64_unit :: nat where
  "f64_unit = 2 ^ 1074"

section \<open>Arithmetic\<close>

text \<open>The pattern of a NaN that an operation returns is not specified by the language; one is chosen.\<close>

definition f64_nan :: f64 where
  "f64_nan = 0x7FF8000000000001"

definition f64_isinf :: "f64 \<Rightarrow> bool" where
  "f64_isinf x \<longleftrightarrow> f64_mag x = inf_mag"

definition f64_minus :: "f64 \<Rightarrow> f64" where
  "f64_minus x = f64_of_mag (\<not> f64_neg x) (f64_mag x)"

definition f64_add :: "f64 \<Rightarrow> f64 \<Rightarrow> f64" where
  "f64_add a b =
     (if f64_isnan a \<or> f64_isnan b then f64_nan
      else if f64_isinf a then (if f64_isinf b \<and> f64_neg a \<noteq> f64_neg b then f64_nan else a)
      else if f64_isinf b then b
      else let s = f64_int a + f64_int b in
        if s = 0 then f64_of_mag (f64_neg a \<and> f64_neg b) 0
        else f64_of_mag (s < 0) (round_mag (nat \<bar>s\<bar>) 1))"

definition f64_sub :: "f64 \<Rightarrow> f64 \<Rightarrow> f64" where
  "f64_sub a b = f64_add a (f64_minus b)"

definition f64_mul :: "f64 \<Rightarrow> f64 \<Rightarrow> f64" where
  "f64_mul a b =
     (let neg = (f64_neg a \<noteq> f64_neg b) in
      if f64_isnan a \<or> f64_isnan b then f64_nan
      else if f64_isinf a \<or> f64_isinf b
      then (if f64_mag a = 0 \<or> f64_mag b = 0 then f64_nan else f64_of_mag neg inf_mag)
      else f64_of_mag neg (round_mag (sval (f64_mag a) * sval (f64_mag b)) f64_unit))"

definition f64_div :: "f64 \<Rightarrow> f64 \<Rightarrow> f64" where
  "f64_div a b =
     (let neg = (f64_neg a \<noteq> f64_neg b) in
      if f64_isnan a \<or> f64_isnan b then f64_nan
      else if f64_isinf a then (if f64_isinf b then f64_nan else f64_of_mag neg inf_mag)
      else if f64_isinf b then f64_of_mag neg 0
      else if f64_mag b = 0 then (if f64_mag a = 0 then f64_nan else f64_of_mag neg inf_mag)
      else f64_of_mag neg (round_mag (sval (f64_mag a) * f64_unit) (sval (f64_mag b))))"

definition f64_of_int :: "int \<Rightarrow> f64" where
  "f64_of_int i = f64_of_mag (i < 0) (round_mag (nat \<bar>i\<bar> * f64_unit) 1)"

text \<open>
  Conversion to \<^verbatim>\<open>int64\<close> truncates. A value out of range gives an implementation-defined result;
  the amd64 one is chosen.
\<close>

definition f64_to_int :: "f64 \<Rightarrow> int" where
  "f64_to_int x =
     (let n = int (sval (f64_mag x) div f64_unit); i = (if f64_neg x then - n else n) in
      if f64_finite x \<and> int64 i then i else - (2 ^ 63))"

section \<open>Rounding is monotone and exact on representable values\<close>

lemma sval_block: "2 ^ 52 \<le> q \<Longrightarrow> q \<le> 2 ^ 53 \<Longrightarrow> sval (k * 2 ^ 52 + q) = q * 2 ^ k"
proof (cases "q = 2 ^ 53")
  case True
  then have "k * 2 ^ 52 + q = (k + 2) * 2 ^ 52" by simp
  then show ?thesis using True by (simp add: sval_def)
next
  case False
  assume q: "2 ^ 52 \<le> q" "q \<le> 2 ^ 53"
  with False have "q - 2 ^ 52 < 2 ^ 52" by simp
  moreover have "k * 2 ^ 52 + q = (q - 2 ^ 52) + (k + 1) * 2 ^ 52" using q by simp
  ultimately have "(k * 2 ^ 52 + q) div 2 ^ 52 = k + 1" "(k * 2 ^ 52 + q) mod 2 ^ 52 = q - 2 ^ 52"
    by (simp_all only: div_mult_self1 mod_mult_self1) (simp_all add: div_eq_0_iff)
  then show ?thesis using q by (simp add: sval_def)
qed

lemma sval_small: "m \<le> 2 ^ 53 \<Longrightarrow> sval m = m"
  using sval_block [of m 0] by (cases "m < 2 ^ 52") (simp_all add: sval_def)

lemma mag_block: "2 ^ 52 \<le> (m :: nat) \<Longrightarrow> \<exists>k q. m = k * 2 ^ 52 + q \<and> 2 ^ 52 \<le> q \<and> q < 2 ^ 53"
proof -
  assume m: "2 ^ 52 \<le> m"
  define X :: nat where "X = 2 ^ 52"
  obtain j where j: "m div X = Suc j"
    using m div_greater_zero_iff [of m X] gr0_implies_Suc [of "m div X"] by (auto simp: X_def)
  have "m = j * X + (X + m mod X)"
    using div_mult_mod_eq [of m X] j by (simp add: algebra_simps)
  moreover have "m mod X < X" by (simp add: X_def)
  ultimately show ?thesis by (intro exI [of _ j] exI [of _ "X + m mod X"]) (simp add: X_def)
qed

lemma sval_Suc: "sval m < sval (Suc m)"
proof (cases "m < 2 ^ 52")
  case True
  then show ?thesis by (simp add: sval_small)
next
  case False
  then obtain k q where m: "m = k * 2 ^ 52 + q" "2 ^ 52 \<le> q" "q < 2 ^ 53" using mag_block [of m] by auto
  then have "sval m = q * 2 ^ k" "sval (Suc m) = Suc q * 2 ^ k"
    using sval_block [of q k] sval_block [of "Suc q" k] by simp_all
  then show ?thesis by simp
qed

lemma sval_less: "m < n \<Longrightarrow> sval m < sval n"
  using lift_Suc_mono_less [of sval m n] sval_Suc by blast

lemma sval_less_iff [simp]: "sval m < sval n \<longleftrightarrow> m < n"
  using sval_less by (metis linorder_neqE_nat order_less_asym)

lemma sval_le_iff [simp]: "sval m \<le> sval n \<longleftrightarrow> m \<le> n"
  by (simp add: linorder_not_less [symmetric])

lemma sval_eq_iff [simp]: "sval m = sval n \<longleftrightarrow> m = n"
  by (simp add: order_eq_iff)

lemma sval_0 [simp]: "sval 0 = 0"
  by (simp add: sval_def)

lemma sval_eq_0 [simp]: "sval m = 0 \<longleftrightarrow> m = 0"
  using sval_eq_iff [of m 0] by simp

lemma sval_pos [simp]: "0 < sval m \<longleftrightarrow> 0 < m"
  using sval_less_iff [of 0 m] by simp

lemma bitlen_bounds: "n \<noteq> 0 \<Longrightarrow> 2 ^ (bitlen n - 1) \<le> n \<and> n < 2 ^ bitlen n"
proof (induction n rule: bitlen.induct)
  case (1 n)
  show ?case
  proof (cases "n div 2 = 0")
    case True
    with 1 show ?thesis by (auto simp: bitlen.simps [of n] bitlen.simps [of 0])
  next
    case False
    with 1 have IH: "2 ^ (bitlen (n div 2) - 1) \<le> n div 2" "n div 2 < 2 ^ bitlen (n div 2)" by auto
    from False obtain j where j: "bitlen (n div 2) = Suc j" by (simp add: bitlen.simps [of "n div 2"])
    have "bitlen n = Suc (Suc j)" using 1(2) j by (simp add: bitlen.simps [of n])
    moreover have "2 ^ j \<le> n div 2" "n div 2 < 2 * 2 ^ j" using IH j by simp_all
    then have "2 * 2 ^ j \<le> n" "n < 4 * 2 ^ j" by linarith+
    ultimately show ?thesis by simp
  qed
qed

lemma bitlen_0 [simp]: "bitlen 0 = 0"
  by (simp add: bitlen.simps)

lemma mag_floor_bounds: "sval (mag_floor n) \<le> n \<and> n < sval (Suc (mag_floor n))"
proof (cases "bitlen n \<le> 53")
  case True
  then have "n < 2 ^ 53"
    using bitlen_bounds [of n] power_increasing [of "bitlen n" 53 "2 :: nat"] by (cases "n = 0") auto
  moreover have "mag_floor n = n" using True by (simp add: mag_floor_def)
  ultimately show ?thesis by (simp add: sval_small)
next
  case False
  define k where "k = bitlen n - 53"
  define q where "q = n div 2 ^ k"
  have "n \<noteq> 0" using False by (metis bitlen_0 zero_le)
  then have b: "2 ^ (k + 52) \<le> n" "n < 2 ^ (k + 53)"
    using bitlen_bounds [of n] False by (auto simp: k_def)
  have q: "2 ^ 52 \<le> q" "q < 2 ^ 53"
    using b by (auto simp: q_def power_add less_eq_div_iff_mult_less_eq less_mult_imp_div_less mult.commute)
  have "mag_floor n = k * 2 ^ 52 + q" by (simp add: mag_floor_def k_def q_def Let_def)
  then have "sval (mag_floor n) = q * 2 ^ k" "sval (Suc (mag_floor n)) = Suc q * 2 ^ k"
    using q sval_block [of q k] sval_block [of "Suc q" k] by simp_all
  moreover have "q * 2 ^ k \<le> n" "n < Suc q * 2 ^ k"
    by (simp_all add: q_def) (metis add.commute dividend_less_div_times mult_Suc zero_less_numeral zero_less_power mult.commute)
  ultimately show ?thesis by simp
qed

lemma le_mag_floor: "m \<le> mag_floor n \<longleftrightarrow> sval m \<le> n"
  using mag_floor_bounds [of n] by (metis not_less_eq_eq order_trans sval_le_iff linorder_not_le)

lemma mag_floor_sval [simp]: "mag_floor (sval m) = m"
  by (metis le_mag_floor order_antisym sval_le_iff order_refl mag_floor_bounds)

text \<open>Nearest-even rounding as a choice between two neighbours.\<close>

lemma round_mag_cases:
  obtains m where "m = mag_floor (p div q)"
    and "round_mag p q = min inf_mag m \<or> round_mag p q = min inf_mag (Suc m)"
  by (auto simp: round_mag_def Let_def)

lemma sval_le_quotient: "0 < q \<Longrightarrow> sval m \<le> p div q \<longleftrightarrow> sval m * q \<le> p"
  by (rule less_eq_div_iff_mult_less_eq)

lemma round_mag_ge:
  assumes "0 < q" and "sval m * q \<le> p" and "m \<le> inf_mag"
  shows "m \<le> round_mag p q"
proof -
  have "m \<le> mag_floor (p div q)" using assms by (simp add: le_mag_floor sval_le_quotient)
  then show ?thesis using assms(3) round_mag_cases [of p q] by (metis le_SucI min.bounded_iff)
qed

lemma round_mag_le:
  assumes "0 < q" and "p \<le> sval m * q"
  shows "round_mag p q \<le> m"
proof (cases "p = sval m * q")
  case True
  then have "p div q = sval m" using assms(1) by simp
  moreover have "2 * p < (sval m + sval (Suc m)) * q"
    using True assms(1) sval_Suc [of m] by (simp add: algebra_simps)
  ultimately show ?thesis by (simp add: round_mag_def)
next
  case False
  with assms have "p < sval m * q" by simp
  then have "p div q < sval m" using assms(1) by (simp add: less_mult_imp_div_less)
  then have "mag_floor (p div q) < m" using le_mag_floor [of m "p div q"] by simp
  then show ?thesis using round_mag_cases [of p q] by (metis Suc_leI min.coboundedI2 order_less_imp_le)
qed

lemma round_mag_exact [simp]: "0 < q \<Longrightarrow> m \<le> inf_mag \<Longrightarrow> round_mag (sval m * q) q = m"
  by (intro order_antisym round_mag_le round_mag_ge) auto

lemma round_mag_le_inf: "round_mag p q \<le> inf_mag"
  by (simp add: round_mag_def Let_def)

lemma round_mag_mono:
  assumes "0 < q" and "0 < q'" and "p * q' \<le> p' * q"
  shows "round_mag p q \<le> round_mag p' q'"
proof -
  let ?m = "mag_floor (p div q)" and ?m' = "mag_floor (p' div q')"
  have "sval ?m * q \<le> p" using mag_floor_bounds [of "p div q"] assms(1) by (simp add: sval_le_quotient)
  then have "sval ?m * q * q' \<le> p' * q" using assms(3) by (meson le_trans mult_le_mono1)
  then have "sval ?m * q' \<le> p'" using assms(1) by (simp add: mult.assoc mult.commute mult.left_commute)
  then have le: "?m \<le> ?m'" using assms(2) by (simp add: le_mag_floor sval_le_quotient)
  show ?thesis
  proof (cases "?m = ?m'")
    case True
    let ?t = "sval ?m + sval (Suc ?m)"
    have "2 * p < ?t * q" if "2 * p' < ?t * q'"
    proof -
      have "2 * p * q' \<le> 2 * p' * q" using assms(3) by simp
      also have "\<dots> < ?t * q' * q" using that assms(1) by simp
      finally show ?thesis using assms(2) by (simp add: ac_simps)
    qed
    moreover have "2 * p \<le> ?t * q" if "2 * p' = ?t * q'"
    proof -
      have "2 * p * q' \<le> 2 * p' * q" using assms(3) by simp
      also have "\<dots> = ?t * q * q'" using that by simp
      finally show ?thesis using assms(2) by simp
    qed
    ultimately show ?thesis using True by (auto simp: round_mag_def Let_def)
  next
    case False
    with le have "Suc ?m \<le> ?m'" by simp
    then show ?thesis by (auto simp: round_mag_def Let_def)
  qed
qed

text \<open>The result of a rounding, checked from its two neighbours.\<close>

lemma round_mag_down:
  assumes "0 < q" and "sval m * q \<le> p"
    and "2 * p < (sval m + sval (Suc m)) * q \<or> 2 * p = (sval m + sval (Suc m)) * q \<and> even m"
    and "m \<le> inf_mag"
  shows "round_mag p q = m"
proof -
  have "sval m * q < sval (Suc m) * q" using assms(1) sval_Suc [of m] by (intro mult_strict_right_mono)
  then have "p < sval (Suc m) * q" using assms(3) unfolding add_mult_distrib by linarith
  then have "p div q < sval (Suc m)" by (simp add: less_mult_imp_div_less)
  moreover have "sval m \<le> p div q" using assms(1,2) by (simp add: sval_le_quotient)
  ultimately have "mag_floor (p div q) = m"
    using le_mag_floor [of m "p div q"] le_mag_floor [of "Suc m" "p div q"] by linarith
  then show ?thesis using assms(3,4) by (simp add: round_mag_def Let_def)
qed

lemma round_mag_up:
  assumes "0 < q" and "p < sval (Suc m) * q"
    and "(sval m + sval (Suc m)) * q < 2 * p \<or> 2 * p = (sval m + sval (Suc m)) * q \<and> odd m"
    and "Suc m \<le> inf_mag"
  shows "round_mag p q = Suc m"
proof -
  have "sval m * q < sval (Suc m) * q" using assms(1) sval_Suc [of m] by (intro mult_strict_right_mono)
  then have "sval m * q \<le> p" using assms(3) unfolding add_mult_distrib by linarith
  then have "sval m \<le> p div q" using assms(1) by (simp add: sval_le_quotient)
  moreover have "p div q < sval (Suc m)" using assms(2) by (simp add: less_mult_imp_div_less)
  ultimately have "mag_floor (p div q) = m"
    using le_mag_floor [of m "p div q"] le_mag_floor [of "Suc m" "p div q"] by linarith
  then show ?thesis using assms(3,4) by (auto simp: round_mag_def Let_def)
qed

section \<open>Order and arithmetic\<close>

lemma inf_mag_less: "inf_mag < 2 ^ 63"
  by (simp add: inf_mag_def)

lemma f64_of_mag_mag [simp]: "m \<le> inf_mag \<Longrightarrow> f64_mag (f64_of_mag neg m) = m"
  using inf_mag_less by (simp add: f64_mag_def f64_of_mag_def unat_of_nat take_bit_eq_mod)

lemma f64_of_mag_neg [simp]: "m \<le> inf_mag \<Longrightarrow> f64_neg (f64_of_mag neg m) = neg"
  using inf_mag_less by (simp add: f64_neg_def f64_of_mag_def unat_of_nat take_bit_eq_mod)

lemma f64_of_mag_nan [simp]: "m \<le> inf_mag \<Longrightarrow> \<not> f64_isnan (f64_of_mag neg m)"
  by (simp add: f64_isnan_def)

lemma f64_finite_nan [simp]: "f64_finite x \<Longrightarrow> \<not> f64_isnan x"
  by (simp add: f64_finite_def f64_isnan_def)

lemma f64_finite_inf [simp]: "f64_finite x \<Longrightarrow> \<not> f64_isinf x"
  by (simp add: f64_finite_def f64_isinf_def)

lemma f64_key_le_int: "f64_key a \<le> f64_key b \<longleftrightarrow> f64_int a \<le> f64_int b"
proof -
  have z: "int (sval m) \<le> 0 \<longleftrightarrow> m = 0" for m using sval_le_iff [of m 0] by simp
  have s: "- int (sval m) \<le> int (sval n)" "- int m \<le> int n" for m n by simp_all
  have e: "int (sval m) \<le> - int (sval n) \<longleftrightarrow> m = 0 \<and> n = 0" "int m \<le> - int n \<longleftrightarrow> m = 0 \<and> n = 0" for m n
    by (smt (verit) of_nat_0_le_iff of_nat_le_0_iff sval_eq_0 z)+
  show ?thesis by (auto simp: f64_key_def f64_int_def e s)
qed

lemma f64_le_int: "f64_finite a \<Longrightarrow> f64_finite b \<Longrightarrow> f64_le a b \<longleftrightarrow> f64_int a \<le> f64_int b"
  by (simp add: f64_le_def f64_key_le_int)

lemma f64_lt_int: "f64_finite a \<Longrightarrow> f64_finite b \<Longrightarrow> f64_lt a b \<longleftrightarrow> f64_int a < f64_int b"
  using f64_key_le_int [of b a] by (auto simp: f64_lt_def)

lemma f64_eq_int: "f64_finite a \<Longrightarrow> f64_finite b \<Longrightarrow> f64_eq a b \<longleftrightarrow> f64_int a = f64_int b"
  using f64_key_le_int [of b a] f64_key_le_int [of a b] by (auto simp: f64_eq_def)

text \<open>The rational \<open>s / q\<close>, in units, rounded.\<close>

definition f64_round :: "int \<Rightarrow> nat \<Rightarrow> f64" where
  "f64_round s q = f64_of_mag (s < 0) (round_mag (nat \<bar>s\<bar>) q)"

lemma f64_round_mag [simp]:
  "f64_mag (f64_round s q) = round_mag (nat \<bar>s\<bar>) q" "f64_neg (f64_round s q) \<longleftrightarrow> s < 0"
  "\<not> f64_isnan (f64_round s q)"
  by (simp_all add: f64_round_def round_mag_le_inf)

lemma f64_round_le:
  assumes "0 < q" and "\<not> f64_isnan c" and "s \<le> f64_int c * int q"
  shows "f64_le (f64_round s q) c"
proof (cases "f64_neg c")
  case True
  show ?thesis
  proof (cases "s < 0")
    case s: True
    have "int (sval (f64_mag c) * q) \<le> \<bar>s\<bar>" using assms(3) True s by (simp add: f64_int_def)
    then have "sval (f64_mag c) * q \<le> nat \<bar>s\<bar>" by linarith
    moreover have "f64_mag c \<le> inf_mag" using assms(2) by (simp add: f64_isnan_def)
    ultimately have "f64_mag c \<le> round_mag (nat \<bar>s\<bar>) q" using assms(1) by (intro round_mag_ge)
    then show ?thesis using True s assms(2) by (simp add: f64_le_def f64_key_def)
  next
    case s: False
    have "int (sval (f64_mag c)) * int q \<le> 0" "s \<le> 0" using assms(3) True s
      by (auto simp: f64_int_def) (smt (verit) mult_nonneg_nonneg of_nat_0_le_iff)+
    then have "f64_mag c = 0" "s = 0"
      using assms(1) s sval_le_iff [of "f64_mag c" 0] by (auto simp: mult_le_0_iff)
    moreover have "round_mag 0 q = 0" using round_mag_le [OF assms(1), of 0 0] by simp
    ultimately show ?thesis using assms(2) by (simp add: f64_le_def f64_key_def)
  qed
next
  case False
  show ?thesis
  proof (cases "s < 0")
    case True
    then show ?thesis using False assms(2) by (simp add: f64_le_def f64_key_def)
  next
    case s: False
    have "\<bar>s\<bar> \<le> int (sval (f64_mag c) * q)" using assms(3) False s by (simp add: f64_int_def)
    then have "nat \<bar>s\<bar> \<le> sval (f64_mag c) * q" by linarith
    then have "round_mag (nat \<bar>s\<bar>) q \<le> f64_mag c" using assms(1) by (intro round_mag_le)
    then show ?thesis using False s assms(2) by (simp add: f64_le_def f64_key_def)
  qed
qed

lemma f64_minus_simps [simp]:
  "\<not> f64_isnan c \<Longrightarrow> f64_mag (f64_minus c) = f64_mag c"
  "\<not> f64_isnan c \<Longrightarrow> f64_neg (f64_minus c) \<longleftrightarrow> \<not> f64_neg c"
  by (simp_all add: f64_minus_def f64_isnan_def)

lemma f64_minus_more [simp]:
  "\<not> f64_isnan c \<Longrightarrow> \<not> f64_isnan (f64_minus c)"
  "\<not> f64_isnan c \<Longrightarrow> f64_key (f64_minus c) = - f64_key c"
  "\<not> f64_isnan c \<Longrightarrow> f64_int (f64_minus c) = - f64_int c"
  "\<not> f64_isnan c \<Longrightarrow> f64_finite (f64_minus c) = f64_finite c"
  by (simp_all add: f64_key_def f64_int_def f64_isnan_def [of "f64_minus c"] f64_finite_def) (simp add: f64_isnan_def)

lemma round_mag_0 [simp]: "0 < q \<Longrightarrow> round_mag 0 q = 0"
  using round_mag_le [of q 0 0] by simp

lemma f64_round_minus_key: "0 < q \<Longrightarrow> f64_key (f64_round (- s) q) = - f64_key (f64_round s q)"
  by (auto simp: f64_key_def)

lemma f64_round_ge:
  assumes "0 < q" and "\<not> f64_isnan c" and "f64_int c * int q \<le> s"
  shows "f64_le c (f64_round s q)"
proof -
  have "f64_le (f64_round (- s) q) (f64_minus c)"
    using assms by (intro f64_round_le) simp_all
  then show ?thesis
    using assms(1,2) by (simp add: f64_le_def f64_round_minus_key)
qed

text \<open>The operations on finite operands are correctly rounded.\<close>

lemma f64_unit_pos [simp]: "0 < f64_unit"
  by (simp add: f64_unit_def)

lemma f64_add_round:
  assumes "f64_finite a" and "f64_finite b"
  shows "\<not> f64_isnan (f64_add a b) \<and> f64_key (f64_add a b) = f64_key (f64_round (f64_int a + f64_int b) 1)"
proof (cases "f64_int a + f64_int b = 0")
  case True
  then show ?thesis using assms by (simp add: f64_add_def f64_key_def)
next
  case False
  then have "f64_add a b = f64_round (f64_int a + f64_int b) 1"
    using assms by (simp add: f64_add_def f64_round_def Let_def)
  then show ?thesis by simp
qed

lemma f64_int_abs: "nat \<bar>f64_int a\<bar> = sval (f64_mag a)"
  by (simp add: f64_int_def)

lemma f64_int_sign: "f64_int a < 0 \<longleftrightarrow> f64_neg a \<and> f64_mag a \<noteq> 0"
  by (simp add: f64_int_def)

lemma f64_mul_round:
  assumes "f64_finite a" and "f64_finite b"
  shows "\<not> f64_isnan (f64_mul a b) \<and> f64_key (f64_mul a b) = f64_key (f64_round (f64_int a * f64_int b) f64_unit)"
proof -
  have "nat \<bar>f64_int a * f64_int b\<bar> = sval (f64_mag a) * sval (f64_mag b)"
    by (simp add: abs_mult nat_mult_distrib f64_int_abs)
  moreover have "f64_int a * f64_int b < 0 \<longleftrightarrow> f64_neg a \<noteq> f64_neg b \<and> f64_mag a \<noteq> 0 \<and> f64_mag b \<noteq> 0"
    by (auto simp: mult_less_0_iff f64_int_def)
  ultimately show ?thesis
    using assms by (auto simp: f64_mul_def Let_def f64_key_def round_mag_le_inf)
qed

lemma f64_div_round:
  assumes "f64_finite a" and "f64_finite b" and "f64_mag b \<noteq> 0"
  shows "\<not> f64_isnan (f64_div a b) \<and>
    f64_key (f64_div a b) = f64_key (f64_round (f64_int a * sgn (f64_int b) * int f64_unit) (sval (f64_mag b)))"
proof -
  have "nat \<bar>f64_int a * sgn (f64_int b) * int f64_unit\<bar> = sval (f64_mag a) * f64_unit"
    using assms(3) by (simp add: abs_mult nat_mult_distrib f64_int_abs) (simp add: f64_int_def)
  moreover have "f64_int a * sgn (f64_int b) * int f64_unit < 0 \<longleftrightarrow> f64_neg a \<noteq> f64_neg b \<and> f64_mag a \<noteq> 0"
    using assms(3) by (auto simp: mult_less_0_iff f64_int_def)
  ultimately show ?thesis
    using assms by (auto simp: f64_div_def Let_def f64_key_def round_mag_le_inf)
qed

lemma f64_le_key: "\<not> f64_isnan a \<Longrightarrow> \<not> f64_isnan b \<Longrightarrow> f64_le a b \<longleftrightarrow> f64_key a \<le> f64_key b"
  by (simp add: f64_le_def)

lemma f64_add_le:
  assumes "f64_finite a" and "f64_finite b" and "\<not> f64_isnan c" and "f64_int a + f64_int b \<le> f64_int c"
  shows "f64_le (f64_add a b) c"
  using f64_add_round [OF assms(1,2)] f64_round_le [of 1 c "f64_int a + f64_int b"] assms
  by (simp add: f64_le_def)

lemma f64_add_ge:
  assumes "f64_finite a" and "f64_finite b" and "\<not> f64_isnan c" and "f64_int c \<le> f64_int a + f64_int b"
  shows "f64_le c (f64_add a b)"
  using f64_add_round [OF assms(1,2)] f64_round_ge [of 1 c "f64_int a + f64_int b"] assms
  by (simp add: f64_le_def)

lemma f64_mul_le:
  assumes "f64_finite a" and "f64_finite b" and "\<not> f64_isnan c"
    and "f64_int a * f64_int b \<le> f64_int c * int f64_unit"
  shows "f64_le (f64_mul a b) c"
  using f64_mul_round [OF assms(1,2)] f64_round_le [of f64_unit c "f64_int a * f64_int b"] assms
  by (simp add: f64_le_def)

lemma f64_mul_ge:
  assumes "f64_finite a" and "f64_finite b" and "\<not> f64_isnan c"
    and "f64_int c * int f64_unit \<le> f64_int a * f64_int b"
  shows "f64_le c (f64_mul a b)"
  using f64_mul_round [OF assms(1,2)] f64_round_ge [of f64_unit c "f64_int a * f64_int b"] assms
  by (simp add: f64_le_def)

lemma f64_div_le:
  assumes "f64_finite a" and "f64_finite b" and "0 < f64_int b" and "\<not> f64_isnan c"
    and "f64_int a * int f64_unit \<le> f64_int c * f64_int b"
  shows "f64_le (f64_div a b) c"
proof -
  have b: "f64_mag b \<noteq> 0" "int (sval (f64_mag b)) = f64_int b"
    using assms(3) by (auto simp: f64_int_def split: if_splits)
  then show ?thesis
    using f64_div_round [OF assms(1,2) b(1)] assms
      f64_round_le [of "sval (f64_mag b)" c "f64_int a * int f64_unit"]
    by (simp add: f64_le_def)
qed

lemma f64_div_ge:
  assumes "f64_finite a" and "f64_finite b" and "0 < f64_int b" and "\<not> f64_isnan c"
    and "f64_int c * f64_int b \<le> f64_int a * int f64_unit"
  shows "f64_le c (f64_div a b)"
proof -
  have b: "f64_mag b \<noteq> 0" "int (sval (f64_mag b)) = f64_int b"
    using assms(3) by (auto simp: f64_int_def split: if_splits)
  then show ?thesis
    using f64_div_round [OF assms(1,2) b(1)] assms
      f64_round_ge [of "sval (f64_mag b)" c "f64_int a * int f64_unit"]
    by (simp add: f64_le_def)
qed

lemma f64_zero_simps [simp]:
  "f64_mag f64_zero = 0" "\<not> f64_neg f64_zero" "f64_finite f64_zero" "f64_int f64_zero = 0" "f64_key f64_zero = 0"
  by (simp_all add: f64_zero_def f64_mag_def f64_neg_def f64_finite_def f64_int_def f64_key_def inf_mag_def)

lemma f64_one_simps [simp]:
  "f64_mag f64_one = 1023 * 2 ^ 52" "\<not> f64_neg f64_one" "f64_finite f64_one" "f64_int f64_one = int f64_unit"
proof -
  show m: "f64_mag f64_one = 1023 * 2 ^ 52" "\<not> f64_neg f64_one"
    by (simp_all add: f64_one_def f64_mag_def f64_neg_def)
  show "f64_finite f64_one" by (simp add: f64_finite_def m inf_mag_def)
  have "sval (1022 * 2 ^ 52 + 2 ^ 52) = 2 ^ 52 * 2 ^ 1022" by (rule sval_block) simp_all
  then have "sval (f64_mag f64_one) = 2 ^ 1074" unfolding m by (simp flip: power_add)
  then show "f64_int f64_one = int f64_unit" using m(2) by (simp add: f64_int_def f64_unit_def)
qed

lemma f64_of_int_nonneg: "0 \<le> i \<Longrightarrow> f64_le f64_zero (f64_of_int i)"
  by (simp add: f64_of_int_def f64_le_def f64_key_def round_mag_le_inf)

section \<open>Spacing of the values and rounding errors\<close>

text \<open>\<open>gap m\<close> is the distance from the value of the magnitude \<open>m\<close> to the next one.\<close>

definition gap :: "nat \<Rightarrow> nat" where
  "gap m = sval (Suc m) - sval m"

lemma sval_Suc_gap: "sval (Suc m) = sval m + gap m"
  using sval_Suc [of m] by (simp add: gap_def)

lemma gap_pos [simp]: "0 < gap m"
  using sval_Suc [of m] by (simp add: gap_def)

lemma gap_eq: "gap m = 2 ^ (m div 2 ^ 52 - 1)"
proof (cases "m < 2 ^ 52")
  case True
  then show ?thesis by (simp add: gap_def sval_small)
next
  case False
  then obtain k q where m: "m = k * 2 ^ 52 + q" "2 ^ 52 \<le> q" "q < 2 ^ 53" using mag_block [of m] by auto
  define X :: nat where "X = 2 ^ 52"
  have X: "0 < X" "X \<le> q" "q < 2 * X" "m = k * X + q" using m by (simp_all add: X_def)
  then have "m = (q - X) + Suc k * X" and "q - X < X" by simp_all
  then have "m div X = Suc k" using X(1) by (metis div_less div_mult_self1 add_0_right less_not_refl)
  moreover have "sval m = q * 2 ^ k" "sval (Suc m) = Suc q * 2 ^ k"
    using m sval_block [of q k] sval_block [of "Suc q" k] by simp_all
  ultimately show ?thesis by (simp add: gap_def X_def)
qed

lemma gap_mono: "m \<le> n \<Longrightarrow> gap m \<le> gap n"
  by (simp add: gap_eq diff_le_mono div_le_mono)

lemma round_mag_near:
  assumes "round_mag p 1 \<le> n" and "n < inf_mag"
  shows "2 * \<bar>int (sval (round_mag p 1)) - int p\<bar> \<le> int (gap n)"
proof -
  define m where "m = mag_floor p"
  have m: "sval m \<le> p" "p < sval (Suc m)" using mag_floor_bounds [of p] by (simp_all add: m_def)
  define r where "r = (if 2 * p < sval m + sval (Suc m) \<or> 2 * p = sval m + sval (Suc m) \<and> even m then m else Suc m)"
  have "round_mag p 1 = min inf_mag r" by (simp add: round_mag_def r_def m_def Let_def)
  with assms have r: "round_mag p 1 = r" "r \<le> n" by auto
  have "m \<le> n" using r(2) by (auto simp: r_def split: if_splits)
  then have "gap m \<le> gap n" by (rule gap_mono)
  then show ?thesis using m sval_Suc_gap [of m] unfolding r(1) by (auto simp: r_def split: if_splits)
qed

lemma f64_int_nonneg_mag: "0 \<le> f64_int a \<Longrightarrow> f64_int a = int (sval (f64_mag a))"
  by (auto simp: f64_int_def split: if_splits)

text \<open>The error of an addition whose result is at most \<open>t\<close> is at most half the spacing at \<open>t\<close>.\<close>

lemma f64_add_near:
  assumes "f64_finite a" and "f64_finite b" and "0 \<le> f64_int a + f64_int b" and "f64_finite t"
    and "f64_le (f64_add a b) t"
  shows "f64_finite (f64_add a b)"
    and "2 * \<bar>f64_int (f64_add a b) - (f64_int a + f64_int b)\<bar> \<le> int (gap (f64_mag t))"
proof -
  let ?s = "f64_int a + f64_int b"
  have add: "f64_add a b = (if ?s = 0 then f64_of_mag (f64_neg a \<and> f64_neg b) 0
      else f64_of_mag (?s < 0) (round_mag (nat \<bar>?s\<bar>) 1))"
    using assms(1,2) by (simp add: f64_add_def Let_def)
  let ?r = "round_mag (nat ?s) 1"
  have "?s = 0 \<Longrightarrow> ?r = 0" by simp
  then have mag: "f64_mag (f64_add a b) = ?r" using assms(3) by (simp add: add round_mag_le_inf)
  have val: "f64_int (f64_add a b) = int (sval ?r)"
    using assms(3) by (auto simp: add f64_int_def round_mag_le_inf)
  have "0 \<le> f64_key (f64_add a b)" using assms(3) by (auto simp: add f64_key_def round_mag_le_inf)
  with assms(5) have "f64_key (f64_add a b) \<le> f64_key t" "0 \<le> f64_key t" by (simp_all add: f64_le_def)
  then have le: "?r \<le> f64_mag t" using mag \<open>0 \<le> f64_key (f64_add a b)\<close>
    by (auto simp: f64_key_def split: if_splits)
  with assms(4) show "f64_finite (f64_add a b)" by (simp add: f64_finite_def mag)
  show "2 * \<bar>f64_int (f64_add a b) - ?s\<bar> \<le> int (gap (f64_mag t))"
    using round_mag_near [OF le] assms(3,4) by (simp add: val f64_finite_def)
qed

text \<open>Adding at least the spacing at \<open>t\<close> to a value of at most \<open>t\<close> increases it.\<close>

lemma f64_add_progress:
  assumes "f64_finite c" and "f64_finite b" and "0 \<le> f64_int c" and "f64_int c \<le> f64_int t"
    and "int (gap (f64_mag t)) \<le> f64_int b"
  shows "f64_key c < f64_key (f64_add c b)"
proof -
  let ?c = "f64_of_mag False (Suc (f64_mag c))"
  have fin: "Suc (f64_mag c) \<le> inf_mag" using assms(1) by (simp add: f64_finite_def)
  have mag: "f64_mag c \<le> f64_mag t" using assms(3,4) f64_int_nonneg_mag [of c] f64_int_nonneg_mag [of t] by simp
  have "f64_int ?c = int (sval (Suc (f64_mag c)))" using fin by (simp add: f64_int_def)
  also have "\<dots> = f64_int c + int (gap (f64_mag c))"
    using f64_int_nonneg_mag [OF assms(3)] by (simp add: sval_Suc_gap)
  also have "\<dots> \<le> f64_int c + f64_int b" using gap_mono [OF mag] assms(5) by linarith
  finally have "f64_le ?c (f64_add c b)" using f64_add_ge [OF assms(1,2)] fin by simp
  moreover have "f64_key c < f64_key ?c" using fin by (simp add: f64_key_def)
  ultimately show ?thesis by (simp add: f64_le_def)
qed

lemma f64_of_mag_self: "f64_of_mag (f64_neg x) (f64_mag x) = x"
proof (cases "2 ^ 63 \<le> unat x")
  case True
  then have "unat x mod 2 ^ 63 = unat x - 2 ^ 63" using unat_bound [of x] by (simp add: mod_if)
  with True show ?thesis by (simp add: f64_of_mag_def f64_neg_def f64_mag_def)
next
  case False
  then show ?thesis by (simp add: f64_of_mag_def f64_neg_def f64_mag_def)
qed

lemma f64_one_minus_zero [simp]: "f64_sub f64_one f64_zero = f64_one"
proof -
  have "sval (f64_mag f64_one) = f64_unit" using f64_one_simps(4) f64_int_nonneg_mag [of f64_one] by simp
  then have "round_mag f64_unit 1 = f64_mag f64_one"
    using round_mag_exact [of 1 "f64_mag f64_one"] by (simp add: inf_mag_def)
  moreover have nz: "(f64_unit = 0) = False" by (simp add: f64_unit_def)
  ultimately show ?thesis
    using f64_of_mag_self [of f64_one] by (simp add: nz f64_sub_def f64_add_def Let_def)
qed

lemma f64_one_mul [simp]: "f64_finite x \<Longrightarrow> f64_mul f64_one x = x"
proof -
  assume x: "f64_finite x"
  have "sval (f64_mag f64_one) = f64_unit" using f64_one_simps(4) f64_int_nonneg_mag [of f64_one] by simp
  moreover have "round_mag (f64_unit * sval (f64_mag x)) f64_unit = f64_mag x"
    using x round_mag_exact [of f64_unit "f64_mag x"] by (simp add: f64_finite_def mult.commute)
  moreover have "\<not> f64_isnan f64_one \<and> \<not> f64_isinf f64_one" using f64_one_simps(3) by simp
  ultimately show ?thesis using x f64_of_mag_self [of x] by (simp add: f64_mul_def Let_def)
qed

lemma f64_round_mono: "0 < q \<Longrightarrow> s \<le> s' \<Longrightarrow> f64_key (f64_round s q) \<le> f64_key (f64_round s' q)"
proof -
  assume q: "0 < q" and le: "s \<le> s'"
  consider "s' < 0" | "s < 0" "0 \<le> s'" | "0 \<le> s" by linarith
  then show ?thesis
  proof cases
    case 1
    then have "round_mag (nat \<bar>s'\<bar>) q \<le> round_mag (nat \<bar>s\<bar>) q" using le q by (intro round_mag_mono) auto
    with 1 le show ?thesis by (simp add: f64_key_def)
  next
    case 3
    then have "round_mag (nat \<bar>s\<bar>) q \<le> round_mag (nat \<bar>s'\<bar>) q" using le q by (intro round_mag_mono) auto
    with 3 le show ?thesis by (simp add: f64_key_def)
  qed (simp add: f64_key_def)
qed

section \<open>Sorting\<close>

text \<open>\<^verbatim>\<open>sort.Float64s\<close> puts the values that are not a number first.\<close>

definition Float64s :: "f64 list \<Rightarrow> f64 list" where
  "Float64s = sort_key (\<lambda>x. if f64_isnan x then - (2 ^ 64) else f64_key x)"

lemma Float64s_set: "set (Float64s xs) = set xs" "length (Float64s xs) = length xs"
  by (simp_all add: Float64s_def)

end
