(* ===== verification/Core_Messages.thy ===== *)
theory Core_Messages
  imports Wire_IO Go_Float64
begin

text \<open>
  The messages the Diablo primary and its secondaries exchange (\<^verbatim>\<open>src/core/encoding.go\<close>): one
  record per message struct, one \<open>encode\<close> and one \<open>decode\<close> per message, and the two tagged
  unions \<^verbatim>\<open>msgPrepare\<close> and \<^verbatim>\<open>msgResult\<close>. An encoder takes the write operation of the
  destination as an argument, as the Go method takes an \<^verbatim>\<open>io.Writer\<close>. The theorems give the
  exact bytes of each message, show that a message that is refused writes nothing, and that
  decoding inverts encoding, except that an interaction's client index comes back modulo 256.
\<close>

section \<open>Parameters of the primary\<close>

record msgPrimaryParameters =
  mpp_sysname :: string
  mpp_chainParams :: "(string, string) gomap"
  mpp_maxDelay :: f64
  mpp_maxSkew :: f64

text \<open>One round of the loop that reads a key and a value into the map.\<close>

definition decode_chainParam :: "(reader, string \<times> string) go" where
  "decode_chainParam =
     gbind (read_full 2) (\<lambda>buf.
     gbind (read_string (unat (buf ! 0))) (\<lambda>key.
     gbind (read_string (unat (buf ! 1))) (\<lambda>val.
     gret (key, val))))"

definition decodeMsgPrimaryParameters :: "(reader, msgPrimaryParameters) go" where
  "decodeMsgPrimaryParameters =
     gbind read_u8 (\<lambda>n.
     gbind (read_string (unat n)) (\<lambda>name.
     gbind read_u8 (\<lambda>k.
     gbind (gtimes (unat k) decode_chainParam) (\<lambda>params.
     gbind read_u64 (\<lambda>delay.
     gbind read_u64 (\<lambda>skew.
     gret \<lparr>mpp_sysname = name,
           mpp_chainParams = fold (\<lambda>(key, val). gomap_set key val) params [],
           mpp_maxDelay = delay, mpp_maxSkew = skew\<rparr>))))))"

definition check_chainParam :: "string \<times> string \<Rightarrow> ('w, unit) go" where
  "check_chainParam = (\<lambda>(key, val).
     if length key > 255 then gerr (Errorf ''chain parameter name too long'' [AStr key, AInt (int (length key))])
     else if length val > 255
     then gerr (Errorf ''chain parameter value too long'' [AStr val, AInt (int (length val))])
     else gret ())"

definition encode_chainParam :: "'w write_op \<Rightarrow> string \<times> string \<Rightarrow> ('w, unit) go" where
  "encode_chainParam wr = (\<lambda>(key, val).
     gbind (wr [of_nat (length key), of_nat (length val)]) (\<lambda>_.
     gbind (wr (string_bytes key)) (\<lambda>_.
     gbind (wr (string_bytes val)) (\<lambda>_. gret ()))))"

text \<open>
  The method ranges over the map twice, first to check and then to write; \<open>it1\<close> and \<open>it2\<close> are
  the orders of the two loops.
\<close>

definition encode_msgPrimaryParameters ::
  "'w write_op \<Rightarrow> (string \<times> string) list \<Rightarrow> (string \<times> string) list \<Rightarrow> msgPrimaryParameters
     \<Rightarrow> ('w, unit) go" where
  "encode_msgPrimaryParameters wr it1 it2 m =
     (if length (mpp_sysname m) > 255
      then gerr (Errorf ''interface name too long'' [AStr (mpp_sysname m), AInt (int (length (mpp_sysname m)))])
      else if length (mpp_chainParams m) > 255
      then gerr (Errorf ''too many chain parameters'' [AInt (int (length (mpp_chainParams m)))])
      else
        gbind (gfor it1 check_chainParam) (\<lambda>_.
        gbind (wr [of_nat (length (mpp_sysname m))]) (\<lambda>_.
        gbind (wr (string_bytes (mpp_sysname m))) (\<lambda>_.
        gbind (wr [of_nat (length (mpp_chainParams m))]) (\<lambda>_.
        gbind (gfor it2 (encode_chainParam wr)) (\<lambda>_.
        gbind (wr (put_u64 (mpp_maxDelay m))) (\<lambda>_.
        gbind (wr (put_u64 (mpp_maxSkew m))) (\<lambda>_. gret ()))))))))"

section \<open>Parameters of a secondary\<close>

record msgSecondaryParameters =
  msp_tags :: "string list"

text \<open>A length byte followed by that many bytes: tags and endpoint addresses.\<close>

definition decode_shortString :: "(reader, string) go" where
  "decode_shortString = gbind read_u8 (\<lambda>n. read_string (unat n))"

definition encode_shortString :: "'w write_op \<Rightarrow> string \<Rightarrow> ('w, unit) go" where
  "encode_shortString wr s =
     gbind (wr [of_nat (length s)]) (\<lambda>_. gbind (wr (string_bytes s)) (\<lambda>_. gret ()))"

definition decodeMsgSecondaryParameters :: "(reader, msgSecondaryParameters) go" where
  "decodeMsgSecondaryParameters =
     gbind read_u8 (\<lambda>n.
     gbind (gtimes (unat n) decode_shortString) (\<lambda>tags.
     gret \<lparr>msp_tags = tags\<rparr>))"

definition check_tag :: "string \<Rightarrow> ('w, unit) go" where
  "check_tag tag =
     (if length tag > 255 then gerr (Errorf ''tag too long'' [AStr tag, AInt (int (length tag))])
      else gret ())"

definition encode_msgSecondaryParameters ::
  "'w write_op \<Rightarrow> msgSecondaryParameters \<Rightarrow> ('w, unit) go" where
  "encode_msgSecondaryParameters wr m =
     (if length (msp_tags m) > 255
      then gerr (Errorf ''too many tags'' [AInt (int (length (msp_tags m)))])
      else
        gbind (gfor (msp_tags m) check_tag) (\<lambda>_.
        gbind (wr [of_nat (length (msp_tags m))]) (\<lambda>_.
        gfor (msp_tags m) (encode_shortString wr))))"

section \<open>Preparation messages\<close>

definition MSG_PREPARE_TYPE_DONE :: byte where "MSG_PREPARE_TYPE_DONE = 0"

definition MSG_PREPARE_TYPE_CLIENT :: byte where "MSG_PREPARE_TYPE_CLIENT = 1"

definition MSG_PREPARE_TYPE_INTERACTION :: byte where "MSG_PREPARE_TYPE_INTERACTION = 2"

record msgPrepareClient =
  mpc_view :: "string list"
  mpc_index :: int

record msgPrepareInteraction =
  mpi_index :: int
  mpi_ikind :: int
  mpi_time :: f64
  mpi_payload :: "byte list"

datatype msgPrepare =
    MsgPrepareDone
  | MsgPrepareClient msgPrepareClient
  | MsgPrepareInteraction msgPrepareInteraction

definition decodeMsgPrepareDone :: "(reader, msgPrepare) go" where
  "decodeMsgPrepareDone = gret MsgPrepareDone"

definition decodeMsgPrepareClient :: "(reader, msgPrepare) go" where
  "decodeMsgPrepareClient =
     gbind read_u16 (\<lambda>nview.
     gbind (gtimes (unat nview) decode_shortString) (\<lambda>view.
     gbind read_u32 (\<lambda>index.
     gret (MsgPrepareClient \<lparr>mpc_view = view, mpc_index = uint index\<rparr>))))"

text \<open>The decoder converts the index it has read to \<^verbatim>\<open>uint8\<close> before it stores it.\<close>

definition decodeMsgPrepareInteraction :: "(reader, msgPrepare) go" where
  "decodeMsgPrepareInteraction =
     gbind read_u32 (\<lambda>index.
     gbind read_u8 (\<lambda>ikind.
     gbind read_u64 (\<lambda>time.
     gbind read_u16 (\<lambda>lpayload.
     gbind (read_full (unat lpayload)) (\<lambda>payload.
     gret (MsgPrepareInteraction
       \<lparr>mpi_index = uint (ucast index :: byte), mpi_ikind = uint ikind, mpi_time = time,
        mpi_payload = payload\<rparr>))))))"

definition decodeMsgPrepare :: "(reader, msgPrepare) go" where
  "decodeMsgPrepare =
     gbind read_u8 (\<lambda>mtype.
       if mtype = MSG_PREPARE_TYPE_DONE then decodeMsgPrepareDone
       else if mtype = MSG_PREPARE_TYPE_CLIENT then decodeMsgPrepareClient
       else if mtype = MSG_PREPARE_TYPE_INTERACTION then decodeMsgPrepareInteraction
       else gerr (Errorf ''unknown prepare message type'' [AInt (uint mtype)]))"

definition encode_msgPrepareDone :: "'w write_op \<Rightarrow> ('w, unit) go" where
  "encode_msgPrepareDone wr = wr [MSG_PREPARE_TYPE_DONE]"

definition check_addr :: "string \<Rightarrow> ('w, unit) go" where
  "check_addr addr =
     (if length addr > 255
      then gerr (Errorf ''address too long'' [AStr addr, AInt (int (length addr))])
      else gret ())"

definition encode_msgPrepareClient :: "'w write_op \<Rightarrow> msgPrepareClient \<Rightarrow> ('w, unit) go" where
  "encode_msgPrepareClient wr m =
     (if length (mpc_view m) > 65535
      then gerr (Errorf ''too many addresses'' [AInt (int (length (mpc_view m)))])
      else
        gbind (gfor (mpc_view m) check_addr) (\<lambda>_.
        if mpc_index m \<ge> 2 ^ 32
        then gerr (Errorf ''client index too large'' [AInt (mpc_index m)])
        else
          gbind (wr [MSG_PREPARE_TYPE_CLIENT]) (\<lambda>_.
          gbind (wr (put_u16 (of_nat (length (mpc_view m))))) (\<lambda>_.
          gbind (gfor (mpc_view m) (encode_shortString wr)) (\<lambda>_.
          gbind (wr (put_u32 (word_of_int (mpc_index m)))) (\<lambda>_. gret ()))))))"

definition encode_msgPrepareInteraction ::
  "'w write_op \<Rightarrow> msgPrepareInteraction \<Rightarrow> ('w, unit) go" where
  "encode_msgPrepareInteraction wr m =
     (if mpi_index m \<ge> 2 ^ 32
      then gerr (Errorf ''client index too large'' [AInt (mpi_index m)])
      else if mpi_ikind m > 255
      then gerr (Errorf ''interaction kind too large'' [AInt (mpi_ikind m)])
      else if length (mpi_payload m) > 65535
      then gerr (Errorf ''payload too large'' [AInt (int (length (mpi_payload m)))])
      else
        gbind (wr [MSG_PREPARE_TYPE_INTERACTION]) (\<lambda>_.
        gbind (wr (put_u32 (word_of_int (mpi_index m)))) (\<lambda>_.
        gbind (wr [word_of_int (mpi_ikind m)]) (\<lambda>_.
        gbind (wr (put_u64 (mpi_time m))) (\<lambda>_.
        gbind (wr (put_u16 (of_nat (length (mpi_payload m))))) (\<lambda>_.
        gbind (wr (mpi_payload m)) (\<lambda>_. gret ())))))))"

fun encode_msgPrepare :: "'w write_op \<Rightarrow> msgPrepare \<Rightarrow> ('w, unit) go" where
  "encode_msgPrepare wr MsgPrepareDone = encode_msgPrepareDone wr"
| "encode_msgPrepare wr (MsgPrepareClient m) = encode_msgPrepareClient wr m"
| "encode_msgPrepare wr (MsgPrepareInteraction m) = encode_msgPrepareInteraction wr m"

section \<open>Start message\<close>

record msgStart =
  mst_duration :: f64

definition decodeMsgStart :: "(reader, msgStart) go" where
  "decodeMsgStart = gbind read_u64 (\<lambda>d. gret \<lparr>mst_duration = d\<rparr>)"

definition encode_msgStart :: "'w write_op \<Rightarrow> msgStart \<Rightarrow> ('w, unit) go" where
  "encode_msgStart wr m = wr (put_u64 (mst_duration m))"

section \<open>Result messages\<close>

definition MSG_RESULT_TYPE_DONE :: byte where "MSG_RESULT_TYPE_DONE = 0"

definition MSG_RESULT_TYPE_INTERACTION :: byte where "MSG_RESULT_TYPE_INTERACTION = 1"

record msgResultInteraction =
  mri_index :: int
  mri_ikind :: int
  mri_submitTime :: f64
  mri_commitTime :: f64
  mri_abortTime :: f64
  mri_hasError :: bool

datatype msgResult = MsgResultDone | MsgResultInteraction msgResultInteraction

definition decodeMsgResultDone :: "(reader, msgResult) go" where
  "decodeMsgResultDone = gret MsgResultDone"

definition decodeMsgResultInteraction :: "(reader, msgResult) go" where
  "decodeMsgResultInteraction =
     gbind read_u32 (\<lambda>index.
     gbind read_u8 (\<lambda>ikind.
     gbind read_u64 (\<lambda>submit.
     gbind read_u64 (\<lambda>commit.
     gbind read_u64 (\<lambda>abort.
     gbind read_u8 (\<lambda>flag.
     gret (MsgResultInteraction
       \<lparr>mri_index = uint index, mri_ikind = uint ikind, mri_submitTime = submit,
        mri_commitTime = commit, mri_abortTime = abort, mri_hasError = (flag = 1)\<rparr>)))))))"

definition decodeMsgResult :: "(reader, msgResult) go" where
  "decodeMsgResult =
     gbind read_u8 (\<lambda>mtype.
       if mtype = MSG_RESULT_TYPE_DONE then decodeMsgResultDone
       else if mtype = MSG_RESULT_TYPE_INTERACTION then decodeMsgResultInteraction
       else gerr (Errorf ''unknown result message type'' [AInt (uint mtype)]))"

definition encode_msgResultDone :: "'w write_op \<Rightarrow> ('w, unit) go" where
  "encode_msgResultDone wr = gbind (wr [MSG_RESULT_TYPE_DONE]) (\<lambda>_. gret ())"

definition encode_msgResultInteraction ::
  "'w write_op \<Rightarrow> msgResultInteraction \<Rightarrow> ('w, unit) go" where
  "encode_msgResultInteraction wr m =
     (if mri_index m \<ge> 2 ^ 32
      then gerr (Errorf ''client index too large'' [AInt (mri_index m)])
      else if mri_ikind m > 255
      then gerr (Errorf ''interaction kind too large'' [AInt (mri_ikind m)])
      else
        gbind (wr [MSG_RESULT_TYPE_INTERACTION]) (\<lambda>_.
        gbind (wr (put_u32 (word_of_int (mri_index m)))) (\<lambda>_.
        gbind (wr [word_of_int (mri_ikind m)]) (\<lambda>_.
        gbind (wr (put_u64 (mri_submitTime m))) (\<lambda>_.
        gbind (wr (put_u64 (mri_commitTime m))) (\<lambda>_.
        gbind (wr (put_u64 (mri_abortTime m))) (\<lambda>_.
        gbind (wr [if mri_hasError m then 1 else 0]) (\<lambda>_. gret ()))))))))"

fun encode_msgResult :: "'w write_op \<Rightarrow> msgResult \<Rightarrow> ('w, unit) go" where
  "encode_msgResult wr MsgResultDone = encode_msgResultDone wr"
| "encode_msgResult wr (MsgResultInteraction m) = encode_msgResultInteraction wr m"

section \<open>What the messages look like on the wire\<close>

definition wire_short :: "string \<Rightarrow> byte list" where
  "wire_short s = of_nat (length s) # string_bytes s"

definition wire_chainParam :: "string \<times> string \<Rightarrow> byte list" where
  "wire_chainParam = (\<lambda>(key, val).
     of_nat (length key) # of_nat (length val) # string_bytes key @ string_bytes val)"

definition wire_primary :: "(string \<times> string) list \<Rightarrow> msgPrimaryParameters \<Rightarrow> byte list" where
  "wire_primary it m =
     wire_short (mpp_sysname m) @ of_nat (length (mpp_chainParams m)) #
     concat (map wire_chainParam it) @ put_u64 (mpp_maxDelay m) @ put_u64 (mpp_maxSkew m)"

definition wire_secondary :: "msgSecondaryParameters \<Rightarrow> byte list" where
  "wire_secondary m = of_nat (length (msp_tags m)) # concat (map wire_short (msp_tags m))"

fun wire_prepare :: "msgPrepare \<Rightarrow> byte list" where
  "wire_prepare MsgPrepareDone = [0]"
| "wire_prepare (MsgPrepareClient m) =
     1 # put_u16 (of_nat (length (mpc_view m))) @ concat (map wire_short (mpc_view m)) @
     put_u32 (word_of_int (mpc_index m))"
| "wire_prepare (MsgPrepareInteraction m) =
     2 # put_u32 (word_of_int (mpi_index m)) @ word_of_int (mpi_ikind m) # put_u64 (mpi_time m) @
     put_u16 (of_nat (length (mpi_payload m))) @ mpi_payload m"

definition wire_start :: "msgStart \<Rightarrow> byte list" where
  "wire_start m = put_u64 (mst_duration m)"

fun wire_result :: "msgResult \<Rightarrow> byte list" where
  "wire_result MsgResultDone = [0]"
| "wire_result (MsgResultInteraction m) =
     1 # put_u32 (word_of_int (mri_index m)) @ word_of_int (mri_ikind m) #
     put_u64 (mri_submitTime m) @ put_u64 (mri_commitTime m) @ put_u64 (mri_abortTime m) @
     [if mri_hasError m then 1 else 0]"

text \<open>The values each encoder accepts.\<close>

definition short :: "string \<Rightarrow> bool" where
  "short s \<longleftrightarrow> length s \<le> 255"

definition primary_fits :: "msgPrimaryParameters \<Rightarrow> bool" where
  "primary_fits m \<longleftrightarrow> short (mpp_sysname m) \<and> length (mpp_chainParams m) \<le> 255 \<and>
     list_all (\<lambda>(key, val). short key \<and> short val) (mpp_chainParams m)"

definition secondary_fits :: "msgSecondaryParameters \<Rightarrow> bool" where
  "secondary_fits m \<longleftrightarrow> length (msp_tags m) \<le> 255 \<and> list_all short (msp_tags m)"

fun prepare_fits :: "msgPrepare \<Rightarrow> bool" where
  "prepare_fits MsgPrepareDone \<longleftrightarrow> True"
| "prepare_fits (MsgPrepareClient m) \<longleftrightarrow>
     length (mpc_view m) \<le> 65535 \<and> list_all short (mpc_view m) \<and> mpc_index m < 2 ^ 32"
| "prepare_fits (MsgPrepareInteraction m) \<longleftrightarrow>
     mpi_index m < 2 ^ 32 \<and> mpi_ikind m \<le> 255 \<and> length (mpi_payload m) \<le> 65535"

fun result_fits :: "msgResult \<Rightarrow> bool" where
  "result_fits MsgResultDone \<longleftrightarrow> True"
| "result_fits (MsgResultInteraction m) \<longleftrightarrow> mri_index m < 2 ^ 32 \<and> mri_ikind m \<le> 255"

lemmas encode_defs =
  encode_msgPrimaryParameters_def encode_msgSecondaryParameters_def encode_msgPrepareDone_def
  encode_msgPrepareClient_def encode_msgPrepareInteraction_def encode_msgStart_def
  encode_msgResultDone_def encode_msgResultInteraction_def

lemmas msg_type_defs =
  MSG_PREPARE_TYPE_DONE_def MSG_PREPARE_TYPE_CLIENT_def MSG_PREPARE_TYPE_INTERACTION_def
  MSG_RESULT_TYPE_DONE_def MSG_RESULT_TYPE_INTERACTION_def

section \<open>Encoding\<close>

lemma check_loop_ok:
  "(\<And>x s. x \<in> set xs \<Longrightarrow> f x s = (Ok (), s)) \<Longrightarrow> gbind (gfor xs f) (\<lambda>_. m) = m"
  by (rule ext) (simp add: gbind_def gfor_check)

lemma check_loop_fails:
  assumes "\<And>x s. x \<in> set xs \<Longrightarrow> P x \<Longrightarrow> f x s = (Ok (), s)"
    and "\<And>x s. x \<in> set xs \<Longrightarrow> \<not> P x \<Longrightarrow> \<exists>e. f x s = (Err e, s)"
    and "\<not> list_all P xs"
  shows "\<exists>e. gbind (gfor xs f) (\<lambda>_. m) s = (Err e, s)"
proof -
  have "\<exists>e. gfor xs f s = (Err e, s)"
    by (rule gfor_check_fails [where P = P]) (use assms in \<open>auto simp: list_all_iff\<close>)
  then show ?thesis by (auto simp: gbind_def)
qed

lemma check_chainParam_loop [simp]:
  "list_all (\<lambda>(key, val). short key \<and> short val) it \<Longrightarrow> gbind (gfor it check_chainParam) (\<lambda>_. k) = k"
  by (rule check_loop_ok) (auto simp: check_chainParam_def short_def list_all_iff gret_def)

lemma check_chainParam_loop_fails:
  "\<not> list_all (\<lambda>(key, val). short key \<and> short val) it \<Longrightarrow>
   \<exists>e. gbind (gfor it check_chainParam) (\<lambda>_. k) w = (Err e, w)"
proof (rule check_loop_fails [where P = "\<lambda>(key, val). short key \<and> short val"])
  fix p s
  assume "\<not> (case p of (key, val) \<Rightarrow> short key \<and> short val)"
  then show "\<exists>e. check_chainParam p s = (Err e, s)"
    by (cases "length (fst p) > 255") (auto simp: check_chainParam_def short_def gerr_def split: prod.splits)
qed (auto simp: check_chainParam_def short_def gret_def)

lemma check_tag_loop [simp]: "list_all short xs \<Longrightarrow> gbind (gfor xs check_tag) (\<lambda>_. k) = k"
  by (rule check_loop_ok) (auto simp: check_tag_def short_def list_all_iff gret_def)

lemma check_tag_loop_fails:
  "\<not> list_all short xs \<Longrightarrow> \<exists>e. gbind (gfor xs check_tag) (\<lambda>_. k) w = (Err e, w)"
  by (rule check_loop_fails [where P = short]) (auto simp: check_tag_def short_def gret_def gerr_def)

lemma check_addr_loop [simp]: "list_all short xs \<Longrightarrow> gbind (gfor xs check_addr) (\<lambda>_. k) = k"
  by (rule check_loop_ok) (auto simp: check_addr_def short_def list_all_iff gret_def)

lemma check_addr_loop_fails:
  "\<not> list_all short xs \<Longrightarrow> \<exists>e. gbind (gfor xs check_addr) (\<lambda>_. k) w = (Err e, w)"
  by (rule check_loop_fails [where P = short]) (auto simp: check_addr_def short_def gret_def gerr_def)

lemma order_list_all: "gomap_order m it \<Longrightarrow> list_all P it \<longleftrightarrow> list_all P m"
  by (drule gomap_order_set) (simp add: list_all_iff)

text \<open>A message outside the bounds of the format is refused and nothing is written.\<close>

lemma encode_primary_refused:
  assumes "gomap_order (mpp_chainParams m) it1" and "\<not> primary_fits m"
  shows "\<exists>e. encode_msgPrimaryParameters wr it1 it2 m w = (Err e, w)"
  using assms(2) check_chainParam_loop_fails [of it1]
  by (auto simp: encode_msgPrimaryParameters_def primary_fits_def short_def gerr_def
      order_list_all [OF assms(1)])

lemma encode_secondary_refused:
  "\<not> secondary_fits m \<Longrightarrow> \<exists>e. encode_msgSecondaryParameters wr m w = (Err e, w)"
  using check_tag_loop_fails [of "msp_tags m"]
  by (auto simp: encode_msgSecondaryParameters_def secondary_fits_def gerr_def)

lemma encode_prepare_refused:
  "\<not> prepare_fits m \<Longrightarrow> \<exists>e. encode_msgPrepare wr m w = (Err e, w)"
proof (cases m)
  case (MsgPrepareClient c)
  assume "\<not> prepare_fits m"
  then show ?thesis
    using MsgPrepareClient check_addr_loop_fails [of "mpc_view c"]
    by (cases "list_all short (mpc_view c)") (auto simp: encode_msgPrepareClient_def gerr_def)
qed (auto simp: encode_msgPrepareInteraction_def gerr_def)

lemma encode_result_refused:
  "\<not> result_fits m \<Longrightarrow> \<exists>e. encode_msgResult wr m w = (Err e, w)"
  by (cases m) (auto simp: encode_msgResultInteraction_def gerr_def)

text \<open>Encoding touches nothing but the destination.\<close>

lemmas check_defs = check_chainParam_def check_tag_def check_addr_def

lemma check_keeps: "keeps f (check_chainParam p)" "keeps f (check_tag s)" "keeps f (check_addr s)"
  by (cases p) (auto simp: check_defs intro: keeps_intros)

lemma encode_keeps:
  assumes "\<And>bs. keeps f (wr bs)"
  shows "keeps f (encode_msgPrimaryParameters wr it1 it2 mp)"
    and "keeps f (encode_msgSecondaryParameters wr ms)"
    and "keeps f (encode_msgPrepare wr mr)" and "keeps f (encode_msgStart wr st)"
    and "keeps f (encode_msgResult wr re)"
proof -
  have sub: "keeps f (encode_shortString wr s)" "keeps f (encode_chainParam wr p)" for s p
    by (auto simp: encode_shortString_def encode_chainParam_def intro!: keeps_intros assms split: prod.split)
  note intros = keeps_intros assms sub check_keeps
  show "keeps f (encode_msgPrimaryParameters wr it1 it2 mp)"
    "keeps f (encode_msgSecondaryParameters wr ms)" "keeps f (encode_msgStart wr st)"
    unfolding encode_defs by (intro intros)+
  show "keeps f (encode_msgPrepare wr mr)" "keeps f (encode_msgResult wr re)"
    by (cases mr; cases re; simp only: encode_msgPrepare.simps encode_msgResult.simps encode_defs; intro intros)+
qed

text \<open>An accepted message is written as its wire image, whatever the sink.\<close>

context byte_sink
begin

lemma emits_shortString: "emits good cts (encode_shortString wr s) (wire_short s)"
  by (simp add: encode_shortString_def wire_short_def)
    (rule emits_eq, rule emits_seq, rule wr_emits, simp)

lemma emits_chainParam: "emits good cts (encode_chainParam wr p) (wire_chainParam p)"
  by (cases p, simp add: encode_chainParam_def wire_chainParam_def)
    (rule emits_eq, rule emits_seq, rule emits_seq, rule wr_emits, simp)

lemma encode_primary_emits:
  assumes "gomap_order (mpp_chainParams m) it1" and "primary_fits m"
  shows "emits good cts (encode_msgPrimaryParameters wr it1 it2 m) (wire_primary it2 m)"
  using assms
  by (simp add: encode_msgPrimaryParameters_def primary_fits_def order_list_all [OF assms(1), symmetric] short_def [of "mpp_sysname m"])
    (rule emits_eq, rule emits_seq, rule emits_seq, rule emits_seq, rule emits_gbind,
      rule emits_gfor, rule emits_chainParam, rule emits_seq, rule wr_emits,
      simp add: wire_primary_def wire_short_def)

lemma encode_secondary_emits:
  assumes "secondary_fits m"
  shows "emits good cts (encode_msgSecondaryParameters wr m) (wire_secondary m)"
  using assms
  by (simp add: encode_msgSecondaryParameters_def secondary_fits_def)
    (rule emits_eq, rule emits_seq, rule emits_gfor, rule emits_shortString,
      simp add: wire_secondary_def)

lemma encode_prepare_emits:
  assumes "prepare_fits m"
  shows "emits good cts (encode_msgPrepare wr m) (wire_prepare m)"
proof (cases m)
  case MsgPrepareDone
  then show ?thesis using wr_emits [of "[0]"] by (simp add: encode_msgPrepareDone_def msg_type_defs)
next
  case (MsgPrepareClient c)
  with assms show ?thesis
    by (simp add: encode_msgPrepareClient_def)
      (rule emits_eq, rule emits_seq, rule emits_seq, rule emits_gbind, rule emits_gfor,
        rule emits_shortString, rule wr_emits, simp add: msg_type_defs)
next
  case (MsgPrepareInteraction i)
  with assms show ?thesis
    by (simp add: encode_msgPrepareInteraction_def)
      (rule emits_eq, rule emits_seq, rule emits_seq, rule emits_seq, rule emits_seq, rule emits_seq,
        rule wr_emits, simp add: msg_type_defs)
qed

lemma encode_start_emits: "emits good cts (encode_msgStart wr m) (wire_start m)"
  unfolding encode_msgStart_def wire_start_def by (rule wr_emits)

lemma encode_result_emits:
  assumes "result_fits m"
  shows "emits good cts (encode_msgResult wr m) (wire_result m)"
proof (cases m)
  case MsgResultDone
  then show ?thesis using wr_emits [of "[0]"] by (simp add: encode_msgResultDone_def msg_type_defs)
next
  case (MsgResultInteraction i)
  with assms show ?thesis
    by (simp add: encode_msgResultInteraction_def split del: if_split)
      (rule emits_eq, rule emits_seq, rule emits_seq, rule emits_seq, rule emits_seq, rule emits_seq,
        rule emits_seq, rule wr_emits, simp add: msg_type_defs)
qed

end

section \<open>Decoding\<close>

text \<open>What each decoder returns for an encoded message.\<close>

fun view_prepare :: "msgPrepare \<Rightarrow> msgPrepare" where
  "view_prepare MsgPrepareDone = MsgPrepareDone"
| "view_prepare (MsgPrepareClient m) = MsgPrepareClient m"
| "view_prepare (MsgPrepareInteraction m) = MsgPrepareInteraction (m\<lparr>mpi_index := mpi_index m mod 256\<rparr>)"

fun prepare_valid :: "msgPrepare \<Rightarrow> bool" where
  "prepare_valid MsgPrepareDone \<longleftrightarrow> True"
| "prepare_valid (MsgPrepareClient m) \<longleftrightarrow> prepare_fits (MsgPrepareClient m) \<and> 0 \<le> mpc_index m"
| "prepare_valid (MsgPrepareInteraction m) \<longleftrightarrow>
     prepare_fits (MsgPrepareInteraction m) \<and> 0 \<le> mpi_index m \<and> 0 \<le> mpi_ikind m"

fun result_valid :: "msgResult \<Rightarrow> bool" where
  "result_valid MsgResultDone \<longleftrightarrow> True"
| "result_valid (MsgResultInteraction m) \<longleftrightarrow>
     result_fits (MsgResultInteraction m) \<and> 0 \<le> mri_index m \<and> 0 \<le> mri_ikind m"

definition primary_valid :: "(string \<times> string) list \<times> msgPrimaryParameters \<Rightarrow> bool" where
  "primary_valid = (\<lambda>(it, m). primary_fits m \<and> gomap_ok (mpp_chainParams m) \<and>
     gomap_order (mpp_chainParams m) it)"

lemmas decode_defs =
  decodeMsgPrimaryParameters_def decodeMsgSecondaryParameters_def decodeMsgPrepare_def
  decodeMsgPrepareDone_def decodeMsgPrepareClient_def decodeMsgPrepareInteraction_def
  decodeMsgStart_def decodeMsgResult_def decodeMsgResultDone_def decodeMsgResultInteraction_def

lemma decoder_shortString: "decoder decode_shortString"
  unfolding decode_shortString_def by (intro decoder_prims)

lemma decoder_chainParam: "decoder decode_chainParam"
  unfolding decode_chainParam_def by (intro decoder_prims)

lemma decoder_If: "decoder a \<Longrightarrow> decoder b \<Longrightarrow> decoder (if c then a else b)"
  by simp

lemmas decoder_msg = decoder_prims decoder_If decoder_shortString decoder_chainParam

interpretation short_codec: codec decode_shortString short wire_short "\<lambda>s. s"
proof (intro codec.intro codec_axioms.intro)
  show "decoder decode_shortString" by (rule decoder_shortString)
qed (simp add: decode_shortString_def wire_short_def short_def gbind_def read_prims)

interpretation chainParam_codec:
  codec decode_chainParam "\<lambda>(k, v). short k \<and> short v" wire_chainParam "\<lambda>p. p"
proof (intro codec.intro codec_axioms.intro)
  show "decoder decode_chainParam" by (rule decoder_chainParam)
next
  fix x :: "string \<times> string" and r rest
  assume "case x of (k, v) \<Rightarrow> short k \<and> short v"
  moreover have "read_full 2 (r\<lparr>r_input := a # b # q\<rparr>) = (Ok [a, b], r\<lparr>r_input := q\<rparr>)" for a b q
    using read_full_append [where bs = "[a, b]" and n = 2 and r = r and rest = q] by simp
  ultimately show
    "decode_chainParam (r\<lparr>r_input := wire_chainParam x @ rest\<rparr>) = (Ok x, r\<lparr>r_input := rest\<rparr>)"
    by (cases x)
      (simp add: decode_chainParam_def wire_chainParam_def short_def gbind_def gret_def read_prims)
qed

interpretation primary_codec: codec decodeMsgPrimaryParameters primary_valid
  "\<lambda>(it, m). wire_primary it m" "\<lambda>(it, m). m\<lparr>mpp_chainParams := it\<rparr>"
proof (intro codec.intro codec_axioms.intro)
  show "decoder decodeMsgPrimaryParameters"
    unfolding decodeMsgPrimaryParameters_def by (intro decoder_msg)
next
  fix x :: "(string \<times> string) list \<times> msgPrimaryParameters" and r rest
  assume "primary_valid x"
  then obtain it m where x: "x = (it, m)" and ok: "primary_fits m" "gomap_ok (mpp_chainParams m)"
    and ord: "gomap_order (mpp_chainParams m) it" by (auto simp: primary_valid_def)
  have len: "length (mpp_chainParams m) = length it" using gomap_order_length [OF ord] by simp
  have it: "list_all (\<lambda>(k, v). short k \<and> short v) it" "length it \<le> 255" "length (mpp_sysname m) \<le> 255"
    using ok(1) len by (auto simp: primary_fits_def order_list_all [OF ord] short_def)
  have "distinct (map fst it)" using gomap_order_ok [OF ord ok(2)] by (simp add: gomap_ok_def)
  then have "fold (\<lambda>(k, v). gomap_set k v) it [] = it" using fold_gomap_set [of "[]" it] by simp
  with it show "decodeMsgPrimaryParameters (r\<lparr>r_input := (case x of (it, m) \<Rightarrow> wire_primary it m) @ rest\<rparr>) =
      (Ok (case x of (it, m) \<Rightarrow> m\<lparr>mpp_chainParams := it\<rparr>), r\<lparr>r_input := rest\<rparr>)"
    by (simp add: x len decodeMsgPrimaryParameters_def wire_primary_def wire_short_def gbind_def
        gret_def read_prims chainParam_codec.dec_stream)
qed

interpretation secondary_codec:
  codec decodeMsgSecondaryParameters secondary_fits wire_secondary "\<lambda>m. m"
proof (intro codec.intro codec_axioms.intro)
  show "decoder decodeMsgSecondaryParameters"
    unfolding decodeMsgSecondaryParameters_def by (intro decoder_msg)
qed (simp add: decodeMsgSecondaryParameters_def wire_secondary_def secondary_fits_def gbind_def
    gret_def read_prims short_codec.dec_stream)

interpretation start_codec: codec decodeMsgStart "\<lambda>_. True" wire_start "\<lambda>m. m"
proof (intro codec.intro codec_axioms.intro)
  show "decoder decodeMsgStart" unfolding decodeMsgStart_def by (intro decoder_msg)
qed (simp add: decodeMsgStart_def wire_start_def gbind_def gret_def read_prims)

interpretation prepare_codec: codec decodeMsgPrepare prepare_valid wire_prepare view_prepare
proof (intro codec.intro codec_axioms.intro)
  show "decoder decodeMsgPrepare" unfolding decode_defs by (intro decoder_msg)
next
  fix m r rest
  assume "prepare_valid m"
  then show "decodeMsgPrepare (r\<lparr>r_input := wire_prepare m @ rest\<rparr>) =
      (Ok (view_prepare m), r\<lparr>r_input := rest\<rparr>)"
    by (cases m)
      (simp_all add: decode_defs msg_type_defs gbind_def gret_def read_prims short_codec.dec_stream
        uint_of_int_u32 uint_of_int_u8 uint_ucast_u8)
qed

interpretation result_codec: codec decodeMsgResult result_valid wire_result "\<lambda>m. m"
proof (intro codec.intro codec_axioms.intro)
  show "decoder decodeMsgResult" unfolding decode_defs by (intro decoder_msg)
next
  fix m r rest
  assume "result_valid m"
  then show "decodeMsgResult (r\<lparr>r_input := wire_result m @ rest\<rparr>) = (Ok m, r\<lparr>r_input := rest\<rparr>)"
    by (cases m)
      (simp_all add: decode_defs msg_type_defs gbind_def gret_def read_prims uint_of_int_u32 uint_of_int_u8)
qed

section \<open>Properties\<close>

lemma encode_to_buffer:
  assumes "emits (\<lambda>_. True) (\<lambda>w. w) m bs"
  shows "m w = (Ok (), w @ bs)"
  using emits_good [OF assms, of w] by auto

lemma prepare_valid_fits: "prepare_valid m \<Longrightarrow> prepare_fits m"
  by (cases m) auto

lemma result_valid_fits: "result_valid m \<Longrightarrow> result_fits m"
  by (cases m) auto

text \<open>
  C27: A preparation message that fits the format is encoded, and decoding the bytes, whatever
  follows them in the stream, returns the message and leaves the rest unread, except that the
  client index of an interaction comes back modulo 256 (the decoder converts it to one byte).
\<close>

theorem prepare_roundtrip:
  assumes "prepare_valid m"
  shows "\<exists>bs. encode_msgPrepare buffer_write m w = (Ok (), w @ bs) \<and>
    decodeMsgPrepare (r\<lparr>r_input := bs @ rest\<rparr>) =
      (Ok (case m of
         MsgPrepareInteraction i \<Rightarrow> MsgPrepareInteraction (i\<lparr>mpi_index := mpi_index i mod 256\<rparr>)
       | _ \<Rightarrow> m), r\<lparr>r_input := rest\<rparr>)"
proof -
  have "encode_msgPrepare buffer_write m w = (Ok (), w @ wire_prepare m)"
    by (rule encode_to_buffer [OF mem.encode_prepare_emits [OF prepare_valid_fits [OF assms]]])
  moreover have "view_prepare m = (case m of
         MsgPrepareInteraction i \<Rightarrow> MsgPrepareInteraction (i\<lparr>mpi_index := mpi_index i mod 256\<rparr>) | _ \<Rightarrow> m)"
    by (cases m) simp_all
  ultimately show ?thesis
    using prepare_codec.dec_enc [OF assms, where r = r and rest = rest] by (intro exI [of _ "wire_prepare m"]) simp
qed

theorem prepare_roundtrip_witness:
  "\<exists>bs. encode_msgPrepare buffer_write
      (MsgPrepareInteraction \<lparr>mpi_index = 3, mpi_ikind = 1, mpi_time = f64_one, mpi_payload = [7, 8]\<rparr>) [] =
      (Ok (), bs) \<and>
    decodeMsgPrepare \<lparr>r_input = bs @ [0], r_err = EOF\<rparr> =
      (Ok (MsgPrepareInteraction \<lparr>mpi_index = 3, mpi_ikind = 1, mpi_time = f64_one, mpi_payload = [7, 8]\<rparr>),
       \<lparr>r_input = [0], r_err = EOF\<rparr>)"
  using prepare_roundtrip [of "MsgPrepareInteraction
      \<lparr>mpi_index = 3, mpi_ikind = 1, mpi_time = f64_one, mpi_payload = [7, 8]\<rparr>" "[]" "[0]"
      "\<lparr>r_input = [], r_err = EOF\<rparr>"]
  by simp

text \<open>
  An interaction for a client whose index is 256 or more is accepted by the encoder but
  arrives with another index: it is delivered for the wrong client (the decoder truncates the
  index to \<^verbatim>\<open>uint8\<close> although the format has four bytes for it).
\<close>

theorem interaction_index_truncated:
  assumes "prepare_valid (MsgPrepareInteraction i)" and "256 \<le> mpi_index i"
  shows "\<exists>bs i'. encode_msgPrepare buffer_write (MsgPrepareInteraction i) [] = (Ok (), bs) \<and>
    decodeMsgPrepare (r\<lparr>r_input := bs @ rest\<rparr>) = (Ok (MsgPrepareInteraction i'), r\<lparr>r_input := rest\<rparr>) \<and>
    mpi_index i' \<noteq> mpi_index i \<and> mpi_index i' < 256"
proof -
  let ?m = "MsgPrepareInteraction i"
  have "encode_msgPrepare buffer_write ?m [] = (Ok (), wire_prepare ?m)"
    using encode_to_buffer [OF mem.encode_prepare_emits [OF prepare_valid_fits [OF assms(1)]], of "[]"] by simp
  moreover have "mpi_index i mod 256 < 256" by simp
  ultimately show ?thesis
    using prepare_codec.dec_enc [OF assms(1), where r = r and rest = rest] assms(2)
    by (intro exI [of _ "wire_prepare ?m"] exI [of _ "i\<lparr>mpi_index := mpi_index i mod 256\<rparr>"])
      (simp del: wire_prepare.simps)
qed

theorem interaction_index_truncated_witness:
  "\<exists>bs i'. encode_msgPrepare buffer_write
      (MsgPrepareInteraction \<lparr>mpi_index = 300, mpi_ikind = 0, mpi_time = 0, mpi_payload = []\<rparr>) [] = (Ok (), bs) \<and>
    decodeMsgPrepare \<lparr>r_input = bs, r_err = EOF\<rparr> =
      (Ok (MsgPrepareInteraction i'), \<lparr>r_input = [], r_err = EOF\<rparr>) \<and> mpi_index i' \<noteq> 300"
  using interaction_index_truncated [of "\<lparr>mpi_index = 300, mpi_ikind = 0, mpi_time = 0, mpi_payload = []\<rparr>" "[]"
      "\<lparr>r_input = [], r_err = EOF\<rparr>"]
  by auto

text \<open>
  A result message that fits the format is encoded, and decoding the bytes, whatever follows
  them, returns the same message and leaves the rest of the stream unread.
\<close>

theorem result_roundtrip:
  assumes "result_valid m"
  shows "\<exists>bs. encode_msgResult buffer_write m w = (Ok (), w @ bs) \<and>
    decodeMsgResult (r\<lparr>r_input := bs @ rest\<rparr>) = (Ok m, r\<lparr>r_input := rest\<rparr>)"
proof -
  have "encode_msgResult buffer_write m w = (Ok (), w @ wire_result m)"
    by (rule encode_to_buffer [OF mem.encode_result_emits [OF result_valid_fits [OF assms]]])
  then show ?thesis
    using result_codec.dec_enc [OF assms, where r = r and rest = rest] by (intro exI [of _ "wire_result m"]) simp
qed

theorem result_roundtrip_witness:
  "\<exists>bs. encode_msgResult buffer_write (MsgResultInteraction \<lparr>mri_index = 1000, mri_ikind = 2,
      mri_submitTime = f64_one, mri_commitTime = f64_minus_one, mri_abortTime = 0, mri_hasError = True\<rparr>) [] =
      (Ok (), bs) \<and>
    decodeMsgResult \<lparr>r_input = bs @ [5], r_err = EOF\<rparr> = (Ok (MsgResultInteraction \<lparr>mri_index = 1000,
      mri_ikind = 2, mri_submitTime = f64_one, mri_commitTime = f64_minus_one, mri_abortTime = 0,
      mri_hasError = True\<rparr>), \<lparr>r_input = [5], r_err = EOF\<rparr>)"
  using result_roundtrip [of "MsgResultInteraction \<lparr>mri_index = 1000, mri_ikind = 2,
      mri_submitTime = f64_one, mri_commitTime = f64_minus_one, mri_abortTime = 0, mri_hasError = True\<rparr>" "[]" "[5]"
      "\<lparr>r_input = [], r_err = EOF\<rparr>"]
  by simp

text \<open>
  The parameters of the primary survive the handshake: whatever the two orders in which the
  encoder ranges over the parameter map, decoding returns the same name, delay and skew and a
  map with the same entries.
\<close>

theorem primary_parameters_roundtrip:
  assumes "primary_fits m" and "gomap_ok (mpp_chainParams m)"
    and "gomap_order (mpp_chainParams m) it1" and "gomap_order (mpp_chainParams m) it2"
  shows "\<exists>bs m'. encode_msgPrimaryParameters buffer_write it1 it2 m w = (Ok (), w @ bs) \<and>
    decodeMsgPrimaryParameters (r\<lparr>r_input := bs @ rest\<rparr>) = (Ok m', r\<lparr>r_input := rest\<rparr>) \<and>
    mpp_sysname m' = mpp_sysname m \<and> mpp_maxDelay m' = mpp_maxDelay m \<and> mpp_maxSkew m' = mpp_maxSkew m \<and>
    gomap_get (mpp_chainParams m') = gomap_get (mpp_chainParams m)"
proof -
  have enc: "encode_msgPrimaryParameters buffer_write it1 it2 m w = (Ok (), w @ wire_primary it2 m)"
    by (rule encode_to_buffer [OF mem.encode_primary_emits [OF assms(3,1)]])
  have "primary_valid (it2, m)" using assms by (simp add: primary_valid_def)
  from primary_codec.dec_enc [OF this, where r = r and rest = rest]
  have "decodeMsgPrimaryParameters (r\<lparr>r_input := wire_primary it2 m @ rest\<rparr>) =
      (Ok (m\<lparr>mpp_chainParams := it2\<rparr>), r\<lparr>r_input := rest\<rparr>)"
    by simp
  with enc gomap_order_get [OF assms(4,2)] show ?thesis
    by (intro exI [of _ "wire_primary it2 m"] exI [of _ "m\<lparr>mpp_chainParams := it2\<rparr>"]) simp
qed

theorem primary_parameters_roundtrip_witness:
  "\<exists>bs m'. encode_msgPrimaryParameters buffer_write [(''b'', ''2''), (''a'', ''1'')] [(''a'', ''1''), (''b'', ''2'')]
      \<lparr>mpp_sysname = ''mock'', mpp_chainParams = [(''a'', ''1''), (''b'', ''2'')], mpp_maxDelay = 1, mpp_maxSkew = 2\<rparr> [] =
      (Ok (), bs) \<and>
    decodeMsgPrimaryParameters \<lparr>r_input = bs, r_err = EOF\<rparr> = (Ok m', \<lparr>r_input = [], r_err = EOF\<rparr>) \<and>
    mpp_sysname m' = ''mock'' \<and> gomap_get (mpp_chainParams m') ''b'' = Some ''2''"
  using primary_parameters_roundtrip [of
      "\<lparr>mpp_sysname = ''mock'', mpp_chainParams = [(''a'', ''1''), (''b'', ''2'')], mpp_maxDelay = 1, mpp_maxSkew = 2\<rparr>"
      "[(''b'', ''2''), (''a'', ''1'')]" "[(''a'', ''1''), (''b'', ''2'')]" "[]" "[]"
      "\<lparr>r_input = [], r_err = EOF\<rparr>"]
  by (auto simp: primary_fits_def short_def gomap_ok_def gomap_order_def)

text \<open>
  A message outside the bounds of the format (too many or too long strings, too large an
  index, kind or payload) is refused with an error by every encoder, before a single byte has
  reached the writer.
\<close>

theorem refused_writes_nothing:
  "(\<not> prepare_fits mr \<longrightarrow> (\<exists>e. encode_msgPrepare wr mr w = (Err e, w))) \<and>
   (\<not> result_fits re \<longrightarrow> (\<exists>e. encode_msgResult wr re w = (Err e, w))) \<and>
   (\<not> secondary_fits ms \<longrightarrow> (\<exists>e. encode_msgSecondaryParameters wr ms w = (Err e, w))) \<and>
   (\<not> primary_fits mp \<and> gomap_order (mpp_chainParams mp) it1 \<longrightarrow>
     (\<exists>e. encode_msgPrimaryParameters wr it1 it2 mp w = (Err e, w)))"
  using encode_prepare_refused [of mr wr w] encode_result_refused [of re wr w]
    encode_secondary_refused [of ms wr w] encode_primary_refused [of mp it1 wr it2 w]
  by auto

theorem refused_writes_nothing_witness:
  "\<exists>e. encode_msgPrepare buffer_write (MsgPrepareInteraction
      \<lparr>mpi_index = 0, mpi_ikind = 256, mpi_time = 0, mpi_payload = []\<rparr>) [9] = (Err e, [9])"
  using refused_writes_nothing [of "MsgPrepareInteraction
      \<lparr>mpi_index = 0, mpi_ikind = 256, mpi_time = 0, mpi_payload = []\<rparr>" buffer_write "[9]"]
  by simp

text \<open>
  No byte stream makes a decoder panic. Each of the five decoders returns a message or an
  error, and what it leaves unread is a suffix of its input.
\<close>

theorem decoders_total:
  "(\<forall>p. fst (decodeMsgPrimaryParameters r) \<noteq> Panic p) \<and>
   suffix (r_input (snd (decodeMsgPrimaryParameters r))) (r_input r) \<and>
   (\<forall>p. fst (decodeMsgSecondaryParameters r) \<noteq> Panic p) \<and>
   suffix (r_input (snd (decodeMsgSecondaryParameters r))) (r_input r) \<and>
   (\<forall>p. fst (decodeMsgPrepare r) \<noteq> Panic p) \<and> suffix (r_input (snd (decodeMsgPrepare r))) (r_input r) \<and>
   (\<forall>p. fst (decodeMsgStart r) \<noteq> Panic p) \<and> suffix (r_input (snd (decodeMsgStart r))) (r_input r) \<and>
   (\<forall>p. fst (decodeMsgResult r) \<noteq> Panic p) \<and> suffix (r_input (snd (decodeMsgResult r))) (r_input r)"
proof -
  have dec: "(\<forall>p. fst (d r) \<noteq> Panic p) \<and> suffix (r_input (snd (d r))) (r_input r)" if "decoder d"
    for d :: "(reader, 'm) go"
    using decoder.dec_no_panic [OF that] decoder.dec_consumes [OF that] by (metis prod.collapse)
  show ?thesis
    using dec [OF primary_codec.decoder_axioms] dec [OF secondary_codec.decoder_axioms]
      dec [OF prepare_codec.decoder_axioms] dec [OF start_codec.decoder_axioms]
      dec [OF result_codec.decoder_axioms] by blast
qed

text \<open>
  C38: A connection that breaks inside a message is noticed: if the stream ends after a proper
  prefix of the encoding of a preparation message or of a result message, decoding reports an
  error and never returns a message.
\<close>

theorem truncated_message_rejected:
  "(prepare_valid m \<and> encode_msgPrepare buffer_write m [] = (Ok (), bs) \<and> strict_prefix (r_input r) bs \<longrightarrow>
      (\<exists>e r'. decodeMsgPrepare r = (Err e, r'))) \<and>
   (result_valid re \<and> encode_msgResult buffer_write re [] = (Ok (), bs) \<and> strict_prefix (r_input r) bs \<longrightarrow>
      (\<exists>e r'. decodeMsgResult r = (Err e, r')))"
proof -
  have "encode_msgPrepare buffer_write m [] = (Ok (), wire_prepare m)" if "prepare_valid m"
    using encode_to_buffer [OF mem.encode_prepare_emits [OF prepare_valid_fits [OF that]], of "[]"] by simp
  moreover have "encode_msgResult buffer_write re [] = (Ok (), wire_result re)" if "result_valid re"
    using encode_to_buffer [OF mem.encode_result_emits [OF result_valid_fits [OF that]], of "[]"] by simp
  ultimately show ?thesis
    using prepare_codec.truncated_rejected [of m r] result_codec.truncated_rejected [of re r] by auto
qed

theorem truncated_message_rejected_witness:
  "\<exists>e r'. decodeMsgPrepare \<lparr>r_input = [2, 3, 0, 0], r_err = EOF\<rparr> = (Err e, r')"
  using truncated_message_rejected [of "MsgPrepareInteraction
      \<lparr>mpi_index = 3, mpi_ikind = 0, mpi_time = 0, mpi_payload = []\<rparr>"
      "[2, 3, 0, 0, 0, 0, 0, 0, 0, 0, 0, 0, 0, 0, 0, 0]" "\<lparr>r_input = [2, 3, 0, 0], r_err = EOF\<rparr>"]
  by (simp add: encode_msgPrepareInteraction_def gbind_def gret_def buffer_write_def msg_type_defs
      put_u16_def put_u32_def put_u64_def put_uint_def strict_prefix_def)

end
