(* ===== verification/Core_Net.thy ===== *)
theory Core_Net
  imports Core_Messages
begin

text \<open>
  The connections of the primary and the secondaries (\<^verbatim>\<open>src/core/net.go\<close>): a network connection
  with a buffered reader and a buffered writer, and the operations of \<^verbatim>\<open>primaryConn\<close> (the
  secondary's end), \<^verbatim>\<open>secondaryConn\<close> (the primary's end) and \<^verbatim>\<open>observerConn\<close>. The three structs
  have the same fields (an observer has no reader), so they share one record.
\<close>

section \<open>Connections\<close>

text \<open>
  The network is the environment: \<open>c_rd\<close> is what the peer will still send, \<open>c_out\<close> what the
  network has accepted, and \<open>c_room\<close> how many more bytes it accepts before it fails (\<open>None\<close>: it
  does not fail). \<open>c_buf\<close> and \<open>c_werr\<close> are the buffer and the sticky error of the
  \<^verbatim>\<open>bufio.Writer\<close>.
\<close>

record conn =
  c_rd :: reader
  c_buf :: "byte list"
  c_werr :: "go_error option"
  c_out :: "byte list"
  c_room :: "nat option"
  c_closed :: bool
  c_addr :: string

definition new_conn :: "reader \<Rightarrow> nat option \<Rightarrow> string \<Rightarrow> conn" where
  "new_conn rd room addr =
     \<lparr>c_rd = rd, c_buf = [], c_werr = None, c_out = [], c_room = room, c_closed = False,
      c_addr = addr\<rparr>"

text \<open>\<^verbatim>\<open>net.Conn.Write\<close>: how many bytes were accepted, and the error if not all were.\<close>

definition net_write :: "byte list \<Rightarrow> conn \<Rightarrow> nat \<times> go_error option \<times> conn" where
  "net_write bs c =
     (if c_closed c then (0, Some ErrClosed, c)
      else case c_room c of
        None \<Rightarrow> (length bs, None, c\<lparr>c_out := c_out c @ bs\<rparr>)
      | Some k \<Rightarrow>
          if length bs \<le> k
          then (length bs, None, c\<lparr>c_out := c_out c @ bs, c_room := Some (k - length bs)\<rparr>)
          else (k, Some (ErrIO ''write''), c\<lparr>c_out := c_out c @ take k bs, c_room := Some 0\<rparr>))"

definition bufio_size :: nat where
  "bufio_size = 4096"

text \<open>\<^verbatim>\<open>bufio.Writer.Flush\<close>: a partial write keeps the rest of the buffer and records the error.\<close>

definition bufio_flush :: "(conn, unit) go" where
  "bufio_flush = (\<lambda>c.
     case c_werr c of
       Some e \<Rightarrow> (Err e, c)
     | None \<Rightarrow>
         if c_buf c = [] then (Ok (), c)
         else case net_write (c_buf c) c of
             (n, None, c') \<Rightarrow> (Ok (), c'\<lparr>c_buf := []\<rparr>)
           | (n, Some e, c') \<Rightarrow> (Err e, c'\<lparr>c_buf := drop n (c_buf c), c_werr := Some e\<rparr>))"

text \<open>A write larger than the buffer goes directly to the connection when the buffer is empty.\<close>

definition bufio_direct :: "byte list \<Rightarrow> (conn, unit) go" where
  "bufio_direct p = (\<lambda>c.
     case net_write p c of
       (n, None, c') \<Rightarrow> (Ok (), c')
     | (n, Some e, c') \<Rightarrow> (Err e, c'\<lparr>c_werr := Some e\<rparr>))"

text \<open>Otherwise the buffer is filled with the first \<open>n\<close> bytes and flushed before the rest.\<close>

definition bufio_fill :: "nat \<Rightarrow> conn write_op" where
  "bufio_fill n p =
     gbind (gmodify (\<lambda>c. c\<lparr>c_buf := c_buf c @ take n p\<rparr>)) (\<lambda>_.
     gbind bufio_flush (\<lambda>_.
       if length (drop n p) \<le> bufio_size then gmodify (\<lambda>c. c\<lparr>c_buf := drop n p\<rparr>)
       else bufio_direct (drop n p)))"

definition bufio_write :: "conn write_op" where
  "bufio_write p = (\<lambda>c.
     case c_werr c of
       Some e \<Rightarrow> (Err e, c)
     | None \<Rightarrow>
         let avail = bufio_size - length (c_buf c) in
         if length p \<le> avail then (Ok (), c\<lparr>c_buf := c_buf c @ p\<rparr>)
         else if c_buf c = [] then bufio_direct p c
         else bufio_fill avail p c)"

definition on_reader :: "(reader, 'a) go \<Rightarrow> (conn, 'a) go" where
  "on_reader m = gzoom c_rd (\<lambda>r c. c\<lparr>c_rd := r\<rparr>) m"

definition conn_Close :: "(conn, unit) go" where
  "conn_Close = (\<lambda>c. if c_closed c then (Err ErrClosed, c) else (Ok (), c\<lparr>c_closed := True\<rparr>))"

section \<open>The secondary's end: \<^verbatim>\<open>primaryConn\<close>\<close>

definition newPrimaryConn :: "reader \<Rightarrow> nat option \<Rightarrow> string \<Rightarrow> conn" where
  "newPrimaryConn rd room addr = new_conn rd room addr"

definition primaryConn_init :: "msgSecondaryParameters \<Rightarrow> (conn, msgPrimaryParameters) go" where
  "primaryConn_init fromSecondary =
     gbind (on_reader decodeMsgPrimaryParameters) (\<lambda>fromPrimary.
     gbind (encode_msgSecondaryParameters bufio_write fromSecondary) (\<lambda>_.
     gbind bufio_flush (\<lambda>_. gret fromPrimary)))"

definition primaryConn_waitPrepare :: "(conn, msgPrepare) go" where
  "primaryConn_waitPrepare = on_reader decodeMsgPrepare"

definition primaryConn_syncReady :: "(conn, unit) go" where
  "primaryConn_syncReady = gbind (encode_msgPrepareDone bufio_write) (\<lambda>_. bufio_flush)"

definition primaryConn_waitStart :: "(conn, msgStart) go" where
  "primaryConn_waitStart = on_reader decodeMsgStart"

definition primaryConn_pushResult :: "msgResult \<Rightarrow> (conn, unit) go" where
  "primaryConn_pushResult fromSecondary =
     gbind (encode_msgResult bufio_write fromSecondary) (\<lambda>_.
       case fromSecondary of
         MsgResultDone \<Rightarrow> gbind bufio_flush (\<lambda>_. gret ())
       | MsgResultInteraction _ \<Rightarrow> gret ())"

definition primaryConn_Close :: "(conn, unit) go" where
  "primaryConn_Close = conn_Close"

section \<open>The primary's end: \<^verbatim>\<open>secondaryConn\<close>\<close>

definition newSecondaryConn :: "reader \<Rightarrow> nat option \<Rightarrow> string \<Rightarrow> conn" where
  "newSecondaryConn rd room addr = new_conn rd room addr"

definition secondaryConn_init ::
  "(string \<times> string) list \<Rightarrow> (string \<times> string) list \<Rightarrow> msgPrimaryParameters
     \<Rightarrow> (conn, msgSecondaryParameters) go" where
  "secondaryConn_init it1 it2 fromPrimary =
     gbind (encode_msgPrimaryParameters bufio_write it1 it2 fromPrimary) (\<lambda>_.
     gbind bufio_flush (\<lambda>_.
     on_reader decodeMsgSecondaryParameters))"

definition secondaryConn_sendPrepare :: "msgPrepare \<Rightarrow> (conn, unit) go" where
  "secondaryConn_sendPrepare fromPrimary = encode_msgPrepare bufio_write fromPrimary"

definition secondaryConn_syncReady :: "(conn, unit) go" where
  "secondaryConn_syncReady =
     gbind (encode_msgPrepareDone bufio_write) (\<lambda>_.
     gbind bufio_flush (\<lambda>_.
     gbind (on_reader decodeMsgPrepare) (\<lambda>_. gret ())))"

definition secondaryConn_sendStart :: "msgStart \<Rightarrow> (conn, unit) go" where
  "secondaryConn_sendStart fromPrimary =
     gbind (encode_msgStart bufio_write fromPrimary) (\<lambda>_. bufio_flush)"

definition secondaryConn_pullResult :: "(conn, msgResult) go" where
  "secondaryConn_pullResult = on_reader decodeMsgResult"

definition secondaryConn_addr :: "conn \<Rightarrow> string" where
  "secondaryConn_addr c = c_addr c"

definition secondaryConn_Close :: "(conn, unit) go" where
  "secondaryConn_Close = conn_Close"

section \<open>Observers\<close>

definition newObserverConn :: "nat option \<Rightarrow> string \<Rightarrow> conn" where
  "newObserverConn room addr = new_conn \<lparr>r_input = [], r_err = EOF\<rparr> room addr"

definition observerConn_sendStart :: "msgStart \<Rightarrow> (conn, unit) go" where
  "observerConn_sendStart fromPrimary =
     gbind (encode_msgStart bufio_write fromPrimary) (\<lambda>_. bufio_flush)"

definition observerConn_addr :: "conn \<Rightarrow> string" where
  "observerConn_addr c = c_addr c"

definition observerConn_Close :: "(conn, unit) go" where
  "observerConn_Close = conn_Close"

section \<open>The buffered writer is a sink\<close>

text \<open>Everything that was written: what the network took, then what is still buffered.\<close>

definition conn_written :: "conn \<Rightarrow> byte list" where
  "conn_written c = c_out c @ c_buf c"

text \<open>A connection that will not fail.\<close>

definition conn_good :: "conn \<Rightarrow> bool" where
  "conn_good c \<longleftrightarrow> c_werr c = None \<and> c_room c = None \<and> \<not> c_closed c"

lemma net_write_spec:
  assumes "net_write bs c = (n, e, c')"
  shows "n \<le> length bs" and "c_out c' = c_out c @ take n bs" and "c_buf c' = c_buf c"
    and "c_werr c' = c_werr c" and "e = None \<Longrightarrow> n = length bs"
    and "conn_good c \<Longrightarrow> e = None \<and> conn_good c'"
  using assms by (auto simp: net_write_def conn_good_def split: if_splits option.splits)

lemma bufio_flush_emits: "emits conn_good conn_written bufio_flush []"
  unfolding emits_def bufio_flush_def
  by (auto simp: conn_written_def conn_good_def net_write_def split: option.splits if_splits prod.splits)

lemma bufio_direct_emits:
  assumes "bufio_direct p c = (r, c')" and "c_buf c = []"
  shows "case r of Ok _ \<Rightarrow> conn_written c' = conn_written c @ p \<and> (conn_good c \<longrightarrow> conn_good c')
    | Err _ \<Rightarrow> \<not> conn_good c \<and> (\<exists>q. prefix q p \<and> conn_written c' = conn_written c @ q)
    | Panic _ \<Rightarrow> False"
  using assms
  by (auto simp: bufio_direct_def conn_written_def conn_good_def net_write_def take_is_prefix
      split: option.splits if_splits prod.splits)

lemma bufio_flush_Ok: "bufio_flush c = (Ok u, c') \<Longrightarrow> c_buf c' = [] \<and> c_out c' = conn_written c"
  by (auto simp: bufio_flush_def conn_written_def net_write_def split: option.splits if_splits prod.splits)

lemma bufio_fill_emits:
  assumes run: "bufio_fill n p c = (r, c')"
  shows "case r of Ok _ \<Rightarrow> conn_written c' = conn_written c @ p \<and> (conn_good c \<longrightarrow> conn_good c')
    | Err _ \<Rightarrow> \<not> conn_good c \<and> (\<exists>q. prefix q p \<and> conn_written c' = conn_written c @ q)
    | Panic _ \<Rightarrow> False"
proof -
  define c1 where "c1 = c\<lparr>c_buf := c_buf c @ take n p\<rparr>"
  have c1: "conn_written c1 = conn_written c @ take n p" "conn_good c1 = conn_good c"
    by (simp_all add: c1_def conn_written_def conn_good_def)
  obtain r2 c2 where flush: "bufio_flush c1 = (r2, c2)" by force
  note f = emitsD [OF bufio_flush_emits flush]
  show ?thesis
  proof (cases r2)
    case (Ok u)
    from f Ok have c2: "conn_written c2 = conn_written c @ take n p" "conn_good c \<longrightarrow> conn_good c2"
      using c1 by auto
    from Ok flush have buf: "c_buf c2 = []" using bufio_flush_Ok by simp
    have run2: "(if length (drop n p) \<le> bufio_size then gmodify (\<lambda>c. c\<lparr>c_buf := drop n p\<rparr>)
        else bufio_direct (drop n p)) c2 = (r, c')"
      using run flush Ok by (simp add: bufio_fill_def gbind_def gmodify_def c1_def split: if_splits)
    have split: "take n p @ drop n p = p" by simp
    show ?thesis
    proof (cases "length (drop n p) \<le> bufio_size")
      case True
      with run2 have "r = Ok ()" "c' = c2\<lparr>c_buf := drop n p\<rparr>" by (auto simp: gmodify_def)
      with c2 buf split show ?thesis by (simp add: conn_written_def conn_good_def)
    next
      case False
      with run2 have "bufio_direct (drop n p) c2 = (r, c')" by simp
      from bufio_direct_emits [OF this buf] c2 show ?thesis
        by (cases r) (auto simp: prefix_def, metis append.assoc split)
    qed
  next
    case (Err e)
    with run flush have "r = Err e" "c' = c2" by (auto simp: bufio_fill_def gbind_def gmodify_def c1_def)
    with f Err c1 show ?thesis by (auto simp: take_is_prefix)
  qed (use f in auto)
qed

lemma bufio_write_emits: "emits conn_good conn_written (bufio_write p) p"
  unfolding emits_def
proof (intro allI impI)
  fix c r c'
  assume run: "bufio_write p c = (r, c')"
  show "case r of Ok _ \<Rightarrow> conn_written c' = conn_written c @ p \<and> (conn_good c \<longrightarrow> conn_good c')
    | Err _ \<Rightarrow> \<not> conn_good c \<and> (\<exists>q. prefix q p \<and> conn_written c' = conn_written c @ q)
    | Panic _ \<Rightarrow> False"
  proof (cases "c_werr c")
    case (Some e)
    with run have "r = Err e" "c' = c" by (auto simp: bufio_write_def)
    with Some show ?thesis by (auto simp: conn_good_def)
  next
    case None
    let ?n = "bufio_size - length (c_buf c)"
    consider (fits) "length p \<le> ?n" | (direct) "\<not> length p \<le> ?n" "c_buf c = []"
      | (fill) "\<not> length p \<le> ?n" "c_buf c \<noteq> []" by blast
    then show ?thesis
    proof cases
      case fits
      with None run have "r = Ok ()" "c' = c\<lparr>c_buf := c_buf c @ p\<rparr>" by (auto simp: bufio_write_def)
      then show ?thesis by (simp add: conn_written_def conn_good_def)
    next
      case direct
      with None run have "bufio_direct p c = (r, c')" by (simp add: bufio_write_def)
      then show ?thesis using direct(2) by (rule bufio_direct_emits)
    next
      case fill
      with None run show ?thesis
        by (intro bufio_fill_emits [of ?n]) (simp add: bufio_write_def Let_def)
    qed
  qed
qed

interpretation bufio: byte_sink bufio_write conn_good conn_written
  by unfold_locales (rule bufio_write_emits)

lemma on_reader_run:
  "on_reader m c = (fst (m (c_rd c)), c\<lparr>c_rd := snd (m (c_rd c))\<rparr>)"
  by (simp add: on_reader_def gzoom_def split: prod.splits)

text \<open>Writing leaves the input and the address alone.\<close>

abbreviation conn_in :: "conn \<Rightarrow> reader \<times> string" where
  "conn_in c \<equiv> (c_rd c, c_addr c)"

lemma bufio_flush_keeps: "keeps conn_in bufio_flush"
  by (auto simp: keeps_def bufio_flush_def net_write_def split: option.splits if_splits prod.splits)

lemma bufio_direct_keeps: "keeps conn_in (bufio_direct p)"
  by (auto simp: keeps_def bufio_direct_def net_write_def split: option.splits if_splits prod.splits)

lemma bufio_fill_keeps: "keeps conn_in (bufio_fill n p)"
  unfolding bufio_fill_def
  by (intro keeps_intros bufio_flush_keeps bufio_direct_keeps) (auto simp: keeps_def gmodify_def)

lemma bufio_write_keeps: "keeps conn_in (bufio_write p)"
  using keepsD [OF bufio_fill_keeps] keepsD [OF bufio_direct_keeps]
  unfolding keeps_def bufio_write_def by (auto simp: Let_def split: option.splits if_splits)

section \<open>What the operations do on a connection that works\<close>

lemmas conn_keeps = encode_keeps [where f = conn_in, OF bufio_write_keeps] bufio_flush_keeps

lemma emit_good:
  assumes "emits conn_good conn_written m bs" and "keeps conn_in m" and "conn_good c"
  obtains c' where "m c = (Ok (), c')" and "conn_good c'" and "conn_written c' = conn_written c @ bs"
    and "c_rd c' = c_rd c" and "c_addr c' = c_addr c"
proof -
  obtain c' where c': "m c = (Ok (), c')" "conn_good c'" "conn_written c' = conn_written c @ bs"
    using emits_good [OF assms(1,3)] .
  with keepsD [OF assms(2) c'(1)] show thesis by (intro that [of c']) auto
qed

text \<open>Writing and flushing: everything written so far has reached the network.\<close>

lemma emit_flush:
  assumes "emits conn_good conn_written m bs" and "keeps conn_in m" and "conn_good c"
  obtains c' where "gbind m (\<lambda>_. bufio_flush) c = (Ok (), c')" and "conn_good c'" and "c_buf c' = []"
    and "c_out c' = conn_written c @ bs" and "c_rd c' = c_rd c" and "c_addr c' = c_addr c"
proof -
  obtain c1 where c1: "m c = (Ok (), c1)" "conn_good c1" "conn_written c1 = conn_written c @ bs"
    "c_rd c1 = c_rd c" "c_addr c1 = c_addr c"
    using emit_good [OF assms] .
  obtain c2 where c2: "bufio_flush c1 = (Ok (), c2)" "conn_good c2" "c_rd c2 = c_rd c1" "c_addr c2 = c_addr c1"
    using emit_good [OF bufio_flush_emits bufio_flush_keeps c1(2)] .
  show thesis
    using c1 c2 bufio_flush_Ok [OF c2(1)] by (intro that [of c2]) (auto simp: gbind_def)
qed

lemma sendPrepare_good:
  assumes "conn_good c" and "prepare_fits m"
  obtains c' where "secondaryConn_sendPrepare m c = (Ok (), c')" and "conn_good c'"
    and "conn_written c' = conn_written c @ wire_prepare m" and "c_rd c' = c_rd c" and "c_addr c' = c_addr c"
  unfolding secondaryConn_sendPrepare_def
  using emit_good [OF bufio.encode_prepare_emits [OF assms(2)] conn_keeps(3) assms(1)] .

lemma sendStart_good:
  assumes "conn_good c"
  obtains c' where "secondaryConn_sendStart m c = (Ok (), c')" and "conn_good c'" and "c_buf c' = []"
    and "c_out c' = conn_written c @ wire_start m" and "c_rd c' = c_rd c" and "c_addr c' = c_addr c"
  unfolding secondaryConn_sendStart_def
  using emit_flush [OF bufio.encode_start_emits conn_keeps(4) assms] .

lemma on_reader_codec:
  assumes "codec dec valid enc view" and "valid x" and "r_input (c_rd c) = enc x @ rest"
  shows "on_reader dec c = (Ok (view x), c\<lparr>c_rd := (c_rd c)\<lparr>r_input := rest\<rparr>\<rparr>)"
proof -
  have "(c_rd c)\<lparr>r_input := enc x @ rest\<rparr> = c_rd c" using assms(3) by simp
  then show ?thesis
    using codec.dec_enc [OF assms(1,2), where r = "c_rd c" and rest = rest] by (simp add: on_reader_run)
qed

text \<open>\<^verbatim>\<open>syncReady\<close> of the primary ends the preparation and waits for the secondary's answer.\<close>

lemma syncReady_good:
  assumes "conn_good c" and "r_input (c_rd c) = wire_prepare MsgPrepareDone @ rest"
  obtains c' where "secondaryConn_syncReady c = (Ok (), c')" and "conn_good c'" and "c_buf c' = []"
    and "c_out c' = conn_written c @ wire_prepare MsgPrepareDone"
    and "c_rd c' = (c_rd c)\<lparr>r_input := rest\<rparr>" and "c_addr c' = c_addr c"
proof -
  obtain c1 where c1: "gbind (encode_msgPrepare bufio_write MsgPrepareDone) (\<lambda>_. bufio_flush) c = (Ok (), c1)"
    "conn_good c1" "c_buf c1 = []" "c_out c1 = conn_written c @ wire_prepare MsgPrepareDone"
    "c_rd c1 = c_rd c" "c_addr c1 = c_addr c"
    using emit_flush [OF bufio.encode_prepare_emits conn_keeps(3) assms(1), of MsgPrepareDone] by auto
  have rd: "on_reader decodeMsgPrepare c1 = (Ok MsgPrepareDone, c1\<lparr>c_rd := (c_rd c1)\<lparr>r_input := rest\<rparr>\<rparr>)"
    using on_reader_codec [OF prepare_codec.codec_axioms, of MsgPrepareDone c1 rest] assms(2) c1(5) by simp
  have eq: "secondaryConn_syncReady = gbind (gbind (encode_msgPrepare bufio_write MsgPrepareDone)
      (\<lambda>_. bufio_flush)) (\<lambda>_. gbind (on_reader decodeMsgPrepare) (\<lambda>_. gret ()))"
    by (simp add: secondaryConn_syncReady_def gbind_assoc)
  have "secondaryConn_syncReady c = (Ok (), c1\<lparr>c_rd := (c_rd c1)\<lparr>r_input := rest\<rparr>\<rparr>)"
    unfolding eq by (subst gbind_Ok, rule c1(1), subst gbind_Ok, rule rd, rule gret_run)
  with c1 show thesis
    by (intro that [of "c1\<lparr>c_rd := (c_rd c1)\<lparr>r_input := rest\<rparr>\<rparr>"]) (auto simp: conn_good_def)
qed

text \<open>The two sides of the handshake.\<close>

lemma secondaryConn_init_good:
  assumes "conn_good c" and "r_input (c_rd c) = wire_secondary ms @ rest" and "secondary_fits ms"
    and "gomap_order (mpp_chainParams mp) it1" and "primary_fits mp"
  obtains c' where "secondaryConn_init it1 it2 mp c = (Ok ms, c')" and "conn_good c'" and "c_buf c' = []"
    and "c_out c' = conn_written c @ wire_primary it2 mp"
    and "c_rd c' = (c_rd c)\<lparr>r_input := rest\<rparr>" and "c_addr c' = c_addr c"
proof -
  let ?w = "gbind (encode_msgPrimaryParameters bufio_write it1 it2 mp) (\<lambda>_. bufio_flush)"
  obtain c1 where c1: "?w c = (Ok (), c1)" "conn_good c1" "c_buf c1 = []"
    "c_out c1 = conn_written c @ wire_primary it2 mp" "c_rd c1 = c_rd c" "c_addr c1 = c_addr c"
    using emit_flush [OF bufio.encode_primary_emits [OF assms(4,5)] conn_keeps(1) assms(1)] .
  have "on_reader decodeMsgSecondaryParameters c1 = (Ok ms, c1\<lparr>c_rd := (c_rd c1)\<lparr>r_input := rest\<rparr>\<rparr>)"
    using on_reader_codec [OF secondary_codec.codec_axioms assms(3), of c1 rest] assms(2) c1(5) by simp
  moreover have "secondaryConn_init it1 it2 mp = gbind ?w (\<lambda>_. on_reader decodeMsgSecondaryParameters)"
    by (simp add: secondaryConn_init_def gbind_assoc)
  ultimately have "secondaryConn_init it1 it2 mp c = (Ok ms, c1\<lparr>c_rd := (c_rd c1)\<lparr>r_input := rest\<rparr>\<rparr>)"
    using c1(1) by (simp add: gbind_Ok)
  with c1 show thesis
    by (intro that [of "c1\<lparr>c_rd := (c_rd c1)\<lparr>r_input := rest\<rparr>\<rparr>"]) (auto simp: conn_good_def)
qed

lemma primaryConn_init_good:
  assumes "conn_good c" and "r_input (c_rd c) = wire_primary it mp @ rest" and "primary_valid (it, mp)"
    and "secondary_fits ms"
  obtains c' where "primaryConn_init ms c = (Ok (mp\<lparr>mpp_chainParams := it\<rparr>), c')" and "conn_good c'"
    and "c_buf c' = []" and "c_out c' = conn_written c @ wire_secondary ms"
    and "c_rd c' = (c_rd c)\<lparr>r_input := rest\<rparr>" and "c_addr c' = c_addr c"
proof -
  let ?c = "c\<lparr>c_rd := (c_rd c)\<lparr>r_input := rest\<rparr>\<rparr>"
  let ?w = "gbind (encode_msgSecondaryParameters bufio_write ms) (\<lambda>_. bufio_flush)"
  have rd: "on_reader decodeMsgPrimaryParameters c = (Ok (mp\<lparr>mpp_chainParams := it\<rparr>), ?c)"
    using on_reader_codec [OF primary_codec.codec_axioms assms(3), of c rest] assms(2) by simp
  have good: "conn_good ?c" "conn_written ?c = conn_written c" using assms(1)
    by (simp_all add: conn_good_def conn_written_def)
  obtain c1 where c1: "?w ?c = (Ok (), c1)" "conn_good c1" "c_buf c1 = []"
    "c_out c1 = conn_written ?c @ wire_secondary ms" "c_rd c1 = c_rd ?c" "c_addr c1 = c_addr ?c"
    using emit_flush [OF bufio.encode_secondary_emits [OF assms(4)] conn_keeps(2) good(1)] .
  have "primaryConn_init ms = gbind (on_reader decodeMsgPrimaryParameters)
      (\<lambda>fromPrimary. gbind ?w (\<lambda>_. gret fromPrimary))"
    by (simp add: primaryConn_init_def gbind_assoc)
  then have "primaryConn_init ms c = (Ok (mp\<lparr>mpp_chainParams := it\<rparr>), c1)"
    using rd c1(1) by (simp add: gbind_Ok gret_run)
  then show thesis using c1 good by (intro that [of c1]) auto
qed

section \<open>Properties\<close>

text \<open>
  The buffered writer of a connection never loses, repeats or reorders bytes, whatever the
  sizes of the writes and wherever the network fails: a write that succeeds adds exactly its
  bytes to what was written, one that fails adds a prefix of them, and after a successful flush
  everything written so far has reached the network.
\<close>

theorem buffered_writer_faithful:
  "(case bufio_write p c of
      (Ok _, c') \<Rightarrow> c_out c' @ c_buf c' = c_out c @ c_buf c @ p
    | (Err _, c') \<Rightarrow> (\<exists>q. prefix q p \<and> c_out c' @ c_buf c' = c_out c @ c_buf c @ q)
    | (Panic _, _) \<Rightarrow> False) \<and>
   (case bufio_flush c of
      (Ok _, c') \<Rightarrow> c_buf c' = [] \<and> c_out c' = c_out c @ c_buf c
    | (Err _, c') \<Rightarrow> c_out c' @ c_buf c' = c_out c @ c_buf c
    | (Panic _, _) \<Rightarrow> False)"
proof -
  obtain r c1 where w: "bufio_write p c = (r, c1)" by force
  obtain r2 c2 where f: "bufio_flush c = (r2, c2)" by force
  have 1: "case r of Ok _ \<Rightarrow> c_out c1 @ c_buf c1 = c_out c @ c_buf c @ p
      | Err _ \<Rightarrow> (\<exists>q. prefix q p \<and> c_out c1 @ c_buf c1 = c_out c @ c_buf c @ q) | Panic _ \<Rightarrow> False"
    using emitsD [OF bufio_write_emits w] by (cases r) (auto simp: conn_written_def)
  have 2: "case r2 of Ok _ \<Rightarrow> c_buf c2 = [] \<and> c_out c2 = c_out c @ c_buf c
      | Err _ \<Rightarrow> c_out c2 @ c_buf c2 = c_out c @ c_buf c | Panic _ \<Rightarrow> False"
    using emitsD [OF bufio_flush_emits f] bufio_flush_Ok [of c] f
    by (cases r2) (auto simp: conn_written_def)
  show ?thesis using 1 2 w f by (auto split: outcome.splits)
qed

text \<open>
  The handshake is consistent at both ends: when each end receives what the other one has
  sent, the primary learns the tags of the secondary, the secondary learns the interface name,
  the parameter map, the maximum delay and skew of the primary, and neither reads beyond the
  other's message.
\<close>

theorem handshake_agrees:
  assumes "conn_good p" and "conn_good s" and "secondary_fits ms" and "primary_fits mp"
    and "gomap_ok (mpp_chainParams mp)" and "gomap_order (mpp_chainParams mp) ita"
    and "gomap_order (mpp_chainParams mp) itb" and "conn_written p = []" and "conn_written s = []"
    and "r_input (c_rd p) = wire_secondary ms @ restp" and "r_input (c_rd s) = wire_primary itb mp @ rests"
  shows "\<exists>p' s' mp'.
    secondaryConn_init ita itb mp p = (Ok ms, p') \<and> primaryConn_init ms s = (Ok mp', s') \<and>
    r_input (c_rd s) = c_out p' @ rests \<and> r_input (c_rd p) = c_out s' @ restp \<and>
    r_input (c_rd p') = restp \<and> r_input (c_rd s') = rests \<and>
    mpp_sysname mp' = mpp_sysname mp \<and> mpp_maxDelay mp' = mpp_maxDelay mp \<and>
    mpp_maxSkew mp' = mpp_maxSkew mp \<and> gomap_get (mpp_chainParams mp') = gomap_get (mpp_chainParams mp)"
proof -
  have valid: "primary_valid (itb, mp)" using assms by (simp add: primary_valid_def)
  obtain p' where p': "secondaryConn_init ita itb mp p = (Ok ms, p')"
    "c_out p' = conn_written p @ wire_primary itb mp" "c_rd p' = (c_rd p)\<lparr>r_input := restp\<rparr>"
    using secondaryConn_init_good [OF assms(1,10,3,6,4)] by metis
  obtain s' where s': "primaryConn_init ms s = (Ok (mp\<lparr>mpp_chainParams := itb\<rparr>), s')"
    "c_out s' = conn_written s @ wire_secondary ms" "c_rd s' = (c_rd s)\<lparr>r_input := rests\<rparr>"
    using primaryConn_init_good [OF assms(2,11) valid assms(3)] by metis
  show ?thesis
    using p' s' assms(8-11) gomap_order_get [OF assms(7,5)]
    by (intro exI [of _ p'] exI [of _ s'] exI [of _ "mp\<lparr>mpp_chainParams := itb\<rparr>"]) simp
qed

lemma new_conn_good [simp]: "conn_good (new_conn rd None addr)" "conn_written (new_conn rd None addr) = []"
  by (simp_all add: new_conn_def conn_good_def conn_written_def)

lemma new_conn_input [simp]: "c_rd (new_conn rd room addr) = rd" "c_addr (new_conn rd room addr) = addr"
  by (simp_all add: new_conn_def)

theorem handshake_agrees_witness:
  "\<exists>p' s' mp'. secondaryConn_init [] []
      \<lparr>mpp_sysname = ''mock'', mpp_chainParams = [], mpp_maxDelay = 0, mpp_maxSkew = 0\<rparr>
      (new_conn \<lparr>r_input = wire_secondary \<lparr>msp_tags = [''zone'']\<rparr> @ [1], r_err = EOF\<rparr> None ''s'') =
        (Ok \<lparr>msp_tags = [''zone'']\<rparr>, p') \<and>
    primaryConn_init \<lparr>msp_tags = [''zone'']\<rparr>
      (new_conn \<lparr>r_input = wire_primary [] \<lparr>mpp_sysname = ''mock'', mpp_chainParams = [], mpp_maxDelay = 0,
         mpp_maxSkew = 0\<rparr>, r_err = EOF\<rparr> None ''p'') = (Ok mp', s') \<and> mpp_sysname mp' = ''mock''"
  using handshake_agrees [where p = "new_conn \<lparr>r_input = wire_secondary \<lparr>msp_tags = [''zone'']\<rparr> @ [1], r_err = EOF\<rparr> None ''s''"
      and s = "new_conn \<lparr>r_input = wire_primary [] \<lparr>mpp_sysname = ''mock'', mpp_chainParams = [], mpp_maxDelay = 0,
         mpp_maxSkew = 0\<rparr>, r_err = EOF\<rparr> None ''p''"
      and ms = "\<lparr>msp_tags = [''zone'']\<rparr>" and ita = "[]" and itb = "[]" and restp = "[1]" and rests = "[]"
      and mp = "\<lparr>mpp_sysname = ''mock'', mpp_chainParams = [], mpp_maxDelay = 0, mpp_maxSkew = 0\<rparr>"]
  by (auto simp: secondary_fits_def primary_fits_def short_def gomap_order_def)

end
