(* ===== verification/Core_Result.thy ===== *)
theory Core_Result
  imports Go_Prelude Go_Float64
begin

text \<open>
  The result the primary assembles (\<^verbatim>\<open>src/core/result.go\<close>): a list of secondaries, each with its
  clients in the order they first reported and an index from client id to position. The
  theorems show that the index and the list stay consistent, so that \<^verbatim>\<open>addResult\<close> never indexes
  out of range, and that every reported interaction ends up, in order, with its own client and
  with no other.
\<close>

section \<open>Model\<close>

record InteractionResult =
  ir_Kind :: string
  ir_SubmitTime :: f64
  ir_CommitTime :: f64
  ir_AbortTime :: f64
  ir_HasError :: bool

record ClientResult =
  cr_Index :: int
  cr_Kind :: string
  cr_Interactions :: "InteractionResult list"

record SecondaryResult =
  sr_Address :: string
  sr_Tags :: "string list"
  sr_ids :: "(int, nat) gomap"
  sr_Clients :: "ClientResult list"

record Result =
  res_Seed :: int
  res_Locations :: "SecondaryResult list"

definition newResult :: "int \<Rightarrow> Result" where
  "newResult masterSeed = \<lparr>res_Seed = masterSeed, res_Locations = []\<rparr>"

definition addSecondary :: "SecondaryResult \<Rightarrow> Result \<Rightarrow> Result" where
  "addSecondary sresult res = res\<lparr>res_Locations := res_Locations res @ [sresult]\<rparr>"

definition newSecondaryResult :: "string \<Rightarrow> string list \<Rightarrow> SecondaryResult" where
  "newSecondaryResult addr tags =
     \<lparr>sr_Address = addr, sr_Tags = tags, sr_ids = [], sr_Clients = []\<rparr>"

text \<open>
  The method returns a pointer into the slice \<^verbatim>\<open>Clients\<close>; the model returns the position. An
  index out of range panics, as in Go.
\<close>

definition getClientResult :: "int \<Rightarrow> string \<Rightarrow> (SecondaryResult, nat) go" where
  "getClientResult cid kind = (\<lambda>sr.
     let (offset, sr') =
       (case gomap_get (sr_ids sr) cid of
          Some offset \<Rightarrow> (offset, sr)
        | None \<Rightarrow>
            (let offset = length (sr_Clients sr) in
             (offset, sr\<lparr>sr_ids := gomap_set cid offset (sr_ids sr),
                         sr_Clients := sr_Clients sr @
                           [\<lparr>cr_Index = cid, cr_Kind = kind, cr_Interactions = []\<rparr>]\<rparr>)))
     in if offset < length (sr_Clients sr') then (Ok offset, sr')
        else (Panic ''index out of range'', sr'))"

definition addResult ::
  "int \<Rightarrow> string \<Rightarrow> string \<Rightarrow> f64 \<Rightarrow> f64 \<Rightarrow> f64 \<Rightarrow> bool \<Rightarrow> (SecondaryResult, unit) go" where
  "addResult clientId clientKind interactionKind submitTime commitTime abortTime hasError =
     gbind (getClientResult clientId clientKind) (\<lambda>offset.
     gmodify (\<lambda>sr. sr\<lparr>sr_Clients := (sr_Clients sr)[offset := (sr_Clients sr ! offset)
       \<lparr>cr_Interactions := cr_Interactions (sr_Clients sr ! offset) @
          [\<lparr>ir_Kind = interactionKind, ir_SubmitTime = submitTime, ir_CommitTime = commitTime,
            ir_AbortTime = abortTime, ir_HasError = hasError\<rparr>]\<rparr>]\<rparr>))"

section \<open>Invariant and abstraction\<close>

text \<open>The ids of the clients are distinct and the index maps each to its position.\<close>

definition result_inv :: "SecondaryResult \<Rightarrow> bool" where
  "result_inv sr \<longleftrightarrow> distinct (map cr_Index (sr_Clients sr)) \<and>
     gomap_get (sr_ids sr) = map_of (zip (map cr_Index (sr_Clients sr)) [0..<length (sr_Clients sr)])"

text \<open>Abstractly a result is, for every client id, the interactions reported for it.\<close>

definition result_of :: "SecondaryResult \<Rightarrow> int \<Rightarrow> InteractionResult list" where
  "result_of sr cid = concat (map cr_Interactions (filter (\<lambda>c. cr_Index c = cid) (sr_Clients sr)))"

lemma newSecondaryResult_inv [simp]: "result_inv (newSecondaryResult addr tags)"
  by (simp add: result_inv_def newSecondaryResult_def)

lemma newSecondaryResult_of [simp]: "result_of (newSecondaryResult addr tags) = (\<lambda>_. [])"
  by (simp add: result_of_def newSecondaryResult_def fun_eq_iff)

lemma map_of_zip_index:
  "distinct ks \<Longrightarrow> map_of (zip ks [0..<length ks]) k = Some off \<longleftrightarrow> off < length ks \<and> ks ! off = k"
  by (subst map_of_eq_Some_iff) (auto simp: in_set_zip)

lemma result_inv_get:
  "result_inv sr \<Longrightarrow> gomap_get (sr_ids sr) cid = Some off \<longleftrightarrow>
     off < length (sr_Clients sr) \<and> cr_Index (sr_Clients sr ! off) = cid"
  using map_of_zip_index [of "map cr_Index (sr_Clients sr)" cid off]
  by (auto simp: result_inv_def)

lemma result_inv_get_None:
  "result_inv sr \<Longrightarrow> gomap_get (sr_ids sr) cid = None \<Longrightarrow> cid \<notin> cr_Index ` set (sr_Clients sr)"
  using result_inv_get [of sr cid] by (force simp: in_set_conv_nth)

lemma result_of_nth:
  "result_inv sr \<Longrightarrow> off < length (sr_Clients sr) \<Longrightarrow>
   result_of sr (cr_Index (sr_Clients sr ! off)) = cr_Interactions (sr_Clients sr ! off)"
  by (simp add: result_of_def result_inv_def distinct_filter_nth)

text \<open>Getting a client keeps the invariant and every list of interactions.\<close>

lemma getClientResult_spec:
  assumes "result_inv sr"
  obtains off sr' where "getClientResult cid kind sr = (Ok off, sr')" and "result_inv sr'"
    and "off < length (sr_Clients sr')" and "cr_Index (sr_Clients sr' ! off) = cid"
    and "result_of sr' = result_of sr" and "sr_Address sr' = sr_Address sr" and "sr_Tags sr' = sr_Tags sr"
proof (cases "gomap_get (sr_ids sr) cid")
  case None
  let ?c = "\<lparr>cr_Index = cid, cr_Kind = kind, cr_Interactions = []\<rparr>"
  let ?sr' = "sr\<lparr>sr_ids := gomap_set cid (length (sr_Clients sr)) (sr_ids sr),
    sr_Clients := sr_Clients sr @ [?c]\<rparr>"
  have "cid \<notin> cr_Index ` set (sr_Clients sr)" using assms None by (rule result_inv_get_None)
  moreover let ?z = "zip (map cr_Index (sr_Clients sr)) [0..<length (sr_Clients sr)]"
  have z: "gomap_get (sr_ids sr) = map_of ?z" "map_of ?z cid = None"
    using assms None by (simp_all add: result_inv_def)
  have "(map_of ?z)(cid \<mapsto> n) = map_of (?z @ [(cid, n)])" for n
  proof
    fix k
    show "((map_of ?z)(cid \<mapsto> n)) k = map_of (?z @ [(cid, n)]) k"
      using z(2) by (cases "map_of ?z k") (auto simp: map_add_def simp del: map_of_zip_is_None)
  qed
  ultimately have "result_inv ?sr'"
    using assms by (simp add: result_inv_def z(1))
  moreover have "result_of ?sr' = result_of sr"
    by (auto simp: result_of_def fun_eq_iff)
  ultimately show thesis
    using None by (intro that [of "length (sr_Clients sr)" ?sr']) (auto simp: getClientResult_def Let_def)
next
  case (Some off)
  with assms have "off < length (sr_Clients sr)" "cr_Index (sr_Clients sr ! off) = cid"
    by (auto simp: result_inv_get)
  with assms Some show thesis by (intro that [of off sr]) (auto simp: getClientResult_def)
qed

text \<open>
  Adding a result never panics, keeps the invariant, appends to the interactions of its client
  and leaves those of every other client unchanged.
\<close>

lemma addResult_spec:
  assumes "result_inv sr"
  obtains sr' where "addResult cid ck ik st ct at e sr = (Ok (), sr')" and "result_inv sr'"
    and "result_of sr' = (result_of sr)(cid := result_of sr cid @
      [\<lparr>ir_Kind = ik, ir_SubmitTime = st, ir_CommitTime = ct, ir_AbortTime = at, ir_HasError = e\<rparr>])"
    and "sr_Address sr' = sr_Address sr" and "sr_Tags sr' = sr_Tags sr"
proof -
  obtain off s where get: "getClientResult cid ck sr = (Ok off, s)" and inv: "result_inv s"
    and off: "off < length (sr_Clients s)" "cr_Index (sr_Clients s ! off) = cid"
    and same: "result_of s = result_of sr" "sr_Address s = sr_Address sr" "sr_Tags s = sr_Tags sr"
    using getClientResult_spec [OF assms] by metis
  let ?i = "\<lparr>ir_Kind = ik, ir_SubmitTime = st, ir_CommitTime = ct, ir_AbortTime = at, ir_HasError = e\<rparr>"
  let ?c = "(sr_Clients s ! off)\<lparr>cr_Interactions := cr_Interactions (sr_Clients s ! off) @ [?i]\<rparr>"
  let ?s = "s\<lparr>sr_Clients := (sr_Clients s)[off := ?c]\<rparr>"
  have ids: "map cr_Index (sr_Clients ?s) = map cr_Index (sr_Clients s)"
    by (simp add: map_update_same)
  with inv have inv': "result_inv ?s" by (simp add: result_inv_def)
  have "result_of ?s k = ((result_of sr)(cid := result_of sr cid @ [?i])) k" for k
  proof (cases "k = cid")
    case True
    then show ?thesis
      using result_of_nth [OF inv' , of off] result_of_nth [OF inv off(1)] off same by simp
  next
    case False
    then show ?thesis
      using off by (simp add: same [symmetric] result_of_def filter_update_other)
  qed
  then have "result_of ?s = (result_of sr)(cid := result_of sr cid @ [?i])" by (rule ext)
  moreover have "addResult cid ck ik st ct at e sr = (Ok (), ?s)"
    using get by (simp add: addResult_def gbind_def gmodify_def)
  moreover have "sr_Address ?s = sr_Address sr" "sr_Tags ?s = sr_Tags sr" using same by simp_all
  ultimately show thesis using inv' by (intro that)
qed

section \<open>Properties\<close>

text \<open>A call of \<^verbatim>\<open>addResult\<close>: the client's id and kind, and the interaction it records.\<close>

type_synonym result_call = "int \<times> string \<times> InteractionResult"

definition call_addResult :: "result_call \<Rightarrow> (SecondaryResult, unit) go" where
  "call_addResult = (\<lambda>(cid, kind, i).
     addResult cid kind (ir_Kind i) (ir_SubmitTime i) (ir_CommitTime i) (ir_AbortTime i) (ir_HasError i))"

lemma call_addResults_spec:
  assumes "result_inv sr"
  shows "\<exists>sr'. gfor calls call_addResult sr = (Ok (), sr') \<and> result_inv sr' \<and>
    (\<forall>cid. result_of sr' cid = result_of sr cid @ map (\<lambda>(_, _, i). i) (filter (\<lambda>(c, _). c = cid) calls))"
  using assms
proof (induction calls arbitrary: sr)
  case Nil
  then show ?case by (simp add: gret_run)
next
  case (Cons call calls)
  obtain c k i where call: "call = (c, k, i)" by (cases call)
  have eta: "\<lparr>ir_Kind = ir_Kind i, ir_SubmitTime = ir_SubmitTime i, ir_CommitTime = ir_CommitTime i,
      ir_AbortTime = ir_AbortTime i, ir_HasError = ir_HasError i\<rparr> = i" by (cases i) simp
  obtain sr1 where sr1: "call_addResult call sr = (Ok (), sr1)" "result_inv sr1"
    "result_of sr1 = (result_of sr)(c := result_of sr c @ [i])"
  proof (rule addResult_spec [OF Cons.prems, of c k "ir_Kind i" "ir_SubmitTime i" "ir_CommitTime i"
        "ir_AbortTime i" "ir_HasError i"])
    fix sr1
    assume "addResult c k (ir_Kind i) (ir_SubmitTime i) (ir_CommitTime i) (ir_AbortTime i) (ir_HasError i) sr =
        (Ok (), sr1)" "result_inv sr1"
      "result_of sr1 = (result_of sr)(c := result_of sr c @
        [\<lparr>ir_Kind = ir_Kind i, ir_SubmitTime = ir_SubmitTime i, ir_CommitTime = ir_CommitTime i,
          ir_AbortTime = ir_AbortTime i, ir_HasError = ir_HasError i\<rparr>])"
    then show thesis by (intro that [of sr1]) (simp_all add: call call_addResult_def eta)
  qed
  with Cons.IH [OF sr1(2)] call show ?case by (auto simp: gbind_Ok)
qed

text \<open>
  Recording results never indexes out of range, and after any sequence of calls of
  \<^verbatim>\<open>addResult\<close> on a new result, every client has exactly the interactions recorded for its id,
  in the order of the calls, no client occurs twice, and no interaction is lost or given to
  another client.
\<close>

theorem recorded_per_client:
  "\<exists>sr. gfor calls call_addResult (newSecondaryResult addr tags) = (Ok (), sr) \<and>
     distinct (map cr_Index (sr_Clients sr)) \<and>
     (\<forall>cid. concat (map cr_Interactions (filter (\<lambda>c. cr_Index c = cid) (sr_Clients sr))) =
        map (\<lambda>(_, _, i). i) (filter (\<lambda>(c, _). c = cid) calls))"
  using call_addResults_spec [OF newSecondaryResult_inv, of calls addr tags]
  by (auto simp: result_inv_def result_of_def newSecondaryResult_def)

end
