(* ===== verification/Core_Sample.thy ===== *)
theory Core_Sample
  imports Go_Prelude Go_Float64
begin

text \<open>
  Sample spaces and the uniform distribution (\<^verbatim>\<open>src/core/builtin.go\<close>, and the interfaces
  \<^verbatim>\<open>Sample\<close> and \<^verbatim>\<open>Distribution\<close> of \<^verbatim>\<open>src/core/variable.go\<close>). The random source of package
  \<open>math/rand\<close> is a parameter: \<open>seeded\<close> is \<^verbatim>\<open>rand.New(rand.NewSource(seed))\<close> and \<open>rng\<close> is the
  method \<^verbatim>\<open>Int\<close>, which returns a non-negative number. The theorems hold for every random source:
  an iterator yields every event exactly once and is then exhausted, a loop yields every event
  once before any event a second time, and a filtered sample contains the elements that have,
  for every pattern, a matching tag.
\<close>

section \<open>Values\<close>

text \<open>
  \<^verbatim>\<open>interface{}\<close> values the sample spaces hold: integers, floats, strings, and resources
  (locations, endpoints, accounts, contracts), which are opaque here.
\<close>

datatype 'v gvalue = GInt int | GFloat f64 | GStr string | GRes 'v

section \<open>Samples\<close>

record intSample =
  is_offset :: int
  is_size :: int

definition newIntSample :: "int \<Rightarrow> int \<Rightarrow> intSample" where
  "newIntSample from to =
     (if to < from then \<lparr>is_offset = from, is_size = 0\<rparr>
      else \<lparr>is_offset = from, is_size = wrap64 (to - from + 1)\<rparr>)"

definition intSample_Size :: "intSample \<Rightarrow> int" where
  "intSample_Size s = is_size s"

definition intSample_getInt :: "intSample \<Rightarrow> int \<Rightarrow> int" where
  "intSample_getInt s index = wrap64 (is_offset s + index)"

definition intSample_Get :: "intSample \<Rightarrow> int \<Rightarrow> 'v gvalue" where
  "intSample_Get s index = GInt (intSample_getInt s index)"

text \<open>\<^verbatim>\<open>math.Abs\<close> clears the sign.\<close>

definition f64_abs :: "f64 \<Rightarrow> f64" where
  "f64_abs x = f64_of_mag False (f64_mag x)"

definition isClose :: "f64 \<Rightarrow> f64 \<Rightarrow> f64 \<Rightarrow> f64 \<Rightarrow> bool outcome" where
  "isClose a b relTol absTol =
     (if f64_lt relTol f64_zero \<or> f64_lt absTol f64_zero
      then Err (Errorf ''tolerances must be non-negative'' [])
      else if f64_eq a b then Ok True
      else if f64_isinf a \<or> f64_isinf b then Ok False
      else
        let diff = f64_abs (f64_sub b a) in
        Ok (f64_le diff (f64_abs (f64_mul relTol b)) \<or> f64_le diff (f64_abs (f64_mul relTol a)) \<or>
            f64_le diff absTol))"

record floatSample =
  fs_offset :: int
  fs_size :: int
  fs_multiplier :: int

definition newFloatSample :: "f64 \<Rightarrow> f64 \<Rightarrow> int \<Rightarrow> floatSample" where
  "newFloatSample from to multiplier =
     (if f64_lt to from
      then \<lparr>fs_offset = f64_to_int from, fs_size = 0, fs_multiplier = multiplier\<rparr>
      else
        let first = f64_to_int (f64_mul from (f64_of_int multiplier));
            last = f64_to_int (f64_mul to (f64_of_int multiplier))
        in \<lparr>fs_offset = first, fs_size = wrap64 (last - first), fs_multiplier = multiplier\<rparr>)"

definition floatSample_Size :: "floatSample \<Rightarrow> int" where
  "floatSample_Size s = fs_size s"

definition floatSample_GetFloat :: "floatSample \<Rightarrow> int \<Rightarrow> f64" where
  "floatSample_GetFloat s index =
     f64_div (f64_of_int (wrap64 (fs_offset s + index))) (f64_of_int (fs_multiplier s))"

definition floatSample_Get :: "floatSample \<Rightarrow> int \<Rightarrow> 'v gvalue" where
  "floatSample_Get s index = GFloat (floatSample_GetFloat s index)"

text \<open>
  The loop that looks for a multiplier under which \<open>good\<close> holds: it multiplies by ten until the
  \<^verbatim>\<open>int\<close> overflows to a value that is not positive. Twenty rounds from 1 are enough
  (\<open>infer_multiplier_ends\<close>).
\<close>

fun infer_multiplier :: "(int \<Rightarrow> bool) \<Rightarrow> nat \<Rightarrow> int \<Rightarrow> int" where
  "infer_multiplier good 0 multiplier = multiplier"
| "infer_multiplier good (Suc fuel) multiplier =
     (if multiplier \<le> 0 then multiplier
      else if good multiplier then multiplier
      else infer_multiplier good fuel (wrap64 (multiplier * 10)))"

definition multiplier_rounds :: nat where
  "multiplier_rounds = 20"

definition f64_nano :: f64 where
  "f64_nano = 0x3E112E0BE826D695"

text \<open>The value times the multiplier is close to an integer.\<close>

definition near_int :: "f64 \<Rightarrow> int \<Rightarrow> bool" where
  "near_int x multiplier =
     (let tmp = f64_mul x (f64_of_int multiplier) in
      isClose (f64_of_int (f64_to_int tmp)) tmp f64_nano f64_zero = Ok True)"

text \<open>An element sample indexes its slice, so an index out of range panics.\<close>

definition elementSample_Size :: "'e list \<Rightarrow> int" where
  "elementSample_Size elements = int (length elements)"

definition elementSample_Get :: "'e list \<Rightarrow> int \<Rightarrow> 'e outcome" where
  "elementSample_Get elements index =
     (if 0 \<le> index \<and> index < int (length elements) then Ok (elements ! nat index)
      else Panic ''index out of range'')"

section \<open>Elements filtered by tags\<close>

text \<open>
  One filter over all elements: \<^verbatim>\<open>faileds\<close> marks the elements some filter has rejected and \<^verbatim>\<open>n\<close>
  counts the others. \<open>matches\<close> is \<^verbatim>\<open>MatchString\<close> of a compiled regular expression.
\<close>

fun filter_pass ::
  "('r \<Rightarrow> string \<Rightarrow> bool) \<Rightarrow> ('e \<Rightarrow> string list) \<Rightarrow> 'r \<Rightarrow> 'e list \<Rightarrow> bool list \<Rightarrow> int
     \<Rightarrow> bool list \<times> int" where
  "filter_pass matches tags f (e # es) (failed # faileds) n =
     (let (failed', n') =
        (if failed then (True, n)
         else if \<exists>tag \<in> set (tags e). matches f tag then (False, n)
         else (True, n - 1));
        (faileds', n'') = filter_pass matches tags f es faileds n'
      in (failed' # faileds', n''))"
| "filter_pass matches tags f _ faileds n = (faileds, n)"

fun filter_passes ::
  "('r \<Rightarrow> string \<Rightarrow> bool) \<Rightarrow> ('e \<Rightarrow> string list) \<Rightarrow> 'r list \<Rightarrow> 'e list \<Rightarrow> bool list \<Rightarrow> int
     \<Rightarrow> bool list \<times> int" where
  "filter_passes matches tags [] es faileds n = (faileds, n)"
| "filter_passes matches tags (f # fs) es faileds n =
     (let (faileds', n') = filter_pass matches tags f es faileds n
      in filter_passes matches tags fs es faileds' n')"

text \<open>
  \<^verbatim>\<open>make([]interface{}, 0, n)\<close> panics for a negative capacity; the result keeps the elements that
  did not fail, in order.
\<close>

definition newFilteredElementSample ::
  "('r \<Rightarrow> string \<Rightarrow> bool) \<Rightarrow> ('e \<Rightarrow> string list) \<Rightarrow> 'r list \<Rightarrow> 'e list \<Rightarrow> 'e list outcome" where
  "newFilteredElementSample matches tags filters telements =
     (let (faileds, n) = filter_passes matches tags filters telements
        (replicate (length telements) False) (int (length telements))
      in if n < 0 then Panic ''makeslice: cap out of range''
         else Ok (map fst (filter (\<lambda>(e, failed). \<not> failed) (zip telements faileds))))"

section \<open>The uniform distribution\<close>

datatype VariableType = TypeRegular | TypeOnce | TypeLoop

text \<open>\<open>ud_values = None\<close> is the nil slice.\<close>

record 'g uniformDistribution =
  ud_rtype :: VariableType
  ud_rand :: 'g
  ud_size :: int
  ud_values :: "int list option"

definition newUniformDistribution ::
  "(int \<Rightarrow> 'g) \<Rightarrow> int \<Rightarrow> int \<Rightarrow> VariableType \<Rightarrow> 'g uniformDistribution outcome" where
  "newUniformDistribution seeded sz seed rtype =
     (if rtype = TypeRegular
      then Ok \<lparr>ud_rtype = rtype, ud_rand = seeded seed, ud_size = sz, ud_values = None\<rparr>
      else if sz < 0 then Panic ''makeslice: len out of range''
      else Ok \<lparr>ud_rtype = rtype, ud_rand = seeded seed, ud_size = sz,
               ud_values = Some (map int [0..<nat sz])\<rparr>)"

text \<open>
  \<^verbatim>\<open>Select\<close>: draw an index below the size; unless the variable is regular, move the drawn
  value behind the end and shrink. A once variable drops its values when it becomes empty, a
  loop variable starts over with all of them.
\<close>

definition Select :: "('g \<Rightarrow> nat \<times> 'g) \<Rightarrow> ('g uniformDistribution, int) go" where
  "Select rng = (\<lambda>d.
     if ud_size d = 0 then (Err (Errorf ''random space exhausted'' []), d)
     else
       let (r, g) = rng (ud_rand d);
           d = d\<lparr>ud_rand := g\<rparr>;
           index = int r mod \<bar>ud_size d\<bar>
       in case (case ud_values d of
                  None \<Rightarrow> Ok index
                | Some vs \<Rightarrow> elementSample_Get vs index) of
            Ok val \<Rightarrow>
              if ud_rtype d = TypeRegular then (Ok val, d)
              else
                (case ud_values d of
                   None \<Rightarrow> (Panic ''index out of range'', d)
                 | Some vs \<Rightarrow>
                     if ud_size d < 1 \<or> int (length vs) < ud_size d
                     then (Panic ''index out of range'', d)
                     else
                       let n = nat (ud_size d) - 1;
                           vs' = vs[nat index := vs ! n, n := val];
                           d = d\<lparr>ud_values := Some vs', ud_size := ud_size d - 1\<rparr>
                       in if ud_size d = 0
                          then
                            (if ud_rtype d = TypeOnce then (Ok val, d\<lparr>ud_values := None\<rparr>)
                             else (Ok val, d\<lparr>ud_size := int (length vs')\<rparr>))
                          else (Ok val, d))
          | Err e \<Rightarrow> (Err e, d)
          | Panic p \<Rightarrow> (Panic p, d))"

definition Copy ::
  "(int \<Rightarrow> 'g) \<Rightarrow> int \<Rightarrow> VariableType \<Rightarrow> 'g uniformDistribution \<Rightarrow> 'g uniformDistribution outcome" where
  "Copy seeded seed rtype d =
     (let build = (\<lambda>vs. \<lparr>ud_rtype = rtype, ud_rand = seeded seed, ud_size = ud_size d, ud_values = vs\<rparr>)
      in case ud_values d of
        None \<Rightarrow>
          if rtype = TypeRegular then Ok (build None)
          else if ud_size d < 0 then Panic ''makeslice: len out of range''
          else Ok (build (Some (map int [0..<nat (ud_size d)])))
      | Some vs \<Rightarrow>
          if ud_size d < 0 then Panic ''makeslice: len out of range''
          else if int (length vs) < ud_size d then Panic ''index out of range''
          else Ok (build (Some (take (nat (ud_size d)) vs))))"

section \<open>The search for a multiplier ends\<close>

lemma wrap64_pow: "n \<le> 18 \<Longrightarrow> wrap64 (10 ^ n) = 10 ^ n"
proof -
  assume "n \<le> 18"
  then have "(10 :: int) ^ n \<le> 10 ^ 18" by (intro power_increasing) auto
  then have "(10 :: int) ^ n < 2 ^ 63" by (rule order.strict_trans1) simp
  moreover have "(0 :: int) < 10 ^ n" by simp
  ultimately show ?thesis by (intro wrap64_id) (unfold int64_def, linarith)
qed

lemma infer_multiplier_ends:
  "n \<le> 18 \<Longrightarrow>
   let m = infer_multiplier good (multiplier_rounds - n) (10 ^ n) in
   m \<le> 0 \<or> (good m \<and> (\<exists>k. n \<le> k \<and> k \<le> 18 \<and> m = 10 ^ k))"
proof (induction "18 - n" arbitrary: n)
  case 0
  then have n: "n = 18" by simp
  have "wrap64 ((10 :: int) ^ 19) = - 8446744073709551616"
    by (simp add: wrap64_def int_word_sint)
  then have "wrap64 ((10 :: int) ^ 18 * 10) \<le> 0" by simp
  then show ?case by (auto simp: n multiplier_rounds_def numeral_2_eq_2 Let_def)
next
  case (Suc d)
  then have n: "n < 18" by simp
  then have fuel: "multiplier_rounds - n = Suc (multiplier_rounds - Suc n)" by (simp add: multiplier_rounds_def)
  have "wrap64 (10 ^ n * 10) = 10 ^ Suc n" using wrap64_pow [of "Suc n"] n by (simp add: mult.commute)
  moreover have "0 < (10 :: int) ^ n" by simp
  moreover define m where "m = infer_multiplier good (multiplier_rounds - Suc n) (10 ^ Suc n)"
  moreover have "m \<le> 0 \<or> good m \<and> (\<exists>k. n \<le> k \<and> k \<le> 18 \<and> m = 10 ^ k)"
    using Suc.hyps(1) [of "Suc n"] Suc.hyps(2) n Suc_leD unfolding m_def by (fastforce simp: Let_def)
  ultimately show ?case using n unfolding fuel by (auto simp: Let_def)
qed

section \<open>Filtering: lemmas\<close>

text \<open>The element has, for every filter, a tag the filter matches.\<close>

definition tagged ::
  "('r \<Rightarrow> string \<Rightarrow> bool) \<Rightarrow> ('e \<Rightarrow> string list) \<Rightarrow> 'r list \<Rightarrow> 'e \<Rightarrow> bool" where
  "tagged matches tags fs e \<longleftrightarrow> (\<forall>f \<in> set fs. \<exists>tag \<in> set (tags e). matches f tag)"

abbreviation live_count :: "bool list \<Rightarrow> int" where
  "live_count faileds \<equiv> int (length (filter Not faileds))"

lemma filter_pass_eq:
  "length es = length faileds \<Longrightarrow>
   filter_pass matches tags f es faileds n =
     (let faileds' = map2 (\<lambda>e failed. failed \<or> \<not> tagged matches tags [f] e) es faileds
      in (faileds', n + live_count faileds' - live_count faileds))"
  by (induction es faileds arbitrary: n rule: list_induct2) (auto simp: tagged_def Let_def)

lemma filter_passes_eq:
  "length es = length faileds \<Longrightarrow>
   filter_passes matches tags fs es faileds n =
     (let faileds' = map2 (\<lambda>e failed. failed \<or> \<not> tagged matches tags fs e) es faileds
      in (faileds', n + live_count faileds' - live_count faileds))"
proof (induction fs arbitrary: faileds n)
  case Nil
  then have "map2 (\<lambda>e failed. failed \<or> \<not> tagged matches tags [] e) es faileds = faileds"
    by (induction es faileds rule: list_induct2) (auto simp: tagged_def)
  then show ?case by (simp add: Let_def)
next
  case (Cons f fs)
  let ?g = "\<lambda>fs. map2 (\<lambda>e failed. failed \<or> \<not> tagged matches tags fs e) es"
  have "?g fs (?g [f] faileds) = ?g (f # fs) faileds"
    using Cons.prems by (induction es faileds rule: list_induct2) (auto simp: tagged_def)
  moreover have "length es = length (?g [f] faileds)" using Cons.prems by simp
  ultimately show ?case
    using Cons.IH [of "?g [f] faileds"] Cons.prems
    by (simp add: filter_pass_eq Let_def del: length_filter_map)
qed

lemma zip_replicate_filter:
  "map fst (filter (\<lambda>(e, failed). \<not> failed)
     (zip es (map2 (\<lambda>e failed. failed \<or> \<not> P e) es (replicate (length es) False)))) = filter P es"
  by (induction es) auto

section \<open>Drawing: lemmas\<close>

text \<open>The events that can still be drawn.\<close>

definition remaining :: "'g uniformDistribution \<Rightarrow> int list" where
  "remaining d = (case ud_values d of
       None \<Rightarrow> map int [0..<nat (ud_size d)]
     | Some vs \<Rightarrow> take (nat (ud_size d)) vs)"

text \<open>
  Only a regular variable, or an exhausted once variable, has no slice of values; the size
  never exceeds the slice, and a loop variable with events is never empty.
\<close>

definition ud_inv :: "'g uniformDistribution \<Rightarrow> bool" where
  "ud_inv d \<longleftrightarrow> 0 \<le> ud_size d \<and>
     (case ud_values d of
        None \<Rightarrow> ud_rtype d = TypeRegular \<or> (ud_rtype d = TypeOnce \<and> ud_size d = 0)
      | Some vs \<Rightarrow> ud_size d \<le> int (length vs) \<and>
          (ud_rtype d = TypeLoop \<longrightarrow> ud_size d = 0 \<longrightarrow> vs = []))"

lemma mset_take_swap:
  assumes "i \<le> n" and "n < length vs"
  shows "mset (take n (vs[i := vs ! n, n := vs ! i])) + {#vs ! i#} = mset (take (Suc n) vs)"
    and "mset (vs[i := vs ! n, n := vs ! i]) = mset vs"
proof -
  let ?vs = "vs[i := vs ! n, n := vs ! i]"
  have t: "take (Suc n) ?vs = (take (Suc n) vs)[i := take (Suc n) vs ! n, n := take (Suc n) vs ! i]"
    using assms by (simp add: take_update_swap)
  have "mset (take (Suc n) ?vs) = mset (take (Suc n) vs)"
    unfolding t by (rule mset_swap) (use assms in auto)
  moreover have "take (Suc n) ?vs = take n ?vs @ [vs ! i]"
    using assms by (simp add: take_Suc_conv_app_nth)
  ultimately show "mset (take n ?vs) + {#vs ! i#} = mset (take (Suc n) vs)" by simp
  show "mset ?vs = mset vs" by (rule mset_swap) (use assms in auto)
qed

text \<open>One draw of an iterator or a loop that is not exhausted.\<close>

lemma Select_draw:
  assumes "ud_rtype d \<noteq> TypeRegular" and "ud_values d = Some vs"
    and "0 < ud_size d" and "ud_size d \<le> int (length vs)"
  obtains x vs' d' where "Select rng d = (Ok x, d')"
    and "mset (take (nat (ud_size d) - 1) vs') + {#x#} = mset (take (nat (ud_size d)) vs)"
    and "mset vs' = mset vs" and "ud_rtype d' = ud_rtype d"
    and "ud_values d' = (if ud_size d = 1 \<and> ud_rtype d = TypeOnce then None else Some vs')"
    and "ud_size d' = (if ud_size d = 1 \<and> ud_rtype d = TypeLoop then int (length vs) else ud_size d - 1)"
proof -
  obtain r g where rng: "rng (ud_rand d) = (r, g)" by force
  define i where "i = nat (int r mod ud_size d)"
  define n where "n = nat (ud_size d) - 1"
  have i: "int r mod ud_size d = int i" "int i < ud_size d" using assms(3) by (simp_all add: i_def)
  have n: "i \<le> n" "n < length vs" "Suc n = nat (ud_size d)"
    using assms(3,4) i(2) by (auto simp: n_def)
  let ?vs = "vs[i := vs ! n, n := vs ! i]"
  define d' where "d' = d\<lparr>ud_rand := g,
    ud_values := (if ud_size d = 1 \<and> ud_rtype d = TypeOnce then None else Some ?vs),
    ud_size := (if ud_size d = 1 \<and> ud_rtype d = TypeLoop then int (length vs) else ud_size d - 1)\<rparr>"
  have il: "i < length vs" using n by simp
  have "Select rng d = (Ok (vs ! i), d')"
    using assms rng i n il
    by (cases "ud_rtype d") (simp_all add: Select_def elementSample_Get_def d'_def n_def Let_def)
  then show thesis
    by (rule that [where vs' = ?vs]) (use mset_take_swap [OF n(1,2)] n(3) in \<open>simp_all add: d'_def n_def\<close>)
qed

lemma Select_exhausted: "ud_size d = 0 \<Longrightarrow> Select rng d = (Err (Errorf ''random space exhausted'' []), d)"
  by (simp add: Select_def)

text \<open>
  Every draw keeps the invariant and does not panic: it returns one of the remaining events, or
  the error when none remains.
\<close>

lemma Select_regular:
  assumes "ud_rtype d = TypeRegular" and "ud_inv d" and "0 < ud_size d"
  obtains x d' where "Select rng d = (Ok x, d')" and "x \<in> set (remaining d)" and "ud_inv d'"
    and "remaining d' = remaining d" and "ud_rtype d' = ud_rtype d"
proof -
  obtain r g where rng: "rng (ud_rand d) = (r, g)" by force
  define i where "i = nat (int r mod ud_size d)"
  have i: "int r mod ud_size d = int i" "i < nat (ud_size d)"
    using assms(3) by (simp_all add: i_def)
  show thesis
  proof (cases "ud_values d")
    case None
    with assms rng i show thesis
      by (intro that [of "int i" "d\<lparr>ud_rand := g\<rparr>"])
        (auto simp: Select_def Let_def remaining_def ud_inv_def)
  next
    case (Some vs)
    then have "i < length vs" using i assms(2) by (auto simp: ud_inv_def)
    with Some assms rng i show thesis
      by (intro that [of "vs ! i" "d\<lparr>ud_rand := g\<rparr>"])
        (auto simp: Select_def Let_def elementSample_Get_def remaining_def ud_inv_def in_set_conv_nth
          intro!: exI [of _ i])
  qed
qed

lemma Select_inv:
  assumes "ud_inv d"
  shows "case Select rng d of
      (Ok x, d') \<Rightarrow> x \<in> set (remaining d) \<and> ud_inv d' \<and> ud_rtype d' = ud_rtype d
    | (Err e, d') \<Rightarrow> remaining d = [] \<and> d' = d
    | (Panic p, d') \<Rightarrow> False"
proof (cases "ud_size d = 0")
  case True
  then show ?thesis by (simp add: Select_exhausted remaining_def split: option.splits)
next
  case False
  with assms have pos: "0 < ud_size d" by (simp add: ud_inv_def)
  show ?thesis
  proof (cases "ud_rtype d = TypeRegular")
    case True
    obtain x d' where "Select rng d = (Ok x, d')" "x \<in> set (remaining d)" "ud_inv d'"
      "ud_rtype d' = ud_rtype d"
      using Select_regular [OF True assms pos, of rng] by metis
    then show ?thesis by simp
  next
    case reg: False
    with assms pos obtain vs where vs: "ud_values d = Some vs" "ud_size d \<le> int (length vs)"
      by (auto simp: ud_inv_def split: option.splits)
    obtain x vs' d' where sel: "Select rng d = (Ok x, d')"
      and t: "mset (take (nat (ud_size d) - 1) vs') + {#x#} = mset (take (nat (ud_size d)) vs)"
      and m: "mset vs' = mset vs" and ty: "ud_rtype d' = ud_rtype d"
      and vd: "ud_values d' = (if ud_size d = 1 \<and> ud_rtype d = TypeOnce then None else Some vs')"
      and sd: "ud_size d' = (if ud_size d = 1 \<and> ud_rtype d = TypeLoop then int (length vs) else ud_size d - 1)"
      using Select_draw [OF reg vs(1) pos vs(2), of rng] by metis
    have "x \<in># mset (take (nat (ud_size d)) vs)" using t by (metis multi_member_last union_iff)
    moreover have "length vs' = length vs" using m by (metis size_mset)
    ultimately show ?thesis
      using sel ty vd sd vs pos reg by (cases "ud_rtype d") (auto simp: remaining_def ud_inv_def)
  qed
qed

text \<open>Drawing \<open>k\<close> times from an iterator with at least \<open>k\<close> remaining events.\<close>

lemma Select_once_times:
  assumes "ud_rtype d = TypeOnce" and "ud_inv d" and "int k \<le> ud_size d"
  shows "\<exists>xs d'. gtimes k (Select rng) d = (Ok xs, d') \<and> ud_inv d' \<and> ud_rtype d' = TypeOnce \<and>
    ud_size d' = ud_size d - int k \<and> mset xs + mset (remaining d') = mset (remaining d)"
  using assms
proof (induction k arbitrary: d)
  case 0
  then show ?case by (simp add: gret_def)
next
  case (Suc k)
  from Suc.prems obtain vs where vs: "ud_values d = Some vs" "ud_size d \<le> int (length vs)"
    by (auto simp: ud_inv_def split: option.splits)
  obtain x vs' d1 where sel: "Select rng d = (Ok x, d1)"
    and t: "mset (take (nat (ud_size d) - 1) vs') + {#x#} = mset (take (nat (ud_size d)) vs)"
    and ty: "ud_rtype d1 = TypeOnce"
    and vd: "ud_values d1 = (if ud_size d = 1 then None else Some vs')"
    and sd: "ud_size d1 = ud_size d - 1"
    using Select_draw [OF _ vs(1) _ vs(2), of rng] Suc.prems
    by (metis VariableType.distinct(1,5) of_nat_0_less_iff order_less_le_trans zero_less_Suc)
  have inv: "ud_inv d1" using Select_inv [OF Suc.prems(2), of rng] sel by simp
  have r1: "mset (remaining d1) + {#x#} = mset (remaining d)"
    using t vd sd vs(1) Suc.prems(3)
    by (cases "ud_size d = 1") (auto simp: remaining_def nat_diff_distrib')
  have "int k \<le> ud_size d1" using Suc.prems(3) sd by simp
  from Suc.IH [OF ty inv this] obtain xs d' where
    *: "gtimes k (Select rng) d1 = (Ok xs, d')" "ud_inv d'" "ud_rtype d' = TypeOnce"
      "ud_size d' = ud_size d1 - int k" "mset xs + mset (remaining d') = mset (remaining d1)"
    by blast
  have "gtimes (Suc k) (Select rng) d = (Ok (x # xs), d')"
    using sel * by (simp add: gbind_def gret_def)
  moreover have "mset (x # xs) + mset (remaining d') = mset (remaining d)"
    using *(5) r1 by (simp add: ac_simps)
  ultimately show ?case using * sd by auto
qed

text \<open>One round of a loop: from a full loop every event is drawn once and the loop is full again.\<close>

definition loop_full :: "int multiset \<Rightarrow> 'g uniformDistribution \<Rightarrow> bool" where
  "loop_full M d \<longleftrightarrow> ud_rtype d = TypeLoop \<and>
     (\<exists>vs. ud_values d = Some vs \<and> ud_size d = int (length vs) \<and> mset vs = M)"

lemma Select_loop_part:
  assumes "ud_rtype d = TypeLoop" and "ud_values d = Some vs" and "mset vs = M"
    and "ud_size d = int (Suc k)" and "Suc k \<le> length vs"
  shows "\<exists>xs d'. gtimes (Suc k) (Select rng) d = (Ok xs, d') \<and> loop_full M d' \<and>
    mset xs = mset (take (Suc k) vs)"
  using assms
proof (induction k arbitrary: d vs)
  case 0
  obtain x vs' d1 where sel: "Select rng d = (Ok x, d1)"
    and t: "mset (take (nat (ud_size d) - 1) vs') + {#x#} = mset (take (nat (ud_size d)) vs)"
    and m: "mset vs' = mset vs" and ty: "ud_rtype d1 = TypeLoop"
    and vd: "ud_values d1 = Some vs'" and sd: "ud_size d1 = int (length vs)"
    using Select_draw [of d vs rng] 0 by simp metis
  have "length vs' = length vs" using m by (metis size_mset)
  with m ty vd sd 0 have "loop_full M d1" by (simp add: loop_full_def)
  moreover have "mset [x] = mset (take (Suc 0) vs)" using t 0 by simp
  ultimately show ?case using sel by (auto simp: gbind_def gret_def)
next
  case (Suc k)
  obtain x vs' d1 where sel: "Select rng d = (Ok x, d1)"
    and t: "mset (take (nat (ud_size d) - 1) vs') + {#x#} = mset (take (nat (ud_size d)) vs)"
    and m: "mset vs' = mset vs" and ty: "ud_rtype d1 = TypeLoop"
    and vd: "ud_values d1 = Some vs'" and sd: "ud_size d1 = ud_size d - 1"
    using Select_draw [of d vs rng] Suc.prems by simp metis
  have "length vs' = length vs" using m by (metis size_mset)
  with Suc.IH [OF ty vd] m sd Suc.prems obtain xs d' where
    *: "gtimes (Suc k) (Select rng) d1 = (Ok xs, d')" "loop_full M d'" "mset xs = mset (take (Suc k) vs')"
    by auto
  have "mset (x # xs) = mset (take (Suc (Suc k)) vs)"
    using t Suc.prems(4) *(3) by (simp add: nat_add_distrib)
  moreover have "gtimes (Suc (Suc k)) (Select rng) d = (Ok (x # xs), d')"
    using sel *(1) by (simp add: gbind_def gret_def)
  ultimately show ?case using *(2) by blast
qed

lemma Select_loop_rounds:
  assumes "loop_full M d" and "size M = n"
  shows "\<exists>xss d'. gtimes m (gtimes n (Select rng)) d = (Ok xss, d') \<and> loop_full M d' \<and>
    list_all (\<lambda>xs. mset xs = M) xss"
  using assms(1)
proof (induction m arbitrary: d)
  case 0
  then show ?case by (simp add: gret_def)
next
  case (Suc m)
  from Suc.prems obtain vs where vs: "ud_rtype d = TypeLoop" "ud_values d = Some vs" "mset vs = M"
    "ud_size d = int (length vs)" by (auto simp: loop_full_def)
  with assms(2) have len: "length vs = n" by (metis size_mset)
  have "\<exists>xs d1. gtimes n (Select rng) d = (Ok xs, d1) \<and> loop_full M d1 \<and> mset xs = M"
  proof (cases n)
    case 0
    with len vs Suc.prems show ?thesis by (simp add: gret_def)
  next
    case (Suc k)
    with Select_loop_part [OF vs(1-3), of k rng] vs(3,4) len show ?thesis by auto
  qed
  then obtain xs d1 where "gtimes n (Select rng) d = (Ok xs, d1)" "loop_full M d1" "mset xs = M"
    by blast
  moreover from Suc.IH [OF this(2)] obtain xss d' where
    "gtimes m (gtimes n (Select rng)) d1 = (Ok xss, d')" "loop_full M d'"
    "list_all (\<lambda>xs. mset xs = M) xss" by blast
  ultimately show ?case by (intro exI [of _ "xs # xss"] exI [of _ d']) (simp add: gbind_def gret_def)
qed

lemma new_inv: "0 \<le> n \<Longrightarrow> newUniformDistribution seeded n seed ty = Ok d \<Longrightarrow> ud_inv d"
  by (auto simp: newUniformDistribution_def ud_inv_def split: if_splits)

lemma Copy_spec:
  assumes "ud_inv d"
  obtains d' where "Copy seeded seed ty d = Ok d'" and "ud_inv d'" and "remaining d' = remaining d"
    and "ud_rtype d' = ty"
  using assms
  by (cases "ud_values d"; cases "ty = TypeRegular")
    (auto simp: Copy_def ud_inv_def remaining_def Let_def)

section \<open>Properties\<close>

text \<open>
  C34: A once variable (\<^verbatim>\<open>iter\<close>) over a sample of \<open>n\<close> events yields, with every random source,
  each event exactly once in its first \<open>n\<close> draws, and from then on every draw reports that the
  random space is exhausted.
\<close>

theorem once_draws_every_event:
  assumes "0 \<le> n" and "newUniformDistribution seeded n seed TypeOnce = Ok d"
  shows "\<exists>xs d'. gtimes (nat n) (Select rng) d = (Ok xs, d') \<and>
    mset xs = mset (map int [0..<nat n]) \<and>
    Select rng d' = (Err (Errorf ''random space exhausted'' []), d')"
proof -
  have d: "ud_rtype d = TypeOnce" "ud_inv d" "int (nat n) \<le> ud_size d" "remaining d = map int [0..<nat n]"
    "ud_size d = n"
    using assms new_inv [OF assms] by (auto simp: newUniformDistribution_def remaining_def)
  then obtain xs d' where *: "gtimes (nat n) (Select rng) d = (Ok xs, d')" "ud_inv d'"
    "ud_size d' = ud_size d - int (nat n)" "mset xs + mset (remaining d') = mset (remaining d)"
    using Select_once_times [of d "nat n" rng] by blast
  then have zero: "ud_size d' = 0" using d(5) assms(1) by simp
  then have "remaining d' = []" by (simp add: remaining_def split: option.splits)
  with * d(4) Select_exhausted [OF zero] show ?thesis by auto
qed

theorem once_draws_every_event_witness:
  "\<exists>xs d'. gtimes 3 (Select (\<lambda>g :: nat. (7 * g, Suc g)))
     \<lparr>ud_rtype = TypeOnce, ud_rand = 5, ud_size = 3, ud_values = Some [0, 1, 2]\<rparr> = (Ok xs, d') \<and>
   mset xs = {#0, 1, 2#} \<and>
   Select (\<lambda>g. (7 * g, Suc g)) d' = (Err (Errorf ''random space exhausted'' []), d')"
proof -
  have "newUniformDistribution nat 3 5 TypeOnce =
      Ok \<lparr>ud_rtype = TypeOnce, ud_rand = 5, ud_size = 3, ud_values = Some [0, 1, 2]\<rparr>"
    by (simp add: newUniformDistribution_def upt_rec)
  from once_draws_every_event [OF _ this, of "\<lambda>g. (7 * g, Suc g)"] show ?thesis
    by (simp add: upt_rec)
qed

text \<open>
  A loop variable over a sample of \<open>n\<close> events never runs dry: in each block of \<open>n\<close> draws,
  counted from its creation, every event occurs exactly once, so that all events happen before
  any event happens a second time.
\<close>

theorem loop_draws_rounds:
  assumes "0 \<le> n" and "newUniformDistribution seeded n seed TypeLoop = Ok d"
  shows "\<exists>xss d'. gtimes rounds (gtimes (nat n) (Select rng)) d = (Ok xss, d') \<and>
    length xss = rounds \<and> list_all (\<lambda>xs. mset xs = mset (map int [0..<nat n])) xss"
proof -
  have "loop_full (mset (map int [0..<nat n])) d"
    using assms by (auto simp: newUniformDistribution_def loop_full_def)
  from Select_loop_rounds [OF this, of "nat n" rounds rng] show ?thesis
    using gtimes_length by (fastforce simp del: mset_map)
qed

theorem loop_draws_rounds_witness:
  "\<exists>xss d'. gtimes 2 (gtimes 2 (Select (\<lambda>g :: nat. (7 * g, Suc g))))
     \<lparr>ud_rtype = TypeLoop, ud_rand = 5, ud_size = 2, ud_values = Some [0, 1]\<rparr> = (Ok xss, d') \<and>
   length xss = 2 \<and> list_all (\<lambda>xs. mset xs = {#0, 1#}) xss"
proof -
  have "newUniformDistribution nat 2 5 TypeLoop =
      Ok \<lparr>ud_rtype = TypeLoop, ud_rand = 5, ud_size = 2, ud_values = Some [0, 1]\<rparr>"
    by (simp add: newUniformDistribution_def upt_rec)
  from loop_draws_rounds [OF _ this, of 2 "\<lambda>g. (7 * g, Suc g)"] show ?thesis
    by (simp add: upt_rec numeral_2_eq_2)
qed

text \<open>
  The sample of elements filtered by patterns is built without a panic, and contains, in
  their order, exactly the elements that have for every pattern a tag the pattern matches.
\<close>

theorem filtered_sample_spec:
  "newFilteredElementSample matches tags filters es =
     Ok (filter (\<lambda>e. list_all (\<lambda>f. list_ex (matches f) (tags e)) filters) es)"
proof -
  let ?init = "replicate (length es) False"
  let ?fs = "map2 (\<lambda>e failed. failed \<or> \<not> tagged matches tags filters e) es ?init"
  have "filter_passes matches tags filters es ?init (int (length es)) =
      (?fs, int (length es) + live_count ?fs - live_count ?init)"
    by (simp add: filter_passes_eq Let_def del: length_filter_map)
  then have "newFilteredElementSample matches tags filters es = Ok (filter (tagged matches tags filters) es)"
    using zip_replicate_filter [where P = "tagged matches tags filters" and es = es]
    by (simp add: newFilteredElementSample_def filter_replicate del: length_filter_map)
  then show ?thesis by (simp add: tagged_def [abs_def] list_all_iff list_ex_iff)
qed

text \<open>
  Copying a distribution with another seed and type keeps the events that were already
  discarded: the copy can yield exactly the events that remained in the original, whatever the
  requested type, and drawing from it never panics.
\<close>

theorem copy_keeps_remaining:
  assumes "ud_inv d"
  shows "\<exists>d'. Copy seeded seed ty d = Ok d' \<and> ud_inv d' \<and> ud_rtype d' = ty \<and> remaining d' = remaining d \<and>
    (case Select rng d' of
       (Ok x, d'') \<Rightarrow> x \<in> set (remaining d) \<and> ud_inv d''
     | (Err e, d'') \<Rightarrow> remaining d = []
     | (Panic p, d'') \<Rightarrow> False)"
proof -
  obtain d' where *: "Copy seeded seed ty d = Ok d'" "ud_inv d'" "remaining d' = remaining d" "ud_rtype d' = ty"
    using Copy_spec [OF assms] .
  show ?thesis using Select_inv [OF *(2), of rng] *
    by (intro exI [of _ d']) (auto split: prod.splits outcome.splits)
qed

theorem copy_keeps_remaining_witness:
  "\<exists>d'. Copy nat 9 TypeRegular
      \<lparr>ud_rtype = TypeOnce, ud_rand = 5, ud_size = 2, ud_values = Some [7, 3, 8]\<rparr> = Ok d' \<and>
    remaining d' = [7, 3]"
proof -
  have "ud_inv \<lparr>ud_rtype = TypeOnce, ud_rand = 5 :: nat, ud_size = 2, ud_values = Some [7, 3, 8]\<rparr>"
    by (simp add: ud_inv_def)
  from copy_keeps_remaining [OF this, of nat 9 TypeRegular "\<lambda>g. (g, g)"] show ?thesis
    by (auto simp: remaining_def)
qed

end
