(* ===== verification/Core_Setup.thy ===== *)
theory Core_Setup
  imports Core_Sample
begin

text \<open>
  The parsed setup file (\<^verbatim>\<open>src/core/setup.go\<close>): the name of the tested system, its parameters
  and its endpoints with their tags, and the sample of endpoints. The YAML decoder and the file
  system are arguments of \<open>parseSetupYamlPath\<close>.
\<close>

record setupGroupConfig =
  sgc_Addresses :: "string list"
  sgc_Tags :: "string list"

record setupConfig =
  sc_Sysname :: string
  sc_Parameters :: "(string, string) gomap"
  sc_Endpoints :: "setupGroupConfig list"

record parsedEndpoint =
  pe_address :: string
  pe_tags :: "string list"

record parsedSetup =
  ps_sysname :: string
  ps_parameters :: "(string, string) gomap"
  ps_endpoints :: "parsedEndpoint list"

definition newParsedEndpoint :: "string \<Rightarrow> string list \<Rightarrow> parsedEndpoint" where
  "newParsedEndpoint address tags = \<lparr>pe_address = address, pe_tags = tags\<rparr>"

definition newParsedSetup ::
  "string \<Rightarrow> (string, string) gomap \<Rightarrow> parsedEndpoint list \<Rightarrow> parsedSetup" where
  "newParsedSetup sysname parameters endpoints =
     \<lparr>ps_sysname = sysname, ps_parameters = parameters, ps_endpoints = endpoints\<rparr>"

text \<open>The inner loop appends one endpoint per address of a group, the outer loop runs over the groups.\<close>

fun build_group :: "string list \<Rightarrow> string list \<Rightarrow> parsedEndpoint list \<Rightarrow> parsedEndpoint list" where
  "build_group tags [] eps = eps"
| "build_group tags (addr # addrs) eps =
     build_group tags addrs (eps @ [newParsedEndpoint addr tags])"

fun build_groups :: "setupGroupConfig list \<Rightarrow> parsedEndpoint list \<Rightarrow> parsedEndpoint list" where
  "build_groups [] eps = eps"
| "build_groups (g # gs) eps = build_groups gs (build_group (sgc_Tags g) (sgc_Addresses g) eps)"

definition buildParsedSetup :: "setupConfig \<Rightarrow> parsedSetup" where
  "buildParsedSetup config =
     newParsedSetup (sc_Sysname config) (sc_Parameters config) (build_groups (sc_Endpoints config) [])"

definition parseSetupYamlPath ::
  "(string \<Rightarrow> 'file outcome) \<Rightarrow> ('file \<Rightarrow> setupConfig outcome) \<Rightarrow> string \<Rightarrow> parsedSetup outcome" where
  "parseSetupYamlPath os_Open yaml_Decode path =
     obind (os_Open path) (\<lambda>file. obind (yaml_Decode file) (\<lambda>config. Ok (buildParsedSetup config)))"

text \<open>The map from address to tags that \<^verbatim>\<open>Nprimary.Run\<close> hands to the builder.\<close>

fun endpoint_map ::
  "parsedEndpoint list \<Rightarrow> (string, string list) gomap \<Rightarrow> (string, string list) gomap" where
  "endpoint_map [] m = m"
| "endpoint_map (ep # eps) m = endpoint_map eps (gomap_set (pe_address ep) (pe_tags ep) m)"

definition endpointSample_Size :: "parsedEndpoint list \<Rightarrow> int" where
  "endpointSample_Size elements = int (length elements)"

definition endpointSample_Get :: "parsedEndpoint list \<Rightarrow> int \<Rightarrow> parsedEndpoint outcome" where
  "endpointSample_Get elements index =
     (if 0 \<le> index \<and> index < int (length elements) then Ok (elements ! nat index)
      else Panic ''index out of range'')"

lemma build_group_eq: "build_group tags addrs eps = eps @ map (\<lambda>a. newParsedEndpoint a tags) addrs"
  by (induction addrs arbitrary: eps) auto

lemma build_groups_eq:
  "build_groups gs eps =
     eps @ concat (map (\<lambda>g. map (\<lambda>a. newParsedEndpoint a (sgc_Tags g)) (sgc_Addresses g)) gs)"
  by (induction gs arbitrary: eps) (auto simp: build_group_eq)

lemma buildParsedSetup_endpoints:
  "ps_endpoints (buildParsedSetup config) =
     concat (map (\<lambda>g. map (\<lambda>a. newParsedEndpoint a (sgc_Tags g)) (sgc_Addresses g)) (sc_Endpoints config))"
  by (simp add: buildParsedSetup_def newParsedSetup_def build_groups_eq)

lemma endpoint_map_get:
  "gomap_get (endpoint_map eps m) a =
     (case find (\<lambda>e. pe_address e = a) (rev eps) of Some e \<Rightarrow> Some (pe_tags e) | None \<Rightarrow> gomap_get m a)"
proof (induction eps arbitrary: m)
  case (Cons e eps)
  have "find P (xs @ [e]) = (case find P xs of Some y \<Rightarrow> Some y | None \<Rightarrow> if P e then Some e else None)"
    for P and xs :: "parsedEndpoint list"
    by (induction xs) auto
  then show ?case by (auto simp: Cons.IH split: option.splits)
qed simp

end
