(* ===== verification/Core_Primary.thy ===== *)
theory Core_Primary
  imports Core_Net Core_Result Core_Setup
begin

text \<open>
  The primary (\<^verbatim>\<open>src/core/nprimary.go\<close>): accepting secondaries and observers, the proxies of the
  secondaries and of their clients that turn the benchmark into messages, the collection of the
  results, and the part of \<^verbatim>\<open>Nprimary.Run\<close> after the benchmark is generated.
\<close>

section \<open>Proxies of secondaries and clients\<close>

record Nprimary =
  np_NumSecondary :: int
  np_NumObserver :: int
  np_SetupPath :: string
  np_BenchmarkPath :: string
  np_ListenPort :: int
  np_MasterSeed :: int
  np_MaxSkew :: f64
  np_MaxDelay :: f64
  np_Env :: "string list"

text \<open>
  A \<^verbatim>\<open>remoteClient\<close> has a pointer to the connection of its secondary: its operations act on the
  \<open>remoteSecondary\<close> that holds both, with the position of the client as an argument.
\<close>

record remoteClient =
  rc_index :: int
  rc_kind :: string
  rc_maxTime :: f64
  rc_kinds :: "string list"
  rc_ikinds :: "(string, int) gomap"

record remoteSecondary =
  rs_conn :: conn
  rs_params :: msgSecondaryParameters
  rs_clients :: "remoteClient list"

definition on_conn :: "(conn, 'a) go \<Rightarrow> (remoteSecondary, 'a) go" where
  "on_conn m = gzoom rs_conn (\<lambda>c rs. rs\<lparr>rs_conn := c\<rparr>) m"

definition remoteSecondary_addr :: "remoteSecondary \<Rightarrow> string" where
  "remoteSecondary_addr rs = secondaryConn_addr (rs_conn rs)"

definition remoteSecondary_tags :: "remoteSecondary \<Rightarrow> string list" where
  "remoteSecondary_tags rs = msp_tags (rs_params rs)"

text \<open>
  The handshake, on an accepted connection. The address of the secondary is added to the tags
  it announced. \<open>it1\<close> and \<open>it2\<close> are the iteration orders of the parameter map.
\<close>

definition newRemoteSecondary ::
  "(string \<times> string) list \<Rightarrow> (string \<times> string) list \<Rightarrow> parsedSetup \<Rightarrow> Nprimary
     \<Rightarrow> (conn, remoteSecondary) go" where
  "newRemoteSecondary it1 it2 setup primary =
     gbind (secondaryConn_init it1 it2
       \<lparr>mpp_sysname = ps_sysname setup, mpp_chainParams = ps_parameters setup,
        mpp_maxDelay = np_MaxDelay primary, mpp_maxSkew = np_MaxSkew primary\<rparr>) (\<lambda>params.
     gread (\<lambda>c. \<lparr>rs_conn = c,
       rs_params = \<lparr>msp_tags = msp_tags params @ [secondaryConn_addr c]\<rparr>, rs_clients = []\<rparr>))"

definition newRemoteClient :: "int \<Rightarrow> string \<Rightarrow> remoteClient" where
  "newRemoteClient index kind =
     \<lparr>rc_index = index, rc_kind = kind, rc_maxTime = f64_zero, rc_kinds = [], rc_ikinds = []\<rparr>"

definition createClient :: "string \<Rightarrow> string list \<Rightarrow> (remoteSecondary, nat) go" where
  "createClient kind view =
     gbind (gread (\<lambda>rs. length (rs_clients rs))) (\<lambda>cid.
     gbind (on_conn (secondaryConn_sendPrepare
       (MsgPrepareClient \<lparr>mpc_view = view, mpc_index = int cid\<rparr>))) (\<lambda>_.
     gbind (gmodify (\<lambda>rs. rs\<lparr>rs_clients := rs_clients rs @ [newRemoteClient (int cid) kind]\<rparr>)) (\<lambda>_.
     gret cid)))"

text \<open>The bookkeeping of \<^verbatim>\<open>sendInteraction\<close>: the latest time and the number of the kind.\<close>

definition note_time :: "f64 \<Rightarrow> remoteClient \<Rightarrow> remoteClient" where
  "note_time time rc = (if f64_lt (rc_maxTime rc) time then rc\<lparr>rc_maxTime := time\<rparr> else rc)"

definition note_kind :: "string \<Rightarrow> remoteClient \<Rightarrow> int \<times> remoteClient" where
  "note_kind kind rc =
     (case gomap_get (rc_ikinds rc) kind of
        Some ikind \<Rightarrow> (ikind, rc)
      | None \<Rightarrow>
          let ikind = int (length (rc_kinds rc)) in
          (ikind, rc\<lparr>rc_kinds := rc_kinds rc @ [kind], rc_ikinds := gomap_set kind ikind (rc_ikinds rc)\<rparr>))"

definition sendInteraction :: "nat \<Rightarrow> string \<Rightarrow> f64 \<Rightarrow> byte list \<Rightarrow> (remoteSecondary, unit) go" where
  "sendInteraction cid kind time encoded = (\<lambda>rs.
     if cid < length (rs_clients rs) then
       let (ikind, rc) = note_kind kind (note_time time (rs_clients rs ! cid)) in
       on_conn (secondaryConn_sendPrepare (MsgPrepareInteraction
           \<lparr>mpi_index = rc_index rc, mpi_ikind = ikind, mpi_time = time, mpi_payload = encoded\<rparr>))
         (rs\<lparr>rs_clients := (rs_clients rs)[cid := rc]\<rparr>)
     else (Panic ''invalid memory address or nil pointer dereference'', rs))"

definition remoteClient_end :: "remoteClient \<Rightarrow> f64" where
  "remoteClient_end rc = rc_maxTime rc"

text \<open>The loop that keeps the largest of the times it sees.\<close>

fun max_time :: "f64 \<Rightarrow> f64 list \<Rightarrow> f64" where
  "max_time acc [] = acc"
| "max_time acc (t # ts) = max_time (if f64_lt acc t then t else acc) ts"

definition remoteSecondary_end :: "remoteSecondary \<Rightarrow> f64" where
  "remoteSecondary_end rs = max_time f64_zero (map remoteClient_end (rs_clients rs))"

definition remoteSecondary_ready :: "(remoteSecondary, unit) go" where
  "remoteSecondary_ready = on_conn secondaryConn_syncReady"

definition remoteSecondary_start :: "f64 \<Rightarrow> (remoteSecondary, unit) go" where
  "remoteSecondary_start duration = on_conn (secondaryConn_sendStart \<lparr>mst_duration = duration\<rparr>)"

definition remoteSecondary_Close :: "(remoteSecondary, unit) go" where
  "remoteSecondary_Close = on_conn secondaryConn_Close"

section \<open>Collecting results\<close>

text \<open>What \<^verbatim>\<open>collect\<close> does with one interaction result.\<close>

definition collect_one ::
  "string \<Rightarrow> remoteClient list \<Rightarrow> msgResultInteraction \<Rightarrow> (SecondaryResult, unit) go" where
  "collect_one addr clients m =
     (if mri_index m \<ge> int (length clients)
      then gerr (Errorf ''invalid client id'' [AInt (mri_index m), AStr addr])
      else if mri_index m < 0 then gpanic ''index out of range''
      else
        let client = clients ! nat (mri_index m) in
        if mri_ikind m \<ge> int (length (rc_kinds client))
        then gerr (Errorf ''invalid interaction ikind'' [AInt (mri_ikind m), AInt (mri_index m), AStr addr])
        else if mri_ikind m < 0 then gpanic ''index out of range''
        else addResult (mri_index m) (rc_kind client) (rc_kinds client ! nat (mri_ikind m))
               (mri_submitTime m) (mri_commitTime m) (mri_abortTime m) (mri_hasError m))"

lemma decodeMsgResult_consumes:
  assumes "decodeMsgResult r = (Ok m, r')"
  shows "length (r_input r') < length (r_input r)"
proof -
  from assms obtain b s where b: "read_u8 r = (Ok b, s)" and
    rest: "(if b = MSG_RESULT_TYPE_DONE then decodeMsgResultDone
       else if b = MSG_RESULT_TYPE_INTERACTION then decodeMsgResultInteraction
       else gerr (Errorf ''unknown result message type'' [AInt (uint b)])) s = (Ok m, r')"
    unfolding decodeMsgResult_def by (rule gbind_OkE)
  have "decoder (if b = MSG_RESULT_TYPE_DONE then decodeMsgResultDone
       else if b = MSG_RESULT_TYPE_INTERACTION then decodeMsgResultInteraction
       else gerr (Errorf ''unknown result message type'' [AInt (uint b)]))"
    unfolding decode_defs by (intro decoder_msg)
  from decoder.dec_consumes [OF this rest] have "length (r_input r') \<le> length (r_input s)"
    by (simp add: suffix_length_le)
  moreover have "length (r_input s) < length (r_input r)"
    using b by (auto simp: read_u8_def read_full_def gbind_def gret_def split: if_splits)
  ultimately show ?thesis by simp
qed

lemma decodeMsgResult_shrinks:
  "Ok m = fst (decodeMsgResult r) \<Longrightarrow> length (r_input (snd (decodeMsgResult r))) < length (r_input r)"
  by (metis decodeMsgResult_consumes prod.collapse)

function collect_loop ::
  "string \<Rightarrow> remoteClient list \<Rightarrow> SecondaryResult \<Rightarrow> conn \<Rightarrow> SecondaryResult outcome \<times> conn" where
  "collect_loop addr clients result c =
     (case secondaryConn_pullResult c of
        (Ok MsgResultDone, c') \<Rightarrow> (Ok result, c')
      | (Ok (MsgResultInteraction m), c') \<Rightarrow>
          (case collect_one addr clients m result of
             (Ok _, result') \<Rightarrow> collect_loop addr clients result' c'
           | (Err e, _) \<Rightarrow> (Err e, c')
           | (Panic p, _) \<Rightarrow> (Panic p, c'))
      | (Err e, c') \<Rightarrow> (Err e, c')
      | (Panic p, c') \<Rightarrow> (Panic p, c'))"
  by pat_completeness auto
termination
  by (relation "measure (\<lambda>(addr, clients, result, c). length (r_input (c_rd c)))")
    (auto simp: secondaryConn_pullResult_def on_reader_run prod_eq_iff
      intro: decodeMsgResult_shrinks)

declare collect_loop.simps [simp del]

definition collect :: "(remoteSecondary, SecondaryResult) go" where
  "collect = (\<lambda>rs.
     on_conn (collect_loop (remoteSecondary_addr rs) (rs_clients rs)
       (newSecondaryResult (remoteSecondary_addr rs) (msp_tags (rs_params rs)))) rs)"

section \<open>Accepting connections\<close>

text \<open>
  \<open>accept i\<close> is what the \<open>i\<close>-th call of \<^verbatim>\<open>listener.Accept\<close> returns. The functions return, beside
  their result, the connections they give up when they fail, so that closing them can be stated.
\<close>

fun acceptSecondaries_loop ::
  "(nat \<Rightarrow> conn outcome) \<Rightarrow> (nat \<Rightarrow> (string \<times> string) list \<times> (string \<times> string) list) \<Rightarrow> parsedSetup
     \<Rightarrow> Nprimary \<Rightarrow> nat \<Rightarrow> nat \<Rightarrow> remoteSecondary list \<Rightarrow> remoteSecondary list outcome \<times> conn list" where
  "acceptSecondaries_loop accept its setup primary 0 i ret = (Ok ret, [])"
| "acceptSecondaries_loop accept its setup primary (Suc n) i ret =
     (let given_up = map (\<lambda>rs. rs_conn (snd (remoteSecondary_Close rs))) ret in
      case accept i of
        Err e \<Rightarrow> (Err e, given_up)
      | Panic p \<Rightarrow> (Panic p, given_up)
      | Ok net \<Rightarrow>
          (case newRemoteSecondary (fst (its i)) (snd (its i)) setup primary net of
             (Ok rs, _) \<Rightarrow> acceptSecondaries_loop accept its setup primary n (Suc i) (ret @ [rs])
           | (Err e, c) \<Rightarrow> (Err e, given_up @ [snd (conn_Close c)])
           | (Panic p, c) \<Rightarrow> (Panic p, given_up)))"

definition acceptSecondaries ::
  "unit outcome \<Rightarrow> (nat \<Rightarrow> conn outcome) \<Rightarrow> (nat \<Rightarrow> (string \<times> string) list \<times> (string \<times> string) list)
     \<Rightarrow> parsedSetup \<Rightarrow> Nprimary \<Rightarrow> remoteSecondary list outcome \<times> conn list" where
  "acceptSecondaries listen accept its setup primary =
     (if np_NumSecondary primary < 0 then (Panic ''makeslice: len out of range'', [])
      else case listen of
          Err e \<Rightarrow> (Err e, [])
        | Panic p \<Rightarrow> (Panic p, [])
        | Ok _ \<Rightarrow> acceptSecondaries_loop accept its setup primary (nat (np_NumSecondary primary)) 0 [])"

record remoteObserver =
  ro_conn :: conn

definition newRemoteObserver :: "conn \<Rightarrow> remoteObserver" where
  "newRemoteObserver net = \<lparr>ro_conn = net\<rparr>"

definition remoteObserver_start :: "f64 \<Rightarrow> (remoteObserver, unit) go" where
  "remoteObserver_start duration =
     gzoom ro_conn (\<lambda>c ro. ro\<lparr>ro_conn := c\<rparr>) (observerConn_sendStart \<lparr>mst_duration = duration\<rparr>)"

definition remoteObserver_addr :: "remoteObserver \<Rightarrow> string" where
  "remoteObserver_addr ro = observerConn_addr (ro_conn ro)"

definition remoteObserver_Close :: "(remoteObserver, unit) go" where
  "remoteObserver_Close = gzoom ro_conn (\<lambda>c ro. ro\<lparr>ro_conn := c\<rparr>) observerConn_Close"

fun acceptObservers_loop ::
  "(nat \<Rightarrow> conn outcome) \<Rightarrow> nat \<Rightarrow> nat \<Rightarrow> remoteObserver list \<Rightarrow> remoteObserver list outcome \<times> conn list" where
  "acceptObservers_loop accept 0 i ret = (Ok ret, [])"
| "acceptObservers_loop accept (Suc n) i ret =
     (let given_up = map (\<lambda>ro. ro_conn (snd (remoteObserver_Close ro))) ret in
      case accept i of
        Err e \<Rightarrow> (Err e, given_up)
      | Panic p \<Rightarrow> (Panic p, given_up)
      | Ok net \<Rightarrow> acceptObservers_loop accept n (Suc i) (ret @ [newRemoteObserver net]))"

definition acceptObservers ::
  "unit outcome \<Rightarrow> (nat \<Rightarrow> conn outcome) \<Rightarrow> Nprimary \<Rightarrow> remoteObserver list outcome \<times> conn list" where
  "acceptObservers listen accept primary =
     (if np_NumObserver primary < 0 then (Panic ''makeslice: len out of range'', [])
      else case listen of
          Err e \<Rightarrow> (Err e, [])
        | Panic p \<Rightarrow> (Panic p, [])
        | Ok _ \<Rightarrow> acceptObservers_loop accept (nat (np_NumObserver primary)) 0 [])"

section \<open>Running the benchmark\<close>

text \<open>A loop that calls a method of each element and drops the errors, as \<^verbatim>\<open>Run\<close> does.\<close>

fun each_ignore :: "('s, 'a) go \<Rightarrow> ('s list, unit) go" where
  "each_ignore m [] = (Ok (), [])"
| "each_ignore m (s # ss) =
     (case m s of
        (Panic p, s') \<Rightarrow> (Panic p, s' # ss)
      | (_, s') \<Rightarrow> (case each_ignore m ss of (r, ss') \<Rightarrow> (r, s' # ss')))"

text \<open>Collecting from each secondary in turn; the first error ends the run.\<close>

fun collect_all :: "Result \<Rightarrow> remoteSecondary list \<Rightarrow> Result outcome \<times> remoteSecondary list" where
  "collect_all result [] = (Ok result, [])"
| "collect_all result (rs # rss) =
     (case collect rs of
        (Err e, rs') \<Rightarrow> (Err e, rs' # rss)
      | (Panic p, rs') \<Rightarrow> (Panic p, rs' # rss)
      | (Ok sresult, rs') \<Rightarrow>
          (case collect_all (addSecondary sresult result) rss of
             (r, rss') \<Rightarrow> (r, snd (remoteSecondary_Close rs') # rss')))"

definition benchmark_duration :: "remoteSecondary list \<Rightarrow> f64" where
  "benchmark_duration secondaries = max_time f64_zero (map remoteSecondary_end secondaries)"

text \<open>\<^verbatim>\<open>Nprimary.Run\<close> after the benchmark was parsed: synchronise, start, collect, close.\<close>

definition Nprimary_Run_end ::
  "Nprimary \<Rightarrow> (remoteSecondary list \<times> remoteObserver list, Result) go" where
  "Nprimary_Run_end primary =
     gbind (gread (\<lambda>(secondaries, _). benchmark_duration secondaries)) (\<lambda>duration.
     gbind (gzoom fst (\<lambda>s (_, obs). (s, obs)) (each_ignore remoteSecondary_ready)) (\<lambda>_.
     gbind (gzoom fst (\<lambda>s (_, obs). (s, obs)) (each_ignore (remoteSecondary_start duration))) (\<lambda>_.
     gbind (gzoom snd (\<lambda>obs (s, _). (s, obs)) (each_ignore (remoteObserver_start duration))) (\<lambda>_.
     gbind (gzoom fst (\<lambda>s (_, obs). (s, obs)) (collect_all (newResult (np_MasterSeed primary)))) (\<lambda>result.
     gbind (gzoom snd (\<lambda>obs (s, _). (s, obs)) (each_ignore remoteObserver_Close)) (\<lambda>_.
     gret result))))))"

section \<open>What the primary sends\<close>

text \<open>
  Generating a benchmark is a sequence of calls of \<^verbatim>\<open>createClient\<close> and \<^verbatim>\<open>sendInteraction\<close> on a
  secondary. \<open>op_msgs\<close> is the specification of the messages this sends: clients are numbered in
  the order of their creation and the kinds of a client in the order of their first use.
\<close>

datatype prep_op =
    OpClient string "string list"
  | OpInteraction nat string f64 "byte list"

fun exec_op :: "prep_op \<Rightarrow> (remoteSecondary, unit) go" where
  "exec_op (OpClient kind view) = gbind (createClient kind view) (\<lambda>_. gret ())"
| "exec_op (OpInteraction cid kind time payload) = sendInteraction cid kind time payload"

definition add_kind :: "string \<Rightarrow> string list \<Rightarrow> string list" where
  "add_kind k ks = (if k \<in> set ks then ks else ks @ [k])"

definition kind_number :: "string \<Rightarrow> string list \<Rightarrow> nat" where
  "kind_number k ks = length (takeWhile (\<lambda>x. x \<noteq> k) ks)"

fun op_msg :: "string list list \<Rightarrow> prep_op \<Rightarrow> msgPrepare" where
  "op_msg kss (OpClient kind view) = MsgPrepareClient \<lparr>mpc_view = view, mpc_index = int (length kss)\<rparr>"
| "op_msg kss (OpInteraction cid kind time payload) =
     MsgPrepareInteraction \<lparr>mpi_index = int cid, mpi_ikind = int (kind_number kind (add_kind kind (kss ! cid))),
       mpi_time = time, mpi_payload = payload\<rparr>"

fun op_kinds :: "prep_op \<Rightarrow> string list list \<Rightarrow> string list list" where
  "op_kinds (OpClient kind view) kss = kss @ [[]]"
| "op_kinds (OpInteraction cid kind time payload) kss = kss[cid := add_kind kind (kss ! cid)]"

fun op_msgs :: "string list list \<Rightarrow> prep_op list \<Rightarrow> msgPrepare list" where
  "op_msgs kss [] = []"
| "op_msgs kss (op # ops) = op_msg kss op # op_msgs (op_kinds op kss) ops"

text \<open>An operation names an existing client and its message fits the format.\<close>

fun op_ok :: "string list list \<Rightarrow> prep_op \<Rightarrow> bool" where
  "op_ok kss (OpClient kind view) \<longleftrightarrow> prepare_fits (op_msg kss (OpClient kind view))"
| "op_ok kss (OpInteraction cid kind time payload) \<longleftrightarrow>
     cid < length kss \<and> prepare_fits (op_msg kss (OpInteraction cid kind time payload))"

fun ops_ok :: "string list list \<Rightarrow> prep_op list \<Rightarrow> bool" where
  "ops_ok kss [] \<longleftrightarrow> True"
| "ops_ok kss (op # ops) \<longleftrightarrow> op_ok kss op \<and> ops_ok (op_kinds op kss) ops"

text \<open>Client \<open>i\<close> is at position \<open>i\<close>, and its two tables of kinds agree.\<close>

definition client_inv :: "nat \<Rightarrow> remoteClient \<Rightarrow> bool" where
  "client_inv i rc \<longleftrightarrow> rc_index rc = int i \<and> distinct (rc_kinds rc) \<and> \<not> f64_isnan (rc_maxTime rc) \<and>
     (\<forall>k n. gomap_get (rc_ikinds rc) k = Some n \<longleftrightarrow>
        0 \<le> n \<and> n < int (length (rc_kinds rc)) \<and> rc_kinds rc ! nat n = k)"

definition remote_inv :: "remoteSecondary \<Rightarrow> bool" where
  "remote_inv rs \<longleftrightarrow> (\<forall>i < length (rs_clients rs). client_inv i (rs_clients rs ! i))"

definition kinds_of :: "remoteSecondary \<Rightarrow> string list list" where
  "kinds_of rs = map rc_kinds (rs_clients rs)"

lemma kind_number_nth: "distinct ks \<Longrightarrow> n < length ks \<Longrightarrow> ks ! n = k \<Longrightarrow> kind_number k ks = n"
proof -
  assume *: "distinct ks" "n < length ks" "ks ! n = k"
  then have "takeWhile (\<lambda>x. x \<noteq> k) ks = take n ks"
    by (intro takeWhile_eq_take_P_nth) (auto simp: nth_eq_iff_index_eq)
  with * show ?thesis by (simp add: kind_number_def)
qed

lemma kind_number_less: "k \<in> set ks \<Longrightarrow> kind_number k ks < length ks \<and> ks ! kind_number k ks = k"
  unfolding kind_number_def by (induction ks) auto

lemma add_kind_member [simp]: "k \<in> set (add_kind k ks)"
  by (simp add: add_kind_def)

lemma add_kind_prefix: "prefix ks (add_kind k ks)"
  by (simp add: add_kind_def)

lemma add_kind_distinct: "distinct ks \<Longrightarrow> distinct (add_kind k ks)"
  by (simp add: add_kind_def)

lemma note_time_simps [simp]:
  "rc_index (note_time t rc) = rc_index rc" "rc_kind (note_time t rc) = rc_kind rc"
  "rc_kinds (note_time t rc) = rc_kinds rc" "rc_ikinds (note_time t rc) = rc_ikinds rc"
  by (simp_all add: note_time_def)

lemma note_time_inv: "client_inv i rc \<Longrightarrow> client_inv i (note_time t rc)"
  by (auto simp: client_inv_def note_time_def f64_lt_def)

lemma note_kind_spec:
  assumes "client_inv i rc"
  obtains rc' where "note_kind k rc = (int (kind_number k (rc_kinds rc')), rc')" and "client_inv i rc'"
    and "rc_kinds rc' = add_kind k (rc_kinds rc)" and "rc_maxTime rc' = rc_maxTime rc"
    and "rc_kind rc' = rc_kind rc"
proof (cases "gomap_get (rc_ikinds rc) k")
  case (Some n)
  with assms have n: "0 \<le> n" "nat n < length (rc_kinds rc)" "rc_kinds rc ! nat n = k" "distinct (rc_kinds rc)"
    by (auto simp: client_inv_def)
  then have "k \<in> set (rc_kinds rc)" by (metis nth_mem)
  moreover have "kind_number k (rc_kinds rc) = nat n" using n by (intro kind_number_nth) auto
  ultimately show thesis
    using Some n assms by (intro that [of rc]) (auto simp: note_kind_def add_kind_def)
next
  case None
  let ?n = "length (rc_kinds rc)"
  let ?rc = "rc\<lparr>rc_kinds := rc_kinds rc @ [k], rc_ikinds := gomap_set k (int ?n) (rc_ikinds rc)\<rparr>"
  from assms None have new: "k \<notin> set (rc_kinds rc)"
    by (auto simp: client_inv_def in_set_conv_nth) (metis nat_int of_nat_0_le_iff of_nat_less_iff option.distinct(1))
  have "client_inv i ?rc"
    using assms new by (auto simp: client_inv_def nth_append)
  moreover have "kind_number k (rc_kinds ?rc) = ?n"
    using new assms by (intro kind_number_nth) (auto simp: client_inv_def)
  ultimately show thesis
    using None new by (intro that [of ?rc]) (auto simp: note_kind_def add_kind_def Let_def)
qed

lemma on_conn_run: "m (rs_conn rs) = (r, c) \<Longrightarrow> on_conn m rs = (r, rs\<lparr>rs_conn := c\<rparr>)"
  by (simp add: on_conn_def gzoom_def)

lemma remote_inv_append:
  "remote_inv rs \<Longrightarrow> client_inv (length (rs_clients rs)) rc \<Longrightarrow>
   remote_inv (rs\<lparr>rs_conn := c, rs_clients := rs_clients rs @ [rc]\<rparr>)"
  by (auto simp: remote_inv_def nth_append less_Suc_eq)

lemma remote_inv_update:
  "remote_inv rs \<Longrightarrow> client_inv cid rc \<Longrightarrow> remote_inv (rs\<lparr>rs_conn := c, rs_clients := (rs_clients rs)[cid := rc]\<rparr>)"
  by (simp add: remote_inv_def) (metis nth_list_update_eq nth_list_update_neq)

text \<open>
  What holds of a secondary's proxy after the messages \<open>msgs\<close> were sent: the connection still
  works and its bytes are the old ones followed by those of the messages.
\<close>

definition sent_from :: "remoteSecondary \<Rightarrow> msgPrepare list \<Rightarrow> remoteSecondary \<Rightarrow> bool" where
  "sent_from rs msgs rs' \<longleftrightarrow> conn_good (rs_conn rs') \<and>
     conn_written (rs_conn rs') = conn_written (rs_conn rs) @ concat (map wire_prepare msgs) \<and>
     c_rd (rs_conn rs') = c_rd (rs_conn rs) \<and> c_addr (rs_conn rs') = c_addr (rs_conn rs) \<and>
     rs_params rs' = rs_params rs"

lemma createClient_spec:
  assumes "remote_inv rs" and "conn_good (rs_conn rs)" and "op_ok (kinds_of rs) (OpClient kind view)"
  obtains rs' where "createClient kind view rs = (Ok (length (rs_clients rs)), rs')" and "remote_inv rs'"
    and "rs_clients rs' = rs_clients rs @ [newRemoteClient (int (length (rs_clients rs))) kind]"
    and "sent_from rs [op_msg (kinds_of rs) (OpClient kind view)] rs'"
proof -
  let ?n = "length (rs_clients rs)"
  have len: "length (kinds_of rs) = ?n" by (simp add: kinds_of_def)
  let ?m = "MsgPrepareClient \<lparr>mpc_view = view, mpc_index = int ?n\<rparr>"
  have "prepare_fits ?m" using assms(3) by (simp add: len)
  then obtain c where c: "secondaryConn_sendPrepare ?m (rs_conn rs) = (Ok (), c)" "conn_good c"
    "conn_written c = conn_written (rs_conn rs) @ wire_prepare ?m"
    "c_rd c = c_rd (rs_conn rs)" "c_addr c = c_addr (rs_conn rs)"
    using sendPrepare_good [OF assms(2)] by metis
  let ?rs = "rs\<lparr>rs_conn := c, rs_clients := rs_clients rs @ [newRemoteClient (int ?n) kind]\<rparr>"
  have run: "createClient kind view rs = (Ok ?n, ?rs)"
    using on_conn_run [of "secondaryConn_sendPrepare ?m" rs "Ok ()" c] c(1)
    by (simp add: createClient_def gbind_def gread_def gmodify_def gret_def)
  have "client_inv ?n (newRemoteClient (int ?n) kind)"
    by (simp add: client_inv_def newRemoteClient_def)
  with assms(1) have "remote_inv ?rs" by (rule remote_inv_append)
  then show thesis
    using run c by (intro that [of ?rs]) (auto simp: sent_from_def len)
qed

lemma sendInteraction_spec:
  assumes "remote_inv rs" and "conn_good (rs_conn rs)"
    and "op_ok (kinds_of rs) (OpInteraction cid kind time payload)"
  obtains rs' rc where "sendInteraction cid kind time payload rs = (Ok (), rs')" and "remote_inv rs'"
    and "rs_clients rs' = (rs_clients rs)[cid := rc]"
    and "rc_kinds rc = add_kind kind (rc_kinds (rs_clients rs ! cid))"
    and "rc_maxTime rc = rc_maxTime (note_time time (rs_clients rs ! cid))"
    and "rc_kind rc = rc_kind (rs_clients rs ! cid)"
    and "sent_from rs [op_msg (kinds_of rs) (OpInteraction cid kind time payload)] rs'"
proof -
  have cid: "cid < length (rs_clients rs)" using assms(3) by (simp add: kinds_of_def)
  with assms(1) have "client_inv cid (note_time time (rs_clients rs ! cid))"
    by (simp add: remote_inv_def note_time_inv)
  from note_kind_spec [OF this, of kind] obtain rc where
    rc: "note_kind kind (note_time time (rs_clients rs ! cid)) = (int (kind_number kind (rc_kinds rc)), rc)"
      "client_inv cid rc" "rc_kinds rc = add_kind kind (rc_kinds (rs_clients rs ! cid))"
      "rc_maxTime rc = rc_maxTime (note_time time (rs_clients rs ! cid))"
      "rc_kind rc = rc_kind (rs_clients rs ! cid)"
    by auto
  let ?m = "op_msg (kinds_of rs) (OpInteraction cid kind time payload)"
  have m: "?m = MsgPrepareInteraction \<lparr>mpi_index = rc_index rc, mpi_ikind = int (kind_number kind (rc_kinds rc)),
      mpi_time = time, mpi_payload = payload\<rparr>"
    using rc cid by (simp add: kinds_of_def client_inv_def)
  have "prepare_fits ?m" using assms(3) by simp
  then obtain c where c: "secondaryConn_sendPrepare ?m (rs_conn rs) = (Ok (), c)" "conn_good c"
    "conn_written c = conn_written (rs_conn rs) @ wire_prepare ?m"
    "c_rd c = c_rd (rs_conn rs)" "c_addr c = c_addr (rs_conn rs)"
    using sendPrepare_good [OF assms(2)] by metis
  let ?rs = "rs\<lparr>rs_conn := c, rs_clients := (rs_clients rs)[cid := rc]\<rparr>"
  have "on_conn (secondaryConn_sendPrepare ?m) (rs\<lparr>rs_clients := (rs_clients rs)[cid := rc]\<rparr>) = (Ok (), ?rs)"
    using on_conn_run [of "secondaryConn_sendPrepare ?m" "rs\<lparr>rs_clients := (rs_clients rs)[cid := rc]\<rparr>" "Ok ()" c] c(1)
    by simp
  then have run: "sendInteraction cid kind time payload rs = (Ok (), ?rs)"
    using rc(1) cid by (simp add: sendInteraction_def m del: op_msg.simps)
  have inv: "remote_inv ?rs" using assms(1) rc(2) by (rule remote_inv_update)
  show thesis
    using c rc run inv by (intro that [of ?rs rc]) (auto simp: sent_from_def simp del: op_msg.simps wire_prepare.simps)
qed

lemma sent_from_refl: "conn_good (rs_conn rs) \<Longrightarrow> sent_from rs [] rs"
  by (simp add: sent_from_def)

lemma sent_from_trans: "sent_from rs ms rs1 \<Longrightarrow> sent_from rs1 ms' rs2 \<Longrightarrow> sent_from rs (ms @ ms') rs2"
  by (auto simp: sent_from_def)

text \<open>The latest of the times that were scheduled is remembered.\<close>

definition covers :: "remoteSecondary \<Rightarrow> f64 \<Rightarrow> bool" where
  "covers rs t \<longleftrightarrow> (\<exists>rc \<in> set (rs_clients rs). f64_le t (rc_maxTime rc))"

fun op_time :: "prep_op \<Rightarrow> f64 option" where
  "op_time (OpClient kind view) = None"
| "op_time (OpInteraction cid kind time payload) = Some time"

text \<open>Every operation of the benchmark generator behaves as specified.\<close>

lemma exec_op_spec:
  assumes "remote_inv rs" and "conn_good (rs_conn rs)" and "op_ok (kinds_of rs) op"
  obtains rs' where "exec_op op rs = (Ok (), rs')" and "remote_inv rs'"
    and "kinds_of rs' = op_kinds op (kinds_of rs)" and "sent_from rs [op_msg (kinds_of rs) op] rs'"
    and "\<And>t. covers rs t \<Longrightarrow> covers rs' t"
    and "\<And>t. op_time op = Some t \<Longrightarrow> \<not> f64_isnan t \<Longrightarrow> covers rs' t"
proof (cases op)
  case (OpClient kind view)
  obtain rs' where *: "createClient kind view rs = (Ok (length (rs_clients rs)), rs')" "remote_inv rs'"
    "rs_clients rs' = rs_clients rs @ [newRemoteClient (int (length (rs_clients rs))) kind]"
    "sent_from rs [op_msg (kinds_of rs) (OpClient kind view)] rs'"
    using createClient_spec [OF assms(1,2)] assms(3) OpClient by metis
  show thesis
    using * OpClient
    by (intro that [of rs']) (auto simp: gbind_Ok gret_run kinds_of_def newRemoteClient_def covers_def)
next
  case (OpInteraction cid kind time payload)
  obtain rs' rc where *: "sendInteraction cid kind time payload rs = (Ok (), rs')" "remote_inv rs'"
    "rs_clients rs' = (rs_clients rs)[cid := rc]"
    "rc_kinds rc = add_kind kind (rc_kinds (rs_clients rs ! cid))"
    "rc_maxTime rc = rc_maxTime (note_time time (rs_clients rs ! cid))"
    "sent_from rs [op_msg (kinds_of rs) (OpInteraction cid kind time payload)] rs'"
    using sendInteraction_spec [OF assms(1,2)] assms(3) OpInteraction by metis
  have cid: "cid < length (rs_clients rs)" using assms(3) OpInteraction by (simp add: kinds_of_def)
  have nan: "\<not> f64_isnan (rc_maxTime (rs_clients rs ! cid))"
    using assms(1) cid by (simp add: remote_inv_def client_inv_def)
  have up: "f64_le (rc_maxTime (rs_clients rs ! cid)) (rc_maxTime rc)"
    using nan by (simp add: *(5) note_time_def f64_lt_imp_le)
  have new: "f64_le time (rc_maxTime rc)" if "\<not> f64_isnan time"
    using nan that by (auto simp: *(5) note_time_def f64_lt_def f64_le_def)
  have mem: "rc \<in> set (rs_clients rs')" using *(3) cid by (simp add: set_update_memI)
  have "covers rs' t" if "covers rs t" for t
  proof -
    from that obtain i where i: "i < length (rs_clients rs)" "f64_le t (rc_maxTime (rs_clients rs ! i))"
      by (auto simp: covers_def in_set_conv_nth)
    show ?thesis
    proof (cases "i = cid")
      case True
      with i up mem show ?thesis by (auto simp: covers_def intro: f64_le_trans)
    next
      case False
      with i *(3) have "rs_clients rs' ! i = rs_clients rs ! i" "i < length (rs_clients rs')" by auto
      with i show ?thesis unfolding covers_def by (metis nth_mem)
    qed
  qed
  moreover have "covers rs' time" if "\<not> f64_isnan time"
    using new [OF that] mem by (auto simp: covers_def)
  ultimately show thesis
    using * OpInteraction cid by (intro that [of rs']) (auto simp: kinds_of_def map_update)
qed

lemma exec_ops_spec:
  assumes "remote_inv rs" and "conn_good (rs_conn rs)" and "ops_ok (kinds_of rs) ops"
  obtains rs' where "gfor ops exec_op rs = (Ok (), rs')" and "remote_inv rs'"
    and "kinds_of rs' = fold op_kinds ops (kinds_of rs)" and "sent_from rs (op_msgs (kinds_of rs) ops) rs'"
    and "\<And>t. covers rs t \<Longrightarrow> covers rs' t"
    and "\<And>op t. op \<in> set ops \<Longrightarrow> op_time op = Some t \<Longrightarrow> \<not> f64_isnan t \<Longrightarrow> covers rs' t"
  using assms
proof (induction ops arbitrary: rs thesis)
  case Nil
  then show ?case by (intro Nil(1) [of rs]) (auto simp: gret_run sent_from_refl)
next
  case (Cons op ops)
  have ok: "op_ok (kinds_of rs) op" "ops_ok (op_kinds op (kinds_of rs)) ops" using Cons.prems(4) by simp_all
  obtain rs1 where rs1: "exec_op op rs = (Ok (), rs1)" "remote_inv rs1"
    "kinds_of rs1 = op_kinds op (kinds_of rs)" "sent_from rs [op_msg (kinds_of rs) op] rs1"
    "\<And>t. covers rs t \<Longrightarrow> covers rs1 t"
    "\<And>t. op_time op = Some t \<Longrightarrow> \<not> f64_isnan t \<Longrightarrow> covers rs1 t"
    using exec_op_spec [OF Cons.prems(2,3) ok(1)] by metis
  have good: "conn_good (rs_conn rs1)" using rs1(4) by (simp add: sent_from_def)
  obtain rs2 where rs2: "gfor ops exec_op rs1 = (Ok (), rs2)" "remote_inv rs2"
    "kinds_of rs2 = fold op_kinds ops (kinds_of rs1)" "sent_from rs1 (op_msgs (kinds_of rs1) ops) rs2"
    "\<And>t. covers rs1 t \<Longrightarrow> covers rs2 t"
    "\<And>op t. op \<in> set ops \<Longrightarrow> op_time op = Some t \<Longrightarrow> \<not> f64_isnan t \<Longrightarrow> covers rs2 t"
    using Cons.IH [OF _ rs1(2) good ok(2) [folded rs1(3)]] by metis
  show ?case
    using rs1 rs2 sent_from_trans [OF rs1(4) rs2(4)]
    by (intro Cons.prems(1) [of rs2]) (auto simp: gbind_Ok)
qed

text \<open>Kind tables only grow: a number that was sent stays the number of its kind.\<close>

lemma op_kinds_prefix:
  "length kss \<le> length (op_kinds op kss) \<and> (i < length kss \<longrightarrow> prefix (kss ! i) (op_kinds op kss ! i))"
proof (cases op)
  case (OpInteraction cid kind time payload)
  then show ?thesis by (cases "cid = i") (auto simp: add_kind_prefix)
qed (simp add: nth_append)

lemma fold_op_kinds_prefix:
  "length kss \<le> length (fold op_kinds ops kss) \<and>
   (i < length kss \<longrightarrow> prefix (kss ! i) (fold op_kinds ops kss ! i))"
proof (induction ops arbitrary: kss)
  case (Cons op ops)
  have a: "length kss \<le> length (op_kinds op kss)" "i < length kss \<longrightarrow> prefix (kss ! i) (op_kinds op kss ! i)"
    using op_kinds_prefix [of kss op i] by blast+
  have b: "length (op_kinds op kss) \<le> length (fold op_kinds ops (op_kinds op kss))"
    "i < length (op_kinds op kss) \<longrightarrow> prefix (op_kinds op kss ! i) (fold op_kinds ops (op_kinds op kss) ! i)"
    using Cons.IH [of "op_kinds op kss"] by blast+
  from a b show ?case by (auto intro: prefix_order.trans)
qed simp

text \<open>The duration of the benchmark: no scheduled time is later.\<close>

lemma max_time_upper:
  assumes "\<not> f64_isnan acc" and "\<And>t. t \<in> set ts \<Longrightarrow> \<not> f64_isnan t"
  shows "\<not> f64_isnan (max_time acc ts) \<and> f64_le acc (max_time acc ts) \<and>
    (\<forall>t \<in> set ts. f64_le t (max_time acc ts))"
  using assms
proof (induction ts arbitrary: acc)
  case Nil
  then show ?case by (simp add: f64_le_def)
next
  case (Cons t ts)
  let ?a = "if f64_lt acc t then t else acc"
  have a: "\<not> f64_isnan ?a" "f64_le acc ?a" "f64_le t ?a"
    using Cons.prems by (auto simp: f64_le_def f64_lt_def)
  have "\<not> f64_isnan (max_time ?a ts) \<and> f64_le ?a (max_time ?a ts) \<and> (\<forall>t \<in> set ts. f64_le t (max_time ?a ts))"
    using Cons.IH [OF a(1)] Cons.prems(2) by (meson list.set_intros(2))
  with a show ?case by (auto intro: f64_le_trans)
qed

lemma remoteSecondary_end_upper:
  assumes "remote_inv rs"
  shows "\<not> f64_isnan (remoteSecondary_end rs) \<and> (\<forall>t. covers rs t \<longrightarrow> f64_le t (remoteSecondary_end rs))"
proof -
  have "\<not> f64_isnan t" if "t \<in> set (map remoteClient_end (rs_clients rs))" for t
    using that assms by (auto simp: remote_inv_def client_inv_def remoteClient_end_def in_set_conv_nth)
  then show ?thesis
    using max_time_upper [of f64_zero "map remoteClient_end (rs_clients rs)"]
    by (auto simp: remoteSecondary_end_def covers_def remoteClient_end_def intro: f64_le_trans)
qed

section \<open>What the primary collects\<close>

text \<open>A result message for a client and a kind the primary has sent.\<close>

definition known_result :: "remoteClient list \<Rightarrow> msgResultInteraction \<Rightarrow> bool" where
  "known_result clients m \<longleftrightarrow> 0 \<le> mri_index m \<and> mri_index m < int (length clients) \<and>
     0 \<le> mri_ikind m \<and> mri_ikind m < int (length (rc_kinds (clients ! nat (mri_index m))))"

definition interaction_of :: "remoteClient list \<Rightarrow> msgResultInteraction \<Rightarrow> InteractionResult" where
  "interaction_of clients m =
     \<lparr>ir_Kind = rc_kinds (clients ! nat (mri_index m)) ! nat (mri_ikind m),
      ir_SubmitTime = mri_submitTime m, ir_CommitTime = mri_commitTime m,
      ir_AbortTime = mri_abortTime m, ir_HasError = mri_hasError m\<rparr>"

definition result_stream :: "msgResultInteraction list \<Rightarrow> byte list" where
  "result_stream ms = concat (map (\<lambda>m. wire_result (MsgResultInteraction m)) ms)"

lemma collect_one_known:
  assumes "known_result clients m" and "result_inv res"
  obtains res' where "collect_one addr clients m res = (Ok (), res')" and "result_inv res'"
    and "result_of res' = (result_of res)(mri_index m := result_of res (mri_index m) @ [interaction_of clients m])"
    and "sr_Address res' = sr_Address res" and "sr_Tags res' = sr_Tags res"
proof -
  let ?client = "clients ! nat (mri_index m)"
  obtain res' where *: "addResult (mri_index m) (rc_kind ?client) (rc_kinds ?client ! nat (mri_ikind m))
       (mri_submitTime m) (mri_commitTime m) (mri_abortTime m) (mri_hasError m) res = (Ok (), res')"
    "result_inv res'"
    "result_of res' = (result_of res)(mri_index m := result_of res (mri_index m) @ [interaction_of clients m])"
    "sr_Address res' = sr_Address res" "sr_Tags res' = sr_Tags res"
    using addResult_spec [OF assms(2)] unfolding interaction_of_def by metis
  then show thesis
    using assms(1) by (intro that [of res']) (auto simp: collect_one_def known_result_def Let_def)
qed

lemma pullResult_wire:
  assumes "result_valid m" and "r_input (c_rd c) = wire_result m @ rest"
  shows "secondaryConn_pullResult c = (Ok m, c\<lparr>c_rd := (c_rd c)\<lparr>r_input := rest\<rparr>\<rparr>)"
  unfolding secondaryConn_pullResult_def
  by (rule on_reader_codec [OF result_codec.codec_axioms assms])

lemma collect_loop_known:
  assumes "known_result clients m" and "result_valid (MsgResultInteraction m)" and "result_inv res"
    and "r_input (c_rd c) = wire_result (MsgResultInteraction m) @ rest"
  obtains res' where
    "collect_loop addr clients res c = collect_loop addr clients res' (c\<lparr>c_rd := (c_rd c)\<lparr>r_input := rest\<rparr>\<rparr>)"
    and "result_inv res'"
    and "result_of res' = (result_of res)(mri_index m := result_of res (mri_index m) @ [interaction_of clients m])"
    and "sr_Address res' = sr_Address res" and "sr_Tags res' = sr_Tags res"
proof -
  obtain res' where *: "collect_one addr clients m res = (Ok (), res')" "result_inv res'"
    "result_of res' = (result_of res)(mri_index m := result_of res (mri_index m) @ [interaction_of clients m])"
    "sr_Address res' = sr_Address res" "sr_Tags res' = sr_Tags res"
    using collect_one_known [OF assms(1,3)] by metis
  then show thesis
    using pullResult_wire [OF assms(2,4)]
    by (intro that [of res']) (simp_all add: collect_loop.simps [of addr clients res c])
qed

lemma collect_loop_stream:
  assumes "list_all (\<lambda>m. known_result clients m \<and> result_valid (MsgResultInteraction m)) ms"
    and "result_inv res" and "r_input (c_rd c) = result_stream ms @ tail"
  obtains res' where
    "collect_loop addr clients res c = collect_loop addr clients res' (c\<lparr>c_rd := (c_rd c)\<lparr>r_input := tail\<rparr>\<rparr>)"
    and "result_inv res'"
    and "\<And>cid. result_of res' cid =
      result_of res cid @ map (interaction_of clients) (filter (\<lambda>m. mri_index m = cid) ms)"
    and "sr_Address res' = sr_Address res" and "sr_Tags res' = sr_Tags res"
  using assms
proof (induction ms arbitrary: res c thesis)
  case Nil
  then have "c\<lparr>c_rd := (c_rd c)\<lparr>r_input := tail\<rparr>\<rparr> = c" by (simp add: result_stream_def)
  with Nil show ?case by (intro Nil(1) [of res]) auto
next
  case (Cons m ms)
  have m: "known_result clients m" "result_valid (MsgResultInteraction m)"
    and ms: "list_all (\<lambda>m. known_result clients m \<and> result_valid (MsgResultInteraction m)) ms"
    using Cons.prems(2) by simp_all
  let ?c = "c\<lparr>c_rd := (c_rd c)\<lparr>r_input := result_stream ms @ tail\<rparr>\<rparr>"
  obtain r1 where r1: "collect_loop addr clients res c = collect_loop addr clients r1 ?c" "result_inv r1"
    "result_of r1 = (result_of res)(mri_index m := result_of res (mri_index m) @ [interaction_of clients m])"
    "sr_Address r1 = sr_Address res" "sr_Tags r1 = sr_Tags res"
    using collect_loop_known [OF m Cons.prems(3), of c "result_stream ms @ tail" addr] Cons.prems(4)
    by (auto simp: result_stream_def simp del: wire_result.simps)
  obtain r2 where r2: "collect_loop addr clients r1 ?c =
      collect_loop addr clients r2 (c\<lparr>c_rd := (c_rd c)\<lparr>r_input := tail\<rparr>\<rparr>)" "result_inv r2"
    "\<And>cid. result_of r2 cid =
      result_of r1 cid @ map (interaction_of clients) (filter (\<lambda>m. mri_index m = cid) ms)"
    "sr_Address r2 = sr_Address r1" "sr_Tags r2 = sr_Tags r1"
    using Cons.IH [OF _ ms r1(2), of ?c] by auto
  show ?case using r1 r2 by (intro Cons.prems(1) [of r2]) auto
qed

text \<open>A complete stream is collected; the first unknown client or kind is an error.\<close>

lemma collect_loop_complete:
  assumes "list_all (\<lambda>m. known_result clients m \<and> result_valid (MsgResultInteraction m)) ms"
    and "result_inv res" and "r_input (c_rd c) = result_stream ms @ wire_result MsgResultDone @ rest"
  obtains res' where
    "collect_loop addr clients res c = (Ok res', c\<lparr>c_rd := (c_rd c)\<lparr>r_input := rest\<rparr>\<rparr>)"
    and "result_inv res'"
    and "\<And>cid. result_of res' cid =
      result_of res cid @ map (interaction_of clients) (filter (\<lambda>m. mri_index m = cid) ms)"
    and "sr_Address res' = sr_Address res" and "sr_Tags res' = sr_Tags res"
proof -
  let ?tl = "wire_result MsgResultDone @ rest"
  let ?c = "c\<lparr>c_rd := (c_rd c)\<lparr>r_input := ?tl\<rparr>\<rparr>"
  obtain res' where *: "collect_loop addr clients res c = collect_loop addr clients res' ?c" "result_inv res'"
    "\<And>cid. result_of res' cid =
      result_of res cid @ map (interaction_of clients) (filter (\<lambda>m. mri_index m = cid) ms)"
    "sr_Address res' = sr_Address res" "sr_Tags res' = sr_Tags res"
    using collect_loop_stream [OF assms, of addr] by metis
  have "secondaryConn_pullResult ?c = (Ok MsgResultDone, c\<lparr>c_rd := (c_rd c)\<lparr>r_input := rest\<rparr>\<rparr>)"
    using pullResult_wire [of MsgResultDone ?c rest] by simp
  then have "collect_loop addr clients res' ?c = (Ok res', c\<lparr>c_rd := (c_rd c)\<lparr>r_input := rest\<rparr>\<rparr>)"
    by (simp add: collect_loop.simps [of addr clients res'])
  with * show thesis by (intro that [of res']) auto
qed

lemma collect_one_unknown:
  "result_valid (MsgResultInteraction m) \<Longrightarrow> \<not> known_result clients m \<Longrightarrow>
   \<exists>e. collect_one addr clients m res = (Err e, res)"
  by (auto simp: collect_one_def known_result_def Let_def gerr_def)

lemma collect_loop_unknown:
  assumes "list_all (\<lambda>m. known_result clients m \<and> result_valid (MsgResultInteraction m)) ms"
    and "result_inv res" and "result_valid (MsgResultInteraction m)" and "\<not> known_result clients m"
    and "r_input (c_rd c) = result_stream ms @ wire_result (MsgResultInteraction m) @ rest"
  shows "\<exists>e c'. collect_loop addr clients res c = (Err e, c')"
proof -
  let ?tl = "wire_result (MsgResultInteraction m) @ rest"
  let ?c = "c\<lparr>c_rd := (c_rd c)\<lparr>r_input := ?tl\<rparr>\<rparr>"
  obtain res' where *: "collect_loop addr clients res c = collect_loop addr clients res' ?c"
    using collect_loop_stream [OF assms(1,2,5), of addr] by metis
  obtain e where "collect_one addr clients m res' = (Err e, res')"
    using collect_one_unknown [OF assms(3,4)] by metis
  moreover have "secondaryConn_pullResult ?c =
      (Ok (MsgResultInteraction m), c\<lparr>c_rd := (c_rd c)\<lparr>r_input := rest\<rparr>\<rparr>)"
    using pullResult_wire [OF assms(3), of ?c rest] by simp
  ultimately show ?thesis by (simp add: * collect_loop.simps [of addr clients res'])
qed

text \<open>Whatever the secondary sends, collecting does not panic.\<close>

lemma decodeMsgResult_nonneg:
  assumes "decodeMsgResult r = (Ok (MsgResultInteraction m), r')"
  shows "0 \<le> mri_index m \<and> 0 \<le> mri_ikind m"
proof -
  from assms obtain s where "decodeMsgResultInteraction s = (Ok (MsgResultInteraction m), r')"
    unfolding decodeMsgResult_def
    by (elim gbind_OkE) (auto simp: decodeMsgResultDone_def gret_run gerr_run split: if_splits)
  then show ?thesis
    unfolding decodeMsgResultInteraction_def by (elim gbind_OkE) (auto simp: gret_run)
qed

lemma collect_one_no_panic:
  assumes "0 \<le> mri_index m" and "0 \<le> mri_ikind m" and "result_inv res"
  shows "case collect_one addr clients m res of (r, res') \<Rightarrow> (\<forall>p. r \<noteq> Panic p) \<and> result_inv res'"
proof (cases "known_result clients m")
  case True
  obtain res' where "collect_one addr clients m res = (Ok (), res')" "result_inv res'"
    using collect_one_known [OF True assms(3)] .
  then show ?thesis by simp
next
  case False
  then show ?thesis
    using assms by (auto simp: collect_one_def known_result_def Let_def gerr_def)
qed

lemma collect_loop_no_panic:
  "result_inv res \<Longrightarrow> fst (collect_loop addr clients res c) \<noteq> Panic p"
proof (induction addr clients res c rule: collect_loop.induct)
  case (1 addr clients res c)
  obtain r rd where d: "decodeMsgResult (c_rd c) = (r, rd)" by force
  have pull: "secondaryConn_pullResult c = (r, c\<lparr>c_rd := rd\<rparr>)"
    using d by (simp add: secondaryConn_pullResult_def on_reader_run)
  show ?case
  proof (cases r)
    case (Ok msg)
    show ?thesis
    proof (cases msg)
      case MsgResultDone
      with Ok pull show ?thesis by (simp add: collect_loop.simps [of addr clients res c])
    next
      case (MsgResultInteraction m)
      obtain r2 res' where one: "collect_one addr clients m res = (r2, res')" by force
      have *: "r2 \<noteq> Panic p'" "result_inv res'" for p'
        using collect_one_no_panic [OF _ _ "1.prems", of m addr clients] one d Ok
          decodeMsgResult_nonneg [of "c_rd c" m rd] MsgResultInteraction by auto
      have "fst (collect_loop addr clients res' (c\<lparr>c_rd := rd\<rparr>)) \<noteq> Panic p" if "r2 = Ok ()"
        using "1.IH" pull Ok MsgResultInteraction one *(2) that by simp
      then show ?thesis
        using *(1) one pull Ok MsgResultInteraction
        by (cases r2) (auto simp: collect_loop.simps [of addr clients res c])
    qed
  next
    case (Panic q)
    with d result_codec.dec_no_panic show ?thesis by blast
  qed (simp add: pull collect_loop.simps [of addr clients res c])
qed

section \<open>Accepting and running\<close>

lemma conn_Close_closed [simp]: "c_closed (snd (conn_Close c))"
  by (simp add: conn_Close_def)

lemma Close_closed [simp]:
  "c_closed (rs_conn (snd (remoteSecondary_Close rs)))" "c_closed (ro_conn (snd (remoteObserver_Close ro)))"
  by (simp_all add: remoteSecondary_Close_def on_conn_def gzoom_def secondaryConn_Close_def
      remoteObserver_Close_def observerConn_Close_def split: prod.splits)
    (metis conn_Close_closed snd_conv)+

text \<open>Either all the secondaries are accepted, or every connection that was accepted is closed.\<close>

lemma acceptSecondaries_loop_spec:
  assumes "acceptSecondaries_loop accept its setup primary n i ret = (r, given_up)"
    and "\<And>j. j \<ge> i \<Longrightarrow> (\<forall>p. accept j \<noteq> Panic p)"
  shows "case r of
      Ok rss \<Rightarrow> given_up = [] \<and> (\<exists>new. rss = ret @ new \<and> length new = n \<and>
        (\<forall>k < n. \<exists>net c. accept (i + k) = Ok net \<and>
           newRemoteSecondary (fst (its (i + k))) (snd (its (i + k))) setup primary net = (Ok (new ! k), c)))
    | _ \<Rightarrow> list_all c_closed given_up \<and> length ret \<le> length given_up"
  using assms
proof (induction n arbitrary: i ret)
  case 0
  then show ?case by auto
next
  case (Suc n)
  show ?case
  proof (cases "accept i")
    case (Ok net)
    obtain q c where nrs: "newRemoteSecondary (fst (its i)) (snd (its i)) setup primary net = (q, c)" by force
    show ?thesis
    proof (cases q)
      case q: (Ok rs)
      with Suc.prems(1) Ok nrs have loop:
        "acceptSecondaries_loop accept its setup primary n (Suc i) (ret @ [rs]) = (r, given_up)" by simp
      note IH = Suc.IH [OF loop] 
      have 1: "\<exists>net c. accept (i + k) = outcome.Ok net \<and>
           newRemoteSecondary (fst (its (i + k))) (snd (its (i + k))) setup primary net = (outcome.Ok ((rs # new) ! k), c)"
        if "k < Suc n" "\<forall>k < n. \<exists>net c. accept (Suc i + k) = outcome.Ok net \<and>
           newRemoteSecondary (fst (its (Suc i + k))) (snd (its (Suc i + k))) setup primary net = (outcome.Ok (new ! k), c)"
        for k new
        using that Ok nrs q by (cases k) auto
      show ?thesis
      proof (cases r)
        case r: (Ok rss)
        with IH Suc.prems(2) obtain new where new: "given_up = []" "rss = ret @ [rs] @ new" "length new = n"
          "\<forall>k < n. \<exists>net c. accept (Suc i + k) = outcome.Ok net \<and>
           newRemoteSecondary (fst (its (Suc i + k))) (snd (its (Suc i + k))) setup primary net = (outcome.Ok (new ! k), c)"
          by auto
        show ?thesis
          using new(1-3) 1 [OF _ new(4)] r by (auto intro!: exI [of _ "rs # new"])
      qed (use IH Suc.prems(2) in auto)
    qed (use Suc.prems Ok nrs in \<open>auto simp: list_all_iff\<close>)
  qed (use Suc.prems in \<open>auto simp: list_all_iff\<close>)
qed

text \<open>The passes of \<^verbatim>\<open>Run\<close> over the secondaries, one element at a time.\<close>

lemma each_ignore_all:
  fixes m :: "('s, unit) go"
  assumes "\<And>i. i < length ss \<Longrightarrow> \<exists>s'. m (ss ! i) = (Ok (), s') \<and> Q i s'"
  shows "\<exists>ss'. each_ignore m ss = (Ok (), ss') \<and> length ss' = length ss \<and> (\<forall>i < length ss. Q i (ss' ! i))"
  using assms
proof (induction ss arbitrary: Q)
  case (Cons s ss)
  from Cons.prems [of 0] obtain s' where s': "m s = (Ok (), s')" "Q 0 s'" by auto
  have "\<exists>s'. m (ss ! i) = (Ok (), s') \<and> Q (Suc i) s'" if "i < length ss" for i
    using Cons.prems [of "Suc i"] that by simp
  from Cons.IH [OF this] obtain ss' where ss': "each_ignore m ss = (Ok (), ss')" "length ss' = length ss"
    "\<forall>i < length ss. Q (Suc i) (ss' ! i)" by blast
  have "Q i ((s' # ss') ! i)" if "i < Suc (length ss)" for i
    using that s'(2) ss'(3) by (cases i) auto
  then show ?case using s' ss' by auto
qed simp

text \<open>
  A secondary that answers the synchronisation and reports the results \<open>ms\<close>, all for clients
  and kinds the primary knows.
\<close>

definition reports :: "remoteSecondary \<Rightarrow> msgResultInteraction list \<Rightarrow> bool" where
  "reports rs ms \<longleftrightarrow>
     list_all (\<lambda>m. known_result (rs_clients rs) m \<and> result_valid (MsgResultInteraction m)) ms \<and>
     (\<exists>rest. r_input (c_rd (rs_conn rs)) = result_stream ms @ wire_result MsgResultDone @ rest)"

definition collected :: "remoteSecondary \<Rightarrow> msgResultInteraction list \<Rightarrow> SecondaryResult \<Rightarrow> bool" where
  "collected rs ms sr \<longleftrightarrow> sr_Address sr = c_addr (rs_conn rs) \<and> sr_Tags sr = remoteSecondary_tags rs \<and>
     result_inv sr \<and>
     (\<forall>cid. result_of sr cid = map (interaction_of (rs_clients rs)) (filter (\<lambda>m. mri_index m = cid) ms))"

lemma collect_reports:
  assumes "reports rs ms"
  obtains sr rs' where "collect rs = (Ok sr, rs')" and "collected rs ms sr"
    and "c_out (rs_conn rs') = c_out (rs_conn rs)" and "rs_clients rs' = rs_clients rs"
proof -
  from assms obtain rest where
    in_ok: "list_all (\<lambda>m. known_result (rs_clients rs) m \<and> result_valid (MsgResultInteraction m)) ms"
      "r_input (c_rd (rs_conn rs)) = result_stream ms @ wire_result MsgResultDone @ rest"
    by (auto simp: reports_def)
  let ?res = "newSecondaryResult (remoteSecondary_addr rs) (msp_tags (rs_params rs))"
  let ?c = "(rs_conn rs)\<lparr>c_rd := (c_rd (rs_conn rs))\<lparr>r_input := rest\<rparr>\<rparr>"
  obtain sr where sr: "collect_loop (remoteSecondary_addr rs) (rs_clients rs) ?res (rs_conn rs) = (Ok sr, ?c)"
    "result_inv sr"
    "\<And>cid. result_of sr cid = map (interaction_of (rs_clients rs)) (filter (\<lambda>m. mri_index m = cid) ms)"
    "sr_Address sr = sr_Address ?res" "sr_Tags sr = sr_Tags ?res"
    using collect_loop_complete [OF in_ok(1) newSecondaryResult_inv in_ok(2),
        of "remoteSecondary_addr rs" "remoteSecondary_addr rs" "msp_tags (rs_params rs)"] by auto
  then show thesis
    by (intro that [of sr "rs\<lparr>rs_conn := ?c\<rparr>"])
      (auto simp: collect_def on_conn_def gzoom_def collected_def newSecondaryResult_def
        remoteSecondary_addr_def secondaryConn_addr_def remoteSecondary_tags_def)
qed

lemma collect_all_reports:
  assumes "length mss = length rss" and "\<And>i. i < length rss \<Longrightarrow> reports (rss ! i) (mss ! i)"
  shows "\<exists>result' rss' srs. collect_all result rss = (Ok result', rss') \<and> length rss' = length rss \<and>
    result' = result\<lparr>res_Locations := res_Locations result @ srs\<rparr> \<and> length srs = length rss \<and>
    (\<forall>i < length rss. collected (rss ! i) (mss ! i) (srs ! i) \<and>
       c_out (rs_conn (rss' ! i)) = c_out (rs_conn (rss ! i)) \<and> c_closed (rs_conn (rss' ! i)))"
  using assms
proof (induction rss arbitrary: mss result)
  case Nil
  then show ?case by (auto intro!: exI [of _ "[]"])
next
  case (Cons rs rss)
  from Cons.prems(1) obtain ms mss' where mss: "mss = ms # mss'" by (cases mss) auto
  from Cons.prems(2) [of 0] mss obtain sr rs' where one: "collect rs = (Ok sr, rs')" "collected rs ms sr"
    "c_out (rs_conn rs') = c_out (rs_conn rs)"
    using collect_reports by (metis length_greater_0_conv list.distinct(1) nth_Cons_0)
  have "reports (rss ! i) (mss' ! i)" if "i < length rss" for i
    using Cons.prems(2) [of "Suc i"] that mss by simp
  with Cons.IH [of mss' "addSecondary sr result"] Cons.prems(1) mss obtain result' rss' srs where
    rec: "collect_all (addSecondary sr result) rss = (Ok result', rss')" "length rss' = length rss"
      "result' = (addSecondary sr result)\<lparr>res_Locations := res_Locations (addSecondary sr result) @ srs\<rparr>"
      "length srs = length rss"
      "\<forall>i < length rss. collected (rss ! i) (mss' ! i) (srs ! i) \<and>
         c_out (rs_conn (rss' ! i)) = c_out (rs_conn (rss ! i)) \<and> c_closed (rs_conn (rss' ! i))"
    by auto
  have cl: "c_out (rs_conn (snd (remoteSecondary_Close rs'))) = c_out (rs_conn rs')"
    by (simp add: remoteSecondary_Close_def on_conn_def gzoom_def secondaryConn_Close_def conn_Close_def)
  have "collected ((rs # rss) ! i) (mss ! i) ((sr # srs) ! i) \<and>
       c_out (rs_conn ((snd (remoteSecondary_Close rs') # rss') ! i)) = c_out (rs_conn ((rs # rss) ! i)) \<and>
       c_closed (rs_conn ((snd (remoteSecondary_Close rs') # rss') ! i))"
    if "i < Suc (length rss)" for i
    using that one rec(5) cl mss by (cases i) auto
  then show ?case
    using one(1) rec(1-4)
    by (auto simp: addSecondary_def intro!: exI [of _ "sr # srs"])
qed

text \<open>A secondary as \<^verbatim>\<open>Run\<close> finds it when the benchmark has been generated.\<close>

definition prepared :: "remoteSecondary \<Rightarrow> msgResultInteraction list \<Rightarrow> bool" where
  "prepared rs ms \<longleftrightarrow> conn_good (rs_conn rs) \<and>
     list_all (\<lambda>m. known_result (rs_clients rs) m \<and> result_valid (MsgResultInteraction m)) ms \<and>
     (\<exists>rest. r_input (c_rd (rs_conn rs)) =
        wire_prepare MsgPrepareDone @ result_stream ms @ wire_result MsgResultDone @ rest)"

lemma ready_prepared:
  assumes "prepared rs ms"
  shows "\<exists>rs'. remoteSecondary_ready rs = (Ok (), rs') \<and> conn_good (rs_conn rs') \<and> reports rs' ms \<and>
    conn_written (rs_conn rs') = conn_written (rs_conn rs) @ wire_prepare MsgPrepareDone \<and>
    rs_clients rs' = rs_clients rs \<and> rs_params rs' = rs_params rs \<and> c_addr (rs_conn rs') = c_addr (rs_conn rs)"
proof -
  from assms obtain rest where good: "conn_good (rs_conn rs)" and
    inp: "r_input (c_rd (rs_conn rs)) =
        wire_prepare MsgPrepareDone @ (result_stream ms @ wire_result MsgResultDone @ rest)"
    and ok: "list_all (\<lambda>m. known_result (rs_clients rs) m \<and> result_valid (MsgResultInteraction m)) ms"
    unfolding prepared_def by blast
  obtain c where c: "secondaryConn_syncReady (rs_conn rs) = (Ok (), c)" "conn_good c" "c_buf c = []"
    "c_out c = conn_written (rs_conn rs) @ wire_prepare MsgPrepareDone"
    "c_rd c = (c_rd (rs_conn rs))\<lparr>r_input := result_stream ms @ wire_result MsgResultDone @ rest\<rparr>"
    "c_addr c = c_addr (rs_conn rs)"
    using syncReady_good [OF good inp] .
  have "remoteSecondary_ready rs = (Ok (), rs\<lparr>rs_conn := c\<rparr>)"
    unfolding remoteSecondary_ready_def by (rule on_conn_run) (rule c(1))
  then show ?thesis
    using c ok by (intro exI [of _ "rs\<lparr>rs_conn := c\<rparr>"]) (auto simp: reports_def conn_written_def)
qed

lemma start_reports:
  assumes "conn_good (rs_conn rs)" and "reports rs ms"
  shows "\<exists>rs'. remoteSecondary_start d rs = (Ok (), rs') \<and> reports rs' ms \<and>
    c_out (rs_conn rs') = conn_written (rs_conn rs) @ wire_start \<lparr>mst_duration = d\<rparr> \<and>
    rs_clients rs' = rs_clients rs \<and> rs_params rs' = rs_params rs \<and> c_addr (rs_conn rs') = c_addr (rs_conn rs)"
proof -
  obtain c where c: "secondaryConn_sendStart \<lparr>mst_duration = d\<rparr> (rs_conn rs) = (Ok (), c)" "conn_good c"
    "c_buf c = []" "c_out c = conn_written (rs_conn rs) @ wire_start \<lparr>mst_duration = d\<rparr>"
    "c_rd c = c_rd (rs_conn rs)" "c_addr c = c_addr (rs_conn rs)"
    using sendStart_good [OF assms(1)] .
  have "remoteSecondary_start d rs = (Ok (), rs\<lparr>rs_conn := c\<rparr>)"
    unfolding remoteSecondary_start_def by (rule on_conn_run) (rule c(1))
  then show ?thesis
    using c assms(2) by (intro exI [of _ "rs\<lparr>rs_conn := c\<rparr>"]) (auto simp: reports_def)
qed

lemma observer_start_good:
  assumes "conn_good (ro_conn ro)"
  shows "\<exists>ro'. remoteObserver_start d ro = (Ok (), ro') \<and>
    c_out (ro_conn ro') = conn_written (ro_conn ro) @ wire_start \<lparr>mst_duration = d\<rparr> \<and> \<not> c_closed (ro_conn ro')"
proof -
  obtain c where c: "observerConn_sendStart \<lparr>mst_duration = d\<rparr> (ro_conn ro) = (Ok (), c)" "conn_good c"
    "c_out c = conn_written (ro_conn ro) @ wire_start \<lparr>mst_duration = d\<rparr>"
    using sendStart_good [OF assms] unfolding observerConn_sendStart_def secondaryConn_sendStart_def by metis
  then show ?thesis
    by (intro exI [of _ "ro\<lparr>ro_conn := c\<rparr>"]) (auto simp: remoteObserver_start_def gzoom_def conn_good_def)
qed

lemma observer_Close_good:
  "\<not> c_closed (ro_conn ro) \<Longrightarrow> \<exists>ro'. remoteObserver_Close ro = (Ok (), ro') \<and> c_closed (ro_conn ro') \<and>
     c_out (ro_conn ro') = c_out (ro_conn ro)"
  by (auto simp: remoteObserver_Close_def gzoom_def observerConn_Close_def conn_Close_def)

text \<open>The two passes over the secondaries that end the preparation and start the benchmark.\<close>

lemma sync_and_start:
  assumes "\<And>i. i < length rss \<Longrightarrow> prepared (rss ! i) (mss ! i)"
  obtains rss1 rss2 where "each_ignore remoteSecondary_ready rss = (Ok (), rss1)"
    and "each_ignore (remoteSecondary_start d) rss1 = (Ok (), rss2)" and "length rss2 = length rss"
    and "\<And>i. i < length rss \<Longrightarrow> reports (rss2 ! i) (mss ! i) \<and>
      c_out (rs_conn (rss2 ! i)) =
        conn_written (rs_conn (rss ! i)) @ wire_prepare MsgPrepareDone @ wire_start \<lparr>mst_duration = d\<rparr> \<and>
      rs_clients (rss2 ! i) = rs_clients (rss ! i) \<and> rs_params (rss2 ! i) = rs_params (rss ! i) \<and>
      c_addr (rs_conn (rss2 ! i)) = c_addr (rs_conn (rss ! i))"
proof -
  have "\<exists>rs'. remoteSecondary_ready (rss ! i) = (Ok (), rs') \<and> conn_good (rs_conn rs') \<and> reports rs' (mss ! i) \<and>
    conn_written (rs_conn rs') = conn_written (rs_conn (rss ! i)) @ wire_prepare MsgPrepareDone \<and>
    rs_clients rs' = rs_clients (rss ! i) \<and> rs_params rs' = rs_params (rss ! i) \<and>
    c_addr (rs_conn rs') = c_addr (rs_conn (rss ! i))" if "i < length rss" for i
    using ready_prepared [OF assms [OF that]] .
  from each_ignore_all [where m = remoteSecondary_ready and ss = rss, OF this] obtain rss1 where
    1: "each_ignore remoteSecondary_ready rss = (Ok (), rss1)" "length rss1 = length rss"
      "\<And>i. i < length rss \<Longrightarrow> conn_good (rs_conn (rss1 ! i)) \<and> reports (rss1 ! i) (mss ! i) \<and>
         conn_written (rs_conn (rss1 ! i)) = conn_written (rs_conn (rss ! i)) @ wire_prepare MsgPrepareDone \<and>
         rs_clients (rss1 ! i) = rs_clients (rss ! i) \<and> rs_params (rss1 ! i) = rs_params (rss ! i) \<and>
         c_addr (rs_conn (rss1 ! i)) = c_addr (rs_conn (rss ! i))"
    by blast
  have "\<exists>rs'. remoteSecondary_start d (rss1 ! i) = (Ok (), rs') \<and> reports rs' (mss ! i) \<and>
    c_out (rs_conn rs') = conn_written (rs_conn (rss1 ! i)) @ wire_start \<lparr>mst_duration = d\<rparr> \<and>
    rs_clients rs' = rs_clients (rss1 ! i) \<and> rs_params rs' = rs_params (rss1 ! i) \<and>
    c_addr (rs_conn rs') = c_addr (rs_conn (rss1 ! i))" if "i < length rss1" for i
    using start_reports that 1(2,3) by metis
  from each_ignore_all [where m = "remoteSecondary_start d" and ss = rss1, OF this] obtain rss2 where
    2: "each_ignore (remoteSecondary_start d) rss1 = (Ok (), rss2)" "length rss2 = length rss1"
      "\<And>i. i < length rss1 \<Longrightarrow> reports (rss2 ! i) (mss ! i) \<and>
        c_out (rs_conn (rss2 ! i)) = conn_written (rs_conn (rss1 ! i)) @ wire_start \<lparr>mst_duration = d\<rparr> \<and>
        rs_clients (rss2 ! i) = rs_clients (rss1 ! i) \<and> rs_params (rss2 ! i) = rs_params (rss1 ! i) \<and>
        c_addr (rs_conn (rss2 ! i)) = c_addr (rs_conn (rss1 ! i))"
    by blast
  show thesis using 1 2 by (intro that [of rss1 rss2]) simp_all
qed

lemma observers_start_close:
  assumes "\<And>i. i < length obs \<Longrightarrow> conn_good (ro_conn (obs ! i))"
  obtains obs1 obs2 where "each_ignore (remoteObserver_start d) obs = (Ok (), obs1)"
    and "each_ignore remoteObserver_Close obs1 = (Ok (), obs2)" and "length obs2 = length obs"
    and "\<And>i. i < length obs \<Longrightarrow> c_closed (ro_conn (obs2 ! i)) \<and>
      c_out (ro_conn (obs2 ! i)) = conn_written (ro_conn (obs ! i)) @ wire_start \<lparr>mst_duration = d\<rparr>"
proof -
  have "\<exists>ro'. remoteObserver_start d (obs ! i) = (Ok (), ro') \<and>
    c_out (ro_conn ro') = conn_written (ro_conn (obs ! i)) @ wire_start \<lparr>mst_duration = d\<rparr> \<and>
    \<not> c_closed (ro_conn ro')" if "i < length obs" for i
    using observer_start_good [OF assms [OF that]] .
  from each_ignore_all [where m = "remoteObserver_start d" and ss = obs, OF this] obtain obs1 where
    1: "each_ignore (remoteObserver_start d) obs = (Ok (), obs1)" "length obs1 = length obs"
      "\<And>i. i < length obs \<Longrightarrow>
         c_out (ro_conn (obs1 ! i)) = conn_written (ro_conn (obs ! i)) @ wire_start \<lparr>mst_duration = d\<rparr> \<and>
         \<not> c_closed (ro_conn (obs1 ! i))"
    by blast
  have "\<exists>ro'. remoteObserver_Close (obs1 ! i) = (Ok (), ro') \<and> c_closed (ro_conn ro') \<and>
     c_out (ro_conn ro') = c_out (ro_conn (obs1 ! i))" if "i < length obs1" for i
    using observer_Close_good that 1(2,3) by metis
  from each_ignore_all [where m = remoteObserver_Close and ss = obs1, OF this] obtain obs2 where
    2: "each_ignore remoteObserver_Close obs1 = (Ok (), obs2)" "length obs2 = length obs1"
      "\<And>i. i < length obs1 \<Longrightarrow> c_closed (ro_conn (obs2 ! i)) \<and>
         c_out (ro_conn (obs2 ! i)) = c_out (ro_conn (obs1 ! i))"
    by blast
  show thesis using 1 2 by (intro that [of obs1 obs2]) simp_all
qed

lemma Nprimary_Run_end_spec:
  assumes "length mss = length rss" and "\<And>i. i < length rss \<Longrightarrow> prepared (rss ! i) (mss ! i)"
    and "\<And>i. i < length obs \<Longrightarrow> conn_good (ro_conn (obs ! i))"
  obtains result rss' obs' where "Nprimary_Run_end primary (rss, obs) = (Ok result, (rss', obs'))"
    and "res_Seed result = np_MasterSeed primary" and "length (res_Locations result) = length rss"
    and "length rss' = length rss" and "length obs' = length obs"
    and "\<And>i. i < length rss \<Longrightarrow> collected (rss ! i) (mss ! i) (res_Locations result ! i) \<and>
      c_out (rs_conn (rss' ! i)) = conn_written (rs_conn (rss ! i)) @ wire_prepare MsgPrepareDone @
        wire_start \<lparr>mst_duration = benchmark_duration rss\<rparr> \<and> c_closed (rs_conn (rss' ! i))"
    and "\<And>i. i < length obs \<Longrightarrow> c_closed (ro_conn (obs' ! i)) \<and>
      c_out (ro_conn (obs' ! i)) = conn_written (ro_conn (obs ! i)) @
        wire_start \<lparr>mst_duration = benchmark_duration rss\<rparr>"
proof -
  let ?d = "benchmark_duration rss"
  obtain rss1 rss2 where s: "each_ignore remoteSecondary_ready rss = (Ok (), rss1)"
    "each_ignore (remoteSecondary_start ?d) rss1 = (Ok (), rss2)" "length rss2 = length rss"
    "\<And>i. i < length rss \<Longrightarrow> reports (rss2 ! i) (mss ! i) \<and>
      c_out (rs_conn (rss2 ! i)) =
        conn_written (rs_conn (rss ! i)) @ wire_prepare MsgPrepareDone @ wire_start \<lparr>mst_duration = ?d\<rparr> \<and>
      rs_clients (rss2 ! i) = rs_clients (rss ! i) \<and> rs_params (rss2 ! i) = rs_params (rss ! i) \<and>
      c_addr (rs_conn (rss2 ! i)) = c_addr (rs_conn (rss ! i))"
    using sync_and_start [where rss = rss and mss = mss and d = ?d] assms(2) by auto
  obtain obs1 obs2 where o: "each_ignore (remoteObserver_start ?d) obs = (Ok (), obs1)"
    "each_ignore remoteObserver_Close obs1 = (Ok (), obs2)" "length obs2 = length obs"
    "\<And>i. i < length obs \<Longrightarrow> c_closed (ro_conn (obs2 ! i)) \<and>
      c_out (ro_conn (obs2 ! i)) = conn_written (ro_conn (obs ! i)) @ wire_start \<lparr>mst_duration = ?d\<rparr>"
    using observers_start_close [where obs = obs and d = ?d] assms(3) by auto
  have rep: "length mss = length rss2" "\<And>i. i < length rss2 \<Longrightarrow> reports (rss2 ! i) (mss ! i)"
    using s(3,4) assms(1) by simp_all
  obtain result rss3 srs where c: "collect_all (newResult (np_MasterSeed primary)) rss2 = (Ok result, rss3)"
    "length rss3 = length rss2"
    "result = (newResult (np_MasterSeed primary))\<lparr>res_Locations := res_Locations (newResult (np_MasterSeed primary)) @ srs\<rparr>"
    "length srs = length rss2"
    "\<forall>i < length rss2. collected (rss2 ! i) (mss ! i) (srs ! i) \<and>
       c_out (rs_conn (rss3 ! i)) = c_out (rs_conn (rss2 ! i)) \<and> c_closed (rs_conn (rss3 ! i))"
    using collect_all_reports [OF rep, of "newResult (np_MasterSeed primary)"] by blast
  have "Nprimary_Run_end primary (rss, obs) = (Ok result, (rss3, obs2))"
    using s(1,2) o(1,2) c(1) by (simp add: Nprimary_Run_end_def gbind_def gzoom_def gread_def gret_def)
  moreover have "collected (rss ! i) (mss ! i) (srs ! i)" if "i < length rss" for i
    using c(5) s(3,4) that by (auto simp: collected_def remoteSecondary_tags_def)
  ultimately show thesis
    using c s(3,4) o(3,4) by (intro that [of result rss3 obs2]) (auto simp: newResult_def)
qed

lemma benchmark_duration_upper:
  assumes "\<And>rs. rs \<in> set rss \<Longrightarrow> remote_inv rs" and "rs \<in> set rss" and "covers rs t"
  shows "f64_le t (benchmark_duration rss)"
proof -
  have nan: "\<not> f64_isnan x" if "x \<in> set (map remoteSecondary_end rss)" for x
    using that assms(1) remoteSecondary_end_upper by auto
  have "f64_le (remoteSecondary_end rs) (benchmark_duration rss)"
    using max_time_upper [of f64_zero "map remoteSecondary_end rss"] nan assms(2)
    by (simp add: benchmark_duration_def)
  moreover have "f64_le t (remoteSecondary_end rs)"
    using remoteSecondary_end_upper [OF assms(1) [OF assms(2)]] assms(3) by simp
  ultimately show ?thesis using f64_le_trans by blast
qed

section \<open>Properties\<close>

text \<open>A proxy right after the handshake, on a connection that works; used in the witnesses.\<close>

definition fresh_secondary :: "byte list \<Rightarrow> remoteSecondary" where
  "fresh_secondary inp = \<lparr>rs_conn = new_conn \<lparr>r_input = inp, r_err = EOF\<rparr> None ''10.0.0.2:80'',
     rs_params = \<lparr>msp_tags = [''zone'']\<rparr>, rs_clients = []\<rparr>"

lemma fresh_secondary_inv [simp]:
  "remote_inv (fresh_secondary inp)" "conn_good (rs_conn (fresh_secondary inp))"
  "kinds_of (fresh_secondary inp) = []" "conn_written (rs_conn (fresh_secondary inp)) = []"
  by (simp_all add: fresh_secondary_def remote_inv_def kinds_of_def)

text \<open>
  C28: Generating a benchmark on a secondary, any sequence of \<^verbatim>\<open>createClient\<close> and
  \<^verbatim>\<open>sendInteraction\<close> calls that respects the bounds of the format, succeeds and writes exactly
  the specified messages: clients numbered in the order of their creation, kinds numbered per
  client in the order of their first use, and every interaction with the number of its own
  client and kind.
\<close>

theorem primary_sends_specified_messages:
  assumes "remote_inv rs" and "conn_good (rs_conn rs)" and "ops_ok (kinds_of rs) ops"
  shows "\<exists>rs'. gfor ops exec_op rs = (Ok (), rs') \<and> remote_inv rs' \<and>
    kinds_of rs' = fold op_kinds ops (kinds_of rs) \<and>
    conn_written (rs_conn rs') = conn_written (rs_conn rs) @ concat (map wire_prepare (op_msgs (kinds_of rs) ops))"
proof -
  obtain rs' where "gfor ops exec_op rs = (Ok (), rs')" "remote_inv rs'"
    "kinds_of rs' = fold op_kinds ops (kinds_of rs)" "sent_from rs (op_msgs (kinds_of rs) ops) rs'"
    using exec_ops_spec [OF assms] by metis
  then show ?thesis by (auto simp: sent_from_def)
qed

theorem primary_sends_specified_messages_witness:
  "\<exists>rs'. gfor [OpClient ''c'' [''n1''], OpInteraction 0 ''transfer'' f64_one [1, 2],
       OpInteraction 0 ''invoke'' f64_one [3], OpInteraction 0 ''transfer'' f64_zero []] exec_op
       (fresh_secondary []) = (Ok (), rs') \<and> kinds_of rs' = [[''transfer'', ''invoke'']]"
  using primary_sends_specified_messages [of "fresh_secondary []"
      "[OpClient ''c'' [''n1''], OpInteraction 0 ''transfer'' f64_one [1, 2],
       OpInteraction 0 ''invoke'' f64_one [3], OpInteraction 0 ''transfer'' f64_zero []]"]
  by (auto simp: short_def add_kind_def kind_number_def)

text \<open>
  The duration the primary announces to secondaries and observers is not earlier than the
  scheduled time of any interaction it has sent to any secondary.
\<close>

theorem duration_covers_schedule:
  assumes "remote_inv rs" and "conn_good (rs_conn rs)" and "ops_ok (kinds_of rs) ops"
    and "\<forall>r \<in> set (before @ after). remote_inv r"
    and "OpInteraction cid kind time payload \<in> set ops" and "\<not> f64_isnan time"
  shows "\<exists>rs'. gfor ops exec_op rs = (Ok (), rs') \<and>
    f64_le time (benchmark_duration (before @ rs' # after))"
proof -
  obtain rs' where *: "gfor ops exec_op rs = (Ok (), rs')" "remote_inv rs'"
    "\<And>op t. op \<in> set ops \<Longrightarrow> op_time op = Some t \<Longrightarrow> \<not> f64_isnan t \<Longrightarrow> covers rs' t"
    using exec_ops_spec [OF assms(1-3)] by metis
  have "covers rs' time" using *(3) [OF assms(5)] assms(6) by simp
  moreover have "remote_inv r" if "r \<in> set (before @ rs' # after)" for r using that assms(4) *(2) by auto
  ultimately show ?thesis
    using benchmark_duration_upper [of "before @ rs' # after" rs' time] *(1) by auto
qed

theorem duration_covers_schedule_witness:
  "\<exists>rs'. gfor [OpClient ''c'' [''n1''], OpInteraction 0 ''transfer'' f64_one [1, 2]] exec_op
       (fresh_secondary []) = (Ok (), rs') \<and>
     f64_le f64_one (benchmark_duration ([fresh_secondary []] @ rs' # []))"
  using duration_covers_schedule [of "fresh_secondary []"
      "[OpClient ''c'' [''n1''], OpInteraction 0 ''transfer'' f64_one [1, 2]]" "[fresh_secondary []]" "[]"
      0 "''transfer''" f64_one "[1, 2]"]
  by (auto simp: short_def add_kind_def kind_number_def)

text \<open>
  Whatever bytes a secondary sends, \<^verbatim>\<open>collect\<close> returns: it ends on every finite stream, with a
  result or an error and never with a panic.
\<close>

theorem collect_never_panics:
  "fst (collect rs) \<noteq> Panic p"
proof -
  obtain r c where "collect_loop (remoteSecondary_addr rs) (rs_clients rs)
      (newSecondaryResult (remoteSecondary_addr rs) (msp_tags (rs_params rs))) (rs_conn rs) = (r, c)" by force
  then show ?thesis
    using collect_loop_no_panic [OF newSecondaryResult_inv, of "remoteSecondary_addr rs" "rs_clients rs"
        "remoteSecondary_addr rs" "msp_tags (rs_params rs)" "rs_conn rs" p]
    by (simp add: collect_def on_conn_def gzoom_def)
qed

text \<open>
  A result for a client or a kind the primary has never announced to this secondary makes
  \<^verbatim>\<open>collect\<close> fail with an error, even after valid results.
\<close>

theorem collect_rejects_unknown:
  assumes "list_all (\<lambda>m. known_result (rs_clients rs) m \<and> result_valid (MsgResultInteraction m)) ms"
    and "result_valid (MsgResultInteraction m)" and "\<not> known_result (rs_clients rs) m"
    and "r_input (c_rd (rs_conn rs)) = result_stream ms @ wire_result (MsgResultInteraction m) @ rest"
  shows "\<exists>e rs'. collect rs = (Err e, rs')"
proof -
  obtain e c where "collect_loop (remoteSecondary_addr rs) (rs_clients rs)
      (newSecondaryResult (remoteSecondary_addr rs) (msp_tags (rs_params rs))) (rs_conn rs) = (Err e, c)"
    using collect_loop_unknown [OF assms(1) newSecondaryResult_inv assms(2-4)] by metis
  then show ?thesis by (simp add: collect_def on_conn_def gzoom_def)
qed

theorem collect_rejects_unknown_witness:
  "\<exists>e rs'. collect (fresh_secondary (wire_result (MsgResultInteraction \<lparr>mri_index = 0, mri_ikind = 0,
      mri_submitTime = 0, mri_commitTime = 0, mri_abortTime = 0, mri_hasError = False\<rparr>))) = (Err e, rs')"
  using collect_rejects_unknown [of "fresh_secondary (wire_result (MsgResultInteraction \<lparr>mri_index = 0,
      mri_ikind = 0, mri_submitTime = 0, mri_commitTime = 0, mri_abortTime = 0, mri_hasError = False\<rparr>))" "[]"
      "\<lparr>mri_index = 0, mri_ikind = 0, mri_submitTime = 0, mri_commitTime = 0, mri_abortTime = 0,
        mri_hasError = False\<rparr>" "[]"]
  by (auto simp: known_result_def fresh_secondary_def result_stream_def)

text \<open>
  Accepting secondaries is all or nothing: on success there is one secondary per requested
  connection, in the order they connected, each after its own successful handshake; on an error
  of a connection or of a handshake, every connection that had been accepted is closed.
\<close>

theorem accept_all_or_close:
  assumes "acceptSecondaries listen accept its setup primary = (r, given_up)"
    and "\<And>i p. accept i \<noteq> Panic p" and "\<And>p. listen \<noteq> Panic p"
  shows "case r of
      Ok rss \<Rightarrow> given_up = [] \<and> int (length rss) = np_NumSecondary primary \<and>
        (\<forall>k < length rss. \<exists>net c. accept k = Ok net \<and>
           newRemoteSecondary (fst (its k)) (snd (its k)) setup primary net = (Ok (rss ! k), c))
    | Err e \<Rightarrow> list_all c_closed given_up
    | Panic p \<Rightarrow> np_NumSecondary primary < 0 \<or> list_all c_closed given_up"
proof (cases "np_NumSecondary primary < 0 \<or> (\<exists>e. listen = Err e)")
  case True
  then show ?thesis using assms(1,3) by (auto simp: acceptSecondaries_def split: if_splits outcome.splits)
next
  case False
  then have "acceptSecondaries_loop accept its setup primary (nat (np_NumSecondary primary)) 0 [] = (r, given_up)"
    using assms(1,3) by (cases listen) (auto simp: acceptSecondaries_def)
  from acceptSecondaries_loop_spec [OF this] assms(2) False show ?thesis
    by (cases r) auto
qed

theorem accept_all_or_close_witness:
  "\<exists>r given_up. acceptSecondaries (Ok ())
      (\<lambda>i. if i = 0 then Ok (new_conn \<lparr>r_input = [0], r_err = EOF\<rparr> None ''a'') else Err ErrClosed) (\<lambda>_. ([], []))
      \<lparr>ps_sysname = ''mock'', ps_parameters = [], ps_endpoints = []\<rparr>
      \<lparr>np_NumSecondary = 2, np_NumObserver = 0, np_SetupPath = [], np_BenchmarkPath = [], np_ListenPort = 0,
       np_MasterSeed = 0, np_MaxSkew = 0, np_MaxDelay = 0, np_Env = []\<rparr> = (r, given_up) \<and>
    (case r of Ok rss \<Rightarrow> int (length rss) = 2 | Err e \<Rightarrow> list_all c_closed given_up
      | Panic p \<Rightarrow> list_all c_closed given_up)"
proof -
  let ?accept = "\<lambda>i :: nat. if i = 0 then Ok (new_conn \<lparr>r_input = [0], r_err = EOF\<rparr> None ''a'') else Err ErrClosed"
  let ?stp = "\<lparr>ps_sysname = ''mock'', ps_parameters = [], ps_endpoints = []\<rparr>"
  let ?np = "\<lparr>np_NumSecondary = 2, np_NumObserver = 0, np_SetupPath = [], np_BenchmarkPath = [], np_ListenPort = 0,
       np_MasterSeed = 0, np_MaxSkew = 0, np_MaxDelay = 0, np_Env = []\<rparr>"
  obtain r g where run: "acceptSecondaries (Ok ()) ?accept (\<lambda>_. ([], [])) ?stp ?np = (r, g)" by force
  from accept_all_or_close [OF run] show ?thesis using run by (cases r) auto
qed

text \<open>
  Once the benchmark is generated, a run of the primary with secondaries that synchronise and
  report known results completes: every secondary receives the end of the preparation and the
  start message with the duration, every observer the start message, the result holds the
  master seed and one location per secondary in order, in which each client has exactly the
  interactions reported for it, and all connections end up closed.
\<close>

theorem run_end_completes:
  assumes "length mss = length rss" and "\<forall>i < length rss. prepared (rss ! i) (mss ! i)"
    and "\<forall>ro \<in> set obs. conn_good (ro_conn ro)"
  shows "\<exists>result rss' obs'. Nprimary_Run_end primary (rss, obs) = (Ok result, (rss', obs')) \<and>
    res_Seed result = np_MasterSeed primary \<and> length (res_Locations result) = length rss \<and>
    (\<forall>i < length rss.
       (\<forall>cid. result_of (res_Locations result ! i) cid =
          map (interaction_of (rs_clients (rss ! i))) (filter (\<lambda>m. mri_index m = cid) (mss ! i))) \<and>
       c_out (rs_conn (rss' ! i)) = conn_written (rs_conn (rss ! i)) @ wire_prepare MsgPrepareDone @
         wire_start \<lparr>mst_duration = benchmark_duration rss\<rparr> \<and> c_closed (rs_conn (rss' ! i))) \<and>
    (\<forall>i < length obs. c_closed (ro_conn (obs' ! i)) \<and>
       c_out (ro_conn (obs' ! i)) = conn_written (ro_conn (obs ! i)) @
         wire_start \<lparr>mst_duration = benchmark_duration rss\<rparr>)"
proof -
  have pre: "\<And>i. i < length rss \<Longrightarrow> prepared (rss ! i) (mss ! i)"
    "\<And>i. i < length obs \<Longrightarrow> conn_good (ro_conn (obs ! i))"
    using assms(2,3) by auto
  show ?thesis
    by (rule Nprimary_Run_end_spec [OF assms(1) pre, where primary = primary])
      (assumption | auto simp: collected_def)+
qed

theorem run_end_completes_witness:
  "\<exists>result rss' obs'. Nprimary_Run_end
      \<lparr>np_NumSecondary = 1, np_NumObserver = 0, np_SetupPath = [], np_BenchmarkPath = [], np_ListenPort = 0,
       np_MasterSeed = 42, np_MaxSkew = 0, np_MaxDelay = 0, np_Env = []\<rparr>
      ([fresh_secondary (wire_prepare MsgPrepareDone @ wire_result MsgResultDone)], []) =
        (Ok result, (rss', obs')) \<and> res_Seed result = 42 \<and> length (res_Locations result) = 1"
  using run_end_completes [of "[[]]" "[fresh_secondary (wire_prepare MsgPrepareDone @ wire_result MsgResultDone)]" "[]"
      "\<lparr>np_NumSecondary = 1, np_NumObserver = 0, np_SetupPath = [], np_BenchmarkPath = [], np_ListenPort = 0,
       np_MasterSeed = 42, np_MaxSkew = 0, np_MaxDelay = 0, np_Env = []\<rparr>"]
  by (auto simp: prepared_def result_stream_def fresh_secondary_def)

end
