(* ===== verification/Core_Yaml.thy ===== *)
theory Core_Yaml
  imports Go_Prelude
begin

text \<open>
  Benchmark expressions (\<^verbatim>\<open>src/core/benchmark.go\<close>): the tree of expression objects built from the
  nodes of the YAML document, and the methods of \<^verbatim>\<open>BenchmarkExpression\<close> that only look at the tree.
  The node type is the one of package \<^verbatim>\<open>yaml.v3\<close>, with the fields the program reads. The local scope of
  an expression is state, kept elsewhere under the path of the expression; the flags \<^verbatim>\<open>texpl\<close> and
  \<^verbatim>\<open>nexpl\<close> are written and never read, and are left out.
\<close>

section \<open>YAML nodes\<close>

datatype yaml_kind = DocumentNode | SequenceNode | MappingNode | ScalarNode | AliasNode

text \<open>The style is a set of flags; a test of a flag is membership.\<close>

datatype yaml_style = TaggedStyle | DoubleQuotedStyle | SingleQuotedStyle | LiteralStyle | FoldedStyle | FlowStyle

datatype yaml_node =
  YamlNode (yn_Kind: yaml_kind) (yn_Style: "yaml_style list") (yn_Tag: string) (yn_Value: string)
    (yn_Anchor: string) (yn_Content: "yaml_node list") (yn_Line: nat) (yn_Column: nat)

text \<open>Decimal numerals, for \<^verbatim>\<open>%d\<close>.\<close>

definition digit :: "nat \<Rightarrow> char" where
  "digit d = char_of (48 + d)"

fun decimal :: "nat \<Rightarrow> string" where
  "decimal n = (if n < 10 then [digit n] else decimal (n div 10) @ [digit (n mod 10)])"

declare decimal.simps [simp del]

definition node_position :: "yaml_node \<Rightarrow> string" where
  "node_position node = decimal (yn_Line node) @ '':'' @ decimal (yn_Column node)"

section \<open>Expressions\<close>

text \<open>
  An expression is addressed by its path, the positions in the tree from the expression up to
  the root: the parent of \<open>i # p\<close> is \<open>p\<close>. A field is an expression between a mapping and its key
  (position 0) and value (position 1). An error expression has the path of the expression that
  created it.
\<close>

type_synonym path = "nat list"

datatype bexpr =
    BField path yaml_node bexpr bexpr
  | BMapping path yaml_node "(string, nat) gomap" "bexpr list"
  | BSequence path yaml_node "bexpr list"
  | BScalar path yaml_node
  | BAlias path yaml_node
  | BError path string go_error

fun expr_path :: "bexpr \<Rightarrow> path" where
  "expr_path (BField p _ _ _) = p"
| "expr_path (BMapping p _ _ _) = p"
| "expr_path (BSequence p _ _) = p"
| "expr_path (BScalar p _) = p"
| "expr_path (BAlias p _) = p"
| "expr_path (BError p _ _) = p"

fun expr_node :: "bexpr \<Rightarrow> yaml_node option" where
  "expr_node (BField _ n _ _) = Some n"
| "expr_node (BMapping _ n _ _) = Some n"
| "expr_node (BSequence _ n _) = Some n"
| "expr_node (BScalar _ n) = Some n"
| "expr_node (BAlias _ n) = Some n"
| "expr_node (BError _ _ _) = None"

fun Position :: "bexpr \<Rightarrow> string" where
  "Position (BField _ n _ _) = node_position n"
| "Position (BMapping _ n _ _) = node_position n"
| "Position (BSequence _ n _) = node_position n"
| "Position (BScalar _ n) = node_position n"
| "Position (BAlias _ n) = node_position n"
| "Position (BError _ position _) = position"

definition FullPosition :: "string \<Rightarrow> bexpr \<Rightarrow> string" where
  "FullPosition source e = source @ '':'' @ Position e"

text \<open>An error about the expression, with its position first.\<close>

definition expr_errorf :: "string \<Rightarrow> bexpr \<Rightarrow> string \<Rightarrow> go_arg list \<Rightarrow> go_error" where
  "expr_errorf source e format args = Errorf format (AStr (FullPosition source e) # args)"

definition newErrorExpression :: "bexpr \<Rightarrow> go_error \<Rightarrow> bexpr" where
  "newErrorExpression parent err = BError (expr_path parent) (Position parent) err"

section \<open>Type, name and target\<close>

text \<open>\<^verbatim>\<open>node.Tag[1:]\<close> panics on an empty tag. The format of the error has a verb too many.\<close>

definition etype :: "string \<Rightarrow> bexpr \<Rightarrow> string outcome" where
  "etype source e =
     (case (e, expr_node e) of
        (BError _ _ err, _) \<Rightarrow> Err err
      | (_, Some node) \<Rightarrow>
          if TaggedStyle \<notin> set (yn_Style node)
          then Err (expr_errorf source e ''%s:%s: no specified type'' [])
          else if yn_Tag node = [] then Panic ''slice bounds out of range''
          else Ok (tl (yn_Tag node))
      | (_, None) \<Rightarrow> Panic ''nil pointer dereference'')"

definition expr_name :: "string \<Rightarrow> bexpr \<Rightarrow> string outcome" where
  "expr_name source e =
     (case (e, expr_node e) of
        (BError _ _ err, _) \<Rightarrow> Err err
      | (_, Some node) \<Rightarrow>
          if yn_Anchor node = [] then Err (expr_errorf source e ''%s: no specified name'' [])
          else Ok (yn_Anchor node)
      | (_, None) \<Rightarrow> Panic ''nil pointer dereference'')"

definition expr_target :: "string \<Rightarrow> bexpr \<Rightarrow> string outcome" where
  "expr_target source e =
     (case e of
        BError _ _ err \<Rightarrow> Err err
      | BAlias _ node \<Rightarrow> Ok (yn_Value node)
      | _ \<Rightarrow> Err (expr_errorf source e ''%s: must be a variable name'' []))"

section \<open>Fields, maps and slices\<close>

definition expr_Key :: "string \<Rightarrow> bexpr \<Rightarrow> bexpr" where
  "expr_Key source e =
     (case e of
        BField _ _ key _ \<Rightarrow> key
      | BError _ _ _ \<Rightarrow> e
      | _ \<Rightarrow> newErrorExpression e (expr_errorf source e ''%s: must be a mapping field'' []))"

definition expr_Value :: "string \<Rightarrow> bexpr \<Rightarrow> bexpr" where
  "expr_Value source e =
     (case e of
        BField _ _ _ val \<Rightarrow> val
      | BError _ _ _ \<Rightarrow> e
      | _ \<Rightarrow> newErrorExpression e (expr_errorf source e ''%s: must be a mapping field'' []))"

text \<open>The positions in the index are always in range (\<open>fields_inv\<close> below).\<close>

definition TryField :: "string \<Rightarrow> bexpr \<Rightarrow> string \<Rightarrow> bexpr outcome" where
  "TryField source e name =
     (case e of
        BError _ _ err \<Rightarrow> Err err
      | BMapping _ _ index fields \<Rightarrow>
          (case gomap_get index name of
             None \<Rightarrow> Err (expr_errorf source e ''%s: missing '%s' field'' [AStr name])
           | Some i \<Rightarrow> Ok (expr_Value source (fields ! i)))
      | _ \<Rightarrow> Err (expr_errorf source e ''%s: must be a mapping'' []))"

text \<open>\<^verbatim>\<open>Field\<close> turns a failure into an error expression, which fails later; \<open>TryField\<close> does not panic.\<close>

definition Field :: "string \<Rightarrow> bexpr \<Rightarrow> string \<Rightarrow> bexpr" where
  "Field source e name =
     (case e of
        BError _ _ _ \<Rightarrow> e
      | _ \<Rightarrow>
          (case TryField source e name of
             Ok field \<Rightarrow> field
           | Err err \<Rightarrow> newErrorExpression e err
           | Panic p \<Rightarrow> newErrorExpression e (Errorf p [])))"

definition TryMap :: "string \<Rightarrow> bexpr \<Rightarrow> bexpr list outcome" where
  "TryMap source e =
     (case e of
        BError _ _ err \<Rightarrow> Err err
      | BMapping _ _ _ fields \<Rightarrow> Ok fields
      | _ \<Rightarrow> Err (expr_errorf source e ''%s: must be a mapping'' []))"

definition expr_Map :: "string \<Rightarrow> bexpr \<Rightarrow> bexpr list" where
  "expr_Map source e =
     (case e of
        BError _ _ _ \<Rightarrow> [e]
      | BMapping _ _ _ fields \<Rightarrow> fields
      | _ \<Rightarrow> [newErrorExpression e (expr_errorf source e ''%s: must be a mapping'' [])])"

definition TrySlice :: "string \<Rightarrow> bexpr \<Rightarrow> bexpr list outcome" where
  "TrySlice source e =
     (case e of
        BError _ _ err \<Rightarrow> Err err
      | BSequence _ _ items \<Rightarrow> Ok items
      | _ \<Rightarrow> Err (expr_errorf source e ''%s: must be a sequence'' []))"

definition Slice :: "string \<Rightarrow> bexpr \<Rightarrow> bexpr list" where
  "Slice source e =
     (case e of
        BError _ _ _ \<Rightarrow> [e]
      | BSequence _ _ items \<Rightarrow> items
      | _ \<Rightarrow> [newErrorExpression e (expr_errorf source e ''%s: must be a sequence'' [])])"

definition Finish :: "bexpr \<Rightarrow> unit outcome" where
  "Finish e = (case e of BError _ _ err \<Rightarrow> Err err | _ \<Rightarrow> Ok ())"

section \<open>Building the tree\<close>

text \<open>
  \<open>parse_fields\<close> is the loop of \<^verbatim>\<open>parseBenchmarkYamlMapping\<close> over the pairs of the content (a last
  node without a partner is ignored), \<open>parse_items\<close> that of \<^verbatim>\<open>parseBenchmarkYamlSequence\<close>.
\<close>

fun parseBenchmarkYaml :: "string \<Rightarrow> path \<Rightarrow> yaml_node \<Rightarrow> bexpr outcome"
  and parse_fields ::
    "string \<Rightarrow> path \<Rightarrow> yaml_node list \<Rightarrow> (string, nat) gomap \<Rightarrow> bexpr list
       \<Rightarrow> ((string, nat) gomap \<times> bexpr list) outcome"
  and parse_items :: "string \<Rightarrow> path \<Rightarrow> yaml_node list \<Rightarrow> bexpr list \<Rightarrow> bexpr list outcome" where
  "parseBenchmarkYaml source p (YamlNode kind style tag val anchor content line column) =
     (let node = YamlNode kind style tag val anchor content line column in
      case kind of
        MappingNode \<Rightarrow>
          obind (parse_fields source p content [] []) (\<lambda>(index, fields). Ok (BMapping p node index fields))
      | SequenceNode \<Rightarrow>
          obind (parse_items source p content []) (\<lambda>items. Ok (BSequence p node items))
      | ScalarNode \<Rightarrow> Ok (BScalar p node)
      | AliasNode \<Rightarrow> Ok (BAlias p node)
      | DocumentNode \<Rightarrow> Panic ''not yet implemented'')"
| "parse_fields source p (key # val # content) index fields =
     (let i = length fields in
      case gomap_get index (yn_Value key) of
        Some j \<Rightarrow> Err (Errorf ''%s:%d:%d: field defined twice (previously at %s)''
          [AStr source, AInt (int (yn_Line key)), AInt (int (yn_Column key)),
           AStr (Position (expr_Key source (fields ! j)))])
      | None \<Rightarrow>
          obind (parseBenchmarkYaml source (0 # i # p) key) (\<lambda>k.
          obind (parseBenchmarkYaml source (1 # i # p) val) (\<lambda>v.
          parse_fields source p content (gomap_set (yn_Value key) i index)
            (fields @ [BField (i # p) key k v]))))"
| "parse_fields source p content index fields = Ok (index, fields)"
| "parse_items source p [] items = Ok items"
| "parse_items source p (child # content) items =
     obind (parseBenchmarkYaml source (length items # p) child) (\<lambda>e.
     parse_items source p content (items @ [e]))"

section \<open>Well-formed expressions\<close>

fun is_field :: "bexpr \<Rightarrow> bool" where
  "is_field (BField _ _ _ _) = True"
| "is_field _ = False"

fun field_name :: "bexpr \<Rightarrow> string" where
  "field_name (BField _ key _ _) = yn_Value key"
| "field_name _ = []"

text \<open>The index of a mapping is the inverse of the names of its fields.\<close>

definition fields_inv :: "(string, nat) gomap \<Rightarrow> bexpr list \<Rightarrow> bool" where
  "fields_inv index fields \<longleftrightarrow>
     (\<forall>name i. gomap_get index name = Some i \<longleftrightarrow> i < length fields \<and> field_name (fields ! i) = name) \<and>
     list_all is_field fields"

lemma fields_inv_Nil [simp]: "fields_inv [] []"
  by (simp add: fields_inv_def)

lemma fields_inv_append:
  assumes "fields_inv index fields" and "gomap_get index (yn_Value key) = None"
  shows "fields_inv (gomap_set (yn_Value key) (length fields) index) (fields @ [BField q key k v])"
proof -
  let ?n = "length fields" and ?f = "BField q key k v"
  have old: "gomap_get index name = Some i \<longleftrightarrow> i < ?n \<and> field_name (fields ! i) = name" for name i
    using assms(1) by (simp add: fields_inv_def)
  have "gomap_get (gomap_set (yn_Value key) ?n index) name = Some i \<longleftrightarrow>
      i < Suc ?n \<and> field_name ((fields @ [?f]) ! i) = name" for name i
  proof (cases "i < ?n")
    case True
    then have "field_name (fields ! i) \<noteq> yn_Value key" using assms(2) old [of "yn_Value key" i] by simp
    then show ?thesis using True old [of name i] by (auto simp: nth_append)
  next
    case False
    then have "gomap_get index name \<noteq> Some i" using old [of name i] by simp
    then show ?thesis using False by (auto simp: nth_append less_Suc_eq)
  qed
  then show ?thesis using assms(1) by (simp add: fields_inv_def)
qed

lemma fields_inv_distinct: "fields_inv index fields \<Longrightarrow> distinct (map field_name fields)"
  unfolding fields_inv_def distinct_conv_nth by (metis length_map nth_map option.inject)

inductive expr_wf :: "path \<Rightarrow> bexpr \<Rightarrow> bool" where
  wf_scalar: "yn_Kind node = ScalarNode \<Longrightarrow> expr_wf p (BScalar p node)"
| wf_alias: "yn_Kind node = AliasNode \<Longrightarrow> expr_wf p (BAlias p node)"
| wf_field: "expr_wf (0 # p) key \<Longrightarrow> expr_wf (1 # p) val \<Longrightarrow> expr_wf p (BField p node key val)"
| wf_sequence:
    "yn_Kind node = SequenceNode \<Longrightarrow> (\<And>i. i < length items \<Longrightarrow> expr_wf (i # p) (items ! i)) \<Longrightarrow>
     expr_wf p (BSequence p node items)"
| wf_mapping:
    "yn_Kind node = MappingNode \<Longrightarrow> fields_inv index fields \<Longrightarrow>
     (\<And>i. i < length fields \<Longrightarrow> expr_wf (i # p) (fields ! i)) \<Longrightarrow>
     expr_wf p (BMapping p node index fields)"

inductive_cases expr_wf_mappingE: "expr_wf p (BMapping q node index fields)"
inductive_cases expr_wf_sequenceE: "expr_wf p (BSequence q node items)"
inductive_cases expr_wf_fieldE: "expr_wf p (BField q node key val)"
inductive_cases expr_wf_errorE: "expr_wf p (BError q position err)"

lemma obind_Ok_iff: "obind m f = Ok b \<longleftrightarrow> (\<exists>a. m = Ok a \<and> f a = Ok b)"
  by (simp add: obind_def split: outcome.splits)

definition items_wf :: "path \<Rightarrow> bexpr list \<Rightarrow> bool" where
  "items_wf p items \<longleftrightarrow> (\<forall>i < length items. expr_wf (i # p) (items ! i))"

lemma items_wf_append: "items_wf p items \<Longrightarrow> expr_wf (length items # p) e \<Longrightarrow> items_wf p (items @ [e])"
  by (simp add: items_wf_def nth_append less_Suc_eq)

lemma parse_wf:
  "parseBenchmarkYaml source p node = Ok e \<Longrightarrow> expr_wf p e"
  "parse_fields source p content index fields = Ok (index', fields') \<Longrightarrow> fields_inv index fields \<Longrightarrow>
     items_wf p fields \<Longrightarrow> fields_inv index' fields' \<and> items_wf p fields'"
  "parse_items source p content items = Ok items' \<Longrightarrow> items_wf p items \<Longrightarrow> items_wf p items'"
proof (induction source p node and source p content index fields and source p content items
    arbitrary: e and index' fields' and items'
    rule: parseBenchmarkYaml_parse_fields_parse_items.induct)
  case (1 source p kind style tag val anchor content line column)
  have nil: "items_wf p []" by (simp add: items_wf_def)
  show ?case
  proof (cases kind)
    case SequenceNode
    with "1.prems" obtain items where "parse_items source p content [] = Ok items"
      "e = BSequence p (YamlNode kind style tag val anchor content line column) items"
      by (auto simp: obind_Ok_iff)
    then show ?thesis using "1.IH"(1) [OF refl SequenceNode _ nil] SequenceNode
      by (auto simp: items_wf_def intro!: expr_wf.wf_sequence)
  next
    case MappingNode
    with "1.prems" obtain index fields where "parse_fields source p content [] [] = Ok (index, fields)"
      "e = BMapping p (YamlNode kind style tag val anchor content line column) index fields"
      by (auto simp: obind_Ok_iff)
    then show ?thesis using "1.IH"(2) [OF refl MappingNode _ fields_inv_Nil nil] MappingNode
      by (auto simp: items_wf_def intro!: expr_wf.wf_mapping)
  qed (use "1.prems" in \<open>auto intro: expr_wf.intros\<close>)
next
  case (2 source p key val content index fields)
  let ?i = "length fields"
  from "2.prems"(1) obtain k v where new: "gomap_get index (yn_Value key) = None"
    "parseBenchmarkYaml source (0 # ?i # p) key = Ok k" "parseBenchmarkYaml source (1 # ?i # p) val = Ok v"
    "parse_fields source p content (gomap_set (yn_Value key) ?i index) (fields @ [BField (?i # p) key k v]) =
      Ok (index', fields')"
    by (auto simp: Let_def obind_Ok_iff split: option.splits)
  have "expr_wf (0 # ?i # p) k" "expr_wf (1 # ?i # p) v"
    using "2.IH"(1) [OF refl new(1)] "2.IH"(2) [OF refl new(1)] new(2,3) by simp_all
  then have "items_wf p (fields @ [BField (?i # p) key k v])"
    using "2.prems"(3) by (intro items_wf_append expr_wf.wf_field)
  then show ?case
    using "2.IH"(3) [OF refl new(1)] new(2-4) fields_inv_append [OF "2.prems"(2) new(1)] by simp
next
  case (5 source p child content items)
  then show ?case by (auto simp: obind_Ok_iff intro: items_wf_append)
qed auto

text \<open>The fields of a mapping, one per pair of the content.\<close>

definition field_of :: "string \<Rightarrow> path \<Rightarrow> nat \<Rightarrow> yaml_node \<Rightarrow> yaml_node \<Rightarrow> bexpr \<Rightarrow> bool" where
  "field_of source p i key val f \<longleftrightarrow>
     (\<exists>k v. f = BField (i # p) key k v \<and> parseBenchmarkYaml source (1 # i # p) val = Ok v)"

lemma parse_fields_values:
  "parse_fields source p content index fields = Ok (index', fields') \<Longrightarrow>
   \<exists>new. fields' = fields @ new \<and> length new = length content div 2 \<and>
     (\<forall>i < length new. field_of source p (length fields + i) (content ! (2 * i)) (content ! (2 * i + 1)) (new ! i))"
proof (induction content arbitrary: index fields rule: induct_list012)
  case (3 key val content)
  let ?i = "length fields"
  from "3.prems" obtain k v where kv: "parseBenchmarkYaml source (1 # ?i # p) val = Ok v"
    "parse_fields source p content (gomap_set (yn_Value key) ?i index) (fields @ [BField (?i # p) key k v]) =
      Ok (index', fields')"
    by (auto simp: Let_def obind_Ok_iff split: option.splits)
  from "3.IH"(1) [OF kv(2)] obtain new where new:
    "fields' = fields @ BField (?i # p) key k v # new" "length new = length content div 2"
    "\<And>i. i < length new \<Longrightarrow> field_of source p (Suc ?i + i) (content ! (2 * i)) (content ! (2 * i + 1)) (new ! i)"
    by auto
  let ?new = "BField (?i # p) key k v # new"
  have "field_of source p (?i + i) ((key # val # content) ! (2 * i)) ((key # val # content) ! (2 * i + 1)) (?new ! i)"
    if "i < length ?new" for i
  proof (cases i)
    case 0
    then show ?thesis using kv(1) by (simp add: field_of_def)
  next
    case (Suc j)
    then show ?thesis using new(3) [of j] that by simp
  qed
  then show ?case using new(1,2) by (intro exI [of _ ?new]) simp
qed auto

lemma parse_mapping_spec:
  assumes "parseBenchmarkYaml source p node = Ok e" and "yn_Kind node = MappingNode"
  shows "\<exists>index fields. e = BMapping p node index fields \<and> fields_inv index fields \<and>
    length fields = length (yn_Content node) div 2 \<and>
    (\<forall>i < length fields. field_of source p i (yn_Content node ! (2 * i)) (yn_Content node ! (2 * i + 1)) (fields ! i))"
proof -
  obtain index fields where f: "parse_fields source p (yn_Content node) [] [] = Ok (index, fields)"
    "e = BMapping p node index fields"
    using assms by (cases node) (auto simp: obind_Ok_iff)
  have "fields_inv index fields" using parse_wf(2) [OF f(1)] by (simp add: items_wf_def)
  with parse_fields_values [OF f(1)] f(2) show ?thesis by auto
qed

fun no_document :: "yaml_node \<Rightarrow> bool" where
  "no_document (YamlNode kind _ _ _ _ content _ _) \<longleftrightarrow> kind \<noteq> DocumentNode \<and> list_all no_document content"

lemma parse_no_panic:
  "no_document node \<Longrightarrow> parseBenchmarkYaml source p node \<noteq> Panic q"
  "list_all no_document content \<Longrightarrow> parse_fields source p content index fields \<noteq> Panic q"
  "list_all no_document content \<Longrightarrow> parse_items source p content items \<noteq> Panic q"
proof (induction source p node and source p content index fields and source p content items
    arbitrary: q and q and q rule: parseBenchmarkYaml_parse_fields_parse_items.induct)
  case (1 source p kind style tag val anchor content line column)
  then show ?case by (cases kind) (auto simp: obind_def split: outcome.splits)
next
  case (2 source p key val content index fields)
  then show ?case by (cases "gomap_get index (yn_Value key)") (auto simp: Let_def obind_def split: outcome.splits)
next
  case (5 source p child content items)
  then show ?case by (auto simp: obind_def split: outcome.splits)
qed auto

section \<open>Properties\<close>

text \<open>
  C36: Building the expression of a YAML tree without a nested document never panics, and what it
  builds is well-formed: every subexpression knows its place in the tree, is of the class of
  its node, and the index of every mapping is the inverse of the names of its fields.
\<close>

theorem parsed_expression_well_formed:
  assumes "no_document node"
  shows "case parseBenchmarkYaml source p node of Ok e \<Rightarrow> expr_wf p e | Err _ \<Rightarrow> True | Panic _ \<Rightarrow> False"
  using parse_wf(1) [of source p node] parse_no_panic(1) [OF assms] by (auto split: outcome.splits)

text \<open>
  The expression of a mapping gives every field back under its name: \<open>TryField\<close> with the name
  of the \<open>i\<close>-th key is the expression of the \<open>i\<close>-th value, with any other name an error; a mapping
  with two equal keys is refused.
\<close>

theorem mapping_lookup:
  assumes "parseBenchmarkYaml source p node = Ok e" and "yn_Kind node = MappingNode"
    and "n = length (yn_Content node) div 2"
  shows "distinct (map (\<lambda>i. yn_Value (yn_Content node ! (2 * i))) [0..<n]) \<and>
    (\<forall>i. i < n \<longrightarrow> TryField source e (yn_Value (yn_Content node ! (2 * i))) =
       parseBenchmarkYaml source (1 # i # p) (yn_Content node ! (2 * i + 1))) \<and>
    (\<forall>name. name \<notin> (\<lambda>i. yn_Value (yn_Content node ! (2 * i))) ` {..<n} \<longrightarrow>
       TryField source e name = Err (expr_errorf source e ''%s: missing '%s' field'' [AStr name]))"
proof -
  let ?key = "\<lambda>i. yn_Value (yn_Content node ! (2 * i))"
  obtain index fields where f: "e = BMapping p node index fields" "fields_inv index fields" "length fields = n"
    "\<And>i. i < n \<Longrightarrow> field_of source p i (yn_Content node ! (2 * i)) (yn_Content node ! (2 * i + 1)) (fields ! i)"
    using parse_mapping_spec [OF assms(1,2)] assms(3) by metis
  have names: "field_name (fields ! i) = ?key i" if "i < n" for i
    using f(4) [OF that] by (auto simp: field_of_def)
  then have keys: "map field_name fields = map ?key [0..<n]"
    using f(3) by (intro nth_equalityI) auto
  have get: "gomap_get index name = Some i \<longleftrightarrow> i < n \<and> ?key i = name" for name i
    using f(2,3) names by (auto simp: fields_inv_def)
  have "TryField source e (?key i) = parseBenchmarkYaml source (1 # i # p) (yn_Content node ! (2 * i + 1))"
    if "i < n" for i
    using get [of "?key i" i] f(4) [OF that] that by (auto simp: TryField_def f(1) expr_Value_def field_of_def)
  moreover have "TryField source e name = Err (expr_errorf source e ''%s: missing '%s' field'' [AStr name])"
    if "name \<notin> ?key ` {..<n}" for name
  proof -
    have "gomap_get index name \<noteq> Some i" for i using get [of name i] that by auto
    then have "gomap_get index name = None" by (metis not_None_eq)
    then show ?thesis by (simp add: TryField_def f(1))
  qed
  ultimately show ?thesis using fields_inv_distinct [OF f(2)] keys by auto
qed

definition demo_scalar :: "string \<Rightarrow> yaml_node" where
  "demo_scalar v = YamlNode ScalarNode [] [] v [] [] 1 1"

definition demo_mapping :: yaml_node where
  "demo_mapping = YamlNode MappingNode [] [] [] []
     [demo_scalar ''number'', demo_scalar ''2'', demo_scalar ''client'', demo_scalar ''x''] 1 1"

theorem parsed_expression_well_formed_witness:
  "case parseBenchmarkYaml ''b.yaml'' [] demo_mapping of Ok e \<Rightarrow> expr_wf [] e | Err _ \<Rightarrow> True | Panic _ \<Rightarrow> False"
  by (rule parsed_expression_well_formed) (simp add: demo_mapping_def demo_scalar_def)

theorem mapping_lookup_witness:
  "\<exists>e. parseBenchmarkYaml ''b.yaml'' [] demo_mapping = Ok e \<and>
     TryField ''b.yaml'' e ''client'' = Ok (BScalar [1, 1] (demo_scalar ''x''))"
proof -
  obtain e where e: "parseBenchmarkYaml ''b.yaml'' [] demo_mapping = Ok e"
    by (simp add: demo_mapping_def demo_scalar_def obind_def)
  have "TryField ''b.yaml'' e (yn_Value (yn_Content demo_mapping ! (2 * 1))) =
      parseBenchmarkYaml ''b.yaml'' [1, 1] (yn_Content demo_mapping ! (2 * 1 + 1))"
    by (rule mapping_lookup [OF e, of 2, THEN conjunct2, THEN conjunct1, rule_format, of 1])
      (simp_all add: demo_mapping_def)
  with e show ?thesis by (simp add: demo_mapping_def demo_scalar_def)
qed

end
