(* ===== verification/Core_Variable.thy ===== *)
theory Core_Variable
  imports Core_Primary Core_Yaml
begin

text \<open>
  Random variables, scopes and the values of expressions (\<^verbatim>\<open>src/core/variable.go\<close>, \<^verbatim>\<open>scope.go\<close>,
  \<^verbatim>\<open>system.go\<close>, \<^verbatim>\<open>location.go\<close>, the sample factories of \<^verbatim>\<open>builtin.go\<close> and \<^verbatim>\<open>blockchain.go\<close>, and the
  methods of \<^verbatim>\<open>BenchmarkExpression\<close> in \<^verbatim>\<open>benchmark.go\<close> that read or change state). The objects that
  are shared and mutated live in a \<open>world\<close>: variables with their distributions, the entries of the
  scopes, the local scope of every expression, the seed generator, the state of the blockchain
  builder, and the secondaries. Code outside the repository is a field of the environment:
  the random source, regular expressions, the YAML decoder of a scalar and the blockchain builder.
\<close>

section \<open>Values, samples and variables\<close>

text \<open>The resources of a benchmark; an \<open>ROpaque\<close> is an account or a contract of the builder.\<close>

datatype 'r resource = RLocation nat | REndpoint parsedEndpoint | ROpaque 'r

type_synonym 'r bvalue = "'r resource gvalue"

datatype 'r sample = SInt intSample | SFloat floatSample | SElem "'r bvalue list"

fun Sample_Size :: "'r sample \<Rightarrow> int" where
  "Sample_Size (SInt s) = intSample_Size s"
| "Sample_Size (SFloat s) = floatSample_Size s"
| "Sample_Size (SElem es) = elementSample_Size es"

fun Sample_Get :: "'r sample \<Rightarrow> int \<Rightarrow> 'r bvalue outcome" where
  "Sample_Get (SInt s) index = Ok (intSample_Get s index)"
| "Sample_Get (SFloat s) index = Ok (floatSample_Get s index)"
| "Sample_Get (SElem es) index = elementSample_Get es index"

record ('g, 'r) VariableImpl =
  vi_domain :: string
  vi_sample :: "'r sample"
  vi_distrib :: "'g uniformDistribution"

section \<open>The world\<close>

text \<open>
  A scope is a pointer: an address for its entries and its parent, which never changes. A
  variable is an address; an entry may hold the nil variable.
\<close>

datatype basicScope = Scope nat "basicScope option"

record basicScopeEntry =
  bse_variable :: "nat option"
  bse_domain :: string

record ('g, 'b, 'r) world =
  w_seedGenerator :: 'g
  w_builder :: 'b
  w_slocal :: "(path, basicScope) gomap"
  w_top :: basicScope
  w_entries :: "(string, basicScopeEntry) gomap list"
  w_vars :: "('g, 'r) VariableImpl list"
  w_secondaries :: "remoteSecondary list"

text \<open>What a builder is told of an interaction; only the global index and the time are ever set.\<close>

record interactionInformation =
  ii_globalIndex :: int
  ii_clientIndex :: int
  ii_localIndex :: int
  ii_scheduleTime :: f64

definition TotalOrder :: "interactionInformation \<Rightarrow> int" where
  "TotalOrder info = ii_globalIndex info"

definition ClientOrder :: "interactionInformation \<Rightarrow> int" where
  "ClientOrder info = ii_localIndex info"

definition Timestamp :: "interactionInformation \<Rightarrow> f64" where
  "Timestamp info = ii_scheduleTime info"

definition ClientId :: "interactionInformation \<Rightarrow> int" where
  "ClientId info = ii_clientIndex info"

datatype yaml_value = YInt int | YFloat f64 | YOther

record ('g, 'b, 'r, 'x) env =
  env_path :: string
  env_NewSource :: "int \<Rightarrow> 'g"
  env_Int :: "'g \<Rightarrow> nat \<times> 'g"
  env_Int63 :: "'g \<Rightarrow> int \<times> 'g"
  env_Compile :: "string \<Rightarrow> 'x outcome"
  env_MatchString :: "'x \<Rightarrow> string \<Rightarrow> bool"
  env_Decode :: "yaml_node \<Rightarrow> yaml_value outcome"
  env_setup :: parsedSetup
  env_CreateAccount :: "int \<Rightarrow> ('b, 'r) go"
  env_CreateContract :: "string \<Rightarrow> ('b, 'r) go"
  env_CreateResource :: "string \<Rightarrow> (bexpr \<Rightarrow> (('g, 'b, 'r) world, 'r sample) go) option"
  env_EncodeTransfer :: "int \<Rightarrow> 'r bvalue \<Rightarrow> 'r bvalue \<Rightarrow> interactionInformation \<Rightarrow> ('b, byte list) go"
  env_EncodeInvoke :: "'r bvalue \<Rightarrow> 'r bvalue \<Rightarrow> string \<Rightarrow> interactionInformation \<Rightarrow> ('b, byte list) go"
  env_EncodeInteraction :: "string \<Rightarrow> bexpr \<Rightarrow> interactionInformation \<Rightarrow> (('g, 'b, 'r) world, byte list) go"

definition on_builder :: "('b, 'a) go \<Rightarrow> (('g, 'b, 'r) world, 'a) go" where
  "on_builder m = gzoom w_builder (\<lambda>b w. w\<lparr>w_builder := b\<rparr>) m"

section \<open>Variables\<close>

definition newVariable ::
  "string \<Rightarrow> 'r sample \<Rightarrow> 'g uniformDistribution \<Rightarrow> (('g, 'b, 'r) world, nat) go" where
  "newVariable domain sample distrib = (\<lambda>w.
     (Ok (length (w_vars w)),
      w\<lparr>w_vars := w_vars w @ [\<lparr>vi_domain = domain, vi_sample = sample, vi_distrib = distrib\<rparr>]\<rparr>))"

text \<open>Using the nil variable, like any nil interface, panics.\<close>

definition get_var :: "nat option \<Rightarrow> (('g, 'b, 'r) world, ('g, 'r) VariableImpl) go" where
  "get_var v = (\<lambda>w.
     (case v of
        Some i \<Rightarrow> if i < length (w_vars w) then Ok (w_vars w ! i) else Panic ''nil pointer dereference''
      | None \<Rightarrow> Panic ''nil pointer dereference'', w))"

definition copyVariable ::
  "('g, 'b, 'r, 'x) env \<Rightarrow> nat option \<Rightarrow> int \<Rightarrow> VariableType \<Rightarrow> (('g, 'b, 'r) world, nat) go" where
  "copyVariable env source seed vtype =
     gbind (get_var source) (\<lambda>v.
     gbind (glift (Copy (env_NewSource env) seed vtype (vi_distrib v))) (\<lambda>dcopy.
     newVariable (vi_domain v) (vi_sample v) dcopy))"

text \<open>\<^verbatim>\<open>Get\<close> is nil when the distribution is exhausted.\<close>

definition Variable_Get ::
  "('g, 'b, 'r, 'x) env \<Rightarrow> nat option \<Rightarrow> (('g, 'b, 'r) world, 'r bvalue option) go" where
  "Variable_Get env v =
     gbind (get_var v) (\<lambda>var. \<lambda>w.
       case Select (env_Int env) (vi_distrib var) of (r, d) \<Rightarrow>
         let w = w\<lparr>w_vars := (w_vars w)[the v := var\<lparr>vi_distrib := d\<rparr>]\<rparr> in
         (case r of
            Ok index \<Rightarrow> obind (Sample_Get (vi_sample var) index) (\<lambda>x. Ok (Some x))
          | Err _ \<Rightarrow> Ok None
          | Panic p \<Rightarrow> Panic p, w))"

text \<open>
  The typed wrappers hold the variable they wrap: they are the variable itself, and their
  methods are functions of it.
\<close>

definition newUniform ::
  "('g, 'b, 'r, 'x) env \<Rightarrow> int \<Rightarrow> int \<Rightarrow> VariableType \<Rightarrow> (('g, 'b, 'r) world, 'g uniformDistribution) go" where
  "newUniform env sz seed vtype = glift (newUniformDistribution (env_NewSource env) sz seed vtype)"

definition newFloatImmediate ::
  "('g, 'b, 'r, 'x) env \<Rightarrow> f64 \<Rightarrow> (('g, 'b, 'r) world, nat) go" where
  "newFloatImmediate env val =
     (let multiplier = infer_multiplier (near_int val) multiplier_rounds 1 in
      gbind (newUniform env 1 0 TypeRegular) (\<lambda>d.
      newVariable ''float'' (SFloat (newFloatSample val val multiplier)) d))"

definition floatVariable_TryGetFloat ::
  "('g, 'b, 'r, 'x) env \<Rightarrow> nat option \<Rightarrow> (('g, 'b, 'r) world, f64 option) go" where
  "floatVariable_TryGetFloat env v =
     gbind (Variable_Get env v) (\<lambda>opaque.
     gret (case opaque of
        Some (GFloat f) \<Rightarrow> Some f
      | Some (GInt i) \<Rightarrow> Some (f64_of_int i)
      | _ \<Rightarrow> None))"

definition floatVariable_GetFloat ::
  "('g, 'b, 'r, 'x) env \<Rightarrow> nat option \<Rightarrow> f64 \<Rightarrow> (('g, 'b, 'r) world, f64) go" where
  "floatVariable_GetFloat env v defaultValue =
     gbind (floatVariable_TryGetFloat env v) (\<lambda>r. gret (case r of Some f \<Rightarrow> f | None \<Rightarrow> defaultValue))"

definition newIntImmediate ::
  "('g, 'b, 'r, 'x) env \<Rightarrow> int \<Rightarrow> (('g, 'b, 'r) world, nat) go" where
  "newIntImmediate env val =
     gbind (newUniform env 1 0 TypeRegular) (\<lambda>d.
     newVariable ''integer'' (SInt (newIntSample val val)) d)"

text \<open>A failed type assertion panics.\<close>

definition intVariable_TryGetInt ::
  "('g, 'b, 'r, 'x) env \<Rightarrow> nat option \<Rightarrow> (('g, 'b, 'r) world, int option) go" where
  "intVariable_TryGetInt env v =
     gbind (Variable_Get env v) (\<lambda>opaque.
     case opaque of
       None \<Rightarrow> gret None
     | Some (GInt i) \<Rightarrow> gret (Some i)
     | Some _ \<Rightarrow> gpanic ''interface conversion'')"

definition intVariable_TryGetFloat ::
  "('g, 'b, 'r, 'x) env \<Rightarrow> nat option \<Rightarrow> (('g, 'b, 'r) world, f64 option) go" where
  "intVariable_TryGetFloat env v =
     gbind (intVariable_TryGetInt env v) (\<lambda>r. gret (map_option f64_of_int r))"

definition intVariable_GetInt ::
  "('g, 'b, 'r, 'x) env \<Rightarrow> nat option \<Rightarrow> int \<Rightarrow> (('g, 'b, 'r) world, int) go" where
  "intVariable_GetInt env v defaultValue =
     gbind (intVariable_TryGetInt env v) (\<lambda>r. gret (case r of Some i \<Rightarrow> i | None \<Rightarrow> defaultValue))"

definition intVariable_GetFloat ::
  "('g, 'b, 'r, 'x) env \<Rightarrow> nat option \<Rightarrow> f64 \<Rightarrow> (('g, 'b, 'r) world, f64) go" where
  "intVariable_GetFloat env v defaultValue =
     gbind (intVariable_TryGetFloat env v) (\<lambda>r. gret (case r of Some f \<Rightarrow> f | None \<Rightarrow> defaultValue))"

definition newStringImmediate ::
  "('g, 'b, 'r, 'x) env \<Rightarrow> string \<Rightarrow> (('g, 'b, 'r) world, nat) go" where
  "newStringImmediate env val =
     gbind (newUniform env 1 0 TypeRegular) (\<lambda>d. newVariable ''string'' (SElem [GStr val]) d)"

definition stringVariable_TryGetString ::
  "('g, 'b, 'r, 'x) env \<Rightarrow> nat option \<Rightarrow> (('g, 'b, 'r) world, string option) go" where
  "stringVariable_TryGetString env v =
     gbind (Variable_Get env v) (\<lambda>opaque.
     case opaque of
       None \<Rightarrow> gret None
     | Some (GStr s) \<Rightarrow> gret (Some s)
     | Some _ \<Rightarrow> gpanic ''interface conversion'')"

definition stringVariable_GetString ::
  "('g, 'b, 'r, 'x) env \<Rightarrow> nat option \<Rightarrow> string \<Rightarrow> (('g, 'b, 'r) world, string) go" where
  "stringVariable_GetString env v defaultValue =
     gbind (stringVariable_TryGetString env v) (\<lambda>r. gret (case r of Some s \<Rightarrow> s | None \<Rightarrow> defaultValue))"

end
