(* ===== verification/Core_Scope.thy ===== *)
theory Core_Scope
  imports Core_Variable
begin

text \<open>
  Scopes and the values of expressions: the lookup of a name in a chain of scopes
  (\<^verbatim>\<open>src/core/scope.go\<close>), the current scope of an expression, the values of scalars and aliases
  (\<^verbatim>\<open>src/core/benchmark.go\<close>), the sample factories (\<^verbatim>\<open>builtin.go\<close>, \<^verbatim>\<open>blockchain.go\<close>, \<^verbatim>\<open>location.go\<close>,
  \<^verbatim>\<open>setup.go\<close>), the registry of factories (\<^verbatim>\<open>system.go\<close>) and the definition of variables
  (\<^verbatim>\<open>variable.go\<close>).
\<close>

section \<open>Scopes\<close>

fun scope_get ::
  "(string, basicScopeEntry) gomap list \<Rightarrow> basicScope \<Rightarrow> string \<Rightarrow> (nat option \<times> string) option" where
  "scope_get entries (Scope i parent) name =
     (case gomap_get (if i < length entries then entries ! i else []) name of
        Some entry \<Rightarrow> Some (bse_variable entry, bse_domain entry)
      | None \<Rightarrow>
          (case parent of
             None \<Rightarrow> None
           | Some up \<Rightarrow> scope_get entries up name))"

definition scope_init :: "basicScope option \<Rightarrow> (('g, 'b, 'r) world, basicScope) go" where
  "scope_init parent = (\<lambda>w. (Ok (Scope (length (w_entries w)) parent), w\<lparr>w_entries := w_entries w @ [[]]\<rparr>))"

fun scope_id :: "basicScope \<Rightarrow> nat" where
  "scope_id (Scope i _) = i"

definition scope_add ::
  "basicScope \<Rightarrow> string \<Rightarrow> string \<Rightarrow> nat option \<Rightarrow> (('g, 'b, 'r) world, unit) go" where
  "scope_add sc name domain v =
     gmodify (\<lambda>w. w\<lparr>w_entries := (w_entries w)[scope_id sc :=
       gomap_set name \<lparr>bse_variable = v, bse_domain = domain\<rparr> (w_entries w ! scope_id sc)]\<rparr>)"

text \<open>
  The local scope of an expression, and the current one: the local scope of the nearest
  expression above that has one, or the top scope of the parsing context. Specialising an error
  expression does nothing.
\<close>

definition expr_local :: "('g, 'b, 'r) world \<Rightarrow> bexpr \<Rightarrow> basicScope option" where
  "expr_local w e = (case e of BError _ _ _ \<Rightarrow> None | _ \<Rightarrow> gomap_get (w_slocal w) (expr_path e))"

fun current_at :: "('g, 'b, 'r) world \<Rightarrow> path \<Rightarrow> basicScope" where
  "current_at w p =
     (case gomap_get (w_slocal w) p of
        Some sc \<Rightarrow> sc
      | None \<Rightarrow> (case p of [] \<Rightarrow> w_top w | _ # q \<Rightarrow> current_at w q))"

declare current_at.simps [simp del]

definition current :: "('g, 'b, 'r) world \<Rightarrow> bexpr \<Rightarrow> basicScope" where
  "current w e = current_at w (expr_path e)"

definition specialize :: "bexpr \<Rightarrow> basicScope option \<Rightarrow> ('g, 'b, 'r) world \<Rightarrow> ('g, 'b, 'r) world" where
  "specialize e sc w =
     (case e of
        BError _ _ _ \<Rightarrow> w
      | _ \<Rightarrow>
          (case sc of
             Some s \<Rightarrow> w\<lparr>w_slocal := gomap_set (expr_path e) s (w_slocal w)\<rparr>
           | None \<Rightarrow> w\<lparr>w_slocal := gomap_del (expr_path e) (w_slocal w)\<rparr>))"

section \<open>Values of expressions\<close>

definition src_errorf ::
  "('g, 'b, 'r, 'x) env \<Rightarrow> bexpr \<Rightarrow> string \<Rightarrow> go_arg list \<Rightarrow> (('g, 'b, 'r) world, 'a) go" where
  "src_errorf env e format args = gerr (expr_errorf (env_path env) e format args)"

text \<open>The lookup of an alias in the current scope.\<close>

definition alias_get ::
  "('g, 'b, 'r, 'x) env \<Rightarrow> bexpr \<Rightarrow> (('g, 'b, 'r) world, nat option \<times> string) go" where
  "alias_get env e =
     gbind (glift (expr_target (env_path env) e)) (\<lambda>name.
     gbind (gread (\<lambda>w. scope_get (w_entries w) (current w e) name)) (\<lambda>r.
     case r of
       None \<Rightarrow> src_errorf env e (''%s: unknown variable '%s'' @ apos) [AStr name]
     | Some entry \<Rightarrow> gret entry))"

definition expr_Resource ::
  "('g, 'b, 'r, 'x) env \<Rightarrow> bexpr \<Rightarrow> string \<Rightarrow> (('g, 'b, 'r) world, nat option) go" where
  "expr_Resource env e domain =
     (case e of
        BError _ _ err \<Rightarrow> gerr err
      | BAlias _ _ \<Rightarrow>
          gbind (alias_get env e) (\<lambda>(v, vdomain).
          if vdomain \<noteq> domain
          then src_errorf env e (''%s: cannot convert '%s' to '%s'' @ apos) [AStr vdomain, AStr domain]
          else gret v)
      | _ \<Rightarrow> src_errorf env e (''%s: must be a resource of domain '%s'' @ apos) [AStr domain])"

definition expr_GetResource ::
  "('g, 'b, 'r, 'x) env \<Rightarrow> bexpr \<Rightarrow> string \<Rightarrow> (('g, 'b, 'r) world, 'r bvalue) go" where
  "expr_GetResource env e domain =
     (case e of
        BAlias _ _ \<Rightarrow>
          gbind (expr_Resource env e domain) (\<lambda>v.
          gbind (Variable_Get env v) (\<lambda>r.
          case r of
            None \<Rightarrow> src_errorf env e ''%s: variable exhausted'' []
          | Some x \<Rightarrow> gret x))
      | BError _ _ err \<Rightarrow> gerr err
      | _ \<Rightarrow> src_errorf env e (''%s: must be a resource of domain '%s'' @ apos) [AStr domain])"

definition quoted :: "yaml_node \<Rightarrow> bool" where
  "quoted node \<longleftrightarrow> DoubleQuotedStyle \<in> set (yn_Style node) \<or> SingleQuotedStyle \<in> set (yn_Style node)"

definition scalar_GetInt ::
  "('g, 'b, 'r, 'x) env \<Rightarrow> bexpr \<Rightarrow> yaml_node \<Rightarrow> (('g, 'b, 'r) world, int) go" where
  "scalar_GetInt env e node =
     (if quoted node then src_errorf env e ''%s: must be an int'' []
      else case env_Decode env node of
        Ok (YInt val) \<Rightarrow> gret val
      | Panic p \<Rightarrow> gpanic p
      | _ \<Rightarrow> src_errorf env e ''%s: must be an int'' [])"

definition scalar_GetFloat ::
  "('g, 'b, 'r, 'x) env \<Rightarrow> bexpr \<Rightarrow> yaml_node \<Rightarrow> (('g, 'b, 'r) world, f64) go" where
  "scalar_GetFloat env e node =
     (if quoted node then src_errorf env e ''%s: must be a float'' []
      else case env_Decode env node of
        Ok (YFloat fval) \<Rightarrow> gret fval
      | Ok (YInt ival) \<Rightarrow> gret (f64_of_int ival)
      | Panic p \<Rightarrow> gpanic p
      | _ \<Rightarrow> src_errorf env e ''%s: must be a float'' [])"

definition scalar_GetString ::
  "('g, 'b, 'r, 'x) env \<Rightarrow> bexpr \<Rightarrow> yaml_node \<Rightarrow> (('g, 'b, 'r) world, string) go" where
  "scalar_GetString env e node =
     (if quoted node then gret (yn_Value node) else src_errorf env e ''%s: must be a string'' [])"

definition expr_Int ::
  "('g, 'b, 'r, 'x) env \<Rightarrow> bexpr \<Rightarrow> (('g, 'b, 'r) world, nat option) go" where
  "expr_Int env e =
     (case e of
        BError _ _ err \<Rightarrow> gerr err
      | BScalar _ node \<Rightarrow>
          gbind (scalar_GetInt env e node) (\<lambda>val. gbind (newIntImmediate env val) (\<lambda>v. gret (Some v)))
      | BAlias _ _ \<Rightarrow>
          gbind (alias_get env e) (\<lambda>(v, domain).
          if domain = ''integer'' then gret v
          else src_errorf env e ''%s: cannot convert '%s' to int'' [AStr domain])
      | _ \<Rightarrow> src_errorf env e ''%s: must be an int'' [])"

definition expr_GetInt ::
  "('g, 'b, 'r, 'x) env \<Rightarrow> bexpr \<Rightarrow> (('g, 'b, 'r) world, int) go" where
  "expr_GetInt env e =
     (case e of
        BError _ _ err \<Rightarrow> gerr err
      | BScalar _ node \<Rightarrow> scalar_GetInt env e node
      | BAlias _ _ \<Rightarrow>
          gbind (expr_Int env e) (\<lambda>v.
          gbind (intVariable_TryGetInt env v) (\<lambda>r.
          case r of
            None \<Rightarrow> src_errorf env e ''%s: variable exhausted'' []
          | Some i \<Rightarrow> gret i))
      | _ \<Rightarrow> src_errorf env e ''%s: must be an int'' [])"

definition expr_Float ::
  "('g, 'b, 'r, 'x) env \<Rightarrow> bexpr \<Rightarrow> (('g, 'b, 'r) world, nat option) go" where
  "expr_Float env e =
     (case e of
        BError _ _ err \<Rightarrow> gerr err
      | BScalar _ node \<Rightarrow>
          gbind (scalar_GetFloat env e node) (\<lambda>val. gbind (newFloatImmediate env val) (\<lambda>v. gret (Some v)))
      | BAlias _ _ \<Rightarrow>
          gbind (alias_get env e) (\<lambda>(v, domain).
          if domain = ''float'' \<or> domain = ''integer'' then gret v
          else src_errorf env e ''%s: cannot convert '%s' to float'' [AStr domain])
      | _ \<Rightarrow> src_errorf env e ''%s: must be a float'' [])"

definition expr_GetFloat ::
  "('g, 'b, 'r, 'x) env \<Rightarrow> bexpr \<Rightarrow> (('g, 'b, 'r) world, f64) go" where
  "expr_GetFloat env e =
     (case e of
        BError _ _ err \<Rightarrow> gerr err
      | BScalar _ node \<Rightarrow> scalar_GetFloat env e node
      | BAlias _ _ \<Rightarrow>
          gbind (expr_Float env e) (\<lambda>v.
          gbind (floatVariable_TryGetFloat env v) (\<lambda>r.
          case r of
            None \<Rightarrow> src_errorf env e ''%s: variable exhausted'' []
          | Some f \<Rightarrow> gret f))
      | _ \<Rightarrow> src_errorf env e ''%s: must be a float'' [])"

definition expr_String ::
  "('g, 'b, 'r, 'x) env \<Rightarrow> bexpr \<Rightarrow> (('g, 'b, 'r) world, nat option) go" where
  "expr_String env e =
     (case e of
        BError _ _ err \<Rightarrow> gerr err
      | BScalar _ node \<Rightarrow>
          gbind (scalar_GetString env e node) (\<lambda>val. gbind (newStringImmediate env val) (\<lambda>v. gret (Some v)))
      | BAlias _ _ \<Rightarrow>
          gbind (alias_get env e) (\<lambda>(v, domain).
          if domain = ''string'' then gret v
          else src_errorf env e ''%s: cannot convert '%s' to string'' [AStr domain])
      | _ \<Rightarrow> src_errorf env e ''%s: must be a string'' [])"

definition expr_GetString ::
  "('g, 'b, 'r, 'x) env \<Rightarrow> bexpr \<Rightarrow> (('g, 'b, 'r) world, string) go" where
  "expr_GetString env e =
     (case e of
        BError _ _ err \<Rightarrow> gerr err
      | BScalar _ node \<Rightarrow> scalar_GetString env e node
      | BAlias _ _ \<Rightarrow>
          gbind (expr_String env e) (\<lambda>v.
          gbind (stringVariable_TryGetString env v) (\<lambda>r.
          case r of
            None \<Rightarrow> src_errorf env e ''%s: variable exhausted'' []
          | Some s \<Rightarrow> gret s))
      | _ \<Rightarrow> src_errorf env e ''%s: must be a string'' [])"

section \<open>Sample factories\<close>

text \<open>\<open>e.Field(name)\<close> and \<open>e.TryField(name)\<close> with the source of the environment.\<close>

abbreviation env_Field :: "('g, 'b, 'r, 'x) env \<Rightarrow> bexpr \<Rightarrow> string \<Rightarrow> bexpr" where
  "env_Field env e name \<equiv> Field (env_path env) e name"

abbreviation env_TryField :: "('g, 'b, 'r, 'x) env \<Rightarrow> bexpr \<Rightarrow> string \<Rightarrow> bexpr outcome" where
  "env_TryField env e name \<equiv> TryField (env_path env) e name"

definition intSampleFactory_Instance ::
  "('g, 'b, 'r, 'x) env \<Rightarrow> bexpr \<Rightarrow> (('g, 'b, 'r) world, 'r sample) go" where
  "intSampleFactory_Instance env e =
     gbind (expr_GetInt env (env_Field env e ''from'')) (\<lambda>from.
     gbind (expr_GetInt env (env_Field env e ''to'')) (\<lambda>to.
     gret (SInt (newIntSample from to))))"

definition floatSampleFactory_Instance ::
  "('g, 'b, 'r, 'x) env \<Rightarrow> bexpr \<Rightarrow> (('g, 'b, 'r) world, 'r sample) go" where
  "floatSampleFactory_Instance env e =
     gbind (expr_GetFloat env (env_Field env e ''from'')) (\<lambda>from.
     gbind (expr_GetFloat env (env_Field env e ''to'')) (\<lambda>to.
     case env_TryField env e ''precision'' of
       Ok field \<Rightarrow>
         gbind (expr_GetFloat env field) (\<lambda>precision.
         gret (SFloat (newFloatSample from to (f64_to_int (f64_div f64_one precision)))))
     | _ \<Rightarrow>
         (let multiplier = infer_multiplier (\<lambda>m. near_int from m \<and> near_int to m) multiplier_rounds 1 in
          if multiplier \<le> 0 then src_errorf env e ''%s: failed to infer precision'' []
          else gret (SFloat (newFloatSample from to multiplier)))))"

text \<open>The compiled patterns of the filter.\<close>

fun compile_filters ::
  "('g, 'b, 'r, 'x) env \<Rightarrow> bexpr list \<Rightarrow> (('g, 'b, 'r) world, 'x list) go" where
  "compile_filters env [] = gret []"
| "compile_filters env (field # rest) =
     gbind (expr_GetString env field) (\<lambda>pattern.
     case env_Compile env pattern of
       Ok re \<Rightarrow> gbind (compile_filters env rest) (\<lambda>filters. gret (re # filters))
     | Err err \<Rightarrow> src_errorf env field ''%s: invalid regexp: %s'' [AErr err]
     | Panic p \<Rightarrow> gpanic p)"

definition parseFilteredElementSample ::
  "('g, 'b, 'r, 'x) env \<Rightarrow> bexpr \<Rightarrow> ('r resource \<Rightarrow> string list) \<Rightarrow> 'r resource list
     \<Rightarrow> (('g, 'b, 'r) world, 'r sample) go" where
  "parseFilteredElementSample env e tags elements =
     gbind (compile_filters env (Slice (env_path env) e)) (\<lambda>filters.
     gbind (glift (newFilteredElementSample (env_MatchString env) tags filters elements)) (\<lambda>es.
     gret (SElem (map GRes es))))"

text \<open>The tags of a location are those of the secondary, the tags of an endpoint its own.\<close>

fun resource_tags :: "remoteSecondary list \<Rightarrow> 'r resource \<Rightarrow> string list" where
  "resource_tags rss (RLocation i) = (if i < length rss then remoteSecondary_tags (rss ! i) else [])"
| "resource_tags rss (REndpoint ep) = pe_tags ep"
| "resource_tags rss (ROpaque r) = []"

definition locationSampleFactory_Instance ::
  "('g, 'b, 'r, 'x) env \<Rightarrow> bexpr \<Rightarrow> (('g, 'b, 'r) world, 'r sample) go" where
  "locationSampleFactory_Instance env e =
     gbind (gread w_secondaries) (\<lambda>rss.
     parseFilteredElementSample env e (resource_tags rss) (map RLocation [0..<length rss]))"

definition endpointSampleFactory_Instance ::
  "('g, 'b, 'r, 'x) env \<Rightarrow> bexpr \<Rightarrow> (('g, 'b, 'r) world, 'r sample) go" where
  "endpointSampleFactory_Instance env e =
     gbind (gread w_secondaries) (\<lambda>rss.
     parseFilteredElementSample env e (resource_tags rss) (map REndpoint (ps_endpoints (env_setup env))))"

text \<open>The optional number of elements, and \<^verbatim>\<open>make\<close> with a length that may be negative.\<close>

definition number_field ::
  "('g, 'b, 'r, 'x) env \<Rightarrow> bexpr \<Rightarrow> (('g, 'b, 'r) world, int) go" where
  "number_field env e =
     (case env_TryField env e ''number'' of Ok field \<Rightarrow> expr_GetInt env field | _ \<Rightarrow> gret 1)"

definition make_slice :: "int \<Rightarrow> (('g, 'b, 'r) world, nat) go" where
  "make_slice n = (if n < 0 then gpanic ''makeslice: len out of range'' else gret (nat n))"

definition create_sample ::
  "('g, 'b, 'r, 'x) env \<Rightarrow> bexpr \<Rightarrow> ('b, 'r) go \<Rightarrow> (('g, 'b, 'r) world, 'r bvalue) go" where
  "create_sample env e create = (\<lambda>w.
     case on_builder create w of
       (Ok r, w') \<Rightarrow> (Ok (GRes (ROpaque r)), w')
     | (Err err, w') \<Rightarrow> src_errorf env e ''%s: failed to create sample: %s'' [AErr err] w'
     | (Panic p, w') \<Rightarrow> (Panic p, w'))"

definition accountFactory_Instance ::
  "('g, 'b, 'r, 'x) env \<Rightarrow> bexpr \<Rightarrow> (('g, 'b, 'r) world, 'r sample) go" where
  "accountFactory_Instance env e =
     gbind (number_field env e) (\<lambda>number.
     gbind (expr_Int env (env_Field env e ''stake'')) (\<lambda>stake.
     gbind (make_slice number) (\<lambda>n.
     gbind (gtimes n
       (gbind (intVariable_TryGetInt env stake) (\<lambda>r.
        case r of
          None \<Rightarrow> src_errorf env (env_Field env e ''stake'') ''%s: variable exhausted'' []
        | Some istake \<Rightarrow> create_sample env e (env_CreateAccount env istake)))) (\<lambda>elements.
     gret (SElem elements)))))"

definition contractFactory_Instance ::
  "('g, 'b, 'r, 'x) env \<Rightarrow> bexpr \<Rightarrow> (('g, 'b, 'r) world, 'r sample) go" where
  "contractFactory_Instance env e =
     gbind (number_field env e) (\<lambda>number.
     gbind (expr_String env (env_Field env e ''name'')) (\<lambda>name.
     gbind (make_slice number) (\<lambda>n.
     gbind (gtimes n
       (gbind (stringVariable_TryGetString env name) (\<lambda>r.
        case r of
          None \<Rightarrow> src_errorf env (env_Field env e ''name'') ''%s: variable exhausted'' []
        | Some iname \<Rightarrow> create_sample env e (env_CreateContract env iname)))) (\<lambda>elements.
     gret (SElem elements)))))"

section \<open>The registry\<close>

definition system_seed :: "('g, 'b, 'r, 'x) env \<Rightarrow> (('g, 'b, 'r) world, int) go" where
  "system_seed env = (\<lambda>w. case env_Int63 env (w_seedGenerator w) of
     (seed, g) \<Rightarrow> (Ok seed, w\<lparr>w_seedGenerator := g\<rparr>))"

definition sampleFactory ::
  "('g, 'b, 'r, 'x) env \<Rightarrow> string \<Rightarrow> (bexpr \<Rightarrow> (('g, 'b, 'r) world, 'r sample) go) option" where
  "sampleFactory env domain =
     (case map_of
        [(''account'', accountFactory_Instance env), (''contract'', contractFactory_Instance env),
         (''endpoint'', endpointSampleFactory_Instance env), (''float'', floatSampleFactory_Instance env),
         (''integer'', intSampleFactory_Instance env), (''location'', locationSampleFactory_Instance env)] domain of
        Some factory \<Rightarrow> Some factory
      | None \<Rightarrow> env_CreateResource env domain)"

text \<open>The random factories: the uniform one, and the normal one, which always fails.\<close>

datatype randomFactory = UniformFactory | NormalFactory

definition system_randomFactory :: "string \<Rightarrow> randomFactory option" where
  "system_randomFactory rtype = map_of [(''uniform'', UniformFactory), (''normal'', NormalFactory)] rtype"

text \<open>Called with the nil expression only for the uniform factory, which ignores it.\<close>

fun randomFactory_instance ::
  "('g, 'b, 'r, 'x) env \<Rightarrow> randomFactory \<Rightarrow> bexpr option \<Rightarrow> unit outcome" where
  "randomFactory_instance env UniformFactory e = Ok ()"
| "randomFactory_instance env NormalFactory (Some e) =
     Err (expr_errorf (env_path env) e ''%s: not yet implemented'' [])"
| "randomFactory_instance env NormalFactory None = Panic ''nil pointer dereference''"

section \<open>Defining variables\<close>

record variableBaseDefinition =
  vbd_expr :: bexpr
  vbd_name :: string
  vbd_vtype :: VariableType
  vbd_seed :: int

definition parseSeed :: "('g, 'b, 'r, 'x) env \<Rightarrow> bexpr \<Rightarrow> (('g, 'b, 'r) world, int) go" where
  "parseSeed env e = (\<lambda>w.
     case expr_Int env e w of
       (Ok ivar, w') \<Rightarrow>
         gbind (intVariable_TryGetInt env ivar) (\<lambda>r.
         case r of
           None \<Rightarrow> src_errorf env e ''%s: invalid int seed'' []
         | Some ival \<Rightarrow> gret ival) w'
     | (Err _, w') \<Rightarrow> src_errorf env e ''%s: must be an int or a string'' [] w'
     | (Panic p, w') \<Rightarrow> (Panic p, w'))"

definition random_instance ::
  "('g, 'b, 'r, 'x) env \<Rightarrow> bexpr \<Rightarrow> string \<Rightarrow> bexpr option \<Rightarrow> (('g, 'b, 'r) world, unit) go" where
  "random_instance env e rtype field =
     (case system_randomFactory rtype of
        None \<Rightarrow> src_errorf env e (''%s: unknown random type '%s'' @ apos) [AStr rtype]
      | Some factory \<Rightarrow>
          (case randomFactory_instance env factory field of
             Ok _ \<Rightarrow> gret ()
           | Err err \<Rightarrow> src_errorf env e ''%s: %s'' [AErr err]
           | Panic p \<Rightarrow> gpanic p))"

definition parseSampleVariable ::
  "('g, 'b, 'r, 'x) env \<Rightarrow> variableBaseDefinition
     \<Rightarrow> (('g, 'b, 'r) world, nat option \<times> string \<times> string) go" where
  "parseSampleVariable env def =
     (let e = vbd_expr def; field = env_Field env e ''sample'' in
      gbind (glift (etype (env_path env) field)) (\<lambda>domain.
      case sampleFactory env domain of
        None \<Rightarrow> src_errorf env e (''%s: unknown domain '%s'' @ apos) [AStr domain]
      | Some factory \<Rightarrow>
          gbind (factory field) (\<lambda>sample.
          gbind
            (case env_TryField env e ''random'' of
               Ok rfield \<Rightarrow>
                 gbind (glift (etype (env_path env) rfield)) (\<lambda>rtype. random_instance env e rtype (Some rfield))
             | _ \<Rightarrow> random_instance env e ''uniform'' None) (\<lambda>_.
          gbind (newUniform env (Sample_Size sample) (vbd_seed def) (vbd_vtype def)) (\<lambda>distrib.
          gbind (newVariable domain sample distrib) (\<lambda>v.
          gret (Some v, vbd_name def, domain)))))))"

text \<open>When the target is not an alias, the nil variable is returned without an error.\<close>

definition parseCopyVariable ::
  "('g, 'b, 'r, 'x) env \<Rightarrow> variableBaseDefinition
     \<Rightarrow> (('g, 'b, 'r) world, nat option \<times> string \<times> string) go" where
  "parseCopyVariable env def =
     (let e = vbd_expr def in
      case expr_target (env_path env) (env_Field env e ''copy'') of
        Ok target \<Rightarrow>
          gbind (gread (\<lambda>w. scope_get (w_entries w) (current w e) target)) (\<lambda>r.
          case r of
            None \<Rightarrow> src_errorf env e (''%s: unknown variable '%s'' @ apos) [AStr target]
          | Some (variable, domain) \<Rightarrow>
              gbind (copyVariable env variable (vbd_seed def) (vbd_vtype def)) (\<lambda>v.
              gret (Some v, vbd_name def, domain)))
      | Err _ \<Rightarrow> gret (None, [], [])
      | Panic p \<Rightarrow> gpanic p)"

definition parseComposeVariable ::
  "('g, 'b, 'r, 'x) env \<Rightarrow> variableBaseDefinition
     \<Rightarrow> (('g, 'b, 'r) world, nat option \<times> string \<times> string) go" where
  "parseComposeVariable env def =
     src_errorf env (vbd_expr def) ''%s: compose variable not yet implemented'' []"

definition has_field :: "('g, 'b, 'r, 'x) env \<Rightarrow> bexpr \<Rightarrow> string \<Rightarrow> bool" where
  "has_field env e name = (case env_TryField env e name of Ok _ \<Rightarrow> True | _ \<Rightarrow> False)"

definition parse_vtype :: "('g, 'b, 'r, 'x) env \<Rightarrow> bexpr \<Rightarrow> string \<Rightarrow> (('g, 'b, 'r) world, VariableType) go" where
  "parse_vtype env e vtypestr =
     (if vtypestr = ''rvar'' then gret TypeRegular
      else if vtypestr = ''iter'' then gret TypeOnce
      else if vtypestr = ''loop'' then gret TypeLoop
      else src_errorf env e (''%s: unknown variable type '%s'' @ apos) [AStr vtypestr])"

definition parseVariable ::
  "('g, 'b, 'r, 'x) env \<Rightarrow> bexpr \<Rightarrow> (('g, 'b, 'r) world, nat option \<times> string \<times> string) go" where
  "parseVariable env e =
     gbind (glift (expr_name (env_path env) e)) (\<lambda>name.
     gbind (case etype (env_path env) e of Ok t \<Rightarrow> gret t | Err _ \<Rightarrow> gret ''rvar'' | Panic p \<Rightarrow> gpanic p) (\<lambda>vtypestr.
     gbind (parse_vtype env e vtypestr) (\<lambda>vtype.
     gbind (case env_TryField env e ''seed'' of Ok field \<Rightarrow> parseSeed env field | _ \<Rightarrow> system_seed env) (\<lambda>seed.
     let def = \<lparr>vbd_expr = e, vbd_name = name, vbd_vtype = vtype, vbd_seed = seed\<rparr> in
     if has_field env e ''sample'' then parseSampleVariable env def
     else if has_field env e ''copy'' then parseCopyVariable env def
     else if has_field env e ''compose'' then parseComposeVariable env def
     else src_errorf env e (''%s: variable must be 'sample', 'copy' or 'compose'' @ apos) []))))"

section \<open>Parsing a scope\<close>

text \<open>The loop over the variables; \<open>positions\<close> are the positions of the names defined so far.\<close>

fun scope_parse_loop ::
  "('g, 'b, 'r, 'x) env \<Rightarrow> basicScope \<Rightarrow> bexpr list \<Rightarrow> (string, string) gomap
     \<Rightarrow> (('g, 'b, 'r) world, unit) go" where
  "scope_parse_loop env sc [] positions = gret ()"
| "scope_parse_loop env sc (child # children) positions =
     gbind (parseVariable env child) (\<lambda>(variable, name, domain).
     case gomap_get positions name of
       Some position \<Rightarrow>
         src_errorf env child ''%s: variable '%s' redefined (previously at %s)'' [AStr name, AStr position]
     | None \<Rightarrow>
         gbind (scope_add sc name domain variable) (\<lambda>_.
         scope_parse_loop env sc children (gomap_set name (Position child) positions)))"

definition scope_parse ::
  "('g, 'b, 'r, 'x) env \<Rightarrow> basicScope \<Rightarrow> bexpr \<Rightarrow> (('g, 'b, 'r) world, unit) go" where
  "scope_parse env sc e =
     gbind (gread (\<lambda>w. expr_local w e)) (\<lambda>old.
     gbind (gmodify (specialize e (Some sc))) (\<lambda>_.
     gfinally (scope_parse_loop env sc (Slice (env_path env) e) []) (specialize e old)))"

definition expr_scope :: "('g, 'b, 'r, 'x) env \<Rightarrow> bexpr \<Rightarrow> (('g, 'b, 'r) world, basicScope) go" where
  "expr_scope env e =
     (case e of
        BError _ _ err \<Rightarrow> gerr err
      | BSequence _ _ _ \<Rightarrow>
          gbind (gread (\<lambda>w. current w e)) (\<lambda>parent.
          gbind (scope_init (Some parent)) (\<lambda>sc.
          gbind (scope_parse env sc e) (\<lambda>_. gret sc)))
      | _ \<Rightarrow> src_errorf env e ''%s: must be a scope'' [])"

end
