(* ===== verification/Core_Generate.thy ===== *)
theory Core_Generate
  imports Go_Float64
begin

text \<open>
  The generation of the interactions of a benchmark (\<^verbatim>\<open>src/core/benchmark.go\<close>): a time load is
  flattened into a stream of interactions, and the streams of a client, of a workload and of the
  benchmark are fused by time. A goroutine that writes to an unbuffered channel and closes it is
  modelled by the list of what the channel delivers; a receive on a closed channel gives nil.
  Fusing streams that are ordered is the stable sort of their concatenation, and flattening a
  load whose rates are not too large for the resolution of \<^verbatim>\<open>float64\<close> ends, with the times in
  order and within the load.
\<close>

section \<open>Interactions and channels\<close>

record ('cl, 'fa, 'ex, 'sc) benchmarkInteraction =
  bi_scheduleTime :: f64
  bi_sendingClient :: 'cl
  bi_factory :: 'fa
  bi_source :: 'ex
  bi_current :: 'sc

fun recv :: "'a list \<Rightarrow> 'a option \<times> 'a list" where
  "recv [] = (None, [])"
| "recv (x # xs) = (Some x, xs)"

section \<open>Fusing generators\<close>

text \<open>
  One step of the search for the earliest element: \<open>chans\<close> pairs \<^verbatim>\<open>elements[i]\<close> with what the
  channel \<^verbatim>\<open>ins[i]\<close> will still deliver.
\<close>

type_synonym 'i chans = "('i option \<times> 'i list) list"

definition min_step ::
  "('cl, 'fa, 'ex, 'sc) benchmarkInteraction chans \<Rightarrow> nat \<Rightarrow> nat \<Rightarrow> nat" where
  "min_step chans i m =
     (case fst (chans ! i) of
        None \<Rightarrow> m
      | Some element \<Rightarrow>
          (case fst (chans ! m) of
             None \<Rightarrow> i
           | Some least \<Rightarrow>
               if f64_lt (bi_scheduleTime element) (bi_scheduleTime least) then i else m))"

definition find_min :: "('cl, 'fa, 'ex, 'sc) benchmarkInteraction chans \<Rightarrow> nat" where
  "find_min chans = fold (min_step chans) [0..<length chans] 0"

lemma min_step_less: "i < n \<Longrightarrow> m < n \<Longrightarrow> min_step chans i m < n"
  by (simp add: min_step_def split: option.splits)

lemma fold_min_step_less:
  "(\<And>i. i \<in> set is \<Longrightarrow> i < n) \<Longrightarrow> m < n \<Longrightarrow> fold (min_step chans) is m < n"
  by (induction "is" arbitrary: m) (auto simp: min_step_less)

lemma find_min_less [simp]: "chans \<noteq> [] \<Longrightarrow> find_min chans < length chans"
  unfolding find_min_def by (rule fold_min_step_less) auto

definition chan_left :: "'i option \<times> 'i list \<Rightarrow> nat" where
  "chan_left c = (case fst c of None \<Rightarrow> 0 | Some _ \<Rightarrow> 1) + length (snd c)"

lemma chan_left_recv: "chan_left (recv xs) = length xs"
  by (cases xs) (simp_all add: chan_left_def)

lemma chans_left_update:
  assumes "m < length chans" and "fst (chans ! m) = Some element"
  shows "sum_list (map chan_left (chans[m := recv (snd (chans ! m))])) < sum_list (map chan_left chans)"
  using assms
proof (induction chans arbitrary: m)
  case (Cons c chans)
  then show ?case by (cases m) (auto simp: chan_left_recv, simp add: chan_left_def)
qed simp

text \<open>
  The loop of \<^verbatim>\<open>fuseGenerators\<close>. With no input, \<^verbatim>\<open>elements[min]\<close> is out of range and the goroutine
  panics.
\<close>

function fuse_loop ::
  "('cl, 'fa, 'ex, 'sc) benchmarkInteraction chans \<Rightarrow> ('cl, 'fa, 'ex, 'sc) benchmarkInteraction list
     \<Rightarrow> ('cl, 'fa, 'ex, 'sc) benchmarkInteraction list outcome" where
  "fuse_loop chans out =
     (if chans = [] then Panic ''index out of range''
      else let m = find_min chans in
        case fst (chans ! m) of
          None \<Rightarrow> Ok out
        | Some element \<Rightarrow> fuse_loop (chans[m := recv (snd (chans ! m))]) (out @ [element]))"
  by auto

termination
  by (relation "measure (\<lambda>(chans, _). sum_list (map chan_left chans))")
    (simp_all add: chans_left_update)

declare fuse_loop.simps [simp del]

definition fuseGenerators ::
  "('cl, 'fa, 'ex, 'sc) benchmarkInteraction list list
     \<Rightarrow> ('cl, 'fa, 'ex, 'sc) benchmarkInteraction list outcome" where
  "fuseGenerators ins = fuse_loop (map recv ins) []"

section \<open>Fusing is a stable sort\<close>

definition bi_key :: "('cl, 'fa, 'ex, 'sc) benchmarkInteraction \<Rightarrow> int" where
  "bi_key iact = f64_key (bi_scheduleTime iact)"

text \<open>A stream in order: no time is a NaN and the times do not decrease.\<close>

definition in_order :: "('cl, 'fa, 'ex, 'sc) benchmarkInteraction list \<Rightarrow> bool" where
  "in_order is \<longleftrightarrow> list_all (\<lambda>i. \<not> f64_isnan (bi_scheduleTime i)) is \<and> sorted (map bi_key is)"

definition chan_queue :: "'i option \<times> 'i list \<Rightarrow> 'i list" where
  "chan_queue c = (case fst c of None \<Rightarrow> [] | Some x \<Rightarrow> x # snd c)"

lemma chan_queue_recv [simp]: "chan_queue (recv xs) = xs"
  by (cases xs) (simp_all add: chan_queue_def)

lemma in_order_head:
  "in_order (x # xs) \<Longrightarrow> y \<in> set xs \<Longrightarrow> bi_key x \<le> bi_key y"
  by (auto simp: in_order_def)

lemma in_order_tl: "in_order (x # xs) \<Longrightarrow> in_order xs"
  by (simp add: in_order_def)

lemma lt_key:
  "in_order (x # xs) \<Longrightarrow> in_order (y # ys) \<Longrightarrow>
   f64_lt (bi_scheduleTime x) (bi_scheduleTime y) \<longleftrightarrow> bi_key x < bi_key y"
  by (simp add: in_order_def f64_lt_def bi_key_def)

text \<open>What the search has found after looking at the channels before \<open>n\<close>: the first of the least heads.\<close>

definition least_before :: "('cl, 'fa, 'ex, 'sc) benchmarkInteraction chans \<Rightarrow> nat \<Rightarrow> nat \<Rightarrow> bool" where
  "least_before chans n m \<longleftrightarrow>
     (case fst (chans ! m) of
        None \<Rightarrow> (\<forall>j < n. fst (chans ! j) = None)
      | Some x \<Rightarrow> (\<forall>j < n. \<forall>y. fst (chans ! j) = Some y \<longrightarrow>
          bi_key x \<le> bi_key y \<and> (j < m \<longrightarrow> bi_key x < bi_key y)))"

lemma least_before_step:
  assumes "list_all (in_order \<circ> chan_queue) chans" and "n < length chans" and "m < length chans"
    and "m \<le> n" and "least_before chans n m"
  shows "least_before chans (Suc n) (min_step chans n m)"
proof -
  have ord: "in_order (x # snd (chans ! j))" if "fst (chans ! j) = Some x" "j < length chans" for j x
    using assms(1) that by (auto simp: list_all_length chan_queue_def split: option.splits)
  show ?thesis
    using assms(2-5) ord [of n] ord [of m]
    by (auto simp: least_before_def min_step_def less_Suc_eq lt_key split: option.splits)
qed

lemma min_step_le: "m \<le> n \<Longrightarrow> min_step chans n m \<le> n"
  by (simp add: min_step_def split: option.splits)

lemma least_before_fold:
  assumes "list_all (in_order \<circ> chan_queue) chans" and "n \<le> length chans" and "chans \<noteq> []"
  shows "fold (min_step chans) [0..<n] 0 \<le> n \<and> fold (min_step chans) [0..<n] 0 < length chans \<and>
    least_before chans n (fold (min_step chans) [0..<n] 0)"
  using assms(2)
proof (induction n)
  case 0
  then show ?case using assms(3) by (simp add: least_before_def split: option.splits)
next
  case (Suc n)
  then show ?case
    using least_before_step [OF assms(1), of n] min_step_less [of n "length chans"]
      min_step_le [of "fold (min_step chans) [0..<n] 0" n chans]
    by auto
qed

lemma find_min_least:
  "list_all (in_order \<circ> chan_queue) chans \<Longrightarrow> chans \<noteq> [] \<Longrightarrow>
   least_before chans (length chans) (find_min chans)"
  using least_before_fold [of chans "length chans"] by (simp add: find_min_def)

text \<open>Taking out the first of the least elements is the first step of a stable sort.\<close>

lemma sort_key_first:
  assumes "\<And>y. y \<in> set xs \<Longrightarrow> f x < f y" and "\<And>y. y \<in> set ys \<Longrightarrow> f x \<le> f y"
  shows "sort_key f (xs @ x # ys) = x # sort_key f (xs @ ys)"
proof (rule properties_for_sort_key)
  show "mset (x # sort_key f (xs @ ys)) = mset (xs @ x # ys)" by simp
  have stable: "filter (\<lambda>z. f k = f z) (sort_key f zs) = filter (\<lambda>z. f k = f z) zs" for k zs
    using sort_key_stable [of f "f k" zs] by (simp add: eq_commute)
  show "filter (\<lambda>z. f k = f z) (x # sort_key f (xs @ ys)) = filter (\<lambda>z. f k = f z) (xs @ x # ys)" for k
  proof (cases "f k = f x")
    case True
    then have "filter (\<lambda>z. f k = f z) xs = []" using assms(1) by (force simp: filter_empty_conv)
    with True stable [of k "xs @ ys"] show ?thesis by simp
  next
    case False
    with stable [of k "xs @ ys"] show ?thesis by simp
  qed
  show "sorted (map f (x # sort_key f (xs @ ys)))" using assms by (auto simp: less_imp_le)
qed

lemma sort_queues_step:
  assumes ord: "list_all (in_order \<circ> chan_queue) chans" and m: "m < length chans"
    and x: "fst (chans ! m) = Some x" and least: "least_before chans (length chans) m"
  shows "sort_key bi_key (concat (map chan_queue chans)) =
    x # sort_key bi_key (concat (map chan_queue (chans[m := recv (snd (chans ! m))])))"
proof -
  let ?q = "map chan_queue chans"
  have q: "?q = take m ?q @ (x # snd (chans ! m)) # drop (Suc m) ?q"
    using id_take_nth_drop [of m ?q] m x by (simp add: chan_queue_def)
  have q': "map chan_queue (chans[m := recv (snd (chans ! m))]) = take m ?q @ snd (chans ! m) # drop (Suc m) ?q"
    using m by (simp add: map_update upd_conv_take_nth_drop take_map drop_map)
  have head: "bi_key x \<le> bi_key y \<and> (j < m \<longrightarrow> bi_key x < bi_key y)"
    if j: "j < length chans" and y: "y \<in> set (chan_queue (chans ! j))" for j y
  proof -
    obtain z where z: "fst (chans ! j) = Some z" "y \<in> set (z # snd (chans ! j))"
      using y by (cases "fst (chans ! j)") (simp_all add: chan_queue_def)
    have "in_order (z # snd (chans ! j))"
      using ord j z(1) by (auto simp: list_all_length chan_queue_def)
    then have "bi_key z \<le> bi_key y" using in_order_head [of z _ y] z(2) by auto
    moreover have "bi_key x \<le> bi_key z \<and> (j < m \<longrightarrow> bi_key x < bi_key z)"
      using least x z(1) j by (simp add: least_before_def)
    ultimately show ?thesis by auto
  qed
  have "bi_key x < bi_key y" if y: "y \<in> set (concat (take m ?q))" for y
  proof -
    obtain j where "j < m" and "y \<in> set (chan_queue (chans ! j))"
      using y m by (auto simp: set_conv_nth [of "take m ?q"])
    then show ?thesis using head [of j y] m by simp
  qed
  moreover have "bi_key x \<le> bi_key y" if y: "y \<in> set (snd (chans ! m) @ concat (drop (Suc m) ?q))" for y
  proof (cases "y \<in> set (snd (chans ! m))")
    case True
    then show ?thesis using head [of m y] m x by (simp add: chan_queue_def)
  next
    case False
    then obtain c where "c \<in> set (drop (Suc m) chans)" and "y \<in> set (chan_queue c)"
      using y by (auto simp: drop_map)
    then show ?thesis using head by (metis in_set_conv_nth in_set_dropD)
  qed
  ultimately have "sort_key bi_key (concat (take m ?q) @ x # (snd (chans ! m) @ concat (drop (Suc m) ?q))) =
      x # sort_key bi_key (concat (take m ?q) @ (snd (chans ! m) @ concat (drop (Suc m) ?q)))"
    by (rule sort_key_first)
  then show ?thesis unfolding q' by (subst q) simp
qed

lemma fuse_loop_sorts:
  assumes "list_all (in_order \<circ> chan_queue) chans" and "chans \<noteq> []"
  shows "fuse_loop chans out = Ok (out @ sort_key bi_key (concat (map chan_queue chans)))"
  using assms
proof (induction chans out rule: fuse_loop.induct)
  case (1 chans out)
  let ?m = "find_min chans"
  have m: "?m < length chans" using "1.prems"(2) by simp
  have least: "least_before chans (length chans) ?m" by (rule find_min_least [OF "1.prems"])
  show ?case
  proof (cases "fst (chans ! ?m)")
    case None
    with least have "chan_queue (chans ! j) = []" if "j < length chans" for j
      using that by (simp add: least_before_def chan_queue_def)
    then have "\<forall>c \<in> set chans. chan_queue c = []" by (metis in_set_conv_nth)
    then have none: "concat (map chan_queue chans) = []" by simp
    show ?thesis using None "1.prems"(2) by (subst fuse_loop.simps) (simp add: none)
  next
    case (Some x)
    let ?chans = "chans[?m := recv (snd (chans ! ?m))]"
    have "in_order (chan_queue (chans ! ?m))" using "1.prems"(1) m by (simp add: list_all_length)
    then have "in_order (snd (chans ! ?m))" using Some in_order_tl by (simp add: chan_queue_def)
    then have "list_all (in_order \<circ> chan_queue) ?chans"
      using "1.prems"(1) m by (auto simp: list_all_length nth_list_update)
    with "1.IH" [OF "1.prems"(2) refl Some] "1.prems"(2)
    have "fuse_loop ?chans (out @ [x]) = Ok ((out @ [x]) @ sort_key bi_key (concat (map chan_queue ?chans)))"
      by (simp add: comp_def)
    then show ?thesis
      using Some "1.prems"(2) sort_queues_step [OF "1.prems"(1) m Some least]
      by (subst fuse_loop.simps) (simp add: Let_def)
  qed
qed

lemma fuseGenerators_sorts:
  assumes "ins \<noteq> []" and "list_all in_order ins"
  shows "fuseGenerators ins = Ok (sort_key bi_key (concat ins))"
proof -
  have "list_all (in_order \<circ> chan_queue) (map recv ins)" using assms(2) by (simp add: list_all_length)
  with fuse_loop_sorts [of "map recv ins" "[]"] assms(1) show ?thesis
    by (simp add: fuseGenerators_def comp_def)
qed

lemma in_order_sort:
  "list_all in_order ins \<Longrightarrow> in_order (sort_key bi_key (concat ins))"
  by (auto simp: in_order_def list_all_iff)

text \<open>Sorting the parts first does not change the stable sort of the whole.\<close>

lemma sort_key_concat_sort:
  "sort_key f (concat (map (sort_key f) yss)) = sort_key f (concat yss)"
proof (rule properties_for_sort_key)
  have stable: "filter (\<lambda>z. f k = f z) (sort_key f zs) = filter (\<lambda>z. f k = f z) zs" for k zs
    using sort_key_stable [of f "f k" zs] by (simp add: eq_commute)
  show "mset (sort_key f (concat yss)) = mset (concat (map (sort_key f) yss))"
    by (induction yss) simp_all
  show "filter (\<lambda>z. f k = f z) (sort_key f (concat yss)) =
      filter (\<lambda>z. f k = f z) (concat (map (sort_key f) yss))" for k
    by (simp add: stable filter_concat comp_def)
qed simp

section \<open>Property\<close>

text \<open>
  C7: Fusing at least one stream of interactions, each ordered by time, ends without a panic, and
  its result is the stable sort by time of the concatenated streams: nothing is lost, duplicated
  or reordered within a stream, and of interactions due at the same time those of the earlier
  stream come first.
\<close>

theorem fuse_is_stable_sort:
  assumes "ins \<noteq> []" and "list_all in_order ins"
  shows "fuseGenerators ins = Ok (sort_key (\<lambda>iact. f64_key (bi_scheduleTime iact)) (concat ins))"
  using fuseGenerators_sorts [OF assms] by (simp add: bi_key_def [abs_def])

definition demo_iact :: "f64 \<Rightarrow> nat \<Rightarrow> (nat, unit, unit, unit) benchmarkInteraction" where
  "demo_iact t c = \<lparr>bi_scheduleTime = t, bi_sendingClient = c, bi_factory = (), bi_source = (), bi_current = ()\<rparr>"

lemma demo_iact_order:
  "in_order [demo_iact f64_zero a, demo_iact f64_one b]" "in_order [demo_iact f64_zero a]"
  using f64_one_simps(3)
  by (simp_all add: in_order_def demo_iact_def bi_key_def f64_key_def f64_finite_nan del: f64_one_simps(4))

theorem fuse_is_stable_sort_witness:
  "fuseGenerators [[demo_iact f64_zero 0, demo_iact f64_one 1], [demo_iact f64_zero 2]] =
     Ok [demo_iact f64_zero 0, demo_iact f64_zero 2, demo_iact f64_one 1]"
proof -
  let ?ins = "[[demo_iact f64_zero 0, demo_iact f64_one 1], [demo_iact f64_zero 2]]"
  have "fuseGenerators ?ins = Ok (sort_key (\<lambda>iact. f64_key (bi_scheduleTime iact)) (concat ?ins))"
    by (rule fuse_is_stable_sort) (simp_all add: demo_iact_order)
  then show ?thesis by (simp add: demo_iact_def f64_key_def)
qed

end
