(* ===== verification/Core_Timeload.thy ===== *)
theory Core_Timeload
  imports Core_Generate
begin

text \<open>
  Time loads (\<^verbatim>\<open>timeloadGenerator\<close> of \<^verbatim>\<open>src/core/benchmark.go\<close>): a map from times to rates is
  flattened into the times of the interactions. From one time of the map to the next, an
  interaction is due every \<^verbatim>\<open>1 / value\<close> seconds, and what a phase leaves of a period is carried
  to the next phase in \<^verbatim>\<open>done\<close>. The arithmetic is that of \<^verbatim>\<open>float64\<close>, so the inner loop need not
  end: it is a partial function whose value \<open>None\<close> is that it runs forever. It ends when every
  rate is positive and its period is not smaller than the spacing of the floats at the end of
  the phase; a phase with a negative rate never ends.
\<close>

section \<open>Maps with float keys\<close>

text \<open>
  A NaN is a key of its own at each insertion and is never found; the two zeros are one key, and
  an assignment replaces the key as well. A missing key reads as zero.
\<close>

fun floatmap_set :: "f64 \<Rightarrow> f64 \<Rightarrow> (f64 \<times> f64) list \<Rightarrow> (f64 \<times> f64) list" where
  "floatmap_set k v [] = [(k, v)]"
| "floatmap_set k v ((k', v') # m) =
     (if f64_eq k' k then (k, v) # m else (k', v') # floatmap_set k v m)"

fun floatmap_get :: "f64 \<Rightarrow> (f64 \<times> f64) list \<Rightarrow> f64" where
  "floatmap_get k [] = f64_zero"
| "floatmap_get k ((k', v') # m) = (if f64_eq k' k then v' else floatmap_get k m)"

text \<open>\<^verbatim>\<open>sort.Float64s\<close> puts the NaN values first.\<close>

definition Float64s :: "f64 list \<Rightarrow> f64 list" where
  "Float64s xs = filter f64_isnan xs @ sort_key f64_key (filter (\<lambda>x. \<not> f64_isnan x) xs)"

section \<open>Flattening\<close>

record ('cl, 'fa, 'ex, 'sc) timeloadGenerator =
  tl_load :: "(f64 \<times> f64) list"
  tl_sender :: 'cl
  tl_factory :: 'fa
  tl_source :: 'ex
  tl_current :: 'sc

text \<open>
  The inner loop of \<^verbatim>\<open>flatten\<close> for one phase that ends at \<open>t\<close>: it sends an interaction at every
  due time (\<open>out\<close> collects the times) and gives back \<^verbatim>\<open>done\<close>.
\<close>

partial_function (option) flatten_phase ::
  "f64 \<Rightarrow> f64 \<Rightarrow> f64 \<Rightarrow> f64 \<Rightarrow> f64 list \<Rightarrow> (f64 \<times> f64 list) option" where
  "flatten_phase tick t clock don out =
     (let wait = f64_mul (f64_sub f64_one don) tick in
      if f64_le (f64_add clock wait) t
      then flatten_phase tick t (f64_add clock wait) f64_zero (out @ [f64_add clock wait])
      else Some (f64_add don (f64_div (f64_sub t clock) tick), out))"

fun flatten_times ::
  "(f64 \<times> f64) list \<Rightarrow> f64 list \<Rightarrow> f64 \<Rightarrow> f64 \<Rightarrow> f64 \<Rightarrow> f64 list \<Rightarrow> f64 list option" where
  "flatten_times load [] key val don out = Some out"
| "flatten_times load (t # ts) key val don out =
     (if \<not> f64_eq t key \<and> \<not> f64_eq val f64_zero
      then (case flatten_phase (f64_div f64_one val) t key don out of
              None \<Rightarrow> None
            | Some (don', out') \<Rightarrow> flatten_times load ts t (floatmap_get t load) don' out')
      else flatten_times load ts t (floatmap_get t load) don out)"

text \<open>\<open>it\<close> is the order in which \<^verbatim>\<open>range\<close> visits the map.\<close>

definition flatten ::
  "(f64 \<times> f64) list \<Rightarrow> ('cl, 'fa, 'ex, 'sc) timeloadGenerator
     \<Rightarrow> ('cl, 'fa, 'ex, 'sc) benchmarkInteraction list option" where
  "flatten it gen =
     map_option (map (\<lambda>clock. \<lparr>bi_scheduleTime = clock, bi_sendingClient = tl_sender gen,
         bi_factory = tl_factory gen, bi_source = tl_source gen, bi_current = tl_current gen\<rparr>))
       (flatten_times (tl_load gen) (Float64s (map fst it)) f64_zero f64_zero f64_zero [])"

section \<open>Generators\<close>

record ('cl, 'fa, 'ex, 'sc) clientLoadGenerator =
  clg_target :: 'cl
  clg_loads :: "('cl, 'fa, 'ex, 'sc) timeloadGenerator list"

record ('cl, 'fa, 'ex, 'sc) workloadGenerator =
  wg_clientLoads :: "('cl, 'fa, 'ex, 'sc) clientLoadGenerator list"

record ('cl, 'fa, 'ex, 'sc) benchmark =
  bm_workloads :: "('cl, 'fa, 'ex, 'sc) workloadGenerator list"

text \<open>
  The three \<^verbatim>\<open>generate\<close> methods start the generators below and a goroutine that fuses them. The
  value is \<open>None\<close> when a generator below never ends, and a panic when a goroutine below panics,
  which ends the program.
\<close>

fun join_streams :: "'a outcome list \<Rightarrow> 'a list outcome" where
  "join_streams [] = Ok []"
| "join_streams (r # rs) = obind r (\<lambda>x. obind (join_streams rs) (\<lambda>xs. Ok (x # xs)))"

definition fuse_all ::
  "('g \<Rightarrow> ('cl, 'fa, 'ex, 'sc) benchmarkInteraction list outcome option) \<Rightarrow> 'g list
     \<Rightarrow> ('cl, 'fa, 'ex, 'sc) benchmarkInteraction list outcome option" where
  "fuse_all generate gs =
     map_option (\<lambda>rs. obind (join_streams rs) fuseGenerators) (those (map generate gs))"

definition timeloadGenerator_generate ::
  "((f64 \<times> f64) list \<Rightarrow> (f64 \<times> f64) list) \<Rightarrow> ('cl, 'fa, 'ex, 'sc) timeloadGenerator
     \<Rightarrow> ('cl, 'fa, 'ex, 'sc) benchmarkInteraction list outcome option" where
  "timeloadGenerator_generate order gen = map_option Ok (flatten (order (tl_load gen)) gen)"

definition clientLoadGenerator_generate ::
  "((f64 \<times> f64) list \<Rightarrow> (f64 \<times> f64) list) \<Rightarrow> ('cl, 'fa, 'ex, 'sc) clientLoadGenerator
     \<Rightarrow> ('cl, 'fa, 'ex, 'sc) benchmarkInteraction list outcome option" where
  "clientLoadGenerator_generate order c = fuse_all (timeloadGenerator_generate order) (clg_loads c)"

definition workloadGenerator_generate ::
  "((f64 \<times> f64) list \<Rightarrow> (f64 \<times> f64) list) \<Rightarrow> ('cl, 'fa, 'ex, 'sc) workloadGenerator
     \<Rightarrow> ('cl, 'fa, 'ex, 'sc) benchmarkInteraction list outcome option" where
  "workloadGenerator_generate order w = fuse_all (clientLoadGenerator_generate order) (wg_clientLoads w)"

definition benchmark_generate ::
  "((f64 \<times> f64) list \<Rightarrow> (f64 \<times> f64) list) \<Rightarrow> ('cl, 'fa, 'ex, 'sc) benchmark
     \<Rightarrow> ('cl, 'fa, 'ex, 'sc) benchmarkInteraction list outcome option" where
  "benchmark_generate order b = fuse_all (workloadGenerator_generate order) (bm_workloads b)"

section \<open>One phase\<close>

text \<open>Finite and non-negative; such values are compared by their integers.\<close>

definition f64_nonneg :: "f64 \<Rightarrow> bool" where
  "f64_nonneg x \<longleftrightarrow> f64_finite x \<and> 0 \<le> f64_int x"

lemma f64_nonneg_zero [simp]: "f64_nonneg f64_zero"
  by (simp add: f64_nonneg_def)

text \<open>A period that the floats up to \<open>t\<close> can resolve.\<close>

definition tick_ok :: "f64 \<Rightarrow> f64 \<Rightarrow> bool" where
  "tick_ok tick t \<longleftrightarrow> f64_finite tick \<and> int (gap (f64_mag t)) \<le> f64_int tick"

text \<open>Times in order, within \<open>[a, b]\<close>.\<close>

definition times_within :: "f64 \<Rightarrow> f64 \<Rightarrow> f64 list \<Rightarrow> bool" where
  "times_within a b xs \<longleftrightarrow>
     list_all (\<lambda>x. f64_finite x \<and> f64_int a \<le> f64_int x \<and> f64_int x \<le> f64_int b) xs \<and>
     sorted (map f64_int xs)"

text \<open>
  The number of interactions of a phase against its length: \<open>n\<close> periods fit into the time from
  \<open>c\<close> to \<open>t\<close> and \<open>n + 1\<close> do not, up to half the spacing at \<open>t\<close> per period.
\<close>

definition rate_bounds :: "f64 \<Rightarrow> f64 \<Rightarrow> f64 \<Rightarrow> nat \<Rightarrow> bool" where
  "rate_bounds tick t c n \<longleftrightarrow>
     (let g = int (gap (f64_mag t)); len = 2 * (f64_int t - f64_int c) in
      int n * (2 * f64_int tick - g) \<le> len \<and> len < int n * (2 * f64_int tick + g) + 2 * f64_int tick)"

text \<open>
  The same when a part of a period was carried into the phase: one interaction more may fit.
\<close>

definition phase_rate :: "f64 \<Rightarrow> f64 \<Rightarrow> f64 \<Rightarrow> nat \<Rightarrow> bool" where
  "phase_rate tick t c n \<longleftrightarrow>
     (let g = int (gap (f64_mag t)); len = 2 * (f64_int t - f64_int c) in
      0 < n \<and> (int n - 1) * (2 * f64_int tick - g) \<le> len \<and> len < int n * (2 * f64_int tick + g) + 2 * f64_int tick)"

lemma tick_ok_pos: "tick_ok tick t \<Longrightarrow> 0 < f64_int tick"
proof -
  assume "tick_ok tick t"
  moreover have "0 < int (gap (f64_mag t))" by simp
  ultimately show ?thesis unfolding tick_ok_def by linarith
qed

lemma f64_le_iff_int: "f64_nonneg a \<Longrightarrow> f64_nonneg b \<Longrightarrow> f64_le a b \<longleftrightarrow> f64_int a \<le> f64_int b"
  by (simp add: f64_nonneg_def f64_le_int)

text \<open>The rest of a period after a complete one is at most a whole period.\<close>

lemma carry_bounds:
  assumes "f64_nonneg t" and "f64_nonneg c" and "f64_int c \<le> f64_int t" and "tick_ok tick t"
    and "\<not> f64_le (f64_add c tick) t"
  shows "f64_nonneg (f64_add f64_zero (f64_div (f64_sub t c) tick))"
    and "f64_int (f64_add f64_zero (f64_div (f64_sub t c) tick)) \<le> f64_int f64_one"
    and "f64_int t < f64_int c + f64_int tick"
proof -
  have fin: "f64_finite t" "f64_finite c" "f64_finite tick" "0 < f64_int tick"
    using assms(1,2,4) tick_ok_pos by (auto simp: f64_nonneg_def tick_ok_def)
  show lt: "f64_int t < f64_int c + f64_int tick"
    using assms(5) f64_add_le [OF fin(2,3), of t] fin(1) by fastforce
  let ?d = "f64_sub t c"
  have sub: "f64_int t + f64_int (f64_minus c) = f64_int t - f64_int c" "f64_finite (f64_minus c)"
    using fin(2) by simp_all
  have "f64_le f64_zero ?d" "f64_le ?d tick"
    unfolding f64_sub_def using fin sub lt assms(3) by (auto intro!: f64_add_ge f64_add_le)
  moreover from this(2) have "f64_finite ?d"
    unfolding f64_sub_def using f64_add_near(1) [of t "f64_minus c" tick] fin sub assms(3) by simp
  ultimately have d: "f64_finite ?d" "0 \<le> f64_int ?d" "f64_int ?d \<le> f64_int tick"
    using fin by (simp_all add: f64_le_int)
  let ?q = "f64_div ?d tick"
  have q: "f64_le f64_zero ?q" "f64_le ?q f64_one"
    using d fin by (auto intro!: f64_div_ge f64_div_le simp: mult.commute)
  have "f64_mag ?q \<le> f64_mag f64_one"
    using q by (auto simp: f64_le_def f64_key_def split: if_splits)
  then have qf: "f64_finite ?q" using f64_one_simps(3) unfolding f64_finite_def by linarith
  with q have qi: "0 \<le> f64_int ?q" "f64_int ?q \<le> f64_int f64_one" by (simp_all add: f64_le_int del: f64_one_simps(4))
  let ?s = "f64_add f64_zero ?q"
  have s: "f64_le f64_zero ?s" "f64_le ?s f64_one"
    using qf qi by (auto intro!: f64_add_ge f64_add_le simp del: f64_one_simps(4))
  have "f64_finite ?s" using f64_add_near(1) [OF _ qf, of f64_zero f64_one] qi s by simp
  with s show "f64_nonneg ?s" "f64_int ?s \<le> f64_int f64_one"
    by (simp_all add: f64_nonneg_def f64_le_int del: f64_one_simps(4))
qed

lemma rate_bounds_step:
  assumes "rate_bounds tick t c' n" and "2 * \<bar>f64_int c' - (f64_int c + f64_int tick)\<bar> \<le> int (gap (f64_mag t))"
  shows "rate_bounds tick t c (Suc n)"
proof -
  define g where "g = int (gap (f64_mag t))"
  define x where "x = f64_int c' - (f64_int c + f64_int tick)"
  have "2 * \<bar>x\<bar> \<le> g" using assms(2) by (simp add: g_def x_def)
  then have "- g \<le> 2 * x" "2 * x \<le> g" by linarith+
  then have "2 * f64_int tick - g \<le> 2 * (f64_int c' - f64_int c)"
    and "2 * (f64_int c' - f64_int c) \<le> 2 * f64_int tick + g" by (simp_all add: x_def)
  then show ?thesis
    using assms(1) by (simp add: rate_bounds_def Let_def g_def [symmetric] distrib_right)
qed

lemma phase_rate_step:
  assumes "rate_bounds tick t c' n" and "2 * \<bar>f64_int c' - (f64_int c + w)\<bar> \<le> int (gap (f64_mag t))"
    and "w \<le> f64_int tick" and "f64_int c \<le> f64_int c'"
  shows "phase_rate tick t c (Suc n)"
proof -
  define g where "g = int (gap (f64_mag t))"
  define x where "x = f64_int c' - (f64_int c + w)"
  have "2 * \<bar>x\<bar> \<le> g" using assms(2) by (simp add: g_def x_def)
  then have "2 * x \<le> g" by linarith
  then have "2 * (f64_int c' - f64_int c) \<le> 2 * f64_int tick + g" using assms(3) by (simp add: x_def)
  then show ?thesis
    using assms(1,4) by (simp add: rate_bounds_def phase_rate_def Let_def g_def [symmetric] distrib_right)
qed

lemma times_within_Cons:
  assumes "times_within c' t xs" and "f64_finite c'" and "f64_int c \<le> f64_int c'" and "f64_int c' \<le> f64_int t"
  shows "times_within c t (c' # xs)"
  using assms by (auto simp: times_within_def list_all_iff)

text \<open>A step of the phase.\<close>

lemma phase_step:
  assumes "f64_nonneg t" and "f64_nonneg c" and "f64_finite b" and "0 \<le> f64_int b"
    and "f64_le (f64_add c b) t"
  shows "f64_nonneg (f64_add c b)" and "f64_int c \<le> f64_int (f64_add c b)"
    and "f64_int (f64_add c b) \<le> f64_int t"
    and "2 * \<bar>f64_int (f64_add c b) - (f64_int c + f64_int b)\<bar> \<le> int (gap (f64_mag t))"
proof -
  have fin: "f64_finite t" "f64_finite c" "0 \<le> f64_int c" using assms(1,2) by (simp_all add: f64_nonneg_def)
  have nonneg: "0 \<le> f64_int c + f64_int b" using fin(3) assms(4) by simp
  note near = f64_add_near [OF fin(2) assms(3) nonneg fin(1) assms(5)]
  have "f64_le c (f64_add c b)" using fin assms(3,4) by (intro f64_add_ge) auto
  then show le: "f64_int c \<le> f64_int (f64_add c b)" using near(1) fin(2) by (simp add: f64_le_int)
  show "f64_nonneg (f64_add c b)" using near(1) le fin(3) by (simp add: f64_nonneg_def)
  show "f64_int (f64_add c b) \<le> f64_int t" using near(1) fin(1) assms(5) by (simp add: f64_le_int)
  show "2 * \<bar>f64_int (f64_add c b) - (f64_int c + f64_int b)\<bar> \<le> int (gap (f64_mag t))" by (rule near(2))
qed

definition carry_ok :: "f64 \<Rightarrow> bool" where
  "carry_ok d \<longleftrightarrow> f64_nonneg d \<and> f64_int d \<le> f64_int f64_one"

lemma phase_steady:
  assumes t: "f64_nonneg t" and tick: "tick_ok tick t"
    and "f64_nonneg c" and "f64_int c \<le> f64_int t"
  shows "\<exists>d xs. flatten_phase tick t c f64_zero out = Some (d, out @ xs) \<and> carry_ok d \<and>
    times_within c t xs \<and> rate_bounds tick t c (length xs)"
  using assms(3,4)
proof (induction "nat (f64_int t - f64_int c)" arbitrary: c out rule: less_induct)
  case less
  have fin: "f64_finite tick" "f64_finite c" "0 \<le> f64_int c" "0 \<le> f64_int tick"
    using tick tick_ok_pos [OF tick] less.prems(1) by (auto simp: tick_ok_def f64_nonneg_def)
  let ?c = "f64_add c tick"
  have unfold: "flatten_phase tick t c f64_zero out =
      (if f64_le ?c t then flatten_phase tick t ?c f64_zero (out @ [?c])
       else Some (f64_add f64_zero (f64_div (f64_sub t c) tick), out))"
    using fin(1) by (subst flatten_phase.simps) simp
  show ?case
  proof (cases "f64_le ?c t")
    case True
    note step = phase_step [OF t less.prems(1) fin(1,4) True]
    have "f64_key c < f64_key ?c"
      using f64_add_progress [OF fin(2,1,3) less.prems(2)] tick by (simp add: tick_ok_def)
    then have lt: "f64_int c < f64_int ?c" using f64_key_le_int [of ?c c] by linarith
    then have "nat (f64_int t - f64_int ?c) < nat (f64_int t - f64_int c)" using step(3) by linarith
    from less.hyps [OF this step(1,3), of "out @ [?c]"] obtain d xs where
      ih: "flatten_phase tick t ?c f64_zero (out @ [?c]) = Some (d, (out @ [?c]) @ xs)" "carry_ok d"
      "times_within ?c t xs" "rate_bounds tick t ?c (length xs)" by blast
    have "times_within c t (?c # xs)"
      using times_within_Cons [OF ih(3)] step(1,3) lt by (simp add: f64_nonneg_def)
    moreover have "rate_bounds tick t c (length (?c # xs))"
      using rate_bounds_step [OF ih(4) step(4)] by simp
    ultimately show ?thesis using True ih(1,2) unfold by (intro exI [of _ d] exI [of _ "?c # xs"]) simp
  next
    case False
    note carry = carry_bounds [OF t less.prems tick False]
    then have "rate_bounds tick t c 0" using less.prems(2) by (simp add: rate_bounds_def Let_def)
    with False carry show ?thesis
      by (intro exI [of _ "f64_add f64_zero (f64_div (f64_sub t c) tick)"] exI [of _ "[]"])
        (simp add: unfold carry_ok_def times_within_def del: f64_one_simps(4))
  qed
qed

text \<open>The first wait of a phase, after a carry.\<close>

lemma first_share:
  assumes "carry_ok don"
  shows "f64_finite (f64_sub f64_one don)" and "0 \<le> f64_int (f64_sub f64_one don)"
    and "f64_int (f64_sub f64_one don) \<le> int f64_unit"
proof -
  let ?u = "f64_sub f64_one don"
  have d: "f64_finite don" "0 \<le> f64_int don" "f64_int don \<le> f64_int f64_one"
    using assms by (simp_all add: carry_ok_def f64_nonneg_def del: f64_one_simps(4))
  have u: "f64_le f64_zero ?u" "f64_le ?u f64_one"
    unfolding f64_sub_def using d by (auto intro!: f64_add_ge f64_add_le)
  show fin: "f64_finite ?u"
    using u(2) f64_add_near(1) [of f64_one "f64_minus don" f64_one] d unfolding f64_sub_def by simp
  with u show "0 \<le> f64_int ?u" "f64_int ?u \<le> int f64_unit" by (simp_all add: f64_le_int)
qed

lemma first_wait:
  assumes "carry_ok don" and "f64_finite tick" and "0 \<le> f64_int tick"
  shows "f64_finite (f64_mul (f64_sub f64_one don) tick)" and "0 \<le> f64_int (f64_mul (f64_sub f64_one don) tick)"
    and "f64_int (f64_mul (f64_sub f64_one don) tick) \<le> f64_int tick"
proof -
  let ?u = "f64_sub f64_one don"
  note ui = first_share [OF assms(1)]
  let ?w = "f64_mul ?u tick"
  have "f64_int ?u * f64_int tick \<le> f64_int tick * int f64_unit"
    using ui(3) assms(3) by (simp add: mult.commute mult_left_mono)
  then have w: "f64_le f64_zero ?w" "f64_le ?w tick"
    using ui assms(2,3) by (auto intro!: f64_mul_ge f64_mul_le)
  then have "f64_mag ?w \<le> f64_mag tick"
    by (auto simp: f64_le_def f64_key_def split: if_splits)
  with assms(2) show "f64_finite ?w" by (simp add: f64_finite_def)
  with w assms(2) show "0 \<le> f64_int ?w" "f64_int ?w \<le> f64_int tick" by (simp_all add: f64_le_int)
qed

text \<open>A phase that is at least one period long.\<close>

lemma phase_runs:
  assumes "f64_nonneg t" and "tick_ok tick t" and "f64_nonneg c" and "carry_ok don"
    and "f64_le (f64_add c tick) t"
  shows "\<exists>d xs. flatten_phase tick t c don out = Some (d, out @ xs) \<and> carry_ok d \<and> times_within c t xs \<and>
    phase_rate tick t c (length xs) \<and> (don = f64_zero \<longrightarrow> rate_bounds tick t c (length xs))"
proof -
  let ?w = "f64_mul (f64_sub f64_one don) tick"
  have tick: "f64_finite tick" "0 \<le> f64_int tick"
    using assms(2) tick_ok_pos [OF assms(2)] by (auto simp: tick_ok_def)
  note w = first_wait [OF assms(4) tick]
  have c: "f64_finite c" using assms(3) by (simp add: f64_nonneg_def)
  have "f64_le (f64_add c ?w) t"
  proof (rule f64_le_trans [OF _ assms(5)])
    have "\<not> f64_isnan (f64_add c tick)" using f64_add_round [OF c tick(1)] by simp
    moreover have "f64_key (f64_add c ?w) \<le> f64_key (f64_add c tick)"
      using f64_add_round [OF c tick(1)] f64_add_round [OF c w(1)] f64_round_mono [of 1] w(3) by simp
    ultimately show "f64_le (f64_add c ?w) (f64_add c tick)"
      using f64_add_round [OF c w(1)] by (simp add: f64_le_def)
  qed
  note step = phase_step [OF assms(1,3) w(1,2) this] and emit = this
  from phase_steady [OF assms(1,2) step(1,3), of "out @ [f64_add c ?w]"] obtain d xs where
    "flatten_phase tick t (f64_add c ?w) f64_zero (out @ [f64_add c ?w]) = Some (d, (out @ [f64_add c ?w]) @ xs)"
    and xs: "carry_ok d" "times_within (f64_add c ?w) t xs" "rate_bounds tick t (f64_add c ?w) (length xs)" by blast
  moreover have "times_within c t (f64_add c ?w # xs)"
    using times_within_Cons [OF xs(2)] step(1-3) by (simp add: f64_nonneg_def)
  moreover have "phase_rate tick t c (length (f64_add c ?w # xs))"
    using phase_rate_step [OF xs(3) step(4) w(3) step(2)] by simp
  moreover have "rate_bounds tick t c (length (f64_add c ?w # xs))" if "don = f64_zero"
    using rate_bounds_step [OF xs(3)] step(4) that tick(1) by simp
  ultimately show ?thesis using emit
    by (intro exI [of _ d] exI [of _ "f64_add c ?w # xs"]) (subst flatten_phase.simps, simp add: Let_def)
qed

section \<open>All phases\<close>

text \<open>
  The phases of a load from the time \<open>key\<close> on: finite times in order, and for every phase with a
  rate a period that the floats resolve and that fits into the phase.
\<close>

fun phases_ok :: "(f64 \<times> f64) list \<Rightarrow> f64 list \<Rightarrow> f64 \<Rightarrow> f64 \<Rightarrow> bool" where
  "phases_ok load [] key val = True"
| "phases_ok load (t # ts) key val =
     (f64_nonneg t \<and> f64_int key \<le> f64_int t \<and>
      (\<not> f64_eq t key \<and> \<not> f64_eq val f64_zero \<longrightarrow>
        tick_ok (f64_div f64_one val) t \<and> f64_le (f64_add key (f64_div f64_one val)) t) \<and>
      phases_ok load ts t (floatmap_get t load))"

lemma phases_ok_nonneg: "phases_ok load ts key val \<Longrightarrow> t \<in> set ts \<Longrightarrow> f64_nonneg t"
  by (induction ts arbitrary: key val) auto

lemma times_within_append:
  assumes "times_within a b xs" and "times_within b c ys" and "f64_int a \<le> f64_int b" and "f64_int b \<le> f64_int c"
  shows "times_within a c (xs @ ys)"
  using assms by (fastforce simp: times_within_def list_all_iff sorted_append)

lemma flatten_times_runs:
  assumes "phases_ok load ts key val" and "f64_nonneg key" and "carry_ok don"
    and "times_within a key out" and "f64_int a \<le> f64_int key"
  shows "\<exists>xs. flatten_times load ts key val don out = Some xs \<and> times_within a (last (key # ts)) xs"
  using assms
proof (induction ts arbitrary: key val don out)
  case (Cons t ts)
  let ?tick = "f64_div f64_one val"
  have t: "f64_nonneg t" "f64_int key \<le> f64_int t" "phases_ok load ts t (floatmap_get t load)"
    using Cons.prems(1) by simp_all
  have last: "last (key # t # ts) = last (t # ts)" by simp
  show ?case
  proof (cases "\<not> f64_eq t key \<and> \<not> f64_eq val f64_zero")
    case True
    then have "tick_ok ?tick t" "f64_le (f64_add key ?tick) t" using Cons.prems(1) by simp_all
    from phase_runs [OF t(1) this(1) Cons.prems(2,3) this(2)] obtain d xs where
      d: "flatten_phase ?tick t key don out = Some (d, out @ xs)" "carry_ok d" "times_within key t xs" by blast
    have "times_within a t (out @ xs)" by (rule times_within_append [OF Cons.prems(4) d(3) Cons.prems(5) t(2)])
    from Cons.IH [OF t(3,1) d(2) this] Cons.prems(5) t(2) obtain ys where
      "flatten_times load ts t (floatmap_get t load) d (out @ xs) = Some ys" "times_within a (last (t # ts)) ys" by auto
    with True d(1) last show ?thesis by simp
  next
    case False
    have "times_within a t out"
      using times_within_append [OF Cons.prems(4) _ Cons.prems(5) t(2), of "[]"] by (simp add: times_within_def)
    from Cons.IH [OF t(3,1) Cons.prems(3) this] Cons.prems(5) t(2) obtain ys where
      "flatten_times load ts t (floatmap_get t load) don out = Some ys" "times_within a (last (t # ts)) ys" by auto
    with False last show ?thesis by auto
  qed
qed simp

text \<open>The phases that have a rate: where they start and end, and the rate.\<close>

fun load_phases :: "(f64 \<times> f64) list \<Rightarrow> f64 list \<Rightarrow> f64 \<Rightarrow> f64 \<Rightarrow> (f64 \<times> f64 \<times> f64) list" where
  "load_phases load [] key val = []"
| "load_phases load (t # ts) key val =
     (if \<not> f64_eq t key \<and> \<not> f64_eq val f64_zero then [(key, t, val)] else []) @
     load_phases load ts t (floatmap_get t load)"

text \<open>What is sent in a phase, and in the first one, into which nothing is carried.\<close>

definition phase_sends :: "f64 \<times> f64 \<times> f64 \<Rightarrow> f64 list \<Rightarrow> bool" where
  "phase_sends = (\<lambda>(k, t, v) xs. times_within k t xs \<and> phase_rate (f64_div f64_one v) t k (length xs))"

definition first_sends :: "(f64 \<times> f64 \<times> f64) list \<Rightarrow> f64 list list \<Rightarrow> bool" where
  "first_sends ps xss =
     (case ps of [] \<Rightarrow> True | (k, t, v) # _ \<Rightarrow> rate_bounds (f64_div f64_one v) t k (length (hd xss)))"

lemma flatten_times_phases:
  assumes "phases_ok load ts key val" and "f64_nonneg key" and "carry_ok don"
  shows "\<exists>d xss. flatten_times load (ts @ rest) key val don out =
      flatten_times load rest (last (key # ts)) (if ts = [] then val else floatmap_get (last ts) load) d (out @ concat xss) \<and>
    carry_ok d \<and> list_all2 phase_sends (load_phases load ts key val) xss \<and>
    (don = f64_zero \<longrightarrow> first_sends (load_phases load ts key val) xss)"
  using assms
proof (induction ts arbitrary: key val don out)
  case Nil
  then show ?case by (intro exI [of _ don] exI [of _ "[]"]) (simp add: first_sends_def)
next
  case (Cons t ts)
  let ?tick = "f64_div f64_one val" and ?val = "floatmap_get t load"
  have t: "f64_nonneg t" "phases_ok load ts t ?val" using Cons.prems(1) by simp_all
  show ?case
  proof (cases "\<not> f64_eq t key \<and> \<not> f64_eq val f64_zero")
    case True
    then have "tick_ok ?tick t" "f64_le (f64_add key ?tick) t" using Cons.prems(1) by simp_all
    from phase_runs [OF t(1) this(1) Cons.prems(2,3) this(2), of out] obtain d xs where
      d: "flatten_phase ?tick t key don out = Some (d, out @ xs)" "carry_ok d" "phase_sends (key, t, val) xs"
      "don = f64_zero \<longrightarrow> rate_bounds ?tick t key (length xs)" by (auto simp: phase_sends_def)
    from Cons.IH [OF t(2,1) d(2), of "out @ xs"] obtain d' xss where
      "flatten_times load (ts @ rest) t ?val d (out @ xs) = flatten_times load rest (last (t # ts))
        (if ts = [] then ?val else floatmap_get (last ts) load) d' ((out @ xs) @ concat xss)"
      "carry_ok d'" "list_all2 phase_sends (load_phases load ts t ?val) xss" by blast
    then show ?thesis
      using True d by (intro exI [of _ d'] exI [of _ "xs # xss"]) (simp add: first_sends_def)
  next
    case False
    from Cons.IH [OF t(2,1) Cons.prems(3), of out] obtain d' xss where
      "flatten_times load (ts @ rest) t ?val don out = flatten_times load rest (last (t # ts))
        (if ts = [] then ?val else floatmap_get (last ts) load) d' (out @ concat xss)"
      "carry_ok d'" "list_all2 phase_sends (load_phases load ts t ?val) xss"
      "don = f64_zero \<longrightarrow> first_sends (load_phases load ts t ?val) xss" by blast
    moreover have "load_phases load (t # ts) key val = load_phases load ts t ?val"
      "flatten_times load ((t # ts) @ rest) key val don out = flatten_times load (ts @ rest) t ?val don out"
      using False by auto
    ultimately show ?thesis by (intro exI [of _ d'] exI [of _ xss]) (simp del: load_phases.simps flatten_times.simps)
  qed
qed

text \<open>The sorted keys do not depend on the order in which the map is visited.\<close>

definition keys_ok :: "(f64 \<times> f64) list \<Rightarrow> bool" where
  "keys_ok load \<longleftrightarrow> list_all (\<lambda>(k, _). \<not> f64_isnan k) load \<and> distinct (map (f64_key \<circ> fst) load)"

lemma Float64s_order:
  assumes "keys_ok load" and "gomap_order load it"
  shows "Float64s (map fst it) = sort_key f64_key (map fst load)"
proof -
  have set: "set it = set load" and ms: "mset it = mset load"
    using assms(2) gomap_order_set by (auto simp: gomap_order_def)
  have nan: "\<not> f64_isnan k" if "k \<in> set (map fst it)" for k
    using assms(1) that set by (auto simp: keys_ok_def list_all_iff)
  have "inj_on f64_key (set (map fst it))"
    using assms(1) set by (auto simp: keys_ok_def distinct_map inj_on_def)
  moreover have "mset (map fst it) = mset (sort_key f64_key (map fst load))" using ms by simp
  ultimately have "sort_key f64_key (map fst it) = sort_key f64_key (map fst load)"
    by (intro sort_key_inj_key_eq) simp_all
  moreover have "filter f64_isnan (map fst it) = []" "filter (\<lambda>k. \<not> f64_isnan k) (map fst it) = map fst it"
    using nan by (auto simp: filter_empty_conv filter_id_conv)
  ultimately show ?thesis by (simp add: Float64s_def)
qed

definition load_ok :: "(f64 \<times> f64) list \<Rightarrow> bool" where
  "load_ok load \<longleftrightarrow> keys_ok load \<and> phases_ok load (sort_key f64_key (map fst load)) f64_zero f64_zero"

text \<open>The map built by insertions has distinct keys.\<close>

lemma floatmap_set_keys_ok: "keys_ok m \<Longrightarrow> \<not> f64_isnan k \<Longrightarrow> keys_ok (floatmap_set k v m)"
proof -
  have keys: "(f64_key \<circ> fst) ` set (floatmap_set k v m) \<subseteq> insert (f64_key k) ((f64_key \<circ> fst) ` set m)" for m
  proof (induction m)
    case (Cons e m)
    then show ?case by (cases e) (simp, blast)
  qed simp
  assume "keys_ok m" "\<not> f64_isnan k"
  then show ?thesis
  proof (induction m)
    case (Cons e m)
    obtain k' v' where e: "e = (k', v')" by force
    show ?case
    proof (cases "f64_eq k' k")
      case True
      then show ?thesis using Cons.prems e by (auto simp: keys_ok_def f64_eq_def)
    next
      case False
      then have "f64_key k' \<noteq> f64_key k" using Cons.prems e by (auto simp: keys_ok_def f64_eq_def)
      moreover have "keys_ok (floatmap_set k v m)" using Cons by (auto simp: keys_ok_def)
      ultimately show ?thesis using False Cons.prems e keys [of m] by (auto simp: keys_ok_def)
    qed
  qed (simp add: keys_ok_def)
qed

lemma floatmap_get_set:
  "\<not> f64_isnan k \<Longrightarrow> \<not> f64_isnan k' \<Longrightarrow>
   floatmap_get k' (floatmap_set k v m) = (if f64_eq k k' then v else floatmap_get k' m)"
  by (induction m) (auto simp: f64_eq_def)

section \<open>A negative rate\<close>

lemma one_mul_negative: "f64_neg tick \<Longrightarrow> \<not> f64_isnan tick \<Longrightarrow> f64_mul f64_one tick = tick"
proof (cases "f64_isinf tick")
  case True
  assume "f64_neg tick" "\<not> f64_isnan tick"
  moreover have "\<not> f64_isnan f64_one" "\<not> f64_isinf f64_one" using f64_one_simps(3) by simp_all
  ultimately show ?thesis using True f64_of_mag_self [of tick]
    by (simp add: f64_mul_def Let_def f64_isinf_def inf_mag_def)
next
  case False
  assume "\<not> f64_isnan tick"
  with False have "f64_finite tick" by (simp add: f64_isnan_def f64_isinf_def f64_finite_def)
  then show ?thesis by simp
qed

text \<open>The clock runs backwards and never reaches the end of the phase.\<close>

definition before :: "f64 \<Rightarrow> f64 \<Rightarrow> bool" where
  "before t c \<longleftrightarrow> f64_le c t \<and> (f64_finite c \<or> f64_neg c)"

lemma before_finite_step:
  assumes "before t c" and "f64_finite c" and "f64_finite w" and "f64_int w \<le> 0"
  shows "before t (f64_add c w)"
proof -
  have le: "f64_le (f64_add c w) c" using assms(2-4) by (intro f64_add_le) auto
  have "f64_mag (f64_add c w) < inf_mag \<or> f64_neg (f64_add c w)"
  proof (cases "0 \<le> f64_int c + f64_int w")
    case True
    then show ?thesis using f64_add_near(1) [OF assms(2,3) True assms(2) le] by (simp add: f64_finite_def)
  next
    case False
    then show ?thesis using assms(2,3) by (simp add: f64_add_def Let_def round_mag_le_inf)
  qed
  then show ?thesis using assms(1) le f64_le_trans by (auto simp: before_def f64_finite_def)
qed

lemma before_step:
  assumes "before t c" and "f64_neg tick" and "\<not> f64_isnan tick"
  shows "before t (f64_add c tick)"
proof -
  have c: "\<not> f64_isnan c" "f64_le c t" "f64_finite c \<or> f64_neg c" using assms(1) by (auto simp: before_def f64_le_def)
  consider "f64_finite c" "f64_finite tick" | "f64_finite c" "f64_isinf tick" | "f64_isinf c" "f64_neg c"
    using c assms(3) by (fastforce simp: f64_finite_def f64_isnan_def f64_isinf_def)
  then show ?thesis
  proof cases
    case 1
    have "f64_int tick \<le> 0" using assms(2) by (simp add: f64_int_def)
    with 1 show ?thesis by (intro before_finite_step [OF assms(1)])
  next
    case 2
    then have "f64_add c tick = tick" using assms(3) c(1) by (simp add: f64_add_def)
    moreover have "f64_key tick \<le> f64_key c"
      using 2 assms(2) by (auto simp: f64_key_def f64_isinf_def f64_finite_def)
    ultimately show ?thesis using c(1,2) assms(2,3) by (auto simp: before_def f64_le_def)
  next
    case 3
    then have "f64_add c tick = c" using assms(2,3) c(1) by (simp add: f64_add_def)
    with assms(1) show ?thesis by simp
  qed
qed

lemma phase_negative:
  assumes "f64_neg tick" and "\<not> f64_isnan tick" and "before t c"
  shows "flatten_phase tick t c f64_zero out = None"
proof -
  let ?stuck = "\<lambda>tick' t' clock don. tick' = tick \<and> t' = t \<and> don = f64_zero \<and> before t clock"
  have "\<not> ?stuck tick t c f64_zero" if "flatten_phase tick t c f64_zero out = Some r" for r
    using _ that
  proof (rule flatten_phase.raw_induct [where P = "\<lambda>tick' t' clock don _ _. \<not> ?stuck tick' t' clock don"])
    fix f tick' t' clock don out y
    assume ih: "\<And>tick' t' clock don out y. f tick' t' clock don out = Some y \<Longrightarrow> \<not> ?stuck tick' t' clock don"
      and body: "(let wait = f64_mul (f64_sub f64_one don) tick' in
        if f64_le (f64_add clock wait) t' then f tick' t' (f64_add clock wait) f64_zero (out @ [f64_add clock wait])
        else Some (f64_add don (f64_div (f64_sub t' clock) tick'), out)) = Some y"
    show "\<not> ?stuck tick' t' clock don"
    proof
      assume a: "?stuck tick' t' clock don"
      then have w: "f64_mul (f64_sub f64_one don) tick' = tick" using one_mul_negative [OF assms(1,2)] by simp
      have "before t (f64_add clock tick)" using before_step [OF _ assms(1,2)] a by blast
      moreover from this have "f tick t (f64_add clock tick) f64_zero (out @ [f64_add clock tick]) = Some y"
        using body w a by (simp add: before_def Let_def)
      ultimately show False using ih by blast
    qed
  qed
  with assms(3) show ?thesis by (metis not_Some_eq)
qed

text \<open>The first wait of such a phase, after a carry, does not go forwards either.\<close>

lemma first_wait_negative:
  assumes "carry_ok don" and "f64_finite tick" and "f64_int tick \<le> 0"
  shows "f64_finite (f64_mul (f64_sub f64_one don) tick)" and "f64_int (f64_mul (f64_sub f64_one don) tick) \<le> 0"
proof -
  note u = first_share [OF assms(1)]
  let ?w = "f64_mul (f64_sub f64_one don) tick"
  have "f64_int tick * int f64_unit \<le> f64_int (f64_sub f64_one don) * f64_int tick"
    using u(3) assms(3) by (simp add: mult.commute mult_left_mono_neg)
  moreover have "f64_int (f64_sub f64_one don) * f64_int tick \<le> 0" using u(2) assms(3) by (rule mult_nonneg_nonpos)
  ultimately have w: "f64_le ?w f64_zero" "f64_le tick ?w"
    using u assms(2) by (auto intro!: f64_mul_ge f64_mul_le)
  then have "f64_mag ?w \<le> f64_mag tick"
    by (auto simp: f64_le_def f64_key_def split: if_splits)
  with assms(2) show "f64_finite ?w" by (simp add: f64_finite_def)
  with w show "f64_int ?w \<le> 0" by (simp add: f64_le_int)
qed

lemma phase_negative_carry:
  assumes "f64_neg tick" and "f64_finite tick" and "carry_ok don" and "f64_finite c" and "f64_le c t"
  shows "flatten_phase tick t c don out = None"
proof -
  let ?w = "f64_mul (f64_sub f64_one don) tick"
  have "f64_int tick \<le> 0" using assms(1) by (simp add: f64_int_def)
  note w = first_wait_negative [OF assms(3,2) this]
  have b: "before t (f64_add c ?w)" using before_finite_step [OF _ assms(4) w, of t] assms(4,5) by (simp add: before_def)
  have "flatten_phase tick t (f64_add c ?w) f64_zero (out @ [f64_add c ?w]) = None"
    by (rule phase_negative [OF assms(1) _ b]) (use assms(2) in simp)
  then show ?thesis using b by (subst flatten_phase.simps) (simp add: Let_def before_def)
qed

lemma negative_tick:
  assumes "f64_lt val f64_zero"
  shows "f64_neg (f64_div f64_one val)" and "\<not> f64_isnan (f64_div f64_one val)"
proof -
  have v: "f64_neg val" "f64_mag val \<noteq> 0" "\<not> f64_isnan val"
    using assms by (auto simp: f64_lt_def f64_key_def split: if_splits)
  moreover have "\<not> f64_isnan f64_one" "\<not> f64_isinf f64_one" using f64_one_simps(3) by simp_all
  ultimately show "f64_neg (f64_div f64_one val)" "\<not> f64_isnan (f64_div f64_one val)"
    by (simp_all add: f64_div_def Let_def round_mag_le_inf)
qed

section \<open>The schedule of a benchmark\<close>

text \<open>What a generator delivers: it ends, without a panic, with the stable sort of the streams below.\<close>

definition delivers ::
  "('g \<Rightarrow> ('cl, 'fa, 'ex, 'sc) benchmarkInteraction list outcome option)
     \<Rightarrow> ('g \<Rightarrow> ('cl, 'fa, 'ex, 'sc) benchmarkInteraction list) \<Rightarrow> 'g \<Rightarrow> bool" where
  "delivers generate out g \<longleftrightarrow> generate g = Some (Ok (out g)) \<and> in_order (out g)"

lemma join_streams_Ok: "join_streams (map (\<lambda>g. Ok (f g)) gs) = Ok (map f gs)"
  by (induction gs) (simp_all add: obind_def)

lemma fuse_all_delivers:
  assumes "gs \<noteq> []" and "list_all (delivers generate out) gs"
  shows "fuse_all generate gs = Some (Ok (sort_key bi_key (concat (map out gs))))"
    and "in_order (sort_key bi_key (concat (map out gs)))"
proof -
  have "those (map generate gs) = Some (map (\<lambda>g. Ok (out g)) gs)"
    using assms(2) by (induction gs) (auto simp: delivers_def)
  moreover have ord: "list_all in_order (map out gs)" using assms(2) by (auto simp: list_all_iff delivers_def)
  ultimately show "fuse_all generate gs = Some (Ok (sort_key bi_key (concat (map out gs))))"
    using fuseGenerators_sorts [of "map out gs"] assms(1) by (simp add: fuse_all_def join_streams_Ok obind_def)
  show "in_order (sort_key bi_key (concat (map out gs)))" by (rule in_order_sort [OF ord])
qed

definition load_stream ::
  "((f64 \<times> f64) list \<Rightarrow> (f64 \<times> f64) list) \<Rightarrow> ('cl, 'fa, 'ex, 'sc) timeloadGenerator
     \<Rightarrow> ('cl, 'fa, 'ex, 'sc) benchmarkInteraction list" where
  "load_stream order gen = (case flatten (order (tl_load gen)) gen of Some out \<Rightarrow> out | None \<Rightarrow> [])"

lemma times_within_key_sorted: "times_within a b xs \<Longrightarrow> sorted (map f64_key xs)"
  by (simp add: times_within_def sorted_map sorted_wrt_mono_rel [of xs "\<lambda>x y. f64_int x \<le> f64_int y"] f64_key_le_int)

lemma flatten_delivers:
  assumes "load_ok (tl_load gen)" and "\<And>m. gomap_order m (order m)"
  shows "delivers (timeloadGenerator_generate order) (load_stream order) gen"
    and "times_within f64_zero (last (f64_zero # sort_key f64_key (map fst (tl_load gen))))
      (map bi_scheduleTime (load_stream order gen))"
proof -
  let ?ts = "sort_key f64_key (map fst (tl_load gen))"
  have "carry_ok f64_zero" by (simp add: carry_ok_def)
  then obtain xs where xs: "flatten_times (tl_load gen) ?ts f64_zero f64_zero f64_zero [] = Some xs"
    "times_within f64_zero (last (f64_zero # ?ts)) xs"
    using flatten_times_runs [of "tl_load gen" ?ts f64_zero f64_zero f64_zero f64_zero "[]"] assms(1)
    by (auto simp: load_ok_def times_within_def)
  have keys: "Float64s (map fst (order (tl_load gen))) = ?ts"
    using Float64s_order assms by (simp add: load_ok_def)
  let ?mk = "\<lambda>clock. \<lparr>bi_scheduleTime = clock, bi_sendingClient = tl_sender gen,
    bi_factory = tl_factory gen, bi_source = tl_source gen, bi_current = tl_current gen\<rparr>"
  have flat: "flatten (order (tl_load gen)) gen = Some (map ?mk xs)" by (simp add: flatten_def keys xs(1))
  have "in_order (map ?mk xs)"
    using xs(2) times_within_key_sorted [OF xs(2)]
    by (auto simp: in_order_def list_all_iff times_within_def bi_key_def [abs_def] comp_def)
  then show "delivers (timeloadGenerator_generate order) (load_stream order) gen"
    by (simp add: delivers_def timeloadGenerator_generate_def load_stream_def flat)
  show "times_within f64_zero (last (f64_zero # ?ts)) (map bi_scheduleTime (load_stream order gen))"
    using xs(2) by (simp add: load_stream_def flat comp_def)
qed

definition benchmark_loads ::
  "('cl, 'fa, 'ex, 'sc) benchmark \<Rightarrow> ('cl, 'fa, 'ex, 'sc) timeloadGenerator list" where
  "benchmark_loads b = concat (map clg_loads (concat (map wg_clientLoads (bm_workloads b))))"

definition benchmark_ok :: "('cl, 'fa, 'ex, 'sc) benchmark \<Rightarrow> bool" where
  "benchmark_ok b \<longleftrightarrow> bm_workloads b \<noteq> [] \<and>
     list_all (\<lambda>w. wg_clientLoads w \<noteq> [] \<and> list_all (\<lambda>c. clg_loads c \<noteq> []) (wg_clientLoads w)) (bm_workloads b) \<and>
     list_all (\<lambda>gen. load_ok (tl_load gen)) (benchmark_loads b)"

lemma benchmark_generate_sorts:
  fixes b :: "('cl, 'fa, 'ex, 'sc) benchmark"
  assumes ok: "benchmark_ok b" and order: "\<And>m. gomap_order m (order m)"
  shows "benchmark_generate order b =
    Some (Ok (sort_key bi_key (concat (map (load_stream order) (benchmark_loads b)))))"
proof -
  let ?s = "sort_key (bi_key :: ('cl, 'fa, 'ex, 'sc) benchmarkInteraction \<Rightarrow> int)"
  let ?client = "\<lambda>c. ?s (concat (map (load_stream order) (clg_loads c)))"
  let ?work = "\<lambda>w. ?s (concat (map ?client (wg_clientLoads w)))"
  have client: "delivers (clientLoadGenerator_generate order) ?client c"
    if c: "w \<in> set (bm_workloads b)" "c \<in> set (wg_clientLoads w)" for w c
  proof -
    have "clg_loads c \<noteq> []" and "list_all (\<lambda>gen. load_ok (tl_load gen)) (clg_loads c)"
      using ok c by (auto simp: benchmark_ok_def benchmark_loads_def list_all_iff)
    moreover from this(2) have "list_all (delivers (timeloadGenerator_generate order) (load_stream order)) (clg_loads c)"
      using flatten_delivers(1) [OF _ order] by (auto simp: list_all_iff)
    ultimately show ?thesis
      using fuse_all_delivers by (auto simp: delivers_def clientLoadGenerator_generate_def)
  qed
  have "delivers (workloadGenerator_generate order) ?work w" if w: "w \<in> set (bm_workloads b)" for w
  proof -
    have "wg_clientLoads w \<noteq> []" using ok w by (auto simp: benchmark_ok_def list_all_iff)
    moreover have "list_all (delivers (clientLoadGenerator_generate order) ?client) (wg_clientLoads w)"
      using client w by (simp add: list_all_iff)
    ultimately show ?thesis
      using fuse_all_delivers by (auto simp: delivers_def workloadGenerator_generate_def)
  qed
  then have "benchmark_generate order b = Some (Ok (?s (concat (map ?work (bm_workloads b)))))"
    using fuse_all_delivers(1) [of "bm_workloads b" "workloadGenerator_generate order" ?work] ok
    by (auto simp: benchmark_generate_def benchmark_ok_def list_all_iff)
  also have "map ?work (bm_workloads b) =
      map ?s (map (\<lambda>w. concat (map (load_stream order) (concat (map clg_loads (wg_clientLoads w))))) (bm_workloads b))"
  proof -
    have "?work w = ?s (concat (map (load_stream order) (concat (map clg_loads (wg_clientLoads w)))))"
      for w :: "('cl, 'fa, 'ex, 'sc) workloadGenerator"
      using sort_key_concat_sort [of bi_key "map (\<lambda>c. concat (map (load_stream order) (clg_loads c))) (wg_clientLoads w)"]
      by (simp add: comp_def map_concat concat_concat_map)
    then show ?thesis by simp
  qed
  finally show ?thesis
    unfolding sort_key_concat_sort by (simp add: benchmark_loads_def map_concat comp_def concat_concat_map)
qed

section \<open>Properties\<close>

text \<open>
  C6: A benchmark with at least one workload, client and behavior everywhere, whose loads have
  finite times, and positive rates with a period that fits into its phase and is not smaller than
  the spacing of the floats, generates its whole schedule: the generators end, whatever order the
  maps are visited in, and deliver the stable sort by time of the flattened loads; the times of
  every load are in order, not negative and not after the last time of that load.
\<close>

theorem benchmark_schedule:
  assumes "benchmark_ok b" and "\<And>m. gomap_order m (order m)"
  shows "\<exists>outs. list_all2 (\<lambda>gen out. flatten (order (tl_load gen)) gen = Some out \<and>
        times_within f64_zero (last (f64_zero # sort_key f64_key (map fst (tl_load gen)))) (map bi_scheduleTime out))
      (benchmark_loads b) outs \<and>
    benchmark_generate order b = Some (Ok (sort_key bi_key (concat outs))) \<and>
    in_order (sort_key bi_key (concat outs))"
proof -
  let ?outs = "map (load_stream order) (benchmark_loads b)"
  have ok: "load_ok (tl_load gen)" if "gen \<in> set (benchmark_loads b)" for gen
    using assms(1) that by (auto simp: benchmark_ok_def list_all_iff)
  have flat: "flatten (order (tl_load gen)) gen = Some (load_stream order gen)" "in_order (load_stream order gen)"
    if "gen \<in> set (benchmark_loads b)" for gen
    using flatten_delivers(1) [OF ok [OF that] assms(2)]
    by (auto simp: delivers_def timeloadGenerator_generate_def)
  have "list_all in_order ?outs" using flat(2) by (simp add: list_all_iff)
  then show ?thesis
    using flat(1) flatten_delivers(2) [OF ok assms(2)] benchmark_generate_sorts [OF assms]
    by (intro exI [of _ ?outs]) (simp add: list_all2_conv_all_nth in_order_sort)
qed

text \<open>
  A load of one phase from \<open>k\<close> to \<open>t\<close> with rate \<open>v\<close>; its period need not fit into the phase.
\<close>

lemma single_phase_rate:
  assumes "tl_load gen = [(k, v), (t, w)]" and "f64_nonneg k" and "f64_nonneg t" and "f64_int k < f64_int t"
    and "\<not> f64_eq v f64_zero" and "tick_ok (f64_div f64_one v) t" and "gomap_order (tl_load gen) it"
  shows "\<exists>out. flatten it gen = Some out \<and> times_within k t (map bi_scheduleTime out) \<and>
    rate_bounds (f64_div f64_one v) t k (length out)"
proof -
  have fin: "f64_finite k" "f64_finite t" using assms(2,3) by (simp_all add: f64_nonneg_def)
  have lt: "f64_key k < f64_key t" using assms(4) f64_key_le_int [of t k] by linarith
  then have "keys_ok (tl_load gen)" using fin by (simp add: assms(1) keys_ok_def)
  from Float64s_order [OF this assms(7)] lt have keys: "Float64s (map fst it) = [k, t]" by (simp add: assms(1))
  have gets: "floatmap_get k (tl_load gen) = v" "\<not> f64_eq t k" using fin lt by (auto simp: assms(1) f64_eq_def)
  obtain d xs where "flatten_phase (f64_div f64_one v) t k f64_zero [] = Some (d, [] @ xs)"
    "times_within k t xs" "rate_bounds (f64_div f64_one v) t k (length xs)"
    using phase_steady [OF assms(3,6,2)] assms(4) by fastforce
  then show ?thesis using keys gets assms(5) by (simp add: flatten_def comp_def f64_eq_def)
qed

text \<open>
  C35: A load with finite times and positive rates, whose periods fit into their phases and are not
  smaller than the spacing of the floats, is flattened phase by phase: the interactions of a
  phase lie within it, in order, and there are as many as the rate asks for. With \<open>n\<close>
  interactions in the first phase with a rate, \<open>n\<close> periods are not longer than the phase and
  \<open>n + 1\<close> periods are; in a later phase, where the rest of a period was carried in, \<open>n - 1\<close> periods
  are not longer and \<open>n + 1\<close> are; both up to half a spacing of the floats per period (the
  rounding errors of the clock). Nothing is sent outside the phases with a rate.
\<close>

theorem constant_rate:
  assumes "load_ok (tl_load gen)" and "gomap_order (tl_load gen) it"
  shows "\<exists>out xss. flatten it gen = Some out \<and> map bi_scheduleTime out = concat xss \<and>
    (let phases = load_phases (tl_load gen) (sort_key f64_key (map fst (tl_load gen))) f64_zero f64_zero in
     list_all2 (\<lambda>(k, t, v) xs. times_within k t xs \<and> phase_rate (f64_div f64_one v) t k (length xs)) phases xss \<and>
     (case phases of [] \<Rightarrow> True | (k, t, v) # _ \<Rightarrow> rate_bounds (f64_div f64_one v) t k (length (hd xss))))"
proof -
  let ?ts = "sort_key f64_key (map fst (tl_load gen))"
  have ok: "phases_ok (tl_load gen) ?ts f64_zero f64_zero" "keys_ok (tl_load gen)" using assms(1) by (simp_all add: load_ok_def)
  have "carry_ok f64_zero" by (simp add: carry_ok_def)
  from flatten_times_phases [OF ok(1) f64_nonneg_zero this, of "[]" "[]"] obtain xss where
    xss: "flatten_times (tl_load gen) ?ts f64_zero f64_zero f64_zero [] = Some (concat xss)"
      "list_all2 phase_sends (load_phases (tl_load gen) ?ts f64_zero f64_zero) xss"
      "first_sends (load_phases (tl_load gen) ?ts f64_zero f64_zero) xss" by auto
  show ?thesis
    using xss Float64s_order [OF ok(2) assms(2)]
    by (auto simp: flatten_def comp_def Let_def phase_sends_def first_sends_def)
qed

text \<open>
  C37: A load with a negative rate in an entry that is not the last one, after entries as in the
  schedules above, is never flattened: in the phase of that entry the clock runs backwards and
  the loop does not end, whatever the entries after it, so the benchmark is never prepared. (The
  rate's inverse is assumed to be finite. The rate of the last entry is never used.)
\<close>

theorem negative_rate_never_ends:
  assumes "keys_ok (tl_load gen)" and "sort_key f64_key (map fst (tl_load gen)) = pre @ k # t # post"
    and "phases_ok (tl_load gen) (pre @ [k]) f64_zero f64_zero"
    and "f64_lt (floatmap_get k (tl_load gen)) f64_zero"
    and "f64_finite (f64_div f64_one (floatmap_get k (tl_load gen)))" and "gomap_order (tl_load gen) it"
  shows "flatten it gen = None"
proof -
  let ?load = "tl_load gen" and ?ts = "sort_key f64_key (map fst (tl_load gen))"
  let ?v = "floatmap_get k ?load"
  have "mset (map f64_key ?ts) = mset (map f64_key (map fst ?load))"
    by (simp add: multiset.map_comp)
  from mset_eq_imp_distinct_iff [OF this] have "distinct (map f64_key ?ts)" using assms(1) by (simp add: keys_ok_def)
  moreover have "sorted (map f64_key ?ts)" by simp
  ultimately have lt: "f64_key k < f64_key t" unfolding assms(2) by (auto simp: sorted_append order_less_le)
  have "set ?ts = fst ` set ?load" by simp
  then have nan: "\<not> f64_isnan k" "\<not> f64_isnan t"
    using assms(1) unfolding assms(2) by (fastforce simp: keys_ok_def list_all_iff)+
  have "carry_ok f64_zero" by (simp add: carry_ok_def)
  from flatten_times_phases [OF assms(3) f64_nonneg_zero this, of "t # post" "[]"] obtain d out where
    d: "flatten_times ?load (pre @ k # t # post) f64_zero f64_zero f64_zero [] = flatten_times ?load (t # post) k ?v d out"
    "carry_ok d" by auto
  have "f64_nonneg k" using phases_ok_nonneg [OF assms(3)] by simp
  then have "flatten_phase (f64_div f64_one ?v) t k d out = None"
    using lt nan d(2) assms(4,5) by (intro phase_negative_carry negative_tick) (auto simp: f64_nonneg_def f64_le_def)
  moreover have "\<not> f64_eq t k" "\<not> f64_eq ?v f64_zero" using lt assms(4) by (auto simp: f64_eq_def f64_lt_def)
  ultimately show ?thesis
    using d(1) Float64s_order [OF assms(1,6)] by (simp add: flatten_def assms(2))
qed

section \<open>Witnesses\<close>

definition f64_five_halves :: f64 where
  "f64_five_halves = 0x4004000000000000"

definition demo_gen :: "f64 \<Rightarrow> (unit, unit, unit, unit) timeloadGenerator" where
  "demo_gen v = \<lparr>tl_load = [(f64_zero, v), (f64_five_halves, f64_zero)], tl_sender = (), tl_factory = (),
     tl_source = (), tl_current = ()\<rparr>"

lemma f64_five_halves_simps:
  "f64_mag f64_five_halves = 1024 * 2 ^ 52 + 2 ^ 50" "\<not> f64_neg f64_five_halves" "f64_finite f64_five_halves" "f64_int f64_five_halves = 5 * 2 ^ 1073"
  "f64_nonneg f64_five_halves"
  by (simp_all add: f64_five_halves_def f64_mag_def f64_neg_def f64_finite_def inf_mag_def f64_int_def sval_def
      f64_unit_def f64_nonneg_def)

lemma f64_one_div_one: "f64_div f64_one f64_one = f64_one"
proof -
  have one: "sval (f64_mag f64_one) = f64_unit" using f64_one_simps(4) f64_int_nonneg_mag [of f64_one] by simp
  have "round_mag (sval (f64_mag f64_one) * f64_unit) f64_unit = f64_mag f64_one"
    by (rule round_mag_exact) (simp_all add: inf_mag_def)
  moreover have "\<not> f64_isnan f64_one" "\<not> f64_isinf f64_one" using f64_one_simps(3) by simp_all
  moreover have "f64_mag f64_one \<noteq> 0" by simp
  ultimately show ?thesis
    using f64_of_mag_self [of f64_one] one by (simp add: f64_div_def Let_def del: f64_one_simps(1))
qed

lemma demo_tick_ok: "tick_ok f64_one f64_five_halves"
  by (simp add: tick_ok_def f64_five_halves_simps gap_eq f64_unit_def)

lemma demo_load_ok: "load_ok (tl_load (demo_gen f64_one))"
proof -
  have key: "f64_key f64_zero < f64_key f64_five_halves" by (simp add: f64_key_def f64_five_halves_simps)
  have "f64_le (f64_add f64_zero f64_one) f64_five_halves"
    by (intro f64_add_le) (simp_all add: f64_five_halves_simps f64_unit_def)
  then show ?thesis
    using key demo_tick_ok
    by (simp add: load_ok_def demo_gen_def keys_ok_def f64_five_halves_simps f64_one_div_one f64_eq_def)
qed

text \<open>Rate one until 2.5, then rate \<open>v\<close> until 5.\<close>

definition f64_five :: f64 where
  "f64_five = 0x4014000000000000"

definition demo_gen2 :: "f64 \<Rightarrow> (unit, unit, unit, unit) timeloadGenerator" where
  "demo_gen2 v = \<lparr>tl_load = [(f64_zero, f64_one), (f64_five, f64_zero), (f64_five_halves, v)], tl_sender = (), tl_factory = (),
     tl_source = (), tl_current = ()\<rparr>"

lemma f64_five_simps:
  "f64_mag f64_five = 1025 * 2 ^ 52 + 2 ^ 50" "\<not> f64_neg f64_five" "f64_finite f64_five" "f64_int f64_five = 5 * 2 ^ 1074"
  "f64_nonneg f64_five"
  by (simp_all add: f64_five_def f64_mag_def f64_neg_def f64_finite_def inf_mag_def f64_int_def sval_def
      f64_unit_def f64_nonneg_def)

lemma demo_keys:
  "f64_key f64_zero < f64_key f64_five_halves" "f64_key f64_five_halves < f64_key f64_five"
  by (simp_all add: f64_key_def f64_five_halves_simps f64_five_simps)

lemma demo_gen2_load:
  "keys_ok (tl_load (demo_gen2 v))"
  "sort_key f64_key (map fst (tl_load (demo_gen2 v))) = [f64_zero, f64_five_halves, f64_five]"
  "floatmap_get f64_zero (tl_load (demo_gen2 v)) = f64_one" "floatmap_get f64_five_halves (tl_load (demo_gen2 v)) = v"
  using demo_keys by (simp_all add: demo_gen2_def keys_ok_def f64_eq_def f64_five_halves_simps f64_five_simps)

lemma demo_phase_ok:
  "tick_ok f64_one f64_five_halves" "f64_le (f64_add f64_zero f64_one) f64_five_halves"
  "tick_ok f64_one f64_five" "f64_le (f64_add f64_five_halves f64_one) f64_five"
  by (auto intro!: f64_add_le simp: tick_ok_def f64_five_halves_simps f64_five_simps gap_eq f64_unit_def)

lemma demo_gen2_phases:
  "phases_ok (tl_load (demo_gen2 v)) [f64_zero, f64_five_halves] f64_zero f64_zero"
  "load_ok (tl_load (demo_gen2 f64_one))"
  using demo_keys demo_phase_ok
  by (simp_all add: load_ok_def demo_gen2_load f64_five_halves_simps f64_five_simps f64_one_div_one f64_eq_def)

theorem constant_rate_witness:
  "\<exists>out xs ys. flatten (rev (tl_load (demo_gen2 f64_one))) (demo_gen2 f64_one) = Some out \<and>
     map bi_scheduleTime out = xs @ ys \<and> times_within f64_zero f64_five_halves xs \<and> length xs = 2 \<and>
     times_within f64_five_halves f64_five ys \<and> (length ys = 2 \<or> length ys = 3)"
proof -
  have phases: "load_phases (tl_load (demo_gen2 f64_one)) [f64_zero, f64_five_halves, f64_five] f64_zero f64_zero =
      [(f64_zero, f64_five_halves, f64_one), (f64_five_halves, f64_five, f64_one)]"
    using demo_keys by (simp add: demo_gen2_load f64_eq_def f64_key_def f64_five_halves_simps f64_five_simps)
  have "gomap_order (tl_load (demo_gen2 f64_one)) (rev (tl_load (demo_gen2 f64_one)))" by (simp add: gomap_order_def)
  from constant_rate [OF demo_gen2_phases(2) this] obtain out xss where
    out: "flatten (rev (tl_load (demo_gen2 f64_one))) (demo_gen2 f64_one) = Some out" "map bi_scheduleTime out = concat xss"
      "list_all2 (\<lambda>(k, t, v) xs. times_within k t xs \<and> phase_rate (f64_div f64_one v) t k (length xs))
        [(f64_zero, f64_five_halves, f64_one), (f64_five_halves, f64_five, f64_one)] xss"
      "rate_bounds f64_one f64_five_halves f64_zero (length (hd xss))"
    unfolding demo_gen2_load(2) phases Let_def by (auto simp: f64_one_div_one)
  then obtain xs ys where xs: "xss = [xs, ys]" "times_within f64_zero f64_five_halves xs"
    "times_within f64_five_halves f64_five ys" "phase_rate f64_one f64_five f64_five_halves (length ys)"
    by (auto simp: list_all2_Cons1 f64_one_div_one)
  have r: "int (length xs) * (2 * 2 ^ 1074 - 2 ^ 1023) \<le> 5 * 2 ^ 1074"
    "5 * 2 ^ 1074 < int (length xs) * (2 * 2 ^ 1074 + 2 ^ 1023) + 2 * 2 ^ 1074"
    using out(4) xs(1) by (simp_all add: rate_bounds_def Let_def f64_five_halves_simps gap_eq f64_unit_def)
  from r(1) have "int (length xs) < 3" by (simp add: linorder_not_le [symmetric])
  moreover from r(2) have "length xs \<noteq> 0" "length xs \<noteq> 1" by auto
  ultimately have "length xs = 2" by linarith
  have q: "(int (length ys) - 1) * (2 * 2 ^ 1074 - 2 ^ 1024) \<le> 5 * 2 ^ 1074"
    "5 * 2 ^ 1074 < int (length ys) * (2 * 2 ^ 1074 + 2 ^ 1024) + 2 * 2 ^ 1074"
    using xs(4) by (simp_all add: phase_rate_def Let_def f64_five_halves_simps f64_five_simps gap_eq f64_unit_def)
  from q(1) have "int (length ys) < 4" by (simp add: linorder_not_le [symmetric])
  moreover from q(2) have "length ys \<noteq> 0" "length ys \<noteq> 1" by auto
  ultimately have "length ys = 2 \<or> length ys = 3" by linarith
  with out(1,2) xs \<open>length xs = 2\<close> show ?thesis by auto
qed

lemma f64_minus_one_simps:
  "f64_lt f64_minus_one f64_zero" "f64_finite (f64_div f64_one f64_minus_one)"
  subgoal by (simp add: f64_lt_def f64_minus_one_def f64_zero_def f64_key_def f64_mag_def f64_neg_def f64_isnan_def inf_mag_def)
  subgoal
  proof -
    have mag: "f64_mag f64_minus_one = f64_mag f64_one" "f64_neg f64_minus_one"
      by (simp_all add: f64_minus_one_def f64_one_def f64_mag_def f64_neg_def)
    have one: "sval (f64_mag f64_one) = f64_unit" using f64_one_simps(4) f64_int_nonneg_mag [of f64_one] by simp
    have "round_mag (sval (f64_mag f64_one) * f64_unit) f64_unit = f64_mag f64_one"
      by (rule round_mag_exact) (simp_all add: inf_mag_def)
    moreover have "f64_finite f64_one" "f64_finite f64_minus_one" using f64_one_simps(3) mag(1) by (simp_all add: f64_finite_def)
    moreover have "f64_mag f64_one \<noteq> 0" by simp
    ultimately show ?thesis
      using mag one by (simp add: f64_div_def Let_def f64_finite_def del: f64_one_simps(1))
  qed
  done

theorem negative_rate_never_ends_witness:
  "flatten (tl_load (demo_gen2 f64_minus_one)) (demo_gen2 f64_minus_one) = None"
  by (rule negative_rate_never_ends [where pre = "[f64_zero]" and k = f64_five_halves and t = f64_five and post = "[]"])
    (use demo_gen2_phases(1) f64_minus_one_simps in \<open>simp_all add: demo_gen2_load gomap_order_def\<close>)

theorem benchmark_schedule_witness:
  "\<exists>out. benchmark_generate rev \<lparr>bm_workloads = [\<lparr>wg_clientLoads = [\<lparr>clg_target = (), clg_loads = [demo_gen f64_one]\<rparr>]\<rparr>]\<rparr> =
     Some (Ok out) \<and> in_order out"
proof -
  let ?b = "\<lparr>bm_workloads = [\<lparr>wg_clientLoads = [\<lparr>clg_target = (), clg_loads = [demo_gen f64_one]\<rparr>]\<rparr>]\<rparr>"
  have "benchmark_ok ?b" using demo_load_ok by (simp add: benchmark_ok_def benchmark_loads_def)
  from benchmark_schedule [OF this, of rev] show ?thesis by (auto simp: gomap_order_def)
qed

end
