(* ===== verification/Core_Benchmark.thy ===== *)
theory Core_Benchmark
  imports Core_Scope Core_Timeload
begin

text \<open>
  From the benchmark file to the messages for the secondaries (\<^verbatim>\<open>src/core/benchmark.go\<close>, and the
  interaction factories of \<^verbatim>\<open>src/core/blockchain.go\<close>): parsing the workloads creates the clients on
  their locations and the generators of their loads, and instantiating the benchmark encodes
  every interaction of the schedule and sends it to its client.
\<close>

section \<open>Interaction factories\<close>

datatype interactionFactory = TransferFactory | InvokeFactory | ProxyFactory string

definition system_interactionFactory :: "string \<Rightarrow> interactionFactory" where
  "system_interactionFactory itype =
     (case map_of [(''transfer'', TransferFactory), (''invoke'', InvokeFactory)] itype of
        Some factory \<Rightarrow> factory
      | None \<Rightarrow> ProxyFactory itype)"

definition transferInteractionFactory_Instance ::
  "('g, 'b, 'r, 'x) env \<Rightarrow> bexpr \<Rightarrow> interactionInformation \<Rightarrow> (('g, 'b, 'r) world, byte list) go" where
  "transferInteractionFactory_Instance env e info =
     gbind (case env_TryField env e ''stake'' of Ok field \<Rightarrow> expr_GetInt env field | _ \<Rightarrow> gret 1) (\<lambda>stake.
     gbind (expr_GetResource env (env_Field env e ''from'') ''account'') (\<lambda>from.
     gbind (expr_GetResource env (env_Field env e ''to'') ''account'') (\<lambda>to.
     on_builder (env_EncodeTransfer env stake from to info))))"

definition invokeInteractionFactory_Instance ::
  "('g, 'b, 'r, 'x) env \<Rightarrow> bexpr \<Rightarrow> interactionInformation \<Rightarrow> (('g, 'b, 'r) world, byte list) go" where
  "invokeInteractionFactory_Instance env e info =
     gbind (expr_GetResource env (env_Field env e ''from'') ''account'') (\<lambda>from.
     gbind (expr_GetResource env (env_Field env e ''contract'') ''contract'') (\<lambda>contract.
     gbind (expr_GetString env (env_Field env e ''function'')) (\<lambda>function.
     on_builder (env_EncodeInvoke env from contract function info))))"

fun interactionFactory_Instance ::
  "('g, 'b, 'r, 'x) env \<Rightarrow> interactionFactory \<Rightarrow> bexpr \<Rightarrow> interactionInformation \<Rightarrow> (('g, 'b, 'r) world, byte list) go" where
  "interactionFactory_Instance env TransferFactory e t = transferInteractionFactory_Instance env e t"
| "interactionFactory_Instance env InvokeFactory e t = invokeInteractionFactory_Instance env e t"
| "interactionFactory_Instance env (ProxyFactory itype) e t = env_EncodeInteraction env itype e t"

section \<open>Parsing loads\<close>

text \<open>A client is addressed by the position of its secondary and its position there.\<close>

type_synonym bclient = "nat \<times> nat"
type_synonym timeload = "(bclient, interactionFactory, bexpr, basicScope) timeloadGenerator"
type_synonym biact = "(bclient, interactionFactory, bexpr, basicScope) benchmarkInteraction"
type_synonym clientLoad = "(bclient, interactionFactory, bexpr, basicScope) clientLoadGenerator"
type_synonym workload = "(bclient, interactionFactory, bexpr, basicScope) workloadGenerator"
type_synonym bench = "(bclient, interactionFactory, bexpr, basicScope) benchmark"

fun parse_load_entries ::
  "('g, 'b, 'r, 'x) env \<Rightarrow> bexpr list \<Rightarrow> (f64 \<times> f64) list \<Rightarrow> (('g, 'b, 'r) world, (f64 \<times> f64) list) go" where
  "parse_load_entries env [] load = gret load"
| "parse_load_entries env (entry # entries) load =
     gbind (expr_GetFloat env (expr_Key (env_path env) entry)) (\<lambda>time.
     if f64_lt time f64_zero
     then src_errorf env (expr_Key (env_path env) entry) ''%s: must be positive or zero'' []
     else
       gbind (expr_GetFloat env (expr_Value (env_path env) entry)) (\<lambda>val.
       parse_load_entries env entries (floatmap_set time val load)))"

definition parseTimeload ::
  "('g, 'b, 'r, 'x) env \<Rightarrow> bexpr \<Rightarrow> bclient \<Rightarrow> (('g, 'b, 'r) world, timeload) go" where
  "parseTimeload env e sender =
     (let interaction = env_Field env e ''interaction'' in
      gbind (glift (etype (env_path env) interaction)) (\<lambda>itype.
      gbind (gread (\<lambda>w. current w interaction)) (\<lambda>cur.
      gbind (parse_load_entries env (expr_Map (env_path env) (env_Field env e ''load'')) []) (\<lambda>load.
      gret \<lparr>tl_load = load, tl_sender = sender, tl_factory = system_interactionFactory itype,
            tl_source = interaction, tl_current = cur\<rparr>))))"

definition parseLoad ::
  "('g, 'b, 'r, 'x) env \<Rightarrow> bexpr \<Rightarrow> bclient \<Rightarrow> (('g, 'b, 'r) world, timeload) go" where
  "parseLoad env e sender =
     gbind (case etype (env_path env) e of Ok t \<Rightarrow> gret t | Err _ \<Rightarrow> gret ''timeload'' | Panic p \<Rightarrow> gpanic p) (\<lambda>btype.
     if btype = ''timeload'' then parseTimeload env e sender
     else src_errorf env e (''%s: unknown behavior '%s'' @ apos) [AStr btype])"

section \<open>Parsing clients\<close>

text \<open>
  The loop that draws the view from a once variable until it is exhausted. \<open>fuel\<close> bounds the draws;
  one more than the size of the distribution is enough (\<open>view_loop_ends\<close>).
\<close>

fun view_loop ::
  "('g, 'b, 'r, 'x) env \<Rightarrow> nat \<Rightarrow> nat \<Rightarrow> string list \<Rightarrow> (('g, 'b, 'r) world, string list) go" where
  "view_loop env v 0 addrs = gpanic ''out of fuel''"
| "view_loop env v (Suc fuel) addrs =
     gbind (Variable_Get env (Some v)) (\<lambda>element.
     case element of
       None \<Rightarrow> gret addrs
     | Some (GRes (REndpoint ep)) \<Rightarrow> view_loop env v fuel (addrs @ [pe_address ep])
     | Some _ \<Rightarrow> gpanic ''interface conversion'')"

definition view_fuel :: "nat \<Rightarrow> ('g, 'b, 'r) world \<Rightarrow> nat" where
  "view_fuel v w = Suc (nat (ud_size (vi_distrib (w_vars w ! v))))"

text \<open>The view variable: the field itself, or its \<open>endpoint\<close> field with an optional seed.\<close>

definition view_source ::
  "('g, 'b, 'r, 'x) env \<Rightarrow> bexpr \<Rightarrow> (('g, 'b, 'r) world, nat option \<times> int) go" where
  "view_source env vfield = (\<lambda>w.
     case expr_Resource env vfield ''endpoint'' w of
       (Ok view, w') \<Rightarrow> gbind (system_seed env) (\<lambda>seed. gret (view, seed)) w'
     | (Err _, w') \<Rightarrow>
         gbind (expr_Resource env (env_Field env vfield ''endpoint'') ''endpoint'') (\<lambda>view.
         gbind (case env_TryField env vfield ''seed'' of
                  Ok sfield \<Rightarrow> expr_GetInt env sfield
                | _ \<Rightarrow> system_seed env) (\<lambda>seed.
         gret (view, seed))) w'
     | (Panic p, w') \<Rightarrow> (Panic p, w'))"

definition parseView ::
  "('g, 'b, 'r, 'x) env \<Rightarrow> bexpr \<Rightarrow> (('g, 'b, 'r) world, string list) go" where
  "parseView env client =
     (let vfield = env_Field env client ''view'' in
      gbind (view_source env vfield) (\<lambda>(view, seed).
      gbind (copyVariable env view seed TypeOnce) (\<lambda>v.
      gbind (gread (view_fuel v)) (\<lambda>fuel.
      gbind (view_loop env v fuel []) (\<lambda>addrs.
      if addrs = [] then src_errorf env vfield ''%s: variable exhausted'' []
      else gret addrs)))))"

definition on_secondary :: "nat \<Rightarrow> (remoteSecondary, 'a) go \<Rightarrow> (('g, 'b, 'r) world, 'a) go" where
  "on_secondary i m = (\<lambda>w.
     if i < length (w_secondaries w)
     then case m (w_secondaries w ! i) of
       (r, rs) \<Rightarrow> (r, w\<lparr>w_secondaries := (w_secondaries w)[i := rs]\<rparr>)
     else (Panic ''nil pointer dereference'', w))"

definition client_body ::
  "('g, 'b, 'r, 'x) env \<Rightarrow> bexpr \<Rightarrow> (('g, 'b, 'r) world, clientLoad) go" where
  "client_body env e =
     gbind (parseView env e) (\<lambda>view.
     gbind (expr_GetResource env (env_Field env e ''location'') ''location'') (\<lambda>element.
     case element of
       GRes (RLocation i) \<Rightarrow>
         gbind (on_secondary i (createClient (FullPosition (env_path env) e) view)) (\<lambda>cid.
         gbind (gmap (\<lambda>field. parseLoad env field (i, cid)) (Slice (env_path env) (env_Field env e ''behavior''))) (\<lambda>loads.
         gret \<lparr>clg_target = (i, cid), clg_loads = loads\<rparr>))
     | _ \<Rightarrow> gpanic ''interface conversion''))"

definition parseClient ::
  "('g, 'b, 'r, 'x) env \<Rightarrow> bexpr \<Rightarrow> (('g, 'b, 'r) world, clientLoad) go" where
  "parseClient env e =
     (case env_TryField env e ''let'' of
        Ok field \<Rightarrow>
          gbind (expr_scope env field) (\<lambda>local.
          gbind (gmodify (specialize e (Some local))) (\<lambda>_.
          gfinally (client_body env e) (specialize e None)))
      | _ \<Rightarrow> client_body env e)"

section \<open>Parsing workloads and the benchmark\<close>

text \<open>The scope of a \<open>let\<close> field becomes the local scope of the expression, and stays.\<close>

definition let_scope :: "('g, 'b, 'r, 'x) env \<Rightarrow> bexpr \<Rightarrow> (('g, 'b, 'r) world, unit) go" where
  "let_scope env e =
     (case env_TryField env e ''let'' of
        Ok field \<Rightarrow> gbind (expr_scope env field) (\<lambda>local. gmodify (specialize e (Some local)))
      | _ \<Rightarrow> gret ())"

definition parseWorkload ::
  "('g, 'b, 'r, 'x) env \<Rightarrow> bexpr \<Rightarrow> (('g, 'b, 'r) world, workload) go" where
  "parseWorkload env e =
     gbind (let_scope env e) (\<lambda>_.
     gbind (number_field env e) (\<lambda>number.
     gbind (make_slice number) (\<lambda>n.
     gbind (gtimes n (parseClient env (env_Field env e ''client''))) (\<lambda>clientLoads.
     gret \<lparr>wg_clientLoads = clientLoads\<rparr>))))"

definition benchmark_parse ::
  "('g, 'b, 'r, 'x) env \<Rightarrow> bexpr \<Rightarrow> (('g, 'b, 'r) world, bench) go" where
  "benchmark_parse env e =
     gbind (let_scope env e) (\<lambda>_.
     gbind (gmap (parseWorkload env) (Slice (env_path env) (env_Field env e ''workloads''))) (\<lambda>workloads.
     gret \<lparr>bm_workloads = workloads\<rparr>))"

section \<open>Instantiating\<close>

definition instantiate_one ::
  "('g, 'b, 'r, 'x) env \<Rightarrow> int \<Rightarrow> biact \<Rightarrow> (('g, 'b, 'r) world, unit) go" where
  "instantiate_one env globalIndex iact =
     gbind (gmodify (specialize (bi_source iact) (Some (bi_current iact)))) (\<lambda>_.
     gbind (gfinally
        (interactionFactory_Instance env (bi_factory iact) (bi_source iact)
          \<lparr>ii_globalIndex = globalIndex, ii_clientIndex = 0, ii_localIndex = 0,
           ii_scheduleTime = bi_scheduleTime iact\<rparr>)
        (specialize (bi_source iact) None)) (\<lambda>encoded.
     case bi_sendingClient iact of (i, cid) \<Rightarrow>
     on_secondary i (sendInteraction cid (FullPosition (env_path env) (bi_source iact))
       (bi_scheduleTime iact) encoded)))"

fun instantiate_loop ::
  "('g, 'b, 'r, 'x) env \<Rightarrow> int \<Rightarrow> biact list \<Rightarrow> (('g, 'b, 'r) world, unit) go" where
  "instantiate_loop env globalIndex [] = gret ()"
| "instantiate_loop env globalIndex (iact # iacts) =
     gbind (instantiate_one env globalIndex iact) (\<lambda>_.
     instantiate_loop env (wrap64 (globalIndex + 1)) iacts)"

definition benchmark_instantiate ::
  "('g, 'b, 'r, 'x) env \<Rightarrow> biact list \<Rightarrow> (('g, 'b, 'r) world, unit) go" where
  "benchmark_instantiate env iacts = instantiate_loop env 0 iacts"

text \<open>
  \<^verbatim>\<open>benchmark.parse\<close> ends with the instantiation of what the generators deliver. The value is
  \<open>None\<close> when a generator never ends.
\<close>

definition benchmark_run ::
  "('g, 'b, 'r, 'x) env \<Rightarrow> ((f64 \<times> f64) list \<Rightarrow> (f64 \<times> f64) list) \<Rightarrow> bexpr
     \<Rightarrow> ('g, 'b, 'r) world \<Rightarrow> (unit outcome \<times> ('g, 'b, 'r) world) option" where
  "benchmark_run env order e w =
     (case benchmark_parse env e w of
        (Ok b, w') \<Rightarrow>
          map_option (\<lambda>r. gbind (glift r) (benchmark_instantiate env) w') (benchmark_generate order b)
      | (Err err, w') \<Rightarrow> Some (Err err, w')
      | (Panic p, w') \<Rightarrow> Some (Panic p, w'))"

text \<open>\<open>newSystem\<close> and the implicit top scope.\<close>

definition newSystem ::
  "('g, 'b, 'r, 'x) env \<Rightarrow> int \<Rightarrow> remoteSecondary list \<Rightarrow> 'b \<Rightarrow> ('g, 'b, 'r) world" where
  "newSystem env masterSeed locations builder =
     \<lparr>w_seedGenerator = env_NewSource env masterSeed, w_builder = builder, w_slocal = [],
      w_top = Scope 0 None, w_entries = [[]], w_vars = [], w_secondaries = locations\<rparr>"

definition parseBenchmarkYamlPath ::
  "(string \<Rightarrow> 'file outcome) \<Rightarrow> ('file \<Rightarrow> yaml_node outcome) \<Rightarrow> ('g, 'b, 'r, 'x) env
     \<Rightarrow> ((f64 \<times> f64) list \<Rightarrow> (f64 \<times> f64) list) \<Rightarrow> ('g, 'b, 'r) world
     \<Rightarrow> (unit outcome \<times> ('g, 'b, 'r) world) option" where
  "parseBenchmarkYamlPath os_Open yaml_Decode env order w =
     (case obind (os_Open (env_path env)) (\<lambda>file. obind (yaml_Decode file) (parseBenchmarkYaml (env_path env) [])) of
        Ok e \<Rightarrow> benchmark_run env order e w
      | Err err \<Rightarrow> Some (Err err, w)
      | Panic p \<Rightarrow> Some (Panic p, w))"

end
