(* ===== verification/Core_Frame.thy ===== *)
theory Core_Frame
  imports Core_Benchmark
begin

text \<open>
  What parsing leaves alone. The values of expressions change variables, seeds and the builder
  only; the scopes, the local scopes of the expressions and the secondaries (\<open>w_frame\<close>) are changed by
  the operations that are about them. The blockchain builder is an interface: its law is that a
  custom sample or interaction does not reach around the expression it is given.
\<close>

section \<open>Computations that keep a part of the state\<close>

lemma keeps_gpanic: "keeps f (gpanic p)"
  by (simp add: keeps_def gpanic_def)

lemma keeps_glift: "keeps f (glift r)"
  by (simp add: keeps_def glift_def)

lemma keeps_gread: "keeps f (gread g)"
  by (simp add: keeps_def gread_def)

lemma keeps_gmodify: "(\<And>s. f (g s) = f s) \<Longrightarrow> keeps f (gmodify g)"
  by (simp add: keeps_def gmodify_def)

lemma keeps_gtimes: "keeps f m \<Longrightarrow> keeps f (gtimes n m)"
  by (induction n) (auto intro!: keeps_intros)

lemma keeps_gmap: "(\<And>x. keeps f (g x)) \<Longrightarrow> keeps f (gmap g xs)"
  by (induction xs) (auto intro!: keeps_intros)

lemma keeps_gzoom: "(\<And>t s. f (put t s) = f s) \<Longrightarrow> keeps f (gzoom get put m)"
  by (auto simp: keeps_def gzoom_def split: prod.splits)

lemma keeps_option: "keeps f m \<Longrightarrow> (\<And>x. keeps f (g x)) \<Longrightarrow> keeps f (case r of None \<Rightarrow> m | Some x \<Rightarrow> g x)"
  by (cases r) simp_all

lemma keeps_pair: "(\<And>x y. keeps f (g x y)) \<Longrightarrow> keeps f (case r of (x, y) \<Rightarrow> g x y)"
  by (cases r) simp

lemma keeps_outcome:
  "(\<And>x. keeps f (g x)) \<Longrightarrow> (\<And>e. keeps f (h e)) \<Longrightarrow> (\<And>p. keeps f (k p)) \<Longrightarrow>
   keeps f (case r of Ok x \<Rightarrow> g x | Err e \<Rightarrow> h e | Panic p \<Rightarrow> k p)"
  by (cases r) simp_all

lemma keeps_gvalue:
  "(\<And>i. keeps f (a i)) \<Longrightarrow> (\<And>x. keeps f (b x)) \<Longrightarrow> (\<And>s. keeps f (c s)) \<Longrightarrow> (\<And>r. keeps f (d r)) \<Longrightarrow>
   keeps f (case v of GInt i \<Rightarrow> a i | GFloat x \<Rightarrow> b x | GStr s \<Rightarrow> c s | GRes r \<Rightarrow> d r)"
  by (cases v) simp_all

lemma keeps_Let: "keeps f (g x) \<Longrightarrow> keeps f (let y = x in g y)"
  by simp

text \<open>Running a computation and going on with its outcome, whatever it is.\<close>

lemma keeps_run:
  assumes "keeps f m" and "\<And>a. keeps f (g a)" and "\<And>e. keeps f (h e)" and "\<And>p. keeps f (k p)"
  shows "keeps f (\<lambda>s. case m s of (Ok a, s') \<Rightarrow> g a s' | (Err e, s') \<Rightarrow> h e s' | (Panic p, s') \<Rightarrow> k p s')"
  unfolding keeps_def
proof (intro allI impI)
  fix s r s'
  assume run: "(case m s of (Ok a, s') \<Rightarrow> g a s' | (Err e, s') \<Rightarrow> h e s' | (Panic p, s') \<Rightarrow> k p s') = (r, s')"
  obtain q t where m: "m s = (q, t)" by force
  have "f s' = f t"
    using run m keepsD [OF assms(2)] keepsD [OF assms(3)] keepsD [OF assms(4)] by (cases q) fastforce+
  with keepsD [OF assms(1) m] show "f s' = f s" by simp
qed

lemmas keeps_parts = keeps_intros keeps_gpanic keeps_glift keeps_gread keeps_gtimes keeps_gmap
  keeps_option keeps_pair keeps_outcome keeps_gvalue keeps_Let

section \<open>Values of expressions\<close>

definition w_frame :: "('g, 'b, 'r) world \<Rightarrow>
    (path, basicScope) gomap \<times> basicScope \<times> (string, basicScopeEntry) gomap list \<times> remoteSecondary list" where
  "w_frame w = (w_slocal w, w_top w, w_entries w, w_secondaries w)"

lemma keeps_newVariable: "keeps w_frame (newVariable domain sample distrib)"
  by (simp add: keeps_def newVariable_def w_frame_def)

lemma keeps_get_var: "keeps w_frame (get_var v)"
  by (simp add: keeps_def get_var_def)

lemma keeps_Variable_Get: "keeps w_frame (Variable_Get env v)"
  unfolding Variable_Get_def
  by (rule keeps_gbind [OF keeps_get_var])
    (auto simp: keeps_def w_frame_def Let_def split: prod.splits)

lemma keeps_on_builder: "keeps w_frame (on_builder m)"
  unfolding on_builder_def by (rule keeps_gzoom) (simp add: w_frame_def)

lemma keeps_src_errorf: "keeps f (src_errorf env e format args)"
  by (simp add: src_errorf_def keeps_gerr)

lemmas keeps_vars = keeps_newVariable keeps_get_var keeps_Variable_Get keeps_on_builder keeps_src_errorf

lemma keeps_variables:
  "keeps w_frame (copyVariable env v seed vtype)" "keeps w_frame (newUniform env sz seed vtype)"
  "keeps w_frame (newFloatImmediate env x)" "keeps w_frame (newIntImmediate env i)"
  "keeps w_frame (newStringImmediate env s)" "keeps w_frame (floatVariable_TryGetFloat env v)"
  "keeps w_frame (intVariable_TryGetInt env v)" "keeps w_frame (stringVariable_TryGetString env v)"
  unfolding copyVariable_def newUniform_def newFloatImmediate_def newIntImmediate_def newStringImmediate_def
    floatVariable_TryGetFloat_def intVariable_TryGetInt_def stringVariable_TryGetString_def
  by (intro keeps_parts keeps_vars)+

lemma keeps_alias_get: "keeps w_frame (alias_get env e)"
  unfolding alias_get_def by (intro keeps_parts keeps_vars)

lemma keeps_bexpr:
  assumes "\<And>p n k v. keeps f (a p n k v)" and "\<And>p n i fs. keeps f (b p n i fs)" and "\<And>p n is. keeps f (c p n is)"
    and "\<And>p n. keeps f (d p n)" and "\<And>p n. keeps f (g p n)" and "\<And>p s err. keeps f (h p s err)"
  shows "keeps f (case e of BField p n k v \<Rightarrow> a p n k v | BMapping p n i fs \<Rightarrow> b p n i fs | BSequence p n is \<Rightarrow> c p n is
    | BScalar p n \<Rightarrow> d p n | BAlias p n \<Rightarrow> g p n | BError p s err \<Rightarrow> h p s err)"
  using assms by (cases e) simp_all

lemma keeps_yaml_value:
  "(\<And>i. keeps f (a i)) \<Longrightarrow> (\<And>x. keeps f (b x)) \<Longrightarrow> keeps f c \<Longrightarrow>
   keeps f (case v of YInt i \<Rightarrow> a i | YFloat x \<Rightarrow> b x | YOther \<Rightarrow> c)"
  by (cases v) simp_all

lemmas keeps_rules = keeps_parts keeps_vars keeps_variables keeps_alias_get keeps_bexpr keeps_yaml_value

lemma keeps_scalar:
  "keeps w_frame (scalar_GetInt env e node)" "keeps w_frame (scalar_GetFloat env e node)"
  "keeps w_frame (scalar_GetString env e node)"
  unfolding scalar_GetInt_def scalar_GetFloat_def scalar_GetString_def by (intro keeps_rules)+

lemma keeps_expr_variable:
  "keeps w_frame (expr_Resource env e domain)" "keeps w_frame (expr_Int env e)"
  "keeps w_frame (expr_Float env e)" "keeps w_frame (expr_String env e)"
  unfolding expr_Resource_def expr_Int_def expr_Float_def expr_String_def by (intro keeps_rules keeps_scalar)+

lemma keeps_expr_value:
  "keeps w_frame (expr_GetResource env e domain)" "keeps w_frame (expr_GetInt env e)"
  "keeps w_frame (expr_GetFloat env e)" "keeps w_frame (expr_GetString env e)"
  unfolding expr_GetResource_def expr_GetInt_def expr_GetFloat_def expr_GetString_def
  by (intro keeps_rules keeps_scalar keeps_expr_variable)+

lemmas keeps_exprs = keeps_rules keeps_scalar keeps_expr_variable keeps_expr_value

section \<open>Factories and variables\<close>

text \<open>The law of a blockchain builder.\<close>

locale blockchain_builder =
  fixes env :: "('g, 'b, 'r, 'x) env"
  assumes keeps_CreateResource: "env_CreateResource env domain = Some factory \<Longrightarrow> keeps w_frame (factory e)"
    and keeps_EncodeInteraction: "keeps w_frame (env_EncodeInteraction env itype e t)"
begin

lemma keeps_compile_filters: "keeps w_frame (compile_filters env fs)"
proof (induction fs)
  case (Cons f fs)
  show ?case unfolding compile_filters.simps by (intro keeps_exprs Cons.IH)
qed (simp add: keeps_gret)

lemma keeps_parseFilteredElementSample: "keeps w_frame (parseFilteredElementSample env e tags elements)"
  unfolding parseFilteredElementSample_def by (intro keeps_exprs keeps_compile_filters)

lemma keeps_create_sample: "keeps w_frame (create_sample env e create)"
  using keepsD [OF keeps_on_builder, of create]
  by (fastforce simp: keeps_def create_sample_def src_errorf_def gerr_def split: prod.splits outcome.splits)

lemma keeps_factories:
  "keeps w_frame (intSampleFactory_Instance env e)" "keeps w_frame (floatSampleFactory_Instance env e)"
  "keeps w_frame (locationSampleFactory_Instance env e)" "keeps w_frame (endpointSampleFactory_Instance env e)"
  "keeps w_frame (number_field env e)" "keeps w_frame (make_slice n)"
  unfolding intSampleFactory_Instance_def floatSampleFactory_Instance_def locationSampleFactory_Instance_def
    endpointSampleFactory_Instance_def number_field_def make_slice_def
  by (intro keeps_exprs keeps_parseFilteredElementSample)+

lemma keeps_created:
  "keeps w_frame (accountFactory_Instance env e)" "keeps w_frame (contractFactory_Instance env e)"
  unfolding accountFactory_Instance_def contractFactory_Instance_def
  by (intro keeps_exprs keeps_factories keeps_create_sample)+

lemma keeps_sampleFactory: "sampleFactory env domain = Some factory \<Longrightarrow> keeps w_frame (factory e)"
  using keeps_CreateResource keeps_factories keeps_created
  by (auto simp: sampleFactory_def split: option.splits if_splits)

lemma keeps_system_seed: "keeps w_frame (system_seed env)"
  by (auto simp: keeps_def system_seed_def w_frame_def split: prod.splits)

lemma keeps_parseSeed: "keeps w_frame (parseSeed env e)"
  unfolding parseSeed_def
  by (rule keeps_run [where k = gpanic, unfolded gpanic_def], fold gpanic_def) (intro keeps_exprs)+

lemma keeps_random_instance: "keeps w_frame (random_instance env e rtype field)"
  unfolding random_instance_def by (intro keeps_exprs)

lemma keeps_parseSampleVariable: "keeps w_frame (parseSampleVariable env def)"
proof -
  have factory: "keeps w_frame (case sampleFactory env domain of
      None \<Rightarrow> src_errorf env e fmt args | Some factory \<Rightarrow> gbind (factory f) m)"
    if "\<And>s. keeps w_frame (m s)" for domain f m e fmt args
    using that keeps_sampleFactory by (auto split: option.splits intro!: keeps_exprs)
  show ?thesis
    unfolding parseSampleVariable_def Let_def
    by (rule keeps_gbind [OF keeps_glift], rule factory) (intro keeps_exprs keeps_random_instance)
qed

lemma keeps_parseVariable: "keeps w_frame (parseVariable env e)"
  unfolding parseVariable_def parse_vtype_def parseCopyVariable_def parseComposeVariable_def
  by (intro keeps_exprs keeps_parseSeed keeps_system_seed keeps_parseSampleVariable)

lemma keeps_interactionFactory: "keeps w_frame (interactionFactory_Instance env factory e t)"
proof (cases factory)
  case (ProxyFactory itype)
  then show ?thesis by (simp add: keeps_EncodeInteraction)
qed (auto simp: transferInteractionFactory_Instance_def invokeInteractionFactory_Instance_def intro!: keeps_exprs)

lemma keeps_parse_load_entries: "keeps w_frame (parse_load_entries env entries load)"
proof (induction entries arbitrary: load)
  case (Cons entry entries)
  show ?case unfolding parse_load_entries.simps by (intro keeps_exprs Cons.IH)
qed (simp add: keeps_gret)

lemma keeps_parseLoad: "keeps w_frame (parseLoad env e sender)"
  unfolding parseLoad_def parseTimeload_def by (intro keeps_exprs keeps_parse_load_entries)

lemma keeps_view_loop: "keeps w_frame (view_loop env v fuel addrs)"
proof (induction fuel arbitrary: addrs)
  case (Suc fuel)
  have "keeps w_frame (case r of RLocation i \<Rightarrow> gpanic p | REndpoint ep \<Rightarrow> view_loop env v fuel (addrs @ [pe_address ep])
      | ROpaque x \<Rightarrow> gpanic p)" for r :: "'r resource" and p addrs
    using Suc by (cases r) (simp_all add: keeps_gpanic)
  then show ?case unfolding view_loop.simps by (intro keeps_exprs)
qed (simp add: keeps_gpanic)

lemma keeps_parseView: "keeps w_frame (parseView env e)"
proof -
  have "keeps w_frame (view_source env vfield)" for vfield
    unfolding view_source_def
    by (rule keeps_run [where k = gpanic, unfolded gpanic_def], fold gpanic_def)
      (intro keeps_exprs keeps_system_seed)+
  then show ?thesis unfolding parseView_def by (intro keeps_exprs keeps_view_loop)
qed

end

end
