(* ===== verification/Core_Operations.thy ===== *)
theory Core_Operations
  imports Core_Frame
begin

text \<open>
  What a benchmark does to the secondaries. Parsing it only creates clients, and instantiating it
  only sends interactions, in the order of the schedule: on every secondary the whole run is a
  sequence of the operations that \<open>Core_Primary\<close> turns into messages.
\<close>

section \<open>Acting on the secondaries\<close>

definition acts :: "remoteSecondary list \<Rightarrow> (nat \<Rightarrow> prep_op list) \<Rightarrow> remoteSecondary list \<Rightarrow> bool" where
  "acts rss ops rss' \<longleftrightarrow> length rss' = length rss \<and>
     (\<forall>i < length rss. gfor (ops i) exec_op (rss ! i) = (Ok (), rss' ! i))"

lemma acts_refl: "acts rss (\<lambda>_. []) rss"
  by (simp add: acts_def gret_run)

lemma acts_trans: "acts rss opsa rssa \<Longrightarrow> acts rssa opsb rssb \<Longrightarrow> acts rss (\<lambda>i. opsa i @ opsb i) rssb"
  by (simp add: acts_def gfor_append gbind_Ok)

lemma acts_one:
  assumes "exec_op op (rss ! i) = (Ok (), rs)" and "i < length rss"
  shows "acts rss (\<lambda>j. if j = i then [op] else []) (rss[i := rs])"
  using assms by (auto simp: acts_def gbind_Ok gret_run nth_list_update)

lemma on_secondary_Ok:
  assumes "on_secondary i m w = (Ok a, w')"
  obtains rs where "i < length (w_secondaries w)" and "m (w_secondaries w ! i) = (Ok a, rs)"
    and "w_secondaries w' = (w_secondaries w)[i := rs]"
  using assms by (auto simp: on_secondary_def split: if_splits prod.splits)

fun is_client :: "prep_op \<Rightarrow> bool" where
  "is_client (OpClient _ _) = True"
| "is_client _ = False"

text \<open>Computations that, when they succeed, create clients and do nothing else to the secondaries.\<close>

definition creates :: "(('g, 'b, 'r) world, 'a) go \<Rightarrow> bool" where
  "creates m \<longleftrightarrow> (\<forall>w a w'. m w = (Ok a, w') \<longrightarrow>
     (\<exists>ops. acts (w_secondaries w) ops (w_secondaries w') \<and> (\<forall>i. list_all is_client (ops i))))"

lemma createsD:
  assumes "creates m" and "m w = (Ok a, w')"
  obtains ops where "acts (w_secondaries w) ops (w_secondaries w')" and "\<And>i. list_all is_client (ops i)"
  using assms unfolding creates_def by blast

lemma creates_keeps: "keeps w_frame m \<Longrightarrow> creates m"
  unfolding creates_def
proof (intro allI impI)
  fix w a w'
  assume "keeps w_frame m" and "m w = (Ok a, w')"
  then have "w_secondaries w' = w_secondaries w" using keepsD [of w_frame m] by (simp add: w_frame_def)
  then show "\<exists>ops. acts (w_secondaries w) ops (w_secondaries w') \<and> (\<forall>i. list_all is_client (ops i))"
    using acts_refl by (intro exI [of _ "\<lambda>_. []"]) simp
qed

lemma creates_gbind:
  assumes "creates m" and "\<And>a. creates (f a)"
  shows "creates (gbind m f)"
  unfolding creates_def
proof (intro allI impI)
  fix w b w'
  assume "gbind m f w = (Ok b, w')"
  then obtain a w1 where run: "m w = (Ok a, w1)" "f a w1 = (Ok b, w')" by (rule gbind_OkE)
  obtain opsa opsb where ops: "acts (w_secondaries w) opsa (w_secondaries w1)" "\<And>i. list_all is_client (opsa i)"
    "acts (w_secondaries w1) opsb (w_secondaries w')" "\<And>i. list_all is_client (opsb i)"
    using createsD [OF assms(1) run(1)] createsD [OF assms(2) run(2)] by metis
  then show "\<exists>ops. acts (w_secondaries w) ops (w_secondaries w') \<and> (\<forall>i. list_all is_client (ops i))"
    using acts_trans [OF ops(1,3)] by (intro exI [of _ "\<lambda>i. opsa i @ opsb i"]) simp
qed

lemma creates_gfinally:
  "creates m \<Longrightarrow> (\<And>w. w_secondaries (f w) = w_secondaries w) \<Longrightarrow> creates (gfinally m f)"
  by (auto simp: creates_def gfinally_def split: prod.splits)

lemma creates_gmodify: "(\<And>w. w_secondaries (f w) = w_secondaries w) \<Longrightarrow> creates (gmodify f)"
  using acts_refl by (fastforce simp: creates_def gmodify_def)

lemma creates_basic:
  "creates (gret a)" "creates (gread f)" "creates (gerr e)" "creates (gpanic p)"
  "creates (src_errorf env x format args)"
  by (intro creates_keeps keeps_parts keeps_src_errorf)+

lemma creates_gtimes: "creates m \<Longrightarrow> creates (gtimes n m)"
  by (induction n) (auto intro!: creates_gbind creates_basic)

lemma creates_gmap: "(\<And>x. creates (f x)) \<Longrightarrow> creates (gmap f xs)"
  by (induction xs) (auto intro!: creates_gbind creates_basic)

lemma creates_createClient: "creates (on_secondary i (createClient kind view))"
  unfolding creates_def
proof (intro allI impI)
  fix w :: "('g, 'b, 'r) world" and cid w'
  assume "on_secondary i (createClient kind view) w = (Ok cid, w')"
  then obtain rs where rs: "i < length (w_secondaries w)" "createClient kind view (w_secondaries w ! i) = (Ok cid, rs)"
    "w_secondaries w' = (w_secondaries w)[i := rs]" by (rule on_secondary_Ok)
  then have "exec_op (OpClient kind view) (w_secondaries w ! i) = (Ok (), rs)" by (simp add: gbind_Ok gret_run)
  from acts_one [OF this rs(1)] rs(3)
  show "\<exists>ops. acts (w_secondaries w) ops (w_secondaries w') \<and> (\<forall>i. list_all is_client (ops i))"
    by (intro exI [of _ "\<lambda>j. if j = i then [OpClient kind view] else []"]) simp
qed

lemma specialize_secondaries [simp]: "w_secondaries (specialize e sc w) = w_secondaries w"
  by (simp add: specialize_def split: bexpr.splits option.splits)

section \<open>Parsing creates clients\<close>

context blockchain_builder
begin

lemma creates_scope_parse_loop: "creates (scope_parse_loop env sc children positions)"
proof (induction children arbitrary: positions)
  case (Cons child children)
  have "creates (scope_add sc name domain v)" for name domain v
    unfolding scope_add_def by (rule creates_gmodify) simp
  then show ?case
    unfolding scope_parse_loop.simps using Cons.IH
    by (auto intro!: creates_gbind creates_keeps [OF keeps_parseVariable] creates_basic
        split: option.splits)
qed (simp add: creates_keeps keeps_gret)

lemma creates_expr_scope: "creates (expr_scope env e)"
proof -
  have "creates (scope_init parent :: (('g, 'b, 'r) world, basicScope) go)" for parent
    using acts_refl by (fastforce simp: creates_def scope_init_def)
  moreover have "creates (scope_parse env sc e)" for sc
    unfolding scope_parse_def
    by (intro creates_gbind creates_gmodify creates_gfinally creates_scope_parse_loop)
      (auto intro: creates_basic)
  ultimately show ?thesis
    unfolding expr_scope_def
    by (cases e) (auto intro!: creates_gbind creates_basic)
qed

lemma creates_client_body: "creates (client_body env e)"
  unfolding client_body_def
  by (rule creates_gbind [OF creates_keeps [OF keeps_parseView]], rule creates_gbind [OF creates_keeps [OF keeps_expr_value(1)]])
    (auto intro!: creates_gbind creates_createClient creates_gmap creates_keeps [OF keeps_parseLoad] creates_basic
      split: gvalue.splits resource.splits)

lemma creates_parseClient: "creates (parseClient env e)"
  unfolding parseClient_def using creates_client_body creates_expr_scope
  by (auto intro!: creates_gbind creates_gmodify creates_gfinally split: outcome.splits)

lemma creates_let_scope: "creates (let_scope env e)"
  unfolding let_scope_def using creates_expr_scope
  by (auto intro!: creates_gbind creates_gmodify creates_basic split: outcome.splits)

lemma creates_benchmark_parse: "creates (benchmark_parse env e)"
  unfolding benchmark_parse_def parseWorkload_def
  by (intro creates_gbind creates_let_scope creates_gmap creates_gtimes creates_parseClient)
    (auto intro!: creates_keeps [OF keeps_factories(5)] creates_keeps [OF keeps_factories(6)] creates_basic)

end

section \<open>Instantiating sends the schedule\<close>

definition interaction_op :: "('g, 'b, 'r, 'x) env \<Rightarrow> biact \<Rightarrow> byte list \<Rightarrow> prep_op" where
  "interaction_op env iact payload =
     OpInteraction (snd (bi_sendingClient iact)) (FullPosition (env_path env) (bi_source iact))
       (bi_scheduleTime iact) payload"

definition interaction_ops :: "('g, 'b, 'r, 'x) env \<Rightarrow> (biact \<times> byte list) list \<Rightarrow> nat \<Rightarrow> prep_op list" where
  "interaction_ops env ips i =
     map (\<lambda>(iact, payload). interaction_op env iact payload) (filter (\<lambda>(iact, _). fst (bi_sendingClient iact) = i) ips)"

context blockchain_builder
begin

lemma instantiate_one_acts:
  assumes "instantiate_one env globalIndex iact w = (Ok (), w')"
  shows "\<exists>payload. acts (w_secondaries w) (interaction_ops env [(iact, payload)]) (w_secondaries w')"
proof -
  let ?src = "bi_source iact" and ?i = "fst (bi_sendingClient iact)"
  let ?inst = "interactionFactory_Instance env (bi_factory iact) ?src \<lparr>ii_globalIndex = globalIndex,
    ii_clientIndex = 0, ii_localIndex = 0, ii_scheduleTime = bi_scheduleTime iact\<rparr>"
  have client: "bi_sendingClient iact = (?i, snd (bi_sendingClient iact))" by simp
  from assms obtain payload w1 where run:
    "gfinally ?inst (specialize ?src None) (specialize ?src (Some (bi_current iact)) w) = (Ok payload, w1)"
    "on_secondary ?i (sendInteraction (snd (bi_sendingClient iact)) (FullPosition (env_path env) ?src)
       (bi_scheduleTime iact) payload) w1 = (Ok (), w')"
    unfolding instantiate_one_def by (auto simp: gmodify_run split: prod.splits elim!: gbind_OkE)
  then obtain w0 where "?inst (specialize ?src (Some (bi_current iact)) w) = (Ok payload, w0)" "w1 = specialize ?src None w0"
    by (auto simp: gfinally_def split: prod.splits)
  with keepsD [OF keeps_interactionFactory this(1)] have sec: "w_secondaries w1 = w_secondaries w"
    by (simp add: w_frame_def)
  from run(2) obtain rs where rs: "?i < length (w_secondaries w1)"
    "exec_op (interaction_op env iact payload) (w_secondaries w1 ! ?i) = (Ok (), rs)"
    "w_secondaries w' = (w_secondaries w1)[?i := rs]"
    by (auto simp: interaction_op_def elim!: on_secondary_Ok)
  have "interaction_ops env [(iact, payload)] = (\<lambda>j. if j = ?i then [interaction_op env iact payload] else [])"
    by (auto simp: interaction_ops_def fun_eq_iff)
  with acts_one [OF rs(2,1)] rs(3) sec show ?thesis by (intro exI [of _ payload]) simp
qed

lemma instantiate_loop_acts:
  "instantiate_loop env globalIndex iacts w = (Ok (), w') \<Longrightarrow>
   \<exists>payloads. length payloads = length iacts \<and>
     acts (w_secondaries w) (interaction_ops env (zip iacts payloads)) (w_secondaries w')"
proof (induction iacts arbitrary: globalIndex w)
  case Nil
  then show ?case using acts_refl by (auto simp: gret_run interaction_ops_def [abs_def])
next
  case (Cons iact iacts)
  from Cons.prems obtain w1 where run: "instantiate_one env globalIndex iact w = (Ok (), w1)"
    "instantiate_loop env (wrap64 (globalIndex + 1)) iacts w1 = (Ok (), w')"
    by (auto elim!: gbind_OkE)
  obtain payload where one: "acts (w_secondaries w) (interaction_ops env [(iact, payload)]) (w_secondaries w1)"
    using instantiate_one_acts [OF run(1)] by blast
  obtain payloads where rest: "length payloads = length iacts"
    "acts (w_secondaries w1) (interaction_ops env (zip iacts payloads)) (w_secondaries w')"
    using Cons.IH [OF run(2)] by blast
  have "(\<lambda>i. interaction_ops env [(iact, payload)] i @ interaction_ops env (zip iacts payloads) i) =
      interaction_ops env (zip (iact # iacts) (payload # payloads))"
    by (auto simp: interaction_ops_def fun_eq_iff)
  with acts_trans [OF one rest(2)] rest(1) show ?case by (intro exI [of _ "payload # payloads"]) simp
qed

text \<open>The whole run: the clients first, then the schedule.\<close>

lemma benchmark_run_acts:
  assumes "benchmark_run env order e w = Some (Ok (), w')"
  shows "\<exists>b w1 iacts payloads cops. benchmark_parse env e w = (Ok b, w1) \<and>
    benchmark_generate order b = Some (Ok iacts) \<and> length payloads = length iacts \<and>
    (\<forall>i. list_all is_client (cops i)) \<and>
    acts (w_secondaries w) (\<lambda>i. cops i @ interaction_ops env (zip iacts payloads) i) (w_secondaries w')"
proof -
  obtain b w1 iacts where run: "benchmark_parse env e w = (Ok b, w1)" "benchmark_generate order b = Some (Ok iacts)"
    "benchmark_instantiate env iacts w1 = (Ok (), w')"
    using assms by (auto simp: benchmark_run_def glift_run split: prod.splits outcome.splits elim!: gbind_OkE)
  obtain cops where cops: "acts (w_secondaries w) cops (w_secondaries w1)" "\<And>i. list_all is_client (cops i)"
    using createsD [OF creates_benchmark_parse run(1)] by metis
  obtain payloads where pays: "length payloads = length iacts"
    "acts (w_secondaries w1) (interaction_ops env (zip iacts payloads)) (w_secondaries w')"
    using instantiate_loop_acts run(3) unfolding benchmark_instantiate_def by blast
  show ?thesis
    using run(1,2) cops(2) pays(1) acts_trans [OF cops(1) pays(2)] by blast
qed

end

end
