(* ===== verification/Go_Time.thy ===== *)
theory Go_Time
  imports Go_Float64
begin

text \<open>
  The part of package \<^verbatim>\<open>time\<close> the program uses: instants of a monotonic clock and durations as
  integers of nanoseconds, \<^verbatim>\<open>Time.Sub\<close>, \<^verbatim>\<open>Duration.Seconds\<close>, and the conversion of a number of
  seconds to a duration.
\<close>

type_synonym gtime = int

definition go_div :: "int \<Rightarrow> int \<Rightarrow> int" where
  "go_div a b = sgn a * sgn b * (\<bar>a\<bar> div \<bar>b\<bar>)"

definition go_mod :: "int \<Rightarrow> int \<Rightarrow> int" where
  "go_mod a b = a - b * go_div a b"

text \<open>The difference of two instants saturates at the bounds of a duration.\<close>

definition time_Sub :: "gtime \<Rightarrow> gtime \<Rightarrow> int" where
  "time_Sub t u = max (- (2 ^ 63)) (min (2 ^ 63 - 1) (t - u))"

definition time_Second :: int where
  "time_Second = 1000000000"

definition f64_second :: f64 where
  "f64_second = f64_of_int time_Second"

definition duration_Seconds :: "int \<Rightarrow> f64" where
  "duration_Seconds d =
     f64_add (f64_of_int (go_div d time_Second))
       (f64_div (f64_of_int (go_mod d time_Second)) f64_second)"

definition seconds_Duration :: "f64 \<Rightarrow> int" where
  "seconds_Duration s = f64_to_int (f64_mul s f64_second)"

lemma go_div_nonneg: "0 \<le> d \<Longrightarrow> 0 < b \<Longrightarrow> go_div d b = d div b"
  by (cases "d = 0") (simp_all add: go_div_def)

lemma go_mod_nonneg: "0 \<le> d \<Longrightarrow> 0 < b \<Longrightarrow> go_mod d b = d mod b"
  by (simp add: go_mod_def go_div_nonneg minus_mult_div_eq_mod)

text \<open>A non-negative duration is a non-negative number of seconds.\<close>

lemma f64_of_int_round: "f64_of_int i = f64_round (i * int f64_unit) 1"
proof -
  have "nat \<bar>i * int f64_unit\<bar> = nat \<bar>i\<bar> * f64_unit" by (simp add: abs_mult nat_mult_distrib)
  moreover have "i * int f64_unit < 0 \<longleftrightarrow> i < 0" using f64_unit_pos by (simp add: mult_less_0_iff)
  ultimately show ?thesis by (simp add: f64_of_int_def f64_round_def)
qed

text \<open>Integers of at most 63 bits convert to finite values.\<close>

lemma f64_of_int_finite:
  assumes "\<bar>i\<bar> \<le> 2 ^ 63"
  shows "f64_finite (f64_of_int i)"
proof -
  let ?m = "1086 * 2 ^ 52 :: nat"
  have "sval ?m = 2 ^ 63 * f64_unit"
    using sval_block [of "2 ^ 52" 1085] by (simp add: f64_unit_def)
  moreover have "nat \<bar>i\<bar> \<le> 2 ^ 63" using assms by (simp add: nat_le_iff)
  ultimately have "nat \<bar>i\<bar> * f64_unit \<le> sval ?m * 1" by (simp add: mult_le_mono1)
  then have "round_mag (nat \<bar>i\<bar> * f64_unit) 1 \<le> ?m" by (intro round_mag_le) simp_all
  then have "round_mag (nat \<bar>i\<bar> * f64_unit) 1 < inf_mag" by (simp add: inf_mag_def)
  then show ?thesis by (simp add: f64_of_int_def f64_finite_def)
qed

lemma f64_of_int_mono: "0 \<le> i \<Longrightarrow> i \<le> j \<Longrightarrow> f64_le (f64_of_int i) (f64_of_int j)"
proof -
  assume ij: "0 \<le> i" "i \<le> j"
  then have "round_mag (nat \<bar>i\<bar> * f64_unit) 1 \<le> round_mag (nat \<bar>j\<bar> * f64_unit) 1"
    by (intro round_mag_mono) simp_all
  with ij show ?thesis by (simp add: f64_of_int_def f64_le_def f64_key_def round_mag_le_inf)
qed

lemma f64_second_pos: "f64_finite f64_second" "0 < f64_int f64_second"
proof -
  show fin: "f64_finite f64_second"
    unfolding f64_second_def by (rule f64_of_int_finite) (simp add: time_Second_def)
  have "f64_le f64_one f64_second"
    unfolding f64_second_def f64_of_int_round by (rule f64_round_ge) (simp_all add: time_Second_def)
  with fin have "int f64_unit \<le> f64_int f64_second" by (simp add: f64_le_int)
  then show "0 < f64_int f64_second" using f64_unit_pos by linarith
qed

lemma f64_le_finite:
  assumes "f64_le f64_zero a" and "f64_le a b" and "f64_finite b"
  shows "f64_finite a"
proof -
  have "f64_key a \<ge> 0" "f64_key a \<le> f64_key b" using assms(1,2) by (simp_all add: f64_le_def)
  then have "f64_mag a \<le> f64_mag b" by (auto simp: f64_key_def split: if_splits)
  with assms(3) show ?thesis by (simp add: f64_finite_def)
qed

lemma duration_Seconds_nonneg:
  assumes "0 \<le> d" and "d < 2 ^ 63"
  shows "f64_le f64_zero (duration_Seconds d)"
proof -
  let ?sec = "f64_of_int (d div time_Second)" and ?nsec = "f64_of_int (d mod time_Second)"
  have parts: "0 \<le> d div time_Second" "0 \<le> d mod time_Second" "d mod time_Second \<le> time_Second"
    "d div time_Second \<le> 2 ^ 63"
    using assms by (auto simp: time_Second_def pos_imp_zdiv_nonneg_iff)
  have fin: "f64_finite ?sec" "f64_finite ?nsec"
    using parts by (auto intro!: f64_of_int_finite simp: time_Second_def)
  have pos: "0 \<le> f64_int ?sec" "0 \<le> f64_int ?nsec" "f64_int ?nsec \<le> f64_int f64_second"
    using parts f64_of_int_nonneg f64_of_int_mono [of "d mod time_Second" time_Second] fin f64_second_pos
    by (auto simp: f64_le_int f64_second_def dest: f64_of_int_nonneg)
  have div: "f64_le f64_zero (f64_div ?nsec f64_second)" "f64_le (f64_div ?nsec f64_second) f64_one"
    using fin(2) pos(2,3) f64_second_pos
    by (auto intro!: f64_div_ge f64_div_le simp: mult.commute [of "f64_int ?nsec"])
  then have "f64_finite (f64_div ?nsec f64_second)" by (rule f64_le_finite) simp
  then have "f64_le f64_zero (f64_add ?sec (f64_div ?nsec f64_second))"
    using fin(1) pos(1) div(1) by (intro f64_add_ge) (simp_all add: f64_le_int)
  then show ?thesis
    using assms by (simp add: duration_Seconds_def go_div_nonneg go_mod_nonneg time_Second_def)
qed

lemma elapsed_nonneg: "u \<le> t \<Longrightarrow> f64_le f64_zero (duration_Seconds (time_Sub t u))"
  by (rule duration_Seconds_nonneg) (auto simp: time_Sub_def)

text \<open>The value \<open>-1\<close> that stands for an event that did not happen is not the time of one.\<close>

lemma minus_one_negative: "\<not> f64_le f64_zero f64_minus_one"
proof -
  have "f64_key f64_minus_one < 0"
    by (simp add: f64_key_def f64_minus_one_def f64_mag_def f64_neg_def)
  then show ?thesis by (simp add: f64_le_def)
qed

lemma elapsed_not_minus_one: "u \<le> t \<Longrightarrow> duration_Seconds (time_Sub t u) \<noteq> f64_minus_one"
  using elapsed_nonneg minus_one_negative by metis

end
