(* ===== verification/Core_Secondary.thy ===== *)
theory Core_Secondary
  imports Core_Net Go_Time
begin

text \<open>
  A secondary (\<^verbatim>\<open>src/core/nsecondary.go\<close>): the runtime that receives the clients and the
  interactions from the primary, the schedule of the interactions, the state of one interaction
  and the reports of a blockchain client that change it, and the results sent back. Blockchain
  clients are code of other packages: what they do is an argument (creating a client, decoding a
  payload) or an event (a report, the end of a trigger).
\<close>

section \<open>Data\<close>

text \<open>What the runtime uses of a \<^verbatim>\<open>BlockchainInterface\<close> and of its clients.\<close>

record ('cl, 'op) chain =
  ch_Client :: "(string, string) gomap \<Rightarrow> string list \<Rightarrow> string list \<Rightarrow> 'cl outcome"
  ch_DecodePayload :: "'cl \<Rightarrow> byte list \<Rightarrow> 'op outcome"

record 'cl runtimeClient =
  rtc_id :: int
  rtc_inner :: 'cl

record ('cl, 'op) runtimeInteraction =
  ri_client :: "'cl runtimeClient"
  ri_ikind :: int
  ri_schedTime :: f64
  ri_opaque :: 'op
  ri_submitted :: bool
  ri_committed :: bool
  ri_aborted :: bool
  ri_done :: bool
  ri_submitTime :: gtime
  ri_commitTime :: gtime
  ri_abortTime :: gtime
  ri_err :: "go_error option"

datatype warning =
    WarnTwice string int
  | WarnDelay int f64
  | WarnSkew f64
  | ErrorInteraction go_error

record ('cl, 'op) runtime =
  rt_conn :: conn
  rt_params :: msgPrimaryParameters
  rt_chainEnv :: "string list"
  rt_chain :: "('cl, 'op) chain"
  rt_clients :: "(int, 'cl runtimeClient) gomap"
  rt_start :: gtime
  rt_lastSkewWarn :: gtime
  rt_interactions :: "('cl, 'op) runtimeInteraction list"
  rt_lastDelayWarn :: gtime
  rt_log :: "warning list"

definition rt_on_conn :: "(conn, 'a) go \<Rightarrow> (('cl, 'op) runtime, 'a) go" where
  "rt_on_conn m = gzoom rt_conn (\<lambda>c rt. rt\<lparr>rt_conn := c\<rparr>) m"

text \<open>The fields the constructor does not set have their zero value.\<close>

definition newRuntime ::
  "string list \<Rightarrow> string list \<Rightarrow> (string \<rightharpoonup> ('cl, 'op) chain) \<Rightarrow> (conn, ('cl, 'op) runtime) go" where
  "newRuntime env tags systemMap =
     gbind (primaryConn_init \<lparr>msp_tags = tags\<rparr>) (\<lambda>params.
       case systemMap (mpp_sysname params) of
         None \<Rightarrow> gerr (Errorf ''unknown interface'' [AStr (mpp_sysname params)])
       | Some ch \<Rightarrow> gread (\<lambda>c. \<lparr>rt_conn = c, rt_params = params, rt_chainEnv = env, rt_chain = ch,
           rt_clients = [], rt_start = 0, rt_lastSkewWarn = 0, rt_interactions = [],
           rt_lastDelayWarn = 0, rt_log = []\<rparr>))"

section \<open>Preparation\<close>

definition newRuntimeClient :: "int \<Rightarrow> 'cl \<Rightarrow> 'cl runtimeClient" where
  "newRuntimeClient cid inner = \<lparr>rtc_id = cid, rtc_inner = inner\<rparr>"

definition newRuntimeInteraction ::
  "f64 \<Rightarrow> 'cl runtimeClient \<Rightarrow> int \<Rightarrow> 'op \<Rightarrow> ('cl, 'op) runtimeInteraction" where
  "newRuntimeInteraction schedTime client ikind opaque =
     \<lparr>ri_client = client, ri_ikind = ikind, ri_schedTime = schedTime, ri_opaque = opaque,
      ri_submitted = False, ri_committed = False, ri_aborted = False, ri_done = False,
      ri_submitTime = 0, ri_commitTime = 0, ri_abortTime = 0, ri_err = None\<rparr>"

definition prepareClient :: "msgPrepareClient \<Rightarrow> (('cl, 'op) runtime, unit) go" where
  "prepareClient m = (\<lambda>rt.
     case ch_Client (rt_chain rt) (mpp_chainParams (rt_params rt)) (rt_chainEnv rt) (mpc_view m) of
       Err e \<Rightarrow> (Err e, rt)
     | Panic p \<Rightarrow> (Panic p, rt)
     | Ok inner \<Rightarrow>
         (Ok (), rt\<lparr>rt_clients := gomap_set (mpc_index m) (newRuntimeClient (mpc_index m) inner)
                      (rt_clients rt)\<rparr>))"

definition decodeInteraction ::
  "('cl, 'op) chain \<Rightarrow> 'cl runtimeClient \<Rightarrow> msgPrepareInteraction \<Rightarrow> ('cl, 'op) runtimeInteraction outcome" where
  "decodeInteraction ch client m =
     obind (ch_DecodePayload ch (rtc_inner client) (mpi_payload m)) (\<lambda>opaque.
     Ok (newRuntimeInteraction (mpi_time m) client (mpi_ikind m) opaque))"

text \<open>
  \<^verbatim>\<open>prepareInteraction\<close> starts a goroutine that decodes the payload and sends the result on a
  channel. The model returns the result; the order in which the results arrive is an argument
  of \<open>prepare\<close>.
\<close>

definition prepareInteraction ::
  "msgPrepareInteraction \<Rightarrow> (('cl, 'op) runtime, ('cl, 'op) runtimeInteraction outcome) go" where
  "prepareInteraction m = (\<lambda>rt.
     case gomap_get (rt_clients rt) (mpi_index m) of
       None \<Rightarrow> (Err (Errorf ''invalid client index'' [AInt (mpi_index m)]), rt)
     | Some client \<Rightarrow> (Ok (decodeInteraction (rt_chain rt) client m), rt))"

lemma decodeMsgPrepare_consumes:
  assumes "decodeMsgPrepare r = (Ok m, r')"
  shows "length (r_input r') < length (r_input r)"
proof -
  let ?k = "\<lambda>mtype. if mtype = MSG_PREPARE_TYPE_DONE then decodeMsgPrepareDone
       else if mtype = MSG_PREPARE_TYPE_CLIENT then decodeMsgPrepareClient
       else if mtype = MSG_PREPARE_TYPE_INTERACTION then decodeMsgPrepareInteraction
       else gerr (Errorf ''unknown prepare message type'' [AInt (uint mtype)])"
  from assms obtain b s where b: "read_u8 r = (Ok b, s)" and rest: "?k b s = (Ok m, r')"
    unfolding decodeMsgPrepare_def by (rule gbind_OkE)
  have "decoder (?k b)" unfolding decode_defs by (intro decoder_msg)
  from decoder.dec_consumes [OF this rest] have "length (r_input r') \<le> length (r_input s)"
    by (simp add: suffix_length_le)
  moreover have "length (r_input s) < length (r_input r)"
    using b by (auto simp: read_u8_def read_full_def gbind_def gret_def split: if_splits)
  ultimately show ?thesis by simp
qed

lemma decodeMsgPrepare_shrinks:
  "Ok m = fst (decodeMsgPrepare r) \<Longrightarrow> length (r_input (snd (decodeMsgPrepare r))) < length (r_input r)"
  by (metis decodeMsgPrepare_consumes prod.collapse)

text \<open>The loop over the messages of the primary; \<open>pending\<close> are the decode results still to arrive.\<close>

function prepare_loop ::
  "('cl, 'op) runtimeInteraction outcome list \<Rightarrow> ('cl, 'op) runtime
     \<Rightarrow> ('cl, 'op) runtimeInteraction outcome list outcome \<times> ('cl, 'op) runtime" where
  "prepare_loop pending rt =
     (case rt_on_conn primaryConn_waitPrepare rt of
        (Err e, rt1) \<Rightarrow> (Err e, rt1)
      | (Panic p, rt1) \<Rightarrow> (Panic p, rt1)
      | (Ok MsgPrepareDone, rt1) \<Rightarrow> (Ok pending, rt1)
      | (Ok (MsgPrepareClient m), rt1) \<Rightarrow>
          (case prepareClient m rt1 of
             (Err e, rt2) \<Rightarrow> (Err e, rt2)
           | (Panic p, rt2) \<Rightarrow> (Panic p, rt2)
           | (Ok _, rt2) \<Rightarrow> prepare_loop pending rt2)
      | (Ok (MsgPrepareInteraction m), rt1) \<Rightarrow>
          (case prepareInteraction m rt1 of
             (Err e, rt2) \<Rightarrow> (Err e, rt2)
           | (Panic p, rt2) \<Rightarrow> (Panic p, rt2)
           | (Ok d, rt2) \<Rightarrow> prepare_loop (pending @ [d]) rt2))"
  by pat_completeness auto

lemma prepare_parts_conn:
  "rt_conn (snd (prepareClient m rt)) = rt_conn rt" "rt_conn (snd (prepareInteraction mi rt)) = rt_conn rt"
  by (auto simp: prepareClient_def prepareInteraction_def split: outcome.splits option.splits)

termination prepare_loop
  by (relation "measure (\<lambda>(pending, rt). length (r_input (c_rd (rt_conn rt))))")
    (auto simp: rt_on_conn_def gzoom_def primaryConn_waitPrepare_def on_reader_run prod_eq_iff
      prepare_parts_conn split: prod.splits dest: decodeMsgPrepare_shrinks)

declare prepare_loop.simps [simp del]

text \<open>Receiving the decode results; the first error that arrives ends the preparation.\<close>

fun receive_decoded ::
  "('cl, 'op) runtimeInteraction outcome list \<Rightarrow> (('cl, 'op) runtime, unit) go" where
  "receive_decoded [] rt = (Ok (), rt)"
| "receive_decoded (Err e # ds) rt = (Err e, rt)"
| "receive_decoded (Panic p # ds) rt = (Panic p, rt)"
| "receive_decoded (Ok iact # ds) rt =
     receive_decoded ds (rt\<lparr>rt_interactions := rt_interactions rt @ [iact]\<rparr>)"

definition prepare ::
  "(('cl, 'op) runtimeInteraction outcome list \<Rightarrow> ('cl, 'op) runtimeInteraction outcome list)
     \<Rightarrow> (('cl, 'op) runtime, unit) go" where
  "prepare arrival = gbind (prepare_loop []) (\<lambda>pending. receive_decoded (arrival pending))"

section \<open>Reports\<close>

definition rt_warn :: "warning \<Rightarrow> ('cl, 'op) runtime \<Rightarrow> ('cl, 'op) runtime" where
  "rt_warn w rt = rt\<lparr>rt_log := rt_log rt @ [w]\<rparr>"

text \<open>Warnings are given at most once per second; \<open>now\<close> is what \<^verbatim>\<open>time.Now\<close> returns.\<close>

definition warnDelay :: "gtime \<Rightarrow> int \<Rightarrow> f64 \<Rightarrow> ('cl, 'op) runtime \<Rightarrow> ('cl, 'op) runtime" where
  "warnDelay now cid delay rt =
     (if time_Sub now (rt_lastDelayWarn rt) < time_Second then rt
      else rt_warn (WarnDelay cid delay) (rt\<lparr>rt_lastDelayWarn := now\<rparr>))"

definition warnSkew :: "gtime \<Rightarrow> f64 \<Rightarrow> ('cl, 'op) runtime \<Rightarrow> ('cl, 'op) runtime" where
  "warnSkew now delay rt =
     (if time_Sub now (rt_lastSkewWarn rt) < time_Second then rt
      else (rt_warn (WarnSkew delay) rt)\<lparr>rt_lastSkewWarn := now\<rparr>)"

definition set_interaction ::
  "nat \<Rightarrow> ('cl, 'op) runtimeInteraction \<Rightarrow> ('cl, 'op) runtime \<Rightarrow> ('cl, 'op) runtime" where
  "set_interaction i iact rt = rt\<lparr>rt_interactions := (rt_interactions rt)[i := iact]\<rparr>"

text \<open>
  A report acts on interaction \<open>i\<close> of the runtime. The first report of each sort is recorded,
  any further one only gives a warning.
\<close>

definition ReportSubmit :: "nat \<Rightarrow> gtime \<Rightarrow> gtime \<Rightarrow> ('cl, 'op) runtime \<Rightarrow> ('cl, 'op) runtime" where
  "ReportSubmit i submitTime now rt =
     (let iact = rt_interactions rt ! i in
      if ri_submitted iact then rt_warn (WarnTwice ''submitted'' (rtc_id (ri_client iact))) rt
      else
        let rt' = set_interaction i (iact\<lparr>ri_submitTime := submitTime, ri_submitted := True\<rparr>) rt;
            delay = f64_sub (duration_Seconds (time_Sub submitTime (rt_start rt))) (ri_schedTime iact) in
        if f64_le (mpp_maxDelay (rt_params rt)) delay
        then warnDelay now (rtc_id (ri_client iact)) delay rt' else rt')"

definition ReportCommit :: "nat \<Rightarrow> gtime \<Rightarrow> ('cl, 'op) runtime \<Rightarrow> ('cl, 'op) runtime" where
  "ReportCommit i now rt =
     (let iact = rt_interactions rt ! i in
      if ri_committed iact then rt_warn (WarnTwice ''committed'' (rtc_id (ri_client iact))) rt
      else set_interaction i (iact\<lparr>ri_commitTime := now, ri_committed := True\<rparr>) rt)"

definition ReportAbort :: "nat \<Rightarrow> gtime \<Rightarrow> ('cl, 'op) runtime \<Rightarrow> ('cl, 'op) runtime" where
  "ReportAbort i now rt =
     (let iact = rt_interactions rt ! i in
      if ri_aborted iact then rt_warn (WarnTwice ''aborted'' (rtc_id (ri_client iact))) rt
      else set_interaction i (iact\<lparr>ri_abortTime := now, ri_aborted := True\<rparr>) rt)"

text \<open>The end of \<^verbatim>\<open>trigger\<close>, when the blockchain client has returned \<open>err\<close>.\<close>

definition trigger_end :: "nat \<Rightarrow> go_error option \<Rightarrow> ('cl, 'op) runtime \<Rightarrow> ('cl, 'op) runtime" where
  "trigger_end i err rt =
     (let rt' = set_interaction i ((rt_interactions rt ! i)\<lparr>ri_err := err, ri_done := True\<rparr>) rt in
      case err of None \<Rightarrow> rt' | Some e \<Rightarrow> rt_warn (ErrorInteraction e) rt')"

section \<open>Running\<close>

text \<open>\<^verbatim>\<open>run\<close> up to the start of the benchmark: sort, synchronise, wait for the start message.\<close>

definition sort_interactions ::
  "('cl, 'op) runtimeInteraction list \<Rightarrow> ('cl, 'op) runtimeInteraction list" where
  "sort_interactions iacts = sort_key (\<lambda>iact. f64_key (ri_schedTime iact)) iacts"

definition run_begin :: "gtime \<Rightarrow> (('cl, 'op) runtime, msgStart) go" where
  "run_begin start =
     gbind (gmodify (\<lambda>rt. rt\<lparr>rt_interactions := sort_interactions (rt_interactions rt)\<rparr>)) (\<lambda>_.
     gbind (rt_on_conn primaryConn_syncReady) (\<lambda>_.
     gbind (rt_on_conn primaryConn_waitStart) (\<lambda>msg.
     gbind (gmodify (\<lambda>rt. rt\<lparr>rt_start := start, rt_lastSkewWarn := start, rt_lastDelayWarn := start\<rparr>)) (\<lambda>_.
     gret msg))))"

text \<open>What \<^verbatim>\<open>stop\<close> reports for one interaction.\<close>

definition stop_msg :: "gtime \<Rightarrow> ('cl, 'op) runtimeInteraction \<Rightarrow> msgResultInteraction" where
  "stop_msg start iact =
     \<lparr>mri_index = rtc_id (ri_client iact), mri_ikind = ri_ikind iact,
      mri_submitTime =
        (if ri_submitted iact then duration_Seconds (time_Sub (ri_submitTime iact) start) else f64_minus_one),
      mri_commitTime =
        (if ri_committed iact then duration_Seconds (time_Sub (ri_commitTime iact) start) else f64_minus_one),
      mri_abortTime =
        (if ri_aborted iact then duration_Seconds (time_Sub (ri_abortTime iact) start) else f64_minus_one),
      mri_hasError = (if ri_done iact then ri_err iact \<noteq> None else False)\<rparr>"

definition stop_push :: "nat \<Rightarrow> (('cl, 'op) runtime, unit) go" where
  "stop_push i = (\<lambda>rt. rt_on_conn
     (primaryConn_pushResult (MsgResultInteraction (stop_msg (rt_start rt) (rt_interactions rt ! i)))) rt)"

definition stop :: "(('cl, 'op) runtime, unit) go" where
  "stop =
     gbind (gread (\<lambda>rt. length (rt_interactions rt))) (\<lambda>n.
     gbind (gfor [0..<n] stop_push) (\<lambda>_.
     rt_on_conn (primaryConn_pushResult MsgResultDone)))"

definition runtime_Close :: "(('cl, 'op) runtime, unit) go" where
  "runtime_Close = rt_on_conn primaryConn_Close"

text \<open>
  From the start on, the main goroutine and the goroutines of the interactions run side by side;
  a critical section is one step. The state adds to the runtime the progress of the main
  goroutine: how many interactions it has released, the last reading \<open>m_now\<close> of the clock (made at
  \<open>m_read\<close>) and, once it is in \<^verbatim>\<open>stop\<close>, how many results it has pushed.
  \<^verbatim>\<open>ReportCommit\<close> and \<^verbatim>\<open>ReportAbort\<close> read the clock under the lock of the interaction;
  \<^verbatim>\<open>ReportSubmit\<close> reads it before, so its time \<open>t\<close> is anything between the start of the benchmark and
  the moment \<open>c\<close> at which it holds the lock, other reports having been recorded in between.
\<close>

datatype phase = Releasing | Pushing nat | Finished | Failed go_error

record ('cl, 'op) machine =
  m_rt :: "('cl, 'op) runtime"
  m_released :: nat
  m_read :: gtime
  m_now :: f64
  m_clock :: gtime
  m_phase :: phase

definition machine_start :: "('cl, 'op) runtime \<Rightarrow> gtime \<Rightarrow> ('cl, 'op) machine" where
  "machine_start rt t =
     \<lparr>m_rt = rt, m_released = 0, m_read = t, m_now = duration_Seconds (time_Sub t (rt_start rt)),
      m_clock = t, m_phase = Releasing\<rparr>"

text \<open>The decision of the release loop: sleep, warn, or go on at once.\<close>

definition sleep_until :: "('cl, 'op) machine \<Rightarrow> ('cl, 'op) runtimeInteraction \<Rightarrow> gtime" where
  "sleep_until m iact =
     (let delta = f64_sub (ri_schedTime iact) (m_now m) in
      if f64_lt f64_zero delta then m_read m + max 0 (seconds_Duration delta) else m_read m)"

definition skew_warning ::
  "gtime \<Rightarrow> ('cl, 'op) machine \<Rightarrow> ('cl, 'op) runtimeInteraction \<Rightarrow> ('cl, 'op) runtime" where
  "skew_warning w m iact =
     (let delta = f64_sub (ri_schedTime iact) (m_now m) in
      if \<not> f64_lt f64_zero delta \<and> f64_le (mpp_maxSkew (rt_params (m_rt m))) (f64_minus delta)
      then warnSkew w (f64_minus delta) (m_rt m) else m_rt m)"

definition stop_timeout :: int where
  "stop_timeout = 100 * time_Second"

datatype rt_event =
    EvRelease gtime gtime
  | EvSubmit nat gtime gtime
  | EvCommit nat gtime
  | EvAbort nat gtime
  | EvReturn nat "go_error option" gtime
  | EvStop gtime
  | EvPush gtime
  | EvEnd gtime

inductive rt_step ::
  "('cl, 'op) machine \<Rightarrow> rt_event \<Rightarrow> ('cl, 'op) machine \<Rightarrow> bool" where
  release:
    "m_phase m = Releasing \<Longrightarrow> i = m_released m \<Longrightarrow> i < length (rt_interactions (m_rt m)) \<Longrightarrow>
     iact = rt_interactions (m_rt m) ! i \<Longrightarrow>
     m_clock m \<le> t \<Longrightarrow> sleep_until m iact \<le> t \<Longrightarrow> m_read m \<le> w \<Longrightarrow> w \<le> t \<Longrightarrow>
     rt_step m (EvRelease w t)
       (m\<lparr>m_rt := skew_warning w m iact, m_released := Suc i, m_read := t,
          m_now := duration_Seconds (time_Sub t (rt_start (m_rt m))), m_clock := t\<rparr>)"
| submit:
    "i < m_released m \<Longrightarrow> rt_start (m_rt m) \<le> t \<Longrightarrow> t \<le> c \<Longrightarrow> m_clock m \<le> c \<Longrightarrow> c \<le> w \<Longrightarrow>
     rt_step m (EvSubmit i t w) (m\<lparr>m_rt := ReportSubmit i t w (m_rt m), m_clock := c\<rparr>)"
| commit:
    "i < m_released m \<Longrightarrow> m_clock m \<le> t \<Longrightarrow>
     rt_step m (EvCommit i t) (m\<lparr>m_rt := ReportCommit i t (m_rt m), m_clock := t\<rparr>)"
| abort:
    "i < m_released m \<Longrightarrow> m_clock m \<le> t \<Longrightarrow>
     rt_step m (EvAbort i t) (m\<lparr>m_rt := ReportAbort i t (m_rt m), m_clock := t\<rparr>)"
| return:
    "i < m_released m \<Longrightarrow> \<not> ri_done (rt_interactions (m_rt m) ! i) \<Longrightarrow> m_clock m \<le> t \<Longrightarrow>
     rt_step m (EvReturn i err t) (m\<lparr>m_rt := trigger_end i err (m_rt m), m_clock := t\<rparr>)"
| stop:
    "m_phase m = Releasing \<Longrightarrow> m_released m = length (rt_interactions (m_rt m)) \<Longrightarrow>
     m_clock m \<le> t \<Longrightarrow> m_read m + stop_timeout \<le> t \<Longrightarrow>
     rt_step m (EvStop t) (m\<lparr>m_phase := Pushing 0, m_clock := t\<rparr>)"
| push:
    "m_phase m = Pushing k \<Longrightarrow> k < length (rt_interactions (m_rt m)) \<Longrightarrow> m_clock m \<le> t \<Longrightarrow>
     stop_push k (m_rt m) = (Ok (), rt') \<Longrightarrow>
     rt_step m (EvPush t) (m\<lparr>m_rt := rt', m_phase := Pushing (Suc k), m_clock := t\<rparr>)"
| push_error:
    "m_phase m = Pushing k \<Longrightarrow> k < length (rt_interactions (m_rt m)) \<Longrightarrow> m_clock m \<le> t \<Longrightarrow>
     stop_push k (m_rt m) = (Err e, rt') \<Longrightarrow>
     rt_step m (EvPush t) (m\<lparr>m_rt := rt', m_phase := Failed e, m_clock := t\<rparr>)"
| finish:
    "m_phase m = Pushing k \<Longrightarrow> k = length (rt_interactions (m_rt m)) \<Longrightarrow> m_clock m \<le> t \<Longrightarrow>
     rt_on_conn (primaryConn_pushResult MsgResultDone) (m_rt m) = (r, rt') \<Longrightarrow>
     rt_step m (EvEnd t) (m\<lparr>m_rt := rt', m_clock := t,
       m_phase := (case r of Ok _ \<Rightarrow> Finished | Err e \<Rightarrow> Failed e | Panic p \<Rightarrow> Failed ErrClosed)\<rparr>)"

inductive rt_run :: "('cl, 'op) machine \<Rightarrow> ('cl, 'op) machine \<Rightarrow> bool" for m0 where
  refl: "rt_run m0 m0"
| step: "rt_run m0 m \<Longrightarrow> rt_step m ev m' \<Longrightarrow> rt_run m0 m'"

section \<open>The preparation, message by message\<close>

text \<open>
  What the preparation does with a list of messages, without the connection: the specification
  that \<open>prepare_loop\<close> refines when these messages arrive on the wire.
\<close>

fun handle_msgs ::
  "msgPrepare list \<Rightarrow> ('cl, 'op) runtimeInteraction outcome list \<Rightarrow> ('cl, 'op) runtime
     \<Rightarrow> ('cl, 'op) runtimeInteraction outcome list outcome \<times> ('cl, 'op) runtime" where
  "handle_msgs [] pending rt = (Ok pending, rt)"
| "handle_msgs (MsgPrepareDone # ms) pending rt = (Ok pending, rt)"
| "handle_msgs (MsgPrepareClient m # ms) pending rt =
     gbind (prepareClient m) (\<lambda>_. handle_msgs ms pending) rt"
| "handle_msgs (MsgPrepareInteraction m # ms) pending rt =
     gbind (prepareInteraction m) (\<lambda>d. handle_msgs ms (pending @ [d])) rt"

definition set_input :: "byte list \<Rightarrow> ('cl, 'op) runtime \<Rightarrow> ('cl, 'op) runtime" where
  "set_input bs rt = rt\<lparr>rt_conn := (rt_conn rt)\<lparr>c_rd := (c_rd (rt_conn rt))\<lparr>r_input := bs\<rparr>\<rparr>\<rparr>"

definition rt_input :: "('cl, 'op) runtime \<Rightarrow> byte list" where
  "rt_input rt = r_input (c_rd (rt_conn rt))"

lemma set_input_simps [simp]:
  "set_input a (set_input b rt) = set_input a rt" "rt_input (set_input b rt) = b"
  "set_input (rt_input rt) rt = rt" "rt_clients (set_input b rt) = rt_clients rt"
  "rt_chain (set_input b rt) = rt_chain rt"
  by (simp_all add: set_input_def rt_input_def)

lemma waitPrepare_wire:
  assumes "prepare_valid m" and "rt_input rt = wire_prepare m @ rest"
  shows "rt_on_conn primaryConn_waitPrepare rt = (Ok (view_prepare m), set_input rest rt)"
  using on_reader_codec [OF prepare_codec.codec_axioms assms(1), of "rt_conn rt" rest] assms(2)
  by (simp add: rt_on_conn_def gzoom_def primaryConn_waitPrepare_def set_input_def rt_input_def)

lemma prepareClient_set_input:
  "prepareClient m (set_input bs rt) = map_prod id (set_input bs) (prepareClient m rt)"
  by (simp add: prepareClient_def set_input_def split: outcome.splits)

lemma prepareInteraction_set_input:
  "prepareInteraction m (set_input bs rt) = map_prod id (set_input bs) (prepareInteraction m rt)"
  by (simp add: prepareInteraction_def split: option.splits)

lemma handle_msgs_set_input:
  "handle_msgs ms pending (set_input bs rt) = map_prod id (set_input bs) (handle_msgs ms pending rt)"
  by (induction ms pending rt rule: handle_msgs.induct)
    (auto simp: gbind_def prepareClient_set_input prepareInteraction_set_input
      split: prod.splits outcome.splits)

lemma prepare_loop_wire:
  assumes "list_all (\<lambda>m. prepare_valid m \<and> m \<noteq> MsgPrepareDone) msgs"
    and "rt_input rt = concat (map wire_prepare msgs) @ wire_prepare MsgPrepareDone @ rest"
    and "handle_msgs (map view_prepare msgs) pending rt = (Ok pending', rt')"
  shows "prepare_loop pending rt = (Ok pending', set_input rest rt')"
  using assms
proof (induction msgs arbitrary: pending rt rt')
  case Nil
  then show ?case
    using waitPrepare_wire [of MsgPrepareDone rt rest] by (auto simp: prepare_loop.simps [of pending' rt'])
next
  case (Cons m msgs)
  let ?rest = "concat (map wire_prepare msgs) @ wire_prepare MsgPrepareDone @ rest"
  have wait: "rt_on_conn primaryConn_waitPrepare rt = (Ok (view_prepare m), set_input ?rest rt)"
    using Cons.prems(1,2) by (intro waitPrepare_wire) simp_all
  show ?case
  proof (cases m)
    case (MsgPrepareClient c)
    with Cons.prems(3) obtain rt1 where rt1: "prepareClient c rt = (Ok (), rt1)"
      "handle_msgs (map view_prepare msgs) pending rt1 = (Ok pending', rt')"
      by (auto elim: gbind_OkE)
    have "prepareClient c (set_input ?rest rt) = (Ok (), set_input ?rest rt1)"
      using rt1(1) by (simp add: prepareClient_set_input)
    moreover have "prepare_loop pending (set_input ?rest rt1) = (Ok pending', set_input rest rt')"
      using Cons.IH [of "set_input ?rest rt1" pending "set_input ?rest rt'"] Cons.prems(1) rt1(2)
      by (simp add: handle_msgs_set_input)
    ultimately show ?thesis
      using wait MsgPrepareClient by (simp add: prepare_loop.simps [of pending rt])
  next
    case (MsgPrepareInteraction i)
    let ?i = "i\<lparr>mpi_index := mpi_index i mod 256\<rparr>"
    from MsgPrepareInteraction Cons.prems(3) obtain d rt1 where
      rt1: "prepareInteraction ?i rt = (Ok d, rt1)"
        "handle_msgs (map view_prepare msgs) (pending @ [d]) rt1 = (Ok pending', rt')"
      by (auto elim: gbind_OkE)
    have "prepareInteraction ?i (set_input ?rest rt) = (Ok d, set_input ?rest rt1)"
      using rt1(1) by (simp add: prepareInteraction_set_input)
    moreover have "prepare_loop (pending @ [d]) (set_input ?rest rt1) = (Ok pending', set_input rest rt')"
      using Cons.IH [of "set_input ?rest rt1" "pending @ [d]" "set_input ?rest rt'"] Cons.prems(1) rt1(2)
      by (simp add: handle_msgs_set_input)
    ultimately show ?thesis
      using wait MsgPrepareInteraction by (simp add: prepare_loop.simps [of pending rt])
  qed (use Cons.prems in simp)
qed

text \<open>Conversely a loop that returns has handled every message.\<close>

lemma prepare_loop_handles:
  assumes "list_all (\<lambda>m. prepare_valid m \<and> m \<noteq> MsgPrepareDone) msgs"
    and "rt_input rt = concat (map wire_prepare msgs) @ wire_prepare MsgPrepareDone @ rest"
    and "prepare_loop pending rt = (Ok pending', rt')"
  shows "\<exists>rt1. handle_msgs (map view_prepare msgs) pending rt = (Ok pending', rt1)"
  using assms
proof (induction msgs arbitrary: pending rt)
  case Nil
  then show ?case using waitPrepare_wire [of MsgPrepareDone rt rest] by (simp add: prepare_loop.simps [of pending rt])
next
  case (Cons m msgs)
  let ?rest = "concat (map wire_prepare msgs) @ wire_prepare MsgPrepareDone @ rest"
  have wait: "rt_on_conn primaryConn_waitPrepare rt = (Ok (view_prepare m), set_input ?rest rt)"
    using Cons.prems(1,2) by (intro waitPrepare_wire) simp_all
  have next_msgs: "\<exists>rt1'. handle_msgs (map view_prepare msgs) p rt1 = (Ok pending', rt1')"
    if "prepare_loop p (set_input ?rest rt1) = (Ok pending', rt')" for p and rt1 :: "('a, 'b) runtime"
  proof -
    from Cons.IH [OF _ _ that] Cons.prems(1) obtain rt2 where
      "handle_msgs (map view_prepare msgs) p (set_input ?rest rt1) = (Ok pending', rt2)" by auto
    then show ?thesis by (auto simp: handle_msgs_set_input map_prod_def split: prod.splits)
  qed
  show ?case
  proof (cases m)
    case (MsgPrepareClient c)
    obtain r rt1 where r: "prepareClient c rt = (r, rt1)" by force
    then show ?thesis
      using Cons.prems(3) wait MsgPrepareClient next_msgs [of pending rt1]
      by (cases r) (simp_all add: prepare_loop.simps [of pending rt] prepareClient_set_input gbind_def)
  next
    case (MsgPrepareInteraction i)
    obtain r rt1 where r: "prepareInteraction (i\<lparr>mpi_index := mpi_index i mod 256\<rparr>) rt = (r, rt1)" by force
    then show ?thesis
      using Cons.prems(3) wait MsgPrepareInteraction next_msgs [of _ rt1]
      by (cases r) (simp_all add: prepare_loop.simps [of pending rt] prepareInteraction_set_input gbind_def)
  qed (use Cons.prems in simp)
qed

lemma receive_decoded_Ok:
  "receive_decoded ds rt = (Ok (), rt') \<Longrightarrow> \<exists>iacts. ds = map Ok iacts"
proof (induction ds rt rule: receive_decoded.induct)
  case (4 iact ds rt)
  then obtain iacts where "ds = map Ok iacts" by auto
  then show ?case by (intro exI [of _ "iact # iacts"]) simp
qed simp_all

lemma receive_decoded_ok:
  "receive_decoded (map Ok iacts) rt = (Ok (), rt\<lparr>rt_interactions := rt_interactions rt @ iacts\<rparr>)"
  by (induction iacts arbitrary: rt) auto

lemma receive_decoded_error:
  "list_all (\<lambda>d. \<forall>p. d \<noteq> Panic p) ds \<Longrightarrow> Err e \<in> set ds \<Longrightarrow> \<exists>e' rt'. receive_decoded ds rt = (Err e', rt')"
  by (induction ds rt rule: receive_decoded.induct) auto

lemma mset_map_Ok:
  assumes "mset ds = mset (map Ok xs)"
  obtains ys where "ds = map Ok ys" and "mset ys = mset xs"
proof -
  let ?g = "\<lambda>d. case d of Ok x \<Rightarrow> x | _ \<Rightarrow> undefined"
  have "set ds = Ok ` set xs" using assms by (metis list.set_map set_mset_mset)
  then have ds: "ds = map Ok (map ?g ds)" by (auto intro!: map_idI [symmetric])
  have "mset (map ?g ds) = image_mset ?g (mset (map Ok xs))" using assms by simp
  then have "mset (map ?g ds) = mset xs" by (simp add: multiset.map_comp comp_def)
  with ds show thesis by (intro that)
qed

text \<open>
  The whole preparation: if every payload decodes, then whatever the order in which the decoding
  goroutines deliver, exactly the announced interactions are there.
\<close>

lemma prepare_wire:
  assumes "list_all (\<lambda>m. prepare_valid m \<and> m \<noteq> MsgPrepareDone) msgs"
    and "rt_input rt = concat (map wire_prepare msgs) @ wire_prepare MsgPrepareDone @ rest"
    and "handle_msgs (map view_prepare msgs) [] rt = (Ok (map Ok iacts), rt')"
    and "\<And>ds. mset (arrival ds) = mset ds"
  obtains iacts' where "mset iacts' = mset iacts"
    and "prepare arrival rt =
      (Ok (), (set_input rest rt')\<lparr>rt_interactions := rt_interactions rt' @ iacts'\<rparr>)"
proof -
  have "prepare_loop [] rt = (Ok (map Ok iacts), set_input rest rt')"
    using prepare_loop_wire [OF assms(1-3)] .
  moreover obtain iacts' where "arrival (map Ok iacts) = map Ok iacts'" "mset iacts' = mset iacts"
    using mset_map_Ok [OF assms(4)] .
  ultimately show thesis
    by (intro that [of iacts'])
      (simp_all add: prepare_def gbind_def receive_decoded_ok set_input_def)
qed

lemma prepare_handles:
  assumes "list_all (\<lambda>m. prepare_valid m \<and> m \<noteq> MsgPrepareDone) msgs"
    and "rt_input rt = concat (map wire_prepare msgs) @ wire_prepare MsgPrepareDone @ rest"
    and "\<And>ds. mset (arrival ds) = mset ds" and "prepare arrival rt = (Ok (), rt')"
  obtains iacts rt1 where "handle_msgs (map view_prepare msgs) [] rt = (Ok (map Ok iacts), rt1)"
proof -
  obtain pending rt2 where run: "prepare_loop [] rt = (Ok pending, rt2)" "receive_decoded (arrival pending) rt2 = (Ok (), rt')"
    using assms(4) by (auto simp: prepare_def elim!: gbind_OkE)
  obtain iacts where "arrival pending = map Ok iacts" using receive_decoded_Ok [OF run(2)] ..
  with assms(3) [of pending] obtain iacts' where "pending = map Ok iacts'" using mset_map_Ok by metis
  then show thesis using prepare_loop_handles [OF assms(1,2) run(1)] that by blast
qed

lemma prepare_wire_error:
  assumes "list_all (\<lambda>m. prepare_valid m \<and> m \<noteq> MsgPrepareDone) msgs"
    and "rt_input rt = concat (map wire_prepare msgs) @ wire_prepare MsgPrepareDone @ rest"
    and "handle_msgs (map view_prepare msgs) [] rt = (Ok pending, rt')"
    and "\<And>ds. mset (arrival ds) = mset ds"
    and "list_all (\<lambda>d. \<forall>p. d \<noteq> Panic p) pending" and "Err e \<in> set pending"
  shows "\<exists>e' rt''. prepare arrival rt = (Err e', rt'')"
proof -
  have "set (arrival pending) = set pending" using assms(4) by (metis set_mset_mset)
  then have "\<exists>e' rt''. receive_decoded (arrival pending) (set_input rest rt') = (Err e', rt'')"
    using assms(5,6) by (intro receive_decoded_error) (auto simp: list_all_iff)
  then show ?thesis
    using prepare_loop_wire [OF assms(1-3)] by (simp add: prepare_def gbind_def)
qed

section \<open>Invariants of a run\<close>

text \<open>\<open>later a b\<close>: \<open>b\<close> is the same interaction as \<open>a\<close>, with everything that was recorded in \<open>a\<close>.\<close>

definition later ::
  "('cl, 'op) runtimeInteraction \<Rightarrow> ('cl, 'op) runtimeInteraction \<Rightarrow> bool" where
  "later a b \<longleftrightarrow> ri_client b = ri_client a \<and> ri_ikind b = ri_ikind a \<and>
     ri_schedTime b = ri_schedTime a \<and> ri_opaque b = ri_opaque a \<and>
     (ri_submitted a \<longrightarrow> ri_submitted b \<and> ri_submitTime b = ri_submitTime a) \<and>
     (ri_committed a \<longrightarrow> ri_committed b \<and> ri_commitTime b = ri_commitTime a) \<and>
     (ri_aborted a \<longrightarrow> ri_aborted b \<and> ri_abortTime b = ri_abortTime a) \<and>
     (ri_done a \<longrightarrow> ri_done b \<and> ri_err b = ri_err a)"

lemma later_refl [simp]: "later a a"
  by (simp add: later_def)

lemma later_trans: "later a b \<Longrightarrow> later b c \<Longrightarrow> later a c"
  by (auto simp: later_def)

text \<open>What no step changes.\<close>

definition rt_frame :: "('cl, 'op) runtime \<Rightarrow> ('cl, 'op) runtime \<Rightarrow> bool" where
  "rt_frame rt rt' \<longleftrightarrow> rt_start rt' = rt_start rt \<and> rt_params rt' = rt_params rt \<and>
     length (rt_interactions rt') = length (rt_interactions rt) \<and>
     (\<forall>i < length (rt_interactions rt). later (rt_interactions rt ! i) (rt_interactions rt' ! i))"

lemma rt_frame_refl [simp]: "rt_frame rt rt"
  by (simp add: rt_frame_def)

lemma rt_frame_trans: "rt_frame a b \<Longrightarrow> rt_frame b c \<Longrightarrow> rt_frame a c"
  by (auto simp: rt_frame_def intro: later_trans)

lemmas report_defs = ReportSubmit_def ReportCommit_def ReportAbort_def trigger_end_def

lemmas warn_defs = warnDelay_def warnSkew_def rt_warn_def

text \<open>Reports and warnings change the interactions, the log and the warning times only.\<close>

lemma warn_fields [simp]:
  "rt_interactions (warnDelay w c d rt) = rt_interactions rt" "rt_start (warnDelay w c d rt) = rt_start rt"
  "rt_params (warnDelay w c d rt) = rt_params rt" "rt_conn (warnDelay w c d rt) = rt_conn rt"
  "rt_interactions (warnSkew w d rt) = rt_interactions rt" "rt_start (warnSkew w d rt) = rt_start rt"
  "rt_params (warnSkew w d rt) = rt_params rt" "rt_conn (warnSkew w d rt) = rt_conn rt"
  "rt_interactions (rt_warn x rt) = rt_interactions rt" "rt_start (rt_warn x rt) = rt_start rt"
  "rt_params (rt_warn x rt) = rt_params rt" "rt_conn (rt_warn x rt) = rt_conn rt"
  by (simp_all add: warn_defs)

lemma set_interaction_fields [simp]:
  "rt_interactions (set_interaction i ia rt) = (rt_interactions rt)[i := ia]"
  "rt_start (set_interaction i ia rt) = rt_start rt" "rt_params (set_interaction i ia rt) = rt_params rt"
  "rt_conn (set_interaction i ia rt) = rt_conn rt"
  by (simp_all add: set_interaction_def)

lemma skew_warning_fields [simp]:
  "rt_interactions (skew_warning w m ia) = rt_interactions (m_rt m)"
  "rt_start (skew_warning w m ia) = rt_start (m_rt m)"
  "rt_params (skew_warning w m ia) = rt_params (m_rt m)" "rt_conn (skew_warning w m ia) = rt_conn (m_rt m)"
  by (simp_all add: skew_warning_def Let_def)

lemma report_fields [simp]:
  "rt_start (ReportSubmit i t w rt) = rt_start rt" "rt_params (ReportSubmit i t w rt) = rt_params rt"
  "rt_conn (ReportSubmit i t w rt) = rt_conn rt"
  "rt_start (ReportCommit i t rt) = rt_start rt" "rt_params (ReportCommit i t rt) = rt_params rt"
  "rt_conn (ReportCommit i t rt) = rt_conn rt"
  "rt_start (ReportAbort i t rt) = rt_start rt" "rt_params (ReportAbort i t rt) = rt_params rt"
  "rt_conn (ReportAbort i t rt) = rt_conn rt"
  "rt_start (trigger_end i e rt) = rt_start rt" "rt_params (trigger_end i e rt) = rt_params rt"
  "rt_conn (trigger_end i e rt) = rt_conn rt"
  by (simp_all add: report_defs Let_def split: option.splits)

definition submit_iact :: "gtime \<Rightarrow> ('cl, 'op) runtimeInteraction \<Rightarrow> ('cl, 'op) runtimeInteraction" where
  "submit_iact t ia = (if ri_submitted ia then ia else ia\<lparr>ri_submitTime := t, ri_submitted := True\<rparr>)"

definition commit_iact :: "gtime \<Rightarrow> ('cl, 'op) runtimeInteraction \<Rightarrow> ('cl, 'op) runtimeInteraction" where
  "commit_iact t ia = (if ri_committed ia then ia else ia\<lparr>ri_commitTime := t, ri_committed := True\<rparr>)"

definition abort_iact :: "gtime \<Rightarrow> ('cl, 'op) runtimeInteraction \<Rightarrow> ('cl, 'op) runtimeInteraction" where
  "abort_iact t ia = (if ri_aborted ia then ia else ia\<lparr>ri_abortTime := t, ri_aborted := True\<rparr>)"

lemma report_interactions:
  assumes "i < length (rt_interactions rt)"
  shows "rt_interactions (ReportSubmit i t w rt) = (rt_interactions rt)[i := submit_iact t (rt_interactions rt ! i)]"
    and "rt_interactions (ReportCommit i t rt) = (rt_interactions rt)[i := commit_iact t (rt_interactions rt ! i)]"
    and "rt_interactions (ReportAbort i t rt) = (rt_interactions rt)[i := abort_iact t (rt_interactions rt ! i)]"
    and "rt_interactions (trigger_end i e rt) =
      (rt_interactions rt)[i := (rt_interactions rt ! i)\<lparr>ri_err := e, ri_done := True\<rparr>]"
  using assms
  by (simp_all add: report_defs submit_iact_def commit_iact_def abort_iact_def Let_def split: option.splits)

lemma later_reports:
  "later ia (submit_iact t ia)" "later ia (commit_iact t ia)" "later ia (abort_iact t ia)"
  "\<not> ri_done ia \<Longrightarrow> later ia (ia\<lparr>ri_err := e, ri_done := True\<rparr>)"
  by (simp_all add: later_def submit_iact_def commit_iact_def abort_iact_def)

lemma later_update: "i < length xs \<Longrightarrow> later (xs ! i) y \<Longrightarrow> j < length xs \<Longrightarrow> later (xs ! j) (xs[i := y] ! j)"
  by (cases "j = i") auto

lemma rt_on_conn_frame:
  "rt_on_conn m rt = (r, rt') \<Longrightarrow> rt_interactions rt' = rt_interactions rt \<and> rt_start rt' = rt_start rt \<and>
     rt_params rt' = rt_params rt"
  by (auto simp: rt_on_conn_def gzoom_def split: prod.splits)

lemma stop_push_frame:
  "stop_push k rt = (r, rt') \<Longrightarrow> rt_interactions rt' = rt_interactions rt \<and> rt_start rt' = rt_start rt \<and>
     rt_params rt' = rt_params rt"
  unfolding stop_push_def by (rule rt_on_conn_frame)

text \<open>
  The invariant: only released interactions have been reported on, every recorded time lies
  between the start and now, and pushing begins when everything has been released.
\<close>

definition iact_inv :: "gtime \<Rightarrow> gtime \<Rightarrow> bool \<Rightarrow> ('cl, 'op) runtimeInteraction \<Rightarrow> bool" where
  "iact_inv start clock released ia \<longleftrightarrow>
     (ri_submitted ia \<longrightarrow> released \<and> start \<le> ri_submitTime ia \<and> ri_submitTime ia \<le> clock) \<and>
     (ri_committed ia \<longrightarrow> released \<and> start \<le> ri_commitTime ia \<and> ri_commitTime ia \<le> clock) \<and>
     (ri_aborted ia \<longrightarrow> released \<and> start \<le> ri_abortTime ia \<and> ri_abortTime ia \<le> clock) \<and>
     (ri_done ia \<longrightarrow> released)"

definition phase_inv :: "('cl, 'op) machine \<Rightarrow> bool" where
  "phase_inv m \<longleftrightarrow>
     (case m_phase m of
        Releasing \<Rightarrow> True
      | Pushing k \<Rightarrow> m_released m = length (rt_interactions (m_rt m)) \<and> k \<le> length (rt_interactions (m_rt m))
      | _ \<Rightarrow> m_released m = length (rt_interactions (m_rt m)))"

definition machine_inv :: "('cl, 'op) machine \<Rightarrow> bool" where
  "machine_inv m \<longleftrightarrow> m_released m \<le> length (rt_interactions (m_rt m)) \<and>
     rt_start (m_rt m) \<le> m_clock m \<and> m_read m \<le> m_clock m \<and> phase_inv m \<and>
     (\<forall>i < length (rt_interactions (m_rt m)).
        iact_inv (rt_start (m_rt m)) (m_clock m) (i < m_released m) (rt_interactions (m_rt m) ! i))"

definition untouched :: "('cl, 'op) runtimeInteraction \<Rightarrow> bool" where
  "untouched ia \<longleftrightarrow> \<not> ri_submitted ia \<and> \<not> ri_committed ia \<and> \<not> ri_aborted ia \<and> \<not> ri_done ia"

lemma machine_start_inv:
  "list_all untouched (rt_interactions rt) \<Longrightarrow> rt_start rt \<le> t \<Longrightarrow> machine_inv (machine_start rt t)"
  by (auto simp: machine_inv_def machine_start_def phase_inv_def iact_inv_def untouched_def list_all_length)

lemma iact_inv_mono:
  "iact_inv s c r ia \<Longrightarrow> c \<le> c' \<Longrightarrow> (r \<Longrightarrow> r') \<Longrightarrow> iact_inv s c' r' ia"
  by (auto simp: iact_inv_def)

lemma iact_inv_submit:
  "iact_inv s c r ia \<Longrightarrow> r \<Longrightarrow> s \<le> t \<Longrightarrow> t \<le> c' \<Longrightarrow> c \<le> c' \<Longrightarrow> iact_inv s c' r (submit_iact t ia)"
  by (auto simp: iact_inv_def submit_iact_def)

lemma iact_inv_reports:
  assumes "iact_inv s c r ia" and "r" and "c \<le> t" and "s \<le> c"
  shows "iact_inv s t r (commit_iact t ia)"
    and "iact_inv s t r (abort_iact t ia)" and "iact_inv s t r (ia\<lparr>ri_err := e, ri_done := True\<rparr>)"
  using assms by (auto simp: iact_inv_def commit_iact_def abort_iact_def)

text \<open>One interaction of a list is reported on.\<close>

lemma iact_inv_update:
  assumes "\<And>j. j < length xs \<Longrightarrow> iact_inv s c (j < n) (xs ! j)" and "i < length xs" and "c \<le> t"
    and "iact_inv s t (i < n) y" and "j < length xs"
  shows "iact_inv s t (j < n) (xs[i := y] ! j)"
  using assms iact_inv_mono [OF assms(1) [OF assms(5)] assms(3)] by (cases "j = i") auto

lemma report_preserves:
  assumes "machine_inv m" and "i < m_released m" and "m_clock m \<le> t"
    and "rt_interactions rt' = (rt_interactions (m_rt m))[i := y]"
    and "rt_start rt' = rt_start (m_rt m)" and "rt_params rt' = rt_params (m_rt m)"
    and "later (rt_interactions (m_rt m) ! i) y" and "iact_inv (rt_start (m_rt m)) t True y"
  shows "machine_inv (m\<lparr>m_rt := rt', m_clock := t\<rparr>) \<and> rt_frame (m_rt m) rt'"
proof -
  have i: "i < length (rt_interactions (m_rt m))" using assms(1,2) by (simp add: machine_inv_def)
  have "iact_inv (rt_start (m_rt m)) t (j < m_released m) ((rt_interactions (m_rt m))[i := y] ! j)"
    if "j < length (rt_interactions (m_rt m))" for j
    using assms(1-3,8) i that by (intro iact_inv_update [where c = "m_clock m"]) (auto simp: machine_inv_def)
  then have "machine_inv (m\<lparr>m_rt := rt', m_clock := t\<rparr>)"
    using assms(1,3-5) by (auto simp: machine_inv_def phase_inv_def split: phase.splits)
  moreover have "rt_frame (m_rt m) rt'"
    using assms(4-7) i by (auto simp: rt_frame_def intro!: later_update)
  ultimately show ?thesis ..
qed

text \<open>A step of the main goroutine leaves the interactions alone.\<close>

lemma main_preserves:
  assumes "machine_inv m" and "rt_interactions (m_rt m') = rt_interactions (m_rt m)"
    and "rt_start (m_rt m') = rt_start (m_rt m)" and "rt_params (m_rt m') = rt_params (m_rt m)"
    and "m_clock m \<le> m_clock m'" and "m_read m' \<le> m_clock m'" and "m_released m \<le> m_released m'"
    and "m_released m' \<le> length (rt_interactions (m_rt m))" and "phase_inv m'"
  shows "machine_inv m' \<and> rt_frame (m_rt m) (m_rt m')"
proof -
  have "iact_inv (rt_start (m_rt m)) (m_clock m') (i < m_released m') (rt_interactions (m_rt m) ! i)"
    if "i < length (rt_interactions (m_rt m))" for i
  proof -
    have inv: "iact_inv (rt_start (m_rt m)) (m_clock m) (i < m_released m) (rt_interactions (m_rt m) ! i)"
      using assms(1) that by (simp add: machine_inv_def)
    show ?thesis by (rule iact_inv_mono [OF inv assms(5)]) (use assms(7) in linarith)
  qed
  moreover have "rt_start (m_rt m) \<le> m_clock m'" using assms(1,5) by (simp add: machine_inv_def)
  ultimately show ?thesis using assms(2-4,6,8,9) by (simp add: machine_inv_def rt_frame_def)
qed

lemma rt_step_preserves:
  assumes "rt_step m ev m'" and "machine_inv m"
  shows "machine_inv m' \<and> rt_frame (m_rt m) (m_rt m')"
proof -
  let ?len = "length (rt_interactions (m_rt m))"
  have iact: "iact_inv (rt_start (m_rt m)) (m_clock m) True (rt_interactions (m_rt m) ! i)" "i < ?len"
    if "i < m_released m" for i
  proof -
    show len: "i < ?len" using assms(2) that by (simp add: machine_inv_def)
    have "iact_inv (rt_start (m_rt m)) (m_clock m) (i < m_released m) (rt_interactions (m_rt m) ! i)"
      using assms(2) len by (simp add: machine_inv_def)
    then show "iact_inv (rt_start (m_rt m)) (m_clock m) True (rt_interactions (m_rt m) ! i)"
      using that by simp
  qed
  have start: "rt_start (m_rt m) \<le> m_clock m" using assms(2) by (simp add: machine_inv_def)
  from assms(1) show ?thesis
  proof (cases rule: rt_step.cases)
    case (submit i t c w)
    note i = iact [OF submit(3)]
    show ?thesis
      using report_preserves [OF assms(2) submit(3,6) report_interactions(1) [OF i(2)] _ _
          later_reports(1) iact_inv_submit [OF i(1) TrueI submit(4-6)]] submit(2) by simp
  next
    case (commit i t)
    note i = iact [OF commit(3)]
    show ?thesis
      using report_preserves [OF assms(2) commit(3,4) report_interactions(2) [OF i(2)] _ _
          later_reports(2) iact_inv_reports(1) [OF i(1) TrueI commit(4) start]] commit(2) by simp
  next
    case (abort i t)
    note i = iact [OF abort(3)]
    show ?thesis
      using report_preserves [OF assms(2) abort(3,4) report_interactions(3) [OF i(2)] _ _
          later_reports(3) iact_inv_reports(2) [OF i(1) TrueI abort(4) start]] abort(2) by simp
  next
    case (return i t err)
    note i = iact [OF return(3)]
    show ?thesis
      using report_preserves [OF assms(2) return(3,5) report_interactions(4) [OF i(2)] _ _
          later_reports(4) [OF return(4)] iact_inv_reports(3) [OF i(1) TrueI return(5) start]] return(2) by simp
  next
    case (release i iact t w)
    then show ?thesis
      using assms(2) by (intro main_preserves) (auto simp: machine_inv_def phase_inv_def)
  next
    case (stop t)
    then show ?thesis
      using assms(2) by (intro main_preserves) (auto simp: machine_inv_def phase_inv_def)
  next
    case (push k t rt')
    then show ?thesis
      using assms(2) stop_push_frame [OF push(6)]
      by (intro main_preserves) (auto simp: machine_inv_def phase_inv_def)
  next
    case (push_error k t e rt')
    then show ?thesis
      using assms(2) stop_push_frame [OF push_error(6)]
      by (intro main_preserves) (auto simp: machine_inv_def phase_inv_def)
  next
    case (finish k t r rt')
    then show ?thesis
      using assms(2) rt_on_conn_frame [OF finish(6)]
      by (intro main_preserves) (auto simp: machine_inv_def phase_inv_def split: outcome.splits)
  qed
qed

lemma rt_run_preserves:
  "rt_run m m' \<Longrightarrow> machine_inv m \<Longrightarrow> machine_inv m' \<and> rt_frame (m_rt m) (m_rt m')"
  by (induction rule: rt_run.induct) (auto dest: rt_step_preserves intro: rt_frame_trans)

section \<open>What is sent back\<close>

lemma pushResult_Ok:
  assumes "primaryConn_pushResult (MsgResultInteraction m) c = (Ok (), c')"
  shows "conn_written c' = conn_written c @ wire_result (MsgResultInteraction m)"
proof -
  have enc: "encode_msgResult bufio_write (MsgResultInteraction m) c = (Ok (), c')"
    using assms by (auto simp: primaryConn_pushResult_def gret_run elim!: gbind_OkE)
  have "result_fits (MsgResultInteraction m)"
    using enc encode_result_refused [of "MsgResultInteraction m" bufio_write c] by (metis outcome.distinct(1) prod.inject)
  then show ?thesis using emits_Ok [OF bufio.encode_result_emits enc] by simp
qed

lemma pushDone_Ok:
  assumes "primaryConn_pushResult MsgResultDone c = (Ok (), c')"
  shows "c_buf c' = [] \<and> c_out c' = conn_written c @ wire_result MsgResultDone"
proof -
  obtain c1 where c1: "encode_msgResult bufio_write MsgResultDone c = (Ok (), c1)"
    "bufio_flush c1 = (Ok (), c')"
    using assms by (auto simp: primaryConn_pushResult_def gret_run elim!: gbind_OkE)
  have "conn_written c1 = conn_written c @ wire_result MsgResultDone"
    using emits_Ok [OF bufio.encode_result_emits c1(1)] by simp
  with bufio_flush_Ok [OF c1(2)] show ?thesis by simp
qed

lemma rt_on_conn_Ok: "rt_on_conn m rt = (r, rt') \<Longrightarrow> m (rt_conn rt) = (r, rt_conn rt')"
  by (auto simp: rt_on_conn_def gzoom_def split: prod.splits)

lemma stop_push_written:
  "stop_push k rt = (Ok (), rt') \<Longrightarrow> conn_written (rt_conn rt') = conn_written (rt_conn rt) @
     wire_result (MsgResultInteraction (stop_msg (rt_start rt) (rt_interactions rt ! k)))"
  unfolding stop_push_def by (drule rt_on_conn_Ok) (rule pushResult_Ok)

definition snap_stream :: "gtime \<Rightarrow> ('cl, 'op) runtimeInteraction list \<Rightarrow> byte list" where
  "snap_stream start snaps =
     concat (map (\<lambda>ia. wire_result (MsgResultInteraction (stop_msg start ia))) snaps)"

text \<open>
  What has been written on the connection: the results of the first \<open>k\<close> interactions, each as it
  was at some moment before now.
\<close>

definition pushed_inv :: "byte list \<Rightarrow> ('cl, 'op) machine \<Rightarrow> bool" where
  "pushed_inv base m \<longleftrightarrow>
     (\<exists>snaps. length snaps \<le> length (rt_interactions (m_rt m)) \<and>
        (\<forall>i < length snaps. later (snaps ! i) (rt_interactions (m_rt m) ! i)) \<and>
        (case m_phase m of
           Releasing \<Rightarrow> snaps = [] \<and> conn_written (rt_conn (m_rt m)) = base
         | Pushing k \<Rightarrow> length snaps = k \<and>
             conn_written (rt_conn (m_rt m)) = base @ snap_stream (rt_start (m_rt m)) snaps
         | Finished \<Rightarrow> length snaps = length (rt_interactions (m_rt m)) \<and> c_buf (rt_conn (m_rt m)) = [] \<and>
             c_out (rt_conn (m_rt m)) =
               base @ snap_stream (rt_start (m_rt m)) snaps @ wire_result MsgResultDone
         | Failed e \<Rightarrow> True))"

text \<open>A step that leaves the connection and the phase alone keeps what was pushed.\<close>

lemma pushed_inv_frame:
  assumes "pushed_inv base m" and "rt_frame (m_rt m) (m_rt m')" and "rt_conn (m_rt m') = rt_conn (m_rt m)"
    and "m_phase m' = m_phase m"
  shows "pushed_inv base m'"
proof -
  from assms(1) obtain snaps where snaps: "length snaps \<le> length (rt_interactions (m_rt m))"
    "\<And>i. i < length snaps \<Longrightarrow> later (snaps ! i) (rt_interactions (m_rt m) ! i)"
    "case m_phase m of
           Releasing \<Rightarrow> snaps = [] \<and> conn_written (rt_conn (m_rt m)) = base
         | Pushing k \<Rightarrow> length snaps = k \<and>
             conn_written (rt_conn (m_rt m)) = base @ snap_stream (rt_start (m_rt m)) snaps
         | Finished \<Rightarrow> length snaps = length (rt_interactions (m_rt m)) \<and> c_buf (rt_conn (m_rt m)) = [] \<and>
             c_out (rt_conn (m_rt m)) =
               base @ snap_stream (rt_start (m_rt m)) snaps @ wire_result MsgResultDone
         | Failed e \<Rightarrow> True"
    unfolding pushed_inv_def by blast
  have "later (snaps ! i) (rt_interactions (m_rt m') ! i)" if "i < length snaps" for i
  proof -
    have "later (rt_interactions (m_rt m) ! i) (rt_interactions (m_rt m') ! i)"
      using snaps(1) assms(2) that by (simp add: rt_frame_def)
    with snaps(2) [OF that] show ?thesis by (rule later_trans)
  qed
  with snaps assms(2-4) show ?thesis
    unfolding pushed_inv_def by (intro exI [of _ snaps]) (auto simp: rt_frame_def split: phase.splits)
qed

lemma rt_step_pushed:
  assumes "rt_step m ev m'" and "machine_inv m" and "pushed_inv base m"
  shows "pushed_inv base m'"
proof -
  have frame: "rt_frame (m_rt m) (m_rt m')" using rt_step_preserves [OF assms(1,2)] ..
  from assms(1) show ?thesis
  proof (cases rule: rt_step.cases)
    case (stop t)
    then show ?thesis using assms(3) by (auto simp: pushed_inv_def snap_stream_def)
  next
    case (push k t rt')
    from assms(3) push(3) obtain snaps where snaps: "length snaps = k"
      "\<And>i. i < k \<Longrightarrow> later (snaps ! i) (rt_interactions (m_rt m) ! i)"
      "conn_written (rt_conn (m_rt m)) = base @ snap_stream (rt_start (m_rt m)) snaps"
      by (auto simp: pushed_inv_def)
    let ?snaps = "snaps @ [rt_interactions (m_rt m) ! k]"
    note same = stop_push_frame [OF push(6)]
    have "later (?snaps ! i) (rt_interactions (m_rt m) ! i)" if "i < Suc k" for i
      using snaps(1,2) that by (cases "i = k") (auto simp: nth_append)
    moreover have "conn_written (rt_conn rt') = base @ snap_stream (rt_start (m_rt m)) ?snaps"
      using stop_push_written [OF push(6)] snaps(3) by (simp add: snap_stream_def)
    ultimately show ?thesis
      using push snaps(1) same unfolding pushed_inv_def by (intro exI [of _ ?snaps]) simp
  next
    case (push_error k t e rt')
    then show ?thesis unfolding pushed_inv_def by (intro exI [of _ "[]"]) simp
  next
    case (finish k t r rt')
    note same = rt_on_conn_frame [OF finish(6)]
    show ?thesis
    proof (cases r)
      case (Ok u)
      from assms(3) finish(3,4) obtain snaps where snaps: "length snaps = length (rt_interactions (m_rt m))"
        "\<And>i. i < length snaps \<Longrightarrow> later (snaps ! i) (rt_interactions (m_rt m) ! i)"
        "conn_written (rt_conn (m_rt m)) = base @ snap_stream (rt_start (m_rt m)) snaps"
        by (auto simp: pushed_inv_def)
      moreover have "c_buf (rt_conn rt') = [] \<and>
          c_out (rt_conn rt') = conn_written (rt_conn (m_rt m)) @ wire_result MsgResultDone"
        using pushDone_Ok rt_on_conn_Ok [OF finish(6)] Ok by simp
      ultimately show ?thesis
        using finish(2) same Ok unfolding pushed_inv_def by (intro exI [of _ snaps]) simp
    qed (use finish in \<open>auto simp: pushed_inv_def intro!: exI [of _ "[]"]\<close>)
  next
    case (release i iact t w)
    show ?thesis by (rule pushed_inv_frame [OF assms(3) frame]) (simp_all add: release(2))
  next
    case (submit i t c w)
    show ?thesis by (rule pushed_inv_frame [OF assms(3) frame]) (simp_all add: submit(2))
  next
    case (commit i t)
    show ?thesis by (rule pushed_inv_frame [OF assms(3) frame]) (simp_all add: commit(2))
  next
    case (abort i t)
    show ?thesis by (rule pushed_inv_frame [OF assms(3) frame]) (simp_all add: abort(2))
  next
    case (return i t err)
    show ?thesis by (rule pushed_inv_frame [OF assms(3) frame]) (simp_all add: return(2))
  qed
qed

lemma rt_run_pushed:
  "rt_run m m' \<Longrightarrow> machine_inv m \<Longrightarrow> pushed_inv base m \<Longrightarrow> pushed_inv base m'"
  by (induction rule: rt_run.induct) (auto dest: rt_run_preserves rt_step_pushed)

lemma machine_start_pushed: "pushed_inv (conn_written (rt_conn rt)) (machine_start rt t)"
  by (simp add: pushed_inv_def machine_start_def)

section \<open>Progress\<close>

text \<open>On a connection that works the main goroutine always has a next step and reaches the end.\<close>

definition results_fit :: "('cl, 'op) runtime \<Rightarrow> bool" where
  "results_fit rt \<longleftrightarrow> list_all (\<lambda>ia. rtc_id (ri_client ia) < 2 ^ 32 \<and> ri_ikind ia \<le> 255) (rt_interactions rt)"

lemma pushResult_good:
  assumes "conn_good c" and "result_fits m"
  obtains c' where "primaryConn_pushResult m c = (Ok (), c')" and "conn_good c'"
proof (cases m)
  case MsgResultDone
  have "primaryConn_pushResult m = gbind (encode_msgResult bufio_write m) (\<lambda>_. bufio_flush)"
    by (simp add: primaryConn_pushResult_def MsgResultDone fun_eq_iff gbind_def gret_def split: prod.splits outcome.splits)
  then show thesis
    using emit_flush [OF bufio.encode_result_emits [OF assms(2)] conn_keeps(5) assms(1)] that by metis
next
  case (MsgResultInteraction i)
  then have "primaryConn_pushResult m = encode_msgResult bufio_write m"
    by (simp add: primaryConn_pushResult_def fun_eq_iff gbind_def gret_def split: prod.splits outcome.splits)
  then show thesis
    using emit_good [OF bufio.encode_result_emits [OF assms(2)] conn_keeps(5) assms(1)] that by metis
qed

lemma rt_run_trans: "rt_run b c \<Longrightarrow> rt_run a b \<Longrightarrow> rt_run a c"
  by (induction rule: rt_run.induct) (auto intro: rt_run.intros)

lemma rt_run_first: "rt_step m ev m1 \<Longrightarrow> rt_run m1 m' \<Longrightarrow> rt_run m m'"
  by (rule rt_run_trans [OF _ rt_run.step [OF rt_run.refl]])

lemma finish_pushing:
  assumes "m_phase m = Pushing k" and "length (rt_interactions (m_rt m)) = k + n"
    and "conn_good (rt_conn (m_rt m))" and "results_fit (m_rt m)"
  shows "\<exists>m'. rt_run m m' \<and> m_phase m' = Finished"
  using assms
proof (induction n arbitrary: m k)
  case 0
  obtain c where c: "primaryConn_pushResult MsgResultDone (rt_conn (m_rt m)) = (Ok (), c)"
    using pushResult_good [OF "0.prems"(3), of MsgResultDone] by auto
  then have "rt_on_conn (primaryConn_pushResult MsgResultDone) (m_rt m) = (Ok (), (m_rt m)\<lparr>rt_conn := c\<rparr>)"
    by (simp add: rt_on_conn_def gzoom_def)
  from finish [OF "0.prems"(1) _ order_refl this] "0.prems"(2)
  have "rt_step m (EvEnd (m_clock m)) (m\<lparr>m_rt := (m_rt m)\<lparr>rt_conn := c\<rparr>, m_clock := m_clock m, m_phase := Finished\<rparr>)"
    by simp
  then show ?case
    by (intro exI [of _ "m\<lparr>m_rt := (m_rt m)\<lparr>rt_conn := c\<rparr>, m_clock := m_clock m, m_phase := Finished\<rparr>"])
      (auto intro: rt_run.intros)
next
  case (Suc n)
  let ?msg = "stop_msg (rt_start (m_rt m)) (rt_interactions (m_rt m) ! k)"
  have k: "k < length (rt_interactions (m_rt m))" using Suc.prems(2) by simp
  then have "result_fits (MsgResultInteraction ?msg)"
    using Suc.prems(4) by (simp add: results_fit_def list_all_length stop_msg_def)
  then obtain c where c: "primaryConn_pushResult (MsgResultInteraction ?msg) (rt_conn (m_rt m)) = (Ok (), c)"
    "conn_good c" using pushResult_good [OF Suc.prems(3)] by metis
  let ?m = "m\<lparr>m_rt := (m_rt m)\<lparr>rt_conn := c\<rparr>, m_phase := Pushing (Suc k), m_clock := m_clock m\<rparr>"
  have "stop_push k (m_rt m) = (Ok (), (m_rt m)\<lparr>rt_conn := c\<rparr>)"
    using c(1) by (simp add: stop_push_def rt_on_conn_def gzoom_def)
  from push [OF Suc.prems(1) k order_refl this] have step: "rt_step m (EvPush (m_clock m)) ?m" .
  obtain m' where "rt_run ?m m'" "m_phase m' = Finished"
    using Suc.IH [of ?m "Suc k"] Suc.prems(2,4) c(2) by (auto simp: results_fit_def)
  then show ?case using rt_run_first [OF step] by blast
qed

lemma finish_releasing:
  assumes "m_phase m = Releasing" and "length (rt_interactions (m_rt m)) = m_released m + n"
    and "conn_good (rt_conn (m_rt m))" and "results_fit (m_rt m)"
  shows "\<exists>m'. rt_run m m' \<and> m_phase m' = Finished"
  using assms
proof (induction n arbitrary: m)
  case 0
  let ?t = "max (m_clock m) (m_read m + stop_timeout)"
  have step: "rt_step m (EvStop ?t) (m\<lparr>m_phase := Pushing 0, m_clock := ?t\<rparr>)"
    by (rule stop) (use "0.prems" in auto)
  obtain m' where "rt_run (m\<lparr>m_phase := Pushing 0, m_clock := ?t\<rparr>) m'" "m_phase m' = Finished"
    using finish_pushing [of "m\<lparr>m_phase := Pushing 0, m_clock := ?t\<rparr>" 0] "0.prems" by auto
  then show ?case using rt_run_first [OF step] by blast
next
  case (Suc n)
  let ?ia = "rt_interactions (m_rt m) ! m_released m"
  let ?t = "max (m_clock m) (max (m_read m) (sleep_until m ?ia))"
  let ?m = "m\<lparr>m_rt := skew_warning (m_read m) m ?ia, m_released := Suc (m_released m), m_read := ?t,
    m_now := duration_Seconds (time_Sub ?t (rt_start (m_rt m))), m_clock := ?t\<rparr>"
  have step: "rt_step m (EvRelease (m_read m) ?t) ?m"
    by (rule release) (use Suc.prems in auto)
  obtain m' where "rt_run ?m m'" "m_phase m' = Finished"
    using Suc.IH [of ?m] Suc.prems by (auto simp: results_fit_def)
  then show ?case using rt_run_first [OF step] by blast
qed

text \<open>
  Whatever the interleaving, on such a connection no step fails: in every reachable state the
  main goroutine is releasing, pushing on a connection that works, or done.
\<close>

definition run_good :: "('cl, 'op) machine \<Rightarrow> bool" where
  "run_good m \<longleftrightarrow> results_fit (m_rt m) \<and> m_released m \<le> length (rt_interactions (m_rt m)) \<and>
     (case m_phase m of
        Releasing \<Rightarrow> conn_good (rt_conn (m_rt m))
      | Pushing k \<Rightarrow> conn_good (rt_conn (m_rt m)) \<and> k \<le> length (rt_interactions (m_rt m))
      | Finished \<Rightarrow> True
      | Failed e \<Rightarrow> False)"

lemma results_fit_later:
  assumes "results_fit rt" and "i < length (rt_interactions rt)" and "later (rt_interactions rt ! i) y"
    and "rt_interactions rt' = (rt_interactions rt)[i := y]"
  shows "results_fit rt'"
  using assms by (auto simp: results_fit_def list_all_length later_def nth_list_update)

text \<open>A report changes one interaction and leaves the connection and the phase alone.\<close>

lemma run_good_report:
  assumes "run_good m" and "i < m_released m" and "later (rt_interactions (m_rt m) ! i) y"
    and "rt_interactions rt' = (rt_interactions (m_rt m))[i := y]" and "rt_conn rt' = rt_conn (m_rt m)"
  shows "run_good (m\<lparr>m_rt := rt', m_clock := c\<rparr>)"
  using assms results_fit_later [of "m_rt m" i y rt'] by (auto simp: run_good_def split: phase.splits)

lemma stop_push_good:
  assumes "conn_good (rt_conn rt)" and "results_fit rt" and "k < length (rt_interactions rt)"
  obtains c where "stop_push k rt = (Ok (), rt\<lparr>rt_conn := c\<rparr>)" and "conn_good c"
proof -
  let ?msg = "MsgResultInteraction (stop_msg (rt_start rt) (rt_interactions rt ! k))"
  have "result_fits ?msg" using assms(2,3) by (simp add: results_fit_def list_all_length stop_msg_def)
  then obtain c where "primaryConn_pushResult ?msg (rt_conn rt) = (Ok (), c)" "conn_good c"
    using pushResult_good [OF assms(1)] by metis
  then show thesis using that by (simp add: stop_push_def rt_on_conn_def gzoom_def)
qed

lemma rt_step_good:
  assumes "rt_step m ev m'" and "run_good m"
  shows "run_good m'"
proof -
  have len: "i < length (rt_interactions (m_rt m))" if "i < m_released m" for i
    using assms(2) that by (simp add: run_good_def)
  from assms(1) show ?thesis
  proof (cases rule: rt_step.cases)
    case (submit i t c w)
    show ?thesis unfolding submit(2)
      by (rule run_good_report [OF assms(2) submit(3) later_reports(1) report_interactions(1) [OF len [OF submit(3)]]]) simp
  next
    case (commit i t)
    show ?thesis unfolding commit(2)
      by (rule run_good_report [OF assms(2) commit(3) later_reports(2) report_interactions(2) [OF len [OF commit(3)]]]) simp
  next
    case (abort i t)
    show ?thesis unfolding abort(2)
      by (rule run_good_report [OF assms(2) abort(3) later_reports(3) report_interactions(3) [OF len [OF abort(3)]]]) simp
  next
    case (return i t err)
    show ?thesis unfolding return(2)
      by (rule run_good_report [OF assms(2) return(3) later_reports(4) [OF return(4)]
            report_interactions(4) [OF len [OF return(3)]]]) simp
  next
    case (push k t rt')
    then show ?thesis
      using assms(2) stop_push_good [of "m_rt m" k] by (fastforce simp: run_good_def results_fit_def)
  next
    case (push_error k t e rt')
    then show ?thesis using assms(2) stop_push_good [of "m_rt m" k] by (fastforce simp: run_good_def)
  next
    case (finish k t r rt')
    obtain c where "primaryConn_pushResult MsgResultDone (rt_conn (m_rt m)) = (Ok (), c)"
      using pushResult_good [of "rt_conn (m_rt m)" MsgResultDone] assms(2) finish(3) by (auto simp: run_good_def)
    with finish assms(2) show ?thesis
      by (auto simp: rt_on_conn_def gzoom_def run_good_def results_fit_def)
  qed (use assms(2) in \<open>auto simp: run_good_def results_fit_def\<close>)
qed

lemma rt_run_good: "rt_run m m' \<Longrightarrow> run_good m \<Longrightarrow> run_good m'"
  by (induction rule: rt_run.induct) (auto dest: rt_step_good)

lemma run_good_finishes:
  assumes "run_good m"
  shows "\<exists>m'. rt_run m m' \<and> m_phase m' = Finished"
proof (cases "m_phase m")
  case Releasing
  then show ?thesis
    using finish_releasing [of m "length (rt_interactions (m_rt m)) - m_released m"] assms by (simp add: run_good_def)
next
  case (Pushing k)
  then show ?thesis
    using finish_pushing [of m k "length (rt_interactions (m_rt m)) - k"] assms by (simp add: run_good_def)
qed (use assms in \<open>auto simp: run_good_def intro: rt_run.refl\<close>)

lemma sort_interactions_sorted:
  "sorted (map (\<lambda>ia. f64_key (ri_schedTime ia)) (sort_interactions ias))"
  "mset (sort_interactions ias) = mset ias"
  "filter (\<lambda>ia. f64_key (ri_schedTime ia) = k) (sort_interactions ias) =
   filter (\<lambda>ia. f64_key (ri_schedTime ia) = k) ias"
  by (simp_all add: sort_interactions_def sort_key_stable)

text \<open>What a result says about the final state of its interaction.\<close>

lemma stop_msg_times:
  assumes "later snap fin" and "iact_inv start clock r fin"
  shows "mri_submitTime (stop_msg start snap) \<noteq> f64_minus_one \<Longrightarrow> ri_submitted fin \<and>
      f64_le f64_zero (mri_submitTime (stop_msg start snap)) \<and>
      mri_submitTime (stop_msg start snap) = duration_Seconds (time_Sub (ri_submitTime fin) start)"
    and "mri_commitTime (stop_msg start snap) \<noteq> f64_minus_one \<Longrightarrow> ri_committed fin \<and>
      f64_le f64_zero (mri_commitTime (stop_msg start snap)) \<and>
      mri_commitTime (stop_msg start snap) = duration_Seconds (time_Sub (ri_commitTime fin) start)"
    and "mri_abortTime (stop_msg start snap) \<noteq> f64_minus_one \<Longrightarrow> ri_aborted fin \<and>
      f64_le f64_zero (mri_abortTime (stop_msg start snap)) \<and>
      mri_abortTime (stop_msg start snap) = duration_Seconds (time_Sub (ri_abortTime fin) start)"
    and "mri_hasError (stop_msg start snap) \<Longrightarrow> ri_done fin \<and> ri_err fin \<noteq> None"
  subgoal using assms
    by (cases "ri_submitted snap") (simp_all add: stop_msg_def later_def iact_inv_def elapsed_nonneg)
  subgoal using assms
    by (cases "ri_committed snap") (simp_all add: stop_msg_def later_def iact_inv_def elapsed_nonneg)
  subgoal using assms
    by (cases "ri_aborted snap") (simp_all add: stop_msg_def later_def iact_inv_def elapsed_nonneg)
  subgoal using assms by (cases "ri_done snap") (simp_all add: stop_msg_def later_def)
  done

section \<open>Properties\<close>

text \<open>A chain and a runtime with one released-at-once interaction, for the witnesses.\<close>

definition demo_chain :: "(string list, byte list) chain" where
  "demo_chain = \<lparr>ch_Client = (\<lambda>_ _ view. Ok view), ch_DecodePayload = (\<lambda>_ bs. Ok bs)\<rparr>"

definition demo_runtime ::
  "byte list \<Rightarrow> (string list, byte list) runtimeInteraction list \<Rightarrow> (string list, byte list) runtime" where
  "demo_runtime inp ias = \<lparr>rt_conn = new_conn \<lparr>r_input = inp, r_err = EOF\<rparr> None ''p'',
     rt_params = \<lparr>mpp_sysname = ''mock'', mpp_chainParams = [], mpp_maxDelay = f64_one, mpp_maxSkew = f64_one\<rparr>,
     rt_chainEnv = [], rt_chain = demo_chain, rt_clients = [], rt_start = 5, rt_lastSkewWarn = 5,
     rt_interactions = ias, rt_lastDelayWarn = 5, rt_log = []\<rparr>"

definition demo_interaction :: "(string list, byte list) runtimeInteraction" where
  "demo_interaction = newRuntimeInteraction f64_zero (newRuntimeClient 3 [''n1'']) 0 [1]"

lemma demo_simps [simp]:
  "rt_interactions (demo_runtime inp ias) = ias" "rt_start (demo_runtime inp ias) = 5"
  "rt_conn (demo_runtime inp ias) = new_conn \<lparr>r_input = inp, r_err = EOF\<rparr> None ''p''"
  "untouched demo_interaction" "results_fit (demo_runtime inp [demo_interaction])"
  by (simp_all add: demo_runtime_def demo_interaction_def newRuntimeInteraction_def newRuntimeClient_def
      untouched_def results_fit_def)

text \<open>
  A run of it: the interaction is released at \<open>t\<close>, when the main goroutine has slept as long as it
  must; it is submitted (the clock is read at \<open>t + 1\<close>, the lock taken at \<open>t + 2\<close>), committed, its
  trigger returns, it is reported aborted too, and the secondary stops 100 seconds after the release.
\<close>

lemma demo_machine_run:
  obtains m where "rt_run (machine_start (demo_runtime [] [demo_interaction]) 5) m" "m_phase m = Pushing 0"
    "ri_submitted (rt_interactions (m_rt m) ! 0)" "ri_committed (rt_interactions (m_rt m) ! 0)"
    "ri_aborted (rt_interactions (m_rt m) ! 0)" "ri_done (rt_interactions (m_rt m) ! 0)"
proof -
  let ?m0 = "machine_start (demo_runtime [] [demo_interaction]) 5"
  define t where "t = max 6 (sleep_until ?m0 demo_interaction)"
  define m1 where "m1 = ?m0\<lparr>m_rt := skew_warning 5 ?m0 demo_interaction, m_released := Suc 0, m_read := t,
    m_now := duration_Seconds (time_Sub t 5), m_clock := t\<rparr>"
  define m2 where "m2 = m1\<lparr>m_rt := ReportSubmit 0 (t + 1) (t + 2) (m_rt m1), m_clock := t + 2\<rparr>"
  define m3 where "m3 = m2\<lparr>m_rt := ReportCommit 0 (t + 3) (m_rt m2), m_clock := t + 3\<rparr>"
  define m4 where "m4 = m3\<lparr>m_rt := trigger_end 0 None (m_rt m3), m_clock := t + 4\<rparr>"
  define m5 where "m5 = m4\<lparr>m_rt := ReportAbort 0 (t + 5) (m_rt m4), m_clock := t + 5\<rparr>"
  define m6 where "m6 = m5\<lparr>m_phase := Pushing 0, m_clock := t + stop_timeout\<rparr>"
  have t: "5 \<le> t" "sleep_until ?m0 demo_interaction \<le> t" by (simp_all add: t_def)
  have ia: "untouched demo_interaction" by simp
  have start: "m_phase ?m0 = Releasing" "m_released ?m0 = 0" "m_rt ?m0 = demo_runtime [] [demo_interaction]"
    "m_read ?m0 = 5" "m_clock ?m0 = 5"
    by (simp_all add: machine_start_def)
  have m1: "rt_interactions (m_rt m1) = [demo_interaction]" "rt_start (m_rt m1) = 5" "m_released m1 = 1" "m_read m1 = t"
    "m_clock m1 = t" "m_phase m1 = Releasing"
    using start by (simp_all add: m1_def)
  note fields = report_interactions submit_iact_def commit_iact_def abort_iact_def untouched_def
  have m3: "rt_interactions (m_rt m3) = [demo_interaction\<lparr>ri_submitTime := t + 1, ri_submitted := True,
      ri_commitTime := t + 3, ri_committed := True\<rparr>]"
    using m1(1) ia by (simp add: m3_def m2_def fields)
  have m5: "rt_interactions (m_rt m5) = [demo_interaction\<lparr>ri_submitTime := t + 1, ri_submitted := True,
      ri_commitTime := t + 3, ri_committed := True, ri_err := None, ri_done := True, ri_abortTime := t + 5,
      ri_aborted := True\<rparr>]"
    using m3 ia by (simp add: m5_def m4_def fields)
  have s1: "rt_step ?m0 (EvRelease 5 t) m1"
    using release [of ?m0 0 demo_interaction t 5] start t by (simp add: m1_def)
  have s2: "rt_step m1 (EvSubmit 0 (t + 1) (t + 2)) m2"
    using submit [of 0 m1 "t + 1" "t + 2" "t + 2"] m1 t by (simp add: m2_def)
  have s3: "rt_step m2 (EvCommit 0 (t + 3)) m3"
    using commit [of 0 m2 "t + 3"] m1(3) by (simp add: m3_def m2_def)
  have s4: "rt_step m3 (EvReturn 0 None (t + 4)) m4"
    using return [of 0 m3 "t + 4" None] m1(3) m3 ia by (simp add: m4_def m3_def m2_def untouched_def)
  have s5: "rt_step m4 (EvAbort 0 (t + 5)) m5"
    using abort [of 0 m4 "t + 5"] m1(3) by (simp add: m5_def m4_def m3_def m2_def)
  have s6: "rt_step m5 (EvStop (t + stop_timeout)) m6"
    using stop [of m5 "t + stop_timeout"] m1 m5
    by (simp add: m6_def m5_def m4_def m3_def m2_def stop_timeout_def time_Second_def)
  note run = rt_run.step [OF rt_run.step [OF rt_run.step [OF rt_run.step [OF rt_run.step [OF rt_run.step [OF rt_run.refl s1] s2] s3] s4] s5] s6]
  show thesis by (rule that [OF run]) (use m5 in \<open>simp_all add: m6_def\<close>)
qed

text \<open>
  C5: In every reachable state of a run, with the reports of any number of concurrent
  interactions interleaved in any way, only interactions that the schedule has released have
  been reported on, every recorded submission, commit and abort lies between the start of the
  benchmark and the present, and results are pushed only after all interactions were released.
\<close>

theorem run_invariant:
  assumes "list_all untouched (rt_interactions rt)" and "rt_start rt \<le> t0" and "rt_run (machine_start rt t0) m"
  shows "m_released m \<le> length (rt_interactions rt) \<and>
    (\<forall>k. m_phase m = Pushing k \<or> m_phase m = Finished \<longrightarrow> m_released m = length (rt_interactions rt)) \<and>
    (\<forall>i < length (rt_interactions rt). let ia = rt_interactions (m_rt m) ! i in
       (ri_submitted ia \<or> ri_committed ia \<or> ri_aborted ia \<or> ri_done ia \<longrightarrow> i < m_released m) \<and>
       (ri_submitted ia \<longrightarrow> rt_start rt \<le> ri_submitTime ia \<and> ri_submitTime ia \<le> m_clock m) \<and>
       (ri_committed ia \<longrightarrow> rt_start rt \<le> ri_commitTime ia \<and> ri_commitTime ia \<le> m_clock m) \<and>
       (ri_aborted ia \<longrightarrow> rt_start rt \<le> ri_abortTime ia \<and> ri_abortTime ia \<le> m_clock m))"
proof -
  have "machine_inv m" and frame: "rt_frame (m_rt (machine_start rt t0)) (m_rt m)"
    using rt_run_preserves [OF assms(3) machine_start_inv [OF assms(1,2)]] by simp_all
  moreover have "length (rt_interactions (m_rt m)) = length (rt_interactions rt)" "rt_start (m_rt m) = rt_start rt"
    using frame by (simp_all add: rt_frame_def machine_start_def)
  ultimately have len: "m_released m \<le> length (rt_interactions rt)"
    and phase: "m_phase m = Pushing k \<or> m_phase m = Finished \<Longrightarrow> m_released m = length (rt_interactions rt)"
    and ias: "i < length (rt_interactions rt) \<Longrightarrow>
      iact_inv (rt_start rt) (m_clock m) (i < m_released m) (rt_interactions (m_rt m) ! i)" for k i
    by (auto simp: machine_inv_def phase_inv_def)
  show ?thesis
    unfolding Let_def using len phase ias [unfolded iact_inv_def] by blast
qed

theorem run_invariant_witness:
  "\<exists>m. rt_run (machine_start (demo_runtime [] [demo_interaction]) 5) m \<and> m_phase m = Pushing 0 \<and> m_released m = 1 \<and>
     (let ia = rt_interactions (m_rt m) ! 0 in
      ri_submitted ia \<and> ri_committed ia \<and> ri_aborted ia \<and> ri_done ia \<and>
      5 \<le> ri_submitTime ia \<and> ri_submitTime ia \<le> m_clock m \<and> 5 \<le> ri_commitTime ia \<and> ri_commitTime ia \<le> m_clock m \<and>
      5 \<le> ri_abortTime ia \<and> ri_abortTime ia \<le> m_clock m)"
proof -
  obtain m where m: "rt_run (machine_start (demo_runtime [] [demo_interaction]) 5) m" "m_phase m = Pushing 0"
    "ri_submitted (rt_interactions (m_rt m) ! 0)" "ri_committed (rt_interactions (m_rt m) ! 0)"
    "ri_aborted (rt_interactions (m_rt m) ! 0)" "ri_done (rt_interactions (m_rt m) ! 0)" by (rule demo_machine_run)
  from run_invariant [OF _ _ m(1)] m show ?thesis by (intro exI [of _ m]) (simp add: Let_def)
qed

text \<open>
  C29: The first report counts: whatever happens later, in any interleaving, a recorded
  submission, commit or abort keeps its time, the outcome of a trigger keeps its error, and the
  client, kind, scheduled time and payload of an interaction never change.
\<close>

theorem first_report_wins:
  assumes "machine_inv m" and "rt_run m m'" and "i < length (rt_interactions (m_rt m))"
  shows "let a = rt_interactions (m_rt m) ! i; b = rt_interactions (m_rt m') ! i in
    ri_client b = ri_client a \<and> ri_ikind b = ri_ikind a \<and> ri_schedTime b = ri_schedTime a \<and> ri_opaque b = ri_opaque a \<and>
    (ri_submitted a \<longrightarrow> ri_submitted b \<and> ri_submitTime b = ri_submitTime a) \<and>
    (ri_committed a \<longrightarrow> ri_committed b \<and> ri_commitTime b = ri_commitTime a) \<and>
    (ri_aborted a \<longrightarrow> ri_aborted b \<and> ri_abortTime b = ri_abortTime a) \<and>
    (ri_done a \<longrightarrow> ri_done b \<and> ri_err b = ri_err a)"
  using rt_run_preserves [OF assms(2,1)] assms(3) by (auto simp: rt_frame_def later_def Let_def)

theorem first_report_wins_witness:
  "\<exists>(m :: (string list, byte list) machine) m'. rt_run m m' \<and> ri_submitted (rt_interactions (m_rt m) ! 0) \<and>
     ri_submitTime (rt_interactions (m_rt m') ! 0) = ri_submitTime (rt_interactions (m_rt m) ! 0)"
proof -
  let ?ia = "demo_interaction\<lparr>ri_submitted := True, ri_submitTime := 6\<rparr>"
  let ?m = "\<lparr>m_rt = demo_runtime [] [?ia], m_released = 1, m_read = 5, m_now = f64_zero, m_clock = 6,
    m_phase = Releasing\<rparr>"
  have inv: "machine_inv ?m"
    by (simp add: machine_inv_def phase_inv_def iact_inv_def demo_interaction_def newRuntimeInteraction_def)
  have "rt_step ?m (EvSubmit 0 7 7) (?m\<lparr>m_rt := ReportSubmit 0 7 7 (m_rt ?m), m_clock := 7\<rparr>)"
    by (rule submit) simp_all
  then have run: "rt_run ?m (?m\<lparr>m_rt := ReportSubmit 0 7 7 (m_rt ?m), m_clock := 7\<rparr>)"
    by (rule rt_run.step [OF rt_run.refl])
  have "ri_submitTime (rt_interactions (m_rt (?m\<lparr>m_rt := ReportSubmit 0 7 7 (m_rt ?m), m_clock := 7\<rparr>)) ! 0) =
      ri_submitTime (rt_interactions (m_rt ?m) ! 0)"
    using first_report_wins [OF inv run, of 0] by (simp add: Let_def)
  with run show ?thesis
    by (intro exI [of _ ?m] exI [of _ "?m\<lparr>m_rt := ReportSubmit 0 7 7 (m_rt ?m), m_clock := 7\<rparr>"]) simp
qed

text \<open>
  C30: A run that finishes has sent exactly one result per interaction, in the order of the
  schedule, followed by the end marker, all of it flushed. Each result names the client and the
  kind of its interaction, and the times in it are those recorded by then: \<open>-1\<close> exactly if the
  event had not been reported, and otherwise the non-negative time since the start of what is
  still recorded at the end.
\<close>

theorem finished_run_reports_all:
  assumes "list_all untouched (rt_interactions rt)" and "rt_start rt \<le> t0"
    and "rt_run (machine_start rt t0) m" and "m_phase m = Finished"
  shows "\<exists>msgs. length msgs = length (rt_interactions rt) \<and>
    c_buf (rt_conn (m_rt m)) = [] \<and>
    c_out (rt_conn (m_rt m)) = conn_written (rt_conn rt) @
      concat (map (\<lambda>x. wire_result (MsgResultInteraction x)) msgs) @ wire_result MsgResultDone \<and>
    (\<forall>i < length msgs. let ia = rt_interactions rt ! i; fin = rt_interactions (m_rt m) ! i; x = msgs ! i in
       mri_index x = rtc_id (ri_client ia) \<and> mri_ikind x = ri_ikind ia \<and>
       (mri_submitTime x \<noteq> f64_minus_one \<longrightarrow> ri_submitted fin \<and> f64_le f64_zero (mri_submitTime x) \<and>
          mri_submitTime x = duration_Seconds (time_Sub (ri_submitTime fin) (rt_start rt))) \<and>
       (mri_commitTime x \<noteq> f64_minus_one \<longrightarrow> ri_committed fin \<and> f64_le f64_zero (mri_commitTime x) \<and>
          mri_commitTime x = duration_Seconds (time_Sub (ri_commitTime fin) (rt_start rt))) \<and>
       (mri_abortTime x \<noteq> f64_minus_one \<longrightarrow> ri_aborted fin \<and> f64_le f64_zero (mri_abortTime x) \<and>
          mri_abortTime x = duration_Seconds (time_Sub (ri_abortTime fin) (rt_start rt))) \<and>
       (mri_hasError x \<longrightarrow> ri_done fin \<and> ri_err fin \<noteq> None))"
proof -
  note inv0 = machine_start_inv [OF assms(1,2)]
  have inv: "machine_inv m" and frame: "rt_frame rt (m_rt m)"
    using rt_run_preserves [OF assms(3) inv0] by (simp_all add: machine_start_def)
  have "pushed_inv (conn_written (rt_conn rt)) m"
    using rt_run_pushed [OF assms(3) inv0 machine_start_pushed] .
  then obtain snaps where snaps: "length snaps = length (rt_interactions rt)"
    "\<And>i. i < length snaps \<Longrightarrow> later (snaps ! i) (rt_interactions (m_rt m) ! i)"
    "c_buf (rt_conn (m_rt m)) = []"
    "c_out (rt_conn (m_rt m)) = conn_written (rt_conn rt) @ snap_stream (rt_start rt) snaps @ wire_result MsgResultDone"
    using assms(4) frame by (auto simp: pushed_inv_def rt_frame_def)
  have times: "iact_inv (rt_start rt) (m_clock m) (i < m_released m) (rt_interactions (m_rt m) ! i)"
    "later (rt_interactions rt ! i) (rt_interactions (m_rt m) ! i)" if "i < length snaps" for i
    using inv frame snaps(1) that by (auto simp: machine_inv_def rt_frame_def)
  note msg = stop_msg_times [OF snaps(2) times(1)]
  have ids: "mri_index (stop_msg (rt_start rt) (snaps ! i)) = rtc_id (ri_client (rt_interactions rt ! i))"
    "mri_ikind (stop_msg (rt_start rt) (snaps ! i)) = ri_ikind (rt_interactions rt ! i)" if "i < length snaps" for i
    using times(2) [OF that] snaps(2) [OF that] by (simp_all add: later_def stop_msg_def)
  show ?thesis
    using snaps(1,3,4) msg ids
    by (intro exI [of _ "map (stop_msg (rt_start rt)) snaps"]) (simp add: snap_stream_def comp_def Let_def)
qed

theorem finished_run_reports_all_witness:
  "\<exists>m msgs. rt_run (machine_start (demo_runtime [] [demo_interaction]) 5) m \<and> length msgs = 1 \<and>
     c_out (rt_conn (m_rt m)) =
       concat (map (\<lambda>x. wire_result (MsgResultInteraction x)) msgs) @ wire_result MsgResultDone"
proof -
  obtain m where m: "rt_run (machine_start (demo_runtime [] [demo_interaction]) 5) m" "m_phase m = Finished"
    using finish_releasing [of "machine_start (demo_runtime [] [demo_interaction]) 5" 1]
    by (auto simp: machine_start_def)
  from finished_run_reports_all [OF _ _ m] m(1) show ?thesis by auto
qed

text \<open>
  C33: A run cannot get stuck: from every state that can be reached, with any interleaving of the
  reports so far, and on a connection that works and with indices and kinds that fit the format,
  the main goroutine can release the remaining interactions, wait, push every result and finish,
  without depending on any further report of the blockchain clients.
\<close>

theorem run_can_finish:
  assumes "conn_good (rt_conn rt)" and "results_fit rt" and "rt_run (machine_start rt t0) m"
  shows "\<exists>m'. rt_run m m' \<and> m_phase m' = Finished"
  by (rule run_good_finishes [OF rt_run_good [OF assms(3)]])
    (use assms(1,2) in \<open>simp add: run_good_def machine_start_def\<close>)

theorem run_can_finish_witness:
  "\<exists>m m'. rt_run (machine_start (demo_runtime [] [demo_interaction]) 5) m \<and>
     ri_committed (rt_interactions (m_rt m) ! 0) \<and> rt_run m m' \<and> m_phase m' = Finished"
proof -
  obtain m where m: "rt_run (machine_start (demo_runtime [] [demo_interaction]) 5) m"
    "ri_committed (rt_interactions (m_rt m) ! 0)" by (rule demo_machine_run) simp
  from run_can_finish [OF _ _ m(1)] m show ?thesis by simp blast
qed

text \<open>
  Before the start a secondary sorts its interactions by scheduled time without losing or
  duplicating one, and keeps the order of interactions scheduled for the same time; as
  interactions are released in list order, they are released in the order of the schedule.
\<close>

theorem schedule_sorted:
  assumes "run_begin start rt = (Ok msg, rt')"
  shows "mset (rt_interactions rt') = mset (rt_interactions rt) \<and>
    (\<forall>i j. i < j \<longrightarrow> j < length (rt_interactions rt') \<longrightarrow>
       \<not> f64_lt (ri_schedTime (rt_interactions rt' ! j)) (ri_schedTime (rt_interactions rt' ! i))) \<and>
    (\<forall>k. filter (\<lambda>ia. f64_key (ri_schedTime ia) = k) (rt_interactions rt') =
       filter (\<lambda>ia. f64_key (ri_schedTime ia) = k) (rt_interactions rt))"
proof -
  have eq: "rt_interactions rt' = sort_interactions (rt_interactions rt)"
    using assms unfolding run_begin_def
    by (elim gbind_OkE) (auto simp: gmodify_run gret_run dest!: rt_on_conn_frame)
  have "\<not> f64_lt (ri_schedTime (rt_interactions rt' ! j)) (ri_schedTime (rt_interactions rt' ! i))"
    if "i < j" "j < length (rt_interactions rt')" for i j
    using sorted_nth_mono [OF sort_interactions_sorted(1), of i j "rt_interactions rt"] that
    by (auto simp: eq f64_lt_def)
  then show ?thesis using eq sort_interactions_sorted(2,3) by auto
qed

theorem schedule_sorted_witness:
  "\<exists>msg rt'. run_begin 9 (demo_runtime (wire_start \<lparr>mst_duration = f64_one\<rparr>)
       [demo_interaction\<lparr>ri_schedTime := f64_one\<rparr>, demo_interaction]) = (Ok msg, rt') \<and>
     mset (rt_interactions rt') = {#demo_interaction\<lparr>ri_schedTime := f64_one\<rparr>, demo_interaction#}"
proof -
  let ?rt = "demo_runtime (wire_start \<lparr>mst_duration = f64_one\<rparr>)
       [demo_interaction\<lparr>ri_schedTime := f64_one\<rparr>, demo_interaction]"
  let ?rt1 = "?rt\<lparr>rt_interactions := sort_interactions (rt_interactions ?rt)\<rparr>"
  obtain c where c: "gbind (encode_msgPrepare bufio_write MsgPrepareDone) (\<lambda>_. bufio_flush) (rt_conn ?rt1) = (Ok (), c)"
    "c_rd c = c_rd (rt_conn ?rt1)"
    using emit_flush [OF bufio.encode_prepare_emits conn_keeps(3), of MsgPrepareDone "rt_conn ?rt1"] by auto
  have "on_reader decodeMsgStart c = (Ok \<lparr>mst_duration = f64_one\<rparr>, c\<lparr>c_rd := (c_rd c)\<lparr>r_input := []\<rparr>\<rparr>)"
    using on_reader_codec [OF start_codec.codec_axioms, where x = "\<lparr>mst_duration = f64_one\<rparr>" and c = c and rest = "[]"]
      c(2) by simp
  with c(1) have "\<exists>msg rt'. run_begin 9 ?rt = (Ok msg, rt')"
    by (simp add: run_begin_def gbind_def gmodify_def gret_def rt_on_conn_def gzoom_def primaryConn_syncReady_def
        primaryConn_waitStart_def)
  then obtain msg rt' where run: "run_begin 9 ?rt = (Ok msg, rt')" by blast
  from schedule_sorted [OF run] run show ?thesis by auto
qed

end
