(* ===== verification/Util_IO.thy ===== *)
theory Util_IO
  imports Wire_IO
begin

text \<open>
  The chained readers and writers of \<^verbatim>\<open>src/util/io.go\<close>. A \<^verbatim>\<open>MonadOutput\<close> is a writer with a byte order,
  or an error that swallows every further call; likewise a \<^verbatim>\<open>MonadInput\<close>. A pointer argument is
  modelled by the value stored through it: a call on an error leaves it at zero, or empty. The
  lemmas reduce a chain that ends with \<^verbatim>\<open>Error()\<close> to the sequence of its writes or reads, which stops
  at the first failure.
\<close>

section \<open>Byte order\<close>

text \<open>The native order is found from the first byte in memory of the integer \<^verbatim>\<open>0xff000011\<close>.\<close>

definition nativeByteOrder :: "byte \<Rightarrow> byte_order" where
  "nativeByteOrder first = (if first = 0x11 then LittleEndian else BigEndian)"

section \<open>Output\<close>

datatype MonadOutput = MonadWriter byte_order | MonadOutError go_error

definition NewMonadOutputWriter :: "byte \<Rightarrow> MonadOutput" where
  "NewMonadOutputWriter first = MonadWriter (nativeByteOrder first)"

fun SetOrder_out :: "byte_order \<Rightarrow> MonadOutput \<Rightarrow> MonadOutput" where
  "SetOrder_out ord (MonadWriter _) = MonadWriter ord"
| "SetOrder_out ord (MonadOutError e) = MonadOutError e"

definition monad_write ::
  "'w write_op \<Rightarrow> (byte_order \<Rightarrow> byte list) \<Rightarrow> MonadOutput \<Rightarrow> ('w, MonadOutput) go" where
  "monad_write wr enc mo = (\<lambda>w.
     case mo of
       MonadOutError e \<Rightarrow> (Ok mo, w)
     | MonadWriter ord \<Rightarrow>
         (case wr (enc ord) w of
            (Ok _, w') \<Rightarrow> (Ok mo, w')
          | (Err e, w') \<Rightarrow> (Ok (MonadOutError e), w')
          | (Panic p, w') \<Rightarrow> (Panic p, w')))"

definition WriteUint8 :: "'w write_op \<Rightarrow> byte \<Rightarrow> MonadOutput \<Rightarrow> ('w, MonadOutput) go" where
  "WriteUint8 wr val = monad_write wr (\<lambda>_. [val])"

definition WriteUint16 :: "'w write_op \<Rightarrow> 16 word \<Rightarrow> MonadOutput \<Rightarrow> ('w, MonadOutput) go" where
  "WriteUint16 wr val = monad_write wr (\<lambda>ord. put_uint ord 2 (unat val))"

definition WriteUint32 :: "'w write_op \<Rightarrow> 32 word \<Rightarrow> MonadOutput \<Rightarrow> ('w, MonadOutput) go" where
  "WriteUint32 wr val = monad_write wr (\<lambda>ord. put_uint ord 4 (unat val))"

definition WriteUint64 :: "'w write_op \<Rightarrow> 64 word \<Rightarrow> MonadOutput \<Rightarrow> ('w, MonadOutput) go" where
  "WriteUint64 wr val = monad_write wr (\<lambda>ord. put_uint ord 8 (unat val))"

definition WriteBytes :: "'w write_op \<Rightarrow> byte list \<Rightarrow> MonadOutput \<Rightarrow> ('w, MonadOutput) go" where
  "WriteBytes wr val = monad_write wr (\<lambda>_. val)"

definition WriteString :: "'w write_op \<Rightarrow> string \<Rightarrow> MonadOutput \<Rightarrow> ('w, MonadOutput) go" where
  "WriteString wr val = monad_write wr (\<lambda>_. string_bytes val)"

text \<open>The dynamic type of the argument of \<^verbatim>\<open>Write\<close>.\<close>

datatype write_val =
  WUint8 byte | WUint16 "16 word" | WUint32 "32 word" | WUint64 "64 word" | WBytes "byte list" | WStr string | WOther

text \<open>On an error the dispatch is not reached.\<close>

definition writeDispatch :: "'w write_op \<Rightarrow> write_val \<Rightarrow> MonadOutput \<Rightarrow> ('w, MonadOutput) go" where
  "writeDispatch wr val mo =
     (case mo of
        MonadOutError e \<Rightarrow> gret mo
      | MonadWriter _ \<Rightarrow>
          (case val of
             WUint8 v \<Rightarrow> WriteUint8 wr v mo
           | WUint16 v \<Rightarrow> WriteUint16 wr v mo
           | WUint32 v \<Rightarrow> WriteUint32 wr v mo
           | WUint64 v \<Rightarrow> WriteUint64 wr v mo
           | WBytes v \<Rightarrow> WriteBytes wr v mo
           | WStr v \<Rightarrow> WriteString wr v mo
           | WOther \<Rightarrow> gpanic ''invalid type''))"

fun out_Error :: "MonadOutput \<Rightarrow> unit outcome" where
  "out_Error (MonadWriter _) = Ok ()"
| "out_Error (MonadOutError e) = Err e"

fun out_Trust :: "MonadOutput \<Rightarrow> unit outcome" where
  "out_Trust (MonadWriter _) = Ok ()"
| "out_Trust (MonadOutError e) = Panic ''error''"

text \<open>A chain of calls.\<close>

fun out_chain :: "(MonadOutput \<Rightarrow> ('w, MonadOutput) go) list \<Rightarrow> MonadOutput \<Rightarrow> ('w, MonadOutput) go" where
  "out_chain [] mo = gret mo"
| "out_chain (m # ms) mo = gbind (m mo) (out_chain ms)"

section \<open>Input\<close>

datatype MonadInput = MonadReader byte_order | MonadInError go_error

definition NewMonadInputReader :: "byte \<Rightarrow> MonadInput" where
  "NewMonadInputReader first = MonadReader (nativeByteOrder first)"

fun SetOrder_in :: "byte_order \<Rightarrow> MonadInput \<Rightarrow> MonadInput" where
  "SetOrder_in ord (MonadReader _) = MonadReader ord"
| "SetOrder_in ord (MonadInError e) = MonadInError e"

text \<open>The integer types a pointer may have; on this platform \<^verbatim>\<open>int\<close> and \<^verbatim>\<open>uint\<close> have 64 bits.\<close>

datatype ptr_type = PUint | PUint8 | PUint16 | PUint32 | PUint64 | PInt | PInt8 | PInt16 | PInt32 | PInt64 | POther

fun ptr_max :: "ptr_type \<Rightarrow> nat option" where
  "ptr_max PUint = Some (2 ^ 64 - 1)"
| "ptr_max PUint8 = Some (2 ^ 8 - 1)"
| "ptr_max PUint16 = Some (2 ^ 16 - 1)"
| "ptr_max PUint32 = Some (2 ^ 32 - 1)"
| "ptr_max PUint64 = Some (2 ^ 64 - 1)"
| "ptr_max PInt = Some (2 ^ 63 - 1)"
| "ptr_max PInt8 = Some (2 ^ 7 - 1)"
| "ptr_max PInt16 = Some (2 ^ 15 - 1)"
| "ptr_max PInt32 = Some (2 ^ 31 - 1)"
| "ptr_max PInt64 = Some (2 ^ 63 - 1)"
| "ptr_max POther = None"

text \<open>A value that fits its type is stored unchanged.\<close>

definition readConvert :: "ptr_type \<Rightarrow> nat \<Rightarrow> nat outcome" where
  "readConvert ptr val =
     (case ptr_max ptr of
        None \<Rightarrow> Err (Errorf ''invalid pointer type %T to store %v'' [AInt (int val)])
      | Some m \<Rightarrow>
          if val > m then Err (Errorf ''pointer type %T too small to store %v'' [AInt (int val)])
          else Ok val)"

text \<open>Read \<open>n\<close> bytes and store the integer; \<open>0\<close> is the value of a variable nothing was stored in.\<close>

definition monad_read ::
  "(byte_order \<Rightarrow> (reader, nat) go) \<Rightarrow> ptr_type \<Rightarrow> MonadInput \<Rightarrow> (reader, nat \<times> MonadInput) go" where
  "monad_read rd ptr mi = (\<lambda>r.
     case mi of
       MonadInError e \<Rightarrow> (Ok (0, mi), r)
     | MonadReader ord \<Rightarrow>
         (case gbind (rd ord) (\<lambda>val. glift (readConvert ptr val)) r of
            (Ok val, r') \<Rightarrow> (Ok (val, mi), r')
          | (Err e, r') \<Rightarrow> (Ok (0, MonadInError e), r')
          | (Panic p, r') \<Rightarrow> (Panic p, r')))"

definition read_order :: "nat \<Rightarrow> byte_order \<Rightarrow> (reader, nat) go" where
  "read_order n ord = gbind (read_full n) (\<lambda>bs. gret (get_uint ord bs))"

definition ReadUint8 :: "ptr_type \<Rightarrow> MonadInput \<Rightarrow> (reader, nat \<times> MonadInput) go" where
  "ReadUint8 = monad_read (\<lambda>_. gbind read_u8 (\<lambda>b. gret (unat b)))"

definition ReadUint16 :: "ptr_type \<Rightarrow> MonadInput \<Rightarrow> (reader, nat \<times> MonadInput) go" where
  "ReadUint16 = monad_read (read_order 2)"

definition ReadUint32 :: "ptr_type \<Rightarrow> MonadInput \<Rightarrow> (reader, nat \<times> MonadInput) go" where
  "ReadUint32 = monad_read (read_order 4)"

definition ReadUint64 :: "ptr_type \<Rightarrow> MonadInput \<Rightarrow> (reader, nat \<times> MonadInput) go" where
  "ReadUint64 = monad_read (read_order 8)"

text \<open>
  \<^verbatim>\<open>ReadBytes\<close> reads into the slice \<open>old\<close> the pointer holds, or into a new one when that is shorter than \<open>n\<close>:
  a longer slice is filled completely. On an error the slice holds what could be read.
\<close>

definition ReadBytes :: "byte list \<Rightarrow> nat \<Rightarrow> MonadInput \<Rightarrow> (reader, byte list \<times> MonadInput) go" where
  "ReadBytes old n mi = (\<lambda>r.
     case mi of
       MonadInError e \<Rightarrow> (Ok (old, mi), r)
     | MonadReader ord \<Rightarrow>
         (case read_full (max n (length old)) r of
            (Ok bs, r') \<Rightarrow> (Ok (bs, mi), r')
          | (Err e, r') \<Rightarrow>
              (Ok (r_input r @ drop (length (r_input r)) (if length old < n then replicate n 0 else old), MonadInError e), r')
          | (Panic p, r') \<Rightarrow> (Panic p, r')))"

definition ReadString :: "nat \<Rightarrow> MonadInput \<Rightarrow> (reader, string \<times> MonadInput) go" where
  "ReadString n mi = (\<lambda>r.
     case mi of
       MonadInError e \<Rightarrow> (Ok ([], mi), r)
     | MonadReader ord \<Rightarrow>
         (case read_full n r of
            (Ok bs, r') \<Rightarrow> (Ok (bytes_string bs, mi), r')
          | (Err e, r') \<Rightarrow> (Ok ([], MonadInError e), r')
          | (Panic p, r') \<Rightarrow> (Panic p, r')))"

definition readDispatch :: "ptr_type \<Rightarrow> MonadInput \<Rightarrow> (reader, nat \<times> MonadInput) go" where
  "readDispatch ptr mi =
     (case mi of
        MonadInError e \<Rightarrow> gret (0, mi)
      | MonadReader _ \<Rightarrow>
          (case ptr of
             PUint8 \<Rightarrow> ReadUint8 ptr mi
           | PUint16 \<Rightarrow> ReadUint16 ptr mi
           | PUint32 \<Rightarrow> ReadUint32 ptr mi
           | PUint64 \<Rightarrow> ReadUint64 ptr mi
           | _ \<Rightarrow> gpanic ''invalid type''))"

fun in_Error :: "MonadInput \<Rightarrow> unit outcome" where
  "in_Error (MonadReader _) = Ok ()"
| "in_Error (MonadInError e) = Err e"

fun in_Trust :: "MonadInput \<Rightarrow> unit outcome" where
  "in_Trust (MonadReader _) = Ok ()"
| "in_Trust (MonadInError e) = Panic ''error''"

section \<open>Chains\<close>

text \<open>Writing the parts one after the other.\<close>

definition write_all :: "'w write_op \<Rightarrow> byte list list \<Rightarrow> ('w, unit) go" where
  "write_all wr bss = gfor bss wr"

lemma out_chain_error: "out_chain (map (monad_write wr) encs) (MonadOutError e) = gret (MonadOutError e)"
  by (induction encs) (simp_all add: monad_write_def gbind_def gret_def)

lemma monad_write_step:
  "gbind (monad_write wr enc (MonadWriter ord)) k w =
   (case wr (enc ord) w of
      (Ok _, w') \<Rightarrow> k (MonadWriter ord) w'
    | (Err e, w') \<Rightarrow> k (MonadOutError e) w'
    | (Panic p, w') \<Rightarrow> (Panic p, w'))"
  by (auto simp: monad_write_def gbind_def split: prod.splits outcome.splits)

lemma out_chain_writes:
  "gbind (out_chain (map (monad_write wr) encs) (MonadWriter ord)) (\<lambda>mo. glift (out_Error mo)) =
   write_all wr (map (\<lambda>enc. enc ord) encs)"
proof (induction encs)
  case Nil
  then show ?case by (rule ext) (simp add: write_all_def gbind_def glift_def gret_def)
next
  case (Cons enc encs)
  have "gbind (out_chain (map (monad_write wr) (enc # encs)) (MonadWriter ord)) (\<lambda>mo. glift (out_Error mo)) w =
      write_all wr (map (\<lambda>enc. enc ord) (enc # encs)) w" for w
    using fun_cong [OF Cons.IH]
    by (simp add: gbind_assoc monad_write_step out_chain_error write_all_def)
      (auto simp: out_chain_error gbind_def glift_def gret_def split: prod.splits outcome.splits)
  then show ?case ..
qed

lemma write_all_buffer: "write_all buffer_write bss w = (Ok (), w @ concat bss)"
  by (induction bss arbitrary: w) (simp_all add: write_all_def gret_run gbind_def buffer_write_def)

lemmas write_defs = WriteUint8_def WriteUint16_def WriteUint32_def WriteUint64_def WriteBytes_def WriteString_def

text \<open>Reading from a source that has the bytes.\<close>

lemma ReadUint8_run:
  "readConvert ptr (unat b) = Ok v \<Longrightarrow>
   ReadUint8 ptr (MonadReader ord) (r\<lparr>r_input := b # rest\<rparr>) = (Ok (v, MonadReader ord), r\<lparr>r_input := rest\<rparr>)"
  by (simp add: ReadUint8_def monad_read_def gbind_def read_u8_Cons gret_def glift_def)

lemma read_order_run:
  assumes "length bs = n" and "readConvert ptr (get_uint ord bs) = Ok v"
  shows "monad_read (read_order n) ptr (MonadReader ord) (r\<lparr>r_input := bs @ rest\<rparr>) =
    (Ok (v, MonadReader ord), r\<lparr>r_input := rest\<rparr>)"
  using assms by (simp add: monad_read_def read_order_def gbind_def read_full_append gret_def glift_def)

lemma ReadBytes_run:
  "length bs = n \<Longrightarrow>
   ReadBytes [] n (MonadReader ord) (r\<lparr>r_input := bs @ rest\<rparr>) = (Ok (bs, MonadReader ord), r\<lparr>r_input := rest\<rparr>)"
  by (simp add: ReadBytes_def read_full_append)

lemma ReadString_run:
  assumes "length s = n"
  shows "ReadString n (MonadReader ord) (r\<lparr>r_input := string_bytes s @ rest\<rparr>) =
    (Ok (s, MonadReader ord), r\<lparr>r_input := rest\<rparr>)"
  using assms by (simp add: ReadString_def read_full_append)

lemma monad_write_buffer:
  "monad_write buffer_write enc (MonadWriter ord) w = (Ok (MonadWriter ord), w @ enc ord)"
  by (simp add: monad_write_def buffer_write_def)

lemma readConvert_fits: "ptr_max ptr = Some m \<Longrightarrow> val \<le> m \<Longrightarrow> readConvert ptr val = Ok val"
  by (simp add: readConvert_def)

lemma get_put_fits: "n < 256 ^ k \<Longrightarrow> get_uint ord (put_uint ord k n) = n"
  by (simp add: get_put_uint)

text \<open>Once a read has failed, the rest of a chain only passes the error on.\<close>

lemma read_error [simp]:
  "monad_read rd ptr (MonadInError e) r = (Ok (0, MonadInError e), r)"
  "ReadBytes old n (MonadInError e) r = (Ok (old, MonadInError e), r)"
  "ReadString n (MonadInError e) r = (Ok ([], MonadInError e), r)"
  by (simp_all add: monad_read_def ReadBytes_def ReadString_def)

end
