(* ===== verification/Mock_Chain.thy ===== *)
theory Mock_Chain
  imports Core_Operations Core_Secondary Util_IO
begin

text \<open>
  The mock blockchain (\<^verbatim>\<open>src/blockchains/mock/mock.go\<close>): a builder that numbers accounts and contracts,
  a client that prints the interactions it would send and reports them after a delay. It is the
  instance of the builder interface the properties of the benchmark are applied to.
\<close>

section \<open>The builder\<close>

record BlockchainBuilder =
  mb_nextAccount :: int
  mb_nextContract :: int

definition mock_Builder :: BlockchainBuilder where
  "mock_Builder = \<lparr>mb_nextAccount = 0, mb_nextContract = 0\<rparr>"

definition mock_CreateAccount :: "int \<Rightarrow> (BlockchainBuilder, int) go" where
  "mock_CreateAccount stake =
     gbind (gread mb_nextAccount) (\<lambda>account.
     gbind (gmodify (\<lambda>b. b\<lparr>mb_nextAccount := wrap64 (account + 1)\<rparr>)) (\<lambda>_.
     gret account))"

definition mock_CreateContract :: "string \<Rightarrow> (BlockchainBuilder, int) go" where
  "mock_CreateContract name =
     gbind (gread mb_nextContract) (\<lambda>contract.
     gbind (gmodify (\<lambda>b. b\<lparr>mb_nextContract := wrap64 (contract + 1)\<rparr>)) (\<lambda>_.
     gret contract))"

definition mock_CreateResource :: "string \<Rightarrow> 'f option" where
  "mock_CreateResource domain = None"

text \<open>The conversion \<^verbatim>\<open>uint64(i)\<close> of an \<^verbatim>\<open>int\<close>, and the type assertion \<^verbatim>\<open>.(int)\<close>.\<close>

definition uint64 :: "int \<Rightarrow> 64 word" where
  "uint64 i = word_of_int i"

fun as_int :: "int bvalue \<Rightarrow> int outcome" where
  "as_int (GInt i) = Ok i"
| "as_int (GRes (ROpaque i)) = Ok i"
| "as_int _ = Panic ''interface conversion''"

definition mock_encode :: "64 word list \<Rightarrow> byte list outcome" where
  "mock_encode vals =
     (case gbind (out_chain (map (\<lambda>v. writeDispatch buffer_write (WUint64 v)) vals)
              (SetOrder_out LittleEndian (NewMonadOutputWriter 0x11))) (\<lambda>mo. glift (out_Trust mo)) [] of
        (r, buf) \<Rightarrow> obind r (\<lambda>_. Ok buf))"

definition mock_EncodeTransfer ::
  "int \<Rightarrow> int bvalue \<Rightarrow> int bvalue \<Rightarrow> interactionInformation \<Rightarrow> (BlockchainBuilder, byte list) go" where
  "mock_EncodeTransfer stake from to info =
     glift (obind (as_int from) (\<lambda>f. obind (as_int to) (\<lambda>t. mock_encode [uint64 stake, uint64 f, uint64 t])))"

definition mock_EncodeInvoke ::
  "int bvalue \<Rightarrow> int bvalue \<Rightarrow> string \<Rightarrow> interactionInformation \<Rightarrow> (BlockchainBuilder, byte list) go" where
  "mock_EncodeInvoke from contract function info =
     glift (obind (as_int from) (\<lambda>f. obind (as_int contract) (\<lambda>c. mock_encode [uint64 f, uint64 c])))"

definition mock_EncodeInteraction :: "string \<Rightarrow> bexpr \<Rightarrow> interactionInformation \<Rightarrow> ('w, byte list) go" where
  "mock_EncodeInteraction itype e info = gerr (Errorf (''unknown interaction type '%s'' @ apos) [AStr itype])"

text \<open>The mock builder in an environment that is otherwise \<open>env\<close>.\<close>

definition mock_env ::
  "('g, BlockchainBuilder, int, 'x) env \<Rightarrow> ('g, BlockchainBuilder, int, 'x) env" where
  "mock_env env = env\<lparr>env_CreateAccount := mock_CreateAccount, env_CreateContract := mock_CreateContract,
     env_CreateResource := mock_CreateResource, env_EncodeTransfer := mock_EncodeTransfer,
     env_EncodeInvoke := mock_EncodeInvoke, env_EncodeInteraction := mock_EncodeInteraction\<rparr>"

interpretation mock: blockchain_builder "mock_env env" for env
  by unfold_locales (auto simp: mock_env_def mock_CreateResource_def mock_EncodeInteraction_def keeps_gerr)

section \<open>The client\<close>

record mock_client =
  mc_delay :: f64
  mc_presign :: bool

text \<open>\<^verbatim>\<open>strconv.ParseBool\<close>.\<close>

definition ParseBool :: "string \<Rightarrow> bool option" where
  "ParseBool s =
     (if s \<in> {''1'', ''t'', ''T'', ''TRUE'', ''true'', ''True''} then Some True
      else if s \<in> {''0'', ''f'', ''F'', ''FALSE'', ''false'', ''False''} then Some False
      else None)"

definition mock_delay :: "(string \<Rightarrow> f64 option) \<Rightarrow> (string, string) gomap \<Rightarrow> f64 outcome" where
  "mock_delay ParseFloat params =
     (case gomap_get params ''delay'' of
        None \<Rightarrow> Ok f64_one
      | Some val \<Rightarrow>
          (case ParseFloat val of
             None \<Rightarrow> Err (Errorf (''invalid delay parameter: '%s'' @ apos) [AStr val])
           | Some delay \<Rightarrow>
               if f64_lt delay f64_zero then Err (Errorf ''invalid delay parameter: %f'' [])
               else Ok delay))"

definition mock_presign :: "(string, string) gomap \<Rightarrow> bool outcome" where
  "mock_presign params =
     (case gomap_get params ''pre-sign'' of
        None \<Rightarrow> Ok False
      | Some val \<Rightarrow>
          (case ParseBool val of
             None \<Rightarrow> Err (Errorf (''invalid pre-sign parameter: '%s'' @ apos) [AStr val])
           | Some presign \<Rightarrow> Ok presign))"

definition mock_Client ::
  "(string \<Rightarrow> f64 option) \<Rightarrow> (string, string) gomap \<Rightarrow> string list \<Rightarrow> string list \<Rightarrow> mock_client outcome" where
  "mock_Client ParseFloat params env view =
     obind (mock_delay ParseFloat params) (\<lambda>delay.
     obind (mock_presign params) (\<lambda>presign.
     Ok \<lparr>mc_delay = delay, mc_presign = presign\<rparr>))"

fun read_ints :: "nat \<Rightarrow> MonadInput \<Rightarrow> (reader, nat list) go" where
  "read_ints 0 mi = gbind (glift (in_Trust mi)) (\<lambda>_. gret [])"
| "read_ints (Suc n) mi =
     gbind (ReadUint64 PInt mi) (\<lambda>(v, mi).
     gbind (read_ints n mi) (\<lambda>vs. gret (v # vs)))"

definition mock_read :: "nat \<Rightarrow> byte list \<Rightarrow> nat list outcome" where
  "mock_read n encoded =
     fst (read_ints n (SetOrder_in LittleEndian (NewMonadInputReader 0x11)) \<lparr>r_input = encoded, r_err = EOF\<rparr>)"

definition invoke_text :: "nat \<Rightarrow> nat \<Rightarrow> string" where
  "invoke_text from contract = ''invoke('' @ decimal from @ '' -> '' @ decimal contract @ '')''"

definition transfer_text :: "nat \<Rightarrow> nat \<Rightarrow> nat \<Rightarrow> string" where
  "transfer_text stake from to =
     ''transfer('' @ decimal stake @ '' : '' @ decimal from @ '' -> '' @ decimal to @ '')''"

definition presign_text :: "mock_client \<Rightarrow> nat \<Rightarrow> string \<Rightarrow> string" where
  "presign_text client from tx =
     (if mc_presign client then ''signed('' @ decimal from @ '' : '' @ tx @ '')'' else tx)"

definition mock_DecodePayload :: "mock_client \<Rightarrow> byte list \<Rightarrow> string outcome" where
  "mock_DecodePayload client encoded =
     (if length encoded = 16 then
        obind (mock_read 2 encoded) (\<lambda>vs.
        Ok (presign_text client (vs ! 0) (invoke_text (vs ! 0) (vs ! 1))))
      else if length encoded = 24 then
        obind (mock_read 3 encoded) (\<lambda>vs.
        Ok (presign_text client (vs ! 1) (transfer_text (vs ! 0) (vs ! 1) (vs ! 2))))
      else Err (Errorf ''invalid interaction payload %v'' []))"

definition mock_chain :: "(string \<Rightarrow> f64 option) \<Rightarrow> (mock_client, string) chain" where
  "mock_chain ParseFloat = \<lparr>ch_Client = mock_Client ParseFloat, ch_DecodePayload = mock_DecodePayload\<rparr>"

text \<open>
  \<^verbatim>\<open>TriggerInteraction\<close> called at \<open>t\<close>. A sleep lasts at least as long as asked; \<open>late\<close> is by how much
  the time of each reading of the clock (the submission, the warning about its delay, the commit)
  exceeds what the sleeps before it ask for.
\<close>

definition mock_TriggerInteraction ::
  "mock_client \<Rightarrow> nat \<Rightarrow> gtime \<Rightarrow> int \<times> int \<times> int \<Rightarrow> ('cl, 'op) runtime \<Rightarrow> ('cl, 'op) runtime" where
  "mock_TriggerInteraction client i t late rt =
     (case late of (d, e, f) \<Rightarrow>
        let signed = (if mc_presign client then t else t + time_Second);
            submit = signed + d;
            now = submit + e;
            commit = now + max 0 (seconds_Duration (mc_delay client)) + f in
        trigger_end i None (ReportCommit i commit (ReportSubmit i submit now rt)))"

section \<open>Payloads\<close>

lemma mock_encode_bytes: "mock_encode vals = Ok (concat (map put_u64 vals))"
proof -
  have wr: "gbind (out_chain (map (\<lambda>v. writeDispatch buffer_write (WUint64 v)) vals) (MonadWriter LittleEndian)) k w =
      k (MonadWriter LittleEndian) (w @ concat (map put_u64 vals))" for k :: "MonadOutput \<Rightarrow> (byte list, 'z) go" and w
    by (induction vals arbitrary: w)
      (simp_all add: gret_run gbind_assoc writeDispatch_def WriteUint64_def monad_write_step buffer_write_def
        put_u64_def)
  show ?thesis by (simp add: mock_encode_def NewMonadOutputWriter_def wr glift_run obind_def)
qed

text \<open>An integer that is not negative survives the way to the wire and back; a negative one panics.\<close>

lemma unat_uint64: "int64 i \<Longrightarrow> unat (uint64 i) = nat (if 0 \<le> i then i else i + 2 ^ 64)"
proof -
  assume "int64 i"
  then have "i mod 2 ^ 64 = (if 0 \<le> i then i else i + 2 ^ 64)"
    using mod_add_self2 [of i "2 ^ 64"] mod_pos_pos_trivial [of "i + 2 ^ 64" "2 ^ 64"] by (auto simp: int64_def)
  then show ?thesis by (simp add: uint64_def unsigned_of_int take_bit_eq_mod)
qed

lemma ReadUint64_u64:
  assumes "int64 i"
  shows "ReadUint64 PInt (MonadReader LittleEndian) (r\<lparr>r_input := put_u64 (uint64 i) @ rest\<rparr>) =
    (Ok (if 0 \<le> i then (nat i, MonadReader LittleEndian)
         else (0, MonadInError (Errorf ''pointer type %T too small to store %v'' [AInt (i + 2 ^ 64)]))),
     r\<lparr>r_input := rest\<rparr>)"
proof -
  have "get_uint LittleEndian (put_u64 (uint64 i)) = nat (if 0 \<le> i then i else i + 2 ^ 64)"
    using unat_bound [of "uint64 i"] unat_uint64 [OF assms] by (simp add: put_u64_def get_put_uint)
  then show ?thesis
    using assms by (auto simp: ReadUint64_def monad_read_def read_order_def gbind_def read_full_append gret_def glift_def
        readConvert_def int64_def)
qed

lemma read_ints_error: "read_ints n (MonadInError e) r = (Panic ''error'', r)"
  by (induction n) (simp_all add: gbind_def glift_def ReadUint64_def)

lemma read_ints_u64:
  assumes "list_all int64 is"
  shows "fst (read_ints (length is) (MonadReader LittleEndian) (r\<lparr>r_input := concat (map (\<lambda>i. put_u64 (uint64 i)) is)\<rparr>)) =
    (if list_all (\<lambda>i. 0 \<le> i) is then Ok (map nat is) else Panic ''error'')"
  using assms
proof (induction "is")
  case (Cons i "is")
  let ?r = "\<lambda>is. r\<lparr>r_input := concat (map (\<lambda>i. put_u64 (uint64 i)) is)\<rparr>"
  have step: "read_ints (length (i # is)) (MonadReader LittleEndian) (?r (i # is)) =
      (if 0 \<le> i then gbind (read_ints (length is) (MonadReader LittleEndian)) (\<lambda>vs. gret (nat i # vs)) (?r is)
       else (Panic ''error'', ?r is))"
    using ReadUint64_u64 [of i _ r] Cons.prems by (simp add: gbind_Ok gbind_Panic read_ints_error)
  obtain q r' where rest: "read_ints (length is) (MonadReader LittleEndian) (?r is) = (q, r')" by force
  with Cons have "q = (if list_all (\<lambda>i. 0 \<le> i) is then Ok (map nat is) else Panic ''error'')" by simp
  with rest step show ?case by (simp add: gbind_Ok gbind_Panic gret_run)
qed (simp add: gbind_def gret_run glift_run)

lemma mock_read_payload:
  assumes "list_all int64 is" and "mock_encode (map uint64 is) = Ok payload"
  shows "mock_read (length is) payload = (if list_all (\<lambda>i. 0 \<le> i) is then Ok (map nat is) else Panic ''error'')"
    and "length payload = 8 * length is"
proof -
  have payload: "payload = concat (map (\<lambda>i. put_u64 (uint64 i)) is)"
    using assms(2) by (simp add: mock_encode_bytes comp_def)
  show "mock_read (length is) payload = (if list_all (\<lambda>i. 0 \<le> i) is then Ok (map nat is) else Panic ''error'')"
    using read_ints_u64 [OF assms(1), of "\<lparr>r_input = [], r_err = EOF\<rparr>"]
    by (simp add: mock_read_def NewMonadInputReader_def payload)
  show "length payload = 8 * length is" unfolding payload by (induction "is") simp_all
qed

section \<open>Properties\<close>

text \<open>
  A transfer the mock builder encodes is decoded by the mock client to the same stake and the same
  accounts, whatever they are; a negative stake is encoded without an error, but makes the client panic.
\<close>

theorem mock_transfer_roundtrip:
  assumes "int64 stake" and "int64 from" and "int64 to" and "0 \<le> from" and "0 \<le> to"
  shows "\<exists>payload. mock_EncodeTransfer stake (GRes (ROpaque from)) (GRes (ROpaque to)) info b = (Ok payload, b) \<and>
    mock_DecodePayload client payload =
      (if 0 \<le> stake then Ok (presign_text client (nat from) (transfer_text (nat stake) (nat from) (nat to)))
       else Panic ''error'')"
proof -
  let ?is = "[stake, from, to]"
  obtain payload where enc: "mock_encode (map uint64 ?is) = Ok payload" by (simp add: mock_encode_bytes)
  then have "mock_EncodeTransfer stake (GRes (ROpaque from)) (GRes (ROpaque to)) info b = (Ok payload, b)"
    by (simp add: mock_EncodeTransfer_def obind_def glift_run)
  moreover have "mock_DecodePayload client payload =
      (if 0 \<le> stake then Ok (presign_text client (nat from) (transfer_text (nat stake) (nat from) (nat to)))
       else Panic ''error'')"
    using mock_read_payload [OF _ enc] assms by (simp add: mock_DecodePayload_def obind_def numeral_3_eq_3)
  ultimately show ?thesis by blast
qed

definition demo_info :: interactionInformation where
  "demo_info = \<lparr>ii_globalIndex = 0, ii_clientIndex = 0, ii_localIndex = 0, ii_scheduleTime = f64_one\<rparr>"

theorem mock_transfer_roundtrip_witness:
  "\<exists>payload. mock_EncodeTransfer (-5) (GRes (ROpaque 3)) (GRes (ROpaque 4)) demo_info mock_Builder = (Ok payload, mock_Builder) \<and>
    mock_DecodePayload \<lparr>mc_delay = f64_one, mc_presign = True\<rparr> payload = Panic ''error''"
  using mock_transfer_roundtrip [of "-5" 3 4 demo_info mock_Builder "\<lparr>mc_delay = f64_one, mc_presign = True\<rparr>"]
  by (simp add: int64_def)

text \<open>
  The mock client is a client the secondary is verified for: a call of its \<^verbatim>\<open>TriggerInteraction\<close> for a
  released interaction nothing was reported of is a sequence of steps of the running secondary, at the end of which the interaction
  is submitted, committed and done without an error, the commit at least the configured delay after the
  submission.
\<close>

theorem mock_trigger_refines:
  assumes "i < m_released m" and "i < length (rt_interactions (m_rt m))" and "m_clock m \<le> t" and "rt_start (m_rt m) \<le> t"
    and "untouched (rt_interactions (m_rt m) ! i)" and "0 \<le> d" and "0 \<le> e" and "0 \<le> f"
  shows "\<exists>m'. rt_run m m' \<and> m_rt m' = mock_TriggerInteraction client i t (d, e, f) (m_rt m) \<and>
    (let iact = rt_interactions (m_rt m') ! i in
     ri_submitted iact \<and> ri_committed iact \<and> \<not> ri_aborted iact \<and> ri_done iact \<and> ri_err iact = None \<and>
     t \<le> ri_submitTime iact \<and> ri_submitTime iact + seconds_Duration (mc_delay client) \<le> ri_commitTime iact)"
proof -
  define sub where "sub = (if mc_presign client then t else t + time_Second) + d"
  define com where "com = sub + e + max 0 (seconds_Duration (mc_delay client)) + f"
  let ?rt = "ReportSubmit i sub (sub + e) (m_rt m)"
  let ?ma = "m\<lparr>m_rt := ?rt, m_clock := sub\<rparr>"
  let ?mb = "m\<lparr>m_rt := ReportCommit i com ?rt, m_clock := com\<rparr>"
  let ?mc = "m\<lparr>m_rt := trigger_end i None (ReportCommit i com ?rt), m_clock := com\<rparr>"
  note ia = assms(5) [unfolded untouched_def] assms(2)
  have times: "t \<le> sub" "sub + seconds_Duration (mc_delay client) \<le> com" "sub \<le> com"
    using assms(6-8) by (auto simp: sub_def com_def time_Second_def)
  have iact: "rt_interactions (m_rt ?mc) ! i = (rt_interactions (m_rt m) ! i)\<lparr>ri_submitTime := sub,
      ri_submitted := True, ri_commitTime := com, ri_committed := True, ri_err := None, ri_done := True\<rparr>"
    "\<not> ri_done (rt_interactions (m_rt ?mb) ! i)"
    using ia by (simp_all add: report_interactions submit_iact_def commit_iact_def)
  have "rt_step m (EvSubmit i sub (sub + e)) ?ma"
    using rt_step.submit [of i m sub sub "sub + e"] assms times by simp
  moreover have "rt_step ?ma (EvCommit i com) ?mb"
    using rt_step.commit [of i ?ma com] assms times by simp
  moreover have "rt_step ?mb (EvReturn i None com) ?mc"
    using rt_step.return [of i ?mb com None] assms iact by simp
  ultimately have "rt_run m ?mc" by (blast intro: rt_run.intros)
  moreover have "m_rt ?mc = mock_TriggerInteraction client i t (d, e, f) (m_rt m)"
    by (simp add: mock_TriggerInteraction_def Let_def sub_def com_def)
  ultimately show ?thesis using ia times iact(1) by (intro exI [of _ ?mc]) (simp add: Let_def)
qed

theorem mock_trigger_refines_witness:
  "\<exists>m'. rt_run ((machine_start (demo_runtime [] [demo_interaction]) 7)\<lparr>m_released := 1\<rparr>) m' \<and>
     ri_committed (rt_interactions (m_rt m') ! 0) \<and>
     ri_submitTime (rt_interactions (m_rt m') ! 0) + seconds_Duration f64_one \<le> ri_commitTime (rt_interactions (m_rt m') ! 0)"
  using mock_trigger_refines [of 0 "(machine_start (demo_runtime [] [demo_interaction]) 7)\<lparr>m_released := 1\<rparr>"
      7 1 2 3 "\<lparr>mc_delay = f64_one, mc_presign = False\<rparr>"]
  by (auto simp: machine_start_def Let_def)

end
