(* ===== verification/Mock_Benchmark.thy ===== *)
theory Mock_Benchmark
  imports Mock_Chain
begin

text \<open>
  A benchmark on the mock chain, run: one client that sends a transfer in the first second. It is the
  concrete input to which the properties of the benchmark generator are applied.
\<close>

section \<open>The benchmark file\<close>

definition dnode :: "string \<Rightarrow> string \<Rightarrow> yaml_node" where
  "dnode tag v = YamlNode ScalarNode (if tag = [] then [] else [TaggedStyle]) tag v [] [] 1 1"

definition dfield :: "path \<Rightarrow> string \<Rightarrow> bexpr \<Rightarrow> bexpr" where
  "dfield p name v = BField p (dnode [] name) (BScalar (0 # p) (dnode [] name)) v"

definition demo_transfer :: bexpr where
  "demo_transfer = BMapping [1, 0, 0, 1, 2, 1, 0, 0, 1, 0] (dnode ''!transfer'' []) [(''from'', 0), (''to'', 1)]
     [dfield [0, 1, 0, 0, 1, 2, 1, 0, 0, 1, 0] ''from'' (BAlias [1, 0, 1, 0, 0, 1, 2, 1, 0, 0, 1, 0] (dnode [] ''acc'')),
      dfield [1, 1, 0, 0, 1, 2, 1, 0, 0, 1, 0] ''to'' (BAlias [1, 1, 1, 0, 0, 1, 2, 1, 0, 0, 1, 0] (dnode [] ''acc''))]"

definition demo_load :: bexpr where
  "demo_load = BMapping [1, 1, 0, 1, 2, 1, 0, 0, 1, 0] (dnode [] []) [(''0'', 0), (''1'', 1)]
     [dfield [0, 1, 1, 0, 1, 2, 1, 0, 0, 1, 0] ''0'' (BScalar [1, 0, 1, 1, 0, 1, 2, 1, 0, 0, 1, 0] (dnode [] ''1'')),
      dfield [1, 1, 1, 0, 1, 2, 1, 0, 0, 1, 0] ''1'' (BScalar [1, 1, 1, 1, 0, 1, 2, 1, 0, 0, 1, 0] (dnode [] ''0''))]"

definition demo_client :: bexpr where
  "demo_client = BMapping [1, 0, 0, 1, 0] (dnode [] []) [(''view'', 0), (''location'', 1), (''behavior'', 2)]
     [dfield [0, 1, 0, 0, 1, 0] ''view'' (BAlias [1, 0, 1, 0, 0, 1, 0] (dnode [] ''end'')),
      dfield [1, 1, 0, 0, 1, 0] ''location'' (BAlias [1, 1, 1, 0, 0, 1, 0] (dnode [] ''loc'')),
      dfield [2, 1, 0, 0, 1, 0] ''behavior'' (BSequence [1, 2, 1, 0, 0, 1, 0] (dnode [] [])
        [BMapping [0, 1, 2, 1, 0, 0, 1, 0] (dnode [] []) [(''interaction'', 0), (''load'', 1)]
           [dfield [0, 0, 1, 2, 1, 0, 0, 1, 0] ''interaction'' demo_transfer,
            dfield [1, 0, 1, 2, 1, 0, 0, 1, 0] ''load'' demo_load]])]"

definition demo_benchmark :: bexpr where
  "demo_benchmark = BMapping [] (dnode [] []) [(''workloads'', 0)]
     [dfield [0] ''workloads'' (BSequence [1, 0] (dnode [] [])
        [BMapping [0, 1, 0] (dnode [] []) [(''client'', 0)] [dfield [0, 0, 1, 0] ''client'' demo_client]])]"

definition demo_env :: "(nat, BlockchainBuilder, int, unit) env" where
  "demo_env = mock_env \<lparr>env_path = ''b.yaml'', env_NewSource = nat, env_Int = (\<lambda>g. (g, g + 1)),
     env_Int63 = (\<lambda>g. (int g, g + 1)), env_Compile = (\<lambda>_. Ok ()), env_MatchString = (\<lambda>_ _. True),
     env_Decode = (\<lambda>n. Ok (YFloat (if yn_Value n = ''1'' then f64_one else f64_zero))),
     env_setup = \<lparr>ps_sysname = ''mock'', ps_parameters = [], ps_endpoints = [\<lparr>pe_address = ''n1'', pe_tags = []\<rparr>]\<rparr>,
     env_CreateAccount = undefined, env_CreateContract = undefined, env_CreateResource = undefined,
     env_EncodeTransfer = undefined, env_EncodeInvoke = undefined, env_EncodeInteraction = undefined\<rparr>"

definition demo_var :: "string \<Rightarrow> int resource \<Rightarrow> (nat, int) VariableImpl" where
  "demo_var domain r = \<lparr>vi_domain = domain, vi_sample = SElem [GRes r],
     vi_distrib = \<lparr>ud_rtype = TypeRegular, ud_rand = 0, ud_size = 1, ud_values = None\<rparr>\<rparr>"

definition demo_world_on :: "remoteSecondary \<Rightarrow> (nat, BlockchainBuilder, int) world" where
  "demo_world_on rs0 = \<lparr>w_seedGenerator = 1, w_builder = mock_Builder, w_slocal = [], w_top = Scope 0 None,
     w_entries = [[(''acc'', \<lparr>bse_variable = Some 0, bse_domain = ''account''\<rparr>),
       (''loc'', \<lparr>bse_variable = Some 1, bse_domain = ''location''\<rparr>),
       (''end'', \<lparr>bse_variable = Some 2, bse_domain = ''endpoint''\<rparr>)]],
     w_vars = [demo_var ''account'' (ROpaque 7), demo_var ''location'' (RLocation 0),
       demo_var ''endpoint'' (REndpoint \<lparr>pe_address = ''n1'', pe_tags = []\<rparr>)],
     w_secondaries = [rs0]\<rparr>"

abbreviation demo_world :: "(nat, BlockchainBuilder, int) world" where
  "demo_world \<equiv> demo_world_on (fresh_secondary [])"

text \<open>The kind of the client and of its interaction: the positions of their expressions.\<close>

definition demo_kind :: string where
  "demo_kind = FullPosition ''b.yaml'' demo_client"

lemmas demo_run = gbind_def gret_def gread_def gmodify_def glift_def gfinally_def gerr_def gzoom_def obind_def Let_def
  TryField_def Field_def expr_Value_def expr_Key_def expr_target_def etype_def dfield_def dnode_def

lemma demo_env_simps [simp]:
  "env_path demo_env = ''b.yaml''" "env_NewSource demo_env = nat" "env_Int demo_env g = (g, g + 1)" "env_Int63 demo_env g = (int g, g + 1)"
  "env_Decode demo_env n = Ok (YFloat (if yn_Value n = ''1'' then f64_one else f64_zero))"
  "env_EncodeTransfer demo_env = mock_EncodeTransfer"
  by (simp_all add: demo_env_def mock_env_def)

lemma demo_Get: "k < 3 \<Longrightarrow> w_vars w ! k = demo_var d r \<Longrightarrow> k < length (w_vars w) \<Longrightarrow>
   Variable_Get demo_env (Some k) w = (Ok (Some (GRes r)), w\<lparr>w_vars := (w_vars w)[k := (demo_var d r)\<lparr>vi_distrib := (vi_distrib (demo_var d r))\<lparr>ud_rand := 1\<rparr>\<rparr>]\<rparr>)"
  by (simp add: Variable_Get_def get_var_def demo_run demo_var_def Select_def elementSample_Get_def)

lemma current_top: "w_slocal w = [] \<Longrightarrow> current w e = w_top w"
proof -
  assume "w_slocal w = []"
  then have "current_at w p = w_top w" for p by (induction p) (simp_all add: current_at.simps)
  then show ?thesis by (simp add: current_def)
qed


lemma demo_view: "\<exists>v. parseView demo_env demo_client (demo_world_on rs0) = (Ok [''n1''], (demo_world_on rs0)\<lparr>w_seedGenerator := 2, w_vars := w_vars (demo_world_on rs0) @ [v]\<rparr>)"
  by (simp add: parseView_def demo_client_def view_source_def expr_Resource_def alias_get_def demo_run current_top
   demo_world_on_def system_seed_def copyVariable_def get_var_def demo_var_def Copy_def newVariable_def view_fuel_def
   eval_nat_numeral Variable_Get_def Select_def elementSample_Get_def)

definition demo_gens where
  "demo_gens = \<lparr>clg_target = (0, 0), clg_loads = [\<lparr>tl_load = [(f64_zero, f64_one), (f64_one, f64_zero)], tl_sender = (0, 0),
     tl_factory = TransferFactory, tl_source = demo_transfer, tl_current = Scope 0 None\<rparr>]\<rparr>"

lemma demo_loads: "w_slocal w = [] \<Longrightarrow> w_top w = Scope 0 None \<Longrightarrow>
   gmap (\<lambda>field. parseLoad demo_env field (0, 0)) (Slice ''b.yaml'' (Field ''b.yaml'' demo_client ''behavior'')) w = (Ok (clg_loads demo_gens), w)"
  apply (simp add: demo_client_def Slice_def TrySlice_def demo_run parseLoad_def parseTimeload_def demo_load_def expr_Map_def TryMap_def expr_GetFloat_def scalar_GetFloat_def quoted_def
    current_top demo_gens_def system_interactionFactory_def demo_transfer_def f64_lt_def f64_key_def f64_eq_def)
  done

lemma demo_parseClient:
  assumes "createClient demo_kind [''n1''] rs0 = (Ok 0, rs)"
  shows "\<exists>v l. parseClient demo_env demo_client (demo_world_on rs0) = (Ok demo_gens,
    (demo_world_on rs0)\<lparr>w_seedGenerator := 2, w_vars := (w_vars (demo_world_on rs0))[1 := l] @ [v], w_secondaries := [rs]\<rparr>)"
proof -
  obtain v where v: "parseView demo_env demo_client (demo_world_on rs0) = (Ok [''n1''], (demo_world_on rs0)\<lparr>w_seedGenerator := 2, w_vars := w_vars (demo_world_on rs0) @ [v]\<rparr>)"
    using demo_view by blast
  let ?w = "(demo_world_on rs0)\<lparr>w_seedGenerator := 2, w_vars := w_vars (demo_world_on rs0) @ [v]\<rparr>"
  have loc: "\<exists>l. expr_GetResource demo_env (env_Field demo_env demo_client ''location'') ''location'' ?w =
     (Ok (GRes (RLocation 0)), ?w\<lparr>w_vars := (w_vars (demo_world_on rs0))[1 := l] @ [v]\<rparr>)"
    by (simp add: demo_client_def expr_GetResource_def expr_Resource_def alias_get_def demo_run current_top demo_Get demo_world_on_def)
  then obtain l where l: "expr_GetResource demo_env (env_Field demo_env demo_client ''location'') ''location'' ?w =
     (Ok (GRes (RLocation 0)), ?w\<lparr>w_vars := (w_vars (demo_world_on rs0))[1 := l] @ [v]\<rparr>)" ..
  have nolet: "parseClient demo_env demo_client = client_body demo_env demo_client"
    by (simp add: parseClient_def demo_client_def TryField_def)
  let ?wc = "?w\<lparr>w_vars := (w_vars (demo_world_on rs0))[1 := l] @ [v], w_secondaries := [rs]\<rparr>"
  have "on_secondary 0 (createClient demo_kind [''n1'']) (?w\<lparr>w_vars := (w_vars (demo_world_on rs0))[1 := l] @ [v]\<rparr>) = (Ok 0, ?wc)"
    using assms by (simp add: on_secondary_def demo_world_on_def)
  moreover have "gmap (\<lambda>field. parseLoad demo_env field (0, 0)) (Slice ''b.yaml'' (Field ''b.yaml'' demo_client ''behavior'')) ?wc = (Ok (clg_loads demo_gens), ?wc)"
    by (rule demo_loads) (simp_all add: demo_world_on_def)
  ultimately have "client_body demo_env demo_client (demo_world_on rs0) = (Ok demo_gens, ?wc)"
    unfolding client_body_def using v l by (simp add: gbind_Ok demo_kind_def gret_run demo_gens_def)
  then show ?thesis unfolding nolet by auto
qed

definition demo_parsed where
  "demo_parsed = \<lparr>bm_workloads = [\<lparr>wg_clientLoads = [demo_gens]\<rparr>]\<rparr>"

lemma demo_parse:
  assumes "createClient demo_kind [''n1''] rs0 = (Ok 0, rs)"
  shows "\<exists>v l. benchmark_parse demo_env demo_benchmark (demo_world_on rs0) = (Ok demo_parsed,
    (demo_world_on rs0)\<lparr>w_seedGenerator := 2, w_vars := (w_vars (demo_world_on rs0))[1 := l] @ [v], w_secondaries := [rs]\<rparr>)"
proof -
  have "benchmark_parse demo_env demo_benchmark (demo_world_on rs0) = (Ok demo_parsed, w)"
    if "parseClient demo_env demo_client (demo_world_on rs0) = (Ok demo_gens, w)" for w
    using that by (simp add: benchmark_parse_def let_scope_def demo_benchmark_def Slice_def TrySlice_def
        number_field_def make_slice_def demo_run parseWorkload_def demo_parsed_def)
  then show ?thesis using demo_parseClient [OF assms] by blast
qed


section \<open>The schedule\<close>

definition demo_send :: biact where
  "demo_send = \<lparr>bi_scheduleTime = f64_one, bi_sendingClient = (0, 0), bi_factory = TransferFactory,
     bi_source = demo_transfer, bi_current = Scope 0 None\<rparr>"

lemma demo_phase:
  "\<exists>d. flatten_phase f64_one f64_one f64_zero f64_zero [] = Some (d, [f64_one])"
proof -
  have "sval (f64_mag f64_one) = f64_unit" using f64_one_simps(4) f64_int_nonneg_mag [of f64_one] by simp
  then have "round_mag f64_unit 1 = f64_mag f64_one"
    using round_mag_exact [of 1 "f64_mag f64_one"] by (simp add: inf_mag_def)
  moreover have nz: "(f64_unit = 0) = False" by (simp add: f64_unit_def)
  ultimately have add: "f64_add f64_zero f64_one = f64_one"
    using f64_of_mag_self [of f64_one] by (simp add: nz f64_add_def Let_def)
  have "f64_key f64_one < f64_key (f64_add f64_one f64_one)"
    by (rule f64_add_progress [of _ _ f64_one]) (simp_all add: gap_eq f64_unit_def)
  then have "\<not> f64_le (f64_add f64_one f64_one) f64_one" by (simp add: f64_le_def)
  then show ?thesis by (simp add: flatten_phase.simps [of _ _ f64_zero] flatten_phase.simps [of _ _ f64_one] add Let_def)
qed

lemma demo_generate: "benchmark_generate id demo_parsed = Some (Ok [demo_send])"
proof -
  obtain d where "flatten_phase f64_one f64_one f64_zero f64_zero [] = Some (d, [f64_one])" using demo_phase by blast
  then have flat: "flatten (tl_load g) g = Some [demo_send]" if "g = hd (clg_loads demo_gens)" for g
    using that by (simp add: flatten_def demo_gens_def demo_send_def Float64s_def f64_one_div_one f64_key_def f64_eq_def)
  have "fuseGenerators [[demo_send]] = Ok [demo_send]"
    by (subst fuseGenerators_sorts) (simp_all add: in_order_def demo_send_def)
  then show ?thesis
    using flat
    by (simp add: benchmark_generate_def demo_parsed_def workloadGenerator_generate_def
        clientLoadGenerator_generate_def fuse_all_def timeloadGenerator_generate_def demo_gens_def obind_def)
qed

section \<open>The run\<close>

definition demo_payload :: "byte list" where
  "demo_payload = concat (map put_u64 [uint64 1, uint64 7, uint64 7])"

lemma demo_payload_length: "length demo_payload = 24"
  by (simp add: demo_payload_def)

lemma demo_Instance:
  assumes "w = (demo_world_on rs0)\<lparr>w_seedGenerator := 2, w_vars := (w_vars (demo_world_on rs0))[1 := l] @ [v], w_secondaries := [rs]\<rparr>"
  obtains w' where "interactionFactory_Instance demo_env TransferFactory demo_transfer demo_info
      (specialize demo_transfer (Some (Scope 0 None)) w) = (Ok demo_payload, w')" and "w_secondaries w' = [rs]"
proof -
  have "\<exists>w'. interactionFactory_Instance demo_env TransferFactory demo_transfer demo_info
      (specialize demo_transfer (Some (Scope 0 None)) w) = (Ok demo_payload, w') \<and> w_secondaries w' = [rs]"
    by (simp add: assms demo_payload_def transferInteractionFactory_Instance_def demo_transfer_def demo_run expr_GetResource_def
        expr_Resource_def alias_get_def current_def current_at.simps demo_world_on_def specialize_def gomap_set_def
        Variable_Get_def get_var_def demo_var_def Select_def elementSample_Get_def on_builder_def
        mock_EncodeTransfer_def mock_encode_bytes)
  then show thesis using that by blast
qed

text \<open>The operations on the secondary that the run amounts to.\<close>

definition demo_ops :: "prep_op list" where
  "demo_ops = [OpClient demo_kind [''n1''],
     OpInteraction 0 (FullPosition ''b.yaml'' demo_transfer) f64_one demo_payload]"

lemma demo_ops_ok: "ops_ok [] demo_ops"
  by (simp add: demo_ops_def short_def add_kind_def kind_number_def demo_payload_length)

lemma demo_benchmark_run:
  assumes "remote_inv rs0" and "conn_good (rs_conn rs0)" and "rs_clients rs0 = []"
  shows "\<exists>w w' rs'. benchmark_parse demo_env demo_benchmark (demo_world_on rs0) = (Ok demo_parsed, w) \<and>
     benchmark_run demo_env id demo_benchmark (demo_world_on rs0) = Some (Ok (), w') \<and>
     w_secondaries w' = [rs'] \<and> gfor demo_ops exec_op rs0 = (Ok (), rs') \<and>
     map rc_maxTime (rs_clients rs') = [rc_maxTime (note_time f64_one (newRemoteClient 0 demo_kind))]"
proof -
  obtain rs where rs: "createClient demo_kind [''n1''] rs0 = (Ok 0, rs)" "remote_inv rs"
    "rs_clients rs = [newRemoteClient 0 demo_kind]" "conn_good (rs_conn rs)"
    using createClient_spec [OF assms(1,2), of demo_kind "[''n1'']"] assms(3)
    by (auto simp: short_def sent_from_def kinds_of_def)
  obtain v l w where w: "w = (demo_world_on rs0)\<lparr>w_seedGenerator := 2, w_vars := (w_vars (demo_world_on rs0))[1 := l] @ [v], w_secondaries := [rs]\<rparr>"
    "benchmark_parse demo_env demo_benchmark (demo_world_on rs0) = (Ok demo_parsed, w)"
    using demo_parse [OF rs(1)] by blast
  obtain w' where inst: "interactionFactory_Instance demo_env TransferFactory demo_transfer demo_info
      (specialize demo_transfer (Some (Scope 0 None)) w) = (Ok demo_payload, w')" "w_secondaries w' = [rs]"
    using demo_Instance [OF w(1)] by blast
  let ?kind = "FullPosition ''b.yaml'' demo_transfer"
  have "op_ok (kinds_of rs) (OpInteraction 0 ?kind f64_one demo_payload)"
    using rs(3) by (simp add: kinds_of_def newRemoteClient_def add_kind_def kind_number_def demo_payload_length)
  from sendInteraction_spec [OF rs(2,4) this] obtain rs' rc where
    send: "sendInteraction 0 ?kind f64_one demo_payload rs = (Ok (), rs')"
      "rs_clients rs' = (rs_clients rs)[0 := rc]" "rc_maxTime rc = rc_maxTime (note_time f64_one (rs_clients rs ! 0))" .
  have "instantiate_one demo_env 0 demo_send w = (Ok (), (specialize demo_transfer None w')\<lparr>w_secondaries := [rs']\<rparr>)"
    using inst send by (simp add: instantiate_one_def demo_send_def demo_info_def gbind_def gmodify_def gfinally_def on_secondary_def)
  then have "benchmark_run demo_env id demo_benchmark (demo_world_on rs0) =
      Some (Ok (), (specialize demo_transfer None w')\<lparr>w_secondaries := [rs']\<rparr>)"
    by (simp add: benchmark_run_def w(2) demo_generate benchmark_instantiate_def gbind_def glift_def gret_def)
  moreover have "gfor demo_ops exec_op rs0 = (Ok (), rs')"
    using rs(1) send(1) by (simp add: demo_ops_def gbind_def gret_def)
  ultimately show ?thesis using send(2,3) rs(3) w(2) by auto
qed

end
