(* ===== verification/Core_Protocol.thy ===== *)
theory Core_Protocol
  imports Core_Primary Core_Secondary
begin

text \<open>
  Both ends together: what the primary sends is what the secondary prepares, and what the
  secondary measures is what the primary puts into the result.
\<close>

section \<open>From the primary's operations to the secondary's runtime\<close>

text \<open>Clients are announced in the order of their numbers, and before they are used.\<close>

fun well_numbered :: "nat \<Rightarrow> msgPrepare list \<Rightarrow> bool" where
  "well_numbered n [] \<longleftrightarrow> True"
| "well_numbered n (MsgPrepareDone # ms) \<longleftrightarrow> False"
| "well_numbered n (MsgPrepareClient m # ms) \<longleftrightarrow> mpc_index m = int n \<and> well_numbered (Suc n) ms"
| "well_numbered n (MsgPrepareInteraction m # ms) \<longleftrightarrow>
     0 \<le> mpi_index m \<and> mpi_index m < int n \<and> well_numbered n ms"

fun client_views :: "msgPrepare list \<Rightarrow> string list list" where
  "client_views [] = []"
| "client_views (MsgPrepareClient m # ms) = mpc_view m # client_views ms"
| "client_views (_ # ms) = client_views ms"

fun announced :: "msgPrepare list \<Rightarrow> msgPrepareInteraction list" where
  "announced [] = []"
| "announced (MsgPrepareInteraction m # ms) = m # announced ms"
| "announced (_ # ms) = announced ms"

text \<open>The clients of a runtime after clients with the given views were created.\<close>

definition clients_are :: "(string list \<Rightarrow> 'cl) \<Rightarrow> string list list \<Rightarrow> ('cl, 'op) runtime \<Rightarrow> bool" where
  "clients_are mk views rt \<longleftrightarrow>
     (\<forall>k. gomap_get (rt_clients rt) k =
        (if 0 \<le> k \<and> k < int (length views) then Some (newRuntimeClient k (mk (views ! nat k))) else None))"

text \<open>The interaction a message stands for.\<close>

definition runtime_interaction ::
  "(string list \<Rightarrow> 'cl) \<Rightarrow> ('cl \<Rightarrow> byte list \<Rightarrow> 'op) \<Rightarrow> string list list \<Rightarrow> msgPrepareInteraction
     \<Rightarrow> ('cl, 'op) runtimeInteraction" where
  "runtime_interaction mk dcd views m =
     newRuntimeInteraction (mpi_time m) (newRuntimeClient (mpi_index m) (mk (views ! nat (mpi_index m))))
       (mpi_ikind m) (dcd (mk (views ! nat (mpi_index m))) (mpi_payload m))"

text \<open>
  The client that the chain of a runtime creates for a view and what such a client decodes, where
  they succeed; and that they do succeed for the given views and announced interactions.
\<close>

definition is_Ok :: "'a outcome \<Rightarrow> bool" where
  "is_Ok r = (case r of Ok _ \<Rightarrow> True | _ \<Rightarrow> False)"

definition the_ok :: "'a outcome \<Rightarrow> 'a" where
  "the_ok r = (case r of Ok a \<Rightarrow> a | _ \<Rightarrow> undefined)"

definition rt_client :: "('cl, 'op) runtime \<Rightarrow> string list \<Rightarrow> 'cl" where
  "rt_client rt view = the_ok (ch_Client (rt_chain rt) (mpp_chainParams (rt_params rt)) (rt_chainEnv rt) view)"

definition rt_decode :: "('cl, 'op) runtime \<Rightarrow> 'cl \<Rightarrow> byte list \<Rightarrow> 'op" where
  "rt_decode rt cl payload = the_ok (ch_DecodePayload (rt_chain rt) cl payload)"

definition rt_accepts ::
  "('cl, 'op) runtime \<Rightarrow> string list list \<Rightarrow> msgPrepareInteraction list \<Rightarrow> bool" where
  "rt_accepts rt views ms \<longleftrightarrow>
     (\<forall>view \<in> set views. is_Ok (ch_Client (rt_chain rt) (mpp_chainParams (rt_params rt)) (rt_chainEnv rt) view)) \<and>
     (\<forall>m \<in> set ms. is_Ok (ch_DecodePayload (rt_chain rt) (rt_client rt (views ! nat (mpi_index m))) (mpi_payload m)))"

lemma is_OkE: "is_Ok r \<Longrightarrow> (\<And>a. r = Ok a \<Longrightarrow> thesis) \<Longrightarrow> thesis"
  by (cases r) (simp_all add: is_Ok_def)

lemma is_Ok_the: "is_Ok r \<Longrightarrow> r = Ok (the_ok r)"
  by (cases r) (simp_all add: is_Ok_def the_ok_def)

lemma ok_simps [simp]: "is_Ok (Ok a)" "\<not> is_Ok (Err e)" "\<not> is_Ok (Panic p)" "the_ok (Ok a) = a"
  by (simp_all add: is_Ok_def the_ok_def)

text \<open>The clients of a runtime and its interactions do not matter for this.\<close>

lemma rt_chain_frame:
  assumes "rt_chain rt' = rt_chain rt" and "rt_params rt' = rt_params rt" and "rt_chainEnv rt' = rt_chainEnv rt"
  shows "rt_client rt' = rt_client rt" and "rt_decode rt' = rt_decode rt" and "rt_accepts rt' = rt_accepts rt"
  using assms by (simp_all add: rt_client_def [abs_def] rt_decode_def [abs_def] rt_accepts_def [abs_def])

lemma prepareClient_works:
  assumes "is_Ok (ch_Client (rt_chain rt) (mpp_chainParams (rt_params rt)) (rt_chainEnv rt) (mpc_view m))"
    and "clients_are (rt_client rt) views rt" and "mpc_index m = int (length views)"
  obtains cs where "prepareClient m rt = (Ok (), rt\<lparr>rt_clients := cs\<rparr>)"
    and "clients_are (rt_client rt) (views @ [mpc_view m]) (rt\<lparr>rt_clients := cs\<rparr>)"
proof -
  let ?cs = "gomap_set (mpc_index m) (newRuntimeClient (mpc_index m) (rt_client rt (mpc_view m))) (rt_clients rt)"
  have "prepareClient m rt = (Ok (), rt\<lparr>rt_clients := ?cs\<rparr>)"
    using assms(1) by (elim is_OkE) (simp add: prepareClient_def rt_client_def)
  moreover have "clients_are (rt_client rt) (views @ [mpc_view m]) (rt\<lparr>rt_clients := ?cs\<rparr>)"
    using assms(2,3) by (auto simp: clients_are_def nth_append)
  ultimately show thesis by (rule that)
qed

lemma prepareInteraction_run:
  assumes "clients_are (rt_client rt) views rt" and "0 \<le> mpi_index m" and "mpi_index m < int (length views)"
  shows "\<exists>d. prepareInteraction m rt = (Ok d, rt) \<and>
    (if is_Ok (ch_DecodePayload (rt_chain rt) (rt_client rt (views ! nat (mpi_index m))) (mpi_payload m))
     then d = Ok (runtime_interaction (rt_client rt) (rt_decode rt) views m) else \<not> is_Ok d)"
  using assms
  by (cases "ch_DecodePayload (rt_chain rt) (rt_client rt (views ! nat (mpi_index m))) (mpi_payload m)")
    (auto simp: prepareInteraction_def clients_are_def decodeInteraction_def obind_def rt_decode_def
      runtime_interaction_def newRuntimeClient_def)

text \<open>
  The specification level: messages that are well numbered create their clients and one
  interaction per announcement.
\<close>

lemma runtime_interaction_append:
  "0 \<le> mpi_index m \<Longrightarrow> mpi_index m < int (length views) \<Longrightarrow>
   runtime_interaction mk dcd (views @ views2) m = runtime_interaction mk dcd views m"
  by (simp add: runtime_interaction_def nth_append)

lemma rt_accepts_append:
  "rt_accepts rt (views @ v # vs) ms \<Longrightarrow>
   is_Ok (ch_Client (rt_chain rt) (mpp_chainParams (rt_params rt)) (rt_chainEnv rt) v)"
  "0 \<le> mpi_index m \<Longrightarrow> mpi_index m < int (length views) \<Longrightarrow> rt_accepts rt (views @ vs) (m # ms) \<longleftrightarrow>
   is_Ok (ch_DecodePayload (rt_chain rt) (rt_client rt (views ! nat (mpi_index m))) (mpi_payload m)) \<and>
   rt_accepts rt (views @ vs) ms"
  by (auto simp: rt_accepts_def nth_append)

lemma handle_msgs_works:
  assumes "well_numbered (length views) msgs" and "rt_accepts rt (views @ client_views msgs) (announced msgs)"
    and "clients_are (rt_client rt) views rt"
  shows "\<exists>cs. handle_msgs msgs pending rt = (Ok (pending @ map (\<lambda>m. Ok (runtime_interaction (rt_client rt) (rt_decode rt)
        (views @ client_views msgs) m)) (announced msgs)), rt\<lparr>rt_clients := cs\<rparr>) \<and>
    clients_are (rt_client rt) (views @ client_views msgs) (rt\<lparr>rt_clients := cs\<rparr>)"
  using assms
proof (induction msgs arbitrary: views rt pending)
  case Nil
  then show ?case by (auto intro!: exI [of _ "rt_clients rt"])
next
  case (Cons msg ms)
  show ?case
  proof (cases msg)
    case MsgPrepareDone
    with Cons.prems(1) show ?thesis by simp
  next
    case (MsgPrepareClient m)
    have ok: "is_Ok (ch_Client (rt_chain rt) (mpp_chainParams (rt_params rt)) (rt_chainEnv rt) (mpc_view m))"
      using Cons.prems(2) MsgPrepareClient by (intro rt_accepts_append(1)) simp
    obtain cs where cs: "prepareClient m rt = (Ok (), rt\<lparr>rt_clients := cs\<rparr>)"
      "clients_are (rt_client rt) (views @ [mpc_view m]) (rt\<lparr>rt_clients := cs\<rparr>)"
      using prepareClient_works [OF ok Cons.prems(3)] Cons.prems(1) MsgPrepareClient by auto
    have same: "rt_client (rt\<lparr>rt_clients := cs\<rparr>) = rt_client rt" "rt_decode (rt\<lparr>rt_clients := cs\<rparr>) = rt_decode rt"
      "rt_accepts (rt\<lparr>rt_clients := cs\<rparr>) = rt_accepts rt"
      by (rule rt_chain_frame; simp)+
    from Cons.IH [of "views @ [mpc_view m]" "rt\<lparr>rt_clients := cs\<rparr>" pending] Cons.prems(1,2) MsgPrepareClient cs
    show ?thesis by (simp add: same gbind_def)
  next
    case (MsgPrepareInteraction m)
    then have m: "0 \<le> mpi_index m" "mpi_index m < int (length views)" using Cons.prems(1) by simp_all
    have "is_Ok (ch_DecodePayload (rt_chain rt) (rt_client rt (views ! nat (mpi_index m))) (mpi_payload m))"
      and acc: "rt_accepts rt (views @ client_views ms) (announced ms)"
      using Cons.prems(2) MsgPrepareInteraction by (simp_all add: rt_accepts_append(2) [OF m])
    with prepareInteraction_run [OF Cons.prems(3) m]
    have "prepareInteraction m rt = (Ok (Ok (runtime_interaction (rt_client rt) (rt_decode rt) views m)), rt)" by auto
    with Cons.IH [OF _ acc Cons.prems(3), of "pending @ [Ok (runtime_interaction (rt_client rt) (rt_decode rt) views m)]"]
    show ?thesis using Cons.prems(1) m MsgPrepareInteraction by (auto simp: gbind_def runtime_interaction_append)
  qed
qed

text \<open>Conversely messages that were handled, all payloads decoded, were accepted by the chain.\<close>

lemma handle_msgs_pending: "handle_msgs msgs pending rt = (Ok pending', rt') \<Longrightarrow> prefix pending pending'"
  by (induction msgs pending rt rule: handle_msgs.induct) (auto elim!: gbind_OkE dest: append_prefixD)

lemma handle_msgs_accepts:
  assumes "well_numbered (length views) msgs" and "rt_accepts rt views []" and "clients_are (rt_client rt) views rt"
    and "handle_msgs msgs pending rt = (Ok (map Ok iacts), rt')"
  shows "rt_accepts rt (views @ client_views msgs) (announced msgs)"
  using assms
proof (induction msgs arbitrary: views rt pending)
  case (Cons msg ms)
  show ?case
  proof (cases msg)
    case MsgPrepareDone
    with Cons.prems(1) show ?thesis by simp
  next
    case (MsgPrepareClient m)
    have ok: "is_Ok (ch_Client (rt_chain rt) (mpp_chainParams (rt_params rt)) (rt_chainEnv rt) (mpc_view m))"
      using Cons.prems(4) MsgPrepareClient by (auto simp: prepareClient_def gbind_def split: outcome.splits)
    obtain cs where cs: "prepareClient m rt = (Ok (), rt\<lparr>rt_clients := cs\<rparr>)"
      "clients_are (rt_client rt) (views @ [mpc_view m]) (rt\<lparr>rt_clients := cs\<rparr>)"
      using prepareClient_works [OF ok Cons.prems(3)] Cons.prems(1) MsgPrepareClient by auto
    have same: "rt_client (rt\<lparr>rt_clients := cs\<rparr>) = rt_client rt" "rt_accepts (rt\<lparr>rt_clients := cs\<rparr>) = rt_accepts rt"
      by (rule rt_chain_frame; simp)+
    have "rt_accepts rt (views @ [mpc_view m]) []" using ok Cons.prems(2) by (simp add: rt_accepts_def)
    with Cons.IH [of "views @ [mpc_view m]" "rt\<lparr>rt_clients := cs\<rparr>" pending] Cons.prems(1,4) MsgPrepareClient cs
    show ?thesis by (simp add: same gbind_def)
  next
    case (MsgPrepareInteraction m)
    then have m: "0 \<le> mpi_index m" "mpi_index m < int (length views)" using Cons.prems(1) by simp_all
    obtain d where d: "prepareInteraction m rt = (Ok d, rt)"
      "\<not> is_Ok (ch_DecodePayload (rt_chain rt) (rt_client rt (views ! nat (mpi_index m))) (mpi_payload m)) \<Longrightarrow> \<not> is_Ok d"
      using prepareInteraction_run [OF Cons.prems(3) m] by metis
    have run: "handle_msgs ms (pending @ [d]) rt = (Ok (map Ok iacts), rt')"
      using Cons.prems(4) MsgPrepareInteraction d(1) by (simp add: gbind_def)
    then obtain zs where "map Ok iacts = (pending @ [d]) @ zs" using handle_msgs_pending [OF run] by (auto simp: prefix_def)
    then have "d \<in> set (map Ok iacts)" by (simp only: set_append) simp
    then have "is_Ok d" by auto
    with d(2) have "is_Ok (ch_DecodePayload (rt_chain rt) (rt_client rt (views ! nat (mpi_index m))) (mpi_payload m))" by blast
    with Cons.IH [OF _ Cons.prems(2,3) run] Cons.prems(1) MsgPrepareInteraction show ?thesis
      by (simp add: rt_accepts_append(2) [OF m])
  qed
qed simp

text \<open>The messages of the primary are well numbered and fit the format.\<close>

lemma op_msgs_numbered: "ops_ok kss ops \<Longrightarrow> well_numbered (length kss) (op_msgs kss ops)"
proof (induction ops arbitrary: kss)
  case (Cons op ops)
  then show ?case using Cons.IH [of "op_kinds op kss"] by (cases op) auto
qed simp

lemma op_msgs_valid:
  "ops_ok kss ops \<Longrightarrow> list_all (\<lambda>m. prepare_valid m \<and> m \<noteq> MsgPrepareDone) (op_msgs kss ops)"
proof (induction ops arbitrary: kss)
  case (Cons op ops)
  then show ?case by (cases op) auto
qed simp

text \<open>
  The format keeps the last eight bits of the client of an interaction; with at most 256 clients
  nothing is lost.
\<close>

lemma view_prepare_views [simp]: "client_views (map view_prepare msgs) = client_views msgs"
  by (induction msgs rule: client_views.induct) simp_all

lemma view_prepare_announced:
  "announced (map view_prepare msgs) = map (\<lambda>m. m\<lparr>mpi_index := mpi_index m mod 256\<rparr>) (announced msgs)"
  by (induction msgs rule: announced.induct) simp_all

lemma well_numbered_truncated: "well_numbered n msgs \<Longrightarrow> well_numbered n (map view_prepare msgs)"
proof (induction n msgs rule: well_numbered.induct)
  case (4 n m ms)
  then have "mpi_index m mod 256 \<le> mpi_index m" by (intro zmod_le_nonneg_dividend) simp
  with 4 show ?case by simp
qed simp_all

lemma well_numbered_view:
  "well_numbered n msgs \<Longrightarrow> n + length (client_views msgs) \<le> 256 \<Longrightarrow> map view_prepare msgs = msgs"
  by (induction n msgs rule: well_numbered.induct) auto

text \<open>
  The preparation succeeds exactly if the chain accepts what the primary announces, and then
  creates what was announced.
\<close>

lemma prepare_ops:
  assumes "ops_ok [] ops"
    and "rt_input rt = concat (map wire_prepare (op_msgs [] ops)) @ wire_prepare MsgPrepareDone @ rest"
    and "rt_clients rt = []" and "rt_interactions rt = []" and "\<And>ds. mset (arrival ds) = mset ds"
    and "rt_accepts rt (client_views (op_msgs [] ops)) (announced (map view_prepare (op_msgs [] ops)))"
  obtains rt' where "prepare arrival rt = (Ok (), rt')"
    and "clients_are (rt_client rt) (client_views (op_msgs [] ops)) rt'"
    and "mset (rt_interactions rt') = mset (map (runtime_interaction (rt_client rt) (rt_decode rt)
      (client_views (op_msgs [] ops))) (announced (map view_prepare (op_msgs [] ops))))"
    and "rt_input rt' = rest" and "rt_conn rt' = (rt_conn rt)\<lparr>c_rd := (c_rd (rt_conn rt))\<lparr>r_input := rest\<rparr>\<rparr>"
proof -
  let ?msgs = "map view_prepare (op_msgs [] ops)"
  let ?iacts = "map (runtime_interaction (rt_client rt) (rt_decode rt) (client_views ?msgs)) (announced ?msgs)"
  have wn: "well_numbered 0 ?msgs" using well_numbered_truncated [OF op_msgs_numbered [OF assms(1)]] by simp
  have none: "clients_are (rt_client rt) [] rt" using assms(3) by (simp add: clients_are_def)
  from handle_msgs_works [where views = "[]" and pending = "[]", OF _ _ none, of ?msgs] wn assms(6) obtain cs where
    cs: "handle_msgs ?msgs [] rt = (Ok (map Ok ?iacts), rt\<lparr>rt_clients := cs\<rparr>)"
      "clients_are (rt_client rt) (client_views ?msgs) (rt\<lparr>rt_clients := cs\<rparr>)"
    by (auto simp: comp_def)
  obtain iacts' where "mset iacts' = mset ?iacts"
    "prepare arrival rt = (Ok (), (set_input rest (rt\<lparr>rt_clients := cs\<rparr>))\<lparr>rt_interactions := rt_interactions rt @ iacts'\<rparr>)"
    using prepare_wire [OF op_msgs_valid [OF assms(1)] assms(2) cs(1) assms(5)] by auto
  then show thesis
    using cs(2) assms(4)
    by (intro that [of "(set_input rest (rt\<lparr>rt_clients := cs\<rparr>))\<lparr>rt_interactions := rt_interactions rt @ iacts'\<rparr>"])
      (auto simp: clients_are_def set_input_def rt_input_def)
qed

lemma prepare_ops_accepts:
  assumes "ops_ok [] ops"
    and "rt_input rt = concat (map wire_prepare (op_msgs [] ops)) @ wire_prepare MsgPrepareDone @ rest"
    and "rt_clients rt = []" and "\<And>ds. mset (arrival ds) = mset ds" and "prepare arrival rt = (Ok (), rt')"
  shows "rt_accepts rt (client_views (op_msgs [] ops)) (announced (map view_prepare (op_msgs [] ops)))"
proof -
  let ?msgs = "map view_prepare (op_msgs [] ops)"
  have wn: "well_numbered 0 ?msgs" using well_numbered_truncated [OF op_msgs_numbered [OF assms(1)]] by simp
  have none: "clients_are (rt_client rt) [] rt" "rt_accepts rt [] []"
    using assms(3) by (simp_all add: clients_are_def rt_accepts_def)
  obtain iacts rt1 where "handle_msgs ?msgs [] rt = (Ok (map Ok iacts), rt1)"
    using prepare_handles [OF op_msgs_valid [OF assms(1)] assms(2,4,5)] .
  from handle_msgs_accepts [where views = "[]", OF _ none(2,1) this] wn show ?thesis by simp
qed

lemma prepare_ops_iff:
  assumes "ops_ok [] ops"
    and "rt_input rt = concat (map wire_prepare (op_msgs [] ops)) @ wire_prepare MsgPrepareDone @ rest"
    and "rt_clients rt = []" and "rt_interactions rt = []" and "\<And>ds. mset (arrival ds) = mset ds"
  shows "(\<exists>rt'. prepare arrival rt = (Ok (), rt')) \<longleftrightarrow>
      rt_accepts rt (client_views (op_msgs [] ops)) (announced (map view_prepare (op_msgs [] ops)))"
    and "prepare arrival rt = (Ok (), rt') \<Longrightarrow> rt_input rt' = rest \<and>
      rt_conn rt' = (rt_conn rt)\<lparr>c_rd := (c_rd (rt_conn rt))\<lparr>r_input := rest\<rparr>\<rparr> \<and>
      clients_are (rt_client rt) (client_views (op_msgs [] ops)) rt' \<and>
      mset (rt_interactions rt') = mset (map (runtime_interaction (rt_client rt) (rt_decode rt)
        (client_views (op_msgs [] ops))) (announced (map view_prepare (op_msgs [] ops))))"
proof -
  show "(\<exists>rt'. prepare arrival rt = (Ok (), rt')) \<longleftrightarrow>
      rt_accepts rt (client_views (op_msgs [] ops)) (announced (map view_prepare (op_msgs [] ops)))"
    using prepare_ops [OF assms] prepare_ops_accepts [OF assms(1-3,5)] by metis
  assume run: "prepare arrival rt = (Ok (), rt')"
  from prepare_ops [OF assms prepare_ops_accepts [OF assms(1-3,5) run]] obtain rt1 where
    "prepare arrival rt = (Ok (), rt1)" "clients_are (rt_client rt) (client_views (op_msgs [] ops)) rt1"
    "mset (rt_interactions rt1) = mset (map (runtime_interaction (rt_client rt) (rt_decode rt)
      (client_views (op_msgs [] ops))) (announced (map view_prepare (op_msgs [] ops))))"
    "rt_input rt1 = rest" "rt_conn rt1 = (rt_conn rt)\<lparr>c_rd := (c_rd (rt_conn rt))\<lparr>r_input := rest\<rparr>\<rparr>" by metis
  with run show "rt_input rt' = rest \<and> rt_conn rt' = (rt_conn rt)\<lparr>c_rd := (c_rd (rt_conn rt))\<lparr>r_input := rest\<rparr>\<rparr> \<and>
      clients_are (rt_client rt) (client_views (op_msgs [] ops)) rt' \<and>
      mset (rt_interactions rt') = mset (map (runtime_interaction (rt_client rt) (rt_decode rt)
        (client_views (op_msgs [] ops))) (announced (map view_prepare (op_msgs [] ops))))"
    by simp
qed

lemma few_clients_announced:
  assumes "ops_ok [] ops" and "length (client_views (op_msgs [] ops)) \<le> 256"
  shows "announced (map view_prepare (op_msgs [] ops)) = announced (op_msgs [] ops)"
  using well_numbered_view [of 0 "op_msgs [] ops"] op_msgs_numbered [OF assms(1)] assms(2) by simp

section \<open>From the secondary's results to the primary's report\<close>

fun op_interactions :: "prep_op list \<Rightarrow> (nat \<times> string) list" where
  "op_interactions [] = []"
| "op_interactions (OpClient kind view # ops) = op_interactions ops"
| "op_interactions (OpInteraction cid kind time payload # ops) = (cid, kind) # op_interactions ops"

text \<open>The client and the kind an announced interaction refers to, by the final tables of the primary.\<close>

definition resolves :: "string list list \<Rightarrow> int \<Rightarrow> int \<Rightarrow> nat \<times> string \<Rightarrow> bool" where
  "resolves kss idx ikind = (\<lambda>(cid, kind). idx = int cid \<and> cid < length kss \<and>
     0 \<le> ikind \<and> ikind < int (length (kss ! cid)) \<and> kss ! cid ! nat ikind = kind)"

lemma prefix_nth: "prefix xs ys \<Longrightarrow> i < length xs \<Longrightarrow> ys ! i = xs ! i"
  by (auto simp: prefix_def nth_append)

lemma resolves_op:
  assumes "cid < length kss"
  shows "resolves (fold op_kinds ops (op_kinds (OpInteraction cid kind time payload) kss)) (int cid)
    (int (kind_number kind (add_kind kind (kss ! cid)))) (cid, kind)"
proof -
  let ?k1 = "op_kinds (OpInteraction cid kind time payload) kss"
  let ?n = "kind_number kind (add_kind kind (kss ! cid))"
  have n: "?n < length (?k1 ! cid)" "?k1 ! cid ! ?n = kind"
    using kind_number_less [of kind "add_kind kind (kss ! cid)"] assms by simp_all
  have pre: "cid < length (fold op_kinds ops ?k1)" "prefix (?k1 ! cid) (fold op_kinds ops ?k1 ! cid)"
    using fold_op_kinds_prefix [of ?k1 ops cid] assms by auto
  then have "?n < length (fold op_kinds ops ?k1 ! cid)" using n(1) prefix_length_le by (metis order_less_le_trans)
  with n pre show ?thesis by (simp add: resolves_def prefix_nth)
qed

lemma announced_resolve:
  "ops_ok kss ops \<Longrightarrow> list_all2 (\<lambda>m. resolves (fold op_kinds ops kss) (mpi_index m) (mpi_ikind m))
     (announced (op_msgs kss ops)) (op_interactions ops)"
proof (induction ops arbitrary: kss)
  case (Cons op ops)
  then show ?case
    using resolves_op [of _ kss ops]
    by (cases op) (auto simp del: op_kinds.simps)
qed simp

text \<open>The primary's tables after the operations.\<close>

lemma resolves_known:
  assumes "kss = map rc_kinds clients" and "resolves kss (mri_index m) (mri_ikind m) ck"
  shows "known_result clients m \<and> ir_Kind (interaction_of clients m) = snd ck \<and> mri_index m = int (fst ck)"
  using assms by (auto simp: resolves_def known_result_def interaction_of_def split: prod.splits)

definition iact_ref :: "('cl, 'op) runtimeInteraction \<Rightarrow> int \<times> int" where
  "iact_ref ia = (rtc_id (ri_client ia), ri_ikind ia)"

definition kind_ref :: "string list list \<Rightarrow> int \<times> int \<Rightarrow> int \<times> string" where
  "kind_ref kss = (\<lambda>(idx, ikind). (idx, kss ! nat idx ! nat ikind))"

lemma announced_refs:
  assumes "ops_ok [] ops"
  shows "map (\<lambda>m. kind_ref (fold op_kinds ops []) (mpi_index m, mpi_ikind m)) (announced (op_msgs [] ops)) =
    map (\<lambda>(cid, kind). (int cid, kind)) (op_interactions ops)"
proof -
  have "list_all2 (\<lambda>m ck. kind_ref (fold op_kinds ops []) (mpi_index m, mpi_ikind m) =
      (case ck of (cid, kind) \<Rightarrow> (int cid, kind))) (announced (op_msgs [] ops)) (op_interactions ops)"
    using announced_resolve [OF assms]
    by (rule list_all2_mono) (auto simp: resolves_def kind_ref_def split: prod.splits)
  then show ?thesis by (simp add: list_all2_conv_all_nth list_eq_iff_nth_eq)
qed

lemma announced_valid:
  "list_all (\<lambda>m. prepare_valid m \<and> m \<noteq> MsgPrepareDone) msgs \<Longrightarrow> m \<in> set (announced msgs) \<Longrightarrow>
   prepare_valid (MsgPrepareInteraction m)"
  by (induction msgs rule: announced.induct) auto

text \<open>The results of the announced interactions, in any order, are known to the primary.\<close>

lemma announced_known:
  assumes "ops_ok [] ops" and "kinds_of rs = fold op_kinds ops []" and "m \<in> set (announced (op_msgs [] ops))"
    and "iact_ref ia = (mpi_index m, mpi_ikind m)"
  shows "known_result (rs_clients rs) (stop_msg start ia) \<and> result_valid (MsgResultInteraction (stop_msg start ia)) \<and>
    (mri_index (stop_msg start ia), ir_Kind (interaction_of (rs_clients rs) (stop_msg start ia))) =
      kind_ref (fold op_kinds ops []) (iact_ref ia)"
proof -
  from announced_resolve [OF assms(1)] assms(3) obtain ck where
    "resolves (fold op_kinds ops []) (mpi_index m) (mpi_ikind m) ck"
    unfolding list_all2_conv_all_nth in_set_conv_nth by metis
  then have "resolves (map rc_kinds (rs_clients rs)) (mri_index (stop_msg start ia)) (mri_ikind (stop_msg start ia)) ck"
    using assms(2,4) by (simp add: kinds_of_def stop_msg_def iact_ref_def)
  note known = resolves_known [OF HOL.refl this]
  have "prepare_valid (MsgPrepareInteraction m)"
    using announced_valid [OF op_msgs_valid [OF assms(1)] assms(3)] .
  then show ?thesis
    using known assms(2,4)
    by (auto simp: stop_msg_def iact_ref_def kind_ref_def interaction_of_def known_result_def kinds_of_def
        simp flip: assms(2))
qed

lemma results_of_ops:
  assumes "ops_ok [] ops" and "kinds_of rs = fold op_kinds ops []"
    and "mset (map iact_ref snaps) = mset (map (\<lambda>m. (mpi_index m, mpi_ikind m)) (announced (op_msgs [] ops)))"
  shows "list_all (\<lambda>m. known_result (rs_clients rs) m \<and> result_valid (MsgResultInteraction m))
      (map (stop_msg start) snaps)"
    and "mset (map (\<lambda>m. ir_Kind (interaction_of (rs_clients rs) m))
      (filter (\<lambda>m. mri_index m = cid) (map (stop_msg start) snaps))) =
      mset (map snd (filter (\<lambda>(c, kind). int c = cid) (op_interactions ops)))"
proof -
  let ?kss = "fold op_kinds ops []" and ?ann = "announced (op_msgs [] ops)"
  have ref: "\<exists>m \<in> set ?ann. iact_ref ia = (mpi_index m, mpi_ikind m)" if "ia \<in> set snaps" for ia
    using assms(3) that by (metis (mono_tags, lifting) image_iff list.set_map set_mset_mset)
  have each: "known_result (rs_clients rs) (stop_msg start ia) \<and>
      result_valid (MsgResultInteraction (stop_msg start ia)) \<and>
      (mri_index (stop_msg start ia), ir_Kind (interaction_of (rs_clients rs) (stop_msg start ia))) =
        kind_ref ?kss (iact_ref ia)" if "ia \<in> set snaps" for ia
    using ref [OF that] announced_known [OF assms(1,2)] by blast
  then show "list_all (\<lambda>m. known_result (rs_clients rs) m \<and> result_valid (MsgResultInteraction m))
      (map (stop_msg start) snaps)"
    by (auto simp: list_all_iff)
  let ?f = "\<lambda>m. (mri_index m, ir_Kind (interaction_of (rs_clients rs) m))"
  have "map ?f (map (stop_msg start) snaps) = map (kind_ref ?kss) (map iact_ref snaps)"
    using each by simp
  then have "mset (map ?f (map (stop_msg start) snaps)) = image_mset (kind_ref ?kss) (mset (map iact_ref snaps))"
    by (metis mset_map)
  also have "\<dots> = mset (map (\<lambda>m. kind_ref ?kss (mpi_index m, mpi_ikind m)) ?ann)"
    unfolding assms(3) by (simp add: multiset.map_comp comp_def)
  also have "\<dots> = mset (map (\<lambda>(c, kind). (int c, kind)) (op_interactions ops))"
    by (simp only: announced_refs [OF assms(1)])
  finally have eq: "mset (map ?f (map (stop_msg start) snaps)) =
      mset (map (\<lambda>(c, kind). (int c, kind)) (op_interactions ops))" .
  have l: "map (\<lambda>m. ir_Kind (interaction_of (rs_clients rs) m)) (filter (\<lambda>m. mri_index m = cid) ms) =
      map snd (filter (\<lambda>p. fst p = cid) (map ?f ms))" for ms
    by (induction ms) auto
  have r: "map snd (filter (\<lambda>(c, kind). int c = cid) os) =
      map snd (filter (\<lambda>p. fst p = cid) (map (\<lambda>(c, kind). (int c, kind)) os))" for os :: "(nat \<times> string) list"
    by (induction os) auto
  show "mset (map (\<lambda>m. ir_Kind (interaction_of (rs_clients rs) m))
      (filter (\<lambda>m. mri_index m = cid) (map (stop_msg start) snaps))) =
      mset (map snd (filter (\<lambda>(c, kind). int c = cid) (op_interactions ops)))"
    unfolding l r by (simp only: mset_map mset_filter eq [unfolded mset_map])
qed

lemma runtime_interaction_untouched: "untouched (runtime_interaction mk dcd views m)"
  by (simp add: runtime_interaction_def newRuntimeInteraction_def untouched_def)

lemma runtime_interaction_ref: "iact_ref (runtime_interaction mk dcd views m) = (mpi_index m, mpi_ikind m)"
  by (simp add: iact_ref_def runtime_interaction_def newRuntimeInteraction_def newRuntimeClient_def)

lemma later_ref: "later a b \<Longrightarrow> iact_ref b = iact_ref a"
  by (simp add: later_def iact_ref_def)

text \<open>A finished run has sent, for some snapshots of its interactions, their results.\<close>

lemma finished_run_snaps:
  fixes rt :: "('cl, 'op) runtime"
  assumes "list_all untouched (rt_interactions rt)" and "rt_start rt \<le> t0"
    and "rt_run (machine_start rt t0) m" and "m_phase m = Finished"
  obtains snaps :: "('cl, 'op) runtimeInteraction list" where "map iact_ref snaps = map iact_ref (rt_interactions rt)"
    and "c_out (rt_conn (m_rt m)) = conn_written (rt_conn rt) @
      result_stream (map (stop_msg (rt_start rt)) snaps) @ wire_result MsgResultDone"
proof -
  note inv0 = machine_start_inv [OF assms(1,2)]
  have frame: "rt_frame rt (m_rt m)"
    using rt_run_preserves [OF assms(3) inv0] by (simp add: machine_start_def)
  have "pushed_inv (conn_written (rt_conn rt)) m"
    using rt_run_pushed [OF assms(3) inv0 machine_start_pushed] .
  then obtain snaps where snaps: "length snaps = length (rt_interactions rt)"
    "\<And>i. i < length snaps \<Longrightarrow> later (snaps ! i) (rt_interactions (m_rt m) ! i)"
    "c_out (rt_conn (m_rt m)) = conn_written (rt_conn rt) @ snap_stream (rt_start rt) snaps @ wire_result MsgResultDone"
    using assms(4) frame by (auto simp: pushed_inv_def rt_frame_def)
  have "iact_ref (snaps ! i) = iact_ref (rt_interactions rt ! i)" if "i < length snaps" for i
    using later_ref [OF snaps(2) [OF that]] frame that snaps(1) later_ref by (metis rt_frame_def)
  then have "map iact_ref snaps = map iact_ref (rt_interactions rt)"
    using snaps(1) by (intro nth_equalityI) simp_all
  with snaps(3) show thesis by (intro that [of snaps]) (simp_all add: snap_stream_def result_stream_def comp_def)
qed

end
