(* ===== verification/Core_Run.thy ===== *)
theory Core_Run
  imports Mock_Benchmark Core_Protocol
begin

text \<open>
  From the benchmark file to the prepared secondaries: what parsing and instantiating the benchmark
  sends to a secondary, and what the secondary makes of it, put together. The operations on a
  secondary that succeeded are those whose messages fit the format.
\<close>

section \<open>Operations that succeeded\<close>

lemma sendPrepare_fits:
  "secondaryConn_sendPrepare m c = (Ok (), c') \<Longrightarrow> prepare_fits m"
  using encode_prepare_refused [of m bufio_write c] by (auto simp: secondaryConn_sendPrepare_def)

lemma on_conn_Ok:
  assumes "on_conn m rs = (Ok a, rs')"
  obtains c where "m (rs_conn rs) = (Ok a, c)"
  using assms by (auto simp: on_conn_def gzoom_def split: prod.splits)

lemma exec_op_ok:
  assumes "remote_inv rs" and "exec_op op rs = (Ok (), rs')"
  shows "op_ok (kinds_of rs) op"
proof (cases op)
  case (OpClient kind view)
  with assms(2) show ?thesis
    by (auto simp: createClient_def gread_run kinds_of_def elim!: gbind_OkE on_conn_Ok dest!: sendPrepare_fits)
next
  case (OpInteraction cid kind time payload)
  with assms(2) have cid: "cid < length (rs_clients rs)"
    by (auto simp: sendInteraction_def split: if_splits)
  with assms(1) have "client_inv cid (note_time time (rs_clients rs ! cid))"
    by (simp add: remote_inv_def note_time_inv)
  from note_kind_spec [OF this, of kind] obtain rc where
    rc: "note_kind kind (note_time time (rs_clients rs ! cid)) = (int (kind_number kind (rc_kinds rc)), rc)"
      "client_inv cid rc" "rc_kinds rc = add_kind kind (rc_kinds (rs_clients rs ! cid))"
    by auto
  have "prepare_fits (op_msg (kinds_of rs) op)"
    using assms(2) rc cid OpInteraction
    by (auto simp: sendInteraction_def kinds_of_def client_inv_def elim!: on_conn_Ok dest!: sendPrepare_fits)
  then show ?thesis using cid OpInteraction by (simp add: kinds_of_def)
qed

lemma exec_ops_ok:
  assumes "remote_inv rs" and "conn_good (rs_conn rs)" and "gfor ops exec_op rs = (Ok (), rs')"
  shows "ops_ok (kinds_of rs) ops"
  using assms
proof (induction ops arbitrary: rs)
  case (Cons op ops)
  from Cons.prems(3) obtain rs1 where run: "exec_op op rs = (Ok (), rs1)" "gfor ops exec_op rs1 = (Ok (), rs')"
    by (auto elim!: gbind_OkE)
  have ok: "op_ok (kinds_of rs) op" by (rule exec_op_ok [OF Cons.prems(1) run(1)])
  from exec_op_spec [OF Cons.prems(1,2) ok] run(1)
  have "remote_inv rs1" "kinds_of rs1 = op_kinds op (kinds_of rs)" "sent_from rs [op_msg (kinds_of rs) op] rs1"
    by (metis prod.inject)+
  then show ?case using Cons.IH [OF _ _ run(2)] ok by (simp add: sent_from_def)
qed simp

section \<open>The schedule of a secondary\<close>

text \<open>Client, time and payload of the interactions among the operations.\<close>

fun op_schedule :: "prep_op list \<Rightarrow> (int \<times> f64 \<times> byte list) list" where
  "op_schedule [] = []"
| "op_schedule (OpClient kind view # ops) = op_schedule ops"
| "op_schedule (OpInteraction cid kind time payload # ops) = (int cid, time, payload) # op_schedule ops"

lemma op_schedule_append: "op_schedule (xs @ ys) = op_schedule xs @ op_schedule ys"
  by (induction xs rule: op_schedule.induct) simp_all

lemma op_schedule_clients: "list_all is_client ops \<Longrightarrow> op_schedule ops = []"
  by (induction ops rule: op_schedule.induct) simp_all

lemma op_schedule_interactions:
  "op_schedule (interaction_ops env ips i) =
     map (\<lambda>(iact, payload). (int (snd (bi_sendingClient iact)), bi_scheduleTime iact, payload))
       (filter (\<lambda>(iact, _). fst (bi_sendingClient iact) = i) ips)"
  by (induction ips) (auto simp: interaction_ops_def interaction_op_def)

lemma announced_schedule:
  "map (\<lambda>m. (mpi_index m, mpi_time m, mpi_payload m)) (announced (op_msgs kss ops)) = op_schedule ops"
proof (induction ops arbitrary: kss)
  case (Cons op ops)
  then show ?case by (cases op) simp_all
qed simp

lemma length_client_views:
  "length (fold op_kinds ops kss) = length kss + length (client_views (op_msgs kss ops))"
proof (induction ops arbitrary: kss)
  case (Cons op ops)
  then show ?case by (cases op) simp_all
qed simp

lemma runtime_interaction_schedule:
  "map (\<lambda>ia. (rtc_id (ri_client ia), ri_schedTime ia)) (map (runtime_interaction mk dcd views) ms) =
   map (\<lambda>(cid, time, payload). (cid, time)) (map (\<lambda>m. (mpi_index m, mpi_time m, mpi_payload m)) ms)"
  by (simp add: runtime_interaction_def newRuntimeInteraction_def newRuntimeClient_def)

lemma schedule_zip:
  assumes "length payloads = length iacts"
  shows "map (\<lambda>(cid, time, payload). (cid, time)) (op_schedule (interaction_ops env (zip iacts payloads) i)) =
    map (\<lambda>ia. (int (snd (bi_sendingClient ia)), bi_scheduleTime ia))
      (filter (\<lambda>ia. fst (bi_sendingClient ia) = i) iacts)"
proof -
  have "map (\<lambda>(cid, time, payload). (cid, time)) (op_schedule (interaction_ops env ips i)) =
      map (\<lambda>ia. (int (snd (bi_sendingClient ia)), bi_scheduleTime ia))
        (filter (\<lambda>ia. fst (bi_sendingClient ia) = i) (map fst ips))" for ips
    unfolding op_schedule_interactions by (induction ips) auto
  then show ?thesis using assms by simp
qed

text \<open>What the announced interactions become on the other side of the wire.\<close>

lemma prepared_schedule:
  assumes "mset ias = mset (map (runtime_interaction mk dcd views) (announced (map view_prepare (op_msgs kss ops))))"
  shows "mset (map (\<lambda>ia. (rtc_id (ri_client ia), ri_schedTime ia)) ias) =
    mset (map (\<lambda>(cid, time, payload). (cid mod 256, time)) (op_schedule ops))"
proof -
  let ?key = "\<lambda>ia. (rtc_id (ri_client ia), ri_schedTime ia)" and ?ann = "announced (op_msgs kss ops)"
  have "mset (map ?key ias) = mset (map ?key (map (runtime_interaction mk dcd views)
      (map (\<lambda>m. m\<lparr>mpi_index := mpi_index m mod 256\<rparr>) ?ann)))"
    unfolding mset_map [of ?key] assms view_prepare_announced ..
  also have "\<dots> = mset (map (\<lambda>(cid, time, payload). (cid mod 256, time))
      (map (\<lambda>m. (mpi_index m, mpi_time m, mpi_payload m)) ?ann))"
    unfolding runtime_interaction_schedule by (simp add: comp_def)
  finally show ?thesis unfolding announced_schedule .
qed

lemma schedule_zip_truncated:
  assumes "list_all is_client clients" and "length payloads = length iacts"
  shows "map (\<lambda>(cid, time, payload). (cid mod 256, time))
      (op_schedule (clients @ interaction_ops env (zip iacts payloads) i)) =
    map (\<lambda>ia. (int (snd (bi_sendingClient ia)) mod 256, bi_scheduleTime ia))
      (filter (\<lambda>ia. fst (bi_sendingClient ia) = i) iacts)"
proof -
  let ?ops = "op_schedule (interaction_ops env (zip iacts payloads) i)"
  have "map (\<lambda>(cid, time, payload). (cid mod 256, time)) ?ops =
      map (\<lambda>(cid, time). (cid mod 256, time)) (map (\<lambda>(cid, time, payload). (cid, time)) ?ops)"
    by (simp add: comp_def case_prod_beta)
  also have "\<dots> = map (\<lambda>ia. (int (snd (bi_sendingClient ia)) mod 256, bi_scheduleTime ia))
      (filter (\<lambda>ia. fst (bi_sendingClient ia) = i) iacts)"
    unfolding schedule_zip [OF assms(2)] by (simp add: comp_def)
  finally show ?thesis unfolding op_schedule_append op_schedule_clients [OF assms(1)] append_Nil .
qed

text \<open>Operations that were carried out use clients that exist.\<close>

lemma op_schedule_clients_exist:
  assumes "ops_ok [] ops" and "length (client_views (op_msgs [] ops)) \<le> n" and "(cid, time, payload) \<in> set (op_schedule ops)"
  shows "0 \<le> cid \<and> cid < int n"
proof -
  have numbered: "0 \<le> mpi_index m \<and> mpi_index m < int (k + length (client_views msgs))"
    if "well_numbered k msgs" "m \<in> set (announced msgs)" for k msgs m
    using that by (induction k msgs rule: well_numbered.induct) auto
  from assms(3) obtain m where "m \<in> set (announced (op_msgs [] ops))" "mpi_index m = cid"
    unfolding announced_schedule [where kss = "[]", symmetric] by auto
  with numbered [OF op_msgs_numbered [OF assms(1)]] assms(2) show ?thesis by fastforce
qed

lemma few_clients_exist:
  assumes "ops_ok [] (clients @ interaction_ops env (zip iacts payloads) i)" and "length payloads = length iacts"
    and "length (client_views (op_msgs [] (clients @ interaction_ops env (zip iacts payloads) i))) \<le> n"
    and "ia \<in> set iacts" and "fst (bi_sendingClient ia) = i"
  shows "snd (bi_sendingClient ia) < n"
proof -
  have "(int (snd (bi_sendingClient ia)), bi_scheduleTime ia) \<in>
      set (map (\<lambda>(cid, time, payload). (cid, time)) (op_schedule (interaction_ops env (zip iacts payloads) i)))"
    using assms(4,5) unfolding schedule_zip [OF assms(2)] by auto
  then obtain payload where "(int (snd (bi_sendingClient ia)), bi_scheduleTime ia, payload) \<in>
      set (op_schedule (clients @ interaction_ops env (zip iacts payloads) i))"
    by (auto simp: op_schedule_append)
  from op_schedule_clients_exist [OF assms(1,3) this] show ?thesis by simp
qed

text \<open>What a benchmark that was run has sent to a secondary.\<close>

lemma benchmark_sends:
  assumes "blockchain_builder env" and "benchmark_run env order e w = Some (Ok (), w')"
    and "i < length (w_secondaries w)" and "remote_inv (w_secondaries w ! i)"
    and "conn_good (rs_conn (w_secondaries w ! i))" and "rs_clients (w_secondaries w ! i) = []"
  obtains b w1 iacts payloads clients where "benchmark_parse env e w = (Ok b, w1)"
    and "benchmark_generate order b = Some (Ok iacts)" and "length payloads = length iacts" and "list_all is_client clients"
    and "ops_ok [] (clients @ interaction_ops env (zip iacts payloads) i)"
    and "length (rs_clients (w_secondaries w' ! i)) =
      length (client_views (op_msgs [] (clients @ interaction_ops env (zip iacts payloads) i)))"
    and "sent_from (w_secondaries w ! i) (op_msgs [] (clients @ interaction_ops env (zip iacts payloads) i)) (w_secondaries w' ! i)"
proof -
  let ?rs = "w_secondaries w ! i" and ?rs' = "w_secondaries w' ! i"
  obtain b w1 iacts payloads cops where run: "benchmark_parse env e w = (Ok b, w1)"
    "benchmark_generate order b = Some (Ok iacts)" "length payloads = length iacts" "\<forall>i. list_all is_client (cops i)"
    "acts (w_secondaries w) (\<lambda>i. cops i @ interaction_ops env (zip iacts payloads) i) (w_secondaries w')"
    using blockchain_builder.benchmark_run_acts [OF assms(1,2)] by blast
  define ops where "ops = cops i @ interaction_ops env (zip iacts payloads) i"
  have exec: "gfor ops exec_op ?rs = (Ok (), ?rs')" using run(5) assms(3) by (simp add: acts_def ops_def)
  have kinds: "kinds_of ?rs = []" using assms(6) by (simp add: kinds_of_def)
  have ok: "ops_ok [] ops" using exec_ops_ok [OF assms(4,5) exec] by (simp only: kinds)
  obtain rs1 where "gfor ops exec_op ?rs = (Ok (), rs1)" "kinds_of rs1 = fold op_kinds ops []"
    "sent_from ?rs (op_msgs [] ops) rs1"
    using exec_ops_spec [OF assms(4,5), of ops, unfolded kinds, OF ok] by metis
  with exec have sent: "kinds_of ?rs' = fold op_kinds ops []" "sent_from ?rs (op_msgs [] ops) ?rs'" by simp_all
  have "length (rs_clients ?rs') = length (fold op_kinds ops [])" by (simp only: sent(1) [symmetric] kinds_of_def length_map)
  then have "length (rs_clients ?rs') = length (client_views (op_msgs [] ops))"
    by (simp only: length_client_views list.size(3) add_0)
  with run(4) show thesis using that [OF run(1-3) _ ok [unfolded ops_def]] sent(2) by (simp add: ops_def)
qed

section \<open>Properties\<close>

text \<open>
  C2: End to end, benchmark file to secondary, for every blockchain builder that keeps the
  interface's law: when parsing and instantiating a benchmark succeeds, the bytes sent to a
  secondary, followed by the end of the preparation, are the announcements of its clients and of
  the interactions the generators scheduled for them. The secondary's preparation succeeds exactly
  if its chain creates these clients and decodes these payloads; then it has prepared one interaction
  per scheduled one, with its time, for the client whose index is the scheduled one modulo 256, which
  is the scheduled client itself if the secondary has at most 256 clients.
\<close>

theorem benchmark_reaches_secondary:
  assumes "blockchain_builder env" and "benchmark_run env order e w = Some (Ok (), w')"
    and "i < length (w_secondaries w)" and "remote_inv (w_secondaries w ! i)"
    and "conn_good (rs_conn (w_secondaries w ! i))" and "rs_clients (w_secondaries w ! i) = []"
    and "conn_written (rs_conn (w_secondaries w' ! i)) = conn_written (rs_conn (w_secondaries w ! i)) @ bytes"
    and "rt_clients rt = []" and "rt_interactions rt = []"
    and "\<And>ds. mset (arrival ds) = mset ds"
    and "rt_input rt = bytes @ wire_prepare MsgPrepareDone @ rest"
  shows "\<exists>b w1 iacts payloads clients. benchmark_parse env e w = (Ok b, w1) \<and>
    benchmark_generate order b = Some (Ok iacts) \<and> length payloads = length iacts \<and> list_all is_client clients \<and>
    (let msgs = op_msgs [] (clients @ interaction_ops env (zip iacts payloads) i) in
     bytes = concat (map wire_prepare msgs) \<and>
     ((\<exists>rt'. prepare arrival rt = (Ok (), rt')) \<longleftrightarrow>
       rt_accepts rt (client_views msgs) (announced (map view_prepare msgs)))) \<and>
    (\<forall>rt'. prepare arrival rt = (Ok (), rt') \<longrightarrow> rt_input rt' = rest \<and>
       mset (map (\<lambda>ia. (rtc_id (ri_client ia), ri_schedTime ia)) (rt_interactions rt')) =
       mset (map (\<lambda>ia. (int (snd (bi_sendingClient ia)) mod 256, bi_scheduleTime ia))
         (filter (\<lambda>ia. fst (bi_sendingClient ia) = i) iacts))) \<and>
    (length (rs_clients (w_secondaries w' ! i)) \<le> 256 \<longrightarrow>
       (\<forall>ia \<in> set iacts. fst (bi_sendingClient ia) = i \<longrightarrow>
          int (snd (bi_sendingClient ia)) mod 256 = int (snd (bi_sendingClient ia))))"
proof -
  obtain b w1 iacts payloads clients where run: "benchmark_parse env e w = (Ok b, w1)"
    "benchmark_generate order b = Some (Ok iacts)" "length payloads = length iacts" "list_all is_client clients"
    "ops_ok [] (clients @ interaction_ops env (zip iacts payloads) i)"
    "length (rs_clients (w_secondaries w' ! i)) =
      length (client_views (op_msgs [] (clients @ interaction_ops env (zip iacts payloads) i)))"
    "sent_from (w_secondaries w ! i) (op_msgs [] (clients @ interaction_ops env (zip iacts payloads) i)) (w_secondaries w' ! i)"
    using benchmark_sends [OF assms(1-6)] .
  define ops where "ops = clients @ interaction_ops env (zip iacts payloads) i"
  note run = run [folded ops_def]
  have bytes: "bytes = concat (map wire_prepare (op_msgs [] ops))" using run(7) assms(7) by (simp add: sent_from_def)
  then have inp: "rt_input rt = concat (map wire_prepare (op_msgs [] ops)) @ wire_prepare MsgPrepareDone @ rest"
    using assms(11) by simp
  note prep = prepare_ops_iff [OF run(5) inp assms(8,9,10)]
  have sched: "mset (map (\<lambda>ia. (rtc_id (ri_client ia), ri_schedTime ia)) (rt_interactions rt')) =
       mset (map (\<lambda>ia. (int (snd (bi_sendingClient ia)) mod 256, bi_scheduleTime ia))
         (filter (\<lambda>ia. fst (bi_sendingClient ia) = i) iacts))"
    "rt_input rt' = rest" if "prepare arrival rt = (Ok (), rt')" for rt'
    using prepared_schedule [OF prep(2) [OF that, THEN conjunct2, THEN conjunct2, THEN conjunct2]] prep(2) [OF that]
    unfolding schedule_zip_truncated [OF run(4,3), of env i, folded ops_def] by blast+
  have few: "int (snd (bi_sendingClient ia)) mod 256 = int (snd (bi_sendingClient ia))"
    if "length (rs_clients (w_secondaries w' ! i)) \<le> 256" "ia \<in> set iacts" "fst (bi_sendingClient ia) = i" for ia
    using few_clients_exist [OF run(5) [unfolded ops_def] run(3) _ that(2,3), of 256] run(6) that(1) by (simp add: ops_def)
  show ?thesis
    unfolding Let_def
    by (intro exI [of _ b] exI [of _ w1] exI [of _ iacts] exI [of _ payloads] exI [of _ clients] conjI allI impI ballI,
        fold ops_def) (rule run bytes prep(1) sched few; assumption?)+
qed

text \<open>A secondary with the mock blockchain, for the witnesses.\<close>

definition mock_runtime :: "byte list \<Rightarrow> (mock_client, string) runtime" where
  "mock_runtime inp = \<lparr>rt_conn = new_conn \<lparr>r_input = inp, r_err = EOF\<rparr> None ''p'',
     rt_params = \<lparr>mpp_sysname = ''mock'', mpp_chainParams = [], mpp_maxDelay = f64_one, mpp_maxSkew = f64_one\<rparr>,
     rt_chainEnv = [], rt_chain = mock_chain (\<lambda>_. None), rt_clients = [], rt_start = 5, rt_lastSkewWarn = 5,
     rt_interactions = [], rt_lastDelayWarn = 5, rt_log = []\<rparr>"

lemma mock_runtime_simps [simp]:
  "rt_clients (mock_runtime inp) = []" "rt_interactions (mock_runtime inp) = []" "rt_input (mock_runtime inp) = inp"
  "rt_chain (mock_runtime inp) = mock_chain (\<lambda>_. None)" "mpp_chainParams (rt_params (mock_runtime inp)) = []"
  by (simp_all add: mock_runtime_def rt_input_def new_conn_def)

text \<open>The mock client decodes the transfer of the benchmark, and refuses a payload of two bytes.\<close>

lemma demo_payload_decodes: "is_Ok (mock_DecodePayload client demo_payload)"
proof -
  have "mock_encode (map uint64 [1, 7, 7]) = Ok demo_payload" by (simp add: mock_encode_bytes demo_payload_def)
  from mock_read_payload [OF _ this] have "mock_read 3 demo_payload = Ok [1, 7, 7]"
    by (simp add: int64_def numeral_3_eq_3)
  then show ?thesis by (simp add: mock_DecodePayload_def demo_payload_length obind_def)
qed

lemma mock_creates: "mpp_chainParams (rt_params rt) = [] \<Longrightarrow> rt_chain rt = mock_chain pf \<Longrightarrow>
   is_Ok (ch_Client (rt_chain rt) (mpp_chainParams (rt_params rt)) (rt_chainEnv rt) view)"
  by (simp add: mock_chain_def mock_Client_def mock_delay_def mock_presign_def obind_def)

lemma demo_ops_accepted:
  assumes "mpp_chainParams (rt_params rt) = []" and "rt_chain rt = mock_chain pf"
  shows "rt_accepts rt (client_views (op_msgs [] demo_ops)) (announced (map view_prepare (op_msgs [] demo_ops)))"
  using demo_payload_decodes mock_creates [OF assms] assms
  by (simp add: rt_accepts_def demo_ops_def mock_chain_def add_kind_def kind_number_def)

theorem benchmark_reaches_secondary_witness:
  "\<exists>w' bytes rt'. benchmark_run demo_env id demo_benchmark demo_world = Some (Ok (), w') \<and>
     conn_written (rs_conn (w_secondaries w' ! 0)) = bytes \<and>
     prepare rev (mock_runtime (bytes @ wire_prepare MsgPrepareDone)) = (Ok (), rt') \<and>
     mset (map (\<lambda>ia. (rtc_id (ri_client ia), ri_schedTime ia)) (rt_interactions rt')) = {#(0, f64_one)#}"
proof -
  obtain w w' rs' where run: "benchmark_parse demo_env demo_benchmark demo_world = (Ok demo_parsed, w)"
    "benchmark_run demo_env id demo_benchmark demo_world = Some (Ok (), w')"
    "w_secondaries w' = [rs']" "gfor demo_ops exec_op (fresh_secondary []) = (Ok (), rs')"
    using demo_benchmark_run [of "fresh_secondary []"] by (auto simp: fresh_secondary_def remote_inv_def)
  let ?bytes = "conn_written (rs_conn (w_secondaries w' ! 0))"
  let ?rt = "mock_runtime (?bytes @ wire_prepare MsgPrepareDone)"
  have builder: "blockchain_builder demo_env"
    unfolding demo_env_def by (rule mock.blockchain_builder_axioms)
  have world: "w_secondaries demo_world = [fresh_secondary []]" "rs_clients (fresh_secondary []) = []"
    by (simp_all add: demo_world_on_def fresh_secondary_def)
  have "sent_from (fresh_secondary []) (op_msgs [] demo_ops) rs'"
    using exec_ops_spec [of "fresh_secondary []" demo_ops] run(4) demo_ops_ok by (auto simp: kinds_of_def world(2))
  then have "rt_input ?rt = concat (map wire_prepare (op_msgs [] demo_ops)) @ wire_prepare MsgPrepareDone @ []"
    using run(3) by (simp add: sent_from_def)
  from prepare_ops_iff(1) [OF demo_ops_ok this, where arrival = rev] demo_ops_accepted [of ?rt] obtain rt' where
    rt': "prepare rev ?rt = (Ok (), rt')" by auto
  have "\<exists>b w1 iacts. benchmark_parse demo_env demo_benchmark demo_world = (Ok b, w1) \<and>
      benchmark_generate id b = Some (Ok iacts) \<and>
      mset (map (\<lambda>ia. (rtc_id (ri_client ia), ri_schedTime ia)) (rt_interactions rt')) =
      mset (map (\<lambda>ia. (int (snd (bi_sendingClient ia)) mod 256, bi_scheduleTime ia))
        (filter (\<lambda>ia. fst (bi_sendingClient ia) = 0) iacts))"
    using benchmark_reaches_secondary [OF builder run(2), where i = 0 and bytes = ?bytes and rt = ?rt and arrival = rev
        and rest = "[]"] rt' by (auto simp: world)
  then show ?thesis using run(1,2) demo_generate rt' by (auto simp: demo_send_def)
qed

end
