(* ===== verification/Core_Session.thy ===== *)
theory Core_Session
  imports Core_Run
begin

text \<open>
  The two programs as a whole: \<^verbatim>\<open>Nprimary.Run\<close> (\<^verbatim>\<open>src/core/nprimary.go\<close>) from the setup file to the
  result, \<^verbatim>\<open>Nsecondary.Run\<close> (\<^verbatim>\<open>src/core/nsecondary.go\<close>) from the dialing to the closing, and a session
  of the two over connections that deliver to each end what the other end has sent.
\<close>

section \<open>The primary\<close>

text \<open>
  A blockchain as the primary uses it: the constructor of its builder and the operations of the
  builder, which are the last fields of \<open>ci_env\<close>.
\<close>

record ('g, 'b, 'r, 'x) chainInterface =
  ci_Builder :: "(string, string) gomap \<Rightarrow> string list \<Rightarrow> (string, string list) gomap \<Rightarrow> 'b outcome"
  ci_env :: "('g, 'b, 'r, 'x) env"

text \<open>
  What the operating system answers: files, the two YAML decoders, the listeners with their
  \<^verbatim>\<open>Accept\<close> calls, and the iteration orders of Go maps.
\<close>

record 'file primaryIO =
  io_Open :: "string \<Rightarrow> 'file outcome"
  io_DecodeSetup :: "'file \<Rightarrow> setupConfig outcome"
  io_DecodeBenchmark :: "'file \<Rightarrow> yaml_node outcome"
  io_listenSecondaries :: "unit outcome"
  io_acceptSecondary :: "nat \<Rightarrow> conn outcome"
  io_listenObservers :: "unit outcome"
  io_acceptObserver :: "nat \<Rightarrow> conn outcome"
  io_its :: "nat \<Rightarrow> (string \<times> string) list \<times> (string \<times> string) list"
  io_order :: "(f64 \<times> f64) list \<Rightarrow> (f64 \<times> f64) list"

text \<open>
  The end of \<^verbatim>\<open>Run\<close>, given what parsing the benchmark returned (\<open>None\<close>: the schedule is infinite):
  synchronise, start and collect. Beside the result the functions return the connections of the
  secondaries and of the observers as they are left.
\<close>

definition Nprimary_session ::
  "Nprimary \<Rightarrow> (unit outcome \<times> ('g, 'b, 'r) world) option \<Rightarrow> remoteObserver list
     \<Rightarrow> (Result outcome \<times> conn list \<times> conn list) option" where
  "Nprimary_session primary parsed observers =
     map_option (\<lambda>(r, sys').
         case r of
           Err e \<Rightarrow> (Err e, map rs_conn (w_secondaries sys'), map ro_conn observers)
         | Panic p \<Rightarrow> (Panic p, map rs_conn (w_secondaries sys'), map ro_conn observers)
         | Ok _ \<Rightarrow>
             (case Nprimary_Run_end primary (w_secondaries sys', observers) of
                (result, secondaries, observers') \<Rightarrow> (result, map rs_conn secondaries, map ro_conn observers')))
       parsed"

text \<open>\<^verbatim>\<open>Run\<close>. A return before the listeners are opened leaves no connection.\<close>

definition Nprimary_Run ::
  "'file primaryIO \<Rightarrow> (string \<rightharpoonup> ('g, 'b, 'r, 'x) chainInterface) \<Rightarrow> Nprimary
     \<Rightarrow> (Result outcome \<times> conn list \<times> conn list) option" where
  "Nprimary_Run io systemMap primary =
     (case parseSetupYamlPath (io_Open io) (io_DecodeSetup io) (np_SetupPath primary) of
        Err e \<Rightarrow> Some (Err e, [], [])
      | Panic p \<Rightarrow> Some (Panic p, [], [])
      | Ok setup \<Rightarrow>
     (case systemMap (ps_sysname setup) of
        None \<Rightarrow> Some (Err (Errorf ''unknown interface'' [AStr (ps_sysname setup)]), [], [])
      | Some ci \<Rightarrow>
     (case ci_Builder ci (ps_parameters setup) (np_Env primary) (endpoint_map (ps_endpoints setup) []) of
        Err e \<Rightarrow> Some (Err e, [], [])
      | Panic p \<Rightarrow> Some (Panic p, [], [])
      | Ok builder \<Rightarrow>
     (case acceptSecondaries (io_listenSecondaries io) (io_acceptSecondary io) (io_its io) setup primary of
        (Err e, given_up) \<Rightarrow> Some (Err e, given_up, [])
      | (Panic p, given_up) \<Rightarrow> Some (Panic p, given_up, [])
      | (Ok secondaries, _) \<Rightarrow>
     (case acceptObservers (io_listenObservers io) (io_acceptObserver io) primary of
        (Err e, given_up) \<Rightarrow> Some (Err e, map rs_conn secondaries, given_up)
      | (Panic p, given_up) \<Rightarrow> Some (Panic p, map rs_conn secondaries, given_up)
      | (Ok observers, _) \<Rightarrow>
          (let env = (ci_env ci)\<lparr>env_path := np_BenchmarkPath primary, env_setup := setup\<rparr> in
           Nprimary_session primary
             (parseBenchmarkYamlPath (io_Open io) (io_DecodeBenchmark io) env (io_order io)
               (newSystem env (np_MasterSeed primary) secondaries builder)) observers))))))"

section \<open>The secondary\<close>

record ('cl, 'op) Nsecondary =
  ns_connectAddr :: string
  ns_env :: "string list"
  ns_tags :: "string list"
  ns_systemMap :: "string \<rightharpoonup> ('cl, 'op) chain"

definition port_string :: "int \<Rightarrow> string" where
  "port_string n = (if n < 0 then ''-'' @ decimal (nat (- n)) else decimal (nat n))"

definition NewNsecondary ::
  "string \<Rightarrow> int \<Rightarrow> string list \<Rightarrow> string list \<Rightarrow> (string \<rightharpoonup> ('cl, 'op) chain) \<Rightarrow> ('cl, 'op) Nsecondary" where
  "NewNsecondary primaryAddr primaryPort env tags systemMap =
     \<lparr>ns_connectAddr = primaryAddr @ '':'' @ port_string primaryPort, ns_env = env, ns_tags = tags,
      ns_systemMap = systemMap\<rparr>"

text \<open>
  \<^verbatim>\<open>Run\<close> as a relation to its outcomes, since the goroutines of the interactions interleave: the
  returned error and the connection as it is left, if there is one. The deferred \<^verbatim>\<open>rt.Close\<close> runs
  after every return that follows \<^verbatim>\<open>newRuntime\<close>; when \<^verbatim>\<open>newRuntime\<close> fails nothing closes the connection.
\<close>

definition no_result :: "'a outcome \<Rightarrow> unit outcome" where
  "no_result r = (case r of Ok _ \<Rightarrow> Ok () | Err e \<Rightarrow> Err e | Panic p \<Rightarrow> Panic p)"

definition left_open :: "('cl, 'op) runtime \<Rightarrow> conn option" where
  "left_open rt = Some (rt_conn (snd (runtime_Close rt)))"

inductive Nsecondary_Run ::
  "('cl, 'op) Nsecondary \<Rightarrow> (string \<Rightarrow> conn outcome)
     \<Rightarrow> (('cl, 'op) runtimeInteraction outcome list \<Rightarrow> ('cl, 'op) runtimeInteraction outcome list)
     \<Rightarrow> unit outcome \<times> conn option \<Rightarrow> bool"
  for sec dial arrival where
  dial_error:
    "dial (ns_connectAddr sec) = Err e \<Longrightarrow>
     Nsecondary_Run sec dial arrival
       (Err (Errorf ''cannot connect to tcp'' [AStr (ns_connectAddr sec), AErr e]), None)"
| runtime_error:
    "dial (ns_connectAddr sec) = Ok net \<Longrightarrow>
     newRuntime (ns_env sec) (ns_tags sec) (ns_systemMap sec) net = (r, c) \<Longrightarrow> \<not> is_Ok r \<Longrightarrow>
     Nsecondary_Run sec dial arrival (no_result r, Some c)"
| prepare_error:
    "dial (ns_connectAddr sec) = Ok net \<Longrightarrow>
     newRuntime (ns_env sec) (ns_tags sec) (ns_systemMap sec) net = (Ok rt, c) \<Longrightarrow>
     prepare arrival rt = (r, rt1) \<Longrightarrow> \<not> is_Ok r \<Longrightarrow>
     Nsecondary_Run sec dial arrival (r, left_open rt1)"
| begin_error:
    "dial (ns_connectAddr sec) = Ok net \<Longrightarrow>
     newRuntime (ns_env sec) (ns_tags sec) (ns_systemMap sec) net = (Ok rt, c) \<Longrightarrow>
     prepare arrival rt = (Ok (), rt1) \<Longrightarrow> run_begin start rt1 = (r, rt2) \<Longrightarrow> \<not> is_Ok r \<Longrightarrow>
     Nsecondary_Run sec dial arrival (no_result r, left_open rt2)"
| stop_error:
    "dial (ns_connectAddr sec) = Ok net \<Longrightarrow>
     newRuntime (ns_env sec) (ns_tags sec) (ns_systemMap sec) net = (Ok rt, c) \<Longrightarrow>
     prepare arrival rt = (Ok (), rt1) \<Longrightarrow> run_begin start rt1 = (Ok msg, rt2) \<Longrightarrow> start \<le> t0 \<Longrightarrow>
     rt_run (machine_start rt2 t0) m \<Longrightarrow> m_phase m = Failed e \<Longrightarrow>
     Nsecondary_Run sec dial arrival (Err e, left_open (m_rt m))"
| success:
    "dial (ns_connectAddr sec) = Ok net \<Longrightarrow>
     newRuntime (ns_env sec) (ns_tags sec) (ns_systemMap sec) net = (Ok rt, c) \<Longrightarrow>
     prepare arrival rt = (Ok (), rt1) \<Longrightarrow> run_begin start rt1 = (Ok msg, rt2) \<Longrightarrow> start \<le> t0 \<Longrightarrow>
     rt_run (machine_start rt2 t0) m \<Longrightarrow> m_phase m = Finished \<Longrightarrow>
     Nsecondary_Run sec dial arrival (Ok (), left_open (m_rt m))"

section \<open>What the primary sends, whatever it receives\<close>

lemma on_conn_snd: "on_conn m rs = (fst (m (rs_conn rs)), rs\<lparr>rs_conn := snd (m (rs_conn rs))\<rparr>)"
  by (simp add: on_conn_def gzoom_def split: prod.splits)

lemma each_ignore_any:
  assumes "\<And>i. i < length ss \<Longrightarrow> (\<forall>p. fst (m (ss ! i)) \<noteq> Panic p) \<and> Q i (snd (m (ss ! i)))"
  shows "\<exists>ss'. each_ignore m ss = (Ok (), ss') \<and> length ss' = length ss \<and> (\<forall>i < length ss. Q i (ss' ! i))"
  using assms
proof (induction ss arbitrary: Q)
  case (Cons s ss)
  have "(\<forall>p. fst (m (ss ! i)) \<noteq> Panic p) \<and> Q (Suc i) (snd (m (ss ! i)))" if "i < length ss" for i
    using Cons.prems [of "Suc i"] that by simp
  from Cons.IH [of "\<lambda>i. Q (Suc i)", OF this] obtain ss' where ss': "each_ignore m ss = (Ok (), ss')"
    "length ss' = length ss" "\<forall>i < length ss. Q (Suc i) (ss' ! i)" by blast
  obtain r s' where m: "m s = (r, s')" by force
  have "Q i ((s' # ss') ! i)" if "i < Suc (length ss)" for i
    using that ss'(3) Cons.prems [of 0] m by (cases i) auto
  then show ?case using ss' Cons.prems [of 0] m by (cases r) auto
qed simp

text \<open>The end of the preparation is sent whether or not the secondary answers as it should.\<close>

lemma ready_writes:
  assumes "conn_good (rs_conn rs)"
  shows "(\<forall>p. fst (remoteSecondary_ready rs) \<noteq> Panic p) \<and> conn_good (rs_conn (snd (remoteSecondary_ready rs))) \<and>
    conn_written (rs_conn (snd (remoteSecondary_ready rs))) =
      conn_written (rs_conn rs) @ wire_prepare MsgPrepareDone"
proof -
  let ?w = "gbind (encode_msgPrepare bufio_write MsgPrepareDone) (\<lambda>_. bufio_flush)"
  obtain c where c: "?w (rs_conn rs) = (Ok (), c)" "conn_good c"
    "c_buf c = []" "c_out c = conn_written (rs_conn rs) @ wire_prepare MsgPrepareDone"
    using emit_flush [OF bufio.encode_prepare_emits conn_keeps(3) assms, of MsgPrepareDone] by auto
  have eq: "secondaryConn_syncReady = gbind ?w (\<lambda>_. gbind (on_reader decodeMsgPrepare) (\<lambda>_. gret ()))"
    by (simp add: secondaryConn_syncReady_def gbind_assoc)
  have "secondaryConn_syncReady (rs_conn rs) = gbind (on_reader decodeMsgPrepare) (\<lambda>_. gret ()) c"
    unfolding eq gbind_Ok [where m = ?w and s = "rs_conn rs", OF c(1)] ..
  moreover have "fst (decodeMsgPrepare (c_rd c)) \<noteq> Panic p" for p using decoders_total by blast
  ultimately have "(\<forall>p. fst (secondaryConn_syncReady (rs_conn rs)) \<noteq> Panic p) \<and>
      (\<exists>rd. snd (secondaryConn_syncReady (rs_conn rs)) = c\<lparr>c_rd := rd\<rparr>)"
    by (auto simp: gbind_def gret_def on_reader_run split: outcome.splits)
  then show ?thesis
    using c by (auto simp: remoteSecondary_ready_def on_conn_snd conn_good_def conn_written_def)
qed

lemma start_writes:
  assumes "conn_good (rs_conn rs)"
  shows "(\<forall>p. fst (remoteSecondary_start d rs) \<noteq> Panic p) \<and>
    c_out (rs_conn (snd (remoteSecondary_start d rs))) = conn_written (rs_conn rs) @ wire_start \<lparr>mst_duration = d\<rparr>"
proof -
  obtain c where "secondaryConn_sendStart \<lparr>mst_duration = d\<rparr> (rs_conn rs) = (Ok (), c)"
    "c_out c = conn_written (rs_conn rs) @ wire_start \<lparr>mst_duration = d\<rparr>"
    using sendStart_good [OF assms] by metis
  then show ?thesis by (simp add: remoteSecondary_start_def on_conn_snd)
qed

lemma collect_loop_out: "c_out (snd (collect_loop addr clients res c)) = c_out c"
proof (induction addr clients res c rule: collect_loop.induct)
  case (1 addr clients res c)
  have "c_out (snd (secondaryConn_pullResult c)) = c_out c"
    by (simp add: secondaryConn_pullResult_def on_reader_run)
  then show ?case
    using "1.IH" by (subst collect_loop.simps) (auto split: prod.splits outcome.splits msgResult.splits)
qed

lemma collect_out: "c_out (rs_conn (snd (collect rs))) = c_out (rs_conn rs)"
  by (simp add: collect_def on_conn_snd collect_loop_out)

lemma Close_out: "c_out (rs_conn (snd (remoteSecondary_Close rs))) = c_out (rs_conn rs)"
  by (simp add: remoteSecondary_Close_def on_conn_snd secondaryConn_Close_def conn_Close_def)

lemma collect_all_out:
  "map (\<lambda>rs. c_out (rs_conn rs)) (snd (collect_all result rss)) = map (\<lambda>rs. c_out (rs_conn rs)) rss"
proof (induction rss arbitrary: result)
  case (Cons rs rss)
  obtain r rs' where c: "collect rs = (r, rs')" by force
  then have "c_out (rs_conn rs') = c_out (rs_conn rs)" using collect_out [of rs] by simp
  moreover have "map (\<lambda>rs. c_out (rs_conn rs)) rss' = map (\<lambda>rs. c_out (rs_conn rs)) rss"
    if "collect_all (addSecondary sr result) rss = (r', rss')" for sr r' rss'
    using Cons.IH [of "addSecondary sr result"] that by simp
  ultimately show ?case using c by (cases r) (auto simp: Close_out split: prod.splits)
qed simp

text \<open>What has gone out on the connections when \<^verbatim>\<open>Run\<close> returns, with or without a result.\<close>

lemma Nprimary_Run_end_out:
  assumes "\<And>i. i < length rss \<Longrightarrow> conn_good (rs_conn (rss ! i))" and "\<And>i. i < length obs \<Longrightarrow> conn_good (ro_conn (obs ! i))"
    and "Nprimary_Run_end primary (rss, obs) = (r, rss', obs')" and "i < length rss"
  shows "length rss' = length rss \<and> c_out (rs_conn (rss' ! i)) = conn_written (rs_conn (rss ! i)) @
    wire_prepare MsgPrepareDone @ wire_start \<lparr>mst_duration = benchmark_duration rss\<rparr>"
proof -
  let ?d = "benchmark_duration rss"
  from each_ignore_any [where m = remoteSecondary_ready and ss = rss and Q = "\<lambda>i rs. conn_good (rs_conn rs) \<and>
      conn_written (rs_conn rs) = conn_written (rs_conn (rss ! i)) @ wire_prepare MsgPrepareDone", OF ready_writes [OF assms(1)]]
  obtain rss1 where 1: "each_ignore remoteSecondary_ready rss = (Ok (), rss1)" "length rss1 = length rss"
    "\<And>i. i < length rss \<Longrightarrow> conn_good (rs_conn (rss1 ! i)) \<and>
      conn_written (rs_conn (rss1 ! i)) = conn_written (rs_conn (rss ! i)) @ wire_prepare MsgPrepareDone" by blast
  have good1: "i < length rss1 \<Longrightarrow> conn_good (rs_conn (rss1 ! i))" for i using 1(2,3) by simp
  from each_ignore_any [where m = "remoteSecondary_start ?d" and ss = rss1 and Q = "\<lambda>i rs. c_out (rs_conn rs) =
      conn_written (rs_conn (rss1 ! i)) @ wire_start \<lparr>mst_duration = ?d\<rparr>", OF start_writes [OF good1]]
  obtain rss2 where 2: "each_ignore (remoteSecondary_start ?d) rss1 = (Ok (), rss2)" "length rss2 = length rss1"
    "\<And>i. i < length rss1 \<Longrightarrow> c_out (rs_conn (rss2 ! i)) =
      conn_written (rs_conn (rss1 ! i)) @ wire_start \<lparr>mst_duration = ?d\<rparr>" by blast
  obtain obs1 obs2 where o: "each_ignore (remoteObserver_start ?d) obs = (Ok (), obs1)"
    "each_ignore remoteObserver_Close obs1 = (Ok (), obs2)"
    using observers_start_close [OF assms(2), where d = ?d] by metis
  have "rss' = snd (collect_all (newResult (np_MasterSeed primary)) rss2)"
    using assms(3) 1(1) 2(1) o
    by (auto simp: Nprimary_Run_end_def gbind_def gzoom_def gread_def gret_def split: prod.splits outcome.splits)
  then have out: "map (\<lambda>rs. c_out (rs_conn rs)) rss' = map (\<lambda>rs. c_out (rs_conn rs)) rss2"
    by (simp only: collect_all_out)
  then have len: "length rss' = length rss2" by (metis length_map)
  with out have "c_out (rs_conn (rss' ! i)) = c_out (rs_conn (rss2 ! i))"
    using assms(4) 1(2) 2(2) by (metis nth_map)
  then show ?thesis using len assms(4) 1 2 by simp
qed

section \<open>The handshake\<close>

definition primary_params :: "parsedSetup \<Rightarrow> Nprimary \<Rightarrow> msgPrimaryParameters" where
  "primary_params setup primary = \<lparr>mpp_sysname = ps_sysname setup, mpp_chainParams = ps_parameters setup,
     mpp_maxDelay = np_MaxDelay primary, mpp_maxSkew = np_MaxSkew primary\<rparr>"

lemma newRemoteSecondary_OkE:
  assumes "newRemoteSecondary it1 it2 setup primary net = (Ok rs, c')"
  obtains ms c where "secondaryConn_init it1 it2 (primary_params setup primary) net = (Ok ms, c)"
    and "rs = \<lparr>rs_conn = c, rs_params = \<lparr>msp_tags = msp_tags ms @ [c_addr c]\<rparr>, rs_clients = []\<rparr>"
  using assms unfolding newRemoteSecondary_def primary_params_def [symmetric]
  by (auto simp: gread_run secondaryConn_addr_def elim!: gbind_OkE)

lemma secondaryConn_init_Ok:
  assumes "secondaryConn_init it1 it2 mp net = (Ok ms, c)" and "conn_good net"
    and "gomap_order (mpp_chainParams mp) it1"
  shows "primary_fits mp \<and> conn_good c \<and> conn_written c = conn_written net @ wire_primary it2 mp"
proof -
  let ?w = "gbind (encode_msgPrimaryParameters bufio_write it1 it2 mp) (\<lambda>_. bufio_flush)"
  have eq: "secondaryConn_init it1 it2 mp = gbind ?w (\<lambda>_. on_reader decodeMsgSecondaryParameters)"
    by (simp add: secondaryConn_init_def gbind_assoc)
  have fits: "primary_fits mp"
  proof (rule ccontr)
    assume "\<not> primary_fits mp"
    from encode_primary_refused [OF assms(3) this, of bufio_write it2 net] obtain e where
      "encode_msgPrimaryParameters bufio_write it1 it2 mp net = (Err e, net)" by blast
    then show False using assms(1) by (simp add: secondaryConn_init_def gbind_Err)
  qed
  obtain c1 where c1: "?w net = (Ok (), c1)" "conn_good c1" "c_buf c1 = []"
    "c_out c1 = conn_written net @ wire_primary it2 mp"
    using emit_flush [OF bufio.encode_primary_emits [OF assms(3) fits] conn_keeps(1) assms(2)] by metis
  have "on_reader decodeMsgSecondaryParameters c1 = (Ok ms, c)"
    using assms(1) unfolding eq gbind_Ok [where m = ?w and s = net, OF c1(1)] .
  then show ?thesis using fits c1(2-4) by (auto simp: on_reader_run conn_good_def conn_written_def)
qed

text \<open>An accepted secondary as the benchmark finds it.\<close>

lemma accepted_secondary:
  assumes "newRemoteSecondary it1 it2 setup primary net = (Ok rs, c)" and "conn_good net"
    and "conn_written net = []" and "gomap_order (ps_parameters setup) it1"
  shows "primary_fits (primary_params setup primary)" and "remote_inv rs" and "rs_clients rs = []"
    and "conn_good (rs_conn rs)" and "conn_written (rs_conn rs) = wire_primary it2 (primary_params setup primary)"
proof -
  obtain ms c1 where init: "secondaryConn_init it1 it2 (primary_params setup primary) net = (Ok ms, c1)"
    and rs: "rs = \<lparr>rs_conn = c1, rs_params = \<lparr>msp_tags = msp_tags ms @ [c_addr c1]\<rparr>, rs_clients = []\<rparr>"
    using newRemoteSecondary_OkE [OF assms(1)] .
  have "gomap_order (mpp_chainParams (primary_params setup primary)) it1" using assms(4) by (simp add: primary_params_def)
  from secondaryConn_init_Ok [OF init assms(2) this] rs assms(3)
  show "primary_fits (primary_params setup primary)" "remote_inv rs" "rs_clients rs = []" "conn_good (rs_conn rs)"
    "conn_written (rs_conn rs) = wire_primary it2 (primary_params setup primary)"
    by (simp_all add: remote_inv_def)
qed

lemma accepted_input:
  assumes "newRemoteSecondary it1 it2 setup primary net = (Ok rs, c)" and "conn_good net"
    and "conn_written net = []" and "gomap_order (ps_parameters setup) it1"
    and "r_input (c_rd net) = wire_secondary ms @ rest" and "secondary_fits ms"
  shows "r_input (c_rd (rs_conn rs)) = rest"
proof -
  obtain ms' c1 where init: "secondaryConn_init it1 it2 (primary_params setup primary) net = (Ok ms', c1)"
    and rs: "rs = \<lparr>rs_conn = c1, rs_params = \<lparr>msp_tags = msp_tags ms' @ [c_addr c1]\<rparr>, rs_clients = []\<rparr>"
    using newRemoteSecondary_OkE [OF assms(1)] .
  have "gomap_order (mpp_chainParams (primary_params setup primary)) it1" using assms(4) by (simp add: primary_params_def)
  from secondaryConn_init_good [OF assms(2,5,6) this accepted_secondary(1) [OF assms(1-4)], of it2] obtain c2 where
    "secondaryConn_init it1 it2 (primary_params setup primary) net = (Ok ms, c2)"
    "c_rd c2 = (c_rd net)\<lparr>r_input := rest\<rparr>" by metis
  then show ?thesis using rs init by simp
qed

section \<open>What the secondary sends\<close>

lemma newRuntime_forward:
  assumes "newRuntime env tags systemMap net = (Ok rt, c)" and "conn_good net" and "conn_written net = []"
    and "r_input (c_rd net) = wire_primary it mp @ rest" and "primary_valid (it, mp)"
    and "systemMap (mpp_sysname mp) = Some ch"
  shows "secondary_fits \<lparr>msp_tags = tags\<rparr>" and "rt_input rt = rest" and "rt_chain rt = ch"
    and "rt_clients rt = []" and "rt_interactions rt = []" and "conn_good (rt_conn rt)"
    and "conn_written (rt_conn rt) = wire_secondary \<lparr>msp_tags = tags\<rparr>" and "mpp_chainParams (rt_params rt) = it"
proof -
  show fits: "secondary_fits \<lparr>msp_tags = tags\<rparr>"
  proof (rule ccontr)
    assume "\<not> secondary_fits \<lparr>msp_tags = tags\<rparr>"
    then have refused: "\<exists>e. encode_msgSecondaryParameters bufio_write \<lparr>msp_tags = tags\<rparr> c' = (Err e, c')" for c'
      by (rule encode_secondary_refused)
    obtain c1 c2 where "encode_msgSecondaryParameters bufio_write \<lparr>msp_tags = tags\<rparr> c1 = (Ok (), c2)"
      using assms(1) by (auto simp: newRuntime_def primaryConn_init_def elim!: gbind_OkE)
    then show False using refused [of c1] by simp
  qed
  obtain c1 where c1: "primaryConn_init \<lparr>msp_tags = tags\<rparr> net = (Ok (mp\<lparr>mpp_chainParams := it\<rparr>), c1)"
    "conn_good c1" "c_buf c1 = []" "c_out c1 = conn_written net @ wire_secondary \<lparr>msp_tags = tags\<rparr>"
    "c_rd c1 = (c_rd net)\<lparr>r_input := rest\<rparr>"
    using primaryConn_init_good [OF assms(2,4,5) fits] by metis
  have "rt = \<lparr>rt_conn = c1, rt_params = mp\<lparr>mpp_chainParams := it\<rparr>, rt_chainEnv = env, rt_chain = ch,
      rt_clients = [], rt_start = 0, rt_lastSkewWarn = 0, rt_interactions = [], rt_lastDelayWarn = 0, rt_log = []\<rparr>"
    using assms(1,6) by (auto simp: newRuntime_def gbind_Ok [where m = "primaryConn_init \<lparr>msp_tags = tags\<rparr>" and s = net, OF c1(1)] gread_run)
  then show "rt_input rt = rest" "rt_chain rt = ch" "rt_clients rt = []" "rt_interactions rt = []"
    "conn_good (rt_conn rt)" "conn_written (rt_conn rt) = wire_secondary \<lparr>msp_tags = tags\<rparr>"
    "mpp_chainParams (rt_params rt) = it"
    using c1 assms(3) by (simp_all add: rt_input_def conn_written_def)
qed

lemma run_begin_forward:
  assumes "run_begin start rt = (Ok msg, rt')" and "conn_good (rt_conn rt)"
  shows "mset (rt_interactions rt') = mset (rt_interactions rt)" and "rt_start rt' = start"
    and "conn_written (rt_conn rt') = conn_written (rt_conn rt) @ wire_prepare MsgPrepareDone"
proof -
  obtain rt1 rt2 where run: "rt_on_conn primaryConn_syncReady
      (rt\<lparr>rt_interactions := sort_interactions (rt_interactions rt)\<rparr>) = (Ok (), rt1)"
    "rt_on_conn primaryConn_waitStart rt1 = (Ok msg, rt2)"
    "rt' = rt2\<lparr>rt_start := start, rt_lastSkewWarn := start, rt_lastDelayWarn := start\<rparr>"
    using assms(1) by (auto simp: run_begin_def gmodify_run gret_run elim!: gbind_OkE)
  let ?w = "gbind (encode_msgPrepare bufio_write MsgPrepareDone) (\<lambda>_. bufio_flush)"
  obtain c where c: "?w (rt_conn rt) = (Ok (), c)" "c_buf c = []"
    "c_out c = conn_written (rt_conn rt) @ wire_prepare MsgPrepareDone"
    using emit_flush [OF bufio.encode_prepare_emits conn_keeps(3) assms(2), of MsgPrepareDone] by auto
  have "primaryConn_syncReady (rt_conn rt) = (Ok (), c)" using c(1) by (simp add: primaryConn_syncReady_def)
  then have "rt1 = rt\<lparr>rt_interactions := sort_interactions (rt_interactions rt), rt_conn := c\<rparr>"
    using run(1) by (simp add: rt_on_conn_def gzoom_def)
  then show "mset (rt_interactions rt') = mset (rt_interactions rt)" "rt_start rt' = start"
    "conn_written (rt_conn rt') = conn_written (rt_conn rt) @ wire_prepare MsgPrepareDone"
    using run(2,3) c(2,3) sort_interactions_sorted(2)
    by (auto simp: rt_on_conn_def gzoom_def primaryConn_waitStart_def on_reader_run conn_written_def)
qed

text \<open>
  All that a secondary sends in a successful run: its parameters, the end of its preparation and
  one result for each interaction that was announced to it.
\<close>

lemma secondary_sends:
  fixes sec :: "('cl, 'op) Nsecondary"
  assumes "Nsecondary_Run sec dial arrival (Ok (), Some c)" and "dial (ns_connectAddr sec) = Ok net"
    and "conn_good net" and "conn_written net = []" and "primary_valid (it, mp)"
    and "r_input (c_rd net) = wire_primary it mp @ concat (map wire_prepare (op_msgs [] ops)) @ wire_prepare MsgPrepareDone @ rest"
    and "ns_systemMap sec (mpp_sysname mp) = Some ch" and "\<And>ds. mset (arrival ds) = mset ds"
    and "ops_ok [] ops" and "length (client_views (op_msgs [] ops)) \<le> 256"
  obtains start and snaps :: "('cl, 'op) runtimeInteraction list" where "secondary_fits \<lparr>msp_tags = ns_tags sec\<rparr>"
    and "mset (map iact_ref snaps) = mset (map (\<lambda>m. (mpi_index m, mpi_ikind m)) (announced (op_msgs [] ops)))"
    and "c_out c = wire_secondary \<lparr>msp_tags = ns_tags sec\<rparr> @ wire_prepare MsgPrepareDone @
      result_stream (map (stop_msg start) snaps) @ wire_result MsgResultDone"
  using assms(1)
proof (cases rule: Nsecondary_Run.cases)
  case (success net' rt c' rt1 start msg rt2 t0 m)
  then have rt: "newRuntime (ns_env sec) (ns_tags sec) (ns_systemMap sec) net = (Ok rt, c')" using assms(2) by simp
  note hs = newRuntime_forward [OF rt assms(3,4,6,5,7)]
  let ?ri = "runtime_interaction (rt_client rt) (rt_decode rt) (client_views (op_msgs [] ops))"
  let ?ann = "announced (op_msgs [] ops)"
  have rt1: "mset (rt_interactions rt1) = mset (map ?ri ?ann)" "conn_good (rt_conn rt1)"
    "conn_written (rt_conn rt1) = wire_secondary \<lparr>msp_tags = ns_tags sec\<rparr>"
    using prepare_ops_iff(2) [OF assms(9) hs(2) hs(4,5) assms(8) success(4)] few_clients_announced [OF assms(9,10)] hs(6,7)
    by (simp_all add: conn_good_def conn_written_def)
  note rb = run_begin_forward [OF success(5) rt1(2)]
  have ias: "mset (rt_interactions rt2) = mset (map ?ri ?ann)" using rb(1) rt1(1) by simp
  then have "set (rt_interactions rt2) = ?ri ` set ?ann" by (metis list.set_map set_mset_mset)
  then have "list_all untouched (rt_interactions rt2)"
    by (auto simp: list_all_iff runtime_interaction_untouched)
  then obtain snaps :: "('cl, 'op) runtimeInteraction list" where
    snaps: "map iact_ref snaps = map iact_ref (rt_interactions rt2)"
      "c_out (rt_conn (m_rt m)) = conn_written (rt_conn rt2) @
        result_stream (map (stop_msg (rt_start rt2)) snaps) @ wire_result MsgResultDone"
    using finished_run_snaps [of rt2 t0 m] success rb(2) by metis
  have "mset (map iact_ref snaps) = image_mset iact_ref (mset (map ?ri ?ann))"
    unfolding snaps(1) mset_map [of iact_ref] ias ..
  then have refs: "mset (map iact_ref snaps) = mset (map (\<lambda>m. (mpi_index m, mpi_ikind m)) ?ann)"
    by (simp add: multiset.map_comp comp_def runtime_interaction_ref)
  have "c_out c = c_out (rt_conn (m_rt m))"
    using success(1) by (simp add: left_open_def runtime_Close_def rt_on_conn_def gzoom_def primaryConn_Close_def conn_Close_def)
  then show thesis using that [OF hs(1) refs] snaps(2) rb(3) rt1(3) by simp
qed (auto simp: is_Ok_def no_result_def split: outcome.splits)

text \<open>Conversely a secondary that receives a preparation and a start can run to its end.\<close>

lemma newRuntime_good:
  assumes "conn_good net" and "r_input (c_rd net) = wire_primary it mp @ rest" and "primary_valid (it, mp)"
    and "systemMap (mpp_sysname mp) = Some ch" and "secondary_fits \<lparr>msp_tags = tags\<rparr>"
  obtains rt c where "newRuntime env tags systemMap net = (Ok rt, c)"
proof -
  obtain c1 where c1: "primaryConn_init \<lparr>msp_tags = tags\<rparr> net = (Ok (mp\<lparr>mpp_chainParams := it\<rparr>), c1)"
    using primaryConn_init_good [OF assms(1-3,5)] by metis
  show thesis
    by (rule that) (simp add: newRuntime_def gbind_Ok [where m = "primaryConn_init \<lparr>msp_tags = tags\<rparr>" and s = net, OF c1] gread_run assms(4))
qed

lemma run_begin_good:
  assumes "conn_good (rt_conn rt)" and "rt_input rt = wire_start sm @ rest"
  obtains rt' where "run_begin start rt = (Ok sm, rt')" and "conn_good (rt_conn rt')"
proof -
  let ?rt = "rt\<lparr>rt_interactions := sort_interactions (rt_interactions rt)\<rparr>"
  let ?w = "gbind (encode_msgPrepare bufio_write MsgPrepareDone) (\<lambda>_. bufio_flush)"
  obtain c where c: "?w (rt_conn rt) = (Ok (), c)" "conn_good c" "c_rd c = c_rd (rt_conn rt)"
    using emit_flush [OF bufio.encode_prepare_emits conn_keeps(3) assms(1), of MsgPrepareDone] by auto
  have sync: "rt_on_conn primaryConn_syncReady ?rt = (Ok (), ?rt\<lparr>rt_conn := c\<rparr>)"
    using c(1) by (simp add: rt_on_conn_def gzoom_def primaryConn_syncReady_def)
  have "on_reader decodeMsgStart c = (Ok sm, c\<lparr>c_rd := (c_rd c)\<lparr>r_input := rest\<rparr>\<rparr>)"
    using on_reader_codec [OF start_codec.codec_axioms, where x = sm and c = c and rest = rest] assms(2) c(3) by (simp add: rt_input_def)
  then have wait: "rt_on_conn primaryConn_waitStart (?rt\<lparr>rt_conn := c\<rparr>) =
      (Ok sm, ?rt\<lparr>rt_conn := c\<lparr>c_rd := (c_rd c)\<lparr>r_input := rest\<rparr>\<rparr>\<rparr>)"
    by (simp add: rt_on_conn_def gzoom_def primaryConn_waitStart_def)
  show thesis
    by (rule that) (use c(2) in \<open>auto simp: run_begin_def gmodify_run gbind_def sync wait gret_run conn_good_def\<close>)
qed

lemma announced_fit:
  assumes "ops_ok [] ops"
    and "mset (rt_interactions rt) = mset (map (runtime_interaction mk dcd views) (announced (map view_prepare (op_msgs [] ops))))"
  shows "results_fit rt"
proof -
  have "rtc_id (ri_client ia) < 2 ^ 32 \<and> ri_ikind ia \<le> 255" if "ia \<in> set (rt_interactions rt)" for ia
  proof -
    from arg_cong [OF assms(2), of set_mset] that obtain m where "m \<in> set (announced (op_msgs [] ops))"
      "ia = runtime_interaction mk dcd views (m\<lparr>mpi_index := mpi_index m mod 256\<rparr>)"
      by (auto simp: view_prepare_announced)
    moreover have "k mod 256 < 2 ^ 32" for k :: int
      by (rule less_trans [OF pos_mod_bound]) simp_all
    ultimately show ?thesis
      using announced_valid [OF op_msgs_valid [OF assms(1)], of m]
      by (auto simp: runtime_interaction_def newRuntimeInteraction_def newRuntimeClient_def)
  qed
  then show ?thesis by (simp add: results_fit_def list_all_iff)
qed

lemma secondary_can_run:
  assumes "dial (ns_connectAddr sec) = Ok net" and "conn_good net" and "conn_written net = []" and "primary_valid (it, mp)"
    and "r_input (c_rd net) = wire_primary it mp @ concat (map wire_prepare (op_msgs [] ops)) @
      wire_prepare MsgPrepareDone @ wire_start sm @ rest"
    and "ns_systemMap sec (mpp_sysname mp) = Some ch" and "\<And>ds. mset (arrival ds) = mset ds"
    and "ops_ok [] ops" and "secondary_fits \<lparr>msp_tags = ns_tags sec\<rparr>"
    and "\<And>rt. mpp_chainParams (rt_params rt) = it \<Longrightarrow> rt_chain rt = ch \<Longrightarrow>
      rt_accepts rt (client_views (op_msgs [] ops)) (announced (map view_prepare (op_msgs [] ops)))"
  shows "\<exists>c. Nsecondary_Run sec dial arrival (Ok (), Some c)"
proof -
  obtain rt c where rt: "newRuntime (ns_env sec) (ns_tags sec) (ns_systemMap sec) net = (Ok rt, c)"
    using newRuntime_good [where systemMap = "ns_systemMap sec", OF assms(2,5,4,6,9)] .
  note hs = newRuntime_forward [OF rt assms(2,3,5,4,6)]
  obtain rt1 where rt1: "prepare arrival rt = (Ok (), rt1)"
    "mset (rt_interactions rt1) = mset (map (runtime_interaction (rt_client rt) (rt_decode rt) (client_views (op_msgs [] ops)))
      (announced (map view_prepare (op_msgs [] ops))))"
    "rt_input rt1 = wire_start sm @ rest"
    "rt_conn rt1 = (rt_conn rt)\<lparr>c_rd := (c_rd (rt_conn rt))\<lparr>r_input := wire_start sm @ rest\<rparr>\<rparr>"
    using prepare_ops [OF assms(8) hs(2) hs(4,5) assms(7) assms(10) [OF hs(8,3)]] by metis
  have good: "conn_good (rt_conn rt1)" using hs(6) rt1(4) by (simp add: conn_good_def)
  obtain rt2 where rt2: "run_begin 0 rt1 = (Ok sm, rt2)" "conn_good (rt_conn rt2)"
    using run_begin_good [OF good rt1(3)] .
  have "results_fit rt2"
    using run_begin_forward(1) [OF rt2(1) good] rt1(2) by (intro announced_fit [OF assms(8)]) simp
  then obtain m where "rt_run (machine_start rt2 0) m" "m_phase m = Finished"
    using finish_releasing [of "machine_start rt2 0" "length (rt_interactions rt2)"] rt2(2)
    by (auto simp: machine_start_def)
  from success [where dial = dial and sec = sec and arrival = arrival, OF assms(1) rt rt1(1) rt2(1) order_refl this]
  show ?thesis by (auto simp: left_open_def)
qed

section \<open>A session\<close>

text \<open>
  A connection between the primary and a secondary: the primary's end as \<^verbatim>\<open>Accept\<close> returned it, the
  secondary's end as \<^verbatim>\<open>Dial\<close> returned it and as \<^verbatim>\<open>Run\<close> has left it. The connection is \<open>linked\<close> when the
  handshake gave \<open>rs\<close> to the primary, the secondary's run succeeded, and each end received what the
  other end had sent by the end, \<open>final\<close> being the primary's end.
\<close>

record ('cl, 'op) link =
  lk_net :: conn
  lk_sec :: "('cl, 'op) Nsecondary"
  lk_dial :: conn
  lk_arrival :: "('cl, 'op) runtimeInteraction outcome list \<Rightarrow> ('cl, 'op) runtimeInteraction outcome list"
  lk_end :: conn

definition linked ::
  "parsedSetup \<Rightarrow> Nprimary \<Rightarrow> (string \<times> string) list \<times> (string \<times> string) list \<Rightarrow> remoteSecondary \<Rightarrow> conn
     \<Rightarrow> ('cl, 'op) link \<Rightarrow> bool" where
  "linked setup primary its rs final lk \<longleftrightarrow>
     gomap_order (ps_parameters setup) (fst its) \<and> gomap_order (ps_parameters setup) (snd its) \<and>
     (\<exists>c. newRemoteSecondary (fst its) (snd its) setup primary (lk_net lk) = (Ok rs, c)) \<and>
     conn_good (lk_net lk) \<and> conn_written (lk_net lk) = [] \<and>
     conn_good (lk_dial lk) \<and> conn_written (lk_dial lk) = [] \<and>
     ns_systemMap (lk_sec lk) (ps_sysname setup) \<noteq> None \<and>
     (\<forall>ds. mset (lk_arrival lk ds) = mset ds) \<and>
     Nsecondary_Run (lk_sec lk) (\<lambda>_. Ok (lk_dial lk)) (lk_arrival lk) (Ok (), Some (lk_end lk)) \<and>
     prefix (c_out final) (r_input (c_rd (lk_dial lk))) \<and> prefix (c_out (lk_end lk)) (r_input (c_rd (lk_net lk)))"

text \<open>A linked secondary is ready for the end of the primary's run and will report what it was told to do.\<close>

lemma linked_sent:
  assumes "linked setup primary its rs final lk" and "gfor ops exec_op rs = (Ok (), rs')"
  shows "ops_ok [] ops" and "kinds_of rs' = fold op_kinds ops []" and "sent_from rs (op_msgs [] ops) rs'"
    and "conn_written (rs_conn rs') = wire_primary (snd its) (primary_params setup primary) @
      concat (map wire_prepare (op_msgs [] ops))"
proof -
  obtain c where "newRemoteSecondary (fst its) (snd its) setup primary (lk_net lk) = (Ok rs, c)"
    "conn_good (lk_net lk)" "conn_written (lk_net lk) = []" "gomap_order (ps_parameters setup) (fst its)"
    using assms(1) unfolding linked_def by blast
  note acc = accepted_secondary [OF this]
  have kinds: "kinds_of rs = []" using acc(3) by (simp add: kinds_of_def)
  show ok: "ops_ok [] ops" using exec_ops_ok [OF acc(2,4) assms(2)] by (simp only: kinds)
  obtain rs1 where "gfor ops exec_op rs = (Ok (), rs1)" "kinds_of rs1 = fold op_kinds ops []"
    "sent_from rs (op_msgs [] ops) rs1"
    using exec_ops_spec [OF acc(2,4), of ops, unfolded kinds, OF ok] by metis
  with assms(2) show "kinds_of rs' = fold op_kinds ops []" "sent_from rs (op_msgs [] ops) rs'" by simp_all
  then show "conn_written (rs_conn rs') = wire_primary (snd its) (primary_params setup primary) @
      concat (map wire_prepare (op_msgs [] ops))"
    using acc(5) by (simp add: sent_from_def)
qed

lemma linked_prepared:
  fixes lk :: "('cl, 'op) link"
  assumes "linked setup primary its rs final lk" and "gomap_ok (ps_parameters setup)"
    and "gfor ops exec_op rs = (Ok (), rs')" and "length (rs_clients rs') \<le> 256"
    and "c_out final = conn_written (rs_conn rs') @ wire_prepare MsgPrepareDone @ after"
  obtains ms where "prepared rs' ms"
    and "\<And>cid. mset (map (\<lambda>m. ir_Kind (interaction_of (rs_clients rs') m)) (filter (\<lambda>m. mri_index m = cid) ms)) =
      mset (map snd (filter (\<lambda>(c, kind). int c = cid) (op_interactions ops)))"
proof -
  note sent = linked_sent [OF assms(1,3)]
  let ?mp = "primary_params setup primary" and ?msgs = "op_msgs [] ops"
  have "length (rs_clients rs') = length (fold op_kinds ops [])"
    by (simp only: sent(2) [symmetric] kinds_of_def length_map)
  with assms(4) have views: "length (client_views ?msgs) \<le> 256" by (simp only: length_client_views list.size(3) add_0)
  obtain c ch tail tail2 where lk: "gomap_order (ps_parameters setup) (fst its)" "gomap_order (ps_parameters setup) (snd its)"
    "newRemoteSecondary (fst its) (snd its) setup primary (lk_net lk) = (Ok rs, c)"
    "conn_good (lk_net lk)" "conn_written (lk_net lk) = []" "conn_good (lk_dial lk)" "conn_written (lk_dial lk) = []"
    "ns_systemMap (lk_sec lk) (ps_sysname setup) = Some ch" "\<And>ds. mset (lk_arrival lk ds) = mset ds"
    "Nsecondary_Run (lk_sec lk) (\<lambda>_. Ok (lk_dial lk)) (lk_arrival lk) (Ok (), Some (lk_end lk))"
    "r_input (c_rd (lk_dial lk)) = c_out final @ tail" "r_input (c_rd (lk_net lk)) = c_out (lk_end lk) @ tail2"
    using assms(1) unfolding linked_def prefix_def by blast
  have "primary_fits ?mp" by (rule accepted_secondary(1) [OF lk(3,4,5,1)])
  then have valid: "primary_valid (snd its, ?mp)"
    using lk(2) assms(2) by (simp add: primary_valid_def primary_params_def)
  have inp: "r_input (c_rd (lk_dial lk)) = wire_primary (snd its) ?mp @ concat (map wire_prepare ?msgs) @
      wire_prepare MsgPrepareDone @ after @ tail"
    using lk(11) assms(5) sent(4) by simp
  have name: "ns_systemMap (lk_sec lk) (mpp_sysname ?mp) = Some ch" using lk(8) by (simp add: primary_params_def)
  obtain start and snaps :: "('cl, 'op) runtimeInteraction list" where
    snaps: "secondary_fits \<lparr>msp_tags = ns_tags (lk_sec lk)\<rparr>"
      "mset (map iact_ref snaps) = mset (map (\<lambda>m. (mpi_index m, mpi_ikind m)) (announced ?msgs))"
      "c_out (lk_end lk) = wire_secondary \<lparr>msp_tags = ns_tags (lk_sec lk)\<rparr> @ wire_prepare MsgPrepareDone @
        result_stream (map (stop_msg start) snaps) @ wire_result MsgResultDone"
    using secondary_sends [OF lk(10) HOL.refl lk(6,7) valid inp name lk(9) sent(1) views] .
  let ?ms = "map (stop_msg start) snaps"
  have "r_input (c_rd (rs_conn rs)) = wire_prepare MsgPrepareDone @ result_stream ?ms @ wire_result MsgResultDone @ tail2"
    using lk(12) snaps(3) by (intro accepted_input [OF lk(3,4,5,1) _ snaps(1)]) simp
  then have "prepared rs' ?ms"
    using results_of_ops(1) [OF sent(1,2) snaps(2)] sent(3) by (simp add: prepared_def sent_from_def)
  then show thesis using that [of ?ms] results_of_ops(2) [OF sent(1,2) snaps(2)] by blast
qed

lemma op_interactions_append: "op_interactions (xs @ ys) = op_interactions xs @ op_interactions ys"
  by (induction xs rule: op_interactions.induct) simp_all

lemma op_interactions_clients: "list_all is_client ops \<Longrightarrow> op_interactions ops = []"
  by (induction ops rule: op_interactions.induct) simp_all

lemma op_interactions_schedule:
  assumes "length payloads = length iacts"
  shows "op_interactions (interaction_ops env (zip iacts payloads) i) =
    map (\<lambda>ia. (snd (bi_sendingClient ia), FullPosition (env_path env) (bi_source ia)))
      (filter (\<lambda>ia. fst (bi_sendingClient ia) = i) iacts)"
proof -
  have "op_interactions (interaction_ops env ips i) =
      map (\<lambda>ia. (snd (bi_sendingClient ia), FullPosition (env_path env) (bi_source ia)))
        (filter (\<lambda>ia. fst (bi_sendingClient ia) = i) (map fst ips))" for ips
    by (induction ips) (auto simp: interaction_ops_def interaction_op_def)
  then show ?thesis using assms by simp
qed

text \<open>The interactions of one client among the operations on its secondary, by kind.\<close>

lemma client_interactions:
  assumes "list_all is_client clients" and "length payloads = length iacts"
  shows "map snd (filter (\<lambda>(c, kind). int c = int cid)
      (op_interactions (clients @ interaction_ops env (zip iacts payloads) i))) =
    map (\<lambda>ia. FullPosition (env_path env) (bi_source ia)) (filter (\<lambda>ia. bi_sendingClient ia = (i, cid)) iacts)"
  unfolding op_interactions_append op_interactions_clients [OF assms(1)] op_interactions_schedule [OF assms(2)] append_Nil
  by (induction iacts) (auto simp: prod_eq_iff)

text \<open>
  C1: A whole session, from the benchmark file to the report, with at most 256 clients on each
  secondary: when the secondaries of a primary have been accepted, the benchmark is accepted, and
  every secondary runs to its end without an error (so its chain has created its clients and decoded
  its payloads) over a connection that delivers each way what the other end sent, then the primary
  returns a result. It holds the
  master seed and one location per secondary, and in it every client has exactly one interaction
  for each interaction that the generators scheduled for it, under the position of that interaction
  in the benchmark file, whatever the interleavings at the secondaries.
\<close>

theorem session_reports:
  fixes env :: "('g, 'b, 'r, 'x) env" and lks :: "nat \<Rightarrow> ('cl, 'op) link"
  assumes "blockchain_builder env" and "gomap_ok (ps_parameters setup)"
    and "benchmark_run env order e w = Some (Ok (), w')"
    and "Nprimary_session primary (benchmark_run env order e w) observers = Some (r, scs, ocs)"
    and "\<forall>ro \<in> set observers. conn_good (ro_conn ro)"
    and "\<forall>i < length (w_secondaries w). linked setup primary (its i) (w_secondaries w ! i) (scs ! i) (lks i)"
    and "\<forall>i < length (w_secondaries w). length (rs_clients (w_secondaries w' ! i)) \<le> 256"
  shows "\<exists>result b w1 iacts. r = Ok result \<and> benchmark_parse env e w = (Ok b, w1) \<and>
    benchmark_generate order b = Some (Ok iacts) \<and> res_Seed result = np_MasterSeed primary \<and>
    length (res_Locations result) = length (w_secondaries w) \<and>
    (\<forall>i < length (w_secondaries w). \<forall>cid.
       mset (map ir_Kind (result_of (res_Locations result ! i) (int cid))) =
       mset (map (\<lambda>ia. FullPosition (env_path env) (bi_source ia)) (filter (\<lambda>ia. bi_sendingClient ia = (i, cid)) iacts)))"
proof -
  let ?n = "length (w_secondaries w)"
  obtain b w1 iacts payloads cops where run: "benchmark_parse env e w = (Ok b, w1)"
    "benchmark_generate order b = Some (Ok iacts)" "length payloads = length iacts" "\<forall>i. list_all is_client (cops i)"
    "acts (w_secondaries w) (\<lambda>i. cops i @ interaction_ops env (zip iacts payloads) i) (w_secondaries w')"
    using blockchain_builder.benchmark_run_acts [OF assms(1,3)] by blast
  define ops where "ops i = cops i @ interaction_ops env (zip iacts payloads) i" for i
  have len: "length (w_secondaries w') = ?n" using run(5) by (simp add: acts_def)
  have exec: "gfor (ops i) exec_op (w_secondaries w ! i) = (Ok (), w_secondaries w' ! i)" if "i < ?n" for i
    using run(5) that by (simp add: acts_def ops_def)
  have good: "conn_good (rs_conn (w_secondaries w' ! i))" if "i < ?n" for i
    using linked_sent(3) [OF assms(6) [rule_format, OF that] exec [OF that]] by (simp add: sent_from_def)
  obtain rss' obs' where fin: "Nprimary_Run_end primary (w_secondaries w', observers) = (r, rss', obs')" "scs = map rs_conn rss'"
    using assms(3,4) by (auto simp: Nprimary_session_def split: prod.splits)
  have "\<exists>ms. prepared (w_secondaries w' ! i) ms \<and>
      (\<forall>cid. mset (map (\<lambda>m. ir_Kind (interaction_of (rs_clients (w_secondaries w' ! i)) m))
          (filter (\<lambda>m. mri_index m = int cid) ms)) =
        mset (map (\<lambda>ia. FullPosition (env_path env) (bi_source ia)) (filter (\<lambda>ia. bi_sendingClient ia = (i, cid)) iacts)))"
    if i: "i < ?n" for i
  proof -
    have "length rss' = ?n \<and> c_out (rs_conn (rss' ! i)) = conn_written (rs_conn (w_secondaries w' ! i)) @
        wire_prepare MsgPrepareDone @ wire_start \<lparr>mst_duration = benchmark_duration (w_secondaries w')\<rparr>"
      using Nprimary_Run_end_out [OF _ _ fin(1), of i] good assms(5) i len by simp
    then have out: "c_out (scs ! i) = conn_written (rs_conn (w_secondaries w' ! i)) @
        wire_prepare MsgPrepareDone @ wire_start \<lparr>mst_duration = benchmark_duration (w_secondaries w')\<rparr>"
      using fin(2) i by simp
    obtain ms where ms: "prepared (w_secondaries w' ! i) ms"
      "\<And>cid. mset (map (\<lambda>m. ir_Kind (interaction_of (rs_clients (w_secondaries w' ! i)) m))
          (filter (\<lambda>m. mri_index m = cid) ms)) =
        mset (map snd (filter (\<lambda>(c, kind). int c = cid) (op_interactions (ops i))))"
      using linked_prepared [OF assms(6) [rule_format, OF i] assms(2) exec [OF i] assms(7) [rule_format, OF i] out] by blast
    show ?thesis
      using ms(1) ms(2) [of "int _", unfolded ops_def client_interactions [OF run(4) [rule_format] run(3)]] by blast
  qed
  then obtain f where f: "\<And>i. i < ?n \<Longrightarrow> prepared (w_secondaries w' ! i) (f i) \<and>
      (\<forall>cid. mset (map (\<lambda>m. ir_Kind (interaction_of (rs_clients (w_secondaries w' ! i)) m))
          (filter (\<lambda>m. mri_index m = int cid) (f i))) =
        mset (map (\<lambda>ia. FullPosition (env_path env) (bi_source ia)) (filter (\<lambda>ia. bi_sendingClient ia = (i, cid)) iacts)))"
    by metis
  have prep: "length (map f [0..<?n]) = length (w_secondaries w')"
    "i < length (w_secondaries w') \<Longrightarrow> prepared (w_secondaries w' ! i) (map f [0..<?n] ! i)" for i
    using f len by simp_all
  have obs: "i < length observers \<Longrightarrow> conn_good (ro_conn (observers ! i))" for i using assms(5) by simp
  obtain result where "Nprimary_Run_end primary (w_secondaries w', observers) = (Ok result, rss', obs')"
    "res_Seed result = np_MasterSeed primary" "length (res_Locations result) = ?n"
    "\<And>i. i < ?n \<Longrightarrow> collected (w_secondaries w' ! i) (f i) (res_Locations result ! i)"
    using Nprimary_Run_end_spec [OF prep obs, where primary = primary] fin(1) len by simp metis
  then show ?thesis
    using fin(1) run(1,2) f
    by (intro exI [of _ result] exI [of _ b] exI [of _ w1] exI [of _ iacts]) (simp add: collected_def comp_def)
qed

text \<open>A session on the mock chain: the benchmark of \<open>Mock_Benchmark\<close>, one secondary, no observer.\<close>

definition demo_primary :: Nprimary where
  "demo_primary = \<lparr>np_NumSecondary = 1, np_NumObserver = 0, np_SetupPath = ''s.yaml'', np_BenchmarkPath = ''b.yaml'',
     np_ListenPort = 5000, np_MasterSeed = 42, np_MaxSkew = 0, np_MaxDelay = 0, np_Env = []\<rparr>"

definition demo_setup :: parsedSetup where
  "demo_setup = \<lparr>ps_sysname = ''mock'', ps_parameters = [], ps_endpoints = [\<lparr>pe_address = ''n1'', pe_tags = []\<rparr>]\<rparr>"

definition demo_secondary :: "(mock_client, string) Nsecondary" where
  "demo_secondary = NewNsecondary ''10.0.0.1'' 5000 [] [''zone''] [''mock'' \<mapsto> mock_chain (\<lambda>_. None)]"

definition demo_net :: "byte list \<Rightarrow> conn" where
  "demo_net inp = new_conn \<lparr>r_input = inp, r_err = EOF\<rparr> None ''10.0.0.2:80''"

definition demo_duration :: f64 where
  "demo_duration = max_time f64_zero [max_time f64_zero [rc_maxTime (note_time f64_one (newRemoteClient 0 demo_kind))]]"

definition demo_sent :: "byte list" where
  "demo_sent = wire_primary [] (primary_params demo_setup demo_primary) @ concat (map wire_prepare (op_msgs [] demo_ops)) @
     wire_prepare MsgPrepareDone @ wire_start \<lparr>mst_duration = demo_duration\<rparr>"

lemma demo_fits:
  "primary_valid ([], primary_params demo_setup demo_primary)" "secondary_fits \<lparr>msp_tags = ns_tags demo_secondary\<rparr>"
  "primary_fits (primary_params demo_setup demo_primary)" "ns_systemMap demo_secondary ''mock'' = Some (mock_chain (\<lambda>_. None))"
  "length (client_views (op_msgs [] demo_ops)) \<le> 256"
  by (simp_all add: primary_valid_def primary_params_def demo_setup_def demo_primary_def primary_fits_def short_def
      gomap_order_def demo_secondary_def NewNsecondary_def secondary_fits_def demo_ops_def)

lemma demo_net_good [simp]:
  "conn_good (demo_net inp)" "conn_written (demo_net inp) = []" "r_input (c_rd (demo_net inp)) = inp"
  by (simp_all add: demo_net_def)

lemma demo_secondary_runs:
  obtains c where "Nsecondary_Run demo_secondary (\<lambda>_. Ok (demo_net demo_sent)) rev (Ok (), Some c)"
    and "prefix (wire_secondary \<lparr>msp_tags = ns_tags demo_secondary\<rparr>) (c_out c)"
proof -
  have inp: "r_input (c_rd (demo_net demo_sent)) = wire_primary [] (primary_params demo_setup demo_primary) @
      concat (map wire_prepare (op_msgs [] demo_ops)) @ wire_prepare MsgPrepareDone @
      wire_start \<lparr>mst_duration = demo_duration\<rparr> @ []"
    by (simp add: demo_sent_def)
  have name: "ns_systemMap demo_secondary (mpp_sysname (primary_params demo_setup demo_primary)) = Some (mock_chain (\<lambda>_. None))"
    using demo_fits(4) by (simp add: primary_params_def demo_setup_def)
  have "\<exists>c. Nsecondary_Run demo_secondary (\<lambda>_. Ok (demo_net demo_sent)) rev (Ok (), Some c)"
    by (rule secondary_can_run [OF HOL.refl _ _ demo_fits(1) inp name _ demo_ops_ok demo_fits(2)])
      (simp_all add: demo_ops_accepted)
  then obtain c where c: "Nsecondary_Run demo_secondary (\<lambda>_. Ok (demo_net demo_sent)) rev (Ok (), Some c)" ..
  have "prefix (wire_secondary \<lparr>msp_tags = ns_tags demo_secondary\<rparr>) (c_out c)"
    by (rule secondary_sends [OF c HOL.refl _ _ demo_fits(1) inp name _ demo_ops_ok demo_fits(5)]) simp_all
  with c show thesis by (rule that)
qed

lemma demo_accepted:
  assumes "prefix (wire_secondary \<lparr>msp_tags = ns_tags demo_secondary\<rparr>) inp"
  obtains rs c where "newRemoteSecondary [] [] demo_setup demo_primary (demo_net inp) = (Ok rs, c)"
proof -
  from assms obtain rest where "r_input (c_rd (demo_net inp)) = wire_secondary \<lparr>msp_tags = ns_tags demo_secondary\<rparr> @ rest"
    by (auto simp: prefix_def)
  from secondaryConn_init_good [OF _ this demo_fits(2) _ demo_fits(3), where ?it1.0 = "[]" and ?it2.0 = "[]"]
  obtain c where "secondaryConn_init [] [] (primary_params demo_setup demo_primary) (demo_net inp) =
      (Ok \<lparr>msp_tags = ns_tags demo_secondary\<rparr>, c)"
    by (auto simp: gomap_order_def primary_params_def demo_setup_def)
  then show thesis
    by (intro that) (simp add: newRemoteSecondary_def gbind_def gread_run flip: primary_params_def)
qed

theorem session_reports_witness:
  "\<exists>rs result scs ocs.
     Nprimary_session demo_primary (benchmark_run demo_env id demo_benchmark (demo_world_on rs)) [] = Some (Ok result, scs, ocs) \<and>
     res_Seed result = 42 \<and>
     mset (map ir_Kind (result_of (res_Locations result ! 0) 0)) = {#FullPosition ''b.yaml'' demo_transfer#}"
proof -
  obtain c where c: "Nsecondary_Run demo_secondary (\<lambda>_. Ok (demo_net demo_sent)) rev (Ok (), Some c)"
    "prefix (wire_secondary \<lparr>msp_tags = ns_tags demo_secondary\<rparr>) (c_out c)"
    using demo_secondary_runs .
  obtain rs c' where rs: "newRemoteSecondary [] [] demo_setup demo_primary (demo_net (c_out c)) = (Ok rs, c')"
    using demo_accepted [OF c(2)] .
  have params: "gomap_order (ps_parameters demo_setup) []" by (simp add: gomap_order_def demo_setup_def)
  note acc = accepted_secondary [OF rs demo_net_good(1,2) params]
  obtain w w' rs' where run: "benchmark_parse demo_env demo_benchmark (demo_world_on rs) = (Ok demo_parsed, w)"
    "benchmark_run demo_env id demo_benchmark (demo_world_on rs) = Some (Ok (), w')" "w_secondaries w' = [rs']"
    "gfor demo_ops exec_op rs = (Ok (), rs')"
    "map rc_maxTime (rs_clients rs') = [rc_maxTime (note_time f64_one (newRemoteClient 0 demo_kind))]"
    using demo_benchmark_run [OF acc(2,4,3)] by (elim exE conjE) (rule that)
  obtain r rss' obs' where fin: "Nprimary_Run_end demo_primary (w_secondaries w', []) = (r, rss', obs')"
    by (metis prod.collapse)
  then have ses: "Nprimary_session demo_primary (benchmark_run demo_env id demo_benchmark (demo_world_on rs)) [] =
      Some (r, map rs_conn rss', map ro_conn obs')"
    by (simp add: Nprimary_session_def run(2))
  have sent: "sent_from rs (op_msgs [] demo_ops) rs'"
    using exec_ops_spec [OF acc(2,4), of demo_ops] run(4) demo_ops_ok acc(3) by (auto simp: kinds_of_def)
  have dur: "benchmark_duration (w_secondaries w') = demo_duration"
    using run(3,5) by (simp add: benchmark_duration_def demo_duration_def remoteSecondary_end_def remoteClient_end_def [abs_def])
  have out: "length rss' = 1" "c_out (rs_conn (rss' ! 0)) = demo_sent"
    using Nprimary_Run_end_out [OF _ _ fin, of 0] sent run(3) acc(5) dur by (auto simp: sent_from_def demo_sent_def)
  let ?lk = "\<lparr>lk_net = demo_net (c_out c), lk_sec = demo_secondary, lk_dial = demo_net demo_sent, lk_arrival = rev, lk_end = c\<rparr>"
  have "linked demo_setup demo_primary ([], []) rs (rs_conn (rss' ! 0)) ?lk"
    using c(1) rs params out(2) demo_fits(4) by (auto simp: linked_def) (simp add: demo_setup_def)
  then have lks: "\<forall>i < length (w_secondaries (demo_world_on rs)). linked demo_setup demo_primary ([], [])
      (w_secondaries (demo_world_on rs) ! i) (map rs_conn rss' ! i) ?lk"
    using out(1) by (simp add: demo_world_on_def)
  have world: "length (w_secondaries (demo_world_on rs)) = 1" by (simp add: demo_world_on_def)
  have few: "\<forall>i < length (w_secondaries (demo_world_on rs)). length (rs_clients (w_secondaries w' ! i)) \<le> 256"
    using run(3) arg_cong [OF run(5), of length] by (simp add: demo_world_on_def)
  have builder: "blockchain_builder demo_env" unfolding demo_env_def by (rule mock.blockchain_builder_axioms)
  have "gomap_ok (ps_parameters demo_setup)" "\<forall>ro \<in> set []. conn_good (ro_conn ro)" by (simp_all add: demo_setup_def)
  from session_reports [where its = "\<lambda>_. ([], [])" and lks = "\<lambda>_. ?lk", OF builder this(1) run(2) ses this(2) lks few]
  obtain result b w1 iacts where res: "r = Ok result" "benchmark_parse demo_env demo_benchmark (demo_world_on rs) = (Ok b, w1)"
    "benchmark_generate id b = Some (Ok iacts)" "res_Seed result = np_MasterSeed demo_primary"
    "\<And>cid. mset (map ir_Kind (result_of (res_Locations result ! 0) (int cid))) =
      mset (map (\<lambda>ia. FullPosition (env_path demo_env) (bi_source ia)) (filter (\<lambda>ia. bi_sendingClient ia = (0, cid)) iacts))"
    by (auto simp: world)
  have "iacts = [demo_send]" using res(2,3) run(1) demo_generate by simp
  then have "mset (map ir_Kind (result_of (res_Locations result ! 0) 0)) = {#FullPosition ''b.yaml'' demo_transfer#}"
    using res(5) [of 0] by (simp add: demo_send_def)
  then show ?thesis using ses res(1,4) by (auto simp: demo_primary_def)
qed

section \<open>A run that returns a result\<close>

lemma collect_all_Ok:
  "collect_all result rss = (Ok result', rss') \<Longrightarrow>
   length rss' = length rss \<and> list_all (\<lambda>rs. c_closed (rs_conn rs)) rss' \<and> res_Seed result' = res_Seed result \<and>
   length (res_Locations result') = length (res_Locations result) + length rss"
proof (induction rss arbitrary: result rss')
  case (Cons rs rss)
  from Cons.prems obtain sr rs' rss1 where "collect rs = (Ok sr, rs')" "collect_all (addSecondary sr result) rss = (Ok result', rss1)"
    "rss' = snd (remoteSecondary_Close rs') # rss1"
    by (auto split: prod.splits outcome.splits)
  then show ?case using Cons.IH by (fastforce simp: addSecondary_def)
qed auto

lemma each_ignore_length: "length (snd (each_ignore m ss)) = length ss"
  by (induction ss) (auto split: prod.splits outcome.splits)

lemma observers_closed:
  assumes "each_ignore remoteObserver_Close obs = (r, obs')"
  shows "length obs' = length obs \<and> list_all (\<lambda>ro. c_closed (ro_conn ro)) obs'"
proof -
  have "(\<forall>p. fst (remoteObserver_Close (obs ! i)) \<noteq> Panic p) \<and> c_closed (ro_conn (snd (remoteObserver_Close (obs ! i))))" for i
    by (simp add: remoteObserver_Close_def gzoom_def observerConn_Close_def conn_Close_def)
  from each_ignore_any [where m = remoteObserver_Close and ss = obs and Q = "\<lambda>_ ro. c_closed (ro_conn ro)", OF this] assms
  show ?thesis by (auto simp: list_all_length)
qed

lemma acceptSecondaries_loop_length:
  "acceptSecondaries_loop accept its stp primary n i ret = (Ok rss, g) \<Longrightarrow> length rss = length ret + n"
  by (induction n arbitrary: i ret) (auto simp: Let_def split: outcome.splits prod.splits)

lemma acceptObservers_loop_length:
  "acceptObservers_loop accept n i ret = (Ok obs, g) \<Longrightarrow> length obs = length ret + n"
  by (induction n arbitrary: i ret) (auto simp: Let_def split: outcome.splits)

lemma Nprimary_Run_end_Ok:
  assumes "Nprimary_Run_end primary (rss, obs) = (Ok result, rss', obs')"
  shows "res_Seed result = np_MasterSeed primary" and "length (res_Locations result) = length rss"
    and "length rss' = length rss" and "length obs' = length obs"
    and "list_all (\<lambda>rs. c_closed (rs_conn rs)) rss'" and "list_all (\<lambda>ro. c_closed (ro_conn ro)) obs'"
proof -
  let ?d = "benchmark_duration rss"
  obtain rss1 rss2 obs1 where run: "each_ignore remoteSecondary_ready rss = (Ok (), rss1)"
    "each_ignore (remoteSecondary_start ?d) rss1 = (Ok (), rss2)" "each_ignore (remoteObserver_start ?d) obs = (Ok (), obs1)"
    "collect_all (newResult (np_MasterSeed primary)) rss2 = (Ok result, rss')" "each_ignore remoteObserver_Close obs1 = (Ok (), obs')"
    using assms
    by (auto simp: Nprimary_Run_end_def gzoom_def gread_run gret_run split: prod.splits elim!: gbind_OkE)
  have len: "length rss2 = length rss" "length obs1 = length obs"
    using each_ignore_length [of remoteSecondary_ready rss] each_ignore_length [of "remoteSecondary_start ?d" rss1]
      each_ignore_length [of "remoteObserver_start ?d" obs] run by simp_all
  show "res_Seed result = np_MasterSeed primary" "length (res_Locations result) = length rss" "length rss' = length rss"
    "list_all (\<lambda>rs. c_closed (rs_conn rs)) rss'"
    using collect_all_Ok [OF run(4)] len(1) by (simp_all add: newResult_def)
  show "length obs' = length obs" "list_all (\<lambda>ro. c_closed (ro_conn ro)) obs'"
    using observers_closed [OF run(5)] len(2) by simp_all
qed

text \<open>
  A run of the primary that returns a result holds the master seed and one location for each
  requested secondary, and has closed every connection it had accepted.
\<close>

theorem run_result_complete:
  assumes "Nprimary_Run io systemMap primary = Some (Ok result, scs, ocs)"
    and "\<And>name ci path stp. systemMap name = Some ci \<Longrightarrow> blockchain_builder ((ci_env ci)\<lparr>env_path := path, env_setup := stp\<rparr>)"
  shows "res_Seed result = np_MasterSeed primary \<and> int (length (res_Locations result)) = np_NumSecondary primary \<and>
    int (length scs) = np_NumSecondary primary \<and> int (length ocs) = np_NumObserver primary \<and>
    list_all c_closed scs \<and> list_all c_closed ocs"
proof -
  obtain stp ci builder rss g obs g' env where front: "systemMap (ps_sysname stp) = Some ci"
    "acceptSecondaries (io_listenSecondaries io) (io_acceptSecondary io) (io_its io) stp primary = (Ok rss, g)"
    "acceptObservers (io_listenObservers io) (io_acceptObserver io) primary = (Ok obs, g')"
    "env = (ci_env ci)\<lparr>env_path := np_BenchmarkPath primary, env_setup := stp\<rparr>"
    "Nprimary_session primary (parseBenchmarkYamlPath (io_Open io) (io_DecodeBenchmark io) env (io_order io)
       (newSystem env (np_MasterSeed primary) rss builder)) obs = Some (Ok result, scs, ocs)"
    using assms(1) by (auto simp: Nprimary_Run_def Let_def split: outcome.splits option.splits prod.splits)
  obtain p w where parse: "parseBenchmarkYamlPath (io_Open io) (io_DecodeBenchmark io) env (io_order io)
       (newSystem env (np_MasterSeed primary) rss builder) = Some (p, w)"
    using front(5) by (auto simp: Nprimary_session_def)
  then obtain rss' obs' where ses: "parseBenchmarkYamlPath (io_Open io) (io_DecodeBenchmark io) env (io_order io)
       (newSystem env (np_MasterSeed primary) rss builder) = Some (Ok (), w)"
    "Nprimary_Run_end primary (w_secondaries w, obs) = (Ok result, rss', obs')" "scs = map rs_conn rss'" "ocs = map ro_conn obs'"
    using front(5) by (cases p) (auto simp: Nprimary_session_def split: prod.splits)
  obtain e where "benchmark_run env (io_order io) e (newSystem env (np_MasterSeed primary) rss builder) = Some (Ok (), w)"
    using ses(1) by (auto simp: parseBenchmarkYamlPath_def split: outcome.splits)
  from blockchain_builder.benchmark_run_acts [OF _ this] assms(2) [OF front(1)] front(4)
  have "length (w_secondaries w) = length rss" by (auto simp: acts_def newSystem_def)
  moreover have "int (length rss) = np_NumSecondary primary"
    using front(2) by (auto simp: acceptSecondaries_def split: if_splits outcome.splits dest!: acceptSecondaries_loop_length)
  moreover have "int (length obs) = np_NumObserver primary"
    using front(3) by (auto simp: acceptObservers_def split: if_splits outcome.splits dest!: acceptObservers_loop_length)
  ultimately show ?thesis
    using Nprimary_Run_end_Ok [OF ses(2)] ses(3,4) by (simp add: list_all_iff)
qed

end
