(* ===== verification/Core_View.thy ===== *)
theory Core_View
  imports Mock_Benchmark
begin

text \<open>
  The view of a client (\<^verbatim>\<open>parseView\<close> of \<^verbatim>\<open>src/core/benchmark.go\<close>): the loop that empties a once copy of
  the endpoint variable ends, and collects every endpoint the variable can still yield exactly once.
\<close>

section \<open>Drawing until the variable is exhausted\<close>

text \<open>Variable \<open>v\<close> is a once variable over the endpoints \<open>eps\<close>, with the indices \<open>rem\<close> left.\<close>

definition endpoint_var :: "parsedEndpoint list \<Rightarrow> ('g, 'r) VariableImpl \<Rightarrow> bool" where
  "endpoint_var eps var \<longleftrightarrow> vi_sample var = SElem (map (\<lambda>ep. GRes (REndpoint ep)) eps) \<and>
     ud_inv (vi_distrib var) \<and> set (remaining (vi_distrib var)) \<subseteq> {0..<int (length eps)}"

lemma once_draw:
  assumes "ud_rtype d = TypeOnce" and "ud_inv d" and "0 < ud_size d"
  obtains x d' where "Select rng d = (Ok x, d')" and "ud_inv d'" and "ud_rtype d' = TypeOnce"
    and "ud_size d' = ud_size d - 1" and "{#x#} + mset (remaining d') = mset (remaining d)"
proof -
  from assms(3) have "int 1 \<le> ud_size d" by simp
  from Select_once_times [OF assms(1,2) this, of rng] obtain xs d' where
    draw: "gtimes 1 (Select rng) d = (Ok xs, d')" "ud_inv d'" "ud_rtype d' = TypeOnce"
      "ud_size d' = ud_size d - 1" "mset xs + mset (remaining d') = mset (remaining d)" by auto
  then obtain x where "Select rng d = (Ok x, d')" "xs = [x]"
    by (auto simp: gret_run elim!: gbind_OkE)
  with draw show thesis by (intro that [of x d']) simp_all
qed

lemma endpoint_Get:
  fixes w :: "('g, 'b, 'r) world"
  assumes "v < length (w_vars w)" and "endpoint_var eps (w_vars w ! v)"
    and "Select (env_Int env) (vi_distrib (w_vars w ! v)) = (Ok x, d)" and "x \<in> set (remaining (vi_distrib (w_vars w ! v)))"
  shows "Variable_Get env (Some v) w = (Ok (Some (GRes (REndpoint (eps ! nat x)))),
    w\<lparr>w_vars := (w_vars w)[v := (w_vars w ! v)\<lparr>vi_distrib := d\<rparr>]\<rparr>)"
proof -
  have "0 \<le> x \<and> x < int (length eps)" using assms(2,4) unfolding endpoint_var_def by auto
  then have "elementSample_Get (map (\<lambda>ep. GRes (REndpoint ep)) eps) x =
      Ok (GRes (REndpoint (eps ! nat x)) :: 'r bvalue)"
    by (simp add: elementSample_Get_def nat_less_iff)
  with assms show ?thesis
    by (simp add: Variable_Get_def get_var_def gbind_def Let_def obind_def endpoint_var_def)
qed

lemma view_loop_ends:
  assumes "v < length (w_vars w)" and "endpoint_var eps (w_vars w ! v)"
    and "ud_rtype (vi_distrib (w_vars w ! v)) = TypeOnce"
    and "nat (ud_size (vi_distrib (w_vars w ! v))) < fuel"
  shows "\<exists>xs w'. view_loop env v fuel addrs w = (Ok (addrs @ map (\<lambda>x. pe_address (eps ! nat x)) xs), w') \<and>
    mset xs = mset (remaining (vi_distrib (w_vars w ! v))) \<and>
    (\<forall>u. u \<noteq> v \<longrightarrow> w_vars w' ! u = w_vars w ! u)"
  using assms
proof (induction fuel arbitrary: w addrs)
  case (Suc fuel)
  let ?d = "vi_distrib (w_vars w ! v)"
  have inv: "ud_inv ?d" using Suc.prems(2) by (simp add: endpoint_var_def)
  show ?case
  proof (cases "ud_size ?d = 0")
    case True
    then have "Select (env_Int env) ?d = (Err (Errorf ''random space exhausted'' []), ?d)" "remaining ?d = []"
      using Suc.prems(3) by (simp_all add: Select_def remaining_def split: option.splits)
    moreover have "(w_vars w)[v := (w_vars w ! v)\<lparr>vi_distrib := ?d\<rparr>] = w_vars w" by simp
    ultimately have "Variable_Get env (Some v) w = (Ok None, w)"
      using Suc.prems(1) by (simp add: Variable_Get_def get_var_def gbind_def Let_def)
    then show ?thesis
      using \<open>remaining ?d = []\<close> by (intro exI [of _ "[]"] exI [of _ w]) (simp add: gbind_Ok gret_run)
  next
    case False
    then have "0 < ud_size ?d" using inv by (simp add: ud_inv_def)
    from once_draw [OF Suc.prems(3) inv this] obtain x d where
      x: "Select (env_Int env) ?d = (Ok x, d)" "ud_inv d" "ud_rtype d = TypeOnce" "ud_size d = ud_size ?d - 1"
        "{#x#} + mset (remaining d) = mset (remaining ?d)" by blast
    have mem: "set (remaining ?d) = insert x (set (remaining d))"
      using x(5) by (metis set_mset_add_mset_insert set_mset_mset add_mset_add_single union_commute)
    let ?w = "w\<lparr>w_vars := (w_vars w)[v := (w_vars w ! v)\<lparr>vi_distrib := d\<rparr>]\<rparr>"
    have got: "Variable_Get env (Some v) w = (Ok (Some (GRes (REndpoint (eps ! nat x)))), ?w)"
      by (rule endpoint_Get [OF Suc.prems(1,2) x(1)]) (simp add: mem)
    have new: "v < length (w_vars ?w)" "w_vars ?w ! v = (w_vars w ! v)\<lparr>vi_distrib := d\<rparr>"
      using Suc.prems(1) by simp_all
    have "endpoint_var eps (w_vars ?w ! v)" "nat (ud_size (vi_distrib (w_vars ?w ! v))) < fuel"
      using Suc.prems x mem \<open>0 < ud_size ?d\<close> by (auto simp: endpoint_var_def)
    from Suc.IH [OF new(1) this(1) _ this(2), of "addrs @ [pe_address (eps ! nat x)]"] obtain xs w' where
      rest: "view_loop env v fuel (addrs @ [pe_address (eps ! nat x)]) ?w =
        (Ok (addrs @ [pe_address (eps ! nat x)] @ map (\<lambda>x. pe_address (eps ! nat x)) xs), w')"
        "mset xs = mset (remaining d)" "\<forall>u. u \<noteq> v \<longrightarrow> w_vars w' ! u = w_vars ?w ! u"
      using x(3) new(2) by auto
    show ?thesis
      using got rest x(5) by (intro exI [of _ "x # xs"] exI [of _ w']) (simp add: gbind_Ok)
  qed
qed simp

section \<open>Properties\<close>

text \<open>
  C31: The view of a client is found in finite time and has the address of every endpoint that the view
  variable can still yield exactly once, in some order that the random source decides; it is an
  error only when nothing is left. The variable itself is not consumed, so that the next client
  draws from the same endpoints.
\<close>

theorem view_lists_endpoints:
  assumes "view_source env (env_Field env client ''view'') w = (Ok (Some v, seed), w1)"
    and "v < length (w_vars w1)" and "endpoint_var eps (w_vars w1 ! v)"
  shows "\<exists>xs w'. mset xs = mset (remaining (vi_distrib (w_vars w1 ! v))) \<and> w_vars w' ! v = w_vars w1 ! v \<and>
    parseView env client w =
      (if xs = [] then Err (expr_errorf (env_path env) (env_Field env client ''view'') ''%s: variable exhausted'' [])
       else Ok (map (\<lambda>x. pe_address (eps ! nat x)) xs), w')"
proof -
  let ?var = "w_vars w1 ! v" and ?c = "length (w_vars w1)"
  have "ud_inv (vi_distrib ?var)" using assms(3) by (simp add: endpoint_var_def)
  then obtain d where d: "Copy (env_NewSource env) seed TypeOnce (vi_distrib ?var) = Ok d" "ud_inv d"
    "remaining d = remaining (vi_distrib ?var)" "ud_rtype d = TypeOnce" using Copy_spec by metis
  let ?w = "w1\<lparr>w_vars := w_vars w1 @ [\<lparr>vi_domain = vi_domain ?var, vi_sample = vi_sample ?var, vi_distrib = d\<rparr>]\<rparr>"
  have copy: "copyVariable env (Some v) seed TypeOnce w1 = (Ok ?c, ?w)"
    using d(1) assms(2) by (simp add: copyVariable_def get_var_def gbind_def glift_def newVariable_def)
  have "endpoint_var eps (w_vars ?w ! ?c)" using assms(3) d by (simp add: endpoint_var_def)
  from view_loop_ends [OF _ this, of "view_fuel ?c ?w" env "[]"] obtain xs w' where
    loop: "view_loop env ?c (view_fuel ?c ?w) [] ?w = (Ok (map (\<lambda>x. pe_address (eps ! nat x)) xs), w')"
      "mset xs = mset (remaining d)" "\<forall>u. u \<noteq> ?c \<longrightarrow> w_vars w' ! u = w_vars ?w ! u"
    using d(4) by (auto simp: view_fuel_def)
  have "w_vars w' ! v = ?var" using loop(3) assms(2) by (simp add: nth_append)
  moreover have "parseView env client w =
      (if xs = [] then Err (expr_errorf (env_path env) (env_Field env client ''view'') ''%s: variable exhausted'' [])
       else Ok (map (\<lambda>x. pe_address (eps ! nat x)) xs), w')"
    using assms(1) copy loop(1) by (simp add: parseView_def Let_def gbind_Ok gread_run gret_run src_errorf_def gerr_run)
  ultimately show ?thesis using loop(2) d(3) by auto
qed

theorem view_lists_endpoints_witness:
  "\<exists>w'. parseView demo_env demo_client demo_world = (Ok [''n1''], w') \<and> w_vars w' ! 2 = w_vars demo_world ! 2"
proof -
  let ?w = "demo_world\<lparr>w_seedGenerator := 2\<rparr>"
  have src: "view_source demo_env (env_Field demo_env demo_client ''view'') demo_world = (Ok (Some 2, 1), ?w)"
    by (simp add: demo_client_def view_source_def expr_Resource_def alias_get_def demo_run current_top
        demo_world_on_def system_seed_def)
  have var: "2 < length (w_vars ?w)" "endpoint_var [\<lparr>pe_address = ''n1'', pe_tags = []\<rparr>] (w_vars ?w ! 2)"
    "remaining (vi_distrib (w_vars ?w ! 2)) = [0]" "w_vars ?w ! 2 = w_vars demo_world ! 2"
    by (simp_all add: demo_world_on_def demo_var_def endpoint_var_def ud_inv_def remaining_def)
  from view_lists_endpoints [OF src var(1,2)] show ?thesis using var(3,4) by auto
qed

end
