(* ===== verification/Core_Scoping.thy ===== *)
theory Core_Scoping
  imports Mock_Benchmark
begin

text \<open>
  Lexical scoping of the benchmark's variables: parsing a \<open>let\<close> adds one scope whose names hide those
  of the scope around it and leaves that one as it was.
\<close>

section \<open>The entries of a scope\<close>

text \<open>A scope and its parents exist.\<close>

fun scope_below :: "nat \<Rightarrow> basicScope \<Rightarrow> bool" where
  "scope_below n (Scope i parent) \<longleftrightarrow> i < n \<and> (case parent of None \<Rightarrow> True | Some up \<Rightarrow> scope_below n up)"

type_synonym binding = "string \<times> nat option \<times> string"

definition bind_entry :: "binding \<Rightarrow> string \<times> basicScopeEntry" where
  "bind_entry b = (fst b, \<lparr>bse_variable = fst (snd b), bse_domain = snd (snd b)\<rparr>)"

lemma scope_get_below:
  "scope_below n sc \<Longrightarrow> n \<le> length es \<Longrightarrow> scope_get (es @ fs) sc name = scope_get es sc name"
  by (induction es sc name rule: scope_get.induct) (auto simp: nth_append split: option.splits)

lemma map_of_bind_entry:
  "map_of (map bind_entry binds) name =
     map_option (\<lambda>(v, domain). \<lparr>bse_variable = v, bse_domain = domain\<rparr>) (map_of binds name)"
  by (induction binds) (auto simp: bind_entry_def)

text \<open>A new scope in front of an existing one.\<close>

lemma scope_get_new:
  assumes "scope_below (length es) parent"
  shows "scope_get (es @ [map bind_entry binds]) (Scope (length es) (Some parent)) name =
    (case map_of binds name of Some b \<Rightarrow> Some b | None \<Rightarrow> scope_get es parent name)"
  using scope_get_below [OF assms, of es] by (auto simp: map_of_bind_entry split: option.splits)

section \<open>Parsing the entries\<close>

context blockchain_builder
begin

lemma scope_parse_loop_binds:
  assumes "scope_parse_loop env (Scope (length es) parent) children positions w = (Ok (), w')"
    and "w_entries w = es @ [map bind_entry binds]" and "map fst positions = map fst binds"
    and "distinct (map fst binds)"
  shows "\<exists>binds'. w_entries w' = es @ [map bind_entry binds'] \<and> distinct (map fst binds') \<and>
    length binds' = length binds + length children \<and> w_slocal w' = w_slocal w"
  using assms
proof (induction children arbitrary: positions w binds)
  case Nil
  then show ?case by (auto simp: gret_run)
next
  case (Cons child children)
  from Cons.prems(1) obtain v name domain w1 where parse: "parseVariable env child w = (Ok (v, name, domain), w1)"
    and rest: "(case gomap_get positions name of
       Some position \<Rightarrow>
         src_errorf env child ''%s: variable '%s' redefined (previously at %s)'' [AStr name, AStr position]
     | None \<Rightarrow>
         gbind (scope_add (Scope (length es) parent) name domain v) (\<lambda>_.
         scope_parse_loop env (Scope (length es) parent) children (gomap_set name (Position child) positions))) w1 = (Ok (), w')"
    unfolding scope_parse_loop.simps by (auto elim!: gbind_OkE)
  have frame: "w_entries w1 = w_entries w" "w_slocal w1 = w_slocal w"
    using keepsD [OF keeps_parseVariable parse] by (simp_all add: w_frame_def)
  have fresh: "gomap_get positions name = None"
    using rest by (auto simp: src_errorf_def gerr_run split: option.splits)
  then have notin: "name \<notin> set (map fst positions)" by (simp add: map_of_eq_None_iff)
  let ?binds = "binds @ [(name, v, domain)]"
  let ?w = "w1\<lparr>w_entries := es @ [map bind_entry ?binds]\<rparr>"
  have "fst ` set (map bind_entry binds) = set (map fst positions)"
    by (simp add: Cons.prems(3) image_image bind_entry_def)
  then have "gomap_set name \<lparr>bse_variable = v, bse_domain = domain\<rparr> (map bind_entry binds) = map bind_entry ?binds"
    using notin by (subst gomap_set_new) (simp_all add: bind_entry_def)
  then have "scope_add (Scope (length es) parent) name domain v w1 = (Ok (), ?w)"
    using Cons.prems(2) frame(1) by (simp add: scope_add_def gmodify_run)
  with rest fresh have "scope_parse_loop env (Scope (length es) parent) children
      (gomap_set name (Position child) positions) ?w = (Ok (), w')" by (simp add: gbind_Ok)
  moreover have "map fst (gomap_set name (Position child) positions) = map fst ?binds"
    by (subst gomap_set_new) (use notin in simp, simp add: Cons.prems(3))
  ultimately show ?case using Cons.IH [of _ ?w ?binds] Cons.prems(3,4) notin frame(2) by auto
qed

end

section \<open>Properties\<close>

text \<open>
  C32: Scoping of a \<open>let\<close>: when parsing its variables succeeds, the new scope binds one name per
  definition, all different, a lookup in it finds those names first and every other name where the
  surrounding scope finds it, and the lookups in every scope that existed before are unchanged, for
  every blockchain builder that keeps the interface's law.
\<close>

theorem let_scope_shadows:
  assumes "blockchain_builder env" and "expr_scope env (BSequence p node items) w = (Ok sc, w')"
    and "scope_below (length (w_entries w)) (current w (BSequence p node items))"
  shows "\<exists>binds. length binds = length items \<and> distinct (map fst binds) \<and>
    (\<forall>name. scope_get (w_entries w') sc name =
      (case map_of binds name of
         Some b \<Rightarrow> Some b
       | None \<Rightarrow> scope_get (w_entries w) (current w (BSequence p node items)) name)) \<and>
    (\<forall>old name. scope_below (length (w_entries w)) old \<longrightarrow>
      scope_get (w_entries w') old name = scope_get (w_entries w) old name)"
proof -
  let ?e = "BSequence p node items" and ?es = "w_entries w"
  let ?sc = "Scope (length ?es) (Some (current w ?e))"
  let ?w = "specialize ?e (Some ?sc) (w\<lparr>w_entries := ?es @ [map bind_entry []]\<rparr>)"
  have "sc = ?sc" and "\<exists>w1. scope_parse_loop env ?sc items [] ?w = (Ok (), w1) \<and> w_entries w' = w_entries w1"
    using assms(2)
    by (auto simp: expr_scope_def scope_init_def scope_parse_def gread_run gmodify_run gret_run gfinally_def Slice_def
        TrySlice_def specialize_def split: prod.splits option.splits elim!: gbind_OkE)
  then obtain w1 where loop: "scope_parse_loop env ?sc items [] ?w = (Ok (), w1)" "w_entries w' = w_entries w1" by blast
  have "w_entries ?w = ?es @ [map bind_entry []]" by (simp add: specialize_def)
  from blockchain_builder.scope_parse_loop_binds [OF assms(1) loop(1) this] obtain binds where
    binds: "w_entries w1 = ?es @ [map bind_entry binds]" "distinct (map fst binds)" "length binds = length items" by auto
  have "scope_get (w_entries w') sc name =
      (case map_of binds name of Some b \<Rightarrow> Some b | None \<Rightarrow> scope_get ?es (current w ?e) name)" for name
    using scope_get_new [OF assms(3), of binds name] by (simp only: \<open>sc = ?sc\<close> loop(2) binds(1))
  moreover have "scope_get (w_entries w') old name = scope_get ?es old name" if "scope_below (length ?es) old" for old name
    using scope_get_below [OF that, of ?es] by (simp add: loop(2) binds(1))
  ultimately show ?thesis using binds(2,3) by (intro exI [of _ binds]) simp
qed

definition demo_let :: bexpr where
  "demo_let = BSequence [1, 0] (dnode [] []) [BMapping [0, 1, 0] (YamlNode MappingNode [] [] [] ''loc'' [] 1 1)
     [(''sample'', 0)] [dfield [0, 0, 1, 0] ''sample'' (BSequence [1, 0, 0, 1, 0] (dnode ''!location'' []) [])]]"

lemma demo_let_run: "\<exists>sc w'. expr_scope demo_env demo_let demo_world = (Ok sc, w')"
  by (simp add: demo_let_def expr_scope_def scope_init_def scope_parse_def demo_run Slice_def TrySlice_def
      specialize_def expr_local_def current_top demo_world_on_def parseVariable_def expr_name_def parse_vtype_def system_seed_def
      has_field_def parseSampleVariable_def sampleFactory_def locationSampleFactory_Instance_def
      parseFilteredElementSample_def newFilteredElementSample_def random_instance_def system_randomFactory_def
      newUniform_def newUniformDistribution_def newVariable_def scope_add_def)

theorem let_scope_shadows_witness:
  "\<exists>sc w' binds. expr_scope demo_env demo_let demo_world = (Ok sc, w') \<and> length binds = 1 \<and>
     (\<forall>name. scope_get (w_entries w') sc name =
       (case map_of binds name of Some b \<Rightarrow> Some b | None \<Rightarrow> scope_get (w_entries demo_world) (Scope 0 None) name))"
proof -
  obtain sc w' where run: "expr_scope demo_env demo_let demo_world = (Ok sc, w')" using demo_let_run by blast
  have builder: "blockchain_builder demo_env"
    unfolding demo_env_def by (rule mock.blockchain_builder_axioms)
  have cur: "current demo_world e = Scope 0 None" for e by (simp add: current_top demo_world_on_def)
  obtain items where d: "demo_let = BSequence [1, 0] (dnode [] []) items" "length items = 1"
    by (simp add: demo_let_def)
  have "scope_below (length (w_entries demo_world)) (Scope 0 None)" by (simp add: demo_world_on_def)
  with let_scope_shadows [OF builder run [unfolded d(1)], unfolded cur] d(2) show ?thesis using run by auto
qed

end
