(* ===== verification/Eth_Transaction.thy ===== *)
theory Eth_Transaction
  imports Util_IO
begin

text \<open>
  The transactions of the Ethereum driver (\<^verbatim>\<open>src/blockchains/nethereum/transaction.go\<close>): how the builder
  encodes them for the secondaries, how a client decodes them, and how they get their nonce, their
  gas parameters and their signature, lazily and once. The Ethereum library and the node behind its
  client are a parameter, a record of the functions the driver calls.
\<close>

section \<open>The library\<close>

record ('k, 'a, 'tx, 'n) sdk =
  sdk_FromECDSA :: "'k \<Rightarrow> byte list"
  sdk_ToECDSA :: "byte list \<Rightarrow> 'k outcome"
  sdk_HexToECDSA :: "string \<Rightarrow> 'k outcome"
  sdk_PubkeyToAddress :: "'k \<Rightarrow> 'a"
  sdk_AddressLength :: nat
  sdk_AddressBytes :: "'a \<Rightarrow> byte list"
  sdk_BytesToAddress :: "byte list \<Rightarrow> 'a"
  sdk_AddressString :: "'a \<Rightarrow> string"
  sdk_NewTransaction :: "64 word \<Rightarrow> 'a \<Rightarrow> int \<Rightarrow> 64 word \<Rightarrow> int \<Rightarrow> byte list \<Rightarrow> 'tx"
  sdk_NewContractCreation :: "64 word \<Rightarrow> int \<Rightarrow> 64 word \<Rightarrow> int \<Rightarrow> byte list \<Rightarrow> 'tx"
  sdk_SignTx :: "'tx \<Rightarrow> int \<Rightarrow> 'k \<Rightarrow> 'tx outcome"
  sdk_Hash :: "'tx \<Rightarrow> string"
  sdk_PendingNonceAt :: "'a \<Rightarrow> ('n, 64 word) go"
  sdk_NetworkID :: "('n, int) go"
  sdk_SuggestGasPrice :: "('n, int) go"
  sdk_SendTransaction :: "'tx \<Rightarrow> ('n, unit) go"
  sdk_TransactionReceipt :: "string \<Rightarrow> ('n, 'a) go"
  sdk_NotFound :: go_error

text \<open>
  What the documentation of the library promises: a private key survives its conversion to bytes,
  which are at most 255, and an address is a fixed number of bytes.
\<close>

definition sdk_ok :: "('k, 'a, 'tx, 'n) sdk \<Rightarrow> bool" where
  "sdk_ok sdk \<longleftrightarrow> (\<forall>k. sdk_ToECDSA sdk (sdk_FromECDSA sdk k) = Ok k \<and> length (sdk_FromECDSA sdk k) \<le> 255) \<and>
     (\<forall>a. sdk_BytesToAddress sdk (sdk_AddressBytes sdk a) = a \<and>
        length (sdk_AddressBytes sdk a) = sdk_AddressLength sdk)"

section \<open>Parameters and nonces\<close>

definition transaction_type_transfer :: byte where "transaction_type_transfer = 0"
definition transaction_type_invoke :: byte where "transaction_type_invoke = 1"
definition transaction_gas_limit :: "64 word" where "transaction_gas_limit = 2000000"

record parameters =
  pm_chainId :: int
  pm_gasLimit :: "64 word"
  pm_gasPrice :: int

text \<open>The three providers; a lazy one remembers the parameters it has fetched.\<close>

datatype parameterProvider = StaticProvider parameters | LazyProvider "parameters option" | DirectProvider

record staticNonce =
  sn_synced :: bool
  sn_base :: "64 word"

text \<open>
  The state behind a client: the node, the bases of the nonces by address, the provider. The locks
  of the nonce manager make each of its operations one step.
\<close>

record 'n eth_state =
  es_node :: 'n
  es_bases :: "(string, staticNonce) gomap"
  es_provider :: parameterProvider

definition on_node :: "('n, 'b) go \<Rightarrow> ('n eth_state, 'b) go" where
  "on_node m = gzoom es_node (\<lambda>n s. s\<lparr>es_node := n\<rparr>) m"

definition newStaticNonce :: staticNonce where
  "newStaticNonce = \<lparr>sn_synced = False, sn_base = 0\<rparr>"

text \<open>An unsynced entry asks the node; on an error it stays unsynced.\<close>

definition getNonce :: "('k, 'a, 'tx, 'n) sdk \<Rightarrow> 'a \<Rightarrow> ('n eth_state, staticNonce) go" where
  "getNonce sdk from =
     (let key = sdk_AddressString sdk from in
      gbind (gread (\<lambda>s. case gomap_get (es_bases s) key of Some slot \<Rightarrow> slot | None \<Rightarrow> newStaticNonce)) (\<lambda>slot.
      gbind (gmodify (\<lambda>s. s\<lparr>es_bases := gomap_set key slot (es_bases s)\<rparr>)) (\<lambda>_.
      if sn_synced slot then gret slot
      else
        gbind (on_node (sdk_PendingNonceAt sdk from)) (\<lambda>base.
        let slot = \<lparr>sn_synced = True, sn_base = base\<rparr> in
        gbind (gmodify (\<lambda>s. s\<lparr>es_bases := gomap_set key slot (es_bases s)\<rparr>)) (\<lambda>_.
        gret slot)))))"

definition nextNonce :: "('k, 'a, 'tx, 'n) sdk \<Rightarrow> 'a \<Rightarrow> 64 word \<Rightarrow> ('n eth_state, 64 word) go" where
  "nextNonce sdk from offset = gbind (getNonce sdk from) (\<lambda>slot. gret (sn_base slot + offset))"

definition direct_getParams :: "('k, 'a, 'tx, 'n) sdk \<Rightarrow> ('n eth_state, parameters) go" where
  "direct_getParams sdk =
     gbind (on_node (sdk_NetworkID sdk)) (\<lambda>chainId.
     gbind (on_node (sdk_SuggestGasPrice sdk)) (\<lambda>gasPrice.
     gret \<lparr>pm_chainId = chainId, pm_gasLimit = transaction_gas_limit, pm_gasPrice = gasPrice\<rparr>))"

text \<open>\<^verbatim>\<open>makeStaticParameterProvider\<close> fetches the parameters once, and for all.\<close>

definition makeStaticParameterProvider :: "('k, 'a, 'tx, 'n) sdk \<Rightarrow> ('n eth_state, parameterProvider) go" where
  "makeStaticParameterProvider sdk = gbind (direct_getParams sdk) (\<lambda>params. gret (StaticProvider params))"

definition getParams :: "('k, 'a, 'tx, 'n) sdk \<Rightarrow> ('n eth_state, parameters) go" where
  "getParams sdk = (\<lambda>s.
     case es_provider s of
       StaticProvider params \<Rightarrow> (Ok params, s)
     | DirectProvider \<Rightarrow> direct_getParams sdk s
     | LazyProvider (Some params) \<Rightarrow> (Ok params, s)
     | LazyProvider None \<Rightarrow>
         gbind (direct_getParams sdk) (\<lambda>params.
         gbind (gmodify (\<lambda>s. s\<lparr>es_provider := LazyProvider (Some params)\<rparr>)) (\<lambda>_.
         gret params)) s)"

section \<open>Transactions\<close>

record ('k, 'tx) unsignedTransaction =
  ut_chain :: int
  ut_tx :: 'tx
  ut_from :: 'k

record ('k, 'a) transferTransaction =
  tt_nonce :: "64 word"
  tt_amount :: "64 word"
  tt_from :: 'k
  tt_to :: 'a

record 'k deployContractTransaction =
  dt_nonce :: "64 word"
  dt_text :: "byte list"
  dt_from :: 'k

record ('k, 'a) invokeTransaction =
  it_nonce :: "64 word"
  it_from :: 'k
  it_appid :: 'a
  it_payload :: "byte list"

datatype ('k, 'a, 'tx) virtualTransaction =
    VSigned 'tx
  | VUnsigned "('k, 'tx) unsignedTransaction"
  | VTransfer "('k, 'a) transferTransaction"
  | VDeploy "'k deployContractTransaction"
  | VInvoke "('k, 'a) invokeTransaction"

text \<open>
  \<^verbatim>\<open>getTx\<close> gives back what the transaction has become, with the signed transaction or an error. On an
  error it is unchanged.
\<close>

type_synonym ('k, 'a, 'tx, 'n) vtx_op =
  "'n eth_state \<Rightarrow> (('k, 'a, 'tx) virtualTransaction \<times> 'tx outcome) \<times> 'n eth_state"

definition unsigned_getTx ::
  "('k, 'a, 'tx, 'n) sdk \<Rightarrow> ('k, 'tx) unsignedTransaction \<Rightarrow> ('k, 'a, 'tx, 'n) vtx_op" where
  "unsigned_getTx sdk u = (\<lambda>s.
     case sdk_SignTx sdk (ut_tx u) (ut_chain u) (ut_from u) of
       Ok stx \<Rightarrow> ((VSigned stx, Ok stx), s)
     | Err e \<Rightarrow> ((VUnsigned u, Err e), s)
     | Panic p \<Rightarrow> ((VUnsigned u, Panic p), s))"

text \<open>The nonce and the parameters, and then the unsigned transaction made from them.\<close>

definition build_getTx ::
  "('k, 'a, 'tx, 'n) sdk \<Rightarrow> ('k, 'a, 'tx) virtualTransaction \<Rightarrow> 64 word \<Rightarrow> 'k
     \<Rightarrow> (64 word \<Rightarrow> parameters \<Rightarrow> 'tx) \<Rightarrow> ('k, 'a, 'tx, 'n) vtx_op" where
  "build_getTx sdk this offset from make_tx = (\<lambda>s.
     case gbind (nextNonce sdk (sdk_PubkeyToAddress sdk from) offset) (\<lambda>nonce.
          gbind (getParams sdk) (\<lambda>params. gret (nonce, params))) s of
       (Ok (nonce, params), s') \<Rightarrow>
         unsigned_getTx sdk \<lparr>ut_chain = pm_chainId params, ut_tx = make_tx nonce params, ut_from = from\<rparr> s'
     | (Err e, s') \<Rightarrow> ((this, Err e), s')
     | (Panic p, s') \<Rightarrow> ((this, Panic p), s'))"

definition transfer_getTx ::
  "('k, 'a, 'tx, 'n) sdk \<Rightarrow> ('k, 'a) transferTransaction \<Rightarrow> ('k, 'a, 'tx, 'n) vtx_op" where
  "transfer_getTx sdk t =
     build_getTx sdk (VTransfer t) (tt_nonce t) (tt_from t) (\<lambda>nonce params.
       sdk_NewTransaction sdk nonce (tt_to t) (sint (tt_amount t)) 21000 (pm_gasPrice params) [])"

definition deploy_getTx ::
  "('k, 'a, 'tx, 'n) sdk \<Rightarrow> 'k deployContractTransaction \<Rightarrow> ('k, 'a, 'tx, 'n) vtx_op" where
  "deploy_getTx sdk t =
     build_getTx sdk (VDeploy t) (dt_nonce t) (dt_from t) (\<lambda>nonce params.
       sdk_NewContractCreation sdk nonce 0 (pm_gasLimit params) (pm_gasPrice params) (dt_text t))"

definition invoke_getTx ::
  "('k, 'a, 'tx, 'n) sdk \<Rightarrow> ('k, 'a) invokeTransaction \<Rightarrow> ('k, 'a, 'tx, 'n) vtx_op" where
  "invoke_getTx sdk t =
     build_getTx sdk (VInvoke t) (it_nonce t) (it_from t) (\<lambda>nonce params.
       sdk_NewTransaction sdk nonce (it_appid t) 0 (pm_gasLimit params) (pm_gasPrice params) (it_payload t))"

fun virtual_getTx ::
  "('k, 'a, 'tx, 'n) sdk \<Rightarrow> ('k, 'a, 'tx) virtualTransaction \<Rightarrow> ('k, 'a, 'tx, 'n) vtx_op" where
  "virtual_getTx sdk (VSigned tx) = (\<lambda>s. ((VSigned tx, Ok tx), s))"
| "virtual_getTx sdk (VUnsigned u) = unsigned_getTx sdk u"
| "virtual_getTx sdk (VTransfer t) = transfer_getTx sdk t"
| "virtual_getTx sdk (VDeploy t) = deploy_getTx sdk t"
| "virtual_getTx sdk (VInvoke t) = invoke_getTx sdk t"

text \<open>
  A decoded transaction is a lazy one around an outer one: the first \<^verbatim>\<open>getTx\<close> runs, and its result, an
  error too, is returned ever after.
\<close>

record ('k, 'a, 'tx) lazyTransaction =
  lt_inner :: "('k, 'a, 'tx) virtualTransaction"
  lt_once :: "'tx outcome option"

definition newLazyTransaction :: "('k, 'a, 'tx) virtualTransaction \<Rightarrow> ('k, 'a, 'tx) lazyTransaction" where
  "newLazyTransaction inner = \<lparr>lt_inner = inner, lt_once = None\<rparr>"

definition lazy_getTx ::
  "('k, 'a, 'tx, 'n) sdk \<Rightarrow> ('k, 'a, 'tx) lazyTransaction \<Rightarrow> 'n eth_state
     \<Rightarrow> 'tx outcome \<times> ('k, 'a, 'tx) lazyTransaction \<times> 'n eth_state" where
  "lazy_getTx sdk lt s =
     (case lt_once lt of
        Some r \<Rightarrow> (r, lt, s)
      | None \<Rightarrow>
          (case virtual_getTx sdk (lt_inner lt) s of
             ((inner, r), s') \<Rightarrow> (r, \<lparr>lt_inner = inner, lt_once = Some r\<rparr>, s')))"

section \<open>Encoding and decoding\<close>

definition encode_transfer ::
  "('k, 'a, 'tx, 'n) sdk \<Rightarrow> 'w write_op \<Rightarrow> byte \<Rightarrow> ('k, 'a) transferTransaction \<Rightarrow> ('w, unit) go" where
  "encode_transfer sdk wr first t =
     (let from = sdk_FromECDSA sdk (tt_from t) in
      if length from > 255 then gerr (Errorf ''private key too long (%d bytes)'' [AInt (int (length from))])
      else
        gbind (out_chain
          [WriteUint8 wr transaction_type_transfer, WriteUint8 wr (of_nat (length from)),
           WriteUint64 wr (tt_nonce t), WriteUint64 wr (tt_amount t), WriteBytes wr from,
           WriteBytes wr (sdk_AddressBytes sdk (tt_to t))]
          (SetOrder_out LittleEndian (NewMonadOutputWriter first))) (\<lambda>mo. glift (out_Error mo)))"

definition encode_invoke ::
  "('k, 'a, 'tx, 'n) sdk \<Rightarrow> 'w write_op \<Rightarrow> byte \<Rightarrow> ('k, 'a) invokeTransaction \<Rightarrow> ('w, unit) go" where
  "encode_invoke sdk wr first t =
     (let from = sdk_FromECDSA sdk (it_from t) in
      if length from > 255 then gerr (Errorf ''private key too long (%d bytes)'' [AInt (int (length from))])
      else if length (it_payload t) > 65535
      then gerr (Errorf ''arguments too large (%d bytes)'' [AInt (int (length (it_payload t)))])
      else
        gbind (out_chain
          [WriteUint8 wr transaction_type_invoke, WriteUint8 wr (of_nat (length from)),
           WriteUint16 wr (of_nat (length (it_payload t))), WriteUint64 wr (it_nonce t), WriteBytes wr from,
           WriteBytes wr (sdk_AddressBytes sdk (it_appid t)), WriteBytes wr (it_payload t)]
          (SetOrder_out LittleEndian (NewMonadOutputWriter first))) (\<lambda>mo. glift (out_Error mo)))"

text \<open>
  The language leaves open whether a variable among the arguments of a chained call is read before or
  after the calls to its left. The model reads it after them, as the compiler does: a length that
  was just stored is used.
\<close>

definition decodeTransferTransaction ::
  "('k, 'a, 'tx, 'n) sdk \<Rightarrow> byte \<Rightarrow> (reader, ('k, 'a) transferTransaction) go" where
  "decodeTransferTransaction sdk first =
     gbind (ReadUint8 PInt (SetOrder_in LittleEndian (NewMonadInputReader first))) (\<lambda>(lenkey, mi).
     gbind (ReadUint64 PUint64 mi) (\<lambda>(nonce, mi).
     gbind (ReadUint64 PUint64 mi) (\<lambda>(amount, mi).
     gbind (ReadBytes [] lenkey mi) (\<lambda>(frombuf, mi).
     gbind (ReadBytes [] (sdk_AddressLength sdk) mi) (\<lambda>(tobuf, mi).
     gbind (glift (in_Error mi)) (\<lambda>_.
     gbind (glift (sdk_ToECDSA sdk frombuf)) (\<lambda>from.
     gret \<lparr>tt_nonce = of_nat nonce, tt_amount = of_nat amount, tt_from = from,
           tt_to = sdk_BytesToAddress sdk tobuf\<rparr>)))))))"

definition decodeInvokeTransaction ::
  "('k, 'a, 'tx, 'n) sdk \<Rightarrow> byte \<Rightarrow> (reader, ('k, 'a) invokeTransaction) go" where
  "decodeInvokeTransaction sdk first =
     gbind (ReadUint8 PInt (SetOrder_in LittleEndian (NewMonadInputReader first))) (\<lambda>(lenfrom, mi).
     gbind (ReadUint16 PInt mi) (\<lambda>(lenpayload, mi).
     gbind (ReadUint64 PUint64 mi) (\<lambda>(nonce, mi).
     gbind (ReadBytes [] lenfrom mi) (\<lambda>(frombuf, mi).
     gbind (ReadBytes [] (sdk_AddressLength sdk) mi) (\<lambda>(appidbuf, mi).
     gbind (ReadBytes [] lenpayload mi) (\<lambda>(payload, mi).
     gbind (glift (in_Error mi)) (\<lambda>_.
     gbind (glift (sdk_ToECDSA sdk frombuf)) (\<lambda>from.
     gret \<lparr>it_nonce = of_nat nonce, it_from = from, it_appid = sdk_BytesToAddress sdk appidbuf,
           it_payload = payload\<rparr>))))))))"

definition decodeTransaction ::
  "('k, 'a, 'tx, 'n) sdk \<Rightarrow> byte \<Rightarrow> (reader, ('k, 'a, 'tx) lazyTransaction) go" where
  "decodeTransaction sdk first =
     gbind (ReadUint8 PUint8 (SetOrder_in LittleEndian (NewMonadInputReader first))) (\<lambda>(txtype, mi).
     gbind (glift (in_Error mi)) (\<lambda>_.
     if of_nat txtype = transaction_type_transfer
     then gbind (decodeTransferTransaction sdk first) (\<lambda>t. gret (newLazyTransaction (VTransfer t)))
     else if of_nat txtype = transaction_type_invoke
     then gbind (decodeInvokeTransaction sdk first) (\<lambda>t. gret (newLazyTransaction (VInvoke t)))
     else gerr (Errorf ''unknown transaction type %d'' [AInt (int txtype)])))"

section \<open>The bytes\<close>

definition transfer_bytes :: "('k, 'a, 'tx, 'n) sdk \<Rightarrow> ('k, 'a) transferTransaction \<Rightarrow> byte list" where
  "transfer_bytes sdk t = transaction_type_transfer # of_nat (length (sdk_FromECDSA sdk (tt_from t))) #
     put_u64 (tt_nonce t) @ put_u64 (tt_amount t) @ sdk_FromECDSA sdk (tt_from t) @ sdk_AddressBytes sdk (tt_to t)"

definition invoke_bytes :: "('k, 'a, 'tx, 'n) sdk \<Rightarrow> ('k, 'a) invokeTransaction \<Rightarrow> byte list" where
  "invoke_bytes sdk t = transaction_type_invoke # of_nat (length (sdk_FromECDSA sdk (it_from t))) #
     put_u16 (of_nat (length (it_payload t))) @ put_u64 (it_nonce t) @ sdk_FromECDSA sdk (it_from t) @
     sdk_AddressBytes sdk (it_appid t) @ it_payload t"

lemma chain_to_buffer:
  "gbind (out_chain (map (monad_write buffer_write) encs) (SetOrder_out LittleEndian (NewMonadOutputWriter first)))
     (\<lambda>mo. glift (out_Error mo)) w = (Ok (), w @ concat (map (\<lambda>enc. enc LittleEndian) encs))"
  by (simp add: NewMonadOutputWriter_def out_chain_writes write_all_buffer)

lemma sdk_okD:
  assumes "sdk_ok sdk"
  shows "sdk_ToECDSA sdk (sdk_FromECDSA sdk k) = Ok k" "length (sdk_FromECDSA sdk k) \<le> 255"
    "sdk_BytesToAddress sdk (sdk_AddressBytes sdk a) = a" "length (sdk_AddressBytes sdk a) = sdk_AddressLength sdk"
  using assms by (simp_all add: sdk_ok_def)

lemma encode_transfer_buffer:
  assumes "sdk_ok sdk"
  shows "encode_transfer sdk buffer_write first t w = (Ok (), w @ transfer_bytes sdk t)"
  using sdk_okD(2) [OF assms, of "tt_from t"]
    chain_to_buffer [of "[\<lambda>_. [transaction_type_transfer], \<lambda>_. [of_nat (length (sdk_FromECDSA sdk (tt_from t)))],
      \<lambda>ord. put_uint ord 8 (unat (tt_nonce t)), \<lambda>ord. put_uint ord 8 (unat (tt_amount t)),
      \<lambda>_. sdk_FromECDSA sdk (tt_from t), \<lambda>_. sdk_AddressBytes sdk (tt_to t)]" first w]
  by (simp add: encode_transfer_def Let_def write_defs transfer_bytes_def put_u64_def)

lemma encode_invoke_too_large:
  assumes "sdk_ok sdk" and "length (it_payload t) > 65535"
  shows "encode_invoke sdk wr first t w =
    (Err (Errorf ''arguments too large (%d bytes)'' [AInt (int (length (it_payload t)))]), w)"
  using sdk_okD(2) [OF assms(1), of "it_from t"] assms(2)
  by (simp add: encode_invoke_def Let_def gerr_run linorder_not_less)

lemma encode_invoke_buffer:
  assumes "sdk_ok sdk" and len: "length (it_payload t) \<le> 65535"
  shows "encode_invoke sdk buffer_write first t w = (Ok (), w @ invoke_bytes sdk t)"
  using sdk_okD(2) [OF assms(1), of "it_from t"] len
    chain_to_buffer [of "[\<lambda>_. [transaction_type_invoke], \<lambda>_. [of_nat (length (sdk_FromECDSA sdk (it_from t)))],
      \<lambda>ord. put_uint ord 2 (length (it_payload t)), \<lambda>ord. put_uint ord 8 (unat (it_nonce t)),
      \<lambda>_. sdk_FromECDSA sdk (it_from t), \<lambda>_. sdk_AddressBytes sdk (it_appid t), \<lambda>_. it_payload t]" first w]
  by (simp add: encode_invoke_def Let_def write_defs invoke_bytes_def put_u64_def put_u16_def)

text \<open>The reads of a decoder, one after the other.\<close>

lemma read_length_u8:
  "n \<le> 255 \<Longrightarrow> ReadUint8 PInt (MonadReader ord) (r\<lparr>r_input := of_nat n # rest\<rparr>) =
     (Ok (n, MonadReader ord), r\<lparr>r_input := rest\<rparr>)"
  by (rule ReadUint8_run) (simp add: readConvert_def)

lemma read_type_u8:
  "ReadUint8 PUint8 (MonadReader ord) (r\<lparr>r_input := b # rest\<rparr>) =
     (Ok (unat b, MonadReader ord), r\<lparr>r_input := rest\<rparr>)"
  using unat_bound [of b] by (intro ReadUint8_run) (simp add: readConvert_def)

lemma read_length_u16:
  assumes "m \<le> 65535"
  shows "ReadUint16 PInt (MonadReader LittleEndian) (r\<lparr>r_input := put_u16 (of_nat m) @ rest\<rparr>) =
     (Ok (m, MonadReader LittleEndian), r\<lparr>r_input := rest\<rparr>)"
  using assms unfolding ReadUint16_def
  by (intro read_order_run) (simp_all add: put_u16_def readConvert_def get_put_uint)

lemma read_put_u64:
  "ReadUint64 PUint64 (MonadReader LittleEndian) (r\<lparr>r_input := put_u64 v @ rest\<rparr>) =
     (Ok (unat v, MonadReader LittleEndian), r\<lparr>r_input := rest\<rparr>)"
proof -
  have "unat v < 18446744073709551616" by (rule order.strict_trans2 [OF unat_bound]) simp
  then have "unat v \<le> 18446744073709551615" by linarith
  moreover have "get_uint LittleEndian (put_u64 v) = unat v"
    using unat_bound [of v] by (simp add: put_u64_def get_put_uint)
  ultimately show ?thesis
    unfolding ReadUint64_def by (intro read_order_run) (simp_all add: put_u64_def readConvert_def)
qed

lemmas read_runs = read_type_u8 read_length_u8 read_length_u16 read_put_u64 ReadBytes_run

lemma decode_transfer_bytes:
  assumes "sdk_ok sdk"
  shows "decodeTransaction sdk first (r\<lparr>r_input := transfer_bytes sdk t @ rest\<rparr>) =
    (Ok (newLazyTransaction (VTransfer t)), r\<lparr>r_input := rest\<rparr>)"
proof -
  let ?from = "sdk_FromECDSA sdk (tt_from t)"
  have "decodeTransferTransaction sdk first (r\<lparr>r_input := of_nat (length ?from) # put_u64 (tt_nonce t) @
      put_u64 (tt_amount t) @ ?from @ sdk_AddressBytes sdk (tt_to t) @ rest\<rparr>) = (Ok t, r\<lparr>r_input := rest\<rparr>)"
    by (simp add: decodeTransferTransaction_def NewMonadInputReader_def gbind_def read_runs glift_def gret_def
        sdk_okD [OF assms])
  then show ?thesis
    by (simp add: decodeTransaction_def transfer_bytes_def NewMonadInputReader_def gbind_def read_type_u8
        glift_def gret_def transaction_type_transfer_def)
qed

lemma decode_invoke_bytes:
  assumes "sdk_ok sdk" and "length (it_payload t) \<le> 65535"
  shows "decodeTransaction sdk first (r\<lparr>r_input := invoke_bytes sdk t @ rest\<rparr>) =
    (Ok (newLazyTransaction (VInvoke t)), r\<lparr>r_input := rest\<rparr>)"
proof -
  let ?from = "sdk_FromECDSA sdk (it_from t)"
  have "decodeInvokeTransaction sdk first (r\<lparr>r_input := of_nat (length ?from) #
      put_u16 (of_nat (length (it_payload t))) @ put_u64 (it_nonce t) @ ?from @
      sdk_AddressBytes sdk (it_appid t) @ it_payload t @ rest\<rparr>) = (Ok t, r\<lparr>r_input := rest\<rparr>)"
    using assms(2)
    by (simp add: decodeInvokeTransaction_def NewMonadInputReader_def gbind_def read_runs glift_def gret_def
        sdk_okD [OF assms(1)])
  then show ?thesis
    by (simp add: decodeTransaction_def invoke_bytes_def NewMonadInputReader_def gbind_def read_type_u8
        glift_def gret_def transaction_type_transfer_def transaction_type_invoke_def)
qed

section \<open>What is signed\<close>

text \<open>
  The first request for the transaction asks for the nonce and the parameters and signs; a later one
  gives the same answer and asks nobody.
\<close>

lemma lazy_getTx_first:
  assumes "getNonce sdk (sdk_PubkeyToAddress sdk key) es = (Ok slot, es1)" and "getParams sdk es1 = (Ok params, es2)"
    and "\<And>s. virtual_getTx sdk v s = build_getTx sdk v offset key mk s"
  shows "fst (lazy_getTx sdk (newLazyTransaction v) es) =
    sdk_SignTx sdk (mk (sn_base slot + offset) params) (pm_chainId params) key"
proof -
  have "nextNonce sdk (sdk_PubkeyToAddress sdk key) offset es = (Ok (sn_base slot + offset), es1)"
    using assms(1) by (simp add: nextNonce_def gbind_Ok gret_run)
  with assms(2,3) show ?thesis
    by (simp add: lazy_getTx_def newLazyTransaction_def build_getTx_def gbind_Ok gret_run unsigned_getTx_def
        split: outcome.splits)
qed

lemma lazy_getTx_again:
  assumes "lazy_getTx sdk lt es = (r, lt', es')"
  shows "lazy_getTx sdk lt' es'' = (r, lt', es'')"
  using assms by (auto simp: lazy_getTx_def split: option.splits prod.splits)

text \<open>Once the base of an account is known it does not change: the node is not asked again.\<close>

lemma getNonce_again:
  assumes "getNonce sdk from es = (Ok slot, es')" and "gomap_get (es_bases es'') (sdk_AddressString sdk from) = Some slot"
  shows "getNonce sdk from es'' = (Ok slot, es''\<lparr>es_bases := gomap_set (sdk_AddressString sdk from) slot (es_bases es'')\<rparr>)"
proof -
  have "sn_synced slot"
    using assms(1) by (auto simp: getNonce_def Let_def gread_run gmodify_run gbind_def gret_run
        split: if_splits prod.splits outcome.splits)
  with assms(2) show ?thesis
    by (simp add: getNonce_def Let_def gread_run gmodify_run gbind_def gret_run)
qed

end
