(* ===== verification/Eth_Builder.thy ===== *)
theory Eth_Builder
  imports Core_Operations Eth_Transaction
begin

text \<open>
  The builder of the Ethereum driver (\<^verbatim>\<open>src/blockchains/nethereum\<close>): \<^verbatim>\<open>builder.go\<close>, the compiled contracts
  and their argument parsers of \<^verbatim>\<open>contract.go\<close>, and the environment and the premade accounts of
  \<^verbatim>\<open>interface.go\<close>. The Ethereum library, the Solidity compiler, the helper processes and the files are
  parameters.
\<close>

section \<open>Hexadecimal and base64\<close>

text \<open>\<^verbatim>\<open>hex.DecodeString\<close>: the first character that is no digit is the error, or else an odd length.\<close>

definition hex_digit :: "char \<Rightarrow> nat option" where
  "hex_digit c =
     (let n = of_char c in
      if 48 \<le> n \<and> n \<le> 57 then Some (n - 48)
      else if 97 \<le> n \<and> n \<le> 102 then Some (n - 87)
      else if 65 \<le> n \<and> n \<le> 70 then Some (n - 55)
      else None)"

definition InvalidByteError :: "char \<Rightarrow> go_error" where
  "InvalidByteError c = Errorf ''encoding/hex: invalid byte: %#U'' [AStr [c]]"

definition ErrLength :: go_error where
  "ErrLength = Errorf ''encoding/hex: odd length hex string'' []"

fun hex_DecodeString :: "string \<Rightarrow> byte list outcome" where
  "hex_DecodeString [] = Ok []"
| "hex_DecodeString [c] = (case hex_digit c of None \<Rightarrow> Err (InvalidByteError c) | Some _ \<Rightarrow> Err ErrLength)"
| "hex_DecodeString (c # d # cs) =
     (case hex_digit c of
        None \<Rightarrow> Err (InvalidByteError c)
      | Some h \<Rightarrow>
          (case hex_digit d of
             None \<Rightarrow> Err (InvalidByteError d)
           | Some l \<Rightarrow> obind (hex_DecodeString cs) (\<lambda>bs. Ok (of_nat (16 * h + l) # bs))))"

text \<open>The length of the seed of a key of \<^verbatim>\<open>crypto/ed25519\<close>.\<close>

definition SeedSize :: nat where
  "SeedSize = 32"

text \<open>
  \<^verbatim>\<open>base64.StdEncoding.DecodeString\<close>. Line breaks are skipped; \<open>acc\<close> holds the digits of the group of
  four that is being read, and \<open>si\<close> is the offset of the next character, which the error reports.
\<close>

definition base64_digit :: "char \<Rightarrow> nat option" where
  "base64_digit c =
     (let n = of_char c in
      if 65 \<le> n \<and> n \<le> 90 then Some (n - 65)
      else if 97 \<le> n \<and> n \<le> 122 then Some (n - 71)
      else if 48 \<le> n \<and> n \<le> 57 then Some (n + 4)
      else if n = 43 then Some 62
      else if n = 47 then Some 63
      else None)"

definition CorruptInputError :: "nat \<Rightarrow> go_error" where
  "CorruptInputError off = Errorf ''illegal base64 data at input byte %d'' [AInt (int off)]"

definition line_break :: "char \<Rightarrow> bool" where
  "line_break c \<longleftrightarrow> c = CHR 10 \<or> c = CHR 13"

fun base64_bytes :: "nat list \<Rightarrow> byte list" where
  "base64_bytes [a, b] = [of_nat ((a * 64 + b) div 16)]"
| "base64_bytes [a, b, c] = [of_nat ((a * 4096 + b * 64 + c) div 1024), of_nat ((a * 4096 + b * 64 + c) div 4)]"
| "base64_bytes [a, b, c, d] =
     (let v = a * 262144 + b * 4096 + c * 64 + d in [of_nat (v div 65536), of_nat (v div 256), of_nat v])"
| "base64_bytes _ = []"

definition base64_tail :: "nat \<Rightarrow> string \<Rightarrow> byte list \<Rightarrow> byte list outcome" where
  "base64_tail si cs bs =
     (let rest = dropWhile line_break cs in
      if rest = [] then Ok bs else Err (CorruptInputError (si + (length cs - length rest))))"

fun base64_Decode :: "nat \<Rightarrow> nat list \<Rightarrow> string \<Rightarrow> byte list outcome" where
  "base64_Decode si acc [] = (if acc = [] then Ok [] else Err (CorruptInputError (si - length acc)))"
| "base64_Decode si acc (c # cs) =
     (case base64_digit c of
        Some d \<Rightarrow>
          if length acc = 3
          then obind (base64_Decode (si + 1) [] cs) (\<lambda>bs. Ok (base64_bytes (acc @ [d]) @ bs))
          else base64_Decode (si + 1) (acc @ [d]) cs
      | None \<Rightarrow>
          if line_break c then base64_Decode (si + 1) acc cs
          else if c \<noteq> CHR 61 \<or> length acc < 2 then Err (CorruptInputError si)
          else if length acc = 2 then
            (let rest = dropWhile line_break cs; sj = si + 1 + (length cs - length rest) in
             (case rest of
                [] \<Rightarrow> Err (CorruptInputError sj)
              | d # ds \<Rightarrow>
                  if d \<noteq> CHR 61 then Err (CorruptInputError (sj - 1))
                  else base64_tail (sj + 1) ds (base64_bytes acc)))
          else base64_tail (si + 1) cs (base64_bytes acc))"

definition base64_DecodeString :: "string \<Rightarrow> byte list outcome" where
  "base64_DecodeString s = base64_Decode 0 [] s"

section \<open>Contracts\<close>

text \<open>
  What the Solidity compiler makes of a file; the helper process that parses the arguments of a
  call, which is written to, and read line by line; the files of premade accounts, decoded, with \<open>None\<close>
  for an entry that is null.
\<close>

record compiler_Contract =
  cc_Code :: string
  cc_Hashes :: "(string, string) gomap"

record yamlAccount =
  ya_Address :: string
  ya_Private :: string

record 'p host =
  ho_CompileSolidity :: "string \<Rightarrow> compiler_Contract list outcome"
  ho_StartServiceProcess :: "string \<Rightarrow> 'p outcome"
  ho_WriteString :: "string \<Rightarrow> ('p, unit) go"
  ho_Scan :: "('p, string option) go"
  ho_Err :: "'p \<Rightarrow> go_error option"
  ho_Accounts :: "string \<Rightarrow> yamlAccount option list outcome"

record 'p application =
  ap_text :: "byte list"
  ap_entries :: "(string, byte list) gomap"
  ap_parser :: 'p

definition newApplication :: "byte list \<Rightarrow> (string, byte list) gomap \<Rightarrow> 'p \<Rightarrow> 'p application" where
  "newApplication text entries parser = \<lparr>ap_text = text, ap_entries = entries, ap_parser = parser\<rparr>"

fun decode_entries :: "(string \<times> string) list \<Rightarrow> (string, byte list) gomap \<Rightarrow> (string, byte list) gomap outcome" where
  "decode_entries [] entries = Ok entries"
| "decode_entries ((fname, hash) # rest) entries =
     obind (hex_DecodeString hash) (\<lambda>bs. decode_entries rest (gomap_set fname bs entries))"

definition compile :: "'p host \<Rightarrow> string \<Rightarrow> string \<Rightarrow> 'p application outcome" where
  "compile host base name =
     (let path = base @ ''/'' @ name @ ''/contract.sol'' in
      obind (ho_CompileSolidity host path) (\<lambda>contracts.
      if length contracts < 1 then Err (Errorf (''no contract in '%s'' @ apos) [AStr path])
      else if length contracts > 1 then Err (Errorf (''more than one contract in '%s'' @ apos) [AStr path])
      else
        let contract = hd contracts in
        if length (cc_Code contract) < 2 then Panic ''slice bounds out of range''
        else
          obind (hex_DecodeString (drop 2 (cc_Code contract))) (\<lambda>text.
          obind (decode_entries (cc_Hashes contract) []) (\<lambda>entries.
          let path = base @ ''/'' @ name @ ''/arguments'' in
          let path = (if prefix ''/'' path then path else ''./'' @ path) in
          obind (ho_StartServiceProcess host path) (\<lambda>parser.
          Ok (newApplication text entries parser))))))"

text \<open>\<^verbatim>\<open>on_parser\<close> runs an operation of the helper process of an application.\<close>

definition on_parser :: "('p, 'b) go \<Rightarrow> ('p application, 'b) go" where
  "on_parser m = gzoom ap_parser (\<lambda>p a. a\<lparr>ap_parser := p\<rparr>) m"

definition scan_payload :: "'p host \<Rightarrow> ('p application, string \<times> byte list option) go" where
  "scan_payload host =
     gbind (on_parser (ho_Scan host)) (\<lambda>line.
     case line of
       None \<Rightarrow> gret ([], None)
     | Some fname \<Rightarrow>
         gbind (on_parser (ho_Scan host)) (\<lambda>line.
         case line of
           None \<Rightarrow> gret (fname, None)
         | Some text \<Rightarrow> gbind (glift (base64_DecodeString text)) (\<lambda>payload. gret (fname, Some payload))))"

definition arguments :: "'p host \<Rightarrow> string \<Rightarrow> ('p application, byte list) go" where
  "arguments host function =
     gbind (on_parser (ho_WriteString host (function @ [CHR 10]))) (\<lambda>_.
     gbind (scan_payload host) (\<lambda>(fname, payload).
     case payload of
       None \<Rightarrow>
         gbind (gread (\<lambda>a. ho_Err host (ap_parser a))) (\<lambda>err.
         gerr (case err of Some e \<Rightarrow> e | None \<Rightarrow> Errorf ''EOF'' []))
     | Some payload \<Rightarrow>
         gbind (gread (\<lambda>a. gomap_get (ap_entries a) fname)) (\<lambda>entry.
         case entry of
           None \<Rightarrow> gerr (Errorf (''unknown function '%s'' @ apos) [AStr fname])
         | Some entry \<Rightarrow> gret (entry @ payload))))"

section \<open>The builder\<close>

record ('k, 'a) account =
  ac_address :: 'a
  ac_private :: 'k
  ac_nonce :: "64 word"

text \<open>
  An account is a pointer into the slice of the premade accounts, so it is an index; an application
  is entered once into the map of the applications, so a pointer to it is its name.
\<close>

record 'a eth_contract =
  ct_appli :: string
  ct_appid :: 'a

datatype 'a eth_value = EAccount nat | EContract "'a eth_contract"

record ('k, 'a, 'n, 'p) eth_builder =
  eb_premadeAccounts :: "('k, 'a) account list"
  eb_usedAccounts :: nat
  eb_compilers :: "string list"
  eb_applications :: "(string, 'p application) gomap"
  eb_chain :: "'n eth_state"

definition newBuilder :: "'n \<Rightarrow> ('k, 'a, 'n, 'p) eth_builder" where
  "newBuilder node = \<lparr>eb_premadeAccounts = [], eb_usedAccounts = 0, eb_compilers = [], eb_applications = [],
     eb_chain = \<lparr>es_node = node, es_bases = [], es_provider = LazyProvider None\<rparr>\<rparr>"

definition addAccount :: "'a \<Rightarrow> 'k \<Rightarrow> ('k, 'a, 'n, 'p) eth_builder \<Rightarrow> ('k, 'a, 'n, 'p) eth_builder" where
  "addAccount address private b =
     b\<lparr>eb_premadeAccounts := eb_premadeAccounts b @ [\<lparr>ac_address = address, ac_private = private, ac_nonce = 0\<rparr>]\<rparr>"

definition addCompiler :: "string \<Rightarrow> ('k, 'a, 'n, 'p) eth_builder \<Rightarrow> ('k, 'a, 'n, 'p) eth_builder" where
  "addCompiler path b = b\<lparr>eb_compilers := eb_compilers b @ [path]\<rparr>"

definition getBuilderAccount :: "(('k, 'a, 'n, 'p) eth_builder, nat) go" where
  "getBuilderAccount =
     gbind (gread eb_premadeAccounts) (\<lambda>accounts.
     if length accounts > 0 then gret 0 else gerr (Errorf ''no available premade accounts'' []))"

fun first_compiled :: "'p host \<Rightarrow> string list \<Rightarrow> string \<Rightarrow> 'p application option outcome" where
  "first_compiled host [] name = Ok None"
| "first_compiled host (c # cs) name =
     (case compile host c name of
        Ok appli \<Rightarrow> Ok (Some appli)
      | Err _ \<Rightarrow> first_compiled host cs name
      | Panic p \<Rightarrow> Panic p)"

definition getApplication :: "'p host \<Rightarrow> string \<Rightarrow> (('k, 'a, 'n, 'p) eth_builder, string) go" where
  "getApplication host name =
     gbind (gread eb_applications) (\<lambda>applications.
     case gomap_get applications name of
       Some _ \<Rightarrow> gret name
     | None \<Rightarrow>
         gbind (gread eb_compilers) (\<lambda>compilers.
         gbind (glift (first_compiled host compilers name)) (\<lambda>appli.
         case appli of
           None \<Rightarrow> gerr (Errorf (''failed to compile contract '%s'' @ apos) [AStr name])
         | Some appli \<Rightarrow>
             gbind (gmodify (\<lambda>b. b\<lparr>eb_applications := gomap_set name appli (eb_applications b)\<rparr>)) (\<lambda>_.
             gret name))))"

definition eth_CreateAccount :: "int \<Rightarrow> (('k, 'a, 'n, 'p) eth_builder, 'a eth_value) go" where
  "eth_CreateAccount stake = (\<lambda>b.
     if eb_usedAccounts b < length (eb_premadeAccounts b)
     then (Ok (EAccount (eb_usedAccounts b)), b\<lparr>eb_usedAccounts := eb_usedAccounts b + 1\<rparr>)
     else (Err (Errorf ''can only use %d premade accounts'' [AInt (int (eb_usedAccounts b))]), b))"

text \<open>
  The wait for the receipt of a transaction polls once a second for as long as the node does not find
  it: it may never end. Then the value is \<open>None\<close>.
\<close>

partial_function (option) poll_receipt :: "('k, 'a, 'tx, 'n) sdk \<Rightarrow> string \<Rightarrow> 'n \<Rightarrow> ('a outcome \<times> 'n) option" where
  "poll_receipt sdk hash node =
     (case sdk_TransactionReceipt sdk hash node of
        (Err e, node') \<Rightarrow> if e = sdk_NotFound sdk then poll_receipt sdk hash node' else Some (Err e, node')
      | (r, node') \<Rightarrow> Some (r, node'))"

definition submitTransaction :: "('k, 'a, 'tx, 'n) sdk \<Rightarrow> 'tx \<Rightarrow> 'n \<Rightarrow> ('a outcome \<times> 'n) option" where
  "submitTransaction sdk stx node =
     (case sdk_SendTransaction sdk stx node of
        (Ok (), node') \<Rightarrow> poll_receipt sdk (sdk_Hash sdk stx) node'
      | (Err e, node') \<Rightarrow> Some (Err e, node')
      | (Panic p, node') \<Rightarrow> Some (Panic p, node'))"

definition bump_nonce :: "nat \<Rightarrow> ('k, 'a, 'n, 'p) eth_builder \<Rightarrow> ('k, 'a, 'n, 'p) eth_builder" where
  "bump_nonce i b = b\<lparr>eb_premadeAccounts := (eb_premadeAccounts b)
     [i := (eb_premadeAccounts b ! i)\<lparr>ac_nonce := ac_nonce (eb_premadeAccounts b ! i) + 1\<rparr>]\<rparr>"

definition set_node :: "'n \<Rightarrow> ('k, 'a, 'n, 'p) eth_builder \<Rightarrow> ('k, 'a, 'n, 'p) eth_builder" where
  "set_node node b = b\<lparr>eb_chain := (eb_chain b)\<lparr>es_node := node\<rparr>\<rparr>"

definition eth_CreateContract ::
  "('k, 'a, 'tx, 'n) sdk \<Rightarrow> 'p host \<Rightarrow> string \<Rightarrow> ('k, 'a, 'n, 'p) eth_builder
     \<Rightarrow> ('a eth_value outcome \<times> ('k, 'a, 'n, 'p) eth_builder) option" where
  "eth_CreateContract sdk host name b =
     (case gbind (getApplication host name) (\<lambda>appli. gbind getBuilderAccount (\<lambda>from. gret (appli, from))) b of
        (Err e, b1) \<Rightarrow> Some (Err e, b1)
      | (Panic p, b1) \<Rightarrow> Some (Panic p, b1)
      | (Ok (appli, from), b1) \<Rightarrow>
          let account = eb_premadeAccounts b1 ! from;
              tx = \<lparr>dt_nonce = ac_nonce account,
                dt_text = ap_text (the (gomap_get (eb_applications b1) appli)), dt_from = ac_private account\<rparr> in
          (case deploy_getTx sdk tx (eb_chain b1) of
             ((_, Err e), chain) \<Rightarrow> Some (Err e, b1\<lparr>eb_chain := chain\<rparr>)
           | ((_, Panic p), chain) \<Rightarrow> Some (Panic p, b1\<lparr>eb_chain := chain\<rparr>)
           | ((_ :: ('k, 'a, 'tx) virtualTransaction, Ok stx), chain) \<Rightarrow>
               (case submitTransaction sdk stx (es_node chain) of
                  None \<Rightarrow> None
                | Some (Err e, node) \<Rightarrow> Some (Err e, set_node node (b1\<lparr>eb_chain := chain\<rparr>))
                | Some (Panic p, node) \<Rightarrow> Some (Panic p, set_node node (b1\<lparr>eb_chain := chain\<rparr>))
                | Some (Ok address, node) \<Rightarrow>
                    Some (Ok (EContract \<lparr>ct_appli = appli, ct_appid = address\<rparr>),
                      bump_nonce from (set_node node (b1\<lparr>eb_chain := chain\<rparr>))))))"

definition eth_CreateResource :: "string \<Rightarrow> 'f option" where
  "eth_CreateResource domain = None"

text \<open>The type assertions \<^verbatim>\<open>.(*account)\<close> and \<^verbatim>\<open>.(*contract)\<close>.\<close>

fun as_account :: "'a eth_value bvalue \<Rightarrow> nat outcome" where
  "as_account (GRes (ROpaque (EAccount i))) = Ok i"
| "as_account _ = Panic ''interface conversion''"

fun as_contract :: "'a eth_value bvalue \<Rightarrow> 'a eth_contract outcome" where
  "as_contract (GRes (ROpaque (EContract c))) = Ok c"
| "as_contract _ = Panic ''interface conversion''"

definition get_account :: "nat \<Rightarrow> (('k, 'a, 'n, 'p) eth_builder, ('k, 'a) account) go" where
  "get_account i = (\<lambda>b.
     (if i < length (eb_premadeAccounts b) then Ok (eb_premadeAccounts b ! i)
      else Panic ''nil pointer dereference'', b))"

text \<open>The encoding into a fresh \<^verbatim>\<open>bytes.Buffer\<close>; the byte order the machine shows is not used.\<close>

definition to_buffer :: "(byte list, unit) go \<Rightarrow> ('s, byte list) go" where
  "to_buffer enc = glift (case enc [] of (r, buffer) \<Rightarrow> obind r (\<lambda>_. Ok buffer))"

definition eth_EncodeTransfer ::
  "('k, 'a, 'tx, 'n) sdk \<Rightarrow> int \<Rightarrow> 'a eth_value bvalue \<Rightarrow> 'a eth_value bvalue \<Rightarrow> interactionInformation
     \<Rightarrow> (('k, 'a, 'n, 'p) eth_builder, byte list) go" where
  "eth_EncodeTransfer sdk amount from to info =
     gbind (glift (as_account from)) (\<lambda>f.
     gbind (get_account f) (\<lambda>faccount.
     gbind (glift (as_account to)) (\<lambda>t.
     gbind (get_account t) (\<lambda>taccount.
     gbind (to_buffer (encode_transfer sdk buffer_write 0x11
         \<lparr>tt_nonce = ac_nonce faccount, tt_amount = word_of_int amount, tt_from = ac_private faccount,
          tt_to = ac_address taccount\<rparr>)) (\<lambda>bytes.
     gbind (gmodify (bump_nonce f)) (\<lambda>_.
     gret bytes))))))"

text \<open>The arguments of a call, by the process of the contract's application.\<close>

definition eth_arguments ::
  "'p host \<Rightarrow> string \<Rightarrow> string \<Rightarrow> (('k, 'a, 'n, 'p) eth_builder, byte list) go" where
  "eth_arguments host name function = (\<lambda>b.
     case gomap_get (eb_applications b) name of
       None \<Rightarrow> (Panic ''nil pointer dereference'', b)
     | Some appli \<Rightarrow>
         (case arguments host function appli of
            (r, appli') \<Rightarrow> (r, b\<lparr>eb_applications := gomap_set name appli' (eb_applications b)\<rparr>)))"

definition eth_EncodeInvoke ::
  "('k, 'a, 'tx, 'n) sdk \<Rightarrow> 'p host \<Rightarrow> 'a eth_value bvalue \<Rightarrow> 'a eth_value bvalue \<Rightarrow> string \<Rightarrow> interactionInformation
     \<Rightarrow> (('k, 'a, 'n, 'p) eth_builder, byte list) go" where
  "eth_EncodeInvoke sdk host from to function info =
     gbind (glift (as_account from)) (\<lambda>f.
     gbind (glift (as_contract to)) (\<lambda>tcontract.
     gbind (eth_arguments host (ct_appli tcontract) function) (\<lambda>payload.
     gbind (get_account f) (\<lambda>faccount.
     gbind (to_buffer (encode_invoke sdk buffer_write 0x11
         \<lparr>it_nonce = ac_nonce faccount, it_from = ac_private faccount, it_appid = ct_appid tcontract,
          it_payload = payload\<rparr>)) (\<lambda>bytes.
     gbind (gmodify (bump_nonce f)) (\<lambda>_.
     gret bytes))))))"

definition eth_EncodeInteraction :: "string \<Rightarrow> bexpr \<Rightarrow> interactionInformation \<Rightarrow> ('w, byte list) go" where
  "eth_EncodeInteraction itype e info = gerr (Errorf (''unknown interaction type '%s'' @ apos) [AStr itype])"

section \<open>The environment of the builder\<close>

fun parseEnvmap_loop :: "string list \<Rightarrow> (string, string list) gomap \<Rightarrow> (string, string list) gomap outcome" where
  "parseEnvmap_loop [] ret = Ok ret"
| "parseEnvmap_loop (element # env) ret =
     (let key = takeWhile (\<lambda>c. c \<noteq> CHR 61) element in
      if length key = length element then Err (Errorf (''unexpected environment '%s'' @ apos) [AStr element])
      else
        let val = drop (length key + 1) element;
            values = (case gomap_get ret key of Some values \<Rightarrow> values | None \<Rightarrow> []) in
        parseEnvmap_loop env (gomap_set key (values @ [val]) ret))"

definition parseEnvmap :: "string list \<Rightarrow> (string, string list) gomap outcome" where
  "parseEnvmap env = parseEnvmap_loop env []"

definition add_yamlAccount ::
  "('k, 'a, 'tx, 'n) sdk \<Rightarrow> yamlAccount option \<Rightarrow> (('k, 'a, 'n, 'p) eth_builder, unit) go" where
  "add_yamlAccount sdk entry =
     (case entry of
        None \<Rightarrow> gpanic ''nil pointer dereference''
      | Some account \<Rightarrow>
          gbind (glift (hex_DecodeString (ya_Address account))) (\<lambda>bytes.
          if length bytes \<noteq> sdk_AddressLength sdk
          then gerr (Errorf ''invalid address length (%d bytes)'' [AInt (int (length bytes))])
          else
            gbind (glift (sdk_HexToECDSA sdk (ya_Private account))) (\<lambda>private.
            gmodify (addAccount (sdk_BytesToAddress sdk bytes) private))))"

definition addPremadeAccounts ::
  "('k, 'a, 'tx, 'n) sdk \<Rightarrow> 'p host \<Rightarrow> string \<Rightarrow> (('k, 'a, 'n, 'p) eth_builder, unit) go" where
  "addPremadeAccounts sdk host path =
     gbind (glift (ho_Accounts host path)) (\<lambda>accounts. gfor accounts (add_yamlAccount sdk))"

definition apply_env ::
  "('k, 'a, 'tx, 'n) sdk \<Rightarrow> 'p host \<Rightarrow> string \<times> string list \<Rightarrow> (('k, 'a, 'n, 'p) eth_builder, unit) go" where
  "apply_env sdk host = (\<lambda>(key, values).
     if key = ''accounts'' then gfor values (addPremadeAccounts sdk host)
     else if key = ''contracts'' then gfor values (\<lambda>path. gmodify (addCompiler path))
     else gerr (Errorf (''unknown environment key '%s'' @ apos) [AStr key]))"

text \<open>
  \<^verbatim>\<open>Builder\<close>: \<open>keys\<close> are the endpoints in the order the first loop sees them (only the first counts), and
  \<open>it\<close> gives the order in which the second loop goes through the environment.
\<close>

definition eth_Builder ::
  "('k, 'a, 'tx, 'n) sdk \<Rightarrow> 'p host \<Rightarrow> (string \<Rightarrow> 'n outcome) \<Rightarrow> string list
     \<Rightarrow> ((string, string list) gomap \<Rightarrow> (string \<times> string list) list) \<Rightarrow> string list
     \<Rightarrow> ('k, 'a, 'n, 'p) eth_builder outcome" where
  "eth_Builder sdk host dial keys it env =
     obind (parseEnvmap env) (\<lambda>envmap.
     let endpoint = (case keys of [] \<Rightarrow> [] | key # _ \<Rightarrow> key) in
     obind (dial (''ws://'' @ endpoint)) (\<lambda>node.
     case gfor (it envmap) (apply_env sdk host) (newBuilder node) of
       (r, b) \<Rightarrow> obind r (\<lambda>_. Ok b)))"

section \<open>The builder interface\<close>

text \<open>
  The Ethereum builder in an environment that is otherwise \<open>env\<close>. The environment has no value for a
  call that does not return; there the wait for a receipt that never comes counts as a panic, so
  that a run which ends well has not met one.
\<close>

definition eth_env ::
  "('k, 'a, 'tx, 'n) sdk \<Rightarrow> 'p host \<Rightarrow> ('g, ('k, 'a, 'n, 'p) eth_builder, 'a eth_value, 'x) env
     \<Rightarrow> ('g, ('k, 'a, 'n, 'p) eth_builder, 'a eth_value, 'x) env" where
  "eth_env sdk host env = env\<lparr>env_CreateAccount := eth_CreateAccount,
     env_CreateContract := (\<lambda>name b. case eth_CreateContract sdk host name b of
        Some result \<Rightarrow> result | None \<Rightarrow> (Panic ''does not return'', b)),
     env_CreateResource := eth_CreateResource, env_EncodeTransfer := eth_EncodeTransfer sdk,
     env_EncodeInvoke := eth_EncodeInvoke sdk host, env_EncodeInteraction := eth_EncodeInteraction\<rparr>"

interpretation eth: blockchain_builder "eth_env sdk host env" for sdk host env
  by unfold_locales (auto simp: eth_env_def eth_CreateResource_def eth_EncodeInteraction_def keeps_gerr)

section \<open>A sequence of interactions\<close>

text \<open>
  The interactions the core asks the builder to encode, and the transaction each is to become: with the
  next nonce of its sender, the amount or the parsed arguments, and the parameters of the chain.
\<close>

datatype 'a eth_request = ReqTransfer int nat nat | ReqInvoke nat "'a eth_contract" string

fun sender :: "'a eth_request \<Rightarrow> nat" where
  "sender (ReqTransfer amount from to) = from"
| "sender (ReqInvoke from contract function) = from"

fun encode_request ::
  "('k, 'a, 'tx, 'n) sdk \<Rightarrow> 'p host \<Rightarrow> interactionInformation \<Rightarrow> 'a eth_request
     \<Rightarrow> (('k, 'a, 'n, 'p) eth_builder, byte list) go" where
  "encode_request sdk host info (ReqTransfer amount from to) =
     eth_EncodeTransfer sdk amount (GRes (ROpaque (EAccount from))) (GRes (ROpaque (EAccount to))) info"
| "encode_request sdk host info (ReqInvoke from contract function) =
     eth_EncodeInvoke sdk host (GRes (ROpaque (EAccount from))) (GRes (ROpaque (EContract contract))) function info"

fun request_tx ::
  "('k, 'a, 'tx, 'n) sdk \<Rightarrow> 'p host \<Rightarrow> ('k, 'a, 'n, 'p) eth_builder \<Rightarrow> 'a eth_request \<Rightarrow> 64 word \<Rightarrow> parameters
     \<Rightarrow> 'tx outcome" where
  "request_tx sdk host b (ReqTransfer amount from to) nonce params =
     Ok (sdk_NewTransaction sdk nonce (ac_address (eb_premadeAccounts b ! to)) amount 21000 (pm_gasPrice params) [])"
| "request_tx sdk host b (ReqInvoke from contract function) nonce params =
     obind (fst (eth_arguments host (ct_appli contract) function b)) (\<lambda>payload.
     Ok (sdk_NewTransaction sdk nonce (ct_appid contract) 0 (pm_gasLimit params) (pm_gasPrice params) payload))"

lemma to_buffer_run: "enc [] = (Ok (), buffer) \<Longrightarrow> to_buffer enc s = (Ok buffer, s)"
  by (simp add: to_buffer_def glift_run obind_def)

text \<open>A request that succeeds has written the transaction with the nonce of its sender, and used that nonce up.\<close>

lemma get_account_Ok: "get_account i b = (Ok account, b') \<longleftrightarrow>
    i < length (eb_premadeAccounts b) \<and> account = eb_premadeAccounts b ! i \<and> b' = b"
  by (auto simp: get_account_def)

lemma eth_EncodeTransfer_Ok:
  assumes "sdk_ok sdk"
    and "eth_EncodeTransfer sdk amount (GRes (ROpaque (EAccount f))) (GRes (ROpaque (EAccount t))) info b = (Ok payload, b')"
  shows "f < length (eb_premadeAccounts b) \<and> b' = bump_nonce f b \<and>
    payload = transfer_bytes sdk \<lparr>tt_nonce = ac_nonce (eb_premadeAccounts b ! f), tt_amount = word_of_int amount,
      tt_from = ac_private (eb_premadeAccounts b ! f), tt_to = ac_address (eb_premadeAccounts b ! t)\<rparr>"
  using assms(2) unfolding eth_EncodeTransfer_def as_account.simps
  by (elim gbind_OkE)
    (auto simp: glift_run get_account_Ok gmodify_run gret_run to_buffer_def obind_def
      encode_transfer_buffer [OF assms(1)])

lemma eth_EncodeInvoke_Ok:
  assumes "sdk_ok sdk"
    and "eth_EncodeInvoke sdk host (GRes (ROpaque (EAccount f))) (GRes (ROpaque (EContract c))) function info b = (Ok payload, b')"
  obtains args b1 where "eth_arguments host (ct_appli c) function b = (Ok args, b1)" "f < length (eb_premadeAccounts b1)"
    "b' = bump_nonce f b1" "length args \<le> 65535"
    "payload = invoke_bytes sdk \<lparr>it_nonce = ac_nonce (eb_premadeAccounts b1 ! f),
      it_from = ac_private (eb_premadeAccounts b1 ! f), it_appid = ct_appid c, it_payload = args\<rparr>"
proof -
  from assms(2) obtain args b1 bytes where args: "eth_arguments host (ct_appli c) function b = (Ok args, b1)"
    and f: "f < length (eb_premadeAccounts b1)"
    and enc: "to_buffer (encode_invoke sdk buffer_write 0x11
       \<lparr>it_nonce = ac_nonce (eb_premadeAccounts b1 ! f), it_from = ac_private (eb_premadeAccounts b1 ! f),
        it_appid = ct_appid c, it_payload = args\<rparr>) b1 = (Ok payload, bytes)"
    and b': "b' = bump_nonce f bytes"
    unfolding eth_EncodeInvoke_def as_account.simps as_contract.simps
    by (elim gbind_OkE) (auto simp: glift_run get_account_Ok gmodify_run gret_run)
  have len: "length args \<le> 65535"
  proof (rule ccontr)
    assume "\<not> length args \<le> 65535"
    then have long: "65535 < length (it_payload \<lparr>it_nonce = ac_nonce (eb_premadeAccounts b1 ! f),
      it_from = ac_private (eb_premadeAccounts b1 ! f), it_appid = ct_appid c, it_payload = args\<rparr>)" by simp
    from enc show False
      unfolding to_buffer_def encode_invoke_too_large [OF assms(1) long] by (simp add: glift_run obind_def)
  qed
  with enc have "payload = invoke_bytes sdk \<lparr>it_nonce = ac_nonce (eb_premadeAccounts b1 ! f),
      it_from = ac_private (eb_premadeAccounts b1 ! f), it_appid = ct_appid c, it_payload = args\<rparr>" "bytes = b1"
    by (auto simp: to_buffer_def glift_run obind_def encode_invoke_buffer [OF assms(1)])
  with that args f b' len show ?thesis by blast
qed

text \<open>
  What the requests leave of the accounts: their addresses and keys, and each nonce advanced by the
  number of requests of that account.
\<close>

definition requests_of :: "'a eth_request list \<Rightarrow> nat \<Rightarrow> nat" where
  "requests_of reqs i = length (filter (\<lambda>r. sender r = i) reqs)"

definition nonces_advanced ::
  "'a eth_request list \<Rightarrow> ('k, 'a, 'n, 'p) eth_builder \<Rightarrow> ('k, 'a, 'n, 'p) eth_builder \<Rightarrow> bool" where
  "nonces_advanced reqs b b' \<longleftrightarrow> length (eb_premadeAccounts b') = length (eb_premadeAccounts b) \<and>
     (\<forall>i < length (eb_premadeAccounts b). eb_premadeAccounts b' ! i = (eb_premadeAccounts b ! i)
        \<lparr>ac_nonce := ac_nonce (eb_premadeAccounts b ! i) + of_nat (requests_of reqs i)\<rparr>)"

lemma eth_arguments_accounts: "eth_arguments host name function b = (r, b') \<Longrightarrow> eb_premadeAccounts b' = eb_premadeAccounts b"
  by (auto simp: eth_arguments_def split: option.splits prod.splits)

lemma encode_request_accounts:
  assumes "sdk_ok sdk" and "encode_request sdk host info req b = (Ok payload, b')"
  shows "nonces_advanced [req] b b'" and "sender req < length (eb_premadeAccounts b)"
proof -
  have "eb_premadeAccounts b' = eb_premadeAccounts (bump_nonce (sender req) b) \<and>
      sender req < length (eb_premadeAccounts b)"
  proof (cases req)
    case (ReqTransfer amount f t)
    with assms(2) show ?thesis by (auto dest!: eth_EncodeTransfer_Ok [OF assms(1)])
  next
    case (ReqInvoke f c fn)
    with assms(2) show ?thesis
      by (auto elim!: eth_EncodeInvoke_Ok [OF assms(1)] dest!: eth_arguments_accounts simp: bump_nonce_def)
  qed
  then show "nonces_advanced [req] b b'" "sender req < length (eb_premadeAccounts b)"
    by (auto simp: nonces_advanced_def bump_nonce_def requests_of_def nth_list_update)
qed

lemma nonces_advanced_trans:
  assumes "nonces_advanced rs b b'" and "nonces_advanced rs' b' b''"
  shows "nonces_advanced (rs @ rs') b b''"
  using assms by (simp add: nonces_advanced_def requests_of_def add.assoc)

lemma encode_requests_accounts:
  assumes "sdk_ok sdk" and "gmap (encode_request sdk host info) reqs b = (Ok payloads, b')"
  shows "nonces_advanced reqs b b'"
  using assms(2)
proof (induction reqs arbitrary: b payloads)
  case Nil
  then show ?case by (simp add: gret_run nonces_advanced_def requests_of_def)
next
  case (Cons req reqs)
  then obtain payload b1 payloads' where "encode_request sdk host info req b = (Ok payload, b1)"
    "gmap (encode_request sdk host info) reqs b1 = (Ok payloads', b')"
    by (auto elim!: gbind_OkE simp: gret_run)
  then have "nonces_advanced [req] b b1" "nonces_advanced reqs b1 b'"
    using encode_request_accounts(1) [OF assms(1)] Cons.IH by blast+
  then show ?case using nonces_advanced_trans [of "[req]" b b1 reqs b'] by simp
qed

end
