(* ===== verification/Eth_Client.thy ===== *)
theory Eth_Client
  imports Eth_Builder
begin

text \<open>
  The client of the Ethereum driver (\<^verbatim>\<open>src/blockchains/nethereum/client.go\<close> and the client part of
  \<^verbatim>\<open>interface.go\<close>): how it is created, and how it decodes and prepares the payloads the builder has
  encoded. Its confirmer is in \<open>Eth_Confirm\<close>.
\<close>

section \<open>Preparation\<close>

datatype transactionPreparer = NothingPreparer | SignaturePreparer

text \<open>A transaction is a pointer: what becomes of it in a call is given back.\<close>

definition tx_getTx ::
  "('k, 'a, 'tx, 'n) sdk \<Rightarrow> ('k, 'a, 'tx) lazyTransaction \<Rightarrow> ('n eth_state, 'tx \<times> ('k, 'a, 'tx) lazyTransaction) go" where
  "tx_getTx sdk lt = (\<lambda>es.
     case lazy_getTx sdk lt es of (r, lt', es') \<Rightarrow> (obind r (\<lambda>tx. Ok (tx, lt')), es'))"

fun prepare_tx ::
  "('k, 'a, 'tx, 'n) sdk \<Rightarrow> transactionPreparer \<Rightarrow> ('k, 'a, 'tx) lazyTransaction
     \<Rightarrow> ('n eth_state, ('k, 'a, 'tx) lazyTransaction) go" where
  "prepare_tx sdk NothingPreparer tx = gret tx"
| "prepare_tx sdk SignaturePreparer tx = gbind (tx_getTx sdk tx) (\<lambda>(_, tx). gret tx)"

definition eth_DecodePayload ::
  "('k, 'a, 'tx, 'n) sdk \<Rightarrow> transactionPreparer \<Rightarrow> byte list \<Rightarrow> ('n eth_state, ('k, 'a, 'tx) lazyTransaction) go" where
  "eth_DecodePayload sdk preparer encoded =
     gbind (glift (fst (decodeTransaction sdk 0x11 \<lparr>r_input = encoded, r_err = EOF\<rparr>))) (\<lambda>tx.
     prepare_tx sdk preparer tx)"

section \<open>Creation\<close>

definition parsePrepare ::
  "('k, 'a, 'tx, 'n) sdk \<Rightarrow> string \<Rightarrow> ('n eth_state, parameterProvider \<times> transactionPreparer) go" where
  "parsePrepare sdk mode =
     (if mode = ''nothing'' then gret (DirectProvider, NothingPreparer)
      else if mode = ''params'' then
        gbind (makeStaticParameterProvider sdk) (\<lambda>provider. gret (provider, NothingPreparer))
      else if mode = ''signature'' then
        gbind (makeStaticParameterProvider sdk) (\<lambda>provider. gret (provider, SignaturePreparer))
      else gerr (Errorf (''unknown prepare method '%s'' @ apos) [AStr mode]))"

fun parse_params ::
  "('k, 'a, 'tx, 'n) sdk \<Rightarrow> (string \<times> string) list \<Rightarrow> (parameterProvider \<times> transactionPreparer) option
     \<Rightarrow> ('n eth_state, (parameterProvider \<times> transactionPreparer) option) go" where
  "parse_params sdk [] chosen = gret chosen"
| "parse_params sdk ((key, val) # params) chosen =
     (if key = ''prepare'' then gbind (parsePrepare sdk val) (\<lambda>pp. parse_params sdk params (Some pp))
      else gerr (Errorf (''unknown parameter '%s'' @ apos) [AStr key]))"

text \<open>
  \<^verbatim>\<open>Client\<close> gives the state behind the client and its preparer; \<open>params\<close> is in the order of the loop. The
  provider is not used before it is chosen.
\<close>

definition eth_Client ::
  "('k, 'a, 'tx, 'n) sdk \<Rightarrow> (string \<Rightarrow> 'n outcome) \<Rightarrow> (string \<times> string) list \<Rightarrow> string list
     \<Rightarrow> ('n eth_state \<times> transactionPreparer) outcome" where
  "eth_Client sdk dial params view =
     (case view of
        [] \<Rightarrow> Panic ''index out of range''
      | endpoint # _ \<Rightarrow>
          obind (dial (''ws://'' @ endpoint)) (\<lambda>node.
          case gbind (parse_params sdk params None) (\<lambda>chosen.
              case chosen of
                Some pp \<Rightarrow> gret pp
              | None \<Rightarrow> gbind (makeStaticParameterProvider sdk) (\<lambda>provider. gret (provider, SignaturePreparer)))
              \<lparr>es_node = node, es_bases = [], es_provider = DirectProvider\<rparr> of
            (r, es) \<Rightarrow> obind r (\<lambda>(provider, preparer). Ok (es\<lparr>es_provider := provider\<rparr>, preparer))))"

section \<open>From the builder to the signed transaction\<close>

lemma sint_word_of_int64: "int64 i \<Longrightarrow> sint (word_of_int i :: 64 word) = i"
  by (simp add: int64_def sint_uint unsigned_of_int signed_take_bit_take_bit signed_take_bit_int_eq_self)

lemma decode_request:
  assumes "sdk_ok sdk" and "encode_request sdk host info req b = (Ok payload, b')"
  obtains v mk where "fst (decodeTransaction sdk 0x11 \<lparr>r_input = payload, r_err = EOF\<rparr>) = Ok (newLazyTransaction v)"
    "\<And>s. virtual_getTx sdk v s = build_getTx sdk v (ac_nonce (eb_premadeAccounts b ! sender req))
      (ac_private (eb_premadeAccounts b ! sender req)) mk s"
    "\<And>nonce params. (case req of ReqTransfer amount _ _ \<Rightarrow> int64 amount | _ \<Rightarrow> True) \<Longrightarrow>
      request_tx sdk host b req nonce params = Ok (mk nonce params)"
proof (cases req)
  case (ReqTransfer amount f t)
  let ?t = "\<lparr>tt_nonce = ac_nonce (eb_premadeAccounts b ! f), tt_amount = word_of_int amount,
      tt_from = ac_private (eb_premadeAccounts b ! f), tt_to = ac_address (eb_premadeAccounts b ! t)\<rparr>"
  let ?mk = "\<lambda>nonce params. sdk_NewTransaction sdk nonce (tt_to ?t) (sint (tt_amount ?t)) 21000 (pm_gasPrice params) []"
  have "payload = transfer_bytes sdk ?t"
    using assms(2) ReqTransfer by (auto dest!: eth_EncodeTransfer_Ok [OF assms(1)])
  then have "fst (decodeTransaction sdk 0x11 \<lparr>r_input = payload, r_err = EOF\<rparr>) = Ok (newLazyTransaction (VTransfer ?t))"
    using decode_transfer_bytes [OF assms(1), where r = "\<lparr>r_input = [], r_err = EOF\<rparr>" and t = ?t and rest = "[]"] by simp
  then show ?thesis
    by (rule that [where mk = ?mk])
      (simp_all add: ReqTransfer transfer_getTx_def sint_word_of_int64)
next
  case (ReqInvoke f c fn)
  from assms(2) [unfolded ReqInvoke encode_request.simps] obtain args b1 where
    inv: "eth_arguments host (ct_appli c) fn b = (Ok args, b1)" "length args \<le> 65535"
    "payload = invoke_bytes sdk \<lparr>it_nonce = ac_nonce (eb_premadeAccounts b1 ! f),
      it_from = ac_private (eb_premadeAccounts b1 ! f), it_appid = ct_appid c, it_payload = args\<rparr>"
    by (rule eth_EncodeInvoke_Ok [OF assms(1)])
  let ?t = "\<lparr>it_nonce = ac_nonce (eb_premadeAccounts b ! f), it_from = ac_private (eb_premadeAccounts b ! f),
      it_appid = ct_appid c, it_payload = args\<rparr>"
  let ?mk = "\<lambda>nonce params. sdk_NewTransaction sdk nonce (ct_appid c) 0 (pm_gasLimit params) (pm_gasPrice params) args"
  have "fst (decodeTransaction sdk 0x11 \<lparr>r_input = payload, r_err = EOF\<rparr>) = Ok (newLazyTransaction (VInvoke ?t))"
    using decode_invoke_bytes [OF assms(1), where r = "\<lparr>r_input = [], r_err = EOF\<rparr>" and t = ?t and rest = "[]"] inv
      eth_arguments_accounts [OF inv(1)] by simp
  then show ?thesis
    by (rule that [where mk = ?mk]) (simp_all add: ReqInvoke invoke_getTx_def inv(1) obind_def)
qed

text \<open>Whichever preparer the client has, the transaction is signed once, and this is the result.\<close>

lemma prepare_then_getTx:
  "fst (gbind (prepare_tx sdk preparer lt) (\<lambda>lt. gbind (tx_getTx sdk lt) (\<lambda>(tx, _). gret tx)) es) =
    fst (lazy_getTx sdk lt es)"
proof (cases preparer)
  case NothingPreparer
  then show ?thesis
    by (auto simp: tx_getTx_def gbind_def gret_def obind_def split: prod.splits outcome.splits)
next
  case SignaturePreparer
  obtain r lt' es' where run: "lazy_getTx sdk lt es = (r, lt', es')" by (metis prod_cases3)
  with SignaturePreparer show ?thesis
    by (cases r) (simp_all add: tx_getTx_def gbind_def gret_def obind_def lazy_getTx_again [OF run])
qed

text \<open>
  C8: End to end through the Ethereum driver: of the interactions the builder encodes, the one that comes
  after the interactions \<open>pre\<close> is decoded by a client, with either preparer, to the transaction that was
  asked for, signed with the sender's key, whose nonce is the one the chain has for the sender, plus the sender's
  count at the beginning, plus the number of the sender's interactions in \<open>pre\<close>. So the transactions
  of an account have consecutive nonces in the order of the benchmark, whichever client signs them and in
  whatever order. What is assumed of the library is that keys and addresses survive their encoding.
\<close>

theorem eth_transactions_in_order:
  assumes "sdk_ok sdk" and "gmap (encode_request sdk host info) pre b = (Ok payloads, b1)"
    and "encode_request sdk host info req b1 = (Ok payload, b2)"
    and "case req of ReqTransfer amount _ _ \<Rightarrow> int64 amount | _ \<Rightarrow> True"
    and "key = ac_private (eb_premadeAccounts b ! sender req)"
    and "getNonce sdk (sdk_PubkeyToAddress sdk key) es = (Ok slot, es1)" and "getParams sdk es1 = (Ok params, es2)"
  shows "fst (gbind (eth_DecodePayload sdk preparer payload) (\<lambda>lt. gbind (tx_getTx sdk lt) (\<lambda>(tx, _). gret tx)) es) =
    obind (request_tx sdk host b1 req
        (sn_base slot + (ac_nonce (eb_premadeAccounts b ! sender req) + of_nat (requests_of pre (sender req)))) params)
      (\<lambda>tx. sdk_SignTx sdk tx (pm_chainId params) key)"
proof -
  have adv: "nonces_advanced pre b b1" by (rule encode_requests_accounts [OF assms(1,2)])
  have acc: "eb_premadeAccounts b1 ! sender req = (eb_premadeAccounts b ! sender req)\<lparr>ac_nonce :=
      ac_nonce (eb_premadeAccounts b ! sender req) + of_nat (requests_of pre (sender req))\<rparr>"
    using adv encode_request_accounts(2) [OF assms(1,3)] by (simp add: nonces_advanced_def)
  obtain v mk where dec: "fst (decodeTransaction sdk 0x11 \<lparr>r_input = payload, r_err = EOF\<rparr>) = Ok (newLazyTransaction v)"
    "\<And>s. virtual_getTx sdk v s = build_getTx sdk v (ac_nonce (eb_premadeAccounts b1 ! sender req))
      (ac_private (eb_premadeAccounts b1 ! sender req)) mk s"
    "\<And>nonce params. request_tx sdk host b1 req nonce params = Ok (mk nonce params)"
    using decode_request [OF assms(1,3)] assms(4) by metis
  have key: "ac_private (eb_premadeAccounts b1 ! sender req) = key" using acc assms(5) by simp
  have "fst (gbind (eth_DecodePayload sdk preparer payload) (\<lambda>lt. gbind (tx_getTx sdk lt) (\<lambda>(tx, _). gret tx)) es) =
      fst (lazy_getTx sdk (newLazyTransaction v) es)"
    using dec(1) prepare_then_getTx [of sdk preparer "newLazyTransaction v" es]
    by (simp add: eth_DecodePayload_def gbind_assoc gbind_Ok glift_run)
  also have "\<dots> = sdk_SignTx sdk (mk (sn_base slot + ac_nonce (eb_premadeAccounts b1 ! sender req)) params)
      (pm_chainId params) key"
    using lazy_getTx_first [OF assms(6,7), of v _ mk] dec(2) key by simp
  finally show ?thesis using acc dec(3) by (simp add: obind_def)
qed

text \<open>A library with keys and addresses of one byte, whose transactions are the record of what they were made of.\<close>

definition eth_demo_sdk :: "(byte, byte, 64 word \<times> byte \<times> int \<times> byte list, nat) sdk" where
  "eth_demo_sdk = \<lparr>sdk_FromECDSA = (\<lambda>k. [k]), sdk_ToECDSA = (\<lambda>bs. Ok (hd bs)),
     sdk_HexToECDSA = (\<lambda>s. obind (hex_DecodeString s) (\<lambda>bs. Ok (hd bs))), sdk_PubkeyToAddress = (\<lambda>k. k),
     sdk_AddressLength = 1, sdk_AddressBytes = (\<lambda>a. [a]), sdk_BytesToAddress = hd,
     sdk_AddressString = (\<lambda>a. [char_of_byte a]), sdk_NewTransaction = (\<lambda>nonce to amount _ _ payload. (nonce, to, amount, payload)),
     sdk_NewContractCreation = (\<lambda>nonce amount _ _ text. (nonce, 0, amount, text)), sdk_SignTx = (\<lambda>tx _ _. Ok tx),
     sdk_Hash = (\<lambda>tx. []), sdk_PendingNonceAt = (\<lambda>_. gret 7), sdk_NetworkID = gret 5, sdk_SuggestGasPrice = gret 2,
     sdk_SendTransaction = (\<lambda>_. gmodify Suc), sdk_TransactionReceipt = (\<lambda>_. gret 9), sdk_NotFound = Errorf ''not found'' []\<rparr>"

definition eth_demo_host :: "string list host" where
  "eth_demo_host = \<lparr>ho_CompileSolidity = (\<lambda>_. Ok []), ho_StartServiceProcess = (\<lambda>_. Ok []),
     ho_WriteString = (\<lambda>_. gmodify (\<lambda>p. p @ [''f'', ''AQI=''])),
     ho_Scan = (\<lambda>p. case p of [] \<Rightarrow> (Ok None, p) | line # p' \<Rightarrow> (Ok (Some line), p')),
     ho_Err = (\<lambda>_. None), ho_Accounts = (\<lambda>_. Ok [])\<rparr>"

definition eth_demo_builder :: "(byte, byte, nat, string list) eth_builder" where
  "eth_demo_builder = addAccount 4 5 (addAccount 2 3 (newBuilder 0))
     \<lparr>eb_applications := [(''c'', newApplication [] [(''f'', [8])] [])]\<rparr>"

definition eth_demo_requests :: "byte eth_request list" where
  "eth_demo_requests = [ReqTransfer (-6) 0 1, ReqTransfer 1 1 0]"

definition eth_info :: interactionInformation where
  "eth_info = \<lparr>ii_globalIndex = 0, ii_clientIndex = 0, ii_localIndex = 0, ii_scheduleTime = f64_one\<rparr>"

definition eth_demo_call :: "byte eth_request" where
  "eth_demo_call = ReqInvoke 0 \<lparr>ct_appli = ''c'', ct_appid = 9\<rparr> ''f()''"

lemma eth_demo_sdk_ok: "sdk_ok eth_demo_sdk"
  by (simp add: sdk_ok_def eth_demo_sdk_def)

lemma eth_demo_arguments: "base64_DecodeString ''AQI='' = Ok [1, 2]"
  by code_simp

theorem eth_transactions_in_order_witness:
  "\<exists>payloads b1 payload b2. gmap (encode_request eth_demo_sdk eth_demo_host eth_info) eth_demo_requests eth_demo_builder = (Ok payloads, b1) \<and>
     encode_request eth_demo_sdk eth_demo_host eth_info eth_demo_call b1 = (Ok payload, b2) \<and>
     fst (gbind (eth_DecodePayload eth_demo_sdk SignaturePreparer payload)
         (\<lambda>lt. gbind (tx_getTx eth_demo_sdk lt) (\<lambda>(tx, _). gret tx))
         \<lparr>es_node = 0, es_bases = [], es_provider = LazyProvider None\<rparr>) = Ok (8, 9, 0, [8, 1, 2])"
proof -
  let ?es = "\<lparr>es_node = 0, es_bases = [], es_provider = LazyProvider None\<rparr>"
  note enc = to_buffer_run [OF encode_transfer_buffer [OF eth_demo_sdk_ok]]
    to_buffer_run [OF encode_invoke_buffer [OF eth_demo_sdk_ok]]
  obtain payloads b1 where pre: "gmap (encode_request eth_demo_sdk eth_demo_host eth_info) eth_demo_requests eth_demo_builder = (Ok payloads, b1)"
    "b1 = bump_nonce 1 (bump_nonce 0 eth_demo_builder)"
    by (simp add: eth_demo_requests_def eth_EncodeTransfer_def gbind_def glift_run get_account_def enc gmodify_run gret_run
        eth_demo_builder_def addAccount_def newBuilder_def bump_nonce_def)
  obtain args where args: "eth_arguments eth_demo_host ''c'' ''f()'' b1 = args" "fst args = Ok [8, 1, 2]"
    by (simp add: pre(2) eth_arguments_def arguments_def scan_payload_def on_parser_def gzoom_def gbind_def gread_run
        gmodify_run gret_run glift_run eth_demo_builder_def eth_demo_host_def addAccount_def newBuilder_def bump_nonce_def
        newApplication_def eth_demo_arguments)
  obtain payload b2 where call: "encode_request eth_demo_sdk eth_demo_host eth_info eth_demo_call b1 = (Ok payload, b2)"
    using args eth_arguments_accounts [of eth_demo_host "''c''" "''f()''" b1]
    by (cases args) (simp add: eth_demo_call_def eth_EncodeInvoke_def gbind_def glift_run get_account_def enc gmodify_run gret_run
        pre(2) eth_demo_builder_def addAccount_def newBuilder_def bump_nonce_def)
  obtain es1 where nonce: "getNonce eth_demo_sdk (sdk_PubkeyToAddress eth_demo_sdk 3) ?es = (Ok \<lparr>sn_synced = True, sn_base = 7\<rparr>, es1)"
    "es_provider es1 = LazyProvider None"
    by (simp add: getNonce_def Let_def gbind_def gread_run gmodify_run gret_run on_node_def gzoom_def eth_demo_sdk_def newStaticNonce_def)
  obtain params es2 where params: "getParams eth_demo_sdk es1 = (Ok params, es2)"
    by (simp add: getParams_def nonce(2) direct_getParams_def gbind_def gmodify_run gret_run on_node_def gzoom_def eth_demo_sdk_def)
  have "fst (gbind (eth_DecodePayload eth_demo_sdk SignaturePreparer payload)
         (\<lambda>lt. gbind (tx_getTx eth_demo_sdk lt) (\<lambda>(tx, _). gret tx)) ?es) = Ok (8, 9, 0, [8, 1, 2])"
    using eth_transactions_in_order [OF eth_demo_sdk_ok pre(1) call _ _ _ params, of 3 ?es] nonce args
    by (simp add: eth_demo_call_def eth_demo_builder_def addAccount_def newBuilder_def eth_demo_requests_def requests_of_def obind_def eth_demo_sdk_def)
  with pre(1) call show ?thesis by blast
qed

end
