(* ===== verification/Core_Report.thy ===== *)
theory Core_Report
  imports Go_Prelude
begin

text \<open>
  What a client of a blockchain reports of an interaction, through the interface \<^verbatim>\<open>Interaction\<close> of
  \<^verbatim>\<open>src/core/blockchain.go\<close>.
\<close>

datatype report = RepSubmit | RepCommit | RepAbort

text \<open>What a well-behaved client reports in one call of \<^verbatim>\<open>TriggerInteraction\<close>: maybe nothing, or else a submission first, and at most one end. (A
  call that a Solana node refuses is not of this kind: it may be reported aborted twice.)\<close>

definition client_plan :: "report list \<Rightarrow> bool" where
  "client_plan rs \<longleftrightarrow> rs \<in> {[], [RepSubmit], [RepSubmit, RepCommit], [RepSubmit, RepAbort]}"

end
