(* ===== verification/Poll_Confirm.thy ===== *)
theory Poll_Confirm
  imports Core_Report
begin

text \<open>
  The confirmer that several drivers share (\<^verbatim>\<open>pollblkTransactionConfirmer\<close>, which the clients of the Ethereum,
  Avalanche and Algorand drivers repeat): a goroutine polls the blocks for the transactions that the calls of
  \<^verbatim>\<open>TriggerInteraction\<close> have sent. The calls and the goroutine interleave, so they are a step relation on the state
  they share. What differs between the drivers are its parameters: the key of a transaction, what a
  call does before \<^verbatim>\<open>confirm\<close>, and the order in which the goroutine reports and answers; the last is
  an interface, the locale \<open>commit_plan\<close>.
\<close>

section \<open>The confirmer\<close>

text \<open>
  The fields of the confirmer that its lock protects. A pending is the interaction, whose call of
  \<^verbatim>\<open>confirm\<close> owns the channel; the nil map is \<open>None\<close>.
\<close>

record 'h confirmer =
  cf_pendings :: "('h, nat) gomap option"
  cf_committed :: "'h set"
  cf_err :: "go_error option"

definition newPollblkTransactionConfirmer :: "'h confirmer" where
  "newPollblkTransactionConfirmer = \<lparr>cf_pendings = Some [], cf_committed = {}, cf_err = None\<rparr>"

text \<open>
  The three critical sections. That of \<^verbatim>\<open>confirm\<close> ends in one of three ways: the confirmer has
  stopped; the transaction was in a block already, and the call sends on its own channel, which nobody
  receives from, without having released the lock; or it is registered and the call waits.
\<close>

datatype confirm_result = ConfirmStopped "go_error option" | ConfirmCommitted | ConfirmRegistered

definition confirm_locked :: "'h \<Rightarrow> nat \<Rightarrow> 'h confirmer \<Rightarrow> confirm_result \<times> 'h confirmer" where
  "confirm_locked hash i c =
     (case cf_pendings c of
        None \<Rightarrow> (ConfirmStopped (cf_err c), c)
      | Some pendings \<Rightarrow>
          if hash \<in> cf_committed c then (ConfirmCommitted, c\<lparr>cf_committed := cf_committed c - {hash}\<rparr>)
          else (ConfirmRegistered, c\<lparr>cf_pendings := Some (gomap_set hash i pendings)\<rparr>))"

fun report_locked :: "'h list \<Rightarrow> 'h confirmer \<Rightarrow> nat list \<times> 'h confirmer" where
  "report_locked [] c = ([], c)"
| "report_locked (hash # hashes) c =
     (case Option.bind (cf_pendings c) (\<lambda>pendings. gomap_get pendings hash) of
        None \<Rightarrow> report_locked hashes (c\<lparr>cf_committed := insert hash (cf_committed c)\<rparr>)
      | Some i \<Rightarrow>
          (case report_locked hashes (c\<lparr>cf_pendings := map_option (gomap_del hash) (cf_pendings c)\<rparr>) of
             (pendings, c') \<Rightarrow> (i # pendings, c')))"

definition flush_locked :: "go_error option \<Rightarrow> 'h confirmer \<Rightarrow> 'h confirmer" where
  "flush_locked err c = c\<lparr>cf_pendings := None, cf_err := err\<rparr>"

definition pendings_of :: "'h confirmer \<Rightarrow> ('h, nat) gomap" where
  "pendings_of c = (case cf_pendings c of None \<Rightarrow> [] | Some pendings \<Rightarrow> pendings)"

section \<open>The calls and the goroutine\<close>

datatype call_phase = CallIdle | CallSent | CallWaiting | CallSending | CallReturned "go_error option"

text \<open>
  What the goroutine does for a pending outside the lock: it reports, and it sends the result on the
  channel of the call. While it works it has a list of these actions to do; the last work, that of
  \<^verbatim>\<open>flushPendings\<close>, is marked.
\<close>

datatype poll_action = Report nat report | Answer nat "go_error option"

datatype poll_phase = Polling | Working "poll_action list" bool | PollEnded

definition in_turn :: "report \<Rightarrow> go_error option \<Rightarrow> nat list \<Rightarrow> poll_action list" where
  "in_turn r err pendings = concat (map (\<lambda>i. [Report i r, Answer i err]) pendings)"

definition reports_first :: "report \<Rightarrow> go_error option \<Rightarrow> nat list \<Rightarrow> poll_action list" where
  "reports_first r err pendings = map (\<lambda>i. Report i r) pendings @ map (\<lambda>i. Answer i err) pendings"

text \<open>
  The state shared by the calls, numbered like the interactions, and the goroutine; \<open>ps_lock\<close> is the
  call that keeps the lock, \<open>ps_reports\<close> what was reported of each interaction, in order,
  \<open>ps_mined\<close> the transactions of the blocks that were processed, and \<open>ps_known\<close> those of which the node has said
  that they are in its ledger.
\<close>

record 'h poll_state =
  ps_confirmer :: "'h confirmer"
  ps_lock :: "nat option"
  ps_calls :: "nat \<Rightarrow> call_phase"
  ps_poll :: poll_phase
  ps_reports :: "nat \<Rightarrow> report list"
  ps_mined :: "'h set"
  ps_known :: "'h set"

definition poll_start :: "'h poll_state" where
  "poll_start = \<lparr>ps_confirmer = newPollblkTransactionConfirmer, ps_lock = None, ps_calls = (\<lambda>_. CallIdle),
     ps_poll = Polling, ps_reports = (\<lambda>_. []), ps_mined = {}, ps_known = {}\<rparr>"

definition ps_report :: "nat \<Rightarrow> report \<Rightarrow> 'h poll_state \<Rightarrow> 'h poll_state" where
  "ps_report i r s = s\<lparr>ps_reports := (ps_reports s)(i := ps_reports s i @ [r])\<rparr>"

definition ps_call :: "nat \<Rightarrow> call_phase \<Rightarrow> 'h poll_state \<Rightarrow> 'h poll_state" where
  "ps_call i p s = s\<lparr>ps_calls := (ps_calls s)(i := p)\<rparr>"

text \<open>
  How the part of \<^verbatim>\<open>TriggerInteraction\<close> before \<^verbatim>\<open>confirm\<close> can end: the transaction could not be made; it was
  sent and refused; the node knows it as committed; it was sent.
\<close>

datatype trigger_outcome = TrigFailed go_error | TrigRefused go_error | TrigKnown | TrigSent

fun trigger_send :: "'h \<Rightarrow> nat \<Rightarrow> trigger_outcome \<Rightarrow> 'h poll_state \<Rightarrow> 'h poll_state" where
  "trigger_send hash i (TrigFailed e) s = ps_call i (CallReturned (Some e)) s"
| "trigger_send hash i (TrigRefused e) s =
     ps_call i (CallReturned (Some e)) (ps_report i RepAbort (ps_report i RepSubmit s))"
| "trigger_send hash i TrigKnown s =
     ps_call i (CallReturned None) (ps_report i RepCommit (ps_report i RepSubmit (s\<lparr>ps_known := insert hash (ps_known s)\<rparr>)))"
| "trigger_send hash i TrigSent s = ps_call i CallSent (ps_report i RepSubmit s)"

definition confirm :: "'h \<Rightarrow> nat \<Rightarrow> 'h poll_state \<Rightarrow> 'h poll_state" where
  "confirm hash i s =
     (case confirm_locked hash i (ps_confirmer s) of
        (ConfirmStopped err, c) \<Rightarrow> ps_call i (CallReturned err) (s\<lparr>ps_confirmer := c\<rparr>)
      | (ConfirmCommitted, c) \<Rightarrow>
          ps_call i CallSending (ps_report i RepCommit (s\<lparr>ps_confirmer := c, ps_lock := Some i\<rparr>))
      | (ConfirmRegistered, c) \<Rightarrow> ps_call i CallWaiting (s\<lparr>ps_confirmer := c\<rparr>))"

definition reportHashes :: "(nat list \<Rightarrow> poll_action list) \<Rightarrow> 'h list \<Rightarrow> 'h poll_state \<Rightarrow> 'h poll_state" where
  "reportHashes plan hashes s =
     (case report_locked hashes (ps_confirmer s) of
        (pendings, c) \<Rightarrow> s\<lparr>ps_confirmer := c, ps_poll := Working (plan pendings) False,
           ps_mined := ps_mined s \<union> set hashes\<rparr>)"

definition flushPendings :: "go_error option \<Rightarrow> nat list \<Rightarrow> 'h poll_state \<Rightarrow> 'h poll_state" where
  "flushPendings err pendings s =
     s\<lparr>ps_confirmer := flush_locked err (ps_confirmer s), ps_poll := Working (in_turn RepAbort err pendings) True\<rparr>"

text \<open>
  A step. \<^verbatim>\<open>confirm\<close>, a block and the end of the goroutine need the lock; to answer, the goroutine waits until
  the call receives from its channel. \<open>hash\<close> is the key of an interaction's transaction, \<open>react\<close> what a call makes of the
  responses it gets before \<^verbatim>\<open>confirm\<close>.
\<close>

inductive poll_step ::
  "('r \<Rightarrow> trigger_outcome) \<Rightarrow> (nat list \<Rightarrow> poll_action list) \<Rightarrow> (nat \<Rightarrow> 'h) \<Rightarrow> 'h poll_state \<Rightarrow> 'h poll_state \<Rightarrow> bool"
  for react plan hash where
  trigger: "ps_calls s i = CallIdle \<Longrightarrow> poll_step react plan hash s (trigger_send (hash i) i (react resp) s)"
| confirm: "ps_calls s i = CallSent \<Longrightarrow> ps_lock s = None \<Longrightarrow> poll_step react plan hash s (confirm (hash i) i s)"
| block: "ps_poll s = Polling \<Longrightarrow> ps_lock s = None \<Longrightarrow> poll_step react plan hash s (reportHashes plan hashes s)"
| report: "ps_poll s = Working (Report i r # work) ending \<Longrightarrow>
    poll_step react plan hash s (ps_report i r (s\<lparr>ps_poll := Working work ending\<rparr>))"
| answer: "ps_poll s = Working (Answer i err # work) ending \<Longrightarrow> ps_calls s i = CallWaiting \<Longrightarrow>
    poll_step react plan hash s (ps_call i (CallReturned err) (s\<lparr>ps_poll := Working work ending\<rparr>))"
| worked: "ps_poll s = Working [] ending \<Longrightarrow>
    poll_step react plan hash s (s\<lparr>ps_poll := (if ending then PollEnded else Polling)\<rparr>)"
| fail: "ps_poll s = Polling \<Longrightarrow> ps_lock s = None \<Longrightarrow> gomap_order (pendings_of (ps_confirmer s)) it \<Longrightarrow>
    poll_step react plan hash s (flushPendings err (map snd it) s)"

inductive poll_run ::
  "('r \<Rightarrow> trigger_outcome) \<Rightarrow> (nat list \<Rightarrow> poll_action list) \<Rightarrow> (nat \<Rightarrow> 'h) \<Rightarrow> 'h poll_state \<Rightarrow> 'h poll_state \<Rightarrow> bool"
  for react plan hash where
  poll_refl: "poll_run react plan hash s s"
| poll_more: "poll_run react plan hash s t \<Longrightarrow> poll_step react plan hash t u \<Longrightarrow> poll_run react plan hash s u"

section \<open>Work\<close>

fun answered :: "poll_action list \<Rightarrow> nat list" where
  "answered [] = []"
| "answered (Answer i e # work) = i # answered work"
| "answered (Report i r # work) = answered work"

fun reported :: "poll_action list \<Rightarrow> nat list" where
  "reported [] = []"
| "reported (Answer i e # work) = reported work"
| "reported (Report i r # work) = i # reported work"

text \<open>No call is answered or reported twice, and each report comes before the answer.\<close>

fun work_ok :: "poll_action list \<Rightarrow> bool" where
  "work_ok [] \<longleftrightarrow> True"
| "work_ok (Answer i e # work) \<longleftrightarrow> i \<notin> set (answered work) \<and> work_ok work"
| "work_ok (Report i r # work) \<longleftrightarrow> i \<in> set (answered work) \<and> i \<notin> set (reported work) \<and> work_ok work"

definition action_of :: "bool \<Rightarrow> poll_action \<Rightarrow> bool" where
  "action_of ending a \<longleftrightarrow>
     (case a of Report i r \<Rightarrow> r = (if ending then RepAbort else RepCommit) | Answer i e \<Rightarrow> ending \<or> e = None)"

lemma action_of_simps [simp]:
  "action_of ending (Report i r) \<longleftrightarrow> r = (if ending then RepAbort else RepCommit)"
  "action_of ending (Answer i e) \<longleftrightarrow> ending \<or> e = None"
  by (simp_all add: action_of_def)

lemma answered_append [simp]: "answered (xs @ ys) = answered xs @ answered ys"
  by (induction xs rule: answered.induct) auto

lemma reported_append [simp]: "reported (xs @ ys) = reported xs @ reported ys"
  by (induction xs rule: reported.induct) auto

lemma reported_answered: "work_ok work \<Longrightarrow> set (reported work) \<subseteq> set (answered work)"
  by (induction work rule: work_ok.induct) auto

lemma distinct_answered: "work_ok work \<Longrightarrow> distinct (answered work)"
  by (induction work rule: work_ok.induct) auto

lemma in_turn_ids [simp]: "answered (in_turn r e is) = is" "reported (in_turn r e is) = is"
  by (induction "is") (simp_all add: in_turn_def)

lemma reports_first_ids [simp]: "answered (reports_first r e is) = is" "reported (reports_first r e is) = is"
proof -
  have "answered (map (\<lambda>i. Answer i e) js) = js" "answered (map (\<lambda>i. Report i r) js) = []"
    "reported (map (\<lambda>i. Answer i e) js) = []" "reported (map (\<lambda>i. Report i r) js) = js" for js
    by (induction js) auto
  then show "answered (reports_first r e is) = is" "reported (reports_first r e is) = is"
    by (simp_all add: reports_first_def)
qed

lemma in_turn_ok: "distinct is \<Longrightarrow> work_ok (in_turn r e is)"
proof (induction "is")
  case (Cons i "is")
  then show ?case
    using in_turn_ids [of r e "is"] by (simp add: in_turn_def)
qed (simp add: in_turn_def)

lemma reports_first_ok: "distinct is \<Longrightarrow> work_ok (reports_first r e is)"
proof -
  assume d: "distinct is"
  have ans: "answered (map (\<lambda>i. Answer i e) js) = js" "reported (map (\<lambda>i. Answer i e) js) = []" for js
    by (induction js) auto
  have rep: "reported (map (\<lambda>i. Report i r) js) = js" "answered (map (\<lambda>i. Report i r) js) = []" for js
    by (induction js) auto
  have "work_ok (map (\<lambda>i. Answer i e) js)" if "distinct js" for js
    using that by (induction js) (simp_all add: ans)
  then have "work_ok (map (\<lambda>i. Report i r) js @ map (\<lambda>i. Answer i e) is)" if "distinct js" "set js \<subseteq> set is" for js
    using that d by (induction js) (simp_all add: ans rep)
  then show ?thesis using d by (simp add: reports_first_def)
qed

lemma in_turn_actions: "a \<in> set (in_turn r e is) \<Longrightarrow> (\<exists>i. a = Report i r) \<or> (\<exists>i. a = Answer i e)"
  by (auto simp: in_turn_def)

lemma reports_first_actions: "a \<in> set (reports_first r e is) \<Longrightarrow> (\<exists>i. a = Report i r) \<or> (\<exists>i. a = Answer i e)"
  by (auto simp: reports_first_def)


locale commit_plan =
  fixes plan :: "nat list \<Rightarrow> poll_action list"
  assumes plan_ok: "distinct is \<Longrightarrow> work_ok (plan is)"
    and plan_answered: "set (answered (plan is)) = set is"
    and plan_reported: "set (reported (plan is)) = set is"
    and plan_actions: "list_all (action_of False) (plan is)"

interpretation in_turn_plan: commit_plan "in_turn RepCommit None"
  by unfold_locales (auto simp: in_turn_ok list_all_iff dest!: in_turn_actions)

interpretation reports_first_plan: commit_plan "reports_first RepCommit None"
  by unfold_locales (auto simp: reports_first_ok list_all_iff dest!: reports_first_actions)

section \<open>The invariant\<close>

definition lookup :: "'h confirmer \<Rightarrow> 'h \<Rightarrow> nat option" where
  "lookup c h = Option.bind (cf_pendings c) (\<lambda>pendings. gomap_get pendings h)"

definition work_of :: "poll_phase \<Rightarrow> poll_action list" where
  "work_of p = (case p of Working work _ \<Rightarrow> work | _ \<Rightarrow> [])"

definition stopped :: "poll_phase \<Rightarrow> bool" where
  "stopped p \<longleftrightarrow> (case p of Working _ ending \<Rightarrow> ending | PollEnded \<Rightarrow> True | Polling \<Rightarrow> False)"

lemma poll_phase_simps [simp]:
  "work_of Polling = []" "work_of (Working work ending) = work" "work_of PollEnded = []"
  "\<not> stopped Polling" "stopped (Working work ending) = ending" "stopped PollEnded"
  by (simp_all add: work_of_def stopped_def)

lemma ps_simps [simp]:
  "ps_confirmer (ps_call i p s) = ps_confirmer s" "ps_lock (ps_call i p s) = ps_lock s"
  "ps_calls (ps_call i p s) = (ps_calls s)(i := p)" "ps_poll (ps_call i p s) = ps_poll s"
  "ps_reports (ps_call i p s) = ps_reports s" "ps_mined (ps_call i p s) = ps_mined s" "ps_known (ps_call i p s) = ps_known s"
  "ps_confirmer (ps_report i r s) = ps_confirmer s" "ps_lock (ps_report i r s) = ps_lock s"
  "ps_calls (ps_report i r s) = ps_calls s" "ps_poll (ps_report i r s) = ps_poll s"
  "ps_reports (ps_report i r s) = (ps_reports s)(i := ps_reports s i @ [r])" "ps_mined (ps_report i r s) = ps_mined s"
  "ps_known (ps_report i r s) = ps_known s"
  by (simp_all add: ps_call_def ps_report_def)

text \<open>The map of the pendings: each under its hash, and each the interaction of a waiting call.\<close>

definition confirmer_ok :: "(nat \<Rightarrow> 'h) \<Rightarrow> 'h confirmer \<Rightarrow> bool" where
  "confirmer_ok hash c \<longleftrightarrow> (\<forall>pendings. cf_pendings c = Some pendings \<longrightarrow> gomap_ok pendings) \<and>
     (\<forall>h i. lookup c h = Some i \<longrightarrow> hash i = h)"

lemma report_locked_spec:
  assumes "report_locked hs c = (is, c')" and "confirmer_ok hash c"
  shows "confirmer_ok hash c' \<and> (\<forall>h. lookup c' h = (if h \<in> set hs then None else lookup c h)) \<and>
    set is = {i. lookup c (hash i) = Some i \<and> hash i \<in> set hs} \<and> distinct is \<and>
    cf_committed c' \<subseteq> cf_committed c \<union> set hs \<and> cf_err c' = cf_err c \<and>
    (cf_pendings c' = None \<longleftrightarrow> cf_pendings c = None)"
  using assms
proof (induction hs arbitrary: c "is")
  case (Cons h hs)
  show ?case
  proof (cases "lookup c h")
    case None
    let ?c = "c\<lparr>cf_committed := insert h (cf_committed c)\<rparr>"
    have eq: "lookup ?c = lookup c" by (rule ext) (simp add: lookup_def)
    have "confirmer_ok hash ?c" using Cons.prems(2) by (simp add: confirmer_ok_def eq)
    moreover have "report_locked hs ?c = (is, c')" using Cons.prems(1) None by (simp add: lookup_def)
    ultimately show ?thesis
      using Cons.IH [of ?c "is"] None by (auto simp: eq)
  next
    case (Some i)
    let ?c = "c\<lparr>cf_pendings := map_option (gomap_del h) (cf_pendings c)\<rparr>"
    have eq: "lookup ?c = (lookup c)(h := None)"
      by (rule ext) (simp add: lookup_def split: option.splits bind_splits)
    have hi: "hash i = h" using Cons.prems(2) Some by (simp add: confirmer_ok_def)
    have "confirmer_ok hash ?c" using Cons.prems(2) by (auto simp: confirmer_ok_def eq)
    moreover obtain js where js: "is = i # js" "report_locked hs ?c = (js, c')"
      using Cons.prems(1) Some by (auto simp: lookup_def split: prod.splits)
    ultimately have IH: "confirmer_ok hash c'" "\<And>h'. lookup c' h' = (if h' \<in> set hs then None else lookup ?c h')"
      "set js = {j. lookup ?c (hash j) = Some j \<and> hash j \<in> set hs}" "distinct js"
      "cf_committed c' \<subseteq> cf_committed c \<union> set hs" "cf_err c' = cf_err c" "cf_pendings c' = None \<longleftrightarrow> cf_pendings c = None"
      using Cons.IH [of ?c js] by simp_all
    have "set is = {j. lookup c (hash j) = Some j \<and> hash j \<in> set (h # hs)}"
      unfolding js(1) using IH(3) Some hi by (auto simp: eq)
    moreover have "distinct is" using IH(3,4) hi by (simp add: js(1) eq)
    moreover have "lookup c' h' = (if h' \<in> set (h # hs) then None else lookup c h')" for h'
      using IH(2) [of h'] by (simp add: eq)
    ultimately show ?thesis using IH(1,5,6,7) by auto
  qed
qed simp

lemma flush_order:
  assumes "confirmer_ok hash c" and "gomap_order (pendings_of c) it"
  shows "distinct (map snd it)" "i \<in> set (map snd it) \<longleftrightarrow> lookup c (hash i) = Some i"
proof -
  have ok: "gomap_ok (pendings_of c)" using assms(1) by (auto simp: confirmer_ok_def pendings_of_def gomap_ok_def split: option.splits)
  have it: "gomap_ok it" "set it = set (pendings_of c)" using ok assms(2) gomap_order_ok gomap_order_set by blast+
  have mem: "(h, i) \<in> set it \<longleftrightarrow> lookup c h = Some i" for h i
    using it ok by (auto simp: lookup_def pendings_of_def gomap_ok_def split: option.splits)
  have hash_it: "h = hash i" if "(h, i) \<in> set it" for h i
    using that mem assms(1) by (simp add: confirmer_ok_def)
  then have "map fst it = map hash (map snd it)" by (auto simp: comp_def)
  then show "distinct (map snd it)" using it(1) by (simp only: gomap_ok_def distinct_map)
  have "i \<in> set (map snd it) \<longleftrightarrow> (\<exists>h. (h, i) \<in> set it)" by force
  then show "i \<in> set (map snd it) \<longleftrightarrow> lookup c (hash i) = Some i" using hash_it mem by blast
qed

definition pendings_inv :: "(nat \<Rightarrow> 'h) \<Rightarrow> 'h poll_state \<Rightarrow> bool" where
  "pendings_inv hash s \<longleftrightarrow> confirmer_ok hash (ps_confirmer s) \<and>
     (\<forall>i. ps_calls s i = CallWaiting \<longleftrightarrow>
        lookup (ps_confirmer s) (hash i) = Some i \<or> i \<in> set (answered (work_of (ps_poll s)))) \<and>
     (\<forall>i \<in> set (answered (work_of (ps_poll s))). lookup (ps_confirmer s) (hash i) = None) \<and>
     work_ok (work_of (ps_poll s)) \<and> list_all (action_of (stopped (ps_poll s))) (work_of (ps_poll s)) \<and>
     (\<not> stopped (ps_poll s) \<longrightarrow> hash ` set (answered (work_of (ps_poll s))) \<subseteq> ps_mined s) \<and>
     cf_committed (ps_confirmer s) \<subseteq> ps_mined s \<and>
     (cf_pendings (ps_confirmer s) = None \<longleftrightarrow> stopped (ps_poll s))"

text \<open>
  What was reported of an interaction, by the phase of its call. A waiting call may have been reported on
  already, before it is answered.
\<close>

definition reports_ok :: "(nat \<Rightarrow> 'h) \<Rightarrow> 'h poll_state \<Rightarrow> nat \<Rightarrow> bool" where
  "reports_ok hash s i \<longleftrightarrow>
     (case ps_calls s i of
        CallIdle \<Rightarrow> ps_reports s i = []
      | CallSent \<Rightarrow> ps_reports s i = [RepSubmit]
      | CallWaiting \<Rightarrow> ps_reports s i =
          (if i \<in> set (answered (work_of (ps_poll s))) - set (reported (work_of (ps_poll s)))
           then [RepSubmit, if stopped (ps_poll s) then RepAbort else RepCommit] else [RepSubmit])
      | CallSending \<Rightarrow> ps_reports s i = [RepSubmit, RepCommit] \<and> hash i \<in> ps_mined s
      | CallReturned r \<Rightarrow>
          ps_reports s i = [RepSubmit, RepCommit] \<and> r = None \<and> hash i \<in> ps_mined s \<union> ps_known s \<or>
          ps_reports s i \<in> {[], [RepSubmit, RepAbort]} \<and> r \<noteq> None \<or>
          ps_reports s i \<in> {[RepSubmit], [RepSubmit, RepAbort]} \<and> stopped (ps_poll s))"

definition lock_inv :: "'h poll_state \<Rightarrow> bool" where
  "lock_inv s \<longleftrightarrow> (\<forall>i. ps_lock s = Some i \<longleftrightarrow> ps_calls s i = CallSending)"

lemmas poll_updates = confirm_def confirm_locked_def reportHashes_def flushPendings_def

lemma trigger_frame [simp]:
  "ps_confirmer (trigger_send h i out s) = ps_confirmer s" "ps_lock (trigger_send h i out s) = ps_lock s"
  "ps_poll (trigger_send h i out s) = ps_poll s" "ps_mined (trigger_send h i out s) = ps_mined s"
  "ps_known s \<subseteq> ps_known (trigger_send h i out s)"
  "j \<noteq> i \<Longrightarrow> ps_calls (trigger_send h i out s) j = ps_calls s j"
  "j \<noteq> i \<Longrightarrow> ps_reports (trigger_send h i out s) j = ps_reports s j"
  by (cases out; auto)+

lemma trigger_call:
  "ps_calls (trigger_send h i out s) i \<noteq> CallWaiting" "ps_calls (trigger_send h i out s) i \<noteq> CallSending"
  by (cases out; simp)+

lemma lock_inv_step: "poll_step react plan hash s t \<Longrightarrow> lock_inv s \<Longrightarrow> lock_inv t"
proof (induction rule: poll_step.induct)
  case (trigger s i resp)
  have "ps_calls (trigger_send (hash i) i (react resp) s) j = CallSending \<longleftrightarrow> ps_calls s j = CallSending" for j
    using trigger by (cases "j = i") (auto simp: trigger_call)
  then show ?case using trigger by (simp add: lock_inv_def)
qed (auto simp: lock_inv_def poll_updates split: option.splits prod.splits if_splits)

lemma lookup_simps [simp]:
  "lookup (c\<lparr>cf_committed := x\<rparr>) = lookup c" "lookup (flush_locked err c) h = None"
  "cf_pendings c = Some ps \<Longrightarrow> lookup (c\<lparr>cf_pendings := Some (gomap_set k i ps)\<rparr>) = (lookup c)(k \<mapsto> i)"
  by (auto simp: lookup_def flush_locked_def)

text \<open>The invariant of the pendings depends on the calls only by which of them wait, and not on the reports.\<close>

lemma pendings_cong:
  assumes "pendings_inv hash s" and "ps_confirmer t = ps_confirmer s" and "ps_poll t = ps_poll s" and "ps_mined t = ps_mined s"
    and "\<And>j. ps_calls t j = CallWaiting \<longleftrightarrow> ps_calls s j = CallWaiting"
  shows "pendings_inv hash t"
  using assms(1) unfolding pendings_inv_def assms(2-5) .

lemma pendings_call:
  assumes "pendings_inv hash s" and "ps_calls s i \<noteq> CallWaiting" and "p \<noteq> CallWaiting"
  shows "pendings_inv hash (ps_call i p s)"
  by (rule pendings_cong [OF assms(1)]) (use assms(2,3) in auto)

lemma pendings_report [simp]: "pendings_inv hash (ps_report i r s) = pendings_inv hash s"
  by (simp add: pendings_inv_def)

lemma pendings_call_report [simp]:
  "pendings_inv hash (ps_call j q (ps_report i r s)) = pendings_inv hash (ps_call j q s)"
  by (simp add: pendings_inv_def)

lemma pendings_lock [simp]: "pendings_inv hash (s\<lparr>ps_lock := l\<rparr>) = pendings_inv hash s"
  by (simp add: pendings_inv_def)

lemma pendings_waiting:
  "pendings_inv hash s \<Longrightarrow> ps_calls s i = CallWaiting \<longleftrightarrow>
   lookup (ps_confirmer s) (hash i) = Some i \<or> i \<in> set (answered (work_of (ps_poll s)))"
  by (simp add: pendings_inv_def)

lemma pendings_uncommit:
  "pendings_inv hash s \<Longrightarrow>
   pendings_inv hash (s\<lparr>ps_confirmer := (ps_confirmer s)\<lparr>cf_committed := cf_committed (ps_confirmer s) - H\<rparr>\<rparr>)"
  by (auto simp: pendings_inv_def confirmer_ok_def)

text \<open>The calls that were made. Their transactions have to have different keys.\<close>

definition triggered :: "'h poll_state \<Rightarrow> nat set" where
  "triggered s = {i. ps_calls s i \<noteq> CallIdle}"

text \<open>A call that registers was not registered, and no other interaction has its key.\<close>

lemma pendings_register:
  assumes "inj_on hash (triggered s)" and inv: "pendings_inv hash s" and i: "ps_calls s i = CallSent"
    and ps: "cf_pendings (ps_confirmer s) = Some ps"
  shows "pendings_inv hash (ps_call i CallWaiting
    (s\<lparr>ps_confirmer := (ps_confirmer s)\<lparr>cf_pendings := Some (gomap_set (hash i) i ps)\<rparr>\<rparr>))"
proof -
  let ?c = "ps_confirmer s" and ?as = "answered (work_of (ps_poll s))"
  note inv' = inv [unfolded pendings_inv_def]
  have other: "j = i" if "ps_calls s j = CallWaiting" "hash j = hash i" for j
    using that i inj_onD [OF assms(1), of j i] by (simp add: triggered_def)
  have not: "i \<notin> set ?as" using pendings_waiting [OF inv, of i] i by simp
  have wait: "((ps_calls s)(i := CallWaiting)) j = CallWaiting \<longleftrightarrow>
      ((lookup ?c)(hash i \<mapsto> i)) (hash j) = Some j \<or> j \<in> set ?as" for j
    using pendings_waiting [OF inv, of j] other [of j] by auto
  have "\<forall>j \<in> set ?as. ((lookup ?c)(hash i \<mapsto> i)) (hash j) = None"
    using inv' not other pendings_waiting [OF inv] by auto
  moreover have "confirmer_ok hash (?c\<lparr>cf_pendings := Some (gomap_set (hash i) i ps)\<rparr>)"
    using inv' ps by (simp add: confirmer_ok_def)
  ultimately show ?thesis
    using inv' ps wait unfolding pendings_inv_def ps_simps
    by (cases "stopped (ps_poll s)") (simp_all del: fun_upd_apply)
qed

lemma pendings_confirm:
  assumes "inj_on hash (triggered s)" and inv: "pendings_inv hash s" and sent: "ps_calls s i = CallSent"
  shows "pendings_inv hash (confirm (hash i) i s)"
proof (cases "cf_pendings (ps_confirmer s)")
  case None
  then show ?thesis using pendings_call [OF inv] sent by (simp add: poll_updates)
next
  case (Some ps)
  show ?thesis
  proof (cases "hash i \<in> cf_committed (ps_confirmer s)")
    case True
    with Some sent show ?thesis
      using pendings_uncommit [OF inv, of "{hash i}"] by (auto simp: poll_updates intro!: pendings_call)
  next
    case False
    with Some sent show ?thesis using pendings_register [OF assms(1) inv _ Some] by (simp add: poll_updates)
  qed
qed

lemma pendings_fail:
  assumes inv: "pendings_inv hash s" and "ps_poll s = Polling" and it: "gomap_order (pendings_of (ps_confirmer s)) it"
  shows "pendings_inv hash (flushPendings err (map snd it) s)"
proof -
  have "confirmer_ok hash (ps_confirmer s)" using inv by (simp add: pendings_inv_def)
  note all = flush_order [OF this it]
  have "work_ok (in_turn RepAbort err (map snd it))" using all(1) by (rule in_turn_ok)
  moreover have "ps_calls s i = CallWaiting \<longleftrightarrow> i \<in> set (map snd it)" for i
    using pendings_waiting [OF inv, of i] assms(2) all(2) [of i] by simp
  moreover have "list_all (action_of True) (in_turn RepAbort err (map snd it))"
    by (auto simp: list_all_iff dest!: in_turn_actions)
  moreover have "cf_committed (ps_confirmer s) \<subseteq> ps_mined s" using inv by (simp add: pendings_inv_def)
  ultimately show ?thesis by (simp add: pendings_inv_def confirmer_ok_def flushPendings_def) (simp add: flush_locked_def)
qed

lemma pendings_worked:
  "pendings_inv hash s \<Longrightarrow> ps_poll s = Working [] ending \<Longrightarrow>
   pendings_inv hash (s\<lparr>ps_poll := (if ending then PollEnded else Polling)\<rparr>)"
  by (simp add: pendings_inv_def)

lemma pendings_reported:
  "pendings_inv hash s \<Longrightarrow> ps_poll s = Working (Report i r # work) ending \<Longrightarrow>
   pendings_inv hash (s\<lparr>ps_poll := Working work ending\<rparr>)"
  by (simp add: pendings_inv_def)

lemma pendings_answer:
  assumes inv: "pendings_inv hash s" and "ps_poll s = Working (Answer i err # work) ending" and "q \<noteq> CallWaiting"
  shows "pendings_inv hash (ps_call i q (s\<lparr>ps_poll := Working work ending\<rparr>))"
proof -
  note inv' = inv [unfolded pendings_inv_def]
  have "((ps_calls s)(i := q)) j = CallWaiting \<longleftrightarrow> lookup (ps_confirmer s) (hash j) = Some j \<or> j \<in> set (answered work)" for j
    using pendings_waiting [OF inv, of j] inv' assms(2,3) by auto
  then show ?thesis using inv' assms(2) unfolding pendings_inv_def ps_simps by (simp del: fun_upd_apply)
qed

lemma pendings_trigger:
  assumes "pendings_inv hash s" and "ps_calls s i = CallIdle"
  shows "pendings_inv hash (trigger_send h i out s)"
proof (rule pendings_cong [OF assms(1)])
  show "ps_calls (trigger_send h i out s) j = CallWaiting \<longleftrightarrow> ps_calls s j = CallWaiting" for j
    using assms(2) by (cases "j = i") (auto simp: trigger_call)
qed simp_all

text \<open>A step that leaves the call of \<open>i\<close> and the work on it alone keeps what is known of its reports.\<close>

lemma reports_other:
  assumes "reports_ok hash s i" and "ps_calls t i = ps_calls s i" and "ps_reports t i = ps_reports s i"
    and "ps_mined s \<subseteq> ps_mined t" and "ps_known s \<subseteq> ps_known t" and "stopped (ps_poll s) \<Longrightarrow> stopped (ps_poll t)"
    and "ps_calls s i = CallWaiting \<Longrightarrow>
      (i \<in> set (answered (work_of (ps_poll t))) - set (reported (work_of (ps_poll t))) \<longleftrightarrow>
       i \<in> set (answered (work_of (ps_poll s))) - set (reported (work_of (ps_poll s)))) \<and>
      (i \<in> set (answered (work_of (ps_poll t))) - set (reported (work_of (ps_poll t))) \<longrightarrow>
       stopped (ps_poll t) = stopped (ps_poll s))"
  shows "reports_ok hash t i"
  using assms by (cases "ps_calls s i") (auto simp: reports_ok_def)

lemma reports_trigger:
  assumes "reports_ok hash s i" and "ps_calls s j = CallIdle"
  shows "reports_ok hash (trigger_send (hash j) j out s) i"
proof (cases "i = j")
  case True
  with assms show ?thesis by (cases out) (simp_all add: reports_ok_def)
next
  case False
  then show ?thesis by (intro reports_other [OF assms(1)]) auto
qed

lemma reports_confirm:
  assumes "reports_ok hash s i" and "pendings_inv hash s" and "ps_calls s j = CallSent"
  shows "reports_ok hash (confirm (hash j) j s) i"
proof (cases "i = j")
  case True
  have "i \<notin> set (answered (work_of (ps_poll s)))" using pendings_waiting [OF assms(2), of i] assms(3) True by simp
  with True assms show ?thesis
    by (auto simp: reports_ok_def poll_updates pendings_inv_def split: option.splits)
next
  case False
  then show ?thesis by (intro reports_other [OF assms(1)]) (auto simp: poll_updates split: option.splits)
qed

lemma reports_report:
  assumes "reports_ok hash s i" and inv: "pendings_inv hash s" and poll: "ps_poll s = Working (Report j r # work) ending"
  shows "reports_ok hash (ps_report j r (s\<lparr>ps_poll := Working work ending\<rparr>)) i"
proof (cases "i = j")
  case True
  have j: "j \<in> set (answered work)" "j \<notin> set (reported work)" "r = (if ending then RepAbort else RepCommit)"
    using inv poll by (simp_all add: pendings_inv_def)
  then have "ps_calls s j = CallWaiting" using pendings_waiting [OF inv, of j] poll by simp
  with j True assms(1) poll show ?thesis by (simp add: reports_ok_def)
next
  case False
  then show ?thesis by (intro reports_other [OF assms(1)]) (auto simp: poll)
qed

lemma reports_answer:
  assumes "reports_ok hash s i" and inv: "pendings_inv hash s" and poll: "ps_poll s = Working (Answer j err # work) ending"
    and "ps_calls s j = CallWaiting"
  shows "reports_ok hash (ps_call j (CallReturned err) (s\<lparr>ps_poll := Working work ending\<rparr>)) i"
proof (cases "i = j")
  case True
  have "j \<notin> set (reported work)" "hash j \<in> ps_mined s \<or> ending" "ending \<or> err = None"
    using inv poll reported_answered [of work] by (auto simp: pendings_inv_def)
  with True assms show ?thesis by (auto simp: reports_ok_def)
next
  case False
  then show ?thesis by (intro reports_other [OF assms(1)]) (auto simp: poll)
qed

lemma triggered_step: "poll_step react plan hash s t \<Longrightarrow> triggered s \<subseteq> triggered t"
proof (induction rule: poll_step.induct)
  case (trigger s i resp)
  show ?case
  proof
    fix j
    assume "j \<in> triggered s"
    with trigger show "j \<in> triggered (trigger_send (hash i) i (react resp) s)"
      by (cases "j = i") (auto simp: triggered_def)
  qed
qed (auto simp: triggered_def poll_updates split: option.splits prod.splits if_splits)

definition poll_inv :: "(nat \<Rightarrow> 'h) \<Rightarrow> 'h poll_state \<Rightarrow> bool" where
  "poll_inv hash s \<longleftrightarrow> lock_inv s \<and> pendings_inv hash s \<and> (\<forall>i. reports_ok hash s i)"

lemma poll_inv_start: "poll_inv hash poll_start"
  by (simp add: poll_inv_def lock_inv_def pendings_inv_def reports_ok_def poll_start_def confirmer_ok_def lookup_def
      newPollblkTransactionConfirmer_def)

lemma poll_run_front: "poll_run react plan hash t u \<Longrightarrow> poll_step react plan hash s t \<Longrightarrow> poll_run react plan hash s u"
  by (induction rule: poll_run.induct) (auto intro: poll_run.intros)

lemma poll_run_step: "poll_step react plan hash s t \<Longrightarrow> poll_run react plan hash s t"
  by (rule poll_run.poll_more [OF poll_run.poll_refl])

text \<open>While a call keeps the lock, only calls that have not sent yet move.\<close>

lemma locked_step:
  assumes "poll_step react plan hash s t" and "ps_lock s = Some i" and "ps_poll s = Polling"
  shows "ps_lock t = Some i \<and> ps_poll t = Polling \<and> ps_mined t = ps_mined s \<and>
    (\<forall>j. ps_calls s j \<noteq> CallIdle \<longrightarrow> ps_calls t j = ps_calls s j)"
  using assms
proof (induction rule: poll_step.induct)
  case (trigger s j resp)
  have "ps_calls (trigger_send (hash j) j (react resp) s) k = ps_calls s k" if "ps_calls s k \<noteq> CallIdle" for k
    using trigger that by (cases "k = j") auto
  then show ?case using trigger by simp
qed auto

lemma locked_run:
  assumes "poll_run react plan hash s t" and "ps_lock s = Some i" and "ps_poll s = Polling"
  shows "ps_lock t = Some i \<and> ps_poll t = Polling \<and> ps_mined t = ps_mined s \<and>
    (\<forall>j. ps_calls s j \<noteq> CallIdle \<longrightarrow> ps_calls t j = ps_calls s j)"
  using assms by (induction rule: poll_run.induct) (auto dest: locked_step)

text \<open>A call that is never told that the ledger has its transaction needs a block.\<close>

lemma known_none:
  "poll_run react plan hash s t \<Longrightarrow> (\<And>resp. react resp \<noteq> TrigKnown) \<Longrightarrow> ps_known s = {} \<Longrightarrow> ps_known t = {}"
proof (induction rule: poll_run.induct)
  case (poll_more s t u)
  have "ps_known (trigger_send h i out s) = ps_known s" if "out \<noteq> TrigKnown" for h i out and s :: "'b poll_state"
    using that by (cases out) auto
  with poll_more show ?case
    by (cases rule: poll_step.cases [OF poll_more.hyps(2)])
      (auto simp: poll_updates split: option.splits prod.splits if_splits)
qed

text \<open>The goroutine can finish its work.\<close>

lemma work_all:
  assumes "ps_poll s = Working work False" and "work_ok work" and "list_all (action_of False) work"
    and "\<forall>i \<in> set (answered work). ps_calls s i = CallWaiting"
  shows "\<exists>t. poll_run react plan hash s t \<and> ps_poll t = Polling \<and> (\<forall>i \<in> set (answered work). ps_calls t i = CallReturned None) \<and>
    (\<forall>i. i \<notin> set (answered work) \<longrightarrow> ps_calls t i = ps_calls s i)"
  using assms
proof (induction work arbitrary: s rule: work_ok.induct)
  case 1
  then show ?case
    using poll_step.worked [of s False react plan hash]
    by (intro exI [of _ "s\<lparr>ps_poll := Polling\<rparr>"]) (auto intro: poll_run_step)
next
  case (2 i err work)
  let ?s = "ps_call i (CallReturned None) (s\<lparr>ps_poll := Working work False\<rparr>)"
  have "\<forall>j \<in> set (answered work). ps_calls ?s j = CallWaiting" using "2.prems" by auto
  then obtain t where t: "poll_run react plan hash ?s t" "ps_poll t = Polling" "\<forall>j \<in> set (answered work). ps_calls t j = CallReturned None"
    "\<forall>j. j \<notin> set (answered work) \<longrightarrow> ps_calls t j = ps_calls ?s j"
    using "2.IH" [of ?s] "2.prems" by auto
  have "poll_step react plan hash s ?s"
    using poll_step.answer [OF "2.prems"(1), of react plan hash] "2.prems"(3,4) by simp
  with t(1) have "poll_run react plan hash s t" by (rule poll_run_front)
  with t "2.prems"(2) show ?case by (intro exI [of _ t]) auto
next
  case (3 i r work)
  let ?s = "ps_report i r (s\<lparr>ps_poll := Working work False\<rparr>)"
  obtain t where t: "poll_run react plan hash ?s t" "ps_poll t = Polling" "\<forall>j \<in> set (answered work). ps_calls t j = CallReturned None"
    "\<forall>j. j \<notin> set (answered work) \<longrightarrow> ps_calls t j = ps_calls ?s j"
    using "3.IH" [of ?s] "3.prems" by auto
  have "poll_run react plan hash s t"
    by (rule poll_run_front [OF t(1) poll_step.report [OF "3.prems"(1)]])
  with t show ?case by (intro exI [of _ t]) auto
qed

section \<open>Any plan\<close>

context commit_plan
begin

lemma pendings_block:
  assumes inv: "pendings_inv hash s" and poll: "ps_poll s = Polling"
  shows "pendings_inv hash (reportHashes plan hs s)"
proof -
  obtain is' c' where run: "report_locked hs (ps_confirmer s) = (is', c')" by force
  have "confirmer_ok hash (ps_confirmer s)" using inv by (simp add: pendings_inv_def)
  note spec = report_locked_spec [OF run this]
  have "ps_calls s i = CallWaiting \<longleftrightarrow> lookup c' (hash i) = Some i \<or> i \<in> set is'" for i
    using pendings_waiting [OF inv, of i] spec poll by auto
  moreover have "lookup c' (hash i) = None" if "i \<in> set is'" for i using that spec by simp
  moreover have "hash ` set is' \<subseteq> ps_mined s \<union> set hs" using spec by blast
  moreover have "cf_committed c' \<subseteq> ps_mined s \<union> set hs" using spec inv by (auto simp: pendings_inv_def)
  ultimately show ?thesis
    using spec inv poll
    by (simp add: pendings_inv_def reportHashes_def run plan_answered plan_ok plan_actions)
qed

lemma pendings_inv_step:
  assumes "poll_step react plan hash s t" and "inj_on hash (triggered s)" and "pendings_inv hash s"
  shows "pendings_inv hash t"
  using assms
proof (induction rule: poll_step.induct)
  case (report s i r work ending)
  then show ?case using pendings_reported by simp
next
  case (answer s i err work ending)
  then show ?case using pendings_answer [of hash s i err work ending "CallReturned err"] by simp
qed (auto intro: pendings_trigger pendings_confirm pendings_block pendings_fail dest: pendings_worked)

lemma reports_block:
  assumes "reports_ok hash s i" and poll: "ps_poll s = Polling"
  shows "reports_ok hash (reportHashes plan hs s) i"
  by (rule reports_other [OF assms(1)])
    (auto simp: reportHashes_def poll plan_answered plan_reported split: prod.splits)

lemma reports_step:
  assumes "poll_step react plan hash s t" and "pendings_inv hash s" and "reports_ok hash s i"
  shows "reports_ok hash t i"
  using assms
proof (induction rule: poll_step.induct)
  case (worked s ending)
  show ?case by (rule reports_other [OF worked.prems(2)]) (use worked.hyps in auto)
next
  case (fail s it err)
  show ?case by (rule reports_other [OF fail.prems(2)]) (use fail.hyps in \<open>auto simp: flushPendings_def\<close>)
qed (auto intro: reports_trigger reports_confirm reports_block reports_report reports_answer)

lemma poll_inv_run:
  "poll_run react plan hash s t \<Longrightarrow> inj_on hash (triggered t) \<Longrightarrow> poll_inv hash s \<Longrightarrow> poll_inv hash t"
proof (induction rule: poll_run.induct)
  case (poll_more s t u)
  have "inj_on hash (triggered t)" by (rule inj_on_subset [OF poll_more.prems(1) triggered_step [OF poll_more.hyps(2)]])
  with poll_more show ?case by (auto simp: poll_inv_def intro: lock_inv_step pendings_inv_step reports_step)
qed

text \<open>The reports are sound, whatever the interleaving.\<close>

lemma reports_sound:
  assumes "inj_on hash (triggered s)" and "poll_run react plan hash poll_start s"
  shows "(RepCommit \<in> set (ps_reports s i) \<longrightarrow> ps_reports s i = [RepSubmit, RepCommit] \<and> hash i \<in> ps_mined s \<union> ps_known s) \<and>
    (ps_calls s i = CallReturned None \<and> \<not> stopped (ps_poll s) \<longrightarrow> ps_reports s i = [RepSubmit, RepCommit]) \<and>
    (ps_calls s i = CallWaiting \<longleftrightarrow>
       lookup (ps_confirmer s) (hash i) = Some i \<or> i \<in> set (answered (work_of (ps_poll s))))"
proof -
  have "poll_inv hash s" by (rule poll_inv_run [OF assms(2,1) poll_inv_start])
  then have ok: "reports_ok hash s i" "pendings_inv hash s" by (simp_all add: poll_inv_def)
  have "hash i \<in> ps_mined s" if "\<not> stopped (ps_poll s)" "i \<in> set (answered (work_of (ps_poll s)))"
    using ok(2) that by (auto simp: pendings_inv_def)
  with ok(1) show ?thesis
    by (intro conjI pendings_waiting [OF ok(2)]) (auto simp: reports_ok_def split: call_phase.splits if_splits)
qed

text \<open>A call whose block is polled after \<^verbatim>\<open>confirm\<close> can be answered.\<close>

lemma confirm_answered:
  assumes "inj_on hash (triggered s)" and "pendings_inv hash s" and "ps_poll s = Polling" and "ps_calls s i = CallSent"
    and "hash i \<notin> cf_committed (ps_confirmer s)" and "hash i \<in> set hashes"
  shows "\<exists>t. poll_run react plan hash (reportHashes plan hashes (confirm (hash i) i s)) t \<and> ps_calls t i = CallReturned None"
proof -
  let ?s = "confirm (hash i) i s"
  obtain ps where ps: "cf_pendings (ps_confirmer s) = Some ps" using assms(2,3) by (auto simp: pendings_inv_def)
  have s: "pendings_inv hash ?s" "ps_poll ?s = Polling" "lookup (ps_confirmer ?s) (hash i) = Some i"
    using pendings_confirm [OF assms(1,2,4)] assms(3,5) ps by (simp_all add: poll_updates)
  obtain is' c' where run: "report_locked hashes (ps_confirmer ?s) = (is', c')" by force
  have "confirmer_ok hash (ps_confirmer ?s)" using s(1) by (simp add: pendings_inv_def)
  from report_locked_spec [OF run this] have "i \<in> set is'" using s(3) assms(6) by simp
  then have i: "i \<in> set (answered (plan is'))" by (simp add: plan_answered)
  have poll: "ps_poll (reportHashes plan hashes ?s) = Working (plan is') False" by (simp add: reportHashes_def run)
  have inv: "pendings_inv hash (reportHashes plan hashes ?s)" by (rule pendings_block [OF s(1,2)])
  have work: "work_ok (plan is')" using inv by (simp add: pendings_inv_def poll)
  have wait: "\<forall>j \<in> set (answered (plan is')). ps_calls (reportHashes plan hashes ?s) j = CallWaiting"
    using pendings_waiting [OF inv] poll by simp
  show ?thesis using work_all [OF poll work plan_actions wait, of react plan hash] i by blast
qed

text \<open>
  A call whose block was polled before keeps the lock for ever: it never returns, no block is processed
  again, and the calls that had sent stay where they are.
\<close>

lemma confirm_blocked:
  assumes "pendings_inv hash s" and "ps_poll s = Polling" and "hash i \<in> cf_committed (ps_confirmer s)"
    and run: "poll_run react plan hash (confirm (hash i) i s) t"
  shows "ps_calls t i = CallSending \<and> ps_mined t = ps_mined s \<and>
    (\<forall>j. ps_calls s j \<in> {CallSent, CallWaiting} \<and> j \<noteq> i \<longrightarrow> ps_calls t j = ps_calls s j)"
proof -
  obtain ps where ps: "cf_pendings (ps_confirmer s) = Some ps" using assms(1,2) by (auto simp: pendings_inv_def)
  have s: "ps_lock (confirm (hash i) i s) = Some i" "ps_poll (confirm (hash i) i s) = Polling"
    "ps_mined (confirm (hash i) i s) = ps_mined s" "ps_calls (confirm (hash i) i s) = (ps_calls s)(i := CallSending)"
    using ps assms(2,3) by (simp_all add: poll_updates)
  show ?thesis using locked_run [OF run s(1,2)] unfolding s by auto
qed

lemma confirm_race:
  assumes "inj_on hash (triggered s)" and "poll_run react plan hash poll_start s" and "ps_poll s = Polling" and "ps_calls s i = CallSent"
  shows "(hash i \<notin> cf_committed (ps_confirmer s) \<and> hash i \<in> set hashes \<longrightarrow>
      (\<exists>t. poll_run react plan hash (reportHashes plan hashes (confirm (hash i) i s)) t \<and> ps_calls t i = CallReturned None)) \<and>
    (hash i \<in> cf_committed (ps_confirmer s) \<longrightarrow>
      (\<forall>t. poll_run react plan hash (confirm (hash i) i s) t \<longrightarrow> ps_calls t i = CallSending \<and> ps_mined t = ps_mined s \<and>
        (\<forall>j. ps_calls s j \<in> {CallSent, CallWaiting} \<and> j \<noteq> i \<longrightarrow> ps_calls t j = ps_calls s j)))"
proof -
  have "pendings_inv hash s" using poll_inv_run [OF assms(2,1) poll_inv_start] by (simp add: poll_inv_def)
  then show ?thesis using confirm_answered [OF assms(1) _ assms(3,4)] confirm_blocked [OF _ assms(3)] by blast
qed

end

end
