(* ===== verification/Eth_Confirm.thy ===== *)
theory Eth_Confirm
  imports Poll_Confirm
begin

text \<open>
  How the client of the Ethereum driver (\<^verbatim>\<open>src/blockchains/nethereum/client.go\<close>) triggers interactions and
  learns that they are committed: the confirmer of \<open>Poll_Confirm\<close>, whose keys are the hashes of the
  transactions and whose goroutine reports and answers pending by pending. The client of the Avalanche driver
  (\<^verbatim>\<open>src/blockchains/navalanche/client.go\<close>) is the same code over another library.
\<close>

section \<open>The client\<close>

text \<open>
  \<^verbatim>\<open>strings.Contains("already known", err.Error())\<close>: whether the text of the error occurs in the
  literal.
\<close>

definition send_accepted :: "string option \<Rightarrow> bool" where
  "send_accepted err \<longleftrightarrow> (case err of None \<Rightarrow> True | Some text \<Rightarrow> sublist text ''already known'')"

text \<open>
  The part of \<^verbatim>\<open>TriggerInteraction\<close> before \<^verbatim>\<open>confirm\<close>, from the error of \<^verbatim>\<open>getTx\<close>, if any, and that of
  \<^verbatim>\<open>SendTransaction\<close>, with its text.
\<close>

fun eth_react :: "go_error option \<times> (string \<times> go_error) option \<Rightarrow> trigger_outcome" where
  "eth_react (Some e, sent) = TrigFailed e"
| "eth_react (None, None) = TrigSent"
| "eth_react (None, Some (text, e)) = (if send_accepted (Some text) then TrigSent else TrigRefused e)"

definition eth_plan :: "nat list \<Rightarrow> poll_action list" where
  "eth_plan = in_turn RepCommit None"

interpretation eth_poll: commit_plan eth_plan
  unfolding eth_plan_def by (rule in_turn_plan.commit_plan_axioms)

text \<open>
  What \<^verbatim>\<open>processBlock\<close> does with a block, a list of the hashes of its transactions, or the error of its
  query: a block without transactions is skipped, an error ends the goroutine.
\<close>

definition eth_processBlock :: "string list outcome \<Rightarrow> (string poll_state, unit) go" where
  "eth_processBlock block =
     gbind (glift block) (\<lambda>hashes. if hashes = [] then gret () else gmodify (reportHashes eth_plan hashes))"

section \<open>Properties\<close>

text \<open>A block that is processed is a step or nothing.\<close>

lemma eth_processBlock_step:
  assumes "eth_processBlock block s = (Ok (), t)" and "ps_poll s = Polling" and "ps_lock s = None"
  shows "poll_run eth_react eth_plan hash s t"
  using assms poll_step.block [OF assms(2,3), of eth_react eth_plan hash]
  by (cases block) (auto simp: eth_processBlock_def go_run intro: poll_run.poll_refl poll_run_step split: if_splits)

lemma eth_react_known: "eth_react resp \<noteq> TrigKnown"
  by (cases resp rule: eth_react.cases) auto

text \<open>
  C9: The reports of the Ethereum client are sound, in every interleaving of the calls and the
  goroutine that polls the blocks, when the transactions have different hashes: a commit is reported only for a
  transaction of a processed block, once and after its submission; a call that returns without an error
  before the goroutine has stopped has reported its commit; and a waiting call is never lost, it is
  registered or next to be answered.
\<close>

theorem eth_reports_sound:
  assumes "inj_on hash (triggered s)" and "poll_run eth_react eth_plan hash poll_start s"
  shows "(RepCommit \<in> set (ps_reports s i) \<longrightarrow> ps_reports s i = [RepSubmit, RepCommit] \<and> hash i \<in> ps_mined s) \<and>
    (ps_calls s i = CallReturned None \<and> \<not> stopped (ps_poll s) \<longrightarrow> ps_reports s i = [RepSubmit, RepCommit]) \<and>
    (ps_calls s i = CallWaiting \<longleftrightarrow>
       lookup (ps_confirmer s) (hash i) = Some i \<or> i \<in> set (answered (work_of (ps_poll s))))"
proof -
  have known: "ps_known s = {}" by (rule known_none [OF assms(2) eth_react_known]) (simp add: poll_start_def)
  show ?thesis using eth_poll.reports_sound [OF assms, of i] unfolding known Un_empty_right .
qed

definition demo_hash :: "nat \<Rightarrow> string" where
  "demo_hash i = replicate i (CHR ''a'')"

lemma demo_hash_inj: "inj_on demo_hash I"
  by (rule inj_onI) (metis demo_hash_def length_replicate)

definition demo_sent :: "string poll_state" where
  "demo_sent = trigger_send (demo_hash 0) 0 TrigSent poll_start"

definition demo_mined :: "string poll_state" where
  "demo_mined = (reportHashes eth_plan [demo_hash 0] demo_sent)\<lparr>ps_poll := Polling\<rparr>"

lemma demo_runs:
  "poll_run eth_react eth_plan demo_hash poll_start demo_sent" "poll_run eth_react eth_plan demo_hash poll_start demo_mined"
proof -
  have "poll_step eth_react eth_plan demo_hash poll_start demo_sent"
    using poll_step.trigger [of poll_start 0 eth_react eth_plan demo_hash "(None, None)"] by (simp add: demo_sent_def poll_start_def)
  then show sent: "poll_run eth_react eth_plan demo_hash poll_start demo_sent" by (rule poll_run_step)
  have "poll_step eth_react eth_plan demo_hash demo_sent (reportHashes eth_plan [demo_hash 0] demo_sent)"
    by (rule poll_step.block) (simp_all add: demo_sent_def poll_start_def)
  moreover have "poll_step eth_react eth_plan demo_hash (reportHashes eth_plan [demo_hash 0] demo_sent) demo_mined"
    using poll_step.worked [of "reportHashes eth_plan [demo_hash 0] demo_sent" False eth_react eth_plan demo_hash]
    by (simp add: demo_mined_def reportHashes_def demo_sent_def poll_start_def newPollblkTransactionConfirmer_def
        eth_plan_def in_turn_def)
  ultimately show "poll_run eth_react eth_plan demo_hash poll_start demo_mined" using sent by (blast intro: poll_run.poll_more)
qed

theorem eth_reports_sound_witness:
  "\<exists>s. poll_run eth_react eth_plan demo_hash poll_start s \<and> ps_calls s 0 = CallSending \<and> demo_hash 0 \<in> ps_mined s"
proof -
  let ?s = "confirm (demo_hash 0) 0 demo_mined"
  have "poll_step eth_react eth_plan demo_hash demo_mined ?s"
    by (rule poll_step.confirm) (simp_all add: demo_mined_def reportHashes_def demo_sent_def poll_start_def
        newPollblkTransactionConfirmer_def)
  with demo_runs(2) have run: "poll_run eth_react eth_plan demo_hash poll_start ?s" by (rule poll_run.poll_more)
  have "ps_calls ?s 0 = CallSending" "RepCommit \<in> set (ps_reports ?s 0)"
    by (simp_all add: confirm_def confirm_locked_def demo_mined_def reportHashes_def demo_sent_def
        poll_start_def newPollblkTransactionConfirmer_def)
  with run eth_reports_sound [OF demo_hash_inj run, of 0] show ?thesis by blast
qed

text \<open>
  C10: The race between a block and \<^verbatim>\<open>confirm\<close>. If the block with the transaction is polled after \<^verbatim>\<open>confirm\<close> was
  called, the call can be answered, with a commit. If it was polled before, \<^verbatim>\<open>confirm\<close> sends on the
  channel that only it receives from, while it has the lock: in every continuation it never returns, no
  block is processed again, and every call that had sent its transaction stays where it is.
\<close>

theorem eth_confirm_race:
  assumes "inj_on hash (triggered s)" and "poll_run eth_react eth_plan hash poll_start s" and "ps_poll s = Polling" and "ps_lock s = None"
    and "ps_calls s i = CallSent"
  shows "(hash i \<notin> cf_committed (ps_confirmer s) \<and> hash i \<in> set hashes \<longrightarrow>
      (\<exists>t. poll_run eth_react eth_plan hash (reportHashes eth_plan hashes (confirm (hash i) i s)) t \<and> ps_calls t i = CallReturned None)) \<and>
    (hash i \<in> cf_committed (ps_confirmer s) \<longrightarrow>
      (\<forall>t. poll_run eth_react eth_plan hash (confirm (hash i) i s) t \<longrightarrow> ps_calls t i = CallSending \<and> ps_mined t = ps_mined s \<and>
        (\<forall>j. ps_calls s j \<in> {CallSent, CallWaiting} \<and> j \<noteq> i \<longrightarrow> ps_calls t j = ps_calls s j)))"
  by (rule eth_poll.confirm_race [OF assms(1,2,3,5)])

theorem eth_confirm_race_witness:
  "poll_run eth_react eth_plan demo_hash poll_start demo_mined \<and>
   (\<nexists>t. poll_run eth_react eth_plan demo_hash (confirm (demo_hash 0) 0 demo_mined) t \<and> ps_calls t 0 = CallReturned None) \<and>
   (\<exists>t. poll_run eth_react eth_plan demo_hash (reportHashes eth_plan [demo_hash 0] (confirm (demo_hash 0) 0 demo_sent)) t \<and>
     ps_calls t 0 = CallReturned None)"
proof -
  note run = eth_confirm_race [OF demo_hash_inj demo_runs(2), of 0 "[]"]
    eth_confirm_race [OF demo_hash_inj demo_runs(1), of 0 "[demo_hash 0]"]
  show ?thesis
    using demo_runs(2) run
    by (auto simp: demo_mined_def reportHashes_def demo_sent_def poll_start_def
        newPollblkTransactionConfirmer_def)
qed

end
