(* ===== verification/Algo_Transaction.thy ===== *)
theory Algo_Transaction
  imports Eth_Builder
begin

text \<open>
  The transactions of the Algorand driver (\<^verbatim>\<open>src/blockchains/nalgorand/transaction.go\<close>): their encoding for
  the secondaries, their decoding, and how they become raw signed transactions that carry their number in
  the note field. The Algorand library and the node behind its client are a parameter.
\<close>

section \<open>The library\<close>

text \<open>The suggested parameters of a transaction; \<open>sp_other\<close> stands for the fields the driver does not touch.\<close>

record 'o SuggestedParams =
  sp_Fee :: "64 word"
  sp_FlatFee :: bool
  sp_FirstRoundValid :: "64 word"
  sp_LastRoundValid :: "64 word"
  sp_other :: 'o

record StateSchema =
  ss_NumUint :: "64 word"
  ss_NumByteSlice :: "64 word"

record PendingTransactionInfo =
  pi_PoolError :: string
  pi_ConfirmedRound :: "64 word"
  pi_ApplicationIndex :: "64 word"

text \<open>
  The functions of the library that the driver calls. The arguments that are the same in every call (no
  accounts, no lease, no group) are left out; a block is the list of the notes of its transactions, the
  status of the node its last round, and \<open>al_CtxErr\<close> tells whether the context of the client is done.
\<close>

record ('k, 'a, 'tx, 'o, 'n) algo_sdk =
  al_Seed :: "'k \<Rightarrow> byte list"
  al_NewKeyFromSeed :: "byte list \<Rightarrow> 'k"
  al_ToPrivateKey :: "string \<Rightarrow> 'k outcome"
  al_DecodeAddress :: "string \<Rightarrow> 'a outcome"
  al_MinTxnFee :: "64 word"
  al_ToMicroAlgos :: "nat \<Rightarrow> 64 word"
  al_MakePaymentTxn :: "string \<Rightarrow> string \<Rightarrow> 64 word \<Rightarrow> byte list \<Rightarrow> 'o SuggestedParams \<Rightarrow> 'tx outcome"
  al_MakeApplicationCreateTx :: "byte list \<Rightarrow> byte list \<Rightarrow> StateSchema \<Rightarrow> StateSchema \<Rightarrow> 'o SuggestedParams \<Rightarrow> 'a
     \<Rightarrow> byte list \<Rightarrow> 'tx outcome"
  al_MakeApplicationNoOpTx :: "64 word \<Rightarrow> byte list list \<Rightarrow> 'o SuggestedParams \<Rightarrow> 'a \<Rightarrow> byte list \<Rightarrow> 'tx outcome"
  al_SignTransaction :: "'k \<Rightarrow> 'tx \<Rightarrow> byte list outcome"
  al_GenerateAccount :: "('n, string \<times> 'k) go"
  al_SuggestedParams :: "('n, 'o SuggestedParams) go"
  al_SendRawTransaction :: "byte list \<Rightarrow> ('n, string) go"
  al_PendingTransactionInformation :: "string \<Rightarrow> ('n, PendingTransactionInfo) go"
  al_Status :: "('n, 64 word) go"
  al_StatusAfterBlock :: "64 word \<Rightarrow> ('n, 64 word) go"
  al_Block :: "64 word \<Rightarrow> ('n, byte list list) go"
  al_CtxErr :: "'n \<Rightarrow> bool"
  al_TealCompile :: "byte list \<Rightarrow> ('n, string) go"

text \<open>What the documentation of \<^verbatim>\<open>crypto/ed25519\<close> promises: a key is determined by its seed of 32 bytes.\<close>

definition algo_ok :: "('k, 'a, 'tx, 'o, 'n) algo_sdk \<Rightarrow> bool" where
  "algo_ok al \<longleftrightarrow> (\<forall>k. al_NewKeyFromSeed al (al_Seed al k) = k \<and> length (al_Seed al k) = SeedSize)"

section \<open>Numbers and notes\<close>

definition algo_type_transfer :: byte where "algo_type_transfer = 0"
definition algo_type_invoke :: byte where "algo_type_invoke = 1"

definition uidToNote :: "64 word \<Rightarrow> byte list" where
  "uidToNote uid = put_u64 uid"

definition noteToUid :: "byte list \<Rightarrow> 64 word option" where
  "noteToUid note = (if length note \<noteq> 8 then None else Some (of_nat (get_uint LittleEndian note)))"

section \<open>The parameters of transactions\<close>

text \<open>The three providers; a lazy one remembers the static one it has made.\<close>

datatype 'o algo_provider =
    AlgoStatic "'o SuggestedParams"
  | AlgoLazy "'o SuggestedParams option"
  | AlgoDirect

record ('o, 'n) algo_state =
  ag_node :: 'n
  ag_provider :: "'o algo_provider"

definition algo_on_node :: "('n, 'b) go \<Rightarrow> (('o, 'n) algo_state, 'b) go" where
  "algo_on_node m = gzoom ag_node (\<lambda>n s. s\<lparr>ag_node := n\<rparr>) m"

definition newStaticParameterProvider :: "'o SuggestedParams \<Rightarrow> 'o algo_provider" where
  "newStaticParameterProvider params = AlgoStatic params"

definition algo_staticParams :: "('k, 'a, 'tx, 'o, 'n) algo_sdk \<Rightarrow> ('n, 'o SuggestedParams) go" where
  "algo_staticParams al =
     gbind (al_SuggestedParams al) (\<lambda>params.
     gret (params\<lparr>sp_LastRoundValid := sp_FirstRoundValid params + 1000\<rparr>))"

definition algo_makeStaticParameterProvider :: "('k, 'a, 'tx, 'o, 'n) algo_sdk \<Rightarrow> ('n, 'o algo_provider) go" where
  "algo_makeStaticParameterProvider al = gbind (algo_staticParams al) (\<lambda>params. gret (AlgoStatic params))"

definition algo_getParams :: "('k, 'a, 'tx, 'o, 'n) algo_sdk \<Rightarrow> (('o, 'n) algo_state, 'o SuggestedParams) go" where
  "algo_getParams al = (\<lambda>s.
     case ag_provider s of
       AlgoStatic params \<Rightarrow> (Ok params, s)
     | AlgoDirect \<Rightarrow> algo_on_node (al_SuggestedParams al) s
     | AlgoLazy (Some params) \<Rightarrow> (Ok params, s)
     | AlgoLazy None \<Rightarrow>
         gbind (algo_on_node (algo_staticParams al)) (\<lambda>params.
         gbind (gmodify (\<lambda>s. s\<lparr>ag_provider := AlgoLazy (Some params)\<rparr>)) (\<lambda>_.
         gret params)) s)"

section \<open>Transactions\<close>

record 'k algo_transferTransaction =
  at_uid :: "64 word"
  at_amount :: "64 word"
  at_from :: string
  at_to :: string
  at_key :: 'k

text \<open>The code of an application, as a transaction that deploys it needs it.\<close>

record algo_code =
  co_approvalCode :: "byte list"
  co_clearCode :: "byte list"
  co_localSchema :: StateSchema
  co_globalSchema :: StateSchema

record 'k algo_deployTransaction =
  ad_uid :: "64 word"
  ad_appli :: algo_code
  ad_from :: string
  ad_key :: 'k

record 'k algo_invokeTransaction =
  ai_uid :: "64 word"
  ai_appid :: "64 word"
  ai_args :: "byte list list"
  ai_from :: string
  ai_key :: 'k

datatype ('k, 'tx) algo_virtual =
    AVSigned "64 word" "byte list"
  | AVUnsigned "64 word" 'tx 'k
  | AVTransfer "'k algo_transferTransaction"
  | AVDeploy "'k algo_deployTransaction"
  | AVInvoke "'k algo_invokeTransaction"

fun algo_getUid :: "('k, 'tx) algo_virtual \<Rightarrow> 64 word" where
  "algo_getUid (AVSigned uid raw) = uid"
| "algo_getUid (AVUnsigned uid tx key) = uid"
| "algo_getUid (AVTransfer t) = at_uid t"
| "algo_getUid (AVDeploy t) = ad_uid t"
| "algo_getUid (AVInvoke t) = ai_uid t"

text \<open>
  \<^verbatim>\<open>getRaw\<close> gives back what the transaction has become, with the raw transaction or an error. On an
  error it is unchanged, except that an error of the signature leaves the unsigned transaction.
\<close>

type_synonym ('k, 'tx, 'o, 'n) algo_getRaw_op =
  "('o, 'n) algo_state \<Rightarrow> (('k, 'tx) algo_virtual \<times> byte list outcome) \<times> ('o, 'n) algo_state"

definition algo_unsigned_getRaw ::
  "('k, 'a, 'tx, 'o, 'n) algo_sdk \<Rightarrow> 64 word \<Rightarrow> 'tx \<Rightarrow> 'k \<Rightarrow> ('k, 'tx) algo_virtual \<times> byte list outcome" where
  "algo_unsigned_getRaw al uid tx key =
     (case al_SignTransaction al key tx of
        Ok raw \<Rightarrow> (AVSigned uid raw, Ok raw)
      | Err e \<Rightarrow> (AVUnsigned uid tx key, Err e)
      | Panic p \<Rightarrow> (AVUnsigned uid tx key, Panic p))"

text \<open>The parameters, then the transaction made from them, then its signature.\<close>

definition algo_build ::
  "('k, 'a, 'tx, 'o, 'n) algo_sdk \<Rightarrow> ('k, 'tx) algo_virtual \<Rightarrow> 'k \<Rightarrow> ('o SuggestedParams \<Rightarrow> 'tx outcome)
     \<Rightarrow> ('k, 'tx, 'o, 'n) algo_getRaw_op" where
  "algo_build al this key make_tx = (\<lambda>s.
     case gbind (algo_getParams al) (\<lambda>params. glift (make_tx params)) s of
       (Ok tx, s') \<Rightarrow> (algo_unsigned_getRaw al (algo_getUid this) tx key, s')
     | (Err e, s') \<Rightarrow> ((this, Err e), s')
     | (Panic p, s') \<Rightarrow> ((this, Panic p), s'))"

definition algo_transfer_getRaw ::
  "('k, 'a, 'tx, 'o, 'n) algo_sdk \<Rightarrow> 'k algo_transferTransaction \<Rightarrow> ('k, 'tx, 'o, 'n) algo_getRaw_op" where
  "algo_transfer_getRaw al t =
     algo_build al (AVTransfer t) (at_key t) (\<lambda>params.
       al_MakePaymentTxn al (at_from t) (at_to t) (at_amount t) (uidToNote (at_uid t))
         (params\<lparr>sp_Fee := al_MinTxnFee al, sp_FlatFee := True\<rparr>))"

definition algo_deploy_getRaw ::
  "('k, 'a, 'tx, 'o, 'n) algo_sdk \<Rightarrow> 'k algo_deployTransaction \<Rightarrow> ('k, 'tx, 'o, 'n) algo_getRaw_op" where
  "algo_deploy_getRaw al t =
     algo_build al (AVDeploy t) (ad_key t) (\<lambda>params.
       obind (al_DecodeAddress al (ad_from t)) (\<lambda>addr.
       al_MakeApplicationCreateTx al (co_approvalCode (ad_appli t)) (co_clearCode (ad_appli t))
         (co_globalSchema (ad_appli t)) (co_localSchema (ad_appli t)) params addr (uidToNote (ad_uid t))))"

definition algo_invoke_getRaw ::
  "('k, 'a, 'tx, 'o, 'n) algo_sdk \<Rightarrow> 'k algo_invokeTransaction \<Rightarrow> ('k, 'tx, 'o, 'n) algo_getRaw_op" where
  "algo_invoke_getRaw al t =
     algo_build al (AVInvoke t) (ai_key t) (\<lambda>params.
       obind (al_DecodeAddress al (ai_from t)) (\<lambda>addr.
       al_MakeApplicationNoOpTx al (ai_appid t) (ai_args t) params addr (uidToNote (ai_uid t))))"

fun algo_virtual_getRaw ::
  "('k, 'a, 'tx, 'o, 'n) algo_sdk \<Rightarrow> ('k, 'tx) algo_virtual \<Rightarrow> ('k, 'tx, 'o, 'n) algo_getRaw_op" where
  "algo_virtual_getRaw al (AVSigned uid raw) = (\<lambda>s. ((AVSigned uid raw, Ok raw), s))"
| "algo_virtual_getRaw al (AVUnsigned uid tx key) = (\<lambda>s. (algo_unsigned_getRaw al uid tx key, s))"
| "algo_virtual_getRaw al (AVTransfer t) = algo_transfer_getRaw al t"
| "algo_virtual_getRaw al (AVDeploy t) = algo_deploy_getRaw al t"
| "algo_virtual_getRaw al (AVInvoke t) = algo_invoke_getRaw al t"

text \<open>
  A decoded transaction is a lazy one around an outer one: the first \<^verbatim>\<open>getRaw\<close> runs, and its result, an
  error too, is returned ever after; so is the first number.
\<close>

record ('k, 'tx) algo_lazy =
  az_inner :: "('k, 'tx) algo_virtual"
  az_raw :: "byte list outcome option"
  az_uid :: "64 word option"

definition algo_newLazyTransaction :: "('k, 'tx) algo_virtual \<Rightarrow> ('k, 'tx) algo_lazy" where
  "algo_newLazyTransaction inner = \<lparr>az_inner = inner, az_raw = None, az_uid = None\<rparr>"

definition algo_lazy_getRaw ::
  "('k, 'a, 'tx, 'o, 'n) algo_sdk \<Rightarrow> ('k, 'tx) algo_lazy \<Rightarrow> ('o, 'n) algo_state
     \<Rightarrow> byte list outcome \<times> ('k, 'tx) algo_lazy \<times> ('o, 'n) algo_state" where
  "algo_lazy_getRaw al lt s =
     (case az_raw lt of
        Some r \<Rightarrow> (r, lt, s)
      | None \<Rightarrow>
          (case algo_virtual_getRaw al (az_inner lt) s of
             ((inner, r), s') \<Rightarrow> (r, lt\<lparr>az_inner := inner, az_raw := Some r\<rparr>, s')))"

definition algo_lazy_getUid :: "('k, 'tx) algo_lazy \<Rightarrow> 64 word \<times> ('k, 'tx) algo_lazy" where
  "algo_lazy_getUid lt =
     (case az_uid lt of
        Some uid \<Rightarrow> (uid, lt)
      | None \<Rightarrow> (algo_getUid (az_inner lt), lt\<lparr>az_uid := Some (algo_getUid (az_inner lt))\<rparr>))"

section \<open>Encoding and decoding\<close>

definition algo_encode_transfer ::
  "('k, 'a, 'tx, 'o, 'n) algo_sdk \<Rightarrow> 'w write_op \<Rightarrow> byte \<Rightarrow> 'k algo_transferTransaction \<Rightarrow> ('w, unit) go" where
  "algo_encode_transfer al wr first t =
     (if length (at_from t) > 255
      then gerr (Errorf ''from address too long (%d bytes)'' [AInt (int (length (at_from t)))])
      else if length (at_to t) > 255
      then gerr (Errorf ''to address too long (%d bytes)'' [AInt (int (length (at_to t)))])
      else
        gbind (out_chain
          [WriteUint8 wr algo_type_transfer, WriteUint8 wr (of_nat (length (at_from t))),
           WriteUint8 wr (of_nat (length (at_to t))), WriteUint64 wr (at_uid t), WriteUint64 wr (at_amount t),
           WriteString wr (at_from t), WriteString wr (at_to t), WriteBytes wr (al_Seed al (at_key t))]
          (SetOrder_out LittleEndian (NewMonadOutputWriter first))) (\<lambda>mo. glift (out_Error mo)))"

fun too_large :: "nat \<Rightarrow> byte list list \<Rightarrow> (nat \<times> byte list) option" where
  "too_large i [] = None"
| "too_large i (arg # args) = (if length arg \<le> 255 then too_large (i + 1) args else Some (i, arg))"

text \<open>
  The loop over the arguments calls the methods of the writer it has, and drops what they return: an error
  in the loop is not seen. The length of the sender's address is not checked.
\<close>

fun encode_args :: "'w write_op \<Rightarrow> byte list list \<Rightarrow> MonadOutput \<Rightarrow> ('w, unit) go" where
  "encode_args wr [] output = gret ()"
| "encode_args wr (arg # args) output =
     gbind (out_chain [WriteUint8 wr (of_nat (length arg)), WriteBytes wr arg] output) (\<lambda>_. encode_args wr args output)"

definition algo_encode_invoke ::
  "('k, 'a, 'tx, 'o, 'n) algo_sdk \<Rightarrow> 'w write_op \<Rightarrow> byte \<Rightarrow> 'k algo_invokeTransaction \<Rightarrow> ('w, unit) go" where
  "algo_encode_invoke al wr first t =
     (if length (ai_args t) > 255
      then gerr (Errorf ''too many invoke arguments (%d)'' [AInt (int (length (ai_args t)))])
      else case too_large 0 (ai_args t) of
        Some (i, arg) \<Rightarrow> gerr (Errorf ''invoke argument %d too large (%d bytes)'' [AInt (int i), AInt (int (length arg))])
      | None \<Rightarrow>
        gbind (out_chain
          [WriteUint8 wr algo_type_invoke, WriteUint8 wr (of_nat (length (ai_from t))),
           WriteUint8 wr (of_nat (length (ai_args t))), WriteUint64 wr (ai_uid t), WriteUint64 wr (ai_appid t),
           WriteString wr (ai_from t), WriteBytes wr (al_Seed al (ai_key t))]
          (SetOrder_out LittleEndian (NewMonadOutputWriter first))) (\<lambda>output.
        gbind (encode_args wr (ai_args t) output) (\<lambda>_. glift (out_Error output))))"

definition algo_decodeTransferTransaction ::
  "('k, 'a, 'tx, 'o, 'n) algo_sdk \<Rightarrow> byte \<Rightarrow> (reader, 'k algo_transferTransaction) go" where
  "algo_decodeTransferTransaction al first =
     gbind (ReadUint8 PInt (SetOrder_in LittleEndian (NewMonadInputReader first))) (\<lambda>(lenfrom, mi).
     gbind (ReadUint8 PInt mi) (\<lambda>(lento, mi).
     gbind (ReadUint64 PUint64 mi) (\<lambda>(uid, mi).
     gbind (ReadUint64 PUint64 mi) (\<lambda>(amount, mi).
     gbind (ReadString lenfrom mi) (\<lambda>(from, mi).
     gbind (ReadString lento mi) (\<lambda>(to, mi).
     gbind (ReadBytes [] SeedSize mi) (\<lambda>(buf, mi).
     gbind (glift (in_Error mi)) (\<lambda>_.
     gret \<lparr>at_uid = of_nat uid, at_amount = of_nat amount, at_from = from, at_to = to,
           at_key = al_NewKeyFromSeed al buf\<rparr>))))))))"

text \<open>Likewise the loop that reads the arguments does not see an error of its own reads.\<close>

fun decode_args :: "nat \<Rightarrow> MonadInput \<Rightarrow> (reader, byte list list) go" where
  "decode_args 0 input = gret []"
| "decode_args (Suc n) input =
     gbind (ReadUint8 PInt input) (\<lambda>(lenarg, mi).
     gbind (ReadBytes [] lenarg mi) (\<lambda>(arg, _).
     gbind (decode_args n input) (\<lambda>args. gret (arg # args))))"

definition algo_decodeInvokeTransaction ::
  "('k, 'a, 'tx, 'o, 'n) algo_sdk \<Rightarrow> byte \<Rightarrow> (reader, 'k algo_invokeTransaction) go" where
  "algo_decodeInvokeTransaction al first =
     gbind (ReadUint8 PInt (SetOrder_in LittleEndian (NewMonadInputReader first))) (\<lambda>(lenfrom, mi).
     gbind (ReadUint8 PInt mi) (\<lambda>(lenargs, mi).
     gbind (ReadUint64 PUint64 mi) (\<lambda>(uid, mi).
     gbind (ReadUint64 PUint64 mi) (\<lambda>(appid, mi).
     gbind (ReadString lenfrom mi) (\<lambda>(from, mi).
     gbind (ReadBytes [] SeedSize mi) (\<lambda>(buf, input).
     gbind (decode_args lenargs input) (\<lambda>args.
     gbind (glift (in_Error input)) (\<lambda>_.
     gret \<lparr>ai_uid = of_nat uid, ai_appid = of_nat appid, ai_args = args, ai_from = from,
           ai_key = al_NewKeyFromSeed al buf\<rparr>))))))))"

definition algo_decodeTransaction ::
  "('k, 'a, 'tx, 'o, 'n) algo_sdk \<Rightarrow> byte \<Rightarrow> (reader, ('k, 'tx) algo_lazy) go" where
  "algo_decodeTransaction al first =
     gbind (ReadUint8 PUint8 (NewMonadInputReader first)) (\<lambda>(txtype, mi).
     gbind (glift (in_Error mi)) (\<lambda>_.
     if of_nat txtype = algo_type_transfer
     then gbind (algo_decodeTransferTransaction al first) (\<lambda>t. gret (algo_newLazyTransaction (AVTransfer t)))
     else if of_nat txtype = algo_type_invoke
     then gbind (algo_decodeInvokeTransaction al first) (\<lambda>t. gret (algo_newLazyTransaction (AVInvoke t)))
     else gerr (Errorf ''unknown transaction type %v'' [AInt (int txtype)])))"

section \<open>The bytes\<close>

definition algo_transfer_bytes :: "('k, 'a, 'tx, 'o, 'n) algo_sdk \<Rightarrow> 'k algo_transferTransaction \<Rightarrow> byte list" where
  "algo_transfer_bytes al t = algo_type_transfer # of_nat (length (at_from t)) # of_nat (length (at_to t)) #
     put_u64 (at_uid t) @ put_u64 (at_amount t) @ string_bytes (at_from t) @ string_bytes (at_to t) @
     al_Seed al (at_key t)"

definition arg_bytes :: "byte list list \<Rightarrow> byte list" where
  "arg_bytes args = concat (map (\<lambda>arg. of_nat (length arg) # arg) args)"

definition algo_invoke_bytes :: "('k, 'a, 'tx, 'o, 'n) algo_sdk \<Rightarrow> 'k algo_invokeTransaction \<Rightarrow> byte list" where
  "algo_invoke_bytes al t = algo_type_invoke # of_nat (length (ai_from t)) # of_nat (length (ai_args t)) #
     put_u64 (ai_uid t) @ put_u64 (ai_appid t) @ string_bytes (ai_from t) @ al_Seed al (ai_key t) @ arg_bytes (ai_args t)"

definition args_fit :: "byte list list \<Rightarrow> bool" where
  "args_fit args \<longleftrightarrow> length args \<le> 255 \<and> list_all (\<lambda>arg. length arg \<le> 255) args"

lemma too_large_None: "too_large i args = None \<longleftrightarrow> list_all (\<lambda>arg. length arg \<le> 255) args"
  by (induction args arbitrary: i) auto

lemma note_roundtrip: "noteToUid (uidToNote uid) = Some uid"
  using unat_bound [of uid] by (simp add: noteToUid_def uidToNote_def put_u64_def get_put_uint)

lemma uidToNote_inject: "uidToNote a = uidToNote b \<Longrightarrow> a = b"
  using note_roundtrip by (metis option.inject)

lemma algo_encode_transfer_buffer:
  assumes "length (at_from t) \<le> 255" and "length (at_to t) \<le> 255"
  shows "algo_encode_transfer al buffer_write first t w = (Ok (), w @ algo_transfer_bytes al t)"
  using assms chain_to_buffer [of "[\<lambda>_. [algo_type_transfer], \<lambda>_. [of_nat (length (at_from t))],
      \<lambda>_. [of_nat (length (at_to t))], \<lambda>ord. put_uint ord 8 (unat (at_uid t)), \<lambda>ord. put_uint ord 8 (unat (at_amount t)),
      \<lambda>_. string_bytes (at_from t), \<lambda>_. string_bytes (at_to t), \<lambda>_. al_Seed al (at_key t)]" first w]
  by (simp add: algo_encode_transfer_def write_defs algo_transfer_bytes_def put_u64_def)

lemma encode_args_buffer:
  "encode_args buffer_write args (MonadWriter ord) w = (Ok (), w @ arg_bytes args)"
  by (induction args arbitrary: w)
    (simp_all add: gret_run arg_bytes_def write_defs monad_write_buffer gbind_def gret_def)

lemma algo_encode_invoke_buffer:
  assumes "args_fit (ai_args t)"
  shows "algo_encode_invoke al buffer_write first t w = (Ok (), w @ algo_invoke_bytes al t)"
proof -
  let ?encs = "[\<lambda>_. [algo_type_invoke], \<lambda>_. [of_nat (length (ai_from t))], \<lambda>_. [of_nat (length (ai_args t))],
      \<lambda>ord. put_uint ord 8 (unat (ai_uid t)), \<lambda>ord. put_uint ord 8 (unat (ai_appid t)),
      \<lambda>_. string_bytes (ai_from t), \<lambda>_. al_Seed al (ai_key t)]"
  have "out_chain (map (monad_write buffer_write) ?encs) (MonadWriter LittleEndian) w =
      (Ok (MonadWriter LittleEndian), w @ concat (map (\<lambda>enc. enc LittleEndian) ?encs))"
    by (simp add: monad_write_buffer gbind_def gret_def)
  then show ?thesis
    using assms too_large_None [of 0 "ai_args t"]
    by (simp add: algo_encode_invoke_def args_fit_def NewMonadOutputWriter_def write_defs gbind_def encode_args_buffer
        glift_def algo_invoke_bytes_def put_u64_def)
qed

lemmas algo_reads = read_type_u8 read_length_u8 read_put_u64 ReadBytes_run ReadString_run

lemma algo_decode_transfer_bytes:
  assumes "algo_ok al" and "length (at_from t) \<le> 255" and "length (at_to t) \<le> 255"
  shows "algo_decodeTransaction al first (r\<lparr>r_input := algo_transfer_bytes al t @ rest\<rparr>) =
    (Ok (algo_newLazyTransaction (AVTransfer t)), r\<lparr>r_input := rest\<rparr>)"
proof -
  have key: "al_NewKeyFromSeed al (al_Seed al (at_key t)) = at_key t" "length (al_Seed al (at_key t)) = SeedSize"
    using assms(1) by (simp_all add: algo_ok_def)
  have "algo_decodeTransferTransaction al first (r\<lparr>r_input := of_nat (length (at_from t)) # of_nat (length (at_to t)) #
      put_u64 (at_uid t) @ put_u64 (at_amount t) @ string_bytes (at_from t) @ string_bytes (at_to t) @
      al_Seed al (at_key t) @ rest\<rparr>) = (Ok t, r\<lparr>r_input := rest\<rparr>)"
    using assms(2,3)
    by (simp add: algo_decodeTransferTransaction_def NewMonadInputReader_def gbind_def algo_reads glift_def gret_def key)
  then show ?thesis
    by (simp add: algo_decodeTransaction_def algo_transfer_bytes_def NewMonadInputReader_def gbind_def read_type_u8
        glift_def gret_def algo_type_transfer_def)
qed

lemma decode_args_bytes:
  assumes "list_all (\<lambda>arg. length arg \<le> 255) args"
  shows "decode_args (length args) (MonadReader ord) (r\<lparr>r_input := arg_bytes args @ rest\<rparr>) = (Ok args, r\<lparr>r_input := rest\<rparr>)"
  using assms by (induction args) (simp_all add: gret_run arg_bytes_def gbind_def algo_reads gret_def)

text \<open>A decoded invocation, up to the arguments, for whatever follows the header.\<close>

lemma algo_decode_invoke_header:
  assumes "algo_ok al" and "length (ai_from t) \<le> 255" and "length (ai_args t) \<le> 255"
    and "decode_args (length (ai_args t)) (MonadReader LittleEndian) (r\<lparr>r_input := tail\<rparr>) = (Ok args, r')"
  shows "algo_decodeTransaction al first (r\<lparr>r_input := algo_type_invoke # of_nat (length (ai_from t)) #
      of_nat (length (ai_args t)) # put_u64 (ai_uid t) @ put_u64 (ai_appid t) @ string_bytes (ai_from t) @
      al_Seed al (ai_key t) @ tail\<rparr>) = (Ok (algo_newLazyTransaction (AVInvoke (t\<lparr>ai_args := args\<rparr>))), r')"
proof -
  have key: "al_NewKeyFromSeed al (al_Seed al (ai_key t)) = ai_key t" "length (al_Seed al (ai_key t)) = SeedSize"
    using assms(1) by (simp_all add: algo_ok_def)
  have "algo_decodeInvokeTransaction al first (r\<lparr>r_input := of_nat (length (ai_from t)) #
      of_nat (length (ai_args t)) # put_u64 (ai_uid t) @ put_u64 (ai_appid t) @ string_bytes (ai_from t) @
      al_Seed al (ai_key t) @ tail\<rparr>) = (Ok (t\<lparr>ai_args := args\<rparr>), r')"
    using assms(2-4)
    by (simp add: algo_decodeInvokeTransaction_def NewMonadInputReader_def gbind_def algo_reads glift_def gret_def key)
  then show ?thesis
    by (simp add: algo_decodeTransaction_def NewMonadInputReader_def gbind_def read_type_u8
        glift_def gret_def algo_type_transfer_def algo_type_invoke_def)
qed

lemma algo_decode_invoke_bytes:
  assumes "algo_ok al" and "length (ai_from t) \<le> 255" and "args_fit (ai_args t)"
  shows "algo_decodeTransaction al first (r\<lparr>r_input := algo_invoke_bytes al t @ rest\<rparr>) =
    (Ok (algo_newLazyTransaction (AVInvoke t)), r\<lparr>r_input := rest\<rparr>)"
  using algo_decode_invoke_header [OF assms(1,2), where tail = "arg_bytes (ai_args t) @ rest" and args = "ai_args t" and r = r and r' = "r\<lparr>r_input := rest\<rparr>" and first = first]
    decode_args_bytes [where args = "ai_args t" and ord = LittleEndian and r = r and rest = rest] assms(3)
  by (simp add: algo_invoke_bytes_def args_fit_def)

text \<open>
  An invocation whose last argument is cut short is accepted all the same: the missing bytes are zero. The
  error of the last read is the one that \<^verbatim>\<open>decodeInvokeTransaction\<close> does not see.
\<close>

theorem truncated_invoke_accepted:
  assumes "algo_ok al" and "length (ai_from t) \<le> 255" and "ai_args t = [arg @ lost]" and "length (arg @ lost) \<le> 255"
    and "lost \<noteq> []"
  shows "\<exists>r'. algo_decodeTransaction al first
      (r\<lparr>r_input := take (length (algo_invoke_bytes al t) - length lost) (algo_invoke_bytes al t)\<rparr>) =
    (Ok (algo_newLazyTransaction (AVInvoke (t\<lparr>ai_args := [arg @ replicate (length lost) 0]\<rparr>))), r')"
proof -
  have "decode_args (length (ai_args t)) (MonadReader LittleEndian)
      (r\<lparr>r_input := of_nat (length (arg @ lost)) # arg\<rparr>) =
      (Ok [arg @ replicate (length lost) 0], r\<lparr>r_input := []\<rparr>)"
    using assms(3-5)
    by (simp add: gbind_def read_length_u8 ReadBytes_def read_full_def gret_def del: length_append of_nat_add)
      (simp add: replicate_add [symmetric] drop_append)
  note dec = algo_decode_invoke_header [OF assms(1,2) _ this, of first]
  define front where "front = algo_type_invoke # of_nat (length (ai_from t)) #
      of_nat (length (ai_args t)) # put_u64 (ai_uid t) @ put_u64 (ai_appid t) @ string_bytes (ai_from t) @
      al_Seed al (ai_key t) @ of_nat (length (arg @ lost)) # arg"
  have "algo_invoke_bytes al t = front @ lost"
    using assms(3) by (simp add: algo_invoke_bytes_def arg_bytes_def front_def)
  then have "take (length (algo_invoke_bytes al t) - length lost) (algo_invoke_bytes al t) = front" by simp
  then show ?thesis using dec assms(3) by (auto simp: front_def)
qed

end
