(* ===== verification/Algo_Builder.thy ===== *)
theory Algo_Builder
  imports Algo_Transaction
begin

text \<open>
  The builder of the Algorand driver (\<^verbatim>\<open>src/blockchains/nalgorand/builder.go\<close>, \<^verbatim>\<open>contract.go\<close> and the builder part
  of \<^verbatim>\<open>interface.go\<close>): premade and new accounts, the compilation and the deployment of contracts, the
  arguments of calls, and the numbered payloads of the interactions.
\<close>

section \<open>Contracts\<close>

record yamlSchema =
  ys_Ints :: int
  ys_Bytes :: int

record yamlSchemas =
  ys_Local :: yamlSchema
  ys_Global :: yamlSchema

record algo_yamlAccount =
  aya_Address :: string
  aya_Mnemonic :: string

text \<open>
  Files, their YAML contents, commands and helper processes. \<open>ah_Ask\<close> writes a request to a helper process and gives
  the lines the scanner can read until the process waits again or has ended; a process that hangs in the
  middle of an answer is not in the model.
\<close>

record ('f, 'p) algo_host =
  ah_Run :: "string \<Rightarrow> byte list outcome"
  ah_Open :: "string \<Rightarrow> 'f outcome"
  ah_ReadAll :: "'f \<Rightarrow> byte list outcome"
  ah_DecodeSchemas :: "'f \<Rightarrow> yamlSchemas outcome"
  ah_DecodeAccounts :: "'f \<Rightarrow> algo_yamlAccount option list outcome"
  ah_IsNotExist :: "go_error \<Rightarrow> bool"
  ah_StartServiceProcess :: "string \<Rightarrow> 'p outcome"
  ah_Ask :: "string \<Rightarrow> ('p, string list) go"

record 'p algo_application =
  aa_code :: algo_code
  aa_parser :: 'p
  aa_lines :: "string list"

definition clearContractSource :: string where
  "clearContractSource = ''#pragma version 5'' @ [CHR 10] @ ''int 1'' @ [CHR 10] @ ''return'' @ [CHR 10]"

definition relative :: "string \<Rightarrow> string" where
  "relative path = (if prefix ''/'' path then path else ''./'' @ path)"

definition getPytealSource :: "('f, 'p) algo_host \<Rightarrow> string \<Rightarrow> byte list outcome" where
  "getPytealSource host path = ah_Run host (relative path)"

definition getTealSource :: "('f, 'p) algo_host \<Rightarrow> string \<Rightarrow> byte list outcome" where
  "getTealSource host path = obind (ah_Open host path) (ah_ReadAll host)"

text \<open>The program if there is one, then the source if there is one, and otherwise \<open>fallback\<close>.\<close>

definition find_source ::
  "('f, 'p) algo_host \<Rightarrow> string \<Rightarrow> string \<Rightarrow> byte list outcome \<Rightarrow> byte list outcome" where
  "find_source host py teal fallback =
     (case getPytealSource host py of
        Ok code \<Rightarrow> Ok code
      | Panic p \<Rightarrow> Panic p
      | Err e \<Rightarrow>
          if \<not> ah_IsNotExist host e then Err e
          else
            (case getTealSource host teal of
               Ok code \<Rightarrow> Ok code
             | Panic p \<Rightarrow> Panic p
             | Err e \<Rightarrow> if \<not> ah_IsNotExist host e then Err e else fallback))"

definition getApprovalCode :: "('f, 'p) algo_host \<Rightarrow> string \<Rightarrow> string \<Rightarrow> byte list outcome" where
  "getApprovalCode host base name =
     find_source host (base @ ''/'' @ name @ ''/approval.py'') (base @ ''/'' @ name @ ''/approval.teal'')
       (Err (Errorf (''cannot find approval code for '%s' in '%s'' @ apos) [AStr name, AStr base]))"

definition getClearCode :: "('f, 'p) algo_host \<Rightarrow> string \<Rightarrow> string \<Rightarrow> byte list outcome" where
  "getClearCode host base name =
     find_source host (base @ ''/'' @ name @ ''/clear.py'') (base @ ''/'' @ name @ ''/clear.teal'')
       (Ok (string_bytes clearContractSource))"

definition compileSource :: "('k, 'a, 'tx, 'o, 'n) algo_sdk \<Rightarrow> byte list \<Rightarrow> ('n, byte list) go" where
  "compileSource al source = gbind (al_TealCompile al source) (\<lambda>result. glift (base64_DecodeString result))"

definition stateSchema :: "yamlSchema \<Rightarrow> StateSchema" where
  "stateSchema ys = \<lparr>ss_NumUint = word_of_int (ys_Ints ys), ss_NumByteSlice = word_of_int (ys_Bytes ys)\<rparr>"

definition getSchemas :: "('f, 'p) algo_host \<Rightarrow> string \<Rightarrow> string \<Rightarrow> (StateSchema \<times> StateSchema) outcome" where
  "getSchemas host base name =
     (case ah_Open host (base @ ''/'' @ name @ ''/schemas.yaml'') of
        Panic p \<Rightarrow> Panic p
      | Err e \<Rightarrow>
          if \<not> ah_IsNotExist host e then Err e
          else Ok (\<lparr>ss_NumUint = 1, ss_NumByteSlice = 1\<rparr>, \<lparr>ss_NumUint = 1, ss_NumByteSlice = 1\<rparr>)
      | Ok file \<Rightarrow>
          obind (ah_DecodeSchemas host file) (\<lambda>schemas.
          Ok (stateSchema (ys_Local schemas), stateSchema (ys_Global schemas))))"

definition algo_compile ::
  "('k, 'a, 'tx, 'o, 'n) algo_sdk \<Rightarrow> ('f, 'p) algo_host \<Rightarrow> string \<Rightarrow> string \<Rightarrow> ('n, 'p algo_application) go" where
  "algo_compile al host base name =
     gbind (glift (getApprovalCode host base name)) (\<lambda>approval.
     gbind (compileSource al approval) (\<lambda>approvalCode.
     gbind (glift (getClearCode host base name)) (\<lambda>clear.
     gbind (compileSource al clear) (\<lambda>clearCode.
     gbind (glift (getSchemas host base name)) (\<lambda>(loc, glob).
     gbind (glift (ah_StartServiceProcess host (relative (base @ ''/'' @ name @ ''/arguments'')))) (\<lambda>parser.
     gret \<lparr>aa_code = \<lparr>co_approvalCode = approvalCode, co_clearCode = clearCode, co_localSchema = loc,
             co_globalSchema = glob\<rparr>, aa_parser = parser, aa_lines = []\<rparr>))))))"

text \<open>
  The lines are read up to an empty one or to the end of the output. After an argument that cannot be decoded
  the rest of the answer stays unread.
\<close>

fun scan_args :: "string list \<Rightarrow> byte list list \<Rightarrow> byte list list outcome \<times> string list" where
  "scan_args [] args = (Ok args, [])"
| "scan_args (line # lines) args =
     (if line = [] then (Ok args, lines)
      else case base64_DecodeString line of
          Ok arg \<Rightarrow> scan_args lines (args @ [arg])
        | Err e \<Rightarrow> (Err e, lines)
        | Panic p \<Rightarrow> (Panic p, lines))"

definition algo_arguments :: "('f, 'p) algo_host \<Rightarrow> string \<Rightarrow> ('p algo_application, byte list list) go" where
  "algo_arguments host function = (\<lambda>a.
     case ah_Ask host (function @ [CHR 10]) (aa_parser a) of
       (Err e, p) \<Rightarrow> (Err e, a\<lparr>aa_parser := p\<rparr>)
     | (Panic q, p) \<Rightarrow> (Panic q, a\<lparr>aa_parser := p\<rparr>)
     | (Ok answer, p) \<Rightarrow>
         (case scan_args (aa_lines a @ answer) [] of
            (r, lines) \<Rightarrow> (r, a\<lparr>aa_parser := p, aa_lines := lines\<rparr>)))"

section \<open>The builder\<close>

record 'k algo_account =
  aac_address :: string
  aac_key :: 'k

text \<open>
  An account is never changed, so a pointer to it is its value; an application is entered once into the
  map of the applications, so a pointer to it is its name.
\<close>

record algo_contract =
  act_app :: string
  act_appid :: "64 word"

datatype 'k algo_value = AAccount "'k algo_account" | AContract algo_contract

record ('k, 'o, 'n, 'p) algo_builder =
  agb_premadeAccounts :: "'k algo_account list"
  agb_usedAccounts :: nat
  agb_compilers :: "string list"
  agb_applications :: "(string, 'p algo_application) gomap"
  agb_chain :: "('o, 'n) algo_state"
  agb_lastRound :: "64 word"
  agb_submitMaxTry :: nat
  agb_nextTxuid :: "64 word"

definition algo_newBuilder :: "'n \<Rightarrow> ('k, 'o, 'n, 'p) algo_builder" where
  "algo_newBuilder node = \<lparr>agb_premadeAccounts = [], agb_usedAccounts = 0, agb_compilers = [], agb_applications = [],
     agb_chain = \<lparr>ag_node = node, ag_provider = AlgoLazy None\<rparr>, agb_lastRound = 0, agb_submitMaxTry = 100,
     agb_nextTxuid = 0\<rparr>"

definition algo_addAccount :: "string \<Rightarrow> 'k \<Rightarrow> ('k, 'o, 'n, 'p) algo_builder \<Rightarrow> ('k, 'o, 'n, 'p) algo_builder" where
  "algo_addAccount address key b =
     b\<lparr>agb_premadeAccounts := agb_premadeAccounts b @ [\<lparr>aac_address = address, aac_key = key\<rparr>]\<rparr>"

definition algo_addCompiler :: "string \<Rightarrow> ('k, 'o, 'n, 'p) algo_builder \<Rightarrow> ('k, 'o, 'n, 'p) algo_builder" where
  "algo_addCompiler path b = b\<lparr>agb_compilers := agb_compilers b @ [path]\<rparr>"

definition agb_on_chain :: "(('o, 'n) algo_state, 'c) go \<Rightarrow> (('k, 'o, 'n, 'p) algo_builder, 'c) go" where
  "agb_on_chain m = gzoom agb_chain (\<lambda>c b. b\<lparr>agb_chain := c\<rparr>) m"

definition agb_on_node :: "('n, 'c) go \<Rightarrow> (('k, 'o, 'n, 'p) algo_builder, 'c) go" where
  "agb_on_node m = agb_on_chain (algo_on_node m)"

definition algo_getBuilderAccount :: "(('k, 'o, 'n, 'p) algo_builder, 'k algo_account) go" where
  "algo_getBuilderAccount = (\<lambda>b.
     (if length (agb_premadeAccounts b) > 0 then Ok (agb_premadeAccounts b ! 0)
      else Err (Errorf ''no available premade accounts'' []), b))"

fun algo_first_compiled ::
  "('k, 'a, 'tx, 'o, 'n) algo_sdk \<Rightarrow> ('f, 'p) algo_host \<Rightarrow> string list \<Rightarrow> string
     \<Rightarrow> ('n, 'p algo_application option) go" where
  "algo_first_compiled al host [] name = gret None"
| "algo_first_compiled al host (c # cs) name = (\<lambda>node.
     case algo_compile al host c name node of
       (Ok appli, node') \<Rightarrow> (Ok (Some appli), node')
     | (Err _, node') \<Rightarrow> algo_first_compiled al host cs name node'
     | (Panic p, node') \<Rightarrow> (Panic p, node'))"

definition algo_getApplication ::
  "('k, 'a, 'tx, 'o, 'n) algo_sdk \<Rightarrow> ('f, 'p) algo_host \<Rightarrow> string
     \<Rightarrow> (('k, 'o, 'n, 'p) algo_builder, algo_code) go" where
  "algo_getApplication al host name =
     gbind (gread (\<lambda>b. gomap_get (agb_applications b) name)) (\<lambda>found.
     case found of
       Some appli \<Rightarrow> gret (aa_code appli)
     | None \<Rightarrow>
         gbind (gread agb_compilers) (\<lambda>compilers.
         gbind (agb_on_node (algo_first_compiled al host compilers name)) (\<lambda>appli.
         case appli of
           None \<Rightarrow> gerr (Errorf (''failed to compile contract '%s'' @ apos) [AStr name])
         | Some appli \<Rightarrow>
             gbind (gmodify (\<lambda>b. b\<lparr>agb_applications := gomap_set name appli (agb_applications b)\<rparr>)) (\<lambda>_.
             gret (aa_code appli)))))"

text \<open>The raw transaction of a transaction the builder sends itself, which it then forgets.\<close>

definition agb_getRaw ::
  "('k, 'tx, 'o, 'n) algo_getRaw_op \<Rightarrow> (('k, 'o, 'n, 'p) algo_builder, byte list) go" where
  "agb_getRaw m = agb_on_chain (\<lambda>s. case m s of ((_, r), s') \<Rightarrow> (r, s'))"

text \<open>The loop of \<^verbatim>\<open>submitTransaction\<close>, with the number of tries that are left.\<close>

fun observe_loop ::
  "('k, 'a, 'tx, 'o, 'n) algo_sdk \<Rightarrow> string \<Rightarrow> nat \<Rightarrow> (('k, 'o, 'n, 'p) algo_builder, PendingTransactionInfo) go" where
  "observe_loop al txid 0 = gerr (Errorf ''failed to deploy: too slow'' [])"
| "observe_loop al txid (Suc n) =
     gbind (agb_on_node (al_PendingTransactionInformation al txid)) (\<lambda>info.
     if pi_PoolError info \<noteq> [] then gerr (Errorf ''failed to deploy: %s'' [AStr (pi_PoolError info)])
     else if pi_ConfirmedRound info > 0 then gret info
     else
       gbind (gread agb_lastRound) (\<lambda>lastRound.
       gbind (agb_on_node (al_StatusAfterBlock al lastRound)) (\<lambda>status.
       gbind (gmodify (\<lambda>b. b\<lparr>agb_lastRound := status\<rparr>)) (\<lambda>_.
       observe_loop al txid n))))"

definition algo_submitTransaction ::
  "('k, 'a, 'tx, 'o, 'n) algo_sdk \<Rightarrow> byte list \<Rightarrow> (('k, 'o, 'n, 'p) algo_builder, PendingTransactionInfo) go" where
  "algo_submitTransaction al raw =
     gbind (agb_on_node (al_SendRawTransaction al raw)) (\<lambda>txid.
     gbind (gread agb_lastRound) (\<lambda>lastRound.
     gbind (if lastRound = 0
            then gbind (agb_on_node (al_Status al)) (\<lambda>status. gmodify (\<lambda>b. b\<lparr>agb_lastRound := status\<rparr>))
            else gret ()) (\<lambda>_.
     gbind (gread agb_submitMaxTry) (\<lambda>tries.
     observe_loop al txid tries))))"

definition agb_next :: "(('k, 'o, 'n, 'p) algo_builder, unit) go" where
  "agb_next = gmodify (\<lambda>b. b\<lparr>agb_nextTxuid := agb_nextTxuid b + 1\<rparr>)"

definition algo_CreateAccount ::
  "('k, 'a, 'tx, 'o, 'n) algo_sdk \<Rightarrow> int \<Rightarrow> (('k, 'o, 'n, 'p) algo_builder, 'k algo_value) go" where
  "algo_CreateAccount al stake = (\<lambda>b.
     if agb_usedAccounts b < length (agb_premadeAccounts b)
     then (Ok (AAccount (agb_premadeAccounts b ! agb_usedAccounts b)), b\<lparr>agb_usedAccounts := agb_usedAccounts b + 1\<rparr>)
     else
       gbind (agb_on_node (al_GenerateAccount al)) (\<lambda>(address, key).
       gbind algo_getBuilderAccount (\<lambda>from.
       gbind (gread agb_nextTxuid) (\<lambda>uid.
       gbind (agb_getRaw (algo_transfer_getRaw al \<lparr>at_uid = uid, at_amount = al_ToMicroAlgos al 1000000,
           at_from = aac_address from, at_to = address, at_key = aac_key from\<rparr>)) (\<lambda>raw.
       gbind (algo_submitTransaction al raw) (\<lambda>_.
       gbind agb_next (\<lambda>_.
       gret (AAccount \<lparr>aac_address = address, aac_key = key\<rparr>))))))) b)"

definition algo_CreateContract ::
  "('k, 'a, 'tx, 'o, 'n) algo_sdk \<Rightarrow> ('f, 'p) algo_host \<Rightarrow> string \<Rightarrow> (('k, 'o, 'n, 'p) algo_builder, 'k algo_value) go" where
  "algo_CreateContract al host name =
     gbind algo_getBuilderAccount (\<lambda>from.
     gbind (algo_getApplication al host name) (\<lambda>code.
     gbind (gread agb_nextTxuid) (\<lambda>uid.
     gbind (agb_getRaw (algo_deploy_getRaw al \<lparr>ad_uid = uid, ad_appli = code, ad_from = aac_address from,
         ad_key = aac_key from\<rparr>)) (\<lambda>raw.
     gbind (algo_submitTransaction al raw) (\<lambda>info.
     gbind agb_next (\<lambda>_.
     gret (AContract \<lparr>act_app = name, act_appid = pi_ApplicationIndex info\<rparr>)))))))"

definition algo_CreateResource :: "string \<Rightarrow> 'z option" where
  "algo_CreateResource domain = None"

text \<open>The type assertions \<^verbatim>\<open>.(*account)\<close> and \<^verbatim>\<open>.(*contract)\<close>.\<close>

fun algo_as_account :: "'k algo_value bvalue \<Rightarrow> 'k algo_account outcome" where
  "algo_as_account (GRes (ROpaque (AAccount a))) = Ok a"
| "algo_as_account _ = Panic ''interface conversion''"

fun algo_as_contract :: "'k algo_value bvalue \<Rightarrow> algo_contract outcome" where
  "algo_as_contract (GRes (ROpaque (AContract c))) = Ok c"
| "algo_as_contract _ = Panic ''interface conversion''"

definition algo_EncodeTransfer ::
  "('k, 'a, 'tx, 'o, 'n) algo_sdk \<Rightarrow> int \<Rightarrow> 'k algo_value bvalue \<Rightarrow> 'k algo_value bvalue \<Rightarrow> interactionInformation
     \<Rightarrow> (('k, 'o, 'n, 'p) algo_builder, byte list) go" where
  "algo_EncodeTransfer al amount from to info =
     gbind (glift (algo_as_account from)) (\<lambda>f.
     gbind (glift (algo_as_account to)) (\<lambda>t.
     gbind (gread agb_nextTxuid) (\<lambda>uid.
     gbind (to_buffer (algo_encode_transfer al buffer_write 0x11
         \<lparr>at_uid = uid, at_amount = word_of_int amount, at_from = aac_address f, at_to = aac_address t,
          at_key = aac_key f\<rparr>)) (\<lambda>bytes.
     gbind agb_next (\<lambda>_.
     gret bytes)))))"

text \<open>The arguments of a call, by the process of the contract's application.\<close>

definition agb_arguments ::
  "('f, 'p) algo_host \<Rightarrow> string \<Rightarrow> string \<Rightarrow> (('k, 'o, 'n, 'p) algo_builder, byte list list) go" where
  "agb_arguments host name function = (\<lambda>b.
     case gomap_get (agb_applications b) name of
       None \<Rightarrow> (Panic ''nil pointer dereference'', b)
     | Some appli \<Rightarrow>
         (case algo_arguments host function appli of
            (r, appli') \<Rightarrow> (r, b\<lparr>agb_applications := gomap_set name appli' (agb_applications b)\<rparr>)))"

definition algo_EncodeInvoke ::
  "('k, 'a, 'tx, 'o, 'n) algo_sdk \<Rightarrow> ('f, 'p) algo_host \<Rightarrow> 'k algo_value bvalue \<Rightarrow> 'k algo_value bvalue \<Rightarrow> string
     \<Rightarrow> interactionInformation \<Rightarrow> (('k, 'o, 'n, 'p) algo_builder, byte list) go" where
  "algo_EncodeInvoke al host from to function info =
     gbind (glift (algo_as_contract to)) (\<lambda>cont.
     gbind (agb_arguments host (act_app cont) function) (\<lambda>args.
     gbind (glift (algo_as_account from)) (\<lambda>f.
     gbind (gread agb_nextTxuid) (\<lambda>uid.
     gbind (to_buffer (algo_encode_invoke al buffer_write 0x11
         \<lparr>ai_uid = uid, ai_appid = act_appid cont, ai_args = args, ai_from = aac_address f, ai_key = aac_key f\<rparr>)) (\<lambda>bytes.
     gbind agb_next (\<lambda>_.
     gret bytes))))))"

definition algo_EncodeInteraction :: "string \<Rightarrow> bexpr \<Rightarrow> interactionInformation \<Rightarrow> ('w, byte list) go" where
  "algo_EncodeInteraction itype e info = gerr (Errorf (''unknown interaction type '%s'' @ apos) [AStr itype])"

section \<open>The environment of the builder\<close>

definition algo_add_yamlAccount ::
  "('k, 'a, 'tx, 'o, 'n) algo_sdk \<Rightarrow> algo_yamlAccount option \<Rightarrow> (('k, 'o, 'n, 'p) algo_builder, unit) go" where
  "algo_add_yamlAccount al entry =
     (case entry of
        None \<Rightarrow> gpanic ''nil pointer dereference''
      | Some acc \<Rightarrow>
          gbind (glift (al_ToPrivateKey al (aya_Mnemonic acc))) (\<lambda>key. gmodify (algo_addAccount (aya_Address acc) key)))"

definition algo_addPremadeAccounts ::
  "('k, 'a, 'tx, 'o, 'n) algo_sdk \<Rightarrow> ('f, 'p) algo_host \<Rightarrow> string \<Rightarrow> (('k, 'o, 'n, 'p) algo_builder, unit) go" where
  "algo_addPremadeAccounts al host path =
     gbind (glift (obind (ah_Open host path) (ah_DecodeAccounts host))) (\<lambda>accounts.
     gfor accounts (algo_add_yamlAccount al))"

definition algo_apply_env ::
  "('k, 'a, 'tx, 'o, 'n) algo_sdk \<Rightarrow> ('f, 'p) algo_host \<Rightarrow> string \<times> string list
     \<Rightarrow> (('k, 'o, 'n, 'p) algo_builder, unit) go" where
  "algo_apply_env al host = (\<lambda>(key, values).
     if key = ''accounts'' then gfor values (algo_addPremadeAccounts al host)
     else if key = ''contracts'' then gfor values (\<lambda>path. gmodify (algo_addCompiler path))
     else gerr (Errorf (''unknown environment key '%s'' @ apos) [AStr key]))"

text \<open>
  \<^verbatim>\<open>Builder\<close>; \<open>keys\<close> are the endpoints in the order of the first loop, of which only the first counts, and \<open>it\<close> gives
  the order in which the second loop goes through the environment. \<^verbatim>\<open>parseEnvmap\<close> is the same code as in the
  Ethereum driver.
\<close>

definition algo_Builder ::
  "('k, 'a, 'tx, 'o, 'n) algo_sdk \<Rightarrow> ('f, 'p) algo_host \<Rightarrow> (string \<Rightarrow> 'n outcome) \<Rightarrow> string list
     \<Rightarrow> ((string, string list) gomap \<Rightarrow> (string \<times> string list) list) \<Rightarrow> string list
     \<Rightarrow> ('k, 'o, 'n, 'p) algo_builder outcome" where
  "algo_Builder al host MakeClient keys it env =
     obind (parseEnvmap env) (\<lambda>envmap.
     let endpoint = (case keys of [] \<Rightarrow> [] | key # _ \<Rightarrow> key) in
     obind (MakeClient (''http://'' @ endpoint)) (\<lambda>node.
     case gfor (it envmap) (algo_apply_env al host) (algo_newBuilder node) of
       (r, b) \<Rightarrow> obind r (\<lambda>_. Ok b)))"

section \<open>The builder interface\<close>

definition algo_env ::
  "('k, 'a, 'tx, 'o, 'n) algo_sdk \<Rightarrow> ('f, 'p) algo_host
     \<Rightarrow> ('g, ('k, 'o, 'n, 'p) algo_builder, 'k algo_value, 'x) env
     \<Rightarrow> ('g, ('k, 'o, 'n, 'p) algo_builder, 'k algo_value, 'x) env" where
  "algo_env al host env = env\<lparr>env_CreateAccount := algo_CreateAccount al,
     env_CreateContract := algo_CreateContract al host, env_CreateResource := algo_CreateResource,
     env_EncodeTransfer := algo_EncodeTransfer al, env_EncodeInvoke := algo_EncodeInvoke al host,
     env_EncodeInteraction := algo_EncodeInteraction\<rparr>"

interpretation algo: blockchain_builder "algo_env al host env" for al host env
  by unfold_locales (auto simp: algo_env_def algo_CreateResource_def algo_EncodeInteraction_def keeps_gerr)

end
