(* ===== verification/Algo_Client.thy ===== *)
theory Algo_Client
  imports Algo_Builder Poll_Confirm
begin

text \<open>
  The client of the Algorand driver (\<^verbatim>\<open>src/blockchains/nalgorand/client.go\<close> and the client part of
  \<^verbatim>\<open>interface.go\<close>): how it is created, how it decodes and prepares payloads, and its two confirmers. One
  asks the node for each transaction; the other is the confirmer of \<open>Poll_Confirm\<close>, whose keys are the numbers of
  the transactions, with its own loop over the rounds.
\<close>

section \<open>Preparation\<close>

datatype algo_preparer = AlgoNothing | AlgoSignature

text \<open>A transaction is a pointer: what becomes of it in a call is given back.\<close>

definition algo_tx_getRaw ::
  "('k, 'a, 'tx, 'o, 'n) algo_sdk \<Rightarrow> ('k, 'tx) algo_lazy \<Rightarrow> (('o, 'n) algo_state, byte list \<times> ('k, 'tx) algo_lazy) go" where
  "algo_tx_getRaw al lt = (\<lambda>s.
     case algo_lazy_getRaw al lt s of (r, lt', s') \<Rightarrow> (obind r (\<lambda>raw. Ok (raw, lt')), s'))"

fun algo_prepare ::
  "('k, 'a, 'tx, 'o, 'n) algo_sdk \<Rightarrow> algo_preparer \<Rightarrow> ('k, 'tx) algo_lazy \<Rightarrow> (('o, 'n) algo_state, ('k, 'tx) algo_lazy) go" where
  "algo_prepare al AlgoNothing tx = gret tx"
| "algo_prepare al AlgoSignature tx =
     gbind (algo_tx_getRaw al (snd (algo_lazy_getUid tx))) (\<lambda>(_, tx). gret tx)"

definition algo_DecodePayload ::
  "('k, 'a, 'tx, 'o, 'n) algo_sdk \<Rightarrow> algo_preparer \<Rightarrow> byte list \<Rightarrow> (('o, 'n) algo_state, ('k, 'tx) algo_lazy) go" where
  "algo_DecodePayload al preparer encoded =
     gbind (glift (fst (algo_decodeTransaction al 0x11 \<lparr>r_input = encoded, r_err = EOF\<rparr>))) (\<lambda>tx.
     algo_prepare al preparer (snd (algo_lazy_getUid tx)))"

section \<open>Creation\<close>

datatype algo_confirmer = AlgoPolltx | AlgoPollblk

definition algo_parseConfirm :: "string \<Rightarrow> algo_confirmer outcome" where
  "algo_parseConfirm mode =
     (if mode = ''polltx'' then Ok AlgoPolltx
      else if mode = ''pollblk'' then Ok AlgoPollblk
      else Err (Errorf (''unknown confirm method '%s'' @ apos) [AStr mode]))"

definition algo_parsePrepare ::
  "('k, 'a, 'tx, 'o, 'n) algo_sdk \<Rightarrow> string \<Rightarrow> ('n, 'o algo_provider \<times> algo_preparer) go" where
  "algo_parsePrepare al mode =
     (if mode = ''nothing'' then gret (AlgoDirect, AlgoNothing)
      else if mode = ''params'' then
        gbind (algo_makeStaticParameterProvider al) (\<lambda>provider. gret (provider, AlgoNothing))
      else if mode = ''signature'' then
        gbind (algo_makeStaticParameterProvider al) (\<lambda>provider. gret (provider, AlgoSignature))
      else gerr (Errorf (''unknown prepare method '%s'' @ apos) [AStr mode]))"

text \<open>What the loop over the parameters has chosen so far; the parameters are in the order of the loop.\<close>

type_synonym 'o algo_choice = "algo_confirmer option \<times> ('o algo_provider \<times> algo_preparer) option"

fun algo_parse_params ::
  "('k, 'a, 'tx, 'o, 'n) algo_sdk \<Rightarrow> (string \<times> string) list \<Rightarrow> 'o algo_choice \<Rightarrow> ('n, 'o algo_choice) go" where
  "algo_parse_params al [] chosen = gret chosen"
| "algo_parse_params al ((key, val) # params) (confirmer, prep) =
     (if key = ''confirm''
      then gbind (glift (algo_parseConfirm val)) (\<lambda>c. algo_parse_params al params (Some c, prep))
      else if key = ''prepare''
      then gbind (algo_parsePrepare al val) (\<lambda>pp. algo_parse_params al params (confirmer, Some pp))
      else gerr (Errorf (''unknown parameter '%s'' @ apos) [AStr key]))"

text \<open>\<^verbatim>\<open>Client\<close> gives the state behind the client, its preparer and its confirmer.\<close>

definition algo_Client ::
  "('k, 'a, 'tx, 'o, 'n) algo_sdk \<Rightarrow> (string \<Rightarrow> 'n outcome) \<Rightarrow> (string \<times> string) list \<Rightarrow> string list
     \<Rightarrow> (('o, 'n) algo_state \<times> algo_preparer \<times> algo_confirmer) outcome" where
  "algo_Client al MakeClient params view =
     (case view of
        [] \<Rightarrow> Panic ''index out of range''
      | endpoint # _ \<Rightarrow>
          obind (MakeClient (''http://'' @ endpoint)) (\<lambda>node.
          case gbind (algo_parse_params al params (None, None)) (\<lambda>(confirmer, prep).
              gbind (case prep of
                  Some pp \<Rightarrow> gret pp
                | None \<Rightarrow> gbind (algo_makeStaticParameterProvider al) (\<lambda>provider. gret (provider, AlgoSignature))) (\<lambda>(provider, preparer).
              gret (provider, preparer, case confirmer of Some c \<Rightarrow> c | None \<Rightarrow> AlgoPolltx))) node of
            (r, node) \<Rightarrow> obind r (\<lambda>(provider, preparer, confirmer).
              Ok (\<lparr>ag_node = node, ag_provider = provider\<rparr>, preparer, confirmer))))"

section \<open>Asking for each transaction\<close>

text \<open>\<^verbatim>\<open>waitNextRound\<close> gives the new value of the round.\<close>

definition algo_waitNextRound :: "('k, 'a, 'tx, 'o, 'n) algo_sdk \<Rightarrow> 64 word \<Rightarrow> ('n, 64 word) go" where
  "algo_waitNextRound al round =
     gbind (if round = 0 then gbind (al_Status al) (\<lambda>lastRound. gret (lastRound + 1)) else gret (round + 1)) (\<lambda>round.
     gbind (al_StatusAfterBlock al round) (\<lambda>_.
     gret round))"

text \<open>
  The loop of \<^verbatim>\<open>confirm\<close>; it may run for ever. Its result is what it has reported and what it returns.
\<close>

type_synonym 's reporting = "(report list \<times> unit outcome) \<times> 's"

partial_function (option) algo_polltx ::
  "('k, 'a, 'tx, 'o, 'n) algo_sdk \<Rightarrow> string \<Rightarrow> 64 word \<Rightarrow> 'n \<Rightarrow> 'n reporting option" where
  "algo_polltx al txid round node =
     (case al_PendingTransactionInformation al txid node of
        (Err e, node) \<Rightarrow> Some (([], Err e), node)
      | (Panic p, node) \<Rightarrow> Some (([], Panic p), node)
      | (Ok info, node) \<Rightarrow>
          if pi_PoolError info \<noteq> [] then Some (([RepAbort], Ok ()), node)
          else if pi_ConfirmedRound info > 0 then Some (([RepCommit], Ok ()), node)
          else
            (case algo_waitNextRound al round node of
               (Err e, node) \<Rightarrow> Some (([], Err e), node)
             | (Panic p, node) \<Rightarrow> Some (([], Panic p), node)
             | (Ok round, node) \<Rightarrow> algo_polltx al txid round node))"

text \<open>An error of the node: whether it is a \<^verbatim>\<open>BadRequest\<close> of the library, its text, and the error.\<close>

definition in_ledger :: "(go_error \<Rightarrow> string option) \<Rightarrow> go_error \<Rightarrow> bool" where
  "in_ledger bad_request e \<longleftrightarrow>
     (case bad_request e of None \<Rightarrow> False | Some text \<Rightarrow> sublist ''transaction already in ledger'' text)"

text \<open>
  The part of \<^verbatim>\<open>TriggerInteraction\<close> before \<^verbatim>\<open>confirm\<close>, from what \<^verbatim>\<open>getRaw\<close> and, after a raw transaction,
  \<^verbatim>\<open>SendRawTransaction\<close> have returned. \<open>bad_request\<close> gives the text of an error that is a
  \<^verbatim>\<open>BadRequest\<close> of the library.
\<close>

fun algo_react :: "(go_error \<Rightarrow> string option) \<Rightarrow> go_error option \<times> go_error option \<Rightarrow> trigger_outcome" where
  "algo_react bad_request (Some e, sent) = TrigFailed e"
| "algo_react bad_request (None, None) = TrigSent"
| "algo_react bad_request (None, Some e) = (if in_ledger bad_request e then TrigKnown else TrigRefused e)"

text \<open>\<^verbatim>\<open>TriggerInteraction\<close> as a whole, with the first confirmer.\<close>

definition algo_TriggerInteraction ::
  "('k, 'a, 'tx, 'o, 'n) algo_sdk \<Rightarrow> (go_error \<Rightarrow> string option) \<Rightarrow> ('k, 'tx) algo_lazy \<Rightarrow> ('o, 'n) algo_state
     \<Rightarrow> (('o, 'n) algo_state) reporting option" where
  "algo_TriggerInteraction al bad_request tx s =
     (case algo_tx_getRaw al (snd (algo_lazy_getUid tx)) s of
        (Err e, s) \<Rightarrow> Some (([], Err e), s)
      | (Panic p, s) \<Rightarrow> Some (([], Panic p), s)
      | (Ok (raw, _), s) \<Rightarrow>
          (case algo_on_node (al_SendRawTransaction al raw) s of
             (Panic p, s) \<Rightarrow> Some (([RepSubmit], Panic p), s)
           | (Err e, s) \<Rightarrow>
               Some (if in_ledger bad_request e then ([RepSubmit, RepCommit], Ok ()) else ([RepSubmit, RepAbort], Err e), s)
           | (Ok txid, s) \<Rightarrow>
               map_option (\<lambda>((reports, r), node). ((RepSubmit # reports, r), s\<lparr>ag_node := node\<rparr>))
                 (algo_polltx al txid 0 (ag_node s))))"

section \<open>Polling blocks\<close>

definition algo_plan :: "nat list \<Rightarrow> poll_action list" where
  "algo_plan = reports_first RepCommit None"

interpretation algo_poll: commit_plan algo_plan
  unfolding algo_plan_def by (rule reports_first_plan.commit_plan_axioms)

definition algo_parseBlock :: "64 word list \<Rightarrow> byte list list \<Rightarrow> 64 word list" where
  "algo_parseBlock dest block = dest @ List.map_filter noteToUid block"

text \<open>
  The inner loop of \<^verbatim>\<open>run\<close>, up to the last round: a block that cannot be had is asked for again, unless
  the context is done, so it may run for ever. It gives the numbers and the next round, or the error that ends
  the goroutine.
\<close>

partial_function (option) algo_rounds ::
  "('k, 'a, 'tx, 'o, 'n) algo_sdk \<Rightarrow> 64 word \<Rightarrow> 64 word \<Rightarrow> 64 word list \<Rightarrow> 'n
     \<Rightarrow> ((64 word list \<times> 64 word) outcome \<times> 'n) option" where
  "algo_rounds al lastRound round uids node =
     (if \<not> round < lastRound then Some (Ok (uids, round), node)
      else case al_Block al round node of
          (Panic p, node) \<Rightarrow> Some (Panic p, node)
        | (Err e, node) \<Rightarrow> if al_CtxErr al node then Some (Err e, node) else algo_rounds al lastRound round uids node
        | (Ok block, node) \<Rightarrow> algo_rounds al lastRound (round + 1) (algo_parseBlock uids block) node)"

text \<open>The start of \<^verbatim>\<open>run\<close> and an iteration of its outer loop, up to the numbers that are reported.\<close>

definition algo_first_round :: "('k, 'a, 'tx, 'o, 'n) algo_sdk \<Rightarrow> ('n, 64 word) go" where
  "algo_first_round al = gbind (al_Status al) (\<lambda>lastRound. gret (lastRound + 1))"

definition algo_poll_once ::
  "('k, 'a, 'tx, 'o, 'n) algo_sdk \<Rightarrow> 64 word \<Rightarrow> 'n \<Rightarrow> ((64 word list \<times> 64 word) outcome \<times> 'n) option" where
  "algo_poll_once al round node =
     (case al_StatusAfterBlock al round node of
        (Err e, node) \<Rightarrow> Some (Err e, node)
      | (Panic p, node) \<Rightarrow> Some (Panic p, node)
      | (Ok lastRound, node) \<Rightarrow> algo_rounds al lastRound round [] node)"

section \<open>From the builder to the signed transaction\<close>

datatype 'k algo_request =
    AReqTransfer int "'k algo_account" "'k algo_account"
  | AReqInvoke "'k algo_account" algo_contract string

fun algo_sender :: "'k algo_request \<Rightarrow> 'k algo_account" where
  "algo_sender (AReqTransfer amount f t) = f"
| "algo_sender (AReqInvoke f c fn) = f"

fun algo_encode_request ::
  "('k, 'a, 'tx, 'o, 'n) algo_sdk \<Rightarrow> ('f, 'p) algo_host \<Rightarrow> interactionInformation \<Rightarrow> 'k algo_request
     \<Rightarrow> (('k, 'o, 'n, 'p) algo_builder, byte list) go" where
  "algo_encode_request al host info (AReqTransfer amount f t) =
     algo_EncodeTransfer al amount (GRes (ROpaque (AAccount f))) (GRes (ROpaque (AAccount t))) info"
| "algo_encode_request al host info (AReqInvoke f c fn) =
     algo_EncodeInvoke al host (GRes (ROpaque (AAccount f))) (GRes (ROpaque (AContract c))) fn info"

text \<open>The transaction that is asked for, with its number.\<close>

fun algo_request_tx ::
  "('k, 'a, 'tx, 'o, 'n) algo_sdk \<Rightarrow> ('f, 'p) algo_host \<Rightarrow> ('k, 'o, 'n, 'p) algo_builder \<Rightarrow> 'k algo_request \<Rightarrow> 64 word
     \<Rightarrow> 'o SuggestedParams \<Rightarrow> 'tx outcome" where
  "algo_request_tx al host b (AReqTransfer amount f t) uid params =
     al_MakePaymentTxn al (aac_address f) (aac_address t) (word_of_int amount) (uidToNote uid)
       (params\<lparr>sp_Fee := al_MinTxnFee al, sp_FlatFee := True\<rparr>)"
| "algo_request_tx al host b (AReqInvoke f c fn) uid params =
     obind (fst (agb_arguments host (act_app c) fn b)) (\<lambda>args.
     obind (al_DecodeAddress al (aac_address f)) (\<lambda>addr.
     al_MakeApplicationNoOpTx al (act_appid c) args params addr (uidToNote uid)))"

lemma agb_arguments_next: "agb_arguments host name fn b = (r, b') \<Longrightarrow> agb_nextTxuid b' = agb_nextTxuid b"
  by (auto simp: agb_arguments_def split: option.splits prod.splits)

lemma algo_EncodeTransfer_Ok:
  assumes "algo_EncodeTransfer al amount (GRes (ROpaque (AAccount f))) (GRes (ROpaque (AAccount t))) info b = (Ok payload, b')"
  shows "length (aac_address f) \<le> 255 \<and> length (aac_address t) \<le> 255 \<and> b' = b\<lparr>agb_nextTxuid := agb_nextTxuid b + 1\<rparr> \<and>
    payload = algo_transfer_bytes al \<lparr>at_uid = agb_nextTxuid b, at_amount = word_of_int amount, at_from = aac_address f,
      at_to = aac_address t, at_key = aac_key f\<rparr>"
proof -
  let ?t = "\<lparr>at_uid = agb_nextTxuid b, at_amount = word_of_int amount, at_from = aac_address f,
      at_to = aac_address t, at_key = aac_key f\<rparr>"
  from assms have enc: "to_buffer (algo_encode_transfer al buffer_write 0x11 ?t) b = (Ok payload, b)"
    and b': "b' = b\<lparr>agb_nextTxuid := agb_nextTxuid b + 1\<rparr>"
    unfolding algo_EncodeTransfer_def algo_as_account.simps
    by (auto elim!: gbind_OkE simp: glift_run gread_run gret_run agb_next_def gmodify_run to_buffer_def)
  have len: "length (aac_address f) \<le> 255" "length (aac_address t) \<le> 255"
    using enc by (auto simp: to_buffer_def algo_encode_transfer_def gerr_run glift_run obind_def split: if_splits)
  then have "payload = algo_transfer_bytes al ?t"
    using enc algo_encode_transfer_buffer [of ?t al "0x11" "[]"] by (simp add: to_buffer_def glift_run obind_def)
  with b' len show ?thesis by simp
qed

lemma algo_EncodeInvoke_Ok:
  assumes "algo_EncodeInvoke al host (GRes (ROpaque (AAccount f))) (GRes (ROpaque (AContract c))) fn info b = (Ok payload, b')"
  obtains args b1 where "agb_arguments host (act_app c) fn b = (Ok args, b1)" "args_fit args"
    "b' = b1\<lparr>agb_nextTxuid := agb_nextTxuid b1 + 1\<rparr>"
    "payload = algo_invoke_bytes al \<lparr>ai_uid = agb_nextTxuid b1, ai_appid = act_appid c, ai_args = args,
      ai_from = aac_address f, ai_key = aac_key f\<rparr>"
proof -
  from assms obtain args b1 where args: "agb_arguments host (act_app c) fn b = (Ok args, b1)"
    and enc: "to_buffer (algo_encode_invoke al buffer_write 0x11 \<lparr>ai_uid = agb_nextTxuid b1, ai_appid = act_appid c,
      ai_args = args, ai_from = aac_address f, ai_key = aac_key f\<rparr>) b1 = (Ok payload, b1)"
    and b': "b' = b1\<lparr>agb_nextTxuid := agb_nextTxuid b1 + 1\<rparr>"
    unfolding algo_EncodeInvoke_def algo_as_account.simps algo_as_contract.simps
    by (auto elim!: gbind_OkE simp: glift_run gread_run gret_run agb_next_def gmodify_run to_buffer_def)
  let ?t = "\<lparr>ai_uid = agb_nextTxuid b1, ai_appid = act_appid c, ai_args = args, ai_from = aac_address f, ai_key = aac_key f\<rparr>"
  have fit: "args_fit args"
    using enc too_large_None [of 0 args]
    by (auto simp: to_buffer_def algo_encode_invoke_def gerr_run glift_run obind_def args_fit_def split: if_splits option.splits)
  then have "payload = algo_invoke_bytes al ?t"
    using enc algo_encode_invoke_buffer [of ?t al "0x11" "[]"] by (simp add: to_buffer_def glift_run obind_def)
  with args fit b' show ?thesis by (rule that)
qed

lemma algo_encode_next: "algo_encode_request al host info req b = (Ok payload, b') \<Longrightarrow> agb_nextTxuid b' = agb_nextTxuid b + 1"
  by (cases req) (auto dest!: algo_EncodeTransfer_Ok elim!: algo_EncodeInvoke_Ok simp: agb_arguments_next)

lemma algo_encode_all_next:
  "gmap (algo_encode_request al host info) reqs b = (Ok payloads, b') \<Longrightarrow>
   agb_nextTxuid b' = agb_nextTxuid b + of_nat (length reqs)"
proof (induction reqs arbitrary: b payloads)
  case Nil
  then show ?case by (simp add: gret_run)
next
  case (Cons req reqs)
  then obtain payload b1 payloads' where "algo_encode_request al host info req b = (Ok payload, b1)"
    "gmap (algo_encode_request al host info) reqs b1 = (Ok payloads', b')"
    by (auto elim!: gbind_OkE simp: gret_run)
  then show ?case using Cons.IH algo_encode_next by fastforce
qed

lemma algo_decode_request:
  assumes "algo_ok al" and "algo_encode_request al host info req b = (Ok payload, b')"
    and "length (aac_address (algo_sender req)) \<le> 255"
  obtains v mk where "fst (algo_decodeTransaction al 0x11 \<lparr>r_input = payload, r_err = EOF\<rparr>) = Ok (algo_newLazyTransaction v)"
    "\<And>s. algo_virtual_getRaw al v s = algo_build al v (aac_key (algo_sender req)) mk s"
    "\<And>params. algo_request_tx al host b req (agb_nextTxuid b) params = mk params" "algo_getUid v = agb_nextTxuid b"
proof (cases req)
  case (AReqTransfer amount f t)
  let ?t = "\<lparr>at_uid = agb_nextTxuid b, at_amount = word_of_int amount, at_from = aac_address f,
      at_to = aac_address t, at_key = aac_key f\<rparr>"
  have "length (at_from ?t) \<le> 255" "length (at_to ?t) \<le> 255" "payload = algo_transfer_bytes al ?t"
    using algo_EncodeTransfer_Ok [OF assms(2) [unfolded AReqTransfer algo_encode_request.simps]] by simp_all
  then have "fst (algo_decodeTransaction al 0x11 \<lparr>r_input = payload, r_err = EOF\<rparr>) = Ok (algo_newLazyTransaction (AVTransfer ?t))"
    using algo_decode_transfer_bytes [OF assms(1), where t = ?t and first = "0x11" and r = "\<lparr>r_input = [], r_err = EOF\<rparr>" and rest = "[]"] by simp
  then show ?thesis by (rule that) (simp_all add: AReqTransfer algo_transfer_getRaw_def)
next
  case (AReqInvoke f c fn)
  from assms(2) [unfolded AReqInvoke algo_encode_request.simps] obtain args b1 where
    inv: "agb_arguments host (act_app c) fn b = (Ok args, b1)" "args_fit args"
    "payload = algo_invoke_bytes al \<lparr>ai_uid = agb_nextTxuid b1, ai_appid = act_appid c, ai_args = args,
      ai_from = aac_address f, ai_key = aac_key f\<rparr>"
    by (rule algo_EncodeInvoke_Ok)
  let ?t = "\<lparr>ai_uid = agb_nextTxuid b, ai_appid = act_appid c, ai_args = args, ai_from = aac_address f, ai_key = aac_key f\<rparr>"
  have "fst (algo_decodeTransaction al 0x11 \<lparr>r_input = payload, r_err = EOF\<rparr>) = Ok (algo_newLazyTransaction (AVInvoke ?t))"
    using algo_decode_invoke_bytes [OF assms(1), where t = ?t and first = "0x11" and r = "\<lparr>r_input = [], r_err = EOF\<rparr>" and rest = "[]"] inv
      agb_arguments_next [OF inv(1)] assms(3) AReqInvoke by simp
  then show ?thesis by (rule that) (simp_all add: AReqInvoke algo_invoke_getRaw_def inv(1) obind_def)
qed

text \<open>Whichever preparer the client has, the transaction is signed once, and this is the result.\<close>

lemma algo_lazy_getUid_frame [simp]:
  "az_inner (snd (algo_lazy_getUid lt)) = az_inner lt" "az_raw (snd (algo_lazy_getUid lt)) = az_raw lt"
  by (simp_all add: algo_lazy_getUid_def split: option.splits)

lemma algo_lazy_getRaw_uid:
  "fst (algo_lazy_getRaw al (snd (algo_lazy_getUid lt)) s) = fst (algo_lazy_getRaw al lt s)"
  by (simp add: algo_lazy_getRaw_def split: option.splits prod.splits)

lemma algo_prepare_then_getRaw:
  "fst (gbind (algo_prepare al preparer lt) (\<lambda>lt. gbind (algo_tx_getRaw al lt) (\<lambda>(raw, _). gret raw)) s) =
   fst (algo_lazy_getRaw al lt s)"
proof (cases preparer)
  case AlgoNothing
  then show ?thesis
    by (auto simp: algo_tx_getRaw_def gbind_def gret_def obind_def split: prod.splits outcome.splits)
next
  case AlgoSignature
  let ?lt = "snd (algo_lazy_getUid lt)"
  obtain r lt' s' where run: "algo_lazy_getRaw al ?lt s = (r, lt', s')" by (metis prod_cases3)
  then have "az_raw lt' = Some r" by (auto simp: algo_lazy_getRaw_def split: option.splits prod.splits)
  then have "algo_lazy_getRaw al lt' s' = (r, lt', s')" by (simp add: algo_lazy_getRaw_def)
  moreover have "fst (algo_lazy_getRaw al lt s) = r" using algo_lazy_getRaw_uid [of al lt s] run by simp
  ultimately show ?thesis
    using AlgoSignature run by (cases r) (simp_all add: algo_tx_getRaw_def gbind_def gret_def obind_def)
qed

lemma algo_lazy_first:
  assumes "algo_virtual_getRaw al v s = algo_build al v key mk s" and "algo_getParams al s = (Ok params, s1)"
  shows "fst (algo_lazy_getRaw al (algo_newLazyTransaction v) s) = obind (mk params) (al_SignTransaction al key)"
  using assms by (auto simp: algo_lazy_getRaw_def algo_newLazyTransaction_def algo_build_def algo_unsigned_getRaw_def gbind_def
      glift_run obind_def split: outcome.splits)

text \<open>A decoded transaction keeps its number, whatever becomes of it.\<close>

definition numbered :: "64 word \<Rightarrow> ('k, 'tx) algo_lazy \<Rightarrow> bool" where
  "numbered uid lt \<longleftrightarrow> fst (algo_lazy_getUid lt) = uid"

lemma numbered_getUid: "numbered uid lt \<Longrightarrow> az_uid (snd (algo_lazy_getUid lt)) = Some uid"
  by (auto simp: numbered_def algo_lazy_getUid_def split: option.splits)

lemma numbered_getRaw: "az_uid lt = Some uid \<Longrightarrow> algo_lazy_getRaw al lt s = (r, lt', s') \<Longrightarrow> az_uid lt' = Some uid"
  by (auto simp: algo_lazy_getRaw_def split: option.splits prod.splits)

lemma algo_prepare_numbered:
  assumes "algo_prepare al preparer lt s = (Ok lt', s')" and "az_uid lt = Some uid"
  shows "numbered uid lt'"
proof (cases preparer)
  case AlgoNothing
  with assms show ?thesis by (simp add: gret_run numbered_def algo_lazy_getUid_def)
next
  case AlgoSignature
  let ?lt = "snd (algo_lazy_getUid lt)"
  have uid: "az_uid ?lt = Some uid" using assms(2) by (simp add: algo_lazy_getUid_def)
  obtain r lt1 s1 where run: "algo_lazy_getRaw al ?lt s = (r, lt1, s1)" by (metis prod_cases3)
  have "lt' = lt1" using assms(1) AlgoSignature run
    by (auto elim!: gbind_OkE simp: algo_tx_getRaw_def gret_run obind_def split: outcome.splits)
  then show ?thesis using numbered_getRaw [OF uid run] by (simp add: numbered_def algo_lazy_getUid_def)
qed

text \<open>
  C11: End to end through the Algorand driver: of the interactions the builder encodes, the one that comes
  after the interactions \<open>pre\<close> is decoded by a client, with either preparer, to the transaction that was
  asked for, signed with the sender's key, whose note is its number: the builder's next number at the beginning plus
  the number of interactions in \<open>pre\<close>. So the transactions of a benchmark are numbered without gaps in the
  order in which they were encoded, whichever client signs them, and the client finds the same number in the
  transaction. What is assumed of the library is that a key is determined by its seed; the address of the sender has at most
  255 bytes, which the encoder of an invocation does not check.
\<close>

theorem algo_transactions_numbered:
  assumes "algo_ok al" and "gmap (algo_encode_request al host info) pre b = (Ok payloads, b1)"
    and "algo_encode_request al host info req b1 = (Ok payload, b2)" and "length (aac_address (algo_sender req)) \<le> 255"
    and "uid = agb_nextTxuid b + of_nat (length pre)" and "algo_getParams al s = (Ok params, s1)"
  shows "fst (gbind (algo_DecodePayload al preparer payload) (\<lambda>lt. gbind (algo_tx_getRaw al lt) (\<lambda>(raw, _). gret raw)) s) =
      obind (algo_request_tx al host b1 req uid params) (al_SignTransaction al (aac_key (algo_sender req))) \<and>
    (\<forall>lt s'. algo_DecodePayload al preparer payload s = (Ok lt, s') \<longrightarrow> numbered uid lt) \<and>
    noteToUid (uidToNote uid) = Some uid"
proof -
  have next_uid: "agb_nextTxuid b1 = uid" using algo_encode_all_next [OF assms(2)] assms(5) by simp
  obtain v mk where dec: "fst (algo_decodeTransaction al 0x11 \<lparr>r_input = payload, r_err = EOF\<rparr>) = Ok (algo_newLazyTransaction v)"
    "\<And>s. algo_virtual_getRaw al v s = algo_build al v (aac_key (algo_sender req)) mk s"
    "\<And>params. algo_request_tx al host b1 req uid params = mk params" "algo_getUid v = uid"
    using algo_decode_request [OF assms(1,3,4)] next_uid by metis
  let ?lt = "snd (algo_lazy_getUid (algo_newLazyTransaction v))"
  have decode: "algo_DecodePayload al preparer payload = algo_prepare al preparer ?lt"
    by (rule ext) (simp add: algo_DecodePayload_def dec(1) gbind_def glift_run)
  have "fst (algo_lazy_getRaw al ?lt s) = obind (mk params) (al_SignTransaction al (aac_key (algo_sender req)))"
    unfolding algo_lazy_getRaw_uid by (rule algo_lazy_first [OF dec(2) assms(6)])
  moreover have "az_uid ?lt = Some uid"
    using dec(4) by (simp add: algo_lazy_getUid_def algo_newLazyTransaction_def)
  ultimately show ?thesis
    unfolding decode algo_prepare_then_getRaw using dec(3) note_roundtrip algo_prepare_numbered by metis
qed

text \<open>A library with keys of one byte, whose transactions are their sender, their arguments and their note.\<close>

definition algo_demo_sdk :: "(byte, string, string \<times> byte list list \<times> byte list, unit, nat) algo_sdk" where
  "algo_demo_sdk = \<lparr>al_Seed = (\<lambda>k. k # replicate 31 0), al_NewKeyFromSeed = hd, al_ToPrivateKey = (\<lambda>_. Ok 0),
     al_DecodeAddress = Ok, al_MinTxnFee = 1000, al_ToMicroAlgos = of_nat,
     al_MakePaymentTxn = (\<lambda>from to amount note params. Ok (from, [], note)),
     al_MakeApplicationCreateTx = (\<lambda>_ _ _ _ params addr note. Ok (addr, [], note)),
     al_MakeApplicationNoOpTx = (\<lambda>appid args params addr note. Ok (addr, args, note)),
     al_SignTransaction = (\<lambda>key (addr, args, note). Ok (key # concat args @ note)),
     al_GenerateAccount = gret (''new'', 0),
     al_SuggestedParams = gret \<lparr>sp_Fee = 0, sp_FlatFee = False, sp_FirstRoundValid = 1, sp_LastRoundValid = 2, sp_other = ()\<rparr>,
     al_SendRawTransaction = (\<lambda>raw. gret ''id''),
     al_PendingTransactionInformation = (\<lambda>txid. gread (\<lambda>n. \<lparr>pi_PoolError = [],
       pi_ConfirmedRound = (if n > 2 then of_nat n else 0), pi_ApplicationIndex = 0\<rparr>)),
     al_Status = gread of_nat, al_StatusAfterBlock = (\<lambda>round. gbind (gmodify Suc) (\<lambda>_. gread of_nat)),
     al_Block = (\<lambda>round. gret [uidToNote round]), al_CtxErr = (\<lambda>_. False), al_TealCompile = (\<lambda>_. gret [])\<rparr>"

definition algo_demo_host :: "(unit, unit) algo_host" where
  "algo_demo_host = \<lparr>ah_Run = (\<lambda>_. Ok []), ah_Open = (\<lambda>_. Ok ()), ah_ReadAll = (\<lambda>_. Ok []),
     ah_DecodeSchemas = (\<lambda>_. Ok \<lparr>ys_Local = \<lparr>ys_Ints = 1, ys_Bytes = 1\<rparr>, ys_Global = \<lparr>ys_Ints = 1, ys_Bytes = 1\<rparr>\<rparr>),
     ah_DecodeAccounts = (\<lambda>_. Ok []), ah_IsNotExist = (\<lambda>_. False), ah_StartServiceProcess = (\<lambda>_. Ok ()),
     ah_Ask = (\<lambda>_. gret [''AQI='', []])\<rparr>"

definition algo_demo_account :: "byte algo_account" where
  "algo_demo_account = \<lparr>aac_address = ''a'', aac_key = 9\<rparr>"

definition algo_demo_builder :: "(byte, unit, nat, unit) algo_builder" where
  "algo_demo_builder = (algo_newBuilder 0)\<lparr>agb_applications := [(''c'', \<lparr>aa_code = \<lparr>co_approvalCode = [], co_clearCode = [],
     co_localSchema = \<lparr>ss_NumUint = 1, ss_NumByteSlice = 1\<rparr>, co_globalSchema = \<lparr>ss_NumUint = 1, ss_NumByteSlice = 1\<rparr>\<rparr>,
     aa_parser = (), aa_lines = []\<rparr>)], agb_nextTxuid := 5\<rparr>"

definition algo_demo_info :: interactionInformation where
  "algo_demo_info = \<lparr>ii_globalIndex = 0, ii_clientIndex = 0, ii_localIndex = 0, ii_scheduleTime = f64_one\<rparr>"

definition algo_demo_requests :: "byte algo_request list" where
  "algo_demo_requests = [AReqTransfer 7 algo_demo_account algo_demo_account]"

definition algo_demo_call :: "byte algo_request" where
  "algo_demo_call = AReqInvoke algo_demo_account \<lparr>act_app = ''c'', act_appid = 3\<rparr> ''f()''"

lemma algo_demo_ok: "algo_ok algo_demo_sdk"
  by (simp add: algo_ok_def algo_demo_sdk_def SeedSize_def)

lemma algo_demo_argument: "base64_DecodeString ''AQI='' = Ok [1, 2]"
  by code_simp

theorem algo_transactions_numbered_witness:
  "\<exists>payloads b1 payload b2.
     gmap (algo_encode_request algo_demo_sdk algo_demo_host algo_demo_info) algo_demo_requests algo_demo_builder = (Ok payloads, b1) \<and>
     algo_encode_request algo_demo_sdk algo_demo_host algo_demo_info algo_demo_call b1 = (Ok payload, b2) \<and>
     fst (gbind (algo_DecodePayload algo_demo_sdk AlgoSignature payload)
         (\<lambda>lt. gbind (algo_tx_getRaw algo_demo_sdk lt) (\<lambda>(raw, _). gret raw)) \<lparr>ag_node = 0, ag_provider = AlgoDirect\<rparr>) =
       Ok (9 # [1, 2] @ uidToNote 6)"
proof -
  let ?s = "\<lparr>ag_node = 0, ag_provider = AlgoDirect\<rparr>" and ?b1 = "algo_demo_builder\<lparr>agb_nextTxuid := 6\<rparr>"
  let ?params = "\<lparr>sp_Fee = 0, sp_FlatFee = False, sp_FirstRoundValid = 1, sp_LastRoundValid = 2, sp_other = ()\<rparr>"
  note run = gbind_def glift_run gread_run gmodify_run gret_run agb_next_def to_buffer_def obind_def
  obtain payloads where pre:
    "gmap (algo_encode_request algo_demo_sdk algo_demo_host algo_demo_info) algo_demo_requests algo_demo_builder = (Ok payloads, ?b1)"
    by (simp add: algo_demo_requests_def algo_EncodeTransfer_def run algo_encode_transfer_buffer algo_demo_account_def)
      (simp add: algo_demo_builder_def)
  obtain b' where args: "agb_arguments algo_demo_host ''c'' ''f()'' ?b1 = (Ok [[1, 2]], b')"
    by (simp add: agb_arguments_def algo_arguments_def algo_demo_builder_def algo_demo_host_def gret_run algo_demo_argument)
  obtain payload b2 where call: "algo_encode_request algo_demo_sdk algo_demo_host algo_demo_info algo_demo_call ?b1 = (Ok payload, b2)"
    using args by (simp add: algo_demo_call_def algo_EncodeInvoke_def run algo_encode_invoke_buffer args_fit_def)
  have params: "algo_getParams algo_demo_sdk ?s = (Ok ?params, ?s)"
    by (simp add: algo_getParams_def algo_on_node_def gzoom_def algo_demo_sdk_def gret_run)
  have "fst (gbind (algo_DecodePayload algo_demo_sdk AlgoSignature payload)
         (\<lambda>lt. gbind (algo_tx_getRaw algo_demo_sdk lt) (\<lambda>(raw, _). gret raw)) ?s) = Ok (9 # [1, 2] @ uidToNote 6)"
    using algo_transactions_numbered [OF algo_demo_ok pre call _ refl params, of AlgoSignature] args
    by (simp add: algo_demo_call_def algo_demo_account_def algo_demo_requests_def algo_demo_builder_def obind_def)
      (simp add: algo_demo_sdk_def)
  with pre call show ?thesis by blast
qed

section \<open>The rounds\<close>

definition rounds_between :: "64 word \<Rightarrow> 64 word \<Rightarrow> 64 word list" where
  "rounds_between a b = map of_nat [unat a ..< unat b]"

lemma unat_next: "a < (b :: 64 word) \<Longrightarrow> unat (a + 1) = unat a + 1"
proof -
  assume "a < b"
  then have "unat a < unat b" by (simp add: word_less_nat_alt)
  moreover have "unat b < 2 ^ 64" using unsigned_less [of b] by simp
  ultimately have "unat a + 1 < 2 ^ 64" by linarith
  then show ?thesis by (simp add: unat_word_ariths)
qed

lemma rounds_between_Cons: "a < b \<Longrightarrow> rounds_between a b = a # rounds_between (a + 1) b"
proof -
  assume "a < b"
  then have "unat a < unat b" by (simp add: word_less_nat_alt)
  with unat_next [OF \<open>a < b\<close>] show ?thesis by (simp add: rounds_between_def upt_conv_Cons)
qed

lemma rounds_between_Nil: "\<not> a < b \<Longrightarrow> rounds_between a b = []"
  by (simp add: rounds_between_def word_less_nat_alt)

lemma rounds_between_append: "a \<le> b \<Longrightarrow> b \<le> c \<Longrightarrow> rounds_between a b @ rounds_between b c = rounds_between a c"
  using upt_add_eq_append [of "unat a" "unat b" "unat c - unat b"]
  by (simp add: rounds_between_def word_le_nat_alt flip: map_append)

text \<open>The numbers in the blocks of a list of rounds.\<close>

definition numbers_of :: "(64 word \<Rightarrow> byte list list) \<Rightarrow> 64 word list \<Rightarrow> 64 word list" where
  "numbers_of blocks rounds = concat (map (\<lambda>r. List.map_filter noteToUid (blocks r)) rounds)"

text \<open>The node gives the block of a round sooner or later.\<close>

inductive available :: "('k, 'a, 'tx, 'o, 'n) algo_sdk \<Rightarrow> 64 word \<Rightarrow> 'n \<Rightarrow> bool" for al round where
  available_now: "al_Block al round node = (Ok block, node') \<Longrightarrow> available al round node"
| available_later: "al_Block al round node = (Err e, node') \<Longrightarrow> \<not> al_CtxErr al node' \<Longrightarrow> available al round node' \<Longrightarrow>
    available al round node"

text \<open>What is assumed of the chain: the node gives every block in the end, and always the same one for a round.\<close>

definition chain_ok :: "('k, 'a, 'tx, 'o, 'n) algo_sdk \<Rightarrow> (64 word \<Rightarrow> byte list list) \<Rightarrow> bool" where
  "chain_ok al blocks \<longleftrightarrow> (\<forall>round node. available al round node) \<and>
     (\<forall>round node block node'. al_Block al round node = (Ok block, node') \<longrightarrow> block = blocks round)"

lemma algo_rounds_block:
  assumes "available al round node" and "round < lastRound" and "chain_ok al blocks"
  shows "\<exists>node'. algo_rounds al lastRound round uids node =
    algo_rounds al lastRound (round + 1) (algo_parseBlock uids (blocks round)) node'"
  using assms
proof (induction rule: available.induct)
  case (available_now node block node')
  then have "block = blocks round" unfolding chain_ok_def by blast
  with available_now show ?case
    by (intro exI [of _ node']) (subst algo_rounds.simps, simp)
next
  case (available_later node e node')
  then have "algo_rounds al lastRound round uids node = algo_rounds al lastRound round uids node'"
    by (subst algo_rounds.simps) simp
  with available_later show ?case by simp
qed

lemma algo_rounds_all:
  assumes "chain_ok al blocks"
  shows "\<exists>node'. algo_rounds al lastRound round uids node =
    Some (Ok (uids @ numbers_of blocks (rounds_between round lastRound), max round lastRound), node')"
proof (induction "unat lastRound - unat round" arbitrary: round uids node rule: less_induct)
  case less
  show ?case
  proof (cases "round < lastRound")
    case True
    then have lt: "unat round < unat lastRound" by (simp add: word_less_nat_alt)
    have "available al round node" using assms by (simp add: chain_ok_def)
    from algo_rounds_block [OF this True assms] obtain node' where
      step: "algo_rounds al lastRound round uids node =
        algo_rounds al lastRound (round + 1) (algo_parseBlock uids (blocks round)) node'" by blast
    have "unat lastRound - unat (round + 1) < unat lastRound - unat round" using lt unat_next [OF True] by simp
    from less [OF this] step obtain node'' where
      "algo_rounds al lastRound round uids node = Some (Ok (algo_parseBlock uids (blocks round) @
        numbers_of blocks (rounds_between (round + 1) lastRound), max (round + 1) lastRound), node'')" by metis
    moreover have "max (round + 1) lastRound = max round lastRound"
      using lt unat_next [OF True] True by (simp add: max_def word_le_nat_alt word_less_nat_alt)
    ultimately show ?thesis by (simp add: rounds_between_Cons [OF True] numbers_of_def algo_parseBlock_def)
  next
    case False
    then show ?thesis
      by (intro exI [of _ node]) (subst algo_rounds.simps, simp add: rounds_between_Nil numbers_of_def max_absorb1)
  qed
qed

text \<open>The iterations of the goroutine so far, with all the numbers it has reported.\<close>

inductive algo_polled ::
  "('k, 'a, 'tx, 'o, 'n) algo_sdk \<Rightarrow> 64 word \<Rightarrow> 'n \<Rightarrow> 64 word list \<Rightarrow> 64 word \<Rightarrow> 'n \<Rightarrow> bool" for al first node where
  polled_none: "algo_polled al first node [] first node"
| polled_more: "algo_polled al first node uids round node1 \<Longrightarrow> algo_poll_once al round node1 = Some (Ok (uids', round'), node2) \<Longrightarrow>
    algo_polled al first node (uids @ uids') round' node2"

lemma algo_poll_once_all:
  assumes "chain_ok al blocks" and "al_StatusAfterBlock al round node = (Ok lastRound, node1)"
  shows "\<exists>node2. algo_poll_once al round node =
    Some (Ok (numbers_of blocks (rounds_between round lastRound), max round lastRound), node2)"
  using algo_rounds_all [OF assms(1), of lastRound round "[]" node1] assms(2) by (simp add: algo_poll_once_def)

lemma algo_polled_all:
  assumes "algo_polled al first node uids round node1" and "chain_ok al blocks"
  shows "first \<le> round \<and> uids = numbers_of blocks (rounds_between first round)"
  using assms
proof (induction rule: algo_polled.induct)
  case polled_none
  then show ?case by (simp add: rounds_between_Nil numbers_of_def)
next
  case (polled_more uids round node1 uids' round' node2)
  obtain lastRound node' where status: "al_StatusAfterBlock al round node1 = (Ok lastRound, node')"
    using polled_more.hyps(2) by (auto simp: algo_poll_once_def split: prod.splits outcome.splits)
  from algo_poll_once_all [OF polled_more.prems status] polled_more.hyps(2)
  have new: "uids' = numbers_of blocks (rounds_between round lastRound)" "round' = max round lastRound" by auto
  have "rounds_between round round' = rounds_between round lastRound"
    using new(2) by (cases "round < lastRound") (simp_all add: rounds_between_Nil max_absorb1 max_absorb2)
  moreover have "first \<le> round" "round \<le> round'" using polled_more new(2) by simp_all
  then have "first \<le> round'" by (rule order_trans)
  ultimately show ?case
    using polled_more new rounds_between_append [of first round round'] \<open>first \<le> round'\<close>
    by (auto simp: numbers_of_def simp flip: concat_append map_append)
qed

text \<open>
  C12: The goroutine of the Algorand client that polls the blocks reads every round from its first one on
  exactly once and in order: after any number of iterations the numbers it has reported are those in the notes of
  the blocks of the rounds so far, also when the node gives a block only after failures or its status lags
  behind; and an iteration ends whenever the node answers the request for its status. A transaction with a number
  in one of these blocks is therefore reported. What is assumed is that the node gives each block in the end, and
  never two different ones for a round.
\<close>

theorem algo_no_round_skipped:
  assumes "chain_ok al blocks" and "algo_polled al first node uids round node1"
  shows "first \<le> round \<and> uids = numbers_of blocks (rounds_between first round) \<and>
    (\<forall>lastRound node2. al_StatusAfterBlock al round node1 = (Ok lastRound, node2) \<longrightarrow>
      (\<exists>node3. algo_poll_once al round node1 =
        Some (Ok (numbers_of blocks (rounds_between round lastRound), max round lastRound), node3))) \<and>
    (\<forall>r uid. r \<in> set (rounds_between first round) \<and> uidToNote uid \<in> set (blocks r) \<longrightarrow> uid \<in> set uids)"
proof -
  have all: "first \<le> round" "uids = numbers_of blocks (rounds_between first round)"
    using algo_polled_all [OF assms(2,1)] by simp_all
  have "uid \<in> set uids" if "r \<in> set (rounds_between first round)" "uidToNote uid \<in> set (blocks r)" for r uid
  proof -
    have "uid \<in> set (List.map_filter noteToUid (blocks r))"
      using that(2) note_roundtrip [of uid] by (force simp: List.map_filter_def)
    with that(1) show ?thesis unfolding all(2) by (auto simp: numbers_of_def)
  qed
  with all algo_poll_once_all [OF assms(1)] show ?thesis by blast
qed

lemma algo_demo_chain: "chain_ok algo_demo_sdk (\<lambda>round. [uidToNote round])"
  by (auto simp: chain_ok_def algo_demo_sdk_def gret_run intro!: available_now)

theorem algo_no_round_skipped_witness:
  "\<exists>uids node. algo_polled algo_demo_sdk 1 3 uids 4 node \<and> uids = [1, 2, 3]"
proof -
  have "al_StatusAfterBlock algo_demo_sdk 1 3 = (Ok 4, 4)"
    by (simp add: algo_demo_sdk_def gbind_def gmodify_run gread_run)
  from algo_poll_once_all [OF algo_demo_chain this] obtain node where
    "algo_poll_once algo_demo_sdk 1 3 = Some (Ok (numbers_of (\<lambda>round. [uidToNote round]) (rounds_between 1 4), max 1 4), node)" by blast
  then have run: "algo_polled algo_demo_sdk 1 3 (numbers_of (\<lambda>round. [uidToNote round]) (rounds_between 1 4)) 4 node"
    using polled_more [OF polled_none, of algo_demo_sdk 1 3] by (fastforce simp: max_def)
  have "rounds_between 1 4 = [1, 2, 3 :: 64 word]" by (simp add: rounds_between_def upt_rec)
  then have "numbers_of (\<lambda>round. [uidToNote round]) (rounds_between 1 4) = [1, 2, 3]"
    by (simp add: numbers_of_def List.map_filter_def note_roundtrip)
  with run algo_no_round_skipped [OF algo_demo_chain run] show ?thesis by auto
qed

section \<open>Reports\<close>

text \<open>Fewer interactions than there are numbers have different ones.\<close>

lemma numbers_inj: "I \<subseteq> {..<2 ^ 64} \<Longrightarrow> inj_on (\<lambda>i. first + of_nat i :: 64 word) I"
proof (rule inj_onI)
  fix i j
  assume "I \<subseteq> {..<2 ^ 64}" and "i \<in> I" "j \<in> I" and eq: "first + of_nat i = first + (of_nat j :: 64 word)"
  then have "i < 2 ^ 64" "j < 2 ^ 64" by auto
  moreover have "unat (of_nat i :: 64 word) = unat (of_nat j :: 64 word)" using eq by simp
  ultimately show "i = j" by (simp add: unat_of_nat take_bit_nat_eq_self)
qed

text \<open>
  C13: The reports of the Algorand client with block polling are sound, in every interleaving of
  the calls and the goroutine, when the transactions are numbered in order from \<open>first\<close> and there are at most \<open>2 ^ 64\<close> of them:
  a commit is reported only of a transaction whose number was in a processed block or that the node refused because it was in
  its ledger, once and after the submission; a call that returns without an error before the goroutine has
  stopped has reported its commit; and a waiting call is registered or next to be answered.
\<close>

theorem algo_reports_sound:
  assumes "poll_run (algo_react bad_request) algo_plan (\<lambda>i. first + of_nat i :: 64 word) poll_start s"
    and "triggered s \<subseteq> {..<2 ^ 64}"
  shows "(RepCommit \<in> set (ps_reports s i) \<longrightarrow> ps_reports s i = [RepSubmit, RepCommit] \<and>
      first + of_nat i \<in> ps_mined s \<union> ps_known s) \<and>
    (ps_calls s i = CallReturned None \<and> \<not> stopped (ps_poll s) \<longrightarrow> ps_reports s i = [RepSubmit, RepCommit]) \<and>
    (ps_calls s i = CallWaiting \<longleftrightarrow>
       lookup (ps_confirmer s) (first + of_nat i) = Some i \<or> i \<in> set (answered (work_of (ps_poll s))))"
  by (rule algo_poll.reports_sound [OF numbers_inj [OF assms(2)] assms(1)])

text \<open>Two calls, whose transactions are found in one round: both are reported before one is answered.\<close>

definition algo_demo_state :: "64 word poll_state" where
  "algo_demo_state = reportHashes algo_plan [5, 6] (confirm 6 1 (trigger_send 6 1 TrigSent (confirm 5 0 (trigger_send 5 0 TrigSent poll_start))))"

lemma algo_demo_run: "poll_run (algo_react bad_request) algo_plan (\<lambda>i. 5 + of_nat i) poll_start algo_demo_state"
proof -
  let ?step = "poll_step (algo_react bad_request) algo_plan (\<lambda>i. 5 + of_nat i) :: 64 word poll_state \<Rightarrow> _"
  let ?s1 = "trigger_send 5 0 TrigSent poll_start :: 64 word poll_state" and ?hash = "\<lambda>i. 5 + of_nat i :: 64 word"
  let ?s2 = "confirm 5 0 ?s1"
  let ?s3 = "trigger_send 6 1 TrigSent ?s2"
  let ?s4 = "confirm 6 1 ?s3"
  note unfold = poll_updates poll_start_def newPollblkTransactionConfirmer_def
  have s1: "?step poll_start ?s1"
    using poll_step.trigger [of poll_start 0 "algo_react bad_request" algo_plan ?hash "(None, None)"] by (simp add: poll_start_def)
  have s2: "?step ?s1 ?s2"
    using poll_step.confirm [of ?s1 0 "algo_react bad_request" algo_plan ?hash] by (simp add: poll_start_def)
  have s3: "?step ?s2 ?s3"
    using poll_step.trigger [of ?s2 1 "algo_react bad_request" algo_plan ?hash "(None, None)"] by (simp add: unfold)
  have s4: "?step ?s3 ?s4"
    using poll_step.confirm [of ?s3 1 "algo_react bad_request" algo_plan ?hash] by (simp add: unfold)
  have s5: "?step ?s4 algo_demo_state"
    unfolding algo_demo_state_def by (rule poll_step.block) (simp_all add: unfold)
  show ?thesis
    by (rule poll_run_front [OF poll_run_front [OF poll_run_front [OF poll_run_front [OF poll_run_step [OF s5] s4] s3] s2] s1])
qed

theorem algo_reports_sound_witness:
  "\<exists>s. poll_run (algo_react (\<lambda>_. None)) algo_plan (\<lambda>i. 5 + of_nat i :: 64 word) poll_start s \<and>
     ps_poll s = Working [Report 0 RepCommit, Report 1 RepCommit, Answer 0 None, Answer 1 None] False \<and>
     ps_calls s 1 = CallWaiting \<and> 1 \<in> set (answered (work_of (ps_poll s)))"
proof -
  have calls: "ps_calls algo_demo_state = (\<lambda>_. CallIdle)(0 := CallWaiting, 1 := CallWaiting)"
    and poll: "ps_poll algo_demo_state = Working [Report 0 RepCommit, Report 1 RepCommit, Answer 0 None, Answer 1 None] False"
    and lookup: "lookup (ps_confirmer algo_demo_state) 6 = None"
    by (simp_all add: algo_demo_state_def poll_updates poll_start_def newPollblkTransactionConfirmer_def algo_plan_def
        reports_first_def lookup_def fun_eq_iff)
  have "triggered algo_demo_state \<subseteq> {..<2 ^ 64}"
    by (auto simp: triggered_def calls split: if_splits)
  from algo_reports_sound [OF algo_demo_run this, of 1] have
    "1 \<in> set (answered (work_of (ps_poll algo_demo_state)))" by (simp add: calls lookup poll)
  with algo_demo_run [of "\<lambda>_. None"] poll calls show ?thesis by auto
qed

text \<open>The race of the Ethereum client is here as well.\<close>

theorem algo_confirm_race:
  assumes "poll_run (algo_react bad_request) algo_plan (\<lambda>i. first + of_nat i :: 64 word) poll_start s"
    and "triggered s \<subseteq> {..<2 ^ 64}" and "ps_poll s = Polling" and "ps_calls s i = CallSent"
    and "first + of_nat i \<in> cf_committed (ps_confirmer s)"
    and "poll_run (algo_react bad_request) algo_plan (\<lambda>i. first + of_nat i) (confirm (first + of_nat i) i s) t"
  shows "ps_calls t i = CallSending \<and> ps_mined t = ps_mined s"
  using algo_poll.confirm_race [OF numbers_inj [OF assms(2)] assms(1,3,4)] assms(5,6) by blast

section \<open>One call, asking for its transaction\<close>

text \<open>
  The iterations of the loop that do not end it: the node answers, the transaction is in no round yet,
  and the client waits for the next round.
\<close>

inductive algo_waits :: "('k, 'a, 'tx, 'o, 'n) algo_sdk \<Rightarrow> string \<Rightarrow> 64 word \<Rightarrow> 'n \<Rightarrow> 64 word \<Rightarrow> 'n \<Rightarrow> bool"
  for al txid round node where
  waits_none: "algo_waits al txid round node round node"
| waits_more: "algo_waits al txid round node round1 node1 \<Longrightarrow>
    al_PendingTransactionInformation al txid node1 = (Ok info, node2) \<Longrightarrow> pi_PoolError info = [] \<Longrightarrow> pi_ConfirmedRound info = 0 \<Longrightarrow>
    algo_waitNextRound al round1 node2 = (Ok round2, node3) \<Longrightarrow> algo_waits al txid round node round2 node3"

lemma algo_waits_polltx:
  "algo_waits al txid round node round' node' \<Longrightarrow> algo_polltx al txid round node = algo_polltx al txid round' node'"
proof (induction rule: algo_waits.induct)
  case (waits_more round1 node1 info node2 round2 node3)
  then have "algo_polltx al txid round1 node1 = algo_polltx al txid round2 node3"
    by (subst algo_polltx.simps) simp
  with waits_more show ?case by simp
qed simp

lemma algo_polltx_result:
  "algo_polltx al txid round node = Some res \<Longrightarrow>
   fst (fst res) = [] \<and> snd (fst res) \<noteq> Ok () \<or> fst (fst res) \<in> {[RepCommit], [RepAbort]} \<and> snd (fst res) = Ok ()"
  by (erule algo_polltx.raw_induct [rotated]) (auto split: prod.splits outcome.splits if_splits)


text \<open>
  C14: The call of \<^verbatim>\<open>TriggerInteraction\<close> with this confirmer is one of a well-behaved client: whatever the node
  does, if the call returns, it has reported at most a submission and then one end, and it returns no error if it has
  reported a commit. It does return, however often the transaction was in no round yet, as soon as the node tells that it was confirmed or dropped,
  and reports that.
\<close>

theorem algo_trigger_plan:
  "(\<forall>rs r s'. algo_TriggerInteraction al bad_request tx s = Some ((rs, r), s') \<longrightarrow>
      client_plan rs \<and> (RepCommit \<in> set rs \<longrightarrow> r = Ok ())) \<and>
   (\<forall>raw lt s1 txid s2 round node info node'. algo_tx_getRaw al (snd (algo_lazy_getUid tx)) s = (Ok (raw, lt), s1) \<and>
      algo_on_node (al_SendRawTransaction al raw) s1 = (Ok txid, s2) \<and> algo_waits al txid 0 (ag_node s2) round node \<and>
      al_PendingTransactionInformation al txid node = (Ok info, node') \<and>
      (pi_PoolError info \<noteq> [] \<or> pi_ConfirmedRound info > 0) \<longrightarrow>
      algo_TriggerInteraction al bad_request tx s =
        Some (([RepSubmit, if pi_PoolError info \<noteq> [] then RepAbort else RepCommit], Ok ()), s2\<lparr>ag_node := node'\<rparr>))"
proof (intro conjI allI impI)
  fix rs r s'
  assume "algo_TriggerInteraction al bad_request tx s = Some ((rs, r), s')"
  then have "client_plan rs \<and> (RepCommit \<in> set rs \<longrightarrow> r = Ok ())"
    by (auto simp: algo_TriggerInteraction_def client_plan_def split: prod.splits outcome.splits if_splits dest!: algo_polltx_result)
  then show "client_plan rs" "RepCommit \<in> set rs \<Longrightarrow> r = Ok ()" by auto
next
  fix raw lt s1 txid s2 round node info node'
  assume a: "algo_tx_getRaw al (snd (algo_lazy_getUid tx)) s = (Ok (raw, lt), s1) \<and>
      algo_on_node (al_SendRawTransaction al raw) s1 = (Ok txid, s2) \<and> algo_waits al txid 0 (ag_node s2) round node \<and>
      al_PendingTransactionInformation al txid node = (Ok info, node') \<and>
      (pi_PoolError info \<noteq> [] \<or> pi_ConfirmedRound info > 0)"
  then have "algo_waits al txid 0 (ag_node s2) round node" by blast
  then have "algo_polltx al txid 0 (ag_node s2) = algo_polltx al txid round node" by (rule algo_waits_polltx)
  also have "\<dots> = Some (([if pi_PoolError info \<noteq> [] then RepAbort else RepCommit], Ok ()), node')"
    using a by (subst algo_polltx.simps) auto
  finally show "algo_TriggerInteraction al bad_request tx s =
      Some (([RepSubmit, if pi_PoolError info \<noteq> [] then RepAbort else RepCommit], Ok ()), s2\<lparr>ag_node := node'\<rparr>)"
    using a by (simp add: algo_TriggerInteraction_def)
qed


definition algo_demo_tx :: "(byte, string \<times> byte list list \<times> byte list) algo_lazy" where
  "algo_demo_tx = algo_newLazyTransaction (AVTransfer \<lparr>at_uid = 5, at_amount = 1, at_from = ''a'', at_to = ''b'', at_key = 9\<rparr>)"

theorem algo_trigger_plan_witness:
  "\<exists>s. algo_TriggerInteraction algo_demo_sdk (\<lambda>_. None) algo_demo_tx \<lparr>ag_node = 0, ag_provider = AlgoDirect\<rparr> =
    Some (([RepSubmit, RepCommit], Ok ()), s)"
proof -
  let ?s = "\<lparr>ag_node = 0, ag_provider = AlgoDirect\<rparr> :: (unit, nat) algo_state"
  note demo = algo_demo_sdk_def gbind_def gread_run gmodify_run gret_run
  obtain raw lt where raw: "algo_tx_getRaw algo_demo_sdk (snd (algo_lazy_getUid algo_demo_tx)) ?s = (Ok (raw, lt), ?s)"
    by (simp add: algo_tx_getRaw_def algo_lazy_getRaw_def algo_lazy_getUid_def algo_demo_tx_def algo_newLazyTransaction_def
        algo_transfer_getRaw_def algo_build_def algo_getParams_def algo_on_node_def gzoom_def algo_unsigned_getRaw_def glift_run demo obind_def)
  have sent: "algo_on_node (al_SendRawTransaction algo_demo_sdk raw) ?s = (Ok ''id'', ?s)"
    by (simp add: algo_on_node_def gzoom_def demo)
  have more: "algo_waits algo_demo_sdk ''id'' 0 0 round2 (Suc n)"
    if "algo_waits algo_demo_sdk ''id'' 0 0 round1 n" "n \<le> 2" "algo_waitNextRound algo_demo_sdk round1 n = (Ok round2, Suc n)"
    for round1 round2 n
  proof -
    have "al_PendingTransactionInformation algo_demo_sdk ''id'' n =
        (Ok \<lparr>pi_PoolError = [], pi_ConfirmedRound = 0, pi_ApplicationIndex = 0\<rparr>, n)"
      using that(2) by (simp add: demo)
    from waits_more [OF that(1) this _ _ that(3)] show ?thesis by simp
  qed
  have "algo_waits algo_demo_sdk ''id'' 0 0 1 (Suc 0)"
    by (rule more [OF waits_none]) (simp_all add: algo_waitNextRound_def demo)
  then have "algo_waits algo_demo_sdk ''id'' 0 0 2 (Suc (Suc 0))"
    by (rule more) (simp_all add: algo_waitNextRound_def demo)
  then have wait: "algo_waits algo_demo_sdk ''id'' 0 (ag_node ?s) 3 (Suc (Suc (Suc 0)))"
    unfolding algo_state.simps by (rule more) (simp_all add: algo_waitNextRound_def demo)
  obtain info where info: "al_PendingTransactionInformation algo_demo_sdk ''id'' (Suc (Suc (Suc 0))) = (Ok info, Suc (Suc (Suc 0)))"
    "pi_PoolError info = []" "pi_ConfirmedRound info > 0"
    by (simp add: demo)
  show ?thesis
    using algo_trigger_plan [of algo_demo_sdk "\<lambda>_. None" algo_demo_tx ?s] raw sent wait info by fastforce
qed

end
