(* ===== verification/Diem_Transaction.thy ===== *)
theory Diem_Transaction
  imports Eth_Builder
begin

text \<open>
  The transactions of the Diem driver (\<^verbatim>\<open>src/blockchains/ndiem/transaction.go\<close>): their encoding for the
  secondaries, their decoding, and how they are signed, with the sequence number of their sender. The Diem
  library is a parameter.
\<close>

section \<open>The library\<close>

text \<open>
  What a transaction does: a transfer by the script of the standard library, a script with its arguments (and no
  type arguments), or the publication of a module.
\<close>

datatype ('a, 'g) diem_payload =
    PeerToPeer 'a "64 word"
  | Script "byte list" "'g list"
  | Module "byte list"

record diem_limits =
  dl_maxGasAmount :: "64 word"
  dl_gasUnitPrice :: "64 word"
  dl_currency :: string
  dl_expiration :: "64 word"
  dl_chainId :: byte

text \<open>
  The functions of the library the transactions call. A private key determines its keys, and
  \<open>dm_AccountAddress\<close> is the address of these; an address is an array of \<open>dm_AddressLength\<close> bytes; the
  \<open>dm_Arg\<close> functions are the constructors of arguments; \<open>dm_Sender\<close> and \<open>dm_SequenceNumber\<close> read a signed transaction.
\<close>

record ('k, 'a, 'g, 'x) diem_sdk =
  dm_Seed :: "'k \<Rightarrow> byte list"
  dm_KeyFromSeed :: "byte list \<Rightarrow> 'k"
  dm_AccountAddress :: "'k \<Rightarrow> 'a"
  dm_SerializeAddress :: "'a \<Rightarrow> byte list outcome"
  dm_DeserializeAddress :: "byte list \<Rightarrow> 'a outcome"
  dm_AddressLength :: nat
  dm_AddressBytes :: "'a \<Rightarrow> byte list"
  dm_AddressArray :: "byte list \<Rightarrow> 'a"
  dm_ArgAddress :: "'a \<Rightarrow> 'g"
  dm_ArgU8Vector :: "byte list \<Rightarrow> 'g"
  dm_ArgU64 :: "64 word \<Rightarrow> 'g"
  dm_SerializeArgument :: "'g \<Rightarrow> byte list outcome"
  dm_DeserializeArgument :: "byte list \<Rightarrow> 'g outcome"
  dm_SignTxn :: "'k \<Rightarrow> 'a \<Rightarrow> 64 word \<Rightarrow> ('a, 'g) diem_payload \<Rightarrow> diem_limits \<Rightarrow> 'x"
  dm_Sender :: "'x \<Rightarrow> 'a"
  dm_SequenceNumber :: "'x \<Rightarrow> 64 word"

text \<open>
  What is promised by the documentation: a key is determined by its seed of 32 bytes, addresses and
  arguments survive their encoding, and a signed transaction has its sender and sequence number.
\<close>

definition diem_ok :: "('k, 'a, 'g, 'x) diem_sdk \<Rightarrow> bool" where
  "diem_ok dm \<longleftrightarrow>
     (\<forall>k. dm_KeyFromSeed dm (dm_Seed dm k) = k \<and> length (dm_Seed dm k) = SeedSize) \<and>
     (\<forall>a bs. dm_SerializeAddress dm a = Ok bs \<longrightarrow> dm_DeserializeAddress dm bs = Ok a) \<and>
     (\<forall>g bs. dm_SerializeArgument dm g = Ok bs \<longrightarrow> dm_DeserializeArgument dm bs = Ok g) \<and>
     (\<forall>k a seq p l. dm_Sender dm (dm_SignTxn dm k a seq p l) = a \<and> dm_SequenceNumber dm (dm_SignTxn dm k a seq p l) = seq)"

text \<open>\<^verbatim>\<open>ed25519.NewKeyFromSeed\<close> panics on a seed of another length.\<close>

definition diem_NewKeyFromSeed :: "('k, 'a, 'g, 'x) diem_sdk \<Rightarrow> byte list \<Rightarrow> 'k outcome" where
  "diem_NewKeyFromSeed dm seed =
     (if length seed = SeedSize then Ok (dm_KeyFromSeed dm seed) else Panic ''ed25519: bad seed length'')"

section \<open>Transactions\<close>

definition diem_type_transfer :: byte where "diem_type_transfer = 0"
definition diem_type_invoke :: byte where "diem_type_invoke = 1"

definition diem_chainId :: byte where "diem_chainId = 4"

record ('k, 'a) diem_transferTransaction =
  dt_from :: 'k
  dt_to :: 'a
  dt_amount :: "64 word"
  dt_sequence :: "64 word"

record 'k diem_deployTransaction =
  dd_from :: 'k
  dd_code :: "byte list"
  dd_sequence :: "64 word"

record ('k, 'g) diem_invokeTransaction =
  di_from :: 'k
  di_code :: "byte list"
  di_args :: "'g list"
  di_sequence :: "64 word"

text \<open>The name of a transaction: the text of the first six bytes of the sender's seed and of the sequence number.\<close>

type_synonym diem_name = "byte list \<times> 64 word"

datatype ('k, 'a, 'g, 'x) diem_virtual =
    DVSigned 'x diem_name
  | DVUnsigned 'k 'a "64 word" "('a, 'g) diem_payload" diem_name
  | DVTransfer "('k, 'a) diem_transferTransaction"
  | DVDeploy "'k diem_deployTransaction"
  | DVInvoke "('k, 'g) diem_invokeTransaction"

definition diem_name_of :: "('k, 'a, 'g, 'x) diem_sdk \<Rightarrow> 'k \<Rightarrow> 64 word \<Rightarrow> diem_name" where
  "diem_name_of dm key sequence = (take 6 (dm_Seed dm key), sequence)"

fun diem_getName :: "('k, 'a, 'g, 'x) diem_sdk \<Rightarrow> ('k, 'a, 'g, 'x) diem_virtual \<Rightarrow> diem_name" where
  "diem_getName dm (DVSigned stx name) = name"
| "diem_getName dm (DVUnsigned from to sequence payload name) = name"
| "diem_getName dm (DVTransfer t) = diem_name_of dm (dt_from t) (dt_sequence t)"
| "diem_getName dm (DVDeploy t) = diem_name_of dm (dd_from t) (dd_sequence t)"
| "diem_getName dm (DVInvoke t) = diem_name_of dm (di_from t) (di_sequence t)"

text \<open>
  \<^verbatim>\<open>getSigned\<close> gives what the transaction has become and the signed transaction; it never returns an error.
  \<open>now\<close> is the time of the clock in seconds.
\<close>

definition diem_limits_at :: "int \<Rightarrow> diem_limits" where
  "diem_limits_at now = \<lparr>dl_maxGasAmount = 4000000, dl_gasUnitPrice = 0, dl_currency = ''XUS'',
     dl_expiration = word_of_int (now + 86400), dl_chainId = diem_chainId\<rparr>"

definition diem_unsigned_getSigned ::
  "('k, 'a, 'g, 'x) diem_sdk \<Rightarrow> int \<Rightarrow> 'k \<Rightarrow> 'a \<Rightarrow> 64 word \<Rightarrow> ('a, 'g) diem_payload \<Rightarrow> diem_name \<Rightarrow> ('k, 'a, 'g, 'x) diem_virtual \<times> 'x" where
  "diem_unsigned_getSigned dm now from to sequence payload name =
     (let stx = dm_SignTxn dm from to sequence payload (diem_limits_at now) in (DVSigned stx name, stx))"

definition diem_transfer_getSigned ::
  "('k, 'a, 'g, 'x) diem_sdk \<Rightarrow> int \<Rightarrow> ('k, 'a) diem_transferTransaction \<Rightarrow> ('k, 'a, 'g, 'x) diem_virtual \<times> 'x" where
  "diem_transfer_getSigned dm now t =
     diem_unsigned_getSigned dm now (dt_from t) (dm_AccountAddress dm (dt_from t)) (dt_sequence t)
       (PeerToPeer (dt_to t) (dt_amount t)) (diem_getName dm (DVTransfer t))"

definition diem_deploy_getSigned ::
  "('k, 'a, 'g, 'x) diem_sdk \<Rightarrow> int \<Rightarrow> 'k diem_deployTransaction \<Rightarrow> ('k, 'a, 'g, 'x) diem_virtual \<times> 'x" where
  "diem_deploy_getSigned dm now t =
     diem_unsigned_getSigned dm now (dd_from t) (dm_AccountAddress dm (dd_from t)) (dd_sequence t)
       (Module (dd_code t)) (diem_getName dm (DVDeploy t))"

definition diem_invoke_getSigned ::
  "('k, 'a, 'g, 'x) diem_sdk \<Rightarrow> int \<Rightarrow> ('k, 'g) diem_invokeTransaction \<Rightarrow> ('k, 'a, 'g, 'x) diem_virtual \<times> 'x" where
  "diem_invoke_getSigned dm now t =
     diem_unsigned_getSigned dm now (di_from t) (dm_AccountAddress dm (di_from t)) (di_sequence t)
       (Script (di_code t) (di_args t)) (diem_getName dm (DVInvoke t))"

fun diem_getSigned ::
  "('k, 'a, 'g, 'x) diem_sdk \<Rightarrow> int \<Rightarrow> ('k, 'a, 'g, 'x) diem_virtual \<Rightarrow> ('k, 'a, 'g, 'x) diem_virtual \<times> 'x" where
  "diem_getSigned dm now (DVSigned stx name) = (DVSigned stx name, stx)"
| "diem_getSigned dm now (DVUnsigned from to sequence payload name) =
     diem_unsigned_getSigned dm now from to sequence payload name"
| "diem_getSigned dm now (DVTransfer t) = diem_transfer_getSigned dm now t"
| "diem_getSigned dm now (DVDeploy t) = diem_deploy_getSigned dm now t"
| "diem_getSigned dm now (DVInvoke t) = diem_invoke_getSigned dm now t"

section \<open>Encoding and decoding\<close>

definition diem_encode_transfer ::
  "('k, 'a, 'g, 'x) diem_sdk \<Rightarrow> 'w write_op \<Rightarrow> byte \<Rightarrow> ('k, 'a) diem_transferTransaction \<Rightarrow> ('w, unit) go" where
  "diem_encode_transfer dm wr first t =
     gbind (glift (dm_SerializeAddress dm (dt_to t))) (\<lambda>to.
     if length to > 255
     then gerr (Errorf ''to address too long (%d bytes)'' [AInt (int (dm_AddressLength dm))])
     else
       gbind (out_chain
         [WriteUint8 wr diem_type_transfer, WriteUint8 wr (of_nat (length to)), WriteBytes wr (dm_Seed dm (dt_from t)),
          WriteBytes wr to, WriteUint64 wr (dt_amount t), WriteUint64 wr (dt_sequence t)]
         (SetOrder_out LittleEndian (NewMonadOutputWriter first))) (\<lambda>mo. glift (out_Error mo)))"

text \<open>The arguments are serialized one after another, up to the first that fails or is too long.\<close>

fun diem_serialize_args :: "('k, 'a, 'g, 'x) diem_sdk \<Rightarrow> 'g list \<Rightarrow> byte list list outcome" where
  "diem_serialize_args dm [] = Ok []"
| "diem_serialize_args dm (arg # args) =
     obind (dm_SerializeArgument dm arg) (\<lambda>barg.
     if length barg > 65535
     then Err (Errorf ''invoke arguments %d is too long (%d bytes)'' [AInt (int (length barg))])
     else obind (diem_serialize_args dm args) (\<lambda>bargs. Ok (barg # bargs)))"

text \<open>As in the Algorand driver, what the calls in the loop return is dropped, and with it an error.\<close>

fun diem_encode_args :: "'w write_op \<Rightarrow> byte list list \<Rightarrow> MonadOutput \<Rightarrow> ('w, unit) go" where
  "diem_encode_args wr [] output = gret ()"
| "diem_encode_args wr (barg # bargs) output =
     gbind (out_chain [WriteUint16 wr (of_nat (length barg)), WriteBytes wr barg] output) (\<lambda>_. diem_encode_args wr bargs output)"

definition diem_encode_invoke ::
  "('k, 'a, 'g, 'x) diem_sdk \<Rightarrow> 'w write_op \<Rightarrow> byte \<Rightarrow> ('k, 'g) diem_invokeTransaction \<Rightarrow> ('w, unit) go" where
  "diem_encode_invoke dm wr first t =
     (if length (di_code t) > 65535 then gerr (Errorf ''code too large (%d bytes)'' [AInt (int (length (di_code t)))])
      else if length (di_args t) > 255 then gerr (Errorf ''too many arguments (%d)'' [AInt (int (length (di_args t)))])
      else
        gbind (glift (diem_serialize_args dm (di_args t))) (\<lambda>bargs.
        gbind (out_chain
          [WriteUint8 wr diem_type_invoke, WriteBytes wr (dm_Seed dm (di_from t)), WriteUint64 wr (di_sequence t),
           WriteUint16 wr (of_nat (length (di_code t))), WriteBytes wr (di_code t), WriteUint8 wr (of_nat (length bargs))]
          (SetOrder_out LittleEndian (NewMonadOutputWriter first))) (\<lambda>output.
        gbind (diem_encode_args wr bargs output) (\<lambda>_. glift (out_Error output)))))"

definition diem_decodeTransferTransaction ::
  "('k, 'a, 'g, 'x) diem_sdk \<Rightarrow> byte \<Rightarrow> (reader, ('k, 'a) diem_transferTransaction) go" where
  "diem_decodeTransferTransaction dm first =
     gbind (ReadUint8 PInt (SetOrder_in LittleEndian (NewMonadInputReader first))) (\<lambda>(toLen, mi).
     gbind (ReadBytes [] SeedSize mi) (\<lambda>(fromSeed, mi).
     gbind (ReadBytes [] toLen mi) (\<lambda>(toAddr, mi).
     gbind (ReadUint64 PUint64 mi) (\<lambda>(amount, mi).
     gbind (ReadUint64 PUint64 mi) (\<lambda>(sequence, mi).
     gbind (glift (in_Error mi)) (\<lambda>_.
     gbind (glift (dm_DeserializeAddress dm toAddr)) (\<lambda>addr.
     gbind (glift (diem_NewKeyFromSeed dm fromSeed)) (\<lambda>key.
     gret \<lparr>dt_from = key, dt_to = addr, dt_amount = of_nat amount, dt_sequence = of_nat sequence\<rparr>))))))))"

fun diem_decode_args :: "nat \<Rightarrow> MonadInput \<Rightarrow> (reader, byte list list) go" where
  "diem_decode_args 0 input = gret []"
| "diem_decode_args (Suc n) input =
     gbind (ReadUint16 PInt input) (\<lambda>(len, mi).
     gbind (ReadBytes [] len mi) (\<lambda>(barg, _).
     gbind (diem_decode_args n input) (\<lambda>bargs. gret (barg # bargs))))"

fun diem_deserialize_args :: "('k, 'a, 'g, 'x) diem_sdk \<Rightarrow> byte list list \<Rightarrow> 'g list outcome" where
  "diem_deserialize_args dm [] = Ok []"
| "diem_deserialize_args dm (barg # bargs) =
     obind (dm_DeserializeArgument dm barg) (\<lambda>arg. obind (diem_deserialize_args dm bargs) (\<lambda>args. Ok (arg # args)))"

definition diem_decodeInvokeTransaction ::
  "('k, 'a, 'g, 'x) diem_sdk \<Rightarrow> byte \<Rightarrow> (reader, ('k, 'g) diem_invokeTransaction) go" where
  "diem_decodeInvokeTransaction dm first =
     gbind (ReadBytes [] SeedSize (SetOrder_in LittleEndian (NewMonadInputReader first))) (\<lambda>(fromSeed, mi).
     gbind (ReadUint64 PUint64 mi) (\<lambda>(sequence, mi).
     gbind (ReadUint16 PInt mi) (\<lambda>(n, mi).
     gbind (ReadBytes [] n mi) (\<lambda>(code, mi).
     gbind (ReadUint8 PInt mi) (\<lambda>(n, input).
     gbind (diem_decode_args n input) (\<lambda>bargs.
     gbind (glift (in_Error input)) (\<lambda>_.
     gbind (glift (diem_deserialize_args dm bargs)) (\<lambda>args.
     gbind (glift (diem_NewKeyFromSeed dm fromSeed)) (\<lambda>key.
     gret \<lparr>di_from = key, di_code = code, di_args = args, di_sequence = of_nat sequence\<rparr>)))))))))"

definition diem_decodeTransaction ::
  "('k, 'a, 'g, 'x) diem_sdk \<Rightarrow> byte \<Rightarrow> (reader, ('k, 'a, 'g, 'x) diem_virtual) go" where
  "diem_decodeTransaction dm first =
     gbind (ReadUint8 PUint8 (SetOrder_in LittleEndian (NewMonadInputReader first))) (\<lambda>(txtype, mi).
     gbind (glift (in_Error mi)) (\<lambda>_.
     if of_nat txtype = diem_type_transfer
     then gbind (diem_decodeTransferTransaction dm first) (\<lambda>t. gret (DVTransfer t))
     else if of_nat txtype = diem_type_invoke
     then gbind (diem_decodeInvokeTransaction dm first) (\<lambda>t. gret (DVInvoke t))
     else gerr (Errorf ''unknown transaction type %d'' [AInt (int txtype)])))"

section \<open>The bytes\<close>

definition diem_transfer_bytes ::
  "('k, 'a, 'g, 'x) diem_sdk \<Rightarrow> byte list \<Rightarrow> ('k, 'a) diem_transferTransaction \<Rightarrow> byte list" where
  "diem_transfer_bytes dm to t = diem_type_transfer # of_nat (length to) # dm_Seed dm (dt_from t) @ to @
     put_u64 (dt_amount t) @ put_u64 (dt_sequence t)"

definition diem_arg_bytes :: "byte list list \<Rightarrow> byte list" where
  "diem_arg_bytes bargs = concat (map (\<lambda>barg. put_u16 (of_nat (length barg)) @ barg) bargs)"

definition diem_invoke_bytes ::
  "('k, 'a, 'g, 'x) diem_sdk \<Rightarrow> byte list list \<Rightarrow> ('k, 'g) diem_invokeTransaction \<Rightarrow> byte list" where
  "diem_invoke_bytes dm bargs t = diem_type_invoke # dm_Seed dm (di_from t) @ put_u64 (di_sequence t) @
     put_u16 (of_nat (length (di_code t))) @ di_code t @ of_nat (length bargs) # diem_arg_bytes bargs"

lemma diem_okD:
  assumes "diem_ok dm"
  shows "dm_KeyFromSeed dm (dm_Seed dm k) = k" "length (dm_Seed dm k) = SeedSize"
    "dm_SerializeAddress dm a = Ok bs \<Longrightarrow> dm_DeserializeAddress dm bs = Ok a"
    "dm_SerializeArgument dm g = Ok bs \<Longrightarrow> dm_DeserializeArgument dm bs = Ok g"
    "dm_Sender dm (dm_SignTxn dm k a seq p l) = a" "dm_SequenceNumber dm (dm_SignTxn dm k a seq p l) = seq"
    "diem_NewKeyFromSeed dm (dm_Seed dm k) = Ok k"
  using assms by (simp_all add: diem_ok_def diem_NewKeyFromSeed_def)

lemma diem_encode_transfer_buffer:
  assumes "dm_SerializeAddress dm (dt_to t) = Ok to" and "length to \<le> 255"
  shows "diem_encode_transfer dm buffer_write first t w = (Ok (), w @ diem_transfer_bytes dm to t)"
proof -
  let ?encs = "[\<lambda>_. [diem_type_transfer], \<lambda>_. [of_nat (length to)], \<lambda>_. dm_Seed dm (dt_from t), \<lambda>_. to,
      \<lambda>ord. put_uint ord 8 (unat (dt_amount t)), \<lambda>ord. put_uint ord 8 (unat (dt_sequence t))]"
  show ?thesis
    using chain_to_buffer [of ?encs first w] assms
    by (simp add: diem_encode_transfer_def gbind_def [of "glift _"] glift_run write_defs diem_transfer_bytes_def put_u64_def)
qed

lemma diem_encode_args_buffer:
  "diem_encode_args buffer_write bargs (MonadWriter LittleEndian) w = (Ok (), w @ diem_arg_bytes bargs)"
  by (induction bargs arbitrary: w)
    (simp_all add: gret_run diem_arg_bytes_def write_defs monad_write_buffer gbind_def gret_def put_u16_def)

lemma diem_serialize_args_length:
  "diem_serialize_args dm args = Ok bargs \<Longrightarrow> length bargs = length args \<and> list_all (\<lambda>b. length b \<le> 65535) bargs"
  by (induction args arbitrary: bargs) (auto simp: obind_def split: outcome.splits if_splits)

lemma diem_deserialize_args:
  "diem_ok dm \<Longrightarrow> diem_serialize_args dm args = Ok bargs \<Longrightarrow> diem_deserialize_args dm bargs = Ok args"
  by (induction args arbitrary: bargs) (auto simp: obind_def diem_okD split: outcome.splits if_splits)

lemma diem_encode_invoke_buffer:
  assumes "length (di_code t) \<le> 65535" and "length (di_args t) \<le> 255" and "diem_serialize_args dm (di_args t) = Ok bargs"
  shows "diem_encode_invoke dm buffer_write first t w = (Ok (), w @ diem_invoke_bytes dm bargs t)"
proof -
  let ?encs = "[\<lambda>_. [diem_type_invoke], \<lambda>_. dm_Seed dm (di_from t), \<lambda>ord. put_uint ord 8 (unat (di_sequence t)),
      \<lambda>ord. put_uint ord 2 (unat (of_nat (length (di_code t)) :: 16 word)), \<lambda>_. di_code t, \<lambda>_. [of_nat (length bargs)]]"
  have "out_chain (map (monad_write buffer_write) ?encs) (MonadWriter LittleEndian) w =
      (Ok (MonadWriter LittleEndian), w @ concat (map (\<lambda>enc. enc LittleEndian) ?encs))"
    by (simp add: monad_write_buffer gbind_def gret_def)
  then show ?thesis
    using assms
    by (simp add: diem_encode_invoke_def NewMonadOutputWriter_def write_defs gbind_def diem_encode_args_buffer
        glift_def diem_invoke_bytes_def put_u64_def put_u16_def)
qed

lemma diem_decode_transfer_bytes:
  assumes "diem_ok dm" and "dm_SerializeAddress dm (dt_to t) = Ok to" and "length to \<le> 255"
  shows "diem_decodeTransaction dm first (r\<lparr>r_input := diem_transfer_bytes dm to t @ rest\<rparr>) =
    (Ok (DVTransfer t), r\<lparr>r_input := rest\<rparr>)"
proof -
  have "diem_decodeTransferTransaction dm first (r\<lparr>r_input := of_nat (length to) # dm_Seed dm (dt_from t) @ to @
      put_u64 (dt_amount t) @ put_u64 (dt_sequence t) @ rest\<rparr>) = (Ok t, r\<lparr>r_input := rest\<rparr>)"
    using assms(2,3)
    by (simp add: diem_decodeTransferTransaction_def NewMonadInputReader_def gbind_def read_runs glift_def gret_def diem_okD [OF assms(1)])
  then show ?thesis
    by (simp add: diem_decodeTransaction_def diem_transfer_bytes_def NewMonadInputReader_def gbind_def read_type_u8
        glift_def gret_def diem_type_transfer_def)
qed

lemma diem_decode_args_bytes:
  assumes "list_all (\<lambda>b. length b \<le> 65535) bargs"
  shows "diem_decode_args (length bargs) (MonadReader LittleEndian) (r\<lparr>r_input := diem_arg_bytes bargs @ rest\<rparr>) =
    (Ok bargs, r\<lparr>r_input := rest\<rparr>)"
  using assms by (induction bargs) (simp_all add: gret_run diem_arg_bytes_def gbind_def read_runs gret_def)

lemma diem_decode_invoke_bytes:
  assumes "diem_ok dm" and "length (di_code t) \<le> 65535" and "length (di_args t) \<le> 255"
    and "diem_serialize_args dm (di_args t) = Ok bargs"
  shows "diem_decodeTransaction dm first (r\<lparr>r_input := diem_invoke_bytes dm bargs t @ rest\<rparr>) =
    (Ok (DVInvoke t), r\<lparr>r_input := rest\<rparr>)"
proof -
  have len: "length bargs \<le> 255" "list_all (\<lambda>b. length b \<le> 65535) bargs"
    using diem_serialize_args_length [OF assms(4)] assms(3) by simp_all
  have "diem_decodeInvokeTransaction dm first (r\<lparr>r_input := dm_Seed dm (di_from t) @ put_u64 (di_sequence t) @
     put_u16 (of_nat (length (di_code t))) @ di_code t @ of_nat (length bargs) # diem_arg_bytes bargs @ rest\<rparr>) =
     (Ok t, r\<lparr>r_input := rest\<rparr>)"
    using assms(2) len
    by (simp add: diem_decodeInvokeTransaction_def NewMonadInputReader_def gbind_def read_runs glift_def gret_def
        diem_decode_args_bytes diem_okD [OF assms(1)] diem_deserialize_args [OF assms(1,4)])
  then show ?thesis
    by (simp add: diem_decodeTransaction_def diem_invoke_bytes_def NewMonadInputReader_def gbind_def read_type_u8
        glift_def gret_def diem_type_transfer_def diem_type_invoke_def)
qed

text \<open>
  The signature is made once: a transaction that was signed stays as it is, and its key in the blocks is the
  address and the sequence number of its sender.
\<close>

fun diem_key :: "('k, 'a, 'g, 'x) diem_sdk \<Rightarrow> ('k, 'a, 'g, 'x) diem_virtual \<Rightarrow> 'a \<times> 64 word" where
  "diem_key dm (DVSigned stx name) = (dm_Sender dm stx, dm_SequenceNumber dm stx)"
| "diem_key dm (DVUnsigned from to sequence payload name) = (to, sequence)"
| "diem_key dm (DVTransfer t) = (dm_AccountAddress dm (dt_from t), dt_sequence t)"
| "diem_key dm (DVDeploy t) = (dm_AccountAddress dm (dd_from t), dd_sequence t)"
| "diem_key dm (DVInvoke t) = (dm_AccountAddress dm (di_from t), di_sequence t)"

lemma diem_getSigned_key:
  assumes "diem_ok dm" and "diem_getSigned dm now v = (v', stx)"
  shows "diem_key dm v' = diem_key dm v" "(dm_Sender dm stx, dm_SequenceNumber dm stx) = diem_key dm v"
    "diem_getSigned dm now' v' = (v', stx)" "diem_getName dm v' = diem_getName dm v"
  using assms(2)
  by (cases v; auto simp: diem_unsigned_getSigned_def diem_transfer_getSigned_def diem_deploy_getSigned_def
      diem_invoke_getSigned_def Let_def diem_okD [OF assms(1)])+

end
