(* ===== verification/Diem_Builder.thy ===== *)
theory Diem_Builder
  imports Diem_Transaction
begin

text \<open>
  The builder of the Diem driver (\<^verbatim>\<open>src/blockchains/ndiem/builder.go\<close>, \<^verbatim>\<open>contract.go\<close> and the builder part of
  \<^verbatim>\<open>interface.go\<close>). The accounts are the elements of a slice, and the program keeps pointers to
  elements while it appends to it, so they live in an explicit store: a pointer is the index of a cell, and the slice a
  window of cells. The goroutines that create accounts are in \<open>Diem_Accounts\<close>; here the account creator is three calls.
\<close>

section \<open>The world around the builder\<close>

text \<open>
  The node, the clock, the account creator, files and programs, over one state. \<open>dn_GetAccount\<close> gives
  the sequence number of an account, or nothing if there is none; \<open>dn_WaitForTransaction2\<close> the type of the
  status; \<open>dn_Ask\<close> writes a request to a helper process and gives the lines the scanner can read until
  the process waits again or has ended; \<open>dn_DecodeKeys\<close> the keys of an opened file, or nothing if it is empty.
\<close>

record ('k, 'a, 'x, 'p, 'n) diem_world =
  dn_GetAccount :: "'a \<Rightarrow> ('n, 64 word option) go"
  dn_SubmitTransaction :: "'x \<Rightarrow> ('n, unit) go"
  dn_WaitForTransaction2 :: "'x \<Rightarrow> nat \<Rightarrow> ('n, string) go"
  dn_GenerateKey :: "('n, 'k) go"
  dn_now :: "'n \<Rightarrow> int"
  dn_newAccountCreator :: "('n, unit) go"
  dn_createAccount :: "'k \<Rightarrow> ('n, unit) go"
  dn_wait :: "('n, unit) go"
  dn_TempDir :: "('n, string) go"
  dn_RemoveAll :: "string \<Rightarrow> ('n, unit) go"
  dn_MoveBuild :: "string list \<Rightarrow> ('n, unit) go"
  dn_ReadDir :: "string \<Rightarrow> ('n, string list) go"
  dn_ReadFile :: "string \<Rightarrow> ('n, byte list) go"
  dn_Open :: "string \<Rightarrow> ('n, unit) go"
  dn_DecodeKeys :: "string \<Rightarrow> ('n, string list option) go"
  dn_DeserializeBytes :: "byte list \<Rightarrow> byte list outcome"
  dn_LookPath :: "string \<Rightarrow> ('n, string) go"
  dn_StartServiceProcess :: "string \<Rightarrow> ('n, 'p) go"
  dn_Ask :: "string \<Rightarrow> ('p, string list) go"

record ('k, 'a) diem_account =
  dac_key :: 'k
  dac_addr :: 'a
  dac_sequence :: "64 word"

record 'p diem_application =
  dap_moduleCode :: "byte list"
  dap_ctorCode :: "byte list"
  dap_funcCodes :: "(string, byte list) gomap"
  dap_parser :: 'p
  dap_lines :: "string list"
  dap_deployed :: bool

text \<open>An application is entered once into the map of the applications, so a pointer to it is its name.\<close>

record diem_contract =
  dct_app :: string
  dct_addr :: nat

datatype diem_value = DAccount nat | DContract diem_contract

text \<open>
  The builder. \<open>db_base\<close>, \<open>db_len\<close> and \<open>db_cap\<close> are the slice \<^verbatim>\<open>premadeAccounts\<close>; \<open>db_creator\<close> tells whether
  there is an account creator. A compiler is its path and its standard libraries.
\<close>

record ('k, 'a, 'p, 'n) diem_builder =
  db_heap :: "('k, 'a) diem_account list"
  db_base :: nat
  db_len :: nat
  db_cap :: nat
  db_usedAccounts :: nat
  db_creator :: bool
  db_compilers :: "(string \<times> string list) list"
  db_applications :: "(string, 'p diem_application) gomap"
  db_ownerAccounts :: "(string, nat) gomap"
  db_node :: 'n

definition diem_newBuilder :: "'n \<Rightarrow> ('k, 'a, 'p, 'n) diem_builder" where
  "diem_newBuilder node = \<lparr>db_heap = [], db_base = 0, db_len = 0, db_cap = 0, db_usedAccounts = 0, db_creator = False,
     db_compilers = [], db_applications = [], db_ownerAccounts = [], db_node = node\<rparr>"

definition db_on_node :: "('n, 'c) go \<Rightarrow> (('k, 'a, 'p, 'n) diem_builder, 'c) go" where
  "db_on_node m = gzoom db_node (\<lambda>n b. b\<lparr>db_node := n\<rparr>) m"

section \<open>Accounts\<close>

text \<open>
  \<^verbatim>\<open>append\<close>: in place while the capacity lasts; otherwise the elements are copied to a new array, whose capacity for a
  given length, at least that, is \<open>grow\<close>. The cells beyond the length are not looked at.
\<close>

definition diem_append ::
  "(nat \<Rightarrow> nat) \<Rightarrow> ('k, 'a) diem_account \<Rightarrow> ('k, 'a, 'p, 'n) diem_builder \<Rightarrow> ('k, 'a, 'p, 'n) diem_builder" where
  "diem_append grow account b =
     (if db_len b < db_cap b
      then b\<lparr>db_heap := (db_heap b)[db_base b + db_len b := account], db_len := db_len b + 1\<rparr>
      else
        b\<lparr>db_heap := db_heap b @ take (db_len b) (drop (db_base b) (db_heap b)) @ account #
             replicate (grow (db_len b + 1) - (db_len b + 1)) account,
          db_base := length (db_heap b), db_len := db_len b + 1, db_cap := max (db_len b + 1) (grow (db_len b + 1))\<rparr>)"

definition diem_addAccount ::
  "('k, 'a, 'g, 'x) diem_sdk \<Rightarrow> (nat \<Rightarrow> nat) \<Rightarrow> 'k \<Rightarrow> ('k, 'a, 'p, 'n) diem_builder \<Rightarrow> ('k, 'a, 'p, 'n) diem_builder" where
  "diem_addAccount dm grow key =
     diem_append grow \<lparr>dac_key = key, dac_addr = dm_AccountAddress dm key, dac_sequence = 0\<rparr>"

definition diem_addCompiler :: "string \<Rightarrow> string list \<Rightarrow> ('k, 'a, 'p, 'n) diem_builder \<Rightarrow> ('k, 'a, 'p, 'n) diem_builder" where
  "diem_addCompiler path stdlibs b = b\<lparr>db_compilers := db_compilers b @ [(path, stdlibs)]\<rparr>"

definition diem_set_sequence :: "nat \<Rightarrow> 64 word \<Rightarrow> ('k, 'a, 'p, 'n) diem_builder \<Rightarrow> ('k, 'a, 'p, 'n) diem_builder" where
  "diem_set_sequence p sequence b = b\<lparr>db_heap := (db_heap b)[p := (db_heap b ! p)\<lparr>dac_sequence := sequence\<rparr>]\<rparr>"

text \<open>The account creator is waited for, and then there is none, also after an error.\<close>

definition diem_settle :: "('k, 'a, 'x, 'p, 'n) diem_world \<Rightarrow> (('k, 'a, 'p, 'n) diem_builder, unit) go" where
  "diem_settle nd = (\<lambda>b.
     if db_creator b
     then (case db_on_node (dn_wait nd) b of (r, b') \<Rightarrow> (r, b'\<lparr>db_creator := False\<rparr>))
     else (Ok (), b))"

definition diem_initAccount :: "('k, 'a, 'x, 'p, 'n) diem_world \<Rightarrow> nat \<Rightarrow> (('k, 'a, 'p, 'n) diem_builder, unit) go" where
  "diem_initAccount nd p =
     gbind (diem_settle nd) (\<lambda>_.
     gbind (gread (\<lambda>b. dac_addr (db_heap b ! p))) (\<lambda>addr.
     gbind (db_on_node (dn_GetAccount nd addr)) (\<lambda>acc.
     case acc of
       None \<Rightarrow> gerr (Errorf ''account does not exist'' [])
     | Some sequence \<Rightarrow> gmodify (diem_set_sequence p sequence))))"

text \<open>
  \<^verbatim>\<open>getAccount\<close>: a pointer to the account at the index, or an error, and the new value of the index, which is
  advanced before an error of the initialisation.
\<close>

definition diem_getAccount ::
  "('k, 'a, 'g, 'x) diem_sdk \<Rightarrow> ('k, 'a, 'x, 'p, 'n) diem_world \<Rightarrow> (nat \<Rightarrow> nat) \<Rightarrow> nat \<Rightarrow> ('k, 'a, 'p, 'n) diem_builder
     \<Rightarrow> (nat outcome \<times> nat) \<times> ('k, 'a, 'p, 'n) diem_builder" where
  "diem_getAccount dm nd grow index b =
     (if index < db_len b then
        (case diem_initAccount nd (db_base b + index) b of
           (r, b') \<Rightarrow> ((obind r (\<lambda>_. Ok (db_base b + index)), index + 1), b'))
      else if index = db_len b then
        (case db_on_node (dn_GenerateKey nd) b of
           (Err e, b1) \<Rightarrow> ((Err e, index), b1)
         | (Panic p, b1) \<Rightarrow> ((Panic p, index), b1)
         | (Ok sk, b1) \<Rightarrow>
             (case gbind (gread db_creator) (\<lambda>exists.
                gbind (if exists then gret ()
                       else gbind (db_on_node (dn_newAccountCreator nd)) (\<lambda>_. gmodify (\<lambda>b. b\<lparr>db_creator := True\<rparr>))) (\<lambda>_.
                db_on_node (dn_createAccount nd sk))) (diem_addAccount dm grow sk b1) of
                (r, b2) \<Rightarrow> ((obind r (\<lambda>_. Ok (db_base (diem_addAccount dm grow sk b1) + index)), index + 1), b2)))
      else ((Err (Errorf ''unexpected index %d'' [AInt (int index)]), index), b))"

definition diem_getBuilderAccount ::
  "('k, 'a, 'g, 'x) diem_sdk \<Rightarrow> ('k, 'a, 'x, 'p, 'n) diem_world \<Rightarrow> (nat \<Rightarrow> nat) \<Rightarrow> (('k, 'a, 'p, 'n) diem_builder, nat) go" where
  "diem_getBuilderAccount dm nd grow = (\<lambda>b. case diem_getAccount dm nd grow 0 b of ((r, _), b') \<Rightarrow> (r, b'))"

definition diem_getOwnerAccount ::
  "('k, 'a, 'g, 'x) diem_sdk \<Rightarrow> ('k, 'a, 'x, 'p, 'n) diem_world \<Rightarrow> (nat \<Rightarrow> nat) \<Rightarrow> string \<Rightarrow> (('k, 'a, 'p, 'n) diem_builder, nat) go" where
  "diem_getOwnerAccount dm nd grow name = (\<lambda>b.
     case diem_getAccount dm nd grow (case gomap_get (db_ownerAccounts b) name of None \<Rightarrow> 0 | Some index \<Rightarrow> index) b of
       ((r, index), b') \<Rightarrow> (r, b'\<lparr>db_ownerAccounts := gomap_set name index (db_ownerAccounts b')\<rparr>))"

definition diem_CreateAccount ::
  "('k, 'a, 'g, 'x) diem_sdk \<Rightarrow> ('k, 'a, 'x, 'p, 'n) diem_world \<Rightarrow> (nat \<Rightarrow> nat) \<Rightarrow> int
     \<Rightarrow> (('k, 'a, 'p, 'n) diem_builder, diem_value) go" where
  "diem_CreateAccount dm nd grow stake = (\<lambda>b.
     case diem_getAccount dm nd grow (db_usedAccounts b) b of
       ((r, index), b') \<Rightarrow> (obind r (\<lambda>p. Ok (DAccount p)), b'\<lparr>db_usedAccounts := index\<rparr>))"

section \<open>Contracts\<close>

text \<open>\<^verbatim>\<open>%02x\<close> of a byte.\<close>

definition hex_char :: "nat \<Rightarrow> char" where
  "hex_char n = (if n < 10 then char_of (48 + n) else char_of (87 + n))"

definition diem_getHexAddress :: "('k, 'a, 'g, 'x) diem_sdk \<Rightarrow> 'a \<Rightarrow> string" where
  "diem_getHexAddress dm addr =
     concat (map (\<lambda>b. [hex_char (unat b div 16), hex_char (unat b mod 16)]) (dm_AddressBytes dm addr))"

text \<open>The arguments of \<^verbatim>\<open>move-build\<close>, and the directory of its output, which is removed after an error.\<close>

definition move_args :: "string \<Rightarrow> string list \<Rightarrow> string \<Rightarrow> string list \<Rightarrow> string list" where
  "move_args owner stdlibs tmp paths =
     [''--addresses'', ''Owner=0x'' @ owner, ''--addresses'', ''Std=0x1''] @
     concat (map (\<lambda>stdlib. [''--dependency'', stdlib]) stdlibs) @ [''--out-dir'', tmp] @ paths"

definition diem_compileSources ::
  "('k, 'a, 'x, 'p, 'n) diem_world \<Rightarrow> string list \<Rightarrow> string list \<Rightarrow> string \<Rightarrow> ('n, string) go" where
  "diem_compileSources nd stdlibs paths owner =
     gbind (dn_TempDir nd) (\<lambda>tmp. (\<lambda>n.
       case dn_MoveBuild nd (move_args owner stdlibs tmp paths) n of
         (Ok _, n') \<Rightarrow> (Ok tmp, n')
       | (Err e, n') \<Rightarrow> (Err e, snd (dn_RemoveAll nd tmp n'))
       | (Panic p, n') \<Rightarrow> (Panic p, n')))"

text \<open>
  The loop over the names in a directory: the content of the only file with the suffix; nothing when there is
  none, without an error.
\<close>

fun diem_read_named ::
  "('k, 'a, 'x, 'p, 'n) diem_world \<Rightarrow> string \<Rightarrow> string \<Rightarrow> byte list option \<Rightarrow> string list \<Rightarrow> ('n, byte list) go" where
  "diem_read_named nd path suff content [] = gret (case content of None \<Rightarrow> [] | Some bs \<Rightarrow> bs)"
| "diem_read_named nd path suff content (name # names) =
     (if \<not> suffix suff name then diem_read_named nd path suff content names
      else if content \<noteq> None then gerr (Errorf (''more than one object in '%s'' @ apos) [AStr path])
      else gbind (dn_ReadFile nd (path @ ''/'' @ name)) (\<lambda>bs. diem_read_named nd path suff (Some bs) names))"

definition diem_readFileIn :: "('k, 'a, 'x, 'p, 'n) diem_world \<Rightarrow> string \<Rightarrow> string \<Rightarrow> ('n, byte list) go" where
  "diem_readFileIn nd path suff = gbind (dn_ReadDir nd path) (\<lambda>infos. diem_read_named nd path suff None infos)"

text \<open>What was compiled is read, and the directory removed in any case.\<close>

definition diem_collect ::
  "('k, 'a, 'x, 'p, 'n) diem_world \<Rightarrow> string list \<Rightarrow> string list \<Rightarrow> string \<Rightarrow> string \<Rightarrow> ('n, byte list) go" where
  "diem_collect nd stdlibs paths owner dir =
     gbind (diem_compileSources nd stdlibs paths owner) (\<lambda>out. (\<lambda>n.
       case diem_readFileIn nd (out @ dir) ''.mv'' n of (r, n') \<Rightarrow> (r, snd (dn_RemoveAll nd out n'))))"

definition diem_compileModule ::
  "('k, 'a, 'x, 'p, 'n) diem_world \<Rightarrow> string list \<Rightarrow> string \<Rightarrow> string \<Rightarrow> ('n, byte list) go" where
  "diem_compileModule nd stdlibs path owner = diem_collect nd stdlibs [path] owner ''/modules''"

definition diem_compileScript ::
  "('k, 'a, 'x, 'p, 'n) diem_world \<Rightarrow> string list \<Rightarrow> string \<Rightarrow> string \<Rightarrow> string \<Rightarrow> ('n, byte list) go" where
  "diem_compileScript nd stdlibs module script owner = diem_collect nd stdlibs [module, script] owner ''/scripts''"

fun diem_compile_functions ::
  "('k, 'a, 'x, 'p, 'n) diem_world \<Rightarrow> string list \<Rightarrow> string \<Rightarrow> string \<Rightarrow> string \<Rightarrow> string list \<Rightarrow> (string, byte list) gomap
     \<Rightarrow> ('n, (string, byte list) gomap) go" where
  "diem_compile_functions nd stdlibs dir mdpath owner [] funcs = gret funcs"
| "diem_compile_functions nd stdlibs dir mdpath owner (scname # names) funcs =
     (if scname = ''module.move'' \<or> scname = ''new.move'' \<or> \<not> suffix ''.move'' scname
      then diem_compile_functions nd stdlibs dir mdpath owner names funcs
      else
        gbind (diem_compileScript nd stdlibs mdpath (dir @ ''/'' @ scname) owner) (\<lambda>code.
        diem_compile_functions nd stdlibs dir mdpath owner names
          (gomap_set (take (length scname - length ''.move'') scname) code funcs)))"

definition diem_compile ::
  "('k, 'a, 'x, 'p, 'n) diem_world \<Rightarrow> string \<times> string list \<Rightarrow> string \<Rightarrow> string \<Rightarrow> ('n, 'p diem_application) go" where
  "diem_compile nd compiler name owner =
     (case compiler of (base, stdlibs) \<Rightarrow>
       let dir = base @ ''/'' @ name; mdpath = dir @ ''/module.move''; path = dir @ ''/arguments'' in
       gbind (diem_compileModule nd stdlibs mdpath owner) (\<lambda>module.
       gbind (diem_compileScript nd stdlibs mdpath (dir @ ''/new.move'') owner) (\<lambda>ctor.
       gbind (dn_ReadDir nd dir) (\<lambda>infos.
       gbind (diem_compile_functions nd stdlibs dir mdpath owner infos []) (\<lambda>funcs.
       gbind (dn_StartServiceProcess nd (if prefix ''/'' path then path else ''./'' @ path)) (\<lambda>parser.
       gret \<lparr>dap_moduleCode = module, dap_ctorCode = ctor, dap_funcCodes = funcs, dap_parser = parser, dap_lines = [],
             dap_deployed = False\<rparr>))))))"

text \<open>
  An argument that the helper process gives: the letter of its type and its value. \<^verbatim>\<open>Uint64\<close> panics on
  fewer than eight bytes.
\<close>

definition diem_argument :: "('k, 'a, 'g, 'x) diem_sdk \<Rightarrow> 'a \<Rightarrow> string \<Rightarrow> 'g outcome" where
  "diem_argument dm addr line =
     obind (base64_DecodeString line) (\<lambda>arg.
     case arg of
       [] \<Rightarrow> Err (Errorf (''invalid argument format: '%s'' @ apos) [AStr line])
     | t # val \<Rightarrow>
         if t = 0x61 then Ok (dm_ArgAddress dm addr)
         else if t = 0x76 then Ok (dm_ArgU8Vector dm val)
         else if t = 0x36 then
           (if length val < 8 then Panic ''index out of range''
            else Ok (dm_ArgU64 dm (of_nat (get_uint LittleEndian (take 8 val)))))
         else Err (Errorf (''unknown argument type '%c'' @ apos) [AInt (int (unat t))]))"

fun diem_scan_args :: "('k, 'a, 'g, 'x) diem_sdk \<Rightarrow> 'a \<Rightarrow> string list \<Rightarrow> 'g list \<Rightarrow> 'g list outcome \<times> string list" where
  "diem_scan_args dm addr [] args = (Ok args, [])"
| "diem_scan_args dm addr (line # lines) args =
     (if line = [] then (Ok args, lines)
      else case diem_argument dm addr line of
          Ok arg \<Rightarrow> diem_scan_args dm addr lines (args @ [arg])
        | Err e \<Rightarrow> (Err e, lines)
        | Panic p \<Rightarrow> (Panic p, lines))"

definition diem_scan_call ::
  "('k, 'a, 'g, 'x) diem_sdk \<Rightarrow> 'a \<Rightarrow> string \<Rightarrow> (string, byte list) gomap \<Rightarrow> string list
     \<Rightarrow> (byte list \<times> 'g list) outcome \<times> string list" where
  "diem_scan_call dm addr function codes lines =
     (case lines of
        [] \<Rightarrow> (Err (Errorf ''function '%s' parsing failed: scan'' [AStr function]), [])
      | line # lines \<Rightarrow>
          if line = [] then (Err (Errorf ''function '%s' parsing failed: text'' [AStr function]), lines)
          else case gomap_get codes line of
              None \<Rightarrow> (Err (Errorf (''unknown function name '%s'' @ apos) [AStr line]), lines)
            | Some code \<Rightarrow>
                (case diem_scan_args dm addr lines [] of (r, rest) \<Rightarrow> (obind r (\<lambda>args. Ok (code, args)), rest)))"

definition diem_arguments ::
  "('k, 'a, 'g, 'x) diem_sdk \<Rightarrow> ('k, 'a, 'x, 'p, 'n) diem_world \<Rightarrow> string \<Rightarrow> 'a
     \<Rightarrow> ('p diem_application, byte list \<times> 'g list) go" where
  "diem_arguments dm nd function addr = (\<lambda>a.
     case dn_Ask nd (function @ [CHR 10]) (dap_parser a) of
       (Err e, p) \<Rightarrow> (Err e, a\<lparr>dap_parser := p\<rparr>)
     | (Panic q, p) \<Rightarrow> (Panic q, a\<lparr>dap_parser := p\<rparr>)
     | (Ok answer, p) \<Rightarrow>
         (case diem_scan_call dm addr function (dap_funcCodes a) (dap_lines a @ answer) of
            (r, lines) \<Rightarrow> (r, a\<lparr>dap_parser := p, dap_lines := lines\<rparr>)))"

section \<open>The operations\<close>

fun diem_first_compiled ::
  "('k, 'a, 'x, 'p, 'n) diem_world \<Rightarrow> (string \<times> string list) list \<Rightarrow> string \<Rightarrow> string \<Rightarrow> ('n, 'p diem_application option) go" where
  "diem_first_compiled nd [] name owner = gret None"
| "diem_first_compiled nd (c # cs) name owner = (\<lambda>n.
     case diem_compile nd c name owner n of
       (Ok appli, n') \<Rightarrow> (Ok (Some appli), n')
     | (Err _, n') \<Rightarrow> diem_first_compiled nd cs name owner n'
     | (Panic p, n') \<Rightarrow> (Panic p, n'))"

text \<open>The application is found under its name afterwards.\<close>

definition diem_getApplication ::
  "('k, 'a, 'g, 'x) diem_sdk \<Rightarrow> ('k, 'a, 'x, 'p, 'n) diem_world \<Rightarrow> (nat \<Rightarrow> nat) \<Rightarrow> string \<Rightarrow> (('k, 'a, 'p, 'n) diem_builder, unit) go" where
  "diem_getApplication dm nd grow name =
     gbind (diem_getBuilderAccount dm nd grow) (\<lambda>builder.
     gbind (gread (\<lambda>b. gomap_get (db_applications b) name)) (\<lambda>found.
     if found \<noteq> None then gret ()
     else
       gbind (gread (\<lambda>b. (db_compilers b, diem_getHexAddress dm (dac_addr (db_heap b ! builder))))) (\<lambda>(compilers, owner).
       gbind (db_on_node (diem_first_compiled nd compilers name owner)) (\<lambda>appli.
       case appli of
         None \<Rightarrow> gerr (Errorf (''failed to compile contract '%s'' @ apos) [AStr name])
       | Some appli \<Rightarrow> gmodify (\<lambda>b. b\<lparr>db_applications := gomap_set name appli (db_applications b)\<rparr>)))))"

definition diem_submitTransaction ::
  "('k, 'a, 'x, 'p, 'n) diem_world \<Rightarrow> 'x \<Rightarrow> (('k, 'a, 'p, 'n) diem_builder, unit) go" where
  "diem_submitTransaction nd stx =
     gbind (db_on_node (dn_SubmitTransaction nd stx)) (\<lambda>_.
     gbind (db_on_node (dn_WaitForTransaction2 nd stx 30)) (\<lambda>status.
     if status \<noteq> ''executed'' then gerr (Errorf ''transaction failed to execute (%s)'' [AStr status]) else gret ()))"

text \<open>A transaction of the builder's own, signed at the time of the clock, and submitted.\<close>

definition diem_submit ::
  "('k, 'a, 'g, 'x) diem_sdk \<Rightarrow> ('k, 'a, 'x, 'p, 'n) diem_world \<Rightarrow> ('k, 'a, 'g, 'x) diem_virtual
     \<Rightarrow> (('k, 'a, 'p, 'n) diem_builder, unit) go" where
  "diem_submit dm nd tx =
     gbind (gread (\<lambda>b. dn_now nd (db_node b))) (\<lambda>now. diem_submitTransaction nd (snd (diem_getSigned dm now tx)))"

definition diem_appli :: "string \<Rightarrow> (('k, 'a, 'p, 'n) diem_builder, 'p diem_application) go" where
  "diem_appli name = (\<lambda>b.
     (case gomap_get (db_applications b) name of None \<Rightarrow> Panic ''nil pointer dereference'' | Some a \<Rightarrow> Ok a, b))"

definition diem_deployApplication ::
  "('k, 'a, 'g, 'x) diem_sdk \<Rightarrow> ('k, 'a, 'x, 'p, 'n) diem_world \<Rightarrow> (nat \<Rightarrow> nat) \<Rightarrow> string \<Rightarrow> (('k, 'a, 'p, 'n) diem_builder, unit) go" where
  "diem_deployApplication dm nd grow name =
     gbind (diem_getBuilderAccount dm nd grow) (\<lambda>builder.
     gbind (diem_appli name) (\<lambda>appli.
     gbind (gread (\<lambda>b. db_heap b ! builder)) (\<lambda>account.
     diem_submit dm nd (DVDeploy \<lparr>dd_from = dac_key account, dd_code = dap_moduleCode appli, dd_sequence = dac_sequence account\<rparr>))))"

definition diem_getDeployedApplication ::
  "('k, 'a, 'g, 'x) diem_sdk \<Rightarrow> ('k, 'a, 'x, 'p, 'n) diem_world \<Rightarrow> (nat \<Rightarrow> nat) \<Rightarrow> string \<Rightarrow> (('k, 'a, 'p, 'n) diem_builder, unit) go" where
  "diem_getDeployedApplication dm nd grow name =
     gbind (diem_getApplication dm nd grow name) (\<lambda>_.
     gbind (diem_appli name) (\<lambda>appli.
     if dap_deployed appli then gret ()
     else
       gbind (diem_deployApplication dm nd grow name) (\<lambda>_.
       gbind (diem_appli name) (\<lambda>appli.
       gmodify (\<lambda>b. b\<lparr>db_applications := gomap_set name (appli\<lparr>dap_deployed := True\<rparr>) (db_applications b)\<rparr>)))))"

definition diem_CreateContract ::
  "('k, 'a, 'g, 'x) diem_sdk \<Rightarrow> ('k, 'a, 'x, 'p, 'n) diem_world \<Rightarrow> (nat \<Rightarrow> nat) \<Rightarrow> string
     \<Rightarrow> (('k, 'a, 'p, 'n) diem_builder, diem_value) go" where
  "diem_CreateContract dm nd grow name =
     gbind (diem_getDeployedApplication dm nd grow name) (\<lambda>_.
     gbind (diem_getOwnerAccount dm nd grow name) (\<lambda>owner.
     gbind (diem_appli name) (\<lambda>appli.
     gbind (gread (\<lambda>b. db_heap b ! owner)) (\<lambda>account.
     gbind (diem_submit dm nd (DVInvoke \<lparr>di_from = dac_key account, di_code = dap_ctorCode appli, di_args = [],
         di_sequence = dac_sequence account\<rparr>)) (\<lambda>_.
     gret (DContract \<lparr>dct_app = name, dct_addr = owner\<rparr>))))))"

definition diem_CreateResource :: "string \<Rightarrow> 'z option" where
  "diem_CreateResource domain = None"

text \<open>The type assertions \<^verbatim>\<open>.(*account)\<close> and \<^verbatim>\<open>.(*contract)\<close>.\<close>

fun diem_as_account :: "diem_value bvalue \<Rightarrow> nat outcome" where
  "diem_as_account (GRes (ROpaque (DAccount p))) = Ok p"
| "diem_as_account _ = Panic ''interface conversion''"

fun diem_as_contract :: "diem_value bvalue \<Rightarrow> diem_contract outcome" where
  "diem_as_contract (GRes (ROpaque (DContract c))) = Ok c"
| "diem_as_contract _ = Panic ''interface conversion''"

definition diem_bump :: "nat \<Rightarrow> ('k, 'a, 'p, 'n) diem_builder \<Rightarrow> ('k, 'a, 'p, 'n) diem_builder" where
  "diem_bump p b = diem_set_sequence p (dac_sequence (db_heap b ! p) + 1) b"

definition diem_EncodeTransfer ::
  "('k, 'a, 'g, 'x) diem_sdk \<Rightarrow> ('k, 'a, 'x, 'p, 'n) diem_world \<Rightarrow> int \<Rightarrow> diem_value bvalue \<Rightarrow> diem_value bvalue
     \<Rightarrow> interactionInformation \<Rightarrow> (('k, 'a, 'p, 'n) diem_builder, byte list) go" where
  "diem_EncodeTransfer dm nd amount from to info =
     gbind (diem_settle nd) (\<lambda>_.
     gbind (glift (diem_as_account from)) (\<lambda>f.
     gbind (glift (diem_as_account to)) (\<lambda>t.
     gbind (gread (\<lambda>b. (db_heap b ! f, db_heap b ! t))) (\<lambda>(af, at).
     gbind (to_buffer (diem_encode_transfer dm buffer_write 0x11
         \<lparr>dt_from = dac_key af, dt_to = dac_addr at, dt_amount = word_of_int amount, dt_sequence = dac_sequence af\<rparr>)) (\<lambda>bytes.
     gbind (gmodify (diem_bump f)) (\<lambda>_.
     gret bytes))))))"

definition diem_call_arguments ::
  "('k, 'a, 'g, 'x) diem_sdk \<Rightarrow> ('k, 'a, 'x, 'p, 'n) diem_world \<Rightarrow> diem_contract \<Rightarrow> string
     \<Rightarrow> (('k, 'a, 'p, 'n) diem_builder, byte list \<times> 'g list) go" where
  "diem_call_arguments dm nd cont function = (\<lambda>b.
     case gomap_get (db_applications b) (dct_app cont) of
       None \<Rightarrow> (Panic ''nil pointer dereference'', b)
     | Some appli \<Rightarrow>
         (case diem_arguments dm nd function (dac_addr (db_heap b ! dct_addr cont)) appli of
            (r, appli') \<Rightarrow> (r, b\<lparr>db_applications := gomap_set (dct_app cont) appli' (db_applications b)\<rparr>)))"

definition diem_EncodeInvoke ::
  "('k, 'a, 'g, 'x) diem_sdk \<Rightarrow> ('k, 'a, 'x, 'p, 'n) diem_world \<Rightarrow> diem_value bvalue \<Rightarrow> diem_value bvalue \<Rightarrow> string
     \<Rightarrow> interactionInformation \<Rightarrow> (('k, 'a, 'p, 'n) diem_builder, byte list) go" where
  "diem_EncodeInvoke dm nd from contr function info =
     gbind (diem_settle nd) (\<lambda>_.
     gbind (glift (diem_as_contract contr)) (\<lambda>cont.
     gbind (diem_call_arguments dm nd cont function) (\<lambda>(code, args).
     gbind (glift (diem_as_account from)) (\<lambda>f.
     gbind (gread (\<lambda>b. db_heap b ! f)) (\<lambda>af.
     gbind (to_buffer (diem_encode_invoke dm buffer_write 0x11
         \<lparr>di_from = dac_key af, di_code = code, di_args = args, di_sequence = dac_sequence af\<rparr>)) (\<lambda>bytes.
     gbind (gmodify (diem_bump f)) (\<lambda>_.
     gret bytes)))))))"

definition diem_EncodeInteraction :: "string \<Rightarrow> bexpr \<Rightarrow> interactionInformation \<Rightarrow> ('w, byte list) go" where
  "diem_EncodeInteraction itype e info = gret []"

section \<open>The environment of the builder\<close>

fun diem_list_stdlibs :: "string \<Rightarrow> string list \<Rightarrow> string list" where
  "diem_list_stdlibs stdlib [] = []"
| "diem_list_stdlibs stdlib (name # names) =
     (if suffix ''.move'' name then (stdlib @ ''/'' @ name) # diem_list_stdlibs stdlib names
      else diem_list_stdlibs stdlib names)"

text \<open>\<^verbatim>\<open>addPremadeAccounts\<close>; a file with nothing in it is accepted. A seed of the wrong length panics.\<close>

fun diem_add_keys ::
  "('k, 'a, 'g, 'x) diem_sdk \<Rightarrow> (nat \<Rightarrow> nat) \<Rightarrow> string list \<Rightarrow> (('k, 'a, 'p, 'n) diem_builder, unit) go" where
  "diem_add_keys dm grow [] = gret ()"
| "diem_add_keys dm grow (key # keys) = (\<lambda>b.
     case hex_DecodeString key of
       Err e \<Rightarrow> (Err (Errorf ''addPremadeAccounts: failed to decode hex key: %v'' [AErr e]), b)
     | Panic p \<Rightarrow> (Panic p, b)
     | Ok seed \<Rightarrow>
         (case diem_NewKeyFromSeed dm seed of
            Panic p \<Rightarrow> (Panic p, b)
          | Err e \<Rightarrow> (Err e, b)
          | Ok k \<Rightarrow> diem_add_keys dm grow keys (diem_addAccount dm grow k b)))"


text \<open>An error that is reported within another one.\<close>

definition gwrap :: "string \<Rightarrow> go_arg list \<Rightarrow> ('s, 'c) go \<Rightarrow> ('s, 'c) go" where
  "gwrap text args m = (\<lambda>s. case m s of (Err e, s') \<Rightarrow> (Err (Errorf text (args @ [AErr e])), s') | r \<Rightarrow> r)"

definition diem_addPremadeAccounts ::
  "('k, 'a, 'g, 'x) diem_sdk \<Rightarrow> ('k, 'a, 'x, 'p, 'n) diem_world \<Rightarrow> (nat \<Rightarrow> nat) \<Rightarrow> string \<Rightarrow> (('k, 'a, 'p, 'n) diem_builder, unit) go" where
  "diem_addPremadeAccounts dm nd grow path =
     gbind (gwrap ''addPremadeAccounts: failed to open file: %v'' [] (db_on_node (dn_Open nd path))) (\<lambda>_.
     gbind (gwrap ''addPremadeAccounts: failed to decode file: %v'' [] (db_on_node (dn_DecodeKeys nd path))) (\<lambda>keys.
     diem_add_keys dm grow (case keys of None \<Rightarrow> [] | Some ks \<Rightarrow> ks)))"

definition diem_apply_env ::
  "('k, 'a, 'g, 'x) diem_sdk \<Rightarrow> ('k, 'a, 'x, 'p, 'n) diem_world \<Rightarrow> (nat \<Rightarrow> nat) \<Rightarrow> string list \<Rightarrow> string \<times> string list
     \<Rightarrow> (('k, 'a, 'p, 'n) diem_builder, unit) go" where
  "diem_apply_env dm nd grow stdlibs = (\<lambda>(key, values).
     if key = ''accounts'' then gfor values (diem_addPremadeAccounts dm nd grow)
     else if key = ''contracts'' then gfor values (\<lambda>path. gmodify (diem_addCompiler path stdlibs))
     else gerr (Errorf (''unknown environment key '%s'' @ apos) [AStr key]))"

text \<open>The location of the standard libraries: given by the environment, or next to the program \<^verbatim>\<open>move-build\<close>.\<close>

definition diem_stdlib :: "('k, 'a, 'x, 'p, 'n) diem_world \<Rightarrow> (string, string list) gomap \<Rightarrow> ('n, string) go" where
  "diem_stdlib nd envmap =
     (case gomap_get envmap ''stdlib'' of
        Some [stdlib] \<Rightarrow> gret stdlib
      | Some _ \<Rightarrow> gerr (Errorf ''more than 1 stdlib location'' [])
      | None \<Rightarrow>
          gbind (gwrap ''cannot find stdlib: %s'' [] (dn_LookPath nd ''move-build'')) (\<lambda>path.
          gret ((if suffix ''/move-build'' path then take (length path - length ''/move-build'') path else path) @
            ''/../../language/move-stdlib/sources'')))"

definition diem_listStdlibs :: "('k, 'a, 'x, 'p, 'n) diem_world \<Rightarrow> string \<Rightarrow> ('n, string list) go" where
  "diem_listStdlibs nd stdlib = gbind (dn_ReadDir nd stdlib) (\<lambda>entries. gret (diem_list_stdlibs stdlib entries))"

text \<open>
  \<^verbatim>\<open>Builder\<close>; \<open>keys\<close> are the endpoints in the order of the loop that takes the first one, and \<open>it\<close> gives the order in
  which the last loop goes through the environment. The keys that are made of the mint key are left out: only the account
  creator uses them.
\<close>

definition diem_Builder ::
  "('k, 'a, 'g, 'x) diem_sdk \<Rightarrow> ('k, 'a, 'x, 'p, 'n) diem_world \<Rightarrow> (nat \<Rightarrow> nat) \<Rightarrow> (string \<Rightarrow> 'n) \<Rightarrow> (string, string) gomap
     \<Rightarrow> string list \<Rightarrow> ((string, string list) gomap \<Rightarrow> (string \<times> string list) list) \<Rightarrow> string list
     \<Rightarrow> ('k, 'a, 'p, 'n) diem_builder outcome" where
  "diem_Builder dm nd grow New params keys it env =
     obind (parseEnvmap env) (\<lambda>envmap.
     let endpoint = (case keys of [] \<Rightarrow> [] | key # _ \<Rightarrow> key) in
     case gomap_get params ''mintkey'' of
       None \<Rightarrow> Err (Errorf ''mintkey path missing'' [])
     | Some mintkey \<Rightarrow>
         fst (gbind (db_on_node (dn_ReadFile nd mintkey)) (\<lambda>bcs.
           gbind (glift (dn_DeserializeBytes nd bcs)) (\<lambda>seed.
           gbind (glift (diem_NewKeyFromSeed dm seed)) (\<lambda>_.
           gbind (db_on_node (diem_stdlib nd envmap)) (\<lambda>stdlib.
           gbind (gwrap ''cannot list stdlib files in '%s': %s'' [AStr stdlib] (db_on_node (diem_listStdlibs nd stdlib))) (\<lambda>stdlibs.
           gbind (gfor (it envmap) (diem_apply_env dm nd grow stdlibs)) (\<lambda>_.
           gread (\<lambda>b. b))))))) (diem_newBuilder (New (''http://'' @ endpoint)))))"

section \<open>The builder interface\<close>

definition diem_env ::
  "('k, 'a, 'g, 'x) diem_sdk \<Rightarrow> ('k, 'a, 'x, 'p, 'n) diem_world \<Rightarrow> (nat \<Rightarrow> nat)
     \<Rightarrow> ('h, ('k, 'a, 'p, 'n) diem_builder, diem_value, 'z) env \<Rightarrow> ('h, ('k, 'a, 'p, 'n) diem_builder, diem_value, 'z) env" where
  "diem_env dm nd grow env = env\<lparr>env_CreateAccount := diem_CreateAccount dm nd grow,
     env_CreateContract := diem_CreateContract dm nd grow, env_CreateResource := diem_CreateResource,
     env_EncodeTransfer := diem_EncodeTransfer dm nd, env_EncodeInvoke := diem_EncodeInvoke dm nd,
     env_EncodeInteraction := diem_EncodeInteraction\<rparr>"

interpretation diem: blockchain_builder "diem_env dm nd grow env" for dm nd grow env
  by unfold_locales (auto simp: diem_env_def diem_CreateResource_def diem_EncodeInteraction_def keeps_gret)

section \<open>The environment key of the standard libraries\<close>

lemma fst_OkD: "fst p = Ok x \<Longrightarrow> \<exists>s. p = (Ok x, s)"
  by (cases p) simp

lemma gfor_stops:
  assumes "x \<in> set xs" and "\<And>s s'. f x s \<noteq> (Ok (), s')"
  shows "gfor xs f s \<noteq> (Ok (), s')"
  using assms(1)
proof (induction xs arbitrary: s)
  case (Cons y ys)
  then show ?case using assms(2) by (auto elim!: gbind_OkE)
qed simp

text \<open>
  The builder reads the location of the standard libraries from the environment key \<open>stdlib\<close>, and then its loop over the
  environment rejects that key: an environment with it never gives a builder.
\<close>

theorem diem_stdlib_rejected:
  assumes "parseEnvmap env = Ok envmap" and "gomap_get envmap ''stdlib'' = Some values"
    and "\<And>m. set (it m) = set (m :: (string, string list) gomap)"
  shows "diem_Builder dm nd grow New params keys it env \<noteq> Ok b"
proof
  assume run: "diem_Builder dm nd grow New params keys it env = Ok b"
  have "(''stdlib'', values) \<in> set (it envmap)" using assms(2,3) by (simp add: map_of_SomeD)
  then have stop: "gfor (it envmap) (diem_apply_env dm nd grow stdlibs) s \<noteq> (Ok (), s')" for stdlibs s s'
    by (rule gfor_stops) (simp add: diem_apply_env_def gerr_run)
  from run assms(1) show False
    by (auto simp: diem_Builder_def obind_def Let_def stop dest!: fst_OkD elim!: gbind_OkE split: option.splits)
qed

end
