(* ===== verification/Diem_Client.thy ===== *)
theory Diem_Client
  imports Diem_Transaction Core_Report
begin

text \<open>
  The client of the Diem driver (\<^verbatim>\<open>src/blockchains/ndiem/client.go\<close> and the client part of \<^verbatim>\<open>interface.go\<close>): its
  creation, the decoding and preparation of payloads, and its two confirmers. The one that polls blocks
  registers a call before its transaction is submitted; its calls and its goroutine interleave, so they are a
  step relation on the state they share.
\<close>

section \<open>Preparation and creation\<close>

datatype diem_preparer = DiemNothing | DiemSignature
datatype diem_confirmer = DiemPolltx | DiemPollblk

text \<open>A transaction is a pointer: what becomes of it is given back.\<close>

fun diem_prepare ::
  "('k, 'a, 'g, 'x) diem_sdk \<Rightarrow> int \<Rightarrow> diem_preparer \<Rightarrow> ('k, 'a, 'g, 'x) diem_virtual \<Rightarrow> ('k, 'a, 'g, 'x) diem_virtual" where
  "diem_prepare dm now DiemNothing tx = tx"
| "diem_prepare dm now DiemSignature tx = fst (diem_getSigned dm now tx)"

definition diem_DecodePayload ::
  "('k, 'a, 'g, 'x) diem_sdk \<Rightarrow> int \<Rightarrow> diem_preparer \<Rightarrow> byte list \<Rightarrow> ('k, 'a, 'g, 'x) diem_virtual outcome" where
  "diem_DecodePayload dm now preparer encoded =
     obind (fst (diem_decodeTransaction dm 0x11 \<lparr>r_input = encoded, r_err = EOF\<rparr>)) (\<lambda>tx.
     Ok (diem_prepare dm now preparer tx))"

definition diem_parseConfirm :: "string \<Rightarrow> diem_confirmer outcome" where
  "diem_parseConfirm mode =
     (if mode = ''polltx'' then Ok DiemPolltx
      else if mode = ''pollblk'' then Ok DiemPollblk
      else Err (Errorf (''unknown confirm method '%s'' @ apos) [AStr mode]))"

definition diem_parsePrepare :: "string \<Rightarrow> diem_preparer outcome" where
  "diem_parsePrepare mode =
     (if mode = ''nothing'' then Ok DiemNothing
      else if mode = ''signature'' then Ok DiemSignature
      else Err (Errorf (''unknown prepare method '%s'' @ apos) [AStr mode]))"

fun diem_parse_params ::
  "(string \<times> string) list \<Rightarrow> diem_confirmer option \<times> diem_preparer option \<Rightarrow> (diem_confirmer option \<times> diem_preparer option) outcome" where
  "diem_parse_params [] chosen = Ok chosen"
| "diem_parse_params ((key, val) # params) (confirmer, preparer) =
     (if key = ''confirm'' then obind (diem_parseConfirm val) (\<lambda>c. diem_parse_params params (Some c, preparer))
      else if key = ''prepare'' then obind (diem_parsePrepare val) (\<lambda>p. diem_parse_params params (confirmer, Some p))
      else Err (Errorf (''unknown parameter '%s'' @ apos) [AStr key]))"

text \<open>\<^verbatim>\<open>Client\<close>: the connection to the first endpoint of the view, the preparer and the confirmer.\<close>

definition diem_Client ::
  "(string \<Rightarrow> 'n) \<Rightarrow> (string \<times> string) list \<Rightarrow> string list \<Rightarrow> ('n \<times> diem_preparer \<times> diem_confirmer) outcome" where
  "diem_Client New params view =
     (case view of
        [] \<Rightarrow> Panic ''index out of range''
      | endpoint # _ \<Rightarrow>
          obind (diem_parse_params params (None, None)) (\<lambda>(confirmer, preparer).
          Ok (New (''http://'' @ endpoint), (case preparer of Some p \<Rightarrow> p | None \<Rightarrow> DiemSignature),
            (case confirmer of Some c \<Rightarrow> c | None \<Rightarrow> DiemPolltx))))"

section \<open>Waiting for each transaction\<close>

text \<open>
  \<^verbatim>\<open>TriggerInteraction\<close> with the first confirmer, from what \<^verbatim>\<open>SubmitTransaction\<close> and then
  \<^verbatim>\<open>WaitForTransaction2\<close>, which gives the type of the status, return: what is reported and what is returned. The
  error of \<^verbatim>\<open>SubmitTransaction\<close> is returned with the name of the transaction, and nothing but the
  submission is reported.
\<close>

definition diem_TriggerInteraction ::
  "unit outcome \<Rightarrow> (go_error \<Rightarrow> go_error) \<Rightarrow> string outcome \<Rightarrow> report list \<times> unit outcome" where
  "diem_TriggerInteraction submitted failed state =
     (case submitted of
        Panic p \<Rightarrow> ([RepSubmit], Panic p)
      | Err e \<Rightarrow> ([RepSubmit], Err (failed e))
      | Ok _ \<Rightarrow>
          (case state of
             Panic p \<Rightarrow> ([RepSubmit], Panic p)
           | Err e \<Rightarrow> ([RepSubmit], Err e)
           | Ok status \<Rightarrow> ([RepSubmit, if status \<noteq> ''executed'' then RepAbort else RepCommit], Ok ())))"

section \<open>Polling blocks\<close>

text \<open>
  A call of \<^verbatim>\<open>TriggerInteraction\<close>: registered by \<^verbatim>\<open>prepare\<close>; submitting, after \<^verbatim>\<open>ReportSubmit\<close>; sent, before
  \<^verbatim>\<open>confirm\<close>; waiting on its channel.
\<close>

datatype diem_call = DIdle | DPrepared | DSubmitting | DSent | DWaiting | DReturned "go_error option"

text \<open>The goroutine: polling; with a transaction it has taken out of the map; sending on the channel of its call; ended.\<close>

datatype diem_polling = DPolling | DReporting nat | DAnswering nat | DEnded

text \<open>
  The state the calls and the goroutine share. The map of the pendings is never nil and the field \<^verbatim>\<open>err\<close>
  always nil, because nothing assigns them after the creation. A pending is the interaction. \<open>dp_reports\<close> and
  \<open>dp_mined\<close> are what was reported, and the keys of the transactions that were read.
\<close>

record 'h diem_poll =
  dp_pendings :: "('h, nat) gomap"
  dp_calls :: "nat \<Rightarrow> diem_call"
  dp_poll :: diem_polling
  dp_reports :: "nat \<Rightarrow> report list"
  dp_mined :: "'h set"

definition diem_poll_start :: "'h diem_poll" where
  "diem_poll_start = \<lparr>dp_pendings = [], dp_calls = (\<lambda>_. DIdle), dp_poll = DPolling, dp_reports = (\<lambda>_. []), dp_mined = {}\<rparr>"

definition dp_call :: "nat \<Rightarrow> diem_call \<Rightarrow> 'h diem_poll \<Rightarrow> 'h diem_poll" where
  "dp_call i c s = s\<lparr>dp_calls := (dp_calls s)(i := c)\<rparr>"

definition dp_report :: "nat \<Rightarrow> report \<Rightarrow> 'h diem_poll \<Rightarrow> 'h diem_poll" where
  "dp_report i r s = s\<lparr>dp_reports := (dp_reports s)(i := dp_reports s i @ [r])\<rparr>"

definition diem_register :: "'h \<Rightarrow> nat \<Rightarrow> 'h diem_poll \<Rightarrow> 'h diem_poll" where
  "diem_register key i s = dp_call i DPrepared (s\<lparr>dp_pendings := gomap_set key i (dp_pendings s)\<rparr>)"

definition diem_confirm :: "'h \<Rightarrow> nat \<Rightarrow> 'h diem_poll \<Rightarrow> 'h diem_poll" where
  "diem_confirm key i s =
     (case gomap_get (dp_pendings s) key of
        None \<Rightarrow> dp_call i (DReturned None) s
      | Some _ \<Rightarrow> dp_call i DWaiting s)"

text \<open>The part of \<^verbatim>\<open>parseTransaction\<close> under the lock.\<close>

definition diem_parseTransaction :: "'h \<Rightarrow> 'h diem_poll \<Rightarrow> 'h diem_poll" where
  "diem_parseTransaction key s =
     (case gomap_get (dp_pendings s) key of
        None \<Rightarrow> s\<lparr>dp_mined := insert key (dp_mined s)\<rparr>
      | Some i \<Rightarrow> s\<lparr>dp_pendings := gomap_del key (dp_pendings s), dp_poll := DReporting i, dp_mined := insert key (dp_mined s)\<rparr>)"

text \<open>
  A step. The channel that a call waits on is that of the pending under its key, its own when the keys are
  different. The chain has no transaction that this client has not submitted (other clients that send the same transaction, as
  those beside it under the redundant driver, are not in the model). The goroutine ends when it cannot get the
  metadata; it does not answer the waiting calls then.
\<close>

inductive diem_step :: "(nat \<Rightarrow> 'h) \<Rightarrow> 'h diem_poll \<Rightarrow> 'h diem_poll \<Rightarrow> bool" for key where
  diem_prepares: "dp_calls s i = DIdle \<Longrightarrow> diem_step key s (diem_register (key i) i s)"
| diem_submits: "dp_calls s i = DPrepared \<Longrightarrow> diem_step key s (dp_call i DSubmitting (dp_report i RepSubmit s))"
| diem_refused: "dp_calls s i = DSubmitting \<Longrightarrow> diem_step key s (dp_call i (DReturned (Some e)) s)"
| diem_sent: "dp_calls s i = DSubmitting \<Longrightarrow> diem_step key s (dp_call i DSent s)"
| diem_confirms: "dp_calls s i = DSent \<Longrightarrow> diem_step key s (diem_confirm (key i) i s)"
| diem_reads: "dp_poll s = DPolling \<Longrightarrow> (\<And>i. k = key i \<Longrightarrow> dp_calls s i \<notin> {DIdle, DPrepared}) \<Longrightarrow>
    diem_step key s (diem_parseTransaction k s)"
| diem_reports: "dp_poll s = DReporting i \<Longrightarrow> diem_step key s (dp_report i RepCommit (s\<lparr>dp_poll := DAnswering i\<rparr>))"
| diem_answers: "dp_poll s = DAnswering i \<Longrightarrow> dp_calls s i = DWaiting \<Longrightarrow>
    diem_step key s (dp_call i (DReturned None) (s\<lparr>dp_poll := DPolling\<rparr>))"
| diem_ends: "dp_poll s = DPolling \<Longrightarrow> diem_step key s (s\<lparr>dp_poll := DEnded\<rparr>)"

inductive diem_run :: "(nat \<Rightarrow> 'h) \<Rightarrow> 'h diem_poll \<Rightarrow> 'h diem_poll \<Rightarrow> bool" for key where
  diem_refl: "diem_run key s s"
| diem_more: "diem_run key s t \<Longrightarrow> diem_step key t u \<Longrightarrow> diem_run key s u"

lemma dp_simps [simp]:
  "dp_pendings (dp_call i c s) = dp_pendings s" "dp_calls (dp_call i c s) = (dp_calls s)(i := c)"
  "dp_poll (dp_call i c s) = dp_poll s" "dp_reports (dp_call i c s) = dp_reports s" "dp_mined (dp_call i c s) = dp_mined s"
  "dp_pendings (dp_report i r s) = dp_pendings s" "dp_calls (dp_report i r s) = dp_calls s"
  "dp_poll (dp_report i r s) = dp_poll s" "dp_reports (dp_report i r s) = (dp_reports s)(i := dp_reports s i @ [r])"
  "dp_mined (dp_report i r s) = dp_mined s"
  by (simp_all add: dp_call_def dp_report_def)

section \<open>The invariant\<close>

definition diem_called :: "'h diem_poll \<Rightarrow> nat set" where
  "diem_called s = {i. dp_calls s i \<noteq> DIdle}"

text \<open>The interaction the goroutine works on.\<close>

fun held :: "diem_polling \<Rightarrow> nat option" where
  "held (DReporting i) = Some i"
| "held (DAnswering i) = Some i"
| "held _ = None"

text \<open>
  A registered interaction is under its own key and was called; one that is not registered any more was
  read; the one the goroutine holds is not registered; and the reports fit the call.
\<close>

definition diem_inv :: "(nat \<Rightarrow> 'h) \<Rightarrow> 'h diem_poll \<Rightarrow> bool" where
  "diem_inv key s \<longleftrightarrow>
     (\<forall>k i. gomap_get (dp_pendings s) k = Some i \<longrightarrow> k = key i \<and> dp_calls s i \<noteq> DIdle) \<and>
     (\<forall>i. dp_calls s i \<noteq> DIdle \<and> gomap_get (dp_pendings s) (key i) = None \<longrightarrow> key i \<in> dp_mined s) \<and>
     (\<forall>i. held (dp_poll s) = Some i \<longrightarrow> dp_calls s i \<notin> {DIdle, DPrepared} \<and> gomap_get (dp_pendings s) (key i) = None) \<and>
     (\<forall>i. dp_calls s i = DReturned None \<longrightarrow> gomap_get (dp_pendings s) (key i) = None) \<and>
     (\<forall>i. dp_calls s i = DPrepared \<longrightarrow> gomap_get (dp_pendings s) (key i) = Some i)"

definition diem_reports_ok :: "(nat \<Rightarrow> 'h) \<Rightarrow> 'h diem_poll \<Rightarrow> nat \<Rightarrow> bool" where
  "diem_reports_ok key s i \<longleftrightarrow>
     dp_reports s i =
       (if dp_calls s i \<in> {DIdle, DPrepared} then []
        else if gomap_get (dp_pendings s) (key i) \<noteq> None \<or> dp_poll s = DReporting i then [RepSubmit]
        else [RepSubmit, RepCommit])"

lemma diem_called_step: "diem_step key s t \<Longrightarrow> diem_called s \<subseteq> diem_called t"
  by (induction rule: diem_step.induct)
    (auto simp: diem_called_def diem_register_def diem_confirm_def diem_parseTransaction_def split: option.splits)

lemma diem_inv_register:
  assumes inv: "diem_inv key s" and idle: "dp_calls s i = DIdle" and inj: "inj_on key (insert i (diem_called s))"
  shows "diem_inv key (diem_register (key i) i s)"
proof -
  have other: "key j \<noteq> key i" if "dp_calls s j \<noteq> DIdle" for j
    using inj_onD [OF inj, of j i] that idle by (auto simp: diem_called_def)
  then show ?thesis using inv idle by (fastforce simp: diem_inv_def diem_register_def split: if_splits)
qed

lemma diem_inv_call:
  assumes "diem_inv key s" and "dp_calls s i \<notin> {DIdle, DPrepared}" and "c \<notin> {DIdle, DPrepared}"
    and "c = DReturned None \<Longrightarrow> gomap_get (dp_pendings s) (key i) = None"
  shows "diem_inv key (dp_call i c s)"
  using assms by (auto simp: diem_inv_def)

lemma diem_inv_submits:
  "diem_inv key s \<Longrightarrow> dp_calls s i = DPrepared \<Longrightarrow> diem_inv key (dp_call i DSubmitting (dp_report i r s))"
  by (auto simp: diem_inv_def)

lemma diem_inv_reads:
  assumes "diem_inv key s" and "dp_poll s = DPolling" and "\<And>i. k = key i \<Longrightarrow> dp_calls s i \<notin> {DIdle, DPrepared}"
  shows "diem_inv key (diem_parseTransaction k s)"
  using assms by (auto simp: diem_inv_def diem_parseTransaction_def split: option.splits if_splits)

lemma diem_inv_step:
  assumes "diem_step key s t" and "inj_on key (diem_called t)" and "diem_inv key s"
  shows "diem_inv key t"
  using assms
proof (induction rule: diem_step.induct)
  case (diem_prepares s i)
  have "diem_called (diem_register (key i) i s) = insert i (diem_called s)"
    by (auto simp: diem_called_def diem_register_def)
  with diem_prepares show ?case by (intro diem_inv_register) simp_all
next
  case (diem_confirms s i)
  then show ?case by (auto simp: diem_confirm_def intro!: diem_inv_call split: option.splits)
next
  case (diem_answers s i)
  then have "diem_inv key (s\<lparr>dp_poll := DPolling\<rparr>)" by (auto simp: diem_inv_def)
  with diem_answers show ?case by (intro diem_inv_call) (auto simp: diem_inv_def)
next
  case (diem_reads s k)
  then show ?case by (intro diem_inv_reads) auto
qed (auto intro: diem_inv_submits diem_inv_call simp: diem_inv_def)

lemma diem_reports_step:
  assumes "diem_step key s t" and "inj_on key (diem_called t)" and inv: "diem_inv key s" and "diem_reports_ok key s j"
  shows "diem_reports_ok key t j"
  using assms
proof (induction rule: diem_step.induct)
  case (diem_prepares s i)
  have called: "diem_called (diem_register (key i) i s) = insert i (diem_called s)"
    by (auto simp: diem_called_def diem_register_def)
  have "key j \<noteq> key i" if "dp_calls s j \<noteq> DIdle"
    using inj_onD [OF diem_prepares.prems(1), of j i] that diem_prepares.hyps unfolding called by (auto simp: diem_called_def)
  with diem_prepares show ?case by (auto simp: diem_reports_ok_def diem_register_def)
next
  case (diem_submits s i)
  then have "gomap_get (dp_pendings s) (key i) = Some i" by (auto simp: diem_inv_def)
  with diem_submits show ?case by (auto simp: diem_reports_ok_def)
next
  case (diem_reads s k)
  show ?case
  proof (cases "gomap_get (dp_pendings s) k")
    case None
    with diem_reads show ?thesis by (simp add: diem_reports_ok_def diem_parseTransaction_def)
  next
    case (Some i)
    with diem_reads.prems(2) have i: "k = key i" "dp_calls s i \<noteq> DIdle" by (simp_all add: diem_inv_def)
    have "key j \<noteq> key i" if "j \<noteq> i" "dp_calls s j \<noteq> DIdle"
      using inj_onD [OF diem_reads.prems(1), of j i] that i Some
      by (auto simp: diem_called_def diem_parseTransaction_def)
    with diem_reads Some i show ?thesis
      by (cases "j = i") (auto simp: diem_reports_ok_def diem_parseTransaction_def)
  qed
next
  case (diem_reports s i)
  then show ?case by (auto simp: diem_reports_ok_def diem_inv_def)
qed (auto simp: diem_reports_ok_def diem_confirm_def split: option.splits if_splits)

lemma diem_inv_run:
  assumes "diem_run key s t" and "inj_on key (diem_called t)" and "diem_inv key s" and "\<And>i. diem_reports_ok key s i"
  shows "diem_inv key t \<and> (\<forall>i. diem_reports_ok key t i)"
  using assms
proof (induction rule: diem_run.induct)
  case (diem_more s t u)
  have "inj_on key (diem_called t)" by (rule inj_on_subset [OF diem_more.prems(1) diem_called_step [OF diem_more.hyps(2)]])
  with diem_more show ?case using diem_inv_step diem_reports_step by blast
qed blast

lemma diem_inv_start: "diem_inv key diem_poll_start" "diem_reports_ok key diem_poll_start i"
  by (simp_all add: diem_inv_def diem_reports_ok_def diem_poll_start_def)

section \<open>Properties\<close>

text \<open>
  C16: The reports of the Diem client with block polling are sound, in every interleaving of the calls and the
  goroutine, when the transactions have different senders or sequence numbers: a commit is reported only of a
  transaction that was read, once and after its submission; a call that returns no error has had its transaction read; and
  an abort is never reported, not even when the submission fails.
\<close>

theorem diem_reports_sound:
  assumes "inj_on key (diem_called s)" and "diem_run key diem_poll_start s"
  shows "(RepCommit \<in> set (dp_reports s i) \<longrightarrow> dp_reports s i = [RepSubmit, RepCommit] \<and> key i \<in> dp_mined s) \<and>
    (dp_calls s i = DReturned None \<longrightarrow> key i \<in> dp_mined s) \<and> RepAbort \<notin> set (dp_reports s i)"
proof -
  have "diem_inv key s" "diem_reports_ok key s i"
    using diem_inv_run [OF assms(2,1) diem_inv_start] by simp_all
  then show ?thesis by (auto simp: diem_inv_def diem_reports_ok_def split: if_splits)
qed

text \<open>While the goroutine holds an interaction whose call does not wait, that call never will.\<close>

lemma diem_stuck_step:
  assumes "diem_step key s t" and "diem_inv key s" and "inj_on key (diem_called t)" and "held (dp_poll s) = Some i"
    and "dp_calls s i \<noteq> DWaiting"
  shows "held (dp_poll t) = Some i \<and> dp_calls t i \<noteq> DWaiting \<and> dp_mined t = dp_mined s \<and>
    (\<forall>j. dp_calls s j = DWaiting \<longrightarrow> dp_calls t j = DWaiting)"
proof -
  have none: "gomap_get (dp_pendings s) (key i) = None" "dp_calls s i \<noteq> DIdle"
    using assms(2,4) by (auto simp: diem_inv_def)
  show ?thesis
    using assms(1)
  proof (cases rule: diem_step.cases)
    case (diem_confirms j)
    then show ?thesis using none assms(4,5) by (auto simp: diem_confirm_def split: option.splits)
  qed (use none assms(4,5) in \<open>auto simp: diem_register_def\<close>)
qed

lemma diem_stuck_run:
  assumes "diem_run key s t" and "diem_inv key s" and "\<And>j. diem_reports_ok key s j" and "inj_on key (diem_called t)"
    and "held (dp_poll s) = Some i" and "dp_calls s i \<noteq> DWaiting"
  shows "held (dp_poll t) = Some i \<and> dp_calls t i \<noteq> DWaiting \<and> dp_mined t = dp_mined s \<and>
    (\<forall>j. dp_calls s j = DWaiting \<longrightarrow> dp_calls t j = DWaiting)"
  using assms
proof (induction rule: diem_run.induct)
  case (diem_more s t u)
  have inj: "inj_on key (diem_called t)" by (rule inj_on_subset [OF diem_more.prems(3) diem_called_step [OF diem_more.hyps(2)]])
  have "diem_inv key t" using diem_inv_run [OF diem_more.hyps(1) inj diem_more.prems(1,2)] by blast
  moreover have "held (dp_poll t) = Some i \<and> dp_calls t i \<noteq> DWaiting \<and> dp_mined t = dp_mined s \<and>
      (\<forall>j. dp_calls s j = DWaiting \<longrightarrow> dp_calls t j = DWaiting)"
    using diem_more inj by blast
  ultimately show ?case using diem_stuck_step [OF diem_more.hyps(2) _ diem_more.prems(3), of i] by metis
qed simp

text \<open>
  C17: The race between a block and \<^verbatim>\<open>confirm\<close> in the Diem client. When the goroutine has read the transaction of a
  call that waits, it can report the commit, answer the call and go on polling. When it has read the transaction of a
  call that does not wait yet, because \<^verbatim>\<open>SubmitTransaction\<close> or \<^verbatim>\<open>confirm\<close> was slower than the chain, or that has
  returned with an error, it sends on a channel that nobody will ever receive from: in every continuation it reads no
  transaction again, and every call that waits waits for ever.
\<close>

theorem diem_confirm_race:
  assumes "diem_run key diem_poll_start s" and "inj_on key (diem_called s)" and "held (dp_poll s) = Some i"
  shows "(dp_calls s i = DWaiting \<longrightarrow>
      (\<exists>t. diem_run key s t \<and> dp_poll t = DPolling \<and> dp_calls t i = DReturned None \<and> dp_reports t i = [RepSubmit, RepCommit])) \<and>
    (dp_calls s i \<noteq> DWaiting \<longrightarrow>
      (\<forall>t. diem_run key s t \<and> inj_on key (diem_called t) \<longrightarrow> held (dp_poll t) = Some i \<and> dp_mined t = dp_mined s \<and>
        (\<forall>j. dp_calls s j = DWaiting \<longrightarrow> dp_calls t j = DWaiting)))"
proof (intro conjI impI)
  have inv: "diem_inv key s" "\<And>j. diem_reports_ok key s j"
    using diem_inv_run [OF assms(1,2) diem_inv_start] by simp_all
  {
    assume wait: "dp_calls s i = DWaiting"
    obtain s1 where s1: "diem_run key s s1" "dp_poll s1 = DAnswering i" "dp_calls s1 i = DWaiting" "dp_reports s1 i = [RepSubmit, RepCommit]"
    proof (cases "dp_poll s")
      case (DReporting j)
      with assms(3) have poll: "dp_poll s = DReporting i" by simp
      show ?thesis
        by (rule that [OF diem_more [OF diem_refl diem_reports [OF poll]]])
          (use wait poll inv(2) [of i] in \<open>simp_all add: diem_reports_ok_def\<close>)
    next
      case (DAnswering j)
      with assms(3) have poll: "dp_poll s = DAnswering i" by simp
      have "gomap_get (dp_pendings s) (key i) = None" using inv(1) poll by (simp add: diem_inv_def)
      with poll show ?thesis
        by (intro that [OF diem_refl]) (use wait inv(2) [of i] in \<open>simp_all add: diem_reports_ok_def\<close>)
    qed (use assms(3) in simp_all)
    have "diem_run key s (dp_call i (DReturned None) (s1\<lparr>dp_poll := DPolling\<rparr>))"
      by (rule diem_more [OF s1(1) diem_answers [OF s1(2,3)]])
    then show "\<exists>t. diem_run key s t \<and> dp_poll t = DPolling \<and> dp_calls t i = DReturned None \<and> dp_reports t i = [RepSubmit, RepCommit]"
      using s1(4) by (intro exI [of _ "dp_call i (DReturned None) (s1\<lparr>dp_poll := DPolling\<rparr>)"]) simp
  }
  assume "dp_calls s i \<noteq> DWaiting"
  then show "\<forall>t. diem_run key s t \<and> inj_on key (diem_called t) \<longrightarrow> held (dp_poll t) = Some i \<and> dp_mined t = dp_mined s \<and>
      (\<forall>j. dp_calls s j = DWaiting \<longrightarrow> dp_calls t j = DWaiting)"
    using diem_stuck_run [OF _ inv _ assms(3)] by blast
qed

text \<open>Call 1 waits; the transaction of call 0 is read while it is being submitted.\<close>

definition diem_demo :: "nat diem_poll" where
  "diem_demo = diem_parseTransaction 0 (dp_call 0 DSubmitting (dp_report 0 RepSubmit (diem_register 0 0
     (diem_confirm 1 1 (dp_call 1 DSent (dp_call 1 DSubmitting (dp_report 1 RepSubmit (diem_register 1 1 diem_poll_start))))))))"

lemma diem_demo_run: "diem_run (\<lambda>i. i) diem_poll_start diem_demo"
proof -
  note defs = diem_register_def diem_confirm_def diem_poll_start_def
  have "diem_run (\<lambda>i. i) diem_poll_start (diem_register 1 1 diem_poll_start)"
    by (rule diem_more [OF diem_refl diem_prepares]) (simp add: diem_poll_start_def)
  from diem_more [OF this diem_submits [where i = 1]]
  have "diem_run (\<lambda>i. i) diem_poll_start (dp_call 1 DSubmitting (dp_report 1 RepSubmit (diem_register 1 1 diem_poll_start)))"
    by (simp add: defs)
  from diem_more [OF this diem_sent [where i = 1]]
  have "diem_run (\<lambda>i. i) diem_poll_start (dp_call 1 DSent (dp_call 1 DSubmitting (dp_report 1 RepSubmit (diem_register 1 1 diem_poll_start))))"
    by (simp add: defs)
  from diem_more [OF this diem_confirms [where i = 1]]
  have "diem_run (\<lambda>i. i) diem_poll_start (diem_confirm 1 1 (dp_call 1 DSent (dp_call 1 DSubmitting (dp_report 1 RepSubmit (diem_register 1 1 diem_poll_start)))))"
    by (simp add: defs)
  from diem_more [OF this diem_prepares [where i = 0]]
  have "diem_run (\<lambda>i. i) diem_poll_start (diem_register 0 0 (diem_confirm 1 1 (dp_call 1 DSent (dp_call 1 DSubmitting (dp_report 1 RepSubmit (diem_register 1 1 diem_poll_start))))))"
    by (simp add: defs)
  from diem_more [OF this diem_submits [where i = 0]]
  have "diem_run (\<lambda>i. i) diem_poll_start (dp_call 0 DSubmitting (dp_report 0 RepSubmit (diem_register 0 0 (diem_confirm 1 1 (dp_call 1 DSent (dp_call 1 DSubmitting (dp_report 1 RepSubmit (diem_register 1 1 diem_poll_start))))))))"
    by (simp add: defs)
  from diem_more [OF this diem_reads [where k = 0]] show ?thesis
    unfolding diem_demo_def by (simp add: defs)
qed

theorem diem_confirm_race_witness:
  "\<exists>s. diem_run (\<lambda>i. i) diem_poll_start s \<and> dp_calls s 1 = DWaiting \<and>
    (\<forall>t. diem_run (\<lambda>i. i) s t \<longrightarrow> dp_calls t 1 = DWaiting)"
proof -
  have state: "held (dp_poll diem_demo) = Some 0" "dp_calls diem_demo 0 \<noteq> DWaiting" "dp_calls diem_demo 1 = DWaiting"
    by (simp_all add: diem_demo_def diem_parseTransaction_def diem_register_def diem_confirm_def diem_poll_start_def)
  show ?thesis
    using diem_confirm_race [OF diem_demo_run _ state(1)] state diem_demo_run by (auto simp: inj_on_def)
qed

theorem diem_reports_sound_witness:
  "\<exists>s. diem_run (\<lambda>i. i) diem_poll_start s \<and> dp_reports s 0 = [RepSubmit, RepCommit] \<and> 0 \<in> dp_mined s"
proof -
  let ?s = "dp_report 0 RepCommit (diem_demo\<lparr>dp_poll := DAnswering 0\<rparr>)"
  have "dp_poll diem_demo = DReporting 0"
    by (simp add: diem_demo_def diem_parseTransaction_def diem_register_def diem_confirm_def diem_poll_start_def)
  from diem_more [OF diem_demo_run diem_reports [OF this]] have run: "diem_run (\<lambda>i. i) diem_poll_start ?s" .
  then show ?thesis using diem_reports_sound [OF _ run, of 0] by (auto simp: inj_on_def)
qed

section \<open>Reading the ledger\<close>

text \<open>
  A transaction of the ledger. Versions are natural numbers: the loop adds one only to a version that is less
  than another one, so the 64 bits are enough.
\<close>

record diem_entry =
  dx_Version :: nat
  dx_Type :: string
  dx_Sender :: string
  dx_SequenceNumber :: "64 word"

text \<open>
  The key of an entry. A sender that is not hexadecimal is skipped; its bytes are copied into an array of
  \<open>dm_AddressLength\<close> bytes, where a longer sender panics and a shorter one leaves zeros.
\<close>

definition diem_entry_key ::
  "('k, 'a, 'g, 'x) diem_sdk \<Rightarrow> diem_entry \<Rightarrow> ('a \<times> 64 word) option outcome" where
  "diem_entry_key dm tx =
     (case hex_DecodeString (dx_Sender tx) of
        Panic p \<Rightarrow> Panic p
      | Err e \<Rightarrow> Ok None
      | Ok bytes \<Rightarrow>
          if length bytes > dm_AddressLength dm then Panic ''index out of range''
          else Ok (Some (dm_AddressArray dm (bytes @ replicate (dm_AddressLength dm - length bytes) 0), dx_SequenceNumber tx)))"

text \<open>The loop over the transactions of an answer: the new version, and those that are parsed.\<close>

fun diem_scan :: "nat \<Rightarrow> diem_entry list \<Rightarrow> nat \<times> diem_entry list" where
  "diem_scan v [] = (v, [])"
| "diem_scan v (tx # txs) =
     (case diem_scan (if dx_Version tx > v then dx_Version tx else v) txs of
        (w, users) \<Rightarrow> (w, if dx_Type tx \<noteq> ''user'' then users else tx # users))"

lemma diem_scan_le: "v \<le> fst (diem_scan v txs)"
proof (induction v txs rule: diem_scan.induct)
  case (2 v tx txs)
  then show ?case by (auto split: prod.splits if_splits)
qed simp

text \<open>
  The inner loop of \<^verbatim>\<open>run\<close>, up to the version of the metadata. An error is ignored, and with it the version
  that was asked for.
\<close>

function diem_catch_up ::
  "(nat \<Rightarrow> ('n, diem_entry list) go) \<Rightarrow> nat \<Rightarrow> nat \<Rightarrow> 'n \<Rightarrow> (nat \<times> diem_entry list) outcome \<times> 'n" where
  "diem_catch_up GetTransactions version v node =
     (if v < version then
        (case GetTransactions (v + 1) node of
           (Panic p, node) \<Rightarrow> (Panic p, node)
         | (Err e, node) \<Rightarrow> diem_catch_up GetTransactions version (v + 1) node
         | (Ok txs, node) \<Rightarrow>
             (case diem_catch_up GetTransactions version (fst (diem_scan (v + 1) txs)) node of
                (Ok (w, users), node) \<Rightarrow> (Ok (w, snd (diem_scan (v + 1) txs) @ users), node)
              | (Err e, node) \<Rightarrow> (Err e, node)
              | (Panic p, node) \<Rightarrow> (Panic p, node)))
      else (Ok (v, []), node))"
  by pat_completeness auto

termination
proof (relation "measure (\<lambda>(GetTransactions, version, v, node). version - v)")
  fix v version :: nat and txs :: "diem_entry list" and node node' :: 'n and GetTransactions :: "nat \<Rightarrow> ('n, diem_entry list) go"
  assume "v < version"
  then show "((GetTransactions, version, fst (diem_scan (v + 1) txs), node'), GetTransactions, version, v, node)
      \<in> measure (\<lambda>(GetTransactions, version, v, node). version - v)"
    using diem_scan_le [of "v + 1" txs] by auto
qed auto

declare diem_catch_up.simps [simp del]

definition diem_users :: "(nat \<Rightarrow> diem_entry) \<Rightarrow> nat list \<Rightarrow> diem_entry list" where
  "diem_users ledger versions = filter (\<lambda>tx. dx_Type tx = ''user'') (map ledger versions)"

lemma diem_scan_ledger:
  assumes "\<And>n. dx_Version (ledger n) = n" and "v \<le> a"
  shows "diem_scan v (map ledger [a ..< a + m]) = (if m = 0 then v else max v (a + m - 1), diem_users ledger [a ..< a + m])"
  using assms(2)
proof (induction m arbitrary: a v)
  case (Suc m)
  have upt: "[a ..< a + Suc m] = a # [Suc a ..< Suc a + m]" by (simp add: upt_conv_Cons del: upt_Suc)
  have "(if dx_Version (ledger a) > v then dx_Version (ledger a) else v) = a" using Suc.prems assms(1) by auto
  then show ?case
    unfolding upt list.map diem_scan.simps using Suc.IH [of a "Suc a"] Suc.prems
    by (auto simp: diem_users_def max_def simp del: upt_Suc)
qed (simp add: diem_users_def)

text \<open>
  When the node answers every request with the transactions from the requested version on, at least one, the goroutine
  reads every version from the next one up to the version of the metadata exactly once and in order.
\<close>

theorem diem_reads_ledger:
  assumes "\<And>n. dx_Version (ledger n) = n"
    and "\<And>v node. \<exists>m node'. m > 0 \<and> GetTransactions v node = (Ok (map ledger [v ..< v + m]), node')"
  shows "\<exists>w node'. diem_catch_up GetTransactions version v node = (Ok (w, diem_users ledger [v + 1 ..< w + 1]), node') \<and>
    v \<le> w \<and> version \<le> w"
proof (induction "version - v" arbitrary: v node rule: less_induct)
  case less
  show ?case
  proof (cases "v < version")
    case True
    obtain m node1 where get: "m > 0" "GetTransactions (v + 1) node = (Ok (map ledger [v + 1 ..< v + 1 + m]), node1)"
      using assms(2) by blast
    have scan: "diem_scan (v + 1) (map ledger [v + 1 ..< v + 1 + m]) = (v + m, diem_users ledger [v + 1 ..< v + 1 + m])"
      using diem_scan_ledger [of ledger "v + 1" "v + 1" m] assms(1) get(1) by simp
    have "version - (v + m) < version - v" using True get(1) by simp
    from less [OF this, of node1] obtain w node' where
      rest: "diem_catch_up GetTransactions version (v + m) node1 = (Ok (w, diem_users ledger [v + m + 1 ..< w + 1]), node')"
      "v + m \<le> w" "version \<le> w" by blast
    have "[v + 1 ..< w + 1] = [v + 1 ..< v + 1 + m] @ [v + m + 1 ..< w + 1]"
      using upt_add_eq_append [of "v + 1" "v + 1 + m" "w - v - m"] rest(2) by (simp add: add.commute add.left_commute)
    then show ?thesis
      using True get scan rest by (subst diem_catch_up.simps) (simp add: diem_users_def)
  next
    case False
    then show ?thesis by (subst diem_catch_up.simps) (simp add: diem_users_def)
  qed
qed

text \<open>A version whose request fails is lost, and the call whose transaction it holds is never answered.\<close>

theorem diem_error_skips_version:
  assumes "v < version" and "GetTransactions (v + 1) node = (Err e, node1)"
  shows "diem_catch_up GetTransactions version v node = diem_catch_up GetTransactions version (v + 1) node1"
  using assms by (subst diem_catch_up.simps) simp

end
