(* ===== verification/Diem_Accounts.thy ===== *)
theory Diem_Accounts
  imports Diem_Transaction
begin

text \<open>
  The account creator of the Diem driver (\<^verbatim>\<open>src/blockchains/ndiem/builder.go\<close>): the builder hands keys to a pool of
  goroutines that create the accounts, which hand them to another pool that funds them, over channels without a
  buffer, and waits for both with wait groups. All of them interleave, so this is a step relation on the state they share.
\<close>

section \<open>The state\<close>

text \<open>
  A goroutine of \<^verbatim>\<open>processCreate\<close>: receiving; with a key; in \<^verbatim>\<open>submitAndWait\<close>, with the sequence number it took;
  with its result; after \<^verbatim>\<open>createWg.Done\<close>; after \<^verbatim>\<open>transferWg.Add\<close>, sending; ended, when the channel is closed.
  A goroutine of \<^verbatim>\<open>processTransfer\<close> has the same states but the sending. A result is \<open>None\<close> or an error.
\<close>

datatype 'k worker =
    WReceiving
  | WKey 'k
  | WSubmitting 'k "64 word"
  | WResult 'k "go_error option"
  | WDone 'k "go_error option"
  | WSending 'k
  | WEnded

text \<open>The builder: outside; in \<^verbatim>\<open>createAccount\<close>, after \<^verbatim>\<open>createWg.Add\<close>; in the two parts of \<^verbatim>\<open>wait\<close>; after it.\<close>

datatype 'k creating =
    COutside
  | CSending 'k
  | CWaitCreate
  | CWaitTransfer
  | CWaited "go_error option"

text \<open>
  The account creator. A wait group is its counter. \<open>ac_asked\<close>, \<open>ac_created\<close>, \<open>ac_funded\<close> and \<open>ac_failed\<close> are histories: the keys
  \<^verbatim>\<open>createAccount\<close> accepted, those whose creation and those whose transfer was executed, and those
  for which one failed; \<open>ac_tcUsed\<close> and \<open>ac_ddUsed\<close> are the sequence numbers of the submitted transactions.
\<close>

record 'k account_creator =
  ac_main :: "'k creating"
  ac_creators :: "nat \<Rightarrow> 'k worker"
  ac_funders :: "nat \<Rightarrow> 'k worker"
  ac_createWg :: nat
  ac_transferWg :: nat
  ac_createClosed :: bool
  ac_transferClosed :: bool
  ac_tcSequence :: "64 word"
  ac_ddSequence :: "64 word"
  ac_err :: "go_error option"
  ac_panicked :: bool
  ac_asked :: "'k set"
  ac_created :: "'k set"
  ac_funded :: "'k set"
  ac_failed :: "'k set"
  ac_tcUsed :: "64 word list"
  ac_ddUsed :: "64 word list"

text \<open>
  \<^verbatim>\<open>newAccountCreator\<close>, from what \<^verbatim>\<open>GetAccount\<close> returns for the two accounts, nothing or a sequence number; the
  test for a missing account comes before that for an error, so the text of the error is lost when there is none.
\<close>

definition accountCreator_start :: "64 word \<Rightarrow> 64 word \<Rightarrow> 'k account_creator" where
  "accountCreator_start tc dd = \<lparr>ac_main = COutside, ac_creators = (\<lambda>_. WReceiving), ac_funders = (\<lambda>_. WReceiving),
     ac_createWg = 0, ac_transferWg = 0, ac_createClosed = False, ac_transferClosed = False,
     ac_tcSequence = tc, ac_ddSequence = dd, ac_err = None, ac_panicked = False,
     ac_asked = {}, ac_created = {}, ac_funded = {}, ac_failed = {}, ac_tcUsed = [], ac_ddUsed = []\<rparr>"

type_synonym account_answer = "64 word option \<times> go_error option"

definition newAccountCreator :: "account_answer \<Rightarrow> account_answer \<Rightarrow> 'k account_creator outcome" where
  "newAccountCreator tc dd =
     (case tc of
        (None, _) \<Rightarrow> Err (Errorf ''TC account missing'' [])
      | (Some _, Some e) \<Rightarrow> Err e
      | (Some tcSequence, None) \<Rightarrow>
          (case dd of
             (None, _) \<Rightarrow> Err (Errorf ''DD account missing'' [])
           | (Some _, Some e) \<Rightarrow> Err e
           | (Some ddSequence, None) \<Rightarrow> Ok (accountCreator_start tcSequence ddSequence)))"

definition poolSize :: nat where "poolSize = 100"

section \<open>The operations\<close>

definition creator_is :: "nat \<Rightarrow> 'k worker \<Rightarrow> 'k account_creator \<Rightarrow> 'k account_creator" where
  "creator_is i w s = s\<lparr>ac_creators := (ac_creators s)(i := w)\<rparr>"

definition funder_is :: "nat \<Rightarrow> 'k worker \<Rightarrow> 'k account_creator \<Rightarrow> 'k account_creator" where
  "funder_is i w s = s\<lparr>ac_funders := (ac_funders s)(i := w)\<rparr>"

text \<open>\<^verbatim>\<open>createAccount\<close> up to the sending of the key, after an error only the error.\<close>

definition createAccount :: "'k \<Rightarrow> 'k account_creator \<Rightarrow> 'k account_creator" where
  "createAccount key s =
     (if ac_err s \<noteq> None then s
      else s\<lparr>ac_createWg := ac_createWg s + 1, ac_main := CSending key, ac_asked := insert key (ac_asked s)\<rparr>)"

text \<open>The beginning of \<^verbatim>\<open>submitAndWait\<close> in either pool: the atomic addition gives the number of the transaction.\<close>

definition creator_submits :: "nat \<Rightarrow> 'k \<Rightarrow> 'k account_creator \<Rightarrow> 'k account_creator" where
  "creator_submits i key s = creator_is i (WSubmitting key (ac_tcSequence s))
     (s\<lparr>ac_tcSequence := ac_tcSequence s + 1, ac_tcUsed := ac_tcUsed s @ [ac_tcSequence s]\<rparr>)"

definition funder_submits :: "nat \<Rightarrow> 'k \<Rightarrow> 'k account_creator \<Rightarrow> 'k account_creator" where
  "funder_submits i key s = funder_is i (WSubmitting key (ac_ddSequence s))
     (s\<lparr>ac_ddSequence := ac_ddSequence s + 1, ac_ddUsed := ac_ddUsed s @ [ac_ddSequence s]\<rparr>)"

text \<open>Its end, with the error of the submission or of the waiting.\<close>

definition creator_result :: "nat \<Rightarrow> 'k \<Rightarrow> go_error option \<Rightarrow> 'k account_creator \<Rightarrow> 'k account_creator" where
  "creator_result i key r s = creator_is i (WResult key r)
     (if r = None then s\<lparr>ac_created := insert key (ac_created s)\<rparr> else s\<lparr>ac_failed := insert key (ac_failed s)\<rparr>)"

definition funder_result :: "nat \<Rightarrow> 'k \<Rightarrow> go_error option \<Rightarrow> 'k account_creator \<Rightarrow> 'k account_creator" where
  "funder_result i key r s = funder_is i (WResult key r)
     (if r = None then s\<lparr>ac_funded := insert key (ac_funded s)\<rparr> else s\<lparr>ac_failed := insert key (ac_failed s)\<rparr>)"

text \<open>After \<^verbatim>\<open>Done\<close>: an error is recorded under the lock; otherwise the other wait group is increased, or nothing.\<close>

definition creator_goes_on :: "nat \<Rightarrow> 'k \<Rightarrow> go_error option \<Rightarrow> 'k account_creator \<Rightarrow> 'k account_creator" where
  "creator_goes_on i key r s =
     (case r of
        Some e \<Rightarrow> creator_is i WReceiving (s\<lparr>ac_err := Some e\<rparr>)
      | None \<Rightarrow> creator_is i (WSending key) (s\<lparr>ac_transferWg := ac_transferWg s + 1\<rparr>))"

definition funder_goes_on :: "nat \<Rightarrow> 'k \<Rightarrow> go_error option \<Rightarrow> 'k account_creator \<Rightarrow> 'k account_creator" where
  "funder_goes_on i key r s =
     (case r of
        Some e \<Rightarrow> funder_is i WReceiving (s\<lparr>ac_err := Some e\<rparr>)
      | None \<Rightarrow> funder_is i WReceiving s)"

text \<open>
  The steps of the goroutines and of the builder, which does not call \<^verbatim>\<open>createAccount\<close> again after
  \<^verbatim>\<open>wait\<close> because it drops the creator. A send on a closed channel panics.
\<close>

inductive ac_step :: "'k account_creator \<Rightarrow> 'k account_creator \<Rightarrow> bool" where
  ac_create: "ac_main s = COutside \<Longrightarrow> ac_step s (createAccount key s)"
| ac_hand: "ac_main s = CSending key \<Longrightarrow> i < poolSize \<Longrightarrow> ac_creators s i = WReceiving \<Longrightarrow>
    ac_step s (creator_is i (WKey key) (s\<lparr>ac_main := COutside\<rparr>))"
| ac_wait: "ac_main s = COutside \<Longrightarrow> ac_step s (s\<lparr>ac_main := CWaitCreate\<rparr>)"
| ac_all_created: "ac_main s = CWaitCreate \<Longrightarrow> ac_createWg s = 0 \<Longrightarrow>
    ac_step s (s\<lparr>ac_createClosed := True, ac_main := CWaitTransfer\<rparr>)"
| ac_all_funded: "ac_main s = CWaitTransfer \<Longrightarrow> ac_transferWg s = 0 \<Longrightarrow>
    ac_step s (s\<lparr>ac_transferClosed := True, ac_main := CWaited (ac_err s)\<rparr>)"
| ac_submit_create: "ac_creators s i = WKey key \<Longrightarrow> ac_step s (creator_submits i key s)"
| ac_result_create: "ac_creators s i = WSubmitting key n \<Longrightarrow> ac_step s (creator_result i key r s)"
| ac_done_create: "ac_creators s i = WResult key r \<Longrightarrow>
    ac_step s (creator_is i (WDone key r) (s\<lparr>ac_createWg := ac_createWg s - 1\<rparr>))"
| ac_next_create: "ac_creators s i = WDone key r \<Longrightarrow> ac_step s (creator_goes_on i key r s)"
| ac_transfer: "ac_creators s i = WSending key \<Longrightarrow> \<not> ac_transferClosed s \<Longrightarrow> j < poolSize \<Longrightarrow> ac_funders s j = WReceiving \<Longrightarrow>
    ac_step s (funder_is j (WKey key) (creator_is i WReceiving s))"
| ac_panic: "ac_creators s i = WSending key \<Longrightarrow> ac_transferClosed s \<Longrightarrow> ac_step s (s\<lparr>ac_panicked := True\<rparr>)"
| ac_submit_transfer: "ac_funders s i = WKey key \<Longrightarrow> ac_step s (funder_submits i key s)"
| ac_result_transfer: "ac_funders s i = WSubmitting key n \<Longrightarrow> ac_step s (funder_result i key r s)"
| ac_done_transfer: "ac_funders s i = WResult key r \<Longrightarrow>
    ac_step s (funder_is i (WDone key r) (s\<lparr>ac_transferWg := ac_transferWg s - 1\<rparr>))"
| ac_next_transfer: "ac_funders s i = WDone key r \<Longrightarrow> ac_step s (funder_goes_on i key r s)"
| ac_end_create: "i < poolSize \<Longrightarrow> ac_creators s i = WReceiving \<Longrightarrow> ac_createClosed s \<Longrightarrow> ac_step s (creator_is i WEnded s)"
| ac_end_transfer: "i < poolSize \<Longrightarrow> ac_funders s i = WReceiving \<Longrightarrow> ac_transferClosed s \<Longrightarrow> ac_step s (funder_is i WEnded s)"

inductive ac_run :: "'k account_creator \<Rightarrow> 'k account_creator \<Rightarrow> bool" where
  ac_stay: "ac_run s s"
| ac_more: "ac_run s t \<Longrightarrow> ac_step t u \<Longrightarrow> ac_run s u"

section \<open>The wait groups\<close>

text \<open>The goroutines that a wait group counts: those with a key before \<^verbatim>\<open>Done\<close>, and the creators that hand a key over.\<close>

fun busy :: "'k worker \<Rightarrow> bool" where
  "busy (WKey key) = True"
| "busy (WSubmitting key n) = True"
| "busy (WResult key r) = True"
| "busy _ = False"

fun handing :: "'k worker \<Rightarrow> bool" where
  "handing (WSending key) = True"
| "handing _ = False"

fun calling :: "'k creating \<Rightarrow> bool" where
  "calling (CSending key) = True"
| "calling _ = False"

definition workers :: "('k worker \<Rightarrow> bool) \<Rightarrow> (nat \<Rightarrow> 'k worker) \<Rightarrow> nat" where
  "workers P f = card {i. P (f i)}"

definition started :: "(nat \<Rightarrow> 'k worker) \<Rightarrow> bool" where
  "started f \<longleftrightarrow> finite {i. f i \<noteq> WReceiving}"

lemma started_update [simp]: "started f \<Longrightarrow> started (f(i := w))"
  unfolding started_def by (rule finite_subset [of _ "insert i {i. f i \<noteq> WReceiving}"]) (auto split: if_splits)

lemma workers_update:
  assumes "started f" and "\<not> P WReceiving"
  shows "workers P (f(i := w)) + of_bool (P (f i)) = workers P f + of_bool (P w)"
proof -
  have "{j. P (f j)} \<subseteq> {j. f j \<noteq> WReceiving}" using assms(2) by (metis (mono_tags, lifting) Collect_mono)
  then have fin: "finite {j. P (f j)}" using assms(1) unfolding started_def by (rule finite_subset)
  let ?rest = "{j. P (f j)} - {i}"
  have "{j. P (f j)} = (if P (f i) then insert i ?rest else ?rest)" "{j. P ((f(i := w)) j)} = (if P w then insert i ?rest else ?rest)"
    by auto
  then have "card {j. P (f j)} = card ?rest + of_bool (P (f i))" "card {j. P ((f(i := w)) j)} = card ?rest + of_bool (P w)"
    using fin by (smt (verit) DiffD2 card_insert_disjoint finite_Diff insertCI of_bool_eq Suc_eq_plus1 add.right_neutral)+
  then show ?thesis by (simp add: workers_def)
qed

lemma workers_moved:
  "started f \<Longrightarrow> \<not> P WReceiving \<Longrightarrow> workers P (f(i := w)) = workers P f + of_bool (P w) - of_bool (P (f i))"
  using workers_update [of f P i w] by linarith

lemma workers_pos: "started f \<Longrightarrow> \<not> P WReceiving \<Longrightarrow> P (f i) \<Longrightarrow> 0 < workers P f"
  using workers_update [of f P i WReceiving] by simp

lemma workers_none: "workers P f = 0 \<Longrightarrow> started f \<Longrightarrow> \<not> P WReceiving \<Longrightarrow> \<not> P (f i)"
  using workers_pos [of f P i] by auto

text \<open>
  The wait groups count the goroutines at work; once the builder waits for the transfers, or has waited, nothing is
  being created.
\<close>

definition ac_counts :: "'k account_creator \<Rightarrow> bool" where
  "ac_counts s \<longleftrightarrow> started (ac_creators s) \<and> started (ac_funders s) \<and>
     ac_createWg s = of_bool (calling (ac_main s)) + workers busy (ac_creators s) \<and>
     ac_transferWg s = workers handing (ac_creators s) + workers busy (ac_funders s)"

definition ac_closed :: "'k account_creator \<Rightarrow> bool" where
  "ac_closed s \<longleftrightarrow> (case ac_main s of CWaitTransfer \<Rightarrow> True | CWaited _ \<Rightarrow> True | _ \<Rightarrow> False)"

lemmas ac_defs = createAccount_def creator_is_def funder_is_def creator_submits_def funder_submits_def
  creator_result_def funder_result_def creator_goes_on_def funder_goes_on_def

lemma ac_counts_start: "ac_counts (accountCreator_start tc dd)"
  by (simp add: ac_counts_def accountCreator_start_def started_def workers_def)

lemma ac_counts_step: "ac_step s t \<Longrightarrow> ac_counts s \<Longrightarrow> ac_counts t"
proof (induction rule: ac_step.induct)
  case (ac_transfer s i key j)
  then show ?case using workers_pos [of "ac_creators s" handing i] by (simp add: ac_counts_def ac_defs workers_moved)
next
  case (ac_done_create s i key r)
  then show ?case using workers_pos [of "ac_creators s" busy i] by (simp add: ac_counts_def ac_defs workers_moved)
next
  case (ac_done_transfer s i key r)
  then show ?case using workers_pos [of "ac_funders s" busy i] by (simp add: ac_counts_def ac_defs workers_moved)
qed (auto simp: ac_counts_def ac_defs workers_moved split: option.splits)

lemma ac_closed_step:
  assumes "ac_step s t" and "ac_counts s" and "ac_closed s \<Longrightarrow> ac_createWg s = 0"
  shows "ac_closed t \<Longrightarrow> ac_createWg t = 0"
  using assms
  by (induction rule: ac_step.induct) (auto simp: ac_closed_def ac_defs split: creating.splits option.splits if_splits)

section \<open>No account is forgotten\<close>

text \<open>The keys that are on their way, and those whose failure is not recorded yet.\<close>

fun carried :: "'k worker \<Rightarrow> 'k set" where
  "carried (WKey key) = {key}"
| "carried (WSubmitting key n) = {key}"
| "carried (WResult key None) = {key}"
| "carried (WDone key None) = {key}"
| "carried (WSending key) = {key}"
| "carried _ = {}"

fun funding :: "'k worker \<Rightarrow> 'k set" where
  "funding (WKey key) = {key}"
| "funding (WSubmitting key n) = {key}"
| "funding _ = {}"

fun failing :: "'k worker \<Rightarrow> 'k set" where
  "failing (WResult key (Some e)) = {key}"
| "failing (WDone key (Some e)) = {key}"
| "failing _ = {}"

fun sent :: "'k creating \<Rightarrow> 'k set" where
  "sent (CSending key) = {key}"
| "sent _ = {}"

definition gathered :: "('k worker \<Rightarrow> 'k set) \<Rightarrow> (nat \<Rightarrow> 'k worker) \<Rightarrow> 'k set" where
  "gathered h f = (\<Union>i. h (f i))"

lemma gathered_split: "gathered h f = h (f i) \<union> (\<Union>j \<in> - {i}. h (f j))"
  by (auto simp: gathered_def)

lemma gathered_update: "gathered h (f(i := w)) = h w \<union> (\<Union>j \<in> - {i}. h (f j))"
  by (subst gathered_split [of _ _ i]) simp

text \<open>
  Every key that was accepted is being sent, carried by a goroutine, funded or failed; and a failure is recorded or
  about to be.
\<close>

definition ac_kept :: "'k account_creator \<Rightarrow> bool" where
  "ac_kept s \<longleftrightarrow>
     ac_asked s \<subseteq> sent (ac_main s) \<union> gathered carried (ac_creators s) \<union> gathered funding (ac_funders s) \<union>
       ac_funded s \<union> ac_failed s \<and>
     (ac_failed s \<noteq> {} \<longrightarrow>
       ac_err s \<noteq> None \<or> gathered failing (ac_creators s) \<noteq> {} \<or> gathered failing (ac_funders s) \<noteq> {})"

lemma ac_kept_start: "ac_kept (accountCreator_start tc dd)"
  by (simp add: ac_kept_def accountCreator_start_def)

text \<open>What a step of one goroutine must do, besides what it does to the others.\<close>

lemma ac_kept_creator:
  assumes "ac_kept s" and "ac_creators t = (ac_creators s)(i := w)"
    and "sent (ac_main s) \<union> carried (ac_creators s i) \<union> gathered funding (ac_funders s) \<union> ac_funded s \<union> ac_failed s \<subseteq>
      sent (ac_main t) \<union> carried w \<union> gathered funding (ac_funders t) \<union> ac_funded t \<union> ac_failed t"
    and "ac_asked t = ac_asked s"
    and "gathered failing (ac_funders s) \<subseteq> gathered failing (ac_funders t)" and "ac_err s \<noteq> None \<Longrightarrow> ac_err t \<noteq> None"
    and "ac_failed t \<noteq> ac_failed s \<or> failing (ac_creators s i) \<noteq> {} \<Longrightarrow> failing w \<noteq> {} \<or> ac_err t \<noteq> None"
  shows "ac_kept t"
proof -
  have "gathered carried (ac_creators s) = carried (ac_creators s i) \<union> (\<Union>j \<in> - {i}. carried (ac_creators s j))"
    "gathered failing (ac_creators s) = failing (ac_creators s i) \<union> (\<Union>j \<in> - {i}. failing (ac_creators s j))"
    by (rule gathered_split)+
  with assms show ?thesis unfolding ac_kept_def by (simp only: gathered_update) blast
qed

lemma ac_kept_funder:
  assumes "ac_kept s" and "ac_funders t = (ac_funders s)(i := w)" and "ac_creators t = ac_creators s"
    and "ac_main t = ac_main s" and "ac_asked t = ac_asked s"
    and "funding (ac_funders s i) \<union> ac_funded s \<union> ac_failed s \<subseteq> funding w \<union> ac_funded t \<union> ac_failed t"
    and "ac_err s \<noteq> None \<Longrightarrow> ac_err t \<noteq> None"
    and "ac_failed t \<noteq> ac_failed s \<or> failing (ac_funders s i) \<noteq> {} \<Longrightarrow> failing w \<noteq> {} \<or> ac_err t \<noteq> None"
  shows "ac_kept t"
proof -
  have "gathered funding (ac_funders s) = funding (ac_funders s i) \<union> (\<Union>j \<in> - {i}. funding (ac_funders s j))"
    "gathered failing (ac_funders s) = failing (ac_funders s i) \<union> (\<Union>j \<in> - {i}. failing (ac_funders s j))"
    by (rule gathered_split)+
  with assms show ?thesis unfolding ac_kept_def by (simp only: gathered_update) blast
qed

lemma ac_kept_step: "ac_step s t \<Longrightarrow> ac_kept s \<Longrightarrow> ac_kept t"
proof (induction rule: ac_step.induct)
  case (ac_hand s key i)
  show ?case by (rule ac_kept_creator [OF ac_hand(4), where i = i and w = "WKey key"]) (use ac_hand in \<open>auto simp: ac_defs\<close>)
next
  case (ac_submit_create s i key)
  show ?case
    by (rule ac_kept_creator [OF ac_submit_create(2), where i = i and w = "WSubmitting key (ac_tcSequence s)"])
      (use ac_submit_create in \<open>auto simp: ac_defs\<close>)
next
  case (ac_result_create s i key n r)
  show ?case
    by (rule ac_kept_creator [OF ac_result_create(2), where i = i and w = "WResult key r"])
      (cases r; use ac_result_create in \<open>auto simp: ac_defs\<close>)+
next
  case (ac_done_create s i key r)
  show ?case
    by (rule ac_kept_creator [OF ac_done_create(2), where i = i and w = "WDone key r"])
      (cases r; use ac_done_create in \<open>auto simp: ac_defs\<close>)+
next
  case (ac_next_create s i key r)
  show ?case
    by (rule ac_kept_creator [OF ac_next_create(2), where i = i and w = "if r = None then WSending key else WReceiving"])
      (cases r; use ac_next_create in \<open>auto simp: ac_defs\<close>)+
next
  case (ac_transfer s i key j)
  have funders: "gathered h (ac_funders s) = (\<Union>l \<in> - {j}. h (ac_funders s l))" if "h WReceiving = {}" for h
    using gathered_split [of h "ac_funders s" j] ac_transfer that by simp
  show ?case
    by (rule ac_kept_creator [OF ac_transfer(5), where i = i and w = WReceiving])
      (use ac_transfer in \<open>auto simp: ac_defs gathered_update funders\<close>)
next
  case (ac_submit_transfer s i key)
  show ?case
    by (rule ac_kept_funder [OF ac_submit_transfer(2), where i = i and w = "WSubmitting key (ac_ddSequence s)"])
      (use ac_submit_transfer in \<open>auto simp: ac_defs\<close>)
next
  case (ac_result_transfer s i key n r)
  show ?case
    by (rule ac_kept_funder [OF ac_result_transfer(2), where i = i and w = "WResult key r"])
      (cases r; use ac_result_transfer in \<open>auto simp: ac_defs\<close>)+
next
  case (ac_done_transfer s i key r)
  show ?case
    by (rule ac_kept_funder [OF ac_done_transfer(2), where i = i and w = "WDone key r"])
      (cases r; use ac_done_transfer in \<open>auto simp: ac_defs\<close>)+
next
  case (ac_next_transfer s i key r)
  show ?case
    by (rule ac_kept_funder [OF ac_next_transfer(2), where i = i and w = WReceiving])
      (cases r; use ac_next_transfer in \<open>auto simp: ac_defs\<close>)+
next
  case (ac_end_create i s)
  show ?case
    by (rule ac_kept_creator [OF ac_end_create(4), where i = i and w = WEnded]) (use ac_end_create in \<open>auto simp: ac_defs\<close>)
next
  case (ac_end_transfer i s)
  show ?case
    by (rule ac_kept_funder [OF ac_end_transfer(4), where i = i and w = WEnded]) (use ac_end_transfer in \<open>auto simp: ac_defs\<close>)
qed (auto simp: ac_kept_def ac_defs)

section \<open>What waiting guarantees\<close>

lemma ac_run_inv:
  "ac_run s t \<Longrightarrow> ac_counts s \<Longrightarrow> ac_kept s \<Longrightarrow> (ac_closed s \<Longrightarrow> ac_createWg s = 0) \<Longrightarrow>
   ac_counts t \<and> ac_kept t \<and> (ac_closed t \<longrightarrow> ac_createWg t = 0)"
  by (induction rule: ac_run.induct) (auto dest: ac_counts_step ac_kept_step ac_closed_step)

lemma ac_reachable:
  assumes "ac_run (accountCreator_start tc dd) s"
  shows "ac_counts s" "ac_kept s" "ac_closed s \<Longrightarrow> ac_createWg s = 0"
  using ac_run_inv [OF assms ac_counts_start ac_kept_start]
  by (simp_all add: ac_closed_def accountCreator_start_def)

text \<open>After \<^verbatim>\<open>Done\<close> and before the error is recorded or the other wait group is increased.\<close>

fun in_window :: "'k worker \<Rightarrow> bool" where
  "in_window (WDone key r) = True"
| "in_window _ = False"

lemma idle_worker: "\<not> busy w \<Longrightarrow> \<not> in_window w \<Longrightarrow> failing w = {}" "\<not> busy w \<Longrightarrow> \<not> in_window w \<Longrightarrow> \<not> handing w \<Longrightarrow> carried w = {}"
  "\<not> busy w \<Longrightarrow> funding w = {}"
  by (cases w; auto)+

text \<open>
  C18: When \<^verbatim>\<open>wait\<close> of the account creator returns, and no goroutine is at that moment between its \<^verbatim>\<open>Done\<close> and what it
  does next, every account that was asked for has been created and funded or has failed, and when one has failed
  \<^verbatim>\<open>wait\<close> returns an error. So the builder goes on without an error only when it has the accounts.
\<close>

theorem diem_accounts_ready:
  assumes "ac_run (accountCreator_start tc dd) s" and "ac_main s = CWaitTransfer" and "ac_step s t" and "ac_main t = CWaited r"
    and "\<And>i. \<not> in_window (ac_creators s i)" and "\<And>i. \<not> in_window (ac_funders s i)"
  shows "ac_asked t \<subseteq> ac_funded t \<union> ac_failed t \<and> (ac_failed t \<noteq> {} \<longrightarrow> r \<noteq> None)"
proof -
  note inv = ac_reachable [OF assms(1)]
  have t: "t = s\<lparr>ac_transferClosed := True, ac_main := CWaited (ac_err s)\<rparr>" "ac_transferWg s = 0"
    using assms(3,2,4) by (cases rule: ac_step.cases; auto simp: ac_defs split: if_splits option.splits)+
  have "ac_createWg s = 0" using inv(3) assms(2) by (simp add: ac_closed_def)
  then have "\<not> busy (ac_creators s i)" "\<not> handing (ac_creators s i)" "\<not> busy (ac_funders s i)" for i
    using inv(1) t(2) workers_none [of busy "ac_creators s" i] workers_none [of handing "ac_creators s" i]
      workers_none [of busy "ac_funders s" i] unfolding ac_counts_def by simp_all
  then have "gathered carried (ac_creators s) = {}" "gathered funding (ac_funders s) = {}"
    "gathered failing (ac_creators s) = {}" "gathered failing (ac_funders s) = {}"
    using assms(5,6) by (auto simp: gathered_def idle_worker)
  then show ?thesis using inv(2) assms(2,4) unfolding t(1) by (auto simp: ac_kept_def)
qed

text \<open>The transactions of either account have consecutive sequence numbers, whatever the interleaving.\<close>

definition consecutive :: "64 word \<Rightarrow> nat \<Rightarrow> 64 word list" where
  "consecutive start n = map (\<lambda>i. start + of_nat i) [0 ..< n]"

lemma consecutive_snoc: "consecutive start (n + 1) = consecutive start n @ [start + of_nat n]"
  by (simp add: consecutive_def)

theorem diem_creator_sequences:
  "ac_run (accountCreator_start tc dd) s \<Longrightarrow>
   ac_tcUsed s = consecutive tc (length (ac_tcUsed s)) \<and> ac_tcSequence s = tc + of_nat (length (ac_tcUsed s)) \<and>
   ac_ddUsed s = consecutive dd (length (ac_ddUsed s)) \<and> ac_ddSequence s = dd + of_nat (length (ac_ddUsed s))"
proof (induction "accountCreator_start tc dd :: 'a account_creator" s rule: ac_run.induct)
  case ac_stay
  show ?case by (simp add: accountCreator_start_def consecutive_def)
next
  case (ac_more t u)
  from ac_more.hyps(3,2) show ?case
    by (cases rule: ac_step.cases)
      (auto simp: ac_defs consecutive_snoc [unfolded Suc_eq_plus1 [symmetric]] split: option.splits if_splits)
qed

text \<open>
  The goroutines end only when their channel is closed, which the builder does while it waits.
\<close>

definition ac_channels :: "'k account_creator \<Rightarrow> bool" where
  "ac_channels s \<longleftrightarrow> (ac_createClosed s \<longleftrightarrow> ac_closed s) \<and> (ac_transferClosed s \<longleftrightarrow> (\<exists>r. ac_main s = CWaited r)) \<and>
     (\<forall>i. ac_creators s i = WEnded \<longrightarrow> ac_createClosed s) \<and> (\<forall>i. ac_funders s i = WEnded \<longrightarrow> ac_transferClosed s) \<and>
     (\<forall>i. \<not> handing (ac_funders s i))"

lemma ac_channels_step: "ac_step s t \<Longrightarrow> ac_channels s \<Longrightarrow> ac_channels t"
  by (induction rule: ac_step.induct) (auto simp: ac_channels_def ac_closed_def ac_defs split: option.splits creating.splits)

lemma ac_channels_run: "ac_run (accountCreator_start tc dd) s \<Longrightarrow> ac_channels s"
proof (induction "accountCreator_start tc dd :: 'a account_creator" s rule: ac_run.induct)
  case ac_stay
  show ?case by (simp add: ac_channels_def accountCreator_start_def ac_closed_def)
qed (rule ac_channels_step)

text \<open>A goroutine that neither receives, hands a key over nor has ended can go on.\<close>

lemma moved: "ac_step s t \<Longrightarrow> f t \<noteq> f s \<Longrightarrow> \<exists>t. ac_step s t \<and> t \<noteq> s"
  by auto

lemma creator_moves: "busy (ac_creators s i) \<or> in_window (ac_creators s i) \<Longrightarrow> \<exists>t. ac_step s t \<and> t \<noteq> s"
proof (cases "ac_creators s i")
  case (WKey key)
  show ?thesis by (rule moved [OF ac_submit_create [OF WKey], of "\<lambda>t. ac_creators t i"]) (simp add: ac_defs WKey)
next
  case (WSubmitting key n)
  show ?thesis
    by (rule moved [OF ac_result_create [OF WSubmitting, where r = None], of "\<lambda>t. ac_creators t i"]) (simp add: ac_defs WSubmitting)
next
  case (WResult key r)
  show ?thesis by (rule moved [OF ac_done_create [OF WResult], of "\<lambda>t. ac_creators t i"]) (simp add: ac_defs WResult)
next
  case (WDone key r)
  show ?thesis
    by (rule moved [OF ac_next_create [OF WDone], of "\<lambda>t. ac_creators t i"]) (simp add: ac_defs WDone split: option.splits)
qed simp_all

lemma funder_moves: "busy (ac_funders s i) \<or> in_window (ac_funders s i) \<Longrightarrow> \<exists>t. ac_step s t \<and> t \<noteq> s"
proof (cases "ac_funders s i")
  case (WKey key)
  show ?thesis by (rule moved [OF ac_submit_transfer [OF WKey], of "\<lambda>t. ac_funders t i"]) (simp add: ac_defs WKey)
next
  case (WSubmitting key n)
  show ?thesis
    by (rule moved [OF ac_result_transfer [OF WSubmitting, where r = None], of "\<lambda>t. ac_funders t i"]) (simp add: ac_defs WSubmitting)
next
  case (WResult key r)
  show ?thesis by (rule moved [OF ac_done_transfer [OF WResult], of "\<lambda>t. ac_funders t i"]) (simp add: ac_defs WResult)
next
  case (WDone key r)
  show ?thesis
    by (rule moved [OF ac_next_transfer [OF WDone], of "\<lambda>t. ac_funders t i"]) (simp add: ac_defs WDone split: option.splits)
qed simp_all

text \<open>
  The two pools and the builder never block each other: while \<^verbatim>\<open>createAccount\<close> sends or \<^verbatim>\<open>wait\<close> waits,
  something goes on.
\<close>

theorem diem_creator_progress:
  assumes "ac_run (accountCreator_start tc dd) s" and "ac_main s \<noteq> COutside" and "\<nexists>r. ac_main s = CWaited r"
  shows "\<exists>t. ac_step s t \<and> t \<noteq> s"
proof (rule ccontr)
  assume "\<not> ?thesis"
  then have stuck: "\<And>t. ac_step s t \<Longrightarrow> t = s" by blast
  have ch: "ac_channels s" by (rule ac_channels_run [OF assms(1)])
  note inv = ac_reachable [OF assms(1)]
  have idle: "\<not> busy (ac_creators s i)" "\<not> in_window (ac_creators s i)" "\<not> busy (ac_funders s i)" "\<not> in_window (ac_funders s i)" for i
    using stuck creator_moves [of s i] funder_moves [of s i] by blast+
  have funder: "ac_funders s 0 = WReceiving"
    using idle(3,4) [of 0] ch assms(3) by (cases "ac_funders s 0") (auto simp: ac_channels_def dest: spec [of _ 0])
  have handing: "\<not> handing (ac_creators s i)" for i
  proof
    assume "handing (ac_creators s i)"
    then obtain key where key: "ac_creators s i = WSending key" by (cases "ac_creators s i") auto
    have "ac_step s (funder_is 0 (WKey key) (creator_is i WReceiving s))"
      using key funder ch assms(3) by (intro ac_transfer) (simp_all add: ac_channels_def poolSize_def)
    then have "funder_is 0 (WKey key) (creator_is i WReceiving s) = s" by (rule stuck)
    then have "ac_creators (funder_is 0 (WKey key) (creator_is i WReceiving s)) i = ac_creators s i" by (rule arg_cong)
    then show False using key by (simp add: ac_defs)
  qed
  have wg: "ac_createWg s = of_bool (calling (ac_main s))" "ac_transferWg s = 0"
    using inv(1) idle handing by (simp_all add: ac_counts_def workers_def)
  show False
  proof (cases "ac_main s")
    case (CSending key)
    then have "ac_creators s 0 = WReceiving"
      using idle(1,2) [of 0] handing [of 0] ch by (cases "ac_creators s 0") (auto simp: ac_channels_def ac_closed_def dest: spec [of _ 0])
    from ac_hand [OF CSending _ this] have "ac_step s (creator_is 0 (WKey key) (s\<lparr>ac_main := COutside\<rparr>))" by (simp add: poolSize_def)
    then have "ac_main (creator_is 0 (WKey key) (s\<lparr>ac_main := COutside\<rparr>)) = ac_main s" by (rule arg_cong [OF stuck])
    then show False using CSending by (simp add: ac_defs)
  next
    case CWaitCreate
    have "ac_step s (s\<lparr>ac_createClosed := True, ac_main := CWaitTransfer\<rparr>)" using CWaitCreate wg by (intro ac_all_created) simp_all
    then have "ac_main (s\<lparr>ac_createClosed := True, ac_main := CWaitTransfer\<rparr>) = ac_main s" by (rule arg_cong [OF stuck])
    then show False using CWaitCreate by simp
  next
    case CWaitTransfer
    have "ac_step s (s\<lparr>ac_transferClosed := True, ac_main := CWaited (ac_err s)\<rparr>)" using CWaitTransfer wg by (intro ac_all_funded) simp_all
    then have "ac_main (s\<lparr>ac_transferClosed := True, ac_main := CWaited (ac_err s)\<rparr>) = ac_main s" by (rule arg_cong [OF stuck])
    then show False using CWaitTransfer by simp
  qed (use assms in simp_all)
qed

section \<open>Waiting too short\<close>

text \<open>The state in which the creation of one account has just been counted as done and the builder waits for the transfers.\<close>

definition ac_early :: "64 word \<Rightarrow> 64 word \<Rightarrow> 'k \<Rightarrow> go_error option \<Rightarrow> 'k account_creator" where
  "ac_early tc dd key r =
     (let s1 = creator_is 0 (WKey key) ((createAccount key (accountCreator_start tc dd))\<lparr>ac_main := COutside\<rparr>);
          s2 = creator_result 0 key r (creator_submits 0 key s1);
          s3 = creator_is 0 (WDone key r) (s2\<lparr>ac_createWg := ac_createWg s2 - 1\<rparr>) in
      s3\<lparr>ac_main := CWaitCreate, ac_createClosed := True, ac_main := CWaitTransfer\<rparr>)"

lemmas ac_early_defs = ac_early_def accountCreator_start_def ac_defs Let_def poolSize_def

lemma ac_early_run: "ac_run (accountCreator_start tc dd) (ac_early tc dd key r)"
proof -
  let ?s = "accountCreator_start tc dd"
  have "ac_run ?s (createAccount key ?s)" by (rule ac_more [OF ac_stay ac_create]) (simp add: accountCreator_start_def)
  from ac_more [OF this ac_hand [where key = key and i = 0]]
  have "ac_run ?s (creator_is 0 (WKey key) ((createAccount key ?s)\<lparr>ac_main := COutside\<rparr>))" (is "ac_run _ ?s1")
    by (simp add: ac_early_defs)
  from ac_more [OF this ac_submit_create [where i = 0 and key = key]]
  have "ac_run ?s (creator_submits 0 key ?s1)" (is "ac_run _ ?s2") by (simp add: creator_is_def)
  from ac_more [OF this ac_result_create [where i = 0 and key = key and r = r and n = tc]]
  have "ac_run ?s (creator_result 0 key r ?s2)" (is "ac_run _ ?s3") by (simp add: ac_early_defs)
  from ac_more [OF this ac_done_create [where i = 0 and key = key and r = r]]
  have "ac_run ?s (creator_is 0 (WDone key r) (?s3\<lparr>ac_createWg := ac_createWg ?s3 - 1\<rparr>))" (is "ac_run _ ?s4")
    by (simp add: creator_result_def creator_is_def)
  from ac_more [OF this ac_wait] have "ac_run ?s (?s4\<lparr>ac_main := CWaitCreate\<rparr>)" by (cases r) (simp_all add: ac_early_defs)
  from ac_more [OF this ac_all_created] show ?thesis by (cases r) (simp_all add: ac_early_defs)
qed

text \<open>
  Without that condition \<^verbatim>\<open>wait\<close> can return too early, because \<^verbatim>\<open>processCreate\<close> calls \<^verbatim>\<open>createWg.Done\<close> before it
  records an error and before \<^verbatim>\<open>transferWg.Add\<close>: it can return without an error although the account could not be
  created; and it can close the channel to which the account is then sent, which panics.
\<close>

theorem diem_waits_too_short:
  "(\<exists>s. ac_run (accountCreator_start tc dd) s \<and> ac_main s = CWaited None \<and> ac_asked s = {key} \<and> ac_created s = {} \<and> ac_failed s = {key}) \<and>
   (\<exists>s. ac_run (accountCreator_start tc dd) s \<and> ac_main s = CWaited None \<and> ac_asked s = {key} \<and> ac_funded s = {} \<and> ac_panicked s)"
proof (intro conjI)
  have closes: "ac_run (accountCreator_start tc dd) ((ac_early tc dd key r)\<lparr>ac_transferClosed := True, ac_main := CWaited None\<rparr>)" for r
    using ac_more [OF ac_early_run [of tc dd key r] ac_all_funded] by (cases r) (simp_all add: ac_early_defs)
  show "\<exists>s. ac_run (accountCreator_start tc dd) s \<and> ac_main s = CWaited None \<and> ac_asked s = {key} \<and> ac_created s = {} \<and> ac_failed s = {key}"
    using closes [of "Some EOF"] by (intro exI conjI) (assumption, simp_all add: ac_early_defs)
  let ?s = "(ac_early tc dd key None)\<lparr>ac_transferClosed := True, ac_main := CWaited None\<rparr>"
  from ac_more [OF closes [of None] ac_next_create [where i = 0 and key = key and r = None]]
  have "ac_run (accountCreator_start tc dd) (creator_goes_on 0 key None ?s)" by (simp add: ac_early_defs)
  from ac_more [OF this ac_panic [where i = 0 and key = key]]
  have "ac_run (accountCreator_start tc dd) ((creator_goes_on 0 key None ?s)\<lparr>ac_panicked := True\<rparr>)" by (simp add: ac_early_defs)
  then show "\<exists>s. ac_run (accountCreator_start tc dd) s \<and> ac_main s = CWaited None \<and> ac_asked s = {key} \<and> ac_funded s = {} \<and> ac_panicked s"
    by (intro exI conjI) (assumption, simp_all add: ac_early_defs)
qed

text \<open>The account is created after all, and funded before the builder waits for the transfers.\<close>

definition ac_demo :: "nat account_creator" where
  "ac_demo =
     (let s1 = creator_goes_on 0 3 None (ac_early 5 7 3 None);
          s2 = funder_submits 0 3 (funder_is 0 (WKey 3) (creator_is 0 WReceiving s1));
          s3 = funder_result 0 3 None s2;
          s4 = funder_is 0 (WDone 3 None) (s3\<lparr>ac_transferWg := ac_transferWg s3 - 1\<rparr>) in
      funder_goes_on 0 3 None s4)"

lemma ac_demo_run: "ac_run (accountCreator_start 5 7) ac_demo"
proof -
  let ?s = "accountCreator_start 5 7 :: nat account_creator"
  have "ac_run ?s (creator_goes_on 0 3 None (ac_early 5 7 3 None))" (is "ac_run _ ?s1")
    by (rule ac_more [OF ac_early_run ac_next_create]) (simp add: ac_early_defs)
  from ac_more [OF this ac_transfer [where i = 0 and j = 0 and key = 3]]
  have "ac_run ?s (funder_is 0 (WKey 3) (creator_is 0 WReceiving ?s1))" (is "ac_run _ ?s2") by (simp add: ac_early_defs)
  from ac_more [OF this ac_submit_transfer [where i = 0 and key = 3]]
  have "ac_run ?s (funder_submits 0 3 ?s2)" (is "ac_run _ ?s3") by (simp add: funder_is_def)
  from ac_more [OF this ac_result_transfer [where i = 0 and key = 3 and r = None and n = 7]]
  have "ac_run ?s (funder_result 0 3 None ?s3)" (is "ac_run _ ?s4") by (simp add: ac_early_defs)
  from ac_more [OF this ac_done_transfer [where i = 0 and key = 3 and r = None]]
  have "ac_run ?s (funder_is 0 (WDone 3 None) (?s4\<lparr>ac_transferWg := ac_transferWg ?s4 - 1\<rparr>))"
    by (simp add: funder_result_def funder_is_def)
  from ac_more [OF this ac_next_transfer [where i = 0 and key = 3 and r = None]]
  show ?thesis by (simp add: ac_demo_def funder_is_def Let_def)
qed

theorem diem_accounts_ready_witness:
  "\<exists>s t. ac_run (accountCreator_start 5 7) s \<and> ac_step s t \<and> ac_main t = CWaited None \<and> 3 \<in> ac_asked t \<and> (3 :: nat) \<in> ac_funded t"
proof -
  let ?t = "ac_demo\<lparr>ac_transferClosed := True, ac_main := CWaited None\<rparr>"
  have "ac_step ac_demo ?t" using ac_all_funded [of ac_demo] by (simp add: ac_demo_def ac_early_defs)
  moreover have "\<not> in_window (ac_creators ac_demo i)" "\<not> in_window (ac_funders ac_demo i)" for i
    by (simp_all add: ac_demo_def ac_early_defs)
  moreover have "ac_main ac_demo = CWaitTransfer" "ac_asked ac_demo = {3}" "ac_failed ac_demo = {}"
    by (simp_all add: ac_demo_def ac_early_defs)
  ultimately have "ac_step ac_demo ?t \<and> ac_main ?t = CWaited None \<and> 3 \<in> ac_asked ?t \<and> 3 \<in> ac_funded ?t"
    using diem_accounts_ready [OF ac_demo_run, of ?t None] by simp
  with ac_demo_run show ?thesis by blast
qed

end
