(* ===== verification/Diem_Driver.thy ===== *)
theory Diem_Driver
  imports Diem_Builder Diem_Client Diem_Accounts
begin

text \<open>
  The Diem driver from end to end: what the builder encodes for the accounts of a benchmark is what a client
  signs, with consecutive sequence numbers; and two ways in which the builder loses count of them.
\<close>

section \<open>Requests\<close>

datatype diem_request = DReqTransfer int nat nat | DReqInvoke nat diem_contract string

fun diem_sender :: "diem_request \<Rightarrow> nat" where
  "diem_sender (DReqTransfer amount f t) = f"
| "diem_sender (DReqInvoke f c fn) = f"

fun diem_encode_request ::
  "('k, 'a, 'g, 'x) diem_sdk \<Rightarrow> ('k, 'a, 'x, 'p, 'n) diem_world \<Rightarrow> interactionInformation \<Rightarrow> diem_request
     \<Rightarrow> (('k, 'a, 'p, 'n) diem_builder, byte list) go" where
  "diem_encode_request dm nd info (DReqTransfer amount f t) =
     diem_EncodeTransfer dm nd amount (GRes (ROpaque (DAccount f))) (GRes (ROpaque (DAccount t))) info"
| "diem_encode_request dm nd info (DReqInvoke f c fn) =
     diem_EncodeInvoke dm nd (GRes (ROpaque (DAccount f))) (GRes (ROpaque (DContract c))) fn info"

text \<open>What the transaction that is asked for does; the arguments of a call are those the helper process gives.\<close>

fun diem_request_payload ::
  "('k, 'a, 'g, 'x) diem_sdk \<Rightarrow> ('k, 'a, 'x, 'p, 'n) diem_world \<Rightarrow> ('k, 'a, 'p, 'n) diem_builder \<Rightarrow> diem_request
     \<Rightarrow> ('a, 'g) diem_payload outcome" where
  "diem_request_payload dm nd b (DReqTransfer amount f t) = Ok (PeerToPeer (dac_addr (db_heap b ! t)) (word_of_int amount))"
| "diem_request_payload dm nd b (DReqInvoke f c fn) =
     obind (fst (diem_call_arguments dm nd c fn (snd (diem_settle nd b)))) (\<lambda>(code, args). Ok (Script code args))"

text \<open>Nothing but the sequence numbers of the senders changes in the store.\<close>

definition sequences_advanced ::
  "diem_request list \<Rightarrow> ('k, 'a, 'p, 'n) diem_builder \<Rightarrow> ('k, 'a, 'p, 'n) diem_builder \<Rightarrow> bool" where
  "sequences_advanced reqs b b' \<longleftrightarrow> length (db_heap b') = length (db_heap b) \<and>
     (\<forall>p < length (db_heap b). db_heap b' ! p = (db_heap b ! p)\<lparr>dac_sequence :=
        dac_sequence (db_heap b ! p) + of_nat (length (filter (\<lambda>req. diem_sender req = p) reqs))\<rparr>)"

lemma diem_settle_heap: "diem_settle nd b = (r, b') \<Longrightarrow> db_heap b' = db_heap b"
  by (auto simp: diem_settle_def db_on_node_def gzoom_def split: prod.splits if_splits)

lemma diem_call_arguments_heap: "diem_call_arguments dm nd c fn b = (r, b') \<Longrightarrow> db_heap b' = db_heap b"
  by (auto simp: diem_call_arguments_def split: option.splits prod.splits)

lemma diem_EncodeTransfer_Ok:
  assumes "diem_EncodeTransfer dm nd amount (GRes (ROpaque (DAccount f))) (GRes (ROpaque (DAccount t))) info b = (Ok payload, b')"
  obtains to where "dm_SerializeAddress dm (dac_addr (db_heap b ! t)) = Ok to" "length to \<le> 255"
    "db_heap b' = (db_heap b)[f := (db_heap b ! f)\<lparr>dac_sequence := dac_sequence (db_heap b ! f) + 1\<rparr>]"
    "payload = diem_transfer_bytes dm to \<lparr>dt_from = dac_key (db_heap b ! f), dt_to = dac_addr (db_heap b ! t),
      dt_amount = word_of_int amount, dt_sequence = dac_sequence (db_heap b ! f)\<rparr>"
proof -
  let ?t = "\<lparr>dt_from = dac_key (db_heap b ! f), dt_to = dac_addr (db_heap b ! t),
      dt_amount = word_of_int amount, dt_sequence = dac_sequence (db_heap b ! f)\<rparr>"
  from assms obtain b1 where settle: "diem_settle nd b = (Ok (), b1)"
    and enc: "to_buffer (diem_encode_transfer dm buffer_write 0x11 \<lparr>dt_from = dac_key (db_heap b1 ! f),
      dt_to = dac_addr (db_heap b1 ! t), dt_amount = word_of_int amount, dt_sequence = dac_sequence (db_heap b1 ! f)\<rparr>) b1 = (Ok payload, b1)"
    and b': "b' = diem_bump f b1"
    unfolding diem_EncodeTransfer_def diem_as_account.simps
    by (auto elim!: gbind_OkE simp: glift_run gread_run gret_run gmodify_run to_buffer_def)
  have heap: "db_heap b1 = db_heap b" by (rule diem_settle_heap [OF settle])
  have "\<exists>to. dm_SerializeAddress dm (dac_addr (db_heap b ! t)) = Ok to \<and> length to \<le> 255"
    using enc unfolding heap
    by (auto simp: to_buffer_def diem_encode_transfer_def gbind_def glift_run gerr_run obind_def split: outcome.splits if_splits)
  then obtain to where to: "dm_SerializeAddress dm (dt_to ?t) = Ok to" "length to \<le> 255" by auto
  have "payload = diem_transfer_bytes dm to ?t"
    using enc diem_encode_transfer_buffer [OF to, of "0x11" "[]"] unfolding heap by (simp add: to_buffer_def glift_run obind_def)
  then show ?thesis
    using to b' heap by (intro that) (simp_all add: diem_bump_def diem_set_sequence_def)
qed

lemma diem_EncodeInvoke_Ok:
  assumes "diem_EncodeInvoke dm nd (GRes (ROpaque (DAccount f))) (GRes (ROpaque (DContract c))) fn info b = (Ok payload, b')"
  obtains code args bargs where "fst (diem_call_arguments dm nd c fn (snd (diem_settle nd b))) = Ok (code, args)"
    "length code \<le> 65535" "length args \<le> 255" "diem_serialize_args dm args = Ok bargs"
    "db_heap b' = (db_heap b)[f := (db_heap b ! f)\<lparr>dac_sequence := dac_sequence (db_heap b ! f) + 1\<rparr>]"
    "payload = diem_invoke_bytes dm bargs \<lparr>di_from = dac_key (db_heap b ! f), di_code = code, di_args = args,
      di_sequence = dac_sequence (db_heap b ! f)\<rparr>"
proof -
  from assms obtain b1 code args b2 where settle: "diem_settle nd b = (Ok (), b1)"
    and call: "diem_call_arguments dm nd c fn b1 = (Ok (code, args), b2)"
    and enc: "to_buffer (diem_encode_invoke dm buffer_write 0x11 \<lparr>di_from = dac_key (db_heap b2 ! f), di_code = code,
      di_args = args, di_sequence = dac_sequence (db_heap b2 ! f)\<rparr>) b2 = (Ok payload, b2)"
    and b': "b' = diem_bump f b2"
    unfolding diem_EncodeInvoke_def diem_as_account.simps diem_as_contract.simps
    by (auto elim!: gbind_OkE simp: glift_run gread_run gret_run gmodify_run to_buffer_def split: prod.splits)
  have heap: "db_heap b2 = db_heap b" using diem_settle_heap [OF settle] diem_call_arguments_heap [OF call] by simp
  let ?t = "\<lparr>di_from = dac_key (db_heap b ! f), di_code = code, di_args = args, di_sequence = dac_sequence (db_heap b ! f)\<rparr>"
  have "length code \<le> 65535 \<and> length args \<le> 255 \<and> (\<exists>bargs. diem_serialize_args dm args = Ok bargs)"
    using enc by (auto simp: to_buffer_def diem_encode_invoke_def gbind_def glift_run gerr_run obind_def split: outcome.splits if_splits)
  then obtain bargs where fits: "length (di_code ?t) \<le> 65535" "length (di_args ?t) \<le> 255" "diem_serialize_args dm (di_args ?t) = Ok bargs"
    by auto
  have "payload = diem_invoke_bytes dm bargs ?t"
    using enc diem_encode_invoke_buffer [OF fits, of "0x11" "[]"] unfolding heap by (simp add: to_buffer_def glift_run obind_def)
  then show ?thesis
    using fits b' heap settle call by (intro that) (simp_all add: diem_bump_def diem_set_sequence_def)
qed

lemma diem_encode_heap:
  "diem_encode_request dm nd info req b = (Ok payload, b') \<Longrightarrow>
   db_heap b' = (db_heap b)[diem_sender req := (db_heap b ! diem_sender req)\<lparr>dac_sequence := dac_sequence (db_heap b ! diem_sender req) + 1\<rparr>]"
  by (cases req) (auto elim: diem_EncodeTransfer_Ok diem_EncodeInvoke_Ok)

lemma diem_encode_all_sequences:
  "gmap (diem_encode_request dm nd info) reqs b = (Ok payloads, b') \<Longrightarrow> sequences_advanced reqs b b'"
proof (induction reqs arbitrary: b payloads)
  case Nil
  then show ?case by (simp add: gret_run sequences_advanced_def)
next
  case (Cons req reqs)
  then obtain payload b1 payloads' where step: "diem_encode_request dm nd info req b = (Ok payload, b1)"
    "gmap (diem_encode_request dm nd info) reqs b1 = (Ok payloads', b')"
    by (auto elim!: gbind_OkE simp: gret_run)
  show ?case
    using Cons.IH [OF step(2)] diem_encode_heap [OF step(1)]
    by (auto simp: sequences_advanced_def nth_list_update add.assoc)
qed

lemma diem_decode_request:
  assumes "diem_ok dm" and "diem_encode_request dm nd info req b = (Ok payload, b')"
  obtains v what where "fst (diem_decodeTransaction dm 0x11 \<lparr>r_input = payload, r_err = EOF\<rparr>) = Ok v"
    "diem_request_payload dm nd b req = Ok what"
    "\<And>now. snd (diem_getSigned dm now v) = dm_SignTxn dm (dac_key (db_heap b ! diem_sender req))
       (dm_AccountAddress dm (dac_key (db_heap b ! diem_sender req))) (dac_sequence (db_heap b ! diem_sender req)) what (diem_limits_at now)"
proof (cases req)
  case (DReqTransfer amount f t)
  from assms(2) [unfolded DReqTransfer diem_encode_request.simps] obtain to where
    to: "dm_SerializeAddress dm (dac_addr (db_heap b ! t)) = Ok to" "length to \<le> 255"
    "payload = diem_transfer_bytes dm to \<lparr>dt_from = dac_key (db_heap b ! f), dt_to = dac_addr (db_heap b ! t),
      dt_amount = word_of_int amount, dt_sequence = dac_sequence (db_heap b ! f)\<rparr>"
    by (rule diem_EncodeTransfer_Ok)
  let ?t = "\<lparr>dt_from = dac_key (db_heap b ! f), dt_to = dac_addr (db_heap b ! t),
      dt_amount = word_of_int amount, dt_sequence = dac_sequence (db_heap b ! f)\<rparr>"
  have "fst (diem_decodeTransaction dm 0x11 \<lparr>r_input = payload, r_err = EOF\<rparr>) = Ok (DVTransfer ?t)"
    using diem_decode_transfer_bytes [OF assms(1), where t = ?t and to = to and first = "0x11" and
        r = "\<lparr>r_input = [], r_err = EOF\<rparr>" and rest = "[]"] to by simp
  then show ?thesis
    by (rule that) (simp_all add: DReqTransfer diem_transfer_getSigned_def diem_unsigned_getSigned_def Let_def)
next
  case (DReqInvoke f c fn)
  from assms(2) [unfolded DReqInvoke diem_encode_request.simps] obtain code args bargs where
    inv: "fst (diem_call_arguments dm nd c fn (snd (diem_settle nd b))) = Ok (code, args)"
    "length code \<le> 65535" "length args \<le> 255" "diem_serialize_args dm args = Ok bargs"
    "payload = diem_invoke_bytes dm bargs \<lparr>di_from = dac_key (db_heap b ! f), di_code = code, di_args = args,
      di_sequence = dac_sequence (db_heap b ! f)\<rparr>"
    by (rule diem_EncodeInvoke_Ok)
  let ?t = "\<lparr>di_from = dac_key (db_heap b ! f), di_code = code, di_args = args, di_sequence = dac_sequence (db_heap b ! f)\<rparr>"
  have "fst (diem_decodeTransaction dm 0x11 \<lparr>r_input = payload, r_err = EOF\<rparr>) = Ok (DVInvoke ?t)"
    using diem_decode_invoke_bytes [OF assms(1), where t = ?t and bargs = bargs and first = "0x11" and
        r = "\<lparr>r_input = [], r_err = EOF\<rparr>" and rest = "[]"] inv by simp
  then show ?thesis
    by (rule that) (simp_all add: DReqInvoke inv(1) obind_def diem_invoke_getSigned_def diem_unsigned_getSigned_def Let_def)
qed

text \<open>
  C15: End to end through the Diem driver: of the interactions the builder encodes for accounts of its
  store, the one that comes after the interactions \<open>pre\<close> is decoded by a client to the transaction that was asked for, signed with
  the sender's key, whose sequence number is the sender's at the beginning plus the number of its interactions in
  \<open>pre\<close>; it expires a day after the signature, which the preparer makes when it decodes or else the call when it is triggered. So
  the transactions of an account have consecutive sequence numbers in the order of the benchmark, and the key under which the
  confirmer registers each is its own.
\<close>

theorem diem_transactions_in_order:
  assumes "diem_ok dm" and "gmap (diem_encode_request dm nd info) pre b = (Ok payloads, b1)"
    and "diem_encode_request dm nd info req b1 = (Ok payload, b2)" and "p = diem_sender req" and "p < length (db_heap b)"
    and "key = dac_key (db_heap b ! p)"
    and "sequence = dac_sequence (db_heap b ! p) + of_nat (length (filter (\<lambda>req. diem_sender req = p) pre))"
  shows "\<exists>v what. diem_DecodePayload dm now preparer payload = Ok v \<and> diem_request_payload dm nd b1 req = Ok what \<and>
    snd (diem_getSigned dm now' v) = dm_SignTxn dm key (dm_AccountAddress dm key) sequence what
      (diem_limits_at (if preparer = DiemSignature then now else now')) \<and>
    diem_key dm v = (dm_AccountAddress dm key, sequence)"
proof -
  have acc: "db_heap b1 ! p = (db_heap b ! p)\<lparr>dac_sequence := sequence\<rparr>"
    using diem_encode_all_sequences [OF assms(2)] assms(5,7) by (simp add: sequences_advanced_def)
  obtain v what where dec: "fst (diem_decodeTransaction dm 0x11 \<lparr>r_input = payload, r_err = EOF\<rparr>) = Ok v"
    "diem_request_payload dm nd b1 req = Ok what"
    "\<And>now. snd (diem_getSigned dm now v) = dm_SignTxn dm key (dm_AccountAddress dm key) sequence what (diem_limits_at now)"
    using diem_decode_request [OF assms(1,3)] acc assms(4,6) by (metis diem_account.select_convs(1,3) diem_account.surjective diem_account.update_convs(3))
  let ?v = "diem_prepare dm now preparer v"
  obtain v' stx where sign: "diem_getSigned dm now v = (v', stx)" by force
  note once = diem_getSigned_key [OF assms(1) sign]
  have key: "diem_key dm v = (dm_AccountAddress dm key, sequence)"
    using once(2) dec(3) [of now] sign diem_okD(5,6) [OF assms(1)] by simp
  have "snd (diem_getSigned dm now' ?v) = dm_SignTxn dm key (dm_AccountAddress dm key) sequence what
      (diem_limits_at (if preparer = DiemSignature then now else now'))"
    using once(3) [of now'] sign dec(3) [of now] dec(3) [of now'] by (cases preparer) auto
  moreover have "diem_key dm ?v = (dm_AccountAddress dm key, sequence)"
    using once(1) sign key by (cases preparer) auto
  ultimately show ?thesis using dec(1,2) by (auto simp: diem_DecodePayload_def obind_def)
qed

text \<open>
  A library with keys of one byte, whose addresses are keys and whose signed transactions are what was signed; a
  helper process that answers every call with the name of a function.
\<close>

definition diem_demo_sdk :: "(byte, byte, 64 word, byte \<times> byte \<times> 64 word \<times> (byte, 64 word) diem_payload) diem_sdk" where
  "diem_demo_sdk = \<lparr>dm_Seed = (\<lambda>k. k # replicate 31 0), dm_KeyFromSeed = hd, dm_AccountAddress = (\<lambda>k. k + 100),
     dm_SerializeAddress = (\<lambda>a. Ok [a]), dm_DeserializeAddress = (\<lambda>bs. Ok (hd bs)), dm_AddressLength = 1,
     dm_AddressBytes = (\<lambda>a. [a]), dm_AddressArray = hd, dm_ArgAddress = (\<lambda>a. 1), dm_ArgU8Vector = (\<lambda>bs. 2), dm_ArgU64 = id,
     dm_SerializeArgument = (\<lambda>g. Ok (put_u64 g)), dm_DeserializeArgument = (\<lambda>bs. Ok (of_nat (get_uint LittleEndian bs))),
     dm_SignTxn = (\<lambda>key addr sequence payload limits. (key, addr, sequence, payload)),
     dm_Sender = (\<lambda>(_, addr, _). addr), dm_SequenceNumber = (\<lambda>(_, _, sequence, _). sequence)\<rparr>"

definition diem_demo_world :: "(byte, byte, byte \<times> byte \<times> 64 word \<times> (byte, 64 word) diem_payload, unit, unit) diem_world" where
  "diem_demo_world = \<lparr>dn_GetAccount = (\<lambda>_. gret (Some 4)), dn_SubmitTransaction = (\<lambda>_. gret ()),
     dn_WaitForTransaction2 = (\<lambda>_ _. gret ''executed''), dn_GenerateKey = gret 9, dn_now = (\<lambda>_. 0), dn_newAccountCreator = gret (),
     dn_createAccount = (\<lambda>_. gret ()), dn_wait = gret (), dn_TempDir = gret ''/tmp'', dn_RemoveAll = (\<lambda>_. gret ()),
     dn_MoveBuild = (\<lambda>_. gret ()), dn_ReadDir = (\<lambda>_. gret []), dn_ReadFile = (\<lambda>_. gret []), dn_Open = (\<lambda>_. gret ()),
     dn_DecodeKeys = (\<lambda>_. gret None), dn_DeserializeBytes = Ok, dn_LookPath = gret, dn_StartServiceProcess = (\<lambda>_. gret ()),
     dn_Ask = (\<lambda>_. gret [''add'', []])\<rparr>"

definition diem_demo_builder :: "(byte, byte, unit, unit) diem_builder" where
  "diem_demo_builder = (diem_addAccount diem_demo_sdk (\<lambda>n. n) 9 (diem_newBuilder ()))\<lparr>db_creator := True,
     db_applications := [(''c'', \<lparr>dap_moduleCode = [], dap_ctorCode = [], dap_funcCodes = [(''add'', [7])], dap_parser = (),
       dap_lines = [], dap_deployed = True\<rparr>)]\<rparr>"

definition diem_demo_info :: interactionInformation where
  "diem_demo_info = \<lparr>ii_globalIndex = 0, ii_clientIndex = 0, ii_localIndex = 0, ii_scheduleTime = f64_one\<rparr>"

definition diem_demo_call :: diem_request where
  "diem_demo_call = DReqInvoke 0 \<lparr>dct_app = ''c'', dct_addr = 0\<rparr> ''add()''"

lemma diem_demo_ok: "diem_ok diem_demo_sdk"
  by (simp add: diem_ok_def diem_demo_sdk_def SeedSize_def)

theorem diem_transactions_in_order_witness:
  "\<exists>payloads b1 payload b2 v.
     gmap (diem_encode_request diem_demo_sdk diem_demo_world diem_demo_info) [DReqTransfer 5 0 0] diem_demo_builder = (Ok payloads, b1) \<and>
     diem_encode_request diem_demo_sdk diem_demo_world diem_demo_info diem_demo_call b1 = (Ok payload, b2) \<and>
     diem_DecodePayload diem_demo_sdk 0 DiemSignature payload = Ok v \<and>
     snd (diem_getSigned diem_demo_sdk 0 v) = (9, 109, 1, Script [7] [])"
proof -
  note run = gbind_def glift_run gread_run gmodify_run gret_run to_buffer_def obind_def diem_settle_def db_on_node_def gzoom_def
  let ?b = "diem_demo_builder\<lparr>db_creator := False\<rparr>"
  have wait: "diem_settle diem_demo_world diem_demo_builder = (Ok (), ?b)" "diem_settle diem_demo_world ?b = (Ok (), ?b)"
    "diem_settle diem_demo_world (diem_bump 0 ?b) = (Ok (), diem_bump 0 ?b)"
    by (simp_all add: run diem_demo_world_def diem_demo_builder_def diem_bump_def diem_set_sequence_def)
  have address: "dm_SerializeAddress diem_demo_sdk a = Ok [a]" for a by (simp add: diem_demo_sdk_def)
  obtain payloads where pre: "gmap (diem_encode_request diem_demo_sdk diem_demo_world diem_demo_info) [DReqTransfer 5 0 0]
      diem_demo_builder = (Ok payloads, diem_bump 0 ?b)"
    using wait by (simp add: diem_EncodeTransfer_def gbind_def glift_run gread_run gmodify_run gret_run to_buffer_def obind_def
        diem_encode_transfer_buffer [OF address])
  have heap: "db_heap diem_demo_builder = [\<lparr>dac_key = 9, dac_addr = 109, dac_sequence = 0\<rparr>]"
    by (simp add: diem_demo_builder_def diem_addAccount_def diem_append_def diem_newBuilder_def diem_demo_sdk_def)
  obtain b' where args: "diem_call_arguments diem_demo_sdk diem_demo_world \<lparr>dct_app = ''c'', dct_addr = 0\<rparr> ''add()'' (diem_bump 0 ?b) =
      (Ok ([7], []), b')"
    by (simp add: diem_call_arguments_def diem_arguments_def diem_scan_call_def diem_bump_def diem_set_sequence_def
        diem_demo_builder_def diem_demo_world_def gret_run obind_def)
  obtain payload b2 where call:
    "diem_encode_request diem_demo_sdk diem_demo_world diem_demo_info diem_demo_call (diem_bump 0 ?b) = (Ok payload, b2)"
    using wait args by (simp add: diem_demo_call_def diem_EncodeInvoke_def gbind_def glift_run gread_run gmodify_run gret_run
        to_buffer_def obind_def diem_encode_invoke_buffer)
  have "0 < length (db_heap diem_demo_builder)" by (simp add: heap)
  from diem_transactions_in_order [OF diem_demo_ok pre call refl _ refl refl, of 0 DiemSignature 0] this args wait
  have "\<exists>v. diem_DecodePayload diem_demo_sdk 0 DiemSignature payload = Ok v \<and>
      snd (diem_getSigned diem_demo_sdk 0 v) = (9, 109, 1, Script [7] [])"
    by (simp add: diem_demo_call_def heap obind_def) (auto simp: diem_demo_sdk_def)
  with pre call show ?thesis by blast
qed

section \<open>Sequence numbers the builder uses itself\<close>

lemma diem_submit_Ok:
  assumes "diem_submit dm nd tx b = (Ok (), b')"
  obtains n where "dn_SubmitTransaction nd (snd (diem_getSigned dm (dn_now nd (db_node b)) tx)) (db_node b) = (Ok (), n)"
    "db_heap b' = db_heap b"
  using assms
  by (auto elim!: gbind_OkE simp: diem_submit_def diem_submitTransaction_def gread_run gret_run gerr_run db_on_node_def gzoom_def
      split: prod.splits if_splits)

text \<open>
  A contract is created with a transaction of its owner, and the owner's account keeps the sequence number of that
  transaction: an interaction that the same pointer sends afterwards, without the account being looked up again, is
  encoded with a number the chain has seen.
\<close>

theorem diem_constructor_number_kept:
  assumes "diem_CreateContract dm nd grow name b = (Ok c, b1)"
  shows "\<exists>owner code now n n'. c = DContract \<lparr>dct_app = name, dct_addr = owner\<rparr> \<and>
    dn_SubmitTransaction nd (dm_SignTxn dm (dac_key (db_heap b1 ! owner)) (dm_AccountAddress dm (dac_key (db_heap b1 ! owner)))
      (dac_sequence (db_heap b1 ! owner)) (Script code []) (diem_limits_at now)) n = (Ok (), n')"
proof -
  have "\<exists>owner code b2. c = DContract \<lparr>dct_app = name, dct_addr = owner\<rparr> \<and>
      diem_submit dm nd (DVInvoke \<lparr>di_from = dac_key (db_heap b2 ! owner), di_code = code, di_args = [],
         di_sequence = dac_sequence (db_heap b2 ! owner)\<rparr>) b2 = (Ok (), b1)"
    using assms unfolding diem_CreateContract_def by (elim gbind_OkE) (auto simp: gread_run gret_run)
  then obtain owner code b2 where c: "c = DContract \<lparr>dct_app = name, dct_addr = owner\<rparr>"
    and submit: "diem_submit dm nd (DVInvoke \<lparr>di_from = dac_key (db_heap b2 ! owner), di_code = code, di_args = [],
         di_sequence = dac_sequence (db_heap b2 ! owner)\<rparr>) b2 = (Ok (), b1)" by blast
  from submit obtain n where "dn_SubmitTransaction nd (dm_SignTxn dm (dac_key (db_heap b1 ! owner))
      (dm_AccountAddress dm (dac_key (db_heap b1 ! owner))) (dac_sequence (db_heap b1 ! owner)) (Script (code) [])
      (diem_limits_at (dn_now nd (db_node b2)))) (db_node b2) = (Ok (), n)"
    by (rule diem_submit_Ok) (simp add: diem_invoke_getSigned_def diem_unsigned_getSigned_def Let_def)
  with c show ?thesis by blast
qed

text \<open>
  When the slice of the accounts is full, an appended account moves it: a pointer that was given out before
  and the element of the slice are then two accounts, and what is sent with the one is not counted by the other.
\<close>

theorem diem_append_moves_accounts:
  assumes "db_len b = db_cap b" and "index < db_len b" and "db_base b + db_len b \<le> length (db_heap b)"
    and "b1 = diem_addAccount dm grow key b" and "p = db_base b + index" and "q = db_base b1 + index"
  shows "p \<noteq> q \<and> db_heap b1 ! p = db_heap b ! p \<and> db_heap b1 ! q = db_heap b ! p \<and>
    db_heap (diem_bump p b1) ! q = db_heap b ! p \<and> db_heap (diem_bump q b1) ! p = db_heap b ! p"
proof -
  have heap: "\<exists>rest. db_heap b1 = db_heap b @ take (db_len b) (drop (db_base b) (db_heap b)) @ rest" and base: "db_base b1 = length (db_heap b)"
    using assms(1,4) by (auto simp: diem_addAccount_def diem_append_def)
  then have "db_heap b1 ! p = db_heap b ! p" "db_heap b1 ! q = db_heap b ! p" "p < q"
    using assms(2,3,5,6) by (auto simp: nth_append)
  then show ?thesis by (simp add: diem_bump_def diem_set_sequence_def)
qed

end
