(* ===== verification/Sol_Transaction.thy ===== *)
theory Sol_Transaction
  imports Eth_Builder
begin

text \<open>
  The transactions of the Solana driver (\<^verbatim>\<open>src/blockchains/nsolana/transaction.go\<close>): their encoding for the
  secondaries, their decoding, how they become signed transactions over a recent block hash, the
  providers of that hash, and the batches that deploy a contract. The Solana library and the node are a parameter.
\<close>

section \<open>The library\<close>

text \<open>
  The functions of the library and of the node behind its client. A private key is a slice of bytes, a public key
  an array. \<open>sl_Sign\<close> takes the function that finds the private key of a signer; \<open>sl_Build\<close> builds from a copy of a
  builder with a block hash; \<open>sl_Deploy\<close> gives the builder of the first transaction, of the writes and of the last one;
  \<open>sl_Statuses\<close> tells whether the transaction of a signature is finalized, or that it is not found.
\<close>

datatype sol_status = SolNotFound | SolFinalized bool

record ('pk, 'h, 'i, 'tb, 'x, 'sig, 'abi, 'n) sol_sdk =
  sl_PublicKey :: "byte list \<Rightarrow> 'pk outcome"
  sl_PublicKeyFromBytes :: "byte list \<Rightarrow> 'pk"
  sl_Bytes :: "'pk \<Rightarrow> byte list"
  sl_SysVarClock :: 'pk
  sl_ZeroKey :: 'pk
  sl_NewTransferInstruction :: "64 word \<Rightarrow> 'pk \<Rightarrow> 'pk \<Rightarrow> 'i"
  sl_NewCreateAccountInstruction :: "64 word \<Rightarrow> nat \<Rightarrow> 'pk \<Rightarrow> 'pk \<Rightarrow> 'pk \<Rightarrow> 'i"
  sl_NewInstruction :: "'pk \<Rightarrow> ('pk \<times> bool \<times> bool) list \<Rightarrow> byte list \<Rightarrow> 'i"
  sl_NewTransaction :: "'i list \<Rightarrow> 'h \<Rightarrow> 'pk \<Rightarrow> 'x outcome"
  sl_NewTransactionBuilder :: "'i list \<Rightarrow> 'tb"
  sl_Build :: "'h \<Rightarrow> 'tb \<Rightarrow> 'x outcome"
  sl_Deploy :: "'pk \<Rightarrow> byte list \<Rightarrow> 64 word \<Rightarrow> 'pk \<Rightarrow> ('tb \<times> 'tb list \<times> 'tb) outcome"
  sl_Sign :: "('pk \<Rightarrow> byte list option) \<Rightarrow> 'x \<Rightarrow> 'x outcome"
  sl_Signatures :: "'x \<Rightarrow> 'sig list"
  sl_PackConstructor :: "'abi \<Rightarrow> byte list outcome"
  sl_Keccak256 :: "string \<Rightarrow> byte list"
  sl_LatestBlockhash :: "('n, 'h) go"
  sl_SendTransaction :: "'x \<Rightarrow> ('n, 'sig) go"
  sl_Statuses :: "'sig \<Rightarrow> ('n, sol_status) go"
  sl_RentExemption :: "nat \<Rightarrow> ('n, 64 word) go"
  sl_NewWallet :: "('n, byte list) go"

definition PublicKeyLength :: nat where "PublicKeyLength = 32"

text \<open>What is documented: a public key is the array of its 32 bytes.\<close>

definition sol_ok :: "('pk, 'h, 'i, 'tb, 'x, 'sig, 'abi, 'n) sol_sdk \<Rightarrow> bool" where
  "sol_ok sl \<longleftrightarrow> (\<forall>k. sl_PublicKeyFromBytes sl (sl_Bytes sl k) = k \<and> length (sl_Bytes sl k) = PublicKeyLength)"

section \<open>The parameters of transactions\<close>

text \<open>A provider asks the node, or keeps a block hash that a goroutine renews.\<close>

datatype 'h sol_provider = SolDirect | SolCached 'h

record ('h, 'n) sol_state =
  so_node :: 'n
  so_provider :: "'h sol_provider"

definition sol_on_node :: "('n, 'b) go \<Rightarrow> (('h, 'n) sol_state, 'b) go" where
  "sol_on_node m = gzoom so_node (\<lambda>n s. s\<lparr>so_node := n\<rparr>) m"

definition sol_getParams ::
  "('pk, 'h, 'i, 'tb, 'x, 'sig, 'abi, 'n) sol_sdk \<Rightarrow> (('h, 'n) sol_state, 'h) go" where
  "sol_getParams sl = (\<lambda>s.
     case so_provider s of
       SolDirect \<Rightarrow> sol_on_node (sl_LatestBlockhash sl) s
     | SolCached blockhash \<Rightarrow> (Ok blockhash, s))"

text \<open>
  What the goroutine of a cached provider does at a tick: it asks the node until the hash is another one. After an
  error it ends: \<open>Err\<close>. It sleeps 200 nanoseconds between two questions.
\<close>

partial_function (option) sol_renew ::
  "('pk, 'h, 'i, 'tb, 'x, 'sig, 'abi, 'n) sol_sdk \<Rightarrow> 'h \<Rightarrow> 'n \<Rightarrow> ('h outcome \<times> 'n) option" where
  "sol_renew sl cached node =
     (case sl_LatestBlockhash sl node of
        (Ok blockhash, node') \<Rightarrow> if blockhash \<noteq> cached then Some (Ok blockhash, node') else sol_renew sl cached node'
      | (Err e, node') \<Rightarrow> Some (Err e, node')
      | (Panic p, node') \<Rightarrow> Some (Panic p, node'))"

section \<open>Transactions\<close>

definition sol_type_transfer :: byte where "sol_type_transfer = 0"
definition sol_type_invoke :: byte where "sol_type_invoke = 1"

record 'pk sol_transferTransaction =
  st_amount :: "64 word"
  st_from :: "byte list"
  st_to :: 'pk

record 'pk sol_invokeTransaction =
  si_amount :: "64 word"
  si_from :: "byte list"
  si_program :: 'pk
  si_storage :: 'pk
  si_payload :: "byte list"

datatype ('pk, 'tb, 'x) sol_virtual =
    SVSigned 'x
  | SVUnsigned 'x "('pk, byte list) gomap"
  | SVParameterless 'tb "byte list list"
  | SVTransfer "'pk sol_transferTransaction"
  | SVInvoke "'pk sol_invokeTransaction"

text \<open>\<^verbatim>\<open>newUnsignedTransaction\<close>: the keys by their public keys, the last one if several have the same.\<close>

fun sol_signers ::
  "('pk, 'h, 'i, 'tb, 'x, 'sig, 'abi, 'n) sol_sdk \<Rightarrow> byte list list \<Rightarrow> ('pk, byte list) gomap \<Rightarrow> ('pk, byte list) gomap outcome" where
  "sol_signers sl [] signers = Ok signers"
| "sol_signers sl (signer # rest) signers =
     obind (sl_PublicKey sl signer) (\<lambda>pk. sol_signers sl rest (gomap_set pk signer signers))"

type_synonym ('pk, 'h, 'tb, 'x, 'n) sol_getTx_op =
  "('h, 'n) sol_state \<Rightarrow> (('pk, 'tb, 'x) sol_virtual \<times> 'x outcome) \<times> ('h, 'n) sol_state"

text \<open>
  \<^verbatim>\<open>getTx\<close> gives back what the transaction has become, with the signed transaction or an error. A key of no bytes
  in the map counts as none only if it is nil, which none is.
\<close>

definition sol_unsigned_getTx ::
  "('pk, 'h, 'i, 'tb, 'x, 'sig, 'abi, 'n) sol_sdk \<Rightarrow> 'x \<Rightarrow> ('pk, byte list) gomap \<Rightarrow> ('pk, 'tb, 'x) sol_virtual \<times> 'x outcome" where
  "sol_unsigned_getTx sl tx signers =
     (case sl_Sign sl (gomap_get signers) tx of
        Ok stx \<Rightarrow> (SVSigned stx, Ok stx)
      | Err e \<Rightarrow> (SVUnsigned tx signers, Err e)
      | Panic p \<Rightarrow> (SVUnsigned tx signers, Panic p))"

text \<open>The block hash, then the transaction made with it, then its signatures.\<close>

definition sol_make ::
  "('pk, 'h, 'i, 'tb, 'x, 'sig, 'abi, 'n) sol_sdk \<Rightarrow> ('pk, 'tb, 'x) sol_virtual \<Rightarrow> byte list list \<Rightarrow> ('h \<Rightarrow> 'x outcome)
     \<Rightarrow> ('pk, 'h, 'tb, 'x, 'n) sol_getTx_op" where
  "sol_make sl this keys make_tx = (\<lambda>s.
     case gbind (sol_getParams sl) (\<lambda>blockhash.
       gbind (glift (make_tx blockhash)) (\<lambda>tx.
       gbind (glift (sol_signers sl keys [])) (\<lambda>signers. gret (tx, signers)))) s of
       (Ok (tx, signers), s') \<Rightarrow> (sol_unsigned_getTx sl tx signers, s')
     | (Err e, s') \<Rightarrow> ((this, Err e), s')
     | (Panic p, s') \<Rightarrow> ((this, Panic p), s'))"

definition sol_parameterless_getTx ::
  "('pk, 'h, 'i, 'tb, 'x, 'sig, 'abi, 'n) sol_sdk \<Rightarrow> 'tb \<Rightarrow> byte list list \<Rightarrow> ('pk, 'h, 'tb, 'x, 'n) sol_getTx_op" where
  "sol_parameterless_getTx sl txBuilder signers =
     sol_make sl (SVParameterless txBuilder signers) signers (\<lambda>blockhash. sl_Build sl blockhash txBuilder)"

definition sol_transfer_getTx ::
  "('pk, 'h, 'i, 'tb, 'x, 'sig, 'abi, 'n) sol_sdk \<Rightarrow> 'pk sol_transferTransaction \<Rightarrow> ('pk, 'h, 'tb, 'x, 'n) sol_getTx_op" where
  "sol_transfer_getTx sl t = (\<lambda>s.
     case sl_PublicKey sl (st_from t) of
       Ok from \<Rightarrow>
         sol_make sl (SVTransfer t) [st_from t] (\<lambda>blockhash.
           sl_NewTransaction sl [sl_NewTransferInstruction sl (st_amount t) from (st_to t)] blockhash from) s
     | Err e \<Rightarrow> ((SVTransfer t, Err e), s)
     | Panic p \<Rightarrow> ((SVTransfer t, Panic p), s))"

text \<open>\<^verbatim>\<open>encodeSeeds\<close>.\<close>

definition encodeSeeds :: "byte list list \<Rightarrow> byte list" where
  "encodeSeeds seeds = of_nat (length seeds) # concat (map (\<lambda>seed. of_nat (length seed) # seed) seeds)"

text \<open>The data of a call: the storage, the caller, the value, four bytes that tell the contract, no seeds, the arguments.\<close>

definition sol_call_data ::
  "('pk, 'h, 'i, 'tb, 'x, 'sig, 'abi, 'n) sol_sdk \<Rightarrow> 'pk \<Rightarrow> 'pk \<Rightarrow> 64 word \<Rightarrow> byte list \<Rightarrow> byte list \<Rightarrow> byte list" where
  "sol_call_data sl storage from amount hash payload =
     sl_Bytes sl storage @ sl_Bytes sl from @ put_u64 amount @ hash @ encodeSeeds [] @ payload"

definition sol_invoke_getTx ::
  "('pk, 'h, 'i, 'tb, 'x, 'sig, 'abi, 'n) sol_sdk \<Rightarrow> 'pk sol_invokeTransaction \<Rightarrow> ('pk, 'h, 'tb, 'x, 'n) sol_getTx_op" where
  "sol_invoke_getTx sl t = (\<lambda>s.
     case sl_PublicKey sl (si_from t) of
       Ok from \<Rightarrow>
         sol_make sl (SVInvoke t) [si_from t] (\<lambda>blockhash.
           sl_NewTransaction sl
             [sl_NewInstruction sl (si_program t)
               [(si_storage t, True, False), (sl_SysVarClock sl, False, False), (sl_ZeroKey sl, False, False)]
               (sol_call_data sl (si_storage t) from (si_amount t) (replicate 4 0) (si_payload t))]
             blockhash from) s
     | Err e \<Rightarrow> ((SVInvoke t, Err e), s)
     | Panic p \<Rightarrow> ((SVInvoke t, Panic p), s))"

fun sol_getTx ::
  "('pk, 'h, 'i, 'tb, 'x, 'sig, 'abi, 'n) sol_sdk \<Rightarrow> ('pk, 'tb, 'x) sol_virtual \<Rightarrow> ('pk, 'h, 'tb, 'x, 'n) sol_getTx_op" where
  "sol_getTx sl (SVSigned stx) = (\<lambda>s. ((SVSigned stx, Ok stx), s))"
| "sol_getTx sl (SVUnsigned tx signers) = (\<lambda>s. (sol_unsigned_getTx sl tx signers, s))"
| "sol_getTx sl (SVParameterless txBuilder signers) = sol_parameterless_getTx sl txBuilder signers"
| "sol_getTx sl (SVTransfer t) = sol_transfer_getTx sl t"
| "sol_getTx sl (SVInvoke t) = sol_invoke_getTx sl t"

text \<open>A decoded transaction computes \<^verbatim>\<open>getTx\<close> once and gives the same answer, an error too, ever after.\<close>

record ('pk, 'tb, 'x) sol_lazy =
  sz_inner :: "('pk, 'tb, 'x) sol_virtual"
  sz_tx :: "'x outcome option"

definition sol_newLazyTransaction :: "('pk, 'tb, 'x) sol_virtual \<Rightarrow> ('pk, 'tb, 'x) sol_lazy" where
  "sol_newLazyTransaction inner = \<lparr>sz_inner = inner, sz_tx = None\<rparr>"

definition sol_lazy_getTx ::
  "('pk, 'h, 'i, 'tb, 'x, 'sig, 'abi, 'n) sol_sdk \<Rightarrow> ('pk, 'tb, 'x) sol_lazy \<Rightarrow> ('h, 'n) sol_state
     \<Rightarrow> 'x outcome \<times> ('pk, 'tb, 'x) sol_lazy \<times> ('h, 'n) sol_state" where
  "sol_lazy_getTx sl lt s =
     (case sz_tx lt of
        Some r \<Rightarrow> (r, lt, s)
      | None \<Rightarrow>
          (case sol_getTx sl (sz_inner lt) s of
             ((inner, r), s') \<Rightarrow> (r, lt\<lparr>sz_inner := inner, sz_tx := Some r\<rparr>, s')))"

section \<open>Deployment\<close>

record 'pk sol_account =
  sac_private :: "byte list"
  sac_public :: 'pk

definition sol_newAccount ::
  "('pk, 'h, 'i, 'tb, 'x, 'sig, 'abi, 'n) sol_sdk \<Rightarrow> byte list \<Rightarrow> 'pk sol_account outcome" where
  "sol_newAccount sl private = obind (sl_PublicKey sl private) (\<lambda>public. Ok \<lparr>sac_private = private, sac_public = public\<rparr>)"

text \<open>
  The four batches: the account of the program, the writes of its text, its end, and the account of its storage together
  with the call of the constructor.
\<close>

definition newDeployContractTransactionBatches ::
  "('pk, 'h, 'i, 'tb, 'x, 'sig, 'abi, 'n) sol_sdk \<Rightarrow> string \<Rightarrow> 'abi \<Rightarrow> byte list \<Rightarrow> 'pk sol_account \<Rightarrow> 'pk sol_account
     \<Rightarrow> 'pk sol_account \<Rightarrow> 64 word \<Rightarrow> 64 word \<Rightarrow> ('pk, 'tb, 'x) sol_virtual list list outcome" where
  "newDeployContractTransactionBatches sl name abi code from program storage programLamports storageLamports =
     obind (sl_Deploy sl (sac_public from) code programLamports (sac_public program)) (\<lambda>(initial, writes, final).
     obind (sl_PackConstructor sl abi) (\<lambda>input.
     if length (sl_Keccak256 sl name) < 4 then Panic ''slice bounds out of range''
     else
       let signers = [sac_private from, sac_private program];
           data = sol_call_data sl (sac_public storage) (sac_public from) 0 (take 4 (sl_Keccak256 sl name)) input in
       Ok [[SVParameterless initial signers], map (\<lambda>builder. SVParameterless builder signers) writes, [SVParameterless final signers],
           [SVParameterless
              (sl_NewTransactionBuilder sl
                [sl_NewCreateAccountInstruction sl storageLamports (8192 * 8) (sac_public program) (sac_public from) (sac_public storage),
                 sl_NewInstruction sl (sac_public program) [(sac_public storage, True, False)] data])
              [sac_private from, sac_private storage]]]))"

section \<open>Encoding and decoding\<close>

definition sol_encode_transfer ::
  "('pk, 'h, 'i, 'tb, 'x, 'sig, 'abi, 'n) sol_sdk \<Rightarrow> 'w write_op \<Rightarrow> byte \<Rightarrow> 'pk sol_transferTransaction \<Rightarrow> ('w, unit) go" where
  "sol_encode_transfer sl wr first t =
     (if length (st_from t) > 255
      then gerr (Errorf ''private key too long (%d bytes)'' [AInt (int (length (st_from t)))])
      else
        gbind (out_chain
          [WriteUint8 wr sol_type_transfer, WriteUint8 wr (of_nat (length (st_from t))), WriteUint64 wr (st_amount t),
           WriteBytes wr (st_from t), WriteBytes wr (sl_Bytes sl (st_to t))]
          (SetOrder_out LittleEndian (NewMonadOutputWriter first))) (\<lambda>mo. glift (out_Error mo)))"

definition sol_encode_invoke ::
  "('pk, 'h, 'i, 'tb, 'x, 'sig, 'abi, 'n) sol_sdk \<Rightarrow> 'w write_op \<Rightarrow> byte \<Rightarrow> 'pk sol_invokeTransaction \<Rightarrow> ('w, unit) go" where
  "sol_encode_invoke sl wr first t =
     (if length (si_from t) > 255
      then gerr (Errorf ''private key too long (%d bytes)'' [AInt (int (length (si_from t)))])
      else if length (si_payload t) > 65535
      then gerr (Errorf ''arguments too large (%d bytes)'' [AInt (int (length (si_payload t)))])
      else
        gbind (out_chain
          [WriteUint8 wr sol_type_invoke, WriteUint8 wr (of_nat (length (si_from t))),
           WriteUint16 wr (of_nat (length (si_payload t))), WriteUint64 wr (si_amount t), WriteBytes wr (si_from t),
           WriteBytes wr (sl_Bytes sl (si_program t)), WriteBytes wr (sl_Bytes sl (si_storage t)), WriteBytes wr (si_payload t)]
          (SetOrder_out LittleEndian (NewMonadOutputWriter first))) (\<lambda>mo. glift (out_Error mo)))"

definition sol_decodeTransferTransaction ::
  "('pk, 'h, 'i, 'tb, 'x, 'sig, 'abi, 'n) sol_sdk \<Rightarrow> byte \<Rightarrow> (reader, 'pk sol_transferTransaction) go" where
  "sol_decodeTransferTransaction sl first =
     gbind (ReadUint8 PInt (SetOrder_in LittleEndian (NewMonadInputReader first))) (\<lambda>(lenkey, mi).
     gbind (ReadUint64 PUint64 mi) (\<lambda>(amount, mi).
     gbind (ReadBytes [] lenkey mi) (\<lambda>(frombuf, mi).
     gbind (ReadBytes [] PublicKeyLength mi) (\<lambda>(tobuf, mi).
     gbind (glift (in_Error mi)) (\<lambda>_.
     gret \<lparr>st_amount = of_nat amount, st_from = frombuf, st_to = sl_PublicKeyFromBytes sl tobuf\<rparr>)))))"

definition sol_decodeInvokeTransaction ::
  "('pk, 'h, 'i, 'tb, 'x, 'sig, 'abi, 'n) sol_sdk \<Rightarrow> byte \<Rightarrow> (reader, 'pk sol_invokeTransaction) go" where
  "sol_decodeInvokeTransaction sl first =
     gbind (ReadUint8 PInt (SetOrder_in LittleEndian (NewMonadInputReader first))) (\<lambda>(lenfrom, mi).
     gbind (ReadUint16 PInt mi) (\<lambda>(lenpayload, mi).
     gbind (ReadUint64 PUint64 mi) (\<lambda>(amount, mi).
     gbind (ReadBytes [] lenfrom mi) (\<lambda>(frombuf, mi).
     gbind (ReadBytes [] PublicKeyLength mi) (\<lambda>(programbuf, mi).
     gbind (ReadBytes [] PublicKeyLength mi) (\<lambda>(storagebuf, mi).
     gbind (ReadBytes [] lenpayload mi) (\<lambda>(payload, mi).
     gbind (glift (in_Error mi)) (\<lambda>_.
     gret \<lparr>si_amount = of_nat amount, si_from = frombuf, si_program = sl_PublicKeyFromBytes sl programbuf,
           si_storage = sl_PublicKeyFromBytes sl storagebuf, si_payload = payload\<rparr>))))))))"

definition sol_decodeTransaction ::
  "('pk, 'h, 'i, 'tb, 'x, 'sig, 'abi, 'n) sol_sdk \<Rightarrow> byte \<Rightarrow> (reader, ('pk, 'tb, 'x) sol_lazy) go" where
  "sol_decodeTransaction sl first =
     gbind (ReadUint8 PUint8 (SetOrder_in LittleEndian (NewMonadInputReader first))) (\<lambda>(txtype, mi).
     gbind (glift (in_Error mi)) (\<lambda>_.
     if of_nat txtype = sol_type_transfer
     then gbind (sol_decodeTransferTransaction sl first) (\<lambda>t. gret (sol_newLazyTransaction (SVTransfer t)))
     else if of_nat txtype = sol_type_invoke
     then gbind (sol_decodeInvokeTransaction sl first) (\<lambda>t. gret (sol_newLazyTransaction (SVInvoke t)))
     else gerr (Errorf ''unknown transaction type %d'' [AInt (int txtype)])))"

section \<open>The bytes\<close>

definition sol_transfer_bytes ::
  "('pk, 'h, 'i, 'tb, 'x, 'sig, 'abi, 'n) sol_sdk \<Rightarrow> 'pk sol_transferTransaction \<Rightarrow> byte list" where
  "sol_transfer_bytes sl t = sol_type_transfer # of_nat (length (st_from t)) # put_u64 (st_amount t) @ st_from t @ sl_Bytes sl (st_to t)"

definition sol_invoke_bytes ::
  "('pk, 'h, 'i, 'tb, 'x, 'sig, 'abi, 'n) sol_sdk \<Rightarrow> 'pk sol_invokeTransaction \<Rightarrow> byte list" where
  "sol_invoke_bytes sl t = sol_type_invoke # of_nat (length (si_from t)) # put_u16 (of_nat (length (si_payload t))) @
     put_u64 (si_amount t) @ si_from t @ sl_Bytes sl (si_program t) @ sl_Bytes sl (si_storage t) @ si_payload t"

lemma sol_encode_transfer_buffer:
  assumes "length (st_from t) \<le> 255"
  shows "sol_encode_transfer sl buffer_write first t w = (Ok (), w @ sol_transfer_bytes sl t)"
proof -
  let ?encs = "[\<lambda>_. [sol_type_transfer], \<lambda>_. [of_nat (length (st_from t))], \<lambda>ord. put_uint ord 8 (unat (st_amount t)),
      \<lambda>_. st_from t, \<lambda>_. sl_Bytes sl (st_to t)]"
  show ?thesis
    using chain_to_buffer [of ?encs first w] assms
    by (simp add: sol_encode_transfer_def write_defs sol_transfer_bytes_def put_u64_def)
qed

lemma sol_encode_invoke_buffer:
  assumes "length (si_from t) \<le> 255" and "length (si_payload t) \<le> 65535"
  shows "sol_encode_invoke sl buffer_write first t w = (Ok (), w @ sol_invoke_bytes sl t)"
proof -
  let ?encs = "[\<lambda>_. [sol_type_invoke], \<lambda>_. [of_nat (length (si_from t))],
      \<lambda>ord. put_uint ord 2 (unat (of_nat (length (si_payload t)) :: 16 word)), \<lambda>ord. put_uint ord 8 (unat (si_amount t)),
      \<lambda>_. si_from t, \<lambda>_. sl_Bytes sl (si_program t), \<lambda>_. sl_Bytes sl (si_storage t), \<lambda>_. si_payload t]"
  show ?thesis
    using chain_to_buffer [of ?encs first w] assms
    by (simp add: sol_encode_invoke_def write_defs sol_invoke_bytes_def put_u64_def put_u16_def)
qed

lemma sol_okD:
  assumes "sol_ok sl"
  shows "sl_PublicKeyFromBytes sl (sl_Bytes sl k) = k" "length (sl_Bytes sl k) = PublicKeyLength"
  using assms by (simp_all add: sol_ok_def)

lemma sol_decode_transfer_bytes:
  assumes "sol_ok sl" and "length (st_from t) \<le> 255"
  shows "sol_decodeTransaction sl first (r\<lparr>r_input := sol_transfer_bytes sl t @ rest\<rparr>) =
    (Ok (sol_newLazyTransaction (SVTransfer t)), r\<lparr>r_input := rest\<rparr>)"
proof -
  have "sol_decodeTransferTransaction sl first (r\<lparr>r_input := of_nat (length (st_from t)) # put_u64 (st_amount t) @ st_from t @
      sl_Bytes sl (st_to t) @ rest\<rparr>) = (Ok t, r\<lparr>r_input := rest\<rparr>)"
    using assms(2)
    by (simp add: sol_decodeTransferTransaction_def NewMonadInputReader_def gbind_def read_runs glift_def gret_def sol_okD [OF assms(1)])
  then show ?thesis
    by (simp add: sol_decodeTransaction_def sol_transfer_bytes_def NewMonadInputReader_def gbind_def read_type_u8
        glift_def gret_def sol_type_transfer_def)
qed

lemma sol_decode_invoke_bytes:
  assumes "sol_ok sl" and "length (si_from t) \<le> 255" and "length (si_payload t) \<le> 65535"
  shows "sol_decodeTransaction sl first (r\<lparr>r_input := sol_invoke_bytes sl t @ rest\<rparr>) =
    (Ok (sol_newLazyTransaction (SVInvoke t)), r\<lparr>r_input := rest\<rparr>)"
proof -
  have "sol_decodeInvokeTransaction sl first (r\<lparr>r_input := of_nat (length (si_from t)) # put_u16 (of_nat (length (si_payload t))) @
     put_u64 (si_amount t) @ si_from t @ sl_Bytes sl (si_program t) @ sl_Bytes sl (si_storage t) @ si_payload t @ rest\<rparr>) =
     (Ok t, r\<lparr>r_input := rest\<rparr>)"
    using assms(2,3)
    by (simp add: sol_decodeInvokeTransaction_def NewMonadInputReader_def gbind_def read_runs glift_def gret_def sol_okD [OF assms(1)])
  then show ?thesis
    by (simp add: sol_decodeTransaction_def sol_invoke_bytes_def NewMonadInputReader_def gbind_def read_type_u8
        glift_def gret_def sol_type_transfer_def sol_type_invoke_def)
qed

end
