(* ===== verification/Sol_Builder.thy ===== *)
theory Sol_Builder
  imports Sol_Transaction
begin

text \<open>
  The builder of the Solana driver (\<^verbatim>\<open>src/blockchains/nsolana/builder.go\<close>, \<^verbatim>\<open>contract.go\<close> and the builder part of
  \<^verbatim>\<open>interface.go\<close>). Accounts are pointers into the slice of the premade accounts, which does not grow once pointers
  are taken, so an account is an index. An application is entered once into its map, so it is its name.
\<close>

section \<open>The regular expressions\<close>

text \<open>The longest beginning of a string that is followed by \<open>suff\<close>.\<close>

fun cut_before :: "string \<Rightarrow> string \<Rightarrow> string option" where
  "cut_before suff [] = (if suff = [] then Some [] else None)"
| "cut_before suff (c # cs) =
     (case cut_before suff cs of
        Some x \<Rightarrow> Some (c # x)
      | None \<Rightarrow> if prefix suff (c # cs) then Some [] else None)"

text \<open>The submatch of \<^verbatim>\<open>pre(.*)suff\<close>: the leftmost place, and as much of its line as possible.\<close>

fun submatch :: "string \<Rightarrow> string \<Rightarrow> string \<Rightarrow> string option" where
  "submatch pre suff [] = None"
| "submatch pre suff (c # cs) =
     (if prefix pre (c # cs) then
        (case cut_before suff (takeWhile (\<lambda>c. c \<noteq> CHR 10) (drop (length pre) (c # cs))) of
           Some x \<Rightarrow> Some x
         | None \<Rightarrow> submatch pre suff cs)
      else submatch pre suff cs)"

definition is_digit :: "char \<Rightarrow> bool" where
  "is_digit c \<longleftrightarrow> (48 :: nat) \<le> of_char c \<and> of_char c \<le> (57 :: nat)"

text \<open>\<^verbatim>\<open>([0-9]+)\.([0-9]+)\.([0-9]+)\<close> at the beginning, and at the leftmost place.\<close>

definition version_here :: "string \<Rightarrow> (string \<times> string \<times> string) option" where
  "version_here s =
     (let a = takeWhile is_digit s; r = dropWhile is_digit s;
          b = takeWhile is_digit (drop 1 r); r' = dropWhile is_digit (drop 1 r);
          c = takeWhile is_digit (drop 1 r') in
      if a \<noteq> [] \<and> prefix ''.'' r \<and> b \<noteq> [] \<and> prefix ''.'' r' \<and> c \<noteq> [] then Some (a, b, c) else None)"

fun find_version :: "string \<Rightarrow> (string \<times> string \<times> string) option" where
  "find_version [] = None"
| "find_version (c # cs) = (case version_here (c # cs) of Some m \<Rightarrow> Some m | None \<Rightarrow> find_version cs)"

section \<open>Contracts\<close>

text \<open>
  Programs, files and libraries. \<open>sh_Run\<close> gives the error of a command, its output and its error output; \<open>sh_Path\<close> the
  path a command is found under; \<open>sh_AbiJSON\<close> an interface and its methods, with signature and number;
  \<open>sh_Lines\<close> the lines of a file; \<open>sh_Unmarshal\<close> decodes a private key.
\<close>

record ('abi, 'p) sol_host =
  sh_TempDir :: "string outcome"
  sh_RemoveAll :: "string \<Rightarrow> unit outcome"
  sh_Run :: "string list \<Rightarrow> go_error option \<times> string \<times> string"
  sh_Path :: "string \<Rightarrow> string"
  sh_ReadFile :: "string \<Rightarrow> byte list outcome"
  sh_AbiJSON :: "byte list \<Rightarrow> ('abi \<times> (string \<times> byte list) list) outcome"
  sh_StartServiceProcess :: "string \<Rightarrow> 'p outcome"
  sh_WriteString :: "string \<Rightarrow> ('p, unit) go"
  sh_Scan :: "('p, string option) go"
  sh_Err :: "'p \<Rightarrow> go_error option"
  sh_Lines :: "string \<Rightarrow> string list outcome"
  sh_Close :: "string \<Rightarrow> unit outcome"
  sh_Unmarshal :: "string \<Rightarrow> byte list outcome"

record solangExecutable =
  se_path :: string
  se_fullVersion :: string
  se_major :: int
  se_minor :: int
  se_patch :: int

definition sol_Atoi :: "string \<Rightarrow> int outcome" where
  "sol_Atoi s = (case Atoi s of Some i \<Rightarrow> Ok i | None \<Rightarrow> Err (Errorf ''strconv.Atoi: %s'' [AStr s]))"

definition solangVersion :: "('abi, 'p) sol_host \<Rightarrow> string \<Rightarrow> solangExecutable outcome" where
  "solangVersion host solang =
     (let solang = (if solang = [] then ''solang'' else solang) in
      case sh_Run host [solang, ''--version''] of
        (Some e, _) \<Rightarrow> Err e
      | (None, out, _) \<Rightarrow>
          (case find_version out of
             None \<Rightarrow> Err (Errorf ''can't parse solang version %q'' [AStr out])
           | Some (a, b, c) \<Rightarrow>
               obind (sol_Atoi a) (\<lambda>major. obind (sol_Atoi b) (\<lambda>minor. obind (sol_Atoi c) (\<lambda>patch.
               Ok \<lparr>se_path = sh_Path host solang, se_fullVersion = out, se_major = major, se_minor = minor, se_patch = patch\<rparr>)))))"

record 'abi solangContract =
  sc_name :: string
  sc_requiredSpace :: "64 word"
  sc_data :: "byte list"
  sc_abi :: 'abi
  sc_hashes :: "(string, byte list) gomap"

definition sol_found :: "string \<Rightarrow> string \<Rightarrow> string option \<Rightarrow> string outcome" where
  "sol_found what out m = (case m of Some x \<Rightarrow> Ok x | None \<Rightarrow> Err (Errorf (''can't parse '' @ what @ '' %q'') [AStr out]))"

text \<open>What is read from the messages of the compiler, which are its error output.\<close>

definition sol_parse_output :: "('abi, 'p) sol_host \<Rightarrow> string \<Rightarrow> 'abi solangContract outcome" where
  "sol_parse_output host out =
     obind (sol_found ''contract name'' out (submatch (''found contract '' @ apos) apos out)) (\<lambda>name.
     obind (sol_found ''data usage'' out (submatch ''least '' '' bytes'' out)) (\<lambda>usage.
     obind (sol_Atoi usage) (\<lambda>dataUsage.
     obind (sol_found ''binary path'' out (submatch ''binary '' '' for'' out)) (\<lambda>binaryPath.
     obind (sh_ReadFile host binaryPath) (\<lambda>data.
     obind (sol_found ''ABI path'' out (submatch ''ABI '' '' for'' out)) (\<lambda>abiPath.
     obind (sh_ReadFile host abiPath) (\<lambda>abiData.
     obind (sh_AbiJSON host abiData) (\<lambda>(abi, methods).
     Ok \<lparr>sc_name = name, sc_requiredSpace = word_of_int dataUsage, sc_data = data, sc_abi = abi,
         sc_hashes = fold (\<lambda>(sig, i). gomap_set sig i) methods []\<rparr>))))))))"

text \<open>The directory is removed at the end in any case; an error of the removal replaces the result.\<close>

definition compileSolidity :: "('abi, 'p) sol_host \<Rightarrow> string \<Rightarrow> string \<Rightarrow> 'abi solangContract outcome" where
  "compileSolidity host solangPath contractPath =
     obind (sh_TempDir host) (\<lambda>dir.
     let r = obind (solangVersion host solangPath) (\<lambda>solang.
           case sh_Run host [se_path solang, ''--verbose'', ''--output'', dir, ''--target'', ''solana'', contractPath] of
             (Some e, _, stderr) \<Rightarrow> Err (Errorf (''solang: %v'' @ [CHR 10] @ ''%s'') [AErr e, AStr stderr])
           | (None, _, stderr) \<Rightarrow> sol_parse_output host stderr) in
     case (r, sh_RemoveAll host dir) of
       (Panic p, _) \<Rightarrow> Panic p
     | (_, Err e) \<Rightarrow> Err e
     | (_, Panic p) \<Rightarrow> Panic p
     | (r, Ok _) \<Rightarrow> r)"

record ('abi, 'p) sol_application =
  sap_name :: string
  sap_abi :: 'abi
  sap_text :: "byte list"
  sap_entries :: "(string, byte list) gomap"
  sap_parser :: 'p

definition sol_compile :: "('abi, 'p) sol_host \<Rightarrow> string \<Rightarrow> string \<Rightarrow> ('abi, 'p) sol_application outcome" where
  "sol_compile host base name =
     obind (compileSolidity host [] (base @ ''/'' @ name @ ''/contract.sol'')) (\<lambda>contract.
     let path = base @ ''/'' @ name @ ''/arguments'' in
     obind (sh_StartServiceProcess host (if prefix ''/'' path then path else ''./'' @ path)) (\<lambda>parser.
     Ok \<lparr>sap_name = sc_name contract, sap_abi = sc_abi contract, sap_text = sc_data contract, sap_entries = sc_hashes contract,
         sap_parser = parser\<rparr>))"

definition sol_on_parser :: "('p, 'b) go \<Rightarrow> (('abi, 'p) sol_application, 'b) go" where
  "sol_on_parser m = gzoom sap_parser (\<lambda>p a. a\<lparr>sap_parser := p\<rparr>) m"

definition sol_scan_payload :: "('abi, 'p) sol_host \<Rightarrow> (('abi, 'p) sol_application, string \<times> byte list option) go" where
  "sol_scan_payload host =
     gbind (sol_on_parser (sh_Scan host)) (\<lambda>line.
     case line of
       None \<Rightarrow> gret ([], None)
     | Some fname \<Rightarrow>
         gbind (sol_on_parser (sh_Scan host)) (\<lambda>line.
         case line of
           None \<Rightarrow> gret (fname, None)
         | Some text \<Rightarrow> gbind (glift (base64_DecodeString text)) (\<lambda>payload. gret (fname, Some payload))))"

text \<open>\<^verbatim>\<open>append\<close> may write into the array behind the entry, beyond its length; the result is encoded before the next call.\<close>

definition sol_arguments :: "('abi, 'p) sol_host \<Rightarrow> string \<Rightarrow> (('abi, 'p) sol_application, byte list) go" where
  "sol_arguments host function =
     gbind (sol_on_parser (sh_WriteString host (function @ [CHR 10]))) (\<lambda>_.
     gbind (sol_scan_payload host) (\<lambda>(fname, payload).
     case payload of
       None \<Rightarrow>
         gbind (gread (\<lambda>a. sh_Err host (sap_parser a))) (\<lambda>err.
         gerr (case err of Some e \<Rightarrow> e | None \<Rightarrow> Errorf ''EOF'' []))
     | Some payload \<Rightarrow>
         gbind (gread (\<lambda>a. gomap_get (sap_entries a) fname)) (\<lambda>entry.
         case entry of
           None \<Rightarrow> gerr (Errorf (''unknown function '%s'' @ apos) [AStr fname])
         | Some entry \<Rightarrow> gret (entry @ payload))))"

section \<open>The builder\<close>

record 'pk sol_contract =
  sct_appli :: string
  sct_program :: "'pk sol_account"
  sct_storage :: "'pk sol_account"

datatype 'pk sol_value = SAccount nat | SContract "'pk sol_contract"

record ('pk, 'abi, 'p, 'n) sol_builder =
  sb_premadeAccounts :: "'pk sol_account list"
  sb_usedAccounts :: nat
  sb_compilers :: "string list"
  sb_applications :: "(string, ('abi, 'p) sol_application) gomap"
  sb_amounts :: "(nat, (nat, int) gomap) gomap"
  sb_node :: 'n

definition sol_newBuilder :: "'n \<Rightarrow> ('pk, 'abi, 'p, 'n) sol_builder" where
  "sol_newBuilder node = \<lparr>sb_premadeAccounts = [], sb_usedAccounts = 0, sb_compilers = [], sb_applications = [],
     sb_amounts = [], sb_node = node\<rparr>"

definition sol_addAccount ::
  "('pk, 'h, 'i, 'tb, 'x, 'sig, 'abi, 'n) sol_sdk \<Rightarrow> byte list \<Rightarrow> (('pk, 'abi, 'p, 'n) sol_builder, unit) go" where
  "sol_addAccount sl private =
     gbind (glift (sol_newAccount sl private)) (\<lambda>account.
     gmodify (\<lambda>b. b\<lparr>sb_premadeAccounts := sb_premadeAccounts b @ [account]\<rparr>))"

definition sol_addCompiler :: "string \<Rightarrow> ('pk, 'abi, 'p, 'n) sol_builder \<Rightarrow> ('pk, 'abi, 'p, 'n) sol_builder" where
  "sol_addCompiler path b = b\<lparr>sb_compilers := sb_compilers b @ [path]\<rparr>"

definition sol_getBuilderAccount :: "(('pk, 'abi, 'p, 'n) sol_builder, nat) go" where
  "sol_getBuilderAccount =
     gbind (gread sb_premadeAccounts) (\<lambda>accounts.
     if length accounts > 0 then gret 0 else gerr (Errorf ''no available premade accounts'' []))"

fun sol_first_compiled :: "('abi, 'p) sol_host \<Rightarrow> string list \<Rightarrow> string \<Rightarrow> ('abi, 'p) sol_application option outcome" where
  "sol_first_compiled host [] name = Ok None"
| "sol_first_compiled host (c # cs) name =
     (case sol_compile host c name of
        Ok appli \<Rightarrow> Ok (Some appli)
      | Err _ \<Rightarrow> sol_first_compiled host cs name
      | Panic p \<Rightarrow> Panic p)"

definition sol_getApplication ::
  "('abi, 'p) sol_host \<Rightarrow> string \<Rightarrow> (('pk, 'abi, 'p, 'n) sol_builder, ('abi, 'p) sol_application) go" where
  "sol_getApplication host name =
     gbind (gread sb_applications) (\<lambda>applications.
     case gomap_get applications name of
       Some appli \<Rightarrow> gret appli
     | None \<Rightarrow>
         gbind (gread sb_compilers) (\<lambda>compilers.
         gbind (glift (sol_first_compiled host compilers name)) (\<lambda>appli.
         case appli of
           None \<Rightarrow> gerr (Errorf (''failed to compile contract '%s'' @ apos) [AStr name])
         | Some appli \<Rightarrow>
             gbind (gmodify (\<lambda>b. b\<lparr>sb_applications := gomap_set name appli (sb_applications b)\<rparr>)) (\<lambda>_. gret appli))))"

definition sol_CreateAccount :: "int \<Rightarrow> (('pk, 'abi, 'p, 'n) sol_builder, 'pk sol_value) go" where
  "sol_CreateAccount stake = (\<lambda>b.
     if sb_usedAccounts b < length (sb_premadeAccounts b)
     then (Ok (SAccount (sb_usedAccounts b)), b\<lparr>sb_usedAccounts := sb_usedAccounts b + 1\<rparr>)
     else (Err (Errorf ''can only use %d premade accounts'' [AInt (int (sb_usedAccounts b))]), b))"

text \<open>
  The wait for a submitted transaction polls once a second until it is finalized, and may never end. It goes on
  after the node's error \<^verbatim>\<open>ErrNotFound\<close>, which is the status \<open>SolNotFound\<close>, and ends with any other.
\<close>

partial_function (option) sol_poll ::
  "('pk, 'h, 'i, 'tb, 'x, 'sig, 'abi, 'n) sol_sdk \<Rightarrow> 'sig \<Rightarrow> 'n \<Rightarrow> (unit outcome \<times> 'n) option" where
  "sol_poll sl sig node =
     (case sl_Statuses sl sig node of
        (Ok status, node') \<Rightarrow> if status = SolFinalized True then Some (Ok (), node') else sol_poll sl sig node'
      | (Err e, node') \<Rightarrow> Some (Err e, node')
      | (Panic p, node') \<Rightarrow> Some (Panic p, node'))"

definition sol_submitTransaction ::
  "('pk, 'h, 'i, 'tb, 'x, 'sig, 'abi, 'n) sol_sdk \<Rightarrow> 'x \<Rightarrow> 'n \<Rightarrow> (unit outcome \<times> 'n) option" where
  "sol_submitTransaction sl stx node =
     (case sl_SendTransaction sl stx node of
        (Ok sig, node') \<Rightarrow> sol_poll sl sig node'
      | (Err e, node') \<Rightarrow> Some (Err e, node')
      | (Panic p, node') \<Rightarrow> Some (Panic p, node'))"

text \<open>A goroutine of a batch: the transaction is signed over the latest block hash, submitted and waited for.\<close>

definition sol_submit_one ::
  "('pk, 'h, 'i, 'tb, 'x, 'sig, 'abi, 'n) sol_sdk \<Rightarrow> ('pk, 'tb, 'x) sol_virtual \<Rightarrow> 'n \<Rightarrow> (unit outcome \<times> 'n) option" where
  "sol_submit_one sl tx node =
     (case sol_getTx sl tx \<lparr>so_node = node, so_provider = SolDirect\<rparr> of
        ((_, Ok stx), s) \<Rightarrow> sol_submitTransaction sl stx (so_node s)
      | ((_, Err e), s) \<Rightarrow> Some (Err e, so_node s)
      | ((_, Panic p), s) \<Rightarrow> Some (Panic p, so_node s))"

text \<open>The first error of a batch in the order of its transactions, as it is reported; a panic ends the program.\<close>

fun sol_first_error :: "nat \<Rightarrow> nat \<Rightarrow> unit outcome list \<Rightarrow> unit outcome" where
  "sol_first_error batch n [] = Ok ()"
| "sol_first_error batch n (Ok _ # rs) = sol_first_error batch (n + 1) rs"
| "sol_first_error batch n (Err e # rs) =
     Err (Errorf ''batch %d, transaction %d: %w'' [AInt (int batch), AInt (int n), AErr e])"
| "sol_first_error batch n (Panic p # rs) = Panic p"

text \<open>
  The batches one after the other, each after all goroutines of the one before have ended well. \<open>par\<close> runs
  goroutines together and gives their results in the order of the goroutines; that it interleaves them is its business.
\<close>

type_synonym 'n goroutines = "('n \<Rightarrow> (unit outcome \<times> 'n) option) list \<Rightarrow> 'n \<Rightarrow> (unit outcome list \<times> 'n) option"

fun sol_run_batches ::
  "('pk, 'h, 'i, 'tb, 'x, 'sig, 'abi, 'n) sol_sdk \<Rightarrow> 'n goroutines \<Rightarrow> nat \<Rightarrow> ('pk, 'tb, 'x) sol_virtual list list
     \<Rightarrow> 'n \<Rightarrow> (unit outcome \<times> 'n) option" where
  "sol_run_batches sl par batch [] node = Some (Ok (), node)"
| "sol_run_batches sl par batch (txs # batches) node =
     (case par (map (sol_submit_one sl) txs) node of
        None \<Rightarrow> None
      | Some (errs, node') \<Rightarrow>
          (case sol_first_error batch 0 errs of
             Ok _ \<Rightarrow> sol_run_batches sl par (batch + 1) batches node'
           | Err e \<Rightarrow> Some (Err e, node')
           | Panic p \<Rightarrow> Some (Panic p, node')))"

definition sb_on_node :: "('n, 'c) go \<Rightarrow> (('pk, 'abi, 'p, 'n) sol_builder, 'c) go" where
  "sb_on_node m = gzoom sb_node (\<lambda>n b. b\<lparr>sb_node := n\<rparr>) m"

text \<open>\<^verbatim>\<open>CreateContract\<close> up to the batches.\<close>

definition sol_prepare_contract ::
  "('pk, 'h, 'i, 'tb, 'x, 'sig, 'abi, 'n) sol_sdk \<Rightarrow> ('abi, 'p) sol_host \<Rightarrow> string
     \<Rightarrow> (('pk, 'abi, 'p, 'n) sol_builder, 'pk sol_contract \<times> ('pk, 'tb, 'x) sol_virtual list list) go" where
  "sol_prepare_contract sl host name =
     gbind (sol_getApplication host name) (\<lambda>appli.
     gbind sol_getBuilderAccount (\<lambda>i.
     gbind (gread (\<lambda>b. sb_premadeAccounts b ! i)) (\<lambda>from.
     gbind (sb_on_node (sl_NewWallet sl)) (\<lambda>key. gbind (glift (sol_newAccount sl key)) (\<lambda>program.
     gbind (sb_on_node (sl_RentExemption sl (length (sap_text appli)))) (\<lambda>programLamports.
     gbind (sb_on_node (sl_NewWallet sl)) (\<lambda>key. gbind (glift (sol_newAccount sl key)) (\<lambda>storage.
     gbind (sb_on_node (sl_RentExemption sl (8192 * 8))) (\<lambda>storageLamports.
     gbind (glift (newDeployContractTransactionBatches sl (sap_name appli) (sap_abi appli) (sap_text appli) from program
         storage programLamports storageLamports)) (\<lambda>batches.
     gret (\<lparr>sct_appli = name, sct_program = program, sct_storage = storage\<rparr>, batches)))))))))))"

definition sol_CreateContract ::
  "('pk, 'h, 'i, 'tb, 'x, 'sig, 'abi, 'n) sol_sdk \<Rightarrow> ('abi, 'p) sol_host \<Rightarrow> 'n goroutines \<Rightarrow> string
     \<Rightarrow> ('pk, 'abi, 'p, 'n) sol_builder \<Rightarrow> ('pk sol_value outcome \<times> ('pk, 'abi, 'p, 'n) sol_builder) option" where
  "sol_CreateContract sl host par name b =
     (case sol_prepare_contract sl host name b of
        (Err e, b1) \<Rightarrow> Some (Err e, b1)
      | (Panic p, b1) \<Rightarrow> Some (Panic p, b1)
      | (Ok (contract, batches), b1) \<Rightarrow>
          (case sol_run_batches sl par 0 batches (sb_node b1) of
             None \<Rightarrow> None
           | Some (r, node) \<Rightarrow> Some (obind r (\<lambda>_. Ok (SContract contract)), b1\<lparr>sb_node := node\<rparr>)))"

definition sol_CreateResource :: "string \<Rightarrow> 'f option" where
  "sol_CreateResource domain = None"

text \<open>The type assertions \<^verbatim>\<open>.(*account)\<close> and \<^verbatim>\<open>.(*contract)\<close>.\<close>

fun sol_as_account :: "'pk sol_value bvalue \<Rightarrow> nat outcome" where
  "sol_as_account (GRes (ROpaque (SAccount i))) = Ok i"
| "sol_as_account _ = Panic ''interface conversion''"

fun sol_as_contract :: "'pk sol_value bvalue \<Rightarrow> 'pk sol_contract outcome" where
  "sol_as_contract (GRes (ROpaque (SContract c))) = Ok c"
| "sol_as_contract _ = Panic ''interface conversion''"

text \<open>The number of the transfer from one account to the other, counted in a map of maps that starts at zero.\<close>

definition sol_amount :: "('pk, 'abi, 'p, 'n) sol_builder \<Rightarrow> nat \<Rightarrow> nat \<Rightarrow> int" where
  "sol_amount b f t =
     (case gomap_get (sb_amounts b) f of
        None \<Rightarrow> 0
      | Some m \<Rightarrow> (case gomap_get m t of None \<Rightarrow> 0 | Some n \<Rightarrow> n))"

definition sol_count_transfer :: "nat \<Rightarrow> nat \<Rightarrow> ('pk, 'abi, 'p, 'n) sol_builder \<Rightarrow> ('pk, 'abi, 'p, 'n) sol_builder" where
  "sol_count_transfer f t b =
     (let m = (case gomap_get (sb_amounts b) f of None \<Rightarrow> [] | Some m \<Rightarrow> m) in
      b\<lparr>sb_amounts := gomap_set f (gomap_set t (wrap64 (sol_amount b f t + 1)) m) (sb_amounts b)\<rparr>)"

definition sol_EncodeTransfer ::
  "('pk, 'h, 'i, 'tb, 'x, 'sig, 'abi, 'n) sol_sdk \<Rightarrow> int \<Rightarrow> 'pk sol_value bvalue \<Rightarrow> 'pk sol_value bvalue \<Rightarrow> interactionInformation
     \<Rightarrow> (('pk, 'abi, 'p, 'n) sol_builder, byte list) go" where
  "sol_EncodeTransfer sl amount from to info =
     (if amount \<noteq> 1 then gerr (Errorf ''unexpected amount value'' [])
      else
        gbind (glift (sol_as_account from)) (\<lambda>f.
        gbind (glift (sol_as_account to)) (\<lambda>t.
        gbind (gmodify (sol_count_transfer f t)) (\<lambda>_.
        gbind (gread (\<lambda>b. \<lparr>st_amount = word_of_int (sol_amount b f t), st_from = sac_private (sb_premadeAccounts b ! f),
            st_to = sac_public (sb_premadeAccounts b ! t)\<rparr>)) (\<lambda>tx.
        to_buffer (sol_encode_transfer sl buffer_write 0x11 tx))))))"

text \<open>The arguments of a call, from the helper process of the application.\<close>

definition sb_arguments ::
  "('abi, 'p) sol_host \<Rightarrow> string \<Rightarrow> string \<Rightarrow> (('pk, 'abi, 'p, 'n) sol_builder, byte list) go" where
  "sb_arguments host name function = (\<lambda>b.
     case gomap_get (sb_applications b) name of
       None \<Rightarrow> (Panic ''nil pointer dereference'', b)
     | Some appli \<Rightarrow>
         (case sol_arguments host function appli of
            (r, appli') \<Rightarrow> (r, b\<lparr>sb_applications := gomap_set name appli' (sb_applications b)\<rparr>)))"

definition sol_EncodeInvoke ::
  "('pk, 'h, 'i, 'tb, 'x, 'sig, 'abi, 'n) sol_sdk \<Rightarrow> ('abi, 'p) sol_host \<Rightarrow> 'pk sol_value bvalue \<Rightarrow> 'pk sol_value bvalue \<Rightarrow> string
     \<Rightarrow> interactionInformation \<Rightarrow> (('pk, 'abi, 'p, 'n) sol_builder, byte list) go" where
  "sol_EncodeInvoke sl host from to function info =
     gbind (glift (sol_as_account from)) (\<lambda>f.
     gbind (glift (sol_as_contract to)) (\<lambda>c.
     gbind (sb_arguments host (sct_appli c) function) (\<lambda>payload.
     gbind (gread (\<lambda>b. \<lparr>si_amount = 0, si_from = sac_private (sb_premadeAccounts b ! f), si_program = sac_public (sct_program c),
         si_storage = sac_public (sct_storage c), si_payload = payload\<rparr>)) (\<lambda>tx.
     to_buffer (sol_encode_invoke sl buffer_write 0x11 tx)))))"

definition sol_EncodeInteraction :: "string \<Rightarrow> bexpr \<Rightarrow> interactionInformation \<Rightarrow> ('w, byte list) go" where
  "sol_EncodeInteraction itype e info = gerr (Errorf (''unknown interaction type '%s'' @ apos) [AStr itype])"

section \<open>The environment of the builder\<close>

text \<open>A line of a file of accounts; a line that is too short panics.\<close>

definition sol_add_line ::
  "('pk, 'h, 'i, 'tb, 'x, 'sig, 'abi, 'n) sol_sdk \<Rightarrow> ('abi, 'p) sol_host \<Rightarrow> string \<Rightarrow> (('pk, 'abi, 'p, 'n) sol_builder, unit) go" where
  "sol_add_line sl host line =
     (if length line < 2 then gpanic ''index out of range''
      else if line ! 1 \<noteq> CHR ''['' then gret ()
      else if length line < 3 then gpanic ''slice bounds out of range''
      else gbind (glift (sh_Unmarshal host (take (length line - 3) (drop 1 line)))) (sol_addAccount sl))"

definition sol_addPremadeAccounts ::
  "('pk, 'h, 'i, 'tb, 'x, 'sig, 'abi, 'n) sol_sdk \<Rightarrow> ('abi, 'p) sol_host \<Rightarrow> string \<Rightarrow> (('pk, 'abi, 'p, 'n) sol_builder, unit) go" where
  "sol_addPremadeAccounts sl host path =
     gbind (glift (sh_Lines host path)) (\<lambda>lines.
     gbind (gfor lines (sol_add_line sl host)) (\<lambda>_.
     glift (sh_Close host path)))"

definition sol_apply_env ::
  "('pk, 'h, 'i, 'tb, 'x, 'sig, 'abi, 'n) sol_sdk \<Rightarrow> ('abi, 'p) sol_host \<Rightarrow> string \<times> string list
     \<Rightarrow> (('pk, 'abi, 'p, 'n) sol_builder, unit) go" where
  "sol_apply_env sl host = (\<lambda>(key, values).
     if key = ''accounts'' then gfor values (sol_addPremadeAccounts sl host)
     else if key = ''contracts'' then gfor values (\<lambda>path. gmodify (sol_addCompiler path))
     else gerr (Errorf (''unknown environment key '%s'' @ apos) [AStr key]))"

text \<open>
  \<^verbatim>\<open>Builder\<close>; \<open>keys\<close> are the endpoints in the order of the loop that takes the first one, and \<open>it\<close> gives the order in
  which the last loop goes through the environment. \<^verbatim>\<open>parseEnvmap\<close> is the same code as in the Ethereum driver.
\<close>

definition sol_Builder ::
  "('pk, 'h, 'i, 'tb, 'x, 'sig, 'abi, 'n) sol_sdk \<Rightarrow> ('abi, 'p) sol_host \<Rightarrow> (string \<Rightarrow> 'n) \<Rightarrow> string list
     \<Rightarrow> ((string, string list) gomap \<Rightarrow> (string \<times> string list) list) \<Rightarrow> string list
     \<Rightarrow> ('pk, 'abi, 'p, 'n) sol_builder outcome" where
  "sol_Builder sl host New keys it env =
     obind (parseEnvmap env) (\<lambda>envmap.
     let endpoint = (case keys of [] \<Rightarrow> [] | key # _ \<Rightarrow> key) in
     case gfor (it envmap) (sol_apply_env sl host) (sol_newBuilder (New (''http://'' @ endpoint))) of
       (r, b) \<Rightarrow> obind r (\<lambda>_. Ok b))"

section \<open>The builder interface\<close>

definition sol_env ::
  "('pk, 'h, 'i, 'tb, 'x, 'sig, 'abi, 'n) sol_sdk \<Rightarrow> ('abi, 'p) sol_host \<Rightarrow> 'n goroutines
     \<Rightarrow> ('g, ('pk, 'abi, 'p, 'n) sol_builder, 'pk sol_value, 'z) env \<Rightarrow> ('g, ('pk, 'abi, 'p, 'n) sol_builder, 'pk sol_value, 'z) env" where
  "sol_env sl host par env = env\<lparr>env_CreateAccount := sol_CreateAccount,
     env_CreateContract := (\<lambda>name b. case sol_CreateContract sl host par name b of
        Some result \<Rightarrow> result | None \<Rightarrow> (Panic ''does not return'', b)),
     env_CreateResource := sol_CreateResource, env_EncodeTransfer := sol_EncodeTransfer sl,
     env_EncodeInvoke := sol_EncodeInvoke sl host, env_EncodeInteraction := sol_EncodeInteraction\<rparr>"

interpretation sol: blockchain_builder "sol_env sl host par env" for sl host par env
  by unfold_locales (auto simp: sol_env_def sol_CreateResource_def sol_EncodeInteraction_def keeps_gerr)

end
