(* ===== verification/Sol_Client.thy ===== *)
theory Sol_Client
  imports Sol_Builder Poll_Confirm
begin

text \<open>
  The client of the Solana driver (\<^verbatim>\<open>src/blockchains/nsolana/client.go\<close>). Its
  confirmer has the critical sections of \<open>Poll_Confirm\<close>, but a call registers before it submits and waits on its
  own channel after; the calls and the goroutine are a step relation. The goroutine follows the slots of the chain.
\<close>

section \<open>Decoding and triggering\<close>

text \<open>The only preparer does nothing.\<close>

definition sol_DecodePayload ::
  "('pk, 'h, 'i, 'tb, 'x, 'sig, 'abi, 'n) sol_sdk \<Rightarrow> byte list \<Rightarrow> ('pk, 'tb, 'x) sol_lazy outcome" where
  "sol_DecodePayload sl encoded = fst (sol_decodeTransaction sl 0x11 \<lparr>r_input = encoded, r_err = EOF\<rparr>)"

text \<open>
  The confirmer that subscribes to one signature, which no client uses: what its \<^verbatim>\<open>confirm\<close> reports and returns, from
  what the subscription gives, an error or a result that may be an error of the transaction.
\<close>

definition sol_subtx_confirm :: "go_error option outcome \<Rightarrow> report list \<times> unit outcome" where
  "sol_subtx_confirm received =
     (case received of
        Err e \<Rightarrow> ([], Err e)
      | Panic p \<Rightarrow> ([], Panic p)
      | Ok (Some e) \<Rightarrow> ([RepAbort], Ok ())
      | Ok None \<Rightarrow> ([RepCommit], Ok ()))"

text \<open>An error of the submission that \<^verbatim>\<open>TriggerInteraction\<close> ignores, by the code and the message of an RPC error.\<close>

definition isBlockhashNotFound :: "(int \<times> string) option \<Rightarrow> bool" where
  "isBlockhashNotFound rpcerr =
     (case rpcerr of Some (code, message) \<Rightarrow> code = -32002 \<and> sublist ''Blockhash not found'' message | None \<Rightarrow> False)"

section \<open>The confirmer\<close>

text \<open>
  A call of \<^verbatim>\<open>TriggerInteraction\<close>: registered; submitting, after \<^verbatim>\<open>ReportSubmit\<close>; waiting on its channel; refused by
  the node; returned. \<open>SolBlocked\<close> is a call that sends on its own channel in \<^verbatim>\<open>prepare\<close>, with the lock; \<open>SolRejected\<close> one
  whose \<^verbatim>\<open>prepare\<close> found the confirmer stopped, and has its error; without one it goes on with a nil handle and panics.
\<close>

datatype sol_call =
    SolIdle
  | SolPrepared
  | SolSubmitting
  | SolWaiting
  | SolRefused go_error
  | SolReturned "go_error option"
  | SolBlocked
  | SolRejected "go_error option"

text \<open>\<open>sr_told\<close> is what the goroutine has reported of an interaction; \<open>sr_reports\<close> is everything that was reported.\<close>

record 'h sol_shared =
  sr_confirmer :: "'h confirmer"
  sr_lock :: "nat option"
  sr_calls :: "nat \<Rightarrow> sol_call"
  sr_poll :: poll_phase
  sr_reports :: "nat \<Rightarrow> report list"
  sr_told :: "nat \<Rightarrow> report option"
  sr_mined :: "'h set"

definition sol_start :: "'h sol_shared" where
  "sol_start = \<lparr>sr_confirmer = newPollblkTransactionConfirmer, sr_lock = None, sr_calls = (\<lambda>_. SolIdle), sr_poll = Polling,
     sr_reports = (\<lambda>_. []), sr_told = (\<lambda>_. None), sr_mined = {}\<rparr>"

definition sr_call :: "nat \<Rightarrow> sol_call \<Rightarrow> 'h sol_shared \<Rightarrow> 'h sol_shared" where
  "sr_call i c s = s\<lparr>sr_calls := (sr_calls s)(i := c)\<rparr>"

definition sr_report :: "nat \<Rightarrow> report \<Rightarrow> 'h sol_shared \<Rightarrow> 'h sol_shared" where
  "sr_report i r s = s\<lparr>sr_reports := (sr_reports s)(i := sr_reports s i @ [r])\<rparr>"

definition sr_tell :: "nat \<Rightarrow> report \<Rightarrow> 'h sol_shared \<Rightarrow> 'h sol_shared" where
  "sr_tell i r s = sr_report i r (s\<lparr>sr_told := (sr_told s)(i := Some r)\<rparr>)"

definition sol_prepare :: "'h \<Rightarrow> nat \<Rightarrow> 'h sol_shared \<Rightarrow> 'h sol_shared" where
  "sol_prepare hash i s =
     (case confirm_locked hash i (sr_confirmer s) of
        (ConfirmStopped err, c) \<Rightarrow> sr_call i (SolRejected err) (s\<lparr>sr_confirmer := c\<rparr>)
      | (ConfirmCommitted, c) \<Rightarrow> sr_call i SolBlocked (sr_report i RepCommit (s\<lparr>sr_confirmer := c, sr_lock := Some i\<rparr>))
      | (ConfirmRegistered, c) \<Rightarrow> sr_call i SolPrepared (s\<lparr>sr_confirmer := c\<rparr>))"

definition sol_reportHashes :: "'h list \<Rightarrow> 'h sol_shared \<Rightarrow> 'h sol_shared" where
  "sol_reportHashes hashes s =
     (case report_locked hashes (sr_confirmer s) of
        (pendings, c) \<Rightarrow> s\<lparr>sr_confirmer := c, sr_poll := Working (in_turn RepCommit None pendings) False,
           sr_mined := sr_mined s \<union> set hashes\<rparr>)"

definition sol_flushPendings :: "go_error \<Rightarrow> nat list \<Rightarrow> 'h sol_shared \<Rightarrow> 'h sol_shared" where
  "sol_flushPendings err pendings s =
     s\<lparr>sr_confirmer := flush_locked (Some err) (sr_confirmer s), sr_poll := Working (in_turn RepAbort (Some err) pendings) True\<rparr>"

text \<open>
  A step. The chain has no transaction that this client has not submitted, so the branch of \<^verbatim>\<open>prepare\<close> for a
  transaction that is in a block already is not taken (other clients that send the same transaction, as those beside it under
  the redundant driver, are not in the model). When the goroutine ends, it ends with an error, because \<^verbatim>\<open>run\<close> returns
  nothing else.
\<close>

inductive sol_step :: "(nat \<Rightarrow> 'h) \<Rightarrow> 'h sol_shared \<Rightarrow> 'h sol_shared \<Rightarrow> bool" for key where
  sol_prepares: "sr_calls s i = SolIdle \<Longrightarrow> sr_lock s = None \<Longrightarrow> sol_step key s (sol_prepare (key i) i s)"
| sol_submits: "sr_calls s i = SolPrepared \<Longrightarrow> sol_step key s (sr_call i SolSubmitting (sr_report i RepSubmit s))"
| sol_refuses: "sr_calls s i = SolSubmitting \<Longrightarrow> sol_step key s (sr_call i (SolRefused e) (sr_report i RepAbort s))"
| sol_sends: "sr_calls s i = SolSubmitting \<Longrightarrow> sol_step key s (sr_call i SolWaiting s)"
| sol_block: "sr_poll s = Polling \<Longrightarrow> sr_lock s = None \<Longrightarrow>
    (\<And>i. key i \<in> set hashes \<Longrightarrow> sr_calls s i \<notin> {SolIdle, SolPrepared}) \<Longrightarrow> sol_step key s (sol_reportHashes hashes s)"
| sol_reports: "sr_poll s = Working (Report i r # work) ending \<Longrightarrow>
    sol_step key s (sr_tell i r (s\<lparr>sr_poll := Working work ending\<rparr>))"
| sol_answers: "sr_poll s = Working (Answer i err # work) ending \<Longrightarrow> sr_calls s i = SolWaiting \<Longrightarrow>
    sol_step key s (sr_call i (SolReturned err) (s\<lparr>sr_poll := Working work ending\<rparr>))"
| sol_worked: "sr_poll s = Working [] ending \<Longrightarrow> sol_step key s (s\<lparr>sr_poll := (if ending then PollEnded else Polling)\<rparr>)"
| sol_fails: "sr_poll s = Polling \<Longrightarrow> sr_lock s = None \<Longrightarrow> gomap_order (pendings_of (sr_confirmer s)) it \<Longrightarrow>
    sol_step key s (sol_flushPendings e (map snd it) s)"

inductive sol_run :: "(nat \<Rightarrow> 'h) \<Rightarrow> 'h sol_shared \<Rightarrow> 'h sol_shared \<Rightarrow> bool" for key where
  sol_stay: "sol_run key s s"
| sol_more: "sol_run key s t \<Longrightarrow> sol_step key t u \<Longrightarrow> sol_run key s u"

lemma sr_simps [simp]:
  "sr_confirmer (sr_call i c s) = sr_confirmer s" "sr_lock (sr_call i c s) = sr_lock s"
  "sr_calls (sr_call i c s) = (sr_calls s)(i := c)" "sr_poll (sr_call i c s) = sr_poll s"
  "sr_reports (sr_call i c s) = sr_reports s" "sr_told (sr_call i c s) = sr_told s" "sr_mined (sr_call i c s) = sr_mined s"
  "sr_confirmer (sr_report i r s) = sr_confirmer s" "sr_lock (sr_report i r s) = sr_lock s"
  "sr_calls (sr_report i r s) = sr_calls s" "sr_poll (sr_report i r s) = sr_poll s"
  "sr_reports (sr_report i r s) = (sr_reports s)(i := sr_reports s i @ [r])" "sr_told (sr_report i r s) = sr_told s"
  "sr_mined (sr_report i r s) = sr_mined s"
  "sr_confirmer (sr_tell i r s) = sr_confirmer s" "sr_lock (sr_tell i r s) = sr_lock s"
  "sr_calls (sr_tell i r s) = sr_calls s" "sr_poll (sr_tell i r s) = sr_poll s"
  "sr_reports (sr_tell i r s) = (sr_reports s)(i := sr_reports s i @ [r])" "sr_told (sr_tell i r s) = (sr_told s)(i := Some r)"
  "sr_mined (sr_tell i r s) = sr_mined s"
  by (simp_all add: sr_call_def sr_report_def sr_tell_def)

section \<open>The invariant\<close>

definition sol_called :: "'h sol_shared \<Rightarrow> nat set" where
  "sol_called s = {i. sr_calls s i \<noteq> SolIdle}"

text \<open>A call that is under way or refused: those that the goroutine may have to answer.\<close>

fun under_way :: "sol_call \<Rightarrow> bool" where
  "under_way SolPrepared = True"
| "under_way SolSubmitting = True"
| "under_way SolWaiting = True"
| "under_way (SolRefused e) = True"
| "under_way _ = False"

text \<open>What a call itself reports, and what the goroutine reports of it.\<close>

fun call_reports :: "sol_call \<Rightarrow> report list" where
  "call_reports SolSubmitting = [RepSubmit]"
| "call_reports SolWaiting = [RepSubmit]"
| "call_reports (SolRefused e) = [RepSubmit, RepAbort]"
| "call_reports (SolReturned r) = [RepSubmit]"
| "call_reports _ = []"

definition told_reports :: "report option \<Rightarrow> report list" where
  "told_reports r = (case r of None \<Rightarrow> [] | Some r \<Rightarrow> [r])"

definition sol_action :: "bool \<Rightarrow> poll_action \<Rightarrow> bool" where
  "sol_action ending a \<longleftrightarrow>
     (case a of Report i r \<Rightarrow> r = (if ending then RepAbort else RepCommit) | Answer i e \<Rightarrow> e = None \<longleftrightarrow> \<not> ending)"

lemma sol_action_simps [simp]:
  "sol_action ending (Report i r) \<longleftrightarrow> r = (if ending then RepAbort else RepCommit)"
  "sol_action ending (Answer i e) \<longleftrightarrow> (e = None \<longleftrightarrow> \<not> ending)"
  by (simp_all add: sol_action_def)

text \<open>The map and the work of the goroutine: whom it will answer, and whom it has told already.\<close>

definition sol_work_inv :: "(nat \<Rightarrow> 'h) \<Rightarrow> 'h sol_shared \<Rightarrow> bool" where
  "sol_work_inv key s \<longleftrightarrow> confirmer_ok key (sr_confirmer s) \<and> sr_lock s = None \<and>
     (cf_pendings (sr_confirmer s) = None \<longrightarrow> cf_err (sr_confirmer s) \<noteq> None) \<and>
     (\<forall>i. lookup (sr_confirmer s) (key i) = Some i \<longrightarrow>
        under_way (sr_calls s i) \<and> sr_told s i = None \<and> i \<notin> set (answered (work_of (sr_poll s)))) \<and>
     work_ok (work_of (sr_poll s)) \<and> list_all (sol_action (stopped (sr_poll s))) (work_of (sr_poll s)) \<and>
     (\<forall>i \<in> set (answered (work_of (sr_poll s))). under_way (sr_calls s i) \<and>
        sr_told s i = (if i \<in> set (reported (work_of (sr_poll s))) then None
                       else Some (if stopped (sr_poll s) then RepAbort else RepCommit)) \<and>
        (stopped (sr_poll s) \<or> sr_calls s i \<noteq> SolPrepared \<and> key i \<in> sr_mined s))"

text \<open>The transactions of the blocks, and what was reported of a call.\<close>

definition sol_chain_inv :: "(nat \<Rightarrow> 'h) \<Rightarrow> 'h sol_shared \<Rightarrow> bool" where
  "sol_chain_inv key s \<longleftrightarrow> cf_committed (sr_confirmer s) \<subseteq> sr_mined s \<and>
     (\<forall>i. sr_calls s i \<in> {SolIdle, SolPrepared} \<longrightarrow> key i \<notin> sr_mined s)"

definition sol_call_inv :: "(nat \<Rightarrow> 'h) \<Rightarrow> 'h sol_shared \<Rightarrow> nat \<Rightarrow> bool" where
  "sol_call_inv key s i \<longleftrightarrow>
     sr_reports s i \<in> shuffles (call_reports (sr_calls s i)) (told_reports (sr_told s i)) \<and>
     (sr_told s i = Some RepCommit \<longrightarrow> key i \<in> sr_mined s \<and> (\<exists>rest. sr_reports s i = RepSubmit # rest)) \<and>
     (sr_calls s i = SolIdle \<longrightarrow> sr_told s i = None) \<and>
     (\<forall>r. sr_calls s i = SolReturned r \<longrightarrow> sr_told s i = Some (if r = None then RepCommit else RepAbort)) \<and>
     sr_calls s i \<notin> {SolBlocked, SolRejected None}"

lemma sol_called_step: "sol_step key s t \<Longrightarrow> sol_called s \<subseteq> sol_called t"
  by (induction rule: sol_step.induct)
    (auto simp: sol_called_def sol_prepare_def sol_reportHashes_def sol_flushPendings_def split: prod.splits confirm_result.splits)

lemma sol_lookup_simps [simp]:
  "lookup (c\<lparr>cf_committed := x\<rparr>) h = lookup c h" "lookup (flush_locked e c) h = None"
  "cf_pendings c = Some ps \<Longrightarrow> lookup (c\<lparr>cf_pendings := Some (gomap_set k i ps)\<rparr>) h = (if h = k then Some i else lookup c h)"
  by (auto simp: lookup_def flush_locked_def)

text \<open>Registering.\<close>

lemma sol_prepare_inv:
  assumes work: "sol_work_inv key s" and chain: "sol_chain_inv key s" and idle: "sr_calls s i = SolIdle" "sr_told s i = None"
    and inj: "inj_on key (insert i (sol_called s))"
  shows "sol_work_inv key (sol_prepare (key i) i s)" "sol_chain_inv key (sol_prepare (key i) i s)"
    "sr_calls (sol_prepare (key i) i s) i \<in> {SolPrepared} \<union> range (\<lambda>e. SolRejected (Some e))"
    "sr_reports (sol_prepare (key i) i s) = sr_reports s" "sr_told (sol_prepare (key i) i s) = sr_told s"
    "sr_mined (sol_prepare (key i) i s) = sr_mined s" "j \<noteq> i \<Longrightarrow> sr_calls (sol_prepare (key i) i s) j = sr_calls s j"
proof -
  have other: "key j \<noteq> key i" if "under_way (sr_calls s j)" for j
    using inj_onD [OF inj, of j i] that idle(1) by (cases "sr_calls s j = SolIdle") (auto simp: sol_called_def)
  have fresh: "key i \<notin> cf_committed (sr_confirmer s)" using chain idle(1) by (auto simp: sol_chain_inv_def)
  have unused: "lookup (sr_confirmer s) (key i) = None"
  proof (cases "lookup (sr_confirmer s) (key i)")
    case (Some j)
    then have "key j = key i" using work by (simp add: sol_work_inv_def confirmer_ok_def)
    then show ?thesis using Some work other [of j] by (metis sol_work_inv_def)
  qed simp
  show "sol_work_inv key (sol_prepare (key i) i s)"
  proof (cases "cf_pendings (sr_confirmer s)")
    case None
    then show ?thesis using work idle by (auto simp: sol_work_inv_def sol_prepare_def confirm_locked_def)
  next
    case (Some ps)
    let ?c = "(sr_confirmer s)\<lparr>cf_pendings := Some (gomap_set (key i) i ps)\<rparr>"
    have "confirmer_ok key ?c" using work Some by (auto simp: sol_work_inv_def confirmer_ok_def)
    moreover have "lookup ?c (key j) = Some j \<longleftrightarrow> j = i \<or> lookup (sr_confirmer s) (key j) = Some j" for j
      using Some unused by auto
    moreover have "i \<notin> set (answered (work_of (sr_poll s)))" using work idle(1) by (auto simp: sol_work_inv_def)
    moreover have "sol_prepare (key i) i s = sr_call i SolPrepared (s\<lparr>sr_confirmer := ?c\<rparr>)"
      using Some fresh by (simp add: sol_prepare_def confirm_locked_def)
    ultimately show ?thesis using work idle by (auto simp: sol_work_inv_def)
  qed
  show "sol_chain_inv key (sol_prepare (key i) i s)"
    using chain idle(1) fresh by (auto simp: sol_chain_inv_def sol_prepare_def confirm_locked_def split: option.splits)
  show "sr_calls (sol_prepare (key i) i s) i \<in> {SolPrepared} \<union> range (\<lambda>e. SolRejected (Some e))"
    using work fresh by (auto simp: sol_work_inv_def sol_prepare_def confirm_locked_def split: option.splits)
  show "sr_reports (sol_prepare (key i) i s) = sr_reports s" "sr_told (sol_prepare (key i) i s) = sr_told s"
    "sr_mined (sol_prepare (key i) i s) = sr_mined s" "j \<noteq> i \<Longrightarrow> sr_calls (sol_prepare (key i) i s) j = sr_calls s j"
    using fresh by (auto simp: sol_prepare_def confirm_locked_def split: option.splits)
qed

text \<open>What a call does by itself.\<close>

lemma sol_work_call:
  assumes "sol_work_inv key s" and "under_way (sr_calls s i)" and "under_way c" and "c \<noteq> SolPrepared"
  shows "sol_work_inv key (sr_call i c s)" "sol_work_inv key (sr_call i c (sr_report i r s))"
  using assms by (auto simp: sol_work_inv_def)

lemma sol_chain_call:
  assumes "sol_chain_inv key s" and "c \<notin> {SolIdle, SolPrepared}"
  shows "sol_chain_inv key (sr_call i c s)" "sol_chain_inv key (sr_call i c (sr_report i r s))"
  using assms by (auto simp: sol_chain_inv_def)

lemma sol_chain_frame [simp]:
  "sol_chain_inv key (s\<lparr>sr_poll := p\<rparr>) = sol_chain_inv key s" "sol_chain_inv key (sr_tell i r s) = sol_chain_inv key s"
  "sol_chain_inv key (sol_flushPendings e pendings s) = sol_chain_inv key s"
  by (simp_all add: sol_chain_inv_def sol_flushPendings_def flush_locked_def)

lemma shuffles_last: "ys @ [z] \<in> shuffles [z] ys"
  by (induction ys) (simp_all add: Cons_in_shuffles_iff)

lemma shuffles_snoc:
  "zs \<in> shuffles xs ys \<Longrightarrow> zs @ [z] \<in> shuffles (xs @ [z]) ys" "zs \<in> shuffles xs ys \<Longrightarrow> zs @ [z] \<in> shuffles xs (ys @ [z])"
  by (induction xs ys arbitrary: zs rule: shuffles.induct)
    (auto simp: Cons_in_shuffles_iff shuffles_last shuffles_commutes [of _ "[z]"])

text \<open>The goroutine: a block, a report, an answer, the end of a batch, and its own end.\<close>

lemma sol_block_inv:
  assumes work: "sol_work_inv key s" and chain: "sol_chain_inv key s" and poll: "sr_poll s = Polling"
    and submitted: "\<And>i. key i \<in> set hashes \<Longrightarrow> sr_calls s i \<notin> {SolIdle, SolPrepared}"
  shows "sol_work_inv key (sol_reportHashes hashes s)" "sol_chain_inv key (sol_reportHashes hashes s)"
proof -
  obtain pendings c where run: "report_locked hashes (sr_confirmer s) = (pendings, c)" by force
  have "confirmer_ok key (sr_confirmer s)" using work by (simp add: sol_work_inv_def)
  note spec = report_locked_spec [OF run this]
  have actions: "list_all (sol_action False) (in_turn RepCommit None pendings)" by (auto simp: list_all_iff dest!: in_turn_actions)
  show "sol_work_inv key (sol_reportHashes hashes s)"
    using work poll spec submitted actions in_turn_ok [of pendings]
    by (auto simp: sol_work_inv_def sol_reportHashes_def run)
  show "sol_chain_inv key (sol_reportHashes hashes s)"
    using chain spec submitted by (auto simp: sol_chain_inv_def sol_reportHashes_def run)
qed

lemma sol_fail_inv:
  assumes work: "sol_work_inv key s" and poll: "sr_poll s = Polling" and it: "gomap_order (pendings_of (sr_confirmer s)) it"
  shows "sol_work_inv key (sol_flushPendings e (map snd it) s)"
proof -
  have "confirmer_ok key (sr_confirmer s)" using work by (simp add: sol_work_inv_def)
  note all = flush_order [OF this it]
  have actions: "list_all (sol_action True) (in_turn RepAbort (Some e) (map snd it))" by (auto simp: list_all_iff dest!: in_turn_actions)
  have "under_way (sr_calls s i) \<and> sr_told s i = None" if "i \<in> set (map snd it)" for i
    using that all(2) work by (simp add: sol_work_inv_def)
  then show ?thesis
    using work poll actions in_turn_ok [OF all(1)]
    by (simp add: sol_work_inv_def sol_flushPendings_def confirmer_ok_def) (simp add: flush_locked_def)
qed

lemma sol_report_inv:
  assumes "sol_work_inv key s" and "sr_poll s = Working (Report i r # work) ending"
  shows "sol_work_inv key (sr_tell i r (s\<lparr>sr_poll := Working work ending\<rparr>))"
  using assms by (auto simp: sol_work_inv_def)

lemma sol_answer_inv:
  assumes "sol_work_inv key s" and "sr_poll s = Working (Answer i err # work) ending"
  shows "sol_work_inv key (sr_call i (SolReturned err) (s\<lparr>sr_poll := Working work ending\<rparr>))"
  using assms reported_answered [of work] by (auto simp: sol_work_inv_def)

lemma sol_inv_step:
  assumes "sol_step key s t" and "inj_on key (sol_called t)" and "sol_work_inv key s" and "sol_chain_inv key s"
    and "\<And>i. sol_call_inv key s i"
  shows "sol_work_inv key t \<and> sol_chain_inv key t"
  using assms
proof (induction rule: sol_step.induct)
  case (sol_prepares s i)
  have told: "sr_told s i = None" using sol_prepares by (simp add: sol_call_inv_def)
  have "insert i (sol_called s) \<subseteq> sol_called (sol_prepare (key i) i s)"
    using sol_called_step [OF sol_step.sol_prepares [OF sol_prepares.hyps]]
    by (auto simp: sol_called_def sol_prepare_def split: prod.splits confirm_result.splits)
  then have "inj_on key (insert i (sol_called s))" by (rule inj_on_subset [OF sol_prepares.prems(1)])
  with sol_prepares told show ?case by (simp add: sol_prepare_inv)
next
  case (sol_block s hashes)
  then show ?case by (intro conjI sol_block_inv) auto
next
  case (sol_answers s i err work ending)
  then show ?case by (simp add: sol_answer_inv sol_chain_call)
next
  case (sol_worked s ending)
  then show ?case by (auto simp: sol_work_inv_def)
qed (simp_all add: sol_work_call sol_chain_call sol_fail_inv sol_report_inv)

lemma sol_call_inv_frame:
  assumes "sol_call_inv key s j" and "sr_calls t j = sr_calls s j" and "sr_reports t j = sr_reports s j" and "sr_told t j = sr_told s j"
    and "sr_mined s \<subseteq> sr_mined t"
  shows "sol_call_inv key t j"
  using assms by (auto simp: sol_call_inv_def)

text \<open>A report of the call itself, and one of the goroutine.\<close>

lemma sol_call_inv_report:
  assumes inv: "sol_call_inv key s i" and "under_way (sr_calls s i)" and "under_way c" and "call_reports c = call_reports (sr_calls s i) @ [r]"
  shows "sol_call_inv key (sr_call i c (sr_report i r s)) i"
  using assms shuffles_snoc(1) [of "sr_reports s i" "call_reports (sr_calls s i)" "told_reports (sr_told s i)" r]
  by (cases "sr_calls s i"; cases c) (auto simp: sol_call_inv_def)

lemma sol_call_inv_tell:
  assumes inv: "sol_call_inv key s i" and told: "sr_told s i = None" and "under_way (sr_calls s i)"
    and commit: "r = RepCommit \<Longrightarrow> sr_calls s i \<noteq> SolPrepared \<and> key i \<in> sr_mined s"
  shows "sol_call_inv key (sr_tell i r (s\<lparr>sr_poll := p\<rparr>)) i"
proof -
  have shuffle: "sr_reports s i \<in> shuffles (call_reports (sr_calls s i)) []" using inv told by (simp add: sol_call_inv_def told_reports_def)
  then have "sr_reports s i = call_reports (sr_calls s i)" by simp
  then have "\<exists>rest. sr_reports s i = RepSubmit # rest" if "r = RepCommit"
    using commit [OF that] assms(3) by (cases "sr_calls s i") auto
  moreover have "sr_reports s i @ [r] \<in> shuffles (call_reports (sr_calls s i)) [r]" using shuffles_snoc(2) [OF shuffle, of r] by simp
  ultimately show ?thesis using assms by (auto simp: sol_call_inv_def told_reports_def)
qed

lemma sol_call_inv_step:
  assumes "sol_step key s t" and "inj_on key (sol_called t)" and "sol_work_inv key s" and "sol_chain_inv key s"
    and "\<And>i. sol_call_inv key s i"
  shows "sol_call_inv key t j"
  using assms
proof (induction rule: sol_step.induct)
  case (sol_prepares s i)
  have told: "sr_told s i = None" "sr_reports s i = []" using sol_prepares.hyps(1) sol_prepares.prems(4) [of i] by (auto simp: sol_call_inv_def told_reports_def)
  have "insert i (sol_called s) \<subseteq> sol_called (sol_prepare (key i) i s)"
    using sol_called_step [OF sol_step.sol_prepares [OF sol_prepares.hyps]]
    by (auto simp: sol_called_def sol_prepare_def split: prod.splits confirm_result.splits)
  then have "inj_on key (insert i (sol_called s))" by (rule inj_on_subset [OF sol_prepares.prems(1)])
  note prep = sol_prepare_inv [OF sol_prepares.prems(2,3) sol_prepares.hyps(1) told(1) this]
  show ?case
  proof (cases "j = i")
    case True
    then show ?thesis using prep(3) told by (auto simp: sol_call_inv_def told_reports_def prep(4-6))
  next
    case False
    show ?thesis by (rule sol_call_inv_frame [OF sol_prepares.prems(4)]) (simp_all add: prep(4-6) prep(7) [OF False])
  qed
next
  case (sol_submits s i)
  show ?case
  proof (cases "j = i")
    case True
    then show ?thesis using sol_submits sol_call_inv_report [of key s i SolSubmitting RepSubmit] by simp
  qed (rule sol_call_inv_frame [OF sol_submits.prems(4)], simp_all)
next
  case (sol_refuses s i e)
  show ?case
  proof (cases "j = i")
    case True
    then show ?thesis using sol_refuses sol_call_inv_report [of key s i "SolRefused e" RepAbort] by simp
  qed (rule sol_call_inv_frame [OF sol_refuses.prems(4)], simp_all)
next
  case (sol_sends s i)
  then show ?case using sol_sends.prems(4) [of j] by (cases "j = i") (auto simp: sol_call_inv_def)
next
  case (sol_reports s i r work ending)
  have "sr_told s i = None \<and> under_way (sr_calls s i) \<and> (r = RepCommit \<longrightarrow> sr_calls s i \<noteq> SolPrepared \<and> key i \<in> sr_mined s)"
    using sol_reports.hyps sol_reports.prems(2) by (auto simp: sol_work_inv_def split: if_splits)
  then have "sol_call_inv key (sr_tell i r (s\<lparr>sr_poll := Working work ending\<rparr>)) i"
    by (intro sol_call_inv_tell sol_reports.prems(4)) simp_all
  moreover have "sol_call_inv key (sr_tell i r (s\<lparr>sr_poll := Working work ending\<rparr>)) j" if "j \<noteq> i"
    by (rule sol_call_inv_frame [OF sol_reports.prems(4)]) (use that in simp_all)
  ultimately show ?case by (cases "j = i") simp_all
next
  case (sol_answers s i err work ending)
  have "sr_told s i = Some (if err = None then RepCommit else RepAbort)"
    using sol_answers.hyps(1) sol_answers.prems(2) reported_answered [of work] by (auto simp: sol_work_inv_def split: if_splits)
  then show ?case
    using sol_answers.hyps(2) sol_answers.prems(4) [of j] by (cases "j = i") (auto simp: sol_call_inv_def)
next
  case (sol_block s hashes)
  show ?case by (rule sol_call_inv_frame [OF sol_block.prems(4)]) (auto simp: sol_reportHashes_def split: prod.splits)
next
  case (sol_worked s ending)
  show ?case by (rule sol_call_inv_frame [OF sol_worked.prems(4)]) simp_all
next
  case (sol_fails s it e)
  show ?case by (rule sol_call_inv_frame [OF sol_fails.prems(4)]) (simp_all add: sol_flushPendings_def)
qed

lemma sol_inv_run:
  assumes "sol_run key s t" and "inj_on key (sol_called t)" and "sol_work_inv key s" and "sol_chain_inv key s" and "\<And>i. sol_call_inv key s i"
  shows "sol_work_inv key t" "sol_chain_inv key t" "sol_call_inv key t j"
proof -
  have "sol_work_inv key t \<and> sol_chain_inv key t \<and> (\<forall>j. sol_call_inv key t j)"
    using assms
  proof (induction rule: sol_run.induct)
    case (sol_more s t u)
    have "inj_on key (sol_called t)" by (rule inj_on_subset [OF sol_more.prems(1) sol_called_step [OF sol_more.hyps(2)]])
    with sol_more have inv: "sol_work_inv key t" "sol_chain_inv key t" "\<And>j. sol_call_inv key t j" by blast+
    show ?case
      using sol_inv_step [OF sol_more.hyps(2) sol_more.prems(1) inv] sol_call_inv_step [OF sol_more.hyps(2) sol_more.prems(1) inv] by blast
  qed blast
  then show "sol_work_inv key t" "sol_chain_inv key t" "sol_call_inv key t j" by blast+
qed

lemma sol_inv_start: "sol_work_inv key sol_start" "sol_chain_inv key sol_start" "sol_call_inv key sol_start i"
  by (simp_all add: sol_work_inv_def sol_chain_inv_def sol_call_inv_def sol_start_def newPollblkTransactionConfirmer_def
      confirmer_ok_def lookup_def gomap_ok_def told_reports_def)

text \<open>
  C20: The reports of the Solana client. In every interleaving of calls and blocks, if the signatures of the transactions
  differ, the reports of an interaction are those of its call, the submission and an abort if the node refuses it, mixed with at most one of the
  goroutine; that is a commit only for a transaction in a block that was processed, and then the submission was reported
  first. A call that returns from its channel without an error was told the commit, one with an error the abort; and no call blocks in
  \<^verbatim>\<open>prepare\<close>.
\<close>

theorem sol_reports_sound:
  assumes "inj_on key (sol_called s)" and "sol_run key sol_start s"
  shows "sr_reports s i \<in> shuffles (call_reports (sr_calls s i)) (told_reports (sr_told s i)) \<and>
    (sr_told s i = Some RepCommit \<longrightarrow> key i \<in> sr_mined s \<and> hd (sr_reports s i) = RepSubmit) \<and>
    (\<forall>r. sr_calls s i = SolReturned r \<longrightarrow> sr_told s i = Some (if r = None then RepCommit else RepAbort)) \<and>
    sr_calls s i \<noteq> SolBlocked \<and> sr_lock s = None"
  using sol_inv_run(1) [OF assms(2,1) sol_inv_start] sol_inv_run(3) [OF assms(2,1) sol_inv_start, of i]
  by (auto simp: sol_call_inv_def sol_work_inv_def)

text \<open>A call that registers, submits and waits, and a block with its transaction.\<close>

definition sol_demo :: "nat sol_shared" where
  "sol_demo = sol_reportHashes [0] (sr_call 0 SolWaiting (sr_call 0 SolSubmitting (sr_report 0 RepSubmit (sol_prepare 0 0 sol_start))))"

lemmas sol_demo_defs = sol_prepare_def confirm_locked_def sol_start_def newPollblkTransactionConfirmer_def sol_reportHashes_def

lemma sol_demo_run: "sol_run (\<lambda>i. i) sol_start sol_demo"
proof -
  have "sol_run (\<lambda>i. i) sol_start (sol_prepare 0 0 sol_start)"
    by (rule sol_more [OF sol_stay sol_prepares]) (simp_all add: sol_start_def)
  from sol_more [OF this sol_submits [where i = 0]]
  have "sol_run (\<lambda>i. i) sol_start (sr_call 0 SolSubmitting (sr_report 0 RepSubmit (sol_prepare 0 0 sol_start)))"
    by (simp add: sol_demo_defs)
  from sol_more [OF this sol_sends [where i = 0]]
  have "sol_run (\<lambda>i. i) sol_start (sr_call 0 SolWaiting (sr_call 0 SolSubmitting (sr_report 0 RepSubmit (sol_prepare 0 0 sol_start))))"
    by simp
  from sol_more [OF this sol_block [where hashes = "[0]"]] show ?thesis unfolding sol_demo_def by (simp add: sol_demo_defs)
qed

lemma sol_demo_state:
  "sr_poll sol_demo = Working [Report 0 RepCommit, Answer 0 None] False" "sr_calls sol_demo 0 = SolWaiting"
  "sr_told sol_demo 0 = None" "sr_reports sol_demo 0 = [RepSubmit]"
  by (simp_all add: sol_demo_def sol_demo_defs in_turn_def)

theorem sol_reports_sound_witness:
  "\<exists>s. sol_run (\<lambda>i. i) sol_start s \<and> sr_told s 0 = Some RepCommit \<and> 0 \<in> sr_mined s \<and> hd (sr_reports s 0) = RepSubmit"
proof -
  let ?s = "sr_tell 0 RepCommit (sol_demo\<lparr>sr_poll := Working [Answer 0 None] False\<rparr>)"
  have run: "sol_run (\<lambda>i. i) sol_start ?s" by (rule sol_more [OF sol_demo_run sol_reports [OF sol_demo_state(1)]])
  have "inj_on (\<lambda>i. i) (sol_called ?s)" by (simp add: inj_on_def)
  from sol_reports_sound [OF this run, of 0] run show ?thesis by (intro exI [of _ ?s]) simp
qed

section \<open>Answering\<close>

lemma sol_run_trans: "sol_run key t u \<Longrightarrow> sol_run key s t \<Longrightarrow> sol_run key s u"
  by (induction rule: sol_run.induct) (auto intro: sol_more)

lemma sol_run_one: "sol_step key s t \<Longrightarrow> sol_run key s t"
  by (rule sol_more [OF sol_stay])

text \<open>A call under way that is not refused can come to wait.\<close>

lemma sol_comes_to_wait:
  assumes "sr_calls s i \<in> {SolPrepared, SolSubmitting, SolWaiting}"
  shows "\<exists>t. sol_run key s t \<and> sr_calls t = (sr_calls s)(i := SolWaiting) \<and> sr_poll t = sr_poll s"
proof -
  have sends: "\<exists>t. sol_run key u t \<and> sr_calls t = (sr_calls u)(i := SolWaiting) \<and> sr_poll t = sr_poll u"
    if "sr_calls u i = SolSubmitting" for u :: "'a sol_shared"
    using sol_run_one [OF sol_sends [OF that]] by (intro exI [of _ "sr_call i SolWaiting u"]) simp
  consider "sr_calls s i = SolPrepared" | "sr_calls s i = SolSubmitting" | "sr_calls s i = SolWaiting" using assms by blast
  then show ?thesis
  proof cases
    case 1
    let ?u = "sr_call i SolSubmitting (sr_report i RepSubmit s)"
    obtain t where "sol_run key ?u t" "sr_calls t = (sr_calls ?u)(i := SolWaiting)" "sr_poll t = sr_poll ?u" using sends [of ?u] by auto
    with sol_run_one [OF sol_submits [OF 1]] show ?thesis by (intro exI [of _ t]) (auto intro: sol_run_trans)
  next
    case 2
    then show ?thesis by (rule sends)
  next
    case 3
    then have "sr_calls s = (sr_calls s)(i := SolWaiting)" by (simp add: fun_upd_idem)
    then show ?thesis by (intro exI [of _ s]) (simp add: sol_stay)
  qed
qed

lemma sol_work_all:
  assumes "sr_poll s = Working work ending" and "work_ok work" and "list_all (sol_action ending) work"
    and "\<forall>i \<in> set (answered work). sr_calls s i \<in> {SolPrepared, SolSubmitting, SolWaiting}"
  shows "\<exists>t. sol_run key s t \<and> sr_poll t = (if ending then PollEnded else Polling) \<and>
    (\<forall>i \<in> set (answered work). \<exists>r. sr_calls t i = SolReturned r \<and> (r = None \<longleftrightarrow> \<not> ending)) \<and>
    (\<forall>i. i \<notin> set (answered work) \<longrightarrow> sr_calls t i = sr_calls s i)"
  using assms
proof (induction work arbitrary: s rule: work_ok.induct)
  case 1
  then show ?case using sol_run_one [OF sol_worked [OF "1"(1)]] by fastforce
next
  case (2 i err work)
  obtain u where u: "sol_run key s u" "sr_calls u = (sr_calls s)(i := SolWaiting)" "sr_poll u = sr_poll s"
    using sol_comes_to_wait [of s i key] "2.prems"(4) by auto
  let ?v = "sr_call i (SolReturned err) (u\<lparr>sr_poll := Working work ending\<rparr>)"
  have "sol_step key u ?v" by (rule sol_answers) (use u "2.prems"(1) in simp_all)
  with u(1) have v: "sol_run key s ?v" by (rule sol_more)
  have "\<forall>j \<in> set (answered work). sr_calls ?v j \<in> {SolPrepared, SolSubmitting, SolWaiting}" using "2.prems"(2,4) u(2) by auto
  then obtain t where t: "sol_run key ?v t" "sr_poll t = (if ending then PollEnded else Polling)"
    "\<forall>j \<in> set (answered work). \<exists>r. sr_calls t j = SolReturned r \<and> (r = None \<longleftrightarrow> \<not> ending)"
    "\<forall>j. j \<notin> set (answered work) \<longrightarrow> sr_calls t j = sr_calls ?v j"
    using "2.IH" [of ?v] "2.prems"(2,3) by auto
  have "sol_run key s t" by (rule sol_run_trans [OF t(1) v])
  with t(2-4) u(2) "2.prems"(2,3) show ?case by (intro exI [of _ t]) auto
next
  case (3 i r work)
  let ?v = "sr_tell i r (s\<lparr>sr_poll := Working work ending\<rparr>)"
  have v: "sol_run key s ?v" by (rule sol_run_one [OF sol_reports [OF "3.prems"(1)]])
  obtain t where t: "sol_run key ?v t" "sr_poll t = (if ending then PollEnded else Polling)"
    "\<forall>j \<in> set (answered work). \<exists>r. sr_calls t j = SolReturned r \<and> (r = None \<longleftrightarrow> \<not> ending)"
    "\<forall>j. j \<notin> set (answered work) \<longrightarrow> sr_calls t j = sr_calls ?v j"
    using "3.IH" [of ?v] "3.prems"(2-4) by auto
  have "sol_run key s t" by (rule sol_run_trans [OF t(1) v])
  with t(2-4) show ?case by (intro exI [of _ t]) auto
qed

lemma sol_stuck_step:
  assumes "sol_step key s t" and "sr_poll s = Working (Answer i err # work) ending" and "sr_calls s i = SolRefused e"
  shows "sr_poll t = sr_poll s \<and> sr_calls t i = SolRefused e \<and> sr_mined t = sr_mined s \<and>
    (\<forall>j. sr_calls s j = SolWaiting \<longrightarrow> sr_calls t j = SolWaiting)"
  using assms by (cases rule: sol_step.cases) (auto simp: sol_prepare_def split: prod.splits confirm_result.splits)

lemma sol_stuck_run:
  assumes "sol_run key s t" and "sr_poll s = Working (Answer i err # work) ending" and "sr_calls s i = SolRefused e"
  shows "sr_poll t = sr_poll s \<and> sr_calls t i = SolRefused e \<and> sr_mined t = sr_mined s \<and>
    (\<forall>j. sr_calls s j = SolWaiting \<longrightarrow> sr_calls t j = SolWaiting)"
  using assms
proof (induction rule: sol_run.induct)
  case (sol_more s t u)
  then have t: "sr_poll t = Working (Answer i err # work) ending" "sr_calls t i = SolRefused e" "sr_mined t = sr_mined s"
    "\<forall>j. sr_calls s j = SolWaiting \<longrightarrow> sr_calls t j = SolWaiting" by simp_all
  show ?case using sol_stuck_step [OF sol_more.hyps(2) t(1,2)] t sol_more.prems(1) by auto
qed simp

text \<open>
  C21: The goroutine of the Solana client and the calls. Because a call registers before it submits and waits for its own channel, the goroutine can
  finish its work, for a block or for its end, and answer every call of it, however far these have come, if the node has refused none of them. But a refused call does not
  receive from its channel and stays registered: when the goroutine comes to answer it, because the transaction is in a
  block all the same or because the goroutine ends, it blocks for ever, reads no block again, and every call that waits waits for ever.
\<close>

theorem sol_answering:
  assumes "inj_on key (sol_called s)" and "sol_run key sol_start s" and "sr_poll s = Working work ending"
  shows "((\<forall>i \<in> set (answered work). \<forall>e. sr_calls s i \<noteq> SolRefused e) \<longrightarrow>
      (\<exists>t. sol_run key s t \<and> sr_poll t = (if ending then PollEnded else Polling) \<and>
        (\<forall>i \<in> set (answered work). \<exists>r. sr_calls t i = SolReturned r \<and> (r = None \<longleftrightarrow> \<not> ending)))) \<and>
    (\<forall>i err rest e. work = Answer i err # rest \<and> sr_calls s i = SolRefused e \<longrightarrow>
      (\<forall>t. sol_run key s t \<longrightarrow> sr_poll t = sr_poll s \<and> sr_mined t = sr_mined s \<and>
        (\<forall>j. sr_calls s j = SolWaiting \<longrightarrow> sr_calls t j = SolWaiting)))"
proof (intro conjI allI impI)
  have inv: "sol_work_inv key s" by (rule sol_inv_run(1) [OF assms(2,1) sol_inv_start])
  assume "\<forall>i \<in> set (answered work). \<forall>e. sr_calls s i \<noteq> SolRefused e"
  moreover have "\<forall>i \<in> set (answered work). under_way (sr_calls s i)" using inv assms(3) by (simp add: sol_work_inv_def)
  ultimately have "\<forall>i \<in> set (answered work). sr_calls s i \<in> {SolPrepared, SolSubmitting, SolWaiting}"
    by (metis insertCI under_way.elims(2))
  then show "\<exists>t. sol_run key s t \<and> sr_poll t = (if ending then PollEnded else Polling) \<and>
      (\<forall>i \<in> set (answered work). \<exists>r. sr_calls t i = SolReturned r \<and> (r = None \<longleftrightarrow> \<not> ending))"
    using sol_work_all [OF assms(3), of key] inv assms(3) unfolding sol_work_inv_def by auto
qed (use assms(3) sol_stuck_run in blast)+

theorem sol_answering_witness:
  "(\<exists>t. sol_run (\<lambda>i. i) sol_demo t \<and> sr_poll t = Polling \<and> sr_calls t 0 = SolReturned None)"
proof -
  have "inj_on (\<lambda>i. i) (sol_called sol_demo)" by (simp add: inj_on_def)
  from sol_answering [OF this sol_demo_run sol_demo_state(1)] show ?thesis by (auto simp: sol_demo_state)
qed

section \<open>Following the slots\<close>






















end
