(* ===== verification/Sol_Driver.thy ===== *)
theory Sol_Driver
  imports Sol_Client Core_Session
begin

text \<open>
  The Solana driver from asked to end: the creation of a client (\<^verbatim>\<open>src/blockchains/nsolana/interface.go\<close>) with the addresses
  it connects to, and what becomes of the requests that the builder encodes: the transactions that a client signs,
  which transfers are told apart by their amounts, and which calls are not.
\<close>

section \<open>Host and port\<close>

text \<open>\<^verbatim>\<open>net.SplitHostPort\<close> and \<^verbatim>\<open>net.JoinHostPort\<close>; a host with colons is put in brackets.\<close>

definition index_of :: "char \<Rightarrow> string \<Rightarrow> nat option" where
  "index_of c s = (if c \<in> set s then Some (length (takeWhile (\<lambda>x. x \<noteq> c) s)) else None)"

definition last_index_of :: "char \<Rightarrow> string \<Rightarrow> nat option" where
  "last_index_of c s = (case index_of c (rev s) of Some i \<Rightarrow> Some (length s - 1 - i) | None \<Rightarrow> None)"

definition address_error :: "string \<Rightarrow> string \<Rightarrow> 'a outcome" where
  "address_error s why = Err (Errorf (''address %s: '' @ why) [AStr s])"

text \<open>The end of the function, with the host, where its brackets may begin and end, and the colon before the port.\<close>

definition host_port :: "string \<Rightarrow> string \<Rightarrow> nat \<Rightarrow> nat \<Rightarrow> nat \<Rightarrow> (string \<times> string) outcome" where
  "host_port s host j k i =
     (if CHR ''['' \<in> set (drop j s) then address_error s (''unexpected '['' @ apos @ '' in address'')
      else if CHR '']'' \<in> set (drop k s) then address_error s (''unexpected ']'' @ apos @ '' in address'')
      else Ok (host, drop (i + 1) s))"

definition SplitHostPort :: "string \<Rightarrow> (string \<times> string) outcome" where
  "SplitHostPort s =
     (case last_index_of (CHR '':'') s of
        None \<Rightarrow> address_error s ''missing port in address''
      | Some i \<Rightarrow>
          if s ! 0 = CHR ''['' then
            (case index_of (CHR '']'') s of
               None \<Rightarrow> address_error s (''missing ']'' @ apos @ '' in address'')
             | Some e \<Rightarrow>
                 if e + 1 = length s then address_error s ''missing port in address''
                 else if e + 1 = i then host_port s (take (e - 1) (drop 1 s)) 1 (e + 1) i
                 else if s ! (e + 1) = CHR '':'' then address_error s ''too many colons in address''
                 else address_error s ''missing port in address'')
          else if CHR '':'' \<in> set (take i s) then address_error s ''too many colons in address''
          else host_port s (take i s) 0 0 i)"

definition JoinHostPort :: "string \<Rightarrow> string \<Rightarrow> string" where
  "JoinHostPort host port =
     (if CHR '':'' \<in> set host then ''['' @ host @ '']:'' @ port else host @ '':'' @ port)"

lemma index_of_append: "c \<notin> set xs \<Longrightarrow> index_of c (xs @ c # ys) = Some (length xs)"
  by (induction xs) (auto simp: index_of_def)

lemma last_index_of_append: "c \<notin> set ys \<Longrightarrow> last_index_of c (xs @ c # ys) = Some (length xs)"
  using index_of_append [of c "rev ys" "rev xs"] by (simp add: last_index_of_def)

definition plain :: "string \<Rightarrow> bool" where
  "plain s \<longleftrightarrow> CHR ''['' \<notin> set s \<and> CHR '']'' \<notin> set s"

lemma SplitHostPort_Join:
  assumes "plain host" and "plain port" and "CHR '':'' \<notin> set port"
  shows "SplitHostPort (JoinHostPort host port) = Ok (host, port)"
proof (cases "CHR '':'' \<in> set host")
  case True
  let ?s = "(''['' @ host @ '']'') @ CHR '':'' # port"
  have colon: "last_index_of (CHR '':'') ?s = Some (length host + 2)"
    using last_index_of_append [OF assms(3), of "''['' @ host @ '']''"] by simp
  have bracket: "index_of (CHR '']'') ?s = Some (length host + 1)"
    using index_of_append [of "CHR '']''" "''['' @ host" "CHR '':'' # port"] assms(1) by (simp add: plain_def)
  have "SplitHostPort ?s = Ok (host, port)"
    using assms(1,2) unfolding SplitHostPort_def colon bracket by (simp add: host_port_def plain_def)
  with True show ?thesis by (simp add: JoinHostPort_def)
next
  case False
  have colon: "last_index_of (CHR '':'') (host @ CHR '':'' # port) = Some (length host)" by (rule last_index_of_append [OF assms(3)])
  have "(host @ CHR '':'' # port) ! 0 \<noteq> CHR ''[''" using assms(1) by (cases host) (auto simp: plain_def)
  then have "SplitHostPort (host @ CHR '':'' # port) = Ok (host, port)"
    using False assms(1,2) unfolding SplitHostPort_def colon by (simp add: host_port_def plain_def)
  with False show ?thesis by (simp add: JoinHostPort_def)
qed

section \<open>Decimal numerals\<close>

lemma digit_code: "d < 10 \<Longrightarrow> of_char (digit d) = 48 + d"
  by (simp add: digit_def)

lemma decimal_nonempty: "decimal n \<noteq> []"
  by (subst decimal.simps) simp

lemma decimal_digits: "\<forall>c \<in> set (decimal n). 48 \<le> (of_char c :: nat) \<and> of_char c \<le> (57 :: nat)"
proof (induction n rule: decimal.induct)
  case (1 n)
  then show ?case by (subst decimal.simps) (auto simp: digit_code)
qed

lemma decimal_fold: "fold (\<lambda>c n. 10 * n + (of_char c - 48)) (decimal n) (0 :: nat) = n"
proof (induction n rule: decimal.induct)
  case (1 n)
  then show ?case by (subst decimal.simps) (auto simp: digit_code)
qed

lemma digits_value_decimal: "digits_value (decimal n) = Some n"
  using decimal_digits [of n] by (auto simp: digits_value_def decimal_nonempty decimal_fold list_ex_iff)

lemma decimal_no: "of_char c < (48 :: nat) \<or> (57 :: nat) < of_char c \<Longrightarrow> c \<notin> set (decimal n)"
  using decimal_digits [of n] by force

lemma Atoi_decimal:
  assumes "n < 2 ^ 63"
  shows "Atoi (decimal n) = Some (int n)"
proof -
  have "\<not> prefix [c] (decimal n)" if "c \<notin> set (decimal n)" for c
    using that by (cases "decimal n") auto
  then have "\<not> prefix ''-'' (decimal n)" "\<not> prefix ''+'' (decimal n)" by (simp_all add: decimal_no)
  then show ?thesis using assms by (simp add: Atoi_def digits_value_decimal int64_def)
qed

section \<open>The client\<close>

text \<open>The address of the events: the port after that of the endpoint. \<open>port_string\<close> is \<^verbatim>\<open>strconv.Itoa\<close>.\<close>

definition sol_ws_address :: "string \<Rightarrow> string outcome" where
  "sol_ws_address endpoint =
     obind (SplitHostPort endpoint) (\<lambda>(ip, portStr).
     obind (sol_Atoi portStr) (\<lambda>port.
     Ok (''ws://'' @ JoinHostPort ip (port_string (wrap64 (port + 1))))))"

definition sol_newCachedParameterProvider ::
  "('pk, 'h, 'i, 'tb, 'x, 'sig, 'abi, 'n) sol_sdk \<Rightarrow> ('n, 'h sol_provider) go" where
  "sol_newCachedParameterProvider sl = gbind (sl_LatestBlockhash sl) (\<lambda>blockhash. gret (SolCached blockhash))"

definition sol_parsePrepare ::
  "('pk, 'h, 'i, 'tb, 'x, 'sig, 'abi, 'n) sol_sdk \<Rightarrow> string \<Rightarrow> ('n, 'h sol_provider) go" where
  "sol_parsePrepare sl mode =
     (if mode = ''nothing'' then gret SolDirect
      else if mode = ''cached'' then sol_newCachedParameterProvider sl
      else gerr (Errorf (''unknown prepare method '%s'' @ apos) [AStr mode]))"

text \<open>The parameters in the order of the loop, with what it has chosen so far.\<close>

fun sol_parse_params ::
  "('pk, 'h, 'i, 'tb, 'x, 'sig, 'abi, 'n) sol_sdk \<Rightarrow> (string \<times> string) list \<Rightarrow> 'h sol_provider option
     \<Rightarrow> ('n, 'h sol_provider option) go" where
  "sol_parse_params sl [] chosen = gret chosen"
| "sol_parse_params sl ((key, val) # params) chosen =
     (if key = ''prepare'' then gbind (sol_parsePrepare sl val) (\<lambda>p. sol_parse_params sl params (Some p))
      else gerr (Errorf (''unknown parameter '%s'' @ apos) [AStr key]))"

text \<open>\<^verbatim>\<open>Client\<close> gives the state behind the client and the connection for the events.\<close>

definition sol_Client ::
  "('pk, 'h, 'i, 'tb, 'x, 'sig, 'abi, 'n) sol_sdk \<Rightarrow> (string \<Rightarrow> 'n) \<Rightarrow> (string \<Rightarrow> 'c outcome) \<Rightarrow> (string \<times> string) list \<Rightarrow> string list
     \<Rightarrow> (('h, 'n) sol_state \<times> 'c) outcome" where
  "sol_Client sl New Connect params view =
     (case view of
        [] \<Rightarrow> Panic ''index out of range''
      | endpoint # _ \<Rightarrow>
          obind (sol_ws_address endpoint) (\<lambda>address.
          obind (Connect address) (\<lambda>sock.
          case gbind (sol_parse_params sl params None) (\<lambda>chosen.
              case chosen of Some provider \<Rightarrow> gret provider | None \<Rightarrow> sol_newCachedParameterProvider sl) (New (''http://'' @ endpoint)) of
            (r, node) \<Rightarrow> obind r (\<lambda>provider. Ok (\<lparr>so_node = node, so_provider = provider\<rparr>, sock)))))"

lemma sol_ws_address_next:
  assumes "plain host" and "port + 1 < 2 ^ 63"
  shows "sol_ws_address (JoinHostPort host (decimal port)) = Ok (''ws://'' @ JoinHostPort host (decimal (port + 1)))"
proof -
  have "SplitHostPort (JoinHostPort host (decimal port)) = Ok (host, decimal port)"
    by (rule SplitHostPort_Join [OF assms(1)]) (simp_all add: plain_def decimal_no)
  moreover have "Atoi (decimal port) = Some (int port)" using assms(2) by (intro Atoi_decimal) simp
  moreover have "port_string (wrap64 (int port + 1)) = decimal (port + 1)"
    using assms(2) by (simp add: int64_def port_string_def nat_add_distrib)
  ultimately show ?thesis by (simp add: sol_ws_address_def obind_def sol_Atoi_def)
qed

section \<open>Requests\<close>

datatype 'pk sol_request = SReqTransfer int nat nat | SReqInvoke nat "'pk sol_contract" string

fun sol_sender :: "'pk sol_request \<Rightarrow> nat" where
  "sol_sender (SReqTransfer amount f t) = f"
| "sol_sender (SReqInvoke f c fn) = f"

fun sol_encode_request ::
  "('pk, 'h, 'i, 'tb, 'x, 'sig, 'abi, 'n) sol_sdk \<Rightarrow> ('abi, 'p) sol_host \<Rightarrow> interactionInformation \<Rightarrow> 'pk sol_request
     \<Rightarrow> (('pk, 'abi, 'p, 'n) sol_builder, byte list) go" where
  "sol_encode_request sl host info (SReqTransfer amount f t) =
     sol_EncodeTransfer sl amount (GRes (ROpaque (SAccount f))) (GRes (ROpaque (SAccount t))) info"
| "sol_encode_request sl host info (SReqInvoke f c fn) =
     sol_EncodeInvoke sl host (GRes (ROpaque (SAccount f))) (GRes (ROpaque (SContract c))) fn info"

text \<open>
  The transaction of a request: a transfer that is the \<open>n\<close>-th from the one account to the other moves \<open>n\<close>; the
  arguments of a call are those the helper process gives.
\<close>

fun sol_request_tx ::
  "('abi, 'p) sol_host \<Rightarrow> ('pk, 'abi, 'p, 'n) sol_builder \<Rightarrow> (nat \<Rightarrow> nat \<Rightarrow> 64 word) \<Rightarrow> 'pk sol_request
     \<Rightarrow> ('pk, 'tb, 'x) sol_virtual outcome" where
  "sol_request_tx host b n (SReqTransfer amount f t) =
     Ok (SVTransfer \<lparr>st_amount = n f t, st_from = sac_private (sb_premadeAccounts b ! f), st_to = sac_public (sb_premadeAccounts b ! t)\<rparr>)"
| "sol_request_tx host b n (SReqInvoke f c fn) =
     obind (fst (sb_arguments host (sct_appli c) fn b)) (\<lambda>payload.
     Ok (SVInvoke \<lparr>si_amount = 0, si_from = sac_private (sb_premadeAccounts b ! f), si_program = sac_public (sct_program c),
       si_storage = sac_public (sct_storage c), si_payload = payload\<rparr>))"

text \<open>What the transaction asks the chain to do, for the public key of its sender.\<close>

fun sol_instruction :: "('pk, 'h, 'i, 'tb, 'x, 'sig, 'abi, 'n) sol_sdk \<Rightarrow> 'pk \<Rightarrow> ('pk, 'tb, 'x) sol_virtual \<Rightarrow> 'i" where
  "sol_instruction sl from (SVTransfer t) = sl_NewTransferInstruction sl (st_amount t) from (st_to t)"
| "sol_instruction sl from (SVInvoke t) = sl_NewInstruction sl (si_program t)
     [(si_storage t, True, False), (sl_SysVarClock sl, False, False), (sl_ZeroKey sl, False, False)]
     (sol_call_data sl (si_storage t) from (si_amount t) (replicate 4 0) (si_payload t))"

fun is_transfer :: "nat \<Rightarrow> nat \<Rightarrow> 'pk sol_request \<Rightarrow> bool" where
  "is_transfer f t (SReqTransfer amount f' t') \<longleftrightarrow> f' = f \<and> t' = t"
| "is_transfer f t (SReqInvoke f' c fn) \<longleftrightarrow> False"

text \<open>Nothing but the counters of the transfers changes, and the state of the helper processes.\<close>

definition transfers_counted ::
  "'pk sol_request list \<Rightarrow> ('pk, 'abi, 'p, 'n) sol_builder \<Rightarrow> ('pk, 'abi, 'p, 'n) sol_builder \<Rightarrow> bool" where
  "transfers_counted reqs b b' \<longleftrightarrow> sb_premadeAccounts b' = sb_premadeAccounts b \<and>
     (\<forall>f t. word_of_int (sol_amount b' f t) =
        (word_of_int (sol_amount b f t) + of_nat (length (filter (is_transfer f t) reqs)) :: 64 word))"

lemma word_wrap64 [simp]: "(word_of_int (wrap64 i) :: 64 word) = word_of_int i"
  by (simp add: wrap64_def)

lemma sol_amount_count:
  "sol_amount (sol_count_transfer f t b) f' t' = (if f' = f \<and> t' = t then wrap64 (sol_amount b f t + 1) else sol_amount b f' t')"
  by (auto simp: sol_amount_def sol_count_transfer_def Let_def split: option.splits)

lemma sb_arguments_frame:
  "sb_arguments host name fn b = (r, b') \<Longrightarrow> sb_premadeAccounts b' = sb_premadeAccounts b \<and> sb_amounts b' = sb_amounts b"
  by (auto simp: sb_arguments_def split: option.splits prod.splits)

lemma sol_EncodeTransfer_Ok:
  assumes "sol_EncodeTransfer sl amount (GRes (ROpaque (SAccount f))) (GRes (ROpaque (SAccount t))) info b = (Ok payload, b')"
    and "tx = \<lparr>st_amount = word_of_int (sol_amount b f t) + 1, st_from = sac_private (sb_premadeAccounts b ! f),
      st_to = sac_public (sb_premadeAccounts b ! t)\<rparr>"
  shows "amount = 1" "b' = sol_count_transfer f t b" "length (st_from tx) \<le> 255" "payload = sol_transfer_bytes sl tx"
proof -
  have keep: "sb_premadeAccounts (sol_count_transfer f t b) = sb_premadeAccounts b" by (simp add: sol_count_transfer_def Let_def)
  from assms(1) show one: "amount = 1" by (auto simp: sol_EncodeTransfer_def gerr_run split: if_splits)
  from assms one have enc: "to_buffer (sol_encode_transfer sl buffer_write 0x11 tx) (sol_count_transfer f t b) = (Ok payload, b')"
    by (simp add: sol_EncodeTransfer_def gbind_def glift_run gmodify_run gread_run keep sol_amount_count)
  show short: "length (st_from tx) \<le> 255"
    using enc by (auto simp: to_buffer_def sol_encode_transfer_def glift_run gerr_run obind_def split: if_splits)
  show "b' = sol_count_transfer f t b" "payload = sol_transfer_bytes sl tx"
    using enc sol_encode_transfer_buffer [OF short, of sl "0x11" "[]"] by (simp_all add: to_buffer_def glift_run obind_def)
qed

lemma sol_EncodeInvoke_Ok:
  assumes "sol_EncodeInvoke sl host (GRes (ROpaque (SAccount f))) (GRes (ROpaque (SContract c))) fn info b = (Ok payload, b')"
  obtains args tx where "sb_arguments host (sct_appli c) fn b = (Ok args, b')"
    "tx = \<lparr>si_amount = 0, si_from = sac_private (sb_premadeAccounts b ! f), si_program = sac_public (sct_program c),
       si_storage = sac_public (sct_storage c), si_payload = args\<rparr>"
    "length (si_from tx) \<le> 255" "length (si_payload tx) \<le> 65535" "payload = sol_invoke_bytes sl tx"
proof -
  obtain args b1 where args: "sb_arguments host (sct_appli c) fn b = (Ok args, b1)"
    using assms unfolding sol_EncodeInvoke_def by (auto elim!: gbind_OkE simp: glift_run)
  define tx where "tx = \<lparr>si_amount = 0, si_from = sac_private (sb_premadeAccounts b ! f), si_program = sac_public (sct_program c),
       si_storage = sac_public (sct_storage c), si_payload = args\<rparr>"
  have enc: "to_buffer (sol_encode_invoke sl buffer_write 0x11 tx) b1 = (Ok payload, b')"
    using assms args sb_arguments_frame [OF args] by (simp add: sol_EncodeInvoke_def gbind_def glift_run gread_run tx_def)
  then have short: "length (si_from tx) \<le> 255" "length (si_payload tx) \<le> 65535"
    by (auto simp: to_buffer_def sol_encode_invoke_def glift_run gerr_run obind_def split: if_splits)
  have "b' = b1" "payload = sol_invoke_bytes sl tx"
    using enc sol_encode_invoke_buffer [OF short, of sl "0x11" "[]"] by (simp_all add: to_buffer_def glift_run obind_def)
  with args tx_def short show ?thesis by (intro that) simp_all
qed

lemma sol_encode_counts:
  assumes "sol_encode_request sl host info req b = (Ok payload, b')"
  shows "transfers_counted [req] b b'"
proof (cases req)
  case (SReqTransfer amount f t)
  from sol_EncodeTransfer_Ok(2) [OF assms [unfolded SReqTransfer sol_encode_request.simps] HOL.refl] show ?thesis
    by (simp add: transfers_counted_def SReqTransfer sol_amount_count) (simp add: sol_count_transfer_def Let_def)
next
  case (SReqInvoke f c fn)
  from sol_EncodeInvoke_Ok [OF assms [unfolded SReqInvoke sol_encode_request.simps]] obtain args
    where "sb_arguments host (sct_appli c) fn b = (Ok args, b')" by metis
  from sb_arguments_frame [OF this] show ?thesis by (simp add: transfers_counted_def SReqInvoke sol_amount_def)
qed

lemma sol_encode_all_counts:
  "gmap (sol_encode_request sl host info) reqs b = (Ok payloads, b') \<Longrightarrow> transfers_counted reqs b b'"
proof (induction reqs arbitrary: b payloads)
  case Nil
  then show ?case by (simp add: gret_run transfers_counted_def)
next
  case (Cons req reqs)
  then obtain payload b1 payloads' where step: "sol_encode_request sl host info req b = (Ok payload, b1)"
    "gmap (sol_encode_request sl host info) reqs b1 = (Ok payloads', b')"
    by (auto elim!: gbind_OkE simp: gret_run)
  show ?case
    using Cons.IH [OF step(2)] sol_encode_counts [OF step(1)] by (simp add: transfers_counted_def)
qed

lemma sol_decode_request:
  assumes "sol_ok sl" and "sol_encode_request sl host info req b = (Ok payload, b')"
  shows "\<exists>v. sol_request_tx host b (\<lambda>f t. word_of_int (sol_amount b f t) + 1) req = Ok v \<and>
    sol_DecodePayload sl payload = Ok (sol_newLazyTransaction v) \<and> ((\<exists>t. v = SVTransfer t) \<or> (\<exists>t. v = SVInvoke t))"
proof (cases req)
  case (SReqTransfer amount f t)
  note enc = sol_EncodeTransfer_Ok [OF assms(2) [unfolded SReqTransfer sol_encode_request.simps] HOL.refl]
  show ?thesis
    using sol_decode_transfer_bytes [OF assms(1) enc(3), where first = "0x11" and r = "\<lparr>r_input = [], r_err = EOF\<rparr>" and rest = "[]"] enc(4)
    by (simp add: SReqTransfer sol_DecodePayload_def)
next
  case (SReqInvoke f c fn)
  from sol_EncodeInvoke_Ok [OF assms(2) [unfolded SReqInvoke sol_encode_request.simps]] obtain args tx where
    enc: "sb_arguments host (sct_appli c) fn b = (Ok args, b')"
    "tx = \<lparr>si_amount = 0, si_from = sac_private (sb_premadeAccounts b ! f), si_program = sac_public (sct_program c),
       si_storage = sac_public (sct_storage c), si_payload = args\<rparr>"
    "length (si_from tx) \<le> 255" "length (si_payload tx) \<le> 65535" "payload = sol_invoke_bytes sl tx" by metis
  show ?thesis
    using sol_decode_invoke_bytes [OF assms(1) enc(3,4), where first = "0x11" and r = "\<lparr>r_input = [], r_err = EOF\<rparr>" and rest = "[]"] enc(1,2,5)
    by (simp add: SReqInvoke sol_DecodePayload_def obind_def)
qed

section \<open>The accounts of the builder\<close>

text \<open>An account holds the public key of its private key; \<open>preserves\<close> says that an operation keeps a property of its state.\<close>

definition sol_accounts_ok ::
  "('pk, 'h, 'i, 'tb, 'x, 'sig, 'abi, 'n) sol_sdk \<Rightarrow> ('pk, 'abi, 'p, 'n) sol_builder \<Rightarrow> bool" where
  "sol_accounts_ok sl b \<longleftrightarrow> (\<forall>a \<in> set (sb_premadeAccounts b). sl_PublicKey sl (sac_private a) = Ok (sac_public a))"

definition preserves :: "('s \<Rightarrow> bool) \<Rightarrow> ('s, 'a) go \<Rightarrow> bool" where
  "preserves P m \<longleftrightarrow> (\<forall>s. P s \<longrightarrow> P (snd (m s)))"

lemma preserves_gbind: "preserves P m \<Longrightarrow> (\<And>a. preserves P (g a)) \<Longrightarrow> preserves P (gbind m g)"
  by (fastforce simp: preserves_def gbind_def split: prod.splits outcome.splits)

lemma preserves_simple: "preserves P (glift r)" "preserves P (gret a)" "preserves P (gerr e)" "preserves P (gpanic p)"
  by (simp_all add: preserves_def glift_run gret_run gerr_run gpanic_def)

lemma preserves_gfor: "(\<And>x. preserves P (f x)) \<Longrightarrow> preserves P (gfor xs f)"
  by (induction xs) (simp_all add: preserves_simple preserves_gbind)

lemma sol_addAccount_ok: "preserves (sol_accounts_ok sl) (sol_addAccount sl private)"
  by (auto simp: preserves_def sol_accounts_ok_def sol_addAccount_def sol_newAccount_def gbind_def glift_run gmodify_run obind_def
      split: outcome.splits)

lemma sol_addCompiler_ok: "preserves (sol_accounts_ok sl) (gmodify (sol_addCompiler path))"
  by (simp add: preserves_def sol_accounts_ok_def gmodify_run sol_addCompiler_def)

lemma sol_apply_env_ok: "preserves (sol_accounts_ok sl) (sol_apply_env sl host kv)"
proof -
  have "preserves (sol_accounts_ok sl) (sol_add_line sl host line)" for line
    by (simp add: sol_add_line_def preserves_simple preserves_gbind sol_addAccount_ok)
  then have "preserves (sol_accounts_ok sl) (sol_addPremadeAccounts sl host path)" for path
    unfolding sol_addPremadeAccounts_def by (intro preserves_gbind preserves_gfor preserves_simple)
  then show ?thesis
    by (cases kv) (simp add: sol_apply_env_def preserves_gfor preserves_simple sol_addCompiler_ok)
qed

lemma sol_Builder_accounts:
  assumes "sol_Builder sl host New keys it env = Ok b"
  shows "sol_accounts_ok sl b"
proof -
  from assms obtain envmap r where run: "gfor (it envmap) (sol_apply_env sl host)
      (sol_newBuilder (New (''http://'' @ (case keys of [] \<Rightarrow> [] | key # _ \<Rightarrow> key)))) = (r, b)"
    by (auto simp: sol_Builder_def Let_def obind_def split: outcome.splits prod.splits)
  have "preserves (sol_accounts_ok sl) (gfor (it envmap) (sol_apply_env sl host))" by (intro preserves_gfor sol_apply_env_ok)
  then show ?thesis
    using run by (metis (no_types, lifting) empty_iff list.set(1) preserves_def snd_conv sol_accounts_ok_def sol_builder.select_convs(1) sol_newBuilder_def)
qed

section \<open>From requests to signed transactions\<close>

lemma gmap_nth:
  "gmap f xs s = (Ok ys, s') \<Longrightarrow> k < length xs \<Longrightarrow>
   \<exists>s1 s2. gmap f (take k xs) s = (Ok (take k ys), s1) \<and> f (xs ! k) s1 = (Ok (ys ! k), s2)"
proof (induction xs arbitrary: s ys k)
  case (Cons x xs)
  then obtain y s1 ys' where step: "f x s = (Ok y, s1)" "gmap f xs s1 = (Ok ys', s')" "ys = y # ys'"
    by (auto elim!: gbind_OkE simp: gret_run)
  show ?case
  proof (cases k)
    case 0
    then show ?thesis using step by (auto simp: gret_run)
  next
    case (Suc k')
    with Cons.IH [OF step(2), of k'] Cons.prems(2) obtain s2 s3 where
      "gmap f (take k' xs) s1 = (Ok (take k' ys'), s2)" "f (xs ! k') s2 = (Ok (ys' ! k'), s3)" by auto
    then show ?thesis using step Suc by (auto simp: gbind_def gret_run)
  qed
qed simp

definition transfer_number :: "('pk, 'abi, 'p, 'n) sol_builder \<Rightarrow> 'pk sol_request list \<Rightarrow> nat \<Rightarrow> nat \<Rightarrow> 64 word" where
  "transfer_number b pre f t = word_of_int (sol_amount b f t) + of_nat (length (filter (is_transfer f t) pre)) + 1"

lemma sol_decode_after:
  assumes "sol_ok sl" and "gmap (sol_encode_request sl host info) pre b = (Ok payloads, b1)"
    and "sol_encode_request sl host info req b1 = (Ok payload, b2)"
  obtains v where "sol_request_tx host b1 (transfer_number b pre) req = Ok v"
    "sol_DecodePayload sl payload = Ok (sol_newLazyTransaction v)" "(\<exists>t. v = SVTransfer t) \<or> (\<exists>t. v = SVInvoke t)"
proof -
  have "(\<lambda>f t. word_of_int (sol_amount b1 f t) + 1) = transfer_number b pre"
    using sol_encode_all_counts [OF assms(2)] by (intro ext) (simp add: transfers_counted_def transfer_number_def)
  with sol_decode_request [OF assms(1,3)] that show ?thesis by auto
qed

lemma sol_transfer_differs:
  assumes "sol_ok sl" and "gmap (sol_encode_request sl host info) pre b = (Ok payloads, b1)"
    and "sol_encode_request sl host info req b1 = (Ok payload, b2)"
    and "k < length pre" and "is_transfer f t (pre ! k)" and "is_transfer f t req" and "length pre < 2 ^ 64"
  shows "payloads ! k \<noteq> payload"
proof
  assume same: "payloads ! k = payload"
  obtain s1 s2 where k: "gmap (sol_encode_request sl host info) (take k pre) b = (Ok (take k payloads), s1)"
    "sol_encode_request sl host info (pre ! k) s1 = (Ok (payloads ! k), s2)"
    using gmap_nth [OF assms(2,4)] by blast
  let ?count = "\<lambda>reqs. length (filter (is_transfer f t) reqs)"
  obtain v where v: "sol_request_tx host s1 (transfer_number b (take k pre)) (pre ! k) = Ok v"
    "sol_DecodePayload sl (payloads ! k) = Ok (sol_newLazyTransaction v)"
    by (rule sol_decode_after [OF assms(1) k])
  obtain v' where v': "sol_request_tx host b1 (transfer_number b pre) req = Ok v'"
    "sol_DecodePayload sl payload = Ok (sol_newLazyTransaction v')"
    by (rule sol_decode_after [OF assms(1-3)])
  from v(2) v'(2) same have "v = v'" by (simp add: sol_newLazyTransaction_def)
  with v(1) v'(1) have "transfer_number b (take k pre) f t = transfer_number b pre f t"
    using assms(5,6) by (cases "pre ! k"; cases req) auto
  then have word: "(of_nat (?count (take k pre)) :: 64 word) = of_nat (?count pre)" by (simp add: transfer_number_def)
  have "filter (is_transfer f t) pre = filter (is_transfer f t) (take k pre) @ pre ! k # filter (is_transfer f t) (drop (Suc k) pre)"
    using id_take_nth_drop [OF assms(4)] assms(5) by (metis filter.simps(2) filter_append)
  then have "?count (take k pre) < ?count pre" by simp
  moreover have "?count pre < 2 ^ 64" using assms(7) by (meson length_filter_le order_le_less_trans)
  ultimately show False using word by (simp add: unsigned_of_nat take_bit_nat_eq_self word_unat_eq_iff)
qed

text \<open>
  C19: End to end through the Solana driver: of the interactions the builder encodes for its accounts, the one that comes after the
  interactions \<open>pre\<close> is decoded by a client to the transaction that was asked for, a transfer with an amount that is its number among the transfers
  from the one account to the other, and the client signs it with the sender's key, over the block hash it
  has. So no transfer is encoded like an earlier one between the same accounts, and their signatures, by which the confirmer knows them, are those
  of different transactions.
\<close>

theorem sol_transactions_as_asked:
  assumes "sol_ok sl" and "sol_accounts_ok sl b" and "gmap (sol_encode_request sl host info) pre b = (Ok payloads, b1)"
    and "sol_encode_request sl host info req b1 = (Ok payload, b2)" and "sol_sender req < length (sb_premadeAccounts b)"
    and "a = sb_premadeAccounts b ! sol_sender req"
  shows "(\<exists>v. sol_request_tx host b1 (transfer_number b pre) req = Ok v \<and>
      sol_DecodePayload sl payload = Ok (sol_newLazyTransaction v) \<and>
      (\<forall>node h. fst (sol_lazy_getTx sl (sol_newLazyTransaction v) \<lparr>so_node = node, so_provider = SolCached h\<rparr>) =
        obind (sl_NewTransaction sl [sol_instruction sl (sac_public a) v] h (sac_public a))
          (sl_Sign sl [sac_public a \<mapsto> sac_private a]))) \<and>
    (\<forall>k f t. k < length pre \<and> is_transfer f t (pre ! k) \<and> is_transfer f t req \<and> length pre < 2 ^ 64 \<longrightarrow> payloads ! k \<noteq> payload)"
proof (intro conjI allI impI)
  obtain v where v: "sol_request_tx host b1 (transfer_number b pre) req = Ok v"
    "sol_DecodePayload sl payload = Ok (sol_newLazyTransaction v)" "(\<exists>t. v = SVTransfer t) \<or> (\<exists>t. v = SVInvoke t)"
    by (rule sol_decode_after [OF assms(1,3,4)])
  have keep: "sb_premadeAccounts b1 = sb_premadeAccounts b"
    using sol_encode_all_counts [OF assms(3)] by (simp add: transfers_counted_def)
  have key: "sl_PublicKey sl (sac_private a) = Ok (sac_public a)"
    using assms(2,5,6) by (simp add: sol_accounts_ok_def)
  have sign: "fst (sol_lazy_getTx sl (sol_newLazyTransaction v) \<lparr>so_node = node, so_provider = SolCached h\<rparr>) =
      obind (sl_NewTransaction sl [sol_instruction sl (sac_public a) v] h (sac_public a)) (sl_Sign sl [sac_public a \<mapsto> sac_private a])" for node h
    using v(1,3) key assms(6) keep
    by (cases req) (auto simp: sol_lazy_getTx_def sol_newLazyTransaction_def sol_transfer_getTx_def sol_invoke_getTx_def sol_make_def
        sol_getParams_def sol_unsigned_getTx_def gbind_def glift_run gret_run obind_def split: outcome.splits)
  show "\<exists>v. sol_request_tx host b1 (transfer_number b pre) req = Ok v \<and>
      sol_DecodePayload sl payload = Ok (sol_newLazyTransaction v) \<and>
      (\<forall>node h. fst (sol_lazy_getTx sl (sol_newLazyTransaction v) \<lparr>so_node = node, so_provider = SolCached h\<rparr>) =
        obind (sl_NewTransaction sl [sol_instruction sl (sac_public a) v] h (sac_public a))
          (sl_Sign sl [sac_public a \<mapsto> sac_private a]))"
    using v(1,2) sign by blast
qed (use sol_transfer_differs [OF assms(1,3,4)] in blast)

text \<open>A library whose public key is the first byte of a private key, and whose transactions show what they were made of.\<close>

definition sol_demo_sdk :: "(byte, nat, 64 word \<times> byte \<times> byte, unit, (64 word \<times> byte \<times> byte) list \<times> nat \<times> byte list option, nat, unit, nat) sol_sdk" where
  "sol_demo_sdk = \<lparr>sl_PublicKey = (\<lambda>key. Ok (hd key)), sl_PublicKeyFromBytes = hd, sl_Bytes = (\<lambda>k. k # replicate 31 0),
     sl_SysVarClock = 0, sl_ZeroKey = 0, sl_NewTransferInstruction = (\<lambda>amount from to. (amount, from, to)),
     sl_NewCreateAccountInstruction = (\<lambda>lamports space owner from new. (lamports, from, new)),
     sl_NewInstruction = (\<lambda>program accounts data. (0, program, hd data)),
     sl_NewTransaction = (\<lambda>instructions h payer. Ok (instructions, h, None)), sl_NewTransactionBuilder = (\<lambda>_. ()),
     sl_Build = (\<lambda>h _. Ok ([], h, None)), sl_Deploy = (\<lambda>_ _ _ _. Ok ((), [], ())),
     sl_Sign = (\<lambda>find (instructions, h, _). Ok (instructions, h, find (fst (snd (hd instructions))))),
     sl_Signatures = (\<lambda>_. [0]), sl_PackConstructor = (\<lambda>_. Ok []), sl_Keccak256 = (\<lambda>_. replicate 32 0),
     sl_LatestBlockhash = gread (\<lambda>n. n), sl_SendTransaction = (\<lambda>_. gret 0), sl_Statuses = (\<lambda>_. gret (SolFinalized True)),
     sl_RentExemption = (\<lambda>_. gret 1), sl_NewWallet = gret [7]\<rparr>"

definition sol_demo_builder :: "(byte, unit, unit, nat) sol_builder" where
  "sol_demo_builder = (sol_newBuilder 0)\<lparr>sb_premadeAccounts :=
     [\<lparr>sac_private = [5, 5], sac_public = 5\<rparr>, \<lparr>sac_private = [6, 6], sac_public = 6\<rparr>]\<rparr>"

lemma sol_EncodeTransfer_run:
  assumes "length (sac_private (sb_premadeAccounts b ! f)) \<le> 255"
  shows "sol_EncodeTransfer sl 1 (GRes (ROpaque (SAccount f))) (GRes (ROpaque (SAccount t))) info b =
    (Ok (sol_transfer_bytes sl \<lparr>st_amount = word_of_int (sol_amount b f t) + 1, st_from = sac_private (sb_premadeAccounts b ! f),
      st_to = sac_public (sb_premadeAccounts b ! t)\<rparr>), sol_count_transfer f t b)"
proof -
  have "sb_premadeAccounts (sol_count_transfer f t b) = sb_premadeAccounts b" by (simp add: sol_count_transfer_def Let_def)
  with assms show ?thesis
    by (simp add: sol_EncodeTransfer_def gbind_def glift_run gmodify_run gread_run sol_amount_count to_buffer_def obind_def
        sol_encode_transfer_buffer)
qed

theorem sol_transactions_as_asked_witness:
  "\<exists>host info payloads b1 payload b2 lt.
     gmap (sol_encode_request sol_demo_sdk host info) [SReqTransfer 1 0 1] sol_demo_builder = (Ok payloads, b1) \<and>
     sol_encode_request sol_demo_sdk host info (SReqTransfer 1 0 1) b1 = (Ok payload, b2) \<and>
     payloads ! 0 \<noteq> payload \<and> sol_DecodePayload sol_demo_sdk payload = Ok lt \<and>
     fst (sol_lazy_getTx sol_demo_sdk lt \<lparr>so_node = 0, so_provider = SolCached 3\<rparr>) = Ok ([(2, 5, 6)], 3, Some [5, 5])"
proof -
  fix host :: "(unit, unit) sol_host" and info :: interactionInformation
  let ?b1 = "sol_count_transfer 0 1 sol_demo_builder" and ?req = "SReqTransfer 1 0 1"
  let ?encode = "sol_encode_request sol_demo_sdk host info"
  have accounts: "sb_premadeAccounts sol_demo_builder = [\<lparr>sac_private = [5, 5], sac_public = 5\<rparr>, \<lparr>sac_private = [6, 6], sac_public = 6\<rparr>]"
    "sb_premadeAccounts ?b1 = sb_premadeAccounts sol_demo_builder" "sol_amount sol_demo_builder 0 1 = 0"
    by (simp_all add: sol_demo_builder_def sol_newBuilder_def sol_count_transfer_def Let_def sol_amount_def)
  obtain payload0 where pre: "gmap ?encode [?req] sol_demo_builder = (Ok [payload0], ?b1)"
    by (simp add: sol_EncodeTransfer_run accounts gbind_def gret_run del: One_nat_def)
  obtain payload where req: "?encode ?req ?b1 = (Ok payload, sol_count_transfer 0 1 ?b1)"
    by (simp add: sol_EncodeTransfer_run accounts del: One_nat_def)
  have ok: "sol_ok sol_demo_sdk" "sol_accounts_ok sol_demo_sdk sol_demo_builder"
    by (simp_all add: sol_ok_def sol_demo_sdk_def PublicKeyLength_def sol_accounts_ok_def accounts)
  have number: "transfer_number sol_demo_builder [?req] 0 1 = 2" by (simp add: transfer_number_def accounts del: One_nat_def)
  note asked = sol_transactions_as_asked [OF ok pre req, of "sb_premadeAccounts sol_demo_builder ! 0"]
  from asked obtain v where v: "sol_request_tx host ?b1 (transfer_number sol_demo_builder [?req]) ?req = Ok v"
    "sol_DecodePayload sol_demo_sdk payload = Ok (sol_newLazyTransaction v)"
    "fst (sol_lazy_getTx sol_demo_sdk (sol_newLazyTransaction v) \<lparr>so_node = 0, so_provider = SolCached 3\<rparr>) =
      obind (sl_NewTransaction sol_demo_sdk [sol_instruction sol_demo_sdk 5 v] 3 5) (sl_Sign sol_demo_sdk [5 \<mapsto> [5, 5]])"
    by (auto simp: accounts del: One_nat_def)
  from asked have "[payload0] ! 0 \<noteq> payload" by (auto simp: accounts del: One_nat_def)
  moreover have "obind (sl_NewTransaction sol_demo_sdk [sol_instruction sol_demo_sdk 5 v] 3 5) (sl_Sign sol_demo_sdk [5 \<mapsto> [5, 5]]) =
      Ok ([(2, 5, 6)], 3, Some [5, 5])"
    using v(1) number accounts(1) [folded accounts(2)] by (auto simp: sol_demo_sdk_def obind_def)
  ultimately show ?thesis using pre req v(2,3) by metis
qed

text \<open>Two calls with the same arguments, on the other hand, are encoded alike: over one block hash they are one transaction.\<close>

lemma sol_calls_collide:
  assumes "sol_encode_request sl host info (SReqInvoke f c fn) b = (Ok payload, b1)"
    and "sol_encode_request sl host info (SReqInvoke f c fn') b1 = (Ok payload', b2)"
    and "fst (sb_arguments host (sct_appli c) fn b) = fst (sb_arguments host (sct_appli c) fn' b1)"
  shows "payload' = payload"
proof -
  let ?tx = "\<lambda>b args. \<lparr>si_amount = 0, si_from = sac_private (sb_premadeAccounts b ! f), si_program = sac_public (sct_program c),
       si_storage = sac_public (sct_storage c), si_payload = args\<rparr>"
  obtain args where one: "sb_arguments host (sct_appli c) fn b = (Ok args, b1)" "payload = sol_invoke_bytes sl (?tx b args)"
    using sol_EncodeInvoke_Ok [OF assms(1) [unfolded sol_encode_request.simps]] by metis
  obtain args' where two: "sb_arguments host (sct_appli c) fn' b1 = (Ok args', b2)" "payload' = sol_invoke_bytes sl (?tx b1 args')"
    using sol_EncodeInvoke_Ok [OF assms(2) [unfolded sol_encode_request.simps]] by metis
  from assms(3) one two sb_arguments_frame [OF one(1)] show ?thesis by simp
qed

end
