(* ===== verification/Hot_Cache.thy ===== *)
theory Hot_Cache
  imports Go_Prelude
begin

text \<open>
  The command cache of the HotStuff driver (\<^verbatim>\<open>src/blockchains/nhotstuff/clientpb/cmdcache.go\<close>, with \<^verbatim>\<open>batch.go\<close>
  and \<^verbatim>\<open>messageid.go\<close>): commands are added by many goroutines and taken in batches by others, which wait for a signal
  that a batch may be ready. The goroutines interleave, so there is a step relation; what is under the
  lock is one step.
\<close>

section \<open>The cache\<close>

record Command =
  cmd_ClientID :: "32 word"
  cmd_SequenceNumber :: "64 word"
  cmd_Data :: "8 word list"

record MessageID =
  mid_ClientID :: "32 word"
  mid_SequenceNumber :: "64 word"

definition Command_ID :: "Command \<Rightarrow> MessageID" where
  "Command_ID cmd = \<lparr>mid_ClientID = cmd_ClientID cmd, mid_SequenceNumber = cmd_SequenceNumber cmd\<rparr>"

text \<open>The channel \<^verbatim>\<open>ready\<close> has room for one signal.\<close>

record CommandCache =
  cc_batchSize :: "32 word"
  cc_clientSeqNumbers :: "(32 word, 64 word) gomap"
  cc_cache :: "Command list"
  cc_ready :: bool

definition NewCommandCache :: "32 word \<Rightarrow> CommandCache" where
  "NewCommandCache batchSize = \<lparr>cc_batchSize = batchSize, cc_clientSeqNumbers = [], cc_cache = [], cc_ready = False\<rparr>"

definition isDuplicate :: "CommandCache \<Rightarrow> Command \<Rightarrow> bool" where
  "isDuplicate c cmd \<longleftrightarrow>
     cmd_SequenceNumber cmd \<le> (case gomap_get (cc_clientSeqNumbers c) (cmd_ClientID cmd) of Some n \<Rightarrow> n | None \<Rightarrow> 0)"

definition hasFullBatch :: "CommandCache \<Rightarrow> bool" where
  "hasFullBatch c \<longleftrightarrow> cc_batchSize c \<le> of_nat (length (cc_cache c))"

definition signalReady :: "CommandCache \<Rightarrow> CommandCache" where
  "signalReady c = c\<lparr>cc_ready := True\<rparr>"

definition Add :: "Command \<Rightarrow> CommandCache \<Rightarrow> CommandCache" where
  "Add cmd c =
     (if isDuplicate c cmd then c
      else
        let c = c\<lparr>cc_cache := cc_cache c @ [cmd]\<rparr> in
        if hasFullBatch c then signalReady c else c)"

definition batch_isFull :: "Command list \<Rightarrow> 32 word \<Rightarrow> bool" where
  "batch_isFull batch batchSize \<longleftrightarrow> of_nat (length batch) = batchSize"

text \<open>The loop goes through the commands \<open>rest\<close> of the cache that it has not examined yet.\<close>

fun extract_loop :: "CommandCache \<Rightarrow> Command list \<Rightarrow> Command list \<Rightarrow> Command list \<times> Command list" where
  "extract_loop c batch [] = (batch, [])"
| "extract_loop c batch (cmd # rest) =
     (if batch_isFull batch (cc_batchSize c) then (batch, cmd # rest)
      else if isDuplicate c cmd then extract_loop c batch rest
      else extract_loop c (batch @ [cmd]) rest)"

definition tryExtractBatch :: "CommandCache \<Rightarrow> Command list option \<times> CommandCache" where
  "tryExtractBatch c =
     (case extract_loop c [] (cc_cache c) of
        (batch, rest) \<Rightarrow>
          if batch_isFull batch (cc_batchSize c) then (Some batch, c\<lparr>cc_cache := rest\<rparr>) else (None, c))"

definition propose_one :: "Command \<Rightarrow> CommandCache \<Rightarrow> CommandCache" where
  "propose_one cmd c =
     (if isDuplicate c cmd then c
      else c\<lparr>cc_clientSeqNumbers := gomap_set (cmd_ClientID cmd) (cmd_SequenceNumber cmd) (cc_clientSeqNumbers c)\<rparr>)"

definition Proposed :: "Command list \<Rightarrow> CommandCache \<Rightarrow> CommandCache" where
  "Proposed batch c = fold propose_one batch c"

text \<open>
  The part of \<^verbatim>\<open>Get\<close> after it has received a signal: without a full batch it goes back to waiting.
\<close>

definition get_locked :: "CommandCache \<Rightarrow> Command list option \<times> CommandCache" where
  "get_locked c =
     (if \<not> hasFullBatch c then (None, c)
      else
        (case tryExtractBatch c of
           (Some batch, c') \<Rightarrow> (Some batch, if hasFullBatch c' then signalReady c' else c')
         | (None, c') \<Rightarrow> (None, c')))"

section \<open>The goroutines\<close>

datatype get_phase = GetWaiting | GetSignalled | GetReturned "Command list" | GetCancelled

text \<open>
  The calls of \<^verbatim>\<open>Get\<close> are numbered. \<open>cs_accepted\<close>, \<open>cs_batches\<close> and \<open>cs_proposed\<close> record the commands that
  were put into the cache, the batches that were returned and the commands that were given to \<^verbatim>\<open>Proposed\<close>, in order.
\<close>

record cache_state =
  cs_cache :: CommandCache
  cs_gets :: "nat \<Rightarrow> get_phase"
  cs_accepted :: "Command list"
  cs_batches :: "Command list list"
  cs_proposed :: "Command list"

definition cache_start :: "32 word \<Rightarrow> cache_state" where
  "cache_start batchSize = \<lparr>cs_cache = NewCommandCache batchSize, cs_gets = (\<lambda>_. GetWaiting), cs_accepted = [],
     cs_batches = [], cs_proposed = []\<rparr>"

definition run_Add :: "Command \<Rightarrow> cache_state \<Rightarrow> cache_state" where
  "run_Add cmd s = s\<lparr>cs_cache := Add cmd (cs_cache s),
     cs_accepted := cs_accepted s @ (if isDuplicate (cs_cache s) cmd then [] else [cmd])\<rparr>"

definition run_Get :: "nat \<Rightarrow> cache_state \<Rightarrow> cache_state" where
  "run_Get i s =
     (case get_locked (cs_cache s) of
        (Some batch, c) \<Rightarrow> s\<lparr>cs_cache := c, cs_gets := (cs_gets s)(i := GetReturned batch), cs_batches := cs_batches s @ [batch]\<rparr>
      | (None, c) \<Rightarrow> s\<lparr>cs_cache := c, cs_gets := (cs_gets s)(i := GetWaiting)\<rparr>)"

text \<open>
  A step: an \<^verbatim>\<open>Add\<close>, a \<^verbatim>\<open>Proposed\<close>, or a call of \<^verbatim>\<open>Get\<close> that takes the signal, that then runs under the lock,
  or whose context is done while it waits. A cache holds fewer than \<open>2 ^ 32\<close> commands.
\<close>

inductive cache_step :: "cache_state \<Rightarrow> cache_state \<Rightarrow> bool" where
  add: "length (cc_cache (cs_cache s)) < 2 ^ 32 - 1 \<Longrightarrow> cache_step s (run_Add cmd s)"
| proposed: "cache_step s (s\<lparr>cs_cache := Proposed batch (cs_cache s), cs_proposed := cs_proposed s @ batch\<rparr>)"
| signalled: "cs_gets s i = GetWaiting \<Longrightarrow> cc_ready (cs_cache s) \<Longrightarrow>
    cache_step s (s\<lparr>cs_cache := (cs_cache s)\<lparr>cc_ready := False\<rparr>, cs_gets := (cs_gets s)(i := GetSignalled)\<rparr>)"
| get: "cs_gets s i = GetSignalled \<Longrightarrow> cache_step s (run_Get i s)"
| cancelled: "cs_gets s i = GetWaiting \<Longrightarrow> cache_step s (s\<lparr>cs_gets := (cs_gets s)(i := GetCancelled)\<rparr>)"

inductive cache_run :: "cache_state \<Rightarrow> cache_state \<Rightarrow> bool" where
  refl: "cache_run s s"
| step: "cache_run s t \<Longrightarrow> cache_step t u \<Longrightarrow> cache_run s u"

section \<open>Extraction\<close>

text \<open>The commands that are not duplicates, the oldest first: a batch is the first \<open>batchSize\<close> of them.\<close>

definition fresh :: "CommandCache \<Rightarrow> Command list" where
  "fresh c = filter (\<lambda>cmd. \<not> isDuplicate c cmd) (cc_cache c)"

lemma of_nat_eq_iff_unat: "n \<le> unat w \<Longrightarrow> of_nat n = w \<longleftrightarrow> n = unat w" for w :: "'a::len word"
proof -
  assume "n \<le> unat w"
  then have "n < 2 ^ LENGTH('a)" using unat_bound [of w] by (rule le_less_trans)
  then have "unat (of_nat n :: 'a word) = n" by (simp add: unat_of_nat take_bit_nat_eq_self)
  then show "of_nat n = w \<longleftrightarrow> n = unat w" by auto
qed

lemma extract_loop_spec:
  assumes "extract_loop c batch cmds = (b, rest)" and "length batch \<le> unat (cc_batchSize c)"
  shows "\<exists>seen. cmds = seen @ rest \<and> b = batch @ filter (\<lambda>cmd. \<not> isDuplicate c cmd) seen \<and>
    length b \<le> unat (cc_batchSize c) \<and> (length b < unat (cc_batchSize c) \<longrightarrow> rest = [])"
  using assms
proof (induction c batch cmds rule: extract_loop.induct)
  case (2 c batch cmd cmds)
  have full: "batch_isFull batch (cc_batchSize c) \<longleftrightarrow> length batch = unat (cc_batchSize c)"
    using 2(4) by (simp add: batch_isFull_def of_nat_eq_iff_unat)
  show ?case
  proof (cases "batch_isFull batch (cc_batchSize c)")
    case True
    with 2(3,4) full show ?thesis by (intro exI [of _ "[]"]) auto
  next
    case False
    show ?thesis
    proof (cases "isDuplicate c cmd")
      case True
      with False 2(1) 2(3,4) obtain seen where "cmds = seen @ rest" "b = batch @ filter (\<lambda>cmd. \<not> isDuplicate c cmd) seen"
        "length b \<le> unat (cc_batchSize c)" "length b < unat (cc_batchSize c) \<longrightarrow> rest = []" by auto
      with True show ?thesis by (intro exI [of _ "cmd # seen"]) simp
    next
      case dup: False
      with False 2(2) 2(3,4) full obtain seen where "cmds = seen @ rest"
        "b = batch @ cmd # filter (\<lambda>cmd. \<not> isDuplicate c cmd) seen"
        "length b \<le> unat (cc_batchSize c)" "length b < unat (cc_batchSize c) \<longrightarrow> rest = []" by auto
      with dup show ?thesis by (intro exI [of _ "cmd # seen"]) simp
    qed
  qed
qed simp

text \<open>A batch can be taken exactly if there are enough fresh commands, and it is the oldest of them.\<close>

lemma tryExtractBatch_spec:
  "tryExtractBatch c = (r, c') \<Longrightarrow>
   (case r of
      None \<Rightarrow> c' = c \<and> length (fresh c) < unat (cc_batchSize c)
    | Some batch \<Rightarrow> length batch = unat (cc_batchSize c) \<and> list_all (\<lambda>cmd. \<not> isDuplicate c cmd) batch \<and>
        (\<exists>seen rest. cc_cache c = seen @ rest \<and> batch = filter (\<lambda>cmd. \<not> isDuplicate c cmd) seen \<and> c' = c\<lparr>cc_cache := rest\<rparr>))"
proof -
  assume run: "tryExtractBatch c = (r, c')"
  obtain b rest where loop: "extract_loop c [] (cc_cache c) = (b, rest)" by force
  from extract_loop_spec [OF this] obtain seen where seen: "cc_cache c = seen @ rest"
    "b = filter (\<lambda>cmd. \<not> isDuplicate c cmd) seen" "length b \<le> unat (cc_batchSize c)"
    "length b < unat (cc_batchSize c) \<longrightarrow> rest = []" by auto
  have full: "batch_isFull b (cc_batchSize c) \<longleftrightarrow> length b = unat (cc_batchSize c)"
    using seen(3) by (simp add: batch_isFull_def of_nat_eq_iff_unat)
  show ?thesis
  proof (cases "batch_isFull b (cc_batchSize c)")
    case True
    then have "r = Some b" "c' = c\<lparr>cc_cache := rest\<rparr>" using run loop by (simp_all add: tryExtractBatch_def)
    with True full seen show ?thesis by (auto simp: list_all_iff)
  next
    case False
    then have "r = None" "c' = c" using run loop by (simp_all add: tryExtractBatch_def)
    moreover have "rest = []" "length b < unat (cc_batchSize c)" using False full seen(3,4) by auto
    ultimately show ?thesis using seen(1,2) by (simp add: fresh_def)
  qed
qed

lemma hasFullBatch_unat: "length (cc_cache c) < 2 ^ 32 \<Longrightarrow> hasFullBatch c \<longleftrightarrow> unat (cc_batchSize c) \<le> length (cc_cache c)"
  by (simp add: hasFullBatch_def word_le_nat_alt unat_of_nat take_bit_nat_eq_self)

lemma fresh_le: "length (fresh c) \<le> length (cc_cache c)"
  by (simp add: fresh_def)

text \<open>Marking commands as proposed leaves fewer fresh commands, and no sequence number goes down.\<close>

lemma propose_one_duplicate: "isDuplicate c cmd \<Longrightarrow> isDuplicate (propose_one p c) cmd"
  by (auto simp: isDuplicate_def propose_one_def split: option.splits)

lemma Proposed_spec:
  "cc_cache (Proposed batch c) = cc_cache c" "cc_batchSize (Proposed batch c) = cc_batchSize c"
  "cc_ready (Proposed batch c) = cc_ready c"
  "isDuplicate c cmd \<Longrightarrow> isDuplicate (Proposed batch c) cmd"
proof -
  show "cc_cache (Proposed batch c) = cc_cache c" "cc_batchSize (Proposed batch c) = cc_batchSize c"
    "cc_ready (Proposed batch c) = cc_ready c"
    unfolding Proposed_def by (induction batch arbitrary: c) (simp_all add: propose_one_def)
  show "isDuplicate c cmd \<Longrightarrow> isDuplicate (Proposed batch c) cmd"
    unfolding Proposed_def by (induction batch arbitrary: c) (auto intro: propose_one_duplicate)
qed

lemma Proposed_fresh: "length (fresh (Proposed batch c)) \<le> length (fresh c)"
proof -
  have "fresh (Proposed batch c) = filter (\<lambda>cmd. \<not> isDuplicate (Proposed batch c) cmd) (fresh c)"
    using Proposed_spec(4) by (auto simp: fresh_def Proposed_spec(1) intro!: filter_cong)
  then show ?thesis by simp
qed

text \<open>
  A command is a duplicate after \<^verbatim>\<open>Proposed\<close> exactly if it was one before or the batch has a command of
  the same client with a sequence number that is not smaller.
\<close>

definition outdated :: "Command list \<Rightarrow> Command \<Rightarrow> bool" where
  "outdated ps cmd \<longleftrightarrow> (\<exists>p \<in> set ps. cmd_ClientID p = cmd_ClientID cmd \<and> cmd_SequenceNumber cmd \<le> cmd_SequenceNumber p)"

lemma propose_one_iff: "isDuplicate (propose_one p c) cmd \<longleftrightarrow> isDuplicate c cmd \<or> outdated [p] cmd"
  by (auto simp: isDuplicate_def propose_one_def outdated_def split: option.splits)

lemma Proposed_iff: "isDuplicate (Proposed batch c) cmd \<longleftrightarrow> isDuplicate c cmd \<or> outdated batch cmd"
proof (induction batch arbitrary: c)
  case (Cons p batch)
  then have "isDuplicate (Proposed (p # batch) c) cmd \<longleftrightarrow> isDuplicate (propose_one p c) cmd \<or> outdated batch cmd"
    by (simp add: Proposed_def)
  then show ?case unfolding propose_one_iff by (auto simp: outdated_def)
qed (simp add: Proposed_def outdated_def)

section \<open>The invariant\<close>

definition cache_inv :: "cache_state \<Rightarrow> bool" where
  "cache_inv s \<longleftrightarrow> length (cc_cache (cs_cache s)) < 2 ^ 32 \<and>
     (\<exists>taken. cs_accepted s = taken @ cc_cache (cs_cache s) \<and> subseq (concat (cs_batches s)) taken) \<and>
     (\<forall>batch \<in> set (cs_batches s). length batch = unat (cc_batchSize (cs_cache s))) \<and>
     (unat (cc_batchSize (cs_cache s)) \<le> length (fresh (cs_cache s)) \<and> cc_batchSize (cs_cache s) \<noteq> 0 \<longrightarrow>
        cc_ready (cs_cache s) \<or> (\<exists>i. cs_gets s i = GetSignalled))"

text \<open>Taking a batch keeps the accepted commands in order, and signals whoever waits for the next.\<close>

lemma get_locked_spec:
  assumes "get_locked c = (r, c')" and "length (cc_cache c) < 2 ^ 32"
  shows "cc_batchSize c' = cc_batchSize c \<and> length (cc_cache c') \<le> length (cc_cache c) \<and>
    (unat (cc_batchSize c) \<le> length (fresh c') \<longrightarrow> r \<noteq> None \<and> cc_ready c') \<and>
    (case r of
       None \<Rightarrow> c' = c
     | Some batch \<Rightarrow> length batch = unat (cc_batchSize c) \<and> list_all (\<lambda>cmd. \<not> isDuplicate c cmd) batch \<and>
         (\<exists>seen. cc_cache c = seen @ cc_cache c' \<and> subseq batch seen))"
proof (cases "hasFullBatch c")
  case False
  with assms have "r = None" "c' = c" by (simp_all add: get_locked_def)
  moreover have "length (fresh c) < unat (cc_batchSize c)"
    using False assms(2) fresh_le [of c] by (simp add: hasFullBatch_unat)
  ultimately show ?thesis by simp
next
  case True
  obtain r1 c1 where run: "tryExtractBatch c = (r1, c1)" by force
  note spec = tryExtractBatch_spec [OF run]
  show ?thesis
  proof (cases r1)
    case None
    with run True assms(1) spec show ?thesis by (simp add: get_locked_def)
  next
    case (Some batch)
    from spec [unfolded Some option.case] obtain seen rest where seen: "cc_cache c = seen @ rest"
      "batch = filter (\<lambda>cmd. \<not> isDuplicate c cmd) seen" "c1 = c\<lparr>cc_cache := rest\<rparr>"
      "length batch = unat (cc_batchSize c)" "list_all (\<lambda>cmd. \<not> isDuplicate c cmd) batch" by auto
    have r: "r = Some batch" "c' = (if hasFullBatch c1 then signalReady c1 else c1)"
      using assms(1) run True Some by (simp_all add: get_locked_def)
    have c': "cc_cache c' = rest" "cc_batchSize c' = cc_batchSize c" "fresh c' = fresh c1"
      using r(2) seen(3) by (auto simp: signalReady_def fresh_def isDuplicate_def)
    have "cc_ready c'" if "unat (cc_batchSize c) \<le> length (fresh c')"
    proof -
      have "hasFullBatch c1"
        using that fresh_le [of c1] assms(2) by (simp add: c'(3) hasFullBatch_unat seen(1,3))
      then show ?thesis by (simp add: r(2) signalReady_def)
    qed
    with r(1) c' seen show ?thesis by auto
  qed
qed

lemma cache_inv_start: "cache_inv (cache_start n)"
  by (simp add: cache_inv_def cache_start_def NewCommandCache_def fresh_def unat_eq_zero)

lemma cache_inv_step: "cache_step s t \<Longrightarrow> cache_inv s \<Longrightarrow> cache_inv t"
proof (induction rule: cache_step.induct)
  case (add s cmd)
  show ?case
  proof (cases "isDuplicate (cs_cache s) cmd")
    case True
    with add show ?thesis by (simp add: run_Add_def Add_def cache_inv_def)
  next
    case False
    let ?c = "(cs_cache s)\<lparr>cc_cache := cc_cache (cs_cache s) @ [cmd]\<rparr>"
    have c: "Add cmd (cs_cache s) = (if hasFullBatch ?c then signalReady ?c else ?c)"
      using False by (simp add: Add_def Let_def)
    have "unat (cc_batchSize ?c) \<le> length (fresh ?c) \<Longrightarrow> hasFullBatch ?c"
      using fresh_le [of ?c] add.hyps by (subst hasFullBatch_unat) auto
    with add show ?thesis
      unfolding cache_inv_def run_Add_def c using False
      by (auto simp: signalReady_def fresh_def isDuplicate_def)
  qed
next
  case (proposed s batch)
  then show ?case
    using Proposed_fresh [of batch "cs_cache s"] by (auto simp: cache_inv_def Proposed_spec(1-3))
next
  case (signalled s i)
  then show ?case by (auto simp: cache_inv_def fresh_def isDuplicate_def)
next
  case (get s i)
  obtain r c where run: "get_locked (cs_cache s) = (r, c)" by force
  have len: "length (cc_cache (cs_cache s)) < 2 ^ 32" using get.prems by (simp add: cache_inv_def)
  note spec = get_locked_spec [OF run len]
  show ?case
  proof (cases r)
    case None
    with spec get.prems show ?thesis by (auto simp: cache_inv_def run_Get_def run)
  next
    case (Some batch)
    from get.prems obtain taken where taken: "cs_accepted s = taken @ cc_cache (cs_cache s)"
      "subseq (concat (cs_batches s)) taken" by (auto simp: cache_inv_def)
    from spec Some obtain seen where seen: "cc_cache (cs_cache s) = seen @ cc_cache c" "subseq batch seen" by auto
    have "cs_accepted s = (taken @ seen) @ cc_cache c" using taken(1) seen(1) by simp
    moreover have "subseq (concat (cs_batches s) @ batch) (taken @ seen)" using taken(2) seen(2) by (rule list_emb_append_mono)
    ultimately show ?thesis
      using spec get.prems Some len by (auto simp: cache_inv_def run_Get_def run simp del: append_assoc)
  qed
next
  case (cancelled s i)
  then have "((cs_gets s)(i := GetCancelled)) j = GetSignalled \<longleftrightarrow> cs_gets s j = GetSignalled" for j by simp
  with cancelled.prems show ?case unfolding cache_inv_def by (simp del: fun_upd_apply)
qed

lemma cache_inv_run: "cache_run s t \<Longrightarrow> cache_inv s \<Longrightarrow> cache_inv t"
  by (induction rule: cache_run.induct) (auto intro: cache_inv_step)

text \<open>What was proposed stays so, and the batches that follow have none of it.\<close>

definition follows :: "cache_state \<Rightarrow> cache_state \<Rightarrow> bool" where
  "follows s t \<longleftrightarrow> cc_batchSize (cs_cache t) = cc_batchSize (cs_cache s) \<and>
     (\<forall>cmd. isDuplicate (cs_cache s) cmd \<longrightarrow> isDuplicate (cs_cache t) cmd) \<and>
     (\<exists>batches. cs_batches t = cs_batches s @ batches \<and>
       (\<forall>cmd \<in> set (concat batches). \<not> isDuplicate (cs_cache s) cmd))"

lemma follows_step:
  assumes "cache_step s t" and "cache_inv s"
  shows "follows s t"
  using assms
proof (induction rule: cache_step.induct)
  case (get s i)
  obtain r c where run: "get_locked (cs_cache s) = (r, c)" by force
  have "cc_clientSeqNumbers c = cc_clientSeqNumbers (cs_cache s)"
    using run by (auto simp: get_locked_def tryExtractBatch_def signalReady_def split: if_splits prod.splits)
  with get.prems get_locked_spec [OF run] show ?case
    by (cases r) (auto simp: follows_def run_Get_def run cache_inv_def isDuplicate_def list_all_iff)
qed (auto simp: follows_def run_Add_def Add_def Let_def signalReady_def Proposed_spec, auto simp: isDuplicate_def)

lemma follows_trans: "follows s t \<Longrightarrow> follows t u \<Longrightarrow> follows s u"
  unfolding follows_def by (elim conjE exE) (intro conjI exI [of _ "_ @ _"], auto)

lemma follows_run: "cache_run s t \<Longrightarrow> cache_inv s \<Longrightarrow> follows s t"
proof (induction rule: cache_run.induct)
  case (refl s)
  show ?case by (simp add: follows_def)
next
  case (step s t u)
  then show ?case using cache_inv_run follows_step follows_trans by blast
qed

text \<open>The duplicates are the commands that are outdated by what was proposed so far, and those numbered zero.\<close>

definition proposed_inv :: "cache_state \<Rightarrow> bool" where
  "proposed_inv s \<longleftrightarrow>
     (\<forall>cmd. isDuplicate (cs_cache s) cmd \<longleftrightarrow> cmd_SequenceNumber cmd = 0 \<or> outdated (cs_proposed s) cmd)"

lemma proposed_inv_step: "cache_step s t \<Longrightarrow> proposed_inv s \<Longrightarrow> proposed_inv t"
proof (induction rule: cache_step.induct)
  case (proposed s batch)
  then show ?case by (auto simp: proposed_inv_def Proposed_iff outdated_def)
next
  case (get s i)
  obtain r c where run: "get_locked (cs_cache s) = (r, c)" by force
  have "cc_clientSeqNumbers c = cc_clientSeqNumbers (cs_cache s)"
    using run by (auto simp: get_locked_def tryExtractBatch_def signalReady_def split: if_splits prod.splits)
  with get.prems show ?case by (cases r) (simp_all add: proposed_inv_def run_Get_def run isDuplicate_def)
qed (simp_all add: proposed_inv_def run_Add_def Add_def Let_def signalReady_def isDuplicate_def)

lemma proposed_inv_run: "cache_run s t \<Longrightarrow> proposed_inv s \<Longrightarrow> proposed_inv t"
  by (induction rule: cache_run.induct) (auto intro: proposed_inv_step)

lemma proposed_inv_start: "proposed_inv (cache_start n)"
  by (simp add: proposed_inv_def cache_start_def NewCommandCache_def isDuplicate_def outdated_def)

section \<open>Properties\<close>

text \<open>
  C24: In every interleaving of calls of \<^verbatim>\<open>Add\<close>, \<^verbatim>\<open>Get\<close> and \<^verbatim>\<open>Proposed\<close>, the batches that \<^verbatim>\<open>Get\<close> returns have exactly the
  configured size, and put together they are a subsequence of the accepted commands in the order of their
  acceptance, each taken at most once. At any time of the run a command is too old exactly if its number is zero or a
  command of the same client with that number or a higher one was given to \<^verbatim>\<open>Proposed\<close>, and no batch that is returned after
  that time contains such a command.
\<close>

theorem cache_batches_sound:
  assumes "cache_run (cache_start n) s" and "cache_run s t"
  shows "subseq (concat (cs_batches t)) (cs_accepted t) \<and> (\<forall>batch \<in> set (cs_batches t). length batch = unat n) \<and>
    (\<forall>cmd. isDuplicate (cs_cache s) cmd \<longleftrightarrow> cmd_SequenceNumber cmd = 0 \<or>
       (\<exists>p \<in> set (cs_proposed s). cmd_ClientID p = cmd_ClientID cmd \<and> cmd_SequenceNumber cmd \<le> cmd_SequenceNumber p)) \<and>
    (\<exists>batches. cs_batches t = cs_batches s @ batches \<and> (\<forall>cmd \<in> set (concat batches). \<not> isDuplicate (cs_cache s) cmd))"
proof -
  have inv: "cache_inv s" by (rule cache_inv_run [OF assms(1) cache_inv_start])
  have "follows (cache_start n) s" "follows s t"
    using follows_run [OF assms(1) cache_inv_start] follows_run [OF assms(2) inv] by simp_all
  moreover have "cache_inv t" by (rule cache_inv_run [OF assms(2) inv])
  moreover have "proposed_inv s" by (rule proposed_inv_run [OF assms(1) proposed_inv_start])
  ultimately show ?thesis
    by (auto simp: follows_def cache_inv_def cache_start_def NewCommandCache_def proposed_inv_def outdated_def)
qed

definition demo_command :: "64 word \<Rightarrow> Command" where
  "demo_command n = \<lparr>cmd_ClientID = 7, cmd_SequenceNumber = n, cmd_Data = []\<rparr>"

definition demo_filled :: cache_state where
  "demo_filled = run_Add (demo_command 2) (run_Add (demo_command 1) (cache_start 2))"

lemma demo_filled_run: "cache_run (cache_start 2) demo_filled"
proof -
  have "cache_run (cache_start 2) (run_Add (demo_command 1) (cache_start 2))"
    by (rule cache_run.step [OF cache_run.refl], rule cache_step.add) (simp add: cache_start_def NewCommandCache_def)
  then show ?thesis
    unfolding demo_filled_def by (rule cache_run.step, intro cache_step.add) (simp add: cache_start_def NewCommandCache_def run_Add_def Add_def isDuplicate_def
      demo_command_def hasFullBatch_def Let_def signalReady_def)
qed

text \<open>
  A longer run: the two commands are taken as a batch and proposed, the second is added again and refused, two more
  are added, and a second call takes them.
\<close>

definition take_signal :: "nat \<Rightarrow> cache_state \<Rightarrow> cache_state" where
  "take_signal i s = s\<lparr>cs_cache := (cs_cache s)\<lparr>cc_ready := False\<rparr>, cs_gets := (cs_gets s)(i := GetSignalled)\<rparr>"

definition demo_taken :: cache_state where
  "demo_taken = run_Get 0 (take_signal 0 demo_filled)"

definition demo_proposed :: cache_state where
  "demo_proposed = demo_taken\<lparr>cs_cache := Proposed [demo_command 1, demo_command 2] (cs_cache demo_taken),
     cs_proposed := cs_proposed demo_taken @ [demo_command 1, demo_command 2]\<rparr>"

definition demo_refilled :: cache_state where
  "demo_refilled = run_Add (demo_command 4) (run_Add (demo_command 3) (run_Add (demo_command 2) demo_proposed))"

definition demo_end :: cache_state where
  "demo_end = run_Get 1 (take_signal 1 demo_refilled)"

lemmas demo_cache_defs = cache_start_def NewCommandCache_def run_Add_def Add_def isDuplicate_def demo_command_def
  hasFullBatch_def Let_def signalReady_def take_signal_def run_Get_def get_locked_def tryExtractBatch_def batch_isFull_def

lemma demo_filled_eq:
  "demo_filled = \<lparr>cs_cache = \<lparr>cc_batchSize = 2, cc_clientSeqNumbers = [], cc_cache = [demo_command 1, demo_command 2],
     cc_ready = True\<rparr>, cs_gets = (\<lambda>_. GetWaiting), cs_accepted = [demo_command 1, demo_command 2], cs_batches = [], cs_proposed = []\<rparr>"
  by (simp add: demo_filled_def demo_cache_defs)

lemma demo_proposed_eq:
  "demo_proposed = \<lparr>cs_cache = \<lparr>cc_batchSize = 2, cc_clientSeqNumbers = [(7, 2)], cc_cache = [], cc_ready = False\<rparr>,
     cs_gets = (\<lambda>_. GetWaiting)(0 := GetReturned [demo_command 1, demo_command 2]),
     cs_accepted = [demo_command 1, demo_command 2], cs_batches = [[demo_command 1, demo_command 2]],
     cs_proposed = [demo_command 1, demo_command 2]\<rparr>"
  by (simp add: demo_proposed_def demo_taken_def demo_filled_eq demo_cache_defs Proposed_def propose_one_def gomap_set_def
      word_le_nat_alt)

lemma demo_refilled_eq:
  "demo_refilled = demo_proposed\<lparr>cs_cache := (cs_cache demo_proposed)\<lparr>cc_cache := [demo_command 3, demo_command 4], cc_ready := True\<rparr>,
     cs_accepted := cs_accepted demo_proposed @ [demo_command 3, demo_command 4]\<rparr>"
  by (simp add: demo_refilled_def demo_proposed_eq demo_cache_defs word_le_nat_alt)

lemma demo_cache_runs: "cache_run (cache_start 2) demo_proposed" "cache_run demo_proposed demo_end"
proof -
  have "cache_step demo_filled (take_signal 0 demo_filled)"
    unfolding take_signal_def by (rule cache_step.signalled) (simp_all add: demo_filled_eq)
  moreover have "cache_step (take_signal 0 demo_filled) demo_taken"
    unfolding demo_taken_def by (rule cache_step.get) (simp add: take_signal_def)
  moreover have "cache_step demo_taken demo_proposed" unfolding demo_proposed_def by (rule cache_step.proposed)
  ultimately show "cache_run (cache_start 2) demo_proposed"
    by (intro cache_run.step [OF cache_run.step [OF cache_run.step [OF demo_filled_run]]])
  have "cache_step demo_proposed (run_Add (demo_command 2) demo_proposed)"
    by (rule cache_step.add) (simp add: demo_proposed_eq)
  moreover have "cache_step (run_Add (demo_command 2) demo_proposed) (run_Add (demo_command 3) (run_Add (demo_command 2) demo_proposed))"
    by (rule cache_step.add) (simp add: demo_proposed_eq demo_cache_defs)
  moreover have "cache_step (run_Add (demo_command 3) (run_Add (demo_command 2) demo_proposed)) demo_refilled"
    unfolding demo_refilled_def by (rule cache_step.add) (simp add: demo_proposed_eq demo_cache_defs)
  moreover have "cache_step demo_refilled (take_signal 1 demo_refilled)"
    unfolding take_signal_def by (rule cache_step.signalled) (simp_all add: demo_refilled_eq demo_proposed_eq)
  moreover have "cache_step (take_signal 1 demo_refilled) demo_end"
    unfolding demo_end_def by (rule cache_step.get) (simp add: take_signal_def)
  ultimately show "cache_run demo_proposed demo_end"
    by (intro cache_run.step [OF cache_run.step [OF cache_run.step [OF cache_run.step [OF cache_run.step [OF cache_run.refl]]]]])
qed

theorem cache_batches_sound_witness:
  "cs_batches demo_end = [[demo_command 1, demo_command 2], [demo_command 3, demo_command 4]] \<and>
   isDuplicate (cs_cache demo_proposed) (demo_command 2) \<and>
   subseq [demo_command 1, demo_command 2, demo_command 3, demo_command 4] (cs_accepted demo_end) \<and>
   \<not> isDuplicate (cs_cache demo_proposed) (demo_command 3)"
proof -
  have batches: "cs_batches demo_end = [[demo_command 1, demo_command 2], [demo_command 3, demo_command 4]]"
    "cs_batches demo_proposed = [[demo_command 1, demo_command 2]]"
    by (simp_all add: demo_end_def demo_refilled_eq demo_proposed_eq demo_cache_defs)
  have "isDuplicate (cs_cache demo_proposed) (demo_command 2)"
    using cache_batches_sound [OF demo_cache_runs] by (simp add: demo_proposed_eq demo_command_def)
  moreover have "subseq [demo_command 1, demo_command 2, demo_command 3, demo_command 4] (cs_accepted demo_end)"
    "\<not> isDuplicate (cs_cache demo_proposed) (demo_command 3)"
    using cache_batches_sound [OF demo_cache_runs] unfolding batches by auto
  ultimately show ?thesis using batches by simp
qed

text \<open>The oldest fresh commands are the batch that a signalled call returns.\<close>

lemma run_Get_returns:
  assumes "cache_inv s" and "unat (cc_batchSize (cs_cache s)) \<le> length (fresh (cs_cache s))"
  shows "cs_gets (run_Get i s) i = GetReturned (take (unat (cc_batchSize (cs_cache s))) (fresh (cs_cache s)))"
proof -
  let ?c = "cs_cache s"
  obtain r c1 where run: "tryExtractBatch ?c = (r, c1)" by force
  note spec = tryExtractBatch_spec [OF run]
  with assms(2) obtain batch where r: "r = Some batch" by (cases r) auto
  from spec [unfolded r option.case] have "take (unat (cc_batchSize ?c)) (fresh ?c) = batch"
    by (auto simp: fresh_def)
  moreover have "hasFullBatch ?c"
    using assms fresh_le [of ?c] by (simp add: cache_inv_def hasFullBatch_unat)
  ultimately show ?thesis by (simp add: run_Get_def get_locked_def run r)
qed

text \<open>
  No wake-up is lost: whenever the cache has enough fresh commands for a batch and a call of \<^verbatim>\<open>Get\<close> is
  waiting, that call can return the oldest of them, unless another call already has the signal, which then can.
\<close>

theorem cache_get_can_return:
  assumes "cache_run (cache_start n) s" and "n \<noteq> 0" and "unat n \<le> length (fresh (cs_cache s))"
    and "cs_gets s i = GetWaiting"
  shows "\<exists>t j. cache_run s t \<and> (j = i \<or> cs_gets s j = GetSignalled) \<and>
    cs_gets t j = GetReturned (take (unat n) (fresh (cs_cache s)))"
proof -
  have inv: "cache_inv s" by (rule cache_inv_run [OF assms(1) cache_inv_start])
  have n: "cc_batchSize (cs_cache s) = n"
    using follows_run [OF assms(1) cache_inv_start] by (simp add: follows_def cache_start_def NewCommandCache_def)
  with inv assms(2,3) consider j where "cs_gets s j = GetSignalled" | "cc_ready (cs_cache s)"
    by (auto simp: cache_inv_def)
  then show ?thesis
  proof cases
    case (1 j)
    then have "cache_run s (run_Get j s)" by (intro cache_run.step [OF cache_run.refl] cache_step.get)
    with 1 run_Get_returns [OF inv, of j] assms(3) n show ?thesis by auto
  next
    case 2
    let ?s = "s\<lparr>cs_cache := (cs_cache s)\<lparr>cc_ready := False\<rparr>, cs_gets := (cs_gets s)(i := GetSignalled)\<rparr>"
    have step: "cache_step s ?s" using assms(4) 2 by (rule cache_step.signalled)
    have "cache_step ?s (run_Get i ?s)" by (rule cache_step.get) simp
    with step have "cache_run s (run_Get i ?s)" by (blast intro: cache_run.intros)
    moreover have "fresh (cs_cache ?s) = fresh (cs_cache s)" by (simp add: fresh_def isDuplicate_def)
    ultimately show ?thesis
      using run_Get_returns [OF cache_inv_step [OF step inv], of i] assms(3) n
      by (intro exI [of _ "run_Get i ?s"] exI [of _ i]) simp
  qed
qed

theorem cache_get_can_return_witness:
  "\<exists>t j. cache_run demo_filled t \<and> cs_gets t j = GetReturned [demo_command 1, demo_command 2]"
proof -
  have fresh: "fresh (cs_cache demo_filled) = [demo_command 1, demo_command 2]"
    by (simp add: demo_filled_def cache_start_def NewCommandCache_def run_Add_def Add_def isDuplicate_def demo_command_def
      hasFullBatch_def Let_def signalReady_def fresh_def)
  moreover have "cs_gets demo_filled 0 = GetWaiting"
    by (simp add: demo_filled_def cache_start_def run_Add_def)
  moreover have "unat (2 :: 32 word) = 2" by simp
  ultimately show ?thesis
    using cache_get_can_return [OF demo_filled_run, of 0] by fastforce
qed

end
