(* ===== verification/Hot_Client.thy ===== *)
theory Hot_Client
  imports Hot_Cache Core_Report Core_Frame "HOL-Library.Signed_Division" "HOL-Library.List_Lexorder" "HOL-Library.Char_ord"
begin

text \<open>
  The HotStuff driver (\<^verbatim>\<open>src/blockchains/nhotstuff\<close>: \<^verbatim>\<open>client.go\<close>, \<^verbatim>\<open>builder.go\<close> and \<^verbatim>\<open>interface.go\<close>). The client sends
  every command to all replicas that it does not believe dead and reports a commit when a quorum has answered. A failed call may name replicas
  that refuse connections; these are removed from the configuration.

  The \<^verbatim>\<open>gorums\<close> library is a parameter: \<open>NewConfiguration\<close> gives a configuration of the type \<open>'cfg\<close>, and a call
  on it ends with no error or with the text of one. Strings are taken to be ASCII. Log output is left out.
\<close>

section \<open>Quorums\<close>

definition numFaulty :: "int \<Rightarrow> int" where
  "numFaulty n = (n - 1) sdiv 3"

definition ExecCommandQF :: "int \<Rightarrow> nat set \<Rightarrow> bool" where
  "ExecCommandQF faulty signatures \<longleftrightarrow> \<not> int (card signatures) < faulty + 1"

section \<open>Regular expressions\<close>

text \<open>
  In both expressions every repeated class is followed by a character outside of it, so there is at most one way to
  match from a given position, and the classes can be taken greedily.
\<close>

definition is_space :: "char \<Rightarrow> bool" where
  "is_space c \<longleftrightarrow> (of_char c :: nat) \<in> {9, 10, 12, 13, 32}"

definition is_digit :: "char \<Rightarrow> bool" where
  "is_digit c \<longleftrightarrow> (48 :: nat) \<le> of_char c \<and> (of_char c :: nat) \<le> 57"

definition match_literal :: "string \<Rightarrow> string \<Rightarrow> string option" where
  "match_literal lit s = (if prefix lit s then Some (drop (length lit) s) else None)"

definition match_plus :: "(char \<Rightarrow> bool) \<Rightarrow> string \<Rightarrow> (string \<times> string) option" where
  "match_plus P s = (if takeWhile P s = [] then None else Some (takeWhile P s, dropWhile P s))"

text \<open>\<open>match_refused s\<close> is the submatch and the rest of the text if the expression \<^verbatim>\<open>unavailableEndpointRE\<close> matches at the start of \<open>s\<close>.\<close>

definition match_refused :: "string \<Rightarrow> (string \<times> string) option" where
  "match_refused s =
     Option.bind (match_literal ''dial tcp'' s) (\<lambda>s.
     Option.bind (match_plus is_space s) (\<lambda>(_, s).
     Option.bind (match_plus (\<lambda>c. c \<noteq> CHR '':'' \<and> \<not> is_space c) s) (\<lambda>(host, s).
     Option.bind (match_literal '':'' s) (\<lambda>s.
     Option.bind (match_plus is_digit s) (\<lambda>(port, s).
     Option.bind (match_literal '':'' s) (\<lambda>s.
     Option.bind (match_plus is_space s) (\<lambda>(_, s).
     Option.bind (match_literal ''connect:'' s) (\<lambda>s.
     Option.bind (match_plus is_space s) (\<lambda>(_, s).
     Option.bind (match_literal ''connection refused'' s) (\<lambda>s.
     Some (host @ '':'' @ port, s)))))))))))"

definition match_timeout :: "string \<Rightarrow> (string \<times> string) option" where
  "match_timeout s =
     Option.bind (match_literal ''context deadline exceeded (errors: '' s) (\<lambda>s.
     Option.bind (match_plus is_digit s) (\<lambda>(errors, s).
     Option.bind (match_literal '', replies: '' s) (\<lambda>s.
     Option.bind (match_plus is_digit s) (\<lambda>(replies, s).
     Option.bind (match_literal '')'' s) (\<lambda>_. Some (errors, replies))))))"

lemma match_literal_shorter: "match_literal lit s = Some s' \<Longrightarrow> length s' + length lit = length s"
  by (auto simp: match_literal_def prefix_def split: if_splits)

lemma match_plus_shorter: "match_plus P s = Some (x, s') \<Longrightarrow> length s' < length s"
proof -
  assume "match_plus P s = Some (x, s')"
  then have "s' = dropWhile P s" "takeWhile P s \<noteq> []" by (auto simp: match_plus_def split: if_splits)
  moreover have "length (takeWhile P s) + length (dropWhile P s) = length s"
    by (metis length_append takeWhile_dropWhile_id)
  ultimately show ?thesis by (metis add.commute length_greater_0_conv less_add_same_cancel1)
qed

lemma match_refused_shorter: "match_refused s = Some (ep, s') \<Longrightarrow> length s' < length s"
  by (auto simp: match_refused_def bind_eq_Some_conv split: prod.splits dest!: match_literal_shorter match_plus_shorter)

text \<open>\<^verbatim>\<open>FindAllStringSubmatch\<close>: the matches from left to right, none overlapping the one before.\<close>

function find_refused :: "string \<Rightarrow> string list" where
  "find_refused s =
     (case match_refused s of
        Some (ep, s') \<Rightarrow> ep # find_refused s'
      | None \<Rightarrow> (case s of [] \<Rightarrow> [] | _ # s' \<Rightarrow> find_refused s'))"
  by pat_completeness auto
termination
  by (relation "measure length") (auto dest: match_refused_shorter)

declare find_refused.simps [simp del]

definition extractUnavailableEndpoints :: "string \<Rightarrow> string list" where
  "extractUnavailableEndpoints errString = sort (remdups (find_refused errString))"

fun find_timeout :: "string \<Rightarrow> (string \<times> string) option" where
  "find_timeout s =
     (case match_timeout s of
        Some m \<Rightarrow> Some m
      | None \<Rightarrow> (case s of [] \<Rightarrow> None | _ # s' \<Rightarrow> find_timeout s'))"

definition classifyExecError :: "string \<Rightarrow> string" where
  "classifyExecError errStr =
     (case find_timeout errStr of
        Some (errors, replies) \<Rightarrow> ''timeout_errors_'' @ errors @ ''_replies_'' @ replies
      | None \<Rightarrow> ''other'')"

section \<open>The client\<close>

record 'cfg hot_client =
  hc_gorumsConfig :: 'cfg
  hc_cfgVersion :: "64 word"
  hc_activeNodes :: nat
  hc_seq :: "64 word"
  hc_clientID :: "32 word"
  hc_inflight :: nat
  hc_allNodes :: "(string, 32 word) gomap"
  hc_dead :: "32 word set"

type_synonym 'cfg new_configuration = "int \<Rightarrow> (string, 32 word) gomap \<Rightarrow> go_error + 'cfg"

definition inflightCap :: nat where
  "inflightCap = 1"

definition view_nodes :: "string list \<Rightarrow> (string, 32 word) gomap" where
  "view_nodes view = fold (\<lambda>(i, addr). gomap_set (addr @ '':1338'') (of_nat (i + 1))) (enumerate 0 view) []"

definition hot_newClient :: "'cfg new_configuration \<Rightarrow> (go_error + 32 word) \<Rightarrow> string list \<Rightarrow> 'cfg hot_client outcome" where
  "hot_newClient NewConfiguration rand view =
     (let nodes = view_nodes view; faulty = numFaulty (int (length view)) in
      case NewConfiguration faulty nodes of
        Inl e \<Rightarrow> Err (Errorf ''failed to create gorums configuration: %w'' [AErr e])
      | Inr gorumsConfig \<Rightarrow>
          (case rand of
             Inl e \<Rightarrow> Err (Errorf ''failed to generate random client ID: %w'' [AErr e])
           | Inr cid \<Rightarrow>
               Ok \<lparr>hc_gorumsConfig = gorumsConfig, hc_cfgVersion = 0, hc_activeNodes = length nodes, hc_seq = 0,
                 hc_clientID = (if cid = 0 then 1 else cid), hc_inflight = 0, hc_allNodes = nodes, hc_dead = {}\<rparr>))"

definition hot_DecodePayload :: "8 word list \<Rightarrow> (8 word list) outcome" where
  "hot_DecodePayload bytes = Ok bytes"

text \<open>\<^verbatim>\<open>nodeStateSnapshot\<close>, for the iteration order \<open>it\<close> of the map of the nodes.\<close>

definition nodeStateSnapshot :: "(string \<times> 32 word) list \<Rightarrow> 'cfg hot_client \<Rightarrow> string list \<times> string list" where
  "nodeStateSnapshot it c =
     (sort (map fst (filter (\<lambda>(_, nid). nid \<notin> hc_dead c) it)), sort (map fst (filter (\<lambda>(_, nid). nid \<in> hc_dead c) it)))"

definition mark_dead :: "string \<Rightarrow> bool \<times> 'cfg hot_client \<Rightarrow> bool \<times> 'cfg hot_client" where
  "mark_dead endpoint = (\<lambda>(changed, c).
     case gomap_get (hc_allNodes c) endpoint of
       None \<Rightarrow> (changed, c)
     | Some nid \<Rightarrow> if nid \<in> hc_dead c then (changed, c) else (True, c\<lparr>hc_dead := insert nid (hc_dead c)\<rparr>))"

definition active_nodes :: "'cfg hot_client \<Rightarrow> (string, 32 word) gomap" where
  "active_nodes c = filter (\<lambda>(_, nid). nid \<notin> hc_dead c) (hc_allNodes c)"

definition pruneUnavailableNodes :: "'cfg new_configuration \<Rightarrow> string \<Rightarrow> 'cfg hot_client \<Rightarrow> 'cfg hot_client" where
  "pruneUnavailableNodes rebuildCfg err c =
     (let endpoints = extractUnavailableEndpoints err in
      if endpoints = [] then c
      else
        let (changed, c) = fold mark_dead endpoints (False, c) in
        if \<not> changed then c
        else
          let active = active_nodes c in
          if active = [] then c
          else
            (case rebuildCfg (numFaulty (int (length active))) active of
               Inr cfg \<Rightarrow> c\<lparr>hc_gorumsConfig := cfg, hc_cfgVersion := hc_cfgVersion c + 1, hc_activeNodes := length active\<rparr>
             | Inl _ \<Rightarrow> c))"

section \<open>The builder\<close>

text \<open>The builder keeps no state: every account, contract and payload is the same text.\<close>

definition hot_CreateAccount :: "int \<Rightarrow> (unit, string) go" where
  "hot_CreateAccount stake = gret ''hotstuff_account''"

definition hot_CreateContract :: "string \<Rightarrow> (unit, string) go" where
  "hot_CreateContract name = gret ''hotstuff_contract''"

definition hot_CreateResource :: "string \<Rightarrow> 'f option" where
  "hot_CreateResource domain = None"

definition hot_EncodeTransfer :: "int \<Rightarrow> string bvalue \<Rightarrow> string bvalue \<Rightarrow> interactionInformation \<Rightarrow> (unit, byte list) go" where
  "hot_EncodeTransfer amount from to info = gret (string_bytes ''hotstuff_tx'')"

definition hot_EncodeInvoke :: "string bvalue \<Rightarrow> string bvalue \<Rightarrow> string \<Rightarrow> interactionInformation \<Rightarrow> (unit, byte list) go" where
  "hot_EncodeInvoke from contract function info = gret (string_bytes ''hotstuff_invoke'')"

definition hot_EncodeInteraction :: "string \<Rightarrow> bexpr \<Rightarrow> interactionInformation \<Rightarrow> ('w, byte list) go" where
  "hot_EncodeInteraction itype expr info = gret (string_bytes ''hotstuff_interaction'')"

definition hot_env :: "('g, unit, string, 'x) env \<Rightarrow> ('g, unit, string, 'x) env" where
  "hot_env env = env\<lparr>env_CreateAccount := hot_CreateAccount, env_CreateContract := hot_CreateContract,
     env_CreateResource := hot_CreateResource, env_EncodeTransfer := hot_EncodeTransfer,
     env_EncodeInvoke := hot_EncodeInvoke, env_EncodeInteraction := hot_EncodeInteraction\<rparr>"

interpretation hot: blockchain_builder "hot_env env" for env
  by unfold_locales (auto simp: hot_env_def hot_CreateResource_def hot_EncodeInteraction_def keeps_gret)

section \<open>The endpoints named by an error\<close>

definition refused :: "string \<Rightarrow> string \<Rightarrow> string" where
  "refused host port = ''dial tcp '' @ host @ '':'' @ port @ '': connect: connection refused''"

definition endpoint_ok :: "string \<Rightarrow> string \<Rightarrow> bool" where
  "endpoint_ok host port \<longleftrightarrow> host \<noteq> [] \<and> port \<noteq> [] \<and> list_all (\<lambda>c. c \<noteq> CHR '':'' \<and> \<not> is_space c) host \<and> list_all is_digit port"

text \<open>A text in which no match begins, whatever match may follow it.\<close>

definition quiet :: "string \<Rightarrow> bool" where
  "quiet junk \<longleftrightarrow> list_all (\<lambda>i. \<not> prefix ''dial tcp'' (drop i junk @ ''dial tc'')) [0..<length junk]"

lemma match_plus_append:
  "xs \<noteq> [] \<Longrightarrow> list_all P xs \<Longrightarrow> (s = [] \<or> \<not> P (hd s)) \<Longrightarrow> match_plus P (xs @ s) = Some (xs, s)"
proof -
  assume xs: "xs \<noteq> []" "list_all P xs" and s: "s = [] \<or> \<not> P (hd s)"
  have "takeWhile P (xs @ s) = xs @ takeWhile P s" "dropWhile P (xs @ s) = dropWhile P s"
    using xs(2) by (auto simp: list_all_iff)
  moreover have "takeWhile P s = []" "dropWhile P s = s" using s by (cases s; simp)+
  ultimately show ?thesis using xs(1) by (simp add: match_plus_def)
qed

lemma match_literal_append [simp]: "match_literal lit (lit @ s) = Some s"
  by (simp add: match_literal_def)

lemma match_refused_refused:
  assumes "endpoint_ok host port"
  shows "match_refused (refused host port @ s) = Some (host @ '':'' @ port, s)"
proof -
  have sp: "match_plus is_space ('' '' @ t) = Some ('' '', t)" if "t = [] \<or> \<not> is_space (hd t)" for t
    using that by (intro match_plus_append) (simp_all add: is_space_def)
  have h: "match_plus (\<lambda>c. c \<noteq> CHR '':'' \<and> \<not> is_space c) (host @ '':'' @ t) = Some (host, '':'' @ t)" for t
    using assms by (intro match_plus_append) (auto simp: endpoint_ok_def)
  have p: "match_plus is_digit (port @ '':'' @ t) = Some (port, '':'' @ t)" for t
    using assms by (intro match_plus_append) (auto simp: endpoint_ok_def is_digit_def)
  have lits: "match_literal ''dial tcp'' (''dial tcp'' @ t) = Some t" "match_literal '':'' ('':'' @ t) = Some t"
    "match_literal ''connect:'' (''connect:'' @ t) = Some t"
    "match_literal ''connection refused'' (''connection refused'' @ t) = Some t" for t
    by (rule match_literal_append)+
  have "\<not> is_space (hd (host @ t))" for t using assms by (cases host) (auto simp: endpoint_ok_def)
  then have sp1: "match_plus is_space ('' '' @ host @ t) = Some ('' '', host @ t)" for t by (intro sp) blast
  have sp2: "match_plus is_space ('' '' @ ''connect:'' @ t) = Some ('' '', ''connect:'' @ t)"
    "match_plus is_space ('' '' @ ''connection refused'' @ t) = Some ('' '', ''connection refused'' @ t)" for t
    by (rule sp, simp add: is_space_def)+
  have "refused host port @ s = ''dial tcp'' @ '' '' @ host @ '':'' @ port @ '':'' @ '' '' @ ''connect:'' @ '' '' @ ''connection refused'' @ s"
    by (simp add: refused_def)
  then show ?thesis unfolding match_refused_def by (simp only: lits sp1 sp2 h p bind.bind_lunit prod.case)
qed

lemma quiet_Cons: "quiet (c # junk) \<longleftrightarrow> \<not> prefix ''dial tcp'' ((c # junk) @ ''dial tc'') \<and> quiet junk"
proof -
  have "[0..<length (c # junk)] = 0 # map Suc [0..<length junk]" by (simp only: list.size add_Suc_right add_0_right upt_conv_Cons [OF zero_less_Suc] map_Suc_upt)
  then show ?thesis unfolding quiet_def by (simp only: list.pred_inject list.pred_map comp_def drop_0 drop_Suc_Cons)
qed

lemma prefix_beyond:
  assumes "prefix lit (x @ lit @ s)" and "x \<noteq> []"
  shows "prefix lit (x @ butlast lit)"
proof -
  have "lit = take (length lit) (x @ lit @ s)" using assms(1) by (metis append_eq_conv_conj prefix_def)
  then have "lit = take (length lit) x @ take (length lit - length x) lit" by simp
  moreover have "length lit - length x \<le> length lit - Suc 0" using assms(2) by (cases x) auto
  then have "take (length lit - length x) lit = take (length lit - length x) (butlast lit)"
    by (simp add: butlast_conv_take min_def)
  ultimately have "lit = take (length lit) (x @ butlast lit)" by simp
  then show ?thesis by (metis take_is_prefix)
qed

lemma match_refused_None: "\<not> prefix ''dial tcp'' s \<Longrightarrow> match_refused s = None"
  unfolding match_refused_def match_literal_def by (simp only: if_False bind.bind_lzero)

lemma find_refused_quiet:
  assumes "quiet junk" and "s = [] \<or> prefix ''dial tcp'' s"
  shows "find_refused (junk @ s) = find_refused s"
  using assms(1)
proof (induction junk)
  case (Cons c junk)
  have "\<not> prefix ''dial tcp'' ((c # junk) @ s)"
  proof
    assume a: "prefix ''dial tcp'' ((c # junk) @ s)"
    have "prefix ''dial tcp'' ((c # junk) @ ''dial tc'')"
    proof (cases "s = []")
      case True
      then show ?thesis using a by (metis append_Nil2 prefix_prefix)
    next
      case False
      then obtain t where "s = ''dial tcp'' @ t" using assms(2) by (auto simp: prefix_def)
      then have "prefix ''dial tcp'' ((c # junk) @ butlast ''dial tcp'')" using a by (intro prefix_beyond [of _ _ t]) (simp only:, simp)
      then show ?thesis by auto
    qed
    then show False using Cons.prems by (simp only: quiet_Cons) simp
  qed
  then have "match_refused (c # junk @ s) = None" by (intro match_refused_None) simp
  then have "find_refused ((c # junk) @ s) = find_refused (junk @ s)" by (simp add: find_refused.simps [of "c # junk @ s"])
  moreover have "quiet junk" using Cons.prems by (simp only: quiet_Cons)
  ultimately show ?case using Cons.IH by simp
qed simp

definition error_text :: "(string \<times> string \<times> string) list \<Rightarrow> string \<Rightarrow> string" where
  "error_text parts junk = concat (map (\<lambda>(junk, host, port). junk @ refused host port) parts) @ junk"

lemma find_refused_parts:
  assumes "list_all (\<lambda>(junk, host, port). quiet junk \<and> endpoint_ok host port) parts" and "quiet junk"
  shows "find_refused (error_text parts junk) = map (\<lambda>(_, host, port). host @ '':'' @ port) parts"
  using assms(1)
proof (induction parts)
  case Nil
  have "match_refused [] = None" by (simp add: match_refused_def match_literal_def)
  then show ?case using find_refused_quiet [OF assms(2), of "[]"] by (simp add: error_text_def find_refused.simps [of "[]"])
next
  case (Cons part parts)
  obtain j host port where part: "part = (j, host, port)" by (cases part)
  define rest where "rest = error_text parts junk"
  have "error_text (part # parts) junk = j @ refused host port @ rest" by (simp add: error_text_def rest_def part)
  moreover have "find_refused (j @ refused host port @ rest) = find_refused (refused host port @ rest)"
    using Cons.prems by (intro find_refused_quiet) (simp_all add: part refused_def)
  moreover have "find_refused (refused host port @ rest) = (host @ '':'' @ port) # find_refused rest"
    using Cons.prems match_refused_refused [of host port rest]
    by (subst find_refused.simps) (simp only: part list.pred_inject prod.case option.case)
  ultimately show ?case using Cons by (simp add: part rest_def)
qed

text \<open>
  The endpoints that an error names are read back from its text: of any texts that hold the message of a refused connection
  among others that do not begin one, the result lists the endpoints in order, each once.
\<close>

theorem endpoints_roundtrip:
  assumes "list_all (\<lambda>(junk, host, port). quiet junk \<and> endpoint_ok host port) parts" and "quiet junk"
  shows "sorted (extractUnavailableEndpoints (error_text parts junk)) \<and>
    distinct (extractUnavailableEndpoints (error_text parts junk)) \<and>
    set (extractUnavailableEndpoints (error_text parts junk)) = (\<lambda>(_, host, port). host @ '':'' @ port) ` set parts"
  by (simp add: extractUnavailableEndpoints_def find_refused_parts [OF assms])

definition sample_parts :: "(string \<times> string \<times> string) list" where
  "sample_parts = [(''desc = Error while dialing: '', ''10.0.0.2'', ''1338''), (''; node 2: '', ''10.0.0.1'', ''1338''),
     (''; again: '', ''10.0.0.2'', ''1338'')]"

lemma endpoints_roundtrip_witness:
  "distinct (extractUnavailableEndpoints (error_text sample_parts '' (errors: 3, replies: 0)'')) \<and>
   set (extractUnavailableEndpoints (error_text sample_parts '' (errors: 3, replies: 0)'')) = {''10.0.0.1:1338'', ''10.0.0.2:1338''}"
proof -
  have "list_all (\<lambda>(junk, host, port). quiet junk \<and> endpoint_ok host port) sample_parts" by code_simp
  moreover have "quiet '' (errors: 3, replies: 0)''" by code_simp
  ultimately have "sorted (extractUnavailableEndpoints (error_text sample_parts '' (errors: 3, replies: 0)'')) \<and>
    distinct (extractUnavailableEndpoints (error_text sample_parts '' (errors: 3, replies: 0)'')) \<and>
    set (extractUnavailableEndpoints (error_text sample_parts '' (errors: 3, replies: 0)''))
      = (\<lambda>(_, host, port). host @ '':'' @ port) ` set sample_parts"
    by (rule endpoints_roundtrip)
  then show ?thesis by (auto simp: sample_parts_def)
qed

section \<open>Removing replicas\<close>

definition named_nodes :: "'cfg hot_client \<Rightarrow> string \<Rightarrow> 32 word set" where
  "named_nodes c err = {nid. \<exists>ep \<in> set (extractUnavailableEndpoints err). gomap_get (hc_allNodes c) ep = Some nid}"

lemma fold_mark_dead:
  "fold mark_dead eps (changed, c) =
     (let named = {nid. \<exists>ep \<in> set eps. gomap_get (hc_allNodes c) ep = Some nid} in
      (changed \<or> \<not> named \<subseteq> hc_dead c, c\<lparr>hc_dead := hc_dead c \<union> named\<rparr>))"
proof (induction eps arbitrary: changed c)
  case (Cons ep eps)
  show ?case
  proof (cases "gomap_get (hc_allNodes c) ep")
    case None
    then show ?thesis using Cons by (simp add: mark_dead_def Let_def)
  next
    case (Some nid)
    have "{n. \<exists>e \<in> set (ep # eps). gomap_get (hc_allNodes c) e = Some n} =
        insert nid {n. \<exists>e \<in> set eps. gomap_get (hc_allNodes c) e = Some n}"
      using Some by auto
    then show ?thesis using Some Cons by (cases "nid \<in> hc_dead c") (auto simp: mark_dead_def Let_def insert_absorb)
  qed
qed (simp add: Let_def)

definition buried :: "'cfg hot_client \<Rightarrow> string \<Rightarrow> 'cfg hot_client" where
  "buried c err = c\<lparr>hc_dead := hc_dead c \<union> named_nodes c err\<rparr>"

lemma prune_cases:
  "pruneUnavailableNodes rebuildCfg err c =
     (let c' = buried c err; active = active_nodes c' in
      if named_nodes c err \<subseteq> hc_dead c \<or> active = [] then c'
      else
        (case rebuildCfg (numFaulty (int (length active))) active of
           Inr cfg \<Rightarrow> c'\<lparr>hc_gorumsConfig := cfg, hc_cfgVersion := hc_cfgVersion c + 1, hc_activeNodes := length active\<rparr>
         | Inl _ \<Rightarrow> c'))"
proof (cases "extractUnavailableEndpoints err = []")
  case True
  then show ?thesis by (simp add: pruneUnavailableNodes_def named_nodes_def buried_def Let_def)
next
  case False
  have "buried c err = c" if "named_nodes c err \<subseteq> hc_dead c" using that by (simp add: buried_def Un_absorb2)
  then show ?thesis using False
    by (auto simp: pruneUnavailableNodes_def fold_mark_dead named_nodes_def [symmetric] buried_def [symmetric] Let_def
        split: sum.splits) (simp_all add: buried_def)
qed

lemma buried_simps [simp]:
  "hc_allNodes (buried c err) = hc_allNodes c" "hc_gorumsConfig (buried c err) = hc_gorumsConfig c"
  "hc_activeNodes (buried c err) = hc_activeNodes c" "hc_dead (buried c err) = hc_dead c \<union> named_nodes c err"
  by (simp_all add: buried_def)

lemma prune_simps [simp]:
  "hc_allNodes (pruneUnavailableNodes rebuildCfg err c) = hc_allNodes c"
  "hc_dead (pruneUnavailableNodes rebuildCfg err c) = hc_dead c \<union> named_nodes c err"
  "hc_seq (pruneUnavailableNodes rebuildCfg err c) = hc_seq c"
  "hc_inflight (pruneUnavailableNodes rebuildCfg err c) = hc_inflight c"
  "hc_clientID (pruneUnavailableNodes rebuildCfg err c) = hc_clientID c"
  by (simp_all add: prune_cases Let_def buried_def split: sum.splits)

lemma active_nodes_cong: "hc_allNodes c = hc_allNodes c' \<Longrightarrow> hc_dead c = hc_dead c' \<Longrightarrow> active_nodes c = active_nodes c'"
  by (simp add: active_nodes_def)

lemma view_nodes_distinct:
  assumes "distinct view"
  shows "view_nodes view = map (\<lambda>(i, addr). (addr @ '':1338'', of_nat (i + 1))) (enumerate 0 view)"
proof -
  let ?it = "map (\<lambda>(i, addr). (addr @ '':1338'', of_nat (i + 1) :: 32 word)) (enumerate 0 view)"
  have "map fst ?it = map (\<lambda>addr. addr @ '':1338'') (map snd (enumerate 0 view))"
    by (simp add: comp_def case_prod_unfold del: map_snd_enumerate)
  then have keys: "map fst ?it = map (\<lambda>addr. addr @ '':1338'') view" by (simp only: map_snd_enumerate)
  then have "distinct (map fst ([] @ ?it))" using assms by (simp add: distinct_map inj_on_def del: map_map)
  then have "fold (\<lambda>(k, v). gomap_set k v) ?it [] = ?it" using fold_gomap_set [of "[]" ?it] by simp
  then show ?thesis by (simp add: view_nodes_def fold_map comp_def case_prod_unfold)
qed

text \<open>
  Failed calls, each with the configuration builder as it behaves at that time and the error of the call; the
  replicas that none of the errors has named; and the builder that was asked first, or by the \<open>k\<close>th failed call.
\<close>

definition prune_all :: "('cfg new_configuration \<times> string) list \<Rightarrow> 'cfg hot_client \<Rightarrow> 'cfg hot_client" where
  "prune_all calls c = fold (\<lambda>(rebuildCfg, err). pruneUnavailableNodes rebuildCfg err) calls c"

definition unnamed :: "'cfg hot_client \<Rightarrow> ('cfg new_configuration \<times> string) list \<Rightarrow> (string, 32 word) gomap" where
  "unnamed c calls = filter (\<lambda>(_, nid). \<forall>call \<in> set calls. nid \<notin> named_nodes c (snd call)) (hc_allNodes c)"

definition builder_at :: "'cfg new_configuration \<Rightarrow> ('cfg new_configuration \<times> string) list \<Rightarrow> nat \<Rightarrow> 'cfg new_configuration" where
  "builder_at rebuild0 calls k = (case k of 0 \<Rightarrow> rebuild0 | Suc i \<Rightarrow> fst (calls ! i))"

lemma prune_all_snoc: "prune_all (calls @ [(rebuildCfg, err)]) c = pruneUnavailableNodes rebuildCfg err (prune_all calls c)"
  by (simp add: prune_all_def)

lemma prune_all_nodes:
  "hc_allNodes (prune_all calls c) = hc_allNodes c \<and>
   hc_dead (prune_all calls c) = hc_dead c \<union> (\<Union>call \<in> set calls. named_nodes c (snd call)) \<and>
   named_nodes (prune_all calls c) = named_nodes c"
proof (induction calls rule: rev_induct)
  case (snoc call calls)
  have "named_nodes (pruneUnavailableNodes r e (prune_all calls c)) = named_nodes (prune_all calls c)" for r e
    by (rule ext) (simp add: named_nodes_def)
  with snoc show ?case by (cases call) (auto simp: prune_all_snoc)
qed (simp add: prune_all_def)

lemma unnamed_active:
  assumes "hc_dead c = {}"
  shows "active_nodes (buried (prune_all calls c) err) = unnamed c (calls @ [(rebuildCfg, err)])"
  using prune_all_nodes [of calls c] assms by (auto simp: active_nodes_def unnamed_def intro!: filter_cong)

lemma unnamed_known:
  assumes "hc_dead c = {}" and "named_nodes (prune_all calls c) err \<subseteq> hc_dead (prune_all calls c)"
  shows "unnamed c (calls @ [(rebuildCfg, err)]) = unnamed c calls"
  using prune_all_nodes [of calls c] assms by (fastforce simp: unnamed_def intro!: filter_cong)

text \<open>The last call whose rebuild succeeded decides.\<close>

lemma last_rebuild:
  assumes "hc_dead c = {}" and "rebuild0 (numFaulty (int (length (hc_allNodes c)))) (hc_allNodes c) = Inr (hc_gorumsConfig c)"
    and "hc_activeNodes c = length (hc_allNodes c)"
  shows "\<exists>k \<le> length calls. let active = \<lambda>j. unnamed c (take j calls); c' = prune_all calls c in
    builder_at rebuild0 calls k (numFaulty (int (length (active k)))) (active k) = Inr (hc_gorumsConfig c') \<and>
    hc_activeNodes c' = length (active k) \<and>
    (\<forall>j. k \<le> j \<and> j < length calls \<and> active (Suc j) \<noteq> active j \<longrightarrow> active (Suc j) = [] \<or>
       (\<exists>e. fst (calls ! j) (numFaulty (int (length (active (Suc j))))) (active (Suc j)) = Inl e))"
proof (induction calls rule: rev_induct)
  case Nil
  then show ?case using assms by (simp add: builder_at_def unnamed_def prune_all_def Let_def)
next
  case (snoc call calls)
  obtain rb err where call: "call = (rb, err)" by force
  let ?c = "prune_all calls c" and ?calls = "calls @ [(rb, err)]" and ?n = "length calls"
  let ?active = "\<lambda>j. unnamed c (take j ?calls)" and ?new = "unnamed c (calls @ [(rb, err)])"
  let ?rebuilt = "rb (numFaulty (int (length ?new))) ?new"
  have prune: "prune_all ?calls c =
      (if named_nodes ?c err \<subseteq> hc_dead ?c \<or> ?new = [] then buried ?c err
       else case ?rebuilt of Inr cfg \<Rightarrow> (buried ?c err)\<lparr>hc_gorumsConfig := cfg, hc_cfgVersion := hc_cfgVersion ?c + 1,
           hc_activeNodes := length ?new\<rparr> | Inl _ \<Rightarrow> buried ?c err)"
    unfolding prune_all_snoc prune_cases Let_def unnamed_active [OF assms(1), of calls err rb] ..
  show ?case
  proof (cases "\<not> named_nodes ?c err \<subseteq> hc_dead ?c \<and> ?new \<noteq> [] \<and> (\<exists>cfg. ?rebuilt = Inr cfg)")
    case True
    then show ?thesis
      unfolding call by (intro exI [of _ "Suc ?n"]) (auto simp: prune builder_at_def Let_def)
  next
    case False
    from snoc obtain k where k: "k \<le> ?n"
      "builder_at rebuild0 calls k (numFaulty (int (length (unnamed c (take k calls))))) (unnamed c (take k calls)) =
        Inr (hc_gorumsConfig ?c)" "hc_activeNodes ?c = length (unnamed c (take k calls))"
      "\<And>j. k \<le> j \<Longrightarrow> j < ?n \<Longrightarrow> unnamed c (take (Suc j) calls) \<noteq> unnamed c (take j calls) \<Longrightarrow>
        unnamed c (take (Suc j) calls) = [] \<or> (\<exists>e. fst (calls ! j) (numFaulty (int (length (unnamed c (take (Suc j) calls)))))
          (unnamed c (take (Suc j) calls)) = Inl e)"
      by (auto simp: Let_def)
    have kept: "hc_gorumsConfig (prune_all ?calls c) = hc_gorumsConfig ?c" "hc_activeNodes (prune_all ?calls c) = hc_activeNodes ?c"
      using False by (auto simp: prune split: sum.splits)
    have same: "builder_at rebuild0 ?calls k = builder_at rebuild0 calls k"
      using k(1) by (auto simp: builder_at_def nth_append split: nat.splits)
    have later: "?active (Suc j) = [] \<or> (\<exists>e. fst (?calls ! j) (numFaulty (int (length (?active (Suc j))))) (?active (Suc j)) = Inl e)"
      if "k \<le> j" "j < Suc ?n" "?active (Suc j) \<noteq> ?active j" for j
    proof (cases "j = ?n")
      case True
      with that(3) have "\<not> named_nodes ?c err \<subseteq> hc_dead ?c" using unnamed_known [OF assms(1), of calls err rb] by auto
      with False True show ?thesis by (cases ?rebuilt) auto
    next
      case False
      with that k(4) [of j] show ?thesis by (simp add: nth_append)
    qed
    have take: "take k ?calls = take k calls" using k(1) by simp
    show ?thesis
      unfolding call Let_def
    proof (intro exI [of _ k] conjI allI impI)
      show "k \<le> length ?calls" using k(1) by simp
      show "builder_at rebuild0 ?calls k (numFaulty (int (length (?active k)))) (?active k) =
          Inr (hc_gorumsConfig (prune_all ?calls c))"
        "hc_activeNodes (prune_all ?calls c) = length (?active k)"
        by (simp_all only: take same k(2,3) kept)
      fix j assume "k \<le> j \<and> j < length ?calls \<and> ?active (Suc j) \<noteq> ?active j"
      then show "?active (Suc j) = [] \<or>
          (\<exists>e. fst (?calls ! j) (numFaulty (int (length (?active (Suc j))))) (?active (Suc j)) = Inl e)"
        by (elim conjE, intro later) (simp_all only: length_append_singleton not_False_eq_True)
    qed
  qed
qed

text \<open>Without a failed rebuild the replicas in use change no more.\<close>

lemma unnamed_unchanged:
  assumes "k \<le> n" and "\<And>j. k \<le> j \<Longrightarrow> j < n \<Longrightarrow> unnamed c (take (Suc j) calls) \<noteq> unnamed c (take j calls) \<Longrightarrow>
    unnamed c (take (Suc j) calls) = []"
  shows "unnamed c (take n calls) = [] \<or> unnamed c (take n calls) = unnamed c (take k calls)"
  using assms
proof (induction n rule: dec_induct)
  case (step n)
  show ?case
  proof (cases "unnamed c (take (Suc n) calls) = unnamed c (take n calls)")
    case True
    with step show ?thesis by auto
  next
    case False
    with step.prems [of n] step.hyps show ?thesis by simp
  qed
qed simp

text \<open>
  C26: After any sequence of failed calls there is a last moment, the creation of the client or one of these calls, at which a
  configuration was built, and the client uses that one: it is for exactly the replicas that no error had named until then, with
  their number of tolerated faults. At every call after that moment whose error named a replica that was still in use, no replica
  was left or the configuration could not be built, and the old one stayed in use. So if no rebuild fails, the
  configuration is the one of exactly the replicas that no error has named so far, unless none is left.
\<close>

theorem configuration_tracks_active:
  assumes "hot_newClient rebuild0 rand view = Ok c" and "distinct view"
  shows "\<exists>k \<le> length calls. let active = \<lambda>j. unnamed c (take j calls); c' = prune_all calls c in
    builder_at rebuild0 calls k (numFaulty (int (length (active k)))) (active k) = Inr (hc_gorumsConfig c') \<and>
    hc_activeNodes c' = length (active k) \<and>
    (\<forall>j. k \<le> j \<and> j < length calls \<and> active (Suc j) \<noteq> active j \<longrightarrow> active (Suc j) = [] \<or>
       (\<exists>e. fst (calls ! j) (numFaulty (int (length (active (Suc j))))) (active (Suc j)) = Inl e)) \<and>
    ((\<forall>j < length calls. \<exists>cfg. fst (calls ! j) (numFaulty (int (length (active (Suc j))))) (active (Suc j)) = Inr cfg) \<longrightarrow>
       active (length calls) = [] \<or> active (length calls) = active k)"
proof -
  have c: "hc_allNodes c = view_nodes view" "hc_dead c = {}" "hc_activeNodes c = length (view_nodes view)"
    "rebuild0 (numFaulty (int (length view))) (view_nodes view) = Inr (hc_gorumsConfig c)"
    using assms(1) by (auto simp: hot_newClient_def Let_def split: sum.splits)
  have "length (view_nodes view) = length view" using view_nodes_distinct [OF assms(2)] by simp
  from last_rebuild [OF c(2), of rebuild0 calls] c this obtain k where
    k: "k \<le> length calls" "builder_at rebuild0 calls k (numFaulty (int (length (unnamed c (take k calls)))))
        (unnamed c (take k calls)) = Inr (hc_gorumsConfig (prune_all calls c))"
      "hc_activeNodes (prune_all calls c) = length (unnamed c (take k calls))"
      "\<And>j. k \<le> j \<Longrightarrow> j < length calls \<Longrightarrow> unnamed c (take (Suc j) calls) \<noteq> unnamed c (take j calls) \<Longrightarrow>
        unnamed c (take (Suc j) calls) = [] \<or> (\<exists>e. fst (calls ! j) (numFaulty (int (length (unnamed c (take (Suc j) calls)))))
          (unnamed c (take (Suc j) calls)) = Inl e)"
    by (auto simp: Let_def)
  have "unnamed c (take (length calls) calls) = [] \<or> unnamed c (take (length calls) calls) = unnamed c (take k calls)"
    if "\<forall>j < length calls. \<exists>cfg. fst (calls ! j) (numFaulty (int (length (unnamed c (take (Suc j) calls)))))
      (unnamed c (take (Suc j) calls)) = Inr cfg"
    by (rule unnamed_unchanged [OF k(1)]) (use k(4) that in fastforce)
  with k show ?thesis unfolding Let_def by (intro exI [of _ k]) blast
qed

definition sample_cluster :: "(int \<times> (string, 32 word) gomap) hot_client" where
  "sample_cluster = \<lparr>hc_gorumsConfig = (1, view_nodes [''a'', ''b'', ''c'', ''d'']), hc_cfgVersion = 0, hc_activeNodes = 4, hc_seq = 0,
     hc_clientID = 7, hc_inflight = 0, hc_allNodes = view_nodes [''a'', ''b'', ''c'', ''d''], hc_dead = {}\<rparr>"

lemma sample_new: "hot_newClient (\<lambda>f m. Inr (f, m)) (Inr 7) [''a'', ''b'', ''c'', ''d''] = Ok sample_cluster"
  by code_simp

text \<open>A first call removes a replica, at a second one the configuration cannot be built.\<close>

definition sample_calls :: "((int \<times> (string, 32 word) gomap) new_configuration \<times> string) list" where
  "sample_calls = [(\<lambda>f m. Inr (f, m), refused ''b'' ''1338''), (\<lambda>f m. Inl EOF, refused ''c'' ''1338'')]"

lemma configuration_tracks_active_witness:
  "hc_activeNodes (prune_all sample_calls sample_cluster) = 3 \<and> hc_dead (prune_all sample_calls sample_cluster) = {2, 3} \<and>
   (\<exists>k \<le> 2. hc_activeNodes (prune_all sample_calls sample_cluster) = length (unnamed sample_cluster (take k sample_calls)))"
proof -
  have len: "length sample_calls = 2" by (simp add: sample_calls_def)
  have "hc_activeNodes (prune_all sample_calls sample_cluster) = 3" "hc_dead (prune_all sample_calls sample_cluster) = {2, 3}"
    by code_simp+
  moreover have "\<exists>k \<le> 2. hc_activeNodes (prune_all sample_calls sample_cluster) = length (unnamed sample_cluster (take k sample_calls))"
    using configuration_tracks_active [OF sample_new, of sample_calls] unfolding Let_def len by auto
  ultimately show ?thesis by blast
qed

text \<open>
  If the configuration cannot be rebuilt, the replicas count as dead all the same, so the client keeps calling them: no later error that
  names only them makes it build the configuration again, even where it would succeed.
\<close>

theorem failed_rebuild_is_final:
  assumes "\<not> named_nodes c err \<subseteq> hc_dead c"
    and "rebuildCfg (numFaulty (int (length (active_nodes (buried c err))))) (active_nodes (buried c err)) = Inl e"
    and "\<And>err'. err' \<in> set errs \<Longrightarrow> named_nodes c err' \<subseteq> hc_dead c \<union> named_nodes c err"
  shows "fold (pruneUnavailableNodes rebuildCfg') errs (pruneUnavailableNodes rebuildCfg err c) = buried c err \<and>
    hc_gorumsConfig (buried c err) = hc_gorumsConfig c"
proof -
  have "pruneUnavailableNodes rebuildCfg err c = buried c err" using assms(1,2) by (simp add: prune_cases Let_def)
  moreover have "pruneUnavailableNodes rebuildCfg' err' (buried c err) = buried c err" if "err' \<in> set errs" for err'
  proof -
    have "named_nodes (buried c err) err' \<subseteq> hc_dead (buried c err)" using assms(3) [OF that] by (simp add: named_nodes_def)
    then show ?thesis by (simp add: prune_cases Let_def) (simp add: buried_def [of "buried c err"] Un_absorb2)
  qed
  then have "fold (pruneUnavailableNodes rebuildCfg') errs (buried c err) = buried c err" by (induction errs) simp_all
  ultimately show ?thesis by simp
qed

section \<open>Calls\<close>

text \<open>
  A call of \<^verbatim>\<open>TriggerInteraction\<close> waits for a slot, reports the submission, takes the next sequence number, and sends its command with
  the current configuration. When the answer comes it reports a commit, or removes the replicas that the error names and reports an abort,
  and gives the slot back. The phases are the points between these events. \<open>hs_sent\<close> is the list of the commands sent so far.
\<close>

datatype hot_phase = HWait | HSlot | HSubmitted | HNumbered "64 word" | HSent | HAnswered "string option" | HPruned string
  | HReturning "string option" | HDone "string option"

record 'cfg hot_state =
  hs_client :: "'cfg hot_client"
  hs_phase :: "nat \<Rightarrow> hot_phase"
  hs_reports :: "nat \<Rightarrow> report list"
  hs_sent :: "(Command \<times> 'cfg) list"

definition hot_start :: "'cfg hot_client \<Rightarrow> 'cfg hot_state" where
  "hot_start c = \<lparr>hs_client = c, hs_phase = (\<lambda>_. HWait), hs_reports = (\<lambda>_. []), hs_sent = []\<rparr>"

definition hot_enter :: "nat \<Rightarrow> hot_phase \<Rightarrow> 'cfg hot_state \<Rightarrow> 'cfg hot_state" where
  "hot_enter i ph s = s\<lparr>hs_phase := (hs_phase s)(i := ph)\<rparr>"

definition hot_report :: "nat \<Rightarrow> report \<Rightarrow> 'cfg hot_state \<Rightarrow> 'cfg hot_state" where
  "hot_report i r s = s\<lparr>hs_reports := (hs_reports s)(i := hs_reports s i @ [r])\<rparr>"

text \<open>The payload of an interaction is \<open>None\<close> if it is not a slice of bytes.\<close>

inductive hot_step :: "'cfg new_configuration \<Rightarrow> (nat \<Rightarrow> (8 word list) option) \<Rightarrow> 'cfg hot_state \<Rightarrow> 'cfg hot_state \<Rightarrow> bool"
  for rebuildCfg payload where
  invalid: "hs_phase s i = HWait \<Longrightarrow> payload i = None \<Longrightarrow>
    hot_step rebuildCfg payload s (hot_enter i (HDone (Some ''invalid payload type'')) s)"
| acquire: "hs_phase s i = HWait \<Longrightarrow> payload i = Some data \<Longrightarrow> hc_inflight (hs_client s) < inflightCap \<Longrightarrow>
    hot_step rebuildCfg payload s
      (hot_enter i HSlot (s\<lparr>hs_client := (hs_client s)\<lparr>hc_inflight := hc_inflight (hs_client s) + 1\<rparr>\<rparr>))"
| submit: "hs_phase s i = HSlot \<Longrightarrow> hot_step rebuildCfg payload s (hot_enter i HSubmitted (hot_report i RepSubmit s))"
| number: "hs_phase s i = HSubmitted \<Longrightarrow> seq = hc_seq (hs_client s) + 1 \<Longrightarrow>
    hot_step rebuildCfg payload s (hot_enter i (HNumbered seq) (s\<lparr>hs_client := (hs_client s)\<lparr>hc_seq := seq\<rparr>\<rparr>))"
| exec: "hs_phase s i = HNumbered seq \<Longrightarrow> payload i = Some data \<Longrightarrow>
    cmd = \<lparr>cmd_ClientID = hc_clientID (hs_client s), cmd_SequenceNumber = seq, cmd_Data = data\<rparr> \<Longrightarrow>
    hot_step rebuildCfg payload s
      (hot_enter i HSent (s\<lparr>hs_sent := hs_sent s @ [(cmd, hc_gorumsConfig (hs_client s))]\<rparr>))"
| answer: "hs_phase s i = HSent \<Longrightarrow> hot_step rebuildCfg payload s (hot_enter i (HAnswered err) s)"
| commit: "hs_phase s i = HAnswered None \<Longrightarrow>
    hot_step rebuildCfg payload s (hot_enter i (HReturning None) (hot_report i RepCommit s))"
| prune: "hs_phase s i = HAnswered (Some err) \<Longrightarrow>
    hot_step rebuildCfg payload s
      (hot_enter i (HPruned err) (s\<lparr>hs_client := pruneUnavailableNodes rebuildCfg err (hs_client s)\<rparr>))"
| abort: "hs_phase s i = HPruned err \<Longrightarrow>
    hot_step rebuildCfg payload s (hot_enter i (HReturning (Some err)) (hot_report i RepAbort s))"
| release: "hs_phase s i = HReturning r \<Longrightarrow>
    hot_step rebuildCfg payload s
      (hot_enter i (HDone r) (s\<lparr>hs_client := (hs_client s)\<lparr>hc_inflight := hc_inflight (hs_client s) - 1\<rparr>\<rparr>))"

inductive hot_run :: "'cfg new_configuration \<Rightarrow> (nat \<Rightarrow> (8 word list) option) \<Rightarrow> 'cfg hot_state \<Rightarrow> 'cfg hot_state \<Rightarrow> bool"
  for rebuildCfg payload where
  refl: "hot_run rebuildCfg payload s s"
| step: "hot_run rebuildCfg payload s t \<Longrightarrow> hot_step rebuildCfg payload t u \<Longrightarrow> hot_run rebuildCfg payload s u"

definition in_slot :: "hot_phase \<Rightarrow> bool" where
  "in_slot ph \<longleftrightarrow> ph \<noteq> HWait \<and> (\<forall>r. ph \<noteq> HDone r)"

fun phase_reports :: "(8 word list) option \<Rightarrow> hot_phase \<Rightarrow> report list" where
  "phase_reports p HWait = []"
| "phase_reports p HSlot = []"
| "phase_reports p (HReturning None) = [RepSubmit, RepCommit]"
| "phase_reports p (HReturning (Some _)) = [RepSubmit, RepAbort]"
| "phase_reports p (HDone r) =
     (if p = None then [] else if r = None then [RepSubmit, RepCommit] else [RepSubmit, RepAbort])"
| "phase_reports p _ = [RepSubmit]"

text \<open>The parts of the invariant: the slot, the reports and the sequence numbers.\<close>

definition slot_inv :: "(nat \<Rightarrow> (8 word list) option) \<Rightarrow> 'cfg hot_state \<Rightarrow> bool" where
  "slot_inv payload s \<longleftrightarrow>
     (\<exists>h. (\<forall>i. in_slot (hs_phase s i) \<longleftrightarrow> h = Some i) \<and> hc_inflight (hs_client s) = (if h = None then 0 else 1)) \<and>
     (\<forall>i. in_slot (hs_phase s i) \<longrightarrow> payload i \<noteq> None)"

definition report_inv :: "(nat \<Rightarrow> (8 word list) option) \<Rightarrow> 'cfg hot_state \<Rightarrow> bool" where
  "report_inv payload s \<longleftrightarrow> (\<forall>i. hs_reports s i = phase_reports (payload i) (hs_phase s i)) \<and>
     (\<forall>i. payload i = None \<longrightarrow> hs_phase s i \<in> {HWait, HDone (Some ''invalid payload type'')})"

definition number_inv :: "'cfg hot_state \<Rightarrow> bool" where
  "number_inv s \<longleftrightarrow>
     map (cmd_SequenceNumber \<circ> fst) (hs_sent s) = map (\<lambda>n. of_nat (n + 1)) [0..<length (hs_sent s)] \<and>
     (\<forall>i n. hs_phase s i = HNumbered n \<longrightarrow> n = hc_seq (hs_client s) \<and> n = of_nat (length (hs_sent s)) + 1) \<and>
     ((\<forall>i n. hs_phase s i \<noteq> HNumbered n) \<longrightarrow> hc_seq (hs_client s) = of_nat (length (hs_sent s)))"

lemma in_slot_simps [simp]:
  "\<not> in_slot HWait" "in_slot HSlot" "in_slot HSubmitted" "in_slot (HNumbered n)" "in_slot HSent" "in_slot (HAnswered e)"
  "in_slot (HPruned err)" "in_slot (HReturning r)" "\<not> in_slot (HDone r)"
  by (simp_all add: in_slot_def)

lemma hot_enter_simps [simp]:
  "hs_phase (hot_enter i ph s) = (hs_phase s)(i := ph)" "hs_client (hot_enter i ph s) = hs_client s"
  "hs_reports (hot_enter i ph s) = hs_reports s" "hs_sent (hot_enter i ph s) = hs_sent s"
  "hs_phase (hot_report i r s) = hs_phase s" "hs_client (hot_report i r s) = hs_client s"
  "hs_reports (hot_report i r s) = (hs_reports s)(i := hs_reports s i @ [r])" "hs_sent (hot_report i r s) = hs_sent s"
  by (simp_all add: hot_enter_def hot_report_def)

lemma slot_inv_stay:
  assumes "slot_inv payload s" and "hs_phase s' = (hs_phase s)(i := ph)" and "in_slot ph = in_slot (hs_phase s i)"
    and "hc_inflight (hs_client s') = hc_inflight (hs_client s)"
  shows "slot_inv payload s'"
proof -
  have "in_slot (hs_phase s' j) = in_slot (hs_phase s j)" for j using assms(2,3) by simp
  then show ?thesis using assms(1,4) by (simp add: slot_inv_def)
qed

lemma slot_alone: "slot_inv payload s \<Longrightarrow> in_slot (hs_phase s i) \<Longrightarrow> in_slot (hs_phase s j) \<Longrightarrow> i = j"
  unfolding slot_inv_def by (metis option.inject)

lemma slot_inv_step: "hot_step rebuildCfg payload s s' \<Longrightarrow> slot_inv payload s \<Longrightarrow> slot_inv payload s'"
proof (induction rule: hot_step.induct)
  case (acquire s i data)
  have free: "\<not> in_slot (hs_phase s j)" for j using acquire(3,4) by (auto simp: slot_inv_def inflightCap_def split: if_splits)
  moreover have "hc_inflight (hs_client s) = 0" using acquire(3) by (simp add: inflightCap_def)
  ultimately show ?case using acquire(2) by (auto simp: slot_inv_def intro!: exI [of _ "Some i"])
next
  case (release s i r)
  have "in_slot (hs_phase s i)" using release(1) by simp
  then have "in_slot (hs_phase s j) \<longleftrightarrow> j = i" and "hc_inflight (hs_client s) = 1" for j
    using release(2) by (auto simp: slot_inv_def split: if_splits)
  then show ?case using release(2) by (auto simp: slot_inv_def intro!: exI [of _ None])
qed (auto elim!: slot_inv_stay)

lemma report_inv_step:
  "hot_step rebuildCfg payload s s' \<Longrightarrow> slot_inv payload s \<Longrightarrow> report_inv payload s \<Longrightarrow> report_inv payload s'"
proof (induction rule: hot_step.induct)
  case (release s i r)
  have "payload i \<noteq> None" "hs_reports s i = phase_reports (payload i) (hs_phase s i)"
    using release by (auto simp: slot_inv_def report_inv_def)
  then show ?case using release by (cases r) (auto simp: report_inv_def)
qed (auto simp: report_inv_def slot_inv_def)

lemma number_inv_stay:
  assumes "number_inv s" and "hs_phase s' = (hs_phase s)(i := ph)" and "\<And>n. ph \<noteq> HNumbered n" and "\<And>n. hs_phase s i \<noteq> HNumbered n"
    and "hc_seq (hs_client s') = hc_seq (hs_client s)" and "hs_sent s' = hs_sent s"
  shows "number_inv s'"
proof -
  have "hs_phase s' j = HNumbered n \<longleftrightarrow> hs_phase s j = HNumbered n" for j n using assms(2,3,4) by simp
  then show ?thesis using assms(1,5,6) by (simp add: number_inv_def)
qed

lemma number_inv_step:
  "hot_step rebuildCfg payload s s' \<Longrightarrow> slot_inv payload s \<Longrightarrow> number_inv s \<Longrightarrow> number_inv s'"
proof (induction rule: hot_step.induct)
  case (number s i seq)
  have none: "hs_phase s j \<noteq> HNumbered n" for j n using slot_alone [OF number(3), of i j] number(1) by auto
  then have "hc_seq (hs_client s) = of_nat (length (hs_sent s))" using number(4) by (simp add: number_inv_def)
  then show ?case using number none by (auto simp: number_inv_def)
next
  case (exec s i seq data cmd)
  have "hs_phase s j \<noteq> HNumbered n" if "j \<noteq> i" for j n using slot_alone [OF exec(4), of i j] exec(1) that by auto
  moreover have "seq = hc_seq (hs_client s)" "seq = of_nat (length (hs_sent s)) + 1" using exec(1,5) by (auto simp: number_inv_def)
  ultimately show ?case using exec(3,5) by (auto simp: number_inv_def)
qed (auto elim!: number_inv_stay)

lemma hot_run_inv:
  assumes "hot_run rebuildCfg payload s s'" and "slot_inv payload s \<and> report_inv payload s \<and> number_inv s"
  shows "slot_inv payload s' \<and> report_inv payload s' \<and> number_inv s'"
  using assms by (induction rule: hot_run.induct) (auto dest: slot_inv_step report_inv_step number_inv_step)

lemma hot_start_inv:
  assumes "hot_newClient rebuildCfg rand view = Ok c"
  shows "slot_inv payload (hot_start c) \<and> report_inv payload (hot_start c) \<and> number_inv (hot_start c)"
proof -
  have "hc_inflight c = 0" "hc_seq c = 0" using assms by (auto simp: hot_newClient_def Let_def split: sum.splits)
  then show ?thesis by (auto simp: slot_inv_def report_inv_def number_inv_def hot_start_def intro: exI [of _ None])
qed

text \<open>
  C25: In every interleaving of the calls of a client at most one holds the slot, so at most one command is in flight; the
  commands carry the numbers 1, 2, 3 and so on in the order in which they are sent; a call that ends without an error has reported its submission and
  its commit, one that ends with an error its submission and its abort, and one whose payload is no slice of bytes nothing.
\<close>

theorem hot_calls_sound:
  assumes "hot_newClient rebuildCfg rand view = Ok c" and "hot_run rebuildCfg payload (hot_start c) s"
  shows "(\<forall>i j. in_slot (hs_phase s i) \<longrightarrow> in_slot (hs_phase s j) \<longrightarrow> i = j) \<and>
    map (cmd_SequenceNumber \<circ> fst) (hs_sent s) = map (\<lambda>n. of_nat (n + 1)) [0..<length (hs_sent s)] \<and>
    (\<forall>i. client_plan (hs_reports s i)) \<and>
    (\<forall>i r. hs_phase s i = HDone r \<longrightarrow>
      hs_reports s i = (if payload i = None then [] else if r = None then [RepSubmit, RepCommit] else [RepSubmit, RepAbort]))"
proof -
  have inv: "slot_inv payload s" "report_inv payload s" "number_inv s"
    using hot_run_inv [OF assms(2) hot_start_inv [OF assms(1)]] by simp_all
  have "client_plan (phase_reports p ph)" for p ph
    by (cases "(p, ph)" rule: phase_reports.cases) (auto simp: client_plan_def)
  then show ?thesis using inv slot_alone [OF inv(1)] by (auto simp: report_inv_def number_inv_def)
qed

definition sample_payload :: "nat \<Rightarrow> (8 word list) option" where
  "sample_payload i = Some [of_nat i]"

text \<open>A state in which call 3 has the slot and has reported its submission.\<close>

definition sample_midway :: "(int \<times> (string, 32 word) gomap) hot_state" where
  "sample_midway =
     (let s = hot_start sample_cluster; s = hot_enter 3 HSlot (s\<lparr>hs_client := (hs_client s)\<lparr>hc_inflight := hc_inflight (hs_client s) + 1\<rparr>\<rparr>);
          s = hot_enter 3 HSubmitted (hot_report 3 RepSubmit s) in s)"

lemma sample_midway_run: "hot_run (\<lambda>f m. Inr (f, m)) sample_payload (hot_start sample_cluster) sample_midway"
  unfolding sample_midway_def Let_def
  by (rule hot_run.step [OF hot_run.step [OF hot_run.refl acquire] submit])
    (simp_all add: hot_start_def sample_payload_def sample_cluster_def inflightCap_def)

lemma hot_calls_sound_witness:
  "in_slot (hs_phase sample_midway 3) \<and> \<not> in_slot (hs_phase sample_midway 4) \<and> client_plan (hs_reports sample_midway 3)"
proof -
  have "in_slot (hs_phase sample_midway 3)" by (simp add: sample_midway_def Let_def)
  then show ?thesis using hot_calls_sound [OF sample_new sample_midway_run] by fastforce
qed

lemma hot_run_step: "hot_step rebuildCfg payload s t \<Longrightarrow> hot_run rebuildCfg payload t u \<Longrightarrow> hot_run rebuildCfg payload s u"
  by (rotate_tac, induction rule: hot_run.induct) (auto intro: hot_run.intros)

lemma hot_run_trans: "hot_run rebuildCfg payload s t \<Longrightarrow> hot_run rebuildCfg payload t u \<Longrightarrow> hot_run rebuildCfg payload s u"
  by (rotate_tac, induction rule: hot_run.induct) (auto intro: hot_run.intros)

definition can_end :: "'cfg new_configuration \<Rightarrow> (nat \<Rightarrow> (8 word list) option) \<Rightarrow> nat \<Rightarrow> 'cfg hot_state \<Rightarrow> bool" where
  "can_end rebuildCfg payload i s \<longleftrightarrow>
     (\<exists>s' r. hot_run rebuildCfg payload s s' \<and> hs_phase s' i = HDone r \<and> (\<forall>j. j \<noteq> i \<longrightarrow> hs_phase s' j = hs_phase s j))"

lemma can_end_step:
  assumes "hot_step rebuildCfg payload s t" and "hs_phase t = (hs_phase s)(i := ph)" and "can_end rebuildCfg payload i t"
  shows "can_end rebuildCfg payload i s"
  using assms(2,3) hot_run_step [OF assms(1)] unfolding can_end_def by (metis fun_upd_other)

lemma can_end_done: "hs_phase s i = HDone r \<Longrightarrow> can_end rebuildCfg payload i s"
  unfolding can_end_def by (blast intro: hot_run.refl)

lemma can_end_returning: "hs_phase s i = HReturning r \<Longrightarrow> can_end rebuildCfg payload i s"
  by (rule can_end_step [OF release], assumption, simp, rule can_end_done, simp)

lemma can_end_pruned: "hs_phase s i = HPruned err \<Longrightarrow> can_end rebuildCfg payload i s"
  by (rule can_end_step [OF abort], assumption, simp, rule can_end_returning, simp)

lemma can_end_answered: "hs_phase s i = HAnswered e \<Longrightarrow> can_end rebuildCfg payload i s"
proof (cases e)
  case None
  assume "hs_phase s i = HAnswered e"
  then have a: "hs_phase s i = HAnswered None" using None by simp
  show ?thesis by (rule can_end_step [OF commit [OF a]], simp, rule can_end_returning, simp)
next
  case (Some err)
  assume "hs_phase s i = HAnswered e"
  then have a: "hs_phase s i = HAnswered (Some err)" using Some by simp
  show ?thesis by (rule can_end_step [OF prune [OF a]], simp, rule can_end_pruned, simp)
qed

lemma can_end_sent: "hs_phase s i = HSent \<Longrightarrow> can_end rebuildCfg payload i s"
  by (rule can_end_step [OF answer [of _ _ _ _ None]], assumption, simp, rule can_end_answered, simp)

lemma can_end_numbered: "hs_phase s i = HNumbered n \<Longrightarrow> payload i = Some data \<Longrightarrow> can_end rebuildCfg payload i s"
  by (rule can_end_step [OF exec [OF _ _ HOL.refl]], assumption, assumption, simp, rule can_end_sent, simp)

lemma can_end_submitted: "hs_phase s i = HSubmitted \<Longrightarrow> payload i = Some data \<Longrightarrow> can_end rebuildCfg payload i s"
  by (rule can_end_step [OF number [OF _ HOL.refl]], assumption, simp, rule can_end_numbered, simp, assumption)

lemma can_end_slot: "in_slot (hs_phase s i) \<Longrightarrow> payload i = Some data \<Longrightarrow> can_end rebuildCfg payload i s"
proof (cases "hs_phase s i")
  case HSlot
  assume p: "payload i = Some data"
  show ?thesis by (rule can_end_step [OF submit [OF HSlot]], simp, rule can_end_submitted, simp, rule p)
qed (auto intro: can_end_returning can_end_pruned can_end_answered can_end_sent can_end_numbered can_end_submitted)

text \<open>
  No call is stuck for ever: from every reachable state the replicas can answer so that the call that holds the slot ends,
  and then any call that waits can have its turn and end as well.
\<close>

theorem hot_calls_can_end:
  assumes "hot_newClient rebuildCfg rand view = Ok c" and "hot_run rebuildCfg payload (hot_start c) s"
  shows "\<exists>s' r. hot_run rebuildCfg payload s s' \<and> hs_phase s' i = HDone r"
proof -
  have inv: "slot_inv payload s \<and> report_inv payload s \<and> number_inv s"
    using hot_run_inv [OF assms(2) hot_start_inv [OF assms(1)]] .
  show ?thesis
  proof (cases "hs_phase s i = HWait")
    case False
    then consider (slot) "in_slot (hs_phase s i)" | (over) r where "hs_phase s i = HDone r" unfolding in_slot_def by blast
    then have "can_end rebuildCfg payload i s"
    proof cases
      case slot
      then obtain data where "payload i = Some data" using inv by (auto simp: slot_inv_def)
      then show ?thesis by (rule can_end_slot [OF slot])
    qed (rule can_end_done)
    then show ?thesis unfolding can_end_def by blast
  next
    case True
    obtain t where t: "hot_run rebuildCfg payload s t" "hs_phase t i = HWait" "\<And>j. \<not> in_slot (hs_phase t j)"
    proof (cases "\<exists>j. in_slot (hs_phase s j)")
      case True
      then obtain j where j: "in_slot (hs_phase s j)" by blast
      then obtain data where "payload j = Some data" using inv by (auto simp: slot_inv_def)
      then obtain s' r where s': "hot_run rebuildCfg payload s s'" "hs_phase s' j = HDone r"
        and others: "\<And>k. k \<noteq> j \<Longrightarrow> hs_phase s' k = hs_phase s k"
        using can_end_slot [OF j] unfolding can_end_def by metis
      have "\<not> in_slot (hs_phase s' k)" for k
        using s'(2) others [of k] slot_alone [OF conjunct1 [OF inv] j, of k] by (cases "k = j") auto
      moreover have "i \<noteq> j" using j \<open>hs_phase s i = HWait\<close> by auto
      ultimately show ?thesis using that s'(1) others \<open>hs_phase s i = HWait\<close> by metis
    qed (use that [of s] True in \<open>auto intro: hot_run.refl\<close>)
    have "can_end rebuildCfg payload i t"
    proof (cases "payload i")
      case None
      show ?thesis by (rule can_end_step [OF invalid [where payload = payload, OF t(2) None]], simp, rule can_end_done, simp)
    next
      case (Some data)
      have "slot_inv payload t" using hot_run_inv [OF t(1) inv] by simp
      then have free: "hc_inflight (hs_client t) < inflightCap" using t(3) by (auto simp: slot_inv_def inflightCap_def)
      show ?thesis by (rule can_end_step [OF acquire [where payload = payload, OF t(2) Some free]], simp, rule can_end_slot, simp, rule Some)
    qed
    then show ?thesis unfolding can_end_def using hot_run_trans [OF t(1)] by blast
  qed
qed

lemma hot_calls_can_end_witness:
  "\<exists>s' r. hot_run (\<lambda>f m. Inr (f, m)) sample_payload sample_midway s' \<and> hs_phase s' 4 = HDone r"
  by (rule hot_calls_can_end [OF sample_new sample_midway_run])

end
