(* ===== verification/Red_Client.thy ===== *)
theory Red_Client
  imports Core_Secondary Core_Report
begin

text \<open>
  The redundant driver (\<^verbatim>\<open>src/blockchains/nredundant\<close>): it creates a client per endpoint and triggers every
  interaction on all of them at once. What they report is combined by a wrapper around the
  interaction. The goroutines of the clients interleave; a critical section is one step, and the call of
  the inner interaction that follows it is another.
\<close>

section \<open>Creating the clients\<close>

definition redundancy_param :: "(string, string) gomap \<Rightarrow> (nat \<times> (string, string) gomap) outcome" where
  "redundancy_param params =
     (case gomap_get params ''redundancy'' of
        None \<Rightarrow> Ok (1, params)
      | Some val \<Rightarrow>
          (case ParseUint val of
             None \<Rightarrow> Err (Errorf ''invalid redundancy parameter: %v'' [AStr val])
           | Some redundancy \<Rightarrow>
               if redundancy = 0 then Err (Errorf ''invalid redundancy parameter: %v'' [AInt 0])
               else Ok (redundancy, gomap_del ''redundancy'' params)))"

fun create_clients ::
  "((string, string) gomap \<Rightarrow> string list \<Rightarrow> string list \<Rightarrow> 'cl outcome) \<Rightarrow> (string, string) gomap \<Rightarrow> string list
     \<Rightarrow> string list \<Rightarrow> 'cl list outcome" where
  "create_clients inner params env [] = Ok []"
| "create_clients inner params env (endpoint # view) =
     obind (inner params env [endpoint]) (\<lambda>client.
     obind (create_clients inner params env view) (\<lambda>clients. Ok (client # clients)))"

text \<open>
  The number is converted to an \<^verbatim>\<open>int\<close> for the comparison, which makes it negative from \<open>2 ^ 63\<close> on, but not for
  the length of the slice.
\<close>

definition red_Client ::
  "((string, string) gomap \<Rightarrow> string list \<Rightarrow> string list \<Rightarrow> 'cl outcome) \<Rightarrow> (string, string) gomap \<Rightarrow> string list
     \<Rightarrow> string list \<Rightarrow> 'cl list outcome" where
  "red_Client inner params env view =
     obind (redundancy_param params) (\<lambda>(redundancy, params).
     if int (length view) < wrap64 (int redundancy)
     then Err (Errorf ''less endpoints (%v) than redundancy (%v)'' [AInt (int (length view)), AInt (int redundancy)])
     else if redundancy > length view then Panic ''makeslice: len out of range''
     else create_clients inner params env (take redundancy view))"

definition red_DecodePayload :: "('cl \<Rightarrow> byte list \<Rightarrow> 'op outcome) \<Rightarrow> 'cl list \<Rightarrow> byte list \<Rightarrow> 'op outcome" where
  "red_DecodePayload decode clients encoded =
     (case clients of [] \<Rightarrow> Panic ''index out of range'' | client # _ \<Rightarrow> decode client encoded)"

lemma create_clients_Ok:
  "create_clients inner params env view = Ok clients \<Longrightarrow>
   list_all2 (\<lambda>endpoint client. inner params env [endpoint] = Ok client) view clients"
  by (induction view arbitrary: clients)
    (auto simp: obind_def list_all2_Cons1 split: outcome.splits)

text \<open>Each of the clients has an endpoint of its own; a huge number panics.\<close>

lemma red_Client_spec:
  assumes "length view < 2 ^ 63" and "redundancy_param params = Ok (n, params')"
  shows "red_Client inner params env view =
    (if 2 ^ 63 \<le> n then Panic ''makeslice: len out of range''
     else if length view < n then Err (Errorf ''less endpoints (%v) than redundancy (%v)'' [AInt (int (length view)), AInt (int n)])
     else create_clients inner params' env (take n view))"
proof -
  have n: "n < 2 ^ 64"
    using assms(2) by (auto simp: redundancy_param_def ParseUint_def Let_def split: option.splits if_splits)
  show ?thesis
  proof (cases "2 ^ 63 \<le> n")
    case True
    have "(word_of_int (int n - 2 ^ 64) :: 64 word) = word_of_int (int n)"
      by (subst word_of_int_eq_iff) (simp add: take_bit_eq_mod)
    then have "wrap64 (int n - 2 ^ 64) = wrap64 (int n)" by (simp only: wrap64_def)
    then have "wrap64 (int n) = int n - 2 ^ 64"
      using True n wrap64_id [of "int n - 2 ^ 64"] by (simp add: int64_def)
    with True n assms show ?thesis by (simp add: red_Client_def obind_def)
  next
    case False
    then have "wrap64 (int n) = int n" by (simp add: int64_def)
    with False assms show ?thesis by (simp add: red_Client_def obind_def)
  qed
qed

section \<open>The wrapper\<close>

record interaction =
  rx_threshold :: nat
  rx_submitted :: bool
  rx_committed :: bool
  rx_aborted :: bool
  rx_timesCommitted :: nat
  rx_timesAborted :: nat

definition new_interaction :: "nat \<Rightarrow> interaction" where
  "new_interaction threshold = \<lparr>rx_threshold = threshold, rx_submitted = False, rx_committed = False,
     rx_aborted = False, rx_timesCommitted = 0, rx_timesAborted = 0\<rparr>"

text \<open>The critical section of each report; the flag tells whether the inner interaction is then called.\<close>

definition red_ReportSubmit :: "interaction \<Rightarrow> bool \<times> interaction" where
  "red_ReportSubmit x = (if rx_submitted x then (False, x) else (True, x\<lparr>rx_submitted := True\<rparr>))"

definition red_ReportCommit :: "interaction \<Rightarrow> bool \<times> interaction" where
  "red_ReportCommit x =
     (if rx_committed x then (False, x)
      else
        let x = x\<lparr>rx_timesCommitted := rx_timesCommitted x + 1\<rparr>;
            x = (if rx_timesCommitted x = rx_threshold x then x\<lparr>rx_committed := True\<rparr> else x) in
        (rx_committed x, x))"

definition red_ReportAbort :: "interaction \<Rightarrow> bool \<times> interaction" where
  "red_ReportAbort x =
     (if rx_aborted x then (False, x)
      else
        let x = x\<lparr>rx_timesAborted := rx_timesAborted x + 1\<rparr>;
            x = (if rx_timesAborted x = rx_threshold x then x\<lparr>rx_aborted := True\<rparr> else x) in
        (rx_aborted x, x))"

fun red_report :: "report \<Rightarrow> interaction \<Rightarrow> bool \<times> interaction" where
  "red_report RepSubmit x = red_ReportSubmit x"
| "red_report RepCommit x = red_ReportCommit x"
| "red_report RepAbort x = red_ReportAbort x"

text \<open>
  \<^verbatim>\<open>TriggerInteraction\<close>: \<open>rd_plan i\<close> is what the client \<open>i\<close> reports in its call, \<open>rd_made i\<close> how many of these
  reports it has made, \<open>rd_call i\<close> the report whose inner call is still to come, and \<open>rd_inner\<close> what the inner interaction was
  told.
\<close>

record red_state =
  rd_plan :: "nat \<Rightarrow> report list"
  rd_iact :: interaction
  rd_made :: "nat \<Rightarrow> nat"
  rd_call :: "nat \<Rightarrow> report option"
  rd_inner :: "report list"

definition red_start :: "nat \<Rightarrow> (nat \<Rightarrow> report list) \<Rightarrow> red_state" where
  "red_start n plan = \<lparr>rd_plan = plan, rd_iact = new_interaction n, rd_made = (\<lambda>_. 0), rd_call = (\<lambda>_. None), rd_inner = []\<rparr>"

definition red_enter :: "nat \<Rightarrow> red_state \<Rightarrow> red_state" where
  "red_enter i s =
     (let r = rd_plan s i ! rd_made s i in
      case red_report r (rd_iact s) of (call, x) \<Rightarrow>
        s\<lparr>rd_iact := x, rd_made := (rd_made s)(i := rd_made s i + 1),
          rd_call := (rd_call s)(i := if call then Some r else None)\<rparr>)"

inductive red_step :: "nat \<Rightarrow> red_state \<Rightarrow> red_state \<Rightarrow> bool" for n where
  enter: "i < n \<Longrightarrow> rd_call s i = None \<Longrightarrow> rd_made s i < length (rd_plan s i) \<Longrightarrow> red_step n s (red_enter i s)"
| inner: "i < n \<Longrightarrow> rd_call s i = Some r \<Longrightarrow>
    red_step n s (s\<lparr>rd_call := (rd_call s)(i := None), rd_inner := rd_inner s @ [r]\<rparr>)"

inductive red_run :: "nat \<Rightarrow> red_state \<Rightarrow> red_state \<Rightarrow> bool" for n where
  refl: "red_run n s s"
| step: "red_run n s t \<Longrightarrow> red_step n t u \<Longrightarrow> red_run n s u"

definition red_finished :: "nat \<Rightarrow> red_state \<Rightarrow> bool" where
  "red_finished n s \<longleftrightarrow> (\<forall>i < n. rd_made s i = length (rd_plan s i) \<and> rd_call s i = None)"

text \<open>\<^verbatim>\<open>g.Wait\<close>: the error of the call that was the first to fail, in the order in which the calls returned.\<close>

definition group_Wait :: "go_error option list \<Rightarrow> go_error option" where
  "group_Wait returned = (case filter (\<lambda>e. e \<noteq> None) returned of [] \<Rightarrow> None | e # _ \<Rightarrow> e)"

section \<open>The invariant\<close>

definition taken :: "red_state \<Rightarrow> nat \<Rightarrow> report list" where
  "taken s i = take (rd_made s i) (rd_plan s i)"

text \<open>How often the clients together have reported \<open>r\<close>.\<close>

definition all_reports :: "nat \<Rightarrow> report \<Rightarrow> red_state \<Rightarrow> nat" where
  "all_reports n r s = (\<Sum>i < n. count_list (taken s i) r)"

text \<open>The counters of the wrapper count the reports up to the threshold, whoever makes them.\<close>

definition counters_ok :: "nat \<Rightarrow> red_state \<Rightarrow> bool" where
  "counters_ok n s \<longleftrightarrow> rx_threshold (rd_iact s) = n \<and>
     (rx_submitted (rd_iact s) \<longleftrightarrow> 0 < all_reports n RepSubmit s) \<and>
     rx_timesCommitted (rd_iact s) = min n (all_reports n RepCommit s) \<and>
     (rx_committed (rd_iact s) \<longleftrightarrow> n \<le> all_reports n RepCommit s) \<and>
     rx_timesAborted (rd_iact s) = min n (all_reports n RepAbort s) \<and>
     (rx_aborted (rd_iact s) \<longleftrightarrow> n \<le> all_reports n RepAbort s)"

fun flag :: "report \<Rightarrow> interaction \<Rightarrow> bool" where
  "flag RepSubmit x = rx_submitted x"
| "flag RepCommit x = rx_committed x"
| "flag RepAbort x = rx_aborted x"

text \<open>How often the inner interaction was or is about to be told \<open>r\<close>.\<close>

definition callers :: "nat \<Rightarrow> report \<Rightarrow> (nat \<Rightarrow> report option) \<Rightarrow> nat set" where
  "callers n r f = {i. i < n \<and> f i = Some r}"

lemma finite_callers [simp]: "finite (callers n r f)"
  by (simp add: callers_def)

definition told :: "nat \<Rightarrow> report \<Rightarrow> red_state \<Rightarrow> nat" where
  "told n r s = count_list (rd_inner s) r + card (callers n r (rd_call s))"

definition red_inv :: "nat \<Rightarrow> red_state \<Rightarrow> bool" where
  "red_inv n s \<longleftrightarrow> (\<forall>i < n. rd_made s i \<le> length (rd_plan s i)) \<and> counters_ok n s \<and>
     (\<forall>i < n. \<forall>r. rd_call s i = Some r \<longrightarrow> taken s i \<noteq> [] \<and> last (taken s i) = r) \<and>
     (\<forall>r. told n r s = (if flag r (rd_iact s) then 1 else 0))"

text \<open>With clients that keep to a plan, the submission comes first.\<close>

definition red_order :: "nat \<Rightarrow> red_state \<Rightarrow> bool" where
  "red_order n s \<longleftrightarrow> (\<forall>i < n. client_plan (rd_plan s i)) \<and> (rd_inner s \<noteq> [] \<longrightarrow> hd (rd_inner s) = RepSubmit)"

lemma client_plan_distinct: "client_plan rs \<Longrightarrow> distinct rs"
  by (auto simp: client_plan_def)

lemma taken_cases:
  assumes "client_plan (rd_plan s i)"
  shows "taken s i \<in> {[], [RepSubmit], [RepSubmit, RepCommit], [RepSubmit, RepAbort]}"
proof -
  consider "rd_made s i = 0" | "rd_made s i = 1" | "rd_made s i \<ge> 2" by linarith
  then show ?thesis using assms by cases (auto simp: taken_def client_plan_def)
qed

text \<open>What entering a report changes, for the report and for the others.\<close>

lemma red_report_frame:
  assumes "red_report r x = (call, x')"
  shows "rx_threshold x' = rx_threshold x" "r' \<noteq> r \<Longrightarrow> flag r' x' = flag r' x"
    "flag r x' \<longleftrightarrow> flag r x \<or> call" "call \<Longrightarrow> \<not> flag r x"
    "r \<noteq> RepCommit \<Longrightarrow> rx_timesCommitted x' = rx_timesCommitted x"
    "r \<noteq> RepAbort \<Longrightarrow> rx_timesAborted x' = rx_timesAborted x"
  using assms by (cases r; cases r'; auto simp: red_ReportSubmit_def red_ReportCommit_def red_ReportAbort_def Let_def split: if_splits)+

definition entering :: "nat \<Rightarrow> nat \<Rightarrow> red_state \<Rightarrow> report \<Rightarrow> bool \<Rightarrow> interaction \<Rightarrow> bool" where
  "entering n i s r call x \<longleftrightarrow> i < n \<and> rd_made s i < length (rd_plan s i) \<and> red_inv n s \<and> rd_call s i = None \<and>
     r = rd_plan s i ! rd_made s i \<and> red_report r (rd_iact s) = (call, x)"

lemma enter_fields:
  assumes "entering n i s r call x"
  shows "rd_plan (red_enter i s) = rd_plan s" "rd_iact (red_enter i s) = x" "rd_inner (red_enter i s) = rd_inner s"
    "rd_made (red_enter i s) = (rd_made s)(i := rd_made s i + 1)"
    "rd_call (red_enter i s) = (rd_call s)(i := if call then Some r else None)"
  using assms by (auto simp: entering_def red_enter_def)

lemma enter_taken:
  assumes "entering n i s r call x"
  shows "taken (red_enter i s) j = (if j = i then taken s i @ [r] else taken s j)"
  using assms by (simp add: taken_def enter_fields [OF assms] entering_def take_Suc_conv_app_nth)

lemma enter_total:
  assumes "entering n i s r call x"
  shows "all_reports n r' (red_enter i s) = all_reports n r' s + (if r' = r then 1 else 0)"
proof -
  have i: "i < n" using assms by (simp add: entering_def)
  have "all_reports n r' (red_enter i s) =
      (\<Sum>j < n. count_list (taken s j) r' + (if j = i then if r' = r then 1 else 0 else 0))"
    unfolding all_reports_def by (rule sum.cong) (auto simp: enter_taken [OF assms])
  then show ?thesis using i by (simp add: sum.distrib all_reports_def)
qed

lemma enter_counters:
  assumes "entering n i s r call x"
  shows "counters_ok n (red_enter i s)"
proof -
  have inv: "red_inv n s" and run: "red_report r (rd_iact s) = (call, x)"
    using assms by (auto simp: entering_def)
  from inv have c: "counters_ok n s" by (simp add: red_inv_def)
  with run show ?thesis
    by (cases r) (auto simp: counters_ok_def enter_fields [OF assms] enter_total [OF assms] red_ReportSubmit_def
        red_ReportCommit_def red_ReportAbort_def Let_def split: if_splits)
qed

lemma callers_update:
  "i < n \<Longrightarrow> callers n r (f(i := v)) = (if v = Some r then insert i (callers n r f) else callers n r f - {i})"
  by (auto simp: callers_def)

lemma card_callers_update:
  assumes "i < n" and "f i = None"
  shows "card (callers n r (f(i := v))) = card (callers n r f) + (if v = Some r then 1 else 0)"
proof -
  have "i \<notin> callers n r f" using assms(2) by (simp add: callers_def)
  then show ?thesis using assms(1) by (simp add: callers_update)
qed

lemma enter_told:
  assumes "entering n i s r call x"
  shows "told n r' (red_enter i s) = (if flag r' x then 1 else 0)"
proof -
  have inv: "red_inv n s" and run: "red_report r (rd_iact s) = (call, x)" and i: "i < n" "rd_call s i = None"
    using assms by (auto simp: entering_def)
  from inv have "told n r' s = (if flag r' (rd_iact s) then 1 else 0)" by (simp add: red_inv_def)
  moreover have "told n r' (red_enter i s) = told n r' s + (if call \<and> r' = r then 1 else 0)"
    unfolding told_def enter_fields [OF assms] card_callers_update [of i n "rd_call s", OF i] by auto
  ultimately show ?thesis using red_report_frame(2-4) [OF run] by (cases "r' = r") auto
qed

lemma red_inv_enter:
  assumes "entering n i s r call x"
  shows "red_inv n (red_enter i s)"
proof -
  have inv: "red_inv n s" and i: "rd_made s i < length (rd_plan s i)" using assms by (simp_all add: entering_def)
  have "taken (red_enter i s) j \<noteq> [] \<and> last (taken (red_enter i s) j) = r'"
    if "j < n" "rd_call (red_enter i s) j = Some r'" for j r'
    using that inv by (auto simp: red_inv_def enter_taken [OF assms] enter_fields [OF assms] split: if_splits)
  with inv i enter_counters [OF assms] enter_told [OF assms] show ?thesis
    unfolding red_inv_def [of n "red_enter i s"] enter_fields [OF assms] by (auto simp: red_inv_def)
qed

lemma red_inv_inner:
  assumes "red_inv n s" and "i < n" and "rd_call s i = Some r"
  shows "red_inv n (s\<lparr>rd_call := (rd_call s)(i := None), rd_inner := rd_inner s @ [r]\<rparr>)" (is "red_inv n ?s")
proof -
  note inv = assms(1) [unfolded red_inv_def]
  have taken: "taken ?s = taken s" "all_reports n r' ?s = all_reports n r' s" for r'
    by (simp_all add: taken_def [abs_def] all_reports_def)
  have "i \<in> callers n r (rd_call s)" "r' \<noteq> r \<Longrightarrow> i \<notin> callers n r' (rd_call s)" for r'
    using assms(2,3) by (auto simp: callers_def)
  then have "told n r' ?s = told n r' s" for r'
    using assms(2) card_Suc_Diff1 [of "callers n r (rd_call s)" i] by (cases "r' = r") (auto simp: told_def callers_update)
  then show ?thesis using inv by (simp add: red_inv_def counters_ok_def taken)
qed

lemma red_inv_step: "red_step n s t \<Longrightarrow> red_inv n s \<Longrightarrow> red_inv n t"
proof (induction rule: red_step.induct)
  case (enter i s)
  obtain call x where "red_report (rd_plan s i ! rd_made s i) (rd_iact s) = (call, x)" by force
  with enter have "entering n i s (rd_plan s i ! rd_made s i) call x" by (simp add: entering_def)
  then show ?case by (rule red_inv_enter)
qed (rule red_inv_inner)

lemma red_inv_start: "0 < n \<Longrightarrow> red_inv n (red_start n plan)"
  by (auto simp: red_inv_def red_start_def counters_ok_def all_reports_def taken_def new_interaction_def told_def callers_def
      elim: flag.elims)

lemma red_inv_run: "red_run n s t \<Longrightarrow> red_inv n s \<Longrightarrow> red_inv n t \<and> rd_plan t = rd_plan s"
proof (induction rule: red_run.induct)
  case (step s t u)
  from step(2) have "rd_plan u = rd_plan t"
    by (induction rule: red_step.induct) (auto simp: red_enter_def Let_def split: prod.splits)
  with step red_inv_step show ?case by auto
qed simp

text \<open>When no client reports twice, \<open>n\<close> reports are one of each client.\<close>

lemma sum_all_ones: "(\<And>i. i < n \<Longrightarrow> f i \<le> (1 :: nat)) \<Longrightarrow> n \<le> (\<Sum>i < n. f i) \<longleftrightarrow> (\<forall>i < n. f i = 1)"
proof (induction n)
  case (Suc n)
  have "(\<Sum>i < n. f i) \<le> n" using sum_mono [of "{..<n}" f "\<lambda>_. 1"] Suc.prems by simp
  then show ?case using Suc.IH Suc.prems [of n] Suc.prems by (fastforce simp: less_Suc_eq)
qed simp

lemma count_list_distinct: "distinct xs \<Longrightarrow> count_list xs x = (if x \<in> set xs then 1 else 0)"
  by (induction xs) auto

lemma total_all:
  assumes "\<And>i. i < n \<Longrightarrow> distinct (taken s i)"
  shows "n \<le> all_reports n r s \<longleftrightarrow> (\<forall>i < n. r \<in> set (taken s i))"
proof -
  have one: "count_list (taken s i) r = (if r \<in> set (taken s i) then 1 else 0)" if "i < n" for i
    using assms [OF that] by (simp add: count_list_distinct)
  then show ?thesis unfolding all_reports_def by (subst sum_all_ones) (auto split: if_splits)
qed

lemma client_plan_taken: "client_plan (rd_plan s i) \<Longrightarrow> distinct (taken s i)"
  by (simp add: taken_def client_plan_distinct)

text \<open>An end is told only after the submission: every client has made its first report by then.\<close>

lemma end_after_submit:
  assumes "red_inv n s" and "red_order n s" and "i < n" and "rd_call s i = Some r" and "r \<noteq> RepSubmit"
  shows "rd_inner s \<noteq> []"
proof -
  note inv = assms(1) [unfolded red_inv_def counters_ok_def]
  have plan: "client_plan (rd_plan s j)" if "j < n" for j using assms(2) that by (simp add: red_order_def)
  have "callers n r (rd_call s) \<noteq> {}" using assms(3,4) by (auto simp: callers_def)
  then have "told n r s \<noteq> 0" by (simp add: told_def card_eq_0_iff)
  then have "flag r (rd_iact s)" using inv by (auto split: if_splits)
  then have "n \<le> all_reports n r s" using inv assms(5) by (cases r) auto
  then have all: "\<forall>j < n. r \<in> set (taken s j)" using total_all client_plan_taken [OF plan] by blast
  have shape: "last (taken s j) \<noteq> RepSubmit \<and> RepSubmit \<in> set (taken s j)" if "j < n" for j
    using taken_cases [OF plan [OF that]] all that assms(5) by auto
  then have "rd_call s j \<noteq> Some RepSubmit" if "j < n" for j using inv that by fastforce
  then have "callers n RepSubmit (rd_call s) = {}" by (simp add: callers_def)
  moreover have "count_list (taken s i) RepSubmit \<noteq> 0" using shape [OF assms(3)] by (simp add: count_list_0_iff)
  then have "0 < all_reports n RepSubmit s"
    unfolding all_reports_def using assms(3) by (intro sum_pos2 [of _ i]) simp_all
  then have "told n RepSubmit s = 1" using inv by auto
  ultimately show ?thesis by (auto simp: told_def)
qed

lemma red_order_step: "red_step n s t \<Longrightarrow> red_inv n s \<Longrightarrow> red_order n s \<Longrightarrow> red_order n t"
proof (induction rule: red_step.induct)
  case (enter i s)
  then show ?case by (simp add: red_order_def red_enter_def Let_def split: prod.splits)
next
  case (inner i s r)
  have "hd (rd_inner s @ [r]) = RepSubmit"
    using end_after_submit [OF inner(3,4,1,2)] inner(4) by (cases "rd_inner s") (auto simp: red_order_def)
  with inner(4) show ?case by (simp add: red_order_def)
qed

lemma red_order_run: "red_run n s t \<Longrightarrow> red_inv n s \<Longrightarrow> red_order n s \<Longrightarrow> red_order n t"
  by (induction rule: red_run.induct) (auto dest: red_inv_run red_order_step)

section \<open>What the inner interaction is told\<close>

lemma finished_taken: "red_finished n s \<Longrightarrow> i < n \<Longrightarrow> taken s i = rd_plan s i"
  by (simp add: red_finished_def taken_def)

lemma inner_shape:
  assumes "rs \<noteq> [] \<longrightarrow> hd rs = RepSubmit" and "\<And>r. count_list rs r = (if P r then 1 else 0)"
    and "P RepCommit \<or> P RepAbort \<longrightarrow> P RepSubmit" and "\<not> (P RepCommit \<and> P RepAbort)"
  shows "rs = (if P RepSubmit then [RepSubmit] else []) @ (if P RepCommit then [RepCommit] else if P RepAbort then [RepAbort] else [])"
proof -
  have len: "length xs = count_list xs RepSubmit + count_list xs RepCommit + count_list xs RepAbort" for xs
  proof (induction xs)
    case (Cons x xs)
    then show ?case by (cases x) auto
  qed simp
  have "length rs \<le> 2" unfolding len [of rs] assms(2) using assms(4) by auto
  then consider "rs = []" | x where "rs = [x]" | x y where "rs = [x, y]"
    by (cases rs; cases "tl rs"; cases "tl (tl rs)") auto
  moreover note count = assms(2) [of RepSubmit] assms(2) [of RepCommit] assms(2) [of RepAbort]
  ultimately show ?thesis
  proof cases
    case 1
    then show ?thesis using count by (cases "P RepSubmit"; cases "P RepCommit"; cases "P RepAbort") simp_all
  next
    case (2 x)
    then have "x = RepSubmit" using assms(1) by simp
    with 2 show ?thesis using count by (cases "P RepSubmit"; cases "P RepCommit"; cases "P RepAbort") simp_all
  next
    case (3 x y)
    then have "x = RepSubmit" using assms(1) by simp
    with 3 show ?thesis using count by (cases "P RepSubmit"; cases "P RepCommit"; cases "P RepAbort"; cases y) simp_all
  qed
qed

text \<open>What the inner interaction was told at the end, whatever the clients reported.\<close>

lemma redundant_counts:
  assumes "0 < n" and "red_run n (red_start n plan) s" and "red_finished n s"
  shows "count_list (rd_inner s) r = (if (if r = RepSubmit then 1 else n) \<le> (\<Sum>i < n. count_list (plan i) r) then 1 else 0)"
proof -
  have inv: "red_inv n s" and plan: "rd_plan s = plan"
    using red_inv_run [OF assms(2) red_inv_start [OF assms(1)]] by (auto simp: red_start_def)
  have "all_reports n r s = (\<Sum>i < n. count_list (plan i) r)"
    unfolding all_reports_def by (rule sum.cong) (use finished_taken [OF assms(3)] plan in auto)
  then have "flag r (rd_iact s) \<longleftrightarrow> (if r = RepSubmit then 1 else n) \<le> (\<Sum>i < n. count_list (plan i) r)"
    using inv by (cases r) (simp_all add: red_inv_def counters_ok_def Suc_le_eq)
  moreover have none: "callers n r (rd_call s) = {}" using assms(3) by (auto simp: callers_def red_finished_def)
  have "told n r s = (if flag r (rd_iact s) then 1 else 0)" using inv by (simp add: red_inv_def)
  then have "count_list (rd_inner s) r = (if flag r (rd_iact s) then 1 else 0)"
    unfolding told_def none by simp
  ultimately show ?thesis by simp
qed

text \<open>
  C23: Whatever the interleaving of \<open>n\<close> redundant clients and whatever each of them reports, the interaction of the core is
  told of the submission exactly once if some client reports it, and of a commit or an abort exactly once if the clients together
  report it at least \<open>n\<close> times, otherwise never. So if each of the clients reports nothing, a submission, or a
  submission and one end, it is told of the submission first, then of a commit exactly if every client commits, and of
  an abort exactly if every client aborts; with clients that disagree it is told of neither.
\<close>

theorem redundant_reports:
  assumes "0 < n" and "red_run n (red_start n plan) s" and "red_finished n s"
  shows "(\<forall>r. count_list (rd_inner s) r =
      (if (if r = RepSubmit then 1 else n) \<le> (\<Sum>i < n. count_list (plan i) r) then 1 else 0)) \<and>
    ((\<forall>i < n. client_plan (plan i)) \<longrightarrow> rd_inner s =
      (if \<exists>i < n. plan i \<noteq> [] then [RepSubmit] else []) @
      (if \<forall>i < n. plan i = [RepSubmit, RepCommit] then [RepCommit]
       else if \<forall>i < n. plan i = [RepSubmit, RepAbort] then [RepAbort] else []))"
proof (intro conjI allI impI)
  show "count_list (rd_inner s) r = (if (if r = RepSubmit then 1 else n) \<le> (\<Sum>i < n. count_list (plan i) r) then 1 else 0)" for r
    by (rule redundant_counts [OF assms])
  assume plans: "\<forall>i < n. client_plan (plan i)"
  have order: "red_order n s"
    using red_order_run [OF assms(2) red_inv_start [OF assms(1)]] plans by (simp add: red_order_def red_start_def)
  let ?P = "\<lambda>r. (if r = RepSubmit then 1 else n) \<le> (\<Sum>i < n. count_list (plan i) r)"
  have one: "count_list (plan i) r = (if r \<in> set (plan i) then 1 else 0)" if "i < n" for i r
    using plans that client_plan_distinct by (simp add: count_list_distinct)
  have ends: "?P r \<longleftrightarrow> (\<forall>i < n. plan i = [RepSubmit, r])" if "r \<noteq> RepSubmit" for r
  proof -
    have "?P r \<longleftrightarrow> (\<forall>i < n. r \<in> set (plan i))" using that one by (simp add: sum_all_ones) (metis one zero_neq_one)
    moreover have "r \<in> set (plan i) \<longleftrightarrow> plan i = [RepSubmit, r]" if "i < n" for i
      using plans that \<open>r \<noteq> RepSubmit\<close> by (cases r) (auto simp: client_plan_def)
    ultimately show ?thesis by auto
  qed
  have first: "RepSubmit \<in> set (plan i) \<longleftrightarrow> plan i \<noteq> []" if "i < n" for i
    using plans that by (auto simp: client_plan_def)
  have "(\<Sum>i < n. count_list (plan i) RepSubmit) = 0 \<longleftrightarrow> (\<forall>i < n. plan i = [])"
    using first by (auto simp: count_list_0_iff)
  then have P: "?P RepSubmit \<longleftrightarrow> (\<exists>i < n. plan i \<noteq> [])"
    "?P RepCommit \<longleftrightarrow> (\<forall>i < n. plan i = [RepSubmit, RepCommit])" "?P RepAbort \<longleftrightarrow> (\<forall>i < n. plan i = [RepSubmit, RepAbort])"
    using ends by (auto simp: Suc_le_eq simp flip: neq0_conv)
  have "?P RepCommit \<or> ?P RepAbort \<longrightarrow> ?P RepSubmit" "\<not> (?P RepCommit \<and> ?P RepAbort)"
    using assms(1) unfolding P by fastforce+
  then have "rd_inner s = (if ?P RepSubmit then [RepSubmit] else []) @
      (if ?P RepCommit then [RepCommit] else if ?P RepAbort then [RepAbort] else [])"
    using order redundant_counts [OF assms] by (intro inner_shape) (auto simp: red_order_def)
  then show "rd_inner s = (if \<exists>i < n. plan i \<noteq> [] then [RepSubmit] else []) @
      (if \<forall>i < n. plan i = [RepSubmit, RepCommit] then [RepCommit]
       else if \<forall>i < n. plan i = [RepSubmit, RepAbort] then [RepAbort] else [])"
    unfolding P .
qed

text \<open>
  A client that reports an abort twice counts twice. The Solana client does so for a call that its node refuses
  (\<^verbatim>\<open>src/blockchains/nsolana/client.go\<close>: once by the call, once by \<^verbatim>\<open>flushPendings\<close>): with two clients, the core is then told of
  an abort although the other client has committed the transaction.
\<close>

theorem double_abort_told:
  assumes "red_run 2 (red_start 2 plan) s" and "red_finished 2 s"
    and "plan 0 = [RepSubmit, RepAbort, RepAbort]" and "plan 1 = [RepSubmit, RepCommit]"
  shows "count_list (rd_inner s) RepAbort = 1 \<and> count_list (rd_inner s) RepCommit = 0"
proof -
  have "{..<2} = {0, 1 :: nat}" by auto
  then show ?thesis using redundant_counts [OF _ assms(1,2)] assms(3,4) by simp
qed

definition demo_plan :: "nat \<Rightarrow> report list" where
  "demo_plan i = (if i = 0 then [RepSubmit, RepCommit] else [RepSubmit, RepAbort])"

lemma demo_plan_run: "\<exists>s. red_run 2 (red_start 2 demo_plan) s \<and> red_finished 2 s"
proof -
  let ?s0 = "red_start 2 demo_plan"
  let ?s1 = "red_enter 0 ?s0"
  let ?s2 = "?s1\<lparr>rd_call := (rd_call ?s1)(0 := None), rd_inner := rd_inner ?s1 @ [RepSubmit]\<rparr>"
  let ?s3 = "red_enter 0 ?s2"
  let ?s4 = "red_enter 1 ?s3"
  let ?s5 = "red_enter 1 ?s4"
  note defs = red_enter_def red_start_def demo_plan_def new_interaction_def Let_def red_ReportSubmit_def
    red_ReportCommit_def red_ReportAbort_def
  have r1: "red_run 2 ?s0 ?s1" by (rule red_run.step [OF red_run.refl red_step.enter]) (simp_all add: defs)
  have r2: "red_run 2 ?s0 ?s2" by (rule red_run.step [OF r1 red_step.inner]) (simp_all add: defs)
  have r3: "red_run 2 ?s0 ?s3" by (rule red_run.step [OF r2 red_step.enter]) (simp_all add: defs)
  have r4: "red_run 2 ?s0 ?s4" by (rule red_run.step [OF r3 red_step.enter]) (simp_all add: defs)
  have "red_run 2 ?s0 ?s5" by (rule red_run.step [OF r4 red_step.enter]) (simp_all add: defs)
  moreover have "red_finished 2 ?s5" by (auto simp: red_finished_def defs less_2_cases_iff)
  ultimately show ?thesis by blast
qed

theorem redundant_reports_witness:
  "\<exists>s. red_run 2 (red_start 2 demo_plan) s \<and> red_finished 2 s \<and> rd_inner s = [RepSubmit]"
proof -
  obtain s where s: "red_run 2 (red_start 2 demo_plan) s" "red_finished 2 s" using demo_plan_run by blast
  have "\<forall>i < 2. client_plan (demo_plan i)" by (simp add: demo_plan_def client_plan_def)
  with redundant_reports [OF _ s] have "rd_inner s = [RepSubmit]"
    by (auto simp: demo_plan_def less_2_cases_iff split: if_splits)
  with s show ?thesis by blast
qed

end
