(* ===== verification/Main_Options.thy ===== *)
theory Main_Options
  imports Go_Prelude
begin

text \<open>
  The command line options (\<^verbatim>\<open>src/parse.go\<close>): short options, alone or in a group, with their value attached or
  in the next argument, and long options with their value after an equals sign or in the next argument. An
  option runs a callback on the state of the program.
\<close>

section \<open>Model\<close>

type_synonym 's callback = "string \<Rightarrow> ('s, unit) go"

record 's shortOption =
  so_name :: char
  so_value :: bool
  so_cb :: "'s callback"

record 's longOption =
  lo_name :: string
  lo_value :: bool
  lo_cb :: "'s callback"

text \<open>The error of a callback is wrapped into that of the option.\<close>

definition wrap_error :: "(go_error \<Rightarrow> go_error) \<Rightarrow> ('s, unit) go \<Rightarrow> ('s, unit) go" where
  "wrap_error f m = (\<lambda>s. case m s of (Err e, s') \<Rightarrow> (Err (f e), s') | (r, s') \<Rightarrow> (r, s'))"

definition long_error :: "string \<Rightarrow> go_error \<Rightarrow> go_error" where
  "long_error optname e = Errorf (''invalid value for '--%s'' @ apos @ '': %s'') [AStr optname, AErr e]"

definition short_error :: "char \<Rightarrow> string \<Rightarrow> go_error \<Rightarrow> go_error" where
  "short_error c arg e = Errorf (''invalid value for '%c'' @ apos @ '' in '%s'' @ apos @ '': %s'') [AStr [c], AStr arg, AErr e]"

text \<open>\<open>index_eq arg\<close> is \<^verbatim>\<open>strings.Index(arg, "=")\<close>, or \<open>None\<close> without an equals sign.\<close>

definition index_eq :: "string \<Rightarrow> nat option" where
  "index_eq arg =
     (let idx = length (takeWhile (\<lambda>c. c \<noteq> CHR 61) arg) in if idx < length arg then Some idx else None)"

text \<open>
  Both parsers give back the callback that still wants its value from the next argument, if there is one.
\<close>

definition parseLongOption ::
  "'s longOption list \<Rightarrow> string \<Rightarrow> ('s, 's callback option) go" where
  "parseLongOption longs arg =
     (let (hasVal, optname, optval) =
        (case index_eq arg of
           Some idx \<Rightarrow> if idx > 0 then (True, drop 2 (take idx arg), drop (idx + 1) arg) else (False, drop 2 arg, [])
         | None \<Rightarrow> (False, drop 2 arg, [])) in
      case find (\<lambda>opt. lo_name opt = optname) longs of
        None \<Rightarrow> gerr (Errorf (''unknown option '%s'' @ apos) [AStr arg])
      | Some opt \<Rightarrow>
          if hasVal then
            (if lo_value opt
             then gbind (wrap_error (long_error optname) (lo_cb opt optval)) (\<lambda>_. gret None)
             else gerr (Errorf (''unexpected value for '--%s'' @ apos @ '': '%s'' @ apos) [AStr optname, AStr optval]))
          else if lo_value opt then gret (Some (\<lambda>val. wrap_error (long_error optname) (lo_cb opt val)))
          else gbind (wrap_error (long_error optname) (lo_cb opt optval)) (\<lambda>_. gret None))"

fun parse_shorts ::
  "'s shortOption list \<Rightarrow> string \<Rightarrow> string \<Rightarrow> ('s, 's callback option) go" where
  "parse_shorts shorts arg [] = gret None"
| "parse_shorts shorts arg (c # cs) =
     (case find (\<lambda>opt. c = so_name opt) shorts of
        None \<Rightarrow> gerr (Errorf (''unknown option '%c'' @ apos @ '' in '%s'' @ apos) [AStr [c], AStr arg])
      | Some opt \<Rightarrow>
          if so_value opt then
            (if cs = [] then gret (Some (\<lambda>val. wrap_error (short_error c arg) (so_cb opt val)))
             else gbind (wrap_error (short_error c arg) (so_cb opt cs)) (\<lambda>_. gret None))
          else gbind (wrap_error (short_error c arg) (so_cb opt [])) (\<lambda>_. parse_shorts shorts arg cs))"

definition parseShortOptions :: "'s shortOption list \<Rightarrow> string \<Rightarrow> ('s, 's callback option) go" where
  "parseShortOptions shorts arg = parse_shorts shorts arg (drop 1 arg)"

text \<open>The loop returns the index of the first argument that is no option, counted from \<open>i\<close>.\<close>

fun options_loop ::
  "'s shortOption list \<Rightarrow> 's longOption list \<Rightarrow> 's callback option \<Rightarrow> nat \<Rightarrow> string list \<Rightarrow> ('s, nat) go" where
  "options_loop shorts longs wantVal i [] =
     (case wantVal of Some _ \<Rightarrow> gerr (Errorf ''missing value'' []) | None \<Rightarrow> gret i)"
| "options_loop shorts longs (Some cb) i (arg # args) =
     gbind (cb arg) (\<lambda>_. options_loop shorts longs None (i + 1) args)"
| "options_loop shorts longs None i (arg # args) =
     (if prefix ''--'' arg then
        (if length arg = 2 then gret i
         else gbind (parseLongOption longs arg) (\<lambda>wantVal. options_loop shorts longs wantVal (i + 1) args))
      else if prefix ''-'' arg
      then gbind (parseShortOptions shorts arg) (\<lambda>wantVal. options_loop shorts longs wantVal (i + 1) args)
      else gret i)"

definition parseOptions :: "'s shortOption list \<Rightarrow> 's longOption list \<Rightarrow> string list \<Rightarrow> ('s, nat) go" where
  "parseOptions shorts longs args = options_loop shorts longs None 0 args"

section \<open>Spellings\<close>

lemma wrap_error_Ok: "m s = (Ok (), s') \<Longrightarrow> wrap_error f m s = (Ok (), s')"
  by (simp add: wrap_error_def)

lemma options_loop_shift:
  "options_loop shorts longs w (i + k) args s =
   (case options_loop shorts longs w i args s of (Ok n, s') \<Rightarrow> (Ok (n + k), s') | (r, s') \<Rightarrow> (r, s'))"
proof (induction shorts longs w i args arbitrary: s rule: options_loop.induct)
  case (2 shorts longs cb i arg args)
  then show ?case by (auto simp: gbind_def split: prod.splits outcome.splits)
next
  case (3 shorts longs i arg args)
  then show ?case by (auto simp: gbind_def gret_def split: prod.splits outcome.splits)
qed (auto simp: gret_def gerr_def split: option.splits)

definition after :: "nat \<Rightarrow> ('s, nat) go \<Rightarrow> ('s, nat) go" where
  "after k m = (\<lambda>s. case m s of (Ok n, s') \<Rightarrow> (Ok (n + k), s') | (r, s') \<Rightarrow> (r, s'))"

lemma options_loop_after: "options_loop shorts longs None k args = after k (parseOptions shorts longs args)"
  using options_loop_shift [of shorts longs None 0 k args] by (auto simp: after_def parseOptions_def)

lemma index_eq_none: "CHR 61 \<notin> set arg \<Longrightarrow> index_eq arg = None"
proof -
  assume "CHR 61 \<notin> set arg"
  then have eq: "takeWhile (\<lambda>c. c \<noteq> CHR 61) arg = arg" by (auto simp: takeWhile_eq_all_conv)
  show ?thesis unfolding index_eq_def eq by simp
qed

lemma index_eq_some: "CHR 61 \<notin> set name \<Longrightarrow> index_eq (name @ CHR 61 # val) = Some (length name)"
proof -
  assume "CHR 61 \<notin> set name"
  then have "takeWhile (\<lambda>c. c \<noteq> CHR 61) (name @ CHR 61 # val) = name" by (subst takeWhile_append2) auto
  then show ?thesis by (simp add: index_eq_def)
qed

text \<open>
  The four ways to give an option its value mean the same: attached to the letter, in the argument after the letter,
  after the equals sign of the long name, and in the argument after the long name. If the callback accepts
  the value, each runs it once and goes on with the remaining arguments.
\<close>

theorem option_spellings:
  assumes "find (\<lambda>opt. c = so_name opt) shorts = Some sopt" and "so_value sopt" and "so_cb sopt = cb" and "c \<noteq> CHR ''-''"
    and "find (\<lambda>opt. lo_name opt = name) longs = Some lopt" and "lo_value lopt" and "lo_cb lopt = cb"
    and "CHR 61 \<notin> set name" and "name \<noteq> []" and "val \<noteq> []" and "cb val s = (Ok (), s')"
  shows "parseOptions shorts longs (([CHR ''-'', c] @ val) # rest) s = after 1 (parseOptions shorts longs rest) s' \<and>
    parseOptions shorts longs ([CHR ''-'', c] # val # rest) s = after 2 (parseOptions shorts longs rest) s' \<and>
    parseOptions shorts longs ((''--'' @ name @ [CHR 61] @ val) # rest) s = after 1 (parseOptions shorts longs rest) s' \<and>
    parseOptions shorts longs ((''--'' @ name) # val # rest) s = after 2 (parseOptions shorts longs rest) s'"
proof (intro conjI)
  note run = parseOptions_def parseShortOptions_def parseLongOption_def gbind_def gret_def wrap_error_Ok
    options_loop_after [where k = "Suc 0"] options_loop_after [where k = "Suc (Suc 0)"] assms assms(4) [symmetric] numeral_2_eq_2
  show "parseOptions shorts longs (([CHR ''-'', c] @ val) # rest) s = after 1 (parseOptions shorts longs rest) s'"
    by (simp add: run)
  show "parseOptions shorts longs ([CHR ''-'', c] # val # rest) s = after 2 (parseOptions shorts longs rest) s'"
    by (simp add: run)
  have "index_eq (CHR ''-'' # CHR ''-'' # name @ CHR 61 # val) = Some (length name + 2)"
    using index_eq_some [of "CHR ''-'' # CHR ''-'' # name" val] assms(8) by simp
  then show "parseOptions shorts longs ((''--'' @ name @ [CHR 61] @ val) # rest) s = after 1 (parseOptions shorts longs rest) s'"
    by (simp add: run)
  have "index_eq (CHR ''-'' # CHR ''-'' # name) = None" using assms(8) by (intro index_eq_none) simp
  then show "parseOptions shorts longs ((''--'' @ name) # val # rest) s = after 2 (parseOptions shorts longs rest) s'"
    by (simp add: run)
qed

end
