(* ===== verification/Main_Program.thy ===== *)
theory Main_Program
  imports Main_Options Core_Result
begin

text \<open>
  The program (\<^verbatim>\<open>src/diablo.go\<close>): the options and the operands of the two roles, and the statistics that are printed
  of a result. A call of \<^verbatim>\<open>fatal\<close> is the error it prints; the options that print a text and end the program
  are the panic \<open>exit 0\<close>. \<^verbatim>\<open>ParseFloat\<close>, the clock and the creation of the output file are parameters. Strings are
  taken to be ASCII.
\<close>

section \<open>Numbers\<close>

text \<open>The hash \<^verbatim>\<open>fnv.New64\<close>: multiply, then exclusive or.\<close>

unbundle bit_operations_syntax

definition fnv_Sum64 :: "string \<Rightarrow> 64 word" where
  "fnv_Sum64 s = fold (\<lambda>c h. (h * 1099511628211) XOR of_nat (of_char c)) s 14695981039346656037"

section \<open>Handlers\<close>

definition ToLower :: "string \<Rightarrow> string" where
  "ToLower s = map (\<lambda>c. let n = of_char c :: nat in if 65 \<le> n \<and> n \<le> 90 then char_of (n + 32) else c) s"

definition verbosity_levels :: "(string, int) gomap" where
  "verbosity_levels = [(''fatal'', 1), (''error'', 2), (''warning'', 3), (''information'', 4), (''debug'', 5), (''trace'', 6)]"

text \<open>The loop over the map of the levels sees them in the order \<open>it\<close>.\<close>

definition handleVerboseLevel :: "(string \<times> int) list \<Rightarrow> string \<Rightarrow> int outcome" where
  "handleVerboseLevel it level =
     (if level = [] then Err (Errorf (''invalid verbosity name '%s'' @ apos) [AStr level])
      else
        (case Atoi level of
           Some intLevel \<Rightarrow>
             if intLevel < 0 then Err (Errorf ''invalid verbosity level %d'' [AInt intLevel]) else Ok intLevel
         | None \<Rightarrow>
             (case find (\<lambda>(key, _). prefix (ToLower level) key) it of
                Some (_, n) \<Rightarrow> Ok n
              | None \<Rightarrow> Err (Errorf (''invalid verbosity name '%s'' @ apos) [AStr level]))))"

definition handlePort :: "string \<Rightarrow> int outcome" where
  "handlePort val =
     (case Atoi val of
        None \<Rightarrow> Err (Errorf (''invalid port '%s'' @ apos) [AStr val])
      | Some i \<Rightarrow> if i \<le> 0 \<or> i > 65535 then Err (Errorf ''invalid port %d'' [AInt i]) else Ok i)"

definition handleSeed :: "string \<Rightarrow> int" where
  "handleSeed val = (case Atoi val of Some i \<Rightarrow> i | None \<Rightarrow> sint (fnv_Sum64 val))"

definition handleSeconds :: "(string \<Rightarrow> f64 outcome) \<Rightarrow> string \<Rightarrow> f64 outcome" where
  "handleSeconds ParseFloat val = ParseFloat val"

definition handleObservers :: "string \<Rightarrow> int outcome" where
  "handleObservers val =
     (case Atoi val of
        None \<Rightarrow> Err (Errorf (''invalid number of observers '%s'' @ apos) [AStr val])
      | Some i \<Rightarrow> if i \<le> 0 then Err (Errorf ''invalid number of observers %d'' [AInt i]) else Ok i)"

section \<open>The roles\<close>

record cmdline =
  cl_env :: "string list"
  cl_verbosity :: int

record primary_args = cmdline +
  pa_compressDefined :: bool
  pa_MaxDelay :: f64
  pa_maxDelayDefined :: bool
  pa_outputPath :: string
  pa_outputPathDefined :: bool
  pa_ListenPort :: int
  pa_portDefined :: bool
  pa_MasterSeed :: int
  pa_seedDefined :: bool
  pa_NumObserver :: int
  pa_numObserverDefined :: bool
  pa_MaxSkew :: f64
  pa_maxSkewDefined :: bool
  pa_statDefined :: bool
  pa_NumSecondary :: int
  pa_SetupPath :: string
  pa_BenchmarkPath :: string

record secondary_args = cmdline +
  sa_port :: int
  sa_portDefined :: bool
  sa_tags :: "string list"
  sa_primary :: string

definition PORT_DEFAULT :: int where "PORT_DEFAULT = 5000"
definition MAX_DELAY_DEFAULT :: f64 where "MAX_DELAY_DEFAULT = f64_one"
definition MAX_SKEW_DEFAULT :: f64 where "MAX_SKEW_DEFAULT = 0x3FC999999999999A"
definition VERBOSITY_WARNING :: int where "VERBOSITY_WARNING = 3"

text \<open>A callback that may run once, and one that stores what a handler makes of the value.\<close>

definition once :: "('s \<Rightarrow> bool) \<Rightarrow> ('s \<Rightarrow> 's) \<Rightarrow> ('s, unit) go \<Rightarrow> ('s, unit) go" where
  "once defined set_defined m =
     gbind (gread defined) (\<lambda>d.
     if d then gerr (Errorf ''option specified twice'' []) else gbind (gmodify set_defined) (\<lambda>_. m))"

definition store :: "'v outcome \<Rightarrow> ('v \<Rightarrow> 's \<Rightarrow> 's) \<Rightarrow> ('s, unit) go" where
  "store r put = gbind (glift r) (\<lambda>v. gmodify (put v))"

definition exit_callback :: "'s callback" where
  "exit_callback val = gpanic ''exit 0''"

definition env_callback :: "'s cmdline_scheme callback" where
  "env_callback val = gmodify (\<lambda>s. s\<lparr>cl_env := cl_env s @ [val]\<rparr>)"

definition verbose_callback :: "'s cmdline_scheme callback" where
  "verbose_callback val = gmodify (\<lambda>s. s\<lparr>cl_verbosity := wrap64 (cl_verbosity s + 1)\<rparr>)"

definition level_callback :: "(string \<times> int) list \<Rightarrow> 's cmdline_scheme callback" where
  "level_callback it val = store (handleVerboseLevel it val) (\<lambda>v s. s\<lparr>cl_verbosity := v\<rparr>)"

definition short_option :: "char \<Rightarrow> bool \<Rightarrow> 's callback \<Rightarrow> 's shortOption" where
  "short_option name has_value cb = \<lparr>so_name = name, so_value = has_value, so_cb = cb\<rparr>"

definition long_option :: "string \<Rightarrow> bool \<Rightarrow> 's callback \<Rightarrow> 's longOption" where
  "long_option name has_value cb = \<lparr>lo_name = name, lo_value = has_value, lo_cb = cb\<rparr>"

text \<open>\<^verbatim>\<open>main\<close>: the common options, and the role with the arguments that follow it.\<close>

definition main_shorts :: "cmdline shortOption list" where
  "main_shorts = [short_option (CHR ''h'') False exit_callback, short_option (CHR ''e'') True env_callback,
     short_option (CHR ''v'') False verbose_callback, short_option (CHR ''V'') False exit_callback]"

definition main_longs :: "(string \<times> int) list \<Rightarrow> cmdline longOption list" where
  "main_longs it = [long_option ''help'' False exit_callback, long_option ''env'' True env_callback,
     long_option ''verbose'' True (level_callback it), long_option ''version'' False exit_callback]"

datatype role = RolePrimary cmdline "string list" | RoleSecondary cmdline "string list"

definition main :: "(string \<times> int) list \<Rightarrow> string list \<Rightarrow> role outcome" where
  "main it args =
     (case parseOptions main_shorts (main_longs it) args \<lparr>cl_env = [], cl_verbosity = VERBOSITY_WARNING\<rparr> of
        (r, s) \<Rightarrow>
          obind r (\<lambda>index.
          if index \<ge> length args
          then Err (Errorf (''missing either 'primary'' @ apos @ '' or 'secondary'' @ apos) [])
          else if args ! index = ''primary'' then Ok (RolePrimary s (drop (index + 1) args))
          else if args ! index = ''secondary'' then Ok (RoleSecondary s (drop (index + 1) args))
          else Err (Errorf (''unknown role '%s'' @ apos) [AStr (args ! index)])))"

definition delay_callback :: "(string \<Rightarrow> f64 outcome) \<Rightarrow> primary_args callback" where
  "delay_callback ParseFloat l =
     once pa_maxDelayDefined (\<lambda>s. s\<lparr>pa_maxDelayDefined := True\<rparr>)
       (store (handleSeconds ParseFloat l) (\<lambda>v s. s\<lparr>pa_MaxDelay := v\<rparr>))"

definition output_callback :: "primary_args callback" where
  "output_callback l =
     once pa_outputPathDefined (\<lambda>s. s\<lparr>pa_outputPathDefined := True\<rparr>) (store (Ok l) (\<lambda>v s. s\<lparr>pa_outputPath := v\<rparr>))"

definition port_callback :: "primary_args callback" where
  "port_callback l =
     once pa_portDefined (\<lambda>s. s\<lparr>pa_portDefined := True\<rparr>) (store (handlePort l) (\<lambda>v s. s\<lparr>pa_ListenPort := v\<rparr>))"

definition seed_callback :: "primary_args callback" where
  "seed_callback l =
     once pa_seedDefined (\<lambda>s. s\<lparr>pa_seedDefined := True\<rparr>) (store (Ok (handleSeed l)) (\<lambda>v s. s\<lparr>pa_MasterSeed := v\<rparr>))"

definition observers_callback :: "primary_args callback" where
  "observers_callback l =
     once pa_numObserverDefined (\<lambda>s. s\<lparr>pa_numObserverDefined := True\<rparr>)
       (store (handleObservers l) (\<lambda>v s. s\<lparr>pa_NumObserver := v\<rparr>))"

definition skew_callback :: "(string \<Rightarrow> f64 outcome) \<Rightarrow> primary_args callback" where
  "skew_callback ParseFloat l =
     once pa_maxSkewDefined (\<lambda>s. s\<lparr>pa_maxSkewDefined := True\<rparr>)
       (store (handleSeconds ParseFloat l) (\<lambda>v s. s\<lparr>pa_MaxSkew := v\<rparr>))"

definition compress_callback :: "primary_args callback" where
  "compress_callback l = once pa_compressDefined (\<lambda>s. s\<lparr>pa_compressDefined := True\<rparr>) (gret ())"

definition stat_callback :: "primary_args callback" where
  "stat_callback l = once pa_statDefined (\<lambda>s. s\<lparr>pa_statDefined := True\<rparr>) (gret ())"

definition primary_shorts :: "(string \<Rightarrow> f64 outcome) \<Rightarrow> primary_args shortOption list" where
  "primary_shorts ParseFloat = [short_option (CHR ''d'') True (delay_callback ParseFloat), short_option (CHR ''h'') False exit_callback,
     short_option (CHR ''e'') True env_callback, short_option (CHR ''o'') True output_callback, short_option (CHR ''p'') True port_callback,
     short_option (CHR ''s'') True seed_callback, short_option (CHR ''O'') True observers_callback,
     short_option (CHR ''S'') True (skew_callback ParseFloat), short_option (CHR ''v'') False verbose_callback]"

definition primary_longs :: "(string \<times> int) list \<Rightarrow> (string \<Rightarrow> f64 outcome) \<Rightarrow> primary_args longOption list" where
  "primary_longs it ParseFloat = [long_option ''compress'' False compress_callback,
     long_option ''max-delay'' True (delay_callback ParseFloat), long_option ''help'' False exit_callback, long_option ''env'' True env_callback,
     long_option ''output'' True output_callback, long_option ''port'' True port_callback, long_option ''seed'' True seed_callback,
     long_option ''observers'' True observers_callback, long_option ''max-skew'' True (skew_callback ParseFloat),
     long_option ''stat'' False stat_callback, long_option ''verbose'' True (level_callback it)]"

definition primary_defaults :: "int \<Rightarrow> cmdline \<Rightarrow> primary_args" where
  "primary_defaults nanosecond s = \<lparr>cl_env = cl_env s, cl_verbosity = cl_verbosity s, pa_compressDefined = False,
     pa_MaxDelay = MAX_DELAY_DEFAULT, pa_maxDelayDefined = False, pa_outputPath = [], pa_outputPathDefined = False,
     pa_ListenPort = PORT_DEFAULT, pa_portDefined = False, pa_MasterSeed = nanosecond, pa_seedDefined = False,
     pa_NumObserver = 0, pa_numObserverDefined = False, pa_MaxSkew = MAX_SKEW_DEFAULT, pa_maxSkewDefined = False,
     pa_statDefined = False, pa_NumSecondary = 0, pa_SetupPath = [], pa_BenchmarkPath = []\<rparr>"

definition primary_operands :: "string list \<Rightarrow> nat \<Rightarrow> primary_args \<Rightarrow> primary_args outcome" where
  "primary_operands args index s =
     (if index \<ge> length args then Err (Errorf ''missing nsecondary operand'' [])
      else if index + 1 \<ge> length args then Err (Errorf ''missing setup operand'' [])
      else if index + 2 \<ge> length args then Err (Errorf ''missing benchmark operand'' [])
      else if index + 3 < length args then Err (Errorf (''unexpected operand '%s'' @ apos) [AStr (args ! (index + 3))])
      else
        let s = s\<lparr>pa_SetupPath := args ! (index + 1), pa_BenchmarkPath := args ! (index + 2)\<rparr> in
        (case Atoi (args ! index) of
           None \<Rightarrow> Err (Errorf (''invalid nsecondary operand '%s'' @ apos) [AStr (args ! index)])
         | Some n \<Rightarrow>
             if n \<le> 0 then Err (Errorf ''invalid nsecondary operand %d'' [AInt n]) else Ok (s\<lparr>pa_NumSecondary := n\<rparr>)))"

text \<open>The path of the output file, if one is asked for; otherwise the result goes to the standard output.\<close>

definition primary_output :: "(string \<Rightarrow> unit outcome) \<Rightarrow> primary_args \<Rightarrow> string option outcome" where
  "primary_output Create s =
     (if pa_outputPathDefined s then
        let path = (if pa_compressDefined s \<and> \<not> suffix ''.gz'' (pa_outputPath s) then pa_outputPath s @ ''.gz'' else pa_outputPath s) in
        (case Create path of
           Err e \<Rightarrow> Err (Errorf (''cannot open output path '%s'' @ apos @ '': %s'') [AStr path, AErr e])
         | Panic p \<Rightarrow> Panic p
         | Ok _ \<Rightarrow> Ok (Some path))
      else Ok None)"

definition mainPrimary ::
  "(string \<times> int) list \<Rightarrow> (string \<Rightarrow> f64 outcome) \<Rightarrow> (string \<Rightarrow> unit outcome) \<Rightarrow> int \<Rightarrow> cmdline \<Rightarrow> string list
     \<Rightarrow> (primary_args \<times> string option) outcome" where
  "mainPrimary it ParseFloat Create nanosecond s args =
     (case parseOptions (primary_shorts ParseFloat) (primary_longs it ParseFloat) args (primary_defaults nanosecond s) of
        (r, s) \<Rightarrow>
          obind r (\<lambda>index.
          obind (primary_operands args index s) (\<lambda>s.
          obind (primary_output Create s) (\<lambda>output.
          Ok (s, output)))))"

definition sec_port_callback :: "secondary_args callback" where
  "sec_port_callback l =
     once sa_portDefined (\<lambda>s. s\<lparr>sa_portDefined := True\<rparr>) (store (handlePort l) (\<lambda>v s. s\<lparr>sa_port := v\<rparr>))"

definition tag_callback :: "secondary_args callback" where
  "tag_callback l = gmodify (\<lambda>s. s\<lparr>sa_tags := sa_tags s @ [l]\<rparr>)"

definition secondary_shorts :: "secondary_args shortOption list" where
  "secondary_shorts = [short_option (CHR ''e'') True env_callback, short_option (CHR ''h'') False exit_callback,
     short_option (CHR ''p'') True sec_port_callback, short_option (CHR ''t'') True tag_callback, short_option (CHR ''v'') False verbose_callback]"

definition secondary_longs :: "(string \<times> int) list \<Rightarrow> secondary_args longOption list" where
  "secondary_longs it = [long_option ''env'' True env_callback, long_option ''help'' False exit_callback, long_option ''port'' True sec_port_callback,
     long_option ''tag'' True tag_callback, long_option ''verbose'' True (level_callback it)]"

definition mainSecondary :: "(string \<times> int) list \<Rightarrow> cmdline \<Rightarrow> string list \<Rightarrow> secondary_args outcome" where
  "mainSecondary it s args =
     (case parseOptions secondary_shorts (secondary_longs it) args
         \<lparr>cl_env = cl_env s, cl_verbosity = cl_verbosity s, sa_port = PORT_DEFAULT, sa_portDefined = False, sa_tags = [],
          sa_primary = []\<rparr> of
        (r, s) \<Rightarrow>
          obind r (\<lambda>index.
          if index \<ge> length args then Err (Errorf ''missing primary operand'' [])
          else if index + 1 < length args then Err (Errorf (''unexpected operand '%s'' @ apos) [AStr (args ! (index + 1))])
          else Ok (s\<lparr>sa_primary := args ! index\<rparr>)))"

section \<open>Statistics\<close>

record stat =
  st_numSubmitted :: nat
  st_numAborted :: nat
  st_latencies :: "f64 list"
  st_sumLatencies :: f64
  st_lastSubmitTime :: f64
  st_lastFinalTime :: f64

definition stat_start :: stat where
  "stat_start = \<lparr>st_numSubmitted = 0, st_numAborted = 0, st_latencies = [], st_sumLatencies = f64_zero,
     st_lastSubmitTime = f64_zero, st_lastFinalTime = f64_zero\<rparr>"

definition stat_times :: "InteractionResult \<Rightarrow> stat \<Rightarrow> stat" where
  "stat_times iact st =
     (let st = (if f64_lt (st_lastSubmitTime st) (ir_SubmitTime iact) then st\<lparr>st_lastSubmitTime := ir_SubmitTime iact\<rparr> else st);
          st = (if f64_lt (st_lastFinalTime st) (ir_CommitTime iact) then st\<lparr>st_lastFinalTime := ir_CommitTime iact\<rparr> else st) in
      if f64_lt (st_lastFinalTime st) (ir_AbortTime iact) then st\<lparr>st_lastFinalTime := ir_AbortTime iact\<rparr> else st)"

definition stat_one :: "InteractionResult \<Rightarrow> stat \<Rightarrow> stat" where
  "stat_one iact st =
     (let st = stat_times iact st in
      if f64_lt (ir_SubmitTime iact) f64_zero then st
      else
        let st = st\<lparr>st_numSubmitted := st_numSubmitted st + 1\<rparr> in
        if f64_lt (ir_CommitTime iact) f64_zero then st
        else if f64_le f64_zero (ir_AbortTime iact) then st\<lparr>st_numAborted := st_numAborted st + 1\<rparr>
        else if f64_lt (ir_CommitTime iact) (ir_SubmitTime iact) then st
        else
          let latency = f64_sub (ir_CommitTime iact) (ir_SubmitTime iact) in
          st\<lparr>st_latencies := st_latencies st @ [latency], st_sumLatencies := f64_add (st_sumLatencies st) latency\<rparr>)"

definition all_interactions :: "Result \<Rightarrow> InteractionResult list" where
  "all_interactions result =
     concat (map (\<lambda>secondary. concat (map cr_Interactions (sr_Clients secondary))) (res_Locations result))"

record statistics =
  pr_submitted :: nat
  pr_committed :: nat
  pr_aborted :: nat
  pr_load :: "f64 option"
  pr_throughput_latency_median :: "(f64 \<times> f64 \<times> f64) option"

definition printStat :: "Result \<Rightarrow> statistics" where
  "printStat result =
     (let st = fold stat_one (all_interactions result) stat_start;
          n = length (st_latencies st) in
      \<lparr>pr_submitted = st_numSubmitted st, pr_committed = n, pr_aborted = st_numAborted st,
       pr_load = (if f64_le (st_lastSubmitTime st) f64_zero then None
                  else Some (f64_div (f64_of_int (int (st_numSubmitted st))) (st_lastSubmitTime st))),
       pr_throughput_latency_median =
         (if n = 0 \<or> f64_le (st_lastFinalTime st) f64_zero then None
          else Some (f64_div (f64_of_int (int n)) (st_lastFinalTime st), f64_div (st_sumLatencies st) (f64_of_int (int n)),
            Float64s (st_latencies st) ! (n div 2)))\<rparr>)"


section \<open>Accepted arguments\<close>

lemma find_unique_perm:
  assumes "set it = set levels" and "\<And>x y. x \<in> set levels \<Longrightarrow> y \<in> set levels \<Longrightarrow> P x \<Longrightarrow> P y \<Longrightarrow> x = y"
  shows "find P it = find P levels"
proof (cases "find P levels")
  case None
  then have "find P it = None" using assms(1) by (simp add: find_None_iff)
  then show ?thesis using None by simp
next
  case (Some x)
  have x: "x \<in> set levels" "P x" using Some by (auto simp: find_Some_iff)
  have "find P it \<noteq> None" using x assms(1) by (auto simp: find_None_iff)
  then obtain y where y: "find P it = Some y" by blast
  have "y \<in> set levels" "P y" using y assms(1) by (auto simp: find_Some_iff dest: nth_mem)
  then show ?thesis using x y Some assms(2) by simp
qed

text \<open>No level has a name that begins like the name of another one, so the order of the map does not matter.\<close>

lemma level_by_first_letter:
  assumes "x \<in> set verbosity_levels" and "y \<in> set verbosity_levels" and "l \<noteq> []"
    and "prefix l (fst x)" and "prefix l (fst y)"
  shows "x = y"
proof -
  obtain c cs where l: "l = c # cs" using assms(3) by (cases l) auto
  then show ?thesis using assms by (auto simp: verbosity_levels_def)
qed

lemma handleVerboseLevel_order:
  assumes "set it = set verbosity_levels"
  shows "handleVerboseLevel it level = handleVerboseLevel verbosity_levels level"
proof (cases "level = []")
  case True
  then show ?thesis by (simp add: handleVerboseLevel_def)
next
  case False
  then have "ToLower level \<noteq> []" by (simp add: ToLower_def)
  then have eq: "find (\<lambda>(key, _). prefix (ToLower level) key) it = find (\<lambda>(key, _). prefix (ToLower level) key) verbosity_levels"
    using assms by (intro find_unique_perm) (auto dest: level_by_first_letter)
  show ?thesis unfolding handleVerboseLevel_def eq ..
qed

lemma handlePort_range: "handlePort l = Ok p \<Longrightarrow> 1 \<le> p \<and> p \<le> 65535"
  by (auto simp: handlePort_def split: option.splits if_splits)

text \<open>What every callback maintains, the options keep.\<close>

definition maintains :: "('s \<Rightarrow> bool) \<Rightarrow> ('s, 'a) go \<Rightarrow> bool" where
  "maintains I m \<longleftrightarrow> (\<forall>s. I s \<longrightarrow> I (snd (m s)))"

lemma maintainsD: "maintains I m \<Longrightarrow> I s \<Longrightarrow> m s = (r, s') \<Longrightarrow> I s'"
  by (metis maintains_def snd_conv)

lemma maintains_gret [simp]: "maintains I (gret x)" and maintains_gerr [simp]: "maintains I (gerr e)"
  and maintains_gpanic [simp]: "maintains I (gpanic p)" and maintains_gread [simp]: "maintains I (gread f)"
  by (simp_all add: maintains_def gret_def gerr_def gpanic_def gread_def)

lemma maintains_gbind: "maintains I m \<Longrightarrow> (\<And>x. maintains I (k x)) \<Longrightarrow> maintains I (gbind m k)"
  by (auto simp: maintains_def gbind_def split: prod.splits outcome.splits)

lemma maintains_gmodify: "(\<And>s. I s \<Longrightarrow> I (f s)) \<Longrightarrow> maintains I (gmodify f)"
  by (simp add: maintains_def gmodify_def)

lemma maintains_wrap_error: "maintains I m \<Longrightarrow> maintains I (wrap_error f m)"
  by (auto simp: maintains_def wrap_error_def split: prod.splits outcome.splits)

lemma maintains_once: "(\<And>s. I s \<Longrightarrow> I (set_defined s)) \<Longrightarrow> maintains I m \<Longrightarrow> maintains I (once defined set_defined m)"
  unfolding once_def by (intro maintains_gbind maintains_gmodify) (auto intro!: maintains_gbind maintains_gmodify)

lemma maintains_store: "(\<And>v s. r = Ok v \<Longrightarrow> I s \<Longrightarrow> I (put v s)) \<Longrightarrow> maintains I (store r put)"
  by (cases r) (auto simp: store_def maintains_def gbind_def glift_def gmodify_def)

definition callbacks_keep :: "('s \<Rightarrow> bool) \<Rightarrow> 's shortOption list \<Rightarrow> 's longOption list \<Rightarrow> bool" where
  "callbacks_keep I shorts longs \<longleftrightarrow>
     (\<forall>opt val. opt \<in> set shorts \<longrightarrow> maintains I (so_cb opt val)) \<and> (\<forall>opt val. opt \<in> set longs \<longrightarrow> maintains I (lo_cb opt val))"

definition pending_keeps :: "('s \<Rightarrow> bool) \<Rightarrow> 's callback option \<Rightarrow> bool" where
  "pending_keeps I w \<longleftrightarrow> (\<forall>cb val. w = Some cb \<longrightarrow> maintains I (cb val))"


lemma pending_keeps_None [simp]: "pending_keeps I None"
  by (simp add: pending_keeps_def)

lemma parse_shorts_keeps:
  "callbacks_keep I shorts longs \<Longrightarrow> I s \<Longrightarrow> parse_shorts shorts arg cs s = (r, s') \<Longrightarrow>
   I s' \<and> (\<forall>w. r = Ok w \<longrightarrow> pending_keeps I w)"
proof (induction shorts arg cs arbitrary: s rule: parse_shorts.induct)
  case (2 shorts arg c cs)
  show ?case
  proof (cases "find (\<lambda>opt. c = so_name opt) shorts")
    case (Some opt)
    then have "opt \<in> set shorts" by (auto simp: find_Some_iff dest: nth_mem)
    then have keep: "maintains I (wrap_error (short_error c arg) (so_cb opt v))" for v
      using 2(2) by (auto simp: callbacks_keep_def intro: maintains_wrap_error)
    show ?thesis
    proof (cases "so_value opt")
      case True
      then show ?thesis using 2(3,4) Some maintainsD [OF keep 2(3)]
        by (auto simp: gbind_def gret_def pending_keeps_def keep split: if_splits prod.splits outcome.splits)
    next
      case False
      obtain r1 s1 where r1: "wrap_error (short_error c arg) (so_cb opt []) s = (r1, s1)" by force
      have "I s1" by (rule maintainsD [OF keep 2(3) r1])
      then show ?thesis using 2(1) [OF Some False 2(2)] 2(4) Some False r1
        by (cases r1) (auto simp: gbind_def)
    qed
  qed (use 2 in \<open>auto simp: gerr_def\<close>)
qed (auto simp: gret_def)

lemma parseLongOption_keeps:
  assumes "callbacks_keep I shorts longs" and "I s" and "parseLongOption longs arg s = (r, s')"
  shows "I s' \<and> (\<forall>w. r = Ok w \<longrightarrow> pending_keeps I w)"
proof -
  define p where "p = (case index_eq arg of
      Some idx \<Rightarrow> if idx > 0 then (True, drop 2 (take idx arg), drop (idx + 1) arg) else (False, drop 2 arg, [])
    | None \<Rightarrow> (False, drop 2 arg, []))"
  obtain hasVal optname optval where p: "p = (hasVal, optname, optval)" by (metis prod_cases3)
  have keep: "maintains I (wrap_error (long_error optname) (lo_cb opt v))" if "find (\<lambda>opt. lo_name opt = optname) longs = Some opt"
    for opt v using assms(1) that by (auto simp: callbacks_keep_def find_Some_iff intro!: maintains_wrap_error dest: nth_mem)
  show ?thesis using assms(2,3) unfolding parseLongOption_def p_def [symmetric] p
    by (auto simp: gbind_def gret_def gerr_def pending_keeps_def keep dest: maintainsD [OF keep]
        split: option.splits if_splits prod.splits outcome.splits)
qed

lemma options_loop_keeps:
  "callbacks_keep I shorts longs \<Longrightarrow> pending_keeps I w \<Longrightarrow> I s \<Longrightarrow> options_loop shorts longs w i args s = (r, s') \<Longrightarrow> I s'"
proof (induction shorts longs w i args arbitrary: s rule: options_loop.induct)
  case (2 shorts longs cb i arg args)
  have "maintains I (cb arg)" using 2(3) by (simp add: pending_keeps_def)
  then show ?case using 2 by (auto simp: gbind_def split: prod.splits outcome.splits dest: maintainsD)
next
  case (3 shorts longs i arg args)
  note step = parse_shorts_keeps [OF 3(3) 3(5)] parseLongOption_keeps [OF 3(3) 3(5)]
  show ?case using 3 step
    by (fastforce simp: gbind_def gret_def parseShortOptions_def split: prod.splits outcome.splits if_splits)
qed (auto simp: gret_def gerr_def split: option.splits)

lemma parseOptions_keeps:
  "callbacks_keep I shorts longs \<Longrightarrow> I s \<Longrightarrow> parseOptions shorts longs args s = (r, s') \<Longrightarrow> I s'"
  by (auto simp: parseOptions_def dest: options_loop_keeps [of I shorts longs None])

text \<open>The parameters that every accepted command line leaves.\<close>

definition primary_ok :: "primary_args \<Rightarrow> bool" where
  "primary_ok s \<longleftrightarrow> 1 \<le> pa_ListenPort s \<and> pa_ListenPort s \<le> 65535 \<and> 0 \<le> pa_NumObserver s \<and>
     (pa_numObserverDefined s \<or> pa_NumObserver s = 0) \<and> (pa_outputPathDefined s \<or> pa_outputPath s = [])"

lemma callbacks_keep_Cons:
  "callbacks_keep I [] []"
  "callbacks_keep I (opt # shorts) longs \<longleftrightarrow> (\<forall>val. maintains I (so_cb opt val)) \<and> callbacks_keep I shorts longs"
  "callbacks_keep I [] (lopt # longs) \<longleftrightarrow> (\<forall>val. maintains I (lo_cb lopt val)) \<and> callbacks_keep I [] longs"
  by (auto simp: callbacks_keep_def)

lemma primary_callbacks_ok: "callbacks_keep primary_ok (primary_shorts ParseFloat) (primary_longs it ParseFloat)"
proof -
  have "maintains primary_ok (delay_callback ParseFloat v)" "maintains primary_ok (skew_callback ParseFloat v)"
    "maintains primary_ok (seed_callback v)" "maintains primary_ok (port_callback v)"
    "maintains primary_ok (compress_callback v)" "maintains primary_ok (stat_callback v)" for v
    unfolding delay_callback_def skew_callback_def seed_callback_def port_callback_def compress_callback_def stat_callback_def
    by (rule maintains_once; (rule maintains_store)?; auto simp: primary_ok_def dest: handlePort_range)+
  moreover have "maintains primary_ok (env_callback v)" "maintains primary_ok (verbose_callback v)"
    "maintains primary_ok (level_callback it v)" "maintains primary_ok (exit_callback v)" for v
    unfolding env_callback_def verbose_callback_def level_callback_def exit_callback_def
    by ((rule maintains_store maintains_gmodify maintains_gpanic)+; simp add: primary_ok_def)+
  moreover have "maintains primary_ok (observers_callback v)" "maintains primary_ok (output_callback v)" for v
    by (auto simp: maintains_def observers_callback_def output_callback_def once_def store_def gbind_def gread_def gmodify_def
        gerr_def glift_def primary_ok_def handleObservers_def split: outcome.splits option.splits if_splits)
  ultimately show ?thesis
    by (simp add: primary_shorts_def primary_longs_def short_option_def long_option_def callbacks_keep_Cons)
qed

text \<open>
  A command line that the primary accepts has its three operands at the end, a port in the range of TCP ports, at
  least one secondary and a number of observers that is not negative; the result goes to a file exactly if
  a path was given, and a compressed result to a file whose name ends in \<^verbatim>\<open>.gz\<close>.
\<close>

theorem accepted_primary:
  assumes "mainPrimary it ParseFloat Create nanosecond c args = Ok (s, output)"
  shows "1 \<le> pa_ListenPort s \<and> pa_ListenPort s \<le> 65535 \<and> 1 \<le> pa_NumSecondary s \<and> 0 \<le> pa_NumObserver s \<and>
    (\<exists>options. args = options @ [args ! length options, pa_SetupPath s, pa_BenchmarkPath s]) \<and>
    (output = None \<longleftrightarrow> \<not> pa_outputPathDefined s) \<and>
    (pa_compressDefined s \<longrightarrow> output = None \<or> suffix ''.gz'' (the output))"
proof -
  obtain index s1 where p: "parseOptions (primary_shorts ParseFloat) (primary_longs it ParseFloat) args (primary_defaults nanosecond c) = (Ok index, s1)"
    and o: "primary_operands args index s1 = Ok s" and out: "primary_output Create s = Ok output"
    using assms by (auto simp: mainPrimary_def obind_def split: prod.splits outcome.splits)
  have "primary_ok s1"
    by (rule parseOptions_keeps [OF primary_callbacks_ok _ p]) (simp add: primary_ok_def primary_defaults_def PORT_DEFAULT_def)
  moreover have len: "length args = index + 3" using o by (auto simp: primary_operands_def split: if_splits)
  moreover have "args = take index args @ [args ! index, args ! (index + 1), args ! (index + 2)]"
    using append_take_drop_id [of index args] len by (simp add: Cons_nth_drop_Suc [symmetric] del: append_take_drop_id)
  ultimately show ?thesis using o out
    by (auto simp: primary_ok_def primary_operands_def primary_output_def Let_def suffix_def intro!: exI [of _ "take index args"]
        split: if_splits option.splits outcome.splits)
qed

definition sample_line :: "string list" where
  "sample_line = [''--compress'', ''-p80'', ''-oresult'', ''4'', ''setup.yaml'', ''workload.yaml'']"

definition sample_run :: "(primary_args \<times> string option) outcome" where
  "sample_run = mainPrimary verbosity_levels (\<lambda>_. Ok f64_zero) (\<lambda>_. Ok ()) 7 \<lparr>cl_env = [], cl_verbosity = 3\<rparr> sample_line"

definition sample_primary :: primary_args where
  "sample_primary = (case sample_run of Ok (s, _) \<Rightarrow> s)"

lemma sample_run_Ok: "sample_run = Ok (sample_primary, Some ''result.gz'')"
  by code_simp

lemma accepted_primary_witness:
  "mainPrimary verbosity_levels (\<lambda>_. Ok f64_zero) (\<lambda>_. Ok ()) 7 \<lparr>cl_env = [], cl_verbosity = 3\<rparr> sample_line
     = Ok (sample_primary, Some ''result.gz'') \<and>
   1 \<le> pa_ListenPort sample_primary \<and> 1 \<le> pa_NumSecondary sample_primary \<and> pa_ListenPort sample_primary = 80 \<and>
   (\<exists>options. sample_line = options @ [sample_line ! length options, pa_SetupPath sample_primary, pa_BenchmarkPath sample_primary])"
proof -
  have run: "mainPrimary verbosity_levels (\<lambda>_. Ok f64_zero) (\<lambda>_. Ok ()) 7 \<lparr>cl_env = [], cl_verbosity = 3\<rparr> sample_line
     = Ok (sample_primary, Some ''result.gz'')"
    using sample_run_Ok by (simp add: sample_run_def)
  have "pa_ListenPort sample_primary = 80" by code_simp
  then show ?thesis using accepted_primary [OF run] run by blast
qed

lemma option_spellings_witness:
  "(let run = parseOptions (primary_shorts (\<lambda>_. Ok f64_zero)) (primary_longs verbosity_levels (\<lambda>_. Ok f64_zero));
        s = primary_defaults 7 \<lparr>cl_env = [], cl_verbosity = 3\<rparr>;
        s' = s\<lparr>pa_portDefined := True, pa_ListenPort := 80\<rparr> in
    port_callback ''80'' s = (Ok (), s') \<and>
    run [''-p80'', ''4''] s = after 1 (run [''4'']) s' \<and> run [''-p'', ''80'', ''4''] s = after 2 (run [''4'']) s' \<and>
    run [''--port=80'', ''4''] s = after 1 (run [''4'']) s' \<and> run [''--port'', ''80'', ''4''] s = after 2 (run [''4'']) s')"
proof -
  define s where "s = primary_defaults 7 \<lparr>cl_env = [], cl_verbosity = 3\<rparr>"
  have "Atoi ''80'' = Some 80" by code_simp
  then have cb: "port_callback ''80'' s = (Ok (), s\<lparr>pa_portDefined := True, pa_ListenPort := 80\<rparr>)"
    by (simp add: port_callback_def once_def store_def gbind_def gread_def gmodify_def glift_def handlePort_def s_def
        primary_defaults_def)
  have "find (\<lambda>opt. CHR ''p'' = so_name opt) (primary_shorts (\<lambda>_. Ok f64_zero)) = Some (short_option (CHR ''p'') True port_callback)"
    and "find (\<lambda>opt. lo_name opt = ''port'') (primary_longs verbosity_levels (\<lambda>_. Ok f64_zero)) = Some (long_option ''port'' True port_callback)"
    by (simp_all add: primary_shorts_def primary_longs_def short_option_def long_option_def)
  note option_spellings [where c = "CHR ''p''" and cb = port_callback and name = "''port''" and val = "''80''" and rest = "[''4'']" and s = s,
      OF this(1) _ _ _ this(2) _ _ _ _ _ cb]
  then show ?thesis using cb by (simp add: short_option_def long_option_def Let_def s_def [symmetric])
qed

section \<open>What the statistics count\<close>

definition submitted :: "InteractionResult \<Rightarrow> bool" where
  "submitted iact \<longleftrightarrow> \<not> f64_lt (ir_SubmitTime iact) f64_zero"

definition counted_commit :: "InteractionResult \<Rightarrow> bool" where
  "counted_commit iact \<longleftrightarrow> submitted iact \<and> \<not> f64_lt (ir_CommitTime iact) f64_zero \<and>
     \<not> f64_le f64_zero (ir_AbortTime iact) \<and> \<not> f64_lt (ir_CommitTime iact) (ir_SubmitTime iact)"

definition counted_abort :: "InteractionResult \<Rightarrow> bool" where
  "counted_abort iact \<longleftrightarrow> submitted iact \<and> \<not> f64_lt (ir_CommitTime iact) f64_zero \<and> f64_le f64_zero (ir_AbortTime iact)"

definition latency_of :: "InteractionResult \<Rightarrow> f64" where
  "latency_of iact = f64_sub (ir_CommitTime iact) (ir_SubmitTime iact)"

lemma stat_times_counts:
  "st_numSubmitted (stat_times iact st) = st_numSubmitted st" "st_numAborted (stat_times iact st) = st_numAborted st"
  "st_latencies (stat_times iact st) = st_latencies st"
  by (simp_all add: stat_times_def Let_def)

lemma stat_one_counts:
  "st_numSubmitted (stat_one iact st) = st_numSubmitted st + (if submitted iact then 1 else 0)"
  "st_numAborted (stat_one iact st) = st_numAborted st + (if counted_abort iact then 1 else 0)"
  "st_latencies (stat_one iact st) = st_latencies st @ (if counted_commit iact then [latency_of iact] else [])"
  by (simp_all add: stat_one_def Let_def stat_times_counts submitted_def counted_abort_def counted_commit_def latency_of_def)

lemma stat_fold_counts:
  "st_numSubmitted (fold stat_one iacts st) = st_numSubmitted st + length (filter submitted iacts)"
  "st_numAborted (fold stat_one iacts st) = st_numAborted st + length (filter counted_abort iacts)"
  "st_latencies (fold stat_one iacts st) = st_latencies st @ map latency_of (filter counted_commit iacts)"
  by (induction iacts arbitrary: st) (simp_all add: stat_one_counts)

lemma split_filters:
  "(\<And>x. P x \<Longrightarrow> R x \<and> \<not> Q x) \<Longrightarrow> (\<And>x. Q x \<Longrightarrow> R x) \<Longrightarrow> length (filter P xs) + length (filter Q xs) \<le> length (filter R xs)"
  by (induction xs) auto

text \<open>
  C39: The printed statistics count each interaction of the result once: as submitted, as committed if it has a commit time at or after its
  submission and no abort time, and as aborted only if it has a commit time as well as an abort time; so, of a
  result in which no interaction has both, the printed number of aborts is zero, whatever was aborted. The
  median is the latency of an interaction that is counted as committed.
\<close>

theorem printStat_counts:
  "pr_submitted (printStat result) = length (filter submitted (all_interactions result)) \<and>
   pr_committed (printStat result) = length (filter counted_commit (all_interactions result)) \<and>
   pr_aborted (printStat result) = length (filter counted_abort (all_interactions result)) \<and>
   pr_committed (printStat result) + pr_aborted (printStat result) \<le> pr_submitted (printStat result) \<and>
   ((\<exists>i \<in> set (all_interactions result). \<not> f64_lt (ir_CommitTime i) f64_zero \<and> f64_le f64_zero (ir_AbortTime i)) \<or>
     pr_aborted (printStat result) = 0) \<and>
   (pr_throughput_latency_median (printStat result) = None \<or>
    snd (snd (the (pr_throughput_latency_median (printStat result))))
      \<in> latency_of ` {i \<in> set (all_interactions result). counted_commit i})"
proof -
  let ?all = "all_interactions result" and ?r = "printStat result"
  have counts: "pr_submitted ?r = length (filter submitted ?all)" "pr_committed ?r = length (filter counted_commit ?all)"
    "pr_aborted ?r = length (filter counted_abort ?all)"
    by (simp_all add: printStat_def Let_def stat_fold_counts stat_start_def)
  have "length (filter counted_commit ?all) + length (filter counted_abort ?all) \<le> length (filter submitted ?all)"
    by (rule split_filters) (auto simp: counted_commit_def counted_abort_def)
  moreover have "pr_throughput_latency_median ?r = None \<or>
    snd (snd (the (pr_throughput_latency_median ?r))) \<in> latency_of ` {i \<in> set ?all. counted_commit i}"
  proof -
    have lat: "st_latencies (fold stat_one ?all stat_start) = map latency_of (filter counted_commit ?all)"
      by (simp add: stat_fold_counts stat_start_def)
    have "Float64s xs ! (length xs div 2) \<in> set xs" if "xs \<noteq> []" for xs
      using that nth_mem [of "length xs div 2" "Float64s xs"] by (simp add: Float64s_set)
    from this [of "map latency_of (filter counted_commit ?all)"] show ?thesis
      unfolding printStat_def Let_def lat by simp
  qed
  moreover have "length (filter counted_abort ?all) = 0"
    if "\<not> (\<exists>i \<in> set ?all. \<not> f64_lt (ir_CommitTime i) f64_zero \<and> f64_le f64_zero (ir_AbortTime i))"
    using that by (simp add: filter_empty_conv) (auto simp: counted_abort_def)
  ultimately show ?thesis unfolding counts by blast
qed

end
