(* ===== verification/Core_Log.thy ===== *)
theory Core_Log
  imports Go_Prelude
begin

text \<open>
  The logger (\<^verbatim>\<open>src/core/log.go\<close>), the level that the program gives it (\<^verbatim>\<open>setVerbosity\<close> in \<^verbatim>\<open>src/diablo.go\<close>), and the check of the
  arguments of the first generation (\<^verbatim>\<open>src/core/arguments.go\<close>). The stream is the list of the lines written to it; the time stamp and the
  formatting of a message are parameters.
\<close>

section \<open>Levels\<close>

datatype LogLevel = LOG_SILENT | LOG_FATAL | LOG_ERROR | LOG_WARN | LOG_INFO | LOG_DEBUG | LOG_TRACE

primrec level_number :: "LogLevel \<Rightarrow> nat" where
  "level_number LOG_SILENT = 0"
| "level_number LOG_FATAL = 1"
| "level_number LOG_ERROR = 2"
| "level_number LOG_WARN = 3"
| "level_number LOG_INFO = 4"
| "level_number LOG_DEBUG = 5"
| "level_number LOG_TRACE = 6"

instantiation LogLevel :: linorder
begin

definition less_eq_LogLevel :: "LogLevel \<Rightarrow> LogLevel \<Rightarrow> bool" where
  "less_eq_LogLevel a b \<longleftrightarrow> level_number a \<le> level_number b"

definition less_LogLevel :: "LogLevel \<Rightarrow> LogLevel \<Rightarrow> bool" where
  "less_LogLevel a b \<longleftrightarrow> level_number a < level_number b"

instance
proof
  fix a b c :: LogLevel
  show "a < b \<longleftrightarrow> a \<le> b \<and> \<not> b \<le> a" "a \<le> a" "a \<le> b \<or> b \<le> a"
    by (auto simp: less_eq_LogLevel_def less_LogLevel_def)
  show "a \<le> b \<Longrightarrow> b \<le> c \<Longrightarrow> a \<le> c" by (simp add: less_eq_LogLevel_def)
  show "a \<le> b \<Longrightarrow> b \<le> a \<Longrightarrow> a = b" by (cases a; cases b) (simp_all add: less_eq_LogLevel_def)
qed

end

definition setVerbosity :: "int \<Rightarrow> LogLevel" where
  "setVerbosity verbosity =
     (if verbosity = 0 then LOG_SILENT else if verbosity = 1 then LOG_FATAL else if verbosity = 2 then LOG_ERROR
      else if verbosity = 3 then LOG_WARN else if verbosity = 4 then LOG_INFO else if verbosity = 5 then LOG_DEBUG
      else LOG_TRACE)"

section \<open>The printing logger\<close>

record printLogger =
  pl_name :: string
  pl_level :: LogLevel

datatype logger = NoLogger | PrintLogger printLogger

definition NewPrintLogger :: "string \<Rightarrow> LogLevel \<Rightarrow> logger" where
  "NewPrintLogger name level = PrintLogger \<lparr>pl_name = name, pl_level = level\<rparr>"

definition printLogger_log :: "string \<Rightarrow> printLogger \<Rightarrow> string \<Rightarrow> string \<Rightarrow> (string list, unit) go" where
  "printLogger_log stamp this level message = gmodify (\<lambda>stream. stream @ [stamp @ '' '' @ level @ '' '' @ pl_name this @ '': '' @ message @ [CHR 10]])"

definition level_tag :: "LogLevel \<Rightarrow> string" where
  "level_tag level =
     (case level of LOG_FATAL \<Rightarrow> ''FATAL'' | LOG_ERROR \<Rightarrow> ''ERROR'' | LOG_WARN \<Rightarrow> ''WARN '' | LOG_INFO \<Rightarrow> ''INFO ''
      | LOG_DEBUG \<Rightarrow> ''DEBUG'' | LOG_TRACE \<Rightarrow> ''TRACE'' | LOG_SILENT \<Rightarrow> [])"

text \<open>\<^verbatim>\<open>Fatalf\<close> to \<^verbatim>\<open>Tracef\<close>, for the level of each.\<close>

definition logf :: "string \<Rightarrow> logger \<Rightarrow> LogLevel \<Rightarrow> string \<Rightarrow> (string list, unit) go" where
  "logf stamp logger level message =
     (case logger of
        NoLogger \<Rightarrow> gret ()
      | PrintLogger this \<Rightarrow> if pl_level this \<ge> level then printLogger_log stamp this (level_tag level) message else gret ())"

definition Extend :: "string \<Rightarrow> logger \<Rightarrow> logger" where
  "Extend name logger =
     (case logger of
        NoLogger \<Rightarrow> NoLogger
      | PrintLogger this \<Rightarrow> NewPrintLogger (if pl_name this = [] then name else pl_name this @ ''.'' @ name) (pl_level this))"

section \<open>Arguments\<close>

definition PrimaryArgs_CheckArgs :: "string \<Rightarrow> string \<Rightarrow> unit outcome" where
  "PrimaryArgs_CheckArgs benchConfigPath chainConfigPath =
     (if benchConfigPath = [] then Err (Errorf ''benchmark config not provided'' [])
      else if chainConfigPath = [] then Err (Errorf ''chain configuration not provided'' [])
      else Ok ())"

definition SecondaryArgs_check :: "string \<Rightarrow> string \<Rightarrow> string \<Rightarrow> unit outcome" where
  "SecondaryArgs_check primaryAddr benchConfigPath chainConfigPath =
     (if primaryAddr = [] then Err (Errorf ''primary information not provided'' [])
      else if benchConfigPath = [] then Err (Errorf ''benchmark configuration not provided'' [])
      else if chainConfigPath = [] then Err (Errorf ''no chain config provided'' [])
      else Ok ())"

section \<open>What is printed\<close>

text \<open>The nested names of a logger.\<close>

lemma Extend_Extend: "a \<noteq> [] \<Longrightarrow> Extend b (Extend a l) = Extend (a @ ''.'' @ b) l"
  by (cases l) (simp_all add: Extend_def NewPrintLogger_def)

text \<open>
  A message of a level is printed, as one line, exactly if the verbosity is at least the number of the level or negative: a
  negative verbosity, which the increments of \<^verbatim>\<open>-v\<close> can only reach by overflow, prints everything.
\<close>

theorem message_printed:
  assumes "level \<noteq> LOG_SILENT"
  shows "logf stamp (Extend name (NewPrintLogger [] (setVerbosity v))) level message stream =
    (Ok (), if v < 0 \<or> int (level_number level) \<le> v
      then stream @ [stamp @ '' '' @ level_tag level @ '' '' @ name @ '': '' @ message @ [CHR 10]] else stream)"
  using assms by (cases level)
    (auto simp: logf_def Extend_def NewPrintLogger_def setVerbosity_def printLogger_log_def gmodify_def gret_def less_eq_LogLevel_def)

end
