(* ===== verification/Util_IPC.thy ===== *)
theory Util_IPC
  imports Go_Prelude
begin

text \<open>
  The pipes to a helper process (\<^verbatim>\<open>src/util/ipc.go\<close>). What is written goes through two goroutines: one takes the
  data of a write at once and keeps it, the other writes it to the process as fast as the process takes it. What the process prints is read by a third goroutine into
  pieces that \<^verbatim>\<open>Read\<close> copies out. The channels have no room, so a send and its receive are one step.
\<close>

section \<open>Writing\<close>

text \<open>
  \<open>WBusy data acc\<close>: \<^verbatim>\<open>writeFromChannel\<close> offers \<open>data\<close> to the other goroutine and collects in \<open>acc\<close> what comes meanwhile. An accumulator that is
  \<^verbatim>\<open>nil\<close> is the empty list: appending an empty slice to it leaves it \<^verbatim>\<open>nil\<close>.
\<close>

datatype writer_phase = WIdle | WBusy "8 word list" "8 word list" | WStopped

datatype forward_phase = FIdle | FWriting "8 word list" | FStopped

record ipc =
  ip_closed :: bool
  ip_writer :: writer_phase
  ip_forward :: forward_phase
  ip_accepted :: "8 word list"
  ip_written :: "8 word list"
  ip_failed :: bool

definition ipc_start :: ipc where
  "ipc_start = \<lparr>ip_closed = False, ip_writer = WIdle, ip_forward = FIdle, ip_accepted = [], ip_written = [], ip_failed = False\<rparr>"

text \<open>The state after the goroutine has handed over its data: it continues with what it has collected.\<close>

definition next_phase :: "8 word list \<Rightarrow> writer_phase" where
  "next_phase acc = (if acc = [] then WIdle else WBusy acc [])"

inductive ipc_step :: "ipc \<Rightarrow> ipc \<Rightarrow> bool" where
  write_idle: "ip_writer s = WIdle \<Longrightarrow> \<not> ip_closed s \<Longrightarrow>
    ipc_step s (s\<lparr>ip_writer := WBusy p [], ip_accepted := ip_accepted s @ p\<rparr>)"
| write_busy: "ip_writer s = WBusy data acc \<Longrightarrow> \<not> ip_closed s \<Longrightarrow>
    ipc_step s (s\<lparr>ip_writer := WBusy data (acc @ p), ip_accepted := ip_accepted s @ p\<rparr>)"
| hand_over: "ip_writer s = WBusy data acc \<Longrightarrow> ip_forward s = FIdle \<Longrightarrow>
    ipc_step s (s\<lparr>ip_writer := next_phase acc, ip_forward := FWriting data\<rparr>)"
| forward: "ip_forward s = FWriting data \<Longrightarrow>
    ipc_step s (s\<lparr>ip_forward := FIdle, ip_written := ip_written s @ data\<rparr>)"
| forward_fails: "ip_forward s = FWriting data \<Longrightarrow> prefix part data \<Longrightarrow>
    ipc_step s (s\<lparr>ip_forward := FStopped, ip_written := ip_written s @ part, ip_failed := True\<rparr>)"
| close: "\<not> ip_closed s \<Longrightarrow> ipc_step s (s\<lparr>ip_closed := True\<rparr>)"
| stop_idle: "ip_writer s = WIdle \<Longrightarrow> ip_closed s \<Longrightarrow> ipc_step s (s\<lparr>ip_writer := WStopped\<rparr>)"
| stop_busy: "ip_writer s = WBusy data acc \<Longrightarrow> ip_closed s \<Longrightarrow> ipc_step s (s\<lparr>ip_writer := WStopped\<rparr>)"
| stop_forward: "ip_writer s = WStopped \<Longrightarrow> ip_forward s = FIdle \<Longrightarrow> ipc_step s (s\<lparr>ip_forward := FStopped\<rparr>)"

inductive ipc_run :: "ipc \<Rightarrow> ipc \<Rightarrow> bool" where
  refl: "ipc_run s s"
| step: "ipc_run s t \<Longrightarrow> ipc_step t u \<Longrightarrow> ipc_run s u"

section \<open>Nothing is reordered or repeated\<close>

definition held :: "ipc \<Rightarrow> 8 word list" where
  "held s =
     (case ip_forward s of FWriting data \<Rightarrow> data | _ \<Rightarrow> []) @ (case ip_writer s of WBusy data acc \<Rightarrow> data @ acc | _ \<Rightarrow> [])"

text \<open>Until the writer has stopped or a write has failed, what was accepted is what was written and what the goroutines hold.\<close>

definition ipc_inv :: "ipc \<Rightarrow> bool" where
  "ipc_inv s \<longleftrightarrow>
     (if ip_failed s then ip_forward s = FStopped \<and> prefix (ip_written s) (ip_accepted s)
      else if ip_writer s = WStopped then prefix (ip_written s @ held s) (ip_accepted s)
      else ip_accepted s = ip_written s @ held s \<and> ip_forward s \<noteq> FStopped) \<and>
     (ip_writer s = WStopped \<longrightarrow> ip_closed s)"

lemma ipc_inv_step: "ipc_step s t \<Longrightarrow> ipc_inv s \<Longrightarrow> ipc_inv t"
proof (induction rule: ipc_step.induct)
  case (forward_fails s data part)
  have "prefix (ip_written s @ part) (ip_written s @ data)" using forward_fails(2) by simp
  then have "prefix (ip_written s @ data) x \<Longrightarrow> prefix (ip_written s @ part) x" for x by (rule prefix_order.trans)
  then show ?case using forward_fails by (auto simp: ipc_inv_def held_def split: if_splits)
qed (auto simp: ipc_inv_def held_def next_phase_def split: if_splits writer_phase.splits forward_phase.splits intro: prefix_prefix)

lemma ipc_run_inv: "ipc_run s t \<Longrightarrow> ipc_inv s \<Longrightarrow> ipc_inv t"
  by (induction rule: ipc_run.induct) (auto dest: ipc_inv_step)

lemma ipc_start_inv: "ipc_inv ipc_start"
  by (simp add: ipc_inv_def ipc_start_def held_def)

lemma ipc_run_step: "ipc_step s t \<Longrightarrow> ipc_run t u \<Longrightarrow> ipc_run s u"
  by (rotate_tac, induction rule: ipc_run.induct) (auto intro: ipc_run.intros)

text \<open>What the goroutines hold can be written, one hand-over after the other.\<close>

definition drains :: "ipc \<Rightarrow> bool" where
  "drains s \<longleftrightarrow> (\<exists>t. ipc_run s t \<and> ip_written t = ip_written s @ held s \<and> ip_accepted t = ip_accepted s)"

lemma drains_step:
  assumes "ipc_step s t" and "drains t" and "ip_written t @ held t = ip_written s @ held s" and "ip_accepted t = ip_accepted s"
  shows "drains s"
  using assms ipc_run_step [OF assms(1)] unfolding drains_def by metis

lemma drains_writing_idle: "ip_writer s = WIdle \<Longrightarrow> ip_forward s = FWriting data \<Longrightarrow> drains s"
  by (rule drains_step [OF forward]) (auto simp: drains_def held_def intro: ipc_run.refl)

lemma drains_writing_busy: "ip_writer s = WBusy data [] \<Longrightarrow> ip_forward s = FIdle \<Longrightarrow> drains s"
  by (rule drains_step [OF hand_over], assumption, assumption, rule drains_writing_idle) (auto simp: held_def next_phase_def)

lemma drains_idle: "ip_writer s = WBusy data acc \<Longrightarrow> ip_forward s = FIdle \<Longrightarrow> drains s"
proof (cases "acc = []")
  case False
  assume s: "ip_writer s = WBusy data acc" "ip_forward s = FIdle"
  let ?t = "s\<lparr>ip_writer := next_phase acc, ip_forward := FWriting data\<rparr>"
  let ?u = "?t\<lparr>ip_forward := FIdle, ip_written := ip_written ?t @ data\<rparr>"
  have u: "drains ?u" by (rule drains_writing_busy) (use False in \<open>simp_all add: next_phase_def\<close>)
  have tu: "ipc_step ?t ?u" by (rule forward) simp
  have t: "drains ?t" by (rule drains_step [OF tu u]) (simp_all add: held_def)
  show ?thesis by (rule drains_step [OF hand_over [OF s] t]) (use False s in \<open>simp_all add: held_def next_phase_def\<close>)
qed (simp add: drains_writing_busy)

lemma drains_any:
  assumes "ip_forward s \<noteq> FStopped"
  shows "drains s"
proof -
  have idle: "drains t" if "ip_forward t = FIdle" for t
  proof (cases "ip_writer t")
    case (WBusy data acc)
    then show ?thesis using drains_idle that by simp
  qed (use that in \<open>auto simp: drains_def held_def intro!: exI [of _ t] ipc_run.refl\<close>)
  show ?thesis
  proof (cases "ip_forward s")
    case (FWriting data)
    show ?thesis by (rule drains_step [OF forward [OF FWriting] idle]) (simp_all add: held_def FWriting)
  qed (use assms idle in auto)
qed

text \<open>
  The process gets a prefix of what was written to it, in order and without repetition, in every interleaving; and as long as the pipe
  is neither closed nor broken, all that was accepted so far can reach it.
\<close>

theorem ipc_in_order:
  assumes "ipc_run ipc_start s"
  shows "prefix (ip_written s) (ip_accepted s) \<and>
    (\<not> ip_failed s \<and> \<not> ip_closed s \<longrightarrow> (\<exists>t. ipc_run s t \<and> ip_written t = ip_accepted s))"
proof -
  have inv: "ipc_inv s" by (rule ipc_run_inv [OF assms ipc_start_inv])
  then have "prefix (ip_written s) (ip_accepted s)"
    by (auto simp: ipc_inv_def split: if_splits dest: append_prefixD)
  moreover have "\<exists>t. ipc_run s t \<and> ip_written t = ip_accepted s" if "\<not> ip_failed s" "\<not> ip_closed s"
    using inv that drains_any [of s] by (auto simp: ipc_inv_def drains_def)
  ultimately show ?thesis by blast
qed

text \<open>
  A pipe that is closed while the goroutine still offers data loses it: \<^verbatim>\<open>Close\<close> does not wait for it, even if the process would take all.
\<close>

lemma close_loses_data:
  "\<exists>s. ipc_run ipc_start s \<and> \<not> ip_failed s \<and> ip_writer s = WStopped \<and> ip_forward s = FStopped \<and>
     ip_accepted s = [1] \<and> ip_written s = []"
proof -
  define a where "a = ipc_start\<lparr>ip_writer := WBusy [1] [], ip_accepted := [1]\<rparr>"
  define b where "b = a\<lparr>ip_closed := True\<rparr>"
  define c where "c = b\<lparr>ip_writer := WStopped\<rparr>"
  define d where "d = c\<lparr>ip_forward := FStopped\<rparr>"
  have "ipc_step ipc_start a" using write_idle [of ipc_start "[1]"] by (simp add: a_def ipc_start_def)
  moreover have "ipc_step a b" unfolding b_def by (rule close) (simp add: a_def ipc_start_def)
  moreover have "ipc_step b c" unfolding c_def by (rule stop_busy) (simp_all add: b_def a_def)
  moreover have "ipc_step c d" unfolding d_def by (rule stop_forward) (simp_all add: c_def b_def a_def ipc_start_def)
  ultimately have "ipc_run ipc_start d" by (meson ipc_run.intros)
  then show ?thesis by (intro exI [of _ d]) (simp add: d_def c_def b_def a_def ipc_start_def)
qed

section \<open>Reading\<close>

text \<open>
  \<open>readToChannel len chunks\<close>: the pieces that are put into the channel when the output of the process comes in \<open>chunks\<close> and the buffer
  has the length \<open>len\<close>; a buffer that is filled is followed by one of twice its length.
\<close>

function readToChannel :: "nat \<Rightarrow> 8 word list list \<Rightarrow> 8 word list list" where
  "readToChannel len [] = []"
| "readToChannel len (chunk # chunks) =
     (if chunk = [] \<or> len = 0 then readToChannel len chunks
      else if len < length chunk then take len chunk # readToChannel (2 * len) (drop len chunk # chunks)
      else chunk # readToChannel (if length chunk = len then 2 * len else len) chunks)"
  by pat_completeness auto
termination
  by (relation "measure (\<lambda>(_, chunks). sum_list (map (Suc \<circ> length) chunks))") auto

text \<open>\<^verbatim>\<open>Read\<close> with a buffer of length \<open>n\<close>: the state is the rest of the last piece and the pieces still to come.\<close>

definition service_Read :: "nat \<Rightarrow> (8 word list option \<times> 8 word list list, 8 word list) go" where
  "service_Read n = (\<lambda>(out, stdout).
     case (case out of Some o1 \<Rightarrow> Some (o1, stdout) | None \<Rightarrow> (case stdout of [] \<Rightarrow> None | o1 # rest \<Rightarrow> Some (o1, rest))) of
       None \<Rightarrow> (Err (Errorf ''EOF'' []), (None, []))
     | Some (o1, rest) \<Rightarrow> (Ok (take n o1), (if length o1 \<le> n then None else Some (drop n o1), rest)))"

definition unread :: "8 word list option \<times> 8 word list list \<Rightarrow> 8 word list" where
  "unread = (\<lambda>(out, stdout). (case out of Some o1 \<Rightarrow> o1 | None \<Rightarrow> []) @ concat stdout)"

lemma concat_readToChannel: "0 < len \<Longrightarrow> concat (readToChannel len chunks) = concat chunks"
  by (induction len chunks rule: readToChannel.induct) auto

lemma service_Read_unread: "service_Read n st = (Ok bs, st') \<Longrightarrow> unread st = bs @ unread st'"
  by (auto simp: service_Read_def unread_def split: option.splits list.splits if_splits prod.splits)

text \<open>All pieces a client reads, together with what is left, are the output of the process.\<close>

fun service_Reads :: "nat list \<Rightarrow> 8 word list option \<times> 8 word list list \<Rightarrow> 8 word list \<times> 8 word list" where
  "service_Reads [] st = ([], unread st)"
| "service_Reads (n # ns) st =
     (case service_Read n st of
        (Ok bs, st) \<Rightarrow> (let (read, rest) = service_Reads ns st in (bs @ read, rest))
      | (_, st) \<Rightarrow> service_Reads ns st)"

lemma service_Reads_unread: "service_Reads ns st = (read, rest) \<Longrightarrow> read @ rest = unread st"
proof (induction ns arbitrary: st read rest)
  case (Cons n ns)
  obtain r st' where r: "service_Read n st = (r, st')" by (cases "service_Read n st")
  show ?case
  proof (cases r)
    case (Ok bs)
    obtain read' rest' where rec: "service_Reads ns st' = (read', rest')" by force
    then have "read' @ rest' = unread st'" by (rule Cons.IH)
    then show ?thesis using Cons.prems Ok r rec service_Read_unread [of n st bs st'] by auto
  next
    case (Err e)
    then have "unread st = []" "unread st' = []" using r
      by (auto simp: service_Read_def unread_def split: option.splits list.splits if_splits prod.splits)
    then show ?thesis using Cons.prems Cons.IH [of st'] r Err by simp
  next
    case (Panic p)
    then show ?thesis using r by (auto simp: service_Read_def split: option.splits list.splits prod.splits)
  qed
qed simp

theorem ipc_reads_stream:
  "service_Reads ns (None, readToChannel 256 chunks) = (read, rest) \<Longrightarrow> read @ rest = concat chunks"
  using service_Reads_unread [of ns "(None, readToChannel 256 chunks)"] concat_readToChannel [of 256 chunks]
  by (simp add: unread_def)

lemma ipc_in_order_witness:
  "\<exists>t. ipc_run (ipc_start\<lparr>ip_writer := WBusy [1] [], ip_accepted := [1]\<rparr>) t \<and> ip_written t = [1]"
proof -
  have "ipc_step ipc_start (ipc_start\<lparr>ip_writer := WBusy [1] [], ip_accepted := [1]\<rparr>)"
    using write_idle [of ipc_start "[1]"] by (simp add: ipc_start_def)
  then have "ipc_run ipc_start (ipc_start\<lparr>ip_writer := WBusy [1] [], ip_accepted := [1]\<rparr>)"
    by (rule ipc_run.step [OF ipc_run.refl])
  from ipc_in_order [OF this] show ?thesis by (simp add: ipc_start_def)
qed

end
