(* ===== verification/Old_Results.thy ===== *)
theory Old_Results
  imports Go_Float64
begin

text \<open>
  The results of the first generation of Diablo (\<^verbatim>\<open>src/core/results/event.go\<close> and \<^verbatim>\<open>results.go\<close>): the log of the
  submissions and commits of a thread, its summary with a throughput per second over a sliding window, and the
  combination of the summaries of all secondaries.

  The log is a map; a loop over it sees its entries in an order that is a parameter. Counts of entries are integers without bound, as a map
  has fewer than \<open>2 ^ 63\<close> of them; the sums of the reported counts have their width of 64 bits.
\<close>

section \<open>The log\<close>

record transactionStat =
  ts_submit :: int
  ts_commit :: int

type_synonym EventLog = "(int, transactionStat) gomap"

definition NewEventLog :: EventLog where
  "NewEventLog = []"

definition getStat :: "int \<Rightarrow> EventLog \<Rightarrow> transactionStat" where
  "getStat index log = (case gomap_get log index of Some stat \<Rightarrow> stat | None \<Rightarrow> \<lparr>ts_submit = - 1, ts_commit = - 1\<rparr>)"

definition AddSubmit :: "int \<Rightarrow> int \<Rightarrow> EventLog \<Rightarrow> EventLog" where
  "AddSubmit index when log = gomap_set index ((getStat index log)\<lparr>ts_submit := when\<rparr>) log"

definition AddCommit :: "int \<Rightarrow> int \<Rightarrow> EventLog \<Rightarrow> EventLog" where
  "AddCommit index when log = gomap_set index ((getStat index log)\<lparr>ts_commit := when\<rparr>) log"

section \<open>The summary of a thread\<close>

record Results =
  rs_TxLatencies :: "f64 list"
  rs_AverageLatency :: f64
  rs_MedianLatency :: f64
  rs_Throughput :: f64
  rs_ThroughputSeconds :: "f64 list"
  rs_Success :: "64 word"
  rs_Fail :: "64 word"

definition succeeded :: "transactionStat \<Rightarrow> bool" where
  "succeeded s \<longleftrightarrow> ts_submit s \<ge> 0 \<and> ts_commit s \<ge> 0"

definition commit_second :: "transactionStat \<Rightarrow> nat" where
  "commit_second s = nat (ts_commit s div 1000)"

text \<open>The first loop: latencies, successes, failures, and the last second with a commit.\<close>

definition format_scan ::
  "transactionStat \<Rightarrow> f64 list \<times> 64 word \<times> 64 word \<times> nat \<Rightarrow> f64 list \<times> 64 word \<times> 64 word \<times> nat" where
  "format_scan s = (\<lambda>(lats, success, fail, maxCommit).
     if succeeded s
     then (lats @ [f64_of_int (wrap64 (ts_commit s - ts_submit s))], success + 1, fail,
           if commit_second s > maxCommit then commit_second s else maxCommit)
     else (lats, success, fail + 1, maxCommit))"

definition format_count :: "transactionStat \<Rightarrow> int list outcome \<Rightarrow> int list outcome" where
  "format_count s r =
     obind r (\<lambda>commitPerSecond.
     if succeeded s then
       (if commit_second s < length commitPerSecond
        then Ok (commitPerSecond[commit_second s := commitPerSecond ! commit_second s + 1])
        else Panic ''index out of range'')
     else Ok commitPerSecond)"

text \<open>The third loop, from the second \<open>i\<close> on; the list \<open>is\<close> holds the seconds that are left.\<close>

fun format_windows :: "int \<Rightarrow> int list \<Rightarrow> int \<Rightarrow> nat list \<Rightarrow> f64 list outcome" where
  "format_windows window commitPerSecond txsum [] = Ok []"
| "format_windows window commitPerSecond txsum (i # is) =
     (let txsum = txsum + commitPerSecond ! i in
      if int i \<ge> window then
        (if int i - window \<ge> int (length commitPerSecond) then Panic ''index out of range''
         else
           let txsum = txsum - commitPerSecond ! nat (int i - window);
               thr = f64_div (f64_of_int txsum) (f64_of_int window) in
           obind (format_windows window commitPerSecond txsum is) (\<lambda>thrs. Ok (thr # thrs)))
      else
        let thr = f64_div (f64_of_int txsum) (f64_of_int (int i + 1)) in
        obind (format_windows window commitPerSecond txsum is) (\<lambda>thrs. Ok (thr # thrs)))"

text \<open>\<^verbatim>\<open>Format\<close>, with the orders in which its two loops see the map.\<close>

definition Format :: "transactionStat list \<Rightarrow> transactionStat list \<Rightarrow> int \<Rightarrow> Results outcome" where
  "Format it1 it2 window =
     (let (lats, success, fail, maxCommit) = fold format_scan it1 ([], 0, 0, 0) in
      obind (fold format_count it2 (Ok (replicate (maxCommit + 1) 0))) (\<lambda>commitPerSecond.
      obind (format_windows window commitPerSecond 0 [0..<length commitPerSecond]) (\<lambda>thrs.
      Ok \<lparr>rs_TxLatencies = lats, rs_AverageLatency = f64_zero, rs_MedianLatency = f64_zero,
        rs_Throughput =
          (if length commitPerSecond > 0
           then f64_div (f64_of_int (sum_list commitPerSecond)) (f64_of_int (int (length commitPerSecond)))
           else f64_zero),
        rs_ThroughputSeconds = thrs, rs_Success = success, rs_Fail = fail\<rparr>)))"

section \<open>The sliding window\<close>

definition committed_at :: "transactionStat list \<Rightarrow> nat \<Rightarrow> int" where
  "committed_at stats i = int (length (filter (\<lambda>s. succeeded s \<and> commit_second s = i) stats))"

text \<open>The commits of the last \<open>w\<close> seconds up to the second \<open>i\<close>.\<close>

definition committed_within :: "transactionStat list \<Rightarrow> nat \<Rightarrow> nat \<Rightarrow> int" where
  "committed_within stats w i = int (length (filter (\<lambda>s. succeeded s \<and> commit_second s \<le> i \<and> i < commit_second s + w) stats))"

definition last_second :: "transactionStat list \<Rightarrow> nat" where
  "last_second stats = fold max (map commit_second (filter succeeded stats)) 0"

definition latency_of_stat :: "transactionStat \<Rightarrow> f64" where
  "latency_of_stat s = f64_of_int (wrap64 (ts_commit s - ts_submit s))"

lemma format_scan_fold:
  "fold format_scan it (lats, success, fail, m) =
     (lats @ map latency_of_stat (filter succeeded it), success + of_nat (length (filter succeeded it)),
      fail + of_nat (length (filter (\<lambda>s. \<not> succeeded s) it)), fold max (map commit_second (filter succeeded it)) m)"
  by (induction it arbitrary: lats success fail m) (auto simp: format_scan_def latency_of_stat_def max_def)

lemma fold_max_ge: "x \<in> set xs \<Longrightarrow> x \<le> fold max xs (m :: nat)" and fold_max_ge_start: "m \<le> fold max xs (m :: nat)"
  by (induction xs arbitrary: m) (auto intro: le_trans [OF max.cobounded1] le_trans [OF max.cobounded2] simp: max.commute)

lemma format_count_fold:
  assumes "\<And>s. s \<in> set it \<Longrightarrow> succeeded s \<Longrightarrow> commit_second s < length cps"
  shows "fold format_count it (Ok cps) = Ok (map (\<lambda>i. cps ! i + committed_at it i) [0..<length cps])"
  using assms
proof (induction it arbitrary: cps)
  case Nil
  then show ?case by (simp add: committed_at_def map_nth)
next
  case (Cons s it)
  define cps' where "cps' = (if succeeded s then cps[commit_second s := cps ! commit_second s + 1] else cps)"
  have "format_count s (Ok cps) = Ok cps'" using Cons.prems [of s] by (simp add: format_count_def cps'_def obind_def)
  moreover have "length cps' = length cps" by (simp add: cps'_def)
  moreover have "cps' ! i + committed_at it i = cps ! i + committed_at (s # it) i" if "i < length cps" for i
    using that by (auto simp: cps'_def committed_at_def)
  ultimately show ?case using Cons.IH [of cps'] Cons.prems by (simp cong: map_cong)
qed

text \<open>One second more brings its own commits into the window and moves those of the second \<open>i - w\<close> out of it.\<close>

lemma committed_within_step:
  assumes "0 < w"
  shows "committed_within stats w i =
    (if i = 0 then 0 else committed_within stats w (i - 1)) + committed_at stats i - (if w \<le> i then committed_at stats (i - w) else 0)"
proof (induction stats)
  case (Cons s stats)
  define c where "c = commit_second s"
  have one: "(if c \<le> i \<and> i < c + w then 1 else 0 :: int) =
      (if i = 0 then 0 else if c \<le> i - 1 \<and> i - 1 < c + w then 1 else 0) + (if c = i then 1 else 0)
      - (if w \<le> i then if c = i - w then 1 else 0 else 0)"
    using assms by (cases i) auto
  have "committed_within (s # stats) w j = (if succeeded s then if c \<le> j \<and> j < c + w then 1 else 0 else 0) + committed_within stats w j"
    and "committed_at (s # stats) j = (if succeeded s then if c = j then 1 else 0 else 0) + committed_at stats j" for j
    by (simp_all add: committed_within_def committed_at_def c_def)
  then show ?case using one Cons by (cases "succeeded s") (simp_all split: if_splits)
qed (simp add: committed_within_def committed_at_def)

definition windowed :: "transactionStat list \<Rightarrow> nat \<Rightarrow> nat \<Rightarrow> f64" where
  "windowed stats w i = f64_div (f64_of_int (committed_within stats w i)) (f64_of_int (int (min w (i + 1))))"

lemma format_windows_spec:
  assumes "0 < w" and "i \<le> n"
  shows "format_windows (int w) (map (committed_at stats) [0..<n]) (if i = 0 then 0 else committed_within stats w (i - 1)) [i..<n]
    = Ok (map (windowed stats w) [i..<n])"
  using assms(2)
proof (induction "n - i" arbitrary: i)
  case (Suc k)
  then have i: "i < n" and seconds: "[i..<n] = i # [Suc i..<n]" by (simp_all add: upt_conv_Cons)
  have IH: "format_windows (int w) (map (committed_at stats) [0..<n]) (committed_within stats w i) [Suc i..<n]
      = Ok (map (windowed stats w) [Suc i..<n])"
    using Suc(1) [of "Suc i"] Suc(2) i by simp
  note step = committed_within_step [OF assms(1), of stats i]
  show ?case
  proof (cases "w \<le> i")
    case True
    then have "nat (int i - int w) = i - w" by simp
    moreover have "committed_within stats w i =
        (if i = 0 then 0 else committed_within stats w (i - 1)) + committed_at stats i - committed_at stats (i - w)"
      using step True by simp
    ultimately show ?thesis using True i IH assms(1) unfolding seconds
      by (simp add: Let_def windowed_def obind_def min_absorb1 del: upt_Suc)
  next
    case False
    then have "committed_within stats w i = (if i = 0 then 0 else committed_within stats w (i - 1)) + committed_at stats i"
      using step by simp
    then show ?thesis using False i IH unfolding seconds
      by (simp add: Let_def windowed_def obind_def min_absorb2 add.commute del: upt_Suc)
  qed
qed simp

text \<open>
  C40: The summary of a log counts every entry once, as a success if it has both times and as a failure otherwise; its throughput
  at second \<open>i\<close> is the number of commits in the last \<open>w\<close> seconds up to \<open>i\<close>, divided by the number of these seconds, up to the last second with a
  commit; and its latencies are those of the successes. None of this depends on the order of the map, except for the order of the latencies.
\<close>

theorem format_is_windowed_count:
  assumes "mset it1 = mset (map snd log)" and "mset it2 = mset (map snd log)" and "0 < w"
  shows "\<exists>r. Format it1 it2 (int w) = Ok r \<and>
    rs_ThroughputSeconds r = map (windowed (map snd log) w) [0..<last_second (map snd log) + 1] \<and>
    mset (rs_TxLatencies r) = image_mset latency_of_stat (filter_mset succeeded (mset (map snd log))) \<and>
    rs_Success r = of_nat (length (filter succeeded (map snd log))) \<and>
    rs_Success r + rs_Fail r = of_nat (length log)"
proof -
  let ?st = "map snd log"
  have same: "length (filter P it1) = length (filter P ?st)" "length (filter P it2) = length (filter P ?st)" for P
    using assms(1,2) by (metis mset_filter size_mset)+
  have at: "committed_at it2 = committed_at ?st" by (rule ext) (simp add: committed_at_def same)
  have last: "fold max (map commit_second (filter succeeded it1)) 0 = last_second ?st"
  proof -
    have "mset (map commit_second (filter succeeded it1)) = mset (map commit_second (filter succeeded ?st))"
      using assms(1) by (metis mset_filter mset_map)
    then show ?thesis unfolding last_second_def by (intro fold_multiset_equiv [THEN fun_cong]) (auto simp: max.commute max.left_commute)
  qed
  have "commit_second s < last_second ?st + 1" if "s \<in> set it2" "succeeded s" for s
  proof -
    have "s \<in> set it1" using that(1) assms(1,2) by (metis set_mset_mset)
    then show ?thesis using that(2) fold_max_ge [of "commit_second s" "map commit_second (filter succeeded it1)" 0] last by simp
  qed
  then have "fold format_count it2 (Ok (replicate (last_second ?st + 1) 0)) = Ok (map (committed_at ?st) [0..<last_second ?st + 1])"
    by (subst format_count_fold) (auto simp: at simp del: upt_Suc replicate_Suc cong: map_cong)
  moreover have "length (filter succeeded ?st) + length (filter (\<lambda>s. \<not> succeeded s) ?st) = length log"
    using sum_length_filter_compl [of succeeded ?st] by simp
  then have "(of_nat (length (filter succeeded ?st)) :: 64 word) + of_nat (length (filter (\<lambda>s. \<not> succeeded s) ?st)) = of_nat (length log)"
    by (metis of_nat_add)
  ultimately show ?thesis
    using format_windows_spec [OF assms(3), of 0 "last_second ?st + 1" ?st] assms(1)
    by (simp add: Format_def format_scan_fold last same obind_def Let_def del: upt_Suc replicate_Suc)
qed

definition sample_log :: EventLog where
  "sample_log = AddCommit 1 2600 (AddSubmit 2 300 (AddCommit 0 900 (AddSubmit 1 200 (AddSubmit 0 100 NewEventLog))))"

lemma format_is_windowed_count_witness:
  "\<exists>r. Format (map snd sample_log) (rev (map snd sample_log)) (int 2) = Ok r \<and>
    rs_ThroughputSeconds r = map (windowed (map snd sample_log) 2) [0..<last_second (map snd sample_log) + 1] \<and>
    rs_Success r = of_nat (length (filter succeeded (map snd sample_log))) \<and> rs_Success r = 2 \<and> rs_Success r + rs_Fail r = 3"
proof -
  have "length (filter succeeded (map snd sample_log)) = 2" "length sample_log = 3" by code_simp+
  then show ?thesis using format_is_windowed_count [of "map snd sample_log" sample_log "rev (map snd sample_log)" 2] by auto
qed

section \<open>The combination of all summaries\<close>

record AggregatedResults =
  ag_RawResults :: "Results list list"
  ag_SecondaryResults :: "Results list"
  ag_MinLatency :: f64
  ag_AverageLatency :: f64
  ag_MaxLatency :: f64
  ag_MedianLatency :: f64
  ag_AllTxLatencies :: "f64 list"
  ag_TotalThroughputTimes :: "f64 list"
  ag_AverageThroughputSecondary :: "f64 list"
  ag_TotalThroughputSecondaryTime :: "f64 list list"
  ag_MaxThroughput :: f64
  ag_MinThroughput :: f64
  ag_AverageThroughput :: f64
  ag_TotalSuccess :: "64 word"
  ag_TotalFails :: "64 word"

definition f64_two :: f64 where
  "f64_two = f64_of_int 2"

text \<open>The median of a sorted list; an empty one makes \<^verbatim>\<open>getMedian\<close> panic.\<close>

definition middle :: "f64 list \<Rightarrow> f64" where
  "middle xs =
     (let midNumber = length xs div 2 in
      if length xs mod 2 = 0 then f64_div (f64_add (xs ! (midNumber - 1)) (xs ! midNumber)) f64_two else xs ! midNumber)"

definition getMedian :: "f64 list \<Rightarrow> f64 outcome" where
  "getMedian arr = (if arr = [] then Panic ''index out of range'' else Ok (middle (Float64s arr)))"

definition add_at :: "nat \<times> f64 \<Rightarrow> f64 list \<Rightarrow> f64 list" where
  "add_at = (\<lambda>(timeIndex, v) xs.
     let xs = (if timeIndex \<ge> length xs then xs @ [f64_zero] else xs) in xs[timeIndex := f64_add (xs ! timeIndex) v])"

record agg =
  gg_minTotalLatency :: f64
  gg_maxTotalLatency :: f64
  gg_averageTotalLatency :: f64
  gg_allTxLatencies :: "f64 list"
  gg_totalThroughputOverTime :: "f64 list"
  gg_latencyPerSecondary :: "f64 list"
  gg_throughputPerSecondary :: "f64 list"
  gg_throughputOverTimeSecondary :: "f64 list list"
  gg_ResultsPerSecondary :: "Results list"
  gg_totalSuccess :: "64 word"
  gg_totalFails :: "64 word"

record worker_agg =
  wg_agg :: agg
  wg_txLatencies :: "f64 list"
  wg_secondaryThroughputs :: "f64 list"
  wg_avgThroughput :: f64
  wg_numSuccess :: "64 word"
  wg_numFails :: "64 word"

definition agg_latency :: "f64 \<Rightarrow> agg \<Rightarrow> agg" where
  "agg_latency v g =
     (let g = (if f64_lt v (gg_minTotalLatency g) \<and> f64_lt f64_zero v then g\<lparr>gg_minTotalLatency := v\<rparr> else g);
          g = (if f64_lt (gg_maxTotalLatency g) v then g\<lparr>gg_maxTotalLatency := v\<rparr> else g) in
      g\<lparr>gg_allTxLatencies := gg_allTxLatencies g @ [v]\<rparr>)"

definition agg_worker :: "Results \<Rightarrow> worker_agg \<Rightarrow> worker_agg" where
  "agg_worker r w =
     (let seconds = enumerate 0 (rs_ThroughputSeconds r);
          g = fold agg_latency (rs_TxLatencies r) (wg_agg w);
          g = g\<lparr>gg_totalThroughputOverTime := fold add_at seconds (gg_totalThroughputOverTime g)\<rparr> in
      \<lparr>wg_agg = g, wg_txLatencies = wg_txLatencies w @ rs_TxLatencies r,
       wg_secondaryThroughputs = fold add_at seconds (wg_secondaryThroughputs w),
       wg_avgThroughput = f64_add (wg_avgThroughput w) (rs_Throughput r),
       wg_numSuccess = wg_numSuccess w + rs_Success r, wg_numFails = wg_numFails w + rs_Fail r\<rparr>)"

definition average :: "f64 list \<Rightarrow> f64" where
  "average xs =
     (let total = fold (\<lambda>v t. f64_add t v) xs f64_zero in
      if xs = [] then total else f64_div total (f64_of_int (int (length xs))))"

text \<open>The latencies of a secondary are sorted in place before they are stored.\<close>

definition agg_secondary :: "Results list \<Rightarrow> agg \<Rightarrow> agg" where
  "agg_secondary workers g =
     (let w = fold agg_worker workers \<lparr>wg_agg = g, wg_txLatencies = [], wg_secondaryThroughputs = [],
                wg_avgThroughput = f64_zero, wg_numSuccess = 0, wg_numFails = 0\<rparr>;
          g = wg_agg w;
          avgLatency = average (wg_txLatencies w);
          txLatencies = Float64s (wg_txLatencies w);
          medianLatency = (if txLatencies = [] then f64_zero else middle txLatencies);
          throughput = f64_div (wg_avgThroughput w) (f64_of_int (int (length workers))) in
      g\<lparr>gg_latencyPerSecondary := gg_latencyPerSecondary g @ [avgLatency],
        gg_averageTotalLatency := f64_add (gg_averageTotalLatency g) avgLatency,
        gg_throughputOverTimeSecondary := gg_throughputOverTimeSecondary g @ [wg_secondaryThroughputs w],
        gg_throughputPerSecondary := gg_throughputPerSecondary g @ [throughput],
        gg_ResultsPerSecondary := gg_ResultsPerSecondary g @
          [\<lparr>rs_TxLatencies = txLatencies, rs_AverageLatency = avgLatency, rs_MedianLatency = medianLatency,
            rs_Throughput = throughput, rs_ThroughputSeconds = wg_secondaryThroughputs w,
            rs_Success = wg_numSuccess w, rs_Fail = wg_numFails w\<rparr>],
        gg_totalSuccess := gg_totalSuccess g + wg_numSuccess w, gg_totalFails := gg_totalFails g + wg_numFails w\<rparr>)"

definition agg_start :: "f64 \<Rightarrow> agg" where
  "agg_start first = \<lparr>gg_minTotalLatency = first, gg_maxTotalLatency = f64_zero, gg_averageTotalLatency = f64_zero,
     gg_allTxLatencies = [], gg_totalThroughputOverTime = [], gg_latencyPerSecondary = [], gg_throughputPerSecondary = [],
     gg_throughputOverTimeSecondary = [], gg_ResultsPerSecondary = [], gg_totalSuccess = 0, gg_totalFails = 0\<rparr>"

definition agg_empty :: AggregatedResults where
  "agg_empty = \<lparr>ag_RawResults = [], ag_SecondaryResults = [], ag_MinLatency = f64_zero, ag_AverageLatency = f64_zero,
     ag_MaxLatency = f64_zero, ag_MedianLatency = f64_zero, ag_AllTxLatencies = [], ag_TotalThroughputTimes = [],
     ag_AverageThroughputSecondary = [], ag_TotalThroughputSecondaryTime = [], ag_MaxThroughput = f64_zero,
     ag_MinThroughput = f64_zero, ag_AverageThroughput = f64_zero, ag_TotalSuccess = 0, ag_TotalFails = 0\<rparr>"

definition CalculateAggregatedResults :: "Results list list \<Rightarrow> AggregatedResults outcome" where
  "CalculateAggregatedResults secondaryResults =
     (case secondaryResults of
        [] \<Rightarrow> Ok agg_empty
      | [] # _ \<Rightarrow> Panic ''index out of range''
      | (first # _) # _ \<Rightarrow>
          let g = fold agg_secondary secondaryResults (agg_start (rs_AverageLatency first));
              averageTotalLatency = f64_div (gg_averageTotalLatency g) (f64_of_int (int (length secondaryResults))) in
          obind (getMedian (gg_latencyPerSecondary g)) (\<lambda>medianLatencyTotal.
          case gg_totalThroughputOverTime g of
            [] \<Rightarrow> Panic ''index out of range''
          | t # _ \<Rightarrow>
              Ok \<lparr>ag_RawResults = secondaryResults, ag_SecondaryResults = gg_ResultsPerSecondary g,
                ag_MinLatency = gg_minTotalLatency g, ag_AverageLatency = averageTotalLatency,
                ag_MaxLatency = gg_maxTotalLatency g, ag_MedianLatency = medianLatencyTotal,
                ag_AllTxLatencies = gg_allTxLatencies g, ag_TotalThroughputTimes = gg_totalThroughputOverTime g,
                ag_AverageThroughputSecondary = gg_throughputPerSecondary g,
                ag_TotalThroughputSecondaryTime = gg_throughputOverTimeSecondary g,
                ag_MaxThroughput = fold (\<lambda>v m. if f64_lt m v then v else m) (gg_totalThroughputOverTime g) f64_zero,
                ag_MinThroughput = fold (\<lambda>v m. if f64_lt v m then v else m) (gg_totalThroughputOverTime g) t,
                ag_AverageThroughput = fold (\<lambda>v a. f64_add a (rs_Throughput v)) (gg_ResultsPerSecondary g) f64_zero,
                ag_TotalSuccess = gg_totalSuccess g, ag_TotalFails = gg_totalFails g\<rparr>))"

section \<open>What the combination holds\<close>

lemma length_add_at_fold:
  "k \<le> length xs \<Longrightarrow> length (fold add_at (enumerate k vs) xs) = max (length xs) (k + length vs)"
  by (induction vs arbitrary: k xs) (auto simp: add_at_def Let_def max_def)

lemma agg_latency_fold:
  "gg_allTxLatencies (fold agg_latency vs g) = gg_allTxLatencies g @ vs"
  "gg_totalThroughputOverTime (fold agg_latency vs g) = gg_totalThroughputOverTime g"
  "gg_latencyPerSecondary (fold agg_latency vs g) = gg_latencyPerSecondary g"
  "gg_totalSuccess (fold agg_latency vs g) = gg_totalSuccess g"
  "gg_totalFails (fold agg_latency vs g) = gg_totalFails g"
  by (induction vs arbitrary: g) (simp_all add: agg_latency_def Let_def)

lemma agg_latency_zero: "gg_minTotalLatency g = f64_zero \<Longrightarrow> gg_minTotalLatency (fold agg_latency vs g) = f64_zero"
proof (induction vs arbitrary: g)
  case (Cons v vs)
  have "\<not> (f64_lt v f64_zero \<and> f64_lt f64_zero v)" by (auto dest: f64_lt_trans)
  then have "gg_minTotalLatency (agg_latency v g) = f64_zero" using Cons.prems by (auto simp: agg_latency_def Let_def)
  then show ?case using Cons.IH by simp
qed simp

definition seconds_of :: "Results list \<Rightarrow> nat" where
  "seconds_of workers = fold max (map (length \<circ> rs_ThroughputSeconds) workers) 0"

lemma fold_max_start: "fold max xs (m :: nat) = max m (fold max xs 0)"
proof (induction xs arbitrary: m)
  case (Cons x xs)
  show ?case using Cons [of "max x m"] Cons [of x] by simp
qed simp

lemma agg_worker_one:
  "gg_allTxLatencies (wg_agg (agg_worker r w)) = gg_allTxLatencies (wg_agg w) @ rs_TxLatencies r"
  "gg_latencyPerSecondary (wg_agg (agg_worker r w)) = gg_latencyPerSecondary (wg_agg w)"
  "gg_totalSuccess (wg_agg (agg_worker r w)) = gg_totalSuccess (wg_agg w)"
  "gg_totalFails (wg_agg (agg_worker r w)) = gg_totalFails (wg_agg w)"
  "wg_numSuccess (agg_worker r w) = wg_numSuccess w + rs_Success r"
  "wg_numFails (agg_worker r w) = wg_numFails w + rs_Fail r"
  "length (gg_totalThroughputOverTime (wg_agg (agg_worker r w))) =
     max (length (gg_totalThroughputOverTime (wg_agg w))) (length (rs_ThroughputSeconds r))"
  "gg_minTotalLatency (wg_agg w) = f64_zero \<Longrightarrow> gg_minTotalLatency (wg_agg (agg_worker r w)) = f64_zero"
  by (simp_all add: agg_worker_def agg_latency_fold agg_latency_zero length_add_at_fold Let_def)

lemma agg_worker_fold:
  "gg_allTxLatencies (wg_agg (fold agg_worker ws w)) = gg_allTxLatencies (wg_agg w) @ concat (map rs_TxLatencies ws)"
  "gg_latencyPerSecondary (wg_agg (fold agg_worker ws w)) = gg_latencyPerSecondary (wg_agg w)"
  "gg_totalSuccess (wg_agg (fold agg_worker ws w)) = gg_totalSuccess (wg_agg w)"
  "gg_totalFails (wg_agg (fold agg_worker ws w)) = gg_totalFails (wg_agg w)"
  "wg_numSuccess (fold agg_worker ws w) = wg_numSuccess w + sum_list (map rs_Success ws)"
  "wg_numFails (fold agg_worker ws w) = wg_numFails w + sum_list (map rs_Fail ws)"
  "length (gg_totalThroughputOverTime (wg_agg (fold agg_worker ws w))) =
     max (length (gg_totalThroughputOverTime (wg_agg w))) (seconds_of ws)"
proof (induction ws arbitrary: w)
  case (Cons r ws)
  case 7
  have "seconds_of (r # ws) = max (length (rs_ThroughputSeconds r)) (seconds_of ws)"
    using fold_max_start [of "map (length \<circ> rs_ThroughputSeconds) ws" "length (rs_ThroughputSeconds r)"] by (simp add: seconds_of_def)
  then show ?case
    by (simp add: Cons(7) agg_worker_one max.assoc)
qed (simp_all add: agg_worker_one seconds_of_def add.assoc)

lemma agg_worker_zero:
  "gg_minTotalLatency (wg_agg w) = f64_zero \<Longrightarrow> gg_minTotalLatency (wg_agg (fold agg_worker ws w)) = f64_zero"
  by (induction ws arbitrary: w) (simp_all add: agg_worker_one)

lemma agg_secondary_one:
  "gg_allTxLatencies (agg_secondary ws g) = gg_allTxLatencies g @ concat (map rs_TxLatencies ws)"
  "length (gg_latencyPerSecondary (agg_secondary ws g)) = Suc (length (gg_latencyPerSecondary g))"
  "gg_totalSuccess (agg_secondary ws g) = gg_totalSuccess g + sum_list (map rs_Success ws)"
  "gg_totalFails (agg_secondary ws g) = gg_totalFails g + sum_list (map rs_Fail ws)"
  "length (gg_totalThroughputOverTime (agg_secondary ws g)) = max (length (gg_totalThroughputOverTime g)) (seconds_of ws)"
  "gg_minTotalLatency g = f64_zero \<Longrightarrow> gg_minTotalLatency (agg_secondary ws g) = f64_zero"
  by (simp_all add: agg_secondary_def agg_worker_fold agg_worker_zero Let_def)

lemma agg_secondary_fold:
  "gg_allTxLatencies (fold agg_secondary rs g) = gg_allTxLatencies g @ concat (map rs_TxLatencies (concat rs))"
  "length (gg_latencyPerSecondary (fold agg_secondary rs g)) = length (gg_latencyPerSecondary g) + length rs"
  "gg_totalSuccess (fold agg_secondary rs g) = gg_totalSuccess g + sum_list (map rs_Success (concat rs))"
  "gg_totalFails (fold agg_secondary rs g) = gg_totalFails g + sum_list (map rs_Fail (concat rs))"
  "length (gg_totalThroughputOverTime (fold agg_secondary rs g)) = max (length (gg_totalThroughputOverTime g)) (seconds_of (concat rs))"
proof (induction rs arbitrary: g)
  case (Cons ws rs)
  case 5
  have "seconds_of (concat (ws # rs)) = max (seconds_of ws) (seconds_of (concat rs))"
    using fold_max_start [of "map (length \<circ> rs_ThroughputSeconds) (concat rs)" "seconds_of ws"] by (simp add: seconds_of_def)
  then show ?case
    by (simp add: Cons(5) agg_secondary_one max.assoc)
qed (simp_all add: agg_secondary_one seconds_of_def add.assoc)

lemma agg_secondary_zero:
  "gg_minTotalLatency g = f64_zero \<Longrightarrow> gg_minTotalLatency (fold agg_secondary rs g) = f64_zero"
  by (induction rs arbitrary: g) (simp_all add: agg_secondary_one)

text \<open>
  Combining the summaries of at least one secondary panics exactly if the first secondary has no thread or no thread at all has a
  throughput. Otherwise the totals are the sums of the successes and failures, every latency is kept, and there is a throughput for every second of the longest thread.
  But the least latency is zero whenever the average latency of the very first summary is, as in every summary that \<^verbatim>\<open>Format\<close> makes.
\<close>

theorem aggregate_outcome:
  assumes "rs \<noteq> []"
  shows "if hd rs = [] \<or> seconds_of (concat rs) = 0 then \<exists>p. CalculateAggregatedResults rs = Panic p
    else \<exists>a. CalculateAggregatedResults rs = Ok a \<and>
      ag_TotalSuccess a = sum_list (map rs_Success (concat rs)) \<and> ag_TotalFails a = sum_list (map rs_Fail (concat rs)) \<and>
      ag_AllTxLatencies a = concat (map rs_TxLatencies (concat rs)) \<and>
      length (ag_TotalThroughputTimes a) = seconds_of (concat rs) \<and>
      (rs_AverageLatency (hd (hd rs)) = f64_zero \<longrightarrow> ag_MinLatency a = f64_zero)"
proof (cases "hd rs = []")
  case True
  then show ?thesis using assms by (cases rs) (simp_all add: CalculateAggregatedResults_def)
next
  case False
  then obtain first ws rest where rs: "rs = (first # ws) # rest" using assms by (metis list.exhaust list.sel(1))
  define g where "g = fold agg_secondary rs (agg_start (rs_AverageLatency first))"
  have len: "length (gg_totalThroughputOverTime g) = seconds_of (concat rs)" "length (gg_latencyPerSecondary g) = length rs"
    unfolding g_def by (simp_all only: agg_secondary_fold) (simp_all add: agg_start_def)
  then have "gg_latencyPerSecondary g \<noteq> []" using assms by auto
  then have med: "getMedian (gg_latencyPerSecondary g) = Ok (middle (Float64s (gg_latencyPerSecondary g)))"
    by (simp add: getMedian_def)
  have sums: "gg_totalSuccess g = sum_list (map rs_Success (concat rs))" "gg_totalFails g = sum_list (map rs_Fail (concat rs))"
    "gg_allTxLatencies g = concat (map rs_TxLatencies (concat rs))"
    unfolding g_def by (simp_all only: agg_secondary_fold) (simp_all add: agg_start_def)
  have zero: "gg_minTotalLatency g = f64_zero" if "rs_AverageLatency first = f64_zero"
    unfolding g_def by (rule agg_secondary_zero) (simp add: agg_start_def that)
  show ?thesis
  proof (cases "gg_totalThroughputOverTime g")
    case Nil
    then show ?thesis using len med
      by (simp add: CalculateAggregatedResults_def rs obind_def g_def [symmetric, unfolded rs] Let_def del: fold.simps)
  next
    case (Cons t ts)
    then show ?thesis using len med sums zero rs
      by (simp add: CalculateAggregatedResults_def obind_def g_def [symmetric, unfolded rs] Let_def del: fold.simps)
  qed
qed

definition sample_results :: Results where
  "sample_results = \<lparr>rs_TxLatencies = [f64_of_int 800, f64_of_int 2400], rs_AverageLatency = f64_zero, rs_MedianLatency = f64_zero,
     rs_Throughput = f64_one, rs_ThroughputSeconds = [f64_one, f64_one], rs_Success = 2, rs_Fail = 1\<rparr>"

lemma aggregate_outcome_witness:
  "\<exists>a. CalculateAggregatedResults [[sample_results, sample_results], [sample_results]] = Ok a \<and>
     ag_TotalSuccess a = 6 \<and> ag_TotalFails a = 3 \<and> length (ag_TotalThroughputTimes a) = 2 \<and> ag_MinLatency a = f64_zero"
proof -
  have "seconds_of (concat [[sample_results, sample_results], [sample_results]]) = 2"
    by (simp add: seconds_of_def sample_results_def)
  moreover have "sum_list (map rs_Success (concat [[sample_results, sample_results], [sample_results]])) = 6"
    "sum_list (map rs_Fail (concat [[sample_results, sample_results], [sample_results]])) = 3"
    "rs_AverageLatency sample_results = f64_zero" by (simp_all add: sample_results_def)
  ultimately show ?thesis using aggregate_outcome [of "[[sample_results, sample_results], [sample_results]]"] by auto
qed

end
