(* ===== verification/Old_Server.thy ===== *)
theory Old_Server
  imports Wire_IO Old_Results
begin

text \<open>
  The connections of the first generation of Diablo (\<^verbatim>\<open>src/communication\<close>): what the primary sends to each secondary
  and how it reads the replies, and the reading side of a secondary.

  A connection is the record of what arrives on it, in the pieces in which a read may see it, and of what was written. A read returns at most
  the length of its buffer and at most one piece; without pieces it sees the end of the stream. \<^verbatim>\<open>json.Marshal\<close>,
  \<^verbatim>\<open>json.Unmarshal\<close> and the capacity that the runtime gives to a slice are parameters. Log output is left out.
\<close>

section \<open>Connections\<close>

datatype tcp_event = Chunk "byte list" | Fail string

datatype read_error = EOF | ReadError string

record tcp =
  tc_addr :: string
  tc_in :: "tcp_event list"
  tc_out :: "byte list"
  tc_broken :: "string option"
  tc_closed :: bool

definition tcp_read :: "nat \<Rightarrow> tcp \<Rightarrow> (read_error + byte list) \<times> tcp" where
  "tcp_read k c =
     (if k = 0 then (Inr [], c)
      else
        (case tc_in c of
           [] \<Rightarrow> (Inl EOF, c)
         | Fail e # _ \<Rightarrow> (Inl (ReadError e), c)
         | Chunk bs # es \<Rightarrow> (Inr (take k bs), c\<lparr>tc_in := (if k < length bs then Chunk (drop k bs) # es else es)\<rparr>)))"

definition tcp_write :: "byte list \<Rightarrow> tcp \<Rightarrow> string option \<times> tcp" where
  "tcp_write bs c = (case tc_broken c of Some e \<Rightarrow> (Some e, c) | None \<Rightarrow> (None, c\<lparr>tc_out := tc_out c @ bs\<rparr>))"

definition tcp_close :: "tcp \<Rightarrow> tcp" where
  "tcp_close c = c\<lparr>tc_closed := True\<rparr>"

text \<open>What is left to read, as a measure for the loops.\<close>

definition event_size :: "tcp_event \<Rightarrow> nat" where
  "event_size e = (case e of Chunk bs \<Rightarrow> Suc (length bs) | Fail _ \<Rightarrow> 1)"

definition pending :: "tcp \<Rightarrow> nat" where
  "pending c = sum_list (map event_size (tc_in c))"

lemma tcp_read_pending: "tcp_read k c = (Inr bs, c') \<Longrightarrow> 0 < k \<Longrightarrow> pending c' < pending c"
  by (auto simp: tcp_read_def pending_def event_size_def split: list.splits tcp_event.splits if_splits)

section \<open>Messages\<close>

definition MsgPrepare :: "byte list" where "MsgPrepare = [0x01]"
definition MsgWorkload :: "byte list" where "MsgWorkload = [0x02]"
definition MsgRun :: "byte list" where "MsgRun = [0x03]"
definition MsgResults :: "byte list" where "MsgResults = [0x04]"
definition MsgFin :: "byte list" where "MsgFin = [0x05]"
definition MsgOk :: "byte list" where "MsgOk = [0x99]"
definition MsgErr :: "byte list" where "MsgErr = [0x98]"

section \<open>The secondary\<close>

definition READLENGTH :: nat where "READLENGTH = 9"
definition MAXREAD :: nat where "MAXREAD = 8192"

text \<open>A reply whose write fails closes the connection.\<close>

definition reply :: "byte list \<Rightarrow> tcp \<Rightarrow> tcp" where
  "reply bs c = (case tcp_write bs c of (Some _, c) \<Rightarrow> tcp_close c | (None, c) \<Rightarrow> c)"

definition ReplyOK :: "tcp \<Rightarrow> tcp" where
  "ReplyOK = reply MsgOk"

definition ReplyERR :: "string \<Rightarrow> tcp \<Rightarrow> tcp" where
  "ReplyERR msg = reply (MsgErr @ string_bytes msg)"

definition SendDataOK :: "byte list \<Rightarrow> tcp \<Rightarrow> tcp" where
  "SendDataOK data = reply (MsgOk @ put_uint BigEndian 8 (length data) @ data)"

definition InitialRead :: "tcp \<Rightarrow> (read_error + byte list) \<times> tcp" where
  "InitialRead c = tcp_read READLENGTH c"

function read_split :: "nat \<Rightarrow> byte list \<Rightarrow> tcp \<Rightarrow> (read_error + byte list) \<times> tcp" where
  "read_split totalSize fullData c =
     (case tcp_read 1024 c of
        (Inl EOF, c) \<Rightarrow> (Inr fullData, c)
      | (Inl (ReadError e), c) \<Rightarrow> (Inl (ReadError e), c)
      | (Inr buffer, c) \<Rightarrow>
          let fullData = fullData @ buffer in
          if length fullData \<ge> totalSize then (Inr fullData, c) else read_split totalSize fullData c)"
  by pat_completeness auto
termination
  by (relation "measure (\<lambda>(_, _, c). pending c)") (auto dest!: tcp_read_pending [OF sym])

declare read_split.simps [simp del]

definition ReadSplit :: "nat \<Rightarrow> tcp \<Rightarrow> (read_error + byte list) \<times> tcp" where
  "ReadSplit totalSize c = read_split totalSize [] c"

definition ReadSize :: "nat \<Rightarrow> tcp \<Rightarrow> (read_error + byte list) \<times> tcp" where
  "ReadSize len c = (if len > MAXREAD then ReadSplit len c else tcp_read len c)"

definition CloseConn :: "tcp \<Rightarrow> tcp" where
  "CloseConn = tcp_close"

section \<open>The primary\<close>

datatype secondary_error = SecondaryCommError string read_error | SecondaryErrorReply string "byte list" | OtherError string

text \<open>A connection that cannot be accepted is a \<^verbatim>\<open>nil\<close> whose address is then asked for.\<close>

fun HandleSecondaries :: "int \<Rightarrow> tcp list \<Rightarrow> tcp option list \<Rightarrow> tcp list outcome option" where
  "HandleSecondaries expected secondaries [] = None"
| "HandleSecondaries expected secondaries (None # accepts) = Some (Panic ''nil pointer dereference'')"
| "HandleSecondaries expected secondaries (Some c # accepts) =
     (let secondaries = secondaries @ [c] in
      if int (length secondaries) = expected then Some (Ok secondaries) else HandleSecondaries expected secondaries accepts)"

text \<open>
  The bytes of a buffer of length \<open>k\<close> that a read has filled: those after the read are still zero.
\<close>

definition buffer_at :: "byte list \<Rightarrow> nat \<Rightarrow> byte" where
  "buffer_at bs i = (if i < length bs then bs ! i else 0)"

definition SendAndWaitOKSync :: "byte list \<Rightarrow> tcp \<Rightarrow> secondary_error option \<times> tcp" where
  "SendAndWaitOKSync data c =
     (case tcp_write data c of
        (Some e, c) \<Rightarrow> (Some (SecondaryCommError (tc_addr c) (ReadError e)), c)
      | (None, c) \<Rightarrow>
          (case tcp_read 1024 c of
             (Inl e, c) \<Rightarrow> (Some (SecondaryCommError (tc_addr c) e), c)
           | (Inr bs, c) \<Rightarrow>
               if buffer_at bs 0 = 0x98 then (Some (SecondaryErrorReply (tc_addr c) (drop 1 bs)), c) else (None, c)))"

function read_reply :: "nat \<Rightarrow> byte list \<Rightarrow> tcp \<Rightarrow> (read_error + byte list) \<times> tcp" where
  "read_reply dataLen fullReply c =
     (if length fullReply \<ge> dataLen then (Inr fullReply, c)
      else
        (case tcp_read 1024 c of
           (Inl EOF, c) \<Rightarrow> (Inr fullReply, c)
         | (Inl (ReadError e), c) \<Rightarrow> (Inl (ReadError e), c)
         | (Inr buffer, c) \<Rightarrow> read_reply dataLen (fullReply @ buffer) c))"
  by pat_completeness auto
termination
  by (relation "measure (\<lambda>(_, _, c). pending c)") (auto dest!: tcp_read_pending [OF sym])

declare read_reply.simps [simp del]

definition default_results :: "Results list" where
  "default_results = [\<lparr>rs_TxLatencies = [], rs_AverageLatency = f64_zero, rs_MedianLatency = f64_zero, rs_Throughput = f64_zero,
     rs_ThroughputSeconds = [], rs_Success = 0, rs_Fail = 0\<rparr>]"

text \<open>
  The length is read from the whole buffer, whatever part of it the first read has filled. A slice may be extended up to its capacity;
  the bytes that it gains are zero.
\<close>

definition sendAndWaitData ::
  "(byte list \<Rightarrow> string + Results list) \<Rightarrow> (byte list \<Rightarrow> nat) \<Rightarrow> byte list \<Rightarrow> tcp
     \<Rightarrow> (secondary_error + Results list) outcome \<times> tcp" where
  "sendAndWaitData Unmarshal capacity data c =
     (case tcp_write data c of
        (Some e, c) \<Rightarrow> (Ok (Inl (SecondaryCommError (tc_addr c) (ReadError e))), c)
      | (None, c) \<Rightarrow>
          (case tcp_read 1024 c of
             (Inl e, c) \<Rightarrow> (Ok (Inl (SecondaryCommError (tc_addr c) e)), c)
           | (Inr initialReply, c) \<Rightarrow>
               if buffer_at initialReply 0 = 0x98
               then (Ok (Inl (SecondaryErrorReply (tc_addr c) (drop 1 initialReply))), c)
               else
                 let dataLen = get_uint BigEndian (map (buffer_at initialReply) [1..<9]) in
                 if dataLen = 0 then (Ok (Inr default_results), c)
                 else if length initialReply < 9 then (Panic ''slice bounds out of range'', c)
                 else
                   (case read_reply dataLen (drop 9 initialReply) c of
                      (Inl e, c) \<Rightarrow> (Ok (Inl (SecondaryCommError (tc_addr c) e)), c)
                    | (Inr fullReply, c) \<Rightarrow>
                        if dataLen > max (length fullReply) (capacity fullReply) then (Panic ''slice bounds out of range'', c)
                        else
                          (case Unmarshal (take dataLen (fullReply @ replicate (dataLen - length fullReply) 0)) of
                             Inl e \<Rightarrow> (Ok (Inl (OtherError e)), c)
                           | Inr res \<Rightarrow> (Ok (Inr res), c)))))"

text \<open>A loop over the secondaries uses each connection once.\<close>

definition PrepareBenchmarkSecondaries :: "nat \<Rightarrow> tcp list \<Rightarrow> secondary_error list \<times> tcp list" where
  "PrepareBenchmarkSecondaries numThreads secondaries =
     (let rs = map (\<lambda>(i, c). SendAndWaitOKSync
                (MsgPrepare @ put_uint BigEndian 4 i @ put_uint BigEndian 4 numThreads) c) (enumerate 0 secondaries) in
      (List.map_filter fst rs, map snd rs))"

definition send_workload :: "('w \<Rightarrow> string + byte list) \<Rightarrow> 'w \<Rightarrow> tcp \<Rightarrow> secondary_error option \<times> tcp" where
  "send_workload Marshal w c =
     (case Marshal w of
        Inl e \<Rightarrow> (Some (OtherError e), c)
      | Inr payload \<Rightarrow> SendAndWaitOKSync (MsgWorkload @ put_uint BigEndian 8 (length payload) @ payload) c)"

definition SendWorkload :: "('w \<Rightarrow> string + byte list) \<Rightarrow> 'w list \<Rightarrow> tcp list \<Rightarrow> (secondary_error list \<times> tcp list) outcome" where
  "SendWorkload Marshal workloads secondaries =
     (if length workloads < length secondaries then Panic ''index out of range''
      else
        let rs = map (\<lambda>(w, c). send_workload Marshal w c) (zip workloads secondaries);
            errorList = List.map_filter fst rs in
        Ok ([], map snd rs))"

definition GetResults ::
  "(byte list \<Rightarrow> string + Results list) \<Rightarrow> (byte list \<Rightarrow> nat) \<Rightarrow> tcp list \<Rightarrow> (Results list list \<times> secondary_error list) outcome" where
  "GetResults Unmarshal capacity secondaries =
     fold (\<lambda>c r. obind r (\<lambda>(allResults, errs).
        obind (fst (sendAndWaitData Unmarshal capacity MsgResults c)) (\<lambda>res.
        case res of Inl e \<Rightarrow> Ok (allResults, errs @ [e]) | Inr rs \<Rightarrow> Ok (allResults @ [rs], errs)))) secondaries (Ok ([], []))"

definition SendFin :: "tcp list \<Rightarrow> tcp list" where
  "SendFin = map (\<lambda>c. snd (SendAndWaitOKSync MsgFin c))"

definition CloseSecondaries :: "tcp list \<Rightarrow> tcp list" where
  "CloseSecondaries = map tcp_close"

partial_function (option) CloseAll :: "tcp list \<Rightarrow> tcp list option" where
  "CloseAll secondaries = CloseAll (CloseSecondaries secondaries)"

section \<open>Starting the benchmark\<close>

text \<open>
  \<^verbatim>\<open>sendAndWaitOKAsync\<close> sends an error and the end of its work on two channels, but does not return after an error. \<open>async_signals\<close> is the
  sequence of what it sends.
\<close>

datatype signal = SigErr string | SigDone nat

definition read_error_text :: "read_error \<Rightarrow> string" where
  "read_error_text e = (case e of EOF \<Rightarrow> ''EOF'' | ReadError s \<Rightarrow> s)"

definition async_signals :: "byte list \<Rightarrow> tcp \<Rightarrow> signal list" where
  "async_signals data c =
     (let (werr, c) = tcp_write data c; (res, c) = tcp_read 1 c in
      (case werr of Some e \<Rightarrow> [SigErr e, SigDone 1] | None \<Rightarrow> []) @
      (case res of Inl e \<Rightarrow> [SigErr (read_error_text e), SigDone 1]
       | Inr bs \<Rightarrow> if bs = MsgErr then [SigErr ''failed to communicate with secondary'', SigDone 1] else []) @
      [SigDone 0])"

fun done_signals :: "signal list \<Rightarrow> nat list" where
  "done_signals [] = []"
| "done_signals (SigDone d # sigs) = d # done_signals sigs"
| "done_signals (SigErr _ # sigs) = done_signals sigs"

fun err_signals :: "signal list \<Rightarrow> string list" where
  "err_signals [] = []"
| "err_signals (SigErr e # sigs) = e # err_signals sigs"
| "err_signals (SigDone _ # sigs) = err_signals sigs"

text \<open>
  The goroutines interleave, so the signals arrive in some order \<open>sigs\<close>. The loop ends after as many ends as there are secondaries, the one after it when it has as many
  errors as were announced; \<open>None\<close> means that one of them waits for ever. The list that is returned is not the one that was filled.
\<close>

definition RunBenchmark :: "signal list \<Rightarrow> nat \<Rightarrow> string list option" where
  "RunBenchmark sigs numSecondaries =
     (let errorList = [] in
      if numSecondaries = 0 \<or> length (done_signals sigs) < numSecondaries then None
      else
        let numberOfErrors = sum_list (take numSecondaries (done_signals sigs)) in
        if length (err_signals sigs) < numberOfErrors then None
        else
          let errList = take numberOfErrors (err_signals sigs) in
          if errList = [] then Some [] else Some errorList)"

definition interleavings :: "'a list list \<Rightarrow> 'a list set" where
  "interleavings xss = foldr (\<lambda>xs acc. \<Union>ys \<in> acc. shuffles xs ys) xss {[]}"

lemma shuffles_signals:
  assumes "zs \<in> shuffles xs ys"
  shows "length (done_signals zs) = length (done_signals xs) + length (done_signals ys)"
    and "sum_list (done_signals zs) = sum_list (done_signals xs) + sum_list (done_signals ys)"
    and "length (err_signals zs) = length (err_signals xs) + length (err_signals ys)"
proof -
  have done_mset: "mset (done_signals zs) = mset (map (\<lambda>s. case s of SigDone d \<Rightarrow> d) (filter (\<lambda>s. \<exists>d. s = SigDone d) zs))" for zs
    by (induction zs rule: done_signals.induct) auto
  have err_mset: "length (err_signals zs) = size (filter_mset (\<lambda>s. \<exists>e. s = SigErr e) (mset zs))" for zs
    by (induction zs rule: err_signals.induct) auto
  have zs: "mset zs = mset xs + mset ys" using assms by (rule mset_shuffles)
  then have done_zs: "mset (done_signals zs) = mset (done_signals xs) + mset (done_signals ys)" by (simp add: done_mset mset_filter)
  show "length (done_signals zs) = length (done_signals xs) + length (done_signals ys)"
    using arg_cong [OF done_zs, of size] by simp
  show "sum_list (done_signals zs) = sum_list (done_signals xs) + sum_list (done_signals ys)"
    using arg_cong [OF done_zs, of sum_mset] by (simp add: sum_mset_sum_list)
  show "length (err_signals zs) = length (err_signals xs) + length (err_signals ys)" using zs by (simp add: err_mset)
qed

lemma async_signals_counts:
  "1 \<le> length (done_signals (async_signals data c)) \<and>
   sum_list (done_signals (async_signals data c)) = length (err_signals (async_signals data c))"
  by (simp add: async_signals_def split: prod.splits option.splits sum.splits)

lemma interleavings_counts:
  "sigs \<in> interleavings (map (async_signals data) cs) \<Longrightarrow>
   length cs \<le> length (done_signals sigs) \<and> sum_list (done_signals sigs) = length (err_signals sigs)"
proof (induction cs arbitrary: sigs)
  case Nil
  then show ?case by (simp add: interleavings_def)
next
  case (Cons c cs)
  then obtain ys where ys: "ys \<in> interleavings (map (async_signals data) cs)" "sigs \<in> shuffles (async_signals data c) ys"
    by (auto simp: interleavings_def)
  then show ?case using Cons.IH [OF ys(1)] async_signals_counts [of data c] shuffles_signals [OF ys(2)] by simp
qed

lemma sum_list_take_le: "sum_list (take n xs) \<le> sum_list (xs :: nat list)"
  by (metis append_take_drop_id le_add1 sum_list.append)

text \<open>
  The primary of the first generation does not see that a secondary has failed to take its workload or to run: both calls end without an error
  in every interleaving, whatever the connections do.
\<close>

theorem old_errors_are_lost:
  assumes "secondaries \<noteq> []" and "length secondaries \<le> length workloads"
    and "sigs \<in> interleavings (map (async_signals MsgRun) secondaries)"
  shows "RunBenchmark sigs (length secondaries) = Some [] \<and>
    (\<exists>cs. SendWorkload Marshal workloads secondaries = Ok ([], cs))"
proof -
  have "length secondaries \<le> length (done_signals sigs)" "sum_list (done_signals sigs) = length (err_signals sigs)"
    using interleavings_counts [OF assms(3)] by simp_all
  then show ?thesis using assms(1,2) sum_list_take_le [of "length secondaries" "done_signals sigs"]
    by (simp add: RunBenchmark_def SendWorkload_def Let_def not_less)
qed

text \<open>\<^verbatim>\<open>CloseAll\<close> calls itself and never returns.\<close>

lemma CloseAll_never_returns: "CloseAll secondaries = None"
proof (rule ccontr)
  assume "CloseAll secondaries \<noteq> None"
  then obtain r where "CloseAll secondaries = Some r" by blast
  then show False by (rule CloseAll.raw_induct [where P = "\<lambda>_ _. False", rotated]) blast
qed

section \<open>Reading the results\<close>

lemma read_reply_chunks:
  "tc_in c = map Chunk cs \<Longrightarrow> length acc + length (concat cs) = dataLen \<Longrightarrow>
   \<exists>c'. read_reply dataLen acc c = (Inr (acc @ concat cs), c')"
proof (induction dataLen acc c arbitrary: cs rule: read_reply.induct)
  case (1 dataLen acc c)
  show ?case
  proof (cases "length acc \<ge> dataLen")
    case True
    then have "concat cs = []" using 1(3) length_greater_0_conv [of "concat cs"] by linarith
    then show ?thesis using True by (subst read_reply.simps) simp
  next
    case False
    then have "concat cs \<noteq> []" using 1(3) by auto
    then obtain bs cs' where cs: "cs = bs # cs'" by (cases cs) auto
    define rest where "rest = (if 1024 < length bs then drop 1024 bs # cs' else cs')"
    have rd: "tcp_read 1024 c = (Inr (take 1024 bs), c\<lparr>tc_in := map Chunk rest\<rparr>)"
      using 1(2) by (simp add: tcp_read_def cs rest_def)
    have split: "take 1024 bs @ concat rest = concat cs" by (simp add: rest_def cs)
    have "length (take 1024 bs) + length (concat rest) = length (concat cs)" by (metis split length_append)
    then have "length (acc @ take 1024 bs) + length (concat rest) = dataLen" using 1(3) by simp
    then have "\<exists>c'. read_reply dataLen (acc @ take 1024 bs) (c\<lparr>tc_in := map Chunk rest\<rparr>) = (Inr ((acc @ take 1024 bs) @ concat rest), c')"
      by (intro 1(1) [OF False rd [symmetric] HOL.refl]) simp_all
    then show ?thesis using False rd split by (subst read_reply.simps) (simp add: append_assoc)
  qed
qed

definition data_reply :: "byte list \<Rightarrow> byte list" where
  "data_reply data = MsgOk @ put_uint BigEndian 8 (length data) @ data"

lemma header_of_reply:
  assumes "9 \<le> length bs" and "bs @ rest = data_reply data" and "length data < 2 ^ 64"
  shows "buffer_at bs 0 = 0x99" and "get_uint BigEndian (map (buffer_at bs) [1..<9]) = length data"
    and "drop 9 bs @ rest = data"
proof -
  have take9: "take 9 bs = MsgOk @ put_uint BigEndian 8 (length data)"
    using arg_cong [OF assms(2), of "take 9"] assms(1) by (simp add: data_reply_def MsgOk_def)
  have nths: "bs ! i = (MsgOk @ put_uint BigEndian 8 (length data)) ! i" if "i < 9" for i
    using that by (subst take9 [symmetric]) simp
  show "buffer_at bs 0 = 0x99" using nths [of 0] assms(1) by (auto simp: buffer_at_def MsgOk_def)
  have "map (buffer_at bs) [1..<9] = map (\<lambda>i. (MsgOk @ put_uint BigEndian 8 (length data)) ! i) [1..<9]"
    using nths assms(1) by (intro map_cong) (auto simp: buffer_at_def)
  also have "\<dots> = put_uint BigEndian 8 (length data)"
    by (rule nth_equalityI) (auto simp: MsgOk_def)
  finally show "get_uint BigEndian (map (buffer_at bs) [1..<9]) = length data" using assms(3) by (simp add: get_put_uint)
  show "drop 9 bs @ rest = data"
    using arg_cong [OF assms(2), of "drop 9"] assms(1) by (simp add: data_reply_def MsgOk_def)
qed

text \<open>
  What a secondary sends with \<^verbatim>\<open>SendDataOK\<close> is what the primary decodes, in whatever pieces it arrives, provided that the first of them
  has at least the nine bytes of the header. If it has fewer, the results are lost: the primary panics or takes the empty result for them.
\<close>

theorem results_survive_whole_header:
  assumes "tc_in c = map Chunk (bs # chunks)" and "concat (bs # chunks) = data_reply data" and "tc_broken c = None"
    and "bs \<noteq> []" and "data \<noteq> []" and "length data < 2 ^ 64"
  shows "fst (sendAndWaitData Unmarshal capacity MsgResults c) \<in>
    (if 9 \<le> length bs then {Ok (case Unmarshal data of Inl e \<Rightarrow> Inl (OtherError e) | Inr res \<Rightarrow> Inr res)}
     else {Ok (Inr default_results), Panic ''slice bounds out of range''})"
proof -
  define rest where "rest = (if 1024 < length bs then drop 1024 bs # chunks else chunks)"
  define c1 where "c1 = c\<lparr>tc_out := tc_out c @ MsgResults, tc_in := map Chunk rest\<rparr>"
  have wr: "tcp_write MsgResults c = (None, c\<lparr>tc_out := tc_out c @ MsgResults\<rparr>)" by (simp add: tcp_write_def assms(3))
  have rd: "tcp_read 1024 (c\<lparr>tc_out := tc_out c @ MsgResults\<rparr>) = (Inr (take 1024 bs), c1)"
    using assms(1) by (simp add: tcp_read_def c1_def rest_def)
  have whole: "take 1024 bs @ concat rest = data_reply data"
    using assms(2) by (simp add: rest_def append_assoc [symmetric] del: append_assoc)
  have b0: "buffer_at (take 1024 bs) 0 = 0x99"
    using arg_cong [OF assms(2), of hd] assms(4) by (simp add: buffer_at_def data_reply_def MsgOk_def hd_conv_nth [symmetric])
  show ?thesis
  proof (cases "9 \<le> length bs")
    case True
    then have "9 \<le> length (take 1024 bs)" by simp
    note hdr = header_of_reply [OF this whole assms(6)]
    have "\<exists>c'. read_reply (length data) (drop 9 (take 1024 bs)) c1 = (Inr (drop 9 (take 1024 bs) @ concat rest), c')"
      by (rule read_reply_chunks) (use arg_cong [OF hdr(3), of length] in \<open>simp_all add: c1_def\<close>)
    then obtain c' where "read_reply (length data) (drop 9 (take 1024 bs)) c1 = (Inr data, c')" using hdr(3) by auto
    then show ?thesis using True wr rd hdr(2) b0 assms(5) 
      by (simp add: sendAndWaitData_def Let_def min_def split: sum.splits)
  next
    case False
    then have "take 1024 bs = bs" by simp
    then show ?thesis using False wr rd b0 by (simp add: sendAndWaitData_def Let_def)
  qed
qed

definition sample_secondary :: "tcp_event list \<Rightarrow> tcp" where
  "sample_secondary es = \<lparr>tc_addr = ''10.0.0.1:3000'', tc_in = es, tc_out = [], tc_broken = None, tc_closed = False\<rparr>"

lemma results_survive_whole_header_witness:
  "fst (sendAndWaitData (\<lambda>bs. Inr []) length MsgResults (sample_secondary [Chunk (take 10 (data_reply [7, 8, 9])), Chunk [8, 9]])) = Ok (Inr []) \<and>
   fst (sendAndWaitData (\<lambda>bs. Inr []) length MsgResults (sample_secondary [Chunk [0x99], Chunk (drop 1 (data_reply [7, 8, 9]))]))
     = Ok (Inr default_results)"
proof -
  have dr: "data_reply [7, 8, 9] = [0x99, 0, 0, 0, 0, 0, 0, 0, 3, 7, 8, 9]" by code_simp
  have "fst (sendAndWaitData (\<lambda>bs. Inr []) length MsgResults (sample_secondary [Chunk (take 10 (data_reply [7, 8, 9])), Chunk [8, 9]])) \<in> {Ok (Inr [])}"
    using results_survive_whole_header [of "sample_secondary [Chunk (take 10 (data_reply [7, 8, 9])), Chunk [8, 9]]"
        "take 10 (data_reply [7, 8, 9])" "[[8, 9]]" "[7, 8, 9]" "\<lambda>bs. Inr []" length]
    by (simp add: sample_secondary_def dr)
  moreover have "fst (sendAndWaitData (\<lambda>bs. Inr []) length MsgResults (sample_secondary [Chunk [0x99], Chunk (drop 1 (data_reply [7, 8, 9]))]))
     = Ok (Inr default_results)" by code_simp
  ultimately show ?thesis by simp
qed

lemma old_errors_are_lost_witness:
  "RunBenchmark (async_signals MsgRun (sample_secondary [])) (length [sample_secondary []]) = Some [] \<and>
   err_signals (async_signals MsgRun (sample_secondary [])) = [''EOF'']"
proof -
  have "async_signals MsgRun (sample_secondary []) \<in> interleavings (map (async_signals MsgRun) [sample_secondary []])"
    by (simp add: interleavings_def)
  then have "RunBenchmark (async_signals MsgRun (sample_secondary [])) (length [sample_secondary []]) = Some []"
    using old_errors_are_lost [of "[sample_secondary []]" "[()]"] by simp
  moreover have "err_signals (async_signals MsgRun (sample_secondary [])) = [''EOF'']" by code_simp
  ultimately show ?thesis by blast
qed

text \<open>With two secondaries the loop may end before the second has answered, because the first one signals its end twice.\<close>

lemma run_may_end_early:
  "\<exists>sigs. sigs \<in> interleavings [async_signals MsgRun (sample_secondary []), async_signals MsgRun (sample_secondary [Chunk MsgOk])] \<and>
     RunBenchmark (take 3 sigs) 2 = Some [] \<and> take 3 sigs = async_signals MsgRun (sample_secondary [])"
proof -
  have a: "async_signals MsgRun (sample_secondary []) = [SigErr ''EOF'', SigDone 1, SigDone 0]"
    "async_signals MsgRun (sample_secondary [Chunk MsgOk]) = [SigDone 0]" by code_simp+
  have "[SigErr ''EOF'', SigDone 1, SigDone 0] @ [SigDone 0] \<in> shuffles [SigErr ''EOF'', SigDone 1, SigDone 0] [SigDone 0]"
    by (simp add: Cons_in_shuffles_iff)
  then show ?thesis unfolding a interleavings_def
    by (intro exI [of _ "[SigErr ''EOF'', SigDone 1, SigDone 0, SigDone 0]"]) (simp add: RunBenchmark_def)
qed

end
