(* ===== verification/Old_Workload.thy ===== *)
theory Old_Workload
  imports Go_Time
begin

text \<open>
  The workload of the first generation of Diablo: the nested lists of transactions that a controller fills
  (\<^verbatim>\<open>src/core/workload/workload.go\<close>), the validation of a benchmark (\<^verbatim>\<open>src/core/configs/validators\<close>), and its rate per
  second, interpolated between the given seconds (\<^verbatim>\<open>src/core/configs/parsers/benchparser.go\<close>). The YAML and JSON
  decoders and the file system are parameters.
\<close>

section \<open>Nested lists\<close>

type_synonym transaction = "8 word list"
type_synonym workloadInterval = "transaction list"
type_synonym ThreadWorkload = "workloadInterval list"
type_synonym secondaryWorkload = "ThreadWorkload list"
type_synonym Workload = "secondaryWorkload list"

text \<open>The loop that appends empty elements until the index is in the list, and the change of that element.\<close>

definition grow :: "int \<Rightarrow> 'a list list \<Rightarrow> 'a list list" where
  "grow index xs = xs @ replicate (nat (index + 1) - length xs) []"

definition change_at :: "int \<Rightarrow> ('a list \<Rightarrow> 'a list outcome) \<Rightarrow> 'a list list \<Rightarrow> 'a list list outcome" where
  "change_at index f xs =
     (if index < 0 then Panic ''index out of range''
      else
        let xs = grow index xs in
        obind (f (xs ! nat index)) (\<lambda>x. Ok (xs[nat index := x])))"

definition interval_add :: "transaction \<Rightarrow> workloadInterval \<Rightarrow> workloadInterval outcome" where
  "interval_add tx iv = Ok (iv @ [tx])"

definition thread_add :: "int \<Rightarrow> transaction \<Rightarrow> ThreadWorkload \<Rightarrow> ThreadWorkload outcome" where
  "thread_add interval tx = change_at interval (interval_add tx)"

definition secondary_add :: "int \<Rightarrow> int \<Rightarrow> transaction \<Rightarrow> secondaryWorkload \<Rightarrow> secondaryWorkload outcome" where
  "secondary_add threadId interval tx = change_at threadId (thread_add interval tx)"

definition Workload_Add :: "int \<Rightarrow> int \<Rightarrow> int \<Rightarrow> transaction \<Rightarrow> Workload \<Rightarrow> Workload outcome" where
  "Workload_Add secondaryId threadId interval tx = change_at secondaryId (secondary_add threadId interval tx)"

definition Workload_New :: Workload where
  "Workload_New = []"

definition BuildFlat :: "Workload \<Rightarrow> transaction list list list list" where
  "BuildFlat = map (map (map (map (\<lambda>wlTx. wlTx))))"

section \<open>The workload as a function of its three indices\<close>

definition nth_or_nil :: "'a list list \<Rightarrow> nat \<Rightarrow> 'a list" where
  "nth_or_nil xs i = (if i < length xs then xs ! i else [])"

definition sent_at :: "Workload \<Rightarrow> nat \<Rightarrow> nat \<Rightarrow> nat \<Rightarrow> transaction list" where
  "sent_at w s t i = nth_or_nil (nth_or_nil (nth_or_nil w s) t) i"

lemma nth_or_nil_grow [simp]: "nth_or_nil (grow index xs) i = nth_or_nil xs i"
  by (auto simp: nth_or_nil_def grow_def nth_append)

lemma change_at_Ok:
  assumes "0 \<le> index" and "f (nth_or_nil xs (nat index)) = Ok y"
  shows "\<exists>ys. change_at index f xs = Ok ys \<and> (\<forall>i. nth_or_nil ys i = (if i = nat index then y else nth_or_nil xs i))"
proof -
  let ?xs = "grow index xs"
  have len: "nat index < length ?xs" using assms(1) by (simp add: grow_def)
  then have "?xs ! nat index = nth_or_nil xs (nat index)" by (metis nth_or_nil_def nth_or_nil_grow)
  then have "change_at index f xs = Ok (?xs[nat index := y])" using assms by (simp add: change_at_def obind_def)
  moreover have "nth_or_nil (?xs[nat index := y]) i = (if i = nat index then y else nth_or_nil ?xs i)" for i
    using len by (simp add: nth_or_nil_def)
  ultimately show ?thesis by auto
qed

lemma Workload_Add_Ok:
  assumes "0 \<le> s" and "0 \<le> t" and "0 \<le> i"
  shows "\<exists>w'. Workload_Add s t i tx w = Ok w' \<and>
    (\<forall>s' t' i'. sent_at w' s' t' i' = sent_at w s' t' i' @ (if s' = nat s \<and> t' = nat t \<and> i' = nat i then [tx] else []))"
proof -
  let ?sec = "nth_or_nil w (nat s)" and ?thr = "nth_or_nil (nth_or_nil w (nat s)) (nat t)"
  obtain thr where thr: "thread_add i tx ?thr = Ok thr"
    "\<And>i'. nth_or_nil thr i' = (if i' = nat i then nth_or_nil ?thr (nat i) @ [tx] else nth_or_nil ?thr i')"
    using change_at_Ok [OF assms(3), of "interval_add tx" ?thr] unfolding thread_add_def interval_add_def by blast
  obtain sec where sec: "secondary_add t i tx ?sec = Ok sec"
    "\<And>t'. nth_or_nil sec t' = (if t' = nat t then thr else nth_or_nil ?sec t')"
    using change_at_Ok [OF assms(2), of "thread_add i tx" ?sec] thr(1) unfolding secondary_add_def by blast
  obtain w' where w': "Workload_Add s t i tx w = Ok w'"
    "\<And>s'. nth_or_nil w' s' = (if s' = nat s then sec else nth_or_nil w s')"
    using change_at_Ok [OF assms(1), of "secondary_add t i tx" w] sec(1) unfolding Workload_Add_def by blast
  then show ?thesis using sec(2) thr(2) by (auto simp: sent_at_def)
qed

text \<open>The calls of a controller, one after the other.\<close>

fun add_all :: "(int \<times> int \<times> int \<times> transaction) list \<Rightarrow> Workload \<Rightarrow> Workload outcome" where
  "add_all [] w = Ok w"
| "add_all ((s, t, i, tx) # calls) w = obind (Workload_Add s t i tx w) (add_all calls)"

definition added_for :: "nat \<Rightarrow> nat \<Rightarrow> nat \<Rightarrow> (int \<times> int \<times> int \<times> transaction) list \<Rightarrow> transaction list" where
  "added_for s t i calls = map (\<lambda>(_, _, _, tx). tx) (filter (\<lambda>(s', t', i', _). s' = int s \<and> t' = int t \<and> i' = int i) calls)"

text \<open>
  The workload that a controller builds holds, for each secondary, thread and interval, exactly the transactions that were added for
  them, in the order of the calls; the calls never fail if the numbers are not negative, in whatever order they grow the lists.
\<close>

theorem workload_holds_added:
  assumes "list_all (\<lambda>(s, t, i, _). 0 \<le> s \<and> 0 \<le> t \<and> 0 \<le> i) calls"
  shows "\<exists>w. add_all calls Workload_New = Ok w \<and>
    (\<forall>s t i. sent_at (BuildFlat w) s t i = added_for s t i calls)"
proof -
  have "\<exists>w. add_all calls w0 = Ok w \<and> (\<forall>s t i. sent_at w s t i = sent_at w0 s t i @ added_for s t i calls)" for w0
    using assms
  proof (induction calls arbitrary: w0)
    case (Cons call calls)
    obtain s t i tx where call: "call = (s, t, i, tx)" by (cases call)
    then have nonneg: "0 \<le> s" "0 \<le> t" "0 \<le> i" using Cons.prems by simp_all
    obtain w1 where w1: "Workload_Add s t i tx w0 = Ok w1"
      "\<And>s' t' i'. sent_at w1 s' t' i' = sent_at w0 s' t' i' @ (if s' = nat s \<and> t' = nat t \<and> i' = nat i then [tx] else [])"
      using Workload_Add_Ok [OF nonneg] by blast
    obtain w where w: "add_all calls w1 = Ok w" "\<And>s t i. sent_at w s t i = sent_at w1 s t i @ added_for s t i calls"
      using Cons.IH [of w1] Cons.prems by auto
    have "s' = nat s \<and> t' = nat t \<and> i' = nat i \<longleftrightarrow> s = int s' \<and> t = int t' \<and> i = int i'" for s' t' i' using nonneg by auto
    then show ?case using w w1 by (auto simp: call obind_def added_for_def)
  qed (simp add: added_for_def)
  then obtain w where w: "add_all calls Workload_New = Ok w" "\<And>s t i. sent_at w s t i = sent_at Workload_New s t i @ added_for s t i calls" by blast
  moreover have "BuildFlat w = w" by (simp add: BuildFlat_def)
  moreover have "sent_at Workload_New s t i = []" for s t i by (simp add: sent_at_def nth_or_nil_def Workload_New_def)
  ultimately show ?thesis by auto
qed

definition sample_calls :: "(int \<times> int \<times> int \<times> transaction) list" where
  "sample_calls = [(1, 0, 2, [7]), (0, 1, 0, [8]), (1, 0, 2, [9])]"

lemma workload_holds_added_witness: "\<exists>w. add_all sample_calls Workload_New = Ok w \<and> sent_at (BuildFlat w) 1 0 2 = [[7], [9]]"
proof -
  have "list_all (\<lambda>(s, t, i, _). 0 \<le> s \<and> 0 \<le> t \<and> 0 \<le> i) sample_calls" by (simp add: sample_calls_def)
  from workload_holds_added [OF this] obtain w where "add_all sample_calls Workload_New = Ok w"
    "sent_at (BuildFlat w) 1 0 2 = added_for 1 0 2 sample_calls" by blast
  then show ?thesis by (auto simp: sample_calls_def added_for_def)
qed

section \<open>Configurations\<close>

definition tx_types :: "string list" where
  "tx_types = [''simple'', ''contract'', ''premade'', ''test'', ''aviation'', ''contention'']"

definition UnmarshalTxType :: "string outcome \<Rightarrow> string outcome" where
  "UnmarshalTxType unmarshal =
     obind unmarshal (\<lambda>unmarshaled.
     if unmarshaled = [] then Err (Errorf ''empty transaction type provided'' [])
     else if unmarshaled \<in> set tx_types then Ok unmarshaled
     else Err (Errorf ''TX Type is incorrectly defined'' []))"

definition checkPrefix :: "string \<Rightarrow> bool" where
  "checkPrefix keyHex \<longleftrightarrow> length keyHex \<ge> 2 \<and> keyHex ! 0 = CHR ''0'' \<and> (keyHex ! 1 = CHR ''x'' \<or> keyHex ! 1 = CHR ''X'')"

record ChainKey =
  ck_PrivateKey :: "8 word list"
  ck_Address :: string

text \<open>Both decoders of a key; they differ in the text of one error. \<open>c\<close> is what the library decodes, \<open>DecodeString\<close> that of hexadecimal digits.\<close>

definition unmarshal_key ::
  "string \<Rightarrow> (string \<Rightarrow> 8 word list outcome) \<Rightarrow> (string \<times> string) outcome \<Rightarrow> ChainKey outcome" where
  "unmarshal_key msg DecodeString c =
     obind c (\<lambda>(private, address).
     if private = [] then Err (Errorf msg [])
     else
       obind (DecodeString (if checkPrefix private then drop 2 private else private)) (\<lambda>privateKeyBytes.
       Ok \<lparr>ck_PrivateKey = privateKeyBytes, ck_Address = address\<rparr>))"

definition UnmarshalYAML_key :: "(string \<Rightarrow> 8 word list outcome) \<Rightarrow> (string \<times> string) outcome \<Rightarrow> ChainKey outcome" where
  "UnmarshalYAML_key = unmarshal_key ''empty PrivateKey passed to unmarshal''"

definition UnmarshalJSON_key :: "(string \<Rightarrow> 8 word list outcome) \<Rightarrow> (string \<times> string) outcome \<Rightarrow> ChainKey outcome" where
  "UnmarshalJSON_key = unmarshal_key ''empty PrivateKey, or invalid, passed to unmarshal''"

text \<open>A list of functions is \<open>None\<close> where the source has a \<^verbatim>\<open>nil\<close>.\<close>

record 'f ContractInfo =
  ci_Path :: string
  ci_Name :: string
  ci_Functions :: "'f list option"

record ('f, 'p) BenchConfig =
  bc_Name :: string
  bc_Path :: string
  bc_Description :: string
  bc_Threads :: int
  bc_Secondaries :: int
  bc_Timeout :: int
  bc_TxType :: string
  bc_DataPath :: string
  bc_Intervals :: "(int, int) gomap"
  bc_PremadeInfo :: "'p option"
  bc_ContractInfo :: "'f ContractInfo"

definition valid_contract :: "(string \<Rightarrow> bool outcome) \<Rightarrow> string \<Rightarrow> 'f ContractInfo \<Rightarrow> unit outcome" where
  "valid_contract isDir name ci =
     (if ci_Path ci = [] \<and> ci_Name ci = [] \<and> ci_Functions ci = None
      then Err (Errorf ''[%s] empty contract info for contract workload in'' [AStr name])
      else if ci_Path ci = [] then Err (Errorf ''[%s] empty path for contract in config'' [AStr name])
      else
        obind (isDir (ci_Path ci)) (\<lambda>dir.
        if dir then Err (Errorf ''[%s] contract path (%s) is a directory'' [AStr name, AStr (ci_Path ci)])
        else if ci_Functions ci = None \<or> ci_Functions ci = Some []
        then Err (Errorf ''[%s] no functions provided for contract'' [AStr name])
        else Ok ()))"

fun valid_intervals :: "(int \<times> int) list \<Rightarrow> unit outcome" where
  "valid_intervals [] = Ok ()"
| "valid_intervals ((k, v) # it) =
     (if k < 0 then Err (Errorf ''tps key %d cannot be negative'' [AInt k])
      else if v < 0 then Err (Errorf ''tps value %d at key %d cannot be negative'' [AInt v, AInt k])
      else valid_intervals it)"

text \<open>\<^verbatim>\<open>ValidateBenchConfig\<close>, for the order \<open>it\<close> of the map of the intervals.\<close>

definition ValidateBenchConfig :: "(string \<Rightarrow> bool outcome) \<Rightarrow> (int \<times> int) list \<Rightarrow> ('f, 'p) BenchConfig \<Rightarrow> unit outcome" where
  "ValidateBenchConfig isDir it c =
     (if bc_Name c = [] then Err (Errorf ''missing benchmark name'' [])
      else if bc_Secondaries c \<le> 0 then Err (Errorf ''number of secondaries must be minimum 1'' [])
      else if bc_Threads c \<le> 0 then Err (Errorf ''number of threads must be minimum 1'' [])
      else
        obind
          (if bc_TxType c = ''contract'' then valid_contract isDir (bc_Name c) (bc_ContractInfo c)
           else if bc_TxType c = ''premade'' \<and> bc_DataPath c = []
           then Err (Errorf ''[%s] data path not provided for premade benchmark (missing \"datapath\")'' [AStr (bc_Name c)])
           else Ok ()) (\<lambda>_.
        if bc_Intervals c = [] then Err (Errorf ''no tps intervals provided'' []) else valid_intervals it))"

record ChainConfig =
  cn_Name :: string
  cn_Path :: string
  cn_Nodes :: "string list"
  cn_KeyFile :: string
  cn_ThroughputWindow :: int
  cn_Keys :: "ChainKey list"

text \<open>The part of a path after its last dot, or all of it.\<close>

definition file_type :: "string \<Rightarrow> string" where
  "file_type path = rev (takeWhile (\<lambda>c. c \<noteq> CHR ''.'') (rev path))"

text \<open>\<open>ReadFile path\<close> is \<open>None\<close> where the file does not exist.\<close>

definition parseKeyFile ::
  "(string \<Rightarrow> 8 word list outcome option) \<Rightarrow> (8 word list \<Rightarrow> ChainKey list outcome) \<Rightarrow> (8 word list \<Rightarrow> ChainKey list outcome) \<Rightarrow> string
     \<Rightarrow> ChainKey list outcome" where
  "parseKeyFile ReadFile json yaml path =
     (case ReadFile path of
        None \<Rightarrow> Err (Errorf ''Key file does not exist: %s'' [AStr path])
      | Some contents \<Rightarrow>
          if file_type path \<in> {''json'', ''JSON''} then obind contents json
          else if file_type path \<in> {''yaml'', ''yml'', ''YAML'', ''YML''} then obind contents yaml
          else Err (Errorf ''Unsupported filetype for key file: %s'' [AStr (file_type path)]))"

definition parseChainYaml :: "(string \<Rightarrow> ChainKey list outcome) \<Rightarrow> ChainConfig outcome \<Rightarrow> string \<Rightarrow> ChainConfig outcome" where
  "parseChainYaml keyFile unmarshalled path =
     obind unmarshalled (\<lambda>chainConfig.
     let chainConfig = chainConfig\<lparr>cn_Path := path\<rparr> in
     obind (if cn_KeyFile chainConfig \<noteq> [] then obind (keyFile (cn_KeyFile chainConfig)) (\<lambda>kf. Ok (chainConfig\<lparr>cn_Keys := kf\<rparr>)) else Ok chainConfig)
       (\<lambda>chainConfig.
       Ok (if cn_ThroughputWindow chainConfig \<le> 0 then chainConfig\<lparr>cn_ThroughputWindow := 1\<rparr> else chainConfig)))"

text \<open>The window of an accepted configuration is positive, as the summary of a log needs it.\<close>

lemma parseChainYaml_window: "parseChainYaml keyFile u path = Ok c \<Longrightarrow> 0 < cn_ThroughputWindow c"
  by (auto simp: parseChainYaml_def obind_def Let_def split: outcome.splits if_splits)

section \<open>Rates per second\<close>

text \<open>\<^verbatim>\<open>int(math.Floor(x))\<close>.\<close>

definition floor_int :: "f64 \<Rightarrow> int" where
  "floor_int x = (let i = f64_int x div int f64_unit in if f64_finite x \<and> int64 i then i else - (2 ^ 63))"

definition tps_at :: "(int, int) gomap \<Rightarrow> int \<Rightarrow> int" where
  "tps_at intervals k = (case gomap_get intervals k of Some v \<Rightarrow> v | None \<Rightarrow> 0)"

text \<open>The sorted keys, with zero in front if it is not one of them; the map gets it too.\<close>

definition interval_keys :: "(int \<times> int) list \<Rightarrow> (int, int) gomap \<Rightarrow> int list \<times> (int, int) gomap" where
  "interval_keys it intervals =
     (let keys = sort (map fst it) in
      if gomap_get intervals 0 = None then (0 # keys, gomap_set 0 0 intervals) else (keys, intervals))"

fun ramp :: "nat \<Rightarrow> int \<Rightarrow> f64 \<Rightarrow> f64 \<Rightarrow> (int \<times> int) list" where
  "ramp 0 i currentTPS incrementValue = []"
| "ramp (Suc n) i currentTPS incrementValue =
     (i, floor_int currentTPS) # ramp n (i + 1) (f64_add currentTPS incrementValue) incrementValue"

fun ramps :: "(int, int) gomap \<Rightarrow> int \<Rightarrow> int list \<Rightarrow> (int \<times> int) list" where
  "ramps intervals currentKey [] = []"
| "ramps intervals currentKey (nextKey # keys) =
     (let numberOfIntervals = nextKey - currentKey;
          startTPS = tps_at intervals currentKey;
          endTPS = tps_at intervals nextKey;
          incrementValue = f64_div (f64_of_int (wrap64 (endTPS - startTPS))) (f64_of_int numberOfIntervals) in
      ramp (nat numberOfIntervals) currentKey (f64_of_int startTPS) incrementValue @ ramps intervals nextKey keys)"

definition generateFullIntervals :: "(int \<times> int) list \<Rightarrow> (int, int) gomap \<Rightarrow> (int, int) gomap outcome" where
  "generateFullIntervals it intervals =
     (if intervals = [] then Err (Errorf ''empty intervals found in benchmark'' [])
      else
        let (intervalKeys, intervals) = interval_keys it intervals;
            finalIntervals = fold (\<lambda>(i, v). gomap_set i v) (ramps intervals (hd intervalKeys) (tl intervalKeys)) [] in
        Ok (gomap_set (last intervalKeys) (tps_at intervals (last intervalKeys)) finalIntervals))"

definition GetTotalNumberOfTransactions :: "(int \<times> int) list \<Rightarrow> (int, int) gomap \<Rightarrow> int" where
  "GetTotalNumberOfTransactions it intervals =
     (let (intervalKeys, intervals) = interval_keys it intervals;
          total = fold (\<lambda>(_, v) t. wrap64 (t + v)) (ramps intervals (hd intervalKeys) (tl intervalKeys)) 0 in
      wrap64 (total + tps_at intervals (last intervalKeys)))"

definition parseBenchYaml ::
  "(string \<Rightarrow> bool outcome) \<Rightarrow> (string \<Rightarrow> 'p outcome) \<Rightarrow> (int \<times> int) list \<Rightarrow> ('f, 'p) BenchConfig outcome \<Rightarrow> string
     \<Rightarrow> ('f, 'p) BenchConfig outcome" where
  "parseBenchYaml isDir ParsePremade it unmarshalled path =
     obind unmarshalled (\<lambda>c.
     obind (ValidateBenchConfig isDir it c) (\<lambda>_.
     obind (generateFullIntervals it (bc_Intervals c)) (\<lambda>fullIntervals.
     obind (if bc_TxType c = ''premade'' then obind (ParsePremade (bc_DataPath c)) (\<lambda>p. Ok (c\<lparr>bc_PremadeInfo := Some p\<rparr>)) else Ok c) (\<lambda>c.
     Ok (c\<lparr>bc_Intervals := fullIntervals, bc_Path := path\<rparr>)))))"

lemma map_fst_ramp: "map fst (ramp n i cur inc) = [i..i + int n - 1]"
proof (induction n arbitrary: i cur)
  case (Suc n)
  have "[i..i + int (Suc n) - 1] = i # [i + 1..i + int (Suc n) - 1]" by (simp add: upto_rec1)
  also have "i + int (Suc n) - 1 = i + 1 + int n - 1" by simp
  finally show ?case using Suc [of "i + 1"] by simp
qed simp

lemma upto_join: "cur \<le> key \<Longrightarrow> key \<le> m \<Longrightarrow> [cur..key - 1] @ [key..m - 1] = [cur..m - (1 :: int)]"
  using upto_split1 [of cur key "m - 1"] by (cases "key = m") simp_all

lemma map_fst_ramps: "sorted_wrt (<) (cur # keys) \<Longrightarrow> map fst (ramps intervals cur keys) = [cur..last (cur # keys) - 1]"
proof (induction keys arbitrary: cur)
  case (Cons key keys)
  have le: "cur < key" "key \<le> last (key # keys)"
    using Cons.prems last_in_set [of keys] by (auto simp: less_imp_le)
  have "map fst (ramp (nat (key - cur)) cur c i) = [cur..key - 1]" for c i using map_fst_ramp [of "nat (key - cur)"] le by simp
  then have "map fst (ramps intervals cur (key # keys)) = [cur..key - 1] @ [key..last (key # keys) - 1]"
    using Cons by (simp add: Let_def)
  also have "\<dots> = [cur..last (key # keys) - 1]" using le by (intro upto_join) simp_all
  finally show ?case by simp
qed simp

text \<open>An integer of at most 53 bits is exact as a float.\<close>

lemma f64_int_of_int:
  assumes "0 \<le> v" and "v < 2 ^ 53"
  shows "f64_int (f64_of_int v) = v * int f64_unit"
proof (cases "v = 0")
  case False
  define n where "n = nat v"
  have n: "0 < n" "n < 2 ^ 53" "v = int n" using assms False by (auto simp: n_def nat_less_iff)
  obtain j where j: "2 ^ j \<le> n" "n < 2 ^ Suc j" using ex_power_ivl1 [of 2 n] n(1) by auto
  have j52: "j \<le> 52"
  proof (rule ccontr)
    assume "\<not> j \<le> 52"
    then have "(2 :: nat) ^ 53 \<le> 2 ^ j" by (intro power_increasing) auto
    then show False using j(1) n(2) by linarith
  qed
  define q where "q = n * 2 ^ (52 - j)"
  have pow: "(2 :: nat) ^ j * 2 ^ (52 - j) = 2 ^ 52" "(2 :: nat) ^ Suc j * 2 ^ (52 - j) = 2 ^ 53"
    using j52 by (simp_all add: power_add [symmetric])
  have q: "2 ^ 52 \<le> q" "q \<le> 2 ^ 53"
    using mult_le_mono1 [OF j(1), of "2 ^ (52 - j)"] mult_le_mono1 [OF less_imp_le [OF j(2)], of "2 ^ (52 - j)"]
    unfolding q_def pow by simp_all
  define m where "m = (1022 + j) * 2 ^ 52 + q"
  have "sval m = q * 2 ^ (1022 + j)" unfolding m_def by (rule sval_block [OF q])
  also have "\<dots> = n * 2 ^ (52 - j + (1022 + j))" by (simp only: q_def power_add mult.assoc)
  also have "52 - j + (1022 + j) = 1074" using j52 by simp
  finally have sv: "sval m = n * f64_unit" by (simp add: f64_unit_def)
  have "m \<le> (1022 + 52) * 2 ^ 52 + 2 ^ 53" unfolding m_def using j52 q(2) by (intro add_mono mult_le_mono1) simp_all
  then have inf: "m \<le> inf_mag" by (simp add: inf_mag_def)
  have "round_mag (n * f64_unit) 1 = m" using round_mag_exact [of 1 m] inf by (simp add: sv)
  then show ?thesis using n inf sv by (simp add: f64_of_int_def f64_int_def)
qed (simp add: f64_of_int_def f64_int_def)

lemma floor_of_int: "0 \<le> v \<Longrightarrow> v < 2 ^ 53 \<Longrightarrow> floor_int (f64_of_int v) = v"
  using f64_of_int_finite [of v] f64_unit_pos by (simp add: floor_int_def f64_int_of_int int64_def)

lemma valid_intervalsD: "valid_intervals it = Ok () \<Longrightarrow> (k, v) \<in> set it \<Longrightarrow> 0 \<le> k \<and> 0 \<le> v"
  by (induction it rule: valid_intervals.induct) (auto split: if_splits)

lemma ramps_at_keys:
  "sorted_wrt (<) (cur # keys) \<Longrightarrow> k \<in> set (butlast (cur # keys)) \<Longrightarrow> 0 \<le> tps_at intervals k \<Longrightarrow> tps_at intervals k < 2 ^ 53 \<Longrightarrow>
   (k, tps_at intervals k) \<in> set (ramps intervals cur keys)"
proof (induction keys arbitrary: cur)
  case (Cons key keys)
  show ?case
  proof (cases "k = cur")
    case True
    obtain n where "nat (key - cur) = Suc n" using Cons.prems(1) by (cases "nat (key - cur)") auto
    then show ?thesis using Cons.prems(3,4) True by (simp add: Let_def floor_of_int)
  next
    case False
    then have "k \<in> set (butlast (key # keys))" using Cons.prems(2) by (auto split: if_splits)
    then show ?thesis using Cons by (simp add: Let_def)
  qed
qed simp

lemma interval_keys_sorted:
  assumes "gomap_ok intervals" and "gomap_order intervals it" and "valid_intervals it = Ok ()" and "intervals \<noteq> []"
    and "interval_keys it intervals = (keys, ivs)"
  shows "sorted_wrt (<) keys" and "keys \<noteq> []" and "hd keys = 0" and "set keys = insert 0 (fst ` set intervals)"
    and "\<And>k v. (k, v) \<in> set intervals \<Longrightarrow> tps_at ivs k = v"
proof -
  have it: "set it = set intervals" "distinct (map fst it)"
    using gomap_order_set [OF assms(2)] gomap_order_ok [OF assms(2,1)] by (simp_all add: gomap_ok_def)
  have srt: "sorted_wrt (<) (sort (map fst it))" using it(2) by (simp add: strict_sorted_iff)
  have pos: "0 \<le> k" if "k \<in> fst ` set intervals" for k using that it(1) valid_intervalsD [OF assms(3)] by auto
  have zero: "gomap_get intervals 0 = None \<longleftrightarrow> 0 \<notin> fst ` set intervals" by (simp add: map_of_eq_None_iff)
  note keys = assms(5) [unfolded interval_keys_def Let_def]
  then have eq: "keys = (if gomap_get intervals 0 = None then 0 # sort (map fst it) else sort (map fst it))"
    by (auto split: if_splits)
  show s: "sorted_wrt (<) keys"
  proof (cases "gomap_get intervals 0 = None")
    case True
    then have "0 < k" if "k \<in> fst ` set it" for k using pos [of k] that zero it(1) by (cases "k = 0") auto
    then show ?thesis using keys True srt by auto
  qed (use keys srt in auto)
  show st: "set keys = insert 0 (fst ` set intervals)" by (simp add: eq it(1) zero insert_absorb)
  then show ne: "keys \<noteq> []" by auto
  show "hd keys = 0"
  proof -
    have "hd keys \<in> set keys" using ne by simp
    then have "0 \<le> hd keys" using st pos by auto
    moreover have "0 \<in> set keys" using st by simp
    then have "hd keys \<le> 0" using s ne by (cases keys) auto
    ultimately show ?thesis by simp
  qed
  show "tps_at ivs k = v" if "(k, v) \<in> set intervals" for k v
  proof -
    have "gomap_get intervals k = Some v" using that assms(1) by (simp add: gomap_ok_def)
    moreover have "gomap_get ivs k = gomap_get intervals k" using keys \<open>gomap_get intervals k = Some v\<close> by (auto split: if_splits)
    ultimately show ?thesis by (simp add: tps_at_def)
  qed
qed

text \<open>
  The rates of a valid benchmark are filled in for every second from zero to the last one that is given, each once; every given rate is kept
  if it has at most 53 bits; and the total number of transactions is the sum of the rates of all seconds.
\<close>

theorem rates_of_every_second:
  assumes "gomap_ok intervals" and "gomap_order intervals it" and "valid_intervals it = Ok ()" and "intervals \<noteq> []"
  shows "\<exists>full. generateFullIntervals it intervals = Ok full \<and>
    map fst full = [0..Max (insert 0 (fst ` set intervals))] \<and>
    (\<forall>k v. (k, v) \<in> set intervals \<longrightarrow> v < 2 ^ 53 \<longrightarrow> gomap_get full k = Some v) \<and>
    GetTotalNumberOfTransactions it intervals = fold (\<lambda>v t. wrap64 (t + v)) (map snd full) 0"
proof -
  obtain keys ivs where k: "interval_keys it intervals = (keys, ivs)" by force
  note keys = interval_keys_sorted [OF assms k]
  define lk where "lk = last keys"
  have split: "keys = 0 # tl keys" using keys(2,3) by (cases keys) auto
  have fsts: "map fst (ramps ivs 0 (tl keys)) = [0..lk - 1]" using map_fst_ramps [of 0 "tl keys" ivs] keys(1) split by (simp add: lk_def)
  define full where "full = ramps ivs 0 (tl keys) @ [(lk, tps_at ivs lk)]"
  have sorted: "sorted_wrt (<) (butlast keys @ [lk])" using keys(1,2) by (simp add: lk_def)
  have parts: "set keys = insert lk (set (butlast keys))" using keys(2)
    by (metis append_butlast_last_id lk_def list.simps(15) rotate1.simps(2) set_rotate1)
  have upper: "k \<le> lk" if "k \<in> set keys" for k using that sorted parts by (auto simp: sorted_wrt_append less_imp_le)
  have lk: "0 \<le> lk" using upper [of 0] keys(4) by simp
  have fullk: "map fst full = [0..lk]" using fsts lk by (simp add: full_def upto_rec2)
  have dist: "distinct (map fst full)" unfolding fullk by simp
  have gen: "generateFullIntervals it intervals = Ok full"
    using fold_gomap_set [of "[]" "ramps ivs 0 (tl keys)"] dist assms(4)
    by (simp add: generateFullIntervals_def k keys(3) lk_def [symmetric] full_def gomap_set_new)
  have mx: "Max (insert 0 (fst ` set intervals)) = lk"
    using upper parts by (intro Max_eqI) (auto simp: keys(4) [symmetric])
  have vals: "gomap_get full k = Some v" if "(k, v) \<in> set intervals" "v < 2 ^ 53" for k v
  proof -
    have tps: "tps_at ivs k = v" by (rule keys(5) [OF that(1)])
    have kin: "k \<in> set keys" using that(1) keys(4) by force
    have "0 \<le> v" using valid_intervalsD [OF assms(3)] gomap_order_set [OF assms(2)] that(1) by blast
    then have "(k, v) \<in> set full"
      using kin parts ramps_at_keys [of 0 "tl keys" k ivs] keys(1) split tps that(2) by (cases "k = lk") (auto simp: full_def)
    then show ?thesis using dist by simp
  qed
  have "GetTotalNumberOfTransactions it intervals = fold (\<lambda>v t. wrap64 (t + v)) (map snd full) 0"
    by (simp add: GetTotalNumberOfTransactions_def k keys(3) lk_def [symmetric] full_def fold_map comp_def case_prod_unfold)
  then show ?thesis using gen fullk mx vals by auto
qed

lemma rates_of_every_second_witness:
  "\<exists>full. generateFullIntervals [(4, 10), (2, 5)] [(2, 5), (4, 10)] = Ok full \<and> map fst full = [0..4] \<and>
     gomap_get full 4 = Some 10 \<and> gomap_get full 2 = Some 5"
proof -
  have "gomap_ok [(2 :: int, 5 :: int), (4, 10)]" "gomap_order [(2 :: int, 5 :: int), (4, 10)] [(4, 10), (2, 5)]"
    "valid_intervals [(4, 10), (2, 5)] = Ok ()"
    by (simp_all add: gomap_ok_def gomap_order_def)
  from rates_of_every_second [OF this] obtain full where "generateFullIntervals [(4, 10), (2, 5)] [(2, 5), (4, 10)] = Ok full"
    "map fst full = [0..Max {0, 2, 4}]" "gomap_get full 4 = Some 10" "gomap_get full 2 = Some 5" by auto
  then show ?thesis by (simp add: Max.insert)
qed

end
