(* ===== verification/Old_Handler.thy ===== *)
theory Old_Handler
  imports Go_Prelude
begin

text \<open>
  The workload handler of the first generation of Diablo (\<^verbatim>\<open>src/core/handlers/workloadhandler.go\<close>): per client a producer that
  hands out the transactions of one interval a second, a consumer that sends them, and the wait for their confirmation. The package of
  the clients is not in the repository, so a client is a parameter. Log output is left out.
\<close>

section \<open>Model\<close>

text \<open>\<^verbatim>\<open>Connect\<close> joins the errors of the clients that cannot connect.\<close>

definition join_errors :: "string list \<Rightarrow> string" where
  "join_errors errs = (case errs of [] \<Rightarrow> [] | e # es \<Rightarrow> e @ concat (map (\<lambda>x. '', '' @ x) es))"

definition Connect :: "('c \<Rightarrow> string option) \<Rightarrow> 'c list \<Rightarrow> unit outcome" where
  "Connect ConnectAll activeClients =
     (let combinedErr = List.map_filter ConnectAll activeClients in
      if length combinedErr > 0 then Err (Errorf (join_errors combinedErr) []) else Ok ())"

text \<open>The pairs of a client and its parsed workload for which goroutines are started. The first client parses all workloads.\<close>

fun parse_workloads :: "('c \<Rightarrow> 'w \<Rightarrow> 'tx list list outcome) \<Rightarrow> 'c list \<Rightarrow> nat \<Rightarrow> 'w list \<Rightarrow> ('c \<times> 'tx list list) list outcome" where
  "parse_workloads ParseWorkload activeClients i [] = Ok []"
| "parse_workloads ParseWorkload activeClients i (w # ws) =
     (if activeClients = [] then Panic ''index out of range''
      else
        obind (ParseWorkload (activeClients ! 0) w) (\<lambda>parsed.
        if i \<ge> length activeClients then Panic ''index out of range''
        else obind (parse_workloads ParseWorkload activeClients (i + 1) ws) (\<lambda>rest. Ok ((activeClients ! i, parsed) # rest))))"

definition ParseWorkloads :: "('c \<Rightarrow> 'w \<Rightarrow> 'tx list list outcome) \<Rightarrow> 'c list \<Rightarrow> 'w list \<Rightarrow> ('c \<times> 'tx list list) list outcome" where
  "ParseWorkloads ParseWorkload activeClients rawWorkload = parse_workloads ParseWorkload activeClients 0 rawWorkload"

text \<open>What the producer has put into the channel, and how it ends: it closes the channel, or it panics.\<close>

function produce :: "'tx list list \<Rightarrow> nat \<Rightarrow> 'tx list \<Rightarrow> 'tx list \<times> unit outcome" where
  "produce workload currentIterator sent =
     (if currentIterator \<ge> length workload then (sent, Panic ''index out of range'')
      else
        let sent = sent @ workload ! currentIterator; currentIterator = currentIterator + 1 in
        if currentIterator \<ge> length workload then (sent, Ok ()) else produce workload currentIterator sent)"
  by pat_completeness auto
termination
  by (relation "measure (\<lambda>(workload, i, _). length workload - i)") auto

declare produce.simps [simp del]

definition workloadProducer :: "'tx list list \<Rightarrow> 'tx list \<times> unit outcome" where
  "workloadProducer workload =
     (case workload of [] \<Rightarrow> ([], Panic ''index out of range'') | first # _ \<Rightarrow> produce workload 1 first)"

record counters =
  wh_numTx :: "64 word"
  wh_numErrors :: "64 word"

definition consume :: "('tx \<Rightarrow> bool) \<Rightarrow> 'tx \<Rightarrow> counters \<Rightarrow> counters" where
  "consume fails tx wh =
     (let wh = (if fails tx then wh\<lparr>wh_numErrors := wh_numErrors wh + 1\<rparr> else wh) in wh\<lparr>wh_numTx := wh_numTx wh + 1\<rparr>)"

definition runnerConsumer :: "('tx \<Rightarrow> bool) \<Rightarrow> 'tx list \<Rightarrow> counters \<Rightarrow> counters" where
  "runnerConsumer fails workload = fold (consume fails) workload"

definition getTxCheck :: "('c \<Rightarrow> 64 word) \<Rightarrow> 'c list \<Rightarrow> 64 word" where
  "getTxCheck GetTxDone activeClients = sum_list (map GetTxDone activeClients)"

text \<open>
  The wait of \<^verbatim>\<open>RunBench\<close>: \<open>tds\<close> are the numbers of confirmed transactions at the coming ticks. The result is the number of ticks waited;
  \<open>None\<close> means that more ticks are needed.
\<close>

fun wait_done :: "int \<Rightarrow> 64 word \<Rightarrow> int \<Rightarrow> 64 word list \<Rightarrow> int outcome option" where
  "wait_done timeout numTx waitCount [] = None"
| "wait_done timeout numTx waitCount (td # tds) =
     (let waitCount = waitCount + 1 in
      if waitCount \<ge> timeout then Some (Ok waitCount)
      else if numTx = 0 then Some (Panic ''integer divide by zero'')
      else if td div numTx = 1 then Some (Ok waitCount)
      else wait_done timeout numTx waitCount tds)"

section \<open>Properties\<close>

lemma produce_all: "0 < i \<Longrightarrow> i < length workload \<Longrightarrow> produce workload i sent = (sent @ concat (drop i workload), Ok ())"
proof (induction workload i sent rule: produce.induct)
  case (1 workload i sent)
  have d: "drop i workload = workload ! i # drop (Suc i) workload" using 1(3) by (simp add: Cons_nth_drop_Suc)
  show ?case
  proof (cases "Suc i < length workload")
    case True
    then show ?thesis using 1 d by (subst produce.simps) (simp add: Let_def)
  next
    case False
    then have "drop (Suc i) workload = []" by simp
    then show ?thesis using 1(3) False d by (subst produce.simps) (simp add: Let_def)
  qed
qed

lemma consume_counts:
  "wh_numTx (runnerConsumer fails txs wh) = wh_numTx wh + of_nat (length txs)"
  "wh_numErrors (runnerConsumer fails txs wh) = wh_numErrors wh + of_nat (length (filter fails txs))"
  unfolding runnerConsumer_def by (induction txs arbitrary: wh) (simp_all add: consume_def Let_def)

lemma wait_ends: "timeout \<le> waitCount + int (length tds) \<Longrightarrow> tds \<noteq> [] \<Longrightarrow> \<exists>r. wait_done timeout numTx waitCount tds = Some r"
proof (induction timeout numTx waitCount tds rule: wait_done.induct)
  case (2 timeout numTx waitCount td tds)
  then show ?case by (cases tds) (auto simp: Let_def)
qed simp

text \<open>
  A producer with at least two intervals hands out every transaction once and in order, and its consumer counts them all; with a single interval
  it panics at the first tick, after having handed out all there is. The wait for the confirmations ends no later than the timeout, but if nothing was
  sent and the timeout is more than a second, it divides by zero.
\<close>

theorem handler_sends_all:
  "(if length workload \<ge> 2 then workloadProducer workload = (concat workload, Ok ())
    else workloadProducer workload = (concat workload, Panic ''index out of range'')) \<and>
   wh_numTx (runnerConsumer fails (fst (workloadProducer workload)) \<lparr>wh_numTx = 0, wh_numErrors = 0\<rparr>)
     = of_nat (length (concat workload)) \<and>
   (\<exists>r. wait_done timeout numTx 0 (tds @ replicate (Suc (nat timeout)) td) = Some r) \<and>
   wait_done timeout 0 0 (td # tds) = Some (if timeout \<le> 1 then Ok 1 else Panic ''integer divide by zero'')"
proof -
  have prod: "workloadProducer workload =
      (concat workload, if length workload \<ge> 2 then Ok () else Panic ''index out of range'')"
  proof (cases workload)
    case (Cons first rest)
    show ?thesis
    proof (cases rest)
      case Nil
      then show ?thesis using Cons by (simp add: workloadProducer_def produce.simps)
    next
      case (Cons second rest')
      then show ?thesis using \<open>workload = first # rest\<close> produce_all [of 1 workload first] by (simp add: workloadProducer_def)
    qed
  qed (simp add: workloadProducer_def)
  moreover have "\<exists>r. wait_done timeout numTx 0 (tds @ replicate (Suc (nat timeout)) td) = Some r" by (rule wait_ends) simp_all
  ultimately show ?thesis by (simp add: consume_counts)
qed

end
