(* ===== verification/Spec2Isabelle.thy ===== *)
theory Spec2Isabelle
  imports Core_Session Core_View Core_Scoping Eth_Client Eth_Confirm Algo_Client Diem_Driver Sol_Driver Hot_Client Red_Client Main_Program Core_Log Util_IPC
    Old_Server Old_Workload Old_Handler
begin

text \<open>
  \<^bold>\<open>Diablo: a verification development of the benchmark's core.\<close>

  Diablo measures blockchains. A \<^emph>\<open>primary\<close> reads a setup and a benchmark file, accepts the
  connections of the \<^emph>\<open>secondaries\<close> (and of passive observers), turns the benchmark into clients and
  scheduled interactions, sends these to the secondaries, starts the run and collects the results. A
  secondary creates the clients, decodes the interactions in goroutines, releases each at its time,
  records what the clients report, and after a timeout sends one result per interaction.

  \<^bold>\<open>Conventions.\<close> A Go function is a function to an \<open>outcome\<close> (a value, an error or a panic); one
  that changes state is a \<open>('s, 'a) go\<close>, a state transformer with an outcome. Errors keep their arguments
  and their format, which is shortened in places (no property depends on its text). A Go map is an association list with distinct keys, and a definition that
  ranges over one takes the order as an argument. \<^verbatim>\<open>float64\<close> is the bit pattern, with the IEEE
  arithmetic as integer arithmetic in units of \<open>2 ^ -1074\<close> and the conversion to an integer of amd64.
  \<^verbatim>\<open>int\<close> has 64 bits; where an operation can leave that range the wrap-around is written out.
  Time is an integer number of nanoseconds, and what the clock shows is an argument. Log output is
  left out.

  \<^bold>\<open>Theories, in the order of the imports.\<close>

  \<^item> \<open>Go_Prelude\<close>: outcomes and the state transformers with their rules (\<open>go_run\<close>, \<open>go_split\<close>), the
    frame predicate \<open>keeps\<close>, Go maps, 64-bit integers.
  \<^item> \<open>Wire_IO\<close>: bytes, readers, writers; the locales \<open>decoder\<close>, \<open>codec\<close> and \<open>byte_sink\<close>, the
    interfaces of what decodes, of what also encodes, and of what bytes can be written to.
  \<^item> \<open>Go_Float64\<close>, \<open>Go_Time\<close>: \<^verbatim>\<open>float64\<close> with rounding, spacing and monotonicity lemmas; durations.
  \<^item> \<open>Core_Messages\<close>: every message of \<^verbatim>\<open>src/core/encoding.go\<close>. Round trips, truncation, refusal, totality.
  \<^item> \<open>Core_Net\<close>: the connections of \<^verbatim>\<open>src/core/net.go\<close> over \<^verbatim>\<open>bufio\<close>. What is written is what arrives; the
    handshake.
  \<^item> \<open>Core_Result\<close>, \<open>Core_Sample\<close>, \<open>Core_Setup\<close>: \<^verbatim>\<open>result.go\<close>, the samples and the uniform distribution of
    \<^verbatim>\<open>builtin.go\<close>, \<^verbatim>\<open>setup.go\<close>.
  \<^item> \<open>Core_Primary\<close>: \<^verbatim>\<open>nprimary.go\<close>: accepting, the clients and interactions of a secondary, the announced
    duration, collecting, the end of \<^verbatim>\<open>Run\<close>. The operations refine a list of messages.
  \<^item> \<open>Core_Secondary\<close>: \<^verbatim>\<open>nsecondary.go\<close>: the preparation, and the run as the step relation \<open>rt_step\<close> in which
    the main goroutine and the reports of the clients interleave. Invariant, liveness, results.
  \<^item> \<open>Core_Protocol\<close>: what the preparation on one side means on the other: it succeeds exactly if the chain accepts
    what was announced (\<open>rt_accepts\<close>), and truncates the client of an interaction to eight bits.
  \<^item> \<open>Core_Generate\<close>, \<open>Core_Timeload\<close>: the generators of \<^verbatim>\<open>benchmark.go\<close>. A channel is the list of what it
    will still deliver; fusing channels is a stable sort; a load is flattened in \<^verbatim>\<open>float64\<close> arithmetic.
  \<^item> \<open>Core_Yaml\<close>: the expressions of \<^verbatim>\<open>benchmark.go\<close> built from YAML nodes.
  \<^item> \<open>Core_Variable\<close>, \<open>Core_Scope\<close>, \<open>Core_Benchmark\<close>: variables, scopes, factories, and the parsing and
    instantiation of the benchmark (\<^verbatim>\<open>variable.go\<close>, \<^verbatim>\<open>scope.go\<close>, \<^verbatim>\<open>system.go\<close>, \<^verbatim>\<open>location.go\<close>, \<^verbatim>\<open>blockchain.go\<close>,
    \<^verbatim>\<open>benchmark.go\<close>). The shared objects live in a \<open>world\<close>: a scope and a variable are addresses.
  \<^item> \<open>Core_Frame\<close>, \<open>Core_Operations\<close>: the locale \<open>blockchain_builder\<close>, the law the core needs of a builder, and
    what parsing and instantiating do to the secondaries under it.
  \<^item> \<open>Util_IO\<close>: the chained readers and writers of \<^verbatim>\<open>src/util/io.go\<close>.
  \<^item> \<open>Mock_Chain\<close>, \<open>Mock_Benchmark\<close>: the mock blockchain, the interpretation of \<open>blockchain_builder\<close>, and a
    benchmark on it that is run from its expression to the bytes.
  \<^item> \<open>Core_Run\<close>, \<open>Core_View\<close>, \<open>Core_Scoping\<close>: the end-to-end property of the benchmark, the views of the
    clients, the scoping of variables.
  \<^item> \<open>Core_Session\<close>: \<^verbatim>\<open>Nprimary.Run\<close> and \<^verbatim>\<open>Nsecondary.Run\<close> as a whole, and a session of the two programs: a connection is
    \<open>linked\<close> when each end receives what the other has sent.
  \<^item> \<open>Eth_Transaction\<close>, \<open>Eth_Builder\<close>, \<open>Eth_Client\<close>: the Ethereum driver (\<^verbatim>\<open>src/blockchains/nethereum\<close>) over a record
    of the library's functions: transactions with their nonces, parameters and encodings, the
    builder (an interpretation of \<open>blockchain_builder\<close> too), its contracts, the client; from the builder's
    requests to signed transactions with consecutive nonces.
  \<^item> \<open>Poll_Confirm\<close>: the confirmer that several drivers share, a goroutine that polls blocks for the transactions of
    concurrent calls, as the step relation \<open>poll_step\<close>; the locale \<open>commit_plan\<close> is what it needs of the order of reports
    and answers. Invariant, soundness of the reports, and the race between \<^verbatim>\<open>confirm\<close> and a block, for any plan.
  \<^item> \<open>Eth_Confirm\<close>: the confirmer of the Ethereum driver, an interpretation.
  \<^item> \<open>Algo_Transaction\<close>, \<open>Algo_Builder\<close>, \<open>Algo_Client\<close>: the Algorand driver (\<^verbatim>\<open>src/blockchains/nalgorand\<close>), likewise: from the
    builder's requests to signed transactions that carry consecutive numbers; its block polling, an interpretation of
    \<open>commit_plan\<close>, with the loop over the rounds; its polling of single transactions.
  \<^item> \<open>Diem_Transaction\<close>, \<open>Diem_Accounts\<close>, \<open>Diem_Builder\<close>, \<open>Diem_Client\<close>, \<open>Diem_Driver\<close>: the Diem driver (\<^verbatim>\<open>src/blockchains/ndiem\<close>):
    transactions; the two pools of goroutines that create and fund accounts, as the step relation \<open>ac_step\<close>; the builder, whose
    accounts are elements of a slice with pointers into it, over an explicit store; the client, which registers a call before it
    submits, as the step relation \<open>diem_step\<close>, and its loop over the ledger; from the builder's requests to signed transactions with
    consecutive sequence numbers, and where the builder itself loses count of them.
  \<^item> \<open>Sol_Transaction\<close>, \<open>Sol_Builder\<close>, \<open>Sol_Client\<close>, \<open>Sol_Driver\<close>: the Solana driver (\<^verbatim>\<open>src/blockchains/nsolana\<close>): transactions that are signed over
    a recent block hash, with the providers of that hash; the builder with its compiler and the batches of a deployment; the client, which
    has the critical sections of \<open>Poll_Confirm\<close> but registers a call before it submits, as the step relation \<open>sol_step\<close>, and
    its loop over the slots of the chain; from the builder's requests to signed transactions, the transfers among them all
    different.
  \<^item> \<open>Core_Report\<close>: what a client may report of an interaction.
  \<^item> \<open>Red_Client\<close>: the redundant driver (\<^verbatim>\<open>src/blockchains/nredundant\<close>), which every other driver is wrapped in: a client
    per endpoint, and the wrapper that combines their reports, as a step relation; what the wrapped interaction is told for any
    reports of the clients.
  \<^item> \<open>Hot_Cache\<close>, \<open>Hot_Client\<close>: the HotStuff driver (\<^verbatim>\<open>src/blockchains/nhotstuff\<close>): the command cache and its batches, the
    client with its slot, its sequence numbers and its configuration of replicas, and its builder (an interpretation of \<open>blockchain_builder\<close>).
  \<^item> \<open>Main_Options\<close>, \<open>Main_Program\<close>, \<open>Core_Log\<close>: the program (\<^verbatim>\<open>src/parse.go\<close>, \<^verbatim>\<open>src/diablo.go\<close>): options, roles, their
    arguments, the printed statistics; the levels of the logger.
  \<^item> \<open>Util_IPC\<close>: the pipes to helper processes (\<^verbatim>\<open>src/util/ipc.go\<close>) as a step relation of their goroutines.
  \<^item> \<open>Old_Results\<close>, \<open>Old_Server\<close>, \<open>Old_Workload\<close>, \<open>Old_Handler\<close>: the first generation of the tool (\<^verbatim>\<open>src/core/results\<close>,
    \<^verbatim>\<open>src/communication\<close>, \<^verbatim>\<open>src/core/workload\<close> and \<^verbatim>\<open>configs\<close>, \<^verbatim>\<open>src/core/handlers\<close>): the log of events and its summary over a
    sliding window, the server and its secondaries, workloads and rates, producers and consumers.
  \<^item> this theory: the two directions of the protocol, end to end.

  \<^bold>\<open>Parameters.\<close> Code that is not in the repository is an argument: the random source, regular
  expressions, the YAML decoder, the files, \<^verbatim>\<open>ParseFloat\<close>, a blockchain's builder and client, the Ethereum,
  Algorand, Diem and Solana libraries with the nodes behind them, the Solidity and Move compilers, the helper processes, the \<^verbatim>\<open>gorums\<close> library of the HotStuff driver
  and the JSON library. What is assumed of
  it is a named hypothesis: the arrival order of decoded interactions is a permutation,
  a builder does not change scopes or secondaries behind the expression it is given, and the keys
  and addresses of these libraries survive their encoding (\<open>sdk_ok\<close>, \<open>algo_ok\<close>, \<open>diem_ok\<close>, \<open>sol_ok\<close>); the hashes of different
  transactions differ; an Algorand node gives every block in the end, and one block per round (\<open>chain_ok\<close>); a Solana node settles every slot in the end and announces ever
  higher roots (\<open>sol_chain_ok\<close>).

  \<^bold>\<open>Termination and fuel.\<close> The loops over a finite stream or list are total functions. The inner loop of
  \<^verbatim>\<open>flatten\<close> may run forever, so it is a partial function with value \<open>None\<close> then: it ends for loads whose
  periods the floats resolve and never ends in a phase with a negative rate. The loop of \<^verbatim>\<open>parseView\<close> has one more
  unit of fuel than events are left (\<open>view_loop_ends\<close>: that is enough), the search for a float multiplier
  has 20 rounds, after which the multiplier has wrapped to zero (\<open>infer_multiplier_ends\<close>). The wait for the
  receipt of a deployed contract may never end and is a partial function too (\<open>poll_receipt\<close>), and so are the loops of the
  Algorand client that wait for a transaction (\<open>algo_polltx\<close>) or a block
  (\<open>algo_rounds\<close>); both are shown to return once the node has it. The loops of the Solana client over the node's answers
  (\<open>sol_getBlock\<close>, \<open>sol_roots\<close>) are shown to return under \<open>sol_chain_ok\<close>; those of its builder and of its cached provider
  (\<open>sol_poll\<close>, \<open>sol_renew\<close>) may never end.

  \<^bold>\<open>Not modelled.\<close> The drivers of Aptos, Avalanche and of the second HotStuff, whose SDKs are not
  in the repository; how the Ethereum driver runs the Solidity compiler (\<^verbatim>\<open>CompileSolidity\<close>); the generated code of the HotStuff
  messages; of the first generation its two blockchains (\<^verbatim>\<open>src/blockchains/algorand\<close> and \<^verbatim>\<open>diem\<close>) and the writing of result files; the definition of its command line flags; the
  test clients. Dialing and listening are parameters. A closed connection and a goroutine that sends on a closed channel
  after an early error of \<^verbatim>\<open>prepare\<close> are not in the model of the preparation.

  \<^bold>\<open>Plan.\<close> Next are the drivers of Avalanche and Aptos, which repeat the Ethereum and the Diem one (their transactions and confirmers).
\<close>

section \<open>The preparation reaches the secondary\<close>

text \<open>
  C3: End to end, primary to secondary: if the primary generates a benchmark on a secondary and
  synchronises, then on the bytes it has put on the network the preparation of the secondary
  succeeds exactly if its chain creates the announced clients and decodes the announced payloads,
  in whatever order the decoding goroutines finish. Then it has created exactly these clients, each
  with its own view, and exactly one interaction per \<^verbatim>\<open>sendInteraction\<close>, with its time, kind and
  decoded payload, for the client whose index is the announced one modulo 256; with at most 256
  clients that is the announced client itself.
\<close>

theorem preparation_reaches_secondary:
  assumes "remote_inv rs" and "conn_good (rs_conn rs)" and "rs_clients rs = []" and "ops_ok [] ops"
    and "r_input (c_rd (rs_conn rs)) = wire_prepare MsgPrepareDone @ answers"
    and "rt_clients rt = []" and "rt_interactions rt = []"
    and "\<And>ds. mset (arrival ds) = mset ds"
  shows "\<exists>rs1 rs2 bytes. gfor ops exec_op rs = (Ok (), rs1) \<and> remoteSecondary_ready rs1 = (Ok (), rs2) \<and>
    c_out (rs_conn rs2) = conn_written (rs_conn rs) @ bytes \<and>
    (let views = client_views (op_msgs [] ops); ann = announced (map view_prepare (op_msgs [] ops)) in
     (rt_input rt = bytes @ rest \<longrightarrow>
       ((\<exists>rt'. prepare arrival rt = (Ok (), rt')) \<longleftrightarrow> rt_accepts rt views ann) \<and>
       (\<forall>rt'. prepare arrival rt = (Ok (), rt') \<longrightarrow> rt_input rt' = rest \<and> clients_are (rt_client rt) views rt' \<and>
          mset (rt_interactions rt') = mset (map (runtime_interaction (rt_client rt) (rt_decode rt) views) ann))) \<and>
     (length views \<le> 256 \<longrightarrow> ann = announced (op_msgs [] ops)))"
proof -
  let ?msgs = "op_msgs [] ops"
  have kinds: "kinds_of rs = []" using assms(3) by (simp add: kinds_of_def)
  obtain rs1 where rs1: "gfor ops exec_op rs = (Ok (), rs1)" "sent_from rs ?msgs rs1"
    using exec_ops_spec [OF assms(1,2), of ops] assms(4) kinds by metis
  have good: "conn_good (rs_conn rs1)" "r_input (c_rd (rs_conn rs1)) = wire_prepare MsgPrepareDone @ answers"
    "conn_written (rs_conn rs1) = conn_written (rs_conn rs) @ concat (map wire_prepare ?msgs)"
    using rs1(2) assms(5) by (simp_all add: sent_from_def)
  obtain c where c: "secondaryConn_syncReady (rs_conn rs1) = (Ok (), c)"
    "c_out c = conn_written (rs_conn rs1) @ wire_prepare MsgPrepareDone"
    using syncReady_good [OF good(1,2)] by metis
  have ready: "remoteSecondary_ready rs1 = (Ok (), rs1\<lparr>rs_conn := c\<rparr>)"
    unfolding remoteSecondary_ready_def by (rule on_conn_run) (rule c(1))
  let ?bytes = "concat (map wire_prepare ?msgs) @ wire_prepare MsgPrepareDone"
  have inp: "rt_input rt = concat (map wire_prepare ?msgs) @ wire_prepare MsgPrepareDone @ rest"
    if "rt_input rt = ?bytes @ rest" using that by simp
  note prep = prepare_ops_iff [OF assms(4) inp assms(6,7,8)]
  have out: "c_out (rs_conn (rs1\<lparr>rs_conn := c\<rparr>)) = conn_written (rs_conn rs) @ ?bytes" using c(2) good(3) by simp
  let ?views = "client_views ?msgs" and ?ann = "announced (map view_prepare ?msgs)"
  have main: "rt_input rt = ?bytes @ rest \<longrightarrow>
       ((\<exists>rt'. prepare arrival rt = (Ok (), rt')) \<longleftrightarrow> rt_accepts rt ?views ?ann) \<and>
       (\<forall>rt'. prepare arrival rt = (Ok (), rt') \<longrightarrow> rt_input rt' = rest \<and> clients_are (rt_client rt) ?views rt' \<and>
          mset (rt_interactions rt') = mset (map (runtime_interaction (rt_client rt) (rt_decode rt) ?views) ?ann))"
    using prep by blast
  have few: "length ?views \<le> 256 \<longrightarrow> ?ann = announced ?msgs" using few_clients_announced [OF assms(4)] by blast
  show ?thesis
    unfolding Let_def
    by (intro exI [of _ rs1] exI [of _ "rs1\<lparr>rs_conn := c\<rparr>"] exI [of _ ?bytes] conjI) (fact rs1(1) ready out main few)+
qed

theorem preparation_reaches_secondary_witness:
  "\<exists>rs1 rs2 bytes. gfor demo_ops exec_op (fresh_secondary (wire_prepare MsgPrepareDone)) = (Ok (), rs1) \<and>
     remoteSecondary_ready rs1 = (Ok (), rs2) \<and> c_out (rs_conn rs2) = bytes \<and>
     (\<exists>rt'. prepare rev (mock_runtime bytes) = (Ok (), rt') \<and> size (mset (rt_interactions rt')) = 1)"
proof -
  let ?rs = "fresh_secondary (wire_prepare MsgPrepareDone)"
  let ?views = "client_views (op_msgs [] demo_ops)" and ?ann = "announced (map view_prepare (op_msgs [] demo_ops))"
  have rs: "remote_inv ?rs" "conn_good (rs_conn ?rs)" "rs_clients ?rs = []" "conn_written (rs_conn ?rs) = []"
    "r_input (c_rd (rs_conn ?rs)) = wire_prepare MsgPrepareDone @ []"
    by (simp_all add: fresh_secondary_def remote_inv_def)
  have one: "length ?ann = 1" by (simp add: demo_ops_def)
  have claim: "\<exists>rs1 rs2 bytes. gfor demo_ops exec_op ?rs = (Ok (), rs1) \<and> remoteSecondary_ready rs1 = (Ok (), rs2) \<and>
      c_out (rs_conn rs2) = bytes \<and> (inp = bytes \<longrightarrow> (\<exists>rt'. prepare rev (mock_runtime inp) = (Ok (), rt')) \<and>
      (\<forall>rt'. prepare rev (mock_runtime inp) = (Ok (), rt') \<longrightarrow> size (mset (rt_interactions rt')) = 1))" for inp
  proof -
    have acc: "rt_accepts (mock_runtime inp) ?views ?ann" by (rule demo_ops_accepted) simp_all
    have sz: "size (mset (rt_interactions rt')) = 1" if "mset (rt_interactions rt') = mset (map f ?ann)"
      for rt' :: "(mock_client, string) runtime" and f
      using that one by (metis length_map size_mset)
    obtain rs1 rs2 bytes where "gfor demo_ops exec_op ?rs = (Ok (), rs1)" "remoteSecondary_ready rs1 = (Ok (), rs2)"
      "c_out (rs_conn rs2) = bytes" "inp = bytes \<longrightarrow>
       ((\<exists>rt'. prepare rev (mock_runtime inp) = (Ok (), rt')) \<longleftrightarrow> rt_accepts (mock_runtime inp) ?views ?ann) \<and>
       (\<forall>rt'. prepare rev (mock_runtime inp) = (Ok (), rt') \<longrightarrow> rt_input rt' = [] \<and>
          clients_are (rt_client (mock_runtime inp)) ?views rt' \<and> mset (rt_interactions rt') =
            mset (map (runtime_interaction (rt_client (mock_runtime inp)) (rt_decode (mock_runtime inp)) ?views) ?ann))"
      using preparation_reaches_secondary [OF rs(1-3) demo_ops_ok rs(5) mock_runtime_simps(1,2) mset_rev, of inp "[]"]
      unfolding Let_def rs(4) append_Nil append_Nil2 mock_runtime_simps(3) by blast
    with acc sz show ?thesis by blast
  qed
  from claim [of "[]"] obtain rs1 rs2 where run: "gfor demo_ops exec_op ?rs = (Ok (), rs1)"
    "remoteSecondary_ready rs1 = (Ok (), rs2)" by blast
  from claim [of "c_out (rs_conn rs2)"] have "(\<exists>rt'. prepare rev (mock_runtime (c_out (rs_conn rs2))) = (Ok (), rt')) \<and>
      (\<forall>rt'. prepare rev (mock_runtime (c_out (rs_conn rs2))) = (Ok (), rt') \<longrightarrow> size (mset (rt_interactions rt')) = 1)"
    unfolding run(1) by (simp add: run(2))
  with run show ?thesis by blast
qed

section \<open>The results reach the report\<close>

text \<open>
  C4: End to end, secondary to primary: if a secondary that was prepared with the primary's
  operations finishes its run, in any interleaving of reports, then from the bytes it has sent
  the primary collects a result in which every client has exactly one interaction per
  \<^verbatim>\<open>sendInteraction\<close> of that client, each under the name of its own kind.
\<close>

theorem results_reach_report:
  fixes rt :: "('cl, 'op) runtime"
  assumes "ops_ok [] ops" and "kinds_of rs = fold op_kinds ops []"
    and "mset (rt_interactions rt) = mset (map (runtime_interaction mk dcd (client_views (op_msgs [] ops)))
      (announced (op_msgs [] ops)))"
    and "rt_start rt \<le> t0" and "rt_run (machine_start rt t0) m" and "m_phase m = Finished"
    and "c_out (rt_conn (m_rt m)) = conn_written (rt_conn rt) @ bytes"
    and "r_input (c_rd (rs_conn rs)) = bytes @ rest"
  shows "\<exists>sr rs'. collect rs = (Ok sr, rs') \<and> result_inv sr \<and>
    (\<forall>cid. mset (map ir_Kind (result_of sr cid)) =
       mset (map snd (filter (\<lambda>(c, kind). int c = cid) (op_interactions ops))))"
proof -
  let ?ann = "announced (op_msgs [] ops)"
  let ?ri = "runtime_interaction mk dcd (client_views (op_msgs [] ops))"
  have "set (rt_interactions rt) = ?ri ` set ?ann" using assms(3) by (metis list.set_map set_mset_mset)
  then have "list_all untouched (rt_interactions rt)"
    by (auto simp: list_all_iff runtime_interaction_untouched)
  then obtain snaps :: "('cl, 'op) runtimeInteraction list" where snaps: "map iact_ref snaps = map iact_ref (rt_interactions rt)"
    "c_out (rt_conn (m_rt m)) = conn_written (rt_conn rt) @
      result_stream (map (stop_msg (rt_start rt)) snaps) @ wire_result MsgResultDone"
    using finished_run_snaps [OF _ assms(4-6)] by metis
  have "mset (map iact_ref snaps) = image_mset iact_ref (mset (map ?ri ?ann))"
    unfolding snaps(1) mset_map [of iact_ref] assms(3) ..
  then have refs: "mset (map iact_ref snaps) = mset (map (\<lambda>m. (mpi_index m, mpi_ikind m)) ?ann)"
    by (simp add: multiset.map_comp comp_def runtime_interaction_ref)
  let ?ms = "map (stop_msg (rt_start rt)) snaps"
  have "reports rs ?ms"
    using results_of_ops(1) [OF assms(1,2) refs] snaps(2) assms(7,8) by (simp add: reports_def)
  from collect_reports [OF this] obtain sr rs' where
    sr: "collect rs = (Ok sr, rs')" "collected rs ?ms sr" by metis
  have "mset (map ir_Kind (result_of sr cid)) =
      mset (map snd (filter (\<lambda>(c, kind). int c = cid) (op_interactions ops)))" for cid
    using results_of_ops(2) [OF assms(1,2) refs, where start = "rt_start rt" and cid = cid] sr(2)
    by (simp add: collected_def comp_def multiset.map_comp)
  moreover have "result_inv sr" using sr(2) by (simp add: collected_def)
  ultimately show ?thesis using sr(1) by blast
qed

theorem results_reach_report_witness:
  "\<exists>sr rs' inp. collect ((fresh_secondary inp)\<lparr>rs_clients :=
       [(newRemoteClient 0 ''c'')\<lparr>rc_kinds := [''transfer'']\<rparr>]\<rparr>) = (Ok sr, rs') \<and>
     mset (map ir_Kind (result_of sr 0)) = {#''transfer''#}"
proof -
  let ?ops = "[OpClient ''c'' [''n1''], OpInteraction 0 ''transfer'' f64_one [1, 2]]"
  let ?ia = "runtime_interaction (\<lambda>view. view) (\<lambda>_ bs. bs) (client_views (op_msgs [] ?ops))
    \<lparr>mpi_index = 0, mpi_ikind = 0, mpi_time = f64_one, mpi_payload = [1, 2]\<rparr>"
  let ?rt = "demo_runtime [] [?ia]"
  have ok: "ops_ok [] ?ops" by (simp add: short_def add_kind_def kind_number_def)
  have fit: "results_fit ?rt"
    by (simp add: results_fit_def runtime_interaction_def newRuntimeInteraction_def newRuntimeClient_def)
  obtain m where m: "rt_run (machine_start ?rt 5) m" "m_phase m = Finished"
    using finish_releasing [of "machine_start ?rt 5" 1] fit by (auto simp: machine_start_def)
  let ?rs = "(fresh_secondary (c_out (rt_conn (m_rt m))))\<lparr>rs_clients :=
       [(newRemoteClient 0 ''c'')\<lparr>rc_kinds := [''transfer'']\<rparr>]\<rparr>"
  have kinds: "kinds_of ?rs = fold op_kinds ?ops []"
    by (simp add: kinds_of_def newRemoteClient_def add_kind_def)
  have ias: "mset (rt_interactions ?rt) = mset (map (runtime_interaction (\<lambda>view. view) (\<lambda>_ bs. bs)
      (client_views (op_msgs [] ?ops))) (announced (op_msgs [] ?ops)))"
    by (simp add: add_kind_def kind_number_def)
  have "\<exists>sr rs'. collect ?rs = (Ok sr, rs') \<and> result_inv sr \<and>
    (\<forall>cid. mset (map ir_Kind (result_of sr cid)) =
       mset (map snd (filter (\<lambda>(c, kind). int c = cid) (op_interactions ?ops))))"
    by (rule results_reach_report [OF ok kinds ias _ m, where rest = "[]" and bytes = "c_out (rt_conn (m_rt m))"])
      (simp_all add: fresh_secondary_def)
  then show ?thesis by fastforce
qed

end
